(* ===== verification/Prelude.thy ===== *)
theory Prelude
  imports Main "HOL-Library.Word"
begin

text \<open>
  What every component shares: the widths of the C integer types, byte buffers as lists with
  the slice operations \<open>memcpy\<close> amounts to, the little-endian view of four bytes as a
  \<open>uint32_t\<close>, and the collections the component proofs draw on.
  \<open>list_upd_at\<close> writes a run of bytes into a buffer; \<open>slice\<close> reads one.
\<close>

unbundle bit_operations_syntax

type_synonym u8 = "8 word"
type_synonym u16 = "16 word"
type_synonym u32 = "32 word"
type_synonym u64 = "64 word"
type_synonym bytes = "8 word list"

named_theorems buf_simps \<open>facts on byte buffers\<close>
named_theorems w32_simps \<open>facts that move 32-bit arithmetic to the naturals\<close>

subsection \<open>Slices of a buffer\<close>

definition slice :: "nat \<Rightarrow> nat \<Rightarrow> 'a list \<Rightarrow> 'a list" where
  "slice off n xs = take n (drop off xs)"

definition splice :: "nat \<Rightarrow> 'a list \<Rightarrow> 'a list \<Rightarrow> 'a list" where
  "splice off ys xs = take off xs @ ys @ drop (off + length ys) xs"

lemma length_slice [buf_simps]: "length (slice off n xs) = min n (length xs - off)"
  by (simp add: slice_def)

lemma length_splice [buf_simps]:
  "off + length ys \<le> length xs \<Longrightarrow> length (splice off ys xs) = length xs"
  by (simp add: splice_def)

lemma nth_slice [buf_simps]:
  "i < n \<Longrightarrow> off + i < length xs \<Longrightarrow> slice off n xs ! i = xs ! (off + i)"
  by (simp add: slice_def)

lemma nth_splice:
  assumes "off + length ys \<le> length xs"
  shows "splice off ys xs ! i =
    (if off \<le> i \<and> i < off + length ys then ys ! (i - off) else xs ! i)"
  using assms by (auto simp: splice_def nth_append not_less)

lemma slice_splice_same:
  assumes "off + length ys \<le> length xs" and "n = length ys"
  shows "slice off n (splice off ys xs) = ys"
  using assms by (simp add: slice_def splice_def)

lemma slice_splice_disjoint:
  assumes "off + length ys \<le> length xs"
    and "a + n \<le> off \<or> off + length ys \<le> a"
  shows "slice a n (splice off ys xs) = slice a n xs"
proof (rule nth_equalityI)
  show "length (slice a n (splice off ys xs)) = length (slice a n xs)"
    using assms(1) by (simp add: length_slice length_splice)
next
  fix i assume "i < length (slice a n (splice off ys xs))"
  then have i: "i < n" "a + i < length xs"
    using assms(1) by (auto simp: length_slice length_splice)
  have "splice off ys xs ! (a + i) = xs ! (a + i)"
    using assms i by (auto simp: nth_splice)
  then show "slice a n (splice off ys xs) ! i = slice a n xs ! i"
    using i assms(1) by (simp add: nth_slice length_splice)
qed

subsection \<open>32-bit arithmetic\<close>

lemma unat_plus_u32 [w32_simps]: "unat (a + b :: u32) = (unat a + unat b) mod 2 ^ 32"
  by (simp add: unat_word_ariths)

lemma unat_mult_u32 [w32_simps]: "unat (a * b :: u32) = (unat a * unat b) mod 2 ^ 32"
  by (simp add: unat_word_ariths)

lemma unat_lt_u32 [simp]: "unat (a :: u32) < 4294967296"
  using unsigned_less [of a] by simp

lemma unat_plus_u32_small:
  "unat a + unat b < 2 ^ 32 \<Longrightarrow> unat (a + b :: u32) = unat a + unat b"
  by (simp add: unat_plus_u32)

lemma unat_mult_u32_small:
  "unat a * unat b < 2 ^ 32 \<Longrightarrow> unat (a * b :: u32) = unat a * unat b"
  by (simp add: unat_mult_u32)

lemma unat_diff_next_less: "(i :: u32) \<noteq> n \<Longrightarrow> unat (n - (i + 1)) < unat (n - i)"
proof -
  assume "i \<noteq> n"
  then have "n - i \<noteq> 0" by simp
  moreover have "n - (i + 1) = n - i - 1" by simp
  ultimately show ?thesis
    by (metis unat_minus_one unat_gt_0 diff_less zero_less_one)
qed

lemma word_of_nat_eq_0_u32: "n < 2 ^ 32 \<Longrightarrow> (word_of_nat n = (0 :: u32)) = (n = 0)"
  by (auto simp: word_of_nat_eq_0_iff dest: dvd_imp_le)

lemma unat_ucast_u32_u64 [simp]: "unat (ucast (a :: u32) :: u64) = unat a"
  by (simp add: unsigned_ucast_eq take_bit_nat_eq_self less_trans [OF unat_lt_u32])

lemma unat_ucast_u64_u32: "unat (ucast (a :: u64) :: u32) = unat a mod 4294967296"
  by (simp add: unsigned_ucast_eq take_bit_eq_mod)

subsection \<open>Flat memory\<close>

text \<open>
  Where aliasing of two pointers matters, memory is a function from addresses to bytes and a
  pointer is an address.  \<open>read_mem\<close> and \<open>write_mem\<close> copy a run of bytes out and in.
\<close>

type_synonym memory = "nat \<Rightarrow> u8"

definition read_mem :: "memory \<Rightarrow> nat \<Rightarrow> nat \<Rightarrow> bytes" where
  "read_mem m a n = map (\<lambda>i. m (a + i)) [0..<n]"

definition write_mem :: "memory \<Rightarrow> nat \<Rightarrow> bytes \<Rightarrow> memory" where
  "write_mem m a bs = (\<lambda>x. if a \<le> x \<and> x < a + length bs then bs ! (x - a) else m x)"

lemma length_read_mem [simp]: "length (read_mem m a n) = n"
  by (simp add: read_mem_def)

lemma nth_read_mem [simp]: "i < n \<Longrightarrow> read_mem m a n ! i = m (a + i)"
  by (simp add: read_mem_def)

lemma write_mem_out: "x < a \<or> a + length bs \<le> x \<Longrightarrow> write_mem m a bs x = m x"
  by (auto simp: write_mem_def)

lemma read_write_mem_same: "n = length bs \<Longrightarrow> read_mem (write_mem m a bs) a n = bs"
  by (rule nth_equalityI) (simp_all add: write_mem_def)

lemma read_mem_cong: "(\<And>x. a \<le> x \<Longrightarrow> x < a + n \<Longrightarrow> m x = m' x) \<Longrightarrow> read_mem m a n = read_mem m' a n"
  by (simp add: read_mem_def)

lemma read_write_mem_disjoint:
  "a + n \<le> b \<or> b + length bs \<le> a \<Longrightarrow> read_mem (write_mem m b bs) a n = read_mem m a n"
  by (rule read_mem_cong) (auto simp: write_mem_def)

lemma read_mem_append: "read_mem m a (i + j) = read_mem m a i @ read_mem m (a + i) j"
  by (rule nth_equalityI) (auto simp: nth_append add.assoc)

end
