(* ===== verification/Aes.thy ===== *)
theory Aes
  imports Prelude
begin

text \<open>
  AES-128 as src/src/supply/stage90_aes.c writes it: the two substitution tables, the round
  functions over the 16-byte state \<open>s[r + 4*c]\<close>, the key expansion, the forward and the
  inverse cipher.  A C array of bytes is a byte list; a function that writes through a pointer
  returns the written bytes.
\<close>

unbundle bit_operations_syntax

subsection \<open>The tables\<close>

definition sbox :: "u8 list" where
  "sbox = [
    0x63, 0x7c, 0x77, 0x7b, 0xf2, 0x6b, 0x6f, 0xc5, 0x30, 0x01, 0x67, 0x2b, 0xfe, 0xd7, 0xab, 0x76,
    0xca, 0x82, 0xc9, 0x7d, 0xfa, 0x59, 0x47, 0xf0, 0xad, 0xd4, 0xa2, 0xaf, 0x9c, 0xa4, 0x72, 0xc0,
    0xb7, 0xfd, 0x93, 0x26, 0x36, 0x3f, 0xf7, 0xcc, 0x34, 0xa5, 0xe5, 0xf1, 0x71, 0xd8, 0x31, 0x15,
    0x04, 0xc7, 0x23, 0xc3, 0x18, 0x96, 0x05, 0x9a, 0x07, 0x12, 0x80, 0xe2, 0xeb, 0x27, 0xb2, 0x75,
    0x09, 0x83, 0x2c, 0x1a, 0x1b, 0x6e, 0x5a, 0xa0, 0x52, 0x3b, 0xd6, 0xb3, 0x29, 0xe3, 0x2f, 0x84,
    0x53, 0xd1, 0x00, 0xed, 0x20, 0xfc, 0xb1, 0x5b, 0x6a, 0xcb, 0xbe, 0x39, 0x4a, 0x4c, 0x58, 0xcf,
    0xd0, 0xef, 0xaa, 0xfb, 0x43, 0x4d, 0x33, 0x85, 0x45, 0xf9, 0x02, 0x7f, 0x50, 0x3c, 0x9f, 0xa8,
    0x51, 0xa3, 0x40, 0x8f, 0x92, 0x9d, 0x38, 0xf5, 0xbc, 0xb6, 0xda, 0x21, 0x10, 0xff, 0xf3, 0xd2,
    0xcd, 0x0c, 0x13, 0xec, 0x5f, 0x97, 0x44, 0x17, 0xc4, 0xa7, 0x7e, 0x3d, 0x64, 0x5d, 0x19, 0x73,
    0x60, 0x81, 0x4f, 0xdc, 0x22, 0x2a, 0x90, 0x88, 0x46, 0xee, 0xb8, 0x14, 0xde, 0x5e, 0x0b, 0xdb,
    0xe0, 0x32, 0x3a, 0x0a, 0x49, 0x06, 0x24, 0x5c, 0xc2, 0xd3, 0xac, 0x62, 0x91, 0x95, 0xe4, 0x79,
    0xe7, 0xc8, 0x37, 0x6d, 0x8d, 0xd5, 0x4e, 0xa9, 0x6c, 0x56, 0xf4, 0xea, 0x65, 0x7a, 0xae, 0x08,
    0xba, 0x78, 0x25, 0x2e, 0x1c, 0xa6, 0xb4, 0xc6, 0xe8, 0xdd, 0x74, 0x1f, 0x4b, 0xbd, 0x8b, 0x8a,
    0x70, 0x3e, 0xb5, 0x66, 0x48, 0x03, 0xf6, 0x0e, 0x61, 0x35, 0x57, 0xb9, 0x86, 0xc1, 0x1d, 0x9e,
    0xe1, 0xf8, 0x98, 0x11, 0x69, 0xd9, 0x8e, 0x94, 0x9b, 0x1e, 0x87, 0xe9, 0xce, 0x55, 0x28, 0xdf,
    0x8c, 0xa1, 0x89, 0x0d, 0xbf, 0xe6, 0x42, 0x68, 0x41, 0x99, 0x2d, 0x0f, 0xb0, 0x54, 0xbb, 0x16
  ]"

definition rsbox :: "u8 list" where
  "rsbox = [
    0x52, 0x09, 0x6a, 0xd5, 0x30, 0x36, 0xa5, 0x38, 0xbf, 0x40, 0xa3, 0x9e, 0x81, 0xf3, 0xd7, 0xfb,
    0x7c, 0xe3, 0x39, 0x82, 0x9b, 0x2f, 0xff, 0x87, 0x34, 0x8e, 0x43, 0x44, 0xc4, 0xde, 0xe9, 0xcb,
    0x54, 0x7b, 0x94, 0x32, 0xa6, 0xc2, 0x23, 0x3d, 0xee, 0x4c, 0x95, 0x0b, 0x42, 0xfa, 0xc3, 0x4e,
    0x08, 0x2e, 0xa1, 0x66, 0x28, 0xd9, 0x24, 0xb2, 0x76, 0x5b, 0xa2, 0x49, 0x6d, 0x8b, 0xd1, 0x25,
    0x72, 0xf8, 0xf6, 0x64, 0x86, 0x68, 0x98, 0x16, 0xd4, 0xa4, 0x5c, 0xcc, 0x5d, 0x65, 0xb6, 0x92,
    0x6c, 0x70, 0x48, 0x50, 0xfd, 0xed, 0xb9, 0xda, 0x5e, 0x15, 0x46, 0x57, 0xa7, 0x8d, 0x9d, 0x84,
    0x90, 0xd8, 0xab, 0x00, 0x8c, 0xbc, 0xd3, 0x0a, 0xf7, 0xe4, 0x58, 0x05, 0xb8, 0xb3, 0x45, 0x06,
    0xd0, 0x2c, 0x1e, 0x8f, 0xca, 0x3f, 0x0f, 0x02, 0xc1, 0xaf, 0xbd, 0x03, 0x01, 0x13, 0x8a, 0x6b,
    0x3a, 0x91, 0x11, 0x41, 0x4f, 0x67, 0xdc, 0xea, 0x97, 0xf2, 0xcf, 0xce, 0xf0, 0xb4, 0xe6, 0x73,
    0x96, 0xac, 0x74, 0x22, 0xe7, 0xad, 0x35, 0x85, 0xe2, 0xf9, 0x37, 0xe8, 0x1c, 0x75, 0xdf, 0x6e,
    0x47, 0xf1, 0x1a, 0x71, 0x1d, 0x29, 0xc5, 0x89, 0x6f, 0xb7, 0x62, 0x0e, 0xaa, 0x18, 0xbe, 0x1b,
    0xfc, 0x56, 0x3e, 0x4b, 0xc6, 0xd2, 0x79, 0x20, 0x9a, 0xdb, 0xc0, 0xfe, 0x78, 0xcd, 0x5a, 0xf4,
    0x1f, 0xdd, 0xa8, 0x33, 0x88, 0x07, 0xc7, 0x31, 0xb1, 0x12, 0x10, 0x59, 0x27, 0x80, 0xec, 0x5f,
    0x60, 0x51, 0x7f, 0xa9, 0x19, 0xb5, 0x4a, 0x0d, 0x2d, 0xe5, 0x7a, 0x9f, 0x93, 0xc9, 0x9c, 0xef,
    0xa0, 0xe0, 0x3b, 0x4d, 0xae, 0x2a, 0xf5, 0xb0, 0xc8, 0xeb, 0xbb, 0x3c, 0x83, 0x53, 0x99, 0x61,
    0x17, 0x2b, 0x04, 0x7e, 0xba, 0x77, 0xd6, 0x26, 0xe1, 0x69, 0x14, 0x63, 0x55, 0x21, 0x0c, 0x7d
  ]"

definition Rcon :: "u8 list" where
  "Rcon = [0x8d, 0x01, 0x02, 0x04, 0x08, 0x10, 0x20, 0x40, 0x80, 0x1b, 0x36]"

subsection \<open>The round functions\<close>

definition xtime :: "u8 \<Rightarrow> u8" where
  "xtime x = push_bit 1 x XOR (if x AND 0x80 \<noteq> 0 then 0x1b else 0x00)"

definition add_round_key :: "bytes \<Rightarrow> bytes \<Rightarrow> bytes" where
  "add_round_key s rk = map (\<lambda>i. s ! i XOR rk ! i) [0..<16]"

definition sub_bytes :: "bytes \<Rightarrow> bytes" where
  "sub_bytes s = map (\<lambda>i. sbox ! unat (s ! i)) [0..<16]"

definition inv_sub_bytes :: "bytes \<Rightarrow> bytes" where
  "inv_sub_bytes s = map (\<lambda>i. rsbox ! unat (s ! i)) [0..<16]"

definition shift_rows :: "bytes \<Rightarrow> bytes" where
  "shift_rows t = map (\<lambda>i. let r = i mod 4; c = i div 4 in t ! (r + 4 * ((c + r) mod 4))) [0..<16]"

definition inv_shift_rows :: "bytes \<Rightarrow> bytes" where
  "inv_shift_rows t = map (\<lambda>i. let r = i mod 4; c = i div 4 in t ! (r + 4 * ((c + 4 - r) mod 4))) [0..<16]"

definition mix_column :: "u8 \<Rightarrow> u8 \<Rightarrow> u8 \<Rightarrow> u8 \<Rightarrow> bytes" where
  "mix_column a0 a1 a2 a3 =
    [xtime a0 XOR (xtime a1 XOR a1) XOR a2 XOR a3,
     a0 XOR xtime a1 XOR (xtime a2 XOR a2) XOR a3,
     a0 XOR a1 XOR xtime a2 XOR (xtime a3 XOR a3),
     (xtime a0 XOR a0) XOR a1 XOR a2 XOR xtime a3]"

definition mix_columns :: "bytes \<Rightarrow> bytes" where
  "mix_columns s = concat (map (\<lambda>c. mix_column (s ! (4 * c)) (s ! (4 * c + 1)) (s ! (4 * c + 2)) (s ! (4 * c + 3))) [0..<4])"

text \<open>The \<open>while (b)\<close> loop of \<open>gmul\<close>: \<open>b\<close> is shifted right once per turn, so it stops.\<close>

lemma drop_bit_1_less: "b \<noteq> 0 \<Longrightarrow> unat (drop_bit 1 (b :: u8)) < unat b"
  by (simp add: drop_bit_eq_div unat_div unat_gt_0)

function gmul_loop :: "u8 \<Rightarrow> u8 \<Rightarrow> u8 \<Rightarrow> u8" where
  "gmul_loop a b r =
    (if b = 0 then r
     else gmul_loop (xtime a) (drop_bit 1 b) (if b AND 1 \<noteq> 0 then r XOR a else r))"
  by pat_completeness auto
termination
  by (relation "measure (\<lambda>(a, b, r). unat b)") (use drop_bit_1_less in auto)

declare gmul_loop.simps [simp del]

definition gmul :: "u8 \<Rightarrow> u8 \<Rightarrow> u8" where
  "gmul a b = gmul_loop a b 0"

definition inv_mix_column :: "u8 \<Rightarrow> u8 \<Rightarrow> u8 \<Rightarrow> u8 \<Rightarrow> bytes" where
  "inv_mix_column a0 a1 a2 a3 =
    [gmul a0 0x0e XOR gmul a1 0x0b XOR gmul a2 0x0d XOR gmul a3 0x09,
     gmul a0 0x09 XOR gmul a1 0x0e XOR gmul a2 0x0b XOR gmul a3 0x0d,
     gmul a0 0x0d XOR gmul a1 0x09 XOR gmul a2 0x0e XOR gmul a3 0x0b,
     gmul a0 0x0b XOR gmul a1 0x0d XOR gmul a2 0x09 XOR gmul a3 0x0e]"

definition inv_mix_columns :: "bytes \<Rightarrow> bytes" where
  "inv_mix_columns s = concat (map (\<lambda>c. inv_mix_column (s ! (4 * c)) (s ! (4 * c + 1)) (s ! (4 * c + 2)) (s ! (4 * c + 3))) [0..<4])"

subsection \<open>Key expansion and the two ciphers\<close>

text \<open>
  One turn of the expansion loop for word \<open>i\<close>: \<open>rk\<close> holds the \<open>4 * i\<close> bytes written so
  far and the turn appends the next four.
\<close>

definition expand_word :: "nat \<Rightarrow> bytes \<Rightarrow> bytes" where
  "expand_word i rk =
    (let t = map (\<lambda>j. rk ! (4 * (i - 1) + j)) [0..<4];
         t' = (if i mod 4 = 0
               then [sbox ! unat (t ! 1) XOR Rcon ! (i div 4), sbox ! unat (t ! 2),
                     sbox ! unat (t ! 3), sbox ! unat (t ! 0)]
               else t)
     in rk @ map (\<lambda>j. rk ! (4 * (i - 4) + j) XOR t' ! j) [0..<4])"

definition stage90_aes128_expand_key :: "bytes \<Rightarrow> bytes" where
  "stage90_aes128_expand_key key = fold expand_word [4..<44] (map (\<lambda>i. key ! i) [0..<16])"

definition enc_round :: "bytes \<Rightarrow> nat \<Rightarrow> bytes \<Rightarrow> bytes" where
  "enc_round rk round s = add_round_key (mix_columns (shift_rows (sub_bytes s))) (drop (16 * round) rk)"

definition stage90_aes128_encrypt_block :: "bytes \<Rightarrow> bytes \<Rightarrow> bytes" where
  "stage90_aes128_encrypt_block rk inp =
    (let s = map (\<lambda>i. inp ! i) [0..<16];
         s = add_round_key s rk;
         s = fold (enc_round rk) [1..<10] s
     in add_round_key (shift_rows (sub_bytes s)) (drop (16 * 10) rk))"

definition dec_round :: "bytes \<Rightarrow> nat \<Rightarrow> bytes \<Rightarrow> bytes" where
  "dec_round rk round s = inv_mix_columns (add_round_key (inv_sub_bytes (inv_shift_rows s)) (drop (16 * round) rk))"

definition stage90_aes128_decrypt_block :: "bytes \<Rightarrow> bytes \<Rightarrow> bytes" where
  "stage90_aes128_decrypt_block rk inp =
    (let s = map (\<lambda>i. inp ! i) [0..<16];
         s = add_round_key s (drop (16 * 10) rk);
         s = fold (dec_round rk) (rev [1..<10]) s
     in add_round_key (inv_sub_bytes (inv_shift_rows s)) rk)"

subsection \<open>The inverse cipher undoes the forward cipher\<close>

lemma upt16: "[0..<16] = [0,1,2,3,4,5,6,7,8,9,10,11,12,13,14,15::nat]" by (simp add: upt_rec)
lemma upt4: "[0..<4] = [0,1,2,3::nat]" by (simp add: upt_rec)

lemma length16E:
  assumes "length s = 16"
  obtains a0 a1 a2 a3 a4 a5 a6 a7 a8 a9 a10 a11 a12 a13 a14 a15
  where "s = [a0, a1, a2, a3, a4, a5, a6, a7, a8, a9, a10, a11, a12, a13, a14, a15]"
proof -
  have "s = map (\<lambda>i. s ! i) [0..<16]"
    using assms by (metis map_nth)
  then show ?thesis
    using that by (simp add: upt16)
qed

lemma rsbox_sbox_all: "map (\<lambda>b. rsbox ! unat b) sbox = map word_of_nat [0..<256]"
  by (simp add: rsbox_def sbox_def upt_rec)

lemma rsbox_sbox: "rsbox ! unat (sbox ! unat x) = x"
proof -
  have n: "unat x < 256" using unsigned_less [of x] by simp
  have "map (\<lambda>b. rsbox ! unat b) sbox ! unat x = map word_of_nat [0..<256] ! unat x"
    by (simp only: rsbox_sbox_all)
  moreover have "length sbox = 256" by (simp add: sbox_def)
  ultimately show ?thesis using n by simp
qed

lemma inv_sub_bytes_sub_bytes: "length s = 16 \<Longrightarrow> inv_sub_bytes (sub_bytes s) = s"
  by (erule length16E) (simp add: sub_bytes_def inv_sub_bytes_def upt16 rsbox_sbox)

lemma inv_shift_rows_shift_rows: "length s = 16 \<Longrightarrow> inv_shift_rows (shift_rows s) = s"
  by (erule length16E) (simp add: shift_rows_def inv_shift_rows_def upt16 Let_def)

lemma add_round_key_twice: "length s = 16 \<Longrightarrow> add_round_key (add_round_key s k) k = s"
  by (erule length16E) (simp add: add_round_key_def upt16 xor.assoc)

lemma xtime_xor: "xtime (a XOR b) = xtime a XOR xtime b"
proof -
  have t: "c AND 0x80 = (if bit c 7 then 0x80 else 0)" for c :: u8
    by (rule bit_eqI) (auto simp: bit_simps less_Suc_eq numeral_eq_Suc)
  have p: "push_bit 1 (a XOR b) = push_bit 1 a XOR push_bit 1 b" by (rule push_bit_xor)
  show ?thesis unfolding xtime_def p t bit_xor_iff
    by (cases "bit a 7"; cases "bit b 7") (simp_all add: ac_simps)
qed

lemma gmul_09: "gmul a 0x09 = xtime (xtime (xtime a)) XOR a"
  and gmul_0b: "gmul a 0x0b = xtime (xtime (xtime a)) XOR xtime a XOR a"
  and gmul_0d: "gmul a 0x0d = xtime (xtime (xtime a)) XOR xtime (xtime a) XOR a"
  and gmul_0e: "gmul a 0x0e = xtime (xtime (xtime a)) XOR xtime (xtime a) XOR xtime a"
  by (simp_all add: gmul_def gmul_loop.simps xor.commute xor.left_commute)

lemma inv_mix_column_mix_column:
  "inv_mix_column (mix_column a0 a1 a2 a3 ! 0) (mix_column a0 a1 a2 a3 ! 1)
     (mix_column a0 a1 a2 a3 ! 2) (mix_column a0 a1 a2 a3 ! 3) = [a0, a1, a2, a3]"
  by (simp add: mix_column_def inv_mix_column_def gmul_09 gmul_0b gmul_0d gmul_0e xtime_xor
      xor.commute xor.left_commute xor.assoc)

lemma length_mix_column [simp]: "length (mix_column a b c d) = 4"
  by (simp add: mix_column_def)

lemma inv_mix_columns_columns:
  assumes "length w = 4" "length x = 4" "length y = 4" "length z = 4"
  shows "inv_mix_columns (w @ x @ y @ z) =
    inv_mix_column (w ! 0) (w ! 1) (w ! 2) (w ! 3) @ inv_mix_column (x ! 0) (x ! 1) (x ! 2) (x ! 3) @
    inv_mix_column (y ! 0) (y ! 1) (y ! 2) (y ! 3) @ inv_mix_column (z ! 0) (z ! 1) (z ! 2) (z ! 3)"
  using assms by (simp add: inv_mix_columns_def upt4 nth_append numeral_2_eq_2)

lemma inv_mix_columns_mix_columns: "length s = 16 \<Longrightarrow> inv_mix_columns (mix_columns s) = s"
proof (erule length16E)
  fix a0 a1 a2 a3 a4 a5 a6 a7 a8 a9 a10 a11 a12 a13 a14 a15
  assume s: "s = [a0, a1, a2, a3, a4, a5, a6, a7, a8, a9, a10, a11, a12, a13, a14, a15]"
  have "mix_columns s = mix_column a0 a1 a2 a3 @ mix_column a4 a5 a6 a7 @ mix_column a8 a9 a10 a11 @ mix_column a12 a13 a14 a15"
    by (simp add: s mix_columns_def upt4)
  then show "inv_mix_columns (mix_columns s) = s"
    by (simp only: inv_mix_columns_columns length_mix_column inv_mix_column_mix_column) (simp add: s)
qed

lemma length_add_round_key [simp]: "length (add_round_key s k) = 16"
  and length_sub_bytes [simp]: "length (sub_bytes s) = 16"
  and length_shift_rows [simp]: "length (shift_rows s) = 16"
  by (simp_all add: add_round_key_def sub_bytes_def shift_rows_def)

lemma length_mix_columns [simp]: "length (mix_columns s) = 16"
  by (simp add: mix_columns_def mix_column_def upt4)

lemma length_enc_round [simp]: "length (enc_round rk r s) = 16"
  by (simp add: enc_round_def)

lemma dec_round_enc_round:
  assumes "length s = 16"
  shows "dec_round rk r (shift_rows (sub_bytes (enc_round rk r s))) = shift_rows (sub_bytes s)"
  by (simp add: dec_round_def enc_round_def inv_shift_rows_shift_rows inv_sub_bytes_sub_bytes
      add_round_key_twice inv_mix_columns_mix_columns)

lemma dec_rounds_enc_rounds:
  "length s = 16 \<Longrightarrow>
    fold (dec_round rk) (rev rs) (shift_rows (sub_bytes (fold (enc_round rk) rs s))) = shift_rows (sub_bytes s)"
  by (induction rs arbitrary: s) (simp_all add: dec_round_enc_round)

lemma length_enc_rounds: "length s = 16 \<Longrightarrow> length (fold (enc_round rk) rs s) = 16"
  by (induction rs arbitrary: s) simp_all

lemma map_nth_16: "length s = 16 \<Longrightarrow> map (\<lambda>i. s ! i) [0..<16] = s"
  by (metis map_nth)

lemma decrypt_encrypt_block:
  assumes "length inp = 16"
  shows "stage90_aes128_decrypt_block rk (stage90_aes128_encrypt_block rk inp) = inp"
  unfolding stage90_aes128_decrypt_block_def stage90_aes128_encrypt_block_def Let_def
  using assms
  by (simp only: map_nth_16 length_add_round_key add_round_key_twice length_shift_rows dec_rounds_enc_rounds
      inv_shift_rows_shift_rows length_sub_bytes inv_sub_bytes_sub_bytes length_enc_rounds)

end
