(* ===== verification/Aes_Vectors.thy ===== *)
theory Aes_Vectors
  imports Aes
begin

text \<open>
  FIPS-197 Appendix C.1, the vector the image's constructor runs
  (src/src/supply/stage90_crypto_functions.c): the key schedule of \<open>000102...0f\<close>, each
  round of the encryption of \<open>00112233...ff\<close>, and the ciphertext, all evaluated by the
  simplifier on the definitions of \<open>Aes\<close>.
\<close>

unbundle bit_operations_syntax

definition fips_c1_key :: bytes where
  "fips_c1_key = [0x00, 0x01, 0x02, 0x03, 0x04, 0x05, 0x06, 0x07, 0x08, 0x09, 0x0a, 0x0b, 0x0c, 0x0d, 0x0e, 0x0f]"
definition fips_c1_pt :: bytes where
  "fips_c1_pt = [0x00, 0x11, 0x22, 0x33, 0x44, 0x55, 0x66, 0x77, 0x88, 0x99, 0xaa, 0xbb, 0xcc, 0xdd, 0xee, 0xff]"
definition fips_c1_ct :: bytes where
  "fips_c1_ct = [0x69, 0xc4, 0xe0, 0xd8, 0x6a, 0x7b, 0x04, 0x30, 0xd8, 0xcd, 0xb7, 0x80, 0x70, 0xb4, 0xc5, 0x5a]"
definition fips_c1_rk :: bytes where
  "fips_c1_rk =
    [0x00, 0x01, 0x02, 0x03, 0x04, 0x05, 0x06, 0x07, 0x08, 0x09, 0x0a, 0x0b, 0x0c, 0x0d, 0x0e, 0x0f,
    0xd6, 0xaa, 0x74, 0xfd, 0xd2, 0xaf, 0x72, 0xfa, 0xda, 0xa6, 0x78, 0xf1, 0xd6, 0xab, 0x76, 0xfe,
    0xb6, 0x92, 0xcf, 0x0b, 0x64, 0x3d, 0xbd, 0xf1, 0xbe, 0x9b, 0xc5, 0x00, 0x68, 0x30, 0xb3, 0xfe,
    0xb6, 0xff, 0x74, 0x4e, 0xd2, 0xc2, 0xc9, 0xbf, 0x6c, 0x59, 0x0c, 0xbf, 0x04, 0x69, 0xbf, 0x41,
    0x47, 0xf7, 0xf7, 0xbc, 0x95, 0x35, 0x3e, 0x03, 0xf9, 0x6c, 0x32, 0xbc, 0xfd, 0x05, 0x8d, 0xfd,
    0x3c, 0xaa, 0xa3, 0xe8, 0xa9, 0x9f, 0x9d, 0xeb, 0x50, 0xf3, 0xaf, 0x57, 0xad, 0xf6, 0x22, 0xaa,
    0x5e, 0x39, 0x0f, 0x7d, 0xf7, 0xa6, 0x92, 0x96, 0xa7, 0x55, 0x3d, 0xc1, 0x0a, 0xa3, 0x1f, 0x6b,
    0x14, 0xf9, 0x70, 0x1a, 0xe3, 0x5f, 0xe2, 0x8c, 0x44, 0x0a, 0xdf, 0x4d, 0x4e, 0xa9, 0xc0, 0x26,
    0x47, 0x43, 0x87, 0x35, 0xa4, 0x1c, 0x65, 0xb9, 0xe0, 0x16, 0xba, 0xf4, 0xae, 0xbf, 0x7a, 0xd2,
    0x54, 0x99, 0x32, 0xd1, 0xf0, 0x85, 0x57, 0x68, 0x10, 0x93, 0xed, 0x9c, 0xbe, 0x2c, 0x97, 0x4e,
    0x13, 0x11, 0x1d, 0x7f, 0xe3, 0x94, 0x4a, 0x17, 0xf3, 0x07, 0xa7, 0x8b, 0x4d, 0x2b, 0x30, 0xc5]"

lemma fips_c1_schedule: "stage90_aes128_expand_key fips_c1_key = fips_c1_rk"
  by (simp add: stage90_aes128_expand_key_def fips_c1_key_def fips_c1_rk_def upt_rec [of 4 44]
      upt_rec upt16 upt4 expand_word_def Let_def sbox_def Rcon_def)

lemma fips_c1_round1: "enc_round fips_c1_rk 1
    [0x00, 0x10, 0x20, 0x30, 0x40, 0x50, 0x60, 0x70, 0x80, 0x90, 0xa0, 0xb0, 0xc0, 0xd0, 0xe0, 0xf0] =
    [0x89, 0xd8, 0x10, 0xe8, 0x85, 0x5a, 0xce, 0x68, 0x2d, 0x18, 0x43, 0xd8, 0xcb, 0x12, 0x8f, 0xe4]"
  by (simp add: enc_round_def fips_c1_rk_def add_round_key_def mix_columns_def mix_column_def shift_rows_def sub_bytes_def upt16 upt4 Let_def xtime_def sbox_def)

lemma fips_c1_round2: "enc_round fips_c1_rk 2
    [0x89, 0xd8, 0x10, 0xe8, 0x85, 0x5a, 0xce, 0x68, 0x2d, 0x18, 0x43, 0xd8, 0xcb, 0x12, 0x8f, 0xe4] =
    [0x49, 0x15, 0x59, 0x8f, 0x55, 0xe5, 0xd7, 0xa0, 0xda, 0xca, 0x94, 0xfa, 0x1f, 0x0a, 0x63, 0xf7]"
  by (simp add: enc_round_def fips_c1_rk_def add_round_key_def mix_columns_def mix_column_def shift_rows_def sub_bytes_def upt16 upt4 Let_def xtime_def sbox_def)

lemma fips_c1_round3: "enc_round fips_c1_rk 3
    [0x49, 0x15, 0x59, 0x8f, 0x55, 0xe5, 0xd7, 0xa0, 0xda, 0xca, 0x94, 0xfa, 0x1f, 0x0a, 0x63, 0xf7] =
    [0xfa, 0x63, 0x6a, 0x28, 0x25, 0xb3, 0x39, 0xc9, 0x40, 0x66, 0x8a, 0x31, 0x57, 0x24, 0x4d, 0x17]"
  by (simp add: enc_round_def fips_c1_rk_def add_round_key_def mix_columns_def mix_column_def shift_rows_def sub_bytes_def upt16 upt4 Let_def xtime_def sbox_def)

lemma fips_c1_round4: "enc_round fips_c1_rk 4
    [0xfa, 0x63, 0x6a, 0x28, 0x25, 0xb3, 0x39, 0xc9, 0x40, 0x66, 0x8a, 0x31, 0x57, 0x24, 0x4d, 0x17] =
    [0x24, 0x72, 0x40, 0x23, 0x69, 0x66, 0xb3, 0xfa, 0x6e, 0xd2, 0x75, 0x32, 0x88, 0x42, 0x5b, 0x6c]"
  by (simp add: enc_round_def fips_c1_rk_def add_round_key_def mix_columns_def mix_column_def shift_rows_def sub_bytes_def upt16 upt4 Let_def xtime_def sbox_def)

lemma fips_c1_round5: "enc_round fips_c1_rk 5
    [0x24, 0x72, 0x40, 0x23, 0x69, 0x66, 0xb3, 0xfa, 0x6e, 0xd2, 0x75, 0x32, 0x88, 0x42, 0x5b, 0x6c] =
    [0xc8, 0x16, 0x77, 0xbc, 0x9b, 0x7a, 0xc9, 0x3b, 0x25, 0x02, 0x79, 0x92, 0xb0, 0x26, 0x19, 0x96]"
  by (simp add: enc_round_def fips_c1_rk_def add_round_key_def mix_columns_def mix_column_def shift_rows_def sub_bytes_def upt16 upt4 Let_def xtime_def sbox_def)

lemma fips_c1_round6: "enc_round fips_c1_rk 6
    [0xc8, 0x16, 0x77, 0xbc, 0x9b, 0x7a, 0xc9, 0x3b, 0x25, 0x02, 0x79, 0x92, 0xb0, 0x26, 0x19, 0x96] =
    [0xc6, 0x2f, 0xe1, 0x09, 0xf7, 0x5e, 0xed, 0xc3, 0xcc, 0x79, 0x39, 0x5d, 0x84, 0xf9, 0xcf, 0x5d]"
  by (simp add: enc_round_def fips_c1_rk_def add_round_key_def mix_columns_def mix_column_def shift_rows_def sub_bytes_def upt16 upt4 Let_def xtime_def sbox_def)

lemma fips_c1_round7: "enc_round fips_c1_rk 7
    [0xc6, 0x2f, 0xe1, 0x09, 0xf7, 0x5e, 0xed, 0xc3, 0xcc, 0x79, 0x39, 0x5d, 0x84, 0xf9, 0xcf, 0x5d] =
    [0xd1, 0x87, 0x6c, 0x0f, 0x79, 0xc4, 0x30, 0x0a, 0xb4, 0x55, 0x94, 0xad, 0xd6, 0x6f, 0xf4, 0x1f]"
  by (simp add: enc_round_def fips_c1_rk_def add_round_key_def mix_columns_def mix_column_def shift_rows_def sub_bytes_def upt16 upt4 Let_def xtime_def sbox_def)

lemma fips_c1_round8: "enc_round fips_c1_rk 8
    [0xd1, 0x87, 0x6c, 0x0f, 0x79, 0xc4, 0x30, 0x0a, 0xb4, 0x55, 0x94, 0xad, 0xd6, 0x6f, 0xf4, 0x1f] =
    [0xfd, 0xe3, 0xba, 0xd2, 0x05, 0xe5, 0xd0, 0xd7, 0x35, 0x47, 0x96, 0x4e, 0xf1, 0xfe, 0x37, 0xf1]"
  by (simp add: enc_round_def fips_c1_rk_def add_round_key_def mix_columns_def mix_column_def shift_rows_def sub_bytes_def upt16 upt4 Let_def xtime_def sbox_def)

lemma fips_c1_round9: "enc_round fips_c1_rk 9
    [0xfd, 0xe3, 0xba, 0xd2, 0x05, 0xe5, 0xd0, 0xd7, 0x35, 0x47, 0x96, 0x4e, 0xf1, 0xfe, 0x37, 0xf1] =
    [0xbd, 0x6e, 0x7c, 0x3d, 0xf2, 0xb5, 0x77, 0x9e, 0x0b, 0x61, 0x21, 0x6e, 0x8b, 0x10, 0xb6, 0x89]"
  by (simp add: enc_round_def fips_c1_rk_def add_round_key_def mix_columns_def mix_column_def shift_rows_def sub_bytes_def upt16 upt4 Let_def xtime_def sbox_def)

lemma fips_c1: "stage90_aes128_encrypt_block fips_c1_rk fips_c1_pt = fips_c1_ct"
proof -
  have rounds: "[1..<10] = [1, 2, 3, 4, 5, 6, 7, 8, 9::nat]" by (simp add: upt_rec)
  have start: "add_round_key fips_c1_pt fips_c1_rk = [0x00, 0x10, 0x20, 0x30, 0x40, 0x50, 0x60, 0x70, 0x80, 0x90, 0xa0, 0xb0, 0xc0, 0xd0, 0xe0, 0xf0]"
    by (simp add: add_round_key_def fips_c1_pt_def fips_c1_rk_def upt16)
  have pt: "map (\<lambda>i. fips_c1_pt ! i) [0..<16] = fips_c1_pt"
    by (rule map_nth_16) (simp add: fips_c1_pt_def)
  show ?thesis
    by (simp only: pt stage90_aes128_encrypt_block_def Let_def rounds fold_simps start
      fips_c1_round1 fips_c1_round2 fips_c1_round3 fips_c1_round4 fips_c1_round5 fips_c1_round6
      fips_c1_round7 fips_c1_round8 fips_c1_round9)
      (simp add: add_round_key_def shift_rows_def sub_bytes_def upt16 Let_def sbox_def fips_c1_rk_def fips_c1_ct_def)
qed
end
