(* ===== verification/Cbc.thy ===== *)
theory Cbc
  imports Aes
begin

text \<open>
  The CBC routines of src/src/supply/stage90_aes.c over a flat memory, so that the two buffers
  may overlap as the C allows, the interface a block cipher offers to a chaining mode, and the
  proof that the code computes SP 800-38A chaining where the buffers permit it.
\<close>

unbundle bit_operations_syntax

subsection \<open>The code\<close>

text \<open>One turn of the encryption loop: the block is built in a local array, enciphered into
  \<open>out\<close>, and the IV is read back from \<open>out\<close>.\<close>

definition cbc_encrypt_turn :: "bytes \<Rightarrow> nat \<Rightarrow> nat \<Rightarrow> nat \<Rightarrow> memory \<times> bytes \<Rightarrow> memory \<times> bytes" where
  "cbc_encrypt_turn rk pin pout b st =
    (let (m, iv) = st;
         blk = map (\<lambda>i. m (pin + 16 * b + i) XOR iv ! i) [0..<16];
         m' = write_mem m (pout + 16 * b) (stage90_aes128_encrypt_block rk blk);
         iv' = map (\<lambda>i. m' (pout + 16 * b + i)) [0..<16]
     in (m', iv'))"

definition stage90_aes128_cbc_encrypt :: "bytes \<Rightarrow> bytes \<Rightarrow> nat \<Rightarrow> nat \<Rightarrow> nat \<Rightarrow> memory \<Rightarrow> memory \<times> bytes" where
  "stage90_aes128_cbc_encrypt rk iv nblocks pin pout m =
    fold (cbc_encrypt_turn rk pin pout) [0..<nblocks] (m, iv)"

text \<open>One turn of the decryption loop: \<open>out[16*b+i]\<close> is stored before \<open>in[16*b+i]\<close> is read
  into the IV, byte by byte.\<close>

definition cbc_decrypt_byte :: "bytes \<Rightarrow> nat \<Rightarrow> nat \<Rightarrow> nat \<Rightarrow> memory \<times> bytes \<Rightarrow> memory \<times> bytes" where
  "cbc_decrypt_byte blk a_in a_out i st =
    (let (m, iv) = st;
         m' = m(a_out + i := blk ! i XOR iv ! i)
     in (m', iv[i := m' (a_in + i)]))"

definition cbc_decrypt_turn :: "bytes \<Rightarrow> nat \<Rightarrow> nat \<Rightarrow> nat \<Rightarrow> memory \<times> bytes \<Rightarrow> memory \<times> bytes" where
  "cbc_decrypt_turn rk pin pout b st =
    (let blk = stage90_aes128_decrypt_block rk (read_mem (fst st) (pin + 16 * b) 16)
     in fold (cbc_decrypt_byte blk (pin + 16 * b) (pout + 16 * b)) [0..<16] st)"

definition stage90_aes128_cbc_decrypt :: "bytes \<Rightarrow> bytes \<Rightarrow> nat \<Rightarrow> nat \<Rightarrow> nat \<Rightarrow> memory \<Rightarrow> memory \<times> bytes" where
  "stage90_aes128_cbc_decrypt rk iv nblocks pin pout m =
    fold (cbc_decrypt_turn rk pin pout) [0..<nblocks] (m, iv)"

subsection \<open>The mode as the standard states it\<close>

definition xor16 :: "bytes \<Rightarrow> bytes \<Rightarrow> bytes" where
  "xor16 x y = map (\<lambda>i. x ! i XOR y ! i) [0..<16]"

fun cbc_enc_spec :: "(bytes \<Rightarrow> bytes) \<Rightarrow> bytes \<Rightarrow> bytes list \<Rightarrow> bytes list" where
  "cbc_enc_spec enc iv [] = []"
| "cbc_enc_spec enc iv (p # ps) = (let c = enc (xor16 p iv) in c # cbc_enc_spec enc c ps)"

fun cbc_dec_spec :: "(bytes \<Rightarrow> bytes) \<Rightarrow> bytes \<Rightarrow> bytes list \<Rightarrow> bytes list" where
  "cbc_dec_spec dec iv [] = []"
| "cbc_dec_spec dec iv (c # cs) = xor16 (dec c) iv # cbc_dec_spec dec c cs"

lemma length_xor16 [simp]: "length (xor16 x y) = 16"
  by (simp add: xor16_def)

lemma nth_xor16 [simp]: "i < 16 \<Longrightarrow> xor16 x y ! i = x ! i XOR y ! i"
  by (simp add: xor16_def)

lemma xor16_twice: "length x = 16 \<Longrightarrow> xor16 (xor16 x y) y = x"
  by (rule nth_equalityI) (simp_all add: xor.assoc)

locale block_cipher =
  fixes enc :: "bytes \<Rightarrow> bytes" and dec :: "bytes \<Rightarrow> bytes"
  assumes dec_enc: "length x = 16 \<Longrightarrow> dec (enc x) = x"
    and length_enc: "length (enc x) = 16"
begin

lemma chain_roundtrip:
  "(\<forall>p \<in> set ps. length p = 16) \<Longrightarrow> cbc_dec_spec dec iv (cbc_enc_spec enc iv ps) = ps"
  by (induction ps arbitrary: iv) (simp_all add: Let_def dec_enc xor16_twice)

lemma enc_inj: "length x = 16 \<Longrightarrow> length y = 16 \<Longrightarrow> enc x = enc y \<Longrightarrow> x = y"
  by (metis dec_enc)

lemma enc_onto: "length c = 16 \<Longrightarrow> \<exists>x. length x = 16 \<and> enc x = c"
proof -
  let ?B = "{x :: bytes. length x = 16}"
  have fin: "finite ?B"
    using finite_lists_length_eq [of "UNIV :: u8 set" 16] by simp
  have "inj_on enc ?B" by (auto intro: inj_onI enc_inj)
  moreover have "enc ` ?B \<subseteq> ?B" by (auto simp: length_enc)
  ultimately have "enc ` ?B = ?B" using fin by (simp add: endo_inj_surj)
  then show "length c = 16 \<Longrightarrow> \<exists>x. length x = 16 \<and> enc x = c"
    by (metis (mono_tags, lifting) imageE mem_Collect_eq)
qed

lemma enc_dec: "length c = 16 \<Longrightarrow> enc (dec c) = c"
  using enc_onto dec_enc by metis

lemma length_chain: "length (cbc_enc_spec enc iv ps) = length ps"
  by (induction ps arbitrary: iv) (simp_all add: Let_def)

lemma chain_blocks: "c \<in> set (cbc_enc_spec enc iv ps) \<Longrightarrow> length c = 16"
  by (induction ps arbitrary: iv) (auto simp: Let_def length_enc)

end

lemma length_encrypt_block [simp]: "length (stage90_aes128_encrypt_block rk x) = 16"
  by (simp add: stage90_aes128_encrypt_block_def Let_def)

interpretation aes: block_cipher "stage90_aes128_encrypt_block rk" "stage90_aes128_decrypt_block rk" for rk
  by unfold_locales (simp_all add: decrypt_encrypt_block)

subsection \<open>The code computes the mode\<close>

definition blocks_at :: "memory \<Rightarrow> nat \<Rightarrow> nat \<Rightarrow> bytes list" where
  "blocks_at m a n = map (\<lambda>b. read_mem m (a + 16 * b) 16) [0..<n]"

lemma blocks_at_0 [simp]: "blocks_at m a 0 = []"
  by (simp add: blocks_at_def)

lemma blocks_at_Suc: "blocks_at m a (Suc n) = blocks_at m a n @ [read_mem m (a + 16 * n) 16]"
  by (simp add: blocks_at_def)

lemma length_blocks_at [simp]: "length (blocks_at m a n) = n"
  by (simp add: blocks_at_def)

lemma blocks_at_cong:
  "(\<And>x. a \<le> x \<Longrightarrow> x < a + 16 * n \<Longrightarrow> m x = m' x) \<Longrightarrow> blocks_at m a n = blocks_at m' a n"
  by (auto simp: blocks_at_def intro!: read_mem_cong)

lemma block_lengths: "\<forall>p \<in> set (blocks_at m a n). length p = 16"
  by (auto simp: blocks_at_def)

lemma cbc_enc_spec_snoc:
  "cbc_enc_spec enc iv (ps @ [p]) =
    cbc_enc_spec enc iv ps @ [enc (xor16 p (last (iv # cbc_enc_spec enc iv ps)))]"
  by (induction ps arbitrary: iv) (simp_all add: Let_def)

lemma cbc_dec_spec_snoc:
  "cbc_dec_spec dec iv (cs @ [c]) = cbc_dec_spec dec iv cs @ [xor16 (dec c) (last (iv # cs))]"
  by (induction cs arbitrary: iv) simp_all

lemma cbc_encrypt_turn_eq:
  "cbc_encrypt_turn rk pin pout b (m, iv) =
    (let c = stage90_aes128_encrypt_block rk (xor16 (read_mem m (pin + 16 * b) 16) iv)
     in (write_mem m (pout + 16 * b) c, c))"
proof -
  have "map (\<lambda>i. m (pin + 16 * b + i) XOR iv ! i) [0..<16] = xor16 (read_mem m (pin + 16 * b) 16) iv"
    by (simp add: xor16_def read_mem_def)
  moreover have "map (\<lambda>i. m' (a + i)) [0..<16] = read_mem m' a 16" for m' a
    by (simp add: read_mem_def)
  ultimately show ?thesis
    by (simp add: cbc_encrypt_turn_def Let_def read_write_mem_same)
qed

lemma cbc_encrypt_prefix:
  assumes "pout \<le> pin \<or> pin + 16 * N \<le> pout" and "k \<le> N"
    and "st = stage90_aes128_cbc_encrypt rk iv k pin pout m"
  shows "blocks_at (fst st) pout k = cbc_enc_spec (stage90_aes128_encrypt_block rk) iv (blocks_at m pin k)
    \<and> snd st = last (iv # blocks_at (fst st) pout k)
    \<and> (\<forall>x. x < pout \<or> pout + 16 * k \<le> x \<longrightarrow> fst st x = m x)"
  using assms(2) unfolding assms(3)
proof (induction k)
  case 0
  then show ?case by (simp add: stage90_aes128_cbc_encrypt_def)
next
  case (Suc k)
  obtain m1 iv1 where st1: "stage90_aes128_cbc_encrypt rk iv k pin pout m = (m1, iv1)"
    by fastforce
  with Suc have IH: "blocks_at m1 pout k = cbc_enc_spec (stage90_aes128_encrypt_block rk) iv (blocks_at m pin k)"
    "iv1 = last (iv # blocks_at m1 pout k)" "\<forall>x. x < pout \<or> pout + 16 * k \<le> x \<longrightarrow> m1 x = m x"
    by auto
  have inp: "read_mem m1 (pin + 16 * k) 16 = read_mem m (pin + 16 * k) 16"
    using assms(1) Suc.prems IH(3) by (intro read_mem_cong) auto
  define c where "c = stage90_aes128_encrypt_block rk (xor16 (read_mem m (pin + 16 * k) 16) iv1)"
  have len: "length c = 16" by (simp add: c_def)
  have step: "stage90_aes128_cbc_encrypt rk iv (Suc k) pin pout m = (write_mem m1 (pout + 16 * k) c, c)"
    using st1 by (simp add: stage90_aes128_cbc_encrypt_def cbc_encrypt_turn_eq inp c_def Let_def)
  have keep: "blocks_at (write_mem m1 (pout + 16 * k) c) pout k = blocks_at m1 pout k"
    by (rule blocks_at_cong) (simp add: write_mem_def)
  have out: "blocks_at (write_mem m1 (pout + 16 * k) c) pout (Suc k) = blocks_at m1 pout k @ [c]"
    by (simp add: blocks_at_Suc keep read_write_mem_same len)
  have "c = stage90_aes128_encrypt_block rk (xor16 (read_mem m (pin + 16 * k) 16)
      (last (iv # cbc_enc_spec (stage90_aes128_encrypt_block rk) iv (blocks_at m pin k))))"
    by (simp only: c_def IH(2) IH(1))
  then have "blocks_at m1 pout k @ [c] =
      cbc_enc_spec (stage90_aes128_encrypt_block rk) iv (blocks_at m pin (Suc k))"
    by (simp only: blocks_at_Suc cbc_enc_spec_snoc IH(1))
  moreover have "\<forall>x. x < pout \<or> pout + 16 * Suc k \<le> x \<longrightarrow> write_mem m1 (pout + 16 * k) c x = m x"
    using IH(3) len by (auto simp: write_mem_def)
  moreover have "c = last (iv # (blocks_at m1 pout k @ [c]))" by simp
  ultimately show ?case
    unfolding step fst_conv snd_conv out by (intro conjI)
qed

lemma cbc_decrypt_bytes:
  assumes "a_out < a_in \<or> a_in + 16 \<le> a_out" and "length iv = 16" and "length blk = 16" and "k \<le> 16"
  shows "fold (cbc_decrypt_byte blk a_in a_out) [0..<k] (m, iv) =
    (write_mem m a_out (take k (xor16 blk iv)), map (\<lambda>i. if i < k then m (a_in + i) else iv ! i) [0..<16])"
  using assms(4)
proof (induction k)
  case 0
  then show ?case
    using assms(2) by (auto simp: write_mem_def fun_eq_iff intro: nth_equalityI)
next
  case (Suc k)
  have w: "(write_mem m a_out (take k (xor16 blk iv)))(a_out + k := blk ! k XOR iv ! k) =
      write_mem m a_out (take (Suc k) (xor16 blk iv))"
    using Suc.prems by (auto simp: write_mem_def fun_eq_iff take_Suc_conv_app_nth nth_append)
  have r: "write_mem m a_out (take (Suc k) (xor16 blk iv)) (a_in + k) = m (a_in + k)"
    using assms(1) Suc.prems by (auto simp: write_mem_def)
  have u: "(map (\<lambda>i. if i < k then m (a_in + i) else iv ! i) [0..<16])[k := m (a_in + k)] =
      map (\<lambda>i. if i < Suc k then m (a_in + i) else iv ! i) [0..<16]"
    using Suc.prems by (auto simp: nth_list_update less_Suc_eq intro!: nth_equalityI)
  have v: "map (\<lambda>i. if i < k then m (a_in + i) else iv ! i) [0..<16] ! k = iv ! k"
    using Suc.prems by simp
  have "cbc_decrypt_byte blk a_in a_out k
      (write_mem m a_out (take k (xor16 blk iv)), map (\<lambda>i. if i < k then m (a_in + i) else iv ! i) [0..<16]) =
    (write_mem m a_out (take (Suc k) (xor16 blk iv)), map (\<lambda>i. if i < Suc k then m (a_in + i) else iv ! i) [0..<16])"
    unfolding cbc_decrypt_byte_def Let_def prod.case v w r u by (rule refl)
  then show ?case
    using Suc by simp
qed

lemma cbc_decrypt_turn_apart:
  assumes "pout < pin \<or> pin + 16 * b + 16 \<le> pout + 16 * b" and "length iv = 16"
  shows "cbc_decrypt_turn rk pin pout b (m, iv) =
    (let c = read_mem m (pin + 16 * b) 16
     in (write_mem m (pout + 16 * b) (xor16 (stage90_aes128_decrypt_block rk c) iv), c))"
proof -
  have "length (stage90_aes128_decrypt_block rk c) = 16" for c
    by (simp add: stage90_aes128_decrypt_block_def Let_def)
  then show ?thesis
    using cbc_decrypt_bytes [of "pout + 16 * b" "pin + 16 * b" iv _ 16 m] assms
    by (simp add: cbc_decrypt_turn_def Let_def read_mem_def cong: map_cong)
qed

lemma cbc_decrypt_prefix:
  assumes "pout < pin \<or> pin + 16 * N \<le> pout" and "length iv = 16" and "k \<le> N"
    and "st = stage90_aes128_cbc_decrypt rk iv k pin pout m"
  shows "blocks_at (fst st) pout k = cbc_dec_spec (stage90_aes128_decrypt_block rk) iv (blocks_at m pin k)
    \<and> snd st = last (iv # blocks_at m pin k)
    \<and> (\<forall>x. x < pout \<or> pout + 16 * k \<le> x \<longrightarrow> fst st x = m x)"
  using assms(3) unfolding assms(4)
proof (induction k)
  case 0
  then show ?case by (simp add: stage90_aes128_cbc_decrypt_def)
next
  case (Suc k)
  obtain m1 iv1 where st1: "stage90_aes128_cbc_decrypt rk iv k pin pout m = (m1, iv1)"
    by fastforce
  with Suc have IH: "blocks_at m1 pout k = cbc_dec_spec (stage90_aes128_decrypt_block rk) iv (blocks_at m pin k)"
    "iv1 = last (iv # blocks_at m pin k)" "\<forall>x. x < pout \<or> pout + 16 * k \<le> x \<longrightarrow> m1 x = m x"
    by auto
  have inp: "read_mem m1 (pin + 16 * k) 16 = read_mem m (pin + 16 * k) 16"
    using assms(1) Suc.prems IH(3) by (intro read_mem_cong) auto
  have len1: "length iv1 = 16"
    using block_lengths [of m pin k] assms(2) unfolding IH(2) by (metis last.simps last_in_set)
  have turn: "pout < pin \<or> pin + 16 * k + 16 \<le> pout + 16 * k"
    using assms(1) Suc.prems by auto
  define c where "c = read_mem m (pin + 16 * k) 16"
  define w where "w = xor16 (stage90_aes128_decrypt_block rk c) iv1"
  have lenw: "length w = 16" by (simp add: w_def)
  have step: "stage90_aes128_cbc_decrypt rk iv (Suc k) pin pout m = (write_mem m1 (pout + 16 * k) w, c)"
    using st1 by (simp add: stage90_aes128_cbc_decrypt_def cbc_decrypt_turn_apart [OF turn len1] inp c_def w_def Let_def)
  have keep: "blocks_at (write_mem m1 (pout + 16 * k) w) pout k = blocks_at m1 pout k"
    by (rule blocks_at_cong) (simp add: write_mem_def)
  have out: "blocks_at (write_mem m1 (pout + 16 * k) w) pout (Suc k) = blocks_at m1 pout k @ [w]"
    by (simp add: blocks_at_Suc keep read_write_mem_same lenw)
  have "blocks_at m1 pout k @ [w] =
      cbc_dec_spec (stage90_aes128_decrypt_block rk) iv (blocks_at m pin (Suc k))"
    by (simp only: blocks_at_Suc cbc_dec_spec_snoc IH(1) w_def IH(2) c_def)
  moreover have "\<forall>x. x < pout \<or> pout + 16 * Suc k \<le> x \<longrightarrow> write_mem m1 (pout + 16 * k) w x = m x"
    using IH(3) by (auto simp: write_mem_def w_def)
  moreover have "c = last (iv # blocks_at m pin (Suc k))" by (simp add: blocks_at_Suc c_def)
  ultimately show ?case
    unfolding step fst_conv snd_conv out by (intro conjI)
qed

lemma cbc_decrypt_bytes_in_place:
  assumes "length iv = 16" and "k \<le> 16"
  shows "fold (cbc_decrypt_byte blk a a) [0..<k] (m, iv) =
    (write_mem m a (take k (xor16 blk iv)), map (\<lambda>i. if i < k then xor16 blk iv ! i else iv ! i) [0..<16])"
  using assms(2)
proof (induction k)
  case 0
  then show ?case
    using assms(1) by (auto simp: write_mem_def fun_eq_iff intro: nth_equalityI)
next
  case (Suc k)
  have w: "(write_mem m a (take k (xor16 blk iv)))(a + k := blk ! k XOR iv ! k) =
      write_mem m a (take (Suc k) (xor16 blk iv))"
    using Suc.prems by (auto simp: write_mem_def fun_eq_iff take_Suc_conv_app_nth nth_append)
  have r: "write_mem m a (take (Suc k) (xor16 blk iv)) (a + k) = xor16 blk iv ! k"
    using Suc.prems by (simp add: write_mem_def)
  have u: "(map (\<lambda>i. if i < k then xor16 blk iv ! i else iv ! i) [0..<16])[k := xor16 blk iv ! k] =
      map (\<lambda>i. if i < Suc k then xor16 blk iv ! i else iv ! i) [0..<16]"
    using Suc.prems by (auto simp: nth_list_update less_Suc_eq intro!: nth_equalityI)
  have v: "map (\<lambda>i. if i < k then xor16 blk iv ! i else iv ! i) [0..<16] ! k = iv ! k"
    using Suc.prems by simp
  have "cbc_decrypt_byte blk a a k
      (write_mem m a (take k (xor16 blk iv)), map (\<lambda>i. if i < k then xor16 blk iv ! i else iv ! i) [0..<16]) =
    (write_mem m a (take (Suc k) (xor16 blk iv)), map (\<lambda>i. if i < Suc k then xor16 blk iv ! i else iv ! i) [0..<16])"
    unfolding cbc_decrypt_byte_def Let_def prod.case v w r u by (rule refl)
  then show ?case
    using Suc by simp
qed

lemma length_decrypt_block [simp]: "length (stage90_aes128_decrypt_block rk c) = 16"
  by (simp add: stage90_aes128_decrypt_block_def Let_def)

lemma cbc_decrypt_turn_in_place:
  assumes "length iv = 16"
  shows "cbc_decrypt_turn rk p p b (m, iv) =
    (let w = xor16 (stage90_aes128_decrypt_block rk (read_mem m (p + 16 * b) 16)) iv
     in (write_mem m (p + 16 * b) w, w))"
proof -
  have "map (\<lambda>i. if i < 16 then x ! i else iv ! i) [0..<16] = x" if "length x = 16" for x
    using that by (intro nth_equalityI) auto
  then show ?thesis
    using cbc_decrypt_bytes_in_place [of iv 16 "stage90_aes128_decrypt_block rk (read_mem m (p + 16 * b) 16)" "p + 16 * b" m] assms
    by (simp add: cbc_decrypt_turn_def Let_def)
qed

subsection \<open>Encryption followed by decryption, through memory\<close>

text \<open>Two buffers of \<open>n\<close> blocks that share no byte, in either order.\<close>

definition apart :: "nat \<Rightarrow> nat \<Rightarrow> nat \<Rightarrow> bool" where
  "apart a b n \<longleftrightarrow> a + 16 * n \<le> b \<or> b + 16 * n \<le> a"

lemma cbc_memory_roundtrip:
  assumes "length iv = 16" and "apart p c n" and "apart c q n"
    and "m1 = fst (stage90_aes128_cbc_encrypt rk iv n p c m)"
    and "m2 = fst (stage90_aes128_cbc_decrypt rk iv n c q m1)"
  shows "blocks_at m2 q n = blocks_at m p n
    \<and> (apart p q n \<longrightarrow> blocks_at m2 p n = blocks_at m p n)
    \<and> (\<forall>x. (x < c \<or> c + 16 * n \<le> x) \<and> (x < q \<or> q + 16 * n \<le> x) \<longrightarrow> m2 x = m x)"
proof -
  have "c \<le> p \<or> p + 16 * n \<le> c" and "q < c \<or> c + 16 * n \<le> q"
    using assms(2,3) by (auto simp: apart_def)
  note enc = cbc_encrypt_prefix [OF this(1), of n "stage90_aes128_cbc_encrypt rk iv n p c m" rk iv m]
    and dec = cbc_decrypt_prefix [OF this(2) assms(1), of n "stage90_aes128_cbc_decrypt rk iv n c q m1" rk m1]
  have "blocks_at m2 q n = blocks_at m p n"
    using enc dec assms(4,5) by (simp add: aes.chain_roundtrip block_lengths)
  moreover have "blocks_at m2 p n = blocks_at m p n" if "apart p q n"
    using enc dec assms that by (intro blocks_at_cong) (auto simp: apart_def)
  moreover have "\<forall>x. (x < c \<or> c + 16 * n \<le> x) \<and> (x < q \<or> q + 16 * n \<le> x) \<longrightarrow> m2 x = m x"
    using enc dec assms(4,5) by auto
  ultimately show ?thesis by blast
qed

text \<open>Encryption in place is right: with \<open>in = out\<close> the buffer holds the chained
  ciphertext of what it held, the IV is the last block, and nothing else changes.\<close>

theorem cbc_encrypt_in_place:
  "blocks_at (fst (stage90_aes128_cbc_encrypt rk iv n p p m)) p n =
      cbc_enc_spec (stage90_aes128_encrypt_block rk) iv (blocks_at m p n)
    \<and> snd (stage90_aes128_cbc_encrypt rk iv n p p m) =
      last (iv # cbc_enc_spec (stage90_aes128_encrypt_block rk) iv (blocks_at m p n))"
  using cbc_encrypt_prefix [of p p n n "stage90_aes128_cbc_encrypt rk iv n p p m" rk iv m] by simp

text \<open>Decryption in place is not: the IV is read back after the plaintext has
  overwritten it, so the second block is chained with the first plaintext block, and the result
  differs from CBC whenever that block differs from the ciphertext it replaced.\<close>

theorem cbc_decrypt_in_place_wrong:
  assumes "length iv = 16"
    and "xor16 (stage90_aes128_decrypt_block rk (read_mem m p 16)) iv \<noteq> read_mem m p 16"
  shows "blocks_at (fst (stage90_aes128_cbc_decrypt rk iv 2 p p m)) p 2 \<noteq>
    cbc_dec_spec (stage90_aes128_decrypt_block rk) iv (blocks_at m p 2)"
proof -
  define c0 where "c0 = read_mem m p 16"
  define c1 where "c1 = read_mem m (p + 16) 16"
  define w0 where "w0 = xor16 (stage90_aes128_decrypt_block rk c0) iv"
  define w1 where "w1 = xor16 (stage90_aes128_decrypt_block rk c1) w0"
  have c1': "read_mem (write_mem m p w0) (p + 16) 16 = c1"
    by (simp add: c1_def read_write_mem_disjoint w0_def)
  have len: "length w0 = 16" "length w1 = 16" by (simp_all add: w0_def w1_def)
  have "[0..<2] = [0, 1::nat]" by (simp add: upt_rec)
  then have "fst (stage90_aes128_cbc_decrypt rk iv 2 p p m) = write_mem (write_mem m p w0) (p + 16) w1"
    using assms(1) len
    by (simp add: stage90_aes128_cbc_decrypt_def cbc_decrypt_turn_in_place Let_def c1' c0_def
        flip: w0_def w1_def c0_def)
  moreover have "read_mem (write_mem (write_mem m p w0) (p + 16) w1) (p + 16) 16 = w1"
    by (simp add: read_write_mem_same len)
  ultimately have got: "blocks_at (fst (stage90_aes128_cbc_decrypt rk iv 2 p p m)) p 2 ! 1 = w1"
    by (simp add: blocks_at_def)
  have want: "cbc_dec_spec (stage90_aes128_decrypt_block rk) iv (blocks_at m p 2) ! 1 =
      xor16 (stage90_aes128_decrypt_block rk c1) c0"
    by (simp add: blocks_at_def upt_rec c0_def c1_def)
  have "w1 \<noteq> xor16 (stage90_aes128_decrypt_block rk c1) c0"
  proof
    assume eq: "w1 = xor16 (stage90_aes128_decrypt_block rk c1) c0"
    have "w0 = c0"
    proof (rule nth_equalityI)
      show "length w0 = length c0" by (simp add: len c0_def)
    next
      fix i assume "i < length w0"
      then have "i < 16" by (simp add: len)
      then have "w1 ! i = xor16 (stage90_aes128_decrypt_block rk c1) c0 ! i" using eq by simp
      then have "x XOR w0 ! i = x XOR c0 ! i" if "x = stage90_aes128_decrypt_block rk c1 ! i" for x
        using \<open>i < 16\<close> that by (simp add: w1_def)
      then have "x XOR (x XOR w0 ! i) = x XOR (x XOR c0 ! i)" if "x = stage90_aes128_decrypt_block rk c1 ! i" for x
        using that by simp
      then show "w0 ! i = c0 ! i" by (simp flip: xor.assoc)
    qed
    then show False using assms(2) by (simp add: w0_def c0_def)
  qed
  then show ?thesis using got want by metis
qed

theorem cbc_decrypt_in_place_wrong_witness:
  "blocks_at (fst (stage90_aes128_cbc_decrypt (replicate 176 0)
      (xor16 (stage90_aes128_decrypt_block (replicate 176 0) (read_mem (\<lambda>_. 0) 0 16)) (replicate 16 1)) 2 0 0 (\<lambda>_. 0))) 0 2 \<noteq>
    cbc_dec_spec (stage90_aes128_decrypt_block (replicate 176 0))
      (xor16 (stage90_aes128_decrypt_block (replicate 176 0) (read_mem (\<lambda>_. 0) 0 16)) (replicate 16 1)) (blocks_at (\<lambda>_. 0) 0 2)"
proof (rule cbc_decrypt_in_place_wrong)
  let ?d = "stage90_aes128_decrypt_block (replicate 176 0) (read_mem (\<lambda>_. 0) 0 16)"
  have "xor16 ?d (xor16 ?d (replicate 16 1)) ! 0 = 1"
    by (simp flip: xor.assoc)
  moreover have "read_mem (\<lambda>_. 0) 0 16 ! 0 = (0 :: u8)" by simp
  ultimately show "xor16 ?d (xor16 ?d (replicate 16 1)) \<noteq> read_mem (\<lambda>_. 0) 0 16"
    by (metis zero_neq_one)
qed simp

text \<open>C1. For every 176-byte schedule (expanded from a key or not) the inverse cipher undoes the
  forward cipher on every block, the forward cipher undoes the inverse cipher, and so each
  schedule permutes the 16-byte blocks.\<close>

theorem aes128_permutation:
  "(\<forall>x. length x = 16 \<longrightarrow> stage90_aes128_decrypt_block rk (stage90_aes128_encrypt_block rk x) = x)
    \<and> (\<forall>c. length c = 16 \<longrightarrow> stage90_aes128_encrypt_block rk (stage90_aes128_decrypt_block rk c) = c)
    \<and> bij_betw (stage90_aes128_encrypt_block rk) {x. length x = 16} {x. length x = 16}"
proof (intro conjI allI impI)
  show "bij_betw (stage90_aes128_encrypt_block rk) {x. length x = 16} {x. length x = 16}"
    by (rule bij_betw_byWitness [where f' = "stage90_aes128_decrypt_block rk"])
      (auto simp: aes.dec_enc aes.enc_dec)
qed (simp_all add: aes.dec_enc aes.enc_dec)

theorem aes128_permutation_witness:
  "stage90_aes128_decrypt_block (replicate 176 7) (stage90_aes128_encrypt_block (replicate 176 7) (replicate 16 3)) = replicate 16 3
    \<and> stage90_aes128_encrypt_block (replicate 176 7) (stage90_aes128_decrypt_block (replicate 176 7) (replicate 16 3)) = replicate 16 3"
  using aes128_permutation [of "replicate 176 7"] by simp

end
