(* ===== verification/Crypto_Functions.thy ===== *)
theory Crypto_Functions
  imports Cbc Aes_Vectors
begin

text \<open>
  The AES-CBC descriptor of src/src/supply/stage90_crypto_functions.c: the context a caller
  hands in, the \<open>init\<close> and \<open>cbc\<close> methods with their refusals, and the constructor that
  checks and registers the table.  \<open>entry_stub_hit\<close> (the entry image's report) is an event in
  the returned list; the kernel's own registration is a parameter of the constructor.
\<close>

unbundle bit_operations_syntax

record stage90_aes_cbc_ctx =
  ctx_rk :: bytes
  ctx_rounds :: u32
  ctx_marker :: u32

type_synonym hits = "(string \<times> u32) list"

definition STAGE90_AES_CTX_MARKER :: u32 where
  "STAGE90_AES_CTX_MARKER = 0x41455331"

text \<open>\<open>caller\<close> is the return address the report carries.\<close>

definition stage90_crypto_aes_cbc_init ::
    "u32 \<Rightarrow> stage90_aes_cbc_ctx \<Rightarrow> u32 \<Rightarrow> bytes \<Rightarrow> int \<times> hits \<times> stage90_aes_cbc_ctx" where
  "stage90_crypto_aes_cbc_init caller c key_len key =
    (if key_len \<noteq> 16 then (-1, [(''g_crypto_funcs.ccaes_cbc.key_len'', caller)], c)
     else (0, [], c\<lparr>ctx_rk := stage90_aes128_expand_key key, ctx_rounds := 10,
                    ctx_marker := STAGE90_AES_CTX_MARKER\<rparr>))"

definition stage90_crypto_aes_cbc_encrypt_blocks ::
    "u32 \<Rightarrow> stage90_aes_cbc_ctx \<Rightarrow> bytes \<Rightarrow> nat \<Rightarrow> nat \<Rightarrow> nat \<Rightarrow> memory \<Rightarrow> int \<times> hits \<times> memory \<times> bytes" where
  "stage90_crypto_aes_cbc_encrypt_blocks caller c iv nblocks pin pout m =
    (if ctx_marker c \<noteq> STAGE90_AES_CTX_MARKER \<or> ctx_rounds c \<noteq> 10
     then (-1, [(''g_crypto_funcs.ccaes_cbc_encrypt.uninitialized'', caller)], m, iv)
     else (0, [], stage90_aes128_cbc_encrypt (ctx_rk c) iv nblocks pin pout m))"

definition stage90_crypto_aes_cbc_decrypt_blocks ::
    "u32 \<Rightarrow> stage90_aes_cbc_ctx \<Rightarrow> bytes \<Rightarrow> nat \<Rightarrow> nat \<Rightarrow> nat \<Rightarrow> memory \<Rightarrow> int \<times> hits \<times> memory \<times> bytes" where
  "stage90_crypto_aes_cbc_decrypt_blocks caller c iv nblocks pin pout m =
    (if ctx_marker c \<noteq> STAGE90_AES_CTX_MARKER \<or> ctx_rounds c \<noteq> 10
     then (-1, [(''g_crypto_funcs.ccaes_cbc_decrypt.uninitialized'', caller)], m, iv)
     else (0, [], stage90_aes128_cbc_decrypt (ctx_rk c) iv nblocks pin pout m))"

text \<open>
  The constructor.  \<open>words\<close> is the table read as an array of pointers, \<open>cbc_size\<close> the
  descriptor's size field and \<open>aes_ctx_size\<close> the caller's \<open>sizeof(aes_encrypt_ctx)\<close>;
  \<open>register_crypto\<close> is the kernel's \<open>register_crypto_functions\<close> and \<open>funcs\<close> reads the
  kernel's \<open>g_crypto_funcs\<close>.  The result is the list of reports and the kernel state.
\<close>

definition crypto_nulls :: "u32 list \<Rightarrow> u32" where
  "crypto_nulls words = fold (\<lambda>w nulls. if w = 0 then nulls + 1 else nulls) words 0"

definition crypto_kat_ok :: bool where
  "crypto_kat_ok =
    (let rk = stage90_aes128_expand_key fips_c1_key;
         got = stage90_aes128_encrypt_block rk fips_c1_pt
     in fold (\<lambda>i ok. if got ! i \<noteq> fips_c1_ct ! i then False else ok) [0..<16] True)"

definition stage90_crypto_functions_register ::
    "(u32 \<Rightarrow> 'k \<Rightarrow> int \<times> 'k) \<Rightarrow> ('k \<Rightarrow> u32) \<Rightarrow> u32 \<Rightarrow> u32 list \<Rightarrow> u32 \<Rightarrow> u32 \<Rightarrow> 'k \<Rightarrow> hits \<times> 'k" where
  "stage90_crypto_functions_register register_crypto funcs table words cbc_size aes_ctx_size k =
    (let nulls = crypto_nulls words;
         h1 = (if \<not> crypto_kat_ok then [(''stage90_crypto_functions.kat_failed'', 0)] else []);
         h2 = (if nulls \<noteq> 0 then [(''stage90_crypto_functions.null_word'', nulls)] else []);
         h3 = (if cbc_size > aes_ctx_size then [(''stage90_crypto_functions.cbc_size_too_large'', 0)] else []);
         (ret, k') = register_crypto table k;
         h4 = (if ret \<noteq> 0 then [(''stage90_crypto_functions.not_registered'', 0)] else []);
         h5 = (if funcs k' \<noteq> table then [(''stage90_crypto_functions.wrong_table'', 0)] else [])
     in (h1 @ h2 @ h3 @ h4 @ h5, k'))"

subsection \<open>Lemmas\<close>

lemma crypto_kat: "crypto_kat_ok"
  by (simp add: crypto_kat_ok_def Let_def fips_c1_schedule fips_c1 upt16)

lemma crypto_nulls_count:
  "fold (\<lambda>w nulls. if w = 0 then nulls + 1 else nulls) words n =
    n + word_of_nat (length (filter (\<lambda>w. w = (0 :: u32)) words))" for n :: u32
  by (induction words arbitrary: n) (simp_all add: add.assoc)

lemma crypto_nulls_0_iff:
  assumes "length words < 2 ^ 32"
  shows "crypto_nulls words = 0 \<longleftrightarrow> 0 \<notin> set words"
proof -
  let ?n = "length (filter (\<lambda>w. w = (0 :: u32)) words)"
  have le: "?n < 2 ^ 32" using assms length_filter_le [of "\<lambda>w. w = 0" words] by linarith
  have "crypto_nulls words = word_of_nat ?n"
    by (simp add: crypto_nulls_def crypto_nulls_count)
  then show ?thesis by (auto simp: filter_empty_conv word_of_nat_eq_0_u32 [OF le])
qed

subsection \<open>Properties\<close>

text \<open>C12. A session through the public methods: after \<open>init\<close> with a 16-byte key the context
  is accepted by both directions. Encrypt from \<open>p\<close> to \<open>c\<close> and decrypt from \<open>c\<close> to \<open>q\<close>, from the
  same starting IV, with \<open>c\<close> sharing no byte with \<open>p\<close> nor with \<open>q\<close>, the buffers in any order:
  \<open>q\<close> then holds the plaintext, all three calls succeed and report nothing, and nothing outside
  \<open>c\<close> and \<open>q\<close> is changed. The plaintext buffer itself is kept when \<open>q\<close> does not overlap it.\<close>

theorem crypto_cbc_session_roundtrip:
  assumes "length iv = 16" and "apart p c n" and "apart c q n"
    and "stage90_crypto_aes_cbc_init caller ctx 16 key = (r0, h0, ctx')"
    and "stage90_crypto_aes_cbc_encrypt_blocks caller ctx' iv n p c m = (r1, h1, m1, iv1)"
    and "stage90_crypto_aes_cbc_decrypt_blocks caller ctx' iv n c q m1 = (r2, h2, m2, iv2)"
  shows "r0 = 0 \<and> r1 = 0 \<and> r2 = 0 \<and> h0 @ h1 @ h2 = []
    \<and> blocks_at m2 q n = blocks_at m p n
    \<and> (apart p q n \<longrightarrow> blocks_at m2 p n = blocks_at m p n)
    \<and> (\<forall>x. (x < c \<or> c + 16 * n \<le> x) \<and> (x < q \<or> q + 16 * n \<le> x) \<longrightarrow> m2 x = m x)"
proof -
  let ?rk = "stage90_aes128_expand_key key"
  have ctx': "ctx_rk ctx' = ?rk" "ctx_rounds ctx' = 10" "ctx_marker ctx' = STAGE90_AES_CTX_MARKER"
    and 0: "r0 = 0" "h0 = []"
    using assms(4) by (auto simp: stage90_crypto_aes_cbc_init_def)
  have 1: "r1 = 0" "h1 = []" "m1 = fst (stage90_aes128_cbc_encrypt ?rk iv n p c m)"
    using assms(5) by (auto simp: stage90_crypto_aes_cbc_encrypt_blocks_def ctx' prod_eq_iff)
  have 2: "r2 = 0" "h2 = []" "m2 = fst (stage90_aes128_cbc_decrypt ?rk iv n c q m1)"
    using assms(6) by (auto simp: stage90_crypto_aes_cbc_decrypt_blocks_def ctx' prod_eq_iff)
  show ?thesis
    using cbc_memory_roundtrip [OF assms(1-3) 1(3) 2(3)] 0 1(1,2) 2(1,2) by simp
qed

theorem crypto_cbc_session_roundtrip_witness:
  "\<exists>ctx' m1 m2 iv1 iv2.
    stage90_crypto_aes_cbc_init 0 \<lparr>ctx_rk = [], ctx_rounds = 0, ctx_marker = 0\<rparr> 16 (replicate 16 1) = (0, [], ctx')
    \<and> stage90_crypto_aes_cbc_encrypt_blocks 0 ctx' (replicate 16 0) 2 64 32 (\<lambda>_. 5) = (0, [], m1, iv1)
    \<and> stage90_crypto_aes_cbc_decrypt_blocks 0 ctx' (replicate 16 0) 2 32 0 m1 = (0, [], m2, iv2)
    \<and> blocks_at m2 0 2 = blocks_at (\<lambda>_. 5) 64 2"
proof -
  obtain r0 h0 ctx' where 0: "stage90_crypto_aes_cbc_init 0 \<lparr>ctx_rk = [], ctx_rounds = 0, ctx_marker = 0\<rparr> 16 (replicate 16 1) = (r0, h0, ctx')"
    by (metis surj_pair)
  obtain r1 h1 m1 iv1 where 1: "stage90_crypto_aes_cbc_encrypt_blocks 0 ctx' (replicate 16 0) 2 64 32 (\<lambda>_. 5) = (r1, h1, m1, iv1)"
    by (metis surj_pair)
  obtain r2 h2 m2 iv2 where 2: "stage90_crypto_aes_cbc_decrypt_blocks 0 ctx' (replicate 16 0) 2 32 0 m1 = (r2, h2, m2, iv2)"
    by (metis surj_pair)
  show ?thesis
    using crypto_cbc_session_roundtrip [OF _ _ _ 0 1 2] 0 1 2 by (auto simp: apart_def)
qed

text \<open>The refusals: a key that is not 16 bytes long is reported and leaves the context
  as it was, and a context that was never initialised (no marker, or another round count) makes
  either direction fail with a report, without touching memory or the IV.\<close>

theorem crypto_cbc_refusals:
  "(key_len \<noteq> 16 \<longrightarrow> stage90_crypto_aes_cbc_init caller ctx key_len key =
      (-1, [(''g_crypto_funcs.ccaes_cbc.key_len'', caller)], ctx))
    \<and> (ctx_marker ctx \<noteq> STAGE90_AES_CTX_MARKER \<or> ctx_rounds ctx \<noteq> 10 \<longrightarrow>
      (\<exists>h1 h2. h1 \<noteq> [] \<and> h2 \<noteq> []
        \<and> stage90_crypto_aes_cbc_encrypt_blocks caller ctx iv n p q m = (-1, h1, m, iv)
        \<and> stage90_crypto_aes_cbc_decrypt_blocks caller ctx iv n p q m = (-1, h2, m, iv)))"
  by (simp add: stage90_crypto_aes_cbc_init_def stage90_crypto_aes_cbc_encrypt_blocks_def
      stage90_crypto_aes_cbc_decrypt_blocks_def)

theorem crypto_cbc_refusals_witness:
  "stage90_crypto_aes_cbc_init 9 \<lparr>ctx_rk = [], ctx_rounds = 0, ctx_marker = 0\<rparr> 32 (replicate 32 1) =
    (-1, [(''g_crypto_funcs.ccaes_cbc.key_len'', 9)], \<lparr>ctx_rk = [], ctx_rounds = 0, ctx_marker = 0\<rparr>)"
  using crypto_cbc_refusals [of 32 9 "\<lparr>ctx_rk = [], ctx_rounds = 0, ctx_marker = 0\<rparr>" "replicate 32 1"]
  by (simp add: STAGE90_AES_CTX_MARKER_def)

text \<open>The constructor reports nothing exactly when the table has no NULL word, the
  descriptor fits the caller's context, and the kernel took the table: the FIPS-197 vector it
  enciphers with its own AES never fails.\<close>

theorem crypto_register_silent_iff:
  assumes "length words < 2 ^ 32"
  shows "fst (stage90_crypto_functions_register reg funcs table words cbc_size aes_ctx_size k) = [] \<longleftrightarrow>
    0 \<notin> set words \<and> cbc_size \<le> aes_ctx_size \<and> fst (reg table k) = 0 \<and> funcs (snd (reg table k)) = table"
  using crypto_nulls_0_iff [OF assms]
  by (auto simp: stage90_crypto_functions_register_def Let_def crypto_kat split: prod.splits)

theorem crypto_register_silent_iff_witness:
  "fst (stage90_crypto_functions_register (\<lambda>t k. (0, t)) (\<lambda>k. k) 0x80231228 [1, 2, 3] 192 288 0) = []
    \<and> fst (stage90_crypto_functions_register (\<lambda>t k. (0, t)) (\<lambda>k. k) 0x80231228 [1, 0, 3] 192 288 0) \<noteq> []"
  using crypto_register_silent_iff [where words = "[1, 2, 3]" and reg = "\<lambda>t k. (0, t)" and funcs = "\<lambda>k. k"
      and table = "0x80231228" and cbc_size = 192 and aes_ctx_size = 288 and k = 0]
    crypto_register_silent_iff [where words = "[1, 0, 3]" and reg = "\<lambda>t k. (0, t)" and funcs = "\<lambda>k. k"
      and table = "0x80231228" and cbc_size = 192 and aes_ctx_size = 288 and k = 0]
  by simp

end
