(* ===== verification/Cow.thy ===== *)
theory Cow
  imports Prelude
begin

text \<open>
  The copy-on-write page shadow of src/src/platform/stage90_root_media_cow.c: a read-only base,
  an open-addressed hash table from base pages to arena pages, and the four operations.  The
  base is the function \<open>read512\<close> (a C callback): it gives an error code and the 512 bytes left
  in the output buffer.  \<open>size_t\<close> is 32 bits wide, as on the device.  The entries and the
  arena are lists; pointers to entries are indices.
\<close>

unbundle bit_operations_syntax

subsection \<open>State\<close>

datatype cow_status = ST_COW_OK | ST_COW_RANGE | ST_COW_NO_SPACE | ST_COW_IO | ST_COW_STATE

definition ST_COW_OCCUPIED :: u32 where "ST_COW_OCCUPIED = 1"
definition ST_COW_DIRTY :: u32 where "ST_COW_DIRTY = 2"

record st_cow_entry =
  ent_page :: u32
  ent_slot :: u32
  ent_flags :: u32

record st_cow =
  cow_sectors :: u64
  cow_sectors_per_page :: u32
  cow_page_bytes :: u32
  cow_capacity :: u32
  cow_hash_slots :: u32
  cow_used :: u32
  cow_dirty :: u32
  cow_arena :: bytes
  cow_entries :: "st_cow_entry list"
  cow_pending :: "u32 list"
  cow_backend_error :: int

type_synonym read512_fn = "u64 \<Rightarrow> int \<times> bytes"

subsection \<open>Operations\<close>

text \<open>A NULL argument is \<open>None\<close>.\<close>

definition st_cow_init ::
    "u64 \<Rightarrow> u32 \<Rightarrow> u32 \<Rightarrow> u32 \<Rightarrow> bytes option \<Rightarrow> st_cow_entry list option \<Rightarrow> u32 list option \<Rightarrow> read512_fn option
      \<Rightarrow> cow_status \<times> st_cow option" where
  "st_cow_init sectors spp capacity hash_slots arena entries pending read512 =
    (case (arena, entries, pending, read512) of
       (Some ar, Some es, Some pd, Some rd) \<Rightarrow>
         if sectors = 0 \<or> spp = 0 \<or> capacity = 0 then (ST_COW_RANGE, None)
         else if spp AND (spp - 1) \<noteq> 0 then (ST_COW_RANGE, None)
         else if (sectors + ucast spp - 1) div ucast spp > 0xffffffff then (ST_COW_RANGE, None)
         else if hash_slots = 0 \<or> hash_slots AND (hash_slots - 1) \<noteq> 0 \<or> hash_slots < capacity * 2
           then (ST_COW_RANGE, None)
         else if capacity > 0xffffffff div spp then (ST_COW_RANGE, None)
         else (ST_COW_OK, Some \<lparr>cow_sectors = sectors, cow_sectors_per_page = spp,
                cow_page_bytes = spp * 512, cow_capacity = capacity, cow_hash_slots = hash_slots,
                cow_used = 0, cow_dirty = 0, cow_arena = ar,
                cow_entries = replicate (unat hash_slots) \<lparr>ent_page = 0, ent_slot = 0, ent_flags = 0\<rparr>,
                cow_pending = pd, cow_backend_error = 0\<rparr>)
     | _ \<Rightarrow> (ST_COW_RANGE, None))"

text \<open>The probe loop: at most \<open>n\<close> more turns, from \<open>slot\<close>.\<close>

fun cow_probe :: "st_cow_entry list \<Rightarrow> u32 \<Rightarrow> u32 \<Rightarrow> bool \<Rightarrow> u32 \<Rightarrow> nat \<Rightarrow> nat option" where
  "cow_probe es msk page want_empty slot 0 = None"
| "cow_probe es msk page want_empty slot (Suc n) =
    (let e = es ! unat slot in
     if ent_flags e AND ST_COW_OCCUPIED = 0 then (if want_empty then Some (unat slot) else None)
     else if ent_page e = page then Some (unat slot)
     else cow_probe es msk page want_empty ((slot + 1) AND msk) n)"

definition cow_hash :: "u32 \<Rightarrow> u32 \<Rightarrow> u32" where
  "cow_hash hash_slots page = (page * 2654435761) AND (hash_slots - 1)"

definition st_cow_lookup :: "st_cow \<Rightarrow> u32 \<Rightarrow> bool \<Rightarrow> nat option" where
  "st_cow_lookup c page want_empty =
    cow_probe (cow_entries c) (cow_hash_slots c - 1) page want_empty
      (cow_hash (cow_hash_slots c) page) (unat (cow_hash_slots c))"

text \<open>The 32-bit arena offset of a sector of a resident page, and the page of a sector.\<close>

definition cow_offset :: "st_cow \<Rightarrow> u32 \<Rightarrow> u32 \<Rightarrow> nat" where
  "cow_offset c slot in_page = unat (slot * cow_page_bytes c + push_bit 9 in_page)"

definition cow_page_of :: "st_cow \<Rightarrow> u64 \<Rightarrow> u32" where
  "cow_page_of c sector = ucast (sector div ucast (cow_sectors_per_page c))"

definition cow_in_page :: "st_cow \<Rightarrow> u64 \<Rightarrow> u32" where
  "cow_in_page c sector = ucast (sector mod ucast (cow_sectors_per_page c))"

definition st_cow_read_sector :: "read512_fn \<Rightarrow> st_cow \<Rightarrow> u64 \<Rightarrow> bytes \<Rightarrow> cow_status \<times> bytes \<times> st_cow" where
  "st_cow_read_sector read512 c sector out =
    (if sector \<ge> cow_sectors c then (ST_COW_RANGE, out, c)
     else case st_cow_lookup c (cow_page_of c sector) False of
       Some k \<Rightarrow>
         (ST_COW_OK, slice (cow_offset c (ent_slot (cow_entries c ! k)) (cow_in_page c sector)) 512 (cow_arena c), c)
     | None \<Rightarrow>
         (let (error, out') = read512 sector in
          if error \<noteq> 0 then (ST_COW_IO, out', c\<lparr>cow_backend_error := error\<rparr>)
          else (ST_COW_OK, out', c)))"

text \<open>
  \<open>prepare_write\<close>, first loop: collect the pages that are not resident into \<open>pending\<close>.
  The loop ends at \<open>last_page\<close>; \<open>False\<close> is the \<open>ST_COW_NO_SPACE\<close> return.
\<close>

function cow_scan :: "st_cow \<Rightarrow> u32 \<Rightarrow> u32 \<Rightarrow> u32 \<Rightarrow> u32 list \<Rightarrow> bool \<times> u32 \<times> u32 list" where
  "cow_scan c page last_page needed pending =
    (if st_cow_lookup c page False = None
     then (if needed \<ge> cow_capacity c - cow_used c then (False, needed, pending)
           else (let pending' = pending[unat needed := page]; needed' = needed + 1 in
                 if page = last_page then (True, needed', pending')
                 else cow_scan c (page + 1) last_page needed' pending'))
     else if page = last_page then (True, needed, pending)
     else cow_scan c (page + 1) last_page needed pending)"
  by pat_completeness auto
termination
  by (relation "measure (\<lambda>(c, page, last_page, needed, pending). unat (last_page - page))")
    (auto intro: unat_diff_next_less)

declare cow_scan.simps [simp del]

text \<open>Second loop: read sectors \<open>j, j + 1, \<dots>\<close> of page \<open>p\<close> into the arena page \<open>slot\<close>.\<close>

fun cow_copy_page :: "read512_fn \<Rightarrow> st_cow \<Rightarrow> u32 \<Rightarrow> u32 \<Rightarrow> u32 \<Rightarrow> nat \<Rightarrow> bytes \<Rightarrow> int \<times> bytes" where
  "cow_copy_page read512 c p slot j 0 arena = (0, arena)"
| "cow_copy_page read512 c p slot j (Suc n) arena =
    (let (error, bs) = read512 (ucast p * ucast (cow_sectors_per_page c) + ucast j);
         arena' = splice (cow_offset c slot j) bs arena
     in if error \<noteq> 0 then (error, arena') else cow_copy_page read512 c p slot (j + 1) n arena')"

text \<open>The number of valid sectors of a page: all of them, but for the tail page.\<close>

definition cow_valid_sectors :: "st_cow \<Rightarrow> u32 \<Rightarrow> u32" where
  "cow_valid_sectors c p =
    (let remain = cow_sectors c - ucast p * ucast (cow_sectors_per_page c)
     in if remain < ucast (cow_sectors_per_page c) then ucast remain else cow_sectors_per_page c)"

fun cow_copy_pages :: "read512_fn \<Rightarrow> st_cow \<Rightarrow> u32 list \<Rightarrow> u32 \<Rightarrow> bytes \<Rightarrow> int \<times> bytes" where
  "cow_copy_pages read512 c [] slot arena = (0, arena)"
| "cow_copy_pages read512 c (p # ps) slot arena =
    (let (error, arena') = cow_copy_page read512 c p slot 0 (unat (cow_valid_sectors c p)) arena
     in if error \<noteq> 0 then (error, arena') else cow_copy_pages read512 c ps (slot + 1) arena')"

text \<open>Third loop: publish the copied pages; \<open>False\<close> is the \<open>ST_COW_STATE\<close> return.\<close>

fun cow_publish :: "u32 list \<Rightarrow> u32 \<Rightarrow> st_cow \<Rightarrow> bool \<times> st_cow" where
  "cow_publish [] slot c = (True, c)"
| "cow_publish (p # ps) slot c =
    (case st_cow_lookup c p True of
       None \<Rightarrow> (False, c)
     | Some k \<Rightarrow> cow_publish ps (slot + 1)
         (c\<lparr>cow_entries := (cow_entries c)[k := \<lparr>ent_page = p, ent_slot = slot, ent_flags = ST_COW_OCCUPIED\<rparr>]\<rparr>))"

definition st_cow_prepare_write :: "read512_fn \<Rightarrow> st_cow \<Rightarrow> u64 \<Rightarrow> u64 \<Rightarrow> cow_status \<times> st_cow" where
  "st_cow_prepare_write read512 c first count =
    (if count = 0 \<or> first \<ge> cow_sectors c \<or> count > cow_sectors c - first then (ST_COW_RANGE, c)
     else
       (let first_page = cow_page_of c first;
            last_page = cow_page_of c (first + count - 1)
        in if (ucast last_page :: u64) - ucast first_page + 1 > ucast (cow_capacity c) then (ST_COW_NO_SPACE, c)
           else case cow_scan c first_page last_page 0 (cow_pending c) of
             (False, _, pending) \<Rightarrow> (ST_COW_NO_SPACE, c\<lparr>cow_pending := pending\<rparr>)
           | (True, needed, pending) \<Rightarrow>
               (let c1 = c\<lparr>cow_pending := pending\<rparr>;
                    ps = take (unat needed) pending;
                    (error, arena') = cow_copy_pages read512 c1 ps (cow_used c) (cow_arena c)
                in if error \<noteq> 0
                   then (ST_COW_IO, c1\<lparr>cow_arena := arena', cow_backend_error := error\<rparr>)
                   else (case cow_publish ps (cow_used c) (c1\<lparr>cow_arena := arena'\<rparr>) of
                           (False, c2) \<Rightarrow> (ST_COW_STATE, c2)
                         | (True, c2) \<Rightarrow> (ST_COW_OK, c2\<lparr>cow_used := cow_used c2 + needed\<rparr>)))))"

definition st_cow_write_prepared_sector :: "st_cow \<Rightarrow> u64 \<Rightarrow> bytes \<Rightarrow> cow_status \<times> st_cow" where
  "st_cow_write_prepared_sector c sector bs =
    (if sector \<ge> cow_sectors c then (ST_COW_RANGE, c)
     else case st_cow_lookup c (cow_page_of c sector) False of
       None \<Rightarrow> (ST_COW_STATE, c)
     | Some k \<Rightarrow>
         (let e = cow_entries c ! k;
              c1 = c\<lparr>cow_arena := splice (cow_offset c (ent_slot e) (cow_in_page c sector)) bs (cow_arena c)\<rparr>
          in if ent_flags e AND ST_COW_DIRTY = 0
             then (ST_COW_OK, c1\<lparr>cow_entries := (cow_entries c)[k := e\<lparr>ent_flags := ent_flags e OR ST_COW_DIRTY\<rparr>],
                                 cow_dirty := cow_dirty c + 1\<rparr>)
             else (ST_COW_OK, c1)))"

end
