(* ===== verification/Cow_Table.thy ===== *)
theory Cow_Table
  imports Cow
begin

text \<open>
  The page table of the copy-on-write shadow: linear probing over a power-of-two number of places.
  \<open>tab_ok\<close> is the invariant of open addressing (no free place between a page's home and its
  entry, no page twice); under it \<open>st_cow_lookup\<close> is a finite map, \<open>tab_map\<close>.  The locale
  \<open>page_table\<close> states what the shadow needs of such a map; the model's table interprets it.
\<close>

unbundle bit_operations_syntax

lemma nat_pow2_of_and: "n AND (n - 1) = 0 \<Longrightarrow> 0 < n \<Longrightarrow> \<exists>k. n = 2 ^ k" for n :: nat
proof (induction n rule: less_induct)
  case (less n)
  show ?case
  proof (cases "even n")
    case True
    then obtain m where m: "n = 2 * m" by blast
    with less.prems have pos: "0 < m" by simp
    then have "n - 1 = Suc (2 * (m - 1))" using m by simp
    then have "n AND (n - 1) = 2 * (m AND (m - 1))"
      using m and_rec [of "2 * m" "Suc (2 * (m - 1))"] by simp
    with less.prems have "m AND (m - 1) = 0" by simp
    then obtain k where "m = 2 ^ k" using less.IH [of m] m pos by auto
    then show ?thesis using m by (metis power_Suc)
  next
    case False
    then obtain m where m: "n = Suc (2 * m)" by (metis oddE Suc_eq_plus1)
    then have "n AND (n - 1) = 2 * (m AND m)"
      using and_rec [of "Suc (2 * m)" "2 * m"] by simp
    with less.prems have "m = 0" by simp
    then show ?thesis using m by (intro exI [of _ 0]) simp
  qed
qed

lemma u32_pow2_of_and:
  assumes "x AND (x - 1) = 0" and "x \<noteq> (0 :: u32)"
  obtains k where "k < 32" and "unat x = 2 ^ k"
proof -
  have "unat x AND (unat x - 1) = 0"
    using assms by (metis unat_minus_one unsigned_and_eq unsigned_0)
  moreover have "0 < unat x" using assms(2) by (simp add: unat_gt_0)
  ultimately obtain k where k: "unat x = 2 ^ k" using nat_pow2_of_and by blast
  have "(2 :: nat) ^ k < 2 ^ 32" using unat_lt_u32 [of x] unfolding k by simp
  then have "k < 32" by (rule power_less_imp_less_exp [rotated]) simp
  then show ?thesis using that k by blast
qed

lemma unat_and_pow2_minus_1:
  assumes "unat (h :: u32) = 2 ^ k"
  shows "unat (x AND (h - 1)) = unat x mod unat h"
proof -
  have "h \<noteq> 0" using assms by auto
  then have "unat (h - 1) = mask k" using assms by (simp add: unat_minus_one mask_eq_exp_minus_1)
  then show ?thesis using assms by (simp add: unsigned_and_eq take_bit_eq_mod flip: take_bit_eq_mask)
qed

lemma least_below: "\<exists>d < n. P d \<Longrightarrow> \<exists>d < n. P d \<and> (\<forall>i < d. \<not> P i)" for n :: nat
  using exists_least_iff [of "\<lambda>d. d < n \<and> P d"] by (meson less_trans)

subsection \<open>The table\<close>

definition ent_occ :: "st_cow_entry \<Rightarrow> bool" where
  "ent_occ e \<longleftrightarrow> ent_flags e AND ST_COW_OCCUPIED \<noteq> 0"

definition home :: "nat \<Rightarrow> u32 \<Rightarrow> nat" where
  "home H p = unat (p * 2654435761) mod H"

definition probe_pos :: "nat \<Rightarrow> u32 \<Rightarrow> nat \<Rightarrow> nat" where
  "probe_pos H p i = (home H p + i) mod H"

definition probe_inv :: "st_cow_entry list \<Rightarrow> bool" where
  "probe_inv es \<longleftrightarrow> (\<forall>k < length es. ent_occ (es ! k) \<longrightarrow>
     (\<exists>d < length es. k = probe_pos (length es) (ent_page (es ! k)) d
        \<and> (\<forall>i < d. ent_occ (es ! probe_pos (length es) (ent_page (es ! k)) i))))"

definition pages_distinct :: "st_cow_entry list \<Rightarrow> bool" where
  "pages_distinct es \<longleftrightarrow> (\<forall>k < length es. \<forall>l < length es. ent_occ (es ! k) \<longrightarrow> ent_occ (es ! l) \<longrightarrow>
     ent_page (es ! k) = ent_page (es ! l) \<longrightarrow> k = l)"

lemma probe_pos_less: "0 < H \<Longrightarrow> probe_pos H p i < H"
  by (simp add: probe_pos_def)

lemma probe_pos_if:
  "i < H \<Longrightarrow> probe_pos H p i = (if home H p + i < H then home H p + i else home H p + i - H)"
proof -
  assume "i < H"
  moreover from this have "home H p < H" by (simp add: home_def)
  ultimately show ?thesis by (simp add: probe_pos_def mod_if)
qed

lemma probe_pos_inj: "i < H \<Longrightarrow> j < H \<Longrightarrow> probe_pos H p i = probe_pos H p j \<Longrightarrow> i = j"
  by (auto simp: probe_pos_if split: if_splits)

lemma probe_pos_onto:
  assumes "k < H"
  shows "\<exists>i < H. probe_pos H p i = k"
proof -
  have hp: "home H p < H" using assms by (simp add: home_def)
  show ?thesis
  proof (cases "home H p \<le> k")
    case True
    then show ?thesis using assms by (intro exI [of _ "k - home H p"]) (simp add: probe_pos_def)
  next
    case False
    then have "(home H p + (H + k - home H p)) mod H = k" using assms hp by simp
    then show ?thesis using False hp by (intro exI [of _ "H + k - home H p"]) (auto simp: probe_pos_def)
  qed
qed

lemma probe_step:
  assumes "unat (hs :: u32) = 2 ^ k" and "unat s = probe_pos (unat hs) p i"
  shows "unat ((s + 1) AND (hs - 1)) = probe_pos (unat hs) p (Suc i)"
proof -
  have "(2 :: nat) ^ k < 2 ^ 32" using unat_lt_u32 [of hs] assms(1) by simp
  then have k: "k \<le> 32" by (meson less_imp_le numeral_less_iff power_less_imp_less_exp one_less_numeral_iff semiring_norm(76))
  have "unat (s + 1) mod unat hs = (unat s + 1) mod 2 ^ 32 mod 2 ^ k"
    by (simp add: unat_plus_u32 assms(1))
  also have "\<dots> = (unat s + 1) mod 2 ^ k"
    by (rule mod_mod_cancel) (rule le_imp_power_dvd [OF k])
  finally show ?thesis
    by (simp add: unat_and_pow2_minus_1 [OF assms(1)] assms probe_pos_def mod_simps)
qed

lemma probe_start: "unat hs = 2 ^ k \<Longrightarrow> unat (cow_hash hs p) = probe_pos (unat hs) p 0"
  by (simp add: cow_hash_def unat_and_pow2_minus_1 probe_pos_def home_def)

text \<open>The probe loop from its \<open>j\<close>-th position on: where it stops and where it gives up.\<close>

lemma cow_probe_stop:
  assumes "unat (hs :: u32) = 2 ^ k" and "length es = unat hs" and "unat s = probe_pos (unat hs) p j"
    and "d < n"
    and "\<forall>i < d. ent_occ (es ! probe_pos (unat hs) p (j + i)) \<and> ent_page (es ! probe_pos (unat hs) p (j + i)) \<noteq> p"
    and "q = probe_pos (unat hs) p (j + d)"
    and "\<not> ent_occ (es ! q) \<or> ent_page (es ! q) = p"
  shows "cow_probe es (hs - 1) p we s n = (if ent_occ (es ! q) \<or> we then Some q else None)"
  using assms(3-6)
proof (induction n arbitrary: s j d)
  case 0
  then show ?case by simp
next
  case (Suc n)
  show ?case
  proof (cases d)
    case 0
    then show ?thesis
      using Suc.prems assms(7) by (auto simp: ent_occ_def Let_def)
  next
    case (Suc d')
    have here: "ent_occ (es ! unat s)" "ent_page (es ! unat s) \<noteq> p"
      using Suc.prems(1,3) Suc by force+
    have next': "unat ((s + 1) AND (hs - 1)) = probe_pos (unat hs) p (Suc j)"
      by (rule probe_step [OF assms(1) Suc.prems(1)])
    have "cow_probe es (hs - 1) p we ((s + 1) AND (hs - 1)) n = (if ent_occ (es ! q) \<or> we then Some q else None)"
    proof (rule Suc.IH [OF next', of d'])
      show "d' < n" using Suc.prems(2) Suc by simp
      show "\<forall>i<d'. ent_occ (es ! probe_pos (unat hs) p (Suc j + i)) \<and> ent_page (es ! probe_pos (unat hs) p (Suc j + i)) \<noteq> p"
        using Suc.prems(3) Suc by (metis Suc_less_eq add_Suc_shift)
      show "q = probe_pos (unat hs) p (Suc j + d')" using Suc.prems(4) Suc by simp
    qed
    then show ?thesis using here by (simp add: Let_def ent_occ_def)
  qed
qed

lemma cow_probe_none:
  assumes "unat (hs :: u32) = 2 ^ k" and "unat s = probe_pos (unat hs) p j"
    and "\<forall>i < n. ent_occ (es ! probe_pos (unat hs) p (j + i)) \<and> ent_page (es ! probe_pos (unat hs) p (j + i)) \<noteq> p"
  shows "cow_probe es (hs - 1) p we s n = None"
  using assms(2-3)
proof (induction n arbitrary: s j)
  case 0
  then show ?case by simp
next
  case (Suc n)
  have here: "ent_occ (es ! unat s)" "ent_page (es ! unat s) \<noteq> p"
    using Suc.prems by force+
  have "\<forall>i<n. ent_occ (es ! probe_pos (unat hs) p (Suc j + i)) \<and> ent_page (es ! probe_pos (unat hs) p (Suc j + i)) \<noteq> p"
    using Suc.prems(2) by (metis Suc_less_eq add_Suc_shift)
  then have "cow_probe es (hs - 1) p we ((s + 1) AND (hs - 1)) n = None"
    by (rule Suc.IH [OF probe_step [OF assms(1) Suc.prems(1)]])
  then show ?case using here by (simp add: Let_def ent_occ_def)
qed

definition cow_find :: "st_cow_entry list \<Rightarrow> u32 \<Rightarrow> u32 \<Rightarrow> bool \<Rightarrow> nat option" where
  "cow_find es hs p we = cow_probe es (hs - 1) p we (cow_hash hs p) (unat hs)"

definition tab_ok :: "u32 \<Rightarrow> st_cow_entry list \<Rightarrow> bool" where
  "tab_ok hs es \<longleftrightarrow> (\<exists>k. unat hs = 2 ^ k) \<and> length es = unat hs \<and> probe_inv es \<and> pages_distinct es"

text \<open>A lookup finds exactly the entry that holds the page.\<close>

lemma find_present:
  assumes "tab_ok hs es" and "k < length es" "ent_occ (es ! k)" "ent_page (es ! k) = p"
  shows "cow_find es hs p we = Some k"
proof -
  obtain e where e: "unat hs = 2 ^ e" and len: "length es = unat hs"
    and pi: "probe_inv es" and pd: "pages_distinct es"
    using assms(1) by (auto simp: tab_ok_def)
  obtain d where d: "d < unat hs" "k = probe_pos (unat hs) p d" "\<forall>i < d. ent_occ (es ! probe_pos (unat hs) p i)"
    using pi assms(2-4) len unfolding probe_inv_def by metis
  have other: "ent_page (es ! probe_pos (unat hs) p i) \<noteq> p" if "i < d" for i
  proof
    assume "ent_page (es ! probe_pos (unat hs) p i) = p"
    then have "probe_pos (unat hs) p i = k"
      using pd d(1,3) that assms(2-4) len probe_pos_less [of "unat hs" p i] unfolding pages_distinct_def
      by (metis bot_nat_0.not_eq_extremum not_less0)
    then show False using d that probe_pos_inj [of i "unat hs" d p] by simp
  qed
  have "cow_probe es (hs - 1) p we (cow_hash hs p) (unat hs) = (if ent_occ (es ! k) \<or> we then Some k else None)"
    by (rule cow_probe_stop [OF e len probe_start [OF e] d(1)]) (use d other assms(4) in simp_all)
  then show ?thesis by (simp add: cow_find_def assms(3))
qed

lemma find_some:
  assumes "tab_ok hs es" and "cow_find es hs p False = Some k"
  shows "k < length es \<and> ent_occ (es ! k) \<and> ent_page (es ! k) = p"
proof -
  obtain e where e: "unat hs = 2 ^ e" and len: "length es = unat hs"
    using assms(1) by (auto simp: tab_ok_def)
  let ?stop = "\<lambda>d. \<not> (ent_occ (es ! probe_pos (unat hs) p d) \<and> ent_page (es ! probe_pos (unat hs) p d) \<noteq> p)"
  have "\<exists>d < unat hs. ?stop d"
  proof (rule ccontr)
    assume "\<not> ?thesis"
    then have "cow_find es hs p False = None"
      unfolding cow_find_def by (intro cow_probe_none [OF e probe_start [OF e]]) auto
    with assms(2) show False by simp
  qed
  then obtain d where d: "d < unat hs" "?stop d" "\<forall>i < d. \<not> ?stop i"
    using least_below [of "unat hs" ?stop] by blast
  let ?q = "probe_pos (unat hs) p d"
  have "cow_find es hs p False = (if ent_occ (es ! ?q) \<or> False then Some ?q else None)"
    unfolding cow_find_def
    by (rule cow_probe_stop [OF e len probe_start [OF e] d(1)]) (use d in auto)
  then show ?thesis
    using assms(2) d len probe_pos_less [of "unat hs" p d] by (auto split: if_splits)
qed

text \<open>Looking for a free place, where one exists and the page is not in the table: the first
  free place of the page's probe sequence.\<close>

lemma find_free:
  assumes "tab_ok hs es" and "\<forall>k < length es. ent_occ (es ! k) \<longrightarrow> ent_page (es ! k) \<noteq> p"
    and "\<exists>k < length es. \<not> ent_occ (es ! k)"
  obtains q d where "cow_find es hs p True = Some q" and "q < length es" and "\<not> ent_occ (es ! q)"
    and "d < length es" and "q = probe_pos (length es) p d" and "\<forall>i < d. ent_occ (es ! probe_pos (length es) p i)"
proof -
  obtain e where e: "unat hs = 2 ^ e" and len: "length es = unat hs"
    using assms(1) by (auto simp: tab_ok_def)
  obtain f where f: "f < length es" "\<not> ent_occ (es ! f)" using assms(3) by blast
  then obtain d0 where "d0 < length es" "\<not> ent_occ (es ! probe_pos (length es) p d0)"
    using probe_pos_onto [of f "length es" p] by metis
  then obtain d where d: "d < length es" "\<not> ent_occ (es ! probe_pos (length es) p d)"
    "\<forall>i < d. ent_occ (es ! probe_pos (length es) p i)"
    using least_below [of "length es" "\<lambda>d. \<not> ent_occ (es ! probe_pos (length es) p d)"] by blast
  let ?q = "probe_pos (length es) p d"
  have q: "?q < length es" using f(1) by (intro probe_pos_less) auto
  have other: "ent_page (es ! probe_pos (length es) p i) \<noteq> p" if "i < d" for i
    using d(3) that assms(2) f(1) probe_pos_less [of "length es" p i] by (metis bot_nat_0.not_eq_extremum not_less0)
  have "cow_find es hs p True = (if ent_occ (es ! ?q) \<or> True then Some ?q else None)"
    unfolding cow_find_def
    by (rule cow_probe_stop [OF e len probe_start [OF e], where d = d]) (use d other len in auto)
  then show ?thesis using that q d by auto
qed

lemma tab_ok_insert:
  assumes "tab_ok hs es" and "\<forall>k < length es. ent_occ (es ! k) \<longrightarrow> ent_page (es ! k) \<noteq> p"
    and "q < length es" and "\<not> ent_occ (es ! q)" and "d < length es"
    and "q = probe_pos (length es) p d" and "\<forall>i < d. ent_occ (es ! probe_pos (length es) p i)"
    and "ent_page e = p"
  shows "tab_ok hs (es[q := e])"
proof -
  have "probe_inv (es[q := e])"
    unfolding probe_inv_def
  proof (intro allI impI)
    fix k assume k: "k < length (es[q := e])" and occ: "ent_occ (es[q := e] ! k)"
    have mono: "ent_occ (es[q := e] ! l)" if "ent_occ (es ! l)" for l
      using that assms(4) by (cases "l = q") auto
    show "\<exists>d<length (es[q := e]). k = probe_pos (length (es[q := e])) (ent_page (es[q := e] ! k)) d
        \<and> (\<forall>i<d. ent_occ (es[q := e] ! probe_pos (length (es[q := e])) (ent_page (es[q := e] ! k)) i))"
    proof (cases "k = q")
      case True
      then show ?thesis using assms(3,5-8) mono by (intro exI [of _ d]) auto
    next
      case False
      then have "ent_occ (es ! k)" using occ by simp
      then obtain d' where "d' < length es" "k = probe_pos (length es) (ent_page (es ! k)) d'"
        "\<forall>i<d'. ent_occ (es ! probe_pos (length es) (ent_page (es ! k)) i)"
        using assms(1) k unfolding tab_ok_def probe_inv_def by auto
      then show ?thesis using False mono by (intro exI [of _ d']) auto
    qed
  qed
  moreover have "pages_distinct (es[q := e])"
    unfolding pages_distinct_def
  proof (intro allI impI)
    fix k l assume kl: "k < length (es[q := e])" "l < length (es[q := e])" "ent_occ (es[q := e] ! k)"
      "ent_occ (es[q := e] ! l)" "ent_page (es[q := e] ! k) = ent_page (es[q := e] ! l)"
    show "k = l"
    proof (cases "k = q \<or> l = q")
      case True
      then show ?thesis using kl assms(2,3,8) by (metis length_list_update nth_list_update_eq nth_list_update_neq)
    next
      case False
      then show ?thesis using kl assms(1) unfolding tab_ok_def pages_distinct_def by simp
    qed
  qed
  ultimately show ?thesis using assms(1) by (simp add: tab_ok_def)
qed

lemma tab_ok_keep:
  assumes "tab_ok hs es" and "ent_page e = ent_page (es ! q)" and "ent_occ e = ent_occ (es ! q)"
  shows "tab_ok hs (es[q := e])"
proof -
  have same: "ent_page (es[q := e] ! k) = ent_page (es ! k)" "ent_occ (es[q := e] ! k) = ent_occ (es ! k)" for k
    using assms(2,3) by (cases "k = q \<and> q < length es"; auto simp: nth_list_update list_update_beyond not_less)+
  show ?thesis
    using assms(1) unfolding tab_ok_def probe_inv_def pages_distinct_def same length_list_update .
qed

lemma tab_ok_empty:
  assumes "unat hs = 2 ^ k" and "\<forall>e \<in> set es. \<not> ent_occ e" and "length es = unat hs"
  shows "tab_ok hs es"
  unfolding tab_ok_def probe_inv_def pages_distinct_def using assms(1,3)
  by (metis assms(2) nth_mem)

text \<open>The table as a map from pages to entries.\<close>

definition tab_map :: "u32 \<Rightarrow> st_cow_entry list \<Rightarrow> u32 \<rightharpoonup> st_cow_entry" where
  "tab_map hs es p = map_option ((!) es) (cow_find es hs p False)"

lemma tab_map_Some:
  assumes "tab_ok hs es"
  shows "tab_map hs es p = Some e \<longleftrightarrow> (\<exists>k < length es. es ! k = e \<and> ent_occ e \<and> ent_page e = p)"
  using find_some [OF assms] find_present [OF assms] by (fastforce simp: tab_map_def)

lemma tab_map_None:
  assumes "tab_ok hs es"
  shows "tab_map hs es p = None \<longleftrightarrow> (\<forall>k < length es. ent_occ (es ! k) \<longrightarrow> ent_page (es ! k) \<noteq> p)"
  using tab_map_Some [OF assms, of p] by (metis not_None_eq)

lemma tab_map_page: "tab_ok hs es \<Longrightarrow> tab_map hs es p = Some e \<Longrightarrow> ent_page e = p \<and> ent_occ e"
  using tab_map_Some by blast

lemma tab_map_card:
  assumes "tab_ok hs es"
  shows "card (dom (tab_map hs es)) = card {k. k < length es \<and> ent_occ (es ! k)}"
proof -
  have "dom (tab_map hs es) = (\<lambda>k. ent_page (es ! k)) ` {k. k < length es \<and> ent_occ (es ! k)}"
    using tab_map_Some [OF assms] by (force simp: dom_def image_iff)
  moreover have "inj_on (\<lambda>k. ent_page (es ! k)) {k. k < length es \<and> ent_occ (es ! k)}"
    using assms by (auto simp: inj_on_def tab_ok_def pages_distinct_def)
  ultimately show ?thesis by (simp add: card_image)
qed

lemma tab_map_finite: "tab_ok hs es \<Longrightarrow> finite (dom (tab_map hs es))"
proof -
  assume "tab_ok hs es"
  then have "dom (tab_map hs es) \<subseteq> ent_page ` set es"
    using tab_map_Some by (fastforce simp: in_set_conv_nth)
  then show ?thesis by (rule finite_subset) simp
qed

lemma tab_free:
  assumes "tab_ok hs es" and "card (dom (tab_map hs es)) < length es"
  shows "\<exists>k < length es. \<not> ent_occ (es ! k)"
proof (rule ccontr)
  assume "\<not> ?thesis"
  then have "{k. k < length es \<and> ent_occ (es ! k)} = {..<length es}" by auto
  then show False using assms tab_map_card by simp
qed

lemma tab_map_update:
  assumes "tab_ok hs es" and "tab_ok hs (es[q := e])" and "q < length es" and "ent_occ e"
    and "ent_occ (es ! q) \<longrightarrow> ent_page (es ! q) = ent_page e"
  shows "tab_map hs (es[q := e]) = (tab_map hs es)(ent_page e \<mapsto> e)"
proof
  fix p
  show "tab_map hs (es[q := e]) p = ((tab_map hs es)(ent_page e \<mapsto> e)) p"
  proof (cases "p = ent_page e")
    case True
    have "tab_map hs (es[q := e]) (ent_page e) = Some e"
      unfolding tab_map_Some [OF assms(2)] using assms(3,4) by (intro exI [of _ q]) simp
    then show ?thesis using True by simp
  next
    case False
    have "tab_map hs (es[q := e]) p = Some x \<longleftrightarrow> tab_map hs es p = Some x" for x
      unfolding tab_map_Some [OF assms(1)] tab_map_Some [OF assms(2)]
      using False assms(3,5) by (metis length_list_update nth_list_update_eq nth_list_update_neq)
    then show ?thesis using False by (metis fun_upd_other not_None_eq)
  qed
qed

subsection \<open>Page tables as an interface\<close>

text \<open>What the copy-on-write shadow relies on: a table with room for an absent key takes it,
  and the map it stands for changes at that key alone.\<close>

locale page_table =
  fixes inv :: "'t \<Rightarrow> bool"
    and room :: "'t \<Rightarrow> nat"
    and look :: "'t \<Rightarrow> 'k \<rightharpoonup> 'e"
    and place :: "'t \<Rightarrow> 'k \<Rightarrow> 'e \<Rightarrow> 't option"
    and fits :: "'k \<Rightarrow> 'e \<Rightarrow> bool"
  assumes look_finite: "inv t \<Longrightarrow> finite (dom (look t))"
    and place_absent: "inv t \<Longrightarrow> look t k = None \<Longrightarrow> card (dom (look t)) < room t \<Longrightarrow> fits k e \<Longrightarrow>
      \<exists>t'. place t k e = Some t' \<and> inv t' \<and> room t' = room t \<and> look t' = (look t)(k \<mapsto> e)"
begin

fun place_all :: "'t \<Rightarrow> ('k \<times> 'e) list \<Rightarrow> 't option" where
  "place_all t [] = Some t"
| "place_all t ((k, e) # kes) = Option.bind (place t k e) (\<lambda>t'. place_all t' kes)"

lemma place_all_ok:
  assumes "inv t" and "distinct (map fst kes)" and "\<forall>k \<in> fst ` set kes. look t k = None"
    and "card (dom (look t)) + length kes \<le> room t" and "\<forall>(k, e) \<in> set kes. fits k e"
  shows "\<exists>t'. place_all t kes = Some t' \<and> inv t' \<and> room t' = room t
    \<and> look t' = look t ++ map_of kes \<and> card (dom (look t')) = card (dom (look t)) + length kes"
  using assms
proof (induction kes arbitrary: t)
  case Nil
  then show ?case by simp
next
  case (Cons ke kes)
  obtain k e where ke: "ke = (k, e)" by (cases ke)
  have absent: "look t k = None" and room: "card (dom (look t)) < room t" and "fits k e"
    using Cons.prems ke by auto
  then obtain t1 where t1: "place t k e = Some t1" "inv t1" "room t1 = room t" "look t1 = (look t)(k \<mapsto> e)"
    using place_absent Cons.prems(1) by blast
  have card1: "card (dom (look t1)) = Suc (card (dom (look t)))"
    using t1(4) absent look_finite [OF Cons.prems(1)] by (simp add: card_insert_if domIff)
  have "\<exists>t'. place_all t1 kes = Some t' \<and> inv t' \<and> room t' = room t1
    \<and> look t' = look t1 ++ map_of kes \<and> card (dom (look t')) = card (dom (look t1)) + length kes"
  proof (rule Cons.IH [OF t1(2)])
    show "\<forall>k' \<in> fst ` set kes. look t1 k' = None"
      using Cons.prems(2,3) ke t1(4) by auto
    show "card (dom (look t1)) + length kes \<le> room t1"
      using Cons.prems(4) card1 t1(3) by simp
  qed (use Cons.prems(2,5) ke in auto)
  then obtain t' where t': "place_all t1 kes = Some t'" "inv t'" "room t' = room t1"
    "look t' = look t1 ++ map_of kes" "card (dom (look t')) = card (dom (look t1)) + length kes"
    by blast
  have "look t' = look t ++ map_of (ke # kes)"
  proof -
    have "map_of kes k = None" using Cons.prems(2) ke by (simp add: map_of_eq_None_iff)
    then show ?thesis
      unfolding t'(4) t1(4) ke by (auto simp: map_add_def fun_eq_iff split: option.splits)
  qed
  moreover have "place_all t (ke # kes) = Some t'" using t1(1) t'(1) ke by simp
  moreover have "card (dom (look t')) = card (dom (look t)) + length (ke # kes)" using t'(5) card1 by simp
  ultimately show ?case using t1(3) t'(2,3) by metis
qed

end

text \<open>The model's table: the pair of the slot count and the entries.\<close>

definition tab_place :: "u32 \<times> st_cow_entry list \<Rightarrow> u32 \<Rightarrow> st_cow_entry \<Rightarrow> (u32 \<times> st_cow_entry list) option" where
  "tab_place t p e = map_option (\<lambda>k. (fst t, (snd t)[k := e])) (cow_find (snd t) (fst t) p True)"

interpretation cow_table: page_table
  "\<lambda>t. tab_ok (fst t) (snd t)" "\<lambda>t. length (snd t)" "\<lambda>t. tab_map (fst t) (snd t)" tab_place
  "\<lambda>p e. ent_page e = p \<and> ent_occ e"
proof
  fix t :: "u32 \<times> st_cow_entry list" assume "tab_ok (fst t) (snd t)"
  then show "finite (dom (tab_map (fst t) (snd t)))" by (rule tab_map_finite)
next
  fix t :: "u32 \<times> st_cow_entry list" and k e
  assume ok: "tab_ok (fst t) (snd t)" and "tab_map (fst t) (snd t) k = None"
    and room: "card (dom (tab_map (fst t) (snd t))) < length (snd t)" and e: "ent_page e = k \<and> ent_occ e"
  then have absent: "\<forall>i < length (snd t). ent_occ (snd t ! i) \<longrightarrow> ent_page (snd t ! i) \<noteq> k"
    using tab_map_None by blast
  obtain q d where q: "cow_find (snd t) (fst t) k True = Some q" "q < length (snd t)" "\<not> ent_occ (snd t ! q)"
    "d < length (snd t)" "q = probe_pos (length (snd t)) k d" "\<forall>i<d. ent_occ (snd t ! probe_pos (length (snd t)) k i)"
    by (rule find_free [OF ok absent tab_free [OF ok room]])
  have ok': "tab_ok (fst t) ((snd t)[q := e])"
    using tab_ok_insert [OF ok absent q(2-6)] e by blast
  moreover have "tab_map (fst t) ((snd t)[q := e]) = (tab_map (fst t) (snd t))(k \<mapsto> e)"
    using tab_map_update [OF ok ok' q(2)] q(3) e by simp
  ultimately show "\<exists>t'. tab_place t k e = Some t' \<and> tab_ok (fst t') (snd t') \<and> length (snd t') = length (snd t)
      \<and> tab_map (fst t') (snd t') = (tab_map (fst t) (snd t))(k \<mapsto> e)"
    using q(1) by (auto simp: tab_place_def)
qed

end
