(* ===== verification/Cow_Proofs.thy ===== *)
theory Cow_Proofs
  imports Cow_Table
begin

text \<open>
  The copy-on-write shadow as a disk.  \<open>cow_wf\<close> is the invariant; \<open>cow_view\<close> the content a reader
  sees; the arena is an array of 512-byte cells.  The lemmas take each operation to its effect on the
  view; the locale \<open>overlay_disk\<close> states the contract and the properties rest on its interpretation.
\<close>

unbundle bit_operations_syntax

subsection \<open>The arena as 512-byte cells\<close>

definition cell :: "bytes \<Rightarrow> nat \<Rightarrow> bytes" where
  "cell arena q = slice (q * 512) 512 arena"

lemma cell_splice:
  assumes "length bs = 512" and "q * 512 + 512 \<le> length arena"
  shows "cell (splice (q * 512) bs arena) q' = (if q' = q then bs else cell arena q')"
proof (cases "q' = q")
  case True
  then show ?thesis using assms by (simp add: cell_def slice_splice_same)
next
  case False
  then have "q' * 512 + 512 \<le> q * 512 \<or> q * 512 + length bs \<le> q' * 512"
    using assms(1) by linarith
  then show ?thesis using assms False by (simp add: cell_def slice_splice_disjoint)
qed

definition cow_cell :: "st_cow \<Rightarrow> nat \<Rightarrow> nat \<Rightarrow> nat" where
  "cow_cell c slot j = slot * unat (cow_sectors_per_page c) + j"

lemma cow_cell_inj:
  assumes "j < unat (cow_sectors_per_page c)" and "j' < unat (cow_sectors_per_page c)"
  shows "cow_cell c slot j = cow_cell c slot' j' \<longleftrightarrow> slot = slot' \<and> j = j'"
proof
  assume *: "cow_cell c slot j = cow_cell c slot' j'"
  then have "(slot * unat (cow_sectors_per_page c) + j) div unat (cow_sectors_per_page c)
    = (slot' * unat (cow_sectors_per_page c) + j') div unat (cow_sectors_per_page c)"
    by (simp add: cow_cell_def)
  then have "slot = slot'" using assms by simp
  then show "slot = slot' \<and> j = j'" using * by (simp add: cow_cell_def)
qed simp

subsection \<open>The invariant\<close>

text \<open>What \<open>st_cow_init\<close> sets up when nothing wraps.\<close>

definition cow_geometry :: "st_cow \<Rightarrow> bool" where
  "cow_geometry c \<longleftrightarrow>
     0 < unat (cow_sectors_per_page c) \<and> 0 < unat (cow_capacity c)
   \<and> unat (cow_page_bytes c) = unat (cow_sectors_per_page c) * 512
   \<and> unat (cow_sectors c) \<le> unat (cow_sectors_per_page c) * 4294967295
   \<and> length (cow_arena c) = unat (cow_capacity c) * unat (cow_sectors_per_page c) * 512
   \<and> length (cow_arena c) \<le> 4294967296
   \<and> length (cow_pending c) = unat (cow_capacity c)
   \<and> 2 * unat (cow_capacity c) \<le> unat (cow_hash_slots c)"

definition cow_map :: "st_cow \<Rightarrow> u32 \<rightharpoonup> st_cow_entry" where
  "cow_map c = tab_map (cow_hash_slots c) (cow_entries c)"

definition slots_ok :: "nat \<Rightarrow> (u32 \<rightharpoonup> st_cow_entry) \<Rightarrow> bool" where
  "slots_ok n m \<longleftrightarrow> card (dom m) = n \<and> (\<forall>e \<in> ran m. unat (ent_slot e) < n)
     \<and> (\<forall>p q e f. m p = Some e \<longrightarrow> m q = Some f \<longrightarrow> ent_slot e = ent_slot f \<longrightarrow> p = q)"

definition cow_wf :: "st_cow \<Rightarrow> bool" where
  "cow_wf c \<longleftrightarrow> cow_geometry c \<and> tab_ok (cow_hash_slots c) (cow_entries c)
     \<and> unat (cow_used c) \<le> unat (cow_capacity c) \<and> slots_ok (unat (cow_used c)) (cow_map c)"

lemma st_cow_lookup_find: "st_cow_lookup c p w = cow_find (cow_entries c) (cow_hash_slots c) p w"
  by (simp add: st_cow_lookup_def cow_find_def)

lemma lookup_None: "st_cow_lookup c p False = None \<longleftrightarrow> cow_map c p = None"
  by (simp add: st_cow_lookup_find cow_map_def tab_map_def)

lemma lookup_Some: "st_cow_lookup c p False = Some k \<Longrightarrow> cow_map c p = Some (cow_entries c ! k)"
  by (simp add: st_cow_lookup_find cow_map_def tab_map_def)

lemma cow_offset_cell:
  assumes "cow_geometry c" and "unat slot < unat (cow_capacity c)" and "unat j < unat (cow_sectors_per_page c)"
  shows "cow_offset c slot j = cow_cell c (unat slot) (unat j) * 512"
    and "cow_cell c (unat slot) (unat j) * 512 + 512 \<le> length (cow_arena c)"
proof -
  let ?S = "unat (cow_sectors_per_page c)" and ?C = "unat (cow_capacity c)"
  have "(unat slot + 1) * ?S \<le> ?C * ?S" using assms(2) by (intro mult_le_mono1) simp
  then have cells: "cow_cell c (unat slot) (unat j) + 1 \<le> ?C * ?S"
    using assms(3) by (simp add: cow_cell_def algebra_simps)
  have len: "length (cow_arena c) = ?C * ?S * 512" and max: "length (cow_arena c) \<le> 4294967296"
    using assms(1) by (simp_all add: cow_geometry_def)
  have "(cow_cell c (unat slot) (unat j) + 1) * 512 \<le> length (cow_arena c)"
    unfolding len by (rule mult_le_mono1 [OF cells])
  then show bound: "cow_cell c (unat slot) (unat j) * 512 + 512 \<le> length (cow_arena c)" by simp
  have "cow_cell c (unat slot) (unat j) * 512 = unat slot * (?S * 512) + unat j * 512"
    by (simp add: cow_cell_def add_mult_distrib)
  then have lim: "unat slot * (?S * 512) + unat j * 512 + 512 \<le> 4294967296"
    using bound max by linarith
  have pb: "unat (cow_page_bytes c) = ?S * 512" using assms(1) by (simp add: cow_geometry_def)
  have "unat slot * unat (cow_page_bytes c) < 2 ^ 32" using lim unfolding pb by simp
  then have 1: "unat (slot * cow_page_bytes c) = unat slot * (?S * 512)"
    unfolding pb [symmetric] by (rule unat_mult_u32_small)
  have 2: "unat (push_bit 9 j) = unat j * 512"
  proof -
    have "unat (512 :: u32) * unat j < 2 ^ 32" using lim by simp
    then show ?thesis by (simp add: push_bit_eq_mult unat_mult_u32_small)
  qed
  have "unat (slot * cow_page_bytes c) + unat (push_bit 9 j) < 2 ^ 32" using lim unfolding 1 2 by simp
  then have "cow_offset c slot j = unat slot * (?S * 512) + unat j * 512"
    unfolding cow_offset_def by (simp only: unat_plus_u32_small 1 2)
  then show "cow_offset c slot j = cow_cell c (unat slot) (unat j) * 512"
    by (simp add: cow_cell_def algebra_simps)
qed

lemma cow_page_of_unat:
  assumes "cow_geometry c" and "s < cow_sectors c"
  shows "unat (cow_page_of c s) = unat s div unat (cow_sectors_per_page c)"
proof -
  have "unat s < unat (cow_sectors_per_page c) * 4294967295"
    using assms by (simp add: cow_geometry_def word_less_nat_alt)
  then have "unat s div unat (cow_sectors_per_page c) < 4294967295"
    using less_mult_imp_div_less by (metis mult.commute)
  then show ?thesis
    by (simp add: cow_page_of_def unat_ucast_u64_u32 unat_div_distrib)
qed

lemma cow_in_page_unat:
  assumes "cow_geometry c"
  shows "unat (cow_in_page c s) = unat s mod unat (cow_sectors_per_page c)"
    and "unat (cow_in_page c s) < unat (cow_sectors_per_page c)"
proof -
  have S: "unat s mod unat (cow_sectors_per_page c) < unat (cow_sectors_per_page c)"
    using assms by (simp add: cow_geometry_def)
  then have "unat s mod unat (cow_sectors_per_page c) < 4294967296"
    using unat_lt_u32 [of "cow_sectors_per_page c"] by (rule less_trans)
  then show "unat (cow_in_page c s) = unat s mod unat (cow_sectors_per_page c)"
    by (simp add: cow_in_page_def unat_ucast_u64_u32 unat_mod_distrib)
  then show "unat (cow_in_page c s) < unat (cow_sectors_per_page c)" using S by simp
qed

text \<open>A sector is named by its page and its place in it.\<close>

lemma cow_sector_eq:
  assumes "cow_geometry c" and "s < cow_sectors c" and "t < cow_sectors c"
  shows "s = t \<longleftrightarrow> cow_page_of c s = cow_page_of c t \<and> cow_in_page c s = cow_in_page c t"
proof
  assume "cow_page_of c s = cow_page_of c t \<and> cow_in_page c s = cow_in_page c t"
  then have "unat s div unat (cow_sectors_per_page c) = unat t div unat (cow_sectors_per_page c)"
    "unat s mod unat (cow_sectors_per_page c) = unat t mod unat (cow_sectors_per_page c)"
    using cow_page_of_unat cow_in_page_unat(1) assms by metis+
  then have "unat s = unat t" by (metis div_mult_mod_eq)
  then show "s = t" by (simp add: word_unat_eq_iff)
qed simp

subsection \<open>What the shadow shows\<close>

text \<open>The content of a sector: its arena cell where its page is resident, the base elsewhere.\<close>

definition cow_view :: "read512_fn \<Rightarrow> st_cow \<Rightarrow> u64 \<Rightarrow> bytes" where
  "cow_view rd c s = (case cow_map c (cow_page_of c s) of
     Some e \<Rightarrow> cell (cow_arena c) (cow_cell c (unat (ent_slot e)) (unat (cow_in_page c s)))
   | None \<Rightarrow> snd (rd s))"

lemma cow_map_slot:
  assumes "cow_wf c" and "cow_map c p = Some e"
  shows "unat (ent_slot e) < unat (cow_used c)" "unat (ent_slot e) < unat (cow_capacity c)"
    "ent_page e = p" "ent_occ e"
proof -
  have ok: "tab_ok (cow_hash_slots c) (cow_entries c)" and "slots_ok (unat (cow_used c)) (cow_map c)"
    and used: "unat (cow_used c) \<le> unat (cow_capacity c)"
    using assms(1) by (simp_all add: cow_wf_def)
  then show 1: "unat (ent_slot e) < unat (cow_used c)"
    using ranI [of "cow_map c" p e] assms(2) by (simp add: slots_ok_def)
  then show "unat (ent_slot e) < unat (cow_capacity c)" using used by linarith
  show "ent_page e = p" and "ent_occ e" using tab_map_page [OF ok] assms(2) by (simp_all add: cow_map_def)
qed

lemma cow_read_spec:
  assumes "cow_wf c"
  shows "st_cow_read_sector rd c s out =
    (if s \<ge> cow_sectors c then (ST_COW_RANGE, out, c)
     else if cow_map c (cow_page_of c s) = None \<and> fst (rd s) \<noteq> 0
          then (ST_COW_IO, snd (rd s), c\<lparr>cow_backend_error := fst (rd s)\<rparr>)
     else (ST_COW_OK, cow_view rd c s, c))"
proof (cases "s < cow_sectors c")
  case True
  show ?thesis
  proof (cases "st_cow_lookup c (cow_page_of c s) False")
    case None
    then show ?thesis
      using True lookup_None [of c "cow_page_of c s"]
      by (simp add: st_cow_read_sector_def cow_view_def split_beta not_le Let_def)
  next
    case (Some k)
    let ?e = "cow_entries c ! k"
    have e: "cow_map c (cow_page_of c s) = Some ?e" using lookup_Some [OF Some] .
    have g: "cow_geometry c" using assms by (simp add: cow_wf_def)
    have "cow_offset c (ent_slot ?e) (cow_in_page c s) = cow_cell c (unat (ent_slot ?e)) (unat (cow_in_page c s)) * 512"
      by (rule cow_offset_cell(1) [OF g cow_map_slot(2) [OF assms e] cow_in_page_unat(2) [OF g]])
    then show ?thesis
      using True Some e by (simp add: st_cow_read_sector_def cow_view_def cell_def not_le)
  qed
qed (auto simp: st_cow_read_sector_def not_less)

subsection \<open>Copying base pages into the arena\<close>

definition cow_sec :: "st_cow \<Rightarrow> u32 \<Rightarrow> nat \<Rightarrow> u64" where
  "cow_sec c p i = ucast p * ucast (cow_sectors_per_page c) + word_of_nat i"

lemma cow_sec_unat:
  assumes "i < unat (cow_sectors_per_page c)"
  shows "unat (cow_sec c p i) = unat p * unat (cow_sectors_per_page c) + i"
proof -
  let ?S = "unat (cow_sectors_per_page c)"
  have 1: "unat p * ?S \<le> 4294967295 * 4294967295"
    using unat_lt_u32 [of p] unat_lt_u32 [of "cow_sectors_per_page c"] by (intro mult_le_mono) linarith+
  have 2: "i < 4294967295" using assms unat_lt_u32 [of "cow_sectors_per_page c"] by linarith
  have "unat (ucast p * ucast (cow_sectors_per_page c) :: u64) = unat p * ?S"
    using 1 by (simp add: unat_word_ariths)
  moreover have "unat (word_of_nat i :: u64) = i" using 2 by (simp add: unat_of_nat)
  ultimately show ?thesis
    using 1 2 by (simp add: cow_sec_def unat_word_ariths)
qed

lemma cow_sec_of_sector:
  assumes "cow_geometry c" and "s < cow_sectors c"
  shows "cow_sec c (cow_page_of c s) (unat (cow_in_page c s)) = s"
  using cow_sec_unat [OF cow_in_page_unat(2) [OF assms(1), of s], of "cow_page_of c s"]
  by (simp add: word_unat_eq_iff cow_page_of_unat [OF assms] cow_in_page_unat(1) [OF assms(1)])

lemma cow_copy_page_spec:
  assumes "cow_geometry c" and "unat slot < unat (cow_capacity c)" and "\<forall>lba. length (snd (rd lba)) = 512"
    and "unat j + n \<le> unat (cow_sectors_per_page c)" and "length ar = length (cow_arena c)"
    and "cow_copy_page rd c p slot j n ar = (err, ar')"
  shows "length ar' = length ar
    \<and> (\<forall>q. (\<forall>i. unat j \<le> i \<and> i < unat j + n \<longrightarrow> q \<noteq> cow_cell c (unat slot) i) \<longrightarrow> cell ar' q = cell ar q)
    \<and> (err = 0 \<longleftrightarrow> (\<forall>i. unat j \<le> i \<and> i < unat j + n \<longrightarrow> fst (rd (cow_sec c p i)) = 0))
    \<and> (err = 0 \<longrightarrow> (\<forall>i. unat j \<le> i \<and> i < unat j + n \<longrightarrow> cell ar' (cow_cell c (unat slot) i) = snd (rd (cow_sec c p i))))"
  using assms(4-6)
proof (induction n arbitrary: j ar)
  case 0
  then show ?case by auto
next
  case (Suc n)
  let ?S = "unat (cow_sectors_per_page c)" and ?q = "cow_cell c (unat slot) (unat j)"
  have j: "unat j < ?S" using Suc.prems(1) by simp
  have sec: "ucast p * ucast (cow_sectors_per_page c) + ucast j = cow_sec c p (unat j)"
    by (simp add: cow_sec_def)
  obtain er bs where rd: "rd (cow_sec c p (unat j)) = (er, bs)" by fastforce
  have bs: "length bs = 512" using assms(3) rd by (metis snd_conv)
  let ?ar1 = "splice (?q * 512) bs ar"
  have fits: "?q * 512 + 512 \<le> length ar"
    using cow_offset_cell(2) [OF assms(1,2) j] Suc.prems(2) by simp
  have len1: "length ?ar1 = length ar" using fits bs by (simp add: length_splice)
  have cell1: "cell ?ar1 q = (if q = ?q then bs else cell ar q)" for q
    by (rule cell_splice [OF bs fits])
  have eq: "cow_copy_page rd c p slot j (Suc n) ar =
      (if er \<noteq> 0 then (er, ?ar1) else cow_copy_page rd c p slot (j + 1) n ?ar1)"
    by (simp add: sec rd cow_offset_cell(1) [OF assms(1,2) j])
  show ?case
  proof (cases "er = 0")
    case False
    then have r: "err = er" "ar' = ?ar1" using Suc.prems(3) eq by simp_all
    have "\<not> (\<forall>i. unat j \<le> i \<and> i < unat j + Suc n \<longrightarrow> fst (rd (cow_sec c p i)) = 0)"
      using False rd by (metis fst_conv le_refl less_add_same_cancel1 zero_less_Suc)
    then show ?thesis using False r len1 cell1 by auto
  next
    case True
    have suc: "unat (j + 1) = Suc (unat j)"
      by (subst unat_plus_u32_small) (use j unat_lt_u32 [of "cow_sectors_per_page c"] in \<open>simp_all del: unat_lt_u32\<close>)
    have rest: "cow_copy_page rd c p slot (j + 1) n ?ar1 = (err, ar')" using Suc.prems(3) eq True by simp
    have bound: "unat (j + 1) + n \<le> ?S" using Suc.prems(1) suc by simp
    have "length ?ar1 = length (cow_arena c)" using Suc.prems(2) len1 by simp
    note ih = Suc.IH [OF bound this rest, unfolded suc]
    have IH: "length ar' = length ?ar1"
      "\<And>q. (\<And>i. Suc (unat j) \<le> i \<Longrightarrow> i < Suc (unat j) + n \<Longrightarrow> q \<noteq> cow_cell c (unat slot) i) \<Longrightarrow> cell ar' q = cell ?ar1 q"
      "err = 0 \<longleftrightarrow> (\<forall>i. Suc (unat j) \<le> i \<and> i < Suc (unat j) + n \<longrightarrow> fst (rd (cow_sec c p i)) = 0)"
      "\<And>i. err = 0 \<Longrightarrow> Suc (unat j) \<le> i \<Longrightarrow> i < Suc (unat j) + n \<Longrightarrow> cell ar' (cow_cell c (unat slot) i) = snd (rd (cow_sec c p i))"
      using ih by simp_all
    have here: "cell ar' ?q = bs"
    proof -
      have "?q \<noteq> cow_cell c (unat slot) i" if "Suc (unat j) \<le> i" "i < Suc (unat j) + n" for i
        using that by (simp add: cow_cell_def)
      then show ?thesis using IH(2) cell1 by simp
    qed
    have split_i: "unat j \<le> i \<and> i < unat j + Suc n \<longleftrightarrow> i = unat j \<or> Suc (unat j) \<le> i \<and> i < Suc (unat j) + n" for i
      by auto
    show ?thesis
      unfolding split_i
    proof (intro conjI allI impI)
      show "length ar' = length ar" using IH(1) len1 by simp
      show "(err = 0) = (\<forall>i. i = unat j \<or> Suc (unat j) \<le> i \<and> i < Suc (unat j) + n \<longrightarrow> fst (rd (cow_sec c p i)) = 0)"
        unfolding IH(3) using True rd by auto
    next
      fix q assume "\<forall>i. i = unat j \<or> Suc (unat j) \<le> i \<and> i < Suc (unat j) + n \<longrightarrow> q \<noteq> cow_cell c (unat slot) i"
      then show "cell ar' q = cell ar q" using IH(2) cell1 by simp
    next
      fix i assume "err = 0" and "i = unat j \<or> Suc (unat j) \<le> i \<and> i < Suc (unat j) + n"
      then show "cell ar' (cow_cell c (unat slot) i) = snd (rd (cow_sec c p i))"
        using IH(4) here rd by auto
    qed
  qed
qed

definition cow_valid :: "st_cow \<Rightarrow> u32 \<Rightarrow> nat" where
  "cow_valid c p = min (unat (cow_sectors_per_page c)) (unat (cow_sectors c) - unat p * unat (cow_sectors_per_page c))"

lemma cow_valid_unat:
  assumes "cow_geometry c" and "unat p * unat (cow_sectors_per_page c) \<le> unat (cow_sectors c)"
  shows "unat (cow_valid_sectors c p) = cow_valid c p"
proof -
  let ?S = "unat (cow_sectors_per_page c)"
  have u: "unat (ucast p * ucast (cow_sectors_per_page c) :: u64) = unat p * ?S"
    using cow_sec_unat [of 0 c p] assms(1) by (simp add: cow_sec_def cow_geometry_def)
  then have "(ucast p * ucast (cow_sectors_per_page c) :: u64) \<le> cow_sectors c"
    using assms(2) by (simp add: word_le_nat_alt)
  then have r: "unat (cow_sectors c - ucast p * ucast (cow_sectors_per_page c)) = unat (cow_sectors c) - unat p * ?S"
    using u by (simp add: unat_sub)
  have "x < ?S \<Longrightarrow> x mod 4294967296 = x" for x
    using unat_lt_u32 [of "cow_sectors_per_page c"] by (intro mod_less) linarith
  with r show ?thesis
    by (auto simp: cow_valid_sectors_def cow_valid_def Let_def word_less_nat_alt unat_ucast_u64_u32 min_def)
qed

lemma suc_unat_u32:
  assumes "unat (a :: u32) + Suc n \<le> unat (b :: u32)"
  shows "unat (a + 1) = Suc (unat a)"
  using assms unat_lt_u32 [of b]
  by (subst unat_plus_u32_small) (simp_all del: unat_lt_u32)

lemma cow_copy_pages_spec:
  assumes "cow_geometry c" and "\<forall>lba. length (snd (rd lba)) = 512"
    and "unat slot + length ps \<le> unat (cow_capacity c)" and "length ar = length (cow_arena c)"
    and "\<forall>p \<in> set ps. unat p * unat (cow_sectors_per_page c) \<le> unat (cow_sectors c)"
    and "cow_copy_pages rd c ps slot ar = (err, ar')"
  shows "length ar' = length ar
    \<and> (\<forall>t i. t < unat slot \<longrightarrow> i < unat (cow_sectors_per_page c) \<longrightarrow> cell ar' (cow_cell c t i) = cell ar (cow_cell c t i))
    \<and> (err = 0 \<longleftrightarrow> (\<forall>p \<in> set ps. \<forall>i < cow_valid c p. fst (rd (cow_sec c p i)) = 0))
    \<and> (err = 0 \<longrightarrow> (\<forall>k < length ps. \<forall>i < cow_valid c (ps ! k). cell ar' (cow_cell c (unat slot + k) i) = snd (rd (cow_sec c (ps ! k) i))))"
  using assms(3-6)
proof (induction ps arbitrary: slot ar)
  case Nil
  then show ?case by auto
next
  case (Cons p ps)
  let ?S = "unat (cow_sectors_per_page c)"
  have slot: "unat slot < unat (cow_capacity c)" using Cons.prems(1) by simp
  have nv: "unat (cow_valid_sectors c p) = cow_valid c p"
    using cow_valid_unat [OF assms(1)] Cons.prems(3) by simp
  have vS: "cow_valid c q \<le> ?S" for q by (simp add: cow_valid_def)
  obtain er ar1 where one: "cow_copy_page rd c p slot 0 (cow_valid c p) ar = (er, ar1)" by fastforce
  have "unat (0 :: u32) + cow_valid c p \<le> ?S" using vS by simp
  note P = cow_copy_page_spec [OF assms(1) slot assms(2) this Cons.prems(2) one]
  have P1: "length ar1 = length ar"
    and P2: "\<And>t i. t \<noteq> unat slot \<Longrightarrow> i < ?S \<Longrightarrow> cell ar1 (cow_cell c t i) = cell ar (cow_cell c t i)"
    and P3: "er = 0 \<longleftrightarrow> (\<forall>i < cow_valid c p. fst (rd (cow_sec c p i)) = 0)"
    and P4: "\<And>i. er = 0 \<Longrightarrow> i < cow_valid c p \<Longrightarrow> cell ar1 (cow_cell c (unat slot) i) = snd (rd (cow_sec c p i))"
    using P vS [of p] cow_cell_inj [of _ c] by (simp_all add: less_le_trans)
  have eq: "cow_copy_pages rd c (p # ps) slot ar =
      (if er \<noteq> 0 then (er, ar1) else cow_copy_pages rd c ps (slot + 1) ar1)"
    by (simp add: nv one)
  show ?case
  proof (cases "er = 0")
    case False
    then have "err = er" "ar' = ar1" using Cons.prems(4) eq by simp_all
    then show ?thesis using False P1 P2 P3 by auto
  next
    case True
    show ?thesis
    proof (cases ps)
      case Nil
      then have "err = 0" "ar' = ar1" using Cons.prems(4) eq True by simp_all
      then show ?thesis using True P1 P2 P3 P4 Nil by simp
    next
      case (Cons p2 ps2)
      have suc: "unat (slot + 1) = Suc (unat slot)"
        using Cons.prems(1) Cons by (intro suc_unat_u32 [where b = "cow_capacity c" and n = "length ps2"]) simp
      have bound: "unat (slot + 1) + length ps \<le> unat (cow_capacity c)" using Cons.prems(1) suc by simp
      have rest: "cow_copy_pages rd c ps (slot + 1) ar1 = (err, ar')" using Cons.prems(4) eq True by simp
      have "length ar1 = length (cow_arena c)" using P1 Cons.prems(2) by simp
      note ih = Cons.IH [OF bound this _ rest, unfolded suc]
      have I1: "length ar' = length ar1"
        and I2: "\<And>t i. t < Suc (unat slot) \<Longrightarrow> i < ?S \<Longrightarrow> cell ar' (cow_cell c t i) = cell ar1 (cow_cell c t i)"
        and I3: "err = 0 \<longleftrightarrow> (\<forall>p \<in> set ps. \<forall>i < cow_valid c p. fst (rd (cow_sec c p i)) = 0)"
        and I4: "\<And>k i. err = 0 \<Longrightarrow> k < length ps \<Longrightarrow> i < cow_valid c (ps ! k) \<Longrightarrow>
          cell ar' (cow_cell c (Suc (unat slot) + k) i) = snd (rd (cow_sec c (ps ! k) i))"
        using ih Cons.prems(3) by simp_all
      show ?thesis
      proof (intro conjI allI impI)
        show "length ar' = length ar" using I1 P1 by simp
        show "err = 0 \<longleftrightarrow> (\<forall>p \<in> set (p # ps). \<forall>i < cow_valid c p. fst (rd (cow_sec c p i)) = 0)"
          unfolding I3 using True P3 by simp
      next
        fix t i assume "t < unat slot" "i < ?S"
        then show "cell ar' (cow_cell c t i) = cell ar (cow_cell c t i)" using I2 P2 by simp
      next
        fix k i assume k: "err = 0" "k < length (p # ps)" "i < cow_valid c ((p # ps) ! k)"
        show "cell ar' (cow_cell c (unat slot + k) i) = snd (rd (cow_sec c ((p # ps) ! k) i))"
        proof (cases k)
          case 0
          then show ?thesis using k True I2 [of "unat slot" i] P4 [of i] vS [of p] by simp
        next
          case (Suc k')
          then show ?thesis using k I4 [of k' i] by simp
        qed
      qed
    qed
  qed
qed

subsection \<open>Which pages a write needs\<close>

definition u32_range :: "u32 \<Rightarrow> u32 \<Rightarrow> u32 list" where
  "u32_range lo hi = map word_of_nat [unat lo..<Suc (unat hi)]"

definition cow_missing :: "st_cow \<Rightarrow> u32 \<Rightarrow> u32 \<Rightarrow> u32 list" where
  "cow_missing c lo hi = filter (\<lambda>p. cow_map c p = None) (u32_range lo hi)"

lemma u32_range_unfold:
  assumes "lo \<le> hi"
  shows "u32_range lo hi = lo # (if lo = hi then [] else u32_range (lo + 1) hi)"
proof (cases "lo = hi")
  case False
  then have lt: "unat lo < unat hi" using assms by (simp add: word_less_nat_alt word_le_nat_alt word_unat_eq_iff)
  then have "unat (lo + 1) = Suc (unat lo)" by (intro suc_unat_u32 [of _ 0 hi]) simp
  then show ?thesis using False lt by (simp add: u32_range_def upt_conv_Cons del: upt_Suc)
qed (simp add: u32_range_def)

lemma u32_range_set: "p \<in> set (u32_range lo hi) \<longleftrightarrow> lo \<le> p \<and> p \<le> hi"
proof -
  have "p \<in> set (u32_range lo hi) \<longleftrightarrow> (\<exists>n. unat lo \<le> n \<and> n \<le> unat hi \<and> p = word_of_nat n)"
    by (auto simp: u32_range_def)
  also have "\<dots> \<longleftrightarrow> unat lo \<le> unat p \<and> unat p \<le> unat hi"
  proof
    assume "\<exists>n. unat lo \<le> n \<and> n \<le> unat hi \<and> p = word_of_nat n"
    then obtain n where n: "unat lo \<le> n" "n \<le> unat hi" "p = word_of_nat n" by blast
    then have "unat p = n" using unat_lt_u32 [of hi] by (simp add: unat_of_nat del: unat_lt_u32)
    then show "unat lo \<le> unat p \<and> unat p \<le> unat hi" using n by simp
  next
    assume "unat lo \<le> unat p \<and> unat p \<le> unat hi"
    then show "\<exists>n. unat lo \<le> n \<and> n \<le> unat hi \<and> p = word_of_nat n" by (intro exI [of _ "unat p"]) simp
  qed
  finally show ?thesis by (simp add: word_le_nat_alt)
qed

lemma u32_range_distinct: "distinct (u32_range lo hi)"
proof -
  have "inj_on (word_of_nat :: nat \<Rightarrow> u32) {unat lo..<Suc (unat hi)}"
  proof (rule inj_onI)
    fix x y assume "x \<in> {unat lo..<Suc (unat hi)}" "y \<in> {unat lo..<Suc (unat hi)}"
      and eq: "(word_of_nat x :: u32) = word_of_nat y"
    then have "x < 4294967296" "y < 4294967296" using unat_lt_u32 [of hi] by (simp_all del: unat_lt_u32)
    then show "x = y" using arg_cong [OF eq, of unat] by (simp add: unat_of_nat)
  qed
  then show ?thesis by (simp add: u32_range_def distinct_map del: upt_Suc)
qed

lemma u32_range_length: "lo \<le> hi \<Longrightarrow> length (u32_range lo hi) = Suc (unat hi - unat lo)"
  by (simp add: u32_range_def word_le_nat_alt Suc_diff_le)

lemma cow_scan_spec:
  assumes "page \<le> last_page" and "unat (cow_used c) \<le> unat (cow_capacity c)"
    and "length pending = unat (cow_capacity c)" and "unat needed \<le> unat (cow_capacity c) - unat (cow_used c)"
    and "cow_scan c page last_page needed pending = (ok, needed', pending')"
  shows "length pending' = length pending
    \<and> (ok \<longleftrightarrow> unat needed + length (cow_missing c page last_page) \<le> unat (cow_capacity c) - unat (cow_used c))
    \<and> (ok \<longrightarrow> unat needed' = unat needed + length (cow_missing c page last_page)
        \<and> take (unat needed') pending' = take (unat needed) pending @ cow_missing c page last_page)"
  using assms
proof (induction c page last_page needed pending rule: cow_scan.induct)
  case (1 c page last_page needed pending)
  have room: "unat (cow_capacity c - cow_used c) = unat (cow_capacity c) - unat (cow_used c)"
    using 1(4) by (simp add: unat_sub word_le_nat_alt)
  have next_le: "page \<noteq> last_page \<Longrightarrow> page + 1 \<le> last_page"
    using 1(3) by (intro inc_le) (rule order.not_eq_order_implies_strict)
  have missing: "cow_missing c page last_page = (if cow_map c page = None then [page] else [])
      @ (if page = last_page then [] else cow_missing c (page + 1) last_page)"
    using u32_range_unfold [OF 1(3)] by (simp add: cow_missing_def)
  show ?case
  proof (cases "cow_map c page = None")
    case False
    then have look: "st_cow_lookup c page False \<noteq> None" by (simp add: lookup_None)
    then obtain k where lk: "st_cow_lookup c page False = Some k" by blast
    show ?thesis
    proof (cases "page = last_page")
      case True
      then have "ok" "needed' = needed" "pending' = pending"
        using 1(7) lk by (simp_all add: cow_scan.simps [of c last_page])
      then show ?thesis using 1(6) missing False True by simp
    next
      case neq: False
      have rest: "cow_scan c (page + 1) last_page needed pending = (ok, needed', pending')"
        using 1(7) neq lk by (simp add: cow_scan.simps [of c page])
      have same: "cow_missing c page last_page = cow_missing c (page + 1) last_page"
        using missing False neq by simp
      show ?thesis unfolding same by (rule 1(2) [OF look neq next_le [OF neq] 1(4,5,6) rest])
    qed
  next
    case True
    then have look: "st_cow_lookup c page False = None" by (simp add: lookup_None)
    show ?thesis
    proof (cases "needed \<ge> cow_capacity c - cow_used c")
      case full: True
      then have "unat needed = unat (cow_capacity c) - unat (cow_used c)"
        using 1(6) by (simp add: word_le_nat_alt room)
      then show ?thesis
        using 1(7) full look missing True by (auto simp: cow_scan.simps [of c page])
    next
      case free: False
      then have lt: "unat needed < unat (cow_capacity c) - unat (cow_used c)"
        by (simp add: word_le_nat_alt room)
      then have suc: "unat (needed + 1) = Suc (unat needed)"
        by (intro suc_unat_u32 [of _ 0 "cow_capacity c"]) simp
      have take1: "take (Suc (unat needed)) (pending[unat needed := page]) = take (unat needed) pending @ [page]"
        using lt 1(5) by (simp add: take_Suc_conv_app_nth)
      show ?thesis
      proof (cases "page = last_page")
        case eq: True
        then have "ok" "needed' = needed + 1" "pending' = pending[unat needed := page]"
          using 1(7) look free by (simp_all add: cow_scan.simps [of c last_page] Let_def)
        then show ?thesis using lt suc take1 missing True eq by simp
      next
        case neq: False
        have rest: "cow_scan c (page + 1) last_page (needed + 1) (pending[unat needed := page]) = (ok, needed', pending')"
          using 1(7) neq look free by (simp add: cow_scan.simps [of c page] Let_def)
        have "length (pending[unat needed := page]) = unat (cow_capacity c)" using 1(5) by simp
        moreover have "unat (needed + 1) \<le> unat (cow_capacity c) - unat (cow_used c)" using lt suc by simp
        ultimately have IH: "length pending' = length (pending[unat needed := page])
          \<and> (ok \<longleftrightarrow> unat (needed + 1) + length (cow_missing c (page + 1) last_page) \<le> unat (cow_capacity c) - unat (cow_used c))
          \<and> (ok \<longrightarrow> unat needed' = unat (needed + 1) + length (cow_missing c (page + 1) last_page)
            \<and> take (unat needed') pending' = take (unat (needed + 1)) (pending[unat needed := page]) @ cow_missing c (page + 1) last_page)"
          using 1(1) [OF look free refl refl neq next_le [OF neq] 1(4) _ _ rest] by blast
        have "cow_missing c page last_page = page # cow_missing c (page + 1) last_page"
          using missing True neq by simp
        then show ?thesis using IH suc take1 by auto
      qed
    qed
  qed
qed

subsection \<open>Publishing the copied pages\<close>

definition fresh_entry :: "u32 \<Rightarrow> u32 \<Rightarrow> st_cow_entry" where
  "fresh_entry p slot = \<lparr>ent_page = p, ent_slot = slot, ent_flags = ST_COW_OCCUPIED\<rparr>"

fun fresh_entries :: "u32 list \<Rightarrow> u32 \<Rightarrow> (u32 \<times> st_cow_entry) list" where
  "fresh_entries [] slot = []"
| "fresh_entries (p # ps) slot = (p, fresh_entry p slot) # fresh_entries ps (slot + 1)"

lemma fresh_entries_keys: "map fst (fresh_entries ps slot) = ps"
  by (induction ps slot rule: fresh_entries.induct) simp_all

lemma fresh_entries_length: "length (fresh_entries ps slot) = length ps"
  using arg_cong [OF fresh_entries_keys, of length ps slot] by simp

lemma fresh_entries_set:
  assumes "unat slot + length ps \<le> unat (m :: u32)"
  shows "(p, e) \<in> set (fresh_entries ps slot) \<longleftrightarrow>
    (\<exists>i < length ps. p = ps ! i \<and> ent_page e = p \<and> unat (ent_slot e) = unat slot + i \<and> ent_flags e = ST_COW_OCCUPIED)"
  using assms
proof (induction ps slot rule: fresh_entries.induct)
  case (1 slot)
  then show ?case by simp
next
  case (2 q ps slot)
  have suc: "unat (slot + 1) = Suc (unat slot)" if "ps \<noteq> []"
    using 2(2) that by (intro suc_unat_u32 [where n = "length ps" and b = m]) simp
  have IH: "(p, e) \<in> set (fresh_entries ps (slot + 1)) \<longleftrightarrow>
    (\<exists>i < length ps. p = ps ! i \<and> ent_page e = p \<and> unat (ent_slot e) = unat slot + Suc i \<and> ent_flags e = ST_COW_OCCUPIED)"
    using 2 suc by (cases "ps = []") simp_all
  have hd: "e = fresh_entry q slot \<longleftrightarrow> ent_page e = q \<and> unat (ent_slot e) = unat slot \<and> ent_flags e = ST_COW_OCCUPIED"
    by (cases e) (auto simp: fresh_entry_def word_unat_eq_iff)
  show ?case unfolding fresh_entries.simps list.size set_simps insert_iff IH
    by (simp only: Ex_less_Suc2 add_Suc_right add_0_right nth_Cons_0 nth_Cons_Suc prod.inject hd) blast
qed

lemma cow_publish_place:
  assumes "cow_table.place_all (cow_hash_slots c, cow_entries c) (fresh_entries ps slot) = Some t"
  shows "cow_publish ps slot c = (True, c\<lparr>cow_entries := snd t\<rparr>) \<and> fst t = cow_hash_slots c"
  using assms
proof (induction ps slot c rule: cow_publish.induct)
  case (1 slot c)
  then show ?case by auto
next
  case (2 p ps slot c)
  have "Option.bind (tab_place (cow_hash_slots c, cow_entries c) p (fresh_entry p slot))
      (\<lambda>t'. cow_table.place_all t' (fresh_entries ps (slot + 1))) = Some t"
    using 2(2) by (simp only: fresh_entries.simps cow_table.place_all.simps)
  then obtain k where k: "st_cow_lookup c p True = Some k"
    and rest: "cow_table.place_all (cow_hash_slots c, (cow_entries c)[k := fresh_entry p slot])
      (fresh_entries ps (slot + 1)) = Some t"
    by (auto simp: tab_place_def st_cow_lookup_find bind_eq_Some_conv)
  then show ?case
    using 2(1) [OF k] by (simp add: fresh_entry_def)
qed

lemma fresh_occ: "ent_flags e = ST_COW_OCCUPIED \<Longrightarrow> ent_occ e"
  by (simp add: ent_occ_def ST_COW_OCCUPIED_def)

lemma cow_publish_spec:
  assumes "cow_wf c" and "distinct ps" and "\<forall>p \<in> set ps. cow_map c p = None"
    and "unat (cow_used c) + length ps \<le> unat (cow_capacity c)"
  obtains es where "cow_publish ps (cow_used c) c = (True, c\<lparr>cow_entries := es\<rparr>)"
    and "tab_ok (cow_hash_slots c) es"
    and "tab_map (cow_hash_slots c) es = cow_map c ++ map_of (fresh_entries ps (cow_used c))"
    and "slots_ok (unat (cow_used c) + length ps) (tab_map (cow_hash_slots c) es)"
proof -
  let ?fr = "fresh_entries ps (cow_used c)" and ?t = "(cow_hash_slots c, cow_entries c)"
  let ?u = "unat (cow_used c)"
  have ok: "tab_ok (cow_hash_slots c) (cow_entries c)" and sl: "slots_ok ?u (cow_map c)"
    and geo: "cow_geometry c" using assms(1) by (simp_all add: cow_wf_def)
  have len: "length (cow_entries c) = unat (cow_hash_slots c)" using ok by (simp add: tab_ok_def)
  have card: "card (dom (cow_map c)) = ?u" using sl by (simp add: slots_ok_def)
  note mem = fresh_entries_set [OF assms(4)]
  have "\<exists>t'. cow_table.place_all ?t ?fr = Some t' \<and> tab_ok (fst t') (snd t') \<and> length (snd t') = length (snd ?t)
    \<and> tab_map (fst t') (snd t') = tab_map (fst ?t) (snd ?t) ++ map_of ?fr
    \<and> card (dom (tab_map (fst t') (snd t'))) = card (dom (tab_map (fst ?t) (snd ?t))) + length ?fr"
  proof (rule cow_table.place_all_ok)
    show "distinct (map fst ?fr)" using assms(2) by (simp add: fresh_entries_keys)
    have "fst ` set ?fr = set ps" using fresh_entries_keys by (metis set_map)
    then show "\<forall>k \<in> fst ` set ?fr. tab_map (fst ?t) (snd ?t) k = None"
      using assms(3) by (simp add: cow_map_def)
    show "card (dom (tab_map (fst ?t) (snd ?t))) + length ?fr \<le> length (snd ?t)"
      using card assms(4) geo len by (simp add: cow_map_def fresh_entries_length cow_geometry_def)
    show "\<forall>(k, e) \<in> set ?fr. ent_page e = k \<and> ent_occ e"
      using mem fresh_occ by auto
  qed (simp add: ok)
  then obtain t' where t': "cow_table.place_all ?t ?fr = Some t'" "tab_ok (fst t') (snd t')"
    "tab_map (fst t') (snd t') = cow_map c ++ map_of ?fr"
    "card (dom (tab_map (fst t') (snd t'))) = ?u + length ps"
    using card by (auto simp: cow_map_def fresh_entries_length)
  note pub = cow_publish_place [OF t'(1)]
  have new: "map_of ?fr p = Some e \<Longrightarrow> \<exists>i < length ps. p = ps ! i \<and> unat (ent_slot e) = ?u + i" for p e
    using mem map_of_SomeD by fastforce
  have old: "cow_map c p = Some e \<Longrightarrow> unat (ent_slot e) < ?u" for p e
    using cow_map_slot(1) [OF assms(1)] .
  have "slots_ok (?u + length ps) (cow_map c ++ map_of ?fr)"
    unfolding slots_ok_def
  proof (intro conjI allI impI ballI)
    show "card (dom (cow_map c ++ map_of ?fr)) = ?u + length ps" using t'(3,4) by simp
  next
    fix e assume "e \<in> ran (cow_map c ++ map_of ?fr)"
    then obtain p where "map_of ?fr p = Some e \<or> cow_map c p = Some e" by (auto simp: ran_def map_add_Some_iff)
    then show "unat (ent_slot e) < ?u + length ps" using new old by (metis add_less_cancel_left trans_less_add1)
  next
    fix p q e f
    assume *: "(cow_map c ++ map_of ?fr) p = Some e" "(cow_map c ++ map_of ?fr) q = Some f" "ent_slot e = ent_slot f"
    consider "map_of ?fr p = Some e" "map_of ?fr q = Some f" | "map_of ?fr p = Some e" "cow_map c q = Some f"
      | "cow_map c p = Some e" "map_of ?fr q = Some f" | "cow_map c p = Some e" "cow_map c q = Some f"
      using *(1,2) by (auto simp: map_add_Some_iff)
    then show "p = q"
    proof cases
      case 1
      then show ?thesis using new *(3) by (metis add_left_cancel)
    next
      case 2
      then show ?thesis using new old *(3) by (metis not_add_less1)
    next
      case 3
      then show ?thesis using new old *(3) by (metis not_add_less1)
    next
      case 4
      then show ?thesis using sl *(3) unfolding slots_ok_def by blast
    qed
  qed
  then show ?thesis
    using that [of "snd t'"] pub t' by simp
qed

subsection \<open>prepare_write\<close>

lemma cow_wf_upd:
  "cow_wf c \<Longrightarrow> length pd = length (cow_pending c) \<Longrightarrow> length ar = length (cow_arena c) \<Longrightarrow>
    cow_wf (c\<lparr>cow_pending := pd, cow_arena := ar, cow_backend_error := er\<rparr>)"
  by (simp add: cow_wf_def cow_geometry_def cow_map_def)

lemma cow_view_upd:
  assumes "cow_wf c"
    and "\<forall>t i. t < unat (cow_used c) \<longrightarrow> i < unat (cow_sectors_per_page c) \<longrightarrow> cell ar (cow_cell c t i) = cell (cow_arena c) (cow_cell c t i)"
  shows "cow_view rd (c\<lparr>cow_pending := pd, cow_arena := ar, cow_backend_error := er\<rparr>) s = cow_view rd c s"
proof -
  have "cow_geometry c" using assms(1) by (simp add: cow_wf_def)
  then have "unat (cow_in_page c s) < unat (cow_sectors_per_page c)" by (rule cow_in_page_unat(2))
  then show ?thesis
    using assms(2) cow_map_slot(1) [OF assms(1)]
    by (auto simp: cow_view_def cow_map_def cow_page_of_def cow_in_page_def cow_cell_def split: option.splits)
qed

definition cow_request_ok :: "st_cow \<Rightarrow> u64 \<Rightarrow> u64 \<Rightarrow> bool" where
  "cow_request_ok c first count \<longleftrightarrow> count \<noteq> 0 \<and> first < cow_sectors c \<and> count \<le> cow_sectors c - first"

lemma cow_request_bounds:
  assumes "cow_request_ok c first count"
  shows "unat (first + count - 1) = unat first + unat count - 1" and "0 < unat count"
    and "unat first + unat count \<le> unat (cow_sectors c)" and "first + count - 1 < cow_sectors c"
    and "first \<le> first + count - 1"
proof -
  have pos: "0 < unat count" using assms by (simp add: cow_request_ok_def unat_gt_0)
  have "unat (cow_sectors c - first) = unat (cow_sectors c) - unat first"
    using assms by (simp add: cow_request_ok_def unat_sub order.strict_implies_order)
  then have le: "unat first + unat count \<le> unat (cow_sectors c)"
    using assms unfolding cow_request_ok_def word_le_nat_alt word_less_nat_alt by linarith
  have "unat (cow_sectors c) < 2 ^ 64" using unsigned_less [of "cow_sectors c"] by simp
  then have "unat (first + count) = unat first + unat count" using le by (simp add: unat_word_ariths)
  moreover have "first + count \<noteq> 0" using calculation pos by (metis add_gr_0 less_irrefl unsigned_0)
  ultimately show last: "unat (first + count - 1) = unat first + unat count - 1"
    by (simp add: unat_minus_one)
  show "0 < unat count" by (rule pos)
  show "unat first + unat count \<le> unat (cow_sectors c)" by (rule le)
  show "first + count - 1 < cow_sectors c" "first \<le> first + count - 1"
    using last le pos by (simp_all add: word_less_nat_alt word_le_nat_alt)
qed

definition cow_last :: "st_cow \<Rightarrow> u64 \<Rightarrow> u64 \<Rightarrow> u32" where
  "cow_last c first count = cow_page_of c (first + count - 1)"

lemma cow_page_mono:
  assumes "cow_geometry c" and "s \<le> t" and "t < cow_sectors c"
  shows "cow_page_of c s \<le> cow_page_of c t"
  using assms by (simp add: word_le_nat_alt cow_page_of_unat div_le_mono less_le_trans word_less_nat_alt)

lemma cow_page_start:
  assumes "cow_geometry c" and "p \<le> cow_page_of c t" and "t < cow_sectors c"
  shows "unat p * unat (cow_sectors_per_page c) \<le> unat (cow_sectors c)"
proof -
  have "unat p \<le> unat t div unat (cow_sectors_per_page c)"
    using assms cow_page_of_unat [OF assms(1,3)] by (simp add: word_le_nat_alt)
  then have "unat p * unat (cow_sectors_per_page c) \<le> unat t div unat (cow_sectors_per_page c) * unat (cow_sectors_per_page c)"
    by (rule mult_le_mono1)
  also have "\<dots> \<le> unat t" by simp
  finally show ?thesis using assms(3) by (simp add: word_less_nat_alt)
qed

text \<open>The base can be read at every valid sector of the pages that must be copied.\<close>

definition cow_base_ok :: "read512_fn \<Rightarrow> st_cow \<Rightarrow> u32 list \<Rightarrow> bool" where
  "cow_base_ok rd c ps \<longleftrightarrow> (\<forall>p \<in> set ps. \<forall>i < cow_valid c p. fst (rd (cow_sec c p i)) = 0)"

definition cow_too_many :: "st_cow \<Rightarrow> u64 \<Rightarrow> u64 \<Rightarrow> bool" where
  "cow_too_many c first count \<longleftrightarrow>
     unat (cow_last c first count) - unat (cow_page_of c first) + 1 > unat (cow_capacity c)
   \<or> unat (cow_used c) + length (cow_missing c (cow_page_of c first) (cow_last c first count)) > unat (cow_capacity c)"

lemma cow_prepare_cases:
  assumes wf: "cow_wf c" and rd: "\<forall>lba. length (snd (rd lba)) = 512" and req: "cow_request_ok c first count"
  obtains (no_space) pd where "cow_too_many c first count" "length pd = length (cow_pending c)"
      "st_cow_prepare_write rd c first count = (ST_COW_NO_SPACE, c\<lparr>cow_pending := pd\<rparr>)"
  | (io) pd ar er where "\<not> cow_too_many c first count"
      "\<not> cow_base_ok rd c (cow_missing c (cow_page_of c first) (cow_last c first count))"
      "length pd = length (cow_pending c)" "length ar = length (cow_arena c)" "er \<noteq> 0"
      "\<forall>t i. t < unat (cow_used c) \<longrightarrow> i < unat (cow_sectors_per_page c) \<longrightarrow> cell ar (cow_cell c t i) = cell (cow_arena c) (cow_cell c t i)"
      "st_cow_prepare_write rd c first count = (ST_COW_IO, c\<lparr>cow_pending := pd, cow_arena := ar, cow_backend_error := er\<rparr>)"
  | (ok) pd ar es n where "\<not> cow_too_many c first count"
      "cow_base_ok rd c (cow_missing c (cow_page_of c first) (cow_last c first count))"
      "length pd = length (cow_pending c)" "length ar = length (cow_arena c)"
      "\<forall>t i. t < unat (cow_used c) \<longrightarrow> i < unat (cow_sectors_per_page c) \<longrightarrow> cell ar (cow_cell c t i) = cell (cow_arena c) (cow_cell c t i)"
      "\<forall>k < n. \<forall>i < cow_valid c (cow_missing c (cow_page_of c first) (cow_last c first count) ! k).
         cell ar (cow_cell c (unat (cow_used c) + k) i) = snd (rd (cow_sec c (cow_missing c (cow_page_of c first) (cow_last c first count) ! k) i))"
      "n = length (cow_missing c (cow_page_of c first) (cow_last c first count))"
      "unat (cow_used c) + n \<le> unat (cow_capacity c)" "tab_ok (cow_hash_slots c) es"
      "tab_map (cow_hash_slots c) es = cow_map c ++ map_of (fresh_entries (cow_missing c (cow_page_of c first) (cow_last c first count)) (cow_used c))"
      "slots_ok (unat (cow_used c) + n) (tab_map (cow_hash_slots c) es)"
      "st_cow_prepare_write rd c first count =
        (ST_COW_OK, c\<lparr>cow_pending := pd, cow_arena := ar, cow_entries := es, cow_used := cow_used c + word_of_nat n\<rparr>)"
proof -
  let ?fp = "cow_page_of c first" and ?lp = "cow_last c first count" and ?C = "unat (cow_capacity c)"
  let ?ms = "cow_missing c ?fp ?lp" and ?u = "unat (cow_used c)"
  note B = cow_request_bounds [OF req]
  have geo: "cow_geometry c" and used: "?u \<le> ?C" using wf by (simp_all add: cow_wf_def)
  have pdlen: "length (cow_pending c) = ?C" using geo by (simp add: cow_geometry_def)
  have le: "?fp \<le> ?lp" unfolding cow_last_def by (rule cow_page_mono [OF geo B(5,4)])
  have guard: "\<not> (count = 0 \<or> first \<ge> cow_sectors c \<or> count > cow_sectors c - first)"
    using req by (auto simp: cow_request_ok_def)
  have span: "unat ((ucast ?lp :: u64) - ucast ?fp + 1) = unat ?lp - unat ?fp + 1"
  proof -
    have "(ucast ?fp :: u64) \<le> ucast ?lp" using le by (simp add: word_le_nat_alt)
    then have "unat ((ucast ?lp :: u64) - ucast ?fp) = unat ?lp - unat ?fp" by (simp add: unat_sub)
    moreover have "unat ?lp - unat ?fp < 4294967296" using unat_lt_u32 [of ?lp] by linarith
    ultimately show ?thesis by (simp add: unat_word_ariths)
  qed
  have many: "(ucast ?lp :: u64) - ucast ?fp + 1 > ucast (cow_capacity c) \<longleftrightarrow> unat ?lp - unat ?fp + 1 > ?C"
    by (simp add: word_less_nat_alt span)
  obtain ok needed pd where scan: "cow_scan c ?fp ?lp 0 (cow_pending c) = (ok, needed, pd)"
    by (metis prod_cases3)
  have "unat (0 :: u32) \<le> ?C - ?u" by simp
  note S = cow_scan_spec [OF le used pdlen this scan, simplified]
  note eq = st_cow_prepare_write_def [of rd c first count, folded cow_last_def, unfolded if_not_P [OF guard] Let_def many scan]
  show ?thesis
  proof (cases "unat ?lp - unat ?fp + 1 > ?C")
    case True
    then have "st_cow_prepare_write rd c first count = (ST_COW_NO_SPACE, c\<lparr>cow_pending := cow_pending c\<rparr>)"
      using eq by simp
    then show ?thesis using no_space [of "cow_pending c"] True by (simp add: cow_too_many_def)
  next
    case fits: False
    show ?thesis
    proof (cases ok)
      case False
      then have "?u + length ?ms > ?C" using S used by simp
      then have "cow_too_many c first count" by (simp add: cow_too_many_def)
      moreover have "st_cow_prepare_write rd c first count = (ST_COW_NO_SPACE, c\<lparr>cow_pending := pd\<rparr>)"
        using eq fits False by simp
      ultimately show ?thesis using no_space [of pd] S by blast
    next
      case True
      then have room: "?u + length ?ms \<le> ?C" using S used by simp
      then have notmany: "\<not> cow_too_many c first count" using fits by (simp add: cow_too_many_def)
      have n: "unat needed = length ?ms" and ps: "take (unat needed) pd = ?ms" using S True by auto
      have pages: "\<forall>p \<in> set ?ms. unat p * unat (cow_sectors_per_page c) \<le> unat (cow_sectors c)"
        using cow_page_start [OF geo _ B(4)] by (auto simp: cow_missing_def u32_range_set cow_last_def)
      let ?c1 = "c\<lparr>cow_pending := pd\<rparr>"
      obtain er ar where copy: "cow_copy_pages rd ?c1 ?ms (cow_used c) (cow_arena c) = (er, ar)" by fastforce
      have g1: "cow_geometry ?c1" using geo S pdlen by (simp add: cow_geometry_def)
      have same: "cow_valid ?c1 = cow_valid c" "cow_sec ?c1 = cow_sec c" "cow_cell ?c1 = cow_cell c"
        by (simp_all add: fun_eq_iff cow_valid_def cow_sec_def cow_cell_def)
      have P: "length ar = length (cow_arena c)"
        "\<forall>t i. t < ?u \<longrightarrow> i < unat (cow_sectors_per_page c) \<longrightarrow> cell ar (cow_cell c t i) = cell (cow_arena c) (cow_cell c t i)"
        "er = 0 \<longleftrightarrow> cow_base_ok rd c ?ms"
        "er = 0 \<Longrightarrow> \<forall>k < length ?ms. \<forall>i < cow_valid c (?ms ! k). cell ar (cow_cell c (?u + k) i) = snd (rd (cow_sec c (?ms ! k) i))"
        using cow_copy_pages_spec [OF g1 rd _ _ _ copy] room pages
        unfolding same cow_base_ok_def by simp_all
      have pdl: "length pd = length (cow_pending c)" using S by blast
      have okT: "ok = True" using True by simp
      note eq2 = eq [unfolded if_not_P [OF fits] okT bool.case prod.case ps copy]
      show ?thesis
      proof (cases "er = 0")
        case False
        then have "st_cow_prepare_write rd c first count =
            (ST_COW_IO, c\<lparr>cow_pending := pd, cow_arena := ar, cow_backend_error := er\<rparr>)"
          using eq2 by simp
        then show ?thesis using io [OF notmany _ pdl P(1) False P(2)] P(3) False by blast
      next
        case True
        let ?c2 = "c\<lparr>cow_pending := pd, cow_arena := ar\<rparr>"
        have "cow_wf ?c2" using cow_wf_upd [OF wf, of pd ar "cow_backend_error c"] S P(1) by simp
        moreover have "distinct ?ms" by (simp add: cow_missing_def u32_range_distinct)
        moreover have m2: "cow_map ?c2 = cow_map c" by (simp add: cow_map_def)
        moreover have "\<forall>p \<in> set ?ms. cow_map c p = None" by (simp add: cow_missing_def)
        ultimately obtain es where es: "cow_publish ?ms (cow_used c) ?c2 = (True, ?c2\<lparr>cow_entries := es\<rparr>)"
          "tab_ok (cow_hash_slots c) es"
          "tab_map (cow_hash_slots c) es = cow_map c ++ map_of (fresh_entries ?ms (cow_used c))"
          "slots_ok (?u + length ?ms) (tab_map (cow_hash_slots c) es)"
          using cow_publish_spec [of ?c2 ?ms] room by auto
        have "needed = word_of_nat (length ?ms)" using n by (simp add: word_unat_eq_iff flip: n)
        then have "st_cow_prepare_write rd c first count =
            (ST_COW_OK, c\<lparr>cow_pending := pd, cow_arena := ar, cow_entries := es, cow_used := cow_used c + word_of_nat (length ?ms)\<rparr>)"
          using eq2 es(1) True by simp
        then show ?thesis
          using ok [OF notmany _ pdl P(1,2) P(4) [OF True] refl room es(2,3,4)] P(3) True by blast
      qed
    qed
  qed
qed


lemma cow_map_new:
  assumes "cow_wf c" and "unat (cow_used c) + length ps \<le> unat (cow_capacity c)" and "distinct ps"
    and "p \<in> set ps" and "(cow_map c ++ map_of (fresh_entries ps (cow_used c))) p = Some e"
  obtains k where "k < length ps" and "p = ps ! k" and "unat (ent_slot e) = unat (cow_used c) + k"
proof -
  have "map_of (fresh_entries ps (cow_used c)) p \<noteq> None"
    using assms(4) fresh_entries_keys [of ps "cow_used c"] by (metis map_of_eq_None_iff set_map)
  then have "map_of (fresh_entries ps (cow_used c)) p = Some e" using assms(5) by auto
  then have "(p, e) \<in> set (fresh_entries ps (cow_used c))" by (rule map_of_SomeD)
  then show ?thesis
    unfolding fresh_entries_set [OF assms(2)] using that by blast
qed

lemma cow_valid_in_page:
  assumes "cow_geometry c" and "s < cow_sectors c"
  shows "unat (cow_in_page c s) < cow_valid c (cow_page_of c s)"
proof -
  have "unat (cow_page_of c s) * unat (cow_sectors_per_page c) + unat (cow_in_page c s) = unat s"
    using cow_page_of_unat [OF assms] cow_in_page_unat(1) [OF assms(1), of s] by simp
  then show ?thesis
    using cow_in_page_unat(2) [OF assms(1), of s] assms(2) by (simp add: cow_valid_def word_less_nat_alt)
qed

text \<open>What holds after \<open>prepare_write\<close> whatever it returned.\<close>

lemma cow_prepare_spec:
  assumes "cow_wf c" and "\<forall>lba. length (snd (rd lba)) = 512" and "st_cow_prepare_write rd c first count = (st, c')"
  shows "cow_wf c' \<and> st \<noteq> ST_COW_STATE
    \<and> cow_sectors c' = cow_sectors c \<and> cow_sectors_per_page c' = cow_sectors_per_page c
    \<and> cow_dirty c' = cow_dirty c
    \<and> (\<forall>s < cow_sectors c. cow_view rd c' s = cow_view rd c s)
    \<and> (st = ST_COW_OK \<longrightarrow> cow_request_ok c first count
        \<and> (\<forall>s. first \<le> s \<and> s \<le> first + count - 1 \<longrightarrow> cow_map c' (cow_page_of c' s) \<noteq> None))
    \<and> (\<forall>p. cow_map c p \<noteq> None \<longrightarrow> cow_map c' p \<noteq> None)
    \<and> (st = ST_COW_RANGE \<longleftrightarrow> \<not> cow_request_ok c first count)
    \<and> (st = ST_COW_NO_SPACE \<longleftrightarrow> cow_request_ok c first count \<and> cow_too_many c first count)
    \<and> (st = ST_COW_IO \<longleftrightarrow> cow_request_ok c first count \<and> \<not> cow_too_many c first count
        \<and> \<not> cow_base_ok rd c (cow_missing c (cow_page_of c first) (cow_last c first count)))"
proof (cases "cow_request_ok c first count")
  case False
  then have "st = ST_COW_RANGE" "c' = c"
    using assms(3) by (auto simp: st_cow_prepare_write_def cow_request_ok_def split: if_splits)
  then show ?thesis using False assms(1) by simp
next
  case True
  let ?ms = "cow_missing c (cow_page_of c first) (cow_last c first count)"
  have geo: "cow_geometry c" using assms(1) by (simp add: cow_wf_def)
  show ?thesis
  proof (rule cow_prepare_cases [OF assms(1,2) True])
    fix pd assume "cow_too_many c first count" "length pd = length (cow_pending c)"
      "st_cow_prepare_write rd c first count = (ST_COW_NO_SPACE, c\<lparr>cow_pending := pd\<rparr>)"
    then show ?thesis
      using True assms(3) cow_wf_upd [OF assms(1), of pd "cow_arena c" "cow_backend_error c"]
        cow_view_upd [OF assms(1), where ar = "cow_arena c" and rd = rd and pd = pd and er = "cow_backend_error c"]
      by (auto simp: cow_map_def)
  next
    fix pd ar er assume *: "\<not> cow_too_many c first count" "\<not> cow_base_ok rd c ?ms"
      "length pd = length (cow_pending c)" "length ar = length (cow_arena c)" "er \<noteq> 0"
      "\<forall>t i. t < unat (cow_used c) \<longrightarrow> i < unat (cow_sectors_per_page c) \<longrightarrow> cell ar (cow_cell c t i) = cell (cow_arena c) (cow_cell c t i)"
      "st_cow_prepare_write rd c first count = (ST_COW_IO, c\<lparr>cow_pending := pd, cow_arena := ar, cow_backend_error := er\<rparr>)"
    then show ?thesis
      using True assms(3) cow_wf_upd [OF assms(1) *(3,4), of er] cow_view_upd [OF assms(1) *(6), where rd = rd and pd = pd and er = er]
      by (auto simp: cow_map_def)
  next
    fix pd ar es n
    assume *: "\<not> cow_too_many c first count" "cow_base_ok rd c ?ms"
      "length pd = length (cow_pending c)" "length ar = length (cow_arena c)"
      and old: "\<forall>t i. t < unat (cow_used c) \<longrightarrow> i < unat (cow_sectors_per_page c) \<longrightarrow> cell ar (cow_cell c t i) = cell (cow_arena c) (cow_cell c t i)"
      and new: "\<forall>k < n. \<forall>i < cow_valid c (?ms ! k). cell ar (cow_cell c (unat (cow_used c) + k) i) = snd (rd (cow_sec c (?ms ! k) i))"
      and n: "n = length ?ms" and room: "unat (cow_used c) + n \<le> unat (cow_capacity c)"
      and tab: "tab_ok (cow_hash_slots c) es"
      and map: "tab_map (cow_hash_slots c) es = cow_map c ++ map_of (fresh_entries ?ms (cow_used c))"
      and slots: "slots_ok (unat (cow_used c) + n) (tab_map (cow_hash_slots c) es)"
      and eq: "st_cow_prepare_write rd c first count =
        (ST_COW_OK, c\<lparr>cow_pending := pd, cow_arena := ar, cow_entries := es, cow_used := cow_used c + word_of_nat n\<rparr>)"
    let ?c' = "c\<lparr>cow_pending := pd, cow_arena := ar, cow_entries := es, cow_used := cow_used c + word_of_nat n\<rparr>"
    have c': "c' = ?c'" and st: "st = ST_COW_OK" using assms(3) eq by simp_all
    have "n < 2 ^ 32" using room unat_lt_u32 [of "cow_capacity c"] by (simp del: unat_lt_u32)
    then have "unat (word_of_nat n :: u32) = n" by (simp add: unat_of_nat)
    then have used': "unat (cow_used c + word_of_nat n) = unat (cow_used c) + n"
      using room unat_lt_u32 [of "cow_capacity c"] by (subst unat_plus_u32_small) (simp_all del: unat_lt_u32)
    have map': "cow_map ?c' = cow_map c ++ map_of (fresh_entries ?ms (cow_used c))"
      using map by (simp add: cow_map_def)
    have wf': "cow_wf ?c'"
      using assms(1) room slots tab * used' by (simp add: cow_wf_def cow_geometry_def cow_map_def)
    have same': "cow_cell ?c' = cow_cell c" "cow_page_of ?c' = cow_page_of c" "cow_in_page ?c' = cow_in_page c"
      "cow_arena ?c' = ar"
      by (simp_all add: fun_eq_iff cow_page_of_def cow_in_page_def cow_cell_def)
    have dist: "distinct ?ms" by (simp add: cow_missing_def u32_range_distinct)
    have keys: "set (map fst (fresh_entries ?ms (cow_used c))) = set ?ms" by (simp only: fresh_entries_keys)
    have view: "cow_view rd ?c' s = cow_view rd c s" if s: "s < cow_sectors c" for s
    proof -
      let ?p = "cow_page_of c s" and ?i = "cow_in_page c s"
      have i: "unat ?i < unat (cow_sectors_per_page c)" by (rule cow_in_page_unat(2) [OF geo])
      have v': "cow_view rd ?c' s = (case (cow_map c ++ map_of (fresh_entries ?ms (cow_used c))) ?p of
          Some e \<Rightarrow> cell ar (cow_cell c (unat (ent_slot e)) (unat ?i)) | None \<Rightarrow> snd (rd s))"
        unfolding cow_view_def map' same' by (rule refl)
      show ?thesis
      proof (cases "?p \<in> set ?ms")
        case True
        then obtain e where e: "(cow_map c ++ map_of (fresh_entries ?ms (cow_used c))) ?p = Some e"
          using keys by (metis map_add_None map_of_eq_None_iff not_None_eq set_map)
        then obtain k where k: "k < length ?ms" "?p = ?ms ! k" "unat (ent_slot e) = unat (cow_used c) + k"
          using cow_map_new [OF assms(1) _ dist True e] room n by blast
        have "cell ar (cow_cell c (unat (cow_used c) + k) (unat ?i)) = snd (rd (cow_sec c ?p (unat ?i)))"
          using new k n cow_valid_in_page [OF geo s] by simp
        moreover have "cow_map c ?p = None" using True by (simp add: cow_missing_def)
        ultimately show ?thesis
          unfolding v' e using cow_sec_of_sector [OF geo s] by (simp add: k(3) cow_view_def)
      next
        case False
        then have "map_of (fresh_entries ?ms (cow_used c)) ?p = None"
          using keys by (simp add: map_of_eq_None_iff)
        then have "(cow_map c ++ map_of (fresh_entries ?ms (cow_used c))) ?p = cow_map c ?p"
          by (simp add: map_add_def)
        then show ?thesis
          unfolding v' cow_view_def [of rd c s] using old i cow_map_slot(1) [OF assms(1)] by (auto split: option.splits)
      qed
    qed
    have res: "cow_map ?c' (cow_page_of ?c' s) \<noteq> None" if "first \<le> s" "s \<le> first + count - 1" for s
    proof -
      note B = cow_request_bounds [OF True]
      have "s < cow_sectors c" using that(2) B(4) by simp
      then have "cow_page_of c first \<le> cow_page_of c s" "cow_page_of c s \<le> cow_last c first count"
        unfolding cow_last_def by (simp_all add: cow_page_mono [OF geo] that B(4))
      then have "cow_map c (cow_page_of c s) = None \<Longrightarrow> cow_page_of c s \<in> set ?ms"
        by (simp add: cow_missing_def u32_range_set)
      then have "cow_map ?c' (cow_page_of c s) \<noteq> None"
        unfolding map' using keys by (metis map_add_None map_of_eq_None_iff set_map)
      then show ?thesis by (simp add: cow_page_of_def)
    qed
    have keep: "cow_map ?c' p \<noteq> None" if "cow_map c p \<noteq> None" for p
      unfolding map' using that by (simp add: map_add_None)
    show ?thesis
      unfolding c' st using True * wf' view res keep by simp
  qed
qed

subsection \<open>write_prepared_sector\<close>

lemma cow_write_spec:
  assumes wf: "cow_wf c" and bs: "length bs = 512" and run: "st_cow_write_prepared_sector c s bs = (st, c')"
  shows "st = (if s \<ge> cow_sectors c then ST_COW_RANGE else if cow_map c (cow_page_of c s) = None then ST_COW_STATE else ST_COW_OK)
    \<and> (st \<noteq> ST_COW_OK \<longrightarrow> c' = c)
    \<and> cow_wf c' \<and> cow_sectors c' = cow_sectors c \<and> cow_sectors_per_page c' = cow_sectors_per_page c
    \<and> dom (cow_map c') = dom (cow_map c)
    \<and> (st = ST_COW_OK \<longrightarrow> (\<forall>t < cow_sectors c. cow_view rd c' t = (if t = s then bs else cow_view rd c t)))"
proof (cases "s < cow_sectors c \<and> cow_map c (cow_page_of c s) \<noteq> None")
  case False
  then show ?thesis
    using run wf lookup_None [of c "cow_page_of c s"]
    by (auto simp: st_cow_write_prepared_sector_def not_less split: if_splits option.splits)
next
  case True
  have geo: "cow_geometry c" and ok: "tab_ok (cow_hash_slots c) (cow_entries c)"
    and slots: "slots_ok (unat (cow_used c)) (cow_map c)" using wf by (simp_all add: cow_wf_def)
  obtain k where k: "st_cow_lookup c (cow_page_of c s) False = Some k"
    using True lookup_None [of c "cow_page_of c s"] by auto
  let ?e = "cow_entries c ! k" and ?p = "cow_page_of c s" and ?i = "cow_in_page c s"
  have at: "k < length (cow_entries c)" "ent_occ ?e" "ent_page ?e = ?p"
    using find_some [OF ok k [unfolded st_cow_lookup_find]] by simp_all
  have e: "cow_map c ?p = Some ?e" by (rule lookup_Some [OF k])
  have i: "unat ?i < unat (cow_sectors_per_page c)" by (rule cow_in_page_unat(2) [OF geo])
  note slot = cow_map_slot(2) [OF wf e]
  note off = cow_offset_cell [OF geo slot i]
  let ?q = "cow_cell c (unat (ent_slot ?e)) (unat ?i)"
  let ?ar = "splice (?q * 512) bs (cow_arena c)"
  have len: "length ?ar = length (cow_arena c)" using off(2) bs by (simp add: length_splice)
  define es' where "es' = (if ent_flags ?e AND ST_COW_DIRTY = 0
    then (cow_entries c)[k := ?e\<lparr>ent_flags := ent_flags ?e OR ST_COW_DIRTY\<rparr>] else cow_entries c)"
  define d' where "d' = (if ent_flags ?e AND ST_COW_DIRTY = 0 then cow_dirty c + 1 else cow_dirty c)"
  have ins: "\<not> cow_sectors c \<le> s" using True by (simp add: not_le)
  have r: "st = ST_COW_OK" "c' = c\<lparr>cow_arena := ?ar, cow_entries := es', cow_dirty := d'\<rparr>"
    using run unfolding st_cow_write_prepared_sector_def if_not_P [OF ins] k option.case Let_def off(1)
    by (simp_all add: es'_def d'_def split: if_splits)
  define e' where "e' = ?e\<lparr>ent_flags := ent_flags ?e OR ST_COW_DIRTY\<rparr>"
  have e': "ent_page e' = ent_page ?e" "ent_slot e' = ent_slot ?e" "ent_occ e' = ent_occ ?e"
    using at(2) by (simp_all add: e'_def ent_occ_def ST_COW_OCCUPIED_def ST_COW_DIRTY_def bit.conj_disj_distrib2)
  have keep: "tab_ok (cow_hash_slots c) ((cow_entries c)[k := e'])" by (rule tab_ok_keep [OF ok e'(1,3)])
  have ok': "tab_ok (cow_hash_slots c) es'" using keep ok by (simp add: es'_def e'_def)
  have map': "cow_map c' = cow_map c \<or> cow_map c' = (cow_map c)(?p \<mapsto> e')"
    using tab_map_update [OF ok keep at(1)] e' at by (auto simp: r cow_map_def es'_def e'_def)
  have slot': "map_option ent_slot (cow_map c' p) = map_option ent_slot (cow_map c p)" for p
    using map' e e' by auto
  have slotD: "\<exists>y. cow_map c p = Some y \<and> ent_slot y = ent_slot x" if "cow_map c' p = Some x" for p x
    using slot' [of p] that by (cases "cow_map c p") simp_all
  have slotI: "\<exists>y. cow_map c' p = Some y \<and> ent_slot y = ent_slot x" if "cow_map c p = Some x" for p x
    using slot' [of p] that by (cases "cow_map c' p") simp_all
  have dom': "dom (cow_map c') = dom (cow_map c)" using map' e by (auto split: if_splits)
  have "slots_ok (unat (cow_used c)) (cow_map c')"
    unfolding slots_ok_def
  proof (intro conjI ballI allI impI)
    show "card (dom (cow_map c')) = unat (cow_used c)" using dom' slots by (simp add: slots_ok_def)
  next
    fix x assume "x \<in> ran (cow_map c')"
    then obtain p where "cow_map c' p = Some x" by (auto simp: ran_def)
    then obtain y where "cow_map c p = Some y" "ent_slot y = ent_slot x" using slotD by blast
    then show "unat (ent_slot x) < unat (cow_used c)" using cow_map_slot(1) [OF wf] by metis
  next
    fix p q x y assume "cow_map c' p = Some x" "cow_map c' q = Some y" "ent_slot x = ent_slot y"
    then obtain x' y' where "cow_map c p = Some x'" "cow_map c q = Some y'" "ent_slot x' = ent_slot y'"
      using slotD by metis
    then show "p = q" using slots unfolding slots_ok_def by blast
  qed
  then have wf': "cow_wf c'"
    using wf ok' len by (simp add: r cow_wf_def cow_geometry_def)
  have view: "cow_view rd c' t = (if t = s then bs else cow_view rd c t)" if t: "t < cow_sectors c" for t
  proof -
    let ?pt = "cow_page_of c t" and ?it = "cow_in_page c t"
    have it: "unat ?it < unat (cow_sectors_per_page c)" by (rule cow_in_page_unat(2) [OF geo])
    have same: "cow_cell c' = cow_cell c" "cow_page_of c' = cow_page_of c" "cow_in_page c' = cow_in_page c" "cow_arena c' = ?ar"
      by (simp_all add: r fun_eq_iff cow_page_of_def cow_in_page_def cow_cell_def)
    show ?thesis
    proof (cases "cow_map c ?pt")
      case None
      then have "cow_map c' ?pt = None" "t \<noteq> s" using slot' [of ?pt] e by auto
      then show ?thesis using None unfolding cow_view_def same by simp
    next
      case (Some x)
      then obtain x' where x': "cow_map c' ?pt = Some x'" "ent_slot x' = ent_slot x"
        using slotI by blast
      have v: "cow_view rd c' t = cell ?ar (cow_cell c (unat (ent_slot x)) (unat ?it))"
        unfolding cow_view_def same x'(1) by (simp add: x'(2))
      have "cow_cell c (unat (ent_slot x)) (unat ?it) = ?q \<longleftrightarrow> t = s"
      proof -
        have "ent_slot x = ent_slot ?e \<longleftrightarrow> ?pt = ?p"
          using Some e slots unfolding slots_ok_def by (metis option.inject)
        then show ?thesis
          using cow_cell_inj [OF it i] cow_sector_eq [OF geo t, of s] True by (simp add: word_unat_eq_iff)
      qed
      then show ?thesis
        using v cell_splice [OF bs off(2)] Some by (simp add: cow_view_def)
    qed
  qed
  show ?thesis using True r wf' dom' view by (auto simp: not_le)
qed

subsection \<open>init\<close>

text \<open>The caller's part: the buffers have the sizes the header asks for and fit the machine.\<close>

definition cow_buffers_ok :: "u64 \<Rightarrow> u32 \<Rightarrow> u32 \<Rightarrow> bytes \<Rightarrow> u32 list \<Rightarrow> bool" where
  "cow_buffers_ok sectors spp capacity ar pd \<longleftrightarrow>
     unat sectors + unat spp \<le> 2 ^ 64 \<and> length ar = unat capacity * unat spp * 512
   \<and> length ar < 2 ^ 32 \<and> length pd = unat capacity"

lemma cow_init_spec:
  assumes "st_cow_init sectors spp capacity hash_slots (Some ar) (Some es) (Some pd) (Some rd) = (ST_COW_OK, Some c)"
    and "cow_buffers_ok sectors spp capacity ar pd"
  shows "cow_wf c \<and> cow_sectors c = sectors \<and> cow_sectors_per_page c = spp \<and> cow_used c = 0
    \<and> (\<forall>s. cow_view rd c s = snd (rd s)) \<and> cow_map c = Map.empty"
proof -
  have g: "sectors \<noteq> 0" "spp \<noteq> 0" "capacity \<noteq> 0" "\<not> (sectors + ucast spp - 1) div ucast spp > 0xffffffff"
    "hash_slots \<noteq> 0" "hash_slots AND (hash_slots - 1) = 0" "\<not> hash_slots < capacity * 2"
    and c: "c = \<lparr>cow_sectors = sectors, cow_sectors_per_page = spp,
                cow_page_bytes = spp * 512, cow_capacity = capacity, cow_hash_slots = hash_slots,
                cow_used = 0, cow_dirty = 0, cow_arena = ar,
                cow_entries = replicate (unat hash_slots) \<lparr>ent_page = 0, ent_slot = 0, ent_flags = 0\<rparr>,
                cow_pending = pd, cow_backend_error = 0\<rparr>"
    using assms(1) by (simp_all add: st_cow_init_def split: if_splits)
  let ?S = "unat spp" and ?C = "unat capacity"
  have S: "0 < ?S" and C: "0 < ?C" using g by (simp_all add: unat_gt_0)
  have ar: "length ar = ?C * ?S * 512" "?C * ?S * 512 < 4294967296"
    using assms(2) by (simp_all add: cow_buffers_ok_def)
  have "1 * ?S \<le> ?C * ?S" using C by (intro mult_le_mono1) linarith
  then have S512: "?S * 512 < 4294967296" using ar(2) by linarith
  have "?C * 1 \<le> ?C * ?S" using S by (intro mult_le_mono2) linarith
  then have C512: "?C * 512 < 4294967296" using ar(2) by linarith
  obtain k where k: "unat hash_slots = 2 ^ k" using u32_pow2_of_and [OF g(6,5)] by blast
  have "unat (capacity * 2) = ?C * 2" using C512 by (subst unat_mult_u32_small) simp_all
  then have H: "2 * ?C \<le> unat hash_slots" using g(7) by (simp add: word_less_nat_alt)
  have sum: "unat (sectors + ucast spp - 1) = unat sectors + ?S - 1"
  proof -
    have "unat (ucast spp - 1 :: u64) = ?S - 1" using S by (simp add: unat_minus_one word_unat_eq_iff)
    moreover have "unat sectors + (?S - 1) < 2 ^ 64"
      using assms(2) S unfolding cow_buffers_ok_def by linarith
    ultimately have "unat (sectors + (ucast spp - 1)) = unat sectors + (?S - 1)"
      unfolding unat_word_ariths by simp
    then show ?thesis using S by (simp add: add_diff_eq)
  qed
  have "(unat sectors + ?S - 1) div ?S \<le> 4294967295"
    using g(4) by (simp add: word_less_nat_alt unat_div_distrib sum)
  then have "(unat sectors + ?S - 1) div ?S * ?S \<le> 4294967295 * ?S" by (rule mult_le_mono1)
  moreover have "(unat sectors + ?S - 1) div ?S * ?S + (unat sectors + ?S - 1) mod ?S = unat sectors + ?S - 1"
    by (rule div_mult_mod_eq)
  moreover have "(unat sectors + ?S - 1) mod ?S < ?S" using S by (rule mod_less_divisor)
  ultimately have sec: "unat sectors \<le> ?S * 4294967295" by linarith
  have tab: "tab_ok hash_slots (cow_entries c)"
    by (rule tab_ok_empty [OF k]) (auto simp: c ent_occ_def)
  have empty: "cow_map c = Map.empty"
  proof
    fix p
    have "tab_map hash_slots (cow_entries c) p = None"
      unfolding tab_map_None [OF tab] by (simp add: c ent_occ_def)
    then show "cow_map c p = None" by (simp add: cow_map_def c)
  qed
  have "unat (spp * 512) = ?S * 512" using S512 by (subst unat_mult_u32_small) simp_all
  then have "cow_geometry c"
    using S C sec H ar assms(2) by (simp add: c cow_geometry_def cow_buffers_ok_def)
  moreover have "slots_ok 0 (cow_map c)" by (simp add: slots_ok_def empty)
  ultimately have "cow_wf c" using tab by (simp add: cow_wf_def c)
  then show ?thesis by (simp add: c cow_view_def empty [unfolded c])
qed

end
