(* ===== verification/Cow_Disk.thy ===== *)
theory Cow_Disk
  imports Cow_Proofs
begin

text \<open>
  The copy-on-write shadow as a disk: the contract of an overlay disk as a locale, its
  interpretation on the model's operations, and the properties of the component.
\<close>

unbundle bit_operations_syntax

subsection \<open>Overlay disks\<close>

text \<open>
  A disk whose operations change what a reader sees at one address at most: the address and
  value \<open>wrote\<close> names.  Whatever sequence of operations ran, an address holds its last write.
\<close>

locale overlay_disk =
  fixes good :: "'s \<Rightarrow> bool"
    and inside :: "'s \<Rightarrow> 'a \<Rightarrow> bool"
    and view :: "'s \<Rightarrow> 'a \<Rightarrow> 'b"
    and step :: "'o \<Rightarrow> 's \<Rightarrow> 'r \<times> 's"
    and legal :: "'o \<Rightarrow> bool"
    and wrote :: "'o \<Rightarrow> 'r \<Rightarrow> ('a \<times> 'b) option"
  assumes step_good: "good s \<Longrightarrow> legal x \<Longrightarrow> good (snd (step x s))"
    and step_inside: "good s \<Longrightarrow> legal x \<Longrightarrow> inside (snd (step x s)) = inside s"
    and step_view: "good s \<Longrightarrow> legal x \<Longrightarrow> inside s a \<Longrightarrow> view (snd (step x s)) a =
      (case wrote x (fst (step x s)) of Some (b, v) \<Rightarrow> if a = b then v else view s a | None \<Rightarrow> view s a)"
begin

fun run :: "'s \<Rightarrow> 'o list \<Rightarrow> ('o \<times> 'r) list \<times> 's" where
  "run s [] = ([], s)"
| "run s (x # xs) = (let (r, s') = step x s; (log, s'') = run s' xs in ((x, r) # log, s''))"

fun after :: "('o \<times> 'r) list \<Rightarrow> 'a \<Rightarrow> 'b \<Rightarrow> 'b" where
  "after [] a v = v"
| "after ((x, r) # log) a v =
    after log a (case wrote x r of Some (b, w) \<Rightarrow> if a = b then w else v | None \<Rightarrow> v)"

lemma run_view:
  "good s \<Longrightarrow> \<forall>x \<in> set xs. legal x \<Longrightarrow> run s xs = (log, s') \<Longrightarrow>
    good s' \<and> inside s' = inside s \<and> (\<forall>a. inside s a \<longrightarrow> view s' a = after log a (view s a))"
proof (induction xs arbitrary: s log)
  case Nil
  then show ?case by simp
next
  case (Cons x xs)
  obtain r s1 where x: "step x s = (r, s1)" by fastforce
  obtain l where l: "run s1 xs = (l, s')" "log = (x, r) # l"
    using Cons.prems(3) x by (auto split: prod.splits)
  have "good s1" "inside s1 = inside s"
    using step_good [OF Cons.prems(1), of x] step_inside [OF Cons.prems(1), of x] Cons.prems(2) x by simp_all
  moreover have "view s1 a = (case wrote x r of Some (b, v) \<Rightarrow> if a = b then v else view s a | None \<Rightarrow> view s a)"
    if "inside s a" for a
    using step_view [OF Cons.prems(1) _ that, of x] Cons.prems(2) x by simp
  ultimately show ?case using Cons.IH [OF _ _ l(1)] Cons.prems(2) l(2) by simp
qed

end

subsection \<open>The shadow's operations as one step function\<close>

datatype cow_op = Cow_Read u64 bytes | Cow_Prepare u64 u64 | Cow_Write u64 bytes

fun cow_do :: "read512_fn \<Rightarrow> cow_op \<Rightarrow> st_cow \<Rightarrow> cow_status \<times> st_cow" where
  "cow_do rd (Cow_Read s out) c = (let (st, _, c') = st_cow_read_sector rd c s out in (st, c'))"
| "cow_do rd (Cow_Prepare first count) c = st_cow_prepare_write rd c first count"
| "cow_do rd (Cow_Write s bs) c = st_cow_write_prepared_sector c s bs"

fun cow_exec :: "read512_fn \<Rightarrow> st_cow \<Rightarrow> cow_op list \<Rightarrow> (cow_op \<times> cow_status) list \<times> st_cow" where
  "cow_exec rd c [] = ([], c)"
| "cow_exec rd c (x # xs) = (let (st, c') = cow_do rd x c; (log, c'') = cow_exec rd c' xs in ((x, st) # log, c''))"

text \<open>The reference: a disk on which the successful writes of a log are replayed.\<close>

fun disk_replay :: "(cow_op \<times> cow_status) list \<Rightarrow> (u64 \<Rightarrow> bytes) \<Rightarrow> u64 \<Rightarrow> bytes" where
  "disk_replay [] d = d"
| "disk_replay ((Cow_Write s bs, ST_COW_OK) # log) d = disk_replay log (d(s := bs))"
| "disk_replay (_ # log) d = disk_replay log d"

fun cow_op_legal :: "cow_op \<Rightarrow> bool" where
  "cow_op_legal (Cow_Write s bs) \<longleftrightarrow> length bs = 512"
| "cow_op_legal _ \<longleftrightarrow> True"

fun cow_wrote :: "cow_op \<Rightarrow> cow_status \<Rightarrow> (u64 \<times> bytes) option" where
  "cow_wrote (Cow_Write s bs) ST_COW_OK = Some (s, bs)"
| "cow_wrote _ _ = None"

definition cow_good :: "read512_fn \<Rightarrow> st_cow \<Rightarrow> bool" where
  "cow_good rd c \<longleftrightarrow> cow_wf c \<and> (\<forall>lba. length (snd (rd lba)) = 512)"

lemma cow_read_state:
  assumes "cow_wf c" and "st_cow_read_sector rd c s out = (st, bs, c')"
  shows "cow_wf c' \<and> cow_sectors c' = cow_sectors c \<and> cow_sectors_per_page c' = cow_sectors_per_page c
    \<and> cow_map c' = cow_map c \<and> cow_view rd c' t = cow_view rd c t"
proof -
  have "c' = c \<or> c' = c\<lparr>cow_backend_error := fst (rd s)\<rparr>"
    using assms(2) unfolding cow_read_spec [OF assms(1)] by (auto split: if_splits)
  then show ?thesis
    using cow_wf_upd [OF assms(1) refl refl, of "fst (rd s)"] assms(1)
      cow_view_upd [OF assms(1), where ar = "cow_arena c" and rd = rd and pd = "cow_pending c" and er = "fst (rd s)" and s = t]
    by (auto simp: cow_map_def)
qed

lemma cow_do_spec:
  assumes "cow_good rd c" and "cow_op_legal x" and "cow_do rd x c = (st, c')"
  shows "cow_good rd c' \<and> cow_sectors c' = cow_sectors c \<and> cow_sectors_per_page c' = cow_sectors_per_page c
    \<and> dom (cow_map c) \<subseteq> dom (cow_map c')
    \<and> (\<forall>t < cow_sectors c. cow_view rd c' t =
        (case cow_wrote x st of Some (b, v) \<Rightarrow> if t = b then v else cow_view rd c t | None \<Rightarrow> cow_view rd c t))"
proof -
  have wf: "cow_wf c" and rd: "\<forall>lba. length (snd (rd lba)) = 512" using assms(1) by (simp_all add: cow_good_def)
  show ?thesis
  proof (cases x)
    case (Cow_Read s out)
    then obtain bs where r: "st_cow_read_sector rd c s out = (st, bs, c')"
      using assms(3) by (auto split: prod.splits)
    show ?thesis using cow_read_state [OF wf r] rd Cow_Read by (simp add: cow_good_def)
  next
    case (Cow_Prepare first count)
    show ?thesis
      using cow_prepare_spec [OF wf rd assms(3) [unfolded Cow_Prepare cow_do.simps]] rd Cow_Prepare
      by (auto simp: cow_good_def)
  next
    case (Cow_Write s bs)
    have len: "length bs = 512" using assms(2) Cow_Write by simp
    note W = cow_write_spec [OF wf len assms(3) [unfolded Cow_Write cow_do.simps], where rd = rd]
    show ?thesis
    proof (cases "st = ST_COW_OK")
      case True
      then show ?thesis using W rd Cow_Write by (simp add: cow_good_def)
    next
      case False
      then have "cow_wrote x st = None" using Cow_Write by (cases st) simp_all
      moreover have "c' = c" using W False by blast
      ultimately show ?thesis using wf rd by (simp add: cow_good_def)
    qed
  qed
qed

interpretation cow_disk: overlay_disk "cow_good rd" "\<lambda>c s. s < cow_sectors c" "cow_view rd" "cow_do rd"
  cow_op_legal cow_wrote for rd
proof
  fix c x a
  assume *: "cow_good rd c" "cow_op_legal x"
  note D = cow_do_spec [OF * surjective_pairing]
  show "cow_good rd (snd (cow_do rd x c))" using D by blast
  show "(\<lambda>s. s < cow_sectors (snd (cow_do rd x c))) = (\<lambda>s. s < cow_sectors c)" using D by simp
  assume "a < cow_sectors c"
  then show "cow_view rd (snd (cow_do rd x c)) a = (case cow_wrote x (fst (cow_do rd x c)) of
      Some (b, v) \<Rightarrow> if a = b then v else cow_view rd c a | None \<Rightarrow> cow_view rd c a)"
    using D by blast
qed

lemma cow_exec_run: "cow_exec rd c xs = cow_disk.run rd c xs"
  by (induction xs arbitrary: c) simp_all

lemma disk_replay_after: "disk_replay log d s = cow_disk.after log s (d s)"
proof (induction log arbitrary: d)
  case (Cons xr log)
  obtain x r where "xr = (x, r)" by fastforce
  then show ?case using Cons.IH by (cases x; cases r) auto
qed simp

lemma cow_exec_view:
  assumes "cow_good rd c" and "\<forall>x \<in> set xs. cow_op_legal x" and "cow_exec rd c xs = (log, c')"
  shows "cow_good rd c'" and "cow_sectors c' = cow_sectors c"
    and "s < cow_sectors c \<Longrightarrow> cow_view rd c' s = disk_replay log (cow_view rd c) s"
proof -
  have R: "cow_good rd c' \<and> (\<lambda>s. s < cow_sectors c') = (\<lambda>s. s < cow_sectors c)
    \<and> (\<forall>a. a < cow_sectors c \<longrightarrow> cow_view rd c' a = cow_disk.after log a (cow_view rd c a))"
    using cow_disk.run_view [OF assms(1,2)] assms(3) unfolding cow_exec_run by blast
  show "cow_good rd c'" using R by blast
  have "(s < cow_sectors c') = (s < cow_sectors c)" for s using R by meson
  then show "cow_sectors c' = cow_sectors c" by (metis neqE less_irrefl)
  show "cow_view rd c' s = disk_replay log (cow_view rd c) s" if "s < cow_sectors c"
    using R that by (simp add: disk_replay_after)
qed

lemma cow_exec_resident:
  assumes "cow_good rd c" and "\<forall>x \<in> set xs. cow_op_legal x" and "cow_exec rd c xs = (log, c')"
  shows "cow_sectors_per_page c' = cow_sectors_per_page c \<and> dom (cow_map c) \<subseteq> dom (cow_map c')"
  using assms
proof (induction xs arbitrary: c log)
  case (Cons x xs)
  obtain r c1 where x: "cow_do rd x c = (r, c1)" by fastforce
  obtain l where l: "cow_exec rd c1 xs = (l, c')"
    using Cons.prems(3) x by (auto split: prod.splits)
  have "cow_good rd c1 \<and> cow_sectors_per_page c1 = cow_sectors_per_page c \<and> dom (cow_map c) \<subseteq> dom (cow_map c1)"
    using cow_do_spec [OF Cons.prems(1) _ x] Cons.prems(2) by simp
  moreover from this have "cow_sectors_per_page c' = cow_sectors_per_page c1 \<and> dom (cow_map c1) \<subseteq> dom (cow_map c')"
    using Cons.IH [OF _ _ l] Cons.prems(2) by simp
  ultimately show ?case by (metis subset_trans)
qed simp


subsection \<open>Properties\<close>

text \<open>C2. On a shadow set up by \<open>st_cow_init\<close>, after any sequence of reads, preparations and
  writes, reading a sector gives the bytes of the last successful write to it, or the base's bytes
  where there was none; the only failure is a base error at a sector that is not shadowed, and then
  the output buffer is the one thing the base left in it.\<close>

theorem cow_last_write_wins:
  assumes "st_cow_init sectors spp capacity hash_slots (Some ar) (Some es) (Some pd) (Some rd) = (ST_COW_OK, Some c)"
    and "cow_buffers_ok sectors spp capacity ar pd"
    and "\<forall>lba. length (snd (rd lba)) = 512" and "\<forall>x \<in> set xs. cow_op_legal x"
    and "cow_exec rd c xs = (log, c')" and "s < sectors"
  shows "st_cow_read_sector rd c' s out = (ST_COW_OK, disk_replay log (\<lambda>s. snd (rd s)) s, c')
    \<or> fst (rd s) \<noteq> 0 \<and> disk_replay log (\<lambda>s. snd (rd s)) s = snd (rd s)
      \<and> st_cow_read_sector rd c' s out = (ST_COW_IO, snd (rd s), c'\<lparr>cow_backend_error := fst (rd s)\<rparr>)"
proof -
  note I = cow_init_spec [OF assms(1,2)]
  have good: "cow_good rd c" using I assms(3) by (simp add: cow_good_def)
  note X = cow_exec_view [OF good assms(4,5)]
  have wf': "cow_wf c'" using X(1) by (simp add: cow_good_def)
  have "cow_view rd c = (\<lambda>s. snd (rd s))" using I by blast
  then have v: "cow_view rd c' s = disk_replay log (\<lambda>s. snd (rd s)) s"
    using X(3) [of s] I assms(6) by simp
  have ins: "\<not> cow_sectors c' \<le> s" using X(2) I assms(6) by (simp add: not_le)
  show ?thesis
    using v unfolding cow_read_spec [OF wf'] if_not_P [OF ins]
    by (auto simp: cow_view_def)
qed

definition demo_rd :: read512_fn where
  "demo_rd lba = (0, replicate 512 (ucast lba))"

theorem cow_last_write_wins_witness:
  shows "st_cow_read_sector demo_rd (snd (cow_exec demo_rd
        (the (snd (st_cow_init 3 2 2 4 (Some (replicate 2048 0)) (Some []) (Some [0, 0]) (Some demo_rd))))
        [Cow_Prepare 1 1, Cow_Write 1 (replicate 512 7)])) 0 []
    = (ST_COW_OK, disk_replay (fst (cow_exec demo_rd
        (the (snd (st_cow_init 3 2 2 4 (Some (replicate 2048 0)) (Some []) (Some [0, 0]) (Some demo_rd))))
        [Cow_Prepare 1 1, Cow_Write 1 (replicate 512 7)])) (\<lambda>s. snd (demo_rd s)) 0,
      snd (cow_exec demo_rd
        (the (snd (st_cow_init 3 2 2 4 (Some (replicate 2048 0)) (Some []) (Some [0, 0]) (Some demo_rd))))
        [Cow_Prepare 1 1, Cow_Write 1 (replicate 512 7)]))"
proof -
  let ?i = "st_cow_init 3 2 2 4 (Some (replicate 2048 0)) (Some []) (Some [0, 0]) (Some demo_rd)"
  have i: "?i = (ST_COW_OK, Some (the (snd ?i)))"
    by (simp add: st_cow_init_def)
  show ?thesis
    using cow_last_write_wins [OF i, of "[Cow_Prepare 1 1, Cow_Write 1 (replicate 512 7)]" _ _ 0 "[]", OF _ _ _ surjective_pairing]
    by (simp add: cow_buffers_ok_def demo_rd_def)
qed

text \<open>C32. What \<open>st_cow_prepare_write\<close> does, on every path: it keeps the invariant, the content of
  every sector and every page already resident; it never reaches the \<open>ST_COW_STATE\<close> return; it
  returns \<open>ST_COW_RANGE\<close> for exactly the empty requests and those that leave the medium,
  \<open>ST_COW_NO_SPACE\<close> for exactly those whose pages do not fit, \<open>ST_COW_IO\<close> when a sector of a page
  to copy cannot be read, and on \<open>ST_COW_OK\<close> every sector of the request is resident.\<close>

theorem cow_prepare_write_outcomes:
  assumes "cow_wf c" and "\<forall>lba. length (snd (rd lba)) = 512" and "st_cow_prepare_write rd c first count = (st, c')"
  shows "cow_wf c' \<and> (\<forall>s < cow_sectors c. cow_view rd c' s = cow_view rd c s)
    \<and> dom (cow_map c) \<subseteq> dom (cow_map c')
    \<and> st = (if \<not> cow_request_ok c first count then ST_COW_RANGE
        else if cow_too_many c first count then ST_COW_NO_SPACE
        else if \<not> cow_base_ok rd c (cow_missing c (cow_page_of c first) (cow_last c first count)) then ST_COW_IO
        else ST_COW_OK)
    \<and> (st = ST_COW_OK \<longrightarrow> (\<forall>s. first \<le> s \<and> s \<le> first + count - 1 \<longrightarrow>
        fst (st_cow_write_prepared_sector c' s (replicate 512 0)) = ST_COW_OK))"
proof -
  note P = cow_prepare_spec [OF assms]
  have st: "st = (if \<not> cow_request_ok c first count then ST_COW_RANGE
        else if cow_too_many c first count then ST_COW_NO_SPACE
        else if \<not> cow_base_ok rd c (cow_missing c (cow_page_of c first) (cow_last c first count)) then ST_COW_IO
        else ST_COW_OK)"
    using P by (cases st) auto
  have writable: "fst (st_cow_write_prepared_sector c' s (replicate 512 0)) = ST_COW_OK"
    if "st = ST_COW_OK" "first \<le> s" "s \<le> first + count - 1" for s
  proof -
    have wf': "cow_wf c'" and req: "cow_request_ok c first count" using P that(1) by blast+
    have "s < cow_sectors c'" using cow_request_bounds(4) [OF req] that(3) P by simp
    moreover have "cow_map c' (cow_page_of c' s) \<noteq> None" using P that by blast
    ultimately show ?thesis
      using cow_write_spec [OF wf' _ surjective_pairing, of "replicate 512 0" s] by (simp add: not_le)
  qed
  show ?thesis using P st writable by auto
qed

theorem cow_prepare_write_outcomes_witness:
  "fst (st_cow_prepare_write demo_rd
      (the (snd (st_cow_init 3 2 2 4 (Some (replicate 2048 0)) (Some []) (Some [0, 0]) (Some demo_rd)))) 2 2) = ST_COW_RANGE"
proof -
  let ?i = "st_cow_init 3 2 2 4 (Some (replicate 2048 0)) (Some []) (Some [0, 0]) (Some demo_rd)"
  have i: "?i = (ST_COW_OK, Some (the (snd ?i)))"
    by (simp add: st_cow_init_def)
  note I = cow_init_spec [OF i]
  have wf: "cow_wf (the (snd ?i))" using I by (simp add: cow_buffers_ok_def)
  have "\<not> cow_request_ok (the (snd ?i)) 2 2" using I by (simp add: cow_buffers_ok_def cow_request_ok_def word_le_nat_alt)
  then show ?thesis
    using cow_prepare_write_outcomes [OF wf _ surjective_pairing, of demo_rd 2 2] by (simp add: demo_rd_def)
qed

text \<open>C36. A page once prepared stays writable: after a successful \<open>st_cow_prepare_write\<close> and any
  further sequence of operations, whatever they returned, writing a sector of the prepared range
  returns \<open>ST_COW_OK\<close>.\<close>

theorem cow_prepared_stays_writable:
  assumes "cow_good rd c" and "st_cow_prepare_write rd c first count = (ST_COW_OK, c1)"
    and "\<forall>x \<in> set xs. cow_op_legal x" and "cow_exec rd c1 xs = (log, c')"
    and "first \<le> s" and "s \<le> first + count - 1" and "length bs = 512"
  shows "fst (st_cow_write_prepared_sector c' s bs) = ST_COW_OK"
proof -
  have "cow_wf c" and rd: "\<forall>lba. length (snd (rd lba)) = 512" using assms(1) by (simp_all add: cow_good_def)
  note P = cow_prepare_spec [OF this assms(2)]
  have good1: "cow_good rd c1" using P rd by (simp add: cow_good_def)
  note X = cow_exec_view [OF good1 assms(3,4)] and R = cow_exec_resident [OF good1 assms(3,4)]
  have wf': "cow_wf c'" using X(1) by (simp add: cow_good_def)
  have req: "cow_request_ok c first count" using P by blast
  have "s < cow_sectors c'" using cow_request_bounds(4) [OF req] assms(6) P X(2) by simp
  moreover have "cow_map c1 (cow_page_of c1 s) \<noteq> None" using P assms(5,6) by blast
  then have "cow_map c' (cow_page_of c' s) \<noteq> None"
    using R by (auto simp: cow_page_of_def)
  ultimately show ?thesis
    using cow_write_spec [OF wf' assms(7) surjective_pairing, of s] by (simp add: not_le)
qed

theorem cow_prepared_stays_writable_witness:
  "fst (st_cow_write_prepared_sector (snd (cow_exec demo_rd (snd (st_cow_prepare_write demo_rd
      (the (snd (st_cow_init 3 2 2 4 (Some (replicate 2048 0)) (Some []) (Some [0, 0]) (Some demo_rd)))) 1 1))
      [Cow_Prepare 2 1])) 1 (replicate 512 9)) = ST_COW_OK"
proof -
  let ?i = "st_cow_init 3 2 2 4 (Some (replicate 2048 0)) (Some []) (Some [0, 0]) (Some demo_rd)"
  let ?c = "the (snd ?i)"
  have i: "?i = (ST_COW_OK, Some ?c)" by (simp add: st_cow_init_def)
  have c: "?c = \<lparr>cow_sectors = 3, cow_sectors_per_page = 2, cow_page_bytes = 1024, cow_capacity = 2,
      cow_hash_slots = 4, cow_used = 0, cow_dirty = 0, cow_arena = replicate 2048 0,
      cow_entries = replicate 4 \<lparr>ent_page = 0, ent_slot = 0, ent_flags = 0\<rparr>,
      cow_pending = [0, 0], cow_backend_error = 0\<rparr>"
    by (simp add: st_cow_init_def)
  note I = cow_init_spec [OF i]
  have good: "cow_good demo_rd ?c" using I by (simp add: cow_buffers_ok_def cow_good_def demo_rd_def)
  then have wf: "cow_wf ?c" by (simp add: cow_good_def)
  have "cow_request_ok ?c 1 1" "cow_base_ok demo_rd ?c ps" for ps
    using I by (simp_all add: cow_buffers_ok_def cow_request_ok_def cow_base_ok_def demo_rd_def)
  moreover have "\<not> cow_too_many ?c 1 1"
    by (simp add: c cow_too_many_def cow_last_def cow_page_of_def cow_missing_def u32_range_def)
  ultimately have "fst (st_cow_prepare_write demo_rd ?c 1 1) = ST_COW_OK"
    using cow_prepare_spec [OF wf _ surjective_pairing, of demo_rd 1 1]
    by (cases "fst (st_cow_prepare_write demo_rd ?c 1 1)") (simp_all add: demo_rd_def)
  then have "st_cow_prepare_write demo_rd ?c 1 1 = (ST_COW_OK, snd (st_cow_prepare_write demo_rd ?c 1 1))"
    by (metis surjective_pairing)
  from cow_prepared_stays_writable [OF good this, of "[Cow_Prepare 2 1]" _ _ 1 "replicate 512 9", OF _ surjective_pairing]
  show ?thesis by simp
qed

text \<open>Finding: \<open>st_cow_init\<close> accepts geometries its 32-bit arithmetic does not hold: a page of
  \<open>2 ^ 23\<close> sectors, whose byte size wraps to 0, and a table of one place for \<open>2 ^ 31\<close> pages, whose
  doubled capacity wraps to 0; with pages of 0 bytes the sectors of all pages share one cell.\<close>

theorem cow_init_accepts_wrapping_geometry:
  "(\<exists>c. st_cow_init 16777216 0x800000 2 4 (Some ar) (Some es) (Some pd) (Some rd) = (ST_COW_OK, Some c)
      \<and> cow_page_bytes c = 0 \<and> (\<forall>slot j. cow_offset c slot j = cow_offset c 0 j))
   \<and> (\<exists>c. st_cow_init 8 1 0x80000000 1 (Some ar) (Some es) (Some pd) (Some rd) = (ST_COW_OK, Some c)
      \<and> unat (cow_hash_slots c) < unat (cow_capacity c))"
proof -
  have z: "(4294967296 :: u32) = 0" "(2147483648 * 2 :: u32) = 0"
    by (simp_all add: word_unat_eq_iff)
  show ?thesis
    by (simp add: st_cow_init_def cow_offset_def z word_less_nat_alt unat_div_distrib)
qed

end
