(* ===== verification/Memory_Regions.thy ===== *)
theory Memory_Regions
  imports Prelude
begin

text \<open>
  The \<open>/memory/reg\<close> walk of src/src/regions/xnu_memory_regions.c: the function that turns the
  device tree's list of (base, size) words into the region list, and refuses malformed ones.
  A NULL pointer is \<open>None\<close>; \<open>max_regions\<close> bounds what is written into \<open>regions\<close>.  Indices are
  naturals: \<open>i * 2 + 1\<close> stays below \<open>word_count\<close>.
\<close>

record xnu_mem_region =
  reg_base :: u32
  reg_size :: u32

definition mr_overlap :: "u32 list \<Rightarrow> nat \<Rightarrow> nat \<Rightarrow> bool" where
  "mr_overlap ws i j \<longleftrightarrow>
     ws ! (2 * i) < ws ! (2 * j) + ws ! (2 * j + 1) \<and> ws ! (2 * j) < ws ! (2 * i) + ws ! (2 * i + 1)"

text \<open>One turn of the loop for each index of the list; \<open>False\<close> is the \<open>return 0\<close> in it.\<close>

fun mr_loop :: "u32 list \<Rightarrow> u32 \<Rightarrow> nat list \<Rightarrow> xnu_mem_region list option \<Rightarrow> bool \<times> xnu_mem_region list option" where
  "mr_loop ws max_regions [] regions = (True, regions)"
| "mr_loop ws max_regions (i # is) regions =
    (if ws ! (2 * i + 1) = 0 then (False, regions)
     else if list_ex (mr_overlap ws i) [0..<i] then (False, regions)
     else mr_loop ws max_regions is
       (case regions of
          None \<Rightarrow> None
        | Some rs \<Rightarrow> Some (if i < unat max_regions
            then rs[i := \<lparr>reg_base = ws ! (2 * i), reg_size = ws ! (2 * i + 1)\<rparr>] else rs)))"

definition xnu_memory_regions_walk ::
    "u32 list option \<Rightarrow> u32 \<Rightarrow> u32 \<Rightarrow> xnu_mem_region list option \<Rightarrow> u32 \<Rightarrow> u32 \<times> xnu_mem_region list option" where
  "xnu_memory_regions_walk reg_words word_count boot_base regions max_regions =
    (case reg_words of
       None \<Rightarrow> (0, regions)
     | Some ws \<Rightarrow>
         if word_count < 2 \<or> word_count AND 1 \<noteq> 0 then (0, regions)
         else if ws ! 0 \<noteq> boot_base then (0, regions)
         else (let pairs = drop_bit 1 word_count;
                   (ok, regions') = mr_loop ws max_regions [0..<unat pairs] regions
               in (if ok then pairs else 0, regions')))"

subsection \<open>The walk as a specification\<close>

definition mr_ok :: "u32 list \<Rightarrow> nat \<Rightarrow> bool" where
  "mr_ok ws i \<longleftrightarrow> ws ! (2 * i + 1) \<noteq> 0 \<and> (\<forall>j < i. \<not> mr_overlap ws i j)"

definition mr_put :: "u32 list \<Rightarrow> u32 \<Rightarrow> nat \<Rightarrow> xnu_mem_region list \<Rightarrow> xnu_mem_region list" where
  "mr_put ws m n rs = map (\<lambda>i. if i < n \<and> i < unat m
     then \<lparr>reg_base = ws ! (2 * i), reg_size = ws ! (2 * i + 1)\<rparr> else rs ! i) [0..<length rs]"

lemma mr_put_0: "mr_put ws m 0 rs = rs"
  by (simp add: mr_put_def map_nth)

lemma mr_put_Suc:
  "mr_put ws m (Suc n) rs = (if n < unat m
     then (mr_put ws m n rs)[n := \<lparr>reg_base = ws ! (2 * n), reg_size = ws ! (2 * n + 1)\<rparr>] else mr_put ws m n rs)"
  by (rule nth_equalityI) (auto simp: mr_put_def nth_list_update less_Suc_eq)

lemma mr_loop_spec:
  "fst (mr_loop ws m [n..<n + k] (map_option (mr_put ws m n) regions)) = (\<forall>i. n \<le> i \<and> i < n + k \<longrightarrow> mr_ok ws i)"
  "(\<forall>i. n \<le> i \<and> i < n + k \<longrightarrow> mr_ok ws i) \<Longrightarrow>
    snd (mr_loop ws m [n..<n + k] (map_option (mr_put ws m n) regions)) = map_option (mr_put ws m (n + k)) regions"
proof (induction k arbitrary: n)
  case 0
  { case 1 then show ?case by auto
  next case 2 then show ?case by simp }
next
  case (Suc k)
  have unroll: "[n..<n + Suc k] = n # [Suc n..<Suc n + k]" for n by (simp add: upt_conv_Cons)
  have range: "n \<le> i \<and> i < n + Suc k \<longleftrightarrow> i = n \<or> Suc n \<le> i \<and> i < Suc n + k" for i n by auto
  have here: "mr_loop ws m [n..<n + Suc k] (map_option (mr_put ws m n) regions) =
     (if mr_ok ws n then mr_loop ws m [Suc n..<Suc n + k] (map_option (mr_put ws m (Suc n)) regions)
      else (False, map_option (mr_put ws m n) regions))" for n
    unfolding unroll
    by (auto simp: mr_ok_def list_ex_iff mr_put_Suc simp del: upt_Suc split: option.splits)
  { case 1
    show ?case unfolding here range using Suc.IH(1) [of "Suc n"] by (auto simp del: upt_Suc)
  next
    case 2
    then have "mr_ok ws n" "\<forall>i. Suc n \<le> i \<and> i < Suc n + k \<longrightarrow> mr_ok ws i" by (auto simp: range)
    then show ?case unfolding here using Suc.IH(2) [of "Suc n"] by (simp del: upt_Suc) }
qed

text \<open>Half-open intervals of physical addresses, in the naturals.\<close>

definition mr_span :: "u32 list \<Rightarrow> nat \<Rightarrow> nat set" where
  "mr_span ws i = {unat (ws ! (2 * i)) ..< unat (ws ! (2 * i)) + unat (ws ! (2 * i + 1))}"

definition mr_top :: "u32 list \<Rightarrow> nat \<Rightarrow> bool" where
  "mr_top ws i \<longleftrightarrow> unat (ws ! (2 * i)) + unat (ws ! (2 * i + 1)) < 2 ^ 32"

text \<open>The list of pairs a caller may trust: the boot region first, none empty, no two overlapping.\<close>

definition mr_wellformed :: "u32 list \<Rightarrow> u32 \<Rightarrow> u32 \<Rightarrow> bool" where
  "mr_wellformed ws word_count boot_base \<longleftrightarrow> 2 \<le> unat word_count \<and> even (unat word_count) \<and> ws ! 0 = boot_base
     \<and> (\<forall>i < unat word_count div 2. mr_span ws i \<noteq> {})
     \<and> (\<forall>i < unat word_count div 2. \<forall>j < i. mr_span ws i \<inter> mr_span ws j = {})"

lemma u32_odd_and_1: "(w :: u32) AND 1 \<noteq> 0 \<longleftrightarrow> odd (unat w)"
proof -
  have "bit (unat w) 0 = bit w 0" by (simp only: bit_unsigned_iff) simp
  then show ?thesis by (simp add: and_one_eq bit_0 odd_iff_mod_2_eq_one)
qed

text \<open>What the walk accepts: the same list, with the end of a region taken modulo \<open>2 ^ 32\<close> when two
  regions are compared.\<close>

definition mr_end :: "u32 list \<Rightarrow> nat \<Rightarrow> nat" where
  "mr_end ws i = (unat (ws ! (2 * i)) + unat (ws ! (2 * i + 1))) mod 2 ^ 32"

definition mr_accepted :: "u32 list \<Rightarrow> u32 \<Rightarrow> u32 \<Rightarrow> bool" where
  "mr_accepted ws word_count boot_base \<longleftrightarrow> 2 \<le> unat word_count \<and> even (unat word_count) \<and> ws ! 0 = boot_base
     \<and> (\<forall>i < unat word_count div 2. mr_span ws i \<noteq> {})
     \<and> (\<forall>i < unat word_count div 2. \<forall>j < i.
          mr_end ws j \<le> unat (ws ! (2 * i)) \<or> mr_end ws i \<le> unat (ws ! (2 * j)))"

lemma mr_overlap_end:
  "mr_overlap ws i j \<longleftrightarrow> unat (ws ! (2 * i)) < mr_end ws j \<and> unat (ws ! (2 * j)) < mr_end ws i"
  by (simp add: mr_overlap_def mr_end_def word_less_nat_alt unat_word_ariths)

lemma mr_ok_accepted:
  "(\<forall>i. 0 \<le> i \<and> i < n \<longrightarrow> mr_ok ws i) \<longleftrightarrow> (\<forall>i < n. mr_span ws i \<noteq> {})
     \<and> (\<forall>i < n. \<forall>j < i. mr_end ws j \<le> unat (ws ! (2 * i)) \<or> mr_end ws i \<le> unat (ws ! (2 * j)))"
proof -
  have "ws ! (2 * i + 1) \<noteq> 0 \<longleftrightarrow> mr_span ws i \<noteq> {}" for i
    by (auto simp: mr_span_def word_unat_eq_iff)
  then show ?thesis by (auto simp: mr_ok_def mr_overlap_end not_less)
qed

lemma mr_walk_eq:
  "xnu_memory_regions_walk (Some ws) word_count boot_base regions m =
    (if mr_accepted ws word_count boot_base
     then (drop_bit 1 word_count, map_option (mr_put ws m (unat word_count div 2)) regions)
     else (0, snd (xnu_memory_regions_walk (Some ws) word_count boot_base regions m)))"
proof -
  let ?n = "unat word_count div 2"
  have pairs: "unat (drop_bit 1 word_count) = ?n" by (simp add: drop_bit_Suc unat_div_distrib)
  have put0: "map_option (mr_put ws m 0) regions = regions"
    by (cases regions) (simp_all add: mr_put_0)
  note L = mr_loop_spec [where n = 0 and k = ?n and ws = ws and m = m and regions = regions,
      unfolded put0 add_0 mr_ok_accepted]
  have eq: "xnu_memory_regions_walk (Some ws) word_count boot_base regions m =
    (if \<not> 2 \<le> unat word_count \<or> odd (unat word_count) then (0, regions)
     else if ws ! 0 \<noteq> boot_base then (0, regions)
     else (if fst (mr_loop ws m [0..<?n] regions) then drop_bit 1 word_count else 0,
           snd (mr_loop ws m [0..<?n] regions)))"
    by (simp add: xnu_memory_regions_walk_def u32_odd_and_1 pairs word_less_nat_alt split_beta Let_def
      del: One_nat_def)
  show ?thesis
    unfolding eq L(1) mr_accepted_def using L(2) by auto
qed

lemma mr_wellformed_accepted:
  assumes "mr_wellformed ws word_count boot_base"
  shows "mr_accepted ws word_count boot_base"
proof -
  have "mr_end ws j \<le> unat (ws ! (2 * i)) \<or> mr_end ws i \<le> unat (ws ! (2 * j))"
    if "mr_span ws i \<inter> mr_span ws j = {}" "mr_span ws i \<noteq> {}" "mr_span ws j \<noteq> {}" for i j
    using that mod_less_eq_dividend [of "unat (ws ! (2 * i)) + unat (ws ! (2 * i + 1))" "2 ^ 32"]
      mod_less_eq_dividend [of "unat (ws ! (2 * j)) + unat (ws ! (2 * j + 1))" "2 ^ 32"]
    by (auto simp: mr_span_def mr_end_def Int_atLeastLessThan)
  then show ?thesis
    using assms by (auto simp: mr_wellformed_def mr_accepted_def dest: less_trans)
qed

lemma mr_accepted_apart:
  assumes "mr_accepted ws word_count boot_base" and "i < unat word_count div 2" and "j < i"
    and "mr_top ws i" and "mr_top ws j"
  shows "mr_span ws i \<inter> mr_span ws j = {}"
proof -
  have "mr_end ws j \<le> unat (ws ! (2 * i)) \<or> mr_end ws i \<le> unat (ws ! (2 * j))"
    using assms(1-3) by (simp add: mr_accepted_def)
  moreover have "mr_end ws i = unat (ws ! (2 * i)) + unat (ws ! (2 * i + 1))"
    "mr_end ws j = unat (ws ! (2 * j)) + unat (ws ! (2 * j + 1))"
    using assms(4,5) by (simp_all add: mr_end_def mr_top_def)
  ultimately show ?thesis by (auto simp: mr_span_def)
qed


subsection \<open>Properties\<close>

text \<open>C33. For every list, the walk returns the number of regions and writes the first
  \<open>max_regions\<close> of them, in order, exactly when the number of words is even and not 0, the boot
  region is first, no region is empty, and no earlier region overlaps a later one, the ends being
  compared modulo 4 GiB; otherwise it returns 0. So it accepts every well-formed list, in what it
  accepts any two regions that end below 4 GiB are disjoint, and where every region ends below
  4 GiB it accepts the well-formed lists only. The verdict does not depend on the output array.\<close>

theorem memory_regions_exact:
  "fst (xnu_memory_regions_walk (Some ws) word_count boot_base regions m) =
      (if mr_accepted ws word_count boot_base then drop_bit 1 word_count else 0)
    \<and> (mr_accepted ws word_count boot_base \<longrightarrow>
      snd (xnu_memory_regions_walk (Some ws) word_count boot_base regions m)
        = map_option (mr_put ws m (unat word_count div 2)) regions)
    \<and> (mr_wellformed ws word_count boot_base \<longrightarrow> mr_accepted ws word_count boot_base)
    \<and> (mr_accepted ws word_count boot_base \<longrightarrow> (\<forall>i < unat word_count div 2. \<forall>j < i.
        mr_top ws i \<and> mr_top ws j \<longrightarrow> mr_span ws i \<inter> mr_span ws j = {}))
    \<and> ((\<forall>i < unat word_count div 2. mr_top ws i) \<longrightarrow>
        mr_accepted ws word_count boot_base = mr_wellformed ws word_count boot_base)"
proof -
  have "mr_accepted ws word_count boot_base = mr_wellformed ws word_count boot_base"
    if top: "\<forall>i < unat word_count div 2. mr_top ws i"
  proof
    assume a: "mr_accepted ws word_count boot_base"
    have "mr_span ws i \<inter> mr_span ws j = {}" if "i < unat word_count div 2" "j < i" for i j
      using mr_accepted_apart [OF a that] top that less_trans [OF that(2,1)] by blast
    then show "mr_wellformed ws word_count boot_base"
      using a unfolding mr_wellformed_def mr_accepted_def by blast
  qed (rule mr_wellformed_accepted)
  moreover have "fst (xnu_memory_regions_walk (Some ws) word_count boot_base regions m) =
      (if mr_accepted ws word_count boot_base then drop_bit 1 word_count else 0)
    \<and> (mr_accepted ws word_count boot_base \<longrightarrow>
      snd (xnu_memory_regions_walk (Some ws) word_count boot_base regions m)
        = map_option (mr_put ws m (unat word_count div 2)) regions)"
    using mr_walk_eq [of ws word_count boot_base regions m] by (metis fst_conv snd_conv)
  ultimately show ?thesis
    using mr_wellformed_accepted [of ws word_count boot_base] mr_accepted_apart [of ws word_count boot_base]
    by blast
qed

theorem memory_regions_exact_witness:
  "fst (xnu_memory_regions_walk (Some [0x80000000, 0x1000, 0, 0x80000000]) 4 0x80000000 None 2) = 2"
proof -
  have two: "i < 2 \<longleftrightarrow> i = 0 \<or> i = 1" for i :: nat by auto
  have "mr_wellformed [0x80000000, 0x1000, 0, 0x80000000] 4 0x80000000"
    by (simp add: mr_wellformed_def mr_span_def two)
  then show ?thesis
    using memory_regions_exact [where word_count = 4 and ws = "[0x80000000, 0x1000, 0, 0x80000000]"
        and boot_base = "0x80000000" and regions = None and m = 2]
    by (simp add: drop_bit_eq_div)
qed

text \<open>Finding: a region that ends at 4 GiB makes \<open>bbase + bsize\<close> wrap to 0 in the overlap
  test, so a second region inside it is accepted and an allocator may hand the same page out twice;
  the walk returns 2 for a boot region of 512 MiB at \<open>0xE0000000\<close> and a page inside it.\<close>

theorem memory_regions_wrap_accepts_overlap:
  "fst (xnu_memory_regions_walk (Some [0xE0000000, 0x20000000, 0xF0000000, 0x1000]) 4 0xE0000000 None 0) = 2
   \<and> mr_span [0xE0000000, 0x20000000, 0xF0000000, 0x1000] 1 \<subseteq> mr_span [0xE0000000, 0x20000000, 0xF0000000, 0x1000] 0"
proof -
  have "[0..<unat (2 :: u32)] = [0, 1]" by (simp add: upt_rec)
  moreover have "drop_bit 1 (4 :: u32) = 2" by (simp add: drop_bit_eq_div)
  ultimately show ?thesis
    by (simp add: xnu_memory_regions_walk_def mr_overlap_def mr_span_def word_less_nat_alt)
qed

end
