(* ===== verification/Apple_Dt.thy ===== *)
theory Apple_Dt
  imports Prelude
begin

text \<open>
  The flattened device tree of src/src/apple_dt.c: the builder that writes nodes and properties into
  a buffer, and the parser that walks them.  A node is two words (property count, child count)
  followed by its properties and its children; a property is a 32-byte name, a word with the
  value's length, and the value padded to four bytes.

  Parser pointers are 32-bit addresses into a flat memory, and their arithmetic wraps as on the
  device; 0 is NULL.  The parser's recursion on children has no bound of its own, so
  \<open>skip_node\<close> carries a depth of calls as fuel: \<open>None\<close> is a recursion deeper than the fuel.  C
  strings passed in by the caller are byte lists without the final NUL.
\<close>

unbundle bit_operations_syntax

subsection \<open>Words in memory, strings\<close>

type_synonym mem32 = "u32 \<Rightarrow> u8"

definition le32 :: "u32 \<Rightarrow> bytes" where
  "le32 w = [ucast w, ucast (drop_bit 8 w), ucast (drop_bit 16 w), ucast (drop_bit 24 w)]"

definition ld32 :: "mem32 \<Rightarrow> u32 \<Rightarrow> u32" where
  "ld32 m a = ucast (m a) OR push_bit 8 (ucast (m (a + 1))) OR push_bit 16 (ucast (m (a + 2)))
     OR push_bit 24 (ucast (m (a + 3)))"

definition align4 :: "u32 \<Rightarrow> u32" where
  "align4 v = (v + 3) AND NOT 3"

text \<open>\<open>strcmp\<close> of a string in memory with a string of the caller.\<close>

fun strcmp :: "mem32 \<Rightarrow> u32 \<Rightarrow> bytes \<Rightarrow> int" where
  "strcmp m a [] = uint (m a)"
| "strcmp m a (c # cs) =
    (if m a \<noteq> 0 \<and> m a = c then strcmp m (a + 1) cs else uint (m a) - uint c)"

definition str :: "string \<Rightarrow> bytes" where
  "str s = map of_char s"

subsection \<open>The builder\<close>

record apple_dt_builder =
  b_base :: bytes
  b_capacity :: u32
  b_pos :: u32
  b_error :: u32

definition b_write :: "bytes \<Rightarrow> apple_dt_builder \<Rightarrow> apple_dt_builder" where
  "b_write src b =
    (if b_error b \<noteq> 0 then b
     else if b_pos b + word_of_nat (length src) > b_capacity b then b\<lparr>b_error := 1\<rparr>
     else b\<lparr>b_base := splice (unat (b_pos b)) src (b_base b), b_pos := b_pos b + word_of_nat (length src)\<rparr>)"

definition b_pad4 :: "apple_dt_builder \<Rightarrow> apple_dt_builder" where
  "b_pad4 b =
    (let aligned = align4 (b_pos b)
     in if aligned > b_pos b then b_write (take (unat (aligned - b_pos b)) [0, 0, 0, 0]) b else b)"

definition apple_dt_begin :: "u32 \<Rightarrow> apple_dt_builder" where
  "apple_dt_begin cap = \<lparr>b_base = replicate (unat cap) 0, b_capacity = cap, b_pos = 0, b_error = 0\<rparr>"

definition apple_dt_node_begin :: "u32 \<Rightarrow> u32 \<Rightarrow> apple_dt_builder \<Rightarrow> apple_dt_builder" where
  "apple_dt_node_begin nprops nchildren b = b_write (le32 nprops @ le32 nchildren) b"

definition dt_prop_hdr :: "bytes \<Rightarrow> u32 \<Rightarrow> bytes" where
  "dt_prop_hdr name len = take 31 name @ replicate (32 - length (take 31 name)) 0 @ le32 len"

definition apple_dt_prop :: "bytes \<Rightarrow> bytes \<Rightarrow> apple_dt_builder \<Rightarrow> apple_dt_builder" where
  "apple_dt_prop name val b =
    b_pad4 (b_write val (b_write (dt_prop_hdr name (word_of_nat (length val))) b))"

definition apple_dt_prop_str :: "bytes \<Rightarrow> bytes \<Rightarrow> apple_dt_builder \<Rightarrow> apple_dt_builder" where
  "apple_dt_prop_str name val b = apple_dt_prop name (val @ [0]) b"

definition apple_dt_prop_u32 :: "bytes \<Rightarrow> u32 \<Rightarrow> apple_dt_builder \<Rightarrow> apple_dt_builder" where
  "apple_dt_prop_u32 name val b = apple_dt_prop name (le32 val) b"

definition apple_dt_prop_u32_array :: "bytes \<Rightarrow> u32 list \<Rightarrow> apple_dt_builder \<Rightarrow> apple_dt_builder" where
  "apple_dt_prop_u32_array name vals b = apple_dt_prop name (concat (map le32 vals)) b"

definition apple_dt_finish :: "apple_dt_builder \<Rightarrow> u32 \<times> apple_dt_builder" where
  "apple_dt_finish b = (let b' = b_pad4 b in (if b_error b' \<noteq> 0 then 0 else b_pos b', b'))"

subsection \<open>The parser\<close>

text \<open>The property loop of \<open>skip_node\<close>: \<open>k\<close> properties from \<open>p\<close>; \<open>None\<close> is its \<open>return 0\<close>.\<close>

fun skip_props :: "mem32 \<Rightarrow> u32 \<Rightarrow> u32 \<Rightarrow> nat \<Rightarrow> u32 option" where
  "skip_props m p lim 0 = Some p"
| "skip_props m p lim (Suc k) =
    (if p + 36 > lim then None
     else let len = ld32 m (p + 32); p' = p + 36
          in if p' + len > lim then None else skip_props m (p' + align4 len) lim k)"

fun skip_node :: "nat \<Rightarrow> mem32 \<Rightarrow> u32 \<Rightarrow> u32 \<Rightarrow> u32 option"
  and skip_children :: "nat \<Rightarrow> mem32 \<Rightarrow> u32 \<Rightarrow> u32 \<Rightarrow> nat \<Rightarrow> u32 option" where
  "skip_node 0 m p lim = None"
| "skip_node (Suc fuel) m p lim =
    (if p + 8 > lim then Some 0
     else case skip_props m (p + 8) lim (unat (ld32 m p)) of
       None \<Rightarrow> Some 0
     | Some q \<Rightarrow> skip_children fuel m q lim (unat (ld32 m (p + 4))))"
| "skip_children fuel m p lim 0 = Some p"
| "skip_children fuel m p lim (Suc k) =
    (case skip_node fuel m p lim of
       None \<Rightarrow> None
     | Some q \<Rightarrow> if q = 0 then Some 0 else skip_children fuel m q lim k)"

fun name_loop :: "mem32 \<Rightarrow> u32 \<Rightarrow> u32 \<Rightarrow> bytes \<Rightarrow> nat \<Rightarrow> bool" where
  "name_loop m p lim name 0 = False"
| "name_loop m p lim name (Suc k) =
    (if p + 36 > lim then False
     else let len = ld32 m (p + 32); p' = p + 36
          in if p' + len > lim then False
             else if strcmp m p (str ''name'') = 0 \<and> len > 0 \<and> strcmp m p' name = 0 then True
             else name_loop m (p' + align4 len) lim name k)"

definition node_has_name :: "mem32 \<Rightarrow> u32 \<Rightarrow> u32 \<Rightarrow> bytes \<Rightarrow> bool" where
  "node_has_name m node lim name =
    (if node + 8 > lim then False else name_loop m (node + 8) lim name (unat (ld32 m node)))"

text \<open>The property loop of \<open>find_child_by_name\<close>, which does not check the value's length.\<close>

fun find_skip :: "mem32 \<Rightarrow> u32 \<Rightarrow> u32 \<Rightarrow> nat \<Rightarrow> u32 option" where
  "find_skip m p lim 0 = Some p"
| "find_skip m p lim (Suc k) =
    (if p + 36 > lim then None else find_skip m (p + (36 + align4 (ld32 m (p + 32)))) lim k)"

fun find_loop :: "nat \<Rightarrow> mem32 \<Rightarrow> u32 \<Rightarrow> u32 \<Rightarrow> bytes \<Rightarrow> nat \<Rightarrow> u32 option" where
  "find_loop fuel m p lim name 0 = Some 0"
| "find_loop fuel m p lim name (Suc k) =
    (if node_has_name m p lim name then Some p
     else case skip_node fuel m p lim of
       None \<Rightarrow> None
     | Some q \<Rightarrow> if q = 0 then Some 0 else find_loop fuel m q lim name k)"

definition find_child_by_name :: "nat \<Rightarrow> mem32 \<Rightarrow> u32 \<Rightarrow> u32 \<Rightarrow> bytes \<Rightarrow> u32 option" where
  "find_child_by_name fuel m node lim name =
    (if node + 8 > lim then Some 0
     else case find_skip m (node + 8) lim (unat (ld32 m node)) of
       None \<Rightarrow> Some 0
     | Some p \<Rightarrow> find_loop fuel m p lim name (unat (ld32 m (node + 4))))"

text \<open>A NULL \<open>node\<close> argument (0) stands for the root.\<close>

definition apple_dt_find_child :: "nat \<Rightarrow> mem32 \<Rightarrow> u32 \<Rightarrow> u32 \<Rightarrow> u32 \<Rightarrow> bytes \<Rightarrow> u32 option" where
  "apple_dt_find_child fuel m dt len node name =
    find_child_by_name fuel m (if node \<noteq> 0 then node else dt) (dt + len) name"

fun prop_loop :: "mem32 \<Rightarrow> u32 \<Rightarrow> u32 \<Rightarrow> bytes \<Rightarrow> nat \<Rightarrow> u32 \<times> u32" where
  "prop_loop m p lim name 0 = (0, 0)"
| "prop_loop m p lim name (Suc k) =
    (if p + 36 > lim then (0, 0)
     else let len = ld32 m (p + 32); p' = p + 36
          in if p' + len > lim then (0, 0)
             else if strcmp m p name = 0 then (p', len)
             else prop_loop m (p' + align4 len) lim name k)"

text \<open>The value's address (0 for none) and \<open>*prop_len\<close>.\<close>

definition apple_dt_get_prop :: "mem32 \<Rightarrow> u32 \<Rightarrow> u32 \<Rightarrow> u32 \<Rightarrow> bytes \<Rightarrow> u32 \<times> u32" where
  "apple_dt_get_prop m dt len node name =
    (let p = (if node \<noteq> 0 then node else dt); lim = dt + len
     in if p + 8 > lim then (0, 0) else prop_loop m (p + 8) lim name (unat (ld32 m p)))"

definition apple_dt_node_child_count :: "mem32 \<Rightarrow> u32 \<Rightarrow> u32 \<Rightarrow> u32 \<Rightarrow> u32" where
  "apple_dt_node_child_count m dt len node =
    (let p = (if node \<noteq> 0 then node else dt)
     in if p + 8 > dt + len then 0 else ld32 m (p + 4))"

definition apple_dt_node_prop_count :: "mem32 \<Rightarrow> u32 \<Rightarrow> u32 \<Rightarrow> u32 \<Rightarrow> u32" where
  "apple_dt_node_prop_count m dt len node =
    (let p = (if node \<noteq> 0 then node else dt)
     in if p + 8 > dt + len then 0 else ld32 m p)"

definition apple_dt_get_u32_prop :: "mem32 \<Rightarrow> u32 \<Rightarrow> u32 \<Rightarrow> u32 \<Rightarrow> bytes \<Rightarrow> u32 \<Rightarrow> u32" where
  "apple_dt_get_u32_prop m dt len node name fallback =
    (let (v, prop_len) = apple_dt_get_prop m dt len node name
     in if v = 0 \<or> prop_len < 4 then fallback else ld32 m v)"

subsection \<open>The self test\<close>

definition dt_expected :: "string list" where
  "dt_expected = [''chosen'', ''defaults'', ''memory'', ''cpus'', ''arm-io'', ''msm8974-io'',
    ''interrupt-controller'', ''timer'', ''iokit-platform-scaffold'', ''msm8974-platform-driver'',
    ''msm8974-interrupt-service'', ''msm8974-timer-service'', ''msm8974-cpu-service'',
    ''msm8974-rejected-driver'', ''iokit-catalog-property-dryrun'', ''stage90-platform-personality'',
    ''stage90-interrupt-personality'', ''stage90-timer-personality'', ''stage90-cpu-personality'',
    ''stage90-rejected-personality'']"

definition expect_child :: "nat \<Rightarrow> mem32 \<Rightarrow> u32 \<Rightarrow> u32 \<Rightarrow> string \<Rightarrow> bool option" where
  "expect_child fuel m root lim name =
    map_option (\<lambda>child. child \<noteq> 0) (find_child_by_name fuel m root lim (str name))"

fun expect_all :: "nat \<Rightarrow> mem32 \<Rightarrow> u32 \<Rightarrow> u32 \<Rightarrow> string list \<Rightarrow> bool option" where
  "expect_all fuel m root lim [] = Some True"
| "expect_all fuel m root lim (s # ss) =
    (case expect_child fuel m root lim s of
       None \<Rightarrow> None
     | Some ok \<Rightarrow> map_option (\<lambda>rest. ok \<and> rest) (expect_all fuel m root lim ss))"

definition apple_dt_selftest_and_log :: "nat \<Rightarrow> mem32 \<Rightarrow> u32 \<Rightarrow> u32 \<Rightarrow> bool option" where
  "apple_dt_selftest_and_log fuel m root len =
    (let lim = root + len
     in if len < 8 then Some False
        else if ld32 m root = 0 \<or> ld32 m (root + 4) < 5 then Some False
        else case skip_node fuel m root lim of
          None \<Rightarrow> None
        | Some after \<Rightarrow> if after \<noteq> lim then Some False else expect_all fuel m root lim dt_expected)"

end
