(* ===== verification/Apple_Dt_Proofs.thy ===== *)
theory Apple_Dt_Proofs
  imports Apple_Dt
begin

text \<open>
  The device tree as data.  \<open>dt_tree\<close> is the tree a flattened buffer stands for and \<open>dt_enc\<close> its
  bytes; the builder writes exactly those bytes or latches its error, and the parser, run on
  them, agrees with the look-ups on the tree.
\<close>

unbundle bit_operations_syntax

subsection \<open>Words and addresses\<close>

abbreviation ptr :: "nat \<Rightarrow> u32" where "ptr \<equiv> word_of_nat"

lemma unat_ptr: "n < 2 ^ 32 \<Longrightarrow> unat (ptr n) = n"
  by (simp add: unat_of_nat)

lemma ptr_less: "a < 2 ^ 32 \<Longrightarrow> b < 2 ^ 32 \<Longrightarrow> (ptr a < ptr b) = (a < b)"
  by (simp add: word_less_nat_alt unat_ptr)

lemma ptr_eq: "a < 2 ^ 32 \<Longrightarrow> b < 2 ^ 32 \<Longrightarrow> (ptr a = ptr b) = (a = b)"
  using unat_ptr by metis

lemma ptr_eq_0: "a < 2 ^ 32 \<Longrightarrow> (ptr a = 0) = (a = 0)"
  using ptr_eq [of a 0] by simp

lemma ptr_pos: "0 < n \<Longrightarrow> n < 2 ^ 32 \<Longrightarrow> ptr n \<noteq> 0"
  by (simp add: ptr_eq_0)

lemma ptr_add: "ptr a + ptr b = ptr (a + b)"
  by simp

definition al4 :: "nat \<Rightarrow> nat" where
  "al4 n = (n + 3) div 4 * 4"

lemma al4_bounds: "n \<le> al4 n" "al4 n < n + 4"
  by (simp_all add: al4_def)

lemma al4_mult [simp]: "4 dvd al4 n"
  by (simp add: al4_def)

lemma align4_ptr:
  assumes "n + 3 < 2 ^ 32"
  shows "align4 (ptr n) = ptr (al4 n)"
proof -
  have m: "(3 :: u32) = mask 2" by (simp add: mask_eq_exp_minus_1)
  have "unat ((ptr n + 3) AND NOT 3) = unat (ptr n + 3) - unat (ptr n + 3) mod 4"
  proof -
    have "(ptr n + 3) AND NOT (mask 2) = (ptr n + 3) - ((ptr n + 3) AND mask 2)"
    proof -
      have "((ptr n + 3) AND NOT (mask 2)) + ((ptr n + 3) AND mask 2) = ptr n + 3"
        by (subst disjunctive_add) (auto simp: bit_simps intro!: bit_word_eqI)
      then show ?thesis by (metis add_diff_cancel_right')
    qed
    moreover have "unat ((ptr n + 3) AND mask 2) = unat (ptr n + 3) mod 4"
      by (simp add: unsigned_and_eq take_bit_eq_mod unat_mod_distrib flip: take_bit_eq_mask)
    moreover have "(ptr n + 3) AND mask 2 \<le> ptr n + 3" by (rule word_and_le2)
    ultimately show ?thesis unfolding m by (simp add: unat_sub)
  qed
  moreover have "unat (ptr n + 3) = n + 3"
    using assms unat_ptr [of "n + 3"] by (simp add: add.commute)
  moreover have "n + 3 - (n + 3) mod 4 = al4 n"
    by (simp add: al4_def minus_mod_eq_div_mult)
  ultimately have "unat (align4 (ptr n)) = al4 n" by (simp add: align4_def)
  moreover have "al4 n < 2 ^ 32" using al4_bounds(2) [of n] assms by linarith
  ultimately show ?thesis by (simp add: word_unat_eq_iff unat_of_nat)
qed

lemma le32_length [simp]: "length (le32 w) = 4"
  by (simp add: le32_def)

text \<open>Bytes at an address of the flat memory, not crossing its end.\<close>

definition mem_has :: "mem32 \<Rightarrow> nat \<Rightarrow> bytes \<Rightarrow> bool" where
  "mem_has m a bs \<longleftrightarrow> a + length bs < 2 ^ 32 \<and> (\<forall>i < length bs. m (ptr (a + i)) = bs ! i)"

lemma mem_has_append:
  "mem_has m a (xs @ ys) \<longleftrightarrow> mem_has m a xs \<and> mem_has m (a + length xs) ys"
proof
  assume *: "mem_has m a (xs @ ys)"
  have "m (ptr (a + length xs + i)) = ys ! i" if "i < length ys" for i
  proof -
    have "m (ptr (a + (length xs + i))) = (xs @ ys) ! (length xs + i)"
      using * that unfolding mem_has_def by (metis length_append nat_add_left_cancel_less)
    then show ?thesis by (simp add: add.assoc)
  qed
  moreover have "m (ptr (a + i)) = xs ! i" if "i < length xs" for i
    using * that unfolding mem_has_def by (metis length_append nth_append trans_less_add1)
  ultimately show "mem_has m a xs \<and> mem_has m (a + length xs) ys"
    using * by (simp add: mem_has_def)
next
  assume *: "mem_has m a xs \<and> mem_has m (a + length xs) ys"
  have "m (ptr (a + i)) = (xs @ ys) ! i" if i: "i < length xs + length ys" for i
  proof (cases "i < length xs")
    case True
    then show ?thesis using * by (simp add: mem_has_def nth_append)
  next
    case False
    then have "m (ptr (a + length xs + (i - length xs))) = ys ! (i - length xs)"
      using * i unfolding mem_has_def by (metis less_diff_conv2 not_less add.commute)
    then show ?thesis using False by (simp add: nth_append)
  qed
  then show "mem_has m a (xs @ ys)" using * by (simp add: mem_has_def)
qed

lemma mem_has_Cons: "mem_has m a (x # xs) \<longleftrightarrow> m (ptr a) = x \<and> mem_has m (Suc a) xs \<and> Suc a < 2 ^ 32"
  using mem_has_append [of m a "[x]" xs] by (auto simp: mem_has_def)

lemma ld32_le32:
  assumes "mem_has m a (le32 w)"
  shows "ld32 m (ptr a) = w"
proof -
  have b: "m (ptr a) = ucast w" "m (ptr a + 1) = ucast (drop_bit 8 w)"
    "m (ptr a + 2) = ucast (drop_bit 16 w)" "m (ptr a + 3) = ucast (drop_bit 24 w)"
    using assms by (simp_all add: mem_has_Cons le32_def algebra_simps)
  show ?thesis
    unfolding ld32_def b
  proof (rule bit_word_eqI)
    fix n assume "n < LENGTH(32)"
    then consider "n < 8" | "8 \<le> n" "n < 16" | "16 \<le> n" "n < 24" | "24 \<le> n" "n < 32"
      by (simp add: not_less) linarith
    then show "bit ((ucast (ucast w :: u8) :: u32) OR push_bit 8 (ucast (ucast (drop_bit 8 w) :: u8)) OR
      push_bit 16 (ucast (ucast (drop_bit 16 w) :: u8)) OR push_bit 24 (ucast (ucast (drop_bit 24 w) :: u8))) n = bit w n"
      by cases (auto simp: bit_simps)
  qed
qed

lemma strcmp_zero:
  assumes "mem_has m a v" and "0 \<in> set v" and "0 \<notin> set s"
  shows "strcmp m (ptr a) s = 0 \<longleftrightarrow> takeWhile (\<lambda>x. x \<noteq> 0) v = s"
  using assms
proof (induction s arbitrary: a v)
  case Nil
  then obtain x xs where v: "v = x # xs" by (cases v) auto
  then show ?case using Nil by (auto simp: mem_has_Cons uint_0_iff)
next
  case (Cons c cs)
  obtain x xs where v: "v = x # xs" using Cons.prems(2) by (cases v) auto
  have x: "m (ptr a) = x" "mem_has m (Suc a) xs" using Cons.prems(1) v by (simp_all add: mem_has_Cons)
  have c: "c \<noteq> 0" "0 \<notin> set cs" using Cons.prems(3) by auto
  show ?case
  proof (cases "x = c")
    case True
    then have "0 \<in> set xs" using Cons.prems(2) c v by auto
    moreover have "ptr (Suc a) = ptr a + 1" by simp
    ultimately show ?thesis using Cons.IH [OF x(2) _ c(2)] True c x v by (simp del: of_nat_Suc)
  next
    case False
    then have "uint x - uint c \<noteq> 0" by (simp add: word_uint_eq_iff)
    then show ?thesis using False x v by auto
  qed
qed


subsection \<open>Trees and their bytes\<close>

datatype dt_tree = Dt_Node (dt_props: "(bytes \<times> bytes) list") (dt_kids: "dt_tree list")

definition enc_prop :: "bytes \<times> bytes \<Rightarrow> bytes" where
  "enc_prop p = dt_prop_hdr (fst p) (ptr (length (snd p))) @ snd p @ replicate (al4 (length (snd p)) - length (snd p)) 0"

fun dt_enc :: "dt_tree \<Rightarrow> bytes" where
  "dt_enc (Dt_Node ps cs) = le32 (ptr (length ps)) @ le32 (ptr (length cs))
     @ concat (map enc_prop ps) @ concat (map dt_enc cs)"

fun dt_depth :: "dt_tree \<Rightarrow> nat" where
  "dt_depth (Dt_Node ps cs) = Suc (fold max (map dt_depth cs) 0)"

abbreviation cstr :: "bytes \<Rightarrow> bytes" where
  "cstr \<equiv> takeWhile (\<lambda>x. x \<noteq> 0)"

text \<open>A node has a name if one of its properties called \<open>name\<close> holds that C string.\<close>

definition dt_named :: "dt_tree \<Rightarrow> bytes \<Rightarrow> bool" where
  "dt_named t s \<longleftrightarrow> (\<exists>(k, v) \<in> set (dt_props t). take 31 k = str ''name'' \<and> cstr v = s)"

fun dt_wf :: "dt_tree \<Rightarrow> bool" where
  "dt_wf (Dt_Node ps cs) \<longleftrightarrow> (\<forall>(k, v) \<in> set ps. 0 \<notin> set k \<and> (take 31 k = str ''name'' \<longrightarrow> 0 \<in> set v))
     \<and> (\<forall>c \<in> set cs. dt_wf c)"

lemma hdr_length [simp]: "length (dt_prop_hdr k len) = 36"
  by (simp add: dt_prop_hdr_def)

lemma enc_prop_length: "length (enc_prop p) = 36 + al4 (length (snd p))"
  using al4_bounds(1) [of "length (snd p)"] by (simp add: enc_prop_def)

lemma dt_enc_length: "8 \<le> length (dt_enc t)"
  by (cases t) simp

lemma enc_props_count: "length ps \<le> length (concat (map enc_prop ps))"
  by (induction ps) (simp_all add: enc_prop_length)

lemma enc_kids_count: "length cs \<le> length (concat (map dt_enc cs))"
proof (induction cs)
  case (Cons c cs)
  then show ?case using dt_enc_length [of c] by simp
qed simp

text \<open>What a property in memory looks like to the parser.\<close>

lemma prop_in_memory:
  assumes "mem_has m n (enc_prop (k, v))"
  shows "ld32 m (ptr (n + 32)) = ptr (length v)" and "mem_has m (n + 36) v"
    and "0 \<notin> set k \<Longrightarrow> 0 \<notin> set s \<Longrightarrow> strcmp m (ptr n) s = 0 \<longleftrightarrow> take 31 k = s"
    and "n + 36 + al4 (length v) < 2 ^ 32"
    and "align4 (ptr (length v)) = ptr (al4 (length v))"
proof -
  let ?f = "take 31 k @ replicate (32 - length (take 31 k)) 0"
  have len: "length ?f = 32" by simp
  have parts: "mem_has m n ?f" "mem_has m (n + 32) (le32 (ptr (length v)))" "mem_has m (n + 36) v"
    using assms by (simp_all add: enc_prop_def dt_prop_hdr_def mem_has_append add.assoc)
  show "ld32 m (ptr (n + 32)) = ptr (length v)" by (rule ld32_le32 [OF parts(2)])
  show "mem_has m (n + 36) v" by (rule parts(3))
  show lim: "n + 36 + al4 (length v) < 2 ^ 32"
    using assms enc_prop_length [of "(k, v)"] by (simp add: mem_has_def)
  then show "align4 (ptr (length v)) = ptr (al4 (length v))"
    using al4_bounds(1) [of "length v"] by (intro align4_ptr) linarith
  assume "0 \<notin> set k" "0 \<notin> set s"
  moreover from this have "cstr ?f = take 31 k"
    by (subst takeWhile_append2) (auto dest: in_set_takeD)
  moreover have "0 \<in> set ?f" by simp
  ultimately show "strcmp m (ptr n) s = 0 \<longleftrightarrow> take 31 k = s"
    using strcmp_zero [OF parts(1)] by metis
qed

lemma node_in_memory:
  assumes "mem_has m n (dt_enc (Dt_Node ps cs))"
  shows "ld32 m (ptr n) = ptr (length ps)" "ld32 m (ptr (n + 4)) = ptr (length cs)"
    "unat (ptr (length ps)) = length ps" "unat (ptr (length cs)) = length cs"
    "mem_has m (n + 8) (concat (map enc_prop ps))"
    "mem_has m (n + 8 + length (concat (map enc_prop ps))) (concat (map dt_enc cs))"
    "n + 8 + length (concat (map enc_prop ps)) + length (concat (map dt_enc cs)) < 2 ^ 32"
proof -
  have parts: "mem_has m n (le32 (ptr (length ps)))" "mem_has m (n + 4) (le32 (ptr (length cs)))"
    "mem_has m (n + 8) (concat (map enc_prop ps))"
    "mem_has m (n + 8 + length (concat (map enc_prop ps))) (concat (map dt_enc cs))"
    using assms by (simp_all add: mem_has_append add.assoc)
  show "ld32 m (ptr n) = ptr (length ps)" "ld32 m (ptr (n + 4)) = ptr (length cs)"
    using ld32_le32 parts(1,2) by blast+
  show "mem_has m (n + 8) (concat (map enc_prop ps))"
    "mem_has m (n + 8 + length (concat (map enc_prop ps))) (concat (map dt_enc cs))"
    by (rule parts)+
  show lim: "n + 8 + length (concat (map enc_prop ps)) + length (concat (map dt_enc cs)) < 2 ^ 32"
    using parts(4) by (simp add: mem_has_def)
  show "unat (ptr (length ps)) = length ps" "unat (ptr (length cs)) = length cs"
    using enc_props_count [of ps] enc_kids_count [of cs] lim by (intro unat_ptr; linarith)+
qed

subsection \<open>The parser on an encoded tree\<close>

lemma ptr_gt: "b < 2 ^ 32 \<Longrightarrow> a \<le> b \<Longrightarrow> \<not> ptr a > ptr b"
  by (simp add: ptr_less)

lemma ptr_plus: "ptr a + 4 = ptr (a + 4)" "ptr a + 8 = ptr (a + 8)" "ptr a + 32 = ptr (a + 32)" "ptr a + 36 = ptr (a + 36)"
  by simp_all

lemmas dt_ptr = ptr_plus ptr_add

lemma prop_step:
  assumes "mem_has m n (enc_prop (k, v) @ rest)" and "n + length (enc_prop (k, v)) + length rest \<le> E" and "E < 2 ^ 32"
  shows "\<not> ptr n + 36 > ptr E" "ld32 m (ptr n + 32) = ptr (length v)" "\<not> ptr n + 36 + ptr (length v) > ptr E"
    "ptr n + 36 + align4 (ptr (length v)) = ptr (n + length (enc_prop (k, v)))"
    "mem_has m (n + length (enc_prop (k, v))) rest" "mem_has m n (enc_prop (k, v))"
proof -
  have parts: "mem_has m n (enc_prop (k, v))" "mem_has m (n + length (enc_prop (k, v))) rest"
    using assms(1) by (simp_all add: mem_has_append)
  note P = prop_in_memory [OF parts(1)]
  have len: "length (enc_prop (k, v)) = 36 + al4 (length v)" by (simp add: enc_prop_length)
  have b: "n + 36 \<le> E" "n + 36 + length v \<le> E"
    using assms(2) al4_bounds(1) [of "length v"] unfolding len by linarith+
  show "\<not> ptr n + 36 > ptr E" unfolding dt_ptr by (rule ptr_gt [OF assms(3) b(1)])
  show "\<not> ptr n + 36 + ptr (length v) > ptr E" unfolding dt_ptr by (rule ptr_gt [OF assms(3) b(2)])
  show "ld32 m (ptr n + 32) = ptr (length v)" unfolding dt_ptr by (rule P(1))
  show "ptr n + 36 + align4 (ptr (length v)) = ptr (n + length (enc_prop (k, v)))"
    unfolding P(5) len dt_ptr by (simp only: add.assoc)
  show "mem_has m (n + length (enc_prop (k, v))) rest" "mem_has m n (enc_prop (k, v))" by (rule parts)+
qed

lemma skip_props_enc:
  assumes "mem_has m n (concat (map enc_prop ps))" and "n + length (concat (map enc_prop ps)) \<le> E" and "E < 2 ^ 32"
  shows "skip_props m (ptr n) (ptr E) (length ps) = Some (ptr (n + length (concat (map enc_prop ps))))"
  using assms(1,2)
proof (induction ps arbitrary: n)
  case (Cons p ps)
  obtain k v where p: "p = (k, v)" by fastforce
  let ?l = "length (enc_prop (k, v))"
  have mem: "mem_has m n (enc_prop (k, v) @ concat (map enc_prop ps))" using Cons.prems(1) p by simp
  have bound: "n + ?l + length (concat (map enc_prop ps)) \<le> E" using Cons.prems(2) p by simp
  note S = prop_step [OF mem bound assms(3)]
  have "skip_props m (ptr n) (ptr E) (Suc (length ps)) = skip_props m (ptr (n + ?l)) (ptr E) (length ps)"
    unfolding skip_props.simps Let_def S(2,4) using S(1,3) by (simp only: if_False)
  also have "\<dots> = Some (ptr (n + ?l + length (concat (map enc_prop ps))))"
    using Cons.IH [OF S(5) bound] .
  finally show ?case using p by (simp add: add.assoc)
qed simp

lemma find_skip_enc:
  assumes "mem_has m n (concat (map enc_prop ps))" and "n + length (concat (map enc_prop ps)) \<le> E" and "E < 2 ^ 32"
  shows "find_skip m (ptr n) (ptr E) (length ps) = Some (ptr (n + length (concat (map enc_prop ps))))"
  using assms(1,2)
proof (induction ps arbitrary: n)
  case (Cons p ps)
  obtain k v where p: "p = (k, v)" by fastforce
  let ?l = "length (enc_prop (k, v))"
  have mem: "mem_has m n (enc_prop (k, v) @ concat (map enc_prop ps))" using Cons.prems(1) p by simp
  have bound: "n + ?l + length (concat (map enc_prop ps)) \<le> E" using Cons.prems(2) p by simp
  note S = prop_step [OF mem bound assms(3)]
  have "find_skip m (ptr n) (ptr E) (Suc (length ps)) = find_skip m (ptr (n + ?l)) (ptr E) (length ps)"
    unfolding find_skip.simps S(2) using S(1,4) by (simp only: if_False add.assoc)
  also have "\<dots> = Some (ptr (n + ?l + length (concat (map enc_prop ps))))"
    using Cons.IH [OF S(5) bound] .
  finally show ?case using p by (simp add: add.assoc)
qed simp

lemma name_loop_enc:
  assumes "mem_has m n (concat (map enc_prop ps))" and "n + length (concat (map enc_prop ps)) \<le> E" and "E < 2 ^ 32"
    and "\<forall>(k, v) \<in> set ps. 0 \<notin> set k \<and> (take 31 k = str ''name'' \<longrightarrow> 0 \<in> set v)" and "0 \<notin> set s"
  shows "name_loop m (ptr n) (ptr E) s (length ps) = (\<exists>(k, v) \<in> set ps. take 31 k = str ''name'' \<and> cstr v = s)"
  using assms(1,2,4)
proof (induction ps arbitrary: n)
  case (Cons p ps)
  obtain k v where p: "p = (k, v)" by fastforce
  let ?l = "length (enc_prop (k, v))"
  have mem: "mem_has m n (enc_prop (k, v) @ concat (map enc_prop ps))" using Cons.prems(1) p by simp
  have bound: "n + ?l + length (concat (map enc_prop ps)) \<le> E" using Cons.prems(2) p by simp
  note S = prop_step [OF mem bound assms(3)]
  have k: "0 \<notin> set k" "take 31 k = str ''name'' \<Longrightarrow> 0 \<in> set v" using Cons.prems(3) p by auto
  have nm: "0 \<notin> set (str ''name'')" by (simp add: str_def)
  have key: "strcmp m (ptr n) (str ''name'') = 0 \<longleftrightarrow> take 31 k = str ''name''"
    by (rule prop_in_memory(3) [OF S(6) k(1) nm])
  have val: "ptr (length v) > 0 \<and> strcmp m (ptr n + 36) s = 0 \<longleftrightarrow> cstr v = s" if "0 \<in> set v"
  proof -
    have "length v < 2 ^ 32" using bound assms(3) al4_bounds(1) [of "length v"] by (simp add: enc_prop_length)
    then have "ptr (length v) \<noteq> 0" using that by (auto simp: ptr_eq_0)
    then have "ptr (length v) > 0" by (simp add: word_neq_0_conv)
    then show ?thesis
      unfolding dt_ptr using strcmp_zero [OF prop_in_memory(2) [OF S(6)] that assms(5)] by simp
  qed
  have "name_loop m (ptr n) (ptr E) s (Suc (length ps)) =
      (take 31 k = str ''name'' \<and> cstr v = s \<or> name_loop m (ptr (n + ?l)) (ptr E) s (length ps))"
    unfolding name_loop.simps Let_def S(2,4) key if_not_P [OF S(1)] if_not_P [OF S(3)]
    using val k(2) by auto
  also have "name_loop m (ptr (n + ?l)) (ptr E) s (length ps) = (\<exists>(k, v) \<in> set ps. take 31 k = str ''name'' \<and> cstr v = s)"
    using Cons.IH [OF S(5) bound] Cons.prems(3) by simp
  finally show ?case using p by simp
qed simp

text \<open>The first property with a name, as \<open>apple_dt_get_prop\<close> finds it: the offset of its value.\<close>

fun dt_lookup :: "(bytes \<times> bytes) list \<Rightarrow> nat \<Rightarrow> bytes \<Rightarrow> (nat \<times> bytes) option" where
  "dt_lookup [] n s = None"
| "dt_lookup (p # ps) n s = (if take 31 (fst p) = s then Some (n + 36, snd p) else dt_lookup ps (n + length (enc_prop p)) s)"

lemma prop_loop_enc:
  assumes "mem_has m n (concat (map enc_prop ps))" and "n + length (concat (map enc_prop ps)) \<le> E" and "E < 2 ^ 32"
    and "\<forall>(k, v) \<in> set ps. 0 \<notin> set k" and "0 \<notin> set s"
  shows "prop_loop m (ptr n) (ptr E) s (length ps) =
    (case dt_lookup ps n s of None \<Rightarrow> (0, 0) | Some (a, v) \<Rightarrow> (ptr a, ptr (length v)))
    \<and> (\<forall>a v. dt_lookup ps n s = Some (a, v) \<longrightarrow> mem_has m a v)"
  using assms(1,2,4)
proof (induction ps arbitrary: n)
  case (Cons p ps)
  obtain k v where p: "p = (k, v)" by fastforce
  let ?l = "length (enc_prop (k, v))"
  have mem: "mem_has m n (enc_prop (k, v) @ concat (map enc_prop ps))" using Cons.prems(1) p by simp
  have bound: "n + ?l + length (concat (map enc_prop ps)) \<le> E" using Cons.prems(2) p by simp
  note S = prop_step [OF mem bound assms(3)]
  have "0 \<notin> set k" using Cons.prems(3) p by auto
  then have key: "strcmp m (ptr n) s = 0 \<longleftrightarrow> take 31 k = s"
    using prop_in_memory(3) [OF S(6)] assms(5) by blast
  have step: "prop_loop m (ptr n) (ptr E) s (Suc (length ps)) =
      (if take 31 k = s then (ptr (n + 36), ptr (length v)) else prop_loop m (ptr (n + ?l)) (ptr E) s (length ps))"
    unfolding prop_loop.simps Let_def S(2,4) key if_not_P [OF S(1)] if_not_P [OF S(3)] by simp
  show ?case
    using Cons.IH [OF S(5) bound] Cons.prems(3) prop_in_memory(2) [OF S(6)]
    unfolding p list.size add_Suc_right add_0_right step by auto
qed simp

lemma fold_max_base: "b \<le> fold max xs b" for b :: nat
proof (induction xs arbitrary: b)
  case (Cons a xs)
  have "b \<le> max a b" by (rule max.cobounded2)
  also have "\<dots> \<le> fold max xs (max a b)" by (rule Cons.IH)
  finally show ?case by (simp only: fold_simps)
qed simp

lemma fold_max_ge: "x \<in> set xs \<Longrightarrow> x \<le> fold max xs b" for x b :: nat
proof (induction xs arbitrary: b)
  case (Cons a xs)
  show ?case
  proof (cases "x = a")
    case True
    have "a \<le> max a b" by (rule max.cobounded1)
    also have "\<dots> \<le> fold max xs (max a b)" by (rule fold_max_base)
    finally show ?thesis using True by (simp only: fold_simps)
  next
    case False
    then have "x \<in> set xs" using Cons.prems by simp
    then show ?thesis unfolding fold_simps by (rule Cons.IH)
  qed
qed simp

lemma dt_depth_kid:
  assumes "dt_depth (Dt_Node ps cs) \<le> Suc f" and "c \<in> set cs"
  shows "dt_depth c \<le> f"
proof -
  have "dt_depth c \<le> fold max (map dt_depth cs) 0" using assms(2) by (intro fold_max_ge) simp
  then show ?thesis using assms(1) by simp
qed

lemma skip_node_enc:
  assumes "mem_has m n (dt_enc t)" and "n + length (dt_enc t) \<le> E" and "E < 2 ^ 32" and "dt_depth t \<le> fuel"
  shows "skip_node fuel m (ptr n) (ptr E) = Some (ptr (n + length (dt_enc t)))"
  using assms
proof (induction t arbitrary: n fuel)
  case (Dt_Node ps cs)
  note N = node_in_memory [OF Dt_Node.prems(1)]
  let ?P = "concat (map enc_prop ps)"
  obtain f where f: "fuel = Suc f" using Dt_Node.prems(4) by (cases fuel) simp_all
  have depth: "dt_depth c \<le> f" if "c \<in> set cs" for c
    using dt_depth_kid [OF Dt_Node.prems(4) [unfolded f] that] .
  have kids: "skip_children f m (ptr a) (ptr E) (length ds) = Some (ptr (a + length (concat (map dt_enc ds))))"
    if "set ds \<subseteq> set cs" "mem_has m a (concat (map dt_enc ds))" "a + length (concat (map dt_enc ds)) \<le> E" for ds a
    using that
  proof (induction ds arbitrary: a)
    case (Cons d ds)
    have d: "mem_has m a (dt_enc d)" "mem_has m (a + length (dt_enc d)) (concat (map dt_enc ds))"
      using Cons.prems(2) by (simp_all add: mem_has_append)
    have "skip_node f m (ptr a) (ptr E) = Some (ptr (a + length (dt_enc d)))"
      using Dt_Node.IH [OF _ d(1) _ Dt_Node.prems(3)] Cons.prems depth by simp
    moreover have "ptr (a + length (dt_enc d)) \<noteq> 0"
      using Cons.prems(3) Dt_Node.prems(3) dt_enc_length [of d] by (intro ptr_pos; (linarith | simp))
    ultimately show ?case
      using Cons.IH [OF _ d(2)] Cons.prems by (simp add: add.assoc)
  qed simp
  have e8: "\<not> ptr n + 8 > ptr E"
    unfolding dt_ptr using Dt_Node.prems(2) by (intro ptr_gt [OF Dt_Node.prems(3)]) simp
  have props: "skip_props m (ptr (n + 8)) (ptr E) (length ps) = Some (ptr (n + 8 + length ?P))"
    using Dt_Node.prems(2) by (intro skip_props_enc [OF N(5) _ Dt_Node.prems(3)]) simp
  have "skip_node fuel m (ptr n) (ptr E) = skip_children f m (ptr (n + 8 + length ?P)) (ptr E) (length cs)"
    using e8 unfolding f skip_node.simps dt_ptr N(1,2,3,4) props by simp
  also have "\<dots> = Some (ptr (n + 8 + length ?P + length (concat (map dt_enc cs))))"
    using Dt_Node.prems(2) by (intro kids [OF _ N(6)]) simp_all
  finally show ?case by (simp add: add.assoc)
qed

lemma node_has_name_enc:
  assumes "mem_has m n (dt_enc t)" and "n + length (dt_enc t) \<le> E" and "E < 2 ^ 32" and "dt_wf t" and "0 \<notin> set s"
  shows "node_has_name m (ptr n) (ptr E) s = dt_named t s"
proof (cases t)
  case (Dt_Node ps cs)
  note N = node_in_memory [OF assms(1) [unfolded Dt_Node]]
  have e8: "\<not> ptr n + 8 > ptr E"
    unfolding dt_ptr using assms(2) Dt_Node by (intro ptr_gt [OF assms(3)]) simp
  have "name_loop m (ptr (n + 8)) (ptr E) s (length ps) = (\<exists>(k, v) \<in> set ps. take 31 k = str ''name'' \<and> cstr v = s)"
    using assms(2,4) Dt_Node by (intro name_loop_enc [OF N(5) _ assms(3) _ assms(5)]) simp_all
  then show ?thesis
    using e8 unfolding node_has_name_def dt_ptr N(1,3) dt_named_def Dt_Node by simp
qed

text \<open>The first child with a name.\<close>

fun dt_find :: "dt_tree list \<Rightarrow> nat \<Rightarrow> bytes \<Rightarrow> (nat \<times> dt_tree) option" where
  "dt_find [] n s = None"
| "dt_find (c # cs) n s = (if dt_named c s then Some (n, c) else dt_find cs (n + length (dt_enc c)) s)"

lemma find_loop_enc:
  assumes "mem_has m n (concat (map dt_enc cs))" and "n + length (concat (map dt_enc cs)) \<le> E" and "E < 2 ^ 32"
    and "\<forall>c \<in> set cs. dt_wf c" and "0 \<notin> set s" and "\<forall>c \<in> set cs. dt_depth c \<le> fuel"
  shows "find_loop fuel m (ptr n) (ptr E) s (length cs) =
    Some (case dt_find cs n s of None \<Rightarrow> 0 | Some (a, c) \<Rightarrow> ptr a)"
  using assms(1,2,4,6)
proof (induction cs arbitrary: n)
  case (Cons c cs)
  have c: "mem_has m n (dt_enc c)" "mem_has m (n + length (dt_enc c)) (concat (map dt_enc cs))"
    using Cons.prems(1) by (simp_all add: mem_has_append)
  have bound: "n + length (dt_enc c) \<le> E" "n + length (dt_enc c) + length (concat (map dt_enc cs)) \<le> E"
    using Cons.prems(2) by simp_all
  have named: "node_has_name m (ptr n) (ptr E) s = dt_named c s"
    using Cons.prems(3) by (intro node_has_name_enc [OF c(1) bound(1) assms(3) _ assms(5)]) simp
  have skip: "skip_node fuel m (ptr n) (ptr E) = Some (ptr (n + length (dt_enc c)))"
    using Cons.prems(4) by (intro skip_node_enc [OF c(1) bound(1) assms(3)]) simp
  have nz: "ptr (n + length (dt_enc c)) \<noteq> 0"
    using bound(1) assms(3) dt_enc_length [of c] by (intro ptr_pos; (linarith | simp))
  show ?case
    using Cons.IH [OF c(2) bound(2)] Cons.prems(3,4)
    unfolding list.size add_Suc_right add_0_right find_loop.simps named skip option.case if_not_P [OF nz] by simp
qed simp

definition kids_at :: "nat \<Rightarrow> dt_tree \<Rightarrow> nat" where
  "kids_at n t = n + 8 + length (concat (map enc_prop (dt_props t)))"

lemma find_child_enc:
  assumes "mem_has m n (dt_enc t)" and "n + length (dt_enc t) \<le> E" and "E < 2 ^ 32" and "dt_wf t"
    and "0 \<notin> set s" and "dt_depth t \<le> Suc fuel"
  shows "find_child_by_name fuel m (ptr n) (ptr E) s =
    Some (case dt_find (dt_kids t) (kids_at n t) s of None \<Rightarrow> 0 | Some (a, c) \<Rightarrow> ptr a)"
proof (cases t)
  case (Dt_Node ps cs)
  note N = node_in_memory [OF assms(1) [unfolded Dt_Node]]
  let ?P = "concat (map enc_prop ps)"
  have e8: "\<not> ptr (n + 8) > ptr E"
    using assms(2) Dt_Node by (intro ptr_gt [OF assms(3)]) simp
  have depth: "\<forall>c \<in> set cs. dt_depth c \<le> fuel"
    using dt_depth_kid [OF assms(6) [unfolded Dt_Node]] by blast
  have props: "find_skip m (ptr (n + 8)) (ptr E) (length ps) = Some (ptr (n + 8 + length ?P))"
    using assms(2) Dt_Node by (intro find_skip_enc [OF N(5) _ assms(3)]) simp
  have "find_loop fuel m (ptr (n + 8 + length ?P)) (ptr E) s (length cs) =
      Some (case dt_find cs (n + 8 + length ?P) s of None \<Rightarrow> 0 | Some (a, c) \<Rightarrow> ptr a)"
    using assms(2,4) Dt_Node by (intro find_loop_enc [OF N(6) _ assms(3) _ assms(5) depth]) simp_all
  then show ?thesis
    unfolding find_child_by_name_def dt_ptr N(1,2,3,4) if_not_P [OF e8] props option.case kids_at_def
    by (simp only: Dt_Node dt_tree.sel)
qed

lemma get_prop_enc:
  assumes "mem_has m n (dt_enc t)" and "n + length (dt_enc t) \<le> d + l" and "d + l < 2 ^ 32" and "dt_wf t"
    and "0 \<notin> set s" and "0 < n"
  shows "apple_dt_get_prop m (ptr d) (ptr l) (ptr n) s =
    (case dt_lookup (dt_props t) (n + 8) s of None \<Rightarrow> (0, 0) | Some (a, v) \<Rightarrow> (ptr a, ptr (length v)))
    \<and> (\<forall>a v. dt_lookup (dt_props t) (n + 8) s = Some (a, v) \<longrightarrow> mem_has m a v)"
proof (cases t)
  case (Dt_Node ps cs)
  note N = node_in_memory [OF assms(1) [unfolded Dt_Node]]
  have e8: "\<not> ptr (n + 8) > ptr (d + l)"
    using assms(2) Dt_Node by (intro ptr_gt [OF assms(3)]) simp
  have nz: "ptr n \<noteq> 0" using assms(2,3,6) by (intro ptr_pos) simp_all
  have "prop_loop m (ptr (n + 8)) (ptr (d + l)) s (length ps) =
    (case dt_lookup ps (n + 8) s of None \<Rightarrow> (0, 0) | Some (a, v) \<Rightarrow> (ptr a, ptr (length v)))
    \<and> (\<forall>a v. dt_lookup ps (n + 8) s = Some (a, v) \<longrightarrow> mem_has m a v)"
    using assms(2,4) Dt_Node by (intro prop_loop_enc [OF N(5) _ assms(3) _ assms(5)]) auto
  then show ?thesis
    unfolding apple_dt_get_prop_def Let_def if_P [OF nz] dt_ptr if_not_P [OF e8] N(1,3)
    by (simp add: Dt_Node)
qed

subsection \<open>The builder writes the encoding\<close>

datatype dt_call = Node_Begin u32 u32 | Prop bytes bytes | Prop_Str bytes bytes | Prop_U32 bytes u32
  | Prop_U32_Array bytes "u32 list"

fun dt_do :: "dt_call \<Rightarrow> apple_dt_builder \<Rightarrow> apple_dt_builder" where
  "dt_do (Node_Begin np nc) = apple_dt_node_begin np nc"
| "dt_do (Prop k v) = apple_dt_prop k v"
| "dt_do (Prop_Str k v) = apple_dt_prop_str k v"
| "dt_do (Prop_U32 k w) = apple_dt_prop_u32 k w"
| "dt_do (Prop_U32_Array k ws) = apple_dt_prop_u32_array k ws"

definition dt_run :: "dt_call list \<Rightarrow> apple_dt_builder \<Rightarrow> apple_dt_builder" where
  "dt_run calls b = fold dt_do calls b"

text \<open>The (name, value) pair a property call writes.\<close>

fun call_prop :: "dt_call \<Rightarrow> (bytes \<times> bytes) option" where
  "call_prop (Node_Begin np nc) = None"
| "call_prop (Prop k v) = Some (k, v)"
| "call_prop (Prop_Str k v) = Some (k, v @ [0])"
| "call_prop (Prop_U32 k w) = Some (k, le32 w)"
| "call_prop (Prop_U32_Array k ws) = Some (k, concat (map le32 ws))"

fun call_bytes :: "dt_call \<Rightarrow> bytes" where
  "call_bytes (Node_Begin np nc) = le32 np @ le32 nc"
| "call_bytes c = (case call_prop c of Some kv \<Rightarrow> enc_prop kv | None \<Rightarrow> [])"

definition bd_at :: "nat \<Rightarrow> nat \<Rightarrow> apple_dt_builder \<Rightarrow> bool" where
  "bd_at cap n b \<longleftrightarrow> b_error b = 0 \<and> b_pos b = ptr n \<and> n \<le> cap \<and> b_capacity b = ptr cap \<and> length (b_base b) = cap"

lemma splice_splice:
  assumes "n + length xs + length ys \<le> length base"
  shows "splice (n + length xs) ys (splice n xs base) = splice n (xs @ ys) base"
proof (cases "xs = []")
  case True
  then show ?thesis using assms by (simp add: splice_def)
next
  case False
  then have "n < length base" using assms by (cases xs) simp_all
  then show ?thesis using assms by (simp add: splice_def add.assoc add.commute [of "length ys"] min_def)
qed

lemma splice_nil [simp]: "n \<le> length base \<Longrightarrow> splice n [] base = base"
  by (simp add: splice_def)

lemma b_write_at:
  assumes "bd_at cap n b" and "cap < 2 ^ 31" and "length src < 2 ^ 31"
  shows "n + length src \<le> cap \<Longrightarrow> bd_at cap (n + length src) (b_write src b) \<and> b_base (b_write src b) = splice n src (b_base b)"
    and "cap < n + length src \<Longrightarrow> b_error (b_write src b) \<noteq> 0"
proof -
  have lim: "n + length src < 2 ^ 32" using assms by (simp add: bd_at_def)
  have over: "b_pos b + ptr (length src) > b_capacity b \<longleftrightarrow> cap < n + length src"
    using assms lim ptr_less [of cap "n + length src"] by (simp add: bd_at_def)
  have pos: "unat (b_pos b) = n" using assms(1) lim by (simp add: bd_at_def unat_of_nat)
  show "n + length src \<le> cap \<Longrightarrow> bd_at cap (n + length src) (b_write src b) \<and> b_base (b_write src b) = splice n src (b_base b)"
    using assms(1) over pos by (simp add: b_write_def bd_at_def length_splice)
  show "cap < n + length src \<Longrightarrow> b_error (b_write src b) \<noteq> 0"
    using over by (simp add: b_write_def)
qed

lemma b_write_err: "b_error b \<noteq> 0 \<Longrightarrow> b_write src b = b"
  by (simp add: b_write_def)

lemma b_pad4_err: "b_error b \<noteq> 0 \<Longrightarrow> b_pad4 b = b"
  by (simp add: b_pad4_def b_write_err Let_def)

lemma al4_dvd: "4 dvd n \<Longrightarrow> al4 (n + k) = n + al4 k"
proof -
  assume "4 dvd n"
  then obtain j where n: "n = 4 * j" by (auto elim: dvdE)
  have "(4 * j + (k + 3)) div 4 = j + (k + 3) div 4" by simp
  then show ?thesis by (simp add: al4_def n add.assoc add_mult_distrib)
qed

lemma b_pad4_at:
  assumes "bd_at cap n b" and "cap < 2 ^ 31"
  shows "al4 n \<le> cap \<Longrightarrow> bd_at cap (al4 n) (b_pad4 b) \<and> b_base (b_pad4 b) = splice n (replicate (al4 n - n) 0) (b_base b)"
    and "cap < al4 n \<Longrightarrow> b_error (b_pad4 b) \<noteq> 0"
proof -
  have n: "n \<le> cap" "b_pos b = ptr n" using assms(1) by (simp_all add: bd_at_def)
  have aligned: "align4 (ptr n) = ptr (al4 n)"
    using n assms(2) by (simp add: align4_ptr)
  have "cap < 2147483648" using assms(2) by simp
  then have lim: "al4 n < 2 ^ 32" "n < 2 ^ 32" using al4_bounds(2) [of n] n(1) by auto
  have gt: "ptr (al4 n) > ptr n \<longleftrightarrow> n < al4 n" using lim by (simp add: ptr_less)
  have diff: "unat (ptr (al4 n) - ptr n) = al4 n - n"
    using al4_bounds(1) [of n] lim unat_ptr [of "al4 n - n"] by (simp flip: of_nat_diff)
  have zeros: "take (al4 n - n) [0, 0, 0, 0 :: u8] = replicate (al4 n - n) 0"
  proof -
    have "al4 n - n < 4" using al4_bounds(2) [of n] by linarith
    then have "al4 n - n = 0 \<or> al4 n - n = 1 \<or> al4 n - n = 2 \<or> al4 n - n = 3" by linarith
    then show ?thesis by (auto simp: numeral_2_eq_2 numeral_3_eq_3)
  qed
  have eq: "b_pad4 b = (if n < al4 n then b_write (replicate (al4 n - n) 0) b else b)"
    unfolding b_pad4_def Let_def n(2) aligned gt diff zeros by (rule refl)
  have sum: "n + length (replicate (al4 n - n) (0 :: u8)) = al4 n" using al4_bounds(1) [of n] by simp
  have small: "length (replicate (al4 n - n) (0 :: u8)) < 2 ^ 31" using al4_bounds(2) [of n] by simp
  note W = b_write_at [OF assms small, unfolded sum]
  show "al4 n \<le> cap \<Longrightarrow> bd_at cap (al4 n) (b_pad4 b) \<and> b_base (b_pad4 b) = splice n (replicate (al4 n - n) 0) (b_base b)"
    unfolding eq using W(1) assms(1) al4_bounds(1) [of n] by (auto simp: bd_at_def)
  show "cap < al4 n \<Longrightarrow> b_error (b_pad4 b) \<noteq> 0"
    unfolding eq using W(2) n by auto
qed

lemma apple_dt_prop_at:
  assumes "bd_at cap n b" and "cap < 2 ^ 31" and "length v < 2 ^ 31" and "4 dvd n"
  shows "n + length (enc_prop (k, v)) \<le> cap \<Longrightarrow>
      bd_at cap (n + length (enc_prop (k, v))) (apple_dt_prop k v b) \<and> b_base (apple_dt_prop k v b) = splice n (enc_prop (k, v)) (b_base b)"
    and "cap < n + length (enc_prop (k, v)) \<Longrightarrow> b_error (apple_dt_prop k v b) \<noteq> 0"
proof -
  let ?h = "dt_prop_hdr k (ptr (length v))" and ?z = "replicate (al4 (length v) - length v) (0 :: u8)"
  let ?b1 = "b_write ?h b"
  let ?b2 = "b_write v ?b1"
  have h: "length ?h < 2 ^ 31" by simp
  have len: "length (enc_prop (k, v)) = 36 + al4 (length v)" by (simp add: enc_prop_length)
  have "4 dvd n + 36" using assms(4) by simp
  then have al: "al4 (n + 36 + length v) = n + 36 + al4 (length v)" by (rule al4_dvd)
  have eq: "apple_dt_prop k v b = b_pad4 ?b2" by (simp add: apple_dt_prop_def)
  note W1 = b_write_at [OF assms(1,2) h, unfolded hdr_length]
  { assume fit: "n + length (enc_prop (k, v)) \<le> cap"
    then have f: "n + 36 \<le> cap" "n + 36 + length v \<le> cap" "al4 (n + 36 + length v) \<le> cap"
      using al4_bounds(1) [of "length v"] unfolding len al by linarith+
    note b1 = W1(1) [OF f(1)]
    note b2 = b_write_at(1) [OF conjunct1 [OF b1] assms(2,3) f(2)]
    note b3 = b_pad4_at(1) [OF conjunct1 [OF b2] assms(2) f(3)]
    have pad: "al4 (n + 36 + length v) - (n + 36 + length v) = al4 (length v) - length v" unfolding al by simp
    have cap: "length (b_base b) = cap" using assms(1) by (simp add: bd_at_def)
    have "b_base (b_pad4 ?b2) = splice (n + 36 + length v) ?z (splice (n + 36) v (splice n ?h (b_base b)))"
      using b1 b2 b3 pad by simp
    also have "\<dots> = splice n (?h @ v @ ?z) (b_base b)"
    proof -
      have "splice (n + 36) v (splice n ?h (b_base b)) = splice n (?h @ v) (b_base b)"
        using splice_splice [of n ?h v "b_base b"] f(2) cap by simp
      moreover have "splice (n + length (?h @ v)) ?z (splice n (?h @ v) (b_base b)) = splice n ((?h @ v) @ ?z) (b_base b)"
        using f(3) cap al4_bounds(1) [of "length v"] unfolding al by (intro splice_splice) simp
      ultimately show ?thesis by (simp add: add.assoc)
    qed
    finally show "bd_at cap (n + length (enc_prop (k, v))) (apple_dt_prop k v b) \<and> b_base (apple_dt_prop k v b) = splice n (enc_prop (k, v)) (b_base b)"
      using b3 unfolding eq al len by (simp add: enc_prop_def add.assoc) }
  { assume over: "cap < n + length (enc_prop (k, v))"
    show "b_error (apple_dt_prop k v b) \<noteq> 0"
    proof (cases "n + 36 \<le> cap")
      case False
      then have "b_error ?b1 \<noteq> 0" using W1(2) by simp
      then show ?thesis unfolding eq by (simp add: b_write_err b_pad4_err)
    next
      case True
      note b1 = W1(1) [OF True]
      show ?thesis
      proof (cases "n + 36 + length v \<le> cap")
        case False
        then have "b_error ?b2 \<noteq> 0" using b_write_at(2) [OF conjunct1 [OF b1] assms(2,3)] by simp
        then show ?thesis unfolding eq by (simp add: b_pad4_err)
      next
        case fit2: True
        note b2 = b_write_at(1) [OF conjunct1 [OF b1] assms(2,3) fit2]
        show ?thesis unfolding eq using b_pad4_at(2) [OF conjunct1 [OF b2] assms(2)] over unfolding len al by simp
      qed
    qed }
qed

lemma call_bytes_length: "4 dvd length (call_bytes c)"
proof (cases "call_prop c")
  case None
  then show ?thesis by (cases c) simp_all
next
  case (Some kv)
  then have "call_bytes c = enc_prop kv" by (cases c) simp_all
  moreover have "4 dvd 36 + al4 (length (snd kv))" by (intro dvd_add) simp_all
  ultimately show ?thesis by (simp add: enc_prop_length)
qed

lemma dt_do_at:
  assumes "bd_at cap n b" and "cap < 2 ^ 31" and "length (call_bytes c) < 2 ^ 31" and "4 dvd n"
  shows "n + length (call_bytes c) \<le> cap \<Longrightarrow>
      bd_at cap (n + length (call_bytes c)) (dt_do c b) \<and> b_base (dt_do c b) = splice n (call_bytes c) (b_base b)"
    and "cap < n + length (call_bytes c) \<Longrightarrow> b_error (dt_do c b) \<noteq> 0"
proof -
  have "(n + length (call_bytes c) \<le> cap \<longrightarrow>
      bd_at cap (n + length (call_bytes c)) (dt_do c b) \<and> b_base (dt_do c b) = splice n (call_bytes c) (b_base b))
    \<and> (cap < n + length (call_bytes c) \<longrightarrow> b_error (dt_do c b) \<noteq> 0)"
  proof (cases "call_prop c")
    case None
    then obtain np nc where c: "c = Node_Begin np nc" by (cases c) simp_all
    have "length (le32 np @ le32 nc) < 2 ^ 31" by simp
    then show ?thesis
      using b_write_at [OF assms(1,2)] unfolding c dt_do.simps call_bytes.simps apple_dt_node_begin_def by blast
  next
    case (Some kv)
    obtain k v where kv: "kv = (k, v)" by fastforce
    have c: "call_bytes c = enc_prop (k, v)" "dt_do c b = apple_dt_prop k v b"
      using Some kv
      by (cases c; simp add: apple_dt_prop_str_def apple_dt_prop_u32_def apple_dt_prop_u32_array_def)+
    have "length v < 2 ^ 31"
      using assms(3) al4_bounds(1) [of "length v"] unfolding c enc_prop_length by simp
    then show ?thesis
      unfolding c using apple_dt_prop_at [OF assms(1,2) _ assms(4)] by blast
  qed
  then show "n + length (call_bytes c) \<le> cap \<Longrightarrow>
      bd_at cap (n + length (call_bytes c)) (dt_do c b) \<and> b_base (dt_do c b) = splice n (call_bytes c) (b_base b)"
    and "cap < n + length (call_bytes c) \<Longrightarrow> b_error (dt_do c b) \<noteq> 0"
    by blast+
qed

lemma dt_do_err: "b_error b \<noteq> 0 \<Longrightarrow> b_error (dt_do c b) \<noteq> 0"
  by (cases c) (simp_all add: apple_dt_node_begin_def apple_dt_prop_def apple_dt_prop_str_def apple_dt_prop_u32_def
    apple_dt_prop_u32_array_def b_write_err b_pad4_err)

lemma dt_run_err: "b_error b \<noteq> 0 \<Longrightarrow> b_error (dt_run cs b) \<noteq> 0"
  by (induction cs arbitrary: b) (simp_all add: dt_run_def dt_do_err)

lemma dt_run_at:
  assumes "bd_at cap n b" and "cap < 2 ^ 31" and "\<forall>c \<in> set cs. length (call_bytes c) < 2 ^ 31" and "4 dvd n"
  shows "(n + length (concat (map call_bytes cs)) \<le> cap \<longrightarrow>
      bd_at cap (n + length (concat (map call_bytes cs))) (dt_run cs b) \<and> b_base (dt_run cs b) = splice n (concat (map call_bytes cs)) (b_base b))
    \<and> (cap < n + length (concat (map call_bytes cs)) \<longrightarrow> b_error (dt_run cs b) \<noteq> 0)"
  using assms(1,3,4)
proof (induction cs arbitrary: n b)
  case Nil
  then show ?case by (simp add: dt_run_def bd_at_def)
next
  case (Cons c cs)
  let ?l = "length (call_bytes c)" and ?L = "length (concat (map call_bytes cs))"
  have run: "dt_run (c # cs) b = dt_run cs (dt_do c b)" by (simp add: dt_run_def)
  have l31: "?l < 2 ^ 31" using Cons.prems(2) by simp
  note D = dt_do_at [OF Cons.prems(1) assms(2) l31 Cons.prems(3)]
  show ?case
  proof (cases "n + ?l \<le> cap")
    case True
    note d = D(1) [OF True]
    have "4 dvd n + ?l" using Cons.prems(3) call_bytes_length by (rule dvd_add)
    note IH = Cons.IH [OF conjunct1 [OF d] _ this, unfolded add.assoc]
    have base: "length (b_base b) = cap" using Cons.prems(1) by (simp add: bd_at_def)
    have "splice (n + ?l) (concat (map call_bytes cs)) (splice n (call_bytes c) (b_base b))
      = splice n (call_bytes c @ concat (map call_bytes cs)) (b_base b)" if "n + (?l + ?L) \<le> cap"
      using that base by (intro splice_splice) simp
    then show ?thesis
      using IH Cons.prems(2) d unfolding run by (auto simp: add.assoc)
  next
    case False
    then have "b_error (dt_do c b) \<noteq> 0" using D(2) by simp
    then have "b_error (dt_run (c # cs) b) \<noteq> 0" unfolding run by (rule dt_run_err)
    then show ?thesis using False by simp
  qed
qed

text \<open>The calls that write a tree, properties as plain \<open>apple_dt_prop\<close> calls.\<close>

fun dt_calls :: "dt_tree \<Rightarrow> dt_call list" where
  "dt_calls (Dt_Node ps cs) = Node_Begin (ptr (length ps)) (ptr (length cs))
     # map (\<lambda>(k, v). Prop k v) ps @ concat (map dt_calls cs)"

lemma dt_calls_bytes: "concat (map call_bytes (dt_calls t)) = dt_enc t"
proof (induction t)
  case (Dt_Node ps cs)
  have p: "map (call_bytes \<circ> (\<lambda>(k, v). Prop k v)) ps = map enc_prop ps" by (simp add: case_prod_beta o_def)
  have "concat (map call_bytes (concat (map dt_calls cs))) = concat (map dt_enc cs)"
    using Dt_Node by (induction cs) simp_all
  then show ?case by (simp add: p)
qed

text \<open>Two call sequences that write the same properties are the same to the builder.\<close>

definition dt_builds :: "dt_call list \<Rightarrow> dt_tree \<Rightarrow> bool" where
  "dt_builds cs t \<longleftrightarrow> map call_bytes cs = map call_bytes (dt_calls t)"

lemma concat_call_le: "c \<in> set cs \<Longrightarrow> length (call_bytes c) \<le> length (concat (map call_bytes cs))"
  by (induction cs) auto

lemma dt_finish_spec:
  assumes "concat (map call_bytes cs) = dt_enc t" and "unat cap < 2 ^ 31" and "length (dt_enc t) < 2 ^ 31"
  shows "length (dt_enc t) \<le> unat cap \<Longrightarrow>
      fst (apple_dt_finish (dt_run cs (apple_dt_begin cap))) = ptr (length (dt_enc t))
      \<and> b_base (snd (apple_dt_finish (dt_run cs (apple_dt_begin cap)))) = dt_enc t @ replicate (unat cap - length (dt_enc t)) 0"
    and "unat cap < length (dt_enc t) \<Longrightarrow> fst (apple_dt_finish (dt_run cs (apple_dt_begin cap))) = 0"
proof -
  let ?b = "dt_run cs (apple_dt_begin cap)" and ?L = "length (dt_enc t)"
  have start: "bd_at (unat cap) 0 (apple_dt_begin cap)" by (simp add: bd_at_def apple_dt_begin_def)
  have small: "\<forall>c \<in> set cs. length (call_bytes c) < 2 ^ 31"
    using concat_call_le assms(1,3) le_less_trans by metis
  note R = dt_run_at [OF start assms(2) small, unfolded assms(1) add_0]
  have al: "al4 ?L = ?L"
  proof -
    have "4 dvd length (concat (map call_bytes ds))" for ds
      by (induction ds) (simp_all add: call_bytes_length)
    then have "4 dvd ?L" using assms(1) by metis
    then show ?thesis by (auto simp: al4_def elim!: dvdE)
  qed
  { assume fit: "?L \<le> unat cap"
    have b: "bd_at (unat cap) ?L ?b" "b_base ?b = splice 0 (dt_enc t) (b_base (apple_dt_begin cap))"
      using R fit by simp_all
    note P = b_pad4_at(1) [OF b(1) assms(2), unfolded al, OF fit]
    have "b_base (b_pad4 ?b) = dt_enc t @ replicate (unat cap - ?L) 0"
      using P b(2) fit by (simp add: splice_def apple_dt_begin_def drop_replicate)
    then show "fst (apple_dt_finish ?b) = ptr ?L \<and> b_base (snd (apple_dt_finish ?b)) = dt_enc t @ replicate (unat cap - ?L) 0"
      using P by (simp add: apple_dt_finish_def bd_at_def Let_def) }
  { assume "unat cap < ?L"
    then have "b_error ?b \<noteq> 0" using R by simp
    then show "fst (apple_dt_finish ?b) = 0" by (simp add: apple_dt_finish_def Let_def b_pad4_err) }
qed

text \<open>Look-ups on a tree, with no offsets.\<close>

definition dt_child :: "dt_tree \<Rightarrow> bytes \<Rightarrow> dt_tree option" where
  "dt_child t s = List.find (\<lambda>c. dt_named c s) (dt_kids t)"

definition dt_value :: "dt_tree \<Rightarrow> bytes \<Rightarrow> bytes option" where
  "dt_value t s = map_option snd (List.find (\<lambda>p. take 31 (fst p) = s) (dt_props t))"

lemma dt_find_child: "map_option snd (dt_find cs n s) = List.find (\<lambda>c. dt_named c s) cs"
  by (induction cs n s rule: dt_find.induct) simp_all

lemma dt_lookup_value: "map_option snd (dt_lookup ps n s) = map_option snd (List.find (\<lambda>p. take 31 (fst p) = s) ps)"
  by (induction ps n s rule: dt_lookup.induct) simp_all

lemma dt_find_mem:
  assumes "mem_has m n (concat (map dt_enc cs))" and "dt_find cs n s = Some (a, c)"
  shows "mem_has m a (dt_enc c)" "c \<in> set cs" "n \<le> a" "a + length (dt_enc c) \<le> n + length (concat (map dt_enc cs))"
proof -
  have "mem_has m a (dt_enc c) \<and> c \<in> set cs \<and> n \<le> a \<and> a + length (dt_enc c) \<le> n + length (concat (map dt_enc cs))"
    using assms
  proof (induction cs n s rule: dt_find.induct)
    case (2 d cs n s)
    have d: "mem_has m n (dt_enc d)" "mem_has m (n + length (dt_enc d)) (concat (map dt_enc cs))"
      using 2(2) by (simp_all add: mem_has_append)
    show ?case
    proof (cases "dt_named d s")
      case True
      then show ?thesis using 2(3) d by simp
    next
      case False
      then have "dt_find cs (n + length (dt_enc d)) s = Some (a, c)" using 2(3) by simp
      then show ?thesis using 2(1) [OF False d(2)] by simp
    qed
  qed simp
  then show "mem_has m a (dt_enc c)" "c \<in> set cs" "n \<le> a" "a + length (dt_enc c) \<le> n + length (concat (map dt_enc cs))"
    by blast+
qed

lemma dt_lookup_bound: "dt_lookup ps n s = Some (a, v) \<Longrightarrow> n < a"
  by (induction ps n s rule: dt_lookup.induct) (auto split: if_splits)

end
