(* ===== verification/Dt_Roundtrip.thy ===== *)
theory Dt_Roundtrip
  imports Apple_Dt_Proofs
begin
unbundle bit_operations_syntax

subsection \<open>Properties\<close>

text \<open>Any sequence of builder calls that writes a tree's nodes and properties in order gives
  exactly the tree's encoding followed by the zeros of \<open>apple_dt_begin\<close>, and \<open>apple_dt_finish\<close> its
  length; where the buffer is too small by any amount, the error latches and \<open>apple_dt_finish\<close>
  returns 0.\<close>

theorem dt_builder_exact:
  assumes "dt_builds cs t" and "unat cap < 2 ^ 31" and "length (dt_enc t) < 2 ^ 31"
  shows "if length (dt_enc t) \<le> unat cap
    then fst (apple_dt_finish (dt_run cs (apple_dt_begin cap))) = ptr (length (dt_enc t))
      \<and> b_base (snd (apple_dt_finish (dt_run cs (apple_dt_begin cap)))) = dt_enc t @ replicate (unat cap - length (dt_enc t)) 0
    else fst (apple_dt_finish (dt_run cs (apple_dt_begin cap))) = 0"
proof -
  have "concat (map call_bytes cs) = dt_enc t"
    using assms(1) dt_calls_bytes [of t] by (simp add: dt_builds_def)
  note F = dt_finish_spec [OF this assms(2,3)]
  show ?thesis using F by (cases "length (dt_enc t) \<le> unat cap") simp_all
qed

theorem dt_builder_exact_witness:
  "fst (apple_dt_finish (dt_run [Node_Begin 1 0, Prop_Str (str ''name'') (str ''/'')] (apple_dt_begin 64))) = 48"
proof -
  let ?t = "Dt_Node [(str ''name'', str ''/'' @ [0])] []"
  have "dt_builds [Node_Begin 1 0, Prop_Str (str ''name'') (str ''/'')] ?t" by (simp add: dt_builds_def)
  moreover have "length (dt_enc ?t) = 48" by (simp add: enc_prop_length al4_def str_def)
  ultimately show ?thesis
    using dt_builder_exact [of _ ?t 64] by simp
qed

lemma enc_prop_in: "kv \<in> set ps \<Longrightarrow> length (enc_prop kv) \<le> length (concat (map enc_prop ps))"
  by (induction ps) auto

text \<open>C5. Round trip: on the bytes the builder made of a tree, wherever they are loaded, the walk ends
  at the end of the blob, \<open>apple_dt_find_child\<close> finds the first child with a name exactly if the tree
  has one, and \<open>apple_dt_get_prop\<close> on that child returns the length of the first property with a
  name and an address where its value is, or (0, 0) if the child has none.\<close>

theorem dt_roundtrip:
  assumes "dt_wf t" and "dt_builds cs t" and "unat cap < 2 ^ 31" and "length (dt_enc t) \<le> unat cap"
    and "apple_dt_finish (dt_run cs (apple_dt_begin cap)) = (len, b)"
    and "mem_has m a (take (unat len) (b_base b))" and "0 < a" and "dt_depth t \<le> fuel"
  shows "skip_node fuel m (ptr a) (ptr a + len) = Some (ptr a + len)
    \<and> (\<forall>s. 0 \<notin> set s \<longrightarrow> (case dt_child t s of
          None \<Rightarrow> apple_dt_find_child fuel m (ptr a) len 0 s = Some 0
        | Some c \<Rightarrow> \<exists>p. p \<noteq> 0 \<and> apple_dt_find_child fuel m (ptr a) len 0 s = Some p
            \<and> (\<forall>k. 0 \<notin> set k \<longrightarrow> (case dt_value c k of
                None \<Rightarrow> apple_dt_get_prop m (ptr a) len p k = (0, 0)
              | Some v \<Rightarrow> \<exists>q. q \<noteq> 0 \<and> apple_dt_get_prop m (ptr a) len p k = (q, ptr (length v))
                  \<and> (\<forall>i < length v. m (q + ptr i) = v ! i)))))"
proof -
  let ?L = "length (dt_enc t)"
  have "concat (map call_bytes cs) = dt_enc t"
    using assms(2) dt_calls_bytes [of t] by (simp add: dt_builds_def)
  note F = dt_finish_spec(1) [OF this assms(3) le_less_trans [OF assms(4,3)] assms(4)]
  have len: "len = ptr ?L" and base: "b_base b = dt_enc t @ replicate (unat cap - ?L) 0"
    using F assms(5) by simp_all
  have "?L < 2 ^ 32" using assms(3,4) by simp
  then have "unat len = ?L" unfolding len by (rule unat_ptr)
  then have mem: "mem_has m a (dt_enc t)" using assms(6) base by simp
  have lim: "a + ?L < 2 ^ 32" using mem by (simp add: mem_has_def)
  have E: "ptr a + len = ptr (a + ?L)" by (simp add: len)
  have root: "(if (0 :: u32) \<noteq> 0 then 0 else ptr a) = ptr a" by simp
  have depth: "dt_depth t \<le> Suc fuel" using assms(8) by simp
  have skip: "skip_node fuel m (ptr a) (ptr a + len) = Some (ptr a + len)"
    unfolding E by (rule skip_node_enc [OF mem le_refl lim assms(8)])
  { fix s :: bytes assume s: "0 \<notin> set s"
    have find: "apple_dt_find_child fuel m (ptr a) len 0 s =
        Some (case dt_find (dt_kids t) (kids_at a t) s of None \<Rightarrow> 0 | Some (n, c) \<Rightarrow> ptr n)"
      unfolding apple_dt_find_child_def root E by (rule find_child_enc [OF mem le_refl lim assms(1) s depth])
    have kids: "mem_has m (kids_at a t) (concat (map dt_enc (dt_kids t)))" "a < kids_at a t"
      "kids_at a t + length (concat (map dt_enc (dt_kids t))) = a + ?L"
      using mem node_in_memory(6) [of m a "dt_props t" "dt_kids t"] by (cases t; simp add: kids_at_def)+
    have "case dt_child t s of
          None \<Rightarrow> apple_dt_find_child fuel m (ptr a) len 0 s = Some 0
        | Some c \<Rightarrow> \<exists>p. p \<noteq> 0 \<and> apple_dt_find_child fuel m (ptr a) len 0 s = Some p
            \<and> (\<forall>k. 0 \<notin> set k \<longrightarrow> (case dt_value c k of
                None \<Rightarrow> apple_dt_get_prop m (ptr a) len p k = (0, 0)
              | Some v \<Rightarrow> \<exists>q. q \<noteq> 0 \<and> apple_dt_get_prop m (ptr a) len p k = (q, ptr (length v))
                  \<and> (\<forall>i < length v. m (q + ptr i) = v ! i)))"
    proof (cases "dt_find (dt_kids t) (kids_at a t) s")
      case None
      then have "dt_child t s = None" using dt_find_child [of "dt_kids t" "kids_at a t" s] by (simp add: dt_child_def)
      then show ?thesis using find None by simp
    next
      case (Some nc)
      obtain n c where nc: "nc = (n, c)" by fastforce
      have child: "dt_child t s = Some c"
        using dt_find_child [of "dt_kids t" "kids_at a t" s] Some nc by (simp add: dt_child_def)
      note C = dt_find_mem [OF kids(1) Some [unfolded nc]]
      have pos: "0 < n" using C(3) kids(2) by linarith
      have inside: "n + length (dt_enc c) \<le> a + ?L" using C(4) kids(3) by linarith
      have nz: "ptr n \<noteq> 0" using pos inside lim by (intro ptr_pos) simp_all
      have wf: "dt_wf c" using assms(1) C(2) by (cases t) simp
      have getp: "case dt_value c k of
                None \<Rightarrow> apple_dt_get_prop m (ptr a) len (ptr n) k = (0, 0)
              | Some v \<Rightarrow> \<exists>q. q \<noteq> 0 \<and> apple_dt_get_prop m (ptr a) len (ptr n) k = (q, ptr (length v))
                  \<and> (\<forall>i < length v. m (q + ptr i) = v ! i)" if k: "0 \<notin> set k" for k
      proof -
        note G = get_prop_enc [OF C(1) inside lim wf k pos]
        show ?thesis
        proof (cases "dt_lookup (dt_props c) (n + 8) k")
          case None
          then have "dt_value c k = None" using dt_lookup_value [of "dt_props c" "n + 8" k] by (simp add: dt_value_def)
          then show ?thesis using G None by (simp add: len)
        next
          case (Some av)
          obtain q v where av: "av = (q, v)" by fastforce
          have val: "dt_value c k = Some v"
            using dt_lookup_value [of "dt_props c" "n + 8" k] Some av by (simp add: dt_value_def)
          have qv: "mem_has m q v" using G Some av by simp
          then have "q + length v < 2 ^ 32" by (simp add: mem_has_def)
          moreover have "n + 8 < q" using dt_lookup_bound Some av by blast
          ultimately have "ptr q \<noteq> 0" by (intro ptr_pos) linarith+
          moreover have "\<forall>i < length v. m (ptr q + ptr i) = v ! i" using qv by (simp add: mem_has_def)
          ultimately show ?thesis using G Some av val by (auto simp: len)
        qed
      qed
      have "apple_dt_find_child fuel m (ptr a) len 0 s = Some (ptr n)" using find Some nc by simp
      then show ?thesis using child nz getp by auto
    qed }
  then show ?thesis using skip by blast
qed

text \<open>A memory that holds a byte list at an address and zeros elsewhere.\<close>

definition mem_of :: "nat \<Rightarrow> bytes \<Rightarrow> mem32" where
  "mem_of a bs = (\<lambda>x. if a \<le> unat x \<and> unat x < a + length bs then bs ! (unat x - a) else 0)"

lemma mem_of_has: "a + length bs < 2 ^ 32 \<Longrightarrow> mem_has (mem_of a bs) a bs"
proof -
  assume lim: "a + length bs < 2 ^ 32"
  have "unat (ptr (a + i)) = a + i" if "i < length bs" for i using lim that by (intro unat_ptr) simp
  then show ?thesis using lim by (simp add: mem_has_def mem_of_def del: of_nat_add)
qed

definition demo_tree :: dt_tree where
  "demo_tree = Dt_Node [(str ''name'', str ''/'' @ [0])]
    [Dt_Node [(str ''name'', str ''memory'' @ [0]), (str ''reg'', le32 0x80000000 @ le32 0x1000)] []]"

theorem dt_roundtrip_witness:
  "\<exists>m p q. apple_dt_find_child 2 m 0x1000 (fst (apple_dt_finish (dt_run (dt_calls demo_tree) (apple_dt_begin 256)))) 0 (str ''memory'') = Some p
     \<and> apple_dt_get_prop m 0x1000 (fst (apple_dt_finish (dt_run (dt_calls demo_tree) (apple_dt_begin 256)))) p (str ''reg'') = (q, 8)
     \<and> q \<noteq> 0"
proof -
  let ?f = "apple_dt_finish (dt_run (dt_calls demo_tree) (apple_dt_begin 256))"
  let ?bs = "take (unat (fst ?f)) (b_base (snd ?f))" and ?m = "mem_of 4096 (dt_enc demo_tree)"
  let ?kid = "Dt_Node [(str ''name'', str ''memory'' @ [0]), (str ''reg'', le32 0x80000000 @ le32 0x1000)] []"
  have wf: "dt_wf demo_tree" by (auto simp: demo_tree_def str_def)
  have builds: "dt_builds (dt_calls demo_tree) demo_tree" by (simp add: dt_builds_def)
  have fit: "length (dt_enc demo_tree) \<le> unat (256 :: u32)"
    by (simp add: demo_tree_def enc_prop_length al4_def str_def)
  then have L: "length (dt_enc demo_tree) < 2 ^ 31" by simp
  note F = dt_finish_spec(1) [OF dt_calls_bytes _ L fit]
  have "unat (ptr (length (dt_enc demo_tree))) = length (dt_enc demo_tree)" using L by (intro unat_ptr) simp
  then have bs: "?bs = dt_enc demo_tree" using F by simp
  have "mem_has ?m 4096 ?bs" unfolding bs using fit by (intro mem_of_has) simp
  note R = dt_roundtrip [OF wf builds _ fit surjective_pairing this, of 2]
  have c: "unat (256 :: u32) < 2 ^ 31" "0 < (4096 :: nat)" "dt_depth demo_tree \<le> 2" "ptr 4096 = 4096"
    by (simp_all add: demo_tree_def)
  have child: "dt_child demo_tree (str ''memory'') = Some ?kid"
    by (simp add: dt_child_def demo_tree_def dt_named_def str_def)
  have reg: "dt_value ?kid (str ''reg'') = Some (le32 0x80000000 @ le32 0x1000)"
    by (simp add: dt_value_def str_def)
  have nul: "0 \<notin> set (str ''memory'')" "0 \<notin> set (str ''reg'')" by (simp_all add: str_def)
  note R2 = conjunct2 [OF R [OF c(1,2,3)], unfolded c(4)]
  obtain p where p: "apple_dt_find_child 2 ?m 4096 (fst ?f) 0 (str ''memory'') = Some p"
    and g: "\<forall>k. 0 \<notin> set k \<longrightarrow> (case dt_value ?kid k of
                None \<Rightarrow> apple_dt_get_prop ?m 4096 (fst ?f) p k = (0, 0)
              | Some v \<Rightarrow> \<exists>q. q \<noteq> 0 \<and> apple_dt_get_prop ?m 4096 (fst ?f) p k = (q, ptr (length v))
                  \<and> (\<forall>i < length v. ?m (q + ptr i) = v ! i))"
    using R2 [rule_format, OF nul(1), unfolded child option.case] by blast
  obtain q where "q \<noteq> 0" "apple_dt_get_prop ?m 4096 (fst ?f) p (str ''reg'') = (q, ptr (length (le32 0x80000000 @ le32 0x1000)))"
    using g [rule_format, OF nul(2), unfolded reg option.case] by blast
  then show ?thesis using p by auto
qed

definition dt_loop_mem :: mem32 where
  "dt_loop_mem x = (if x = 0x1000 then 1 else if x = 0x1004 then 5 else if x = 0x1028 then 0xd4
     else if x = 0x1029 \<or> x = 0x102a \<or> x = 0x102b then 0xff else 0)"

text \<open>C37. Finding: the parser's bound checks wrap.  A property length of \<open>0xffffffd4\<close> passes
  \<open>p + ph->length > end\<close> and moves the walk backwards to the node itself, so \<open>skip_node\<close>, and with it
  the self test, recurses without end on this 44-byte blob: no call depth is enough.\<close>

theorem dt_selftest_diverges:
  "apple_dt_selftest_and_log fuel dt_loop_mem 0x1000 0x1000 = None"
proof -
  have w: "ld32 dt_loop_mem 0x1000 = 1" "ld32 dt_loop_mem 0x1004 = 5" "ld32 dt_loop_mem 0x1028 = 0xffffffd4"
    by (simp_all add: ld32_def dt_loop_mem_def push_bit_eq_mult)
  have al: "align4 0xffffffd4 = 0xffffffd4" by (simp add: align4_def)
  have skip: "skip_node f dt_loop_mem 0x1000 0x2000 = None" for f
  proof (induction f)
    case (Suc f)
    have five: "unat (5 :: u32) = Suc 4" by simp
    have one: "unat (1 :: u32) = Suc 0" by simp
    have add: "(0x1000 :: u32) + 8 = 0x1008" "(0x1000 :: u32) + 4 = 0x1004" by simp_all
    have props: "skip_props dt_loop_mem 0x1008 0x2000 (Suc 0) = Some 0x1000"
      using w al by (simp add: Let_def word_less_nat_alt)
    show ?case
      unfolding skip_node.simps add w one five props option.case skip_children.simps Suc.IH
      by (simp add: word_less_nat_alt)
  qed simp
  show ?thesis
    using skip w by (simp add: apple_dt_selftest_and_log_def word_less_nat_alt)
qed

end
