(* ===== verification/Stage90_Tree.thy ===== *)
theory Stage90_Tree
  imports Apple_Dt_Proofs Memory_Regions
begin

text \<open>
  The device tree the payload builds, \<open>build_stage90_apple_dt\<close> of src/src/stage90_main.c: one list of
  builder calls per node, in the order of the C function, with the constants of src/src/stage90.h.
  What the build configuration or the link decides is an argument: the regions switch, the
  real-device-tree switch with the address its debug region gets, the kernel tree's flavour, and
  the RAM disk's address and size.
\<close>

unbundle bit_operations_syntax

subsection \<open>Constants and arrays\<close>

definition STAGE90_APPLE_DT_ROOT_CHILDREN :: u32 where "STAGE90_APPLE_DT_ROOT_CHILDREN = 0x15"

definition STAGE90_XNU_IOKIT_MATCH_EXPECTED_PROBE_SCORE :: u32 where "STAGE90_XNU_IOKIT_MATCH_EXPECTED_PROBE_SCORE = 0x650"

definition STAGE90_XNU_IOKIT_REGISTRY_SERVICE_INTERRUPT_PROBE_SCORE :: u32 where "STAGE90_XNU_IOKIT_REGISTRY_SERVICE_INTERRUPT_PROBE_SCORE = 0x660"

definition STAGE90_XNU_IOKIT_REGISTRY_SERVICE_EXPECTED_IRQ_COUNT_MIN :: u32 where "STAGE90_XNU_IOKIT_REGISTRY_SERVICE_EXPECTED_IRQ_COUNT_MIN = 0x120"

definition STAGE90_XNU_IOKIT_REGISTRY_SERVICE_TIMER_PROBE_SCORE :: u32 where "STAGE90_XNU_IOKIT_REGISTRY_SERVICE_TIMER_PROBE_SCORE = 0x661"

definition STAGE90_XNU_IOKIT_REGISTRY_SERVICE_TIMER_PPI_MASK :: u32 where "STAGE90_XNU_IOKIT_REGISTRY_SERVICE_TIMER_PPI_MASK = 0xc0000"

definition STAGE90_XNU_IOKIT_REGISTRY_SERVICE_CPU_PROBE_SCORE :: u32 where "STAGE90_XNU_IOKIT_REGISTRY_SERVICE_CPU_PROBE_SCORE = 0x662"

definition STAGE90_XNU_IOKIT_CATALOG_PROPERTY_CATALOG_VERSION :: u32 where "STAGE90_XNU_IOKIT_CATALOG_PROPERTY_CATALOG_VERSION = 0x1"

definition STAGE90_XNU_IOKIT_CATALOG_PROPERTY_PERSONALITY_COUNT :: u32 where "STAGE90_XNU_IOKIT_CATALOG_PROPERTY_PERSONALITY_COUNT = 0x5"

definition STAGE90_XNU_IOKIT_REGISTRY_SERVICE_PLATFORM_PROBE_SCORE :: u32 where "STAGE90_XNU_IOKIT_REGISTRY_SERVICE_PLATFORM_PROBE_SCORE = 0x650"

definition STAGE90_XNU_IOKIT_REGISTRY_SERVICE_PLATFORM_BIT :: u32 where "STAGE90_XNU_IOKIT_REGISTRY_SERVICE_PLATFORM_BIT = 0x1"

definition STAGE90_XNU_IOKIT_PROPERTY_INHERITANCE_PLATFORM_ORDINAL :: u32 where "STAGE90_XNU_IOKIT_PROPERTY_INHERITANCE_PLATFORM_ORDINAL = 0x0"

definition STAGE90_XNU_IOKIT_REGISTRY_TOPOLOGY_REJECTED_ORDINAL :: u32 where "STAGE90_XNU_IOKIT_REGISTRY_TOPOLOGY_REJECTED_ORDINAL = 0xffffffff"

definition STAGE90_XNU_IOKIT_REGISTRY_TOPOLOGY_PLATFORM_ORDINAL :: u32 where "STAGE90_XNU_IOKIT_REGISTRY_TOPOLOGY_PLATFORM_ORDINAL = 0x0"

definition STAGE90_XNU_IOKIT_REGISTRY_SERVICE_INTERRUPT_BIT :: u32 where "STAGE90_XNU_IOKIT_REGISTRY_SERVICE_INTERRUPT_BIT = 0x2"

definition STAGE90_XNU_IOKIT_PROPERTY_INHERITANCE_INTERRUPT_ORDINAL :: u32 where "STAGE90_XNU_IOKIT_PROPERTY_INHERITANCE_INTERRUPT_ORDINAL = 0x1"

definition STAGE90_XNU_IOKIT_REGISTRY_TOPOLOGY_INTERRUPT_ORDINAL :: u32 where "STAGE90_XNU_IOKIT_REGISTRY_TOPOLOGY_INTERRUPT_ORDINAL = 0x1"

definition STAGE90_XNU_IOKIT_REGISTRY_SERVICE_TIMER_BIT :: u32 where "STAGE90_XNU_IOKIT_REGISTRY_SERVICE_TIMER_BIT = 0x4"

definition STAGE90_XNU_IOKIT_PROPERTY_INHERITANCE_TIMER_ORDINAL :: u32 where "STAGE90_XNU_IOKIT_PROPERTY_INHERITANCE_TIMER_ORDINAL = 0x2"

definition STAGE90_XNU_IOKIT_REGISTRY_TOPOLOGY_TIMER_ORDINAL :: u32 where "STAGE90_XNU_IOKIT_REGISTRY_TOPOLOGY_TIMER_ORDINAL = 0x2"

definition STAGE90_XNU_IOKIT_REGISTRY_SERVICE_CPU_BIT :: u32 where "STAGE90_XNU_IOKIT_REGISTRY_SERVICE_CPU_BIT = 0x8"

definition STAGE90_XNU_IOKIT_PROPERTY_INHERITANCE_CPU_ORDINAL :: u32 where "STAGE90_XNU_IOKIT_PROPERTY_INHERITANCE_CPU_ORDINAL = 0x3"

definition STAGE90_XNU_IOKIT_REGISTRY_TOPOLOGY_CPU_ORDINAL :: u32 where "STAGE90_XNU_IOKIT_REGISTRY_TOPOLOGY_CPU_ORDINAL = 0x3"

definition STAGE90_XNU_IOKIT_PROPERTY_INHERITANCE_REJECTED_ORDINAL :: u32 where "STAGE90_XNU_IOKIT_PROPERTY_INHERITANCE_REJECTED_ORDINAL = 0xffffffff"

definition RAM_DEVICE_TOTAL :: u32 where "RAM_DEVICE_TOTAL = 0xc0000000"

definition RAM_CONSOLE_SIZE :: u32 where "RAM_CONSOLE_SIZE = 0x200000"

definition RAM_CONSOLE_BASE :: u32 where "RAM_CONSOLE_BASE = 0xde500000"

definition RAM_PHYS_BASE :: u32 where "RAM_PHYS_BASE = 0x80000000"

definition RAM_BOOT_BANK_SIZE :: u32 where "RAM_BOOT_BANK_SIZE = 0x5e500000"

definition gic_reg :: "u32 list" where
  "gic_reg = [0xf9000000, 0x00001000, 0xf9002000, 0x00001000]"

definition timer_reg :: "u32 list" where
  "timer_reg = [0xf9020000, 0x00001000, 0xf9021000, 0x00001000, 0xf9022000, 0x00001000]"

definition timer_frame_intr :: "u32 list" where
  "timer_frame_intr = [0, 8, 4]"

definition ram_console_reg :: "u32 list" where
  "ram_console_reg = [RAM_CONSOLE_BASE, RAM_CONSOLE_SIZE]"

definition io_ranges :: "u32 list" where
  "io_ranges = [0x00000000, 0xf9000000, 0x07000000]"

definition platform_driver_reg :: "u32 list" where
  "platform_driver_reg = [0xf9000000, 0x00001000, 0xf9020000, 0x00001000]"

definition cpu_service_reg :: "u32 list" where
  "cpu_service_reg = [0, 1, 2, 3]"

definition memory_reg :: "bool \<Rightarrow> u32 list" where
  "memory_reg regions =
    (if regions then [RAM_PHYS_BASE, RAM_BOOT_BANK_SIZE, 0x00000000, 0x05a00000,
       0x0d200000, 0x02800000, 0x0ff00000, 0x50100000]
     else [RAM_PHYS_BASE, RAM_BOOT_BANK_SIZE])"

definition STAGE90_BOOT_IDLE_TOKEN :: "bool \<Rightarrow> string" where
  "STAGE90_BOOT_IDLE_TOKEN tree_d13 = (if tree_d13 then [] else '' up_style_idle_exit=1'')"

definition stage90_chosen_random_seed_rule :: bytes where
  "stage90_chosen_random_seed_rule = str ''mi4ios6-cancro-stage90''"

definition build_chosen_random_seed :: "nat \<Rightarrow> bytes" where
  "build_chosen_random_seed len =
    map (\<lambda>i. stage90_chosen_random_seed_rule ! (i mod 22) XOR word_of_nat (i * 31)) [0..<len]"

subsection \<open>The nodes\<close>

abbreviation S :: "string \<Rightarrow> string \<Rightarrow> dt_call" where "S k v \<equiv> Prop_Str (str k) (str v)"
abbreviation W :: "string \<Rightarrow> u32 \<Rightarrow> dt_call" where "W k w \<equiv> Prop_U32 (str k) w"
abbreviation A :: "string \<Rightarrow> u32 list \<Rightarrow> dt_call" where "A k ws \<equiv> Prop_U32_Array (str k) ws"

definition node_root :: "dt_call list" where
  "node_root =
    [Node_Begin 6 STAGE90_APPLE_DT_ROOT_CHILDREN,
     S ''name'' ''/'',
     S ''compatible'' ''qcom,msm8974-xnu-stage90'',
     S ''model'' ''Xiaomi Mi 4 cancro Stage84'',
     S ''target-type'' ''cancro'',
     W ''#address-cells'' 1,
     W ''#size-cells'' 1]"

definition node_device_tree :: "dt_call list" where
  "node_device_tree =
    [Node_Begin 4 0,
     S ''name'' ''device-tree'',
     S ''compatible'' ''qcom,msm8974-xnu-stage90'',
     S ''model'' ''Xiaomi Mi 4 cancro Stage84'',
     S ''target-type'' ''cancro'']"

definition node_iokit_platform_scaffold :: "dt_call list" where
  "node_iokit_platform_scaffold =
    [Node_Begin 6 0,
     S ''name'' ''iokit-platform-scaffold'',
     S ''compatible'' ''apple,iokit-platform-scaffold'',
     S ''IOClass'' ''IOPlatformExpertDevice'',
     S ''IOProviderClass'' ''IODeviceTree:/'',
     S ''device_type'' ''platform'',
     S ''registry-plane'' ''IODeviceTree'']"

definition node_msm8974_platform_driver :: "dt_call list" where
  "node_msm8974_platform_driver =
    [Node_Begin 10 0,
     S ''name'' ''msm8974-platform-driver'',
     S ''compatible'' ''qcom,msm8974-cancro-stage90'',
     S ''IOClass'' ''MSM8974PlatformExpert'',
     S ''IOProviderClass'' ''IOPlatformExpertDevice'',
     S ''IOMatchCategory'' ''Stage84LocalPlatformScaffold'',
     W ''IOProbeScore'' STAGE90_XNU_IOKIT_MATCH_EXPECTED_PROBE_SCORE,
     A ''reg'' platform_driver_reg,
     W ''cpu-count'' 4,
     W ''timebase-frequency'' 19200000,
     W ''stage-owned-local-only'' 1]"

definition node_msm8974_interrupt_service :: "dt_call list" where
  "node_msm8974_interrupt_service =
    [Node_Begin 10 0,
     S ''name'' ''msm8974-interrupt-service'',
     S ''compatible'' ''qcom,msm8974-gic-stage90'',
     S ''IOClass'' ''MSM8974InterruptController'',
     S ''IOProviderClass'' ''IOPlatformExpertDevice'',
     S ''IOMatchCategory'' ''Stage84LocalInterruptService'',
     W ''IOProbeScore'' STAGE90_XNU_IOKIT_REGISTRY_SERVICE_INTERRUPT_PROBE_SCORE,
     A ''reg'' gic_reg,
     W ''irq-count'' STAGE90_XNU_IOKIT_REGISTRY_SERVICE_EXPECTED_IRQ_COUNT_MIN,
     W ''interrupt-controller'' 1,
     W ''stage-owned-local-only'' 1]"

definition node_msm8974_timer_service :: "dt_call list" where
  "node_msm8974_timer_service =
    [Node_Begin 10 0,
     S ''name'' ''msm8974-timer-service'',
     S ''compatible'' ''qcom,msm8974-timer-stage90'',
     S ''IOClass'' ''MSM8974Timer'',
     S ''IOProviderClass'' ''IOPlatformExpertDevice'',
     S ''IOMatchCategory'' ''Stage84LocalTimerService'',
     W ''IOProbeScore'' STAGE90_XNU_IOKIT_REGISTRY_SERVICE_TIMER_PROBE_SCORE,
     A ''reg'' timer_reg,
     W ''frequency'' 19200000,
     W ''timer-ppi-mask'' STAGE90_XNU_IOKIT_REGISTRY_SERVICE_TIMER_PPI_MASK,
     W ''stage-owned-local-only'' 1]"

definition node_msm8974_cpu_service :: "dt_call list" where
  "node_msm8974_cpu_service =
    [Node_Begin 10 0,
     S ''name'' ''msm8974-cpu-service'',
     S ''compatible'' ''qcom,msm8974-cpu-stage90'',
     S ''IOClass'' ''IOCPU'',
     S ''IOProviderClass'' ''IOPlatformExpertDevice'',
     S ''IOMatchCategory'' ''Stage84LocalCPUService'',
     W ''IOProbeScore'' STAGE90_XNU_IOKIT_REGISTRY_SERVICE_CPU_PROBE_SCORE,
     A ''reg'' cpu_service_reg,
     W ''cpu-count'' 4,
     W ''timebase-frequency'' 19200000,
     W ''stage-owned-local-only'' 1]"

definition node_msm8974_rejected_driver :: "dt_call list" where
  "node_msm8974_rejected_driver =
    [Node_Begin 8 0,
     S ''name'' ''msm8974-rejected-driver'',
     S ''compatible'' ''qcom,msm8974-rejected-stage90'',
     S ''IOClass'' ''Stage84RejectedDriver'',
     S ''IOProviderClass'' ''IOUnknownProvider'',
     S ''IOMatchCategory'' ''Stage84RejectedLocalService'',
     W ''IOProbeScore'' 0,
     W ''rejected-candidate'' 1,
     W ''stage-owned-local-only'' 1]"

definition node_iokit_catalog_property_dryrun :: "dt_call list" where
  "node_iokit_catalog_property_dryrun =
    [Node_Begin 6 0,
     S ''name'' ''iokit-catalog-property-dryrun'',
     S ''compatible'' ''apple,iokit-catalog-property-dryrun'',
     S ''IOClass'' ''OSDictionary'',
     W ''catalog-version'' STAGE90_XNU_IOKIT_CATALOG_PROPERTY_CATALOG_VERSION,
     W ''personality-count'' STAGE90_XNU_IOKIT_CATALOG_PROPERTY_PERSONALITY_COUNT,
     W ''stage-owned-local-only'' 1]"

definition node_stage90_platform_personality :: "dt_call list" where
  "node_stage90_platform_personality =
    [Node_Begin 100 0,
     S ''name'' ''stage90-platform-personality'',
     S ''compatible'' ''qcom,msm8974-cancro-stage90'',
     S ''IOClass'' ''MSM8974PlatformExpert'',
     S ''IOProviderClass'' ''IOPlatformExpertDevice'',
     S ''IOMatchCategory'' ''Stage84LocalPlatformScaffold'',
     W ''IOProbeScore'' STAGE90_XNU_IOKIT_REGISTRY_SERVICE_PLATFORM_PROBE_SCORE,
     S ''CFBundleIdentifier'' ''com.mi4ios6.stage90.localcatalog'',
     W ''catalog-property-dryrun'' 1,
     W ''provider-plane-published'' 1,
     W ''source-service-bit'' STAGE90_XNU_IOKIT_REGISTRY_SERVICE_PLATFORM_BIT,
     W ''stage-owned-local-only'' 1,
     W ''registry-entry-dryrun'' 1,
     W ''property-inheritance-dryrun'' 1,
     W ''registry-entry-ordinal'' STAGE90_XNU_IOKIT_PROPERTY_INHERITANCE_PLATFORM_ORDINAL,
     S ''registry-plane'' ''IODeviceTree'',
     W ''attach-deferred'' 1,
     W ''start-deferred'' 1,
     W ''registry-topology-dryrun'' 1,
     S ''registry-parent-path'' ''IODeviceTree:/'',
     S ''registry-entry-path'' ''IODeviceTree:/stage90-platform-personality'',
     W ''registry-parent-ordinal'' STAGE90_XNU_IOKIT_REGISTRY_TOPOLOGY_REJECTED_ORDINAL,
     W ''registry-sibling-order'' STAGE90_XNU_IOKIT_REGISTRY_TOPOLOGY_PLATFORM_ORDINAL,
     S ''registry-topology-provenance'' ''stage90-property-inheritance'',
     W ''attach-start-readiness-dryrun'' 1,
     W ''attach-readiness'' 1,
     W ''start-readiness'' 1,
     W ''attach-runtime-exec'' 0,
     W ''start-runtime-exec'' 0,
     S ''attach-provider-path'' ''IODeviceTree:/'',
     S ''start-provider-path'' ''IODeviceTree:/'',
     W ''attach-provider-ordinal'' STAGE90_XNU_IOKIT_REGISTRY_TOPOLOGY_REJECTED_ORDINAL,
     W ''start-provider-ordinal'' STAGE90_XNU_IOKIT_REGISTRY_TOPOLOGY_REJECTED_ORDINAL,
     W ''attach-order'' STAGE90_XNU_IOKIT_REGISTRY_TOPOLOGY_PLATFORM_ORDINAL,
     W ''start-order'' STAGE90_XNU_IOKIT_REGISTRY_TOPOLOGY_PLATFORM_ORDINAL,
     W ''provider-start-required'' 0,
     S ''attach-start-provenance'' ''stage90-registry-topology'',
     W ''lifecycle-regsvc-dryrun'' 1,
     W ''lifecycle-state-matched'' 1,
     W ''lifecycle-provider-published'' 1,
     W ''lifecycle-registry-linked'' 1,
     W ''lifecycle-topology-linked'' 1,
     W ''register-service-readiness'' 1,
     W ''service-registered'' 1,
     W ''register-service-runtime-exec'' 0,
     W ''notification-ready'' 1,
     W ''notification-runtime-exec'' 0,
     W ''register-service-order'' STAGE90_XNU_IOKIT_REGISTRY_TOPOLOGY_PLATFORM_ORDINAL,
     W ''notification-order'' STAGE90_XNU_IOKIT_REGISTRY_TOPOLOGY_PLATFORM_ORDINAL,
     S ''register-provider-path'' ''IODeviceTree:/'',
     W ''register-provider-ordinal'' STAGE90_XNU_IOKIT_REGISTRY_TOPOLOGY_REJECTED_ORDINAL,
     W ''register-provider-start-req'' 0,
     W ''register-dependency-ready'' 1,
     S ''lifecycle-provenance'' ''stage90-attach-start-readiness'',
     W ''prov-notify-dryrun'' 1,
     W ''prov-notify-ready'' 1,
     W ''interest-ready'' 1,
     W ''interest-runtime-exec'' 0,
     W ''delivery-ready'' 1,
     W ''delivery-runtime-exec'' 0,
     S ''interest-provider-path'' ''IODeviceTree:/'',
     W ''interest-provider-ordinal'' STAGE90_XNU_IOKIT_REGISTRY_TOPOLOGY_REJECTED_ORDINAL,
     W ''interest-type-mask'' STAGE90_XNU_IOKIT_REGISTRY_SERVICE_PLATFORM_BIT,
     W ''expected-notify-mask'' STAGE90_XNU_IOKIT_REGISTRY_SERVICE_PLATFORM_BIT,
     W ''delivered-notify-mask'' STAGE90_XNU_IOKIT_REGISTRY_SERVICE_PLATFORM_BIT,
     W ''interest-order'' STAGE90_XNU_IOKIT_REGISTRY_TOPOLOGY_PLATFORM_ORDINAL,
     W ''delivery-order'' STAGE90_XNU_IOKIT_REGISTRY_TOPOLOGY_PLATFORM_ORDINAL,
     W ''notify-dependency-ready'' 1,
     S ''notify-provenance'' ''stage90-lifecycle-regsvc'',
     W ''prov-callback-dryrun'' 1,
     W ''callback-ready'' 1,
     W ''client-notify-ready'' 1,
     W ''callback-runtime-exec'' 0,
     W ''client-notify-runtime-exec'' 0,
     S ''callback-provider-path'' ''IODeviceTree:/'',
     W ''callback-provider-ordinal'' STAGE90_XNU_IOKIT_REGISTRY_TOPOLOGY_REJECTED_ORDINAL,
     W ''callback-type-mask'' STAGE90_XNU_IOKIT_REGISTRY_SERVICE_PLATFORM_BIT,
     W ''expected-callback-mask'' STAGE90_XNU_IOKIT_REGISTRY_SERVICE_PLATFORM_BIT,
     W ''delivered-callback-mask'' STAGE90_XNU_IOKIT_REGISTRY_SERVICE_PLATFORM_BIT,
     W ''client-ack-mask'' STAGE90_XNU_IOKIT_REGISTRY_SERVICE_PLATFORM_BIT,
     W ''callback-order'' STAGE90_XNU_IOKIT_REGISTRY_TOPOLOGY_PLATFORM_ORDINAL,
     W ''client-notify-order'' STAGE90_XNU_IOKIT_REGISTRY_TOPOLOGY_PLATFORM_ORDINAL,
     W ''callback-dependency-ready'' 1,
     S ''callback-provenance'' ''stage90-provider-notify'',
     W ''client-open-dryrun'' 1,
     W ''client-open-ready'' 1,
     W ''provider-claim-ready'' 1,
     W ''client-close-ready'' 1,
     W ''open-runtime-exec'' 0,
     W ''claim-runtime-exec'' 0,
     W ''close-runtime-exec'' 0,
     S ''open-provider-path'' ''IODeviceTree:/'',
     W ''open-provider-ordinal'' STAGE90_XNU_IOKIT_REGISTRY_TOPOLOGY_REJECTED_ORDINAL,
     W ''open-type-mask'' STAGE90_XNU_IOKIT_REGISTRY_SERVICE_PLATFORM_BIT,
     W ''expected-open-mask'' STAGE90_XNU_IOKIT_REGISTRY_SERVICE_PLATFORM_BIT,
     W ''claimed-open-mask'' STAGE90_XNU_IOKIT_REGISTRY_SERVICE_PLATFORM_BIT,
     W ''client-close-mask'' STAGE90_XNU_IOKIT_REGISTRY_SERVICE_PLATFORM_BIT,
     W ''open-order'' STAGE90_XNU_IOKIT_REGISTRY_TOPOLOGY_PLATFORM_ORDINAL,
     W ''close-order'' STAGE90_XNU_IOKIT_REGISTRY_TOPOLOGY_PLATFORM_ORDINAL,
     W ''open-dependency-ready'' 1,
     S ''open-provenance'' ''stage90-provider-callback'']"

definition node_stage90_interrupt_personality :: "dt_call list" where
  "node_stage90_interrupt_personality =
    [Node_Begin 100 0,
     S ''name'' ''stage90-interrupt-personality'',
     S ''compatible'' ''qcom,msm8974-gic-stage90'',
     S ''IOClass'' ''MSM8974InterruptController'',
     S ''IOProviderClass'' ''IOPlatformExpertDevice'',
     S ''IOMatchCategory'' ''Stage84LocalInterruptService'',
     W ''IOProbeScore'' STAGE90_XNU_IOKIT_REGISTRY_SERVICE_INTERRUPT_PROBE_SCORE,
     S ''CFBundleIdentifier'' ''com.mi4ios6.stage90.localcatalog'',
     W ''catalog-property-dryrun'' 1,
     W ''provider-plane-published'' 1,
     W ''source-service-bit'' STAGE90_XNU_IOKIT_REGISTRY_SERVICE_INTERRUPT_BIT,
     W ''stage-owned-local-only'' 1,
     W ''registry-entry-dryrun'' 1,
     W ''property-inheritance-dryrun'' 1,
     W ''registry-entry-ordinal'' STAGE90_XNU_IOKIT_PROPERTY_INHERITANCE_INTERRUPT_ORDINAL,
     S ''registry-plane'' ''IODeviceTree'',
     W ''attach-deferred'' 1,
     W ''start-deferred'' 1,
     W ''registry-topology-dryrun'' 1,
     S ''registry-parent-path'' ''IODeviceTree:/stage90-platform-personality'',
     S ''registry-entry-path'' ''IODeviceTree:/stage90-interrupt-personality'',
     W ''registry-parent-ordinal'' STAGE90_XNU_IOKIT_REGISTRY_TOPOLOGY_PLATFORM_ORDINAL,
     W ''registry-sibling-order'' STAGE90_XNU_IOKIT_REGISTRY_TOPOLOGY_INTERRUPT_ORDINAL,
     S ''registry-topology-provenance'' ''stage90-property-inheritance'',
     W ''attach-start-readiness-dryrun'' 1,
     W ''attach-readiness'' 1,
     W ''start-readiness'' 1,
     W ''attach-runtime-exec'' 0,
     W ''start-runtime-exec'' 0,
     S ''attach-provider-path'' ''IODeviceTree:/stage90-platform-personality'',
     S ''start-provider-path'' ''IODeviceTree:/stage90-platform-personality'',
     W ''attach-provider-ordinal'' STAGE90_XNU_IOKIT_REGISTRY_TOPOLOGY_PLATFORM_ORDINAL,
     W ''start-provider-ordinal'' STAGE90_XNU_IOKIT_REGISTRY_TOPOLOGY_PLATFORM_ORDINAL,
     W ''attach-order'' STAGE90_XNU_IOKIT_REGISTRY_TOPOLOGY_INTERRUPT_ORDINAL,
     W ''start-order'' STAGE90_XNU_IOKIT_REGISTRY_TOPOLOGY_INTERRUPT_ORDINAL,
     W ''provider-start-required'' 1,
     S ''attach-start-provenance'' ''stage90-registry-topology'',
     W ''lifecycle-regsvc-dryrun'' 1,
     W ''lifecycle-state-matched'' 1,
     W ''lifecycle-provider-published'' 1,
     W ''lifecycle-registry-linked'' 1,
     W ''lifecycle-topology-linked'' 1,
     W ''register-service-readiness'' 1,
     W ''service-registered'' 1,
     W ''register-service-runtime-exec'' 0,
     W ''notification-ready'' 1,
     W ''notification-runtime-exec'' 0,
     W ''register-service-order'' STAGE90_XNU_IOKIT_REGISTRY_TOPOLOGY_INTERRUPT_ORDINAL,
     W ''notification-order'' STAGE90_XNU_IOKIT_REGISTRY_TOPOLOGY_INTERRUPT_ORDINAL,
     S ''register-provider-path'' ''IODeviceTree:/stage90-platform-personality'',
     W ''register-provider-ordinal'' STAGE90_XNU_IOKIT_REGISTRY_TOPOLOGY_PLATFORM_ORDINAL,
     W ''register-provider-start-req'' 1,
     W ''register-dependency-ready'' 1,
     S ''lifecycle-provenance'' ''stage90-attach-start-readiness'',
     W ''prov-notify-dryrun'' 1,
     W ''prov-notify-ready'' 1,
     W ''interest-ready'' 1,
     W ''interest-runtime-exec'' 0,
     W ''delivery-ready'' 1,
     W ''delivery-runtime-exec'' 0,
     S ''interest-provider-path'' ''IODeviceTree:/stage90-platform-personality'',
     W ''interest-provider-ordinal'' STAGE90_XNU_IOKIT_REGISTRY_TOPOLOGY_PLATFORM_ORDINAL,
     W ''interest-type-mask'' STAGE90_XNU_IOKIT_REGISTRY_SERVICE_INTERRUPT_BIT,
     W ''expected-notify-mask'' STAGE90_XNU_IOKIT_REGISTRY_SERVICE_INTERRUPT_BIT,
     W ''delivered-notify-mask'' STAGE90_XNU_IOKIT_REGISTRY_SERVICE_INTERRUPT_BIT,
     W ''interest-order'' STAGE90_XNU_IOKIT_REGISTRY_TOPOLOGY_INTERRUPT_ORDINAL,
     W ''delivery-order'' STAGE90_XNU_IOKIT_REGISTRY_TOPOLOGY_INTERRUPT_ORDINAL,
     W ''notify-dependency-ready'' 1,
     S ''notify-provenance'' ''stage90-lifecycle-regsvc'',
     W ''prov-callback-dryrun'' 1,
     W ''callback-ready'' 1,
     W ''client-notify-ready'' 1,
     W ''callback-runtime-exec'' 0,
     W ''client-notify-runtime-exec'' 0,
     S ''callback-provider-path'' ''IODeviceTree:/stage90-platform-personality'',
     W ''callback-provider-ordinal'' STAGE90_XNU_IOKIT_REGISTRY_TOPOLOGY_PLATFORM_ORDINAL,
     W ''callback-type-mask'' STAGE90_XNU_IOKIT_REGISTRY_SERVICE_INTERRUPT_BIT,
     W ''expected-callback-mask'' STAGE90_XNU_IOKIT_REGISTRY_SERVICE_INTERRUPT_BIT,
     W ''delivered-callback-mask'' STAGE90_XNU_IOKIT_REGISTRY_SERVICE_INTERRUPT_BIT,
     W ''client-ack-mask'' STAGE90_XNU_IOKIT_REGISTRY_SERVICE_INTERRUPT_BIT,
     W ''callback-order'' STAGE90_XNU_IOKIT_REGISTRY_TOPOLOGY_INTERRUPT_ORDINAL,
     W ''client-notify-order'' STAGE90_XNU_IOKIT_REGISTRY_TOPOLOGY_INTERRUPT_ORDINAL,
     W ''callback-dependency-ready'' 1,
     S ''callback-provenance'' ''stage90-provider-notify'',
     W ''client-open-dryrun'' 1,
     W ''client-open-ready'' 1,
     W ''provider-claim-ready'' 1,
     W ''client-close-ready'' 1,
     W ''open-runtime-exec'' 0,
     W ''claim-runtime-exec'' 0,
     W ''close-runtime-exec'' 0,
     S ''open-provider-path'' ''IODeviceTree:/stage90-platform-personality'',
     W ''open-provider-ordinal'' STAGE90_XNU_IOKIT_REGISTRY_TOPOLOGY_PLATFORM_ORDINAL,
     W ''open-type-mask'' STAGE90_XNU_IOKIT_REGISTRY_SERVICE_INTERRUPT_BIT,
     W ''expected-open-mask'' STAGE90_XNU_IOKIT_REGISTRY_SERVICE_INTERRUPT_BIT,
     W ''claimed-open-mask'' STAGE90_XNU_IOKIT_REGISTRY_SERVICE_INTERRUPT_BIT,
     W ''client-close-mask'' STAGE90_XNU_IOKIT_REGISTRY_SERVICE_INTERRUPT_BIT,
     W ''open-order'' STAGE90_XNU_IOKIT_REGISTRY_TOPOLOGY_INTERRUPT_ORDINAL,
     W ''close-order'' STAGE90_XNU_IOKIT_REGISTRY_TOPOLOGY_INTERRUPT_ORDINAL,
     W ''open-dependency-ready'' 1,
     S ''open-provenance'' ''stage90-provider-callback'']"

definition node_stage90_timer_personality :: "dt_call list" where
  "node_stage90_timer_personality =
    [Node_Begin 100 0,
     S ''name'' ''stage90-timer-personality'',
     S ''compatible'' ''qcom,msm8974-timer-stage90'',
     S ''IOClass'' ''MSM8974Timer'',
     S ''IOProviderClass'' ''IOPlatformExpertDevice'',
     S ''IOMatchCategory'' ''Stage84LocalTimerService'',
     W ''IOProbeScore'' STAGE90_XNU_IOKIT_REGISTRY_SERVICE_TIMER_PROBE_SCORE,
     S ''CFBundleIdentifier'' ''com.mi4ios6.stage90.localcatalog'',
     W ''catalog-property-dryrun'' 1,
     W ''provider-plane-published'' 1,
     W ''source-service-bit'' STAGE90_XNU_IOKIT_REGISTRY_SERVICE_TIMER_BIT,
     W ''stage-owned-local-only'' 1,
     W ''registry-entry-dryrun'' 1,
     W ''property-inheritance-dryrun'' 1,
     W ''registry-entry-ordinal'' STAGE90_XNU_IOKIT_PROPERTY_INHERITANCE_TIMER_ORDINAL,
     S ''registry-plane'' ''IODeviceTree'',
     W ''attach-deferred'' 1,
     W ''start-deferred'' 1,
     W ''registry-topology-dryrun'' 1,
     S ''registry-parent-path'' ''IODeviceTree:/stage90-platform-personality'',
     S ''registry-entry-path'' ''IODeviceTree:/stage90-timer-personality'',
     W ''registry-parent-ordinal'' STAGE90_XNU_IOKIT_REGISTRY_TOPOLOGY_PLATFORM_ORDINAL,
     W ''registry-sibling-order'' STAGE90_XNU_IOKIT_REGISTRY_TOPOLOGY_TIMER_ORDINAL,
     S ''registry-topology-provenance'' ''stage90-property-inheritance'',
     W ''attach-start-readiness-dryrun'' 1,
     W ''attach-readiness'' 1,
     W ''start-readiness'' 1,
     W ''attach-runtime-exec'' 0,
     W ''start-runtime-exec'' 0,
     S ''attach-provider-path'' ''IODeviceTree:/stage90-platform-personality'',
     S ''start-provider-path'' ''IODeviceTree:/stage90-platform-personality'',
     W ''attach-provider-ordinal'' STAGE90_XNU_IOKIT_REGISTRY_TOPOLOGY_PLATFORM_ORDINAL,
     W ''start-provider-ordinal'' STAGE90_XNU_IOKIT_REGISTRY_TOPOLOGY_PLATFORM_ORDINAL,
     W ''attach-order'' STAGE90_XNU_IOKIT_REGISTRY_TOPOLOGY_TIMER_ORDINAL,
     W ''start-order'' STAGE90_XNU_IOKIT_REGISTRY_TOPOLOGY_TIMER_ORDINAL,
     W ''provider-start-required'' 1,
     S ''attach-start-provenance'' ''stage90-registry-topology'',
     W ''lifecycle-regsvc-dryrun'' 1,
     W ''lifecycle-state-matched'' 1,
     W ''lifecycle-provider-published'' 1,
     W ''lifecycle-registry-linked'' 1,
     W ''lifecycle-topology-linked'' 1,
     W ''register-service-readiness'' 1,
     W ''service-registered'' 1,
     W ''register-service-runtime-exec'' 0,
     W ''notification-ready'' 1,
     W ''notification-runtime-exec'' 0,
     W ''register-service-order'' STAGE90_XNU_IOKIT_REGISTRY_TOPOLOGY_TIMER_ORDINAL,
     W ''notification-order'' STAGE90_XNU_IOKIT_REGISTRY_TOPOLOGY_TIMER_ORDINAL,
     S ''register-provider-path'' ''IODeviceTree:/stage90-platform-personality'',
     W ''register-provider-ordinal'' STAGE90_XNU_IOKIT_REGISTRY_TOPOLOGY_PLATFORM_ORDINAL,
     W ''register-provider-start-req'' 1,
     W ''register-dependency-ready'' 1,
     S ''lifecycle-provenance'' ''stage90-attach-start-readiness'',
     W ''prov-notify-dryrun'' 1,
     W ''prov-notify-ready'' 1,
     W ''interest-ready'' 1,
     W ''interest-runtime-exec'' 0,
     W ''delivery-ready'' 1,
     W ''delivery-runtime-exec'' 0,
     S ''interest-provider-path'' ''IODeviceTree:/stage90-platform-personality'',
     W ''interest-provider-ordinal'' STAGE90_XNU_IOKIT_REGISTRY_TOPOLOGY_PLATFORM_ORDINAL,
     W ''interest-type-mask'' STAGE90_XNU_IOKIT_REGISTRY_SERVICE_TIMER_BIT,
     W ''expected-notify-mask'' STAGE90_XNU_IOKIT_REGISTRY_SERVICE_TIMER_BIT,
     W ''delivered-notify-mask'' STAGE90_XNU_IOKIT_REGISTRY_SERVICE_TIMER_BIT,
     W ''interest-order'' STAGE90_XNU_IOKIT_REGISTRY_TOPOLOGY_TIMER_ORDINAL,
     W ''delivery-order'' STAGE90_XNU_IOKIT_REGISTRY_TOPOLOGY_TIMER_ORDINAL,
     W ''notify-dependency-ready'' 1,
     S ''notify-provenance'' ''stage90-lifecycle-regsvc'',
     W ''prov-callback-dryrun'' 1,
     W ''callback-ready'' 1,
     W ''client-notify-ready'' 1,
     W ''callback-runtime-exec'' 0,
     W ''client-notify-runtime-exec'' 0,
     S ''callback-provider-path'' ''IODeviceTree:/stage90-platform-personality'',
     W ''callback-provider-ordinal'' STAGE90_XNU_IOKIT_REGISTRY_TOPOLOGY_PLATFORM_ORDINAL,
     W ''callback-type-mask'' STAGE90_XNU_IOKIT_REGISTRY_SERVICE_TIMER_BIT,
     W ''expected-callback-mask'' STAGE90_XNU_IOKIT_REGISTRY_SERVICE_TIMER_BIT,
     W ''delivered-callback-mask'' STAGE90_XNU_IOKIT_REGISTRY_SERVICE_TIMER_BIT,
     W ''client-ack-mask'' STAGE90_XNU_IOKIT_REGISTRY_SERVICE_TIMER_BIT,
     W ''callback-order'' STAGE90_XNU_IOKIT_REGISTRY_TOPOLOGY_TIMER_ORDINAL,
     W ''client-notify-order'' STAGE90_XNU_IOKIT_REGISTRY_TOPOLOGY_TIMER_ORDINAL,
     W ''callback-dependency-ready'' 1,
     S ''callback-provenance'' ''stage90-provider-notify'',
     W ''client-open-dryrun'' 1,
     W ''client-open-ready'' 1,
     W ''provider-claim-ready'' 1,
     W ''client-close-ready'' 1,
     W ''open-runtime-exec'' 0,
     W ''claim-runtime-exec'' 0,
     W ''close-runtime-exec'' 0,
     S ''open-provider-path'' ''IODeviceTree:/stage90-platform-personality'',
     W ''open-provider-ordinal'' STAGE90_XNU_IOKIT_REGISTRY_TOPOLOGY_PLATFORM_ORDINAL,
     W ''open-type-mask'' STAGE90_XNU_IOKIT_REGISTRY_SERVICE_TIMER_BIT,
     W ''expected-open-mask'' STAGE90_XNU_IOKIT_REGISTRY_SERVICE_TIMER_BIT,
     W ''claimed-open-mask'' STAGE90_XNU_IOKIT_REGISTRY_SERVICE_TIMER_BIT,
     W ''client-close-mask'' STAGE90_XNU_IOKIT_REGISTRY_SERVICE_TIMER_BIT,
     W ''open-order'' STAGE90_XNU_IOKIT_REGISTRY_TOPOLOGY_TIMER_ORDINAL,
     W ''close-order'' STAGE90_XNU_IOKIT_REGISTRY_TOPOLOGY_TIMER_ORDINAL,
     W ''open-dependency-ready'' 1,
     S ''open-provenance'' ''stage90-provider-callback'']"

definition node_stage90_cpu_personality :: "dt_call list" where
  "node_stage90_cpu_personality =
    [Node_Begin 100 0,
     S ''name'' ''stage90-cpu-personality'',
     S ''compatible'' ''qcom,msm8974-cpu-stage90'',
     S ''IOClass'' ''IOCPU'',
     S ''IOProviderClass'' ''IOPlatformExpertDevice'',
     S ''IOMatchCategory'' ''Stage84LocalCPUService'',
     W ''IOProbeScore'' STAGE90_XNU_IOKIT_REGISTRY_SERVICE_CPU_PROBE_SCORE,
     S ''CFBundleIdentifier'' ''com.mi4ios6.stage90.localcatalog'',
     W ''catalog-property-dryrun'' 1,
     W ''provider-plane-published'' 1,
     W ''source-service-bit'' STAGE90_XNU_IOKIT_REGISTRY_SERVICE_CPU_BIT,
     W ''stage-owned-local-only'' 1,
     W ''registry-entry-dryrun'' 1,
     W ''property-inheritance-dryrun'' 1,
     W ''registry-entry-ordinal'' STAGE90_XNU_IOKIT_PROPERTY_INHERITANCE_CPU_ORDINAL,
     S ''registry-plane'' ''IODeviceTree'',
     W ''attach-deferred'' 1,
     W ''start-deferred'' 1,
     W ''registry-topology-dryrun'' 1,
     S ''registry-parent-path'' ''IODeviceTree:/stage90-platform-personality'',
     S ''registry-entry-path'' ''IODeviceTree:/stage90-cpu-personality'',
     W ''registry-parent-ordinal'' STAGE90_XNU_IOKIT_REGISTRY_TOPOLOGY_PLATFORM_ORDINAL,
     W ''registry-sibling-order'' STAGE90_XNU_IOKIT_REGISTRY_TOPOLOGY_CPU_ORDINAL,
     S ''registry-topology-provenance'' ''stage90-property-inheritance'',
     W ''attach-start-readiness-dryrun'' 1,
     W ''attach-readiness'' 1,
     W ''start-readiness'' 1,
     W ''attach-runtime-exec'' 0,
     W ''start-runtime-exec'' 0,
     S ''attach-provider-path'' ''IODeviceTree:/stage90-platform-personality'',
     S ''start-provider-path'' ''IODeviceTree:/stage90-platform-personality'',
     W ''attach-provider-ordinal'' STAGE90_XNU_IOKIT_REGISTRY_TOPOLOGY_PLATFORM_ORDINAL,
     W ''start-provider-ordinal'' STAGE90_XNU_IOKIT_REGISTRY_TOPOLOGY_PLATFORM_ORDINAL,
     W ''attach-order'' STAGE90_XNU_IOKIT_REGISTRY_TOPOLOGY_CPU_ORDINAL,
     W ''start-order'' STAGE90_XNU_IOKIT_REGISTRY_TOPOLOGY_CPU_ORDINAL,
     W ''provider-start-required'' 1,
     S ''attach-start-provenance'' ''stage90-registry-topology'',
     W ''lifecycle-regsvc-dryrun'' 1,
     W ''lifecycle-state-matched'' 1,
     W ''lifecycle-provider-published'' 1,
     W ''lifecycle-registry-linked'' 1,
     W ''lifecycle-topology-linked'' 1,
     W ''register-service-readiness'' 1,
     W ''service-registered'' 1,
     W ''register-service-runtime-exec'' 0,
     W ''notification-ready'' 1,
     W ''notification-runtime-exec'' 0,
     W ''register-service-order'' STAGE90_XNU_IOKIT_REGISTRY_TOPOLOGY_CPU_ORDINAL,
     W ''notification-order'' STAGE90_XNU_IOKIT_REGISTRY_TOPOLOGY_CPU_ORDINAL,
     S ''register-provider-path'' ''IODeviceTree:/stage90-platform-personality'',
     W ''register-provider-ordinal'' STAGE90_XNU_IOKIT_REGISTRY_TOPOLOGY_PLATFORM_ORDINAL,
     W ''register-provider-start-req'' 1,
     W ''register-dependency-ready'' 1,
     S ''lifecycle-provenance'' ''stage90-attach-start-readiness'',
     W ''prov-notify-dryrun'' 1,
     W ''prov-notify-ready'' 1,
     W ''interest-ready'' 1,
     W ''interest-runtime-exec'' 0,
     W ''delivery-ready'' 1,
     W ''delivery-runtime-exec'' 0,
     S ''interest-provider-path'' ''IODeviceTree:/stage90-platform-personality'',
     W ''interest-provider-ordinal'' STAGE90_XNU_IOKIT_REGISTRY_TOPOLOGY_PLATFORM_ORDINAL,
     W ''interest-type-mask'' STAGE90_XNU_IOKIT_REGISTRY_SERVICE_CPU_BIT,
     W ''expected-notify-mask'' STAGE90_XNU_IOKIT_REGISTRY_SERVICE_CPU_BIT,
     W ''delivered-notify-mask'' STAGE90_XNU_IOKIT_REGISTRY_SERVICE_CPU_BIT,
     W ''interest-order'' STAGE90_XNU_IOKIT_REGISTRY_TOPOLOGY_CPU_ORDINAL,
     W ''delivery-order'' STAGE90_XNU_IOKIT_REGISTRY_TOPOLOGY_CPU_ORDINAL,
     W ''notify-dependency-ready'' 1,
     S ''notify-provenance'' ''stage90-lifecycle-regsvc'',
     W ''prov-callback-dryrun'' 1,
     W ''callback-ready'' 1,
     W ''client-notify-ready'' 1,
     W ''callback-runtime-exec'' 0,
     W ''client-notify-runtime-exec'' 0,
     S ''callback-provider-path'' ''IODeviceTree:/stage90-platform-personality'',
     W ''callback-provider-ordinal'' STAGE90_XNU_IOKIT_REGISTRY_TOPOLOGY_PLATFORM_ORDINAL,
     W ''callback-type-mask'' STAGE90_XNU_IOKIT_REGISTRY_SERVICE_CPU_BIT,
     W ''expected-callback-mask'' STAGE90_XNU_IOKIT_REGISTRY_SERVICE_CPU_BIT,
     W ''delivered-callback-mask'' STAGE90_XNU_IOKIT_REGISTRY_SERVICE_CPU_BIT,
     W ''client-ack-mask'' STAGE90_XNU_IOKIT_REGISTRY_SERVICE_CPU_BIT,
     W ''callback-order'' STAGE90_XNU_IOKIT_REGISTRY_TOPOLOGY_CPU_ORDINAL,
     W ''client-notify-order'' STAGE90_XNU_IOKIT_REGISTRY_TOPOLOGY_CPU_ORDINAL,
     W ''callback-dependency-ready'' 1,
     S ''callback-provenance'' ''stage90-provider-notify'',
     W ''client-open-dryrun'' 1,
     W ''client-open-ready'' 1,
     W ''provider-claim-ready'' 1,
     W ''client-close-ready'' 1,
     W ''open-runtime-exec'' 0,
     W ''claim-runtime-exec'' 0,
     W ''close-runtime-exec'' 0,
     S ''open-provider-path'' ''IODeviceTree:/stage90-platform-personality'',
     W ''open-provider-ordinal'' STAGE90_XNU_IOKIT_REGISTRY_TOPOLOGY_PLATFORM_ORDINAL,
     W ''open-type-mask'' STAGE90_XNU_IOKIT_REGISTRY_SERVICE_CPU_BIT,
     W ''expected-open-mask'' STAGE90_XNU_IOKIT_REGISTRY_SERVICE_CPU_BIT,
     W ''claimed-open-mask'' STAGE90_XNU_IOKIT_REGISTRY_SERVICE_CPU_BIT,
     W ''client-close-mask'' STAGE90_XNU_IOKIT_REGISTRY_SERVICE_CPU_BIT,
     W ''open-order'' STAGE90_XNU_IOKIT_REGISTRY_TOPOLOGY_CPU_ORDINAL,
     W ''close-order'' STAGE90_XNU_IOKIT_REGISTRY_TOPOLOGY_CPU_ORDINAL,
     W ''open-dependency-ready'' 1,
     S ''open-provenance'' ''stage90-provider-callback'']"

definition node_stage90_rejected_personality :: "dt_call list" where
  "node_stage90_rejected_personality =
    [Node_Begin 99 0,
     S ''name'' ''stage90-rejected-personality'',
     S ''compatible'' ''qcom,msm8974-rejected-stage90'',
     S ''IOClass'' ''Stage84RejectedDriver'',
     S ''IOProviderClass'' ''IOUnknownProvider'',
     S ''IOMatchCategory'' ''Stage84RejectedLocalService'',
     W ''IOProbeScore'' 0,
     S ''CFBundleIdentifier'' ''com.mi4ios6.stage90.localcatalog'',
     W ''catalog-property-dryrun'' 1,
     W ''provider-plane-published'' 0,
     W ''rejected-candidate'' 1,
     W ''stage-owned-local-only'' 1,
     W ''registry-entry-dryrun'' 0,
     W ''property-inheritance-dryrun'' 1,
     W ''registry-entry-ordinal'' STAGE90_XNU_IOKIT_PROPERTY_INHERITANCE_REJECTED_ORDINAL,
     W ''registry-entry-attached'' 0,
     W ''registry-topology-dryrun'' 0,
     S ''registry-parent-path'' ''IODeviceTree:/unlinked'',
     S ''registry-entry-path'' ''IODeviceTree:/stage90-rejected-personality'',
     W ''registry-parent-ordinal'' STAGE90_XNU_IOKIT_REGISTRY_TOPOLOGY_REJECTED_ORDINAL,
     W ''registry-sibling-order'' STAGE90_XNU_IOKIT_REGISTRY_TOPOLOGY_REJECTED_ORDINAL,
     S ''registry-topology-provenance'' ''stage90-rejected-unlinked'',
     W ''registry-entry-linked'' 0,
     W ''attach-start-readiness-dryrun'' 0,
     W ''attach-readiness'' 0,
     W ''start-readiness'' 0,
     W ''attach-runtime-exec'' 0,
     W ''start-runtime-exec'' 0,
     S ''attach-provider-path'' ''IODeviceTree:/unlinked'',
     S ''start-provider-path'' ''IODeviceTree:/unlinked'',
     W ''attach-provider-ordinal'' STAGE90_XNU_IOKIT_REGISTRY_TOPOLOGY_REJECTED_ORDINAL,
     W ''start-provider-ordinal'' STAGE90_XNU_IOKIT_REGISTRY_TOPOLOGY_REJECTED_ORDINAL,
     W ''attach-order'' STAGE90_XNU_IOKIT_REGISTRY_TOPOLOGY_REJECTED_ORDINAL,
     W ''start-order'' STAGE90_XNU_IOKIT_REGISTRY_TOPOLOGY_REJECTED_ORDINAL,
     W ''provider-start-required'' 0,
     S ''attach-start-provenance'' ''stage90-rejected-unattached'',
     W ''lifecycle-regsvc-dryrun'' 0,
     W ''lifecycle-state-matched'' 0,
     W ''lifecycle-provider-published'' 0,
     W ''lifecycle-registry-linked'' 0,
     W ''lifecycle-topology-linked'' 0,
     W ''register-service-readiness'' 0,
     W ''service-registered'' 0,
     W ''register-service-runtime-exec'' 0,
     W ''notification-ready'' 0,
     W ''notification-runtime-exec'' 0,
     S ''register-provider-path'' ''IODeviceTree:/unlinked'',
     W ''register-provider-ordinal'' STAGE90_XNU_IOKIT_REGISTRY_TOPOLOGY_REJECTED_ORDINAL,
     W ''register-provider-start-req'' 0,
     W ''register-service-order'' STAGE90_XNU_IOKIT_REGISTRY_TOPOLOGY_REJECTED_ORDINAL,
     W ''notification-order'' STAGE90_XNU_IOKIT_REGISTRY_TOPOLOGY_REJECTED_ORDINAL,
     W ''register-dependency-ready'' 0,
     S ''lifecycle-provenance'' ''stage90-rejected-unregistered'',
     W ''prov-notify-dryrun'' 0,
     W ''prov-notify-ready'' 0,
     W ''interest-ready'' 0,
     W ''interest-runtime-exec'' 0,
     W ''delivery-ready'' 0,
     W ''delivery-runtime-exec'' 0,
     S ''interest-provider-path'' ''IODeviceTree:/unlinked'',
     W ''interest-provider-ordinal'' STAGE90_XNU_IOKIT_REGISTRY_TOPOLOGY_REJECTED_ORDINAL,
     W ''interest-type-mask'' 0,
     W ''expected-notify-mask'' 0,
     W ''delivered-notify-mask'' 0,
     W ''interest-order'' STAGE90_XNU_IOKIT_REGISTRY_TOPOLOGY_REJECTED_ORDINAL,
     W ''delivery-order'' STAGE90_XNU_IOKIT_REGISTRY_TOPOLOGY_REJECTED_ORDINAL,
     W ''notify-dependency-ready'' 0,
     S ''notify-provenance'' ''stage90-rejected-undelivered'',
     W ''prov-callback-dryrun'' 0,
     W ''callback-ready'' 0,
     W ''client-notify-ready'' 0,
     W ''callback-runtime-exec'' 0,
     W ''client-notify-runtime-exec'' 0,
     S ''callback-provider-path'' ''IODeviceTree:/unlinked'',
     W ''callback-provider-ordinal'' STAGE90_XNU_IOKIT_REGISTRY_TOPOLOGY_REJECTED_ORDINAL,
     W ''callback-type-mask'' 0,
     W ''expected-callback-mask'' 0,
     W ''delivered-callback-mask'' 0,
     W ''client-ack-mask'' 0,
     W ''callback-order'' STAGE90_XNU_IOKIT_REGISTRY_TOPOLOGY_REJECTED_ORDINAL,
     W ''client-notify-order'' STAGE90_XNU_IOKIT_REGISTRY_TOPOLOGY_REJECTED_ORDINAL,
     W ''callback-dependency-ready'' 0,
     S ''callback-provenance'' ''stage90-rejected-nocallback'',
     W ''client-open-dryrun'' 0,
     W ''client-open-ready'' 0,
     W ''provider-claim-ready'' 0,
     W ''client-close-ready'' 0,
     W ''open-runtime-exec'' 0,
     W ''claim-runtime-exec'' 0,
     W ''close-runtime-exec'' 0,
     S ''open-provider-path'' ''IODeviceTree:/unlinked'',
     W ''open-provider-ordinal'' STAGE90_XNU_IOKIT_REGISTRY_TOPOLOGY_REJECTED_ORDINAL,
     W ''open-type-mask'' 0,
     W ''expected-open-mask'' 0,
     W ''claimed-open-mask'' 0,
     W ''client-close-mask'' 0,
     W ''open-order'' STAGE90_XNU_IOKIT_REGISTRY_TOPOLOGY_REJECTED_ORDINAL,
     W ''close-order'' STAGE90_XNU_IOKIT_REGISTRY_TOPOLOGY_REJECTED_ORDINAL,
     W ''open-dependency-ready'' 0,
     S ''open-provenance'' ''stage90-rejected-noopen'']"

definition node_chosen_real_dt :: "bool \<Rightarrow> u32 \<Rightarrow> dt_call list" where
  "node_chosen_real_dt tree_d13 debug_root =
    [Node_Begin 6 1,
     S ''name'' ''chosen'',
     S ''boot-args'' (''debug=0x144 rd=md0 mi4ios6.stage=83 xnu-pe-init-false xnu-postpe cpu-topo bootcpu rtclock xnu-armvm prevm-pexpert dtinit-facts peid-machine pexpert-hook-ready'' @ STAGE90_BOOT_IDLE_TOKEN tree_d13),
     S ''stdout-path'' ''ram-console'',
     A ''ram-console-reg'' ram_console_reg,
     Prop (str ''random-seed'') (build_chosen_random_seed 64),
     W ''consistent-debug-root'' debug_root]"

definition node_chosen :: "bool \<Rightarrow> dt_call list" where
  "node_chosen tree_d13 =
    [Node_Begin 5 1,
     S ''name'' ''chosen'',
     S ''boot-args'' (''debug=0x144 rd=md0 mi4ios6.stage=83 xnu-pe-init-false xnu-postpe cpu-topo bootcpu rtclock xnu-armvm prevm-pexpert dtinit-facts peid-machine pexpert-hook-ready'' @ STAGE90_BOOT_IDLE_TOKEN tree_d13),
     S ''stdout-path'' ''ram-console'',
     A ''ram-console-reg'' ram_console_reg,
     Prop (str ''random-seed'') (build_chosen_random_seed 64)]"

definition node_memory_map :: "u32 \<Rightarrow> u32 \<Rightarrow> dt_call list" where
  "node_memory_map ramdisk_va ramdisk_size =
    [Node_Begin 2 0,
     S ''name'' ''memory-map'',
     A ''RAMDisk'' [ramdisk_va, ramdisk_size]]"

definition node_defaults :: "dt_call list" where
  "node_defaults =
    [Node_Begin 2 0,
     S ''name'' ''defaults'',
     W ''hw.memsize'' RAM_DEVICE_TOTAL]"

definition node_memory :: "bool \<Rightarrow> dt_call list" where
  "node_memory regions =
    [Node_Begin 4 0,
     S ''name'' ''memory'',
     S ''device_type'' ''memory'',
     A ''reg'' (memory_reg regions),
     W ''reserved-top'' RAM_CONSOLE_SIZE]"

definition node_cpus :: "dt_call list" where
  "node_cpus =
    [Node_Begin 3 4,
     S ''name'' ''cpus'',
     W ''#address-cells'' 1,
     W ''#size-cells'' 0]"

definition node_cpu :: "u32 \<Rightarrow> dt_call list" where
  "node_cpu cpu =
    [Node_Begin 7 0,
     S ''name'' (''cpu@'' @ [char_of (48 + unat cpu)]),
     S ''device_type'' ''cpu'',
     S ''compatible'' ''qcom,krait'',
     W ''reg'' cpu,
     W ''clock-frequency'' 2265600000,
     W ''timebase-frequency'' 19200000,
     S ''state'' ''running'']"

definition node_arm_io :: "dt_call list" where
  "node_arm_io =
    [Node_Begin 4 0,
     S ''name'' ''arm-io'',
     S ''device_type'' ''soc'',
     A ''ranges'' io_ranges,
     W ''chip-revision'' 0]"

definition node_msm8974_io :: "dt_call list" where
  "node_msm8974_io =
    [Node_Begin 5 0,
     S ''name'' ''msm8974-io'',
     S ''device_type'' ''soc'',
     S ''compatible'' ''qcom,msm8974'',
     A ''ranges'' io_ranges,
     W ''chip-revision'' 0]"

definition node_interrupt_controller :: "dt_call list" where
  "node_interrupt_controller =
    [Node_Begin 6 0,
     S ''name'' ''interrupt-controller'',
     S ''compatible'' ''qcom,msm-qgic2'',
     A ''reg'' gic_reg,
     W ''#interrupt-cells'' 3,
     W ''interrupt-controller'' 1,
     W ''AAPL,phandle'' 1]"

definition node_timer :: "dt_call list" where
  "node_timer =
    [Node_Begin 8 0,
     S ''name'' ''timer'',
     S ''compatible'' ''qcom,msm-timer'',
     W ''frequency'' 19200000,
     A ''reg'' timer_reg,
     S ''use'' ''early-timebase'',
     W ''interrupt-parent'' 1,
     A ''interrupts'' timer_frame_intr,
     S ''device_type'' ''timer'']"

subsection \<open>The tree\<close>

record dt_config =
  cfg_regions :: bool
  cfg_real_dt :: bool
  cfg_tree_d13 :: bool
  cfg_debug_root :: u32
  cfg_ramdisk_va :: u32
  cfg_ramdisk_size :: u32

definition chosen_calls :: "dt_config \<Rightarrow> dt_call list" where
  "chosen_calls cfg =
    (if cfg_real_dt cfg then node_chosen_real_dt (cfg_tree_d13 cfg) (cfg_debug_root cfg)
     else node_chosen (cfg_tree_d13 cfg))"

definition stage90_dt_calls :: "dt_config \<Rightarrow> dt_call list" where
  "stage90_dt_calls cfg =
     node_root @ node_device_tree @ node_iokit_platform_scaffold @ node_msm8974_platform_driver
   @ node_msm8974_interrupt_service @ node_msm8974_timer_service @ node_msm8974_cpu_service
   @ node_msm8974_rejected_driver @ node_iokit_catalog_property_dryrun
   @ node_stage90_platform_personality @ node_stage90_interrupt_personality
   @ node_stage90_timer_personality @ node_stage90_cpu_personality @ node_stage90_rejected_personality
   @ chosen_calls cfg @ node_memory_map (cfg_ramdisk_va cfg) (cfg_ramdisk_size cfg)
   @ node_defaults @ node_memory (cfg_regions cfg)
   @ node_cpus @ concat (map node_cpu [0, 1, 2, 3])
   @ node_arm_io @ node_msm8974_io @ node_interrupt_controller @ node_timer"

definition build_stage90_apple_dt :: "dt_config \<Rightarrow> apple_dt_builder" where
  "build_stage90_apple_dt cfg = dt_run (stage90_dt_calls cfg) (apple_dt_begin 32768)"

end
