(* ===== verification/Handoff.thy ===== *)
theory Handoff
  imports Stage90_Tree
begin

text \<open>
  The handoff of the payload to its test kernel: \<open>build_boot_args\<close> of src/src/boot_args.c, the
  platform state of src/src/pe_state.c, the discovery of src/src/pexpert.c and
  \<open>test_kernel_entry\<close> of src/src/stage90_main.c.  Log output is left out.  The linker's
  \<open>__stage90_image_end\<close>, the address of the vectors and the address of the \<open>boot_args\<close> are
  arguments, and the recursion depth of the tree's parser is passed on as fuel.
\<close>

unbundle bit_operations_syntax

definition BOOT_ARGS_REVISION :: u16 where "BOOT_ARGS_REVISION = 2"
definition BOOT_ARGS_VERSION :: u16 where "BOOT_ARGS_VERSION = 2"
definition BOOT_LINE_LENGTH :: nat where "BOOT_LINE_LENGTH = 256"
definition STAGE90_BASE :: u32 where "STAGE90_BASE = 0x00008000"
definition MACHINE_TYPE_MSM8974 :: u32 where "MACHINE_TYPE_MSM8974 = 0x9074"
definition RAM_TOP :: u32 where "RAM_TOP = 0xde700000"

record boot_args =
  ba_Revision :: u16
  ba_Version :: u16
  ba_virtBase :: u32
  ba_physBase :: u32
  ba_memSize :: u32
  ba_topOfKernelData :: u32
  ba_Video :: "u32 list"
  ba_machineType :: u32
  ba_deviceTreeP :: u32
  ba_deviceTreeLength :: u32
  ba_CommandLine :: bytes
  ba_bootFlags :: u32
  ba_memSizeActual :: u32

text \<open>The string literal \<open>cmd\<close> with its final NUL.\<close>

definition boot_cmd :: "bool \<Rightarrow> bytes" where
  "boot_cmd tree_d13 = str (''debug=0x144 rd=md0 mi4ios6.stage=83 xnu-pe-init-false xnu-postpe cpu-topo bootcpu rtclock xnu-armvm prevm-pexpert dtinit-facts peid-machine no-pub-peinit no-pub-dtinit no-pub-peid no-pub-thread no-pub-cpuboot no-pub-rtclock''
     @ STAGE90_BOOT_IDLE_TOKEN tree_d13) @ [0]"

definition build_boot_args :: "u32 \<Rightarrow> bool \<Rightarrow> u32 \<Rightarrow> u32 \<Rightarrow> boot_args" where
  "build_boot_args image_end tree_d13 dt dt_len =
    (let cmd = boot_cmd tree_d13;
         cmd_len = (if length cmd < BOOT_LINE_LENGTH then length cmd else BOOT_LINE_LENGTH)
     in \<lparr>ba_Revision = BOOT_ARGS_REVISION, ba_Version = BOOT_ARGS_VERSION, ba_virtBase = 0,
         ba_physBase = STAGE90_BASE, ba_memSize = RAM_CONSOLE_BASE - RAM_PHYS_BASE,
         ba_topOfKernelData = image_end, ba_Video = replicate 6 0,
         ba_machineType = MACHINE_TYPE_MSM8974, ba_deviceTreeP = dt, ba_deviceTreeLength = dt_len,
         ba_CommandLine = (splice 0 (take cmd_len cmd) (replicate BOOT_LINE_LENGTH 0))[BOOT_LINE_LENGTH - 1 := 0],
         ba_bootFlags = 0, ba_memSizeActual = RAM_TOP - RAM_PHYS_BASE\<rparr>)"

subsection \<open>The platform state\<close>

record pe_platform_state =
  pe_bootArgs :: u32
  pe_deviceTreeHead :: u32
  pe_deviceTreeLength :: u32
  pe_memoryBase :: u32
  pe_memorySize :: u32
  pe_cpuCount :: u32
  pe_gicDistributorBase :: u32
  pe_gicCpuBase :: u32
  pe_timerBase :: u32
  pe_timerFrequency :: u32
  pe_machineType :: u32
  pe_vectorBase :: u32

definition reg_value :: "mem32 \<Rightarrow> u32 \<Rightarrow> u32 \<Rightarrow> u32 \<Rightarrow> bytes \<Rightarrow> u32 \<Rightarrow> u32 \<Rightarrow> u32" where
  "reg_value m dt dt_len node name word_index fallback =
    (let (v, len) = apple_dt_get_prop m dt dt_len node name
     in if v = 0 \<or> len < (word_index + 1) * 4 then fallback else ld32 m (v + 4 * word_index))"

text \<open>The device-tree part of \<open>pe_state_init_from_boot_args\<close>, after the early return.\<close>

definition pe_state_from_dt :: "nat \<Rightarrow> mem32 \<Rightarrow> u32 \<Rightarrow> u32 \<Rightarrow> pe_platform_state \<Rightarrow> pe_platform_state option" where
  "pe_state_from_dt fuel m dt dt_len s0 =
    (case apple_dt_find_child fuel m dt dt_len dt (str ''memory'') of None \<Rightarrow> None | Some memory \<Rightarrow>
     case apple_dt_find_child fuel m dt dt_len dt (str ''cpus'') of None \<Rightarrow> None | Some cpus \<Rightarrow>
     case apple_dt_find_child fuel m dt dt_len dt (str ''interrupt-controller'') of None \<Rightarrow> None | Some gic \<Rightarrow>
     case apple_dt_find_child fuel m dt dt_len dt (str ''timer'') of None \<Rightarrow> None | Some timer \<Rightarrow>
      (let s1 = (if memory \<noteq> 0
             then s0\<lparr>pe_memoryBase := reg_value m dt dt_len memory (str ''reg'') 0 0,
                     pe_memorySize := reg_value m dt dt_len memory (str ''reg'') 1 0\<rparr> else s0);
           s2 = (if cpus \<noteq> 0 then s1\<lparr>pe_cpuCount := apple_dt_node_child_count m dt dt_len cpus\<rparr> else s1);
           s3 = (if gic \<noteq> 0
             then s2\<lparr>pe_gicDistributorBase := reg_value m dt dt_len gic (str ''reg'') 0 0,
                     pe_gicCpuBase := reg_value m dt dt_len gic (str ''reg'') 2 0\<rparr> else s2);
           s4 = (if timer \<noteq> 0
             then s3\<lparr>pe_timerBase := reg_value m dt dt_len timer (str ''reg'') 0 0,
                     pe_timerFrequency := apple_dt_get_u32_prop m dt dt_len timer (str ''frequency'') 0\<rparr> else s3)
       in Some s4))"

text \<open>The argument is a pointer with the structure it points to; \<open>None\<close> is NULL.\<close>

definition pe_state_init_from_boot_args ::
    "nat \<Rightarrow> mem32 \<Rightarrow> u32 \<Rightarrow> (u32 \<times> boot_args) option \<Rightarrow> pe_platform_state option" where
  "pe_state_init_from_boot_args fuel m vectors args =
    (let zero = \<lparr>pe_bootArgs = 0, pe_deviceTreeHead = 0, pe_deviceTreeLength = 0, pe_memoryBase = 0,
           pe_memorySize = 0, pe_cpuCount = 0, pe_gicDistributorBase = 0, pe_gicCpuBase = 0,
           pe_timerBase = 0, pe_timerFrequency = 0, pe_machineType = 0, pe_vectorBase = vectors\<rparr>
     in case args of
          None \<Rightarrow> Some zero
        | Some (p, a) \<Rightarrow>
            (let s0 = zero\<lparr>pe_bootArgs := p, pe_deviceTreeHead := ba_deviceTreeP a,
                   pe_deviceTreeLength := ba_deviceTreeLength a, pe_machineType := ba_machineType a\<rparr>
             in if ba_deviceTreeP a = 0 \<or> ba_deviceTreeLength a = 0 then Some s0
                else pe_state_from_dt fuel m (ba_deviceTreeP a) (ba_deviceTreeLength a) s0))"

definition pe_state_validate :: "pe_platform_state \<Rightarrow> bool" where
  "pe_state_validate s \<longleftrightarrow>
     pe_bootArgs s \<noteq> 0 \<and> pe_deviceTreeHead s \<noteq> 0 \<and> pe_memoryBase s = RAM_PHYS_BASE
   \<and> pe_memorySize s = RAM_CONSOLE_BASE - RAM_PHYS_BASE \<and> pe_cpuCount s = 4
   \<and> pe_gicDistributorBase s = 0xf9000000 \<and> pe_gicCpuBase s = 0xf9002000 \<and> pe_timerBase s = 0xf9020000
   \<and> pe_timerFrequency s = 19200000 \<and> pe_vectorBase s \<noteq> 0"

subsection \<open>Discovery and the test kernel's entry\<close>

text \<open>\<open>require_node\<close> in a chain of \<open>||\<close>: the first missing node ends it.\<close>

fun require_nodes :: "nat \<Rightarrow> mem32 \<Rightarrow> boot_args \<Rightarrow> string list \<Rightarrow> bool option" where
  "require_nodes fuel m args [] = Some True"
| "require_nodes fuel m args (s # ss) =
    (case apple_dt_find_child fuel m (ba_deviceTreeP args) (ba_deviceTreeLength args) (ba_deviceTreeP args) (str s) of
       None \<Rightarrow> None
     | Some node \<Rightarrow> if node = 0 then Some False else require_nodes fuel m args ss)"

definition pexpert_discover_and_log :: "nat \<Rightarrow> mem32 \<Rightarrow> boot_args \<Rightarrow> bool option" where
  "pexpert_discover_and_log fuel m args =
    require_nodes fuel m args [''chosen'', ''memory'', ''cpus'', ''interrupt-controller'', ''timer'',
      ''iokit-platform-scaffold'', ''msm8974-platform-driver'']"

definition test_kernel_entry :: "nat \<Rightarrow> mem32 \<Rightarrow> boot_args option \<Rightarrow> bool option" where
  "test_kernel_entry fuel m args =
    (case args of
       None \<Rightarrow> Some False
     | Some a \<Rightarrow>
         if ba_Revision a \<noteq> BOOT_ARGS_REVISION \<or> ba_Version a \<noteq> BOOT_ARGS_VERSION then Some False
         else if ba_deviceTreeP a = 0 \<or> ba_deviceTreeLength a = 0 then Some False
         else apple_dt_selftest_and_log fuel m (ba_deviceTreeP a) (ba_deviceTreeLength a))"

end
