(* ===== verification/Stage90_Tree_Proofs.thy ===== *)
theory Stage90_Tree_Proofs
  imports Stage90_Tree
begin

text \<open>
  The payload's device tree is well formed: every node's header announces exactly the properties
  and children that follow, every name fits its field and is usable, the whole fits \<open>g_apple_dt\<close>, and the parser's self
  test finds what it looks for.
\<close>

unbundle bit_operations_syntax

subsection \<open>Strings\<close>

lemma of_char_u8_eq: "(of_char c :: u8) = of_char d \<longleftrightarrow> c = d"
proof -
  have eq: "(of_char x :: u8) = of_nat (of_char x)" for x by (rule of_nat_of_char [symmetric])
  have "unat (of_char x :: u8) = of_char x" for x
    unfolding eq by (simp add: unat_of_nat del: of_nat_of_char)
  then show ?thesis by (metis of_char_eq_iff)
qed

lemma str_length [simp]: "length (str s) = length s"
  by (simp add: str_def)

lemma str_nul: "0 \<in> set (str s) \<longleftrightarrow> CHR 0x00 \<in> set s"
proof -
  have zero: "(of_char (CHR 0x00) :: u8) = 0" by simp
  have z: "(0 :: u8) = of_char x \<longleftrightarrow> CHR 0x00 = x" for x
    using of_char_u8_eq [of "CHR 0x00" x] unfolding zero .
  show ?thesis unfolding str_def set_map image_iff z by blast
qed

lemma str_take: "take n (str s) = str t \<longleftrightarrow> take n s = t"
proof -
  have "map (of_char :: char \<Rightarrow> u8) xs = map of_char ys \<longleftrightarrow> xs = ys" for xs ys
    by (rule inj_map_eq_map) (simp add: inj_def of_char_u8_eq)
  then show ?thesis by (simp add: str_def take_map)
qed

lemma str_eq: "str s = str t \<longleftrightarrow> s = t"
  using str_take [of "length s" s t] take_all [of "str s" "length s"] by simp

lemma str_append: "str (s @ t) = str s @ str t"
  by (simp add: str_def)


definition nameless :: "bytes \<Rightarrow> bool" where
  "nameless k \<longleftrightarrow> 0 \<notin> set k \<and> length k \<le> 31 \<and> k \<noteq> str ''name''"

definition nul_free :: "string \<Rightarrow> bool" where
  "nul_free k \<longleftrightarrow> CHR 0x00 \<notin> set k"

lemma nul_free_simps [simp]: "nul_free []" "nul_free (c # cs) \<longleftrightarrow> c \<noteq> CHR 0x00 \<and> nul_free cs"
  by (auto simp: nul_free_def)

lemma nameless_str:
  "c \<noteq> CHR ''n'' \<or> d \<noteq> CHR ''a'' \<Longrightarrow> nul_free (c # d # cs) \<Longrightarrow> length cs \<le> 29 \<Longrightarrow> nameless (str (c # d # cs))"
  by (auto simp: nameless_def nul_free_def str_nul str_eq)

fun call_ok :: "dt_call \<Rightarrow> bool" where
  "call_ok (Node_Begin np nc) = False"
| "call_ok (Prop_Str k v) = nameless k"
| "call_ok (Prop k v) = nameless k"
| "call_ok (Prop_U32 k w) = nameless k"
| "call_ok (Prop_U32_Array k ws) = nameless k"

declare call_ok.simps [simp del]

text \<open>What the builder keeps of a property's name: all of it, if it is at most 31 bytes without a NUL.\<close>

fun call_fits :: "dt_call \<Rightarrow> bool" where
  "call_fits (Node_Begin np nc) = True"
| "call_fits (Prop_Str k v) = (length k \<le> 31 \<and> 0 \<notin> set k)"
| "call_fits (Prop k v) = (length k \<le> 31 \<and> 0 \<notin> set k)"
| "call_fits (Prop_U32 k w) = (length k \<le> 31 \<and> 0 \<notin> set k)"
| "call_fits (Prop_U32_Array k ws) = (length k \<le> 31 \<and> 0 \<notin> set k)"

text \<open>A node's header announces what follows, and the first property is its name.\<close>

fun node_ok :: "nat \<Rightarrow> string \<Rightarrow> dt_call list \<Rightarrow> bool" where
  "node_ok nk s (Node_Begin np nc # Prop_Str k v # ps) \<longleftrightarrow>
     np = ptr (Suc (length ps)) \<and> nc = ptr nk \<and> k = str ''name'' \<and> v = str s \<and> nul_free s \<and> (\<forall>c \<in> set ps. call_ok c)"
| "node_ok nk s _ \<longleftrightarrow> False"

lemmas node_eval = call_ok.simps(2-5) nameless_str

definition node_len :: "dt_call list \<Rightarrow> nat" where
  "node_len cs = length (concat (map call_bytes cs))"

lemma enc_len: "length (enc_prop (k, v)) = 36 + (length v + 3) div 4 * 4"
  by (simp add: enc_prop_length al4_def)

lemmas arrays_len = gic_reg_def timer_reg_def timer_frame_intr_def ram_console_reg_def io_ranges_def
  platform_driver_reg_def cpu_service_reg_def

subsection \<open>The nodes, one by one\<close>

lemma node_root_ok: "node_ok 21 ''/'' node_root"
  unfolding node_root_def node_ok.simps list.set ball_simps by (simp add: node_eval STAGE90_APPLE_DT_ROOT_CHILDREN_def)

lemma node_root_len: "node_len node_root = 300"
  unfolding node_len_def node_root_def by (simp add: enc_len arrays_len)

lemma node_device_tree_ok: "node_ok 0 ''device-tree'' node_device_tree"
  unfolding node_device_tree_def node_ok.simps list.set ball_simps by (simp add: node_eval STAGE90_APPLE_DT_ROOT_CHILDREN_def)

lemma node_device_tree_len: "node_len node_device_tree = 228"
  unfolding node_len_def node_device_tree_def by (simp add: enc_len arrays_len)

lemma node_iokit_platform_scaffold_ok: "node_ok 0 ''iokit-platform-scaffold'' node_iokit_platform_scaffold"
  unfolding node_iokit_platform_scaffold_def node_ok.simps list.set ball_simps by (simp add: node_eval STAGE90_APPLE_DT_ROOT_CHILDREN_def)

lemma node_iokit_platform_scaffold_len: "node_len node_iokit_platform_scaffold = 348"
  unfolding node_len_def node_iokit_platform_scaffold_def by (simp add: enc_len arrays_len)

lemma node_msm8974_platform_driver_ok: "node_ok 0 ''msm8974-platform-driver'' node_msm8974_platform_driver"
  unfolding node_msm8974_platform_driver_def node_ok.simps list.set ball_simps by (simp add: node_eval STAGE90_APPLE_DT_ROOT_CHILDREN_def)

lemma node_msm8974_platform_driver_len: "node_len node_msm8974_platform_driver = 532"
  unfolding node_len_def node_msm8974_platform_driver_def by (simp add: enc_len arrays_len)

lemma node_msm8974_interrupt_service_ok: "node_ok 0 ''msm8974-interrupt-service'' node_msm8974_interrupt_service"
  unfolding node_msm8974_interrupt_service_def node_ok.simps list.set ball_simps by (simp add: node_eval STAGE90_APPLE_DT_ROOT_CHILDREN_def)

lemma node_msm8974_interrupt_service_len: "node_len node_msm8974_interrupt_service = 540"
  unfolding node_len_def node_msm8974_interrupt_service_def by (simp add: enc_len arrays_len)

lemma node_msm8974_timer_service_ok: "node_ok 0 ''msm8974-timer-service'' node_msm8974_timer_service"
  unfolding node_msm8974_timer_service_def node_ok.simps list.set ball_simps by (simp add: node_eval STAGE90_APPLE_DT_ROOT_CHILDREN_def)

lemma node_msm8974_timer_service_len: "node_len node_msm8974_timer_service = 528"
  unfolding node_len_def node_msm8974_timer_service_def by (simp add: enc_len arrays_len)

lemma node_msm8974_cpu_service_ok: "node_ok 0 ''msm8974-cpu-service'' node_msm8974_cpu_service"
  unfolding node_msm8974_cpu_service_def node_ok.simps list.set ball_simps by (simp add: node_eval STAGE90_APPLE_DT_ROOT_CHILDREN_def)

lemma node_msm8974_cpu_service_len: "node_len node_msm8974_cpu_service = 504"
  unfolding node_len_def node_msm8974_cpu_service_def by (simp add: enc_len arrays_len)

lemma node_msm8974_rejected_driver_ok: "node_ok 0 ''msm8974-rejected-driver'' node_msm8974_rejected_driver"
  unfolding node_msm8974_rejected_driver_def node_ok.simps list.set ball_simps by (simp add: node_eval STAGE90_APPLE_DT_ROOT_CHILDREN_def)

lemma node_msm8974_rejected_driver_len: "node_len node_msm8974_rejected_driver = 436"
  unfolding node_len_def node_msm8974_rejected_driver_def by (simp add: enc_len arrays_len)

lemma node_iokit_catalog_property_dryrun_ok: "node_ok 0 ''iokit-catalog-property-dryrun'' node_iokit_catalog_property_dryrun"
  unfolding node_iokit_catalog_property_dryrun_def node_ok.simps list.set ball_simps by (simp add: node_eval STAGE90_APPLE_DT_ROOT_CHILDREN_def)

lemma node_iokit_catalog_property_dryrun_len: "node_len node_iokit_catalog_property_dryrun = 320"
  unfolding node_len_def node_iokit_catalog_property_dryrun_def by (simp add: enc_len arrays_len)

lemma node_stage90_platform_personality_ok: "node_ok 0 ''stage90-platform-personality'' node_stage90_platform_personality"
  unfolding node_stage90_platform_personality_def node_ok.simps list.set ball_simps by (simp add: node_eval STAGE90_APPLE_DT_ROOT_CHILDREN_def)

lemma node_stage90_platform_personality_len: "node_len node_stage90_platform_personality = 4444"
  unfolding node_len_def node_stage90_platform_personality_def by (simp add: enc_len arrays_len)

lemma node_stage90_interrupt_personality_ok: "node_ok 0 ''stage90-interrupt-personality'' node_stage90_interrupt_personality"
  unfolding node_stage90_interrupt_personality_def node_ok.simps list.set ball_simps by (simp add: node_eval STAGE90_APPLE_DT_ROOT_CHILDREN_def)

lemma node_stage90_interrupt_personality_len: "node_len node_stage90_interrupt_personality = 4644"
  unfolding node_len_def node_stage90_interrupt_personality_def by (simp add: enc_len arrays_len)

lemma node_stage90_timer_personality_ok: "node_ok 0 ''stage90-timer-personality'' node_stage90_timer_personality"
  unfolding node_stage90_timer_personality_def node_ok.simps list.set ball_simps by (simp add: node_eval STAGE90_APPLE_DT_ROOT_CHILDREN_def)

lemma node_stage90_timer_personality_len: "node_len node_stage90_timer_personality = 4620"
  unfolding node_len_def node_stage90_timer_personality_def by (simp add: enc_len arrays_len)

lemma node_stage90_cpu_personality_ok: "node_ok 0 ''stage90-cpu-personality'' node_stage90_cpu_personality"
  unfolding node_stage90_cpu_personality_def node_ok.simps list.set ball_simps by (simp add: node_eval STAGE90_APPLE_DT_ROOT_CHILDREN_def)

lemma node_stage90_cpu_personality_len: "node_len node_stage90_cpu_personality = 4604"
  unfolding node_len_def node_stage90_cpu_personality_def by (simp add: enc_len arrays_len)

lemma node_stage90_rejected_personality_ok: "node_ok 0 ''stage90-rejected-personality'' node_stage90_rejected_personality"
  unfolding node_stage90_rejected_personality_def node_ok.simps list.set ball_simps by (simp add: node_eval STAGE90_APPLE_DT_ROOT_CHILDREN_def)

lemma node_stage90_rejected_personality_len: "node_len node_stage90_rejected_personality = 4444"
  unfolding node_len_def node_stage90_rejected_personality_def by (simp add: enc_len arrays_len)

lemma node_chosen_real_dt_ok: "node_ok 1 ''chosen'' (node_chosen_real_dt d13 dbg)"
  unfolding node_chosen_real_dt_def node_ok.simps list.set ball_simps by (simp add: node_eval STAGE90_APPLE_DT_ROOT_CHILDREN_def)

lemma node_chosen_ok: "node_ok 1 ''chosen'' (node_chosen d13)"
  unfolding node_chosen_def node_ok.simps list.set ball_simps by (simp add: node_eval STAGE90_APPLE_DT_ROOT_CHILDREN_def)

lemma node_memory_map_ok: "node_ok 0 ''memory-map'' (node_memory_map va sz)"
  unfolding node_memory_map_def node_ok.simps list.set ball_simps by (simp add: node_eval STAGE90_APPLE_DT_ROOT_CHILDREN_def)

lemma node_memory_map_len: "node_len (node_memory_map va sz) = 100"
  unfolding node_len_def node_memory_map_def by (simp add: enc_len arrays_len)

lemma node_defaults_ok: "node_ok 0 ''defaults'' node_defaults"
  unfolding node_defaults_def node_ok.simps list.set ball_simps by (simp add: node_eval STAGE90_APPLE_DT_ROOT_CHILDREN_def)

lemma node_defaults_len: "node_len node_defaults = 96"
  unfolding node_len_def node_defaults_def by (simp add: enc_len arrays_len)

lemma node_memory_ok: "node_ok 0 ''memory'' (node_memory rg)"
  unfolding node_memory_def node_ok.simps list.set ball_simps by (simp add: node_eval STAGE90_APPLE_DT_ROOT_CHILDREN_def)

lemma node_cpus_ok: "node_ok 4 ''cpus'' node_cpus"
  unfolding node_cpus_def node_ok.simps list.set ball_simps by (simp add: node_eval STAGE90_APPLE_DT_ROOT_CHILDREN_def)

lemma node_cpus_len: "node_len node_cpus = 132"
  unfolding node_len_def node_cpus_def by (simp add: enc_len arrays_len)

lemma node_arm_io_ok: "node_ok 0 ''arm-io'' node_arm_io"
  unfolding node_arm_io_def node_ok.simps list.set ball_simps by (simp add: node_eval STAGE90_APPLE_DT_ROOT_CHILDREN_def)

lemma node_arm_io_len: "node_len node_arm_io = 180"
  unfolding node_len_def node_arm_io_def by (simp add: enc_len arrays_len)

lemma node_msm8974_io_ok: "node_ok 0 ''msm8974-io'' node_msm8974_io"
  unfolding node_msm8974_io_def node_ok.simps list.set ball_simps by (simp add: node_eval STAGE90_APPLE_DT_ROOT_CHILDREN_def)

lemma node_msm8974_io_len: "node_len node_msm8974_io = 236"
  unfolding node_len_def node_msm8974_io_def by (simp add: enc_len arrays_len)

lemma node_interrupt_controller_ok: "node_ok 0 ''interrupt-controller'' node_interrupt_controller"
  unfolding node_interrupt_controller_def node_ok.simps list.set ball_simps by (simp add: node_eval STAGE90_APPLE_DT_ROOT_CHILDREN_def)

lemma node_interrupt_controller_len: "node_len node_interrupt_controller = 292"
  unfolding node_len_def node_interrupt_controller_def by (simp add: enc_len arrays_len)

lemma node_timer_ok: "node_ok 0 ''timer'' node_timer"
  unfolding node_timer_def node_ok.simps list.set ball_simps by (simp add: node_eval STAGE90_APPLE_DT_ROOT_CHILDREN_def)

lemma node_timer_len: "node_len node_timer = 388"
  unfolding node_len_def node_timer_def by (simp add: enc_len arrays_len)


lemma node_cpu_ok:
  assumes "cpu \<in> {0, 1, 2, 3}"
  shows "node_ok 0 (''cpu@'' @ [char_of (48 + unat cpu)]) (node_cpu cpu)"
proof -
  have "nul_free (''cpu@'' @ [char_of (48 + unat cpu)])"
    using assms by (auto simp: nul_free_def char_of_def)
  then show ?thesis
    unfolding node_cpu_def node_ok.simps list.set ball_simps by (simp add: node_eval)
qed

lemma node_cpu_len: "node_len (node_cpu cpu) = 304"
  unfolding node_len_def node_cpu_def by (simp add: enc_len)

lemma seed_len [simp]: "length (build_chosen_random_seed n) = n"
  by (simp add: build_chosen_random_seed_def)

lemma token_len: "length (STAGE90_BOOT_IDLE_TOKEN d13) \<le> 21"
  by (simp add: STAGE90_BOOT_IDLE_TOKEN_def)

lemma node_chosen_len: "node_len (node_chosen d13) \<le> 460" "node_len (node_chosen_real_dt d13 dbg) \<le> 500"
  unfolding node_len_def node_chosen_def node_chosen_real_dt_def
  by (cases d13; simp add: enc_len arrays_len STAGE90_BOOT_IDLE_TOKEN_def)+

lemma node_memory_len: "node_len (node_memory rg) \<le> 204"
  unfolding node_len_def node_memory_def by (cases rg; simp add: enc_len memory_reg_def)

subsection \<open>From calls to trees\<close>

definition node_tree :: "dt_call list \<Rightarrow> dt_tree list \<Rightarrow> dt_tree" where
  "node_tree cs kids = Dt_Node (map (the \<circ> call_prop) (tl cs)) kids"

lemma call_ok_prop:
  "call_ok c \<Longrightarrow> \<exists>k v. call_prop c = Some (k, v) \<and> call_bytes c = enc_prop (k, v) \<and> 0 \<notin> set k
    \<and> take 31 k \<noteq> str ''name''"
  by (cases c) (auto simp: call_ok.simps nameless_def)

lemma node_ok_E:
  assumes "node_ok nk s cs"
  obtains ps where "cs = Node_Begin (ptr (Suc (length ps))) (ptr nk) # Prop_Str (str ''name'') (str s) # ps"
    and "nul_free s" and "\<forall>c \<in> set ps. call_ok c"
  using assms by (cases "(nk, s, cs)" rule: node_ok.cases) auto

lemma node_ok_fits:
  assumes "node_ok nk s cs"
  shows "\<forall>c \<in> set cs. call_fits c"
proof -
  have "call_ok c \<Longrightarrow> call_fits c" for c by (cases c) (auto simp: call_ok.simps nameless_def)
  moreover have "call_fits (Prop_Str (str ''name'') v)" for v by (simp add: str_nul)
  ultimately show ?thesis using assms by (cases "(nk, s, cs)" rule: node_ok.cases) auto
qed

lemma calls_map:
  "\<forall>c \<in> set ps. call_ok c \<Longrightarrow> map call_bytes (map (\<lambda>(k, v). Prop k v) (map (the \<circ> call_prop) ps)) = map call_bytes ps"
  using call_ok_prop by (induction ps) fastforce+

lemma node_tree_calls:
  assumes "node_ok nk s cs" and "length kids = nk"
  shows "map call_bytes (dt_calls (node_tree cs kids)) = map call_bytes cs @ concat (map (map call_bytes \<circ> dt_calls) kids)"
proof -
  obtain ps where cs: "cs = Node_Begin (ptr (Suc (length ps))) (ptr nk) # Prop_Str (str ''name'') (str s) # ps"
    and ok: "\<forall>c \<in> set ps. call_ok c" using node_ok_E [OF assms(1)] by metis
  have "map call_bytes (concat (map dt_calls kids)) = concat (map (map call_bytes \<circ> dt_calls) kids)"
    by (simp add: map_concat)
  then show ?thesis
    using calls_map [OF ok] assms(2) by (simp add: cs node_tree_def)
qed

lemma node_tree_len:
  assumes "node_ok nk s cs" and "length kids = nk"
  shows "length (dt_enc (node_tree cs kids)) = node_len cs + sum_list (map (length \<circ> dt_enc) kids)"
proof -
  have "concat (concat (map (map call_bytes \<circ> dt_calls) kids)) = concat (map dt_enc kids)"
    by (induction kids) (simp_all add: dt_calls_bytes)
  then have "dt_enc (node_tree cs kids) = concat (map call_bytes cs) @ concat (map dt_enc kids)"
    using arg_cong [OF node_tree_calls [OF assms], of concat] by (simp add: dt_calls_bytes)
  then show ?thesis by (simp add: node_len_def length_concat)
qed

lemma node_tree_wf:
  assumes "node_ok nk s cs" and "\<forall>t \<in> set kids. dt_wf t"
  shows "dt_wf (node_tree cs kids)"
proof -
  obtain ps where cs: "cs = Node_Begin (ptr (Suc (length ps))) (ptr nk) # Prop_Str (str ''name'') (str s) # ps"
    and ok: "\<forall>c \<in> set ps. call_ok c" using node_ok_E [OF assms(1)] by metis
  have "\<forall>c \<in> set ps. case (the \<circ> call_prop) c of (k, v) \<Rightarrow> 0 \<notin> set k \<and> (take 31 k = str ''name'' \<longrightarrow> 0 \<in> set v)"
    using ok call_ok_prop by fastforce
  moreover have "0 \<notin> set (str ''name'')" by (simp add: str_nul)
  ultimately show ?thesis using assms(2) by (simp add: node_tree_def cs)
qed

lemma node_tree_named:
  assumes "node_ok nk s cs"
  shows "dt_named (node_tree cs kids) (str s') \<longleftrightarrow> s' = s"
proof -
  obtain ps where cs: "cs = Node_Begin (ptr (Suc (length ps))) (ptr nk) # Prop_Str (str ''name'') (str s) # ps"
    and s: "nul_free s" and ok: "\<forall>c \<in> set ps. call_ok c" using node_ok_E [OF assms(1)] by metis
  have "0 \<notin> set (str s)" using s by (simp add: str_nul nul_free_def)
  then have "cstr (str s @ [0]) = str s" by (subst takeWhile_append2) auto
  moreover have "take 31 (str ''name'') = str ''name''" by simp
  moreover have "\<not> (case (the \<circ> call_prop) c of (k, v) \<Rightarrow> take 31 k = str ''name'' \<and> cstr v = str s')" if "c \<in> set ps" for c
    using ok call_ok_prop that by fastforce
  ultimately show ?thesis by (auto simp: dt_named_def node_tree_def cs str_eq)
qed

end
