(* ===== verification/Stage90_Tree_Props.thy ===== *)
theory Stage90_Tree_Props
  imports Stage90_Tree_Proofs Dt_Roundtrip
begin
text \<open>
  The payload's tree as a whole, its self test, and the way from it to the memory regions.
\<close>

unbundle bit_operations_syntax

subsection \<open>The whole tree\<close>

definition leaf :: "dt_call list \<Rightarrow> dt_tree" where
  "leaf cs = node_tree cs []"

definition stage90_kids :: "dt_config \<Rightarrow> dt_tree list" where
  "stage90_kids cfg =
    [leaf node_device_tree, leaf node_iokit_platform_scaffold, leaf node_msm8974_platform_driver,
     leaf node_msm8974_interrupt_service, leaf node_msm8974_timer_service, leaf node_msm8974_cpu_service,
     leaf node_msm8974_rejected_driver, leaf node_iokit_catalog_property_dryrun,
     leaf node_stage90_platform_personality, leaf node_stage90_interrupt_personality,
     leaf node_stage90_timer_personality, leaf node_stage90_cpu_personality, leaf node_stage90_rejected_personality,
     node_tree (chosen_calls cfg) [leaf (node_memory_map (cfg_ramdisk_va cfg) (cfg_ramdisk_size cfg))],
     leaf node_defaults, leaf (node_memory (cfg_regions cfg)),
     node_tree node_cpus [leaf (node_cpu 0), leaf (node_cpu 1), leaf (node_cpu 2), leaf (node_cpu 3)],
     leaf node_arm_io, leaf node_msm8974_io, leaf node_interrupt_controller, leaf node_timer]"

definition stage90_tree :: "dt_config \<Rightarrow> dt_tree" where
  "stage90_tree cfg = node_tree node_root (stage90_kids cfg)"

lemma chosen_ok: "node_ok 1 ''chosen'' (chosen_calls cfg)"
  by (simp add: chosen_calls_def node_chosen_ok node_chosen_real_dt_ok del: One_nat_def)

lemma chosen_len: "node_len (chosen_calls cfg) \<le> 500"
  using node_chosen_len(1) [of "cfg_tree_d13 cfg"] node_chosen_len(2) [of "cfg_tree_d13 cfg" "cfg_debug_root cfg"]
  by (simp add: chosen_calls_def)

lemma leaf_calls: "node_ok 0 s cs \<Longrightarrow> map call_bytes (dt_calls (leaf cs)) = map call_bytes cs"
  using node_tree_calls [of 0 s cs "[]"] by (simp add: leaf_def)

lemma leaf_len: "node_ok 0 s cs \<Longrightarrow> length (dt_enc (leaf cs)) = node_len cs"
  using node_tree_len [of 0 s cs "[]"] by (simp add: leaf_def)

lemma leaf_wf: "node_ok 0 s cs \<Longrightarrow> dt_wf (leaf cs)"
  using node_tree_wf [of 0 s cs "[]"] by (simp add: leaf_def)

lemma leaf_named: "node_ok 0 s cs \<Longrightarrow> dt_named (leaf cs) (str s') \<longleftrightarrow> s' = s"
  using node_tree_named [of 0 s cs "[]"] by (simp add: leaf_def)

lemmas leaf_oks = node_device_tree_ok node_iokit_platform_scaffold_ok node_msm8974_platform_driver_ok
  node_msm8974_interrupt_service_ok node_msm8974_timer_service_ok node_msm8974_cpu_service_ok
  node_msm8974_rejected_driver_ok node_iokit_catalog_property_dryrun_ok
  node_stage90_platform_personality_ok node_stage90_interrupt_personality_ok
  node_stage90_timer_personality_ok node_stage90_cpu_personality_ok node_stage90_rejected_personality_ok
  node_memory_map_ok node_defaults_ok node_memory_ok node_arm_io_ok node_msm8974_io_ok
  node_interrupt_controller_ok node_timer_ok

lemmas leaf_lens = node_device_tree_len node_iokit_platform_scaffold_len node_msm8974_platform_driver_len
  node_msm8974_interrupt_service_len node_msm8974_timer_service_len node_msm8974_cpu_service_len
  node_msm8974_rejected_driver_len node_iokit_catalog_property_dryrun_len
  node_stage90_platform_personality_len node_stage90_interrupt_personality_len
  node_stage90_timer_personality_len node_stage90_cpu_personality_len node_stage90_rejected_personality_len
  node_memory_map_len node_defaults_len node_arm_io_len node_msm8974_io_len
  node_interrupt_controller_len node_timer_len node_cpu_len node_root_len node_cpus_len

lemmas cpu_oks = node_cpu_ok [of 0, simplified] node_cpu_ok [of 1, simplified]
  node_cpu_ok [of 2, simplified] node_cpu_ok [of 3, simplified]

lemma cpus_calls:
  "map call_bytes (dt_calls (node_tree node_cpus [leaf (node_cpu 0), leaf (node_cpu 1), leaf (node_cpu 2), leaf (node_cpu 3)]))
    = map call_bytes (node_cpus @ concat (map node_cpu [0, 1, 2, 3]))"
  using node_tree_calls [OF node_cpus_ok, of "[leaf (node_cpu 0), leaf (node_cpu 1), leaf (node_cpu 2), leaf (node_cpu 3)]"]
  by (simp add: cpu_oks [THEN leaf_calls])

lemma chosen_tree_calls:
  "map call_bytes (dt_calls (node_tree (chosen_calls cfg) [leaf (node_memory_map va sz)]))
    = map call_bytes (chosen_calls cfg @ node_memory_map va sz)"
  using node_tree_calls [OF chosen_ok, of "[leaf (node_memory_map va sz)]" cfg]
  by (simp add: node_memory_map_ok [THEN leaf_calls])

lemma stage90_builds: "dt_builds (stage90_dt_calls cfg) (stage90_tree cfg)"
proof -
  have "length (stage90_kids cfg) = 21" by (simp add: stage90_kids_def)
  note N = node_tree_calls [OF node_root_ok this]
  have "concat (map (map call_bytes \<circ> dt_calls) (stage90_kids cfg)) =
     map call_bytes (drop 7 (stage90_dt_calls cfg))"
    by (simp add: stage90_kids_def stage90_dt_calls_def leaf_oks [THEN leaf_calls] cpus_calls chosen_tree_calls node_root_def)
  moreover have "stage90_dt_calls cfg = node_root @ drop 7 (stage90_dt_calls cfg)"
    by (simp add: stage90_dt_calls_def node_root_def)
  ultimately show ?thesis
    unfolding dt_builds_def stage90_tree_def N by (metis map_append)
qed

lemma cpus_len: "length (dt_enc (node_tree node_cpus [leaf (node_cpu 0), leaf (node_cpu 1), leaf (node_cpu 2), leaf (node_cpu 3)])) = 1348"
  using node_tree_len [OF node_cpus_ok, of "[leaf (node_cpu 0), leaf (node_cpu 1), leaf (node_cpu 2), leaf (node_cpu 3)]"]
  by (simp add: cpu_oks [THEN leaf_len] leaf_lens)

lemma chosen_tree_len: "length (dt_enc (node_tree (chosen_calls cfg) [leaf (node_memory_map va sz)])) \<le> 600"
  using node_tree_len [OF chosen_ok, of "[leaf (node_memory_map va sz)]" cfg] chosen_len [of cfg]
  by (simp add: node_memory_map_ok [THEN leaf_len] leaf_lens)

lemma stage90_len: "length (dt_enc (stage90_tree cfg)) \<le> 30000"
proof -
  have k: "length (stage90_kids cfg) = 21" by (simp add: stage90_kids_def)
  have "length (dt_enc (stage90_tree cfg)) = node_len node_root + sum_list (map (length \<circ> dt_enc) (stage90_kids cfg))"
    unfolding stage90_tree_def by (rule node_tree_len [OF node_root_ok k])
  also have "\<dots> \<le> 30000"
    using chosen_tree_len [of cfg "cfg_ramdisk_va cfg" "cfg_ramdisk_size cfg"] node_memory_len [of "cfg_regions cfg"]
    by (simp add: stage90_kids_def leaf_oks [THEN leaf_len] leaf_lens cpus_len)
  finally show ?thesis .
qed

lemma stage90_wf: "dt_wf (stage90_tree cfg)"
  unfolding stage90_tree_def
proof (rule node_tree_wf [OF node_root_ok])
  have "dt_wf (node_tree node_cpus [leaf (node_cpu 0), leaf (node_cpu 1), leaf (node_cpu 2), leaf (node_cpu 3)])"
    by (rule node_tree_wf [OF node_cpus_ok]) (simp add: cpu_oks [THEN leaf_wf])
  moreover have "dt_wf (node_tree (chosen_calls cfg) [leaf (node_memory_map va sz)])" for va sz
    by (rule node_tree_wf [OF chosen_ok]) (simp add: node_memory_map_ok [THEN leaf_wf])
  ultimately show "\<forall>t \<in> set (stage90_kids cfg). dt_wf t"
    by (simp add: stage90_kids_def leaf_oks [THEN leaf_wf])
qed

lemma leaf_depth: "dt_depth (leaf cs) = 1"
  by (simp add: leaf_def node_tree_def)

lemma stage90_depth: "dt_depth (stage90_tree cfg) = 3"
  by (simp add: stage90_tree_def stage90_kids_def leaf_depth) (simp add: node_tree_def leaf_depth)

lemma stage90_named: "\<forall>s \<in> set dt_expected. \<exists>c \<in> set (stage90_kids cfg). dt_named c (str s)"
  by (simp add: dt_expected_def stage90_kids_def leaf_oks [THEN leaf_named] node_tree_named [OF chosen_ok] node_tree_named [OF node_cpus_ok])


subsection \<open>The self test on a tree\<close>

lemma dt_find_some:
  assumes "mem_has m n (concat (map dt_enc cs))" and "c \<in> set cs" and "dt_named c s"
  obtains a where "(case dt_find cs n s of None \<Rightarrow> 0 | Some (a, c) \<Rightarrow> ptr a) = ptr a" and "n \<le> a" and "a < 2 ^ 32"
proof -
  have "dt_find cs n s \<noteq> None"
    using assms(2,3) by (induction cs n s rule: dt_find.induct) auto
  then obtain a d where f: "dt_find cs n s = Some (a, d)" by auto
  note D = dt_find_mem [OF assms(1) f]
  have "a < 2 ^ 32" using D(1) by (simp add: mem_has_def)
  then show ?thesis using that [of a] f D(3) by simp
qed

lemma selftest_enc:
  assumes "mem_has m a (dt_enc t)" and "0 < a" and "dt_wf t" and "dt_depth t \<le> fuel"
    and "dt_props t \<noteq> []" and "5 \<le> length (dt_kids t)"
    and "\<forall>s \<in> set dt_expected. \<exists>c \<in> set (dt_kids t). dt_named c (str s)"
  shows "apple_dt_selftest_and_log fuel m (ptr a) (ptr (length (dt_enc t))) = Some True"
proof -
  let ?L = "length (dt_enc t)"
  have lim: "a + ?L < 2 ^ 32" using assms(1) by (simp add: mem_has_def)
  have E: "ptr a + ptr ?L = ptr (a + ?L)" by simp
  have L8: "\<not> ptr ?L < 8" using dt_enc_length [of t] lim ptr_less [of ?L 8] by simp
  note N = node_in_memory [of m a "dt_props t" "dt_kids t", unfolded dt_tree.collapse, OF assms(1)]
  have pn: "ld32 m (ptr a) \<noteq> 0" unfolding N(1) using N(3) assms(5) by (metis length_0_conv unsigned_0)
  have kn: "\<not> ld32 m (ptr a + 4) < 5" unfolding dt_ptr N(2) using N(4) assms(6) by (simp add: word_less_nat_alt)
  have kids: "mem_has m (kids_at a t) (concat (map dt_enc (dt_kids t)))" using N(6) by (simp add: kids_at_def)
  have skip: "skip_node fuel m (ptr a) (ptr (a + ?L)) = Some (ptr (a + ?L))"
    by (rule skip_node_enc [OF assms(1) le_refl lim assms(4)])
  have depth: "dt_depth t \<le> Suc fuel" using assms(4) by simp
  have nul: "0 \<notin> set (str s)" if "s \<in> set dt_expected" for s
    using that by (auto simp: dt_expected_def str_nul)
  have one: "expect_child fuel m (ptr a) (ptr (a + ?L)) s = Some True" if s: "s \<in> set dt_expected" for s
  proof -
    obtain c where "c \<in> set (dt_kids t)" "dt_named c (str s)" using assms(7) s by blast
    then obtain n where n: "(case dt_find (dt_kids t) (kids_at a t) (str s) of None \<Rightarrow> 0 | Some (a, c) \<Rightarrow> ptr a) = ptr n"
      "kids_at a t \<le> n" "n < 2 ^ 32" by (rule dt_find_some [OF kids])
    have "ptr n \<noteq> 0" using n(2,3) by (intro ptr_pos) (simp_all add: kids_at_def)
    then show ?thesis
      unfolding expect_child_def find_child_enc [OF assms(1) le_refl lim assms(3) nul [OF s] depth] n(1) by simp
  qed
  have "expect_all fuel m (ptr a) (ptr (a + ?L)) ss = Some True" if "set ss \<subseteq> set dt_expected" for ss
    using that by (induction ss) (simp_all add: one del: of_nat_add)
  then have "expect_all fuel m (ptr a) (ptr (a + ?L)) dt_expected = Some True" by blast
  then show ?thesis
    unfolding apple_dt_selftest_and_log_def Let_def E if_not_P [OF L8] skip using pn kn by simp
qed

subsection \<open>Properties\<close>

lemma stage90_fits: "\<forall>c \<in> set (stage90_dt_calls cfg). call_fits c"
proof -
  note fits = leaf_oks [THEN node_ok_fits] cpu_oks [THEN node_ok_fits] node_root_ok [THEN node_ok_fits]
    node_cpus_ok [THEN node_ok_fits] chosen_ok [THEN node_ok_fits]
  show ?thesis unfolding stage90_dt_calls_def set_append ball_Un set_concat list.map list.set
    by (intro conjI) (use fits in \<open>simp_all add: ball_Un\<close>)
qed

text \<open>C31. The tree the payload builds is well formed in every configuration: the counts its node
  headers declare are those of the properties and children that follow (more than 700 calls), every
  property name is at most 31 bytes without a NUL, so the builder's 32-byte field keeps all of it,
  the tree fits the 32 KiB of \<open>g_apple_dt\<close> with room to spare, and the builder finishes without
  error on exactly the encoding of that tree.\<close>

theorem stage90_dt_wellformed:
  "list_all call_fits (stage90_dt_calls cfg)
   \<and> dt_builds (stage90_dt_calls cfg) (stage90_tree cfg) \<and> dt_wf (stage90_tree cfg)
   \<and> length (dt_enc (stage90_tree cfg)) \<le> 30000
   \<and> fst (apple_dt_finish (build_stage90_apple_dt cfg)) = ptr (length (dt_enc (stage90_tree cfg)))
   \<and> b_base (snd (apple_dt_finish (build_stage90_apple_dt cfg)))
      = dt_enc (stage90_tree cfg) @ replicate (32768 - length (dt_enc (stage90_tree cfg))) 0"
proof -
  let ?L = "length (dt_enc (stage90_tree cfg))"
  have enc: "concat (map call_bytes (stage90_dt_calls cfg)) = dt_enc (stage90_tree cfg)"
    using stage90_builds [of cfg] dt_calls_bytes [of "stage90_tree cfg"] by (simp add: dt_builds_def)
  have cap: "unat (32768 :: u32) < 2 ^ 31" "?L < 2 ^ 31" "?L \<le> unat (32768 :: u32)"
    using stage90_len [of cfg] by simp_all
  show ?thesis
    using dt_finish_spec(1) [OF enc cap] stage90_builds stage90_wf stage90_len stage90_fits
    by (simp add: build_stage90_apple_dt_def list_all_iff)
qed

lemma stage90_in_memory:
  assumes "apple_dt_finish (build_stage90_apple_dt cfg) = (len, b)" and "mem_has m a (take (unat len) (b_base b))"
  shows "mem_has m a (dt_enc (stage90_tree cfg))" and "len = ptr (length (dt_enc (stage90_tree cfg)))"
proof -
  let ?L = "length (dt_enc (stage90_tree cfg))"
  have enc: "concat (map call_bytes (stage90_dt_calls cfg)) = dt_enc (stage90_tree cfg)"
    using stage90_builds [of cfg] dt_calls_bytes [of "stage90_tree cfg"] by (simp add: dt_builds_def)
  have cap: "unat (32768 :: u32) < 2 ^ 31" "?L < 2 ^ 31" "?L \<le> unat (32768 :: u32)"
    using stage90_len [of cfg] by simp_all
  note F = dt_finish_spec(1) [OF enc cap]
  show len: "len = ptr ?L" using F assms(1) by (simp add: build_stage90_apple_dt_def)
  then have "unat len = ?L" using cap(2) by (simp add: unat_of_nat)
  moreover have "b_base b = dt_enc (stage90_tree cfg) @ replicate (unat (32768 :: u32) - ?L) 0"
    using F assms(1) by (simp add: build_stage90_apple_dt_def)
  ultimately show "mem_has m a (dt_enc (stage90_tree cfg))" using assms(2) by simp
qed

text \<open>The self test of the handoff passes on the payload's own tree: wherever the finished blob
  is loaded, \<open>apple_dt_selftest_and_log\<close> walks it to its exact end and finds all twenty nodes it
  expects.\<close>

theorem stage90_dt_selftest_passes:
  assumes "apple_dt_finish (build_stage90_apple_dt cfg) = (len, b)"
    and "mem_has m a (take (unat len) (b_base b))" and "0 < a" and "3 \<le> fuel"
  shows "apple_dt_selftest_and_log fuel m (ptr a) len = Some True"
proof -
  note M = stage90_in_memory [OF assms(1,2)]
  have kids: "dt_kids (stage90_tree cfg) = stage90_kids cfg" by (simp add: stage90_tree_def node_tree_def)
  have "dt_props (stage90_tree cfg) \<noteq> []" by (simp add: stage90_tree_def node_tree_def node_root_def)
  moreover have "5 \<le> length (dt_kids (stage90_tree cfg))" unfolding kids by (simp add: stage90_kids_def)
  ultimately show ?thesis
    unfolding M(2) using assms(4) stage90_depth [of cfg] stage90_named [of cfg]
    by (intro selftest_enc [OF M(1) assms(3) stage90_wf]) (simp_all add: kids)
qed

theorem stage90_dt_selftest_passes_witness:
  "\<exists>m. apple_dt_selftest_and_log 3 m 0x80000000
     (fst (apple_dt_finish (build_stage90_apple_dt
        \<lparr>cfg_regions = True, cfg_real_dt = False, cfg_tree_d13 = False, cfg_debug_root = 0, cfg_ramdisk_va = 0x80800000, cfg_ramdisk_size = 0x10000\<rparr>)))
     = Some True"
proof -
  let ?cfg = "\<lparr>cfg_regions = True, cfg_real_dt = False, cfg_tree_d13 = False, cfg_debug_root = 0, cfg_ramdisk_va = 0x80800000, cfg_ramdisk_size = 0x10000\<rparr>"
  let ?f = "apple_dt_finish (build_stage90_apple_dt ?cfg)"
  let ?bs = "take (unat (fst ?f)) (b_base (snd ?f))"
  have "length (b_base (snd ?f)) \<le> 32768"
    using dt_finish_spec(1) [of "stage90_dt_calls ?cfg" "stage90_tree ?cfg" 32768] stage90_len [of ?cfg]
      stage90_builds [of ?cfg] dt_calls_bytes [of "stage90_tree ?cfg"]
    by (simp add: build_stage90_apple_dt_def dt_builds_def)
  then have "mem_has (mem_of 2147483648 ?bs) 2147483648 ?bs" by (intro mem_of_has) simp
  from stage90_dt_selftest_passes [OF surjective_pairing this, of 3] show ?thesis by auto
qed


lemma le32_words:
  "i < length ws \<Longrightarrow> j < 4 \<Longrightarrow> concat (map le32 ws) ! (4 * i + j) = le32 (ws ! i) ! j"
proof (induction ws arbitrary: i)
  case (Cons w ws)
  then show ?case by (cases i) (simp_all add: nth_append)
qed simp

lemma ld32_bytes:
  assumes "\<forall>j < 4. m (x + ptr j) = le32 w ! j"
  shows "ld32 m x = w"
proof -
  have "mem_has (\<lambda>y. m (x + y)) 0 (le32 w)" using assms by (simp add: mem_has_def)
  from ld32_le32 [OF this] show ?thesis by (simp add: ld32_def)
qed

lemma memory_reg_walk:
  "fst (xnu_memory_regions_walk (Some (memory_reg rg)) (ptr (length (memory_reg rg))) RAM_PHYS_BASE None 0) = (if rg then 4 else 1)"
proof -
  have up: "[0..<4] = [0, 1, 2, 3 :: nat]" "[0..<Suc 0] = [0 :: nat]" by (simp_all add: upt_rec)
  have up2: "[0..<2] = [0, 1 :: nat]" "[0..<3] = [0, 1, 2 :: nat]" by (simp_all add: upt_rec)
  have dr: "drop_bit (Suc 0) (8 :: u32) = 4" "drop_bit (Suc 0) (2 :: u32) = 1" by (simp_all add: drop_bit_Suc)
  show ?thesis
    by (cases rg) (simp_all add: xnu_memory_regions_walk_def mr_overlap_def memory_reg_def RAM_PHYS_BASE_def
      RAM_BOOT_BANK_SIZE_def word_less_nat_alt up up2 dr)
qed

text \<open>From the tree to the memory map: in the blob, \<open>/memory\<close> is found, its \<open>reg\<close> property holds
  the words of \<open>memory_reg\<close>, and the region walk accepts them: the boot bank alone, or the boot bank
  and the three spans of the low bank, which are pairwise disjoint and leave the two carveouts out.\<close>

theorem stage90_memory_regions:
  assumes "apple_dt_finish (build_stage90_apple_dt cfg) = (len, b)"
    and "mem_has m a (take (unat len) (b_base b))" and "0 < a" and "3 \<le> fuel"
  shows "\<exists>p q. apple_dt_find_child fuel m (ptr a) len 0 (str ''memory'') = Some p \<and> p \<noteq> 0
    \<and> apple_dt_get_prop m (ptr a) len p (str ''reg'') = (q, ptr (4 * length (memory_reg (cfg_regions cfg)))) \<and> q \<noteq> 0
    \<and> (\<forall>i < length (memory_reg (cfg_regions cfg)). ld32 m (q + ptr (4 * i)) = memory_reg (cfg_regions cfg) ! i)
    \<and> fst (xnu_memory_regions_walk (Some (memory_reg (cfg_regions cfg))) (ptr (length (memory_reg (cfg_regions cfg))))
        RAM_PHYS_BASE None 0) = (if cfg_regions cfg then 4 else 1)"
proof -
  let ?rg = "cfg_regions cfg"
  let ?ws = "memory_reg ?rg" and ?t = "stage90_tree cfg"
  have cap: "unat (32768 :: u32) < 2 ^ 31" "length (dt_enc ?t) \<le> unat (32768 :: u32)"
    using stage90_len [of cfg] by simp_all
  have depth: "dt_depth ?t \<le> fuel" using assms(4) by (simp add: stage90_depth)
  note R = dt_roundtrip [OF stage90_wf stage90_builds cap assms(1) [unfolded build_stage90_apple_dt_def] assms(2,3) depth]
  have child: "dt_child ?t (str ''memory'') = Some (leaf (node_memory ?rg))"
    by (simp add: dt_child_def stage90_tree_def node_tree_def [of node_root] stage90_kids_def
      leaf_oks [THEN leaf_named] node_tree_named [OF chosen_ok])
  have val: "dt_value (leaf (node_memory ?rg)) (str ''reg'') = Some (concat (map le32 ?ws))"
    by (simp add: dt_value_def leaf_def node_tree_def node_memory_def str_take str_eq)
  have nul: "0 \<notin> set (str ''memory'')" "0 \<notin> set (str ''reg'')" by (simp_all add: str_nul)
  have len: "length (concat (map le32 ws)) = 4 * length ws" for ws
    by (induction ws) simp_all
  obtain p where p: "p \<noteq> 0" "apple_dt_find_child fuel m (ptr a) len 0 (str ''memory'') = Some p"
    and g: "\<forall>k. 0 \<notin> set k \<longrightarrow> (case dt_value (leaf (node_memory ?rg)) k of
                None \<Rightarrow> apple_dt_get_prop m (ptr a) len p k = (0, 0)
              | Some v \<Rightarrow> \<exists>q. q \<noteq> 0 \<and> apple_dt_get_prop m (ptr a) len p k = (q, ptr (length v))
                  \<and> (\<forall>i < length v. m (q + ptr i) = v ! i))"
    using conjunct2 [OF R, rule_format, OF nul(1), unfolded child option.case] by blast
  obtain q where q: "q \<noteq> 0" "apple_dt_get_prop m (ptr a) len p (str ''reg'') = (q, ptr (4 * length ?ws))"
    "\<forall>i < 4 * length ?ws. m (q + ptr i) = concat (map le32 ?ws) ! i"
    using g [rule_format, OF nul(2), unfolded val option.case len] by blast
  have words: "ld32 m (q + ptr (4 * i)) = ?ws ! i" if i: "i < length ?ws" for i
  proof (rule ld32_bytes, intro allI impI)
    fix j :: nat assume j: "j < 4"
    then have "4 * i + j < 4 * length ?ws" using i by linarith
    then have "m (q + ptr (4 * i + j)) = concat (map le32 ?ws) ! (4 * i + j)" using q(3) by blast
    then show "m (q + ptr (4 * i) + ptr j) = le32 (?ws ! i) ! j"
      unfolding le32_words [OF i j] by (simp add: add.assoc)
  qed
  show ?thesis using p q(1,2) words memory_reg_walk by blast
qed

theorem stage90_memory_regions_witness:
  "\<exists>m p q. apple_dt_find_child 3 m 0x80000000
     (fst (apple_dt_finish (build_stage90_apple_dt
        \<lparr>cfg_regions = True, cfg_real_dt = True, cfg_tree_d13 = True, cfg_debug_root = 0, cfg_ramdisk_va = 0, cfg_ramdisk_size = 0\<rparr>)))
     0 (str ''memory'') = Some p \<and> ld32 m (q + 4) = 0x5e500000"
proof -
  let ?cfg = "\<lparr>cfg_regions = True, cfg_real_dt = True, cfg_tree_d13 = True, cfg_debug_root = 0, cfg_ramdisk_va = 0, cfg_ramdisk_size = 0\<rparr>"
  let ?f = "apple_dt_finish (build_stage90_apple_dt ?cfg)"
  let ?bs = "take (unat (fst ?f)) (b_base (snd ?f))"
  have "length (b_base (snd ?f)) \<le> 32768"
    using dt_finish_spec(1) [of "stage90_dt_calls ?cfg" "stage90_tree ?cfg" 32768] stage90_len [of ?cfg]
      stage90_builds [of ?cfg] dt_calls_bytes [of "stage90_tree ?cfg"]
    by (simp add: build_stage90_apple_dt_def dt_builds_def)
  then have "mem_has (mem_of 2147483648 ?bs) 2147483648 ?bs" by (intro mem_of_has) simp
  from stage90_memory_regions [OF surjective_pairing this, of 3]
  obtain p q where "apple_dt_find_child 3 (mem_of 2147483648 ?bs) 0x80000000 (fst ?f) 0 (str ''memory'') = Some p"
    and "\<forall>i < length (memory_reg True). ld32 (mem_of 2147483648 ?bs) (q + ptr (4 * i)) = memory_reg True ! i"
    by auto
  moreover from this(2) have "ld32 (mem_of 2147483648 ?bs) (q + ptr (4 * 1)) = memory_reg True ! 1"
    by (rule allE [of _ 1]) (simp add: memory_reg_def)
  ultimately show ?thesis by (auto simp: memory_reg_def RAM_BOOT_BANK_SIZE_def)
qed

text \<open>The simulated boot entropy: exactly one of the sixty-four bytes of \<open>random-seed\<close> is zero,
  as the comment on the rule says, so \<open>PE_get_random_seed\<close>'s all-null test does not reject it.\<close>

theorem random_seed_one_null:
  "length (filter (\<lambda>x. x = 0) (build_chosen_random_seed 64)) = 1"
  by code_simp

end
