(* ===== verification/Handoff_Props.thy ===== *)
theory Handoff_Props
  imports Handoff Stage90_Tree_Props
begin

text \<open>
  The handoff on the payload's own tree: the platform state it ends in, and that every check of
  the chain passes.
\<close>

unbundle bit_operations_syntax

subsection \<open>Look-ups in the loaded blob\<close>

text \<open>Where a child of the root lies in memory.\<close>

lemma child_in_memory:
  assumes "mem_has m a (dt_enc t)" and "0 < a" and "dt_wf t" and "dt_depth t \<le> fuel" and "0 \<notin> set s"
    and "dt_child t s = Some c" and "node = 0 \<or> node = ptr a"
  obtains n where "apple_dt_find_child fuel m (ptr a) (ptr (length (dt_enc t))) node s = Some (ptr n)"
    and "mem_has m n (dt_enc c)" and "n + length (dt_enc c) \<le> a + length (dt_enc t)" and "0 < n" and "ptr n \<noteq> 0" and "dt_wf c"
proof -
  let ?L = "length (dt_enc t)"
  have lim: "a + ?L < 2 ^ 32" using assms(1) by (simp add: mem_has_def)
  have root: "(if node \<noteq> 0 then node else ptr a) = ptr a" using assms(7) by auto
  have E: "ptr a + ptr ?L = ptr (a + ?L)" by simp
  have depth: "dt_depth t \<le> Suc fuel" using assms(4) by simp
  have find: "apple_dt_find_child fuel m (ptr a) (ptr ?L) node s =
      Some (case dt_find (dt_kids t) (kids_at a t) s of None \<Rightarrow> 0 | Some (n, c) \<Rightarrow> ptr n)"
    unfolding apple_dt_find_child_def root E by (rule find_child_enc [OF assms(1) le_refl lim assms(3,5) depth])
  have kids: "mem_has m (kids_at a t) (concat (map dt_enc (dt_kids t)))" "a < kids_at a t"
    "kids_at a t + length (concat (map dt_enc (dt_kids t))) = a + ?L"
    using assms(1) node_in_memory(6) [of m a "dt_props t" "dt_kids t"] by (cases t; simp add: kids_at_def)+
  have "map_option snd (dt_find (dt_kids t) (kids_at a t) s) = Some c"
    using assms(6) dt_find_child [of "dt_kids t" "kids_at a t" s] by (simp add: dt_child_def)
  then obtain n where n: "dt_find (dt_kids t) (kids_at a t) s = Some (n, c)" by (auto simp: map_option_eq_Some)
  note C = dt_find_mem [OF kids(1) n]
  have pos: "0 < n" using C(3) kids(2) by linarith
  have inside: "n + length (dt_enc c) \<le> a + ?L" using C(4) kids(3) by linarith
  have nz: "ptr n \<noteq> 0" using pos inside lim by (intro ptr_pos) linarith+
  have "dt_wf c" using assms(3) C(2) by (cases t) simp
  then show ?thesis using that find n C(1) inside pos nz by simp
qed

lemma prop_in_blob:
  assumes "mem_has m n (dt_enc c)" and "n + length (dt_enc c) \<le> a + L" and "a + L < 2 ^ 32" and "0 < n" and "dt_wf c"
    and "0 \<notin> set k" and "dt_value c k = Some (concat (map le32 ws))"
  obtains q where "apple_dt_get_prop m (ptr a) (ptr L) (ptr n) k = (ptr q, ptr (4 * length ws))" and "ptr q \<noteq> 0"
    and "4 * length ws < 2 ^ 32" and "\<forall>i < length ws. ld32 m (ptr q + 4 * ptr i) = ws ! i"
proof -
  have len: "length (concat (map le32 ws)) = 4 * length ws" for ws by (induction ws) simp_all
  note G = get_prop_enc [OF assms(1,2,3,5,6,4)]
  obtain av where av: "dt_lookup (dt_props c) (n + 8) k = Some av"
    using dt_lookup_value [of "dt_props c" "n + 8" k] assms(7) by (auto simp: dt_value_def map_option_eq_Some)
  obtain q v where qv: "av = (q, v)" by fastforce
  have "map_option snd (dt_lookup (dt_props c) (n + 8) k) = Some (concat (map le32 ws))"
    using dt_lookup_value [of "dt_props c" "n + 8" k] assms(7) by (simp only: dt_value_def)
  then have v: "v = concat (map le32 ws)" unfolding av qv by simp
  have mem: "mem_has m q v" using G av qv by simp
  then have lim: "q + 4 * length ws < 2 ^ 32" by (simp add: mem_has_def v len)
  have "n + 8 < q" using dt_lookup_bound av qv by blast
  then have nz: "ptr q \<noteq> 0" using lim by (intro ptr_pos) linarith+
  have words: "ld32 m (ptr q + 4 * ptr i) = ws ! i" if i: "i < length ws" for i
  proof (rule ld32_bytes, intro allI impI)
    fix j :: nat assume j: "j < 4"
    then have "4 * i + j < length v" using i by (simp add: v len)
    moreover have "\<forall>i < length v. m (ptr (q + i)) = v ! i" using mem unfolding mem_has_def by (rule conjunct2)
    ultimately have "m (ptr (q + (4 * i + j))) = v ! (4 * i + j)" by (simp only:)
    then show "m (ptr q + 4 * ptr i + ptr j) = le32 (ws ! i) ! j"
      unfolding v le32_words [OF i j] by (simp add: add.assoc)
  qed
  show ?thesis using that [of q] G av qv nz lim words by (simp add: v len)
qed

lemma reg_value_blob:
  assumes "mem_has m n (dt_enc c)" and "n + length (dt_enc c) \<le> a + L" and "a + L < 2 ^ 32" and "0 < n" and "dt_wf c"
    and "0 \<notin> set k" and "dt_value c k = Some (concat (map le32 ws))" and "unat i < length ws"
  shows "reg_value m (ptr a) (ptr L) (ptr n) k i fb = ws ! unat i"
proof -
  obtain q where q: "apple_dt_get_prop m (ptr a) (ptr L) (ptr n) k = (ptr q, ptr (4 * length ws))" "ptr q \<noteq> 0"
    "4 * length ws < 2 ^ 32" "\<forall>i < length ws. ld32 m (ptr q + 4 * ptr i) = ws ! i"
    by (rule prop_in_blob [OF assms(1-7)])
  have "unat i + 1 \<le> length ws" using assms(8) by simp
  then have small: "(unat i + 1) * 4 \<le> 4 * length ws" by (metis mult.commute mult_le_mono2)
  have "unat ((i + 1) * 4) = (unat i + 1) * 4"
  proof -
    have one: "unat (i + 1) = unat i + 1" using small q(3) by (subst unat_plus_u32_small) simp_all
    then show ?thesis using small q(3) by (subst unat_mult_u32_small) simp_all
  qed
  then have "\<not> ptr (4 * length ws) < (i + 1) * 4"
    using small q(3) unat_ptr [of "4 * length ws"] by (simp add: word_less_nat_alt)
  then show ?thesis
    using q(2) q(4) [rule_format, OF assms(8)] unfolding reg_value_def q(1) by simp
qed

lemma u32_prop_blob:
  assumes "mem_has m n (dt_enc c)" and "n + length (dt_enc c) \<le> a + L" and "a + L < 2 ^ 32" and "0 < n" and "dt_wf c"
    and "0 \<notin> set k" and "dt_value c k = Some (le32 w)"
  shows "apple_dt_get_u32_prop m (ptr a) (ptr L) (ptr n) k fb = w"
proof -
  have "dt_value c k = Some (concat (map le32 [w]))" using assms(7) by simp
  then obtain q where q: "apple_dt_get_prop m (ptr a) (ptr L) (ptr n) k = (ptr q, ptr (4 * length [w]))" "ptr q \<noteq> 0"
    "\<forall>i < length [w]. ld32 m (ptr q + 4 * ptr i) = [w] ! i"
    by (rule prop_in_blob [OF assms(1-6)])
  then show ?thesis by (simp add: apple_dt_get_u32_prop_def)
qed

lemma child_count_blob:
  assumes "mem_has m n (dt_enc c)" and "n + length (dt_enc c) \<le> a + L" and "a + L < 2 ^ 32" and "ptr n \<noteq> 0"
  shows "apple_dt_node_child_count m (ptr a) (ptr L) (ptr n) = ptr (length (dt_kids c))"
proof (cases c)
  case (Dt_Node ps cs)
  note N = node_in_memory [OF assms(1) [unfolded Dt_Node]]
  have "n + 8 \<le> a + L" using assms(2) dt_enc_length [of c] by linarith
  then have e8: "\<not> ptr (n + 8) > ptr (a + L)" by (rule ptr_gt [OF assms(3)])
  then show ?thesis
    unfolding apple_dt_node_child_count_def Let_def if_P [OF assms(4)] dt_ptr N(2) Dt_Node dt_tree.sel by simp
qed

subsection \<open>Properties\<close>

text \<open>C27. The whole handoff passes on what the payload builds: with the finished tree loaded anywhere
  and the \<open>boot_args\<close> that \<open>build_boot_args\<close> fills for it, \<open>test_kernel_entry\<close> and
  \<open>pexpert_discover_and_log\<close> succeed, and the platform state read back from the tree passes
  \<open>pe_state_validate\<close>.\<close>

theorem handoff_accepts_own_tree:
  assumes "apple_dt_finish (build_stage90_apple_dt cfg) = (len, b)"
    and "mem_has m a (take (unat len) (b_base b))" and "0 < a" and "3 \<le> fuel"
    and "args = build_boot_args image_end (cfg_tree_d13 cfg) (ptr a) len" and "p \<noteq> 0" and "vectors \<noteq> 0"
  shows "test_kernel_entry fuel m (Some args) = Some True
    \<and> pexpert_discover_and_log fuel m args = Some True
    \<and> map_option pe_state_validate (pe_state_init_from_boot_args fuel m vectors (Some (p, args))) = Some True"
proof -
  let ?t = "stage90_tree cfg"
  let ?L = "length (dt_enc ?t)"
  note M = stage90_in_memory [OF assms(1,2)]
  have lim: "a + ?L < 2 ^ 32" using M(1) by (simp add: mem_has_def)
  have a0: "ptr a \<noteq> 0" using assms(3) lim by (intro ptr_pos) linarith+
  have l0: "len \<noteq> 0" unfolding M(2) using dt_enc_length [of ?t] lim by (intro ptr_pos) linarith+
  have depth: "dt_depth ?t \<le> fuel" using assms(4) by (simp add: stage90_depth)
  have selftest: "apple_dt_selftest_and_log fuel m (ptr a) len = Some True"
  proof -
    have kids: "dt_kids ?t = stage90_kids cfg" by (simp add: stage90_tree_def node_tree_def)
    have "dt_props ?t \<noteq> []" by (simp add: stage90_tree_def node_tree_def node_root_def)
    moreover have "5 \<le> length (dt_kids ?t)" unfolding kids by (simp add: stage90_kids_def)
    ultimately show ?thesis
      unfolding M(2) using depth stage90_named [of cfg]
      by (intro selftest_enc [OF M(1) assms(3) stage90_wf]) (simp_all add: kids)
  qed
  have dt: "ba_deviceTreeP args = ptr a" "ba_deviceTreeLength args = len" "ba_Revision args = BOOT_ARGS_REVISION"
    "ba_Version args = BOOT_ARGS_VERSION"
    using assms(5) by (simp_all add: build_boot_args_def Let_def)
  have entry: "test_kernel_entry fuel m (Some args) = Some True"
    by (simp add: test_kernel_entry_def dt a0 l0 selftest)
  note child = child_in_memory [OF M(1) assms(3) stage90_wf depth _ _ disjI2 [OF refl], folded M(2)]
  have kids: "dt_child ?t (str s) = List.find (\<lambda>c. dt_named c (str s)) (stage90_kids cfg)" for s
    by (simp add: dt_child_def stage90_tree_def node_tree_def [of node_root])
  note named = leaf_oks [THEN leaf_named] node_tree_named [OF chosen_ok] node_tree_named [OF node_cpus_ok]
  have some: "dt_child ?t (str ''memory'') = Some (leaf (node_memory (cfg_regions cfg)))"
    "dt_child ?t (str ''cpus'') = Some (node_tree node_cpus [leaf (node_cpu 0), leaf (node_cpu 1), leaf (node_cpu 2), leaf (node_cpu 3)])"
    "dt_child ?t (str ''interrupt-controller'') = Some (leaf node_interrupt_controller)"
    "dt_child ?t (str ''timer'') = Some (leaf node_timer)"
    "dt_child ?t (str ''chosen'') = Some (node_tree (chosen_calls cfg) [leaf (node_memory_map (cfg_ramdisk_va cfg) (cfg_ramdisk_size cfg))])"
    "dt_child ?t (str ''iokit-platform-scaffold'') = Some (leaf node_iokit_platform_scaffold)"
    "dt_child ?t (str ''msm8974-platform-driver'') = Some (leaf node_msm8974_platform_driver)"
    unfolding kids by (simp_all add: stage90_kids_def named)
  have nul: "0 \<notin> set (str ''memory'')" "0 \<notin> set (str ''cpus'')" "0 \<notin> set (str ''interrupt-controller'')"
    "0 \<notin> set (str ''timer'')" "0 \<notin> set (str ''chosen'')" "0 \<notin> set (str ''iokit-platform-scaffold'')"
    "0 \<notin> set (str ''msm8974-platform-driver'')" "0 \<notin> set (str ''reg'')" "0 \<notin> set (str ''frequency'')"
    by (simp_all add: str_nul)
  obtain n1 where n1: "apple_dt_find_child fuel m (ptr a) len (ptr a) (str ''memory'') = Some (ptr n1)"
    "mem_has m n1 (dt_enc (leaf (node_memory (cfg_regions cfg))))"
    "n1 + length (dt_enc (leaf (node_memory (cfg_regions cfg)))) \<le> a + ?L" "0 < n1" "ptr n1 \<noteq> 0" "dt_wf (leaf (node_memory (cfg_regions cfg)))"
    by (rule child [OF nul(1) some(1)])
  obtain n2 where n2: "apple_dt_find_child fuel m (ptr a) len (ptr a) (str ''cpus'') = Some (ptr n2)"
    "mem_has m n2 (dt_enc (node_tree node_cpus [leaf (node_cpu 0), leaf (node_cpu 1), leaf (node_cpu 2), leaf (node_cpu 3)]))"
    "n2 + length (dt_enc (node_tree node_cpus [leaf (node_cpu 0), leaf (node_cpu 1), leaf (node_cpu 2), leaf (node_cpu 3)])) \<le> a + ?L"
    "ptr n2 \<noteq> 0"
    by (rule child [OF nul(2) some(2)])
  obtain n3 where n3: "apple_dt_find_child fuel m (ptr a) len (ptr a) (str ''interrupt-controller'') = Some (ptr n3)"
    "mem_has m n3 (dt_enc (leaf node_interrupt_controller))" "n3 + length (dt_enc (leaf node_interrupt_controller)) \<le> a + ?L"
    "0 < n3" "ptr n3 \<noteq> 0" "dt_wf (leaf node_interrupt_controller)"
    by (rule child [OF nul(3) some(3)])
  obtain n4 where n4: "apple_dt_find_child fuel m (ptr a) len (ptr a) (str ''timer'') = Some (ptr n4)"
    "mem_has m n4 (dt_enc (leaf node_timer))" "n4 + length (dt_enc (leaf node_timer)) \<le> a + ?L"
    "0 < n4" "ptr n4 \<noteq> 0" "dt_wf (leaf node_timer)"
    by (rule child [OF nul(4) some(4)])
  obtain n5 where n5: "apple_dt_find_child fuel m (ptr a) len (ptr a) (str ''chosen'') = Some (ptr n5)" "ptr n5 \<noteq> 0"
    by (rule child [OF nul(5) some(5)])
  obtain n6 where n6: "apple_dt_find_child fuel m (ptr a) len (ptr a) (str ''iokit-platform-scaffold'') = Some (ptr n6)" "ptr n6 \<noteq> 0"
    by (rule child [OF nul(6) some(6)])
  obtain n7 where n7: "apple_dt_find_child fuel m (ptr a) len (ptr a) (str ''msm8974-platform-driver'') = Some (ptr n7)" "ptr n7 \<noteq> 0"
    by (rule child [OF nul(7) some(7)])
  have discover: "pexpert_discover_and_log fuel m args = Some True"
    by (simp add: pexpert_discover_and_log_def dt n1(1,5) n2(1,4) n3(1,5) n4(1,5) n5 n6 n7)
  have vals: "dt_value (leaf (node_memory rg)) (str ''reg'') = Some (concat (map le32 (memory_reg rg)))"
    "dt_value (leaf node_interrupt_controller) (str ''reg'') = Some (concat (map le32 gic_reg))"
    "dt_value (leaf node_timer) (str ''reg'') = Some (concat (map le32 timer_reg))"
    "dt_value (leaf node_timer) (str ''frequency'') = Some (le32 19200000)" for rg
    by (simp_all add: dt_value_def leaf_def node_tree_def node_memory_def node_interrupt_controller_def node_timer_def str_take str_eq)
  note R1 = reg_value_blob [OF n1(2,3) lim n1(4,6) nul(8) vals(1), folded M(2)]
  note R3 = reg_value_blob [OF n3(2,3) lim n3(4,6) nul(8) vals(2), folded M(2)]
  note R4 = reg_value_blob [OF n4(2,3) lim n4(4,6) nul(8) vals(3), folded M(2)]
  have regs: "reg_value m (ptr a) len (ptr n1) (str ''reg'') 0 0 = RAM_PHYS_BASE"
    "reg_value m (ptr a) len (ptr n1) (str ''reg'') 1 0 = RAM_BOOT_BANK_SIZE"
    "reg_value m (ptr a) len (ptr n3) (str ''reg'') 0 0 = 0xf9000000"
    "reg_value m (ptr a) len (ptr n3) (str ''reg'') 2 0 = 0xf9002000"
    "reg_value m (ptr a) len (ptr n4) (str ''reg'') 0 0 = 0xf9020000"
    using R1 [of 0 0] R1 [of 1 0] R3 [of 0 0] R3 [of 2 0] R4 [of 0 0]
    by (simp_all add: memory_reg_def gic_reg_def timer_reg_def)
  have freq: "apple_dt_get_u32_prop m (ptr a) len (ptr n4) (str ''frequency'') 0 = 19200000"
    using u32_prop_blob [OF n4(2,3) lim n4(4,6) nul(9) vals(4)] M(2) by simp
  have cpus: "apple_dt_node_child_count m (ptr a) len (ptr n2) = 4"
    using child_count_blob [OF n2(2,3) lim n2(4)] M(2) by (simp add: node_tree_def)
  have bank: "RAM_BOOT_BANK_SIZE = RAM_CONSOLE_BASE - RAM_PHYS_BASE"
    by (simp add: RAM_BOOT_BANK_SIZE_def RAM_CONSOLE_BASE_def RAM_PHYS_BASE_def)
  have "map_option pe_state_validate (pe_state_init_from_boot_args fuel m vectors (Some (p, args))) = Some True"
    using assms(6,7) a0 l0
    by (simp add: pe_state_init_from_boot_args_def pe_state_from_dt_def pe_state_validate_def dt Let_def
      n1(1,5) n2(1,4) n3(1,5) n4(1,5) regs freq cpus bank)
  then show ?thesis using entry discover by blast
qed

theorem handoff_accepts_own_tree_witness:
  "\<exists>m args. test_kernel_entry 3 m (Some args) = Some True \<and> ba_deviceTreeP args = 0x80000000"
proof -
  let ?cfg = "\<lparr>cfg_regions = False, cfg_real_dt = False, cfg_tree_d13 = True, cfg_debug_root = 0, cfg_ramdisk_va = 0, cfg_ramdisk_size = 0\<rparr>"
  let ?f = "apple_dt_finish (build_stage90_apple_dt ?cfg)"
  let ?bs = "take (unat (fst ?f)) (b_base (snd ?f))"
  have "length (b_base (snd ?f)) \<le> 32768"
    using dt_finish_spec(1) [of "stage90_dt_calls ?cfg" "stage90_tree ?cfg" 32768] stage90_len [of ?cfg]
      stage90_builds [of ?cfg] dt_calls_bytes [of "stage90_tree ?cfg"]
    by (simp add: build_stage90_apple_dt_def dt_builds_def)
  then have "mem_has (mem_of 2147483648 ?bs) 2147483648 ?bs" by (intro mem_of_has) simp
  from handoff_accepts_own_tree [OF surjective_pairing this, of 3 _ 0 1 1]
  have "test_kernel_entry 3 (mem_of 2147483648 ?bs) (Some (build_boot_args 0 True 0x80000000 (fst ?f))) = Some True"
    by simp
  moreover have "ba_deviceTreeP (build_boot_args 0 True 0x80000000 (fst ?f)) = 0x80000000"
    by (simp add: build_boot_args_def Let_def)
  ultimately show ?thesis by blast
qed

text \<open>The command line is never cut: the literal with its NUL fits the field in both kernel-tree
  flavours, and the field holds exactly it, padded with zeros, so the last token survives.\<close>

theorem boot_command_line_whole:
  "length (boot_cmd tree_d13) \<le> BOOT_LINE_LENGTH
   \<and> ba_CommandLine (build_boot_args image_end tree_d13 dt dt_len)
     = boot_cmd tree_d13 @ replicate (BOOT_LINE_LENGTH - length (boot_cmd tree_d13)) 0"
proof -
  have len: "length (boot_cmd tree_d13) \<le> 256"
    by (cases tree_d13) (simp_all add: boot_cmd_def STAGE90_BOOT_IDLE_TOKEN_def)
  have "(xs @ replicate (256 - length xs) 0)[255 := 0] = xs @ replicate (256 - length xs) (0 :: u8)"
    if "length xs \<le> 256" "xs \<noteq> []" "last xs = 0" for xs :: bytes
  proof (rule nth_equalityI)
    fix i assume "i < length ((xs @ replicate (256 - length xs) 0)[255 := 0])"
    moreover have "xs ! 255 = 0" if "length xs = 256"
      using \<open>last xs = 0\<close> \<open>xs \<noteq> []\<close> that by (simp add: last_conv_nth)
    ultimately show "(xs @ replicate (256 - length xs) 0)[255 := 0] ! i = (xs @ replicate (256 - length xs) 0) ! i"
      using that(1) by (cases "i = 255") (auto simp: nth_append nth_list_update)
  qed simp
  moreover have "boot_cmd tree_d13 \<noteq> []" "last (boot_cmd tree_d13) = 0" by (simp_all add: boot_cmd_def)
  ultimately have "(boot_cmd tree_d13 @ replicate (256 - length (boot_cmd tree_d13)) 0)[255 := 0]
      = boot_cmd tree_d13 @ replicate (256 - length (boot_cmd tree_d13)) 0"
    using len by blast
  then show ?thesis
    using len unfolding build_boot_args_def BOOT_LINE_LENGTH_def Let_def splice_def
    by (simp del: list_update_append)
qed

end
