(* ===== verification/Entry_Irq.thy ===== *)
theory Entry_Irq
  imports Prelude
begin

text \<open>
  The second-level interrupt handler of src/src/entry/entry_irq.c with the constants of
  src/src/entry/entry_gic.h: the client registry, the per-line distributor setup, the dispatcher,
  the arming sequence and the re-pointing of the register window.  The file's statics are one
  record.  What lies outside the file is the record \<open>irq_world\<close> of functions on a state of type
  \<open>'w\<close>: device registers, the words of \<open>BootCpuData\<close>, the kernel's \<open>rtclock_intr\<close> and
  \<open>ml_install_interrupt_handler\<close>, and the clients' handlers (a function pointer is its address).
  The kernel's timer handler and a client may call back into this file, so both may change its
  statics.  \<open>IRQ_LIVE\<close> records are left out, their register reads kept.
\<close>

unbundle bit_operations_syntax

definition STAGE90_GIC_DIST_BASE :: u32 where "STAGE90_GIC_DIST_BASE = 0xf9000000"
definition STAGE90_GIC_CPU_BASE :: u32 where "STAGE90_GIC_CPU_BASE = 0xf9002000"
definition STAGE90_GICD_CTLR :: u32 where "STAGE90_GICD_CTLR = 0x000"
definition STAGE90_GICD_IGROUPR0 :: u32 where "STAGE90_GICD_IGROUPR0 = 0x080"
definition STAGE90_GICD_ISENABLER0 :: u32 where "STAGE90_GICD_ISENABLER0 = 0x100"
definition STAGE90_GICD_ISPENDR0 :: u32 where "STAGE90_GICD_ISPENDR0 = 0x200"
definition STAGE90_GICD_ICPENDR0 :: u32 where "STAGE90_GICD_ICPENDR0 = 0x280"
definition STAGE90_GICD_IPRIORITY0 :: u32 where "STAGE90_GICD_IPRIORITY0 = 0x400"
definition STAGE90_GICD_ITARGETSR0 :: u32 where "STAGE90_GICD_ITARGETSR0 = 0x800"
definition STAGE90_GIC_MAX_INTID :: u32 where "STAGE90_GIC_MAX_INTID = 1020"
definition STAGE90_GICD_ICFGR0 :: u32 where "STAGE90_GICD_ICFGR0 = 0xc00"
definition STAGE90_GICC_CTLR :: u32 where "STAGE90_GICC_CTLR = 0x000"
definition STAGE90_GICC_PMR :: u32 where "STAGE90_GICC_PMR = 0x004"
definition STAGE90_GICC_IAR :: u32 where "STAGE90_GICC_IAR = 0x00c"
definition STAGE90_GICC_EOIR :: u32 where "STAGE90_GICC_EOIR = 0x010"
definition STAGE90_GICC_IAR_INTID_MASK :: u32 where "STAGE90_GICC_IAR_INTID_MASK = 0x3ff"
definition STAGE90_GICC_SPURIOUS_ID :: u32 where "STAGE90_GICC_SPURIOUS_ID = 0x3ff"
definition STAGE90_GIC_TIMER_INTID :: u32 where "STAGE90_GIC_TIMER_INTID = 20"
definition STAGE90_CPU_INTERRUPT_HANDLER :: nat where "STAGE90_CPU_INTERRUPT_HANDLER = 180"
definition STAGE90_CPU_INTERRUPT_TARGET :: nat where "STAGE90_CPU_INTERRUPT_TARGET = 192"
definition STAGE90_CPU_ISTACKPTR :: nat where "STAGE90_CPU_ISTACKPTR = 4"
definition STAGE90_IRQ_CLIENTS :: nat where "STAGE90_IRQ_CLIENTS = 4"
definition STAGE90_IRQ_CLIENT_CAP :: u32 where "STAGE90_IRQ_CLIENT_CAP = 64"

record irq_state =
  irq_gic_dist_va :: u32
  irq_gic_cpu_va :: u32
  irq_seq :: u32
  irq_args :: "u32 list"
  irq_timer_count :: u32
  irq_other_count :: u32
  irq_spurious_count :: u32
  irq_late_count :: u32
  irq_line_enabled :: u32
  irq_line_refused :: u32
  irq_cli_intid :: "u32 list"
  irq_cli_refcon :: "u32 list"
  irq_cli_handler :: "u32 list"
  irq_cli_calls :: "u32 list"
  irq_cli_registered :: u32
  irq_cli_unregistered :: u32
  irq_cli_refused :: u32
  irq_cli_calls_total :: u32
  irq_cli_storm :: u32
  irq_armed :: u32
  irq_cpsr :: u32
  irq_istack :: u32
  irq_enabled_line :: u32

text \<open>The zero-initialised statics.\<close>

definition irq_boot :: irq_state where
  "irq_boot = \<lparr>irq_gic_dist_va = 0, irq_gic_cpu_va = 0, irq_seq = 0, irq_args = replicate 4 0,
    irq_timer_count = 0, irq_other_count = 0, irq_spurious_count = 0, irq_late_count = 0,
    irq_line_enabled = 0, irq_line_refused = 0, irq_cli_intid = replicate 4 0,
    irq_cli_refcon = replicate 4 0, irq_cli_handler = replicate 4 0, irq_cli_calls = replicate 4 0,
    irq_cli_registered = 0, irq_cli_unregistered = 0, irq_cli_refused = 0, irq_cli_calls_total = 0,
    irq_cli_storm = 0, irq_armed = 0, irq_cpsr = 0, irq_istack = 0, irq_enabled_line = 0\<rparr>"

record 'w irq_world =
  w_rd :: "u32 \<Rightarrow> 'w \<Rightarrow> u32 \<times> 'w"
  w_wr :: "u32 \<Rightarrow> u32 \<Rightarrow> 'w \<Rightarrow> 'w"
  w_cpu_data :: "nat \<Rightarrow> 'w \<Rightarrow> u32"
  w_cpsr :: "'w \<Rightarrow> u32"
  w_rtclock_intr :: "irq_state \<Rightarrow> 'w \<Rightarrow> irq_state \<times> 'w"
  w_client :: "u32 \<Rightarrow> u32 \<Rightarrow> u32 \<Rightarrow> irq_state \<Rightarrow> 'w \<Rightarrow> irq_state \<times> 'w"
  w_install :: "u32 \<Rightarrow> u32 \<Rightarrow> 'w \<Rightarrow> 'w"

subsection \<open>The register window\<close>

definition gicd_read :: "('w, 'z) irq_world_scheme \<Rightarrow> irq_state \<Rightarrow> u32 \<Rightarrow> 'w \<Rightarrow> u32 \<times> 'w" where
  "gicd_read k s off = w_rd k (STAGE90_GIC_DIST_BASE + irq_gic_dist_va s + off)"

definition gicd_write :: "('w, 'z) irq_world_scheme \<Rightarrow> irq_state \<Rightarrow> u32 \<Rightarrow> u32 \<Rightarrow> 'w \<Rightarrow> 'w" where
  "gicd_write k s off = w_wr k (STAGE90_GIC_DIST_BASE + irq_gic_dist_va s + off)"

definition gicc_read :: "('w, 'z) irq_world_scheme \<Rightarrow> irq_state \<Rightarrow> u32 \<Rightarrow> 'w \<Rightarrow> u32 \<times> 'w" where
  "gicc_read k s off = w_rd k (STAGE90_GIC_CPU_BASE + irq_gic_cpu_va s + off)"

definition gicc_write :: "('w, 'z) irq_world_scheme \<Rightarrow> irq_state \<Rightarrow> u32 \<Rightarrow> u32 \<Rightarrow> 'w \<Rightarrow> 'w" where
  "gicc_write k s off = w_wr k (STAGE90_GIC_CPU_BASE + irq_gic_cpu_va s + off)"

definition entry_irq_gic_map :: "u32 \<Rightarrow> u32 \<Rightarrow> irq_state \<Rightarrow> irq_state" where
  "entry_irq_gic_map dist_va cpu_va s =
    (let s1 = (if dist_va \<noteq> 0 then s\<lparr>irq_gic_dist_va := dist_va - STAGE90_GIC_DIST_BASE\<rparr> else s)
     in if cpu_va \<noteq> 0 then s1\<lparr>irq_gic_cpu_va := cpu_va - STAGE90_GIC_CPU_BASE\<rparr> else s1)"

text \<open>The three reads of the freeze witness.\<close>

definition entry_gic_freeze_state :: "('w, 'z) irq_world_scheme \<Rightarrow> irq_state \<Rightarrow> 'w \<Rightarrow> u32 list \<times> 'w" where
  "entry_gic_freeze_state k s w =
    (let timer_bit = push_bit (unat (STAGE90_GIC_TIMER_INTID mod 32)) 1;
         (a, w1) = gicd_read k s STAGE90_GICD_ISENABLER0 w;
         (b, w2) = gicd_read k s STAGE90_GICD_ISPENDR0 w1;
         (c, w3) = gicd_read k s STAGE90_GICD_CTLR w2
     in ([a AND timer_bit, b AND timer_bit, c], w3))"

subsection \<open>The client registry\<close>

text \<open>
  The registration loop: \<open>slot\<close> is the first free slot seen so far (\<open>STAGE90_IRQ_CLIENTS\<close> for
  none); \<open>None\<close> is the refusal of a line that already has a client.
\<close>

fun cli_free_scan :: "u32 list \<Rightarrow> u32 list \<Rightarrow> u32 \<Rightarrow> nat list \<Rightarrow> nat \<Rightarrow> nat option" where
  "cli_free_scan hs ids intid [] slot = Some slot"
| "cli_free_scan hs ids intid (i # is) slot =
    (if hs ! i = 0 then cli_free_scan hs ids intid is (if slot = STAGE90_IRQ_CLIENTS then i else slot)
     else if ids ! i = intid then None
     else cli_free_scan hs ids intid is slot)"

definition entry_irq_register_client :: "u32 \<Rightarrow> u32 \<Rightarrow> u32 \<Rightarrow> irq_state \<Rightarrow> u32 \<times> irq_state" where
  "entry_irq_register_client intid handler refCon s =
    (let refused = (0, s\<lparr>irq_cli_refused := irq_cli_refused s + 1\<rparr>)
     in if handler = 0 \<or> intid = STAGE90_GIC_TIMER_INTID \<or> intid = STAGE90_GICC_SPURIOUS_ID then refused
        else case cli_free_scan (irq_cli_handler s) (irq_cli_intid s) intid [0..<STAGE90_IRQ_CLIENTS] STAGE90_IRQ_CLIENTS of
               None \<Rightarrow> refused
             | Some slot \<Rightarrow>
                 if slot = STAGE90_IRQ_CLIENTS then refused
                 else (1, s\<lparr>irq_cli_intid := (irq_cli_intid s)[slot := intid],
                            irq_cli_refcon := (irq_cli_refcon s)[slot := refCon],
                            irq_cli_handler := (irq_cli_handler s)[slot := handler],
                            irq_cli_registered := irq_cli_registered s + 1\<rparr>))"

text \<open>The slot of the first live entry of a line: the loop of \<open>unregister\<close> and of the dispatcher.\<close>

fun cli_find :: "u32 list \<Rightarrow> u32 list \<Rightarrow> u32 \<Rightarrow> nat list \<Rightarrow> nat option" where
  "cli_find hs ids intid [] = None"
| "cli_find hs ids intid (i # is) =
    (if hs ! i \<noteq> 0 \<and> ids ! i = intid then Some i else cli_find hs ids intid is)"

definition entry_irq_unregister_client :: "u32 \<Rightarrow> irq_state \<Rightarrow> u32 \<times> irq_state" where
  "entry_irq_unregister_client intid s =
    (case cli_find (irq_cli_handler s) (irq_cli_intid s) intid [0..<STAGE90_IRQ_CLIENTS] of
       None \<Rightarrow> (0, s)
     | Some i \<Rightarrow> (1, s\<lparr>irq_cli_handler := (irq_cli_handler s)[i := 0],
                        irq_cli_intid := (irq_cli_intid s)[i := 0],
                        irq_cli_refcon := (irq_cli_refcon s)[i := 0],
                        irq_cli_unregistered := irq_cli_unregistered s + 1\<rparr>))"

subsection \<open>The per-line distributor state\<close>

definition entry_irq_enable_line ::
    "('w, 'z) irq_world_scheme \<Rightarrow> u32 \<Rightarrow> u32 \<Rightarrow> irq_state \<Rightarrow> 'w \<Rightarrow> u32 \<times> irq_state \<times> 'w" where
  "entry_irq_enable_line k intid target s w =
    (let bit = push_bit (unat (intid mod 32)) 1;
         isaddr = STAGE90_GICD_ISENABLER0 + intid div 32 * 4;
         cpaddr = STAGE90_GICD_ICPENDR0 + intid div 32 * 4;
         ipaddr = STAGE90_GICD_ISPENDR0 + intid div 32 * 4;
         gaddr = STAGE90_GICD_IGROUPR0 + intid div 32 * 4;
         bshift = unat (intid mod 4 * 8);
         tword = STAGE90_GICD_ITARGETSR0 + (intid AND NOT 3);
         pword = STAGE90_GICD_IPRIORITY0 + (intid AND NOT 3);
         iword = STAGE90_GICD_ICFGR0 + intid div 16 * 4;
         bmask = push_bit bshift 0xff
     in if intid = 0 \<or> intid \<ge> STAGE90_GIC_MAX_INTID
        then (0, s\<lparr>irq_line_refused := irq_line_refused s + 1\<rparr>, w)
        else
          (let (isen_before, w1) = gicd_read k s isaddr w;
               (pend_before, w2) = gicd_read k s ipaddr w1;
               (target_before, w3) = gicd_read k s tword w2;
               (group_before, w4) = gicd_read k s gaddr w3;
               (prio, w5) = gicd_read k s pword w4;
               (icfgr, w6) = gicd_read k s iword w5;
               (ctlr, w7) = gicd_read k s STAGE90_GICD_CTLR w6;
               (pmr, w8) = gicc_read k s STAGE90_GICC_PMR w7;
               (pend_after, w9) = gicd_read k s ipaddr (gicd_write k s cpaddr bit w8);
               (target_after, w10) = gicd_read k s tword
                 (gicd_write k s tword ((target_before AND NOT bmask) OR push_bit bshift (target AND 0xff)) w9);
               (group_after, w11) = gicd_read k s gaddr (gicd_write k s gaddr (group_before AND NOT bit) w10);
               (isen_after, w12) = gicd_read k s isaddr (gicd_write k s isaddr bit w11)
           in (if isen_after AND bit \<noteq> 0 then 1 else 0,
               s\<lparr>irq_line_enabled := irq_line_enabled s + 1\<rparr>, w12)))"

subsection \<open>The dispatcher\<close>

text \<open>\<open>entry_epilogue\<close> does not return: the run ends there with its message.\<close>

datatype irq_exit = Irq_Return | Irq_Stop string

text \<open>The timer's line.\<close>

definition irq_timer_line :: "('w, 'z) irq_world_scheme \<Rightarrow> u32 \<Rightarrow> irq_state \<Rightarrow> 'w \<Rightarrow> irq_exit \<times> irq_state \<times> 'w" where
  "irq_timer_line k iar s w =
    (let (before, w2) = gicd_read k s STAGE90_GICD_ISPENDR0 (gicc_write k s STAGE90_GICC_EOIR iar w);
         (s2, w3) = w_rtclock_intr k (s\<lparr>irq_timer_count := irq_timer_count s + 1\<rparr>) w2;
         (late, w4) = gicd_read k s2 STAGE90_GICD_ISPENDR0 w3
     in (Irq_Return,
         if late AND push_bit (unat STAGE90_GIC_TIMER_INTID) 1 \<noteq> 0
         then s2\<lparr>irq_late_count := irq_late_count s2 + 1\<rparr> else s2, w4))"

text \<open>A client's line, in slot \<open>i\<close>.\<close>

definition irq_client_line ::
    "('w, 'z) irq_world_scheme \<Rightarrow> u32 \<Rightarrow> u32 \<Rightarrow> nat \<Rightarrow> irq_state \<Rightarrow> 'w \<Rightarrow> irq_exit \<times> irq_state \<times> 'w" where
  "irq_client_line k iar intid i s w =
    (let client = irq_cli_handler s ! i;
         w1 = gicc_write k s STAGE90_GICC_EOIR iar w;
         s1 = s\<lparr>irq_cli_calls := (irq_cli_calls s)[i := irq_cli_calls s ! i + 1],
                irq_cli_calls_total := irq_cli_calls_total s + 1\<rparr>
     in if irq_cli_calls s1 ! i > STAGE90_IRQ_CLIENT_CAP
        then (Irq_Stop ''exception: irq client storm'', s1\<lparr>irq_cli_storm := irq_cli_storm s1 + 1\<rparr>, w1)
        else (Irq_Return, w_client k client (irq_cli_refcon s1 ! i) intid s1 w1))"

definition entry_irq_handler ::
    "('w, 'z) irq_world_scheme \<Rightarrow> u32 \<Rightarrow> u32 \<Rightarrow> u32 \<Rightarrow> u32 \<Rightarrow> irq_state \<Rightarrow> 'w \<Rightarrow> irq_exit \<times> irq_state \<times> 'w" where
  "entry_irq_handler k target refCon nub source s w =
    (let s1 = s\<lparr>irq_seq := irq_seq s + 1\<rparr>;
         s2 = (if irq_seq s1 = 1 then s1\<lparr>irq_args := [target, refCon, nub, source]\<rparr> else s1);
         (iar, w1) = gicc_read k s2 STAGE90_GICC_IAR w;
         intid = iar AND STAGE90_GICC_IAR_INTID_MASK
     in if intid = STAGE90_GIC_TIMER_INTID then irq_timer_line k iar s2 w1
        else case cli_find (irq_cli_handler s2) (irq_cli_intid s2) intid [0..<STAGE90_IRQ_CLIENTS] of
               Some i \<Rightarrow> irq_client_line k iar intid i s2 w1
             | None \<Rightarrow>
                 if intid = STAGE90_GICC_SPURIOUS_ID
                 then (Irq_Return, s2\<lparr>irq_spurious_count := irq_spurious_count s2 + 1\<rparr>, w1)
                 else (Irq_Stop ''exception: irq line'', s2\<lparr>irq_other_count := irq_other_count s2 + 1\<rparr>,
                       gicc_write k s2 STAGE90_GICC_EOIR iar w1))"

subsection \<open>The arming sequence\<close>

text \<open>
  With \<open>STAGE90_IRQ_ENABLE_LINE\<close> 1, as the source sets it.  \<open>self\<close> and \<open>tgt\<close> are the addresses of
  \<open>entry_irq_handler\<close> and \<open>g_irq_target\<close>.  Of the five words read back, two are compared.
\<close>

definition entry_irq_arm ::
    "('w, 'z) irq_world_scheme \<Rightarrow> u32 \<Rightarrow> u32 \<Rightarrow> irq_state \<Rightarrow> 'w \<Rightarrow> u32 \<times> irq_state \<times> 'w" where
  "entry_irq_arm k self tgt s w =
    (if irq_armed s \<noteq> 0 then (irq_enabled_line s, s, w)
     else
       (let bit = push_bit (unat STAGE90_GIC_TIMER_INTID) 1;
            s1 = s\<lparr>irq_istack := w_cpu_data k STAGE90_CPU_ISTACKPTR w, irq_cpsr := w_cpsr k w\<rparr>
        in if irq_istack s1 = 0 then (0, s1, w)
           else
             (let s2 = s1\<lparr>irq_armed := 1\<rparr>;
                  w1 = w_install k tgt self w
              in if w_cpu_data k STAGE90_CPU_INTERRUPT_HANDLER w1 \<noteq> self
                    \<or> w_cpu_data k STAGE90_CPU_INTERRUPT_TARGET w1 \<noteq> tgt then (0, s2, w1)
                 else
                   (let (icfgr, w2) = gicd_read k s2 (STAGE90_GICD_ICFGR0 + STAGE90_GIC_TIMER_INTID div 16 * 4) w1;
                        (priority_word, w3) = gicd_read k s2 (STAGE90_GICD_IPRIORITY0 + (STAGE90_GIC_TIMER_INTID AND NOT 3)) w2;
                        (targets_word, w4) = gicd_read k s2 (STAGE90_GICD_ITARGETSR0 + (STAGE90_GIC_TIMER_INTID AND NOT 3)) w3;
                        (pending, w5) = gicd_read k s2 STAGE90_GICD_ISPENDR0 (gicd_write k s2 STAGE90_GICD_ICPENDR0 bit w4);
                        (enabled, w6) = gicd_read k s2 STAGE90_GICD_ISENABLER0 (gicd_write k s2 STAGE90_GICD_ISENABLER0 bit w5);
                        s3 = s2\<lparr>irq_enabled_line := (if enabled AND bit \<noteq> 0 then 1 else 0)\<rparr>;
                        (ctlr, w7) = gicc_read k s3 STAGE90_GICC_CTLR w6;
                        (pmr, w8) = gicc_read k s3 STAGE90_GICC_PMR w7
                    in (irq_enabled_line s3, s3, w8)))))"

end
