(* ===== verification/Irq_Registry.thy ===== *)
theory Irq_Registry
  imports Entry_Irq
begin

text \<open>
  The client registry of \<open>Entry_Irq\<close> as a bounded finite map: the interface \<open>line_registry\<close> of a
  table of owned lines, what follows from it for a history of calls, and the proof that the
  file's four parallel arrays provide it.
\<close>

unbundle bit_operations_syntax

subsection \<open>The interface\<close>

text \<open>
  \<open>admits\<close> is the caller's part (which lines and handlers may be registered), \<open>room\<close> the bound
  on the number of lines; \<open>reg\<close> and \<open>unreg\<close> answer whether they took effect.
\<close>

locale line_registry =
  fixes inv :: "'s \<Rightarrow> bool"
    and view :: "'s \<Rightarrow> 'k \<Rightarrow> 'v option"
    and admits :: "'k \<Rightarrow> 'v \<Rightarrow> bool"
    and room :: nat
    and reg :: "'k \<Rightarrow> 'v \<Rightarrow> 's \<Rightarrow> bool \<times> 's"
    and unreg :: "'k \<Rightarrow> 's \<Rightarrow> bool \<times> 's"
  assumes bounded: "inv s \<Longrightarrow> finite (dom (view s)) \<and> card (dom (view s)) \<le> room"
    and reg_law: "inv s \<Longrightarrow> reg k v s = (r, s') \<Longrightarrow>
          inv s' \<and> r = (admits k v \<and> view s k = None \<and> card (dom (view s)) < room)
          \<and> view s' = (if r then (view s)(k \<mapsto> v) else view s)"
    and unreg_law: "inv s \<Longrightarrow> unreg k s = (r, s') \<Longrightarrow>
          inv s' \<and> r = (view s k \<noteq> None) \<and> view s' = (view s)(k := None)"
begin

text \<open>One call is \<open>(k, Some v)\<close> to register or \<open>(k, None)\<close> to withdraw; \<open>history\<close> runs a list of them
  and keeps the answers.\<close>

fun call :: "'k \<times> 'v option \<Rightarrow> 's \<Rightarrow> bool \<times> 's" where
  "call (k, Some v) s = reg k v s"
| "call (k, None) s = unreg k s"

fun history :: "('k \<times> 'v option) list \<Rightarrow> 's \<Rightarrow> (('k \<times> 'v option) \<times> bool) list \<times> 's" where
  "history [] s = ([], s)"
| "history (c # cs) s =
    (let (r, s') = call c s; (log, s'') = history cs s' in ((c, r) # log, s''))"

text \<open>The table the answers imply: the calls that took effect, in order.\<close>

fun replay :: "(('k \<times> 'v option) \<times> bool) list \<Rightarrow> ('k \<Rightarrow> 'v option) \<Rightarrow> 'k \<Rightarrow> 'v option" where
  "replay [] m = m"
| "replay (((k, v), r) # log) m = replay log (if r then m(k := v) else m)"

lemma call_inv:
  assumes "inv s" and "call c s = (r, s')"
  shows "inv s'" and "view s' = (if r then (view s)(fst c := snd c) else view s)"
proof -
  obtain k ov where c: "c = (k, ov)" by fastforce
  have "inv s' \<and> view s' = (if r then (view s)(k := ov) else view s)"
  proof (cases ov)
    case None
    then have u: "inv s' \<and> r = (view s k \<noteq> None) \<and> view s' = (view s)(k := None)"
      using unreg_law [OF assms(1)] assms(2) c by simp
    show ?thesis
    proof (cases r)
      case False
      then have "view s k = None" using u by simp
      then have "(view s)(k := None) = view s" by (rule fun_upd_idem)
      then show ?thesis using u False None by simp
    qed (use u None in simp)
  next
    case (Some v)
    then have "reg k v s = (r, s')" using assms(2) c by simp
    then show ?thesis using reg_law [OF assms(1)] Some by blast
  qed
  then show "inv s'" and "view s' = (if r then (view s)(fst c := snd c) else view s)" by (simp_all add: c)
qed

lemma history_replay:
  "inv s \<Longrightarrow> history cs s = (log, s') \<Longrightarrow> inv s' \<and> view s' = replay log (view s)"
proof (induction cs arbitrary: s log)
  case (Cons c cs)
  obtain r s1 where c: "call c s = (r, s1)" by fastforce
  obtain log' s2 where h: "history cs s1 = (log', s2)" by fastforce
  have log: "log = (c, r) # log'" "s2 = s'" using Cons.prems(2) c h by simp_all
  have h': "history cs s1 = (log', s')" using h log(2) by simp
  have "inv s1" "view s1 = (if r then (view s)(fst c := snd c) else view s)"
    using call_inv [OF Cons.prems(1) c] by blast+
  with Cons.IH [OF this(1) h'] log(1) show ?case by (cases c) simp
qed simp

end

subsection \<open>The four arrays\<close>

definition irq_live :: "irq_state \<Rightarrow> nat set" where
  "irq_live s = {i. i < 4 \<and> irq_cli_handler s ! i \<noteq> 0}"

definition irq_wf :: "irq_state \<Rightarrow> bool" where
  "irq_wf s \<longleftrightarrow> length (irq_cli_intid s) = 4 \<and> length (irq_cli_refcon s) = 4
     \<and> length (irq_cli_handler s) = 4 \<and> length (irq_cli_calls s) = 4
     \<and> inj_on (\<lambda>i. irq_cli_intid s ! i) (irq_live s)
     \<and> (\<forall>i \<in> irq_live s. irq_cli_intid s ! i \<notin> {STAGE90_GIC_TIMER_INTID, STAGE90_GICC_SPURIOUS_ID})"

text \<open>The table: which handler and \<open>refCon\<close> a line has.\<close>

definition irq_clients :: "irq_state \<Rightarrow> u32 \<Rightarrow> (u32 \<times> u32) option" where
  "irq_clients s intid = map_option (\<lambda>i. (irq_cli_handler s ! i, irq_cli_refcon s ! i))
     (cli_find (irq_cli_handler s) (irq_cli_intid s) intid [0..<STAGE90_IRQ_CLIENTS])"

lemma cli_find_Some:
  "cli_find hs ids k is = Some i \<Longrightarrow> i \<in> set is \<and> hs ! i \<noteq> 0 \<and> ids ! i = k"
  by (induction "is") (auto split: if_splits)

lemma cli_find_None: "cli_find hs ids k is = None \<longleftrightarrow> (\<forall>i \<in> set is. hs ! i \<noteq> 0 \<longrightarrow> ids ! i \<noteq> k)"
  by (induction "is") auto

lemma cli_find_unique:
  assumes "irq_wf s" and "i \<in> irq_live s"
  shows "cli_find (irq_cli_handler s) (irq_cli_intid s) (irq_cli_intid s ! i) [0..<STAGE90_IRQ_CLIENTS] = Some i"
proof (cases "cli_find (irq_cli_handler s) (irq_cli_intid s) (irq_cli_intid s ! i) [0..<STAGE90_IRQ_CLIENTS]")
  case None
  then show ?thesis using assms(2) by (auto simp: cli_find_None irq_live_def STAGE90_IRQ_CLIENTS_def)
next
  case (Some j)
  then have "j \<in> irq_live s" "irq_cli_intid s ! j = irq_cli_intid s ! i"
    using cli_find_Some by (fastforce simp: irq_live_def STAGE90_IRQ_CLIENTS_def)+
  then have "j = i" using assms by (auto simp: irq_wf_def dest: inj_onD)
  then show ?thesis using Some by simp
qed

lemma irq_clients_live:
  "irq_wf s \<Longrightarrow> i \<in> irq_live s \<Longrightarrow>
   irq_clients s (irq_cli_intid s ! i) = Some (irq_cli_handler s ! i, irq_cli_refcon s ! i)"
  by (simp add: irq_clients_def cli_find_unique)

lemma irq_clients_None:
  "irq_clients s k = None \<longleftrightarrow> (\<forall>i \<in> irq_live s. irq_cli_intid s ! i \<noteq> k)"
  by (auto simp: irq_clients_def cli_find_None irq_live_def STAGE90_IRQ_CLIENTS_def)

lemma irq_clients_dom: "dom (irq_clients s) = (\<lambda>i. irq_cli_intid s ! i) ` irq_live s"
proof -
  have "k \<in> dom (irq_clients s) \<longleftrightarrow> k \<in> (\<lambda>i. irq_cli_intid s ! i) ` irq_live s" for k
    using irq_clients_None [of s k] by (auto simp: domIff)
  then show ?thesis by blast
qed

lemma finite_irq_live: "finite (irq_live s)" and card_irq_live: "card (irq_live s) \<le> 4"
proof -
  have sub: "irq_live s \<subseteq> {..<4}" by (auto simp: irq_live_def)
  then show "finite (irq_live s)" by (rule finite_subset) simp
  show "card (irq_live s) \<le> 4" using card_mono [OF _ sub] by simp
qed

lemma irq_clients_card: "irq_wf s \<Longrightarrow> card (dom (irq_clients s)) = card (irq_live s)"
  by (simp add: irq_clients_dom irq_wf_def card_image)

lemma irq_full: "card (irq_live s) < 4 \<longleftrightarrow> (\<exists>i < 4. irq_cli_handler s ! i = 0)"
proof
  assume "\<exists>i < 4. irq_cli_handler s ! i = 0"
  then obtain i where "i < 4" "irq_cli_handler s ! i = 0" by blast
  then have "irq_live s \<subset> {..<4}" by (auto simp: irq_live_def)
  then show "card (irq_live s) < 4" using psubset_card_mono [of "{..<4 :: nat}"] by simp
next
  assume *: "card (irq_live s) < 4"
  show "\<exists>i < 4. irq_cli_handler s ! i = 0"
  proof (rule ccontr)
    assume "\<not> ?thesis"
    then have "irq_live s = {..<4}" by (auto simp: irq_live_def)
    then show False using * by simp
  qed
qed


subsection \<open>The operations provide the interface\<close>

lemma cli_free_scan_spec:
  "cli_free_scan hs ids k is slot =
    (if \<exists>i \<in> set is. hs ! i \<noteq> 0 \<and> ids ! i = k then None
     else Some (if slot \<noteq> STAGE90_IRQ_CLIENTS then slot
       else case List.find (\<lambda>i. hs ! i = 0) is of None \<Rightarrow> STAGE90_IRQ_CLIENTS | Some i \<Rightarrow> i))"
  if "STAGE90_IRQ_CLIENTS \<notin> set is"
  using that by (induction "is" arbitrary: slot) auto

lemma cli_free_slot:
  "cli_free_scan (irq_cli_handler s) (irq_cli_intid s) k [0..<STAGE90_IRQ_CLIENTS] STAGE90_IRQ_CLIENTS =
    (if irq_clients s k \<noteq> None then None
     else Some (if card (irq_live s) < 4 then (LEAST i. irq_cli_handler s ! i = 0) else STAGE90_IRQ_CLIENTS))"
  (is "?l = ?r")
proof -
  have ex: "(\<exists>i \<in> set [0..<STAGE90_IRQ_CLIENTS]. irq_cli_handler s ! i \<noteq> 0 \<and> irq_cli_intid s ! i = k)
      \<longleftrightarrow> irq_clients s k \<noteq> None"
    unfolding irq_clients_None by (auto simp: irq_live_def STAGE90_IRQ_CLIENTS_def)
  have find: "(case List.find (\<lambda>i. irq_cli_handler s ! i = 0) [0..<STAGE90_IRQ_CLIENTS] of
        None \<Rightarrow> STAGE90_IRQ_CLIENTS | Some i \<Rightarrow> i)
      = (if card (irq_live s) < 4 then (LEAST i. irq_cli_handler s ! i = 0) else STAGE90_IRQ_CLIENTS)"
  proof (cases "card (irq_live s) < 4")
    case True
    then obtain i where i: "i < 4" "irq_cli_handler s ! i = 0" unfolding irq_full by blast
    define n where "n = (LEAST i. irq_cli_handler s ! i = 0)"
    have n: "irq_cli_handler s ! n = 0" "n < 4" "\<forall>j < n. irq_cli_handler s ! j \<noteq> 0"
      using LeastI [of "\<lambda>i. irq_cli_handler s ! i = 0", OF i(2)] i(1)
        Least_le [of "\<lambda>i. irq_cli_handler s ! i = 0", OF i(2)]
      unfolding n_def by (auto dest: not_less_Least)
    have "List.find (\<lambda>i. irq_cli_handler s ! i = 0) [0..<4] = Some n"
      unfolding find_Some_iff by (rule exI [of _ n]) (use n in simp)
    then have "List.find (\<lambda>i. irq_cli_handler s ! i = 0) [0..<STAGE90_IRQ_CLIENTS] = Some (LEAST i. irq_cli_handler s ! i = 0)"
      by (simp only: n_def STAGE90_IRQ_CLIENTS_def)
    then show ?thesis using True by simp
  next
    case False
    then have "List.find (\<lambda>i. irq_cli_handler s ! i = 0) [0..<STAGE90_IRQ_CLIENTS] = None"
      unfolding irq_full by (auto simp: find_None_iff STAGE90_IRQ_CLIENTS_def)
    then show ?thesis using False by simp
  qed
  have out: "STAGE90_IRQ_CLIENTS \<notin> set [0..<STAGE90_IRQ_CLIENTS]" by simp
  show ?thesis unfolding cli_free_scan_spec [OF out] ex using find by (simp only: simp_thms if_False)
qed


lemmas cli_free_slot4 = cli_free_slot [unfolded STAGE90_IRQ_CLIENTS_def]

lemma irq_clients_iff:
  "irq_wf s \<Longrightarrow> irq_clients s k = Some v \<longleftrightarrow>
    (\<exists>i \<in> irq_live s. irq_cli_intid s ! i = k \<and> v = (irq_cli_handler s ! i, irq_cli_refcon s ! i))"
  using irq_clients_live [of s] irq_clients_None [of s k] by (metis option.distinct(1) option.inject)

lemma irq_clients_eqI:
  assumes "irq_wf s'" and "\<And>k v. (\<exists>i \<in> irq_live s'. irq_cli_intid s' ! i = k \<and>
      v = (irq_cli_handler s' ! i, irq_cli_refcon s' ! i)) \<longleftrightarrow> m k = Some v"
  shows "irq_clients s' = m"
proof
  fix k show "irq_clients s' k = m k"
    using irq_clients_iff [OF assms(1), of k] assms(2) [of k] by (cases "m k"; cases "irq_clients s' k") auto
qed

text \<open>Filling a free slot and emptying a live one; nothing else about \<open>s'\<close> matters.\<close>

lemma irq_fill:
  assumes wf: "irq_wf s" and n: "n < 4" "irq_cli_handler s ! n = 0" and h: "h \<noteq> 0"
    and k: "k \<notin> {STAGE90_GIC_TIMER_INTID, STAGE90_GICC_SPURIOUS_ID}" "irq_clients s k = None"
    and s': "irq_cli_intid s' = (irq_cli_intid s)[n := k]" "irq_cli_refcon s' = (irq_cli_refcon s)[n := rc]"
      "irq_cli_handler s' = (irq_cli_handler s)[n := h]" "length (irq_cli_calls s') = 4"
  shows "irq_wf s'" and "irq_clients s' = (irq_clients s)(k \<mapsto> (h, rc))"
proof -
  have len: "length (irq_cli_intid s) = 4" "length (irq_cli_refcon s) = 4" "length (irq_cli_handler s) = 4"
    using wf by (simp_all add: irq_wf_def)
  have live: "irq_live s' = insert n (irq_live s)" and out: "n \<notin> irq_live s"
    using n h len by (auto simp: irq_live_def s' nth_list_update split: if_splits)
  have fresh: "\<forall>i \<in> irq_live s. irq_cli_intid s ! i \<noteq> k" using k(2) by (simp add: irq_clients_None)
  have same: "irq_cli_intid s' ! i = irq_cli_intid s ! i \<and> irq_cli_refcon s' ! i = irq_cli_refcon s ! i
      \<and> irq_cli_handler s' ! i = irq_cli_handler s ! i" if "i \<in> irq_live s" for i
  proof -
    have "i \<noteq> n" using that out by blast
    then show ?thesis by (simp add: s')
  qed
  have at: "irq_cli_intid s' ! n = k" "irq_cli_refcon s' ! n = rc" "irq_cli_handler s' ! n = h"
    using n len by (simp_all add: s')
  have "inj_on (\<lambda>i. irq_cli_intid s' ! i) (irq_live s)"
    using wf same by (auto simp: irq_wf_def inj_on_def)
  moreover have "irq_cli_intid s' ! n \<notin> (\<lambda>i. irq_cli_intid s' ! i) ` irq_live s" using fresh same at by auto
  ultimately have "inj_on (\<lambda>i. irq_cli_intid s' ! i) (irq_live s')"
    unfolding live using out by simp
  moreover have "\<forall>i \<in> irq_live s'. irq_cli_intid s' ! i \<notin> {STAGE90_GIC_TIMER_INTID, STAGE90_GICC_SPURIOUS_ID}"
    using wf same at k(1) unfolding live irq_wf_def by auto
  ultimately show wf': "irq_wf s'" using len s' by (simp add: irq_wf_def)
  show "irq_clients s' = (irq_clients s)(k \<mapsto> (h, rc))"
  proof (rule irq_clients_eqI [OF wf'])
    fix k' v
    have "(\<exists>i \<in> irq_live s'. irq_cli_intid s' ! i = k' \<and> v = (irq_cli_handler s' ! i, irq_cli_refcon s' ! i))
      \<longleftrightarrow> (k = k' \<and> v = (h, rc)) \<or> irq_clients s k' = Some v"
      unfolding live irq_clients_iff [OF wf] using at same by auto
    also have "\<dots> \<longleftrightarrow> ((irq_clients s)(k \<mapsto> (h, rc))) k' = Some v" using k(2) by auto
    finally show "(\<exists>i \<in> irq_live s'. irq_cli_intid s' ! i = k' \<and> v = (irq_cli_handler s' ! i, irq_cli_refcon s' ! i))
      \<longleftrightarrow> ((irq_clients s)(k \<mapsto> (h, rc))) k' = Some v" .
  qed
qed

lemma irq_empty:
  assumes wf: "irq_wf s" and n: "n \<in> irq_live s"
    and s': "irq_cli_handler s' = (irq_cli_handler s)[n := 0]"
      "irq_cli_intid s' = (irq_cli_intid s)[n := x]" "irq_cli_refcon s' = (irq_cli_refcon s)[n := y]"
      "length (irq_cli_calls s') = 4"
  shows "irq_wf s'" and "irq_clients s' = (irq_clients s)(irq_cli_intid s ! n := None)"
proof -
  have len: "length (irq_cli_intid s) = 4" "length (irq_cli_refcon s) = 4" "length (irq_cli_handler s) = 4"
    using wf by (simp_all add: irq_wf_def)
  have live: "irq_live s' = irq_live s - {n}"
    using n len by (auto simp: irq_live_def s' nth_list_update split: if_splits)
  have same: "irq_cli_intid s' ! i = irq_cli_intid s ! i \<and> irq_cli_refcon s' ! i = irq_cli_refcon s ! i
      \<and> irq_cli_handler s' ! i = irq_cli_handler s ! i" if "i \<in> irq_live s'" for i
    using that unfolding live by (simp add: s')
  have "inj_on (\<lambda>i. irq_cli_intid s ! i) (irq_live s')"
    using wf unfolding live irq_wf_def by (meson Diff_subset inj_on_subset)
  then have "inj_on (\<lambda>i. irq_cli_intid s' ! i) (irq_live s')" using same by (auto simp: inj_on_def)
  moreover have "\<forall>i \<in> irq_live s'. irq_cli_intid s' ! i \<notin> {STAGE90_GIC_TIMER_INTID, STAGE90_GICC_SPURIOUS_ID}"
    using wf same unfolding live irq_wf_def by auto
  ultimately show wf': "irq_wf s'" using len s' by (simp add: irq_wf_def)
  have inj: "irq_cli_intid s ! i = irq_cli_intid s ! n \<longleftrightarrow> i = n" if "i \<in> irq_live s" for i
    using that wf n by (auto simp: irq_wf_def dest: inj_onD)
  show "irq_clients s' = (irq_clients s)(irq_cli_intid s ! n := None)"
  proof (rule irq_clients_eqI [OF wf'])
    fix k' v
    have "(\<exists>i \<in> irq_live s'. irq_cli_intid s' ! i = k' \<and> v = (irq_cli_handler s' ! i, irq_cli_refcon s' ! i))
      \<longleftrightarrow> irq_clients s k' = Some v \<and> k' \<noteq> irq_cli_intid s ! n"
      unfolding irq_clients_iff [OF wf] using same inj live by auto
    then show "(\<exists>i \<in> irq_live s'. irq_cli_intid s' ! i = k' \<and> v = (irq_cli_handler s' ! i, irq_cli_refcon s' ! i))
      \<longleftrightarrow> ((irq_clients s)(irq_cli_intid s ! n := None)) k' = Some v" by auto
  qed
qed

text \<open>A change of anything but the table.\<close>

lemma irq_frame:
  assumes "irq_cli_handler s' = irq_cli_handler s" "irq_cli_intid s' = irq_cli_intid s"
    "irq_cli_refcon s' = irq_cli_refcon s" "length (irq_cli_calls s') = length (irq_cli_calls s)"
  shows "irq_wf s' = irq_wf s" and "irq_clients s' = irq_clients s"
  using assms by (auto simp: irq_wf_def irq_clients_def irq_live_def)

definition irq_admits :: "u32 \<Rightarrow> u32 \<times> u32 \<Rightarrow> bool" where
  "irq_admits k v \<longleftrightarrow> fst v \<noteq> 0 \<and> k \<notin> {STAGE90_GIC_TIMER_INTID, STAGE90_GICC_SPURIOUS_ID}"

lemma register_law:
  assumes wf: "irq_wf s" and call: "entry_irq_register_client k h rc s = (r, s')"
  shows "irq_wf s' \<and> (r \<noteq> 0) = (irq_admits k (h, rc) \<and> irq_clients s k = None \<and> card (dom (irq_clients s)) < 4)
    \<and> irq_clients s' = (if r \<noteq> 0 then (irq_clients s)(k \<mapsto> (h, rc)) else irq_clients s)"
proof (cases "irq_admits k (h, rc) \<and> irq_clients s k = None \<and> card (irq_live s) < 4")
  case True
  define n where "n = (LEAST i. irq_cli_handler s ! i = 0)"
  obtain i where i: "i < 4" "irq_cli_handler s ! i = 0" using True unfolding irq_full by blast
  then have n: "n < 4" "irq_cli_handler s ! n = 0"
    using LeastI [of "\<lambda>i. irq_cli_handler s ! i = 0", OF i(2)]
      Least_le [of "\<lambda>i. irq_cli_handler s ! i = 0", OF i(2)] unfolding n_def by simp_all
  have s': "s' = s\<lparr>irq_cli_intid := (irq_cli_intid s)[n := k], irq_cli_refcon := (irq_cli_refcon s)[n := rc],
      irq_cli_handler := (irq_cli_handler s)[n := h], irq_cli_registered := irq_cli_registered s + 1\<rparr>" and r: "r = 1"
    using call True n(1) unfolding n_def
    by (auto simp: entry_irq_register_client_def irq_admits_def cli_free_slot4 Let_def STAGE90_IRQ_CLIENTS_def)
  have "h \<noteq> 0" "k \<notin> {STAGE90_GIC_TIMER_INTID, STAGE90_GICC_SPURIOUS_ID}" "irq_clients s k = None"
    using True by (simp_all add: irq_admits_def)
  note F = irq_fill [OF wf n this, of s' rc]
  have "length (irq_cli_calls s) = 4" using wf by (simp add: irq_wf_def)
  then show ?thesis using F True r irq_clients_card [OF wf] by (simp add: s')
next
  case False
  then have "r = 0" and s': "s' = s\<lparr>irq_cli_refused := irq_cli_refused s + 1\<rparr>"
    using call
    by (auto simp: entry_irq_register_client_def irq_admits_def cli_free_slot4 Let_def STAGE90_IRQ_CLIENTS_def split: if_splits)
  moreover have "irq_wf s' = irq_wf s" "irq_clients s' = irq_clients s" by (rule irq_frame; simp add: s')+
  ultimately show ?thesis using False wf irq_clients_card [OF wf] by simp
qed

lemma unregister_law:
  assumes wf: "irq_wf s" and call: "entry_irq_unregister_client k s = (r, s')"
  shows "irq_wf s' \<and> (r \<noteq> 0) = (irq_clients s k \<noteq> None) \<and> irq_clients s' = (irq_clients s)(k := None)"
proof (cases "cli_find (irq_cli_handler s) (irq_cli_intid s) k [0..<STAGE90_IRQ_CLIENTS]")
  case None
  then have "r = 0" "s' = s" and "irq_clients s k = None"
    using call by (simp_all add: entry_irq_unregister_client_def irq_clients_def)
  then show ?thesis using wf by (simp add: fun_upd_idem)
next
  case (Some n)
  then have n: "n \<in> irq_live s" "irq_cli_intid s ! n = k"
    using cli_find_Some [OF Some] by (auto simp: irq_live_def STAGE90_IRQ_CLIENTS_def)
  have r: "r = 1" and s': "s' = s\<lparr>irq_cli_handler := (irq_cli_handler s)[n := 0], irq_cli_intid := (irq_cli_intid s)[n := 0],
      irq_cli_refcon := (irq_cli_refcon s)[n := 0], irq_cli_unregistered := irq_cli_unregistered s + 1\<rparr>"
    using call Some by (simp_all add: entry_irq_unregister_client_def)
  have "length (irq_cli_calls s) = 4" using wf by (simp add: irq_wf_def)
  then show ?thesis
    using irq_empty [OF wf n(1), of s' 0 0] irq_clients_live [OF wf n(1)] n(2) r by (simp add: s')
qed

definition irq_reg :: "u32 \<Rightarrow> u32 \<times> u32 \<Rightarrow> irq_state \<Rightarrow> bool \<times> irq_state" where
  "irq_reg k v s = map_prod (\<lambda>r. r \<noteq> 0) id (entry_irq_register_client k (fst v) (snd v) s)"

definition irq_unreg :: "u32 \<Rightarrow> irq_state \<Rightarrow> bool \<times> irq_state" where
  "irq_unreg k s = map_prod (\<lambda>r. r \<noteq> 0) id (entry_irq_unregister_client k s)"

interpretation irq_table: line_registry irq_wf irq_clients irq_admits 4 irq_reg irq_unreg
proof unfold_locales
  fix s assume wf: "irq_wf s"
  show "finite (dom (irq_clients s)) \<and> card (dom (irq_clients s)) \<le> 4"
    using finite_irq_live card_irq_live irq_clients_card [OF wf] by (simp add: irq_clients_dom)
next
  fix s k v r s' assume wf: "irq_wf s" and c: "irq_reg k v s = (r, s')"
  obtain r0 where "entry_irq_register_client k (fst v) (snd v) s = (r0, s')" "r = (r0 \<noteq> 0)"
    using c by (cases "entry_irq_register_client k (fst v) (snd v) s") (simp add: irq_reg_def)
  then show "irq_wf s' \<and> r = (irq_admits k v \<and> irq_clients s k = None \<and> card (dom (irq_clients s)) < 4)
    \<and> irq_clients s' = (if r then (irq_clients s)(k \<mapsto> v) else irq_clients s)"
    using register_law [OF wf] by fastforce
next
  fix s k r s' assume wf: "irq_wf s" and c: "irq_unreg k s = (r, s')"
  obtain r0 where "entry_irq_unregister_client k s = (r0, s')" "r = (r0 \<noteq> 0)"
    using c by (cases "entry_irq_unregister_client k s") (simp add: irq_unreg_def)
  then show "irq_wf s' \<and> r = (irq_clients s k \<noteq> None) \<and> irq_clients s' = (irq_clients s)(k := None)"
    using unregister_law [OF wf] by fastforce
qed

lemma irq_live_boot: "irq_live irq_boot = {}"
  by (auto simp: irq_live_def irq_boot_def nth_replicate simp del: replicate_Suc)

lemma irq_wf_boot: "irq_wf irq_boot"
  by (simp add: irq_wf_def irq_live_boot) (simp add: irq_boot_def)

lemma irq_clients_boot: "irq_clients irq_boot = Map.empty"
  by (rule ext) (simp add: irq_clients_None irq_live_boot)

end
