(* ===== verification/Irq_Interleaving.thy ===== *)
theory Irq_Interleaving
  imports Irq_Registry
begin

text \<open>
  Interrupts against registrations.  \<open>entry_irq_register_client\<close> and \<open>entry_irq_unregister_client\<close>
  run with interrupts open, so the dispatcher may run between any two of their loads and stores;
  the dispatcher itself runs masked, in one step.  \<open>irq_micro\<close> is the two functions one store (or
  one turn of a scan) at a time, in program order; \<open>irq_step\<close> interleaves it with deliveries, with
  one call in process context at a time and clients that do not call back into the registry.
\<close>

unbundle bit_operations_syntax

subsection \<open>A world that records\<close>

datatype irq_event = Ev_Read u32 | Ev_Write u32 u32 | Ev_Rtclock | Ev_Client u32 u32 u32 | Ev_Install u32 u32

text \<open>\<open>rdv\<close> answers a read after the events so far; \<open>cpu\<close> the words of \<open>BootCpuData\<close>.\<close>

definition irq_traced ::
    "(irq_event list \<Rightarrow> u32 \<Rightarrow> u32) \<Rightarrow> (irq_event list \<Rightarrow> nat \<Rightarrow> u32) \<Rightarrow> irq_event list irq_world" where
  "irq_traced rdv cpu = \<lparr>w_rd = \<lambda>a w. (rdv w a, w @ [Ev_Read a]), w_wr = \<lambda>a v w. w @ [Ev_Write a v],
     w_cpu_data = \<lambda>off w. cpu w off, w_cpsr = \<lambda>w. 0, w_rtclock_intr = \<lambda>s w. (s, w @ [Ev_Rtclock]),
     w_client = \<lambda>h rc k s w. (s, w @ [Ev_Client h rc k]), w_install = \<lambda>t h w. w @ [Ev_Install t h]\<rparr>"

lemmas irq_io_defs = gicd_read_def gicd_write_def gicc_read_def gicc_write_def irq_traced_def

definition irq_iar :: "irq_state \<Rightarrow> u32" where
  "irq_iar s = STAGE90_GIC_CPU_BASE + irq_gic_cpu_va s + STAGE90_GICC_IAR"

definition irq_eoir :: "irq_state \<Rightarrow> u32" where
  "irq_eoir s = STAGE90_GIC_CPU_BASE + irq_gic_cpu_va s + STAGE90_GICC_EOIR"

definition irq_pend :: "irq_state \<Rightarrow> u32" where
  "irq_pend s = STAGE90_GIC_DIST_BASE + irq_gic_dist_va s + STAGE90_GICD_ISPENDR0"

text \<open>The calls counted against the slot of a line.\<close>

definition irq_line_calls :: "irq_state \<Rightarrow> u32 \<Rightarrow> u32" where
  "irq_line_calls s k = (case cli_find (irq_cli_handler s) (irq_cli_intid s) k [0..<STAGE90_IRQ_CLIENTS] of
     None \<Rightarrow> 0 | Some i \<Rightarrow> irq_cli_calls s ! i)"

text \<open>What the dispatcher does to the recording world, by the line it read and the client table.\<close>

definition irq_dispatch_spec :: "irq_state \<Rightarrow> u32 \<Rightarrow> irq_exit \<times> irq_event list \<Rightarrow> bool" where
  "irq_dispatch_spec s iar r \<longleftrightarrow>
    (let k = iar AND STAGE90_GICC_IAR_INTID_MASK; taken = [Ev_Read (irq_iar s), Ev_Write (irq_eoir s) iar] in
     if k = STAGE90_GIC_TIMER_INTID
     then r = (Irq_Return, taken @ [Ev_Read (irq_pend s), Ev_Rtclock, Ev_Read (irq_pend s)])
     else if k = STAGE90_GICC_SPURIOUS_ID then r = (Irq_Return, [Ev_Read (irq_iar s)])
     else case irq_clients s k of
       Some (h, rc) \<Rightarrow> r = (if irq_line_calls s k + 1 > STAGE90_IRQ_CLIENT_CAP
         then (Irq_Stop ''exception: irq client storm'', taken) else (Irq_Return, taken @ [Ev_Client h rc k]))
     | None \<Rightarrow> r = (Irq_Stop ''exception: irq line'', taken))"

lemma irq_clients_reserved:
  "irq_wf s \<Longrightarrow> k \<in> {STAGE90_GIC_TIMER_INTID, STAGE90_GICC_SPURIOUS_ID} \<Longrightarrow> irq_clients s k = None"
  by (auto simp: irq_clients_None irq_wf_def)

lemma irq_table_cong:
  "irq_cli_handler s' = irq_cli_handler s \<Longrightarrow> irq_cli_intid s' = irq_cli_intid s \<Longrightarrow>
   irq_cli_refcon s' = irq_cli_refcon s \<Longrightarrow> irq_clients s' = irq_clients s"
  by (simp add: irq_clients_def fun_eq_iff)

text \<open>The dispatcher's entry: counting the call and keeping the first arguments.\<close>

definition irq_enter :: "u32 \<Rightarrow> u32 \<Rightarrow> u32 \<Rightarrow> u32 \<Rightarrow> irq_state \<Rightarrow> irq_state" where
  "irq_enter t r n src s =
    (if irq_seq s + 1 = 1 then s\<lparr>irq_seq := irq_seq s + 1, irq_args := [t, r, n, src]\<rparr>
     else s\<lparr>irq_seq := irq_seq s + 1\<rparr>)"

lemma irq_enter_fields [simp]:
  "irq_cli_handler (irq_enter t r n src s) = irq_cli_handler s" "irq_cli_intid (irq_enter t r n src s) = irq_cli_intid s"
  "irq_cli_refcon (irq_enter t r n src s) = irq_cli_refcon s" "irq_cli_calls (irq_enter t r n src s) = irq_cli_calls s"
  "irq_gic_dist_va (irq_enter t r n src s) = irq_gic_dist_va s" "irq_gic_cpu_va (irq_enter t r n src s) = irq_gic_cpu_va s"
  by (simp_all add: irq_enter_def)

lemma irq_handler_enter:
  "entry_irq_handler k t rc n src s w =
    (let s2 = irq_enter t rc n src s; (iar, w1) = gicc_read k s2 STAGE90_GICC_IAR w;
         intid = iar AND STAGE90_GICC_IAR_INTID_MASK
     in if intid = STAGE90_GIC_TIMER_INTID then irq_timer_line k iar s2 w1
        else case cli_find (irq_cli_handler s) (irq_cli_intid s) intid [0..<STAGE90_IRQ_CLIENTS] of
               Some i \<Rightarrow> irq_client_line k iar intid i s2 w1
             | None \<Rightarrow>
                 if intid = STAGE90_GICC_SPURIOUS_ID
                 then (Irq_Return, s2\<lparr>irq_spurious_count := irq_spurious_count s2 + 1\<rparr>, w1)
                 else (Irq_Stop ''exception: irq line'', s2\<lparr>irq_other_count := irq_other_count s2 + 1\<rparr>,
                       gicc_write k s2 STAGE90_GICC_EOIR iar w1))"
proof -
  have e: "(if irq_seq (s\<lparr>irq_seq := irq_seq s + 1\<rparr>) = 1 then s\<lparr>irq_seq := irq_seq s + 1\<rparr>\<lparr>irq_args := [t, rc, n, src]\<rparr>
      else s\<lparr>irq_seq := irq_seq s + 1\<rparr>) = irq_enter t rc n src s"
    by (simp add: irq_enter_def)
  show ?thesis unfolding entry_irq_handler_def Let_def e irq_enter_fields by (rule refl)
qed

lemma irq_dispatch_traced:
  assumes wf: "irq_wf s" and run: "entry_irq_handler (irq_traced rdv cpu) t r n src s [] = (x, s', tr)"
  shows "irq_dispatch_spec s (rdv [] (irq_iar s)) (x, tr)" and "irq_wf s'" and "irq_clients s' = irq_clients s"
    and "irq_cli_handler s' = irq_cli_handler s" and "irq_cli_intid s' = irq_cli_intid s"
    and "irq_cli_refcon s' = irq_cli_refcon s"
proof -
  let ?k = "rdv [] (irq_iar s) AND STAGE90_GICC_IAR_INTID_MASK"
  let ?e = "irq_enter t r n src s"
  have run': "(if ?k = STAGE90_GIC_TIMER_INTID then irq_timer_line (irq_traced rdv cpu) (rdv [] (irq_iar s)) ?e [Ev_Read (irq_iar s)]
        else case cli_find (irq_cli_handler s) (irq_cli_intid s) ?k [0..<STAGE90_IRQ_CLIENTS] of
               Some i \<Rightarrow> irq_client_line (irq_traced rdv cpu) (rdv [] (irq_iar s)) ?k i ?e [Ev_Read (irq_iar s)]
             | None \<Rightarrow>
                 if ?k = STAGE90_GICC_SPURIOUS_ID
                 then (Irq_Return, ?e\<lparr>irq_spurious_count := irq_spurious_count ?e + 1\<rparr>, [Ev_Read (irq_iar s)])
                 else (Irq_Stop ''exception: irq line'', ?e\<lparr>irq_other_count := irq_other_count ?e + 1\<rparr>,
                       [Ev_Read (irq_iar s), Ev_Write (irq_eoir s) (rdv [] (irq_iar s))])) = (x, s', tr)"
    using run unfolding irq_handler_enter by (simp add: irq_io_defs irq_iar_def irq_eoir_def Let_def cong: if_cong option.case_cong)
  have all: "irq_dispatch_spec s (rdv [] (irq_iar s)) (x, tr) \<and> irq_cli_handler s' = irq_cli_handler s
    \<and> irq_cli_intid s' = irq_cli_intid s \<and> irq_cli_refcon s' = irq_cli_refcon s
    \<and> length (irq_cli_calls s') = length (irq_cli_calls s)"
  proof (cases "?k = STAGE90_GIC_TIMER_INTID")
    case True
    then show ?thesis using run'
      by (auto simp: irq_timer_line_def irq_dispatch_spec_def irq_io_defs irq_pend_def irq_eoir_def Let_def split: if_splits)
  next
    case False
    show ?thesis
    proof (cases "cli_find (irq_cli_handler s) (irq_cli_intid s) ?k [0..<STAGE90_IRQ_CLIENTS]")
      case None
      then have "irq_clients s ?k = None" by (simp add: irq_clients_def)
      then show ?thesis using run' False None
        by (auto simp: irq_dispatch_spec_def Let_def split: if_splits)
    next
      case (Some i)
      then have c: "irq_clients s ?k = Some (irq_cli_handler s ! i, irq_cli_refcon s ! i)" by (simp add: irq_clients_def)
      then have "?k \<noteq> STAGE90_GICC_SPURIOUS_ID" using irq_clients_reserved [OF wf] by auto
      moreover have "i < length (irq_cli_calls s)"
        using cli_find_Some [OF Some] wf by (simp add: irq_wf_def STAGE90_IRQ_CLIENTS_def)
      moreover have "irq_line_calls s ?k = irq_cli_calls s ! i" using Some by (simp add: irq_line_calls_def)
      ultimately show ?thesis using run' False Some c
        by (auto simp: irq_client_line_def irq_dispatch_spec_def irq_io_defs irq_eoir_def Let_def split: if_splits)
    qed
  qed
  then show "irq_dispatch_spec s (rdv [] (irq_iar s)) (x, tr)" "irq_cli_handler s' = irq_cli_handler s"
    "irq_cli_intid s' = irq_cli_intid s" "irq_cli_refcon s' = irq_cli_refcon s" by blast+
  show "irq_wf s'" "irq_clients s' = irq_clients s" using irq_frame [of s' s] all wf by blast+
qed


subsection \<open>One store at a time\<close>

text \<open>\<open>Pc_Ret r\<close>: no call under way, the last one answered \<open>r\<close>.\<close>

datatype irq_pc =
    Pc_Ret u32
  | Reg_Scan u32 u32 u32 nat nat
  | Reg_Refuse
  | Reg_Intid u32 u32 u32 nat
  | Reg_Refcon u32 u32 u32 nat
  | Reg_Handler u32 u32 u32 nat
  | Reg_Count
  | Unreg_Scan u32 nat
  | Unreg_Handler nat
  | Unreg_Intid nat
  | Unreg_Refcon nat
  | Unreg_Count

definition reg_begin :: "u32 \<Rightarrow> u32 \<Rightarrow> u32 \<Rightarrow> irq_pc" where
  "reg_begin k h rc =
    (if h = 0 \<or> k = STAGE90_GIC_TIMER_INTID \<or> k = STAGE90_GICC_SPURIOUS_ID then Reg_Refuse
     else Reg_Scan k h rc 0 STAGE90_IRQ_CLIENTS)"

fun irq_micro :: "irq_pc \<Rightarrow> irq_state \<Rightarrow> irq_pc \<times> irq_state" where
  "irq_micro (Pc_Ret r) s = (Pc_Ret r, s)"
| "irq_micro Reg_Refuse s = (Pc_Ret 0, s\<lparr>irq_cli_refused := irq_cli_refused s + 1\<rparr>)"
| "irq_micro (Reg_Scan k h rc i slot) s =
    (if i < STAGE90_IRQ_CLIENTS
     then (if irq_cli_handler s ! i = 0
           then (Reg_Scan k h rc (Suc i) (if slot = STAGE90_IRQ_CLIENTS then i else slot), s)
           else if irq_cli_intid s ! i = k then (Reg_Refuse, s)
           else (Reg_Scan k h rc (Suc i) slot, s))
     else if slot = STAGE90_IRQ_CLIENTS then (Reg_Refuse, s)
     else (Reg_Intid k h rc slot, s))"
| "irq_micro (Reg_Intid k h rc n) s = (Reg_Refcon k h rc n, s\<lparr>irq_cli_intid := (irq_cli_intid s)[n := k]\<rparr>)"
| "irq_micro (Reg_Refcon k h rc n) s = (Reg_Handler k h rc n, s\<lparr>irq_cli_refcon := (irq_cli_refcon s)[n := rc]\<rparr>)"
| "irq_micro (Reg_Handler k h rc n) s = (Reg_Count, s\<lparr>irq_cli_handler := (irq_cli_handler s)[n := h]\<rparr>)"
| "irq_micro Reg_Count s = (Pc_Ret 1, s\<lparr>irq_cli_registered := irq_cli_registered s + 1\<rparr>)"
| "irq_micro (Unreg_Scan k i) s =
    (if i < STAGE90_IRQ_CLIENTS
     then (if irq_cli_handler s ! i \<noteq> 0 \<and> irq_cli_intid s ! i = k then (Unreg_Handler i, s)
           else (Unreg_Scan k (Suc i), s))
     else (Pc_Ret 0, s))"
| "irq_micro (Unreg_Handler n) s = (Unreg_Intid n, s\<lparr>irq_cli_handler := (irq_cli_handler s)[n := 0]\<rparr>)"
| "irq_micro (Unreg_Intid n) s = (Unreg_Refcon n, s\<lparr>irq_cli_intid := (irq_cli_intid s)[n := 0]\<rparr>)"
| "irq_micro (Unreg_Refcon n) s = (Unreg_Count, s\<lparr>irq_cli_refcon := (irq_cli_refcon s)[n := 0]\<rparr>)"
| "irq_micro Unreg_Count s = (Pc_Ret 1, s\<lparr>irq_cli_unregistered := irq_cli_unregistered s + 1\<rparr>)"

subsection \<open>The interleaving\<close>

datatype irq_label = L_Reg u32 u32 u32 | L_Unreg u32 | L_Tau | L_Irq "irq_event list"

inductive irq_step :: "irq_pc \<Rightarrow> irq_state \<Rightarrow> irq_label \<Rightarrow> irq_pc \<Rightarrow> irq_state \<Rightarrow> bool" where
  begin_reg: "irq_step (Pc_Ret r) s (L_Reg k h rc) (reg_begin k h rc) s"
| begin_unreg: "irq_step (Pc_Ret r) s (L_Unreg k) (Unreg_Scan k 0) s"
| micro: "irq_micro pc s = (pc', s') \<Longrightarrow> irq_step pc s L_Tau pc' s'"
| deliver: "entry_irq_handler (irq_traced rdv cpu) t r n src s [] = (x, s', tr) \<Longrightarrow> irq_step pc s (L_Irq tr) pc s'"

text \<open>A run from the zeroed statics, its labels in order.\<close>

inductive irq_run :: "irq_label list \<Rightarrow> irq_pc \<Rightarrow> irq_state \<Rightarrow> bool" where
  boot: "irq_run [] (Pc_Ret 0) irq_boot"
| step: "irq_run ls pc s \<Longrightarrow> irq_step pc s l pc' s' \<Longrightarrow> irq_run (ls @ [l]) pc' s'"

inductive_cases irq_step_tauE: "irq_step pc s L_Tau pc' s'"
inductive_cases irq_step_irqE: "irq_step pc s (L_Irq tr) pc' s'"

subsection \<open>What holds at every point of a run\<close>

text \<open>A registration under way was asked for, and the slot it fills is still dead.\<close>

fun irq_pc_ok :: "irq_label list \<Rightarrow> irq_pc \<Rightarrow> irq_state \<Rightarrow> bool" where
  "irq_pc_ok ls (Pc_Ret r) s = True"
| "irq_pc_ok ls Reg_Refuse s = True"
| "irq_pc_ok ls (Reg_Scan k h rc i slot) s \<longleftrightarrow> L_Reg k h rc \<in> set ls \<and> irq_admits k (h, rc) \<and> i \<le> 4
    \<and> (\<forall>j < i. j \<in> irq_live s \<longrightarrow> irq_cli_intid s ! j \<noteq> k) \<and> (slot = 4 \<or> slot < 4 \<and> slot \<notin> irq_live s)"
| "irq_pc_ok ls (Reg_Intid k h rc n) s \<longleftrightarrow> L_Reg k h rc \<in> set ls \<and> irq_admits k (h, rc)
    \<and> irq_clients s k = None \<and> n < 4 \<and> n \<notin> irq_live s"
| "irq_pc_ok ls (Reg_Refcon k h rc n) s \<longleftrightarrow> L_Reg k h rc \<in> set ls \<and> irq_admits k (h, rc)
    \<and> irq_clients s k = None \<and> n < 4 \<and> n \<notin> irq_live s \<and> irq_cli_intid s ! n = k"
| "irq_pc_ok ls (Reg_Handler k h rc n) s \<longleftrightarrow> L_Reg k h rc \<in> set ls \<and> irq_admits k (h, rc)
    \<and> irq_clients s k = None \<and> n < 4 \<and> n \<notin> irq_live s \<and> irq_cli_intid s ! n = k \<and> irq_cli_refcon s ! n = rc"
| "irq_pc_ok ls Reg_Count s = True"
| "irq_pc_ok ls (Unreg_Scan k i) s = True"
| "irq_pc_ok ls (Unreg_Handler n) s \<longleftrightarrow> n \<in> irq_live s"
| "irq_pc_ok ls (Unreg_Intid n) s \<longleftrightarrow> n < 4 \<and> n \<notin> irq_live s"
| "irq_pc_ok ls (Unreg_Refcon n) s \<longleftrightarrow> n < 4 \<and> n \<notin> irq_live s"
| "irq_pc_ok ls Unreg_Count s = True"

definition irq_inv :: "irq_label list \<Rightarrow> irq_pc \<Rightarrow> irq_state \<Rightarrow> bool" where
  "irq_inv ls pc s \<longleftrightarrow> irq_wf s \<and> irq_pc_ok ls pc s
     \<and> (\<forall>k h rc. irq_clients s k = Some (h, rc) \<longrightarrow> L_Reg k h rc \<in> set ls)"

lemma irq_pc_ok_mono: "irq_pc_ok ls pc s \<Longrightarrow> set ls \<subseteq> set ls' \<Longrightarrow> irq_pc_ok ls' pc s"
  by (cases pc) auto

lemma irq_live_cong: "irq_cli_handler s' = irq_cli_handler s \<Longrightarrow> irq_live s' = irq_live s"
  by (simp add: irq_live_def)

lemma irq_pc_ok_cong:
  assumes "irq_cli_handler s' = irq_cli_handler s" "irq_cli_intid s' = irq_cli_intid s" "irq_cli_refcon s' = irq_cli_refcon s"
  shows "irq_pc_ok ls pc s' = irq_pc_ok ls pc s"
  using irq_live_cong [OF assms(1)] irq_table_cong [OF assms] assms by (cases pc) simp_all

text \<open>A store to the \<open>intid\<close> or \<open>refcon\<close> of a dead slot does not show.\<close>

lemma irq_dead_store:
  assumes "irq_wf s" and "n \<notin> irq_live s" and "irq_cli_handler s' = irq_cli_handler s"
    and "irq_cli_intid s' = (irq_cli_intid s)[n := x]" and "irq_cli_refcon s' = (irq_cli_refcon s)[n := y]"
    and "irq_cli_calls s' = irq_cli_calls s"
  shows "irq_wf s'" and "irq_clients s' = irq_clients s"
proof -
  have live: "irq_live s' = irq_live s" using assms(3) by (rule irq_live_cong)
  have same: "irq_cli_intid s' ! i = irq_cli_intid s ! i" "irq_cli_refcon s' ! i = irq_cli_refcon s ! i"
    if "i \<in> irq_live s" for i
    using that assms(2,4,5) by (metis nth_list_update_neq)+
  have "inj_on (\<lambda>i. irq_cli_intid s' ! i) (irq_live s)" using assms(1) same(1) by (simp add: irq_wf_def inj_on_def)
  then show wf': "irq_wf s'" using assms(1,3-6) live same(1) by (simp add: irq_wf_def)
  show "irq_clients s' = irq_clients s"
  proof (rule irq_clients_eqI [OF wf'])
    fix k v
    show "(\<exists>i \<in> irq_live s'. irq_cli_intid s' ! i = k \<and> v = (irq_cli_handler s' ! i, irq_cli_refcon s' ! i))
      \<longleftrightarrow> irq_clients s k = Some v"
      unfolding live irq_clients_iff [OF assms(1)] using same assms(3) by auto
  qed
qed


lemma irq_inv_same:
  assumes "irq_inv ls pc s" and "irq_wf s'" and "irq_clients s' = irq_clients s" and "irq_pc_ok ls pc' s'"
  shows "irq_inv ls pc' s'"
  using assms by (simp add: irq_inv_def)

lemma irq_micro_inv:
  assumes inv: "irq_inv ls pc s" and step: "irq_micro pc s = (pc', s')"
  shows "irq_inv ls pc' s'"
proof -
  have wf: "irq_wf s" and ok: "irq_pc_ok ls pc s" using inv by (simp_all add: irq_inv_def)
  have len: "length (irq_cli_intid s) = 4" "length (irq_cli_refcon s) = 4" "length (irq_cli_handler s) = 4"
    "length (irq_cli_calls s) = 4" using wf by (simp_all add: irq_wf_def)
  note same = irq_inv_same [OF inv]
  show ?thesis
  proof (cases pc)
    case (Pc_Ret r)
    then show ?thesis using inv step by simp
  next
    case (Reg_Scan k h rc i slot)
    have s': "s' = s" using step Reg_Scan by (auto split: if_splits)
    have "irq_pc_ok ls pc' s"
    proof (cases "i < 4")
      case True
      then show ?thesis using step ok Reg_Scan
        by (auto simp: STAGE90_IRQ_CLIENTS_def irq_live_def less_Suc_eq split: if_splits)
    next
      case False
      then have "\<forall>j \<in> irq_live s. irq_cli_intid s ! j \<noteq> k" using ok Reg_Scan by (auto simp: irq_live_def)
      then have "irq_clients s k = None" by (simp add: irq_clients_None)
      then show ?thesis using step ok Reg_Scan False
        by (auto simp: STAGE90_IRQ_CLIENTS_def split: if_splits)
    qed
    then show ?thesis using same wf s' by simp
  next
    case Reg_Refuse
    then have s': "s' = s\<lparr>irq_cli_refused := irq_cli_refused s + 1\<rparr>" "pc' = Pc_Ret 0" using step by simp_all
    show ?thesis by (rule same) (use irq_frame [of s' s] wf s' in simp_all)
  next
    case (Reg_Intid k h rc n)
    then have s': "s' = s\<lparr>irq_cli_intid := (irq_cli_intid s)[n := k]\<rparr>" "pc' = Reg_Refcon k h rc n"
      using step by simp_all
    have n: "n < 4" "n \<notin> irq_live s" using ok Reg_Intid by simp_all
    note D = irq_dead_store [OF wf n(2), of s' k "irq_cli_refcon s ! n"]
    have D': "irq_wf s'" "irq_clients s' = irq_clients s" by (rule D; simp add: s')+
    have "irq_live s' = irq_live s" by (rule irq_live_cong) (simp add: s')
    then have "irq_pc_ok ls pc' s'" using ok Reg_Intid D'(2) s' n len by simp
    then show ?thesis using same D' by blast
  next
    case (Reg_Refcon k h rc n)
    then have s': "s' = s\<lparr>irq_cli_refcon := (irq_cli_refcon s)[n := rc]\<rparr>" "pc' = Reg_Handler k h rc n"
      using step by simp_all
    have n: "n < 4" "n \<notin> irq_live s" using ok Reg_Refcon by simp_all
    note D = irq_dead_store [OF wf n(2), of s' "irq_cli_intid s ! n" rc]
    have D': "irq_wf s'" "irq_clients s' = irq_clients s" by (rule D; simp add: s')+
    have "irq_live s' = irq_live s" by (rule irq_live_cong) (simp add: s')
    then have "irq_pc_ok ls pc' s'" using ok Reg_Refcon D'(2) s' n len by simp
    then show ?thesis using same D' by blast
  next
    case (Reg_Handler k h rc n)
    then have s': "s' = s\<lparr>irq_cli_handler := (irq_cli_handler s)[n := h]\<rparr>" "pc' = Reg_Count"
      using step by simp_all
    have n: "n < 4" "irq_cli_handler s ! n = 0" and k: "h \<noteq> 0" "k \<notin> {STAGE90_GIC_TIMER_INTID, STAGE90_GICC_SPURIOUS_ID}"
      "irq_clients s k = None" and at: "irq_cli_intid s ! n = k" "irq_cli_refcon s ! n = rc" and asked: "L_Reg k h rc \<in> set ls"
      using ok Reg_Handler by (auto simp: irq_live_def irq_admits_def)
    note F = irq_fill [OF wf n k, of s' rc]
    have e: "(irq_cli_intid s)[n := k] = irq_cli_intid s" "(irq_cli_refcon s)[n := rc] = irq_cli_refcon s"
      using list_update_id [of "irq_cli_intid s" n] list_update_id [of "irq_cli_refcon s" n] unfolding at by simp_all
    have F': "irq_wf s'" "irq_clients s' = (irq_clients s)(k \<mapsto> (h, rc))"
      by (rule F; use e len in \<open>simp add: s'\<close>)+
    then show ?thesis using inv asked s'(2) by (auto simp: irq_inv_def)
  next
    case Reg_Count
    then have s': "s' = s\<lparr>irq_cli_registered := irq_cli_registered s + 1\<rparr>" "pc' = Pc_Ret 1" using step by simp_all
    show ?thesis by (rule same) (use irq_frame [of s' s] wf s' in simp_all)
  next
    case (Unreg_Scan k i)
    then have "s' = s" "irq_pc_ok ls pc' s"
      using step by (auto simp: STAGE90_IRQ_CLIENTS_def irq_live_def split: if_splits)
    then show ?thesis using same wf by simp
  next
    case (Unreg_Handler n)
    then have s': "s' = s\<lparr>irq_cli_handler := (irq_cli_handler s)[n := 0]\<rparr>" "pc' = Unreg_Intid n" using step by simp_all
    have n: "n \<in> irq_live s" using ok Unreg_Handler by simp
    note E = irq_empty [OF wf n, of s' "irq_cli_intid s ! n" "irq_cli_refcon s ! n"]
    have E': "irq_wf s'" "irq_clients s' = (irq_clients s)(irq_cli_intid s ! n := None)" by (rule E; simp add: s' len)+
    have "irq_pc_ok ls pc' s'" using n len by (auto simp: s' irq_live_def)
    then show ?thesis using inv E' by (auto simp: irq_inv_def split: if_splits)
  next
    case (Unreg_Intid n)
    then have s': "s' = s\<lparr>irq_cli_intid := (irq_cli_intid s)[n := 0]\<rparr>" "pc' = Unreg_Refcon n" using step by simp_all
    have n: "n < 4" "n \<notin> irq_live s" using ok Unreg_Intid by simp_all
    note D = irq_dead_store [OF wf n(2), of s' 0 "irq_cli_refcon s ! n"]
    have D': "irq_wf s'" "irq_clients s' = irq_clients s" by (rule D; simp add: s')+
    have "irq_live s' = irq_live s" by (rule irq_live_cong) (simp add: s')
    then show ?thesis using same [OF D'] n s' by simp
  next
    case (Unreg_Refcon n)
    then have s': "s' = s\<lparr>irq_cli_refcon := (irq_cli_refcon s)[n := 0]\<rparr>" "pc' = Unreg_Count" using step by simp_all
    have n: "n \<notin> irq_live s" using ok Unreg_Refcon by simp
    note D = irq_dead_store [OF wf n, of s' "irq_cli_intid s ! n" 0]
    have D': "irq_wf s'" "irq_clients s' = irq_clients s" by (rule D; simp add: s')+
    then show ?thesis using same [OF D'] s' by simp
  next
    case Unreg_Count
    then have s': "s' = s\<lparr>irq_cli_unregistered := irq_cli_unregistered s + 1\<rparr>" "pc' = Pc_Ret 1" using step by simp_all
    show ?thesis by (rule same) (use irq_frame [of s' s] wf s' in simp_all)
  qed
qed

lemma irq_run_inv: "irq_run ls pc s \<Longrightarrow> irq_inv ls pc s"
proof (induction rule: irq_run.induct)
  case boot
  then show ?case by (simp add: irq_inv_def irq_wf_boot irq_clients_boot)
next
  case (step ls pc s l pc' s')
  have more: "irq_inv (ls @ [l]) pc s"
    using step.IH irq_pc_ok_mono [of ls pc s "ls @ [l]"] by (auto simp: irq_inv_def)
  from step.hyps(2) show ?case
  proof cases
    case (begin_reg r k h rc)
    then have "irq_pc_ok (ls @ [l]) pc' s"
      by (auto simp: reg_begin_def irq_admits_def STAGE90_IRQ_CLIENTS_def)
    then show ?thesis using more begin_reg by (simp add: irq_inv_def)
  next
    case (begin_unreg r k)
    then show ?thesis using more by (simp add: irq_inv_def)
  next
    case micro
    then show ?thesis using irq_micro_inv [OF more] by simp
  next
    case (deliver rdv cpu t r n src x tr)
    have wf: "irq_wf s" using more by (simp add: irq_inv_def)
    note T = irq_dispatch_traced [OF wf deliver(3)]
    have "irq_pc_ok (ls @ [l]) pc s'" using more irq_pc_ok_cong [OF T(4-6)] by (simp add: irq_inv_def)
    then show ?thesis using irq_inv_same [OF more T(2,3)] deliver by simp
  qed
qed


subsection \<open>Running a call on its own\<close>

fun irq_micros :: "nat \<Rightarrow> irq_pc \<Rightarrow> irq_state \<Rightarrow> irq_pc \<times> irq_state" where
  "irq_micros 0 pc s = (pc, s)"
| "irq_micros (Suc n) pc s = (let (pc', s') = irq_micro pc s in irq_micros n pc' s')"

lemma irq_run_micros:
  "irq_run ls pc s \<Longrightarrow> irq_micros n pc s = (pc', s') \<Longrightarrow> irq_run (ls @ replicate n L_Tau) pc' s'"
proof (induction n arbitrary: ls pc s)
  case (Suc n)
  obtain pc1 s1 where m: "irq_micro pc s = (pc1, s1)" by fastforce
  then have "irq_run (ls @ [L_Tau]) pc1 s1" using Suc.prems(1) by (auto intro: irq_run.step irq_step.micro)
  then show ?case using Suc.IH [of "ls @ [L_Tau]" pc1 s1] Suc.prems(2) m by simp
qed simp

lemma irq_micros_ret [simp]: "irq_micros n (Pc_Ret r) s = (Pc_Ret r, s)"
  by (induction n) simp_all

lemma upt_clients: "[0..<STAGE90_IRQ_CLIENTS] = [0, 1, 2, 3]"
  by (simp add: STAGE90_IRQ_CLIENTS_def upt_rec)

lemma irq_micros_register:
  "irq_micros 10 (reg_begin k h rc) s = (let (r, s') = entry_irq_register_client k h rc s in (Pc_Ret r, s'))"
proof (cases "h = 0 \<or> k = STAGE90_GIC_TIMER_INTID \<or> k = STAGE90_GICC_SPURIOUS_ID")
  case True
  then show ?thesis by (auto simp: reg_begin_def entry_irq_register_client_def eval_nat_numeral)
next
  case False
  then show ?thesis
    unfolding entry_irq_register_client_def upt_clients reg_begin_def
    by (simp add: eval_nat_numeral STAGE90_IRQ_CLIENTS_def Let_def)
qed

end
