(* ===== verification/Irq_Line.thy ===== *)
theory Irq_Line
  imports Irq_Interleaving
begin

text \<open>
  One line's distributor state: what \<open>entry_irq_enable_line\<close> achieves on a distributor that behaves
  as the GIC architecture documents.
\<close>

unbundle bit_operations_syntax

lemma unat_of_nat_u32: "n < 2 ^ 32 \<Longrightarrow> unat (word_of_nat n :: u32) = n"
  by (simp add: unat_of_nat take_bit_nat_eq_self_iff)

lemma u32_eq_of_nat: "unat (w :: u32) = n \<Longrightarrow> w = word_of_nat n"
  using unat_of_nat_u32 [of n] unat_lt_u32 [of w] by (simp add: word_unat_eq_iff)

subsection \<open>The device\<close>

text \<open>
  The registers the function relies on, by offset: the group and set-enable words and the target
  words, and the words that read as the pending bits.  \<open>gicd_laws\<close> is the documented behaviour of
  a distributor at \<open>D\<close> and a CPU interface at \<open>C\<close> while no new interrupt arrives: reads have no
  effect; a set-enable word keeps its set bits and gains the written ones; a group word, and the
  target word of shared lines, keeps what is written (the targets of the banked lines are fixed); a
  write to a clear-pending word clears the pending bits it has a 1 for, but for the lines \<open>held\<close>
  gives (software-generated ones, and level-sensitive ones whose input is still asserted), whose
  bits it leaves; and a write to one of these leaves every other one alone.
\<close>

definition gic_cfg_reg :: "nat \<Rightarrow> bool" where
  "gic_cfg_reg off \<longleftrightarrow> off mod 4 = 0 \<and> (0x080 \<le> off \<and> off < 0x180 \<or> 0x800 \<le> off \<and> off < 0xc00)"

definition gic_pend_reg :: "nat \<Rightarrow> bool" where
  "gic_pend_reg off \<longleftrightarrow> off mod 4 = 0 \<and> 0x200 \<le> off \<and> off < 0x280"

definition gic_reg :: "('w, 'z) irq_world_scheme \<Rightarrow> u32 \<Rightarrow> nat \<Rightarrow> 'w \<Rightarrow> u32" where
  "gic_reg k D off w = fst (w_rd k (D + word_of_nat off) w)"

definition gicd_laws :: "('w, 'z) irq_world_scheme \<Rightarrow> u32 \<Rightarrow> u32 \<Rightarrow> (nat \<Rightarrow> 'w \<Rightarrow> u32) \<Rightarrow> bool" where
  "gicd_laws k D C held \<longleftrightarrow>
    (\<forall>off w. off < 0x1000 \<longrightarrow> snd (w_rd k (D + word_of_nat off) w) = w)
  \<and> (\<forall>w. snd (w_rd k (C + STAGE90_GICC_PMR) w) = w)
  \<and> (\<forall>o1 o2 x w. gic_cfg_reg o1 \<longrightarrow> gic_cfg_reg o2 \<or> gic_pend_reg o2 \<longrightarrow> o2 \<noteq> o1
      \<longrightarrow> gic_reg k D o2 (w_wr k (D + word_of_nat o1) x w) = gic_reg k D o2 w)
  \<and> (\<forall>o1 o2 x w. gic_pend_reg o1 \<longrightarrow> gic_cfg_reg o2 \<or> gic_pend_reg o2
      \<longrightarrow> gic_reg k D o2 (w_wr k (D + word_of_nat (o1 + 0x80)) x w) =
        (if o2 = o1 then gic_reg k D o1 w AND (NOT x OR held o1 w) else gic_reg k D o2 w))
  \<and> (\<forall>off x w. gic_cfg_reg off \<longrightarrow> gic_reg k D off (w_wr k (D + word_of_nat off) x w) =
       (if 0x100 \<le> off \<and> off < 0x180 then gic_reg k D off w OR x
        else if 0x800 \<le> off \<and> off < 0x820 then gic_reg k D off w else x))"

text \<open>A line's enable bit, group bit, target byte and pending bit.\<close>

definition gic_enabled :: "('w, 'z) irq_world_scheme \<Rightarrow> u32 \<Rightarrow> 'w \<Rightarrow> nat \<Rightarrow> bool" where
  "gic_enabled k D w j = bit (gic_reg k D (0x100 + j div 32 * 4) w) (j mod 32)"

definition gic_group :: "('w, 'z) irq_world_scheme \<Rightarrow> u32 \<Rightarrow> 'w \<Rightarrow> nat \<Rightarrow> bool" where
  "gic_group k D w j = bit (gic_reg k D (0x080 + j div 32 * 4) w) (j mod 32)"

definition gic_target :: "('w, 'z) irq_world_scheme \<Rightarrow> u32 \<Rightarrow> 'w \<Rightarrow> nat \<Rightarrow> u32" where
  "gic_target k D w j = take_bit 8 (drop_bit (j mod 4 * 8) (gic_reg k D (0x800 + j div 4 * 4) w))"

definition gic_pending :: "('w, 'z) irq_world_scheme \<Rightarrow> u32 \<Rightarrow> 'w \<Rightarrow> nat \<Rightarrow> bool" where
  "gic_pending k D w j = bit (gic_reg k D (0x200 + j div 32 * 4) w) (j mod 32)"

lemma gic_cfg_regs:
  assumes "j < 1020"
  shows "gic_cfg_reg (0x100 + j div 32 * 4)" "gic_cfg_reg (0x080 + j div 32 * 4)" "gic_cfg_reg (0x800 + j div 4 * 4)"
    "gic_pend_reg (0x200 + j div 32 * 4)"
proof -
  have "j div 32 < 32" "j div 4 < 255" using assms by (simp_all add: div_less_iff_less_mult)
  then show "gic_cfg_reg (0x100 + j div 32 * 4)" "gic_cfg_reg (0x080 + j div 32 * 4)" "gic_cfg_reg (0x800 + j div 4 * 4)"
    "gic_pend_reg (0x200 + j div 32 * 4)"
    by (simp_all add: gic_cfg_reg_def gic_pend_reg_def mod_add_eq)
qed

subsection \<open>The offsets the code computes\<close>

lemma intid_offsets:
  fixes intid :: u32
  defines "n \<equiv> unat intid"
  assumes "n < 1020"
  shows "STAGE90_GICD_ISENABLER0 + intid div 32 * 4 = word_of_nat (0x100 + n div 32 * 4)"
    and "STAGE90_GICD_ICPENDR0 + intid div 32 * 4 = word_of_nat (0x280 + n div 32 * 4)"
    and "STAGE90_GICD_ISPENDR0 + intid div 32 * 4 = word_of_nat (0x200 + n div 32 * 4)"
    and "STAGE90_GICD_IGROUPR0 + intid div 32 * 4 = word_of_nat (0x080 + n div 32 * 4)"
    and "STAGE90_GICD_ITARGETSR0 + (intid AND NOT 3) = word_of_nat (0x800 + n div 4 * 4)"
    and "STAGE90_GICD_IPRIORITY0 + (intid AND NOT 3) = word_of_nat (0x400 + n div 4 * 4)"
    and "STAGE90_GICD_ICFGR0 + intid div 16 * 4 = word_of_nat (0xc00 + n div 16 * 4)"
    and "unat (intid mod 32) = n mod 32" and "unat (intid mod 4 * 8) = n mod 4 * 8"
proof -
  have w: "intid div 32 * 4 = word_of_nat (n div 32 * 4)" "intid div 16 * 4 = word_of_nat (n div 16 * 4)"
    by (rule u32_eq_of_nat; use assms in \<open>simp add: unat_mult_u32 unat_div\<close>)+
  have "intid AND NOT 3 = word_of_nat (n div 4 * 4)"
  proof (rule u32_eq_of_nat)
    have s: "Suc (Suc (i - 2)) = i" if "\<not> i < 2" for i :: nat using that by simp
    have m: "(3 :: u32) = mask 2" by (simp add: mask_eq_exp_minus_1)
    have "intid AND NOT (mask 2) = push_bit 2 (drop_bit 2 intid)"
      by (rule bit_word_eqI) (auto simp: bit_and_iff bit_not_iff bit_mask_iff bit_push_bit_iff bit_drop_bit_eq s)
    then have "intid AND NOT 3 = push_bit 2 (drop_bit 2 intid)" unfolding m .
    then show "unat (intid AND NOT 3) = n div 4 * 4"
      using assms by (simp add: push_bit_eq_mult drop_bit_eq_div unat_mult_u32 unat_div)
  qed
  with w show "STAGE90_GICD_ISENABLER0 + intid div 32 * 4 = word_of_nat (0x100 + n div 32 * 4)"
    and "STAGE90_GICD_ICPENDR0 + intid div 32 * 4 = word_of_nat (0x280 + n div 32 * 4)"
    and "STAGE90_GICD_ISPENDR0 + intid div 32 * 4 = word_of_nat (0x200 + n div 32 * 4)"
    and "STAGE90_GICD_IGROUPR0 + intid div 32 * 4 = word_of_nat (0x080 + n div 32 * 4)"
    and "STAGE90_GICD_ITARGETSR0 + (intid AND NOT 3) = word_of_nat (0x800 + n div 4 * 4)"
    and "STAGE90_GICD_IPRIORITY0 + (intid AND NOT 3) = word_of_nat (0x400 + n div 4 * 4)"
    and "STAGE90_GICD_ICFGR0 + intid div 16 * 4 = word_of_nat (0xc00 + n div 16 * 4)"
    by (simp_all add: STAGE90_GICD_ISENABLER0_def STAGE90_GICD_ICPENDR0_def STAGE90_GICD_ISPENDR0_def
        STAGE90_GICD_IGROUPR0_def STAGE90_GICD_ITARGETSR0_def STAGE90_GICD_IPRIORITY0_def STAGE90_GICD_ICFGR0_def)
  show "unat (intid mod 32) = n mod 32" "unat (intid mod 4 * 8) = n mod 4 * 8"
    using assms by (auto simp: unat_mult_u32 unat_mod)
qed

text \<open>Replacing one byte of a word.\<close>

lemma byte_replace:
  fixes t x :: u32
  assumes "b < 4" and "c < 4"
  shows "take_bit 8 (drop_bit (c * 8) ((t AND NOT (push_bit (b * 8) 0xff)) OR push_bit (b * 8) (x AND 0xff)))
    = (if c = b then take_bit 8 x else take_bit 8 (drop_bit (c * 8) t))"
proof -
  have m: "(0xff :: u32) = mask 8" by (simp add: mask_eq_exp_minus_1)
  have "c * 8 + i < 32" if "i < 8" for i using that assms by linarith
  then show ?thesis unfolding m using assms
    by (intro bit_word_eqI) (auto simp: bit_simps)
qed


lemma bit_one_at: "bit (push_bit m 1 :: u32) i \<longleftrightarrow> i = m \<and> m < 32"
  by (auto simp: bit_exp_iff)

lemma and_bit_nonzero: "m < 32 \<Longrightarrow> (w :: u32) AND push_bit m 1 \<noteq> 0 \<longleftrightarrow> bit w m"
proof
  assume "m < 32" "w AND push_bit m 1 \<noteq> 0"
  then show "bit w m" by (metis and_exp_eq_0_iff_not_bit push_bit_of_1)
next
  assume m: "m < 32" and b: "bit w m"
  then have "bit (w AND push_bit m 1) m" by (simp add: bit_and_iff bit_exp_iff)
  then show "w AND push_bit m 1 \<noteq> 0" by auto
qed

subsection \<open>Setting a line up\<close>

lemma enable_line_run:
  fixes intid :: u32 and k :: "('w, 'z) irq_world_scheme"
  defines "n \<equiv> unat intid"
  assumes n: "0 < n" "n < 1020"
    and laws: "gicd_laws k D C held"
    and D: "D = STAGE90_GIC_DIST_BASE + irq_gic_dist_va s" and C: "C = STAGE90_GIC_CPU_BASE + irq_gic_cpu_va s"
  shows "entry_irq_enable_line k intid target s w =
    (let en = 0x100 + n div 32 * 4; grp = 0x080 + n div 32 * 4; tgt = 0x800 + n div 4 * 4;
         b = push_bit (n mod 32) 1; m = push_bit (n mod 4 * 8) 0xff;
         w1 = w_wr k (D + word_of_nat (0x280 + n div 32 * 4)) b w;
         w2 = w_wr k (D + word_of_nat tgt) ((gic_reg k D tgt w AND NOT m) OR push_bit (n mod 4 * 8) (target AND 0xff)) w1;
         w3 = w_wr k (D + word_of_nat grp) (gic_reg k D grp w AND NOT b) w2;
         w4 = w_wr k (D + word_of_nat en) b w3
     in (if gic_reg k D en w4 AND b \<noteq> 0 then 1 else 0, s\<lparr>irq_line_enabled := irq_line_enabled s + 1\<rparr>, w4))"
proof -
  have rd: "w_rd k (D + word_of_nat off) v = (gic_reg k D off v, v)" if "off < 0x1000" for off v
    using laws that unfolding gicd_laws_def by (intro prod_eqI) (simp_all add: gic_reg_def)
  define p where "p v = fst (w_rd k (C + STAGE90_GICC_PMR) v)" for v
  have pmr: "w_rd k (C + STAGE90_GICC_PMR) v = (p v, v)" for v
    unfolding p_def using laws unfolding gicd_laws_def by (intro prod_eqI) simp_all
  have "n div 32 < 32" "n div 4 < 255" "n div 16 < 64" using n(2) by (simp_all add: div_less_iff_less_mult)
  then have small: "0x100 + n div 32 * 4 < 0x1000" "0x200 + n div 32 * 4 < 0x1000" "0x080 + n div 32 * 4 < 0x1000"
    "0x800 + n div 4 * 4 < 0x1000" "0x400 + n div 4 * 4 < 0x1000" "0xc00 + n div 16 * 4 < 0x1000" by linarith+
  have ctlr: "w_rd k (D + STAGE90_GICD_CTLR) v = (gic_reg k D 0 v, v)" for v
    using rd [of 0 v] by (simp add: STAGE90_GICD_CTLR_def)
  have ok: "\<not> (intid = 0 \<or> intid \<ge> STAGE90_GIC_MAX_INTID)"
    using n by (auto simp: n_def STAGE90_GIC_MAX_INTID_def word_le_nat_alt)
  show ?thesis
    unfolding entry_irq_enable_line_def if_not_P [OF ok] Let_def gicd_read_def gicd_write_def gicc_read_def
      intid_offsets [OF n(2) [unfolded n_def]] D [symmetric] C [symmetric] n_def [symmetric]
      ctlr pmr rd [OF small(1)] rd [OF small(2)] rd [OF small(3)] rd [OF small(4)] rd [OF small(5)] rd [OF small(6)]
      prod.case
    by (rule refl)
qed


text \<open>Every register the laws speak of, after the four writes.\<close>

lemma enable_line_regs:
  fixes intid :: u32 and k :: "('w, 'z) irq_world_scheme"
  defines "n \<equiv> unat intid"
  assumes n: "0 < n" "n < 1020" and laws: "gicd_laws k D C held"
    and D: "D = STAGE90_GIC_DIST_BASE + irq_gic_dist_va s" and C: "C = STAGE90_GIC_CPU_BASE + irq_gic_cpu_va s"
    and run: "entry_irq_enable_line k intid target s w = (r, s', w')"
  shows "gic_cfg_reg off \<or> gic_pend_reg off \<Longrightarrow> gic_reg k D off w' =
    (if off = 0x100 + n div 32 * 4 then gic_reg k D off w OR push_bit (n mod 32) 1
     else if off = 0x080 + n div 32 * 4 then gic_reg k D off w AND NOT (push_bit (n mod 32) 1)
     else if off = 0x800 + n div 4 * 4 \<and> 32 \<le> n
       then (gic_reg k D off w AND NOT (push_bit (n mod 4 * 8) 0xff)) OR push_bit (n mod 4 * 8) (target AND 0xff)
     else if off = 0x200 + n div 32 * 4 then gic_reg k D off w AND (NOT (push_bit (n mod 32) 1) OR held off w)
     else gic_reg k D off w)"
  and "r = (if bit (gic_reg k D (0x100 + n div 32 * 4) w') (n mod 32) then 1 else 0)"
proof -
  define en where "en = 0x100 + n div 32 * 4"
  define grp where "grp = 0x080 + n div 32 * 4"
  define tgt where "tgt = 0x800 + n div 4 * 4"
  define sp where "sp = 0x200 + n div 32 * 4"
  define b :: u32 where "b = push_bit (n mod 32) 1"
  define tv where "tv = (gic_reg k D tgt w AND NOT (push_bit (n mod 4 * 8) 0xff)) OR push_bit (n mod 4 * 8) (target AND 0xff)"
  define pv where "pv = gic_reg k D sp w AND (NOT b OR held sp w)"
  define w1 where "w1 = w_wr k (D + word_of_nat (sp + 0x80)) b w"
  define w2 where "w2 = w_wr k (D + word_of_nat tgt) tv w1"
  define w3 where "w3 = w_wr k (D + word_of_nat grp) (gic_reg k D grp w AND NOT b) w2"
  have cp: "0x280 + n div 32 * 4 = sp + 0x80" by (simp add: sp_def)
  have "32 \<le> n \<longleftrightarrow> 8 \<le> n div 4" by linarith
  then have lim: "n div 32 < 32" "n div 4 < 255" "32 \<le> n \<longleftrightarrow> 8 \<le> n div 4" using n by (simp_all add: div_less_iff_less_mult)
  have cfg: "gic_cfg_reg en" "gic_cfg_reg grp" "gic_cfg_reg tgt" "gic_pend_reg sp"
    unfolding en_def grp_def tgt_def sp_def by (rule gic_cfg_regs [OF n(2)])+
  have neq: "en \<noteq> grp" "grp \<noteq> tgt" "en \<noteq> tgt" "sp \<noteq> en" "sp \<noteq> grp" "sp \<noteq> tgt"
    using lim by (simp_all add: en_def grp_def tgt_def sp_def)
  note run1 = enable_line_run [of intid k D C held s target w, folded n_def, OF n laws D C]
  have w': "w' = w_wr k (D + word_of_nat en) b w3"
    and r: "r = (if gic_reg k D en w' AND b \<noteq> 0 then 1 else 0)"
    using run unfolding run1 Let_def cp en_def [symmetric] grp_def [symmetric] tgt_def [symmetric]
      b_def [symmetric] tv_def [symmetric] w1_def [symmetric] w2_def [symmetric] w3_def [symmetric] by auto
  have other: "gic_reg k D o2 (w_wr k (D + word_of_nat o1) x v) = gic_reg k D o2 v"
    if "gic_cfg_reg o1" "gic_cfg_reg o2 \<or> gic_pend_reg o2" "o2 \<noteq> o1" for o1 o2 x v
    using laws that unfolding gicd_laws_def by blast
  have self: "gic_reg k D o1 (w_wr k (D + word_of_nat o1) x v) =
       (if 0x100 \<le> o1 \<and> o1 < 0x180 then gic_reg k D o1 v OR x
        else if 0x800 \<le> o1 \<and> o1 < 0x820 then gic_reg k D o1 v else x)" if "gic_cfg_reg o1" for o1 x v
    using laws that unfolding gicd_laws_def by blast
  have s1: "gic_reg k D o2 w1 = (if o2 = sp then pv else gic_reg k D o2 w)"
    if "gic_cfg_reg o2 \<or> gic_pend_reg o2" for o2
    unfolding w1_def pv_def using laws that cfg(4) unfolding gicd_laws_def by blast
  have range: "0x100 \<le> en \<and> en < 0x180" "\<not> (0x100 \<le> grp \<and> grp < 0x180)" "\<not> (0x800 \<le> grp \<and> grp < 0x820)"
    "\<not> (0x100 \<le> tgt \<and> tgt < 0x180)" "0x800 \<le> tgt \<and> tgt < 0x820 \<longleftrightarrow> \<not> 32 \<le> n"
    using lim by (auto simp: en_def grp_def tgt_def)
  note self' = self [OF cfg(1), unfolded if_P [OF range(1)]]
    self [OF cfg(2), unfolded if_not_P [OF range(2)] if_not_P [OF range(3)]]
    self [OF cfg(3), unfolded if_not_P [OF range(4)] range(5)]
  have s2: "gic_reg k D o2 w2 = (if o2 = tgt \<and> 32 \<le> n then tv else if o2 = sp then pv else gic_reg k D o2 w)"
    if "gic_cfg_reg o2 \<or> gic_pend_reg o2" for o2
    using other [OF cfg(3) that] self'(3) s1 [OF that] neq by (cases "o2 = tgt") (auto simp: w2_def)
  have s3: "gic_reg k D o2 w3 = (if o2 = grp then gic_reg k D grp w AND NOT b else if o2 = tgt \<and> 32 \<le> n then tv
      else if o2 = sp then pv else gic_reg k D o2 w)"
    if "gic_cfg_reg o2 \<or> gic_pend_reg o2" for o2
    using other [OF cfg(2) that] self'(2) s2 [OF that] by (cases "o2 = grp") (auto simp: w3_def)
  have s4: "gic_reg k D o2 w' = (if o2 = en then gic_reg k D en w OR b else if o2 = grp then gic_reg k D grp w AND NOT b
      else if o2 = tgt \<and> 32 \<le> n then tv else if o2 = sp then pv else gic_reg k D o2 w)"
    if "gic_cfg_reg o2 \<or> gic_pend_reg o2" for o2
    using other [OF cfg(1) that] self'(1) s3 [OF that] neq by (cases "o2 = en") (auto simp: w')
  show "gic_cfg_reg off \<or> gic_pend_reg off \<Longrightarrow> gic_reg k D off w' =
    (if off = 0x100 + n div 32 * 4 then gic_reg k D off w OR push_bit (n mod 32) 1
     else if off = 0x080 + n div 32 * 4 then gic_reg k D off w AND NOT (push_bit (n mod 32) 1)
     else if off = 0x800 + n div 4 * 4 \<and> 32 \<le> n
       then (gic_reg k D off w AND NOT (push_bit (n mod 4 * 8) 0xff)) OR push_bit (n mod 4 * 8) (target AND 0xff)
     else if off = 0x200 + n div 32 * 4 then gic_reg k D off w AND (NOT (push_bit (n mod 32) 1) OR held off w)
     else gic_reg k D off w)"
    using s4 [of off] unfolding en_def [symmetric] grp_def [symmetric] tgt_def [symmetric] sp_def [symmetric]
      b_def [symmetric] tv_def pv_def by auto
  show "r = (if bit (gic_reg k D (0x100 + n div 32 * 4) w') (n mod 32) then 1 else 0)"
    unfolding r en_def [symmetric] b_def by (subst and_bit_nonzero) simp_all
qed

lemma bank_offset_eq:
  fixes j n :: nat
  shows "(0x100 + j div 32 * 4 = 0x100 + n div 32 * 4 \<and> j mod 32 = n mod 32) = (j = n)"
    and "(0x800 + j div 4 * 4 = 0x800 + n div 4 * 4 \<and> j mod 4 = n mod 4) = (j = n)"
  by (auto, (metis div_mult_mod_eq)+)

text \<open>C34. On a distributor that behaves as documented, setting up any line from 1 to 1019 answers 1
  and leaves that line enabled, in group 0, targeted at exactly the CPUs asked for if it is a shared
  one, and with no pending bit left but one the device holds (a software-generated line, or a
  level-sensitive input that is still asserted). The enable bit, the group, the target byte and the
  pending bit of every other line are as they were, and so are the fixed targets of the banked lines.\<close>

theorem irq_enable_line_isolated:
  assumes "gicd_laws k D C held" and "D = STAGE90_GIC_DIST_BASE + irq_gic_dist_va s" and "C = STAGE90_GIC_CPU_BASE + irq_gic_cpu_va s"
    and "0 < unat intid" and "unat intid < 1020"
    and "entry_irq_enable_line k intid target s w = (r, s', w')" and "j < 1020"
  shows "r = 1 \<and> gic_enabled k D w' j = (j = unat intid \<or> gic_enabled k D w j)
    \<and> gic_group k D w' j = (j \<noteq> unat intid \<and> gic_group k D w j)
    \<and> gic_target k D w' j = (if j = unat intid \<and> 32 \<le> j then take_bit 8 target else gic_target k D w j)
    \<and> gic_pending k D w' j = (gic_pending k D w j \<and> (j \<noteq> unat intid \<or> bit (held (0x200 + j div 32 * 4) w) (j mod 32)))"
proof -
  let ?n = "unat intid"
  note R = enable_line_regs [OF assms(4,5,1,2,3,6)]
  note cj = gic_cfg_regs [OF assms(7)] and cn = gic_cfg_regs [OF assms(5)]
  have lim: "j div 32 < 32" "?n div 32 < 32" using assms(5,7) by (simp_all add: div_less_iff_less_mult)
  have m: "j mod 32 < 32" "?n mod 32 < 32" "j mod 4 < 4" "?n mod 4 < 4" by simp_all
  have "r = 1" unfolding R(2) R(1) [OF disjI1, OF cn(1)] by (simp add: bit_or_iff bit_exp_iff)
  moreover have "gic_enabled k D w' j = (j = ?n \<or> gic_enabled k D w j)"
    unfolding gic_enabled_def R(1) [OF disjI1, OF cj(1)] bank_offset_eq(1) [of j ?n, symmetric]
    using lim by (auto simp: bit_or_iff bit_one_at simp del: push_bit_of_1)
  moreover have "gic_group k D w' j = (j \<noteq> ?n \<and> gic_group k D w j)"
    unfolding gic_group_def R(1) [OF disjI1, OF cj(2)] bank_offset_eq(1) [of j ?n, symmetric]
    using lim by (auto simp: bit_and_iff bit_not_iff bit_one_at simp del: push_bit_of_1)
  moreover have "gic_target k D w' j = (if j = ?n \<and> 32 \<le> j then take_bit 8 target else gic_target k D w j)"
  proof (cases "32 \<le> ?n")
    case True
    then have "32 \<le> j" if "j div 4 = ?n div 4"
      using div_le_mono [OF True, of 4] that by simp
    then show ?thesis
      unfolding gic_target_def R(1) [OF disjI1, OF cj(3)] bank_offset_eq(2) [of j ?n, symmetric]
      using True lim byte_replace [OF m(4) m(3), of "gic_reg k D (0x800 + j div 4 * 4) w" target] by (auto simp del: mult_cancel2)
  next
    case False
    then show ?thesis unfolding gic_target_def R(1) [OF disjI1, OF cj(3)] using lim by auto
  qed
  moreover have "gic_pending k D w' j =
      (gic_pending k D w j \<and> (j \<noteq> ?n \<or> bit (held (0x200 + j div 32 * 4) w) (j mod 32)))"
    unfolding gic_pending_def R(1) [OF disjI2, OF cj(4)] bank_offset_eq(1) [of j ?n, symmetric]
    using lim by (auto simp: bit_and_iff bit_or_iff bit_not_iff bit_one_at simp del: push_bit_of_1)
  ultimately show ?thesis by blast
qed


text \<open>A distributor as a map from addresses to words, for the instance below; it holds the pending
  bits of the software-generated lines only.\<close>

definition gic_demo :: "(u32 \<Rightarrow> u32) irq_world" where
  "gic_demo = \<lparr>w_rd = \<lambda>a w. (w a, w),
     w_wr = \<lambda>a x w. let off = unat (a - 0xf9000000) in
       if 0x100 \<le> off \<and> off < 0x180 then w(a := w a OR x)
       else if 0x280 \<le> off \<and> off < 0x300 then w(a - 0x80 := w (a - 0x80) AND (NOT x OR (if off = 0x280 then 0xffff else 0)))
       else if 0x800 \<le> off \<and> off < 0x820 then w else w(a := x),
     w_cpu_data = \<lambda>off w. 0, w_cpsr = \<lambda>w. 0, w_rtclock_intr = \<lambda>s w. (s, w),
     w_client = \<lambda>h rc i s w. (s, w), w_install = \<lambda>t h w. w\<rparr>"

definition gic_demo_held :: "nat \<Rightarrow> (u32 \<Rightarrow> u32) \<Rightarrow> u32" where
  "gic_demo_held off w = (if off = 0x200 then 0xffff else 0)"

lemma gic_demo_laws: "gicd_laws gic_demo 0xf9000000 0xf9002000 gic_demo_held"
proof -
  let ?R = "gic_reg gic_demo 0xf9000000" and ?W = "\<lambda>o1. w_wr gic_demo (0xf9000000 + word_of_nat o1)"
  have off: "unat (0xf9000000 + word_of_nat off - 0xf9000000 :: u32) = off" if "off < 0x1000" for off
    unfolding add_diff_cancel_left' using that by (intro unat_of_nat_u32) simp
  have inj: "(word_of_nat a :: u32) = word_of_nat b \<longleftrightarrow> a = b" if "a < 0x1000" "b < 0x1000" for a b
  proof
    assume e: "(word_of_nat a :: u32) = word_of_nat b"
    have "a = unat (word_of_nat a :: u32)" "b = unat (word_of_nat b :: u32)"
      by (rule unat_of_nat_u32 [symmetric]; use that in simp)+
    then show "a = b" using e by (simp only:)
  qed simp
  have lim: "o1 < 0xc00" if "gic_cfg_reg o1 \<or> gic_pend_reg o1" for o1
    using that by (auto simp: gic_cfg_reg_def gic_pend_reg_def)
  have other: "?R o2 (?W o1 x w) = ?R o2 w"
    if "gic_cfg_reg o1" "gic_cfg_reg o2 \<or> gic_pend_reg o2" "o2 \<noteq> o1" for o1 o2 x w
  proof -
    have "o1 < 0x1000" "o2 < 0x1000" "\<not> (0x280 \<le> o1 \<and> o1 < 0x300)"
      using that lim [of o1] lim [of o2] by (auto simp: gic_cfg_reg_def)
    then show ?thesis using that(3) inj [of o2 o1] off [of o1] by (auto simp: gic_reg_def gic_demo_def Let_def)
  qed
  have clear: "?R o2 (?W (o1 + 0x80) x w) = (if o2 = o1 then ?R o1 w AND (NOT x OR gic_demo_held o1 w) else ?R o2 w)"
    if "gic_pend_reg o1" "gic_cfg_reg o2 \<or> gic_pend_reg o2" for o1 o2 x w
  proof -
    have l: "o1 + 0x80 < 0x1000" "o2 < 0x1000" "0x200 \<le> o1" "o1 < 0x280"
      using that lim [of o1] lim [of o2] by (auto simp: gic_pend_reg_def)
    have "0xf9000000 + word_of_nat (o1 + 0x80) - 0x80 = (0xf9000000 + word_of_nat o1 :: u32)" by simp
    then show ?thesis using l off [OF l(1)] inj [of o2 o1]
      by (simp add: gic_reg_def gic_demo_def gic_demo_held_def Let_def)
  qed
  have self: "?R off (?W off x w) = (if 0x100 \<le> off \<and> off < 0x180 then ?R off w OR x
      else if 0x800 \<le> off \<and> off < 0x820 then ?R off w else x)" if "gic_cfg_reg off" for off x w
    using that off [of off] by (auto simp: gic_reg_def gic_demo_def Let_def gic_cfg_reg_def)
  show ?thesis unfolding gicd_laws_def using other clear self by (auto simp: gic_demo_def)
qed

theorem irq_enable_line_isolated_witness:
  "let (r, s', w) = entry_irq_enable_line gic_demo 40 1 irq_boot (\<lambda>_. 0x01010101) in
     r = 1 \<and> gic_enabled gic_demo 0xf9000000 w 40 \<and> \<not> gic_group gic_demo 0xf9000000 w 40
   \<and> gic_target gic_demo 0xf9000000 w 40 = 1 \<and> \<not> gic_pending gic_demo 0xf9000000 w 40"
proof -
  obtain r s' w where run: "entry_irq_enable_line gic_demo 40 1 irq_boot (\<lambda>_. 0x01010101) = (r, s', w)"
    by (metis prod_cases3)
  have base: "0xf9000000 = STAGE90_GIC_DIST_BASE + irq_gic_dist_va irq_boot"
    "0xf9002000 = STAGE90_GIC_CPU_BASE + irq_gic_cpu_va irq_boot"
    by (simp_all add: STAGE90_GIC_DIST_BASE_def STAGE90_GIC_CPU_BASE_def irq_boot_def)
  note irq_enable_line_isolated [OF gic_demo_laws base _ _ run, of 40]
  then show ?thesis using run by (simp add: take_bit_eq_mod gic_demo_held_def)
qed

end
