(* ===== verification/Irq_Props.thy ===== *)
theory Irq_Props
  imports Irq_Interleaving Irq_Line
begin

text \<open>
  The properties of the interrupt path: the registry as a map, the dispatcher's record of device
  accesses, registrations under interrupts, one line's distributor state, and the arming gates.
\<close>

unbundle bit_operations_syntax

subsection \<open>The registry\<close>

text \<open>One call: a line with the handler and \<open>refCon\<close> to register, or with \<open>None\<close> to withdraw it.\<close>

fun irq_exec :: "(u32 \<times> (u32 \<times> u32) option) list \<Rightarrow> irq_state \<Rightarrow> ((u32 \<times> (u32 \<times> u32) option) \<times> bool) list \<times> irq_state" where
  "irq_exec [] s = ([], s)"
| "irq_exec ((k, v) # cs) s =
    (let (r, s') = (case v of Some (h, rc) \<Rightarrow> entry_irq_register_client k h rc s | None \<Rightarrow> entry_irq_unregister_client k s);
         (log, s'') = irq_exec cs s'
     in (((k, v), r \<noteq> 0) # log, s''))"

fun irq_replay :: "((u32 \<times> (u32 \<times> u32) option) \<times> bool) list \<Rightarrow> (u32 \<Rightarrow> (u32 \<times> u32) option) \<Rightarrow> u32 \<Rightarrow> (u32 \<times> u32) option" where
  "irq_replay [] m = m"
| "irq_replay (((k, v), r) # log) m = irq_replay log (if r then m(k := v) else m)"

lemma irq_reg_eq: "irq_reg k v s = (let (r, s') = entry_irq_register_client k (fst v) (snd v) s in (r \<noteq> 0, s'))"
  and irq_unreg_eq: "irq_unreg k s = (let (r, s') = entry_irq_unregister_client k s in (r \<noteq> 0, s'))"
  by (simp_all add: irq_reg_def irq_unreg_def map_prod_def Let_def split: prod.splits)

lemma irq_exec_Cons:
  "irq_exec (c # cs) s = (let (r, s') = irq_table.call c s; (log, s'') = irq_exec cs s' in ((c, r) # log, s''))"
proof (cases c)
  case (Pair k v)
  show ?thesis
  proof (cases v)
    case None
    then show ?thesis unfolding Pair None irq_exec.simps irq_table.call.simps irq_unreg_eq
      by (simp add: Let_def split: prod.splits)
  next
    case (Some a)
    then show ?thesis unfolding Pair Some irq_exec.simps irq_table.call.simps irq_reg_eq
      by (cases a) (simp add: Let_def split: prod.splits)
  qed
qed

lemma irq_exec_history: "irq_exec cs s = irq_table.history cs s"
  by (induction cs arbitrary: s) (simp_all only: irq_exec.simps(1) irq_exec_Cons irq_table.history.simps)

lemma irq_replay_replay: "irq_replay log m = irq_table.replay log m"
  by (induction log m rule: irq_replay.induct) simp_all

lemma irq_answer_bit: "fst (entry_irq_register_client k h rc s) \<in> {0, 1}"
  by (auto simp: entry_irq_register_client_def Let_def split: option.splits)

text \<open>C28. After any sequence of registrations and withdrawals from boot the four arrays are the map
  that replaying the accepted calls gives: at most four lines, never the timer's or the spurious
  one, and the next registration is accepted exactly when it names a handler, an allowed line
  without a client, and a slot is left.\<close>

theorem irq_registry_history:
  "let (log, s) = irq_exec cs irq_boot in
     irq_clients s = irq_replay log Map.empty \<and> card (dom (irq_clients s)) \<le> 4
   \<and> irq_clients s STAGE90_GIC_TIMER_INTID = None \<and> irq_clients s STAGE90_GICC_SPURIOUS_ID = None
   \<and> fst (entry_irq_register_client k h rc s) =
       (if h \<noteq> 0 \<and> k \<noteq> STAGE90_GIC_TIMER_INTID \<and> k \<noteq> STAGE90_GICC_SPURIOUS_ID
           \<and> irq_clients s k = None \<and> card (dom (irq_clients s)) < 4 then 1 else 0)"
proof -
  obtain log s where run: "irq_exec cs irq_boot = (log, s)" by fastforce
  have H: "irq_wf s" "irq_clients s = irq_replay log Map.empty"
    using irq_table.history_replay [OF irq_wf_boot, of cs log s] run
    by (simp_all add: irq_exec_history irq_replay_replay irq_clients_boot)
  obtain r s' where reg: "entry_irq_register_client k h rc s = (r, s')" by fastforce
  have "r \<in> {0, 1}" using irq_answer_bit [of k h rc s] reg by simp
  moreover note register_law [OF H(1) reg]
  ultimately have "r = (if irq_admits k (h, rc) \<and> irq_clients s k = None \<and> card (dom (irq_clients s)) < 4 then 1 else 0)"
    by auto
  then show ?thesis
    using run reg H irq_table.bounded [OF H(1)] irq_clients_reserved [OF H(1)] by (auto simp: irq_admits_def)
qed

subsection \<open>The dispatcher\<close>

text \<open>C30. On every delivery the dispatcher reads the acknowledge register once and, unless the read is
  spurious, writes it back exactly once and before any service: the timer's line runs the clock
  between two reads of the pending word, a line with a client calls that client with its own
  \<open>refCon\<close> (or stops the run past the call cap), any other line stops the run.  The table is left
  as it was.\<close>

theorem irq_dispatch_acknowledges_once:
  assumes "irq_wf s" and "entry_irq_handler (irq_traced rdv cpu) t r n src s [] = (x, s', tr)"
  shows "irq_dispatch_spec s (rdv [] (irq_iar s)) (x, tr) \<and> irq_wf s' \<and> irq_clients s' = irq_clients s"
  using irq_dispatch_traced [OF assms] by blast

text \<open>Line 40 delivered to a client at \<open>0x1000\<close> with \<open>refCon\<close> 7.\<close>

definition irq_demo :: irq_state where
  "irq_demo = snd (entry_irq_register_client 40 0x1000 7 irq_boot)"

lemma rep4: "replicate 4 x = [x, x, x, x]"
  by (simp add: eval_nat_numeral)

lemma irq_demo_fields:
  "irq_cli_handler irq_demo = [0x1000, 0, 0, 0]" "irq_cli_intid irq_demo = [40, 0, 0, 0]"
  "irq_cli_refcon irq_demo = [7, 0, 0, 0]" "irq_cli_calls irq_demo = [0, 0, 0, 0]"
  "irq_gic_cpu_va irq_demo = 0" "irq_gic_dist_va irq_demo = 0" "irq_seq irq_demo = 0"
  unfolding irq_demo_def entry_irq_register_client_def upt_clients irq_boot_def
  by (simp_all add: STAGE90_GIC_TIMER_INTID_def
      STAGE90_GICC_SPURIOUS_ID_def STAGE90_IRQ_CLIENTS_def Let_def rep4)

lemma irq_demo_wf: "irq_wf irq_demo"
  unfolding irq_demo_def using register_law [OF irq_wf_boot, of 40 "0x1000" 7] by (metis prod.collapse)

theorem irq_dispatch_acknowledges_once_witness:
  "irq_wf irq_demo \<and> (\<exists>s'. entry_irq_handler (irq_traced (\<lambda>_ _. 40) (\<lambda>_ _. 0)) 0 0 0 0 irq_demo [] =
     (Irq_Return, s', [Ev_Read 0xf900200c, Ev_Write 0xf9002010 40, Ev_Client 0x1000 7 40])
   \<and> irq_clients s' = irq_clients irq_demo)"
proof -
  have "\<exists>s'. entry_irq_handler (irq_traced (\<lambda>_ _. 40) (\<lambda>_ _. 0)) 0 0 0 0 irq_demo [] =
     (Irq_Return, s', [Ev_Read 0xf900200c, Ev_Write 0xf9002010 40, Ev_Client 0x1000 7 40])"
    unfolding irq_handler_enter irq_io_defs
    by (simp add: Let_def upt_clients irq_demo_fields irq_client_line_def irq_io_defs STAGE90_GICC_IAR_INTID_MASK_def
        STAGE90_GIC_TIMER_INTID_def STAGE90_GIC_CPU_BASE_def STAGE90_GICC_IAR_def STAGE90_GICC_EOIR_def STAGE90_IRQ_CLIENT_CAP_def)
  then show ?thesis using irq_dispatch_acknowledges_once [OF irq_demo_wf] irq_demo_wf by blast
qed

subsection \<open>Registrations under interrupts\<close>

text \<open>C3. Whatever the interleaving, no client is ever called through a half-written or half-cleared
  slot: a delivery that calls \<open>h\<close> with \<open>rc\<close> for line \<open>k\<close> calls the client the table holds at that
  moment, and that triple was handed to one registration earlier in the run.\<close>

theorem irq_no_torn_call:
  assumes "irq_run ls pc s" and "irq_step pc s (L_Irq tr) pc' s'" and "Ev_Client h rc k \<in> set tr"
  shows "irq_clients s k = Some (h, rc) \<and> L_Reg k h rc \<in> set ls"
proof -
  have inv: "irq_wf s" "\<forall>k h rc. irq_clients s k = Some (h, rc) \<longrightarrow> L_Reg k h rc \<in> set ls"
    using irq_run_inv [OF assms(1)] by (simp_all add: irq_inv_def)
  from assms(2) obtain rdv cpu t r n src x where
    d: "entry_irq_handler (irq_traced rdv cpu) t r n src s [] = (x, s', tr)" by (rule irq_step_irqE)
  have "irq_clients s k = Some (h, rc)"
    using irq_dispatch_traced(1) [OF inv(1) d] assms(3)
    by (auto simp: irq_dispatch_spec_def Let_def split: if_splits option.splits)
  then show ?thesis using inv(2) by blast
qed

theorem irq_no_torn_call_witness:
  "\<exists>ls s s'. irq_run ls (Unreg_Scan 40 0) s
     \<and> irq_step (Unreg_Scan 40 0) s (L_Irq [Ev_Read 0xf900200c, Ev_Write 0xf9002010 40, Ev_Client 0x1000 7 40]) (Unreg_Scan 40 0) s'
     \<and> irq_clients s 40 = Some (0x1000, 7) \<and> L_Reg 40 0x1000 7 \<in> set ls"
proof -
  have "irq_micros 10 (reg_begin 40 0x1000 7) irq_boot = (Pc_Ret (fst (entry_irq_register_client 40 0x1000 7 irq_boot)), irq_demo)"
    by (simp add: irq_micros_register irq_demo_def split: prod.splits)
  then have "irq_run ([L_Reg 40 0x1000 7] @ replicate 10 L_Tau) (Pc_Ret (fst (entry_irq_register_client 40 0x1000 7 irq_boot))) irq_demo"
    using irq_run.step [OF irq_run.boot irq_step.begin_reg] by (intro irq_run_micros) simp
  then obtain ls where run: "irq_run ls (Unreg_Scan 40 0) irq_demo"
    using irq_run.step irq_step.begin_unreg by blast
  obtain s' where "entry_irq_handler (irq_traced (\<lambda>_ _. 40) (\<lambda>_ _. 0)) 0 0 0 0 irq_demo [] =
     (Irq_Return, s', [Ev_Read 0xf900200c, Ev_Write 0xf9002010 40, Ev_Client 0x1000 7 40])"
    unfolding irq_handler_enter irq_io_defs
    by (simp add: Let_def upt_clients irq_demo_fields irq_client_line_def irq_io_defs STAGE90_GICC_IAR_INTID_MASK_def
        STAGE90_GIC_TIMER_INTID_def STAGE90_GIC_CPU_BASE_def STAGE90_GICC_IAR_def STAGE90_GICC_EOIR_def STAGE90_IRQ_CLIENT_CAP_def)
  then have "irq_step (Unreg_Scan 40 0) irq_demo (L_Irq [Ev_Read 0xf900200c, Ev_Write 0xf9002010 40, Ev_Client 0x1000 7 40])
    (Unreg_Scan 40 0) s'" by (rule irq_step.deliver)
  moreover from irq_no_torn_call [OF run this, of "0x1000" 7 40]
  have "irq_clients irq_demo 40 = Some (0x1000, 7) \<and> L_Reg 40 0x1000 7 \<in> set ls" by simp
  ultimately show ?thesis using run by blast
qed

text \<open>The one-store-at-a-time forms are the functions: run without interruption from their first
  step, they end in the answer and the statics \<open>entry_irq_register_client\<close> and
  \<open>entry_irq_unregister_client\<close> compute.\<close>

theorem irq_micros_equiv:
  "irq_micros 10 (reg_begin k h rc) s = (let (r, s') = entry_irq_register_client k h rc s in (Pc_Ret r, s'))
   \<and> irq_micros 10 (Unreg_Scan k 0) s = (let (r, s') = entry_irq_unregister_client k s in (Pc_Ret r, s'))"
proof
  show "irq_micros 10 (reg_begin k h rc) s = (let (r, s') = entry_irq_register_client k h rc s in (Pc_Ret r, s'))"
    by (rule irq_micros_register)
  show "irq_micros 10 (Unreg_Scan k 0) s = (let (r, s') = entry_irq_unregister_client k s in (Pc_Ret r, s'))"
    unfolding entry_irq_unregister_client_def upt_clients
    by (cases s) (simp add: eval_nat_numeral STAGE90_IRQ_CLIENTS_def Let_def)
qed

subsection \<open>The call cap\<close>

definition irq_deliver :: "u32 \<Rightarrow> irq_state \<Rightarrow> irq_exit \<times> irq_state" where
  "irq_deliver k s = (let (x, s', tr) = entry_irq_handler (irq_traced (\<lambda>_ _. k) (\<lambda>_ _. 0)) 0 0 0 0 s [] in (x, s'))"

lemma irq_deliver_slot0:
  assumes "irq_cli_handler s = [h, 0, 0, 0]" and "irq_cli_intid s = [k, 0, 0, 0]" and "irq_cli_refcon s = [rc, 0, 0, 0]"
    and "irq_cli_calls s = [c, 0, 0, 0]" and "h \<noteq> 0" and "k AND 0x3ff = k" and "k \<noteq> 20"
  shows "fst (irq_deliver k s) = (if c + 1 > 64 then Irq_Stop ''exception: irq client storm'' else Irq_Return)"
    and "irq_cli_handler (snd (irq_deliver k s)) = [h, 0, 0, 0]" and "irq_cli_intid (snd (irq_deliver k s)) = [k, 0, 0, 0]"
    and "irq_cli_refcon (snd (irq_deliver k s)) = [rc, 0, 0, 0]" and "irq_cli_calls (snd (irq_deliver k s)) = [c + 1, 0, 0, 0]"
  using assms unfolding irq_deliver_def irq_handler_enter irq_io_defs
  by (simp_all add: Let_def upt_clients irq_client_line_def irq_io_defs STAGE90_GICC_IAR_INTID_MASK_def
        STAGE90_GIC_TIMER_INTID_def STAGE90_IRQ_CLIENT_CAP_def)

lemma irq_deliver_many:
  "irq_cli_handler (((\<lambda>s. snd (irq_deliver 40 s)) ^^ n) irq_demo) = [0x1000, 0, 0, 0]
   \<and> irq_cli_intid (((\<lambda>s. snd (irq_deliver 40 s)) ^^ n) irq_demo) = [40, 0, 0, 0]
   \<and> irq_cli_refcon (((\<lambda>s. snd (irq_deliver 40 s)) ^^ n) irq_demo) = [7, 0, 0, 0]
   \<and> irq_cli_calls (((\<lambda>s. snd (irq_deliver 40 s)) ^^ n) irq_demo) = [word_of_nat n, 0, 0, 0]"
proof (induction n)
  case (Suc n)
  let ?s = "((\<lambda>s. snd (irq_deliver 40 s)) ^^ n) irq_demo"
  have c: "(0x1000 :: u32) \<noteq> 0" "40 AND 0x3ff = (40 :: u32)" "(40 :: u32) \<noteq> 20" by simp_all
  have p: "((\<lambda>s. snd (irq_deliver 40 s)) ^^ Suc n) irq_demo = snd (irq_deliver 40 ?s)" by simp
  have w: "word_of_nat (Suc n) = (word_of_nat n :: u32) + 1" by (simp add: add.commute)
  have f: "irq_cli_handler ?s = [0x1000, 0, 0, 0]" "irq_cli_intid ?s = [40, 0, 0, 0]"
    "irq_cli_refcon ?s = [7, 0, 0, 0]" "irq_cli_calls ?s = [word_of_nat n, 0, 0, 0]"
    using Suc.IH by blast+
  show ?case unfolding p w using irq_deliver_slot0(2-5) [OF f c] by blast
qed (simp add: irq_demo_fields)

text \<open>Finding: the call count is the slot's, not the client's, and nothing resets it.  After 64
  serviced deliveries to one client and its withdrawal, the next driver that registers (another
  line, another handler) is put in the same slot and its very first interrupt stops the run as a
  storm.\<close>

theorem irq_call_cap_inherited:
  "let s64 = ((\<lambda>s. snd (irq_deliver 40 s)) ^^ 64) irq_demo;
       (gone, s1) = entry_irq_unregister_client 40 s64;
       (taken, s2) = entry_irq_register_client 41 0x2000 9 s1
   in map (\<lambda>n. fst (irq_deliver 40 (((\<lambda>s. snd (irq_deliver 40 s)) ^^ n) irq_demo))) [0..<64] = replicate 64 Irq_Return
    \<and> gone = 1 \<and> taken = 1
    \<and> fst (irq_deliver 41 s2) = Irq_Stop ''exception: irq client storm''"
proof -
  define s64 where "s64 = ((\<lambda>s. snd (irq_deliver 40 s)) ^^ 64) irq_demo"
  have f: "irq_cli_handler s64 = [0x1000, 0, 0, 0]" "irq_cli_intid s64 = [40, 0, 0, 0]"
    "irq_cli_refcon s64 = [7, 0, 0, 0]" "irq_cli_calls s64 = [64, 0, 0, 0]"
    using irq_deliver_many [of 64] by (simp_all add: s64_def)
  have ret: "fst (irq_deliver 40 (((\<lambda>s. snd (irq_deliver 40 s)) ^^ n) irq_demo)) = Irq_Return" if "n < 64" for n
  proof -
    let ?s = "((\<lambda>s. snd (irq_deliver 40 s)) ^^ n) irq_demo"
    have c: "(0x1000 :: u32) \<noteq> 0" "40 AND 0x3ff = (40 :: u32)" "(40 :: u32) \<noteq> 20" by simp_all
    have f: "irq_cli_handler ?s = [0x1000, 0, 0, 0]" "irq_cli_intid ?s = [40, 0, 0, 0]"
      "irq_cli_refcon ?s = [7, 0, 0, 0]" "irq_cli_calls ?s = [word_of_nat n, 0, 0, 0]"
      using irq_deliver_many [of n] by blast+
    have "unat (word_of_nat n :: u32) = n" using that by (intro unat_of_nat_u32) simp
    then have "unat (word_of_nat n + 1 :: u32) = n + 1" using that by (subst unat_plus_u32_small) simp_all
    then have "\<not> word_of_nat n + 1 > (64 :: u32)" using that by (simp add: word_less_nat_alt)
    then show ?thesis unfolding irq_deliver_slot0(1) [OF f c] by (rule if_not_P)
  qed
  have all: "map (\<lambda>n. fst (irq_deliver 40 (((\<lambda>s. snd (irq_deliver 40 s)) ^^ n) irq_demo))) [0..<64] = replicate 64 Irq_Return"
    by (rule nth_equalityI) (simp_all add: ret nth_replicate del: upt_rec_numeral)
  define s1 where "s1 = snd (entry_irq_unregister_client 40 s64)"
  have u: "entry_irq_unregister_client 40 s64 = (1, s1)" and f1: "irq_cli_handler s1 = [0, 0, 0, 0]"
    "irq_cli_intid s1 = [0, 0, 0, 0]" "irq_cli_refcon s1 = [0, 0, 0, 0]" "irq_cli_calls s1 = [64, 0, 0, 0]"
    unfolding s1_def entry_irq_unregister_client_def upt_clients by (simp_all add: f)
  define s2 where "s2 = snd (entry_irq_register_client 41 0x2000 9 s1)"
  have r: "entry_irq_register_client 41 0x2000 9 s1 = (1, s2)" and f2: "irq_cli_handler s2 = [0x2000, 0, 0, 0]"
    "irq_cli_intid s2 = [41, 0, 0, 0]" "irq_cli_refcon s2 = [9, 0, 0, 0]" "irq_cli_calls s2 = [64, 0, 0, 0]"
    unfolding s2_def entry_irq_register_client_def upt_clients
    by (simp_all add: f1 Let_def STAGE90_GIC_TIMER_INTID_def STAGE90_GICC_SPURIOUS_ID_def STAGE90_IRQ_CLIENTS_def)
  have "fst (irq_deliver 41 s2) = Irq_Stop ''exception: irq client storm''"
    using irq_deliver_slot0(1) [OF f2] by simp
  then show ?thesis using all u r unfolding s64_def [symmetric] by simp
qed

subsection \<open>Arming\<close>

text \<open>The writes among the device accesses.\<close>

definition irq_writes :: "irq_event list \<Rightarrow> (u32 \<times> u32) list" where
  "irq_writes tr = concat (map (\<lambda>e. case e of Ev_Write a v \<Rightarrow> [(a, v)] | _ \<Rightarrow> []) tr)"

text \<open>Nothing is written to the distributor until the handler is in place: on a second call, with no
  interrupt stack, or when the words read back after \<open>ml_install_interrupt_handler\<close> are not this
  handler and this target, no device is accessed at all and the answer is the enable state already
  recorded, or 0.  Otherwise the handler is installed first, exactly two registers are written
  (pending cleared, then the line enabled), the answer is 1 or 0, and a later call repeats it
  without touching a device.\<close>

theorem irq_arm_gates:
  "case entry_irq_arm (irq_traced rdv cpu) self tgt s [] of (r, s', tr) \<Rightarrow>
     let D = STAGE90_GIC_DIST_BASE + irq_gic_dist_va s; installed = [Ev_Install tgt self] in
     if irq_armed s \<noteq> 0 then r = irq_enabled_line s \<and> s' = s \<and> tr = []
     else if cpu [] STAGE90_CPU_ISTACKPTR = 0 then r = 0 \<and> irq_armed s' = 0 \<and> tr = []
     else if cpu installed STAGE90_CPU_INTERRUPT_HANDLER = self \<and> cpu installed STAGE90_CPU_INTERRUPT_TARGET = tgt
       then (r = 0 \<or> r = 1) \<and> take 1 tr = installed
         \<and> irq_writes tr = [(D + 0x280, 0x100000), (D + 0x100, 0x100000)]
         \<and> entry_irq_arm (irq_traced rdv2 cpu2) self2 tgt2 s' [] = (r, s', [])
     else r = 0 \<and> irq_enabled_line s' = irq_enabled_line s \<and> tr = installed"
  by (auto simp: entry_irq_arm_def Let_def irq_io_defs irq_writes_def STAGE90_GICD_ICPENDR0_def
      STAGE90_GICD_ISENABLER0_def STAGE90_GIC_TIMER_INTID_def)

end
