(* ===== verification/Timebase.thy ===== *)
theory Timebase
  imports Prelude
begin

text \<open>
  The time base of src/src/timebase.c: tick readings, the two conversions between ticks and
  microseconds, and the busy wait.  The counter is a sequence of readings, one per read; the wait
  takes fuel (turns of its loop), since it ends only when the counter moves.
\<close>

unbundle bit_operations_syntax

record timebase_state =
  tb_cntfrq :: u32
  tb_boot_ticks :: u64

definition timebase_ticks :: "u32 \<Rightarrow> u32 \<Rightarrow> u64" where
  "timebase_ticks hi lo = push_bit 32 (ucast hi) OR ucast lo"

definition timebase_init :: "u32 \<Rightarrow> u64 \<Rightarrow> timebase_state" where
  "timebase_init cntfrq ticks = \<lparr>tb_cntfrq = cntfrq, tb_boot_ticks = ticks\<rparr>"

definition timebase_freq_hz :: "timebase_state \<Rightarrow> u32" where
  "timebase_freq_hz s = tb_cntfrq s"

definition timebase_elapsed_us :: "u64 \<Rightarrow> u64 \<Rightarrow> u32" where
  "timebase_elapsed_us start end' =
    (let delta = ucast (end' - start) :: u32; q = delta div 96; r = delta mod 96
     in q * 5 + (r * 5) div 96)"

definition timebase_usec_to_ticks :: "u32 \<Rightarrow> u32" where
  "timebase_usec_to_ticks usec =
    (let q = usec div 5; r = usec mod 5 in q * 96 + (r * 96) div 5)"

text \<open>\<open>n\<close> is the index of the next reading; the result is the index of the reading the wait ends with.\<close>

fun delay_loop :: "nat \<Rightarrow> (nat \<Rightarrow> u64) \<Rightarrow> u64 \<Rightarrow> u32 \<Rightarrow> nat \<Rightarrow> nat option" where
  "delay_loop 0 clock start target n = None"
| "delay_loop (Suc fuel) clock start target n =
    (if (ucast (clock n - start) :: u32) < target then delay_loop fuel clock start target (Suc n) else Some n)"

definition delay_us :: "nat \<Rightarrow> (nat \<Rightarrow> u64) \<Rightarrow> u32 \<Rightarrow> nat option" where
  "delay_us fuel clock usec =
    (let target = timebase_usec_to_ticks usec; start = clock 0 in delay_loop fuel clock start target 1)"

subsection \<open>The conversions\<close>

lemma split_floor: "x div b * a + x mod b * a div b = x * a div b" if "0 < b" for x a b :: nat
proof -
  have "x * a = x div b * a * b + x mod b * a"
    by (metis add_mult_distrib div_mult_mod_eq mult.assoc mult.commute)
  then show ?thesis using that by (metis div_mult_self3 less_not_refl)
qed

lemma unat_elapsed: "unat (timebase_elapsed_us a b) = (unat (b - a) mod 2 ^ 32) * 5 div 96"
proof -
  define d :: u32 where "d = ucast (b - a)"
  have d: "unat d = unat (b - a) mod 2 ^ 32" by (simp add: d_def unat_ucast_u64_u32)
  have q: "unat (d div 96) = unat d div 96" "unat (d mod 96) = unat d mod 96" by (simp_all add: unat_div unat_mod)
  have r: "unat (d mod 96 * 5) = unat d mod 96 * 5" using q by (subst unat_mult_u32_small) auto
  have p: "unat (d div 96 * 5) = unat d div 96 * 5"
  proof -
    have "unat d div 96 * 96 \<le> unat d" by (rule div_times_less_eq_dividend)
    then have "unat d div 96 * 5 \<le> unat d" by linarith
    then have "unat d div 96 * 5 < 2 ^ 32" using le_less_trans [OF _ unat_lt_u32 [of d]] by simp
    then show ?thesis using q by (subst unat_mult_u32_small) simp_all
  qed
  have s: "unat ((d mod 96 * 5) div 96) = unat d mod 96 * 5 div 96" using r by (simp add: unat_div)
  have "unat d div 96 * 5 + unat d mod 96 * 5 div 96 = unat d * 5 div 96" by (rule split_floor) simp
  moreover have "unat d * 5 div 96 \<le> unat d" by simp
  then have lim: "unat d * 5 div 96 < 2 ^ 32" using le_less_trans [OF _ unat_lt_u32 [of d]] by simp
  ultimately have "unat (d div 96 * 5 + (d mod 96 * 5) div 96) = unat d * 5 div 96"
    using p s lim by (subst unat_plus_u32_small) simp_all
  then show ?thesis by (simp add: timebase_elapsed_us_def Let_def d_def [symmetric] d)
qed

lemma unat_usec_to_ticks: "unat (timebase_usec_to_ticks u) = unat u * 96 div 5 mod 2 ^ 32"
proof -
  have q: "unat (u div 5) = unat u div 5" "unat (u mod 5) = unat u mod 5" by (simp_all add: unat_div unat_mod)
  have r: "unat (u mod 5 * 96) = unat u mod 5 * 96" using q by (subst unat_mult_u32_small) auto
  have s: "unat ((u mod 5 * 96) div 5) = unat u mod 5 * 96 div 5" using r by (simp add: unat_div)
  have "unat u div 5 * 96 + unat u mod 5 * 96 div 5 = unat u * 96 div 5" by (rule split_floor) simp
  then show ?thesis
    by (simp add: timebase_usec_to_ticks_def Let_def unat_plus_u32 unat_mult_u32 q s mod_simps)
qed

lemma there_and_back: "x * 96 div 5 * 5 div 96 \<le> x \<and> x - 1 \<le> x * 96 div 5 * 5 div 96" for x :: nat
proof -
  define y z where "y = x * 96 div 5" and "z = y * 5 div 96"
  have "y * 5 \<le> x * 96" "x * 96 < y * 5 + 5" "z * 96 \<le> y * 5" "y * 5 < z * 96 + 96"
    using div_mult_mod_eq [of "x * 96" 5] mod_less_divisor [of 5 "x * 96"]
      div_mult_mod_eq [of "y * 5" 96] mod_less_divisor [of 96 "y * 5"] unfolding y_def z_def by linarith+
  then show ?thesis unfolding y_def [symmetric] z_def [symmetric] by linarith
qed

text \<open>Both conversions are exact: elapsed microseconds are the floor of 5/96 of the low 32 bits of
  the tick difference over their whole range, ticks are the floor of 96/5 of the microseconds
  modulo 2^32, hence exactly that up to 223,696,213 microseconds, where converting there and back
  loses at most one microsecond.\<close>

theorem timebase_conversions_exact:
  "unat (timebase_elapsed_us a b) = (unat (b - a) mod 2 ^ 32) * 5 div 96
   \<and> unat (timebase_usec_to_ticks u) = unat u * 96 div 5 mod 2 ^ 32
   \<and> (unat u \<le> 223696213) = (unat u * 96 div 5 < 2 ^ 32)
   \<and> (223696213 < unat u \<or> unat u * 96 div 5 * 5 div 96 \<in> {unat u - 1, unat u})"
proof -
  have "(unat u \<le> 223696213) = (unat u * 96 div 5 < 2 ^ 32)"
    unfolding div_less_iff_less_mult [of 5, simplified] by auto
  moreover have "unat u * 96 div 5 * 5 div 96 \<in> {unat u - 1, unat u}"
    using there_and_back [of "unat u"] by (simp only: insert_iff empty_iff) linarith
  ultimately show ?thesis using unat_elapsed [of a b] unat_usec_to_ticks [of u] by (intro conjI) blast+
qed

text \<open>The wait ends and is long enough: if the counter, read often enough (never a step so large
  that the 32-bit difference passes the target and wraps past it), reaches the target within the
  given number of reads, the wait returns at the first reading that is at least 96/5 of the
  microseconds after the start.\<close>

theorem delay_us_first_reading:
  assumes "unat usec \<le> 223696213" and "\<And>i. clock i = clock 0 + word_of_nat (t i)"
    and "t 0 = 0" and "\<And>i. t i \<le> t (Suc i)" and "\<And>i. t (Suc i) < t i + (2 ^ 32 - unat usec * 96 div 5)"
    and "unat usec * 96 div 5 \<le> t fuel" and "0 < fuel"
  shows "\<exists>n. 0 < n \<and> n \<le> fuel \<and> delay_us fuel clock usec = Some n \<and> unat usec * 96 div 5 \<le> t n
    \<and> (\<forall>i. 0 < i \<and> i < n \<longrightarrow> t i < unat usec * 96 div 5)"
proof -
  define T where "T = unat usec * 96 div 5"
  have T: "T < 2 ^ 32" "unat (timebase_usec_to_ticks usec) = T"
    using assms(1) unat_usec_to_ticks [of usec] by (simp_all add: T_def)
  have low: "unat (ucast (clock i - clock 0) :: u32) = t i mod 2 ^ 32" for i
  proof -
    have "clock i - clock 0 = word_of_nat (t i)" using assms(2) [of i] by simp
    then have "unat (clock i - clock 0) = t i mod 2 ^ 64" by (simp add: unat_of_nat take_bit_eq_mod)
    then show ?thesis by (simp add: unat_ucast_u64_u32 mod_mod_cancel)
  qed
  have loop: "\<exists>n \<ge> m. n < m + f \<and> delay_loop f clock (clock 0) (timebase_usec_to_ticks usec) m = Some n \<and> T \<le> t n
      \<and> (\<forall>i. m \<le> i \<and> i < n \<longrightarrow> t i < T)"
    if "0 < m" "\<forall>i. 0 < i \<and> i < m \<longrightarrow> t i < T" "T \<le> t (m + f - 1)" "0 < f" for f m
    using that
  proof (induction f arbitrary: m)
    case (Suc f)
    have prev: "t (m - 1) < T \<or> T = 0 \<or> m = 1 \<and> t 0 = 0"
      using Suc.prems(1,2) assms(3) by (cases "m = 1") auto
    have step: "t m < t (m - 1) + (2 ^ 32 - T)" using assms(5) [of "m - 1"] Suc.prems(1) by (simp add: T_def)
    show ?case
    proof (cases "t m < T")
      case True
      then have "t m mod 2 ^ 32 < T" using T(1) by simp
      then have c: "(ucast (clock m - clock 0) :: u32) < timebase_usec_to_ticks usec"
        using low [of m] T(2) by (simp add: word_less_nat_alt)
      have f: "0 < f"
      proof (rule ccontr)
        assume "\<not> 0 < f"
        then show False using Suc.prems(3) True by simp
      qed
      have "\<forall>i. 0 < i \<and> i < Suc m \<longrightarrow> t i < T" using Suc.prems(2) True by (auto simp: less_Suc_eq)
      moreover have "T \<le> t (Suc m + f - 1)" using Suc.prems(3) by simp
      ultimately obtain n where "Suc m \<le> n" "n < Suc m + f" "T \<le> t n" "\<forall>i. Suc m \<le> i \<and> i < n \<longrightarrow> t i < T"
        "delay_loop f clock (clock 0) (timebase_usec_to_ticks usec) (Suc m) = Some n"
        using Suc.IH [of "Suc m"] f by auto
      moreover have "t i < T" if "m \<le> i" "i < n" for i
        using that True \<open>\<forall>i. Suc m \<le> i \<and> i < n \<longrightarrow> t i < T\<close> by (cases "i = m") auto
      ultimately show ?thesis using c by (intro exI [of _ n]) (auto simp: Suc_le_eq dest: le_neq_implies_less)
    next
      case False
      then have "T = 0 \<or> t m < 2 ^ 32" using prev step T(1) assms(3) by auto
      then have "\<not> (ucast (clock m - clock 0) :: u32) < timebase_usec_to_ticks usec"
        using low [of m] T(2) False by (auto simp: word_less_nat_alt)
      then show ?thesis using False by (intro exI [of _ m]) auto
    qed
  qed simp
  show ?thesis
    using loop [of 1 fuel] assms(6,7) unfolding delay_us_def Let_def T_def [symmetric] by auto
qed

theorem delay_us_first_reading_witness:
  "\<exists>n. 0 < n \<and> n \<le> 3 \<and> delay_us 3 (\<lambda>i. word_of_nat (100 * i)) 12 = Some n \<and> unat (12 :: u32) * 96 div 5 \<le> 100 * n
    \<and> (\<forall>i. 0 < i \<and> i < n \<longrightarrow> 100 * i < unat (12 :: u32) * 96 div 5)"
  by (rule delay_us_first_reading [of 12 "\<lambda>i. word_of_nat (100 * i)" "\<lambda>i. 100 * i" 3]) simp_all

end
