(* ===== verification/Macho_Loader.thy ===== *)
theory Macho_Loader
  imports Apple_Dt
begin

text \<open>
  The Mach-O kernel loader of src/src/xnu_macho_loader.c with \<open>memset\<close> and \<open>memcpy\<close> of
  src/src/runtime.c, over the 32-bit byte memory of \<open>Apple_Dt\<close>: the image is read where it is and
  the segments are written to their virtual addresses in the same memory.  Log output is left
  out.  \<open>ttbr0\<close> is the translation table base register and \<open>pmap\<close> the status and candidate table
  of the full-pmap step (\<open>None\<close> for NULL).
\<close>

unbundle bit_operations_syntax

fun memset :: "nat \<Rightarrow> u32 \<Rightarrow> u8 \<Rightarrow> mem32 \<Rightarrow> mem32" where
  "memset 0 p c m = m"
| "memset (Suc n) p c m = memset n (p + 1) c (m(p := c))"

fun memcpy :: "nat \<Rightarrow> u32 \<Rightarrow> u32 \<Rightarrow> mem32 \<Rightarrow> mem32" where
  "memcpy 0 d s m = m"
| "memcpy (Suc n) d s m = memcpy n (d + 1) (s + 1) (m(d := m s))"

definition LC_SEGMENT :: u32 where "LC_SEGMENT = 0x1"
definition LC_UNIXTHREAD :: u32 where "LC_UNIXTHREAD = 0x5"
definition ARM_THREAD_STATE :: u32 where "ARM_THREAD_STATE = 1"
definition STAGE90_STATUS_OK :: u32 where "STAGE90_STATUS_OK = 0x90000001"
definition STAGE90_STATUS_FAIL :: "u32 \<Rightarrow> u32" where
  "STAGE90_STATUS_FAIL msk = 0x90000000 OR 0x40000000 OR (msk AND 0x3fffffff)"
definition STAGE90_XNU_MACHO_LOADER_REQUIRED_MASK :: u32 where "STAGE90_XNU_MACHO_LOADER_REQUIRED_MASK = 0x0000000f"

text \<open>The fields of \<open>struct segment_command\<close> the loader reads.\<close>

record segment_command =
  seg_segname :: bytes
  seg_vmaddr :: u32
  seg_vmsize :: u32
  seg_fileoff :: u32
  seg_filesize :: u32

definition ld_segment :: "mem32 \<Rightarrow> u32 \<Rightarrow> segment_command" where
  "ld_segment m lc = \<lparr>seg_segname = map (\<lambda>i. m (lc + 8 + word_of_nat i)) [0..<16], seg_vmaddr = ld32 m (lc + 24),
     seg_vmsize = ld32 m (lc + 28), seg_fileoff = ld32 m (lc + 32), seg_filesize = ld32 m (lc + 36)\<rparr>"

record macho_result =
  ml_version :: u32
  ml_size :: u32
  ml_status :: u32
  ml_required_mask :: u32
  ml_satisfied_mask :: u32
  ml_failure_mask :: u32
  ml_macho_base :: u32
  ml_macho_size :: u32
  ml_text_segment_va :: u32
  ml_text_segment_size :: u32
  ml_data_segment_va :: u32
  ml_data_segment_size :: u32
  ml_linkedit_segment_va :: u32
  ml_segments_loaded :: u32
  ml_segments_unmapped :: u32
  ml_entry_point_offset :: u32
  ml_xnu_entry_va :: u32
  ml_boot_args_ptr :: u32
  ml_ready_for_handoff :: u32
  ml_checksum :: u32

definition macho_words :: "macho_result \<Rightarrow> u32 list" where
  "macho_words r = [ml_version r, ml_size r, ml_status r, ml_required_mask r, ml_satisfied_mask r, ml_failure_mask r,
     ml_macho_base r, ml_macho_size r, ml_text_segment_va r, ml_text_segment_size r, ml_data_segment_va r,
     ml_data_segment_size r, ml_linkedit_segment_va r, ml_segments_loaded r, ml_segments_unmapped r,
     ml_entry_point_offset r, ml_xnu_entry_va r, ml_boot_args_ptr r, ml_ready_for_handoff r]"

definition stage90_xnu_macho_loader_checksum :: "macho_result \<Rightarrow> u32" where
  "stage90_xnu_macho_loader_checksum r = fold (\<lambda>w chk. chk XOR w) (macho_words r) 0"

text \<open>The comparison of at most 16 characters; a literal carries its NUL.\<close>

fun seg_name_eq :: "bytes \<Rightarrow> bytes \<Rightarrow> bool" where
  "seg_name_eq (s # ss) (t # ts) = (if s \<noteq> t then False else if s = 0 then True else seg_name_eq ss ts)"
| "seg_name_eq [] ts = True"
| "seg_name_eq (s # ss) [] = False"

text \<open>Whether the candidate table is the live one.\<close>

definition l1_live :: "u32 \<Rightarrow> (u32 \<times> u32) option \<Rightarrow> bool" where
  "l1_live ttbr0 pmap = (case pmap of
     None \<Rightarrow> False
   | Some (status, candidate) \<Rightarrow> status = STAGE90_STATUS_OK \<and> candidate \<noteq> 0
       \<and> ttbr0 AND 0xffffc000 = candidate AND 0xffffc000)"

definition load_segment ::
    "u32 \<Rightarrow> (u32 \<times> u32) option \<Rightarrow> segment_command \<Rightarrow> u32 \<Rightarrow> macho_result \<Rightarrow> mem32 \<Rightarrow> int \<times> macho_result \<times> mem32" where
  "load_segment ttbr0 pmap seg macho_base r m =
    (let seg_end = seg_vmaddr seg + seg_vmsize seg in
     if seg_vmsize seg = 0 then (0, r, m)
     else if \<not> l1_live ttbr0 pmap then (0, r\<lparr>ml_segments_unmapped := ml_segments_unmapped r + 1\<rparr>, m)
     else if seg_vmaddr seg < 0x80000000 \<or> seg_vmaddr seg \<ge> 0x80100000 then (0, r, m)
     else if seg_end > 0x80100000 then (0, r, m)
     else
       (let dest = seg_vmaddr seg;
            src = macho_base + seg_fileoff seg;
            copy_size = seg_filesize seg;
            zero_size = seg_vmsize seg - seg_filesize seg;
            m1 = memcpy (unat copy_size) dest src m;
            m2 = memset (unat zero_size) (dest + copy_size) 0 m1
        in (0, r\<lparr>ml_segments_loaded := ml_segments_loaded r + 1\<rparr>, m2)))"

text \<open>What the loop carries: the result, the memory and the two flags.\<close>

record loader_state =
  ls_r :: macho_result
  ls_mem :: mem32
  ls_found_text :: bool
  ls_found_entry :: bool

text \<open>The body of the loop for the command at \<open>lc\<close>; \<open>False\<close> is the jump to \<open>finish\<close>.\<close>

definition load_command_step ::
    "u32 \<Rightarrow> (u32 \<times> u32) option \<Rightarrow> u32 \<Rightarrow> u32 \<Rightarrow> loader_state \<Rightarrow> bool \<times> loader_state" where
  "load_command_step ttbr0 pmap macho_base lc s =
    (if ld32 (ls_mem s) lc = LC_SEGMENT then
       (let seg = ld_segment (ls_mem s) lc;
            (err, r, m) = load_segment ttbr0 pmap seg macho_base (ls_r s) (ls_mem s);
            seg' = ld_segment m lc;
            s1 = s\<lparr>ls_r := r, ls_mem := m\<rparr>
        in if err \<noteq> 0 then (False, s1)
           else if seg_name_eq (seg_segname seg') (str ''__TEXT'' @ [0])
           then (True, s1\<lparr>ls_r := r\<lparr>ml_text_segment_va := seg_vmaddr seg', ml_text_segment_size := seg_vmsize seg'\<rparr>,
                          ls_found_text := True\<rparr>)
           else if seg_name_eq (seg_segname seg') (str ''__DATA'' @ [0])
           then (True, s1\<lparr>ls_r := r\<lparr>ml_data_segment_va := seg_vmaddr seg', ml_data_segment_size := seg_vmsize seg'\<rparr>\<rparr>)
           else if seg_name_eq (seg_segname seg') (str ''__LINKEDIT'' @ [0])
           then (True, s1\<lparr>ls_r := r\<lparr>ml_linkedit_segment_va := seg_vmaddr seg'\<rparr>\<rparr>)
           else (True, s1))
     else if ld32 (ls_mem s) lc = LC_UNIXTHREAD then
       (if ld32 (ls_mem s) (lc + 8) = ARM_THREAD_STATE
        then (True, s\<lparr>ls_r := (ls_r s)\<lparr>ml_entry_point_offset := ld32 (ls_mem s) (lc + 76)\<rparr>, ls_found_entry := True\<rparr>)
        else (True, s))
     else (True, s))"

text \<open>The command count and each command's size are read from the memory as it then is.\<close>

function load_commands ::
    "u32 \<Rightarrow> (u32 \<times> u32) option \<Rightarrow> u32 \<Rightarrow> u32 \<Rightarrow> u32 \<Rightarrow> loader_state \<Rightarrow> bool \<times> loader_state" where
  "load_commands ttbr0 pmap macho_base i lc_offset s =
    (if i < ld32 (ls_mem s) (macho_base + 16)
     then (let (ok, s1) = load_command_step ttbr0 pmap macho_base (macho_base + lc_offset) s
           in if \<not> ok then (False, s1)
              else load_commands ttbr0 pmap macho_base (i + 1)
                     (lc_offset + ld32 (ls_mem s1) (macho_base + lc_offset + 4)) s1)
     else (True, s))"
  by pat_completeness auto
termination
proof (relation "measure (\<lambda>(ttbr0, pmap, macho_base, i, lc_offset, s). unat (0xffffffff - i))")
  fix ttbr0 :: u32 and pmap :: "(u32 \<times> u32) option" and macho_base i lc_offset :: u32 and s s1 x y
  assume *: "i < ld32 (ls_mem s) (macho_base + 16)"
  have "i \<noteq> 0xffffffff"
  proof
    assume "i = 0xffffffff"
    then have "4294967295 < unat (ld32 (ls_mem s) (macho_base + 16))" using * by (simp add: word_less_nat_alt)
    then show False using unat_lt_u32 [of "ld32 (ls_mem s) (macho_base + 16)"] by linarith
  qed
  then show "((ttbr0, pmap, macho_base, i + 1, lc_offset + ld32 (ls_mem s1) (macho_base + lc_offset + 4), s1),
       ttbr0, pmap, macho_base, i, lc_offset, s)
      \<in> measure (\<lambda>(ttbr0, pmap, macho_base, i, lc_offset, s). unat (0xffffffff - i))"
    using unat_diff_next_less [of i "0xffffffff"] by simp
qed simp

declare load_commands.simps [simp del]

text \<open>\<open>base\<close> is the address of the embedded image, \<open>args\<close> that of the boot arguments.\<close>

definition macho_start :: "u32 \<Rightarrow> macho_result" where
  "macho_start base = \<lparr>ml_version = 1, ml_size = 80, ml_status = 0,
     ml_required_mask = STAGE90_XNU_MACHO_LOADER_REQUIRED_MASK, ml_satisfied_mask = 0, ml_failure_mask = 0,
     ml_macho_base = base, ml_macho_size = 4096, ml_text_segment_va = 0, ml_text_segment_size = 0,
     ml_data_segment_va = 0, ml_data_segment_size = 0, ml_linkedit_segment_va = 0, ml_segments_loaded = 0,
     ml_segments_unmapped = 0, ml_entry_point_offset = 0, ml_xnu_entry_va = 0, ml_boot_args_ptr = 0,
     ml_ready_for_handoff = 0, ml_checksum = 0\<rparr>"

definition macho_finish :: "macho_result \<Rightarrow> mem32 \<Rightarrow> int \<times> macho_result \<times> mem32" where
  "macho_finish r m =
    (let r1 = r\<lparr>ml_status := (if ml_satisfied_mask r = ml_required_mask r \<and> ml_failure_mask r = 0
                then STAGE90_STATUS_OK else STAGE90_STATUS_FAIL (ml_failure_mask r))\<rparr>;
         r2 = r1\<lparr>ml_checksum := stage90_xnu_macho_loader_checksum r1\<rparr>
     in (if ml_status r2 = STAGE90_STATUS_OK then 0 else -1, r2, m))"

definition stage90_xnu_macho_loader_run ::
    "u32 \<Rightarrow> (u32 \<times> u32) option \<Rightarrow> u32 \<Rightarrow> u32 \<Rightarrow> mem32 \<Rightarrow> int \<times> macho_result \<times> mem32" where
  "stage90_xnu_macho_loader_run ttbr0 pmap base args m =
    (let r0 = macho_start base in
     if ld32 m base \<noteq> 0xfeedface then macho_finish (r0\<lparr>ml_failure_mask := ml_failure_mask r0 OR 0x1\<rparr>) m
     else
       (let r1 = r0\<lparr>ml_satisfied_mask := ml_satisfied_mask r0 OR 0x1\<rparr>;
            (ok, s) = load_commands ttbr0 pmap base 0 28
              \<lparr>ls_r = r1, ls_mem = m, ls_found_text = False, ls_found_entry = False\<rparr>
        in if \<not> ok then macho_finish (ls_r s) (ls_mem s)
           else if \<not> ls_found_text s
           then macho_finish ((ls_r s)\<lparr>ml_failure_mask := ml_failure_mask (ls_r s) OR 0x4\<rparr>) (ls_mem s)
           else
             (let r2 = (ls_r s)\<lparr>ml_satisfied_mask := ml_satisfied_mask (ls_r s) OR 0x2\<rparr>;
                  r3 = r2\<lparr>ml_xnu_entry_va := (if ls_found_entry s then ml_entry_point_offset r2 else ml_text_segment_va r2)\<rparr>;
                  r4 = r3\<lparr>ml_satisfied_mask := ml_satisfied_mask r3 OR 0x4\<rparr>;
                  r5 = r4\<lparr>ml_boot_args_ptr := args, ml_ready_for_handoff := 1\<rparr>;
                  r6 = r5\<lparr>ml_satisfied_mask := ml_satisfied_mask r5 OR 0x8\<rparr>
              in macho_finish r6 (ls_mem s))))"

end
