(* ===== verification/Macho_Loader_Props.thy ===== *)
theory Macho_Loader_Props
  imports Macho_Loader Apple_Dt_Proofs
begin

text \<open>
  The Mach-O loader's effect on memory: byte loops as pointwise facts, a segment's placement, the
  whole image, and two ways the loader's checks fall short.
\<close>

unbundle bit_operations_syntax

subsection \<open>The byte loops\<close>

lemma diff_Suc_u32: "(x :: u32) \<noteq> d \<Longrightarrow> unat (x - d) = Suc (unat (x - (d + 1)))"
proof -
  assume "x \<noteq> d"
  then have "x - d \<noteq> 0" by simp
  then have "unat (x - d - 1) = unat (x - d) - 1" "0 < unat (x - d)" by (simp_all add: unat_minus_one unat_gt_0)
  then show ?thesis by (simp add: diff_diff_eq)
qed

lemma diff_Suc_same: "unat (d - (d + 1) :: u32) = 4294967295"
proof -
  have "d - (d + 1) = (0xffffffff :: u32)" by simp
  then show ?thesis by (simp only:) simp
qed

lemma memset_at: "n \<le> 2 ^ 32 \<Longrightarrow> memset n p c m x = (if unat (x - p) < n then c else m x)"
proof (induction n arbitrary: p m)
  case (Suc n)
  show ?case
  proof (cases "x = p")
    case True
    then show ?thesis using Suc diff_Suc_same [of p] by simp
  next
    case False
    then show ?thesis using Suc diff_Suc_u32 [OF False] by simp
  qed
qed simp

lemma memcpy_at:
  assumes "n \<le> 2 ^ 32" and "\<And>i j. i < n \<Longrightarrow> j < n \<Longrightarrow> s + ptr i \<noteq> d + ptr j"
  shows "memcpy n d s m x = (if unat (x - d) < n then m (s + (x - d)) else m x)"
  using assms
proof (induction n arbitrary: d s m)
  case (Suc n)
  have dis: "(s + 1) + ptr i \<noteq> (d + 1) + ptr j" if "i < n" "j < n" for i j
    using Suc.prems(2) [of "Suc i" "Suc j"] that by (simp add: add.assoc)
  define m1 where "m1 = m(d := m s)"
  have m1: "m1 d = m s" "\<And>y. y \<noteq> d \<Longrightarrow> m1 y = m y" by (simp_all add: m1_def)
  have IH: "memcpy n (d + 1) (s + 1) m1 x = (if unat (x - (d + 1)) < n then m1 (s + (x - d)) else m1 x)"
    using Suc.IH [of "s + 1" "d + 1" m1] dis Suc.prems(1) by (auto simp: algebra_simps)
  have step: "memcpy (Suc n) d s m x = memcpy n (d + 1) (s + 1) m1 x" by (simp add: m1_def)
  show ?case
  proof (cases "x = d")
    case True
    then show ?thesis unfolding step IH using Suc.prems(1) diff_Suc_same [of d] m1(1) by simp
  next
    case False
    have "s + (x - d) \<noteq> d" if "unat (x - d) < Suc n"
      using Suc.prems(2) [of "unat (x - d)" 0] that by simp
    then show ?thesis unfolding step IH using False diff_Suc_u32 [OF False] m1(2) by simp
  qed
qed simp

lemma unat_sub_wrap: "unat y < unat f \<Longrightarrow> unat (y - f :: u32) = 2 ^ 32 - unat f + unat y"
proof -
  assume "unat y < unat f"
  then have "unat (y - f) = unat y + 4294967296 - unat f" by (simp add: unat_sub_if' word_le_nat_alt)
  then show ?thesis using less_imp_le [OF unat_lt_u32 [of f]] by (simp del: unat_lt_u32)
qed

subsection \<open>One segment\<close>

definition in_window :: "u32 \<Rightarrow> bool" where
  "in_window x \<longleftrightarrow> 0x80000000 \<le> x \<and> x < 0x80100000"

text \<open>A segment the loader's arithmetic holds: the file part fits, the end does not wrap, and the file
  bytes are not in the window they are copied to.\<close>

definition seg_sane :: "u32 \<Rightarrow> segment_command \<Rightarrow> bool" where
  "seg_sane base g \<longleftrightarrow> seg_filesize g \<le> seg_vmsize g \<and> unat (seg_vmaddr g) + unat (seg_vmsize g) < 2 ^ 32
     \<and> list_all (\<lambda>k. \<not> in_window (base + seg_fileoff g + ptr k)) [0..<unat (seg_filesize g)]"

definition seg_placed :: "segment_command \<Rightarrow> bool" where
  "seg_placed g \<longleftrightarrow> seg_vmsize g \<noteq> 0 \<and> in_window (seg_vmaddr g)
     \<and> unat (seg_vmaddr g) + unat (seg_vmsize g) \<le> 0x80100000"

text \<open>The file bytes, then zeros; \<open>img\<close> is the memory the image is read from.\<close>

definition place :: "mem32 \<Rightarrow> u32 \<Rightarrow> segment_command \<Rightarrow> mem32 \<Rightarrow> mem32" where
  "place img base g m x =
    (let k = unat (x - seg_vmaddr g) in
     if seg_placed g \<and> k < unat (seg_filesize g) then img (base + seg_fileoff g + ptr k)
     else if seg_placed g \<and> k < unat (seg_vmsize g) then 0 else m x)"

lemma in_segment:
  assumes "seg_placed g" and "unat (x - seg_vmaddr g) < unat (seg_vmsize g)"
  shows "in_window x"
proof -
  have v: "0x80000000 \<le> unat (seg_vmaddr g)" using assms(1) by (simp add: seg_placed_def in_window_def word_le_nat_alt)
  have lim: "unat (seg_vmaddr g) + unat (seg_vmsize g) \<le> 0x80100000" using assms(1) by (simp add: seg_placed_def)
  have "unat (seg_vmaddr g + (x - seg_vmaddr g)) = unat (seg_vmaddr g) + unat (x - seg_vmaddr g)"
  proof (rule unat_plus_u32_small)
    have "unat (seg_vmaddr g) + unat (x - seg_vmaddr g) < 0x80100000" using assms(2) lim by linarith
    then show "unat (seg_vmaddr g) + unat (x - seg_vmaddr g) < 2 ^ 32" by simp
  qed
  then have "unat x = unat (seg_vmaddr g) + unat (x - seg_vmaddr g)" by simp
  then have "0x80000000 \<le> unat x" "unat x < 0x80100000" using v lim assms(2) by linarith+
  then show ?thesis by (simp add: in_window_def word_le_nat_alt word_less_nat_alt)
qed

lemma place_outside: "\<not> in_window x \<Longrightarrow> seg_filesize g \<le> seg_vmsize g \<Longrightarrow> place img base g m x = m x"
  using in_segment [of g x] by (auto simp: place_def Let_def word_le_nat_alt)

lemma load_segment_exact:
  assumes live: "l1_live ttbr0 pmap" and sane: "seg_sane base g"
    and img: "\<And>x. \<not> in_window x \<Longrightarrow> m x = img x"
  shows "load_segment ttbr0 pmap g base r m =
    (0, if seg_placed g then r\<lparr>ml_segments_loaded := ml_segments_loaded r + 1\<rparr> else r, place img base g m)"
proof -
  have size: "unat (seg_filesize g) \<le> unat (seg_vmsize g)" and end': "unat (seg_vmaddr g) + unat (seg_vmsize g) < 2 ^ 32"
    and src: "\<And>k. k < unat (seg_filesize g) \<Longrightarrow> \<not> in_window (base + seg_fileoff g + ptr k)"
    using sane by (auto simp: seg_sane_def list_all_iff word_le_nat_alt)
  have "unat (seg_vmaddr g + seg_vmsize g) = unat (seg_vmaddr g) + unat (seg_vmsize g)"
    using end' by (rule unat_plus_u32_small)
  then have gate: "(seg_vmsize g = 0 \<or> seg_vmaddr g < 0x80000000 \<or> 0x80100000 \<le> seg_vmaddr g
      \<or> 0x80100000 < seg_vmaddr g + seg_vmsize g) = (\<not> seg_placed g)"
    by (auto simp: seg_placed_def in_window_def word_less_nat_alt word_le_nat_alt)
  show ?thesis
  proof (cases "seg_placed g")
    case False
    then have "place img base g m = m" by (simp add: place_def fun_eq_iff)
    then show ?thesis using False live gate by (auto simp: load_segment_def Let_def)
  next
    case True
    let ?d = "seg_vmaddr g" and ?s = "base + seg_fileoff g"
    let ?f = "unat (seg_filesize g)" and ?v = "unat (seg_vmsize g)"
    have dest: "in_window (?d + ptr j)" if "j < ?f" for j
    proof -
      have "j < 2 ^ 32" using that unat_lt_u32 [of "seg_filesize g"] by (simp del: unat_lt_u32)
      then have "unat (?d + ptr j - ?d) = j" by (simp add: unat_ptr)
      then show ?thesis using in_segment [OF True, of "?d + ptr j"] that size by simp
    qed
    have copied: "memcpy ?f ?d ?s m x = (if unat (x - ?d) < ?f then m (?s + (x - ?d)) else m x)" for x
    proof (rule memcpy_at)
      show "?f \<le> 2 ^ 32" using unat_lt_u32 [of "seg_filesize g"] by (simp del: unat_lt_u32)
      show "?s + ptr i \<noteq> ?d + ptr j" if "i < ?f" "j < ?f" for i j
        using src [OF that(1)] dest [OF that(2)] by metis
    qed
    have zero: "unat (seg_vmsize g - seg_filesize g) = ?v - ?f" using size by (simp add: unat_sub word_le_nat_alt)
    have "memset (unat (seg_vmsize g - seg_filesize g)) (?d + seg_filesize g) 0 (memcpy ?f ?d ?s m) x = place img base g m x" for x
    proof -
      have n: "unat (seg_vmsize g - seg_filesize g) \<le> 2 ^ 32"
        using unat_lt_u32 [of "seg_vmsize g - seg_filesize g"] by (simp del: unat_lt_u32)
      have k: "x - (?d + seg_filesize g) = (x - ?d) - seg_filesize g" by simp
      show ?thesis
      proof (cases "unat (x - ?d) < ?f")
        case inf: True
        have "?v - ?f \<le> unat ((x - ?d) - seg_filesize g)"
        proof -
          have "unat ((x - ?d) - seg_filesize g) = 2 ^ 32 - ?f + unat (x - ?d)"
            using inf by (rule unat_sub_wrap)
          then show ?thesis using end' by linarith
        qed
        then have "\<not> unat (x - (?d + seg_filesize g)) < unat (seg_vmsize g - seg_filesize g)"
          unfolding k zero by simp
        then show ?thesis
          using inf True copied img src [OF inf] by (simp add: memset_at [OF n] place_def Let_def)
      next
        case False
        then have "unat ((x - ?d) - seg_filesize g) = unat (x - ?d) - ?f" by (simp add: unat_sub word_le_nat_alt)
        then have "(unat (x - (?d + seg_filesize g)) < unat (seg_vmsize g - seg_filesize g)) = (unat (x - ?d) < ?v)"
          unfolding k zero using False by auto
        then show ?thesis using False True copied by (simp add: memset_at [OF n] place_def Let_def)
      qed
    qed
    then have "memset (unat (seg_vmsize g - seg_filesize g)) (?d + seg_filesize g) 0 (memcpy ?f ?d ?s m) = place img base g m" ..
    then show ?thesis using True live gate by (auto simp: load_segment_def Let_def)
  qed
qed


subsection \<open>The image\<close>

text \<open>The addresses of the load commands, and the segments among them, as the image states them.\<close>

fun macho_cmds :: "nat \<Rightarrow> u32 \<Rightarrow> mem32 \<Rightarrow> u32 \<Rightarrow> u32 list" where
  "macho_cmds 0 base img off = []"
| "macho_cmds (Suc n) base img off = (base + off) # macho_cmds n base img (off + ld32 img (base + off + 4))"

definition cmds_of :: "mem32 \<Rightarrow> u32 \<Rightarrow> u32 list" where
  "cmds_of img base = macho_cmds (unat (ld32 img (base + 16))) base img 28"

definition segs_of :: "mem32 \<Rightarrow> u32 list \<Rightarrow> segment_command list" where
  "segs_of img lcs = map (ld_segment img) (filter (\<lambda>lc. ld32 img lc = LC_SEGMENT) lcs)"

definition is_text :: "segment_command \<Rightarrow> bool" where
  "is_text g = seg_name_eq (seg_segname g) (str ''__TEXT'' @ [0])"

text \<open>An image that is not overwritten by its own loading: header and commands outside the window,
  every segment one the arithmetic holds.\<close>

definition cmd_sane :: "mem32 \<Rightarrow> u32 \<Rightarrow> u32 \<Rightarrow> bool" where
  "cmd_sane img base lc \<longleftrightarrow> list_all (\<lambda>i. \<not> in_window (lc + ptr i)) [0..<80]
     \<and> (ld32 img lc \<noteq> LC_SEGMENT \<or> seg_sane base (ld_segment img lc))"

definition image_sane :: "mem32 \<Rightarrow> u32 \<Rightarrow> bool" where
  "image_sane img base \<longleftrightarrow> list_all (\<lambda>i. \<not> in_window (base + ptr i)) [0..<28] \<and> list_all (cmd_sane img base) (cmds_of img base)"

definition same_outside :: "mem32 \<Rightarrow> mem32 \<Rightarrow> bool" where
  "same_outside m img \<longleftrightarrow> (\<forall>x. \<not> in_window x \<longrightarrow> m x = img x)"

lemma ld32_same:
  assumes "same_outside m img" and "\<And>i. i < 4 \<Longrightarrow> \<not> in_window (a + ptr i)"
  shows "ld32 m a = ld32 img a"
proof -
  have "m (a + ptr i) = img (a + ptr i)" if "i < 4" for i
    using assms that by (simp add: same_outside_def)
  from this [of 0] this [of 1] this [of 2] this [of 3] show ?thesis by (simp add: ld32_def)
qed

lemma cmd_words:
  assumes "same_outside m img" and "cmd_sane img base lc"
  shows "ld32 m lc = ld32 img lc" and "ld32 m (lc + 4) = ld32 img (lc + 4)" and "ld32 m (lc + 8) = ld32 img (lc + 8)"
    and "ld32 m (lc + 76) = ld32 img (lc + 76)" and "ld_segment m lc = ld_segment img lc"
proof -
  have out: "\<not> in_window (lc + ptr i)" if "i < 80" for i
    using assms(2) that by (simp add: cmd_sane_def list_all_iff)
  have w: "ld32 m (lc + ptr k) = ld32 img (lc + ptr k)" if "k + 4 \<le> 80" for k
  proof (rule ld32_same [OF assms(1)])
    fix i :: nat assume "i < 4"
    then show "\<not> in_window (lc + ptr k + ptr i)" using out [of "k + i"] that by (simp add: add.assoc)
  qed
  show "ld32 m lc = ld32 img lc" "ld32 m (lc + 4) = ld32 img (lc + 4)" "ld32 m (lc + 8) = ld32 img (lc + 8)"
    "ld32 m (lc + 76) = ld32 img (lc + 76)" using w [of 0] w [of 4] w [of 8] w [of 76] by simp_all
  have "m (lc + 8 + ptr i) = img (lc + 8 + ptr i)" if "i < 16" for i
    using out [of "8 + i"] that assms(1) by (simp add: same_outside_def add.assoc)
  then show "ld_segment m lc = ld_segment img lc"
    using w [of 24] w [of 28] w [of 32] w [of 36] by (simp add: ld_segment_def)
qed

lemma place_same: "same_outside m img \<Longrightarrow> seg_sane base g \<Longrightarrow> same_outside (place img base g m) img"
  using place_outside by (simp add: same_outside_def seg_sane_def)

text \<open>One command, and the loop.\<close>

lemma load_command_step_exact:
  assumes live: "l1_live ttbr0 pmap" and same: "same_outside (ls_mem s) img" and sane: "cmd_sane img base lc"
  obtains s' where "load_command_step ttbr0 pmap base lc s = (True, s')"
    and "ls_mem s' = fold (place img base) (segs_of img [lc]) (ls_mem s)" and "same_outside (ls_mem s') img"
    and "ls_found_text s' = (ls_found_text s \<or> list_ex is_text (segs_of img [lc]))"
    and "ml_segments_loaded (ls_r s') = ml_segments_loaded (ls_r s) + ptr (length (filter seg_placed (segs_of img [lc])))"
    and "ml_satisfied_mask (ls_r s') = ml_satisfied_mask (ls_r s)" and "ml_failure_mask (ls_r s') = ml_failure_mask (ls_r s)"
    and "ml_required_mask (ls_r s') = ml_required_mask (ls_r s)"
    and "ml_segments_unmapped (ls_r s') = ml_segments_unmapped (ls_r s)"
proof -
  note W = cmd_words [OF same sane]
  show ?thesis
  proof (cases "ld32 img lc = LC_SEGMENT")
    case True
    define g where "g = ld_segment img lc"
    have g: "seg_sane base g" using True sane by (simp add: cmd_sane_def g_def)
    have L: "load_segment ttbr0 pmap g base (ls_r s) (ls_mem s) =
      (0, if seg_placed g then (ls_r s)\<lparr>ml_segments_loaded := ml_segments_loaded (ls_r s) + 1\<rparr> else ls_r s,
       place img base g (ls_mem s))"
      by (rule load_segment_exact [OF live g]) (use same in \<open>simp add: same_outside_def\<close>)
    have after: "same_outside (place img base g (ls_mem s)) img" by (rule place_same [OF same g])
    have segs: "segs_of img [lc] = [g]" using True by (simp add: segs_of_def g_def)
    have "ld_segment (place img base g (ls_mem s)) lc = g" unfolding g_def
      by (rule cmd_words(5) [OF _ sane]) (use after in \<open>simp add: g_def\<close>)
    then show ?thesis
      by (intro that [of "snd (load_command_step ttbr0 pmap base lc s)"];
          use True W after L in \<open>simp add: load_command_step_def segs is_text_def Let_def flip: g_def\<close>)
  next
    case False
    then have "segs_of img [lc] = []" by (simp add: segs_of_def)
    then show ?thesis
      by (intro that [of "snd (load_command_step ttbr0 pmap base lc s)"];
          use False W same in \<open>simp add: load_command_step_def\<close>)
  qed
qed

lemma segs_of_Cons: "segs_of img (lc # lcs) = segs_of img [lc] @ segs_of img lcs"
  by (simp add: segs_of_def)

lemma load_commands_exact:
  assumes live: "l1_live ttbr0 pmap" and hdr: "\<And>i. i < 28 \<Longrightarrow> \<not> in_window (base + ptr i)"
    and "unat i + n = unat (ld32 img (base + 16))" and "same_outside (ls_mem s) img"
    and "list_all (cmd_sane img base) (macho_cmds n base img off)"
  shows "\<exists>s'. load_commands ttbr0 pmap base i off s = (True, s')
    \<and> ls_mem s' = fold (place img base) (segs_of img (macho_cmds n base img off)) (ls_mem s) \<and> same_outside (ls_mem s') img
    \<and> ls_found_text s' = (ls_found_text s \<or> list_ex is_text (segs_of img (macho_cmds n base img off)))
    \<and> ml_segments_loaded (ls_r s') = ml_segments_loaded (ls_r s)
        + ptr (length (filter seg_placed (segs_of img (macho_cmds n base img off))))
    \<and> ml_satisfied_mask (ls_r s') = ml_satisfied_mask (ls_r s) \<and> ml_failure_mask (ls_r s') = ml_failure_mask (ls_r s)
    \<and> ml_required_mask (ls_r s') = ml_required_mask (ls_r s)
    \<and> ml_segments_unmapped (ls_r s') = ml_segments_unmapped (ls_r s)"
proof -
  have hdr16: "\<not> in_window (base + 16 + ptr i)" if "i < 4" for i
    using hdr [of "16 + i"] that by (simp add: add.assoc)
  show ?thesis using assms(3-5)
proof (induction n arbitrary: i off s)
  case 0
  have "ld32 (ls_mem s) (base + 16) = ld32 img (base + 16)"
    by (rule ld32_same [OF 0(2) hdr16])
  then have "\<not> i < ld32 (ls_mem s) (base + 16)" using 0(1) by (simp add: word_less_nat_alt)
  then show ?case using 0(2) by (subst load_commands.simps) (simp add: segs_of_def)
next
  case (Suc n)
  have nc: "ld32 (ls_mem s) (base + 16) = ld32 img (base + 16)"
    by (rule ld32_same [OF Suc.prems(2) hdr16])
  then have lt: "i < ld32 (ls_mem s) (base + 16)" using Suc.prems(1) by (simp add: word_less_nat_alt)
  have sane: "cmd_sane img base (base + off)"
    and rest: "list_all (cmd_sane img base) (macho_cmds n base img (off + ld32 img (base + off + 4)))"
    using Suc.prems(3) by simp_all
  obtain s1 where step: "load_command_step ttbr0 pmap base (base + off) s = (True, s1)"
    and S: "ls_mem s1 = fold (place img base) (segs_of img [base + off]) (ls_mem s)" "same_outside (ls_mem s1) img"
      "ls_found_text s1 = (ls_found_text s \<or> list_ex is_text (segs_of img [base + off]))"
      "ml_segments_loaded (ls_r s1) = ml_segments_loaded (ls_r s) + ptr (length (filter seg_placed (segs_of img [base + off])))"
      "ml_satisfied_mask (ls_r s1) = ml_satisfied_mask (ls_r s)" "ml_failure_mask (ls_r s1) = ml_failure_mask (ls_r s)"
      "ml_required_mask (ls_r s1) = ml_required_mask (ls_r s)" "ml_segments_unmapped (ls_r s1) = ml_segments_unmapped (ls_r s)"
    by (rule load_command_step_exact [OF live Suc.prems(2) sane])
  have off: "ld32 (ls_mem s1) (base + off + 4) = ld32 img (base + off + 4)" by (rule cmd_words(2) [OF S(2) sane])
  have "unat i + 1 < 2 ^ 32" using Suc.prems(1) unat_lt_u32 [of "ld32 img (base + 16)"] by (simp del: unat_lt_u32)
  then have "unat (i + 1) + n = unat (ld32 img (base + 16))" using Suc.prems(1) by (subst unat_plus_u32_small) simp_all
  from Suc.IH [OF this S(2) rest] obtain s' where
    "load_commands ttbr0 pmap base (i + 1) (off + ld32 img (base + off + 4)) s1 = (True, s')"
    and R: "ls_mem s' = fold (place img base) (segs_of img (macho_cmds n base img (off + ld32 img (base + off + 4)))) (ls_mem s1)"
      "same_outside (ls_mem s') img"
      "ls_found_text s' = (ls_found_text s1 \<or> list_ex is_text (segs_of img (macho_cmds n base img (off + ld32 img (base + off + 4)))))"
      "ml_segments_loaded (ls_r s') = ml_segments_loaded (ls_r s1)
        + ptr (length (filter seg_placed (segs_of img (macho_cmds n base img (off + ld32 img (base + off + 4))))))"
      "ml_satisfied_mask (ls_r s') = ml_satisfied_mask (ls_r s1)" "ml_failure_mask (ls_r s') = ml_failure_mask (ls_r s1)"
      "ml_required_mask (ls_r s') = ml_required_mask (ls_r s1)" "ml_segments_unmapped (ls_r s') = ml_segments_unmapped (ls_r s1)"
    by blast
  then have run: "load_commands ttbr0 pmap base i off s = (True, s')"
    using lt step off by (subst load_commands.simps) simp
  have cmds: "macho_cmds (Suc n) base img off = (base + off) # macho_cmds n base img (off + ld32 img (base + off + 4))" by simp
  show ?case
    unfolding cmds segs_of_Cons [of img "base + off" "macho_cmds n base img (off + ld32 img (base + off + 4))"]
    using run R S by (intro exI [of _ s']) (simp add: ac_simps)
qed
qed


subsection \<open>The run\<close>

text \<open>The loop never sets \<open>ready_for_handoff\<close>.\<close>

lemma load_command_step_ready:
  "load_command_step ttbr0 pmap base lc s = (ok, s') \<Longrightarrow> ml_ready_for_handoff (ls_r s') = ml_ready_for_handoff (ls_r s)"
  by (auto simp: load_command_step_def load_segment_def Let_def split: if_splits)

lemma load_commands_ready:
  "ml_ready_for_handoff (ls_r (snd (load_commands ttbr0 pmap base i off s))) = ml_ready_for_handoff (ls_r s)"
proof (induction ttbr0 pmap base i off s rule: load_commands.induct)
  case (1 ttbr0 pmap base i off s)
  obtain ok s1 where step: "load_command_step ttbr0 pmap base (base + off) s = (ok, s1)" by fastforce
  then show ?case
    using 1 load_command_step_ready [OF step] by (subst load_commands.simps) (auto simp: step)
qed

text \<open>C8. On an image that its own loading does not overwrite and whose segments the loader's arithmetic
  holds, with the candidate table live, the run's memory is exactly the image's segments placed in
  order (file bytes, then zeros, and only those that lie in the window), nothing outside the window
  is written, the counts are right, and it succeeds exactly when there is a \<open>__TEXT\<close> segment.\<close>

theorem macho_load_exact:
  assumes "l1_live ttbr0 pmap" and "ld32 m base = 0xfeedface" and "image_sane m base"
    and "stage90_xnu_macho_loader_run ttbr0 pmap base args m = (rc, r, m')"
  shows "m' = fold (place m base) (segs_of m (cmds_of m base)) m
    \<and> (in_window x \<or> m' x = m x)
    \<and> ml_segments_loaded r = ptr (length (filter seg_placed (segs_of m (cmds_of m base)))) \<and> ml_segments_unmapped r = 0
    \<and> rc = (if list_ex is_text (segs_of m (cmds_of m base)) then 0 else -1)
    \<and> ml_ready_for_handoff r = (if list_ex is_text (segs_of m (cmds_of m base)) then 1 else 0)"
proof -
  let ?segs = "segs_of m (cmds_of m base)"
  define s0 where "s0 = \<lparr>ls_r = (macho_start base)\<lparr>ml_satisfied_mask := 1\<rparr>, ls_mem = m, ls_found_text = False, ls_found_entry = False\<rparr>"
  have hdr: "\<not> in_window (base + ptr i)" if "i < 28" for i
    using assms(3) that by (simp add: image_sane_def list_all_iff)
  have "same_outside (ls_mem s0) m" by (simp add: same_outside_def s0_def)
  moreover have "list_all (cmd_sane m base) (macho_cmds (unat (ld32 m (base + 16))) base m 28)"
    using assms(3) by (simp add: image_sane_def cmds_of_def)
  ultimately obtain s' where run: "load_commands ttbr0 pmap base 0 28 s0 = (True, s')"
    and S: "ls_mem s' = fold (place m base) ?segs m" "same_outside (ls_mem s') m" "ls_found_text s' = list_ex is_text ?segs"
      "ml_segments_loaded (ls_r s') = ptr (length (filter seg_placed ?segs))" "ml_satisfied_mask (ls_r s') = 1"
      "ml_failure_mask (ls_r s') = 0" "ml_required_mask (ls_r s') = 0xf" "ml_segments_unmapped (ls_r s') = 0"
    using load_commands_exact [where i = 0 and off = 28 and s = s0 and img = m and n = "unat (ld32 m (base + 16))", OF assms(1) hdr]
    unfolding cmds_of_def [symmetric]
    by (auto simp: s0_def macho_start_def STAGE90_XNU_MACHO_LOADER_REQUIRED_MASK_def)
  have ready: "ml_ready_for_handoff (ls_r s') = 0 \<or> list_ex is_text ?segs"
    using load_commands_ready [of ttbr0 pmap base 0 28 s0] run by (simp add: s0_def macho_start_def)
  have ok: "STAGE90_STATUS_FAIL k \<noteq> STAGE90_STATUS_OK" for k
  proof -
    have "\<not> bit (STAGE90_STATUS_OK) 30" by (simp add: STAGE90_STATUS_OK_def bit_numeral_rec)
    moreover have "bit (STAGE90_STATUS_FAIL k) 30" by (simp add: STAGE90_STATUS_FAIL_def bit_or_iff bit_numeral_rec)
    ultimately show ?thesis by metis
  qed
  have m0: "(macho_start base)\<lparr>ml_satisfied_mask := ml_satisfied_mask (macho_start base) OR 0x1\<rparr>
      = (macho_start base)\<lparr>ml_satisfied_mask := 1\<rparr>" by (simp add: macho_start_def)
  have R: "(rc, r, m') = (if \<not> ls_found_text s'
       then macho_finish ((ls_r s')\<lparr>ml_failure_mask := ml_failure_mask (ls_r s') OR 0x4\<rparr>) (ls_mem s')
       else
         (let r2 = (ls_r s')\<lparr>ml_satisfied_mask := ml_satisfied_mask (ls_r s') OR 0x2\<rparr>;
              r3 = r2\<lparr>ml_xnu_entry_va := (if ls_found_entry s' then ml_entry_point_offset r2 else ml_text_segment_va r2)\<rparr>;
              r4 = r3\<lparr>ml_satisfied_mask := ml_satisfied_mask r3 OR 0x4\<rparr>;
              r5 = r4\<lparr>ml_boot_args_ptr := args, ml_ready_for_handoff := 1\<rparr>;
              r6 = r5\<lparr>ml_satisfied_mask := ml_satisfied_mask r5 OR 0x8\<rparr>
          in macho_finish r6 (ls_mem s')))"
    using assms(2,4) run unfolding stage90_xnu_macho_loader_run_def Let_def m0 s0_def [symmetric] by simp
  have mem: "m' = ls_mem s'" using R by (auto simp: macho_finish_def Let_def split: if_splits)
  show ?thesis
  proof (cases "list_ex is_text ?segs")
    case True
    then show ?thesis using R S ok mem by (auto simp: macho_finish_def Let_def same_outside_def)
  next
    case False
    then show ?thesis using R S ok mem ready by (auto simp: macho_finish_def Let_def same_outside_def)
  qed
qed

text \<open>An image of one \<open>__TEXT\<close> segment: one file byte, two bytes of memory.\<close>

definition macho_demo_bytes :: bytes where
  "macho_demo_bytes = [0xce, 0xfa, 0xed, 0xfe, 0, 0, 0, 0, 0, 0, 0, 0, 0, 0, 0, 0, 1, 0, 0, 0, 0, 0, 0, 0, 0, 0, 0, 0,
     1, 0, 0, 0, 56, 0, 0, 0, 0x5f, 0x5f, 0x54, 0x45, 0x58, 0x54, 0, 0, 0, 0, 0, 0, 0, 0, 0, 0,
     0, 0, 0, 0x80, 2, 0, 0, 0, 0, 0, 0, 0, 1, 0, 0, 0]"

definition macho_demo :: mem32 where
  "macho_demo x = (if x < 0x1000 then 7 else if x - 0x1000 < 68 then macho_demo_bytes ! unat (x - 0x1000) else 7)"

lemma macho_demo_words:
  "ld32 macho_demo 0x1000 = 0xfeedface" "ld32 macho_demo 0x1010 = 1" "ld32 macho_demo 0x101c = 1" "ld32 macho_demo 0x1020 = 56"
  "ld32 macho_demo 0x1034 = 0x80000000" "ld32 macho_demo 0x1038 = 2" "ld32 macho_demo 0x103c = 0" "ld32 macho_demo 0x1040 = 1"
  by (simp_all add: ld32_def macho_demo_def macho_demo_bytes_def push_bit_eq_mult)

lemma macho_demo_name:
  "map (\<lambda>i. macho_demo (0x1024 + word_of_nat i)) [0..<16] = [0x5f, 0x5f, 0x54, 0x45, 0x58, 0x54, 0, 0, 0, 0, 0, 0, 0, 0, 0, 0]"
proof -
  have "[0..<16] = [0, 1, 2, 3, 4, 5, 6, 7, 8, 9, 10, 11, 12, 13, 14, 15]" by (simp add: upt_rec)
  then show ?thesis by (simp only:) (simp add: macho_demo_def macho_demo_bytes_def)
qed

lemma macho_demo_segment:
  "ld_segment macho_demo 0x101c = \<lparr>seg_segname = [0x5f, 0x5f, 0x54, 0x45, 0x58, 0x54, 0, 0, 0, 0, 0, 0, 0, 0, 0, 0],
     seg_vmaddr = 0x80000000, seg_vmsize = 2, seg_fileoff = 0, seg_filesize = 1\<rparr>"
  using macho_demo_words macho_demo_name by (simp add: ld_segment_def)

lemma macho_demo_cmds: "cmds_of macho_demo 0x1000 = [0x101c]"
  using macho_demo_words by (simp add: cmds_of_def)

lemma macho_demo_segs:
  "segs_of macho_demo [0x101c] = [ld_segment macho_demo 0x101c]"
  using macho_demo_words by (simp add: segs_of_def LC_SEGMENT_def)

lemma macho_demo_text: "is_text (ld_segment macho_demo 0x101c)"
  unfolding macho_demo_segment by (simp add: is_text_def str_def)

lemma macho_demo_sane: "image_sane macho_demo 0x1000"
proof -
  have out: "\<not> in_window (c + ptr i)" if "i < 80" "unat c < 0x2000" for c i
  proof -
    have "unat (ptr i) = i" using that(1) by (intro unat_ptr) simp
    then have "unat (c + ptr i) = unat c + i" using that by (subst unat_plus_u32_small) simp_all
    then show ?thesis using that by (simp add: in_window_def word_le_nat_alt)
  qed
  have "seg_sane 0x1000 (ld_segment macho_demo 0x101c)"
    unfolding macho_demo_segment by (simp add: seg_sane_def in_window_def)
  then show ?thesis unfolding image_sane_def macho_demo_cmds
    using out [of _ "0x1000"] out [of _ "0x101c"] by (simp add: cmd_sane_def list_all_iff)
qed

theorem macho_load_exact_witness:
  "let (rc, r, m') = stage90_xnu_macho_loader_run 0x4000 (Some (STAGE90_STATUS_OK, 0x4000)) 0x1000 0x500 macho_demo in
     rc = 0 \<and> ml_segments_loaded r = 1 \<and> ml_ready_for_handoff r = 1
   \<and> m' 0x80000000 = 0xce \<and> m' 0x80000001 = 0 \<and> m' 0x80000002 = 7"
proof -
  obtain rc r m' where run: "stage90_xnu_macho_loader_run 0x4000 (Some (STAGE90_STATUS_OK, 0x4000)) 0x1000 0x500 macho_demo = (rc, r, m')"
    by (metis prod_cases3)
  have live: "l1_live 0x4000 (Some (STAGE90_STATUS_OK, 0x4000))" by (simp add: l1_live_def)
  note E = macho_load_exact [OF live macho_demo_words(1) macho_demo_sane run, of 0]
  have placed: "seg_placed (ld_segment macho_demo 0x101c)"
    unfolding macho_demo_segment by (simp add: seg_placed_def in_window_def)
  have "m' = place macho_demo 0x1000 (ld_segment macho_demo 0x101c) macho_demo"
    and "rc = 0" "ml_segments_loaded r = 1" "ml_ready_for_handoff r = 1"
    using E placed macho_demo_text by (simp_all add: macho_demo_cmds macho_demo_segs)
  then show ?thesis using run placed
    unfolding macho_demo_segment by (simp add: place_def Let_def macho_demo_def macho_demo_bytes_def)
qed

text \<open>Finding: the loader reports success for an image of which it loaded nothing.  With no live
  table every segment is declined and memory is untouched, yet \<open>SEGMENTS_LOADED\<close> and
  \<open>READY_FOR_HANDOFF\<close> are set, the status is OK and the call returns 0.\<close>

theorem macho_ready_without_loading:
  "let (rc, r, m') = stage90_xnu_macho_loader_run ttbr0 None 0x1000 args macho_demo in
     rc = 0 \<and> ml_status r = STAGE90_STATUS_OK \<and> ml_satisfied_mask r = 0xf \<and> ml_ready_for_handoff r = 1
   \<and> ml_xnu_entry_va r = 0x80000000 \<and> ml_segments_loaded r = 0 \<and> ml_segments_unmapped r = 1 \<and> m' = macho_demo"
proof -
  let ?s = "\<lparr>ls_r = (macho_start 0x1000)\<lparr>ml_satisfied_mask := 1\<rparr>, ls_mem = macho_demo, ls_found_text = False, ls_found_entry = False\<rparr>"
  let ?r = "(macho_start 0x1000)\<lparr>ml_satisfied_mask := 1, ml_segments_unmapped := 1, ml_text_segment_va := 0x80000000, ml_text_segment_size := 2\<rparr>"
  let ?s' = "\<lparr>ls_r = ?r, ls_mem = macho_demo, ls_found_text = True, ls_found_entry = False\<rparr>"
  have dead: "\<not> l1_live ttbr0 None" by (simp add: l1_live_def)
  have size: "seg_vmsize (ld_segment macho_demo 0x101c) = 2" "seg_vmaddr (ld_segment macho_demo 0x101c) = 0x80000000"
    by (simp_all add: macho_demo_segment)
  have step: "load_command_step ttbr0 None 0x1000 0x101c ?s = (True, ?s')"
    using macho_demo_words macho_demo_text size dead
    by (simp add: load_command_step_def load_segment_def LC_SEGMENT_def Let_def macho_start_def is_text_def)
  have one: "load_commands ttbr0 None 0x1000 0 28 ?s = load_commands ttbr0 None 0x1000 1 84 ?s'"
    using macho_demo_words step by (subst load_commands.simps) simp
  have run: "load_commands ttbr0 None 0x1000 0 28 ?s = (True, ?s')"
    unfolding one using macho_demo_words by (subst load_commands.simps) simp
  have m0: "(macho_start 0x1000)\<lparr>ml_satisfied_mask := ml_satisfied_mask (macho_start 0x1000) OR 0x1\<rparr>
      = (macho_start 0x1000)\<lparr>ml_satisfied_mask := 1\<rparr>" by (simp add: macho_start_def)
  show ?thesis
    unfolding stage90_xnu_macho_loader_run_def Let_def m0 run using macho_demo_words(1)
    by (simp add: macho_finish_def Let_def macho_start_def STAGE90_XNU_MACHO_LOADER_REQUIRED_MASK_def)
qed

text \<open>C38. Finding: nothing relates \<open>filesize\<close> to \<open>vmsize\<close>.  A segment that passes every check but has
  one file byte more than memory makes the zero-fill length wrap to 2^32 - 1: every byte of
  memory but the last one copied is cleared, the loader included.\<close>

theorem macho_oversized_file_wipes_memory:
  "let g = \<lparr>seg_segname = name, seg_vmaddr = 0x80000000, seg_vmsize = 0x1000, seg_fileoff = 0, seg_filesize = 0x1001\<rparr>;
       (rc, r', m') = load_segment 0x4000 (Some (STAGE90_STATUS_OK, 0x4000)) g base r m
   in rc = 0 \<and> ml_segments_loaded r' = ml_segments_loaded r + 1 \<and> (x = 0x80001000 \<or> m' x = 0)"
proof -
  have "unat (x - 0x80001001) < 4294967295" if "x \<noteq> (0x80001000 :: u32)"
  proof -
    have "x - 0x80001001 \<noteq> 0xffffffff"
    proof
      assume "x - 0x80001001 = 0xffffffff"
      then have "x = 0xffffffff + 0x80001001" by (metis diff_add_cancel)
      then show False using that by simp
    qed
    then have "unat (x - 0x80001001) \<noteq> 4294967295" by (auto simp: word_unat_eq_iff)
    then show ?thesis using unat_lt_u32 [of "x - 0x80001001"] by (simp del: unat_lt_u32)
  qed
  moreover have "unat (- 1 :: u32) = 4294967295" using diff_Suc_same [of 0] by simp
  ultimately show ?thesis
    by (cases "x = 0x80001000") (simp_all add: load_segment_def l1_live_def Let_def memset_at)
qed

end
