(* ===== verification/Root_Media.thy ===== *)
theory Root_Media
  imports Cow_Disk Apple_Dt
begin

text \<open>
  The root-media block driver of src/src/platform/stage90_root_media.c: its units, the strategy
  routine with the copy-on-write shadow below it, the ioctls and the registrations.  The build
  switches are a record.  The storage ladder's door (\<open>entry_storage_driver_read\<close> and
  \<open>_write\<close>, the selected partition and the card's size) is the record \<open>ladder\<close> over a medium of
  type \<open>'m\<close>; the kernel's \<open>struct buf\<close> accessors are the fields of \<open>dbuf\<close>, the kernel's
  \<open>bdevsw_add\<close> and \<open>makedev\<close> parameters of the registrations.  Live log records are left out.
\<close>

unbundle bit_operations_syntax

record media_cfg =
  cf_emmc :: bool
  cf_card_total :: bool
  cf_full_extent :: bool
  cf_cow :: bool
  cf_hdd_write :: bool
  cf_hfs :: bool

text \<open>The combinations the source's \<open>#error\<close> lines admit.\<close>

definition media_cfg_ok :: "media_cfg \<Rightarrow> bool" where
  "media_cfg_ok cfg \<longleftrightarrow> (cf_hdd_write cfg \<or> cf_card_total cfg \<or> cf_full_extent cfg \<or> cf_cow cfg \<longrightarrow> cf_emmc cfg)
     \<and> \<not> (cf_cow cfg \<and> cf_hdd_write cfg)"

record 'm ladder =
  drv_read :: "'m \<Rightarrow> u32 \<Rightarrow> bytes"
  drv_write :: "u32 \<Rightarrow> bytes \<Rightarrow> 'm \<Rightarrow> 'm"
  selected_lba :: u32
  selected_count :: u32
  card_sectors :: u32

text \<open>The linked images, and the addresses \<open>DKIOCGETMEMDEVINFO\<close> answers with.\<close>

record media_images =
  im_ramdisk :: bytes
  im_root_hfs :: bytes
  im_ramdisk_va :: u32
  im_medium_va :: u32

datatype media_errno = ENXIO | EROFS | EINVAL | EFAULT | ENOSPC | EIO | ENOTTY

definition ST_MEDIA_PAGE_SHIFT :: nat where "ST_MEDIA_PAGE_SHIFT = 12"
definition ST_MEDIA_BLOCKSIZE :: nat where "ST_MEDIA_BLOCKSIZE = 512"
definition ST_MEDIA_DRIVER :: u32 where "ST_MEDIA_DRIVER = 2"
definition ST_MEDIA_CARD_RAW :: u32 where "ST_MEDIA_CARD_RAW = 3"
definition ST_MEDIA_MDINITED :: u32 where "ST_MEDIA_MDINITED = 0x1"
definition ST_MEDIA_MDPHYS :: u32 where "ST_MEDIA_MDPHYS = 0x2"
definition ST_MEDIA_STAGED :: u32 where "ST_MEDIA_STAGED = 0x4"
definition ST_MEDIA_CARD :: u32 where "ST_MEDIA_CARD = 0x8"
definition ST_MEDIA_SECTOR_WORDS :: nat where "ST_MEDIA_SECTOR_WORDS = 128"

definition ST_MEDIA_DISKS :: "media_cfg \<Rightarrow> u32" where
  "ST_MEDIA_DISKS cfg = (if cf_emmc cfg \<and> cf_card_total cfg then 4 else if cf_emmc cfg then 3 else 2)"

definition ST_MEDIA_RAW_UNIT :: "media_cfg \<Rightarrow> u32 \<Rightarrow> bool" where
  "ST_MEDIA_RAW_UNIT cfg u \<longleftrightarrow> cf_emmc cfg \<and> cf_card_total cfg \<and> u = ST_MEDIA_CARD_RAW"

record media_state =
  st_media_major :: "int list"
  st_media_blocksize :: "u32 list"
  st_media_blockcount :: "u32 list"
  st_media_flags :: "u32 list"
  st_medium_virt :: "u32 list"
  st_medium_sector :: u32
  st_medium_pages :: u32
  st_medium_staged :: u32
  st_medium_served :: u32
  st_medium_refused :: u32
  st_medium_write_refused :: u32
  st_medium_write_served :: u32
  st_cow_shadow :: "st_cow option"
  st_cow_bound :: int
  st_cow_write_refused :: u32

text \<open>A request: the data is \<open>None\<close> where \<open>buf_map\<close> fails.\<close>

record dbuf =
  b_unit :: u32
  b_blkno :: u64
  b_count :: u32
  b_is_read :: bool
  b_data :: "bytes option"
  b_error :: "media_errno option"
  b_resid :: u32
  b_done :: bool

subsection \<open>Bases and lengths\<close>

definition st_media_bytes :: "media_images \<Rightarrow> u32" where
  "st_media_bytes img = word_of_nat (length (im_ramdisk img))"

definition st_media_strategy_bytes :: "media_cfg \<Rightarrow> media_images \<Rightarrow> u32" where
  "st_media_strategy_bytes cfg img = (if cf_hfs cfg then word_of_nat (length (im_root_hfs img)) else st_media_bytes img)"

text \<open>The array a unit is served from; \<open>None\<close> for the units of the card.\<close>

definition st_medium_disk_base :: "media_cfg \<Rightarrow> media_images \<Rightarrow> media_state \<Rightarrow> u32 \<Rightarrow> bytes option" where
  "st_medium_disk_base cfg img s unit =
    (if cf_emmc cfg \<and> unit = ST_MEDIA_DRIVER then None
     else if ST_MEDIA_RAW_UNIT cfg unit then None
     else if unit = 1 \<and> st_medium_staged s \<noteq> 0 then Some (concat (map le32 (st_medium_virt s)))
     else Some (if cf_hfs cfg then im_root_hfs img else im_ramdisk img))"

definition st_medium_card_bytes :: "'m ladder \<Rightarrow> u64" where
  "st_medium_card_bytes lad = ucast (card_sectors lad) * 512"

definition st_medium_disk_bytes :: "media_cfg \<Rightarrow> 'm ladder \<Rightarrow> media_images \<Rightarrow> media_state \<Rightarrow> u32 \<Rightarrow> u32" where
  "st_medium_disk_bytes cfg lad img s unit =
    (if unit \<ge> ST_MEDIA_DISKS cfg then 0
     else if cf_emmc cfg \<and> unit = ST_MEDIA_DRIVER then ucast (ucast (selected_count lad) * 512 :: u64)
     else if ST_MEDIA_RAW_UNIT cfg unit then ucast (st_medium_card_bytes lad)
     else if unit = 1 \<and> st_medium_staged s \<noteq> 0 then 512
     else st_media_strategy_bytes cfg img)"

definition st_medium_card_full_bytes :: "'m ladder \<Rightarrow> u64" where
  "st_medium_card_full_bytes lad = ucast (selected_count lad) * 512"

text \<open>The length the strategy uses: in 64 bits where a switch asks for it.\<close>

definition strategy_len :: "media_cfg \<Rightarrow> 'm ladder \<Rightarrow> media_images \<Rightarrow> media_state \<Rightarrow> u32 \<Rightarrow> u64" where
  "strategy_len cfg lad img s unit =
    (if cf_emmc cfg \<and> cf_card_total cfg \<and> ST_MEDIA_RAW_UNIT cfg unit then st_medium_card_bytes lad
     else if cf_emmc cfg \<and> cf_full_extent cfg \<and> unit = ST_MEDIA_DRIVER then st_medium_card_full_bytes lad
     else ucast (st_medium_disk_bytes cfg lad img s unit))"

subsection \<open>The shadow\<close>

definition ST_COW_ARENA_PAGES :: u32 where "ST_COW_ARENA_PAGES = 512"
definition ST_COW_HASH_SLOTS :: u32 where "ST_COW_HASH_SLOTS = 1024"

definition st_cow_base_read :: "'m ladder \<Rightarrow> 'm \<Rightarrow> read512_fn" where
  "st_cow_base_read lad m lba = (0, drv_read lad m (ucast (ucast (selected_lba lad) + lba :: u64)))"

text \<open>The arena, entries and pending buffers are the driver's zero-initialised statics.\<close>

definition st_cow_ensure_bound :: "'m ladder \<Rightarrow> 'm \<Rightarrow> media_state \<Rightarrow> media_state" where
  "st_cow_ensure_bound lad m s =
    (if st_cow_bound s > 0 then s else if st_cow_bound s < 0 then s
     else case st_cow_init (ucast (selected_count lad)) 8 ST_COW_ARENA_PAGES ST_COW_HASH_SLOTS
            (Some (replicate (512 * 4096) 0)) (Some (replicate 1024 \<lparr>ent_page = 0, ent_slot = 0, ent_flags = 0\<rparr>))
            (Some (replicate 512 0)) (Some (st_cow_base_read lad m)) of
            (ST_COW_OK, Some c) \<Rightarrow> s\<lparr>st_cow_shadow := Some c, st_cow_bound := 1\<rparr>
          | _ \<Rightarrow> s\<lparr>st_cow_bound := -1\<rparr>)"

text \<open>The write loop over the shadow: sector \<open>first + i\<close> from the \<open>i\<close>-th block of the data.\<close>

fun cow_write_loop :: "read512_fn \<Rightarrow> u64 \<Rightarrow> bytes \<Rightarrow> nat \<Rightarrow> nat \<Rightarrow> st_cow \<Rightarrow> cow_status \<times> st_cow" where
  "cow_write_loop rd first bs i 0 c = (ST_COW_OK, c)"
| "cow_write_loop rd first bs i (Suc n) c =
    (let (cr, c1) = st_cow_prepare_write rd c (first + word_of_nat i) 1;
         (cr', c2) = (if cr = ST_COW_OK
           then st_cow_write_prepared_sector c1 (first + word_of_nat i) (slice (i * 512) 512 bs) else (cr, c1))
     in if cr' \<noteq> ST_COW_OK then (cr', c2) else cow_write_loop rd first bs (Suc i) n c2)"

fun cow_read_loop :: "read512_fn \<Rightarrow> u64 \<Rightarrow> nat \<Rightarrow> nat \<Rightarrow> bytes \<Rightarrow> st_cow \<Rightarrow> cow_status \<times> bytes \<times> st_cow" where
  "cow_read_loop rd first i 0 bs c = (ST_COW_OK, bs, c)"
| "cow_read_loop rd first i (Suc n) bs c =
    (let (cr, out, c1) = st_cow_read_sector rd c (first + word_of_nat i) (slice (i * 512) 512 bs);
         bs' = splice (i * 512) out bs
     in if cr \<noteq> ST_COW_OK then (cr, bs', c1) else cow_read_loop rd first (Suc i) n bs' c1)"

subsection \<open>The ladder's loops\<close>

definition card_lba :: "u32 \<Rightarrow> u64 \<Rightarrow> nat \<Rightarrow> u32" where
  "card_lba base_lba first i = ucast (ucast base_lba + first + word_of_nat i :: u64)"

fun card_read_loop :: "'m ladder \<Rightarrow> 'm \<Rightarrow> u32 \<Rightarrow> u64 \<Rightarrow> nat \<Rightarrow> nat \<Rightarrow> bytes \<Rightarrow> bytes" where
  "card_read_loop lad m base_lba first i 0 bs = bs"
| "card_read_loop lad m base_lba first i (Suc n) bs =
    card_read_loop lad m base_lba first (Suc i) n (splice (i * 512) (drv_read lad m (card_lba base_lba first i)) bs)"

fun card_write_loop :: "'m ladder \<Rightarrow> u32 \<Rightarrow> u64 \<Rightarrow> bytes \<Rightarrow> nat \<Rightarrow> nat \<Rightarrow> 'm \<Rightarrow> 'm" where
  "card_write_loop lad base_lba first bs i 0 m = m"
| "card_write_loop lad base_lba first bs i (Suc n) m =
    card_write_loop lad base_lba first bs (Suc i) n
      (drv_write lad (card_lba base_lba first i) (slice (i * 512) 512 bs) m)"

subsection \<open>The strategy\<close>

definition buf_seterror :: "media_errno \<Rightarrow> dbuf \<Rightarrow> dbuf" where
  "buf_seterror e bp = bp\<lparr>b_error := Some e\<rparr>"

definition buf_biodone :: "dbuf \<Rightarrow> dbuf" where
  "buf_biodone bp = bp\<lparr>b_done := True\<rparr>"

text \<open>\<open>buf_setresid\<close> and \<open>buf_biodone\<close> after a transfer of \<open>count\<close> bytes.\<close>

definition buf_finish :: "u32 \<Rightarrow> dbuf \<Rightarrow> dbuf" where
  "buf_finish count bp = buf_biodone (bp\<lparr>b_resid := b_count bp - count\<rparr>)"

definition media_read_served :: "media_state \<Rightarrow> media_state" where
  "media_read_served s = s\<lparr>st_medium_refused := st_medium_refused s - 1, st_medium_served := st_medium_served s + 1\<rparr>"

text \<open>A write to the card unit under the shadow.\<close>

definition strategy_cow_write ::
    "'m ladder \<Rightarrow> u64 \<Rightarrow> u32 \<Rightarrow> bytes \<Rightarrow> dbuf \<Rightarrow> media_state \<Rightarrow> 'm \<Rightarrow> dbuf \<times> media_state \<times> 'm" where
  "strategy_cow_write lad off count bs bp s m =
    (let s1 = st_cow_ensure_bound lad m s in
     case st_cow_shadow s1 of
       Some c \<Rightarrow>
         if st_cow_bound s1 = 1 then
           (let (cr, c') = cow_write_loop (st_cow_base_read lad m) (off div 512) bs 0 (unat (count div 512)) c;
                s2 = s1\<lparr>st_cow_shadow := Some c'\<rparr>
            in if cr \<noteq> ST_COW_OK
               then (buf_biodone (buf_seterror (if cr = ST_COW_NO_SPACE then ENOSPC else EIO) bp),
                     s2\<lparr>st_cow_write_refused := st_cow_write_refused s2 + 1\<rparr>, m)
               else (buf_finish count bp, s2\<lparr>st_medium_write_served := st_medium_write_served s2 + 1\<rparr>, m))
         else (buf_biodone (buf_seterror EIO bp), s1\<lparr>st_cow_write_refused := st_cow_write_refused s1 + 1\<rparr>, m)
     | None \<Rightarrow> (buf_biodone (buf_seterror EIO bp), s1\<lparr>st_cow_write_refused := st_cow_write_refused s1 + 1\<rparr>, m))"

text \<open>A read of a card unit, past the shadow where it is bound.\<close>

definition strategy_card_read ::
    "media_cfg \<Rightarrow> 'm ladder \<Rightarrow> u32 \<Rightarrow> u64 \<Rightarrow> u32 \<Rightarrow> bytes \<Rightarrow> dbuf \<Rightarrow> media_state \<Rightarrow> 'm \<Rightarrow> dbuf \<times> media_state \<times> 'm" where
  "strategy_card_read cfg lad unit off count bs bp s m =
    (let nblk = unat (count div 512);
         base_lba = (if unit = ST_MEDIA_DRIVER then selected_lba lad else 0);
         direct = (\<lambda>s. (buf_finish count (bp\<lparr>b_data := Some (card_read_loop lad m base_lba (off div 512) 0 nblk bs)\<rparr>),
                        media_read_served s, m))
     in if cf_cow cfg \<and> unit = ST_MEDIA_DRIVER \<and> 0 < nblk then
          (let s1 = st_cow_ensure_bound lad m s in
           case st_cow_shadow s1 of
             Some c \<Rightarrow>
               if st_cow_bound s1 = 1 then
                 (let (cr, bs', c') = cow_read_loop (st_cow_base_read lad m) (off div 512) 0 nblk bs c;
                      s2 = s1\<lparr>st_cow_shadow := Some c'\<rparr>; bp' = bp\<lparr>b_data := Some bs'\<rparr>
                  in if cr \<noteq> ST_COW_OK then (buf_biodone (buf_seterror EIO bp'), s2, m)
                     else (buf_finish count bp', media_read_served s2, m))
               else direct s1
           | None \<Rightarrow> direct s1)
        else direct s)"

text \<open>The whole routine.\<close>

definition st_media_strategy ::
    "media_cfg \<Rightarrow> 'm ladder \<Rightarrow> media_images \<Rightarrow> dbuf \<Rightarrow> media_state \<Rightarrow> 'm \<Rightarrow> dbuf \<times> media_state \<times> 'm" where
  "st_media_strategy cfg lad img bp s0 m =
    (let unit = b_unit bp;
         s = s0\<lparr>st_medium_refused := st_medium_refused s0 + 1\<rparr>;
         fail = (\<lambda>e s. (buf_biodone (buf_seterror e bp), s, m))
     in if unit \<ge> ST_MEDIA_DISKS cfg then fail ENXIO s
        else
          (let len = strategy_len cfg lad img s unit;
               base = st_medium_disk_base cfg img s unit
           in if len = 0 \<or> \<not> cf_emmc cfg \<and> base = None then fail ENXIO s
              else if \<not> b_is_read bp \<and> \<not> ((cf_hdd_write cfg \<or> cf_cow cfg) \<and> unit = ST_MEDIA_DRIVER)
              then fail EROFS (s\<lparr>st_medium_write_refused := st_medium_write_refused s + 1\<rparr>)
              else
                (let off = ucast (ucast (b_blkno bp) :: u32) * 512 :: u64 in
                 if off \<ge> len then (if off > len then fail EINVAL s else (buf_biodone bp, s, m))
                 else
                   (let count = (if off + ucast (b_count bp) > len then ucast (len - off) else b_count bp)
                    in if cf_emmc cfg \<and> (unit = ST_MEDIA_DRIVER \<or> ST_MEDIA_RAW_UNIT cfg unit) then
                         (case b_data bp of
                            None \<Rightarrow> fail EFAULT s
                          | Some bs \<Rightarrow>
                              if cf_cow cfg \<and> unit = ST_MEDIA_DRIVER \<and> \<not> b_is_read bp
                              then strategy_cow_write lad off count bs bp s m
                              else if cf_hdd_write cfg \<and> \<not> b_is_read bp
                              then (buf_finish count bp, s\<lparr>st_medium_write_served := st_medium_write_served s + 1\<rparr>,
                                    card_write_loop lad (if unit = ST_MEDIA_DRIVER then selected_lba lad else 0)
                                      (off div 512) bs 0 (unat (count div 512)) m)
                              else strategy_card_read cfg lad unit off count bs bp s m)
                       else
                         (case base of
                            None \<Rightarrow> fail ENXIO s
                          | Some disk \<Rightarrow>
                              (case b_data bp of
                                 None \<Rightarrow> fail EFAULT s
                               | Some bs \<Rightarrow>
                                   (buf_finish count (bp\<lparr>b_data := Some (splice 0
                                      (slice (unat (ucast off :: u32)) (unat count) disk) bs)\<rparr>),
                                    media_read_served s, m)))))))"

subsection \<open>The other entry points\<close>

definition st_media_open :: "media_cfg \<Rightarrow> u32 \<Rightarrow> media_errno option" where
  "st_media_open cfg unit = (if unit \<ge> ST_MEDIA_DISKS cfg then Some ENXIO else None)"

definition st_media_size :: "media_cfg \<Rightarrow> media_state \<Rightarrow> u32 \<Rightarrow> u32" where
  "st_media_size cfg s unit = (if unit \<ge> ST_MEDIA_DISKS cfg then 0 else st_media_blocksize s ! unat unit)"

record memdev_info =
  mi_mdev :: bool
  mi_phys :: bool
  mi_base :: u32
  mi_size :: u64

definition st_media_memdev_info ::
    "media_cfg \<Rightarrow> media_images \<Rightarrow> media_state \<Rightarrow> u32 \<Rightarrow> media_errno option \<times> memdev_info" where
  "st_media_memdev_info cfg img s unit =
    (if unit \<ge> ST_MEDIA_DISKS cfg
     then (Some EINVAL, \<lparr>mi_mdev = cf_hfs cfg, mi_phys = False, mi_base = 0, mi_size = 0\<rparr>)
     else if st_media_flags s ! unat unit AND ST_MEDIA_STAGED \<noteq> 0
     then (None, \<lparr>mi_mdev = cf_hfs cfg, mi_phys = (st_media_flags s ! unat unit AND ST_MEDIA_MDPHYS \<noteq> 0),
                  mi_base = drop_bit ST_MEDIA_PAGE_SHIFT (im_medium_va img),
                  mi_size = ucast (if st_medium_pages s \<noteq> 0 then st_medium_pages s else 1)\<rparr>)
     else (None, \<lparr>mi_mdev = cf_hfs cfg, mi_phys = (st_media_flags s ! unat unit AND ST_MEDIA_MDPHYS \<noteq> 0),
                  mi_base = drop_bit ST_MEDIA_PAGE_SHIFT (im_ramdisk_va img),
                  mi_size = ucast (drop_bit ST_MEDIA_PAGE_SHIFT (st_media_bytes img))\<rparr>))"

datatype media_ioctl =
    DKIOCGETMEMDEVINFO | DKIOCGETBLOCKSIZE | DKIOCGETFEATURES | DKIOCGETCOMMANDPOOLSIZE
  | DKIOCGETMAXBLOCKCOUNT | DKIOCGETMAXBYTECOUNT | DKIOCGETMAXSEGMENTCOUNT | DKIOCGETMAXSEGMENTBYTECOUNT
  | DKIOCGETMINSEGMENTALIGNMENTBYTECOUNT | DKIOCGETTHROTTLEMASK | DKIOCISVIRTUAL | DKIOCISSOLIDSTATE
  | DKIOCSETBLOCKSIZE | DKIOCGETBLOCKCOUNT | DKIOCISWRITABLE | DKIOC_OTHER

datatype ioctl_data = Ioc_None | Ioc_U32 u32 | Ioc_U64 u64 | Ioc_Memdev memdev_info

text \<open>The read and the write form of a maximum answer alike.\<close>

definition st_media_ioctl ::
    "media_cfg \<Rightarrow> media_images \<Rightarrow> media_state \<Rightarrow> u32 \<Rightarrow> media_ioctl \<Rightarrow> media_errno option \<times> ioctl_data" where
  "st_media_ioctl cfg img s unit cmd =
    (let size = st_media_blocksize s ! unat unit; blocks = st_media_blockcount s ! unat unit in
     if unit \<ge> ST_MEDIA_DISKS cfg then (Some ENXIO, Ioc_None)
     else case cmd of
       DKIOCGETMEMDEVINFO \<Rightarrow> (let (e, i) = st_media_memdev_info cfg img s unit in (e, Ioc_Memdev i))
     | DKIOCGETBLOCKSIZE \<Rightarrow> (None, Ioc_U32 size)
     | DKIOCGETFEATURES \<Rightarrow> (None, Ioc_U32 0)
     | DKIOCGETCOMMANDPOOLSIZE \<Rightarrow> (None, Ioc_U32 1)
     | DKIOCGETMAXBLOCKCOUNT \<Rightarrow> (None, Ioc_U64 (ucast blocks))
     | DKIOCGETMAXBYTECOUNT \<Rightarrow> (None, Ioc_U64 (ucast size * ucast blocks))
     | DKIOCGETMAXSEGMENTCOUNT \<Rightarrow> (None, Ioc_U64 1)
     | DKIOCGETMAXSEGMENTBYTECOUNT \<Rightarrow> (None, Ioc_U64 (ucast size))
     | DKIOCGETMINSEGMENTALIGNMENTBYTECOUNT \<Rightarrow> (None, Ioc_U64 (ucast size))
     | DKIOCGETTHROTTLEMASK \<Rightarrow> (None, Ioc_U64 1)
     | DKIOCISVIRTUAL \<Rightarrow> (None, Ioc_U32 0)
     | DKIOCISSOLIDSTATE \<Rightarrow> (None, Ioc_U32 0)
     | DKIOCSETBLOCKSIZE \<Rightarrow> (None, Ioc_None)
     | DKIOCGETBLOCKCOUNT \<Rightarrow> (None, Ioc_U64 (ucast blocks))
     | DKIOCISWRITABLE \<Rightarrow>
         (None, Ioc_U32 (if (cf_hdd_write cfg \<or> cf_cow cfg) \<and> unit = ST_MEDIA_DRIVER then 1 else 0))
     | DKIOC_OTHER \<Rightarrow> (Some ENOTTY, Ioc_None))"

text \<open>Registration.  \<open>add\<close> is \<open>bdevsw_add\<close>'s answer, \<open>mkdev\<close> is \<open>makedev\<close>; a negative \<open>disk\<close> is refused.\<close>

definition entry_root_media_register ::
    "media_cfg \<Rightarrow> media_images \<Rightarrow> int \<Rightarrow> (int \<Rightarrow> int \<Rightarrow> int) \<Rightarrow> int \<Rightarrow> media_state \<Rightarrow> int \<times> media_state" where
  "entry_root_media_register cfg img add mkdev disk s =
    (if disk < 0 \<or> disk \<ge> uint (ST_MEDIA_DISKS cfg) then (-1, s)
     else
       (let bytes = st_media_bytes img; d = nat disk;
            s1 = s\<lparr>st_media_blocksize := (st_media_blocksize s)[d := 512],
                   st_media_blockcount := (st_media_blockcount s)[d := (if bytes mod 512 \<noteq> 0 then 0 else bytes div 512)],
                   st_media_flags := (st_media_flags s)[d := ST_MEDIA_MDINITED],
                   st_media_major := (st_media_major s)[d := add]\<rparr>
        in if add < 0 then (add, s1) else (mkdev add disk, s1)))"

definition entry_root_media_register_card ::
    "media_cfg \<Rightarrow> 'm ladder \<Rightarrow> media_images \<Rightarrow> int \<Rightarrow> (int \<Rightarrow> int \<Rightarrow> int) \<Rightarrow> media_state \<Rightarrow> int \<times> media_state" where
  "entry_root_media_register_card cfg lad img add mkdev s =
    (if st_media_major s ! 2 \<noteq> 0 then (mkdev (st_media_major s ! 2) 2, s)
     else if selected_count lad = 0 then (22, s)
     else
       (let (dev, s1) = entry_root_media_register cfg img add mkdev 2 s
        in if dev < 0 then (dev, s1)
           else (dev, s1\<lparr>st_media_blocksize := (st_media_blocksize s1)[2 := 512],
                        st_media_blockcount := (st_media_blockcount s1)[2 := selected_count lad],
                        st_media_flags := (st_media_flags s1)[2 := ST_MEDIA_MDINITED OR ST_MEDIA_CARD]\<rparr>)))"

definition entry_root_media_register_card_raw ::
    "media_cfg \<Rightarrow> 'm ladder \<Rightarrow> media_images \<Rightarrow> int \<Rightarrow> (int \<Rightarrow> int \<Rightarrow> int) \<Rightarrow> media_state \<Rightarrow> int \<times> media_state" where
  "entry_root_media_register_card_raw cfg lad img add mkdev s =
    (if st_media_major s ! 3 \<noteq> 0 then (mkdev (st_media_major s ! 3) 3, s)
     else if card_sectors lad = 0 then (22, s)
     else
       (let (dev, s1) = entry_root_media_register cfg img add mkdev 3 s
        in if dev < 0 then (dev, s1)
           else (dev, s1\<lparr>st_media_blocksize := (st_media_blocksize s1)[3 := 512],
                        st_media_blockcount := (st_media_blockcount s1)[3 := card_sectors lad],
                        st_media_flags := (st_media_flags s1)[3 := ST_MEDIA_MDINITED OR ST_MEDIA_CARD]\<rparr>)))"

text \<open>Staging a sector; \<open>add1\<close> and \<open>add2\<close> are the answers of the two registrations' \<open>bdevsw_add\<close>.
  22 is \<open>EINVAL\<close>.\<close>

definition entry_root_media_stage ::
    "media_cfg \<Rightarrow> 'm ladder \<Rightarrow> media_images \<Rightarrow> int \<Rightarrow> int \<Rightarrow> (int \<Rightarrow> int \<Rightarrow> int) \<Rightarrow> u32 \<Rightarrow> u32 \<Rightarrow> u32 list option \<Rightarrow> u32
      \<Rightarrow> media_state \<Rightarrow> int \<times> media_state" where
  "entry_root_media_stage cfg lad img add1 add2 mkdev sector pages words nwords s =
    (case words of
       None \<Rightarrow> (22, s)
     | Some ws \<Rightarrow>
         if nwords = 0 then (22, s)
         else
           (let n = (if nwords > 128 then 128 else unat nwords);
                s1 = s\<lparr>st_medium_virt := map (\<lambda>i. if i < n then ws ! i else 0) [0..<ST_MEDIA_SECTOR_WORDS],
                       st_medium_sector := sector, st_medium_pages := (if pages \<noteq> 0 then pages else 1)\<rparr>;
                (dev, s2) = entry_root_media_register cfg img add1 mkdev 1 s1
            in if dev < 0 then (dev, s2)
               else
                 (let s3 = s2\<lparr>st_media_blocksize := (st_media_blocksize s2)[1 := 512],
                              st_media_blockcount := (st_media_blockcount s2)[1 := 1],
                              st_media_flags := (st_media_flags s2)[1 := ST_MEDIA_MDINITED OR ST_MEDIA_STAGED],
                              st_medium_staged := 1\<rparr>
                  in (0, if cf_emmc cfg then snd (entry_root_media_register_card cfg lad img add2 mkdev s3) else s3))))"

end
