(* ===== verification/Root_Media_Proofs.thy ===== *)
theory Root_Media_Proofs
  imports Root_Media
begin

text \<open>
  Facts about the root-media driver: what its block loops leave, the disk the card unit shows
  (\<open>root_view\<close>) and the invariant that ties it to the copy-on-write shadow (\<open>root_good\<close>), the
  arithmetic of a request, and the strategy routine as its refusals followed by \<open>strategy_body\<close>.
\<close>

unbundle bit_operations_syntax

lemma splice_append:
  assumes "off + length xs + length ys \<le> length bs"
  shows "splice (off + length xs) ys (splice off xs bs) = splice off (xs @ ys) bs"
proof -
  have "min (length bs) off = off" and "length bs - off + 0 \<ge> length xs" using assms by linarith+
  then show ?thesis by (simp add: splice_def ac_simps)
qed

lemma splice_Nil: "splice off [] bs = bs"
  by (simp add: splice_def)

definition ladder_ok :: "'m ladder \<Rightarrow> 'm \<Rightarrow> bool" where
  "ladder_ok lad m \<longleftrightarrow> selected_count lad \<noteq> 0 \<and> (\<forall>lba. length (drv_read lad m lba) = 512)"

definition root_good :: "media_cfg \<Rightarrow> 'm ladder \<Rightarrow> 'm \<Rightarrow> media_state \<Rightarrow> bool" where
  "root_good cfg lad m s \<longleftrightarrow> ladder_ok lad m \<and> (st_cow_bound s = 0 \<or> cf_cow cfg \<and> st_cow_bound s = 1 \<and>
     (\<exists>c. st_cow_shadow s = Some c \<and> cow_good (st_cow_base_read lad m) c
        \<and> cow_sectors c = ucast (selected_count lad)))"

definition root_view :: "'m ladder \<Rightarrow> 'm \<Rightarrow> media_state \<Rightarrow> u64 \<Rightarrow> bytes" where
  "root_view lad m s t = (if st_cow_bound s = 1 then cow_view (st_cow_base_read lad m) (the (st_cow_shadow s)) t
     else snd (st_cow_base_read lad m t))"

lemma base_read_length: "ladder_ok lad m \<Longrightarrow> \<forall>t. length (snd (st_cow_base_read lad m t)) = 512"
  by (simp add: st_cow_base_read_def ladder_ok_def)

lemma ensure_bound_spec:
  assumes "root_good cfg lad m s"
  obtains c where "st_cow_ensure_bound lad m s = s\<lparr>st_cow_bound := 1, st_cow_shadow := Some c\<rparr>"
    and "cow_good (st_cow_base_read lad m) c" and "cow_sectors c = ucast (selected_count lad)"
    and "cow_view (st_cow_base_read lad m) c = root_view lad m s"
proof (cases "st_cow_bound s = 1")
  case True
  then obtain c where c: "st_cow_shadow s = Some c" "cow_good (st_cow_base_read lad m) c"
      "cow_sectors c = ucast (selected_count lad)"
    using assms by (auto simp: root_good_def)
  moreover have "st_cow_ensure_bound lad m s = s\<lparr>st_cow_bound := 1, st_cow_shadow := Some c\<rparr>"
    using True c by (cases s) (simp add: st_cow_ensure_bound_def)
  ultimately show ?thesis using that True by (simp add: root_view_def fun_eq_iff)
next
  case False
  then have b: "st_cow_bound s = 0" and lad: "ladder_ok lad m" using assms by (auto simp: root_good_def)
  let ?n = "ucast (selected_count lad) :: u64"
  let ?i = "st_cow_init ?n 8 ST_COW_ARENA_PAGES ST_COW_HASH_SLOTS (Some (replicate (512 * 4096) 0))
     (Some (replicate 1024 \<lparr>ent_page = 0, ent_slot = 0, ent_flags = 0\<rparr>)) (Some (replicate 512 0))
     (Some (st_cow_base_read lad m))"
  have n: "unat ?n < 4294967296" and n0: "?n \<noteq> 0"
    using lad by (simp_all add: ladder_ok_def unsigned_ucast_eq take_bit_nat_eq_self word_unat_eq_iff)
  have "unat (?n + 8 - 1) = unat ?n + 7"
  proof -
    have "unat ?n + 7 < 18446744073709551616" using n by linarith
    then show ?thesis by (simp del: unat_ucast_u32_u64 add: unat_word_ariths)
  qed
  then have "unat ((?n + 8 - 1) div 8) = (unat ?n + 7) div 8" by (simp only: unat_div_distrib unsigned_numeral) simp
  then have "unat ((?n + 8 - 1) div 8) \<le> 4294967295" using n by linarith
  then have pages: "\<not> (?n + 8 - 1) div 8 > 0xffffffff" by (simp add: word_less_nat_alt)
  obtain c where c: "?i = (ST_COW_OK, Some c)"
    using n0 pages by (simp add: st_cow_init_def ST_COW_ARENA_PAGES_def ST_COW_HASH_SLOTS_def)
  have "cow_buffers_ok ?n 8 ST_COW_ARENA_PAGES (replicate (512 * 4096) 0) (replicate 512 0)"
    using le_less_trans [OF less_imp_le [OF n], of 18446744073709551608]
    by (simp add: cow_buffers_ok_def ST_COW_ARENA_PAGES_def order.strict_implies_order)
  note I = cow_init_spec [OF c this]
  have "st_cow_ensure_bound lad m s = s\<lparr>st_cow_bound := 1, st_cow_shadow := Some c\<rparr>"
    using b c by (simp add: st_cow_ensure_bound_def)
  then show ?thesis
    using that I base_read_length [OF lad] False by (simp add: cow_good_def root_view_def fun_eq_iff)
qed

lemma base_read_ok: "fst (st_cow_base_read lad m t) = 0"
  by (simp add: st_cow_base_read_def)

lemma unat_sector: "unat (first :: u64) + k \<le> unat (n :: u64) \<Longrightarrow> unat (first + word_of_nat k) = unat first + k"
proof -
  assume "unat first + k \<le> unat n"
  moreover have "unat n < 2 ^ 64" using unsigned_less [of n] by simp
  ultimately have "unat first + k < 2 ^ 64" by linarith
  then show ?thesis by (simp add: unat_word_ariths unat_of_nat)
qed

lemma length_cow_view:
  assumes "cow_good rd c"
  shows "length (cow_view rd c t) = 512"
proof (cases "cow_map c (cow_page_of c t)")
  case None
  then show ?thesis using assms by (simp add: cow_view_def cow_good_def)
next
  case (Some e)
  have wf: "cow_wf c" and g: "cow_geometry c" using assms by (simp_all add: cow_good_def cow_wf_def)
  have "cow_cell c (unat (ent_slot e)) (unat (cow_in_page c t)) * 512 + 512 \<le> length (cow_arena c)"
    by (rule cow_offset_cell(2) [OF g cow_map_slot(2) [OF wf Some] cow_in_page_unat(2) [OF g]])
  then show ?thesis using Some by (simp add: cow_view_def cell_def length_slice)
qed

lemma cow_read_good:
  assumes "cow_good rd c" and "fst (rd t) = 0" and "t < cow_sectors c"
  shows "st_cow_read_sector rd c t out = (ST_COW_OK, cow_view rd c t, c)"
  using assms cow_read_spec [of c rd t out] by (simp add: cow_good_def not_le)

lemma upt_shift: "[i..<i + Suc n] = i # [Suc i..<Suc i + n]"
  by (simp add: upt_conv_Cons)

lemma cow_read_loop_spec:
  assumes "cow_good rd c" and "\<forall>t. fst (rd t) = 0"
    and "unat first + i + n \<le> unat (cow_sectors c)" and "(i + n) * 512 \<le> length bs"
  shows "cow_read_loop rd first i n bs c = (ST_COW_OK,
    splice (i * 512) (concat (map (\<lambda>k. cow_view rd c (first + word_of_nat k)) [i..<i + n])) bs, c)"
  using assms(3,4)
proof (induction n arbitrary: i bs)
  case 0
  then show ?case by (simp add: splice_Nil)
next
  case (Suc n)
  let ?v = "\<lambda>k. cow_view rd c (first + word_of_nat k)"
  have in1: "first + word_of_nat i < cow_sectors c"
    using unat_sector [of first i "cow_sectors c"] Suc.prems(1) by (simp add: word_less_nat_alt)
  have len: "length (splice (i * 512) (?v i) bs) = length bs"
    using Suc.prems(2) by (simp add: length_splice length_cow_view [OF assms(1)])
  have sum: "length (concat (map ?v [Suc i..<Suc i + n])) = n * 512"
    by (simp add: length_concat comp_def length_cow_view [OF assms(1)] sum_list_triv)
  have "cow_read_loop rd first (Suc i) n (splice (i * 512) (?v i) bs) c
      = (ST_COW_OK, splice (Suc i * 512) (concat (map ?v [Suc i..<Suc i + n])) (splice (i * 512) (?v i) bs), c)"
    using Suc.IH [of "Suc i" "splice (i * 512) (?v i) bs"] Suc.prems len by simp
  also have "splice (Suc i * 512) (concat (map ?v [Suc i..<Suc i + n])) (splice (i * 512) (?v i) bs)
      = splice (i * 512) (concat (map ?v [i..<i + Suc n])) bs"
    using splice_append [of "i * 512" "?v i" "concat (map ?v [Suc i..<Suc i + n])" bs]
      Suc.prems(2) sum unfolding upt_shift by (simp add: length_cow_view [OF assms(1)] add.commute)
  finally show ?case
    using cow_read_good [OF assms(1) _ in1] assms(2) by simp
qed

lemma card_read_loop_spec:
  assumes "\<forall>lba. length (drv_read lad m lba) = 512" and "(i + n) * 512 \<le> length bs"
  shows "card_read_loop lad m base first i n bs =
    splice (i * 512) (concat (map (\<lambda>k. drv_read lad m (card_lba base first k)) [i..<i + n])) bs"
  using assms(2)
proof (induction n arbitrary: i bs)
  case 0
  then show ?case by (simp add: splice_Nil)
next
  case (Suc n)
  let ?v = "\<lambda>k. drv_read lad m (card_lba base first k)"
  have len: "length (splice (i * 512) (?v i) bs) = length bs"
    using Suc.prems by (simp add: length_splice assms(1))
  have sum: "length (concat (map ?v [Suc i..<Suc i + n])) = n * 512"
    by (simp add: length_concat comp_def assms(1) sum_list_triv)
  show ?case
    using Suc.IH [of "Suc i" "splice (i * 512) (?v i) bs"] Suc.prems len
      splice_append [of "i * 512" "?v i" "concat (map ?v [Suc i..<Suc i + n])" bs] sum
    unfolding upt_shift by (simp add: assms(1) add.commute)
qed

lemma cow_write_good:
  assumes "cow_good rd c" and "\<forall>t. fst (rd t) = 0" and "t < cow_sectors c" and "length bs = 512"
    and "st_cow_prepare_write rd c t 1 = (cr, c1)"
  shows "cow_good rd c1 \<and> cow_sectors c1 = cow_sectors c \<and> (\<forall>u < cow_sectors c. cow_view rd c1 u = cow_view rd c u)
    \<and> (cr = ST_COW_OK \<or> cr = ST_COW_NO_SPACE)
    \<and> (cr = ST_COW_OK \<longrightarrow> (\<exists>c2. st_cow_write_prepared_sector c1 t bs = (ST_COW_OK, c2) \<and> cow_good rd c2
        \<and> cow_sectors c2 = cow_sectors c \<and> (\<forall>u < cow_sectors c. cow_view rd c2 u = (if u = t then bs else cow_view rd c u))))"
proof -
  have wf: "cow_wf c" and rd: "\<forall>lba. length (snd (rd lba)) = 512" using assms(1) by (simp_all add: cow_good_def)
  note P = cow_prepare_spec [OF wf rd assms(5)]
  have "1 \<le> unat (cow_sectors c) - unat t" using assms(3) by (simp add: word_less_nat_alt)
  then have "cow_request_ok c t 1"
    using assms(3) by (simp add: cow_request_ok_def word_le_nat_alt unat_sub order.strict_implies_order)
  moreover have "cow_base_ok rd c ps" for ps using assms(2) by (simp add: cow_base_ok_def)
  ultimately have cr: "cr = ST_COW_OK \<or> cr = ST_COW_NO_SPACE" using P by (cases cr) auto
  have "\<exists>c2. st_cow_write_prepared_sector c1 t bs = (ST_COW_OK, c2) \<and> cow_good rd c2
        \<and> cow_sectors c2 = cow_sectors c \<and> (\<forall>u < cow_sectors c. cow_view rd c2 u = (if u = t then bs else cow_view rd c u))"
    if ok: "cr = ST_COW_OK"
  proof -
    obtain st c2 where w: "st_cow_write_prepared_sector c1 t bs = (st, c2)" by fastforce
    have wf1: "cow_wf c1" using P by blast
    note W = cow_write_spec [OF wf1 assms(4) w, where rd = rd]
    have "cow_map c1 (cow_page_of c1 t) \<noteq> None" using P ok by auto
    then have st: "st = ST_COW_OK" using W P assms(3) by (simp add: not_le)
    then show ?thesis using W P w rd by (simp add: cow_good_def)
  qed
  then show ?thesis using P cr rd by (simp add: cow_good_def)
qed

text \<open>A disk on which \<open>k\<close> blocks of \<open>bs\<close>, from block \<open>i\<close> of it, are put at sector \<open>first + i\<close>.\<close>

definition put_blocks :: "nat \<Rightarrow> bytes \<Rightarrow> nat \<Rightarrow> nat \<Rightarrow> (u64 \<Rightarrow> bytes) \<Rightarrow> u64 \<Rightarrow> bytes" where
  "put_blocks first bs i k d t = (if first + i \<le> unat t \<and> unat t < first + i + k
     then slice ((unat t - first) * 512) 512 bs else d t)"

lemma cow_write_loop_spec:
  assumes "cow_good rd c" and "\<forall>t. fst (rd t) = 0"
    and "unat first + i + n \<le> unat (cow_sectors c)" and "(i + n) * 512 \<le> length bs"
    and "cow_write_loop rd first bs i n c = (st, c')"
  shows "cow_good rd c' \<and> cow_sectors c' = cow_sectors c
    \<and> (\<exists>k \<le> n. (\<forall>t < cow_sectors c. cow_view rd c' t = put_blocks (unat first) bs i k (cow_view rd c) t)
        \<and> (st = ST_COW_OK \<and> k = n \<or> st = ST_COW_NO_SPACE \<and> k < n))"
  using assms(1,3,4,5)
proof (induction n arbitrary: i c)
  case 0
  then show ?case by (auto simp: put_blocks_def)
next
  case (Suc n)
  let ?t = "first + word_of_nat i" and ?b = "slice (i * 512) 512 bs"
  have ut: "unat ?t = unat first + i"
    using unat_sector [of first i "cow_sectors c"] Suc.prems(2) by simp
  then have t: "?t < cow_sectors c" using Suc.prems(2) by (simp add: word_less_nat_alt)
  have b: "length ?b = 512" using Suc.prems(3) by (simp add: length_slice)
  obtain cr c1 where p: "st_cow_prepare_write rd c ?t 1 = (cr, c1)" by fastforce
  note G = cow_write_good [OF Suc.prems(1) assms(2) t b p]
  show ?case
  proof (cases "cr = ST_COW_OK")
    case False
    then have "st = ST_COW_NO_SPACE" "c' = c1" using Suc.prems(4) p G by auto
    then show ?thesis using G by (intro conjI exI [of _ 0]) (auto simp: put_blocks_def)
  next
    case True
    then obtain c2 where c2: "st_cow_write_prepared_sector c1 ?t ?b = (ST_COW_OK, c2)" "cow_good rd c2"
        "cow_sectors c2 = cow_sectors c" "\<forall>u < cow_sectors c. cow_view rd c2 u = (if u = ?t then ?b else cow_view rd c u)"
      using G by blast
    have "cow_write_loop rd first bs (Suc i) n c2 = (st, c')"
      using Suc.prems(4) p True c2(1) by simp
    from Suc.IH [OF c2(2) _ _ this] obtain k where k: "cow_good rd c'" "cow_sectors c' = cow_sectors c" "k \<le> n"
        "\<forall>t < cow_sectors c. cow_view rd c' t = put_blocks (unat first) bs (Suc i) k (cow_view rd c2) t"
        "st = ST_COW_OK \<and> k = n \<or> st = ST_COW_NO_SPACE \<and> k < n"
      using Suc.prems(2,3) c2(3) by auto
    have "cow_view rd c' t = put_blocks (unat first) bs i (Suc k) (cow_view rd c) t" if "t < cow_sectors c" for t
      using k(4) c2(4) that ut by (auto simp: put_blocks_def word_unat_eq_iff)
    then show ?thesis using k by (intro conjI exI [of _ "Suc k"]) auto
  qed
qed

text \<open>The block a request starts at, and the bytes it moves: cut off at the unit's length.\<close>

definition req_first :: "dbuf \<Rightarrow> u32" where
  "req_first bp = ucast (b_blkno bp)"

definition req_moved :: "u64 \<Rightarrow> dbuf \<Rightarrow> nat" where
  "req_moved len bp = min (unat (b_count bp)) (unat len - unat (req_first bp) * 512)"

lemma req_off:
  "unat (ucast (req_first bp) * 512 :: u64) = unat (req_first bp) * 512"
  "(ucast (req_first bp) * 512 :: u64) div 512 = ucast (req_first bp)"
proof -
  have "unat (req_first bp) < 4294967296" by simp
  then have "unat (req_first bp) * 512 < 18446744073709551616" by linarith
  then show "unat (ucast (req_first bp) * 512 :: u64) = unat (req_first bp) * 512"
    by (simp add: unat_word_ariths)
  then show "(ucast (req_first bp) * 512 :: u64) div 512 = ucast (req_first bp)"
    by (simp add: word_unat_eq_iff unat_div_distrib)
qed

lemma req_count:
  assumes "ucast (req_first bp) * 512 < len"
  shows "unat (if ucast (req_first bp) * 512 + ucast (b_count bp) > len
      then ucast (len - ucast (req_first bp) * 512) else b_count bp) = req_moved len bp"
proof -
  let ?off = "ucast (req_first bp) * 512 :: u64" and ?n = "unat (b_count bp)"
  have f: "unat (req_first bp) < 4294967296" and n: "?n < 4294967296" by simp_all
  then have "unat (req_first bp) * 512 + ?n < 18446744073709551616" by linarith
  then have sum: "unat (?off + ucast (b_count bp)) = unat (req_first bp) * 512 + ?n"
    by (simp add: unat_word_ariths req_off)
  have diff: "unat (len - ?off) = unat len - unat (req_first bp) * 512"
    using assms by (simp add: unat_sub order.strict_implies_order req_off)
  show ?thesis
  proof (cases "?off + ucast (b_count bp) > len")
    case True
    then have lt: "unat len < unat (req_first bp) * 512 + ?n" by (simp add: word_less_nat_alt sum)
    then have "unat len - unat (req_first bp) * 512 < 4294967296" using n by linarith
    then have "unat (ucast (len - ?off) :: u32) = unat len - unat (req_first bp) * 512"
      using diff by (simp add: unat_ucast_u64_u32)
    then show ?thesis using True lt by (simp add: req_moved_def)
  next
    case False
    then have "unat (req_first bp) * 512 + ?n \<le> unat len" by (simp add: word_less_nat_alt sum)
    then show ?thesis using False by (simp add: req_moved_def)
  qed
qed

lemma driver_len:
  assumes "cf_emmc cfg"
  shows "unat (strategy_len cfg lad img s ST_MEDIA_DRIVER) \<le> unat (selected_count lad) * 512"
proof -
  have "unat (selected_count lad) < 4294967296" by simp
  then have "unat (selected_count lad) * 512 < 18446744073709551616" by linarith
  then have "unat (ucast (selected_count lad) * 512 :: u64) = unat (selected_count lad) * 512"
    by (simp add: unat_word_ariths)
  then show ?thesis
    using assms by (simp add: strategy_len_def st_medium_disk_bytes_def st_medium_card_full_bytes_def ST_MEDIA_DISKS_def
        ST_MEDIA_DRIVER_def ST_MEDIA_RAW_UNIT_def ST_MEDIA_CARD_RAW_def unat_ucast_u64_u32)
qed

text \<open>A request that reaches the card unit's loops.\<close>

definition driver_request :: "media_cfg \<Rightarrow> 'm ladder \<Rightarrow> media_images \<Rightarrow> media_state \<Rightarrow> dbuf \<Rightarrow> bytes \<Rightarrow> bool" where
  "driver_request cfg lad img s bp bs \<longleftrightarrow> cf_emmc cfg \<and> b_unit bp = ST_MEDIA_DRIVER \<and> b_data bp = Some bs
     \<and> unat (b_count bp) \<le> length bs \<and> ucast (req_first bp) * 512 < strategy_len cfg lad img s ST_MEDIA_DRIVER"

definition driver_moved :: "media_cfg \<Rightarrow> 'm ladder \<Rightarrow> media_images \<Rightarrow> media_state \<Rightarrow> dbuf \<Rightarrow> nat" where
  "driver_moved cfg lad img s bp = req_moved (strategy_len cfg lad img s ST_MEDIA_DRIVER) bp"

lemma driver_moved_bounds:
  assumes "driver_request cfg lad img s bp bs"
  shows "driver_moved cfg lad img s bp \<le> unat (b_count bp)"
    and "unat (req_first bp) + driver_moved cfg lad img s bp div 512 \<le> unat (selected_count lad)"
    and "driver_moved cfg lad img s bp div 512 * 512 \<le> length bs"
proof -
  let ?len = "unat (strategy_len cfg lad img s ST_MEDIA_DRIVER)" and ?n = "driver_moved cfg lad img s bp"
  show n: "?n \<le> unat (b_count bp)" by (simp add: driver_moved_def req_moved_def)
  have "unat (req_first bp) * 512 < ?len" using assms by (simp add: driver_request_def word_less_nat_alt req_off)
  moreover have "?len \<le> unat (selected_count lad) * 512"
    using driver_len [of cfg lad img s] assms by (simp add: driver_request_def)
  moreover have "?n \<le> ?len - unat (req_first bp) * 512" by (simp add: driver_moved_def req_moved_def)
  ultimately have "unat (req_first bp) * 512 + ?n \<le> unat (selected_count lad) * 512" by linarith
  then show "unat (req_first bp) + ?n div 512 \<le> unat (selected_count lad)" by linarith
  have "unat (b_count bp) \<le> length bs" using assms by (simp add: driver_request_def)
  then show "?n div 512 * 512 \<le> length bs" using n by linarith
qed

lemma strategy_len_refused [simp]:
  "strategy_len cfg lad img (s\<lparr>st_medium_refused := r\<rparr>) unit = strategy_len cfg lad img s unit"
  by (cases s) (simp only: strategy_len_def st_medium_disk_bytes_def media_state.simps media_state.update_convs)

text \<open>How the routine continues on such a request.\<close>

lemma strategy_driver:
  assumes "driver_request cfg lad img s bp bs" and "b_is_read bp \<or> cf_cow cfg"
  obtains count where "unat count = driver_moved cfg lad img s bp"
    and "st_media_strategy cfg lad img bp s m =
      (if b_is_read bp
       then strategy_card_read cfg lad ST_MEDIA_DRIVER (ucast (req_first bp) * 512) count bs bp
              (s\<lparr>st_medium_refused := st_medium_refused s + 1\<rparr>) m
       else strategy_cow_write lad (ucast (req_first bp) * 512) count bs bp
              (s\<lparr>st_medium_refused := st_medium_refused s + 1\<rparr>) m)"
proof -
  let ?len = "strategy_len cfg lad img s ST_MEDIA_DRIVER" and ?off = "ucast (req_first bp) * 512 :: u64"
  let ?count = "if ?off + ucast (b_count bp) > ?len then ucast (?len - ?off) else b_count bp"
  have r: "cf_emmc cfg" "b_unit bp = ST_MEDIA_DRIVER" "b_data bp = Some bs" "?off < ?len"
    using assms(1) by (simp_all add: driver_request_def)
  have u: "\<not> ST_MEDIA_DISKS cfg \<le> ST_MEDIA_DRIVER" using r(1) by (simp add: ST_MEDIA_DISKS_def ST_MEDIA_DRIVER_def)
  have "?len \<noteq> 0" using r(4) by auto
  then have "st_media_strategy cfg lad img bp s m =
      (if b_is_read bp
       then strategy_card_read cfg lad ST_MEDIA_DRIVER ?off ?count bs bp (s\<lparr>st_medium_refused := st_medium_refused s + 1\<rparr>) m
       else strategy_cow_write lad ?off ?count bs bp (s\<lparr>st_medium_refused := st_medium_refused s + 1\<rparr>) m)"
    using r(1,2,3) u assms(2) r(4) [unfolded not_le [symmetric]]
    by (auto simp: st_media_strategy_def Let_def req_first_def)
  then show ?thesis using that req_count [OF r(4)] by (simp add: driver_moved_def)
qed

lemma root_good_refused [simp]:
  "root_good cfg lad m (s\<lparr>st_medium_refused := r\<rparr>) = root_good cfg lad m s"
  "root_view lad m (s\<lparr>st_medium_refused := r\<rparr>) = root_view lad m s"
  by (simp_all add: root_good_def root_view_def fun_eq_iff)

lemma driver_sector:
  assumes "k < n" and "unat (req_first bp) + n \<le> unat (sc :: u32)"
  shows "ucast (req_first bp) + word_of_nat k = (word_of_nat (unat (req_first bp) + k) :: u64)"
  by (simp add: of_nat_add)

lemma card_lba_base: "drv_read lad m (card_lba (selected_lba lad) first k)
    = snd (st_cow_base_read lad m (first + word_of_nat k))"
  by (simp add: st_cow_base_read_def card_lba_def add.assoc)

text \<open>The data a read leaves: the unit's blocks, one after the other.\<close>

definition driver_blocks :: "(u64 \<Rightarrow> bytes) \<Rightarrow> dbuf \<Rightarrow> nat \<Rightarrow> bytes" where
  "driver_blocks d bp n = concat (map (\<lambda>k. d (ucast (req_first bp) + word_of_nat k)) [0..<n])"

lemma resid_moved:
  assumes "unat count \<le> unat (c :: u32)"
  shows "unat (c - count) = unat c - unat count"
  using assms by (simp add: unat_sub word_le_nat_alt)

lemma raw_unit_bounds: "ST_MEDIA_RAW_UNIT cfg u \<Longrightarrow> u < ST_MEDIA_DISKS cfg \<and> u = 3"
  by (simp add: ST_MEDIA_RAW_UNIT_def ST_MEDIA_DISKS_def ST_MEDIA_CARD_RAW_def)

lemma disk_base_cases:
  "st_medium_disk_base cfg img s u = None \<longleftrightarrow> cf_emmc cfg \<and> (u = ST_MEDIA_DRIVER \<or> ST_MEDIA_RAW_UNIT cfg u)"
  by (simp add: st_medium_disk_base_def ST_MEDIA_RAW_UNIT_def)

lemma disk_base_refused [simp]:
  "st_medium_disk_base cfg img (s\<lparr>st_medium_refused := r\<rparr>) unit = st_medium_disk_base cfg img s unit"
  by (cases s) (simp only: st_medium_disk_base_def media_state.simps media_state.update_convs)

lemma cow_write_outcome:
  "strategy_cow_write lad off count bs bp s m = (bp', s', m') \<Longrightarrow>
    m' = m \<and> b_done bp' \<and> (b_error bp' = b_error bp \<or> b_error bp' = Some ENOSPC \<or> b_error bp' = Some EIO)
    \<and> st_medium_write_refused s' = st_medium_write_refused s"
  by (auto simp: strategy_cow_write_def st_cow_ensure_bound_def buf_finish_def buf_biodone_def buf_seterror_def Let_def
      split: prod.splits option.splits if_splits cow_status.splits)

lemma card_read_outcome:
  "strategy_card_read cfg lad unit off count bs bp s m = (bp', s', m') \<Longrightarrow>
    m' = m \<and> b_done bp' \<and> (b_error bp' = b_error bp \<or> b_error bp' = Some EIO)
    \<and> st_medium_write_refused s' = st_medium_write_refused s"
  by (auto simp: strategy_card_read_def st_cow_ensure_bound_def buf_finish_def buf_biodone_def buf_seterror_def
      media_read_served_def Let_def split: prod.splits option.splits if_splits cow_status.splits)

abbreviation asked :: "media_state \<Rightarrow> media_state" where
  "asked s \<equiv> s\<lparr>st_medium_refused := st_medium_refused s + 1\<rparr>"

lemma strategy_enxio:
  assumes "ST_MEDIA_DISKS cfg \<le> b_unit bp \<or> strategy_len cfg lad img s (b_unit bp) = 0"
  shows "st_media_strategy cfg lad img bp s m = (buf_biodone (buf_seterror ENXIO bp), asked s, m)"
  using assms by (cases "ST_MEDIA_DISKS cfg \<le> b_unit bp") (simp_all add: st_media_strategy_def)

lemma strategy_erofs:
  assumes "b_unit bp < ST_MEDIA_DISKS cfg" and "strategy_len cfg lad img s (b_unit bp) \<noteq> 0" and "\<not> b_is_read bp"
    and "\<not> ((cf_hdd_write cfg \<or> cf_cow cfg) \<and> b_unit bp = ST_MEDIA_DRIVER)"
  shows "st_media_strategy cfg lad img bp s m = (buf_biodone (buf_seterror EROFS bp),
    asked s\<lparr>st_medium_write_refused := st_medium_write_refused s + 1\<rparr>, m)"
proof -
  have "\<not> ST_MEDIA_DISKS cfg \<le> b_unit bp"
    "\<not> (strategy_len cfg lad img s (b_unit bp) = 0 \<or> \<not> cf_emmc cfg \<and> st_medium_disk_base cfg img s (b_unit bp) = None)"
    using assms(1,2) by (auto simp: disk_base_cases)
  note g = this [THEN if_not_P]
  show ?thesis
    using assms(3,4) unfolding st_media_strategy_def Let_def strategy_len_refused disk_base_refused g by simp
qed

text \<open>What the routine does past its refusals.\<close>

definition strategy_body ::
    "media_cfg \<Rightarrow> 'm ladder \<Rightarrow> media_images \<Rightarrow> dbuf \<Rightarrow> u32 \<Rightarrow> media_state \<Rightarrow> 'm \<Rightarrow> dbuf \<times> media_state \<times> 'm" where
  "strategy_body cfg lad img bp count s m =
    (case b_data bp of None \<Rightarrow> (buf_biodone (buf_seterror EFAULT bp), s, m)
     | Some bs \<Rightarrow>
         (case st_medium_disk_base cfg img s (b_unit bp) of
            Some disk \<Rightarrow> (buf_finish count (bp\<lparr>b_data := Some (splice 0
               (slice (unat (ucast (ucast (req_first bp) * 512 :: u64) :: u32)) (unat count) disk) bs)\<rparr>), media_read_served s, m)
          | None \<Rightarrow>
              if b_is_read bp then strategy_card_read cfg lad (b_unit bp) (ucast (req_first bp) * 512) count bs bp s m
              else if cf_cow cfg then strategy_cow_write lad (ucast (req_first bp) * 512) count bs bp s m
              else (buf_finish count bp, s\<lparr>st_medium_write_served := st_medium_write_served s + 1\<rparr>,
                    card_write_loop lad (selected_lba lad) (ucast (req_first bp)) bs 0 (unat (count div 512)) m)))"

lemma strategy_served:
  assumes "b_unit bp < ST_MEDIA_DISKS cfg" and "strategy_len cfg lad img s (b_unit bp) \<noteq> 0"
    and "b_is_read bp \<or> (cf_hdd_write cfg \<or> cf_cow cfg) \<and> b_unit bp = ST_MEDIA_DRIVER"
  obtains count where "unat count = req_moved (strategy_len cfg lad img s (b_unit bp)) bp \<or>
      strategy_len cfg lad img s (b_unit bp) \<le> ucast (req_first bp) * 512"
    and "st_media_strategy cfg lad img bp s m =
      (if strategy_len cfg lad img s (b_unit bp) < ucast (req_first bp) * 512 then (buf_biodone (buf_seterror EINVAL bp), asked s, m)
       else if strategy_len cfg lad img s (b_unit bp) = ucast (req_first bp) * 512 then (buf_biodone bp, asked s, m)
       else strategy_body cfg lad img bp count (asked s) m)"
proof -
  let ?len = "strategy_len cfg lad img s (b_unit bp)" and ?off = "ucast (req_first bp) * 512 :: u64"
  let ?count = "if ?off + ucast (b_count bp) > ?len then ucast (?len - ?off) else b_count bp"
  have guards: "\<not> ST_MEDIA_DISKS cfg \<le> b_unit bp"
    "\<not> (?len = 0 \<or> \<not> cf_emmc cfg \<and> st_medium_disk_base cfg img s (b_unit bp) = None)"
    "\<not> (\<not> b_is_read bp \<and> \<not> ((cf_hdd_write cfg \<or> cf_cow cfg) \<and> b_unit bp = ST_MEDIA_DRIVER))"
    using assms by (auto simp: disk_base_cases)
  have "st_media_strategy cfg lad img bp s m =
      (if ?len \<le> ?off then (if ?len < ?off then (buf_biodone (buf_seterror EINVAL bp), asked s, m) else (buf_biodone bp, asked s, m))
       else strategy_body cfg lad img bp ?count (asked s) m)"
  proof (cases "st_medium_disk_base cfg img s (b_unit bp)")
    case None
    then have "cf_emmc cfg \<and> (b_unit bp = ST_MEDIA_DRIVER \<or> ST_MEDIA_RAW_UNIT cfg (b_unit bp))"
      by (simp add: disk_base_cases)
    then show ?thesis
      using None guards(3) unfolding st_media_strategy_def Let_def strategy_len_refused disk_base_refused
        if_not_P [OF guards(1)] if_not_P [OF guards(2)] if_not_P [OF guards(3)]
      by (auto simp: strategy_body_def req_first_def req_off [unfolded req_first_def] split: option.splits)
  next
    case (Some disk)
    then have "\<not> (cf_emmc cfg \<and> (b_unit bp = ST_MEDIA_DRIVER \<or> ST_MEDIA_RAW_UNIT cfg (b_unit bp)))"
      using disk_base_cases by (metis option.distinct(1))
    note card = if_not_P [OF this]
    show ?thesis
      using Some unfolding st_media_strategy_def Let_def strategy_len_refused disk_base_refused
        if_not_P [OF guards(1)] if_not_P [OF guards(2)] if_not_P [OF guards(3)] card
      by (simp add: strategy_body_def req_first_def split: option.splits)
  qed
  then have "st_media_strategy cfg lad img bp s m =
      (if ?len < ?off then (buf_biodone (buf_seterror EINVAL bp), asked s, m)
       else if ?len = ?off then (buf_biodone bp, asked s, m)
       else strategy_body cfg lad img bp ?count (asked s) m)"
    by (cases "?len < ?off"; cases "?len = ?off") (simp_all add: le_less)
  moreover have "unat ?count = req_moved ?len bp \<or> ?len \<le> ?off"
    using req_count [of bp ?len] by (metis not_le)
  ultimately show ?thesis by (rule that [rotated])
qed

lemma strategy_body_outcome:
  assumes "strategy_body cfg lad img bp count s m = (bp', s', m')" and "b_error bp = None"
    and "b_is_read bp \<or> (cf_hdd_write cfg \<or> cf_cow cfg) \<and> b_unit bp = ST_MEDIA_DRIVER"
  shows "b_done bp' \<and> (m' = m \<or> cf_hdd_write cfg \<and> b_unit bp = ST_MEDIA_DRIVER \<and> \<not> b_is_read bp \<and> b_error bp' = None)
    \<and> (b_data bp = None \<and> b_error bp' = Some EFAULT
       \<or> b_data bp \<noteq> None \<and> (b_error bp' = None \<or> b_error bp' = Some ENOSPC \<or> b_error bp' = Some EIO))
    \<and> st_medium_write_refused s' = st_medium_write_refused s"
proof (cases "b_data bp")
  case None
  then show ?thesis using assms(1) by (auto simp: strategy_body_def buf_biodone_def buf_seterror_def)
next
  case (Some bs)
  show ?thesis
  proof (cases "st_medium_disk_base cfg img s (b_unit bp) = None \<and> (b_is_read bp \<or> cf_cow cfg)")
    case True
    then show ?thesis
      using assms(1,2) Some by (auto simp: strategy_body_def dest!: cow_write_outcome card_read_outcome split: if_splits)
  next
    case False
    then show ?thesis
      using assms Some
      by (auto simp: strategy_body_def buf_finish_def buf_biodone_def media_read_served_def split: option.splits if_splits)
  qed
qed

text \<open>What the shadow answers to a request of \<open>n\<close> blocks: \<open>None\<close> where it could not be set up, else
  the status its block loop ends with; and the requests it is asked about at all.\<close>

definition shadow_status :: "'m ladder \<Rightarrow> nat \<Rightarrow> dbuf \<Rightarrow> media_state \<Rightarrow> 'm \<Rightarrow> cow_status option" where
  "shadow_status lad n bp s m =
    (let s1 = st_cow_ensure_bound lad m s; rd = st_cow_base_read lad m; bs = the (b_data bp); first = ucast (req_first bp) in
     case st_cow_shadow s1 of
       None \<Rightarrow> None
     | Some c \<Rightarrow> if st_cow_bound s1 \<noteq> 1 then None
                 else Some (if b_is_read bp then fst (cow_read_loop rd first 0 n bs c) else fst (cow_write_loop rd first bs 0 n c)))"

definition shadow_asked :: "media_cfg \<Rightarrow> u64 \<Rightarrow> dbuf \<Rightarrow> bool" where
  "shadow_asked cfg len bp \<longleftrightarrow> cf_emmc cfg \<and> cf_cow cfg \<and> b_unit bp = ST_MEDIA_DRIVER \<and> b_data bp \<noteq> None
     \<and> ucast (req_first bp) * 512 < len \<and> (b_is_read bp \<longrightarrow> 512 \<le> req_moved len bp)"

lemma shadow_status_asked [simp]: "shadow_status lad n bp (asked s) m = shadow_status lad n bp s m"
proof -
  have "st_cow_shadow (st_cow_ensure_bound lad m (asked s)) = st_cow_shadow (st_cow_ensure_bound lad m s)"
    "st_cow_bound (st_cow_ensure_bound lad m (asked s)) = st_cow_bound (st_cow_ensure_bound lad m s)"
    by (auto simp: st_cow_ensure_bound_def split: prod.splits option.splits cow_status.splits)
  then show ?thesis by (simp add: shadow_status_def Let_def cong: option.case_cong)
qed

lemma cow_write_error:
  assumes "strategy_cow_write lad (ucast (req_first bp) * 512) count bs bp s m = (bp', s', m')"
    and "b_data bp = Some bs" and "b_error bp = None" and "\<not> b_is_read bp"
  shows "b_error bp' = (case shadow_status lad (unat count div 512) bp s m of None \<Rightarrow> Some EIO
    | Some st \<Rightarrow> if st = ST_COW_OK then None else if st = ST_COW_NO_SPACE then Some ENOSPC else Some EIO)"
  using assms by (auto simp: strategy_cow_write_def shadow_status_def Let_def req_off unat_div buf_finish_def buf_biodone_def
      buf_seterror_def split: prod.splits option.splits if_splits)

lemma card_read_error:
  assumes "strategy_card_read cfg lad unit (ucast (req_first bp) * 512) count bs bp s m = (bp', s', m')"
    and "b_data bp = Some bs" and "b_error bp = None" and "b_is_read bp"
  shows "b_error bp' = (if cf_cow cfg \<and> unit = ST_MEDIA_DRIVER \<and> 512 \<le> unat count then
      (case shadow_status lad (unat count div 512) bp s m of None \<Rightarrow> None
       | Some st \<Rightarrow> if st = ST_COW_OK then None else Some EIO) else None)"
proof -
  have "0 < unat count div 512 \<longleftrightarrow> 512 \<le> unat count" by (simp add: div_greater_zero_iff)
  with assms show ?thesis
    by (auto simp: strategy_card_read_def shadow_status_def Let_def req_off unat_div buf_finish_def buf_biodone_def
      buf_seterror_def media_read_served_def split: prod.splits option.splits if_splits)
qed

lemma strategy_body_error:
  assumes "strategy_body cfg lad img bp count (asked s) m = (bp', s', m')" and "b_error bp = None"
    and "b_is_read bp \<or> (cf_hdd_write cfg \<or> cf_cow cfg) \<and> b_unit bp = ST_MEDIA_DRIVER"
    and "b_data bp \<noteq> None" and "ucast (req_first bp) * 512 < len" and "unat count = req_moved len bp"
    and "b_unit bp < ST_MEDIA_DISKS cfg"
  defines "st \<equiv> shadow_status lad (req_moved len bp div 512) bp s m"
  shows "b_error bp' = Some ENOSPC \<longleftrightarrow> shadow_asked cfg len bp \<and> \<not> b_is_read bp \<and> st = Some ST_COW_NO_SPACE"
    and "b_error bp' = Some EIO \<longleftrightarrow> shadow_asked cfg len bp
      \<and> (if b_is_read bp then st \<notin> {None, Some ST_COW_OK} else st \<notin> {Some ST_COW_OK, Some ST_COW_NO_SPACE})"
proof -
  obtain bs where bs: "b_data bp = Some bs" using assms(4) by auto
  have base: "st_medium_disk_base cfg img (asked s) (b_unit bp) = None
      \<longleftrightarrow> cf_emmc cfg \<and> (b_unit bp = ST_MEDIA_DRIVER \<or> ST_MEDIA_RAW_UNIT cfg (b_unit bp))"
    by (simp add: disk_base_cases)
  have raw: "ST_MEDIA_RAW_UNIT cfg (b_unit bp) \<Longrightarrow> b_unit bp \<noteq> ST_MEDIA_DRIVER"
    by (simp add: ST_MEDIA_RAW_UNIT_def ST_MEDIA_CARD_RAW_def ST_MEDIA_DRIVER_def)
  have no_emmc: "b_unit bp = ST_MEDIA_DRIVER \<Longrightarrow> cf_emmc cfg"
    using assms(7) by (auto simp: ST_MEDIA_DISKS_def ST_MEDIA_DRIVER_def split: if_splits)
  have sa: "shadow_asked cfg len bp \<longleftrightarrow> cf_cow cfg \<and> b_unit bp = ST_MEDIA_DRIVER \<and> (b_is_read bp \<longrightarrow> 512 \<le> req_moved len bp)"
    using assms(4,5) no_emmc by (auto simp: shadow_asked_def)
  have "b_error bp' = (if \<not> shadow_asked cfg len bp then None
      else if b_is_read bp then (case st of None \<Rightarrow> None | Some st \<Rightarrow> if st = ST_COW_OK then None else Some EIO)
      else (case st of None \<Rightarrow> Some EIO
        | Some st \<Rightarrow> if st = ST_COW_OK then None else if st = ST_COW_NO_SPACE then Some ENOSPC else Some EIO))"
  proof (cases "st_medium_disk_base cfg img (asked s) (b_unit bp)")
    case (Some disk)
    then have "b_unit bp \<noteq> ST_MEDIA_DRIVER" using base no_emmc by auto
    then show ?thesis
      using Some assms(1,2) bs by (auto simp: strategy_body_def sa buf_finish_def buf_biodone_def)
  next
    case None
    note run = assms(1) [unfolded strategy_body_def bs option.case None]
    show ?thesis
    proof (cases "b_is_read bp")
      case True
      then have "strategy_card_read cfg lad (b_unit bp) (ucast (req_first bp) * 512) count bs bp (asked s) m = (bp', s', m')"
        using run by simp
      from card_read_error [OF this bs assms(2) True] show ?thesis
        using True assms(6) by (simp add: sa st_def)
    next
      case False
      then have drv: "b_unit bp = ST_MEDIA_DRIVER" using assms(3) by simp
      show ?thesis
      proof (cases "cf_cow cfg")
        case True
        then have "strategy_cow_write lad (ucast (req_first bp) * 512) count bs bp (asked s) m = (bp', s', m')"
          using run False by simp
        from cow_write_error [OF this bs assms(2) False] show ?thesis
          using True False drv assms(6) by (simp add: sa st_def)
      next
        case nocow: False
        then show ?thesis using run False assms(2) by (auto simp: sa buf_finish_def buf_biodone_def)
      qed
    qed
  qed
  then show "b_error bp' = Some ENOSPC \<longleftrightarrow> shadow_asked cfg len bp \<and> \<not> b_is_read bp \<and> st = Some ST_COW_NO_SPACE"
    and "b_error bp' = Some EIO \<longleftrightarrow> shadow_asked cfg len bp
      \<and> (if b_is_read bp then st \<notin> {None, Some ST_COW_OK} else st \<notin> {Some ST_COW_OK, Some ST_COW_NO_SPACE})"
    by (auto split: option.splits if_splits)
qed

lemma memory_read:
  assumes "st_medium_disk_base cfg img s (b_unit bp) = Some disk" and "b_unit bp < ST_MEDIA_DISKS cfg"
    and "b_is_read bp" and "b_data bp = Some bs"
    and "ucast (req_first bp) * 512 < strategy_len cfg lad img s (b_unit bp)"
  obtains count where "unat count = req_moved (strategy_len cfg lad img s (b_unit bp)) bp"
    and "st_media_strategy cfg lad img bp s m = (buf_finish count (bp\<lparr>b_data := Some (splice 0
      (slice (unat (req_first bp) * 512) (unat count) disk) bs)\<rparr>), media_read_served (asked s), m)"
proof -
  let ?len = "strategy_len cfg lad img s (b_unit bp)" and ?off = "ucast (req_first bp) * 512 :: u64"
  have len0: "?len \<noteq> 0" using assms(5) by auto
  have lt: "\<not> ?len < ?off" "?len \<noteq> ?off" using assms(5) by auto
  obtain count where c: "unat count = req_moved ?len bp \<or> ?len \<le> ?off"
    and r: "st_media_strategy cfg lad img bp s m = (if ?len < ?off then (buf_biodone (buf_seterror EINVAL bp), asked s, m)
       else if ?len = ?off then (buf_biodone bp, asked s, m) else strategy_body cfg lad img bp count (asked s) m)"
    by (rule strategy_served [OF assms(2) len0 disjI1 [OF assms(3)]])
  have count: "unat count = req_moved ?len bp" using c assms(5) not_le by blast
  have run: "st_media_strategy cfg lad img bp s m = strategy_body cfg lad img bp count (asked s) m"
    using r unfolding if_not_P [OF lt(1)] if_not_P [OF lt(2)] .
  have "\<not> (cf_emmc cfg \<and> (b_unit bp = ST_MEDIA_DRIVER \<or> ST_MEDIA_RAW_UNIT cfg (b_unit bp)))"
    using assms(1) disk_base_cases by (metis option.distinct(1))
  then have "?len = ucast (st_medium_disk_bytes cfg lad img s (b_unit bp))"
    by (auto simp: strategy_len_def)
  then have "unat ?len < 4294967296" by simp
  then have "unat ?off < 4294967296"
    using assms(5) unfolding word_less_nat_alt by (rule less_trans [rotated])
  then have "unat (ucast ?off :: u32) = unat (req_first bp) * 512"
    by (simp add: unat_ucast_u64_u32 req_off)
  then show ?thesis
    using that [OF count] run assms(1,4) by (simp add: strategy_body_def)
qed

lemma register_medium:
  "entry_root_media_register cfg img add mkdev d s = (dev, s') \<Longrightarrow> st_medium_virt s' = st_medium_virt s
    \<and> st_medium_refused s' = st_medium_refused s \<and> st_medium_served s' = st_medium_served s"
  by (auto simp: entry_root_media_register_def Let_def split: if_splits)

lemma register_card_medium [simp]:
  "st_medium_virt (snd (entry_root_media_register_card cfg lad img add mkdev s)) = st_medium_virt s"
  "st_medium_staged (snd (entry_root_media_register_card cfg lad img add mkdev s)) = st_medium_staged s"
  by (auto simp: entry_root_media_register_card_def entry_root_media_register_def Let_def split: if_splits prod.splits)

text \<open>The 128 words staged: those handed over, zeros after them.\<close>

definition staged_words :: "u32 \<Rightarrow> u32 list \<Rightarrow> u32 list" where
  "staged_words nwords ws = map (\<lambda>i. if i < min (unat nwords) 128 then ws ! i else 0) [0..<ST_MEDIA_SECTOR_WORDS]"

lemma stage_medium:
  assumes "entry_root_media_stage cfg lad img add1 add2 mkdev sector pages words nwords s = (0, s')"
  obtains ws where "words = Some ws" and "nwords \<noteq> 0" and "st_medium_staged s' \<noteq> 0"
    and "st_medium_virt s' = staged_words nwords ws"
proof (cases words)
  case None
  then show ?thesis using assms by (simp add: entry_root_media_stage_def)
next
  case (Some ws)
  have n: "(if nwords > 128 then 128 else unat nwords) = min (unat nwords) 128"
    by (simp add: word_less_nat_alt min_def)
  have "st_medium_staged s' \<noteq> 0 \<and> nwords \<noteq> 0
    \<and> st_medium_virt s' = staged_words nwords ws"
    using assms Some
    unfolding entry_root_media_stage_def Let_def n option.case staged_words_def
    by (auto split: prod.splits if_splits dest!: register_medium)
  then show ?thesis using that Some by blast
qed

end
