(* ===== verification/Root_Media_Props.thy ===== *)
theory Root_Media_Props
  imports Root_Media_Proofs
begin

text \<open>
  The properties of the root-media driver: reads and writes of the card unit against the disk it
  shows, the outcome of every request, the staged sector and the registered geometry.
\<close>

unbundle bit_operations_syntax

subsection \<open>A small instance\<close>

definition demo_cfg :: "bool \<Rightarrow> media_cfg" where
  "demo_cfg cow = \<lparr>cf_emmc = True, cf_card_total = False, cf_full_extent = False, cf_cow = cow,
     cf_hdd_write = False, cf_hfs = False\<rparr>"

definition demo_ladder :: "unit ladder" where
  "demo_ladder = \<lparr>drv_read = (\<lambda>m lba. replicate 512 (ucast lba)), drv_write = (\<lambda>lba bs m. m),
     selected_lba = 100, selected_count = 4, card_sectors = 1000\<rparr>"

definition demo_images :: media_images where
  "demo_images = \<lparr>im_ramdisk = replicate 512 1, im_root_hfs = [], im_ramdisk_va = 0, im_medium_va = 0\<rparr>"

definition demo_media :: media_state where
  "demo_media = \<lparr>st_media_major = [0, 0, 0, 0], st_media_blocksize = [0, 0, 0, 0], st_media_blockcount = [0, 0, 0, 0],
     st_media_flags = [0, 0, 0, 0], st_medium_virt = [], st_medium_sector = 0, st_medium_pages = 0,
     st_medium_staged = 0, st_medium_served = 0, st_medium_refused = 0, st_medium_write_refused = 0,
     st_medium_write_served = 0, st_cow_shadow = None, st_cow_bound = 0, st_cow_write_refused = 0\<rparr>"

definition demo_buf :: "u32 \<Rightarrow> u64 \<Rightarrow> bool \<Rightarrow> dbuf" where
  "demo_buf unit blkno rd = \<lparr>b_unit = unit, b_blkno = blkno, b_count = 512, b_is_read = rd,
     b_data = Some (replicate 512 7), b_error = None, b_resid = 0, b_done = False\<rparr>"

lemmas demo_media_simps = demo_cfg_def demo_ladder_def demo_images_def demo_media_def demo_buf_def
  strategy_len_def st_medium_disk_bytes_def ST_MEDIA_DISKS_def ST_MEDIA_DRIVER_def req_first_def
  ST_MEDIA_RAW_UNIT_def

lemma demo_request: "driver_request (demo_cfg cow) demo_ladder demo_images demo_media (demo_buf 2 1 rd) (replicate 512 7)"
  by (simp add: driver_request_def demo_media_simps)

lemma demo_good: "root_good (demo_cfg cow) demo_ladder () demo_media"
  by (simp add: root_good_def ladder_ok_def demo_media_simps)

lemma demo_moved: "driver_moved (demo_cfg cow) demo_ladder demo_images demo_media (demo_buf 2 1 rd) = 512"
  by (simp add: driver_moved_def req_moved_def demo_media_simps)

lemma demo_zero: "st_medium_refused demo_media = 0" "st_cow_bound demo_media = 0"
  by (simp_all add: demo_media_def)

lemma demo_stage:
  "entry_root_media_stage (demo_cfg False) demo_ladder demo_images 14 15 (\<lambda>ma mi. ma * 16777216 + mi) 9 1 (Some [5]) 1 demo_media
    = (0, snd (entry_root_media_stage (demo_cfg False) demo_ladder demo_images 14 15 (\<lambda>ma mi. ma * 16777216 + mi) 9 1 (Some [5]) 1 demo_media))"
  by (simp add: entry_root_media_stage_def entry_root_media_register_def Let_def demo_media_simps)

subsection \<open>Properties\<close>

text \<open>C9. A read of the card unit returns exactly the blocks of the disk that unit shows -
  the medium under the shadow's writes when the shadow is compiled in, the medium itself otherwise -
  cut off at the unit's end; the residue counts the bytes past the end, the medium and the disk
  shown are unchanged and the request is counted as served.  A byte count that is not a whole number
  of blocks moves only the whole blocks, while the residue says every byte was moved.\<close>

theorem root_unit_read_exact:
  assumes "driver_request cfg lad img s bp bs" and "b_is_read bp" and "root_good cfg lad m s"
    and "st_media_strategy cfg lad img bp s m = (bp', s', m')"
  shows "b_data bp' = Some (splice 0 (driver_blocks (root_view lad m s) bp (driver_moved cfg lad img s bp div 512)) bs)
    \<and> b_error bp' = b_error bp \<and> b_done bp' \<and> unat (b_resid bp') = unat (b_count bp) - driver_moved cfg lad img s bp
    \<and> m' = m \<and> root_good cfg lad m s' \<and> root_view lad m s' = root_view lad m s
    \<and> st_medium_served s' = st_medium_served s + 1 \<and> st_medium_refused s' = st_medium_refused s"
proof -
  let ?s = "s\<lparr>st_medium_refused := st_medium_refused s + 1\<rparr>" and ?off = "ucast (req_first bp) * 512 :: u64"
  let ?n = "driver_moved cfg lad img s bp div 512"
  have lad: "ladder_ok lad m" using assms(3) by (simp add: root_good_def)
  note B = driver_moved_bounds [OF assms(1)]
  obtain count where count: "unat count = driver_moved cfg lad img s bp"
    and run: "strategy_card_read cfg lad ST_MEDIA_DRIVER ?off count bs bp ?s m = (bp', s', m')"
    using strategy_driver [OF assms(1), where m = m] assms(2,4) by metis
  have nblk: "unat (count div 512) = ?n" using count by (simp add: unat_div_distrib)
  have resid: "unat (b_count bp - count) = unat (b_count bp) - driver_moved cfg lad img s bp"
    using resid_moved B(1) count by metis
  show ?thesis
  proof (cases "cf_cow cfg \<and> 0 < ?n")
    case True
    obtain c where c: "st_cow_ensure_bound lad m ?s = ?s\<lparr>st_cow_bound := 1, st_cow_shadow := Some c\<rparr>"
        "cow_good (st_cow_base_read lad m) c" "cow_sectors c = ucast (selected_count lad)"
        "cow_view (st_cow_base_read lad m) c = root_view lad m ?s"
      using ensure_bound_spec [of cfg lad m ?s] assms(3) by auto
    have "cow_read_loop (st_cow_base_read lad m) (ucast (req_first bp)) 0 ?n bs c
      = (ST_COW_OK, splice 0 (driver_blocks (root_view lad m s) bp ?n) bs, c)"
      using cow_read_loop_spec [OF c(2), of "ucast (req_first bp)" 0 ?n bs] B c(3,4)
      by (simp add: base_read_ok driver_blocks_def)
    then have "bp' = buf_finish count (bp\<lparr>b_data := Some (splice 0 (driver_blocks (root_view lad m s) bp ?n) bs)\<rparr>)"
      "s' = media_read_served (?s\<lparr>st_cow_bound := 1, st_cow_shadow := Some c\<rparr>)" "m' = m"
      using run True nblk c(1) by (auto simp: strategy_card_read_def req_off)
    then show ?thesis
      using c(2,3,4) lad True resid
      by (simp add: buf_finish_def buf_biodone_def media_read_served_def root_good_def root_view_def fun_eq_iff)
  next
    case False
    have view: "root_view lad m s = (\<lambda>t. snd (st_cow_base_read lad m t))" if "\<not> cf_cow cfg"
      using assms(3) that by (simp add: root_good_def root_view_def fun_eq_iff)
    have "card_read_loop lad m (selected_lba lad) (ucast (req_first bp)) 0 ?n bs
      = splice 0 (driver_blocks (root_view lad m s) bp ?n) bs"
    proof (cases "?n = 0")
      case True
      then show ?thesis by (simp add: driver_blocks_def splice_Nil)
    next
      case n: False
      then show ?thesis
        using card_read_loop_spec [of lad m 0 ?n bs "selected_lba lad" "ucast (req_first bp)"] B(3) lad view False
        by (simp add: ladder_ok_def driver_blocks_def card_lba_base)
    qed
    then have "bp' = buf_finish count (bp\<lparr>b_data := Some (splice 0 (driver_blocks (root_view lad m s) bp ?n) bs)\<rparr>)"
      "s' = media_read_served ?s" "m' = m"
      using run False nblk by (auto simp add: strategy_card_read_def req_off Let_def)
    then show ?thesis
      using assms(3) resid
      by (simp add: buf_finish_def buf_biodone_def media_read_served_def root_good_def root_view_def fun_eq_iff)
  qed
qed

theorem root_unit_read_exact_witness:
  "b_data (fst (st_media_strategy (demo_cfg True) demo_ladder demo_images (demo_buf 2 1 True) demo_media ()))
    = Some (replicate 512 101)"
proof -
  obtain bp' s' m' where r: "st_media_strategy (demo_cfg True) demo_ladder demo_images (demo_buf 2 1 True) demo_media () = (bp', s', m')"
    by (metis prod_cases3)
  have "b_is_read (demo_buf 2 1 True)" by (simp add: demo_buf_def)
  from root_unit_read_exact [OF demo_request this demo_good r]
  have "b_data bp' = Some (splice 0 (driver_blocks (root_view demo_ladder () demo_media) (demo_buf 2 1 True) 1) (replicate 512 7))"
    by (simp add: demo_moved)
  also have "driver_blocks (root_view demo_ladder () demo_media) (demo_buf 2 1 True) 1 = replicate 512 101"
    by (simp add: driver_blocks_def root_view_def demo_zero st_cow_base_read_def demo_ladder_def req_first_def demo_buf_def)
  finally show ?thesis by (simp add: r splice_def)
qed

text \<open>C7. A write to the card unit under the shadow never changes the medium.  It puts the
  request's blocks, in order, on the disk the unit shows and touches no other sector; either all of
  them, without error, or a proper prefix of them, with \<open>ENOSPC\<close>.  Served or not, it leaves the
  refusal counter one higher: only the read paths take their count back.\<close>

theorem root_unit_write_exact:
  assumes "driver_request cfg lad img s bp bs" and "\<not> b_is_read bp" and "cf_cow cfg" and "root_good cfg lad m s"
    and "st_media_strategy cfg lad img bp s m = (bp', s', m')"
  shows "m' = m \<and> root_good cfg lad m s' \<and> b_done bp' \<and> st_medium_refused s' = st_medium_refused s + 1
    \<and> (\<exists>k \<le> driver_moved cfg lad img s bp div 512.
         (\<forall>t < ucast (selected_count lad). root_view lad m s' t
            = put_blocks (unat (req_first bp)) bs 0 k (root_view lad m s) t)
       \<and> (k = driver_moved cfg lad img s bp div 512 \<and> b_error bp' = b_error bp
            \<and> unat (b_resid bp') = unat (b_count bp) - driver_moved cfg lad img s bp
            \<and> st_medium_write_served s' = st_medium_write_served s + 1
          \<or> k < driver_moved cfg lad img s bp div 512 \<and> b_error bp' = Some ENOSPC
            \<and> st_cow_write_refused s' = st_cow_write_refused s + 1))"
proof -
  let ?s = "s\<lparr>st_medium_refused := st_medium_refused s + 1\<rparr>" and ?off = "ucast (req_first bp) * 512 :: u64"
  let ?n = "driver_moved cfg lad img s bp div 512" and ?rd = "st_cow_base_read lad m"
  have lad: "ladder_ok lad m" using assms(4) by (simp add: root_good_def)
  note B = driver_moved_bounds [OF assms(1)]
  obtain count where count: "unat count = driver_moved cfg lad img s bp"
    and run: "strategy_cow_write lad ?off count bs bp ?s m = (bp', s', m')"
    using strategy_driver [OF assms(1), where m = m] assms(2,3,5) by metis
  have nblk: "unat (count div 512) = ?n" using count by (simp add: unat_div_distrib)
  have resid: "unat (b_count bp - count) = unat (b_count bp) - driver_moved cfg lad img s bp"
    using resid_moved B(1) count by metis
  obtain c where c: "st_cow_ensure_bound lad m ?s = ?s\<lparr>st_cow_bound := 1, st_cow_shadow := Some c\<rparr>"
      "cow_good ?rd c" "cow_sectors c = ucast (selected_count lad)" "cow_view ?rd c = root_view lad m ?s"
    using ensure_bound_spec [of cfg lad m ?s] assms(4) by auto
  obtain st c' where w: "cow_write_loop ?rd (ucast (req_first bp)) bs 0 ?n c = (st, c')" by fastforce
  obtain k where k: "cow_good ?rd c'" "cow_sectors c' = cow_sectors c" "k \<le> ?n"
      "\<forall>t < cow_sectors c. cow_view ?rd c' t = put_blocks (unat (req_first bp)) bs 0 k (cow_view ?rd c) t"
      "st = ST_COW_OK \<and> k = ?n \<or> st = ST_COW_NO_SPACE \<and> k < ?n"
    using cow_write_loop_spec [OF c(2) _ _ _ w] B(2,3) c(3) by (auto simp: base_read_ok)
  have s': "st_cow_bound s' = 1" "st_cow_shadow s' = Some c'" "m' = m"
    "st_medium_refused s' = st_medium_refused s + 1" "b_done bp'"
    using run c(1) w k(5) nblk
    by (auto simp: strategy_cow_write_def req_off Let_def buf_finish_def buf_biodone_def buf_seterror_def split: if_splits)
  have "root_good cfg lad m s'" and view: "root_view lad m s' = cow_view ?rd c'"
    using s' k(1,2) c(3) lad assms(3) by (simp_all add: root_good_def root_view_def fun_eq_iff)
  moreover have "st = ST_COW_OK \<and> b_error bp' = b_error bp \<and> b_resid bp' = b_count bp - count
        \<and> st_medium_write_served s' = st_medium_write_served s + 1
    \<or> st = ST_COW_NO_SPACE \<and> b_error bp' = Some ENOSPC \<and> st_cow_write_refused s' = st_cow_write_refused s + 1"
    using run c(1) w k(5) nblk
    by (auto simp: strategy_cow_write_def req_off Let_def buf_finish_def buf_biodone_def buf_seterror_def split: if_splits)
  ultimately show ?thesis
    using k(3,4,5) c(3,4) s'(3,4,5) resid by (intro conjI exI [of _ k]) auto
qed

theorem root_unit_write_exact_witness:
  "st_medium_refused (fst (snd (st_media_strategy (demo_cfg True) demo_ladder demo_images (demo_buf 2 1 False) demo_media ()))) = 1"
proof -
  obtain bp' s' m' where r: "st_media_strategy (demo_cfg True) demo_ladder demo_images (demo_buf 2 1 False) demo_media () = (bp', s', m')"
    by (metis prod_cases3)
  have "\<not> b_is_read (demo_buf 2 1 False)" "cf_cow (demo_cfg True)" by (simp_all add: demo_buf_def demo_cfg_def)
  from root_unit_write_exact [OF demo_request this demo_good r] show ?thesis
    by (simp add: r demo_zero)
qed

text \<open>C29. Every request is completed, and its error says why it was refused: \<open>ENXIO\<close> exactly for
  a unit the driver does not have or whose medium is empty, \<open>EROFS\<close> exactly for a write to a unit whose
  \<open>DKIOCISWRITABLE\<close> answer is 0, \<open>EINVAL\<close> exactly past the end, \<open>EFAULT\<close> exactly when the buffer
  cannot be mapped.  A request that reaches the shadow of the card unit fails with \<open>ENOSPC\<close> exactly
  when it is a write and the shadow's block loop ends with \<open>ST_COW_NO_SPACE\<close>, and with \<open>EIO\<close> exactly
  when a write finds no shadow set up, or its loop ends with another error, or a read's loop ends
  with any error; no request fails with another errno.  No request but an accepted write of the write-through build changes the medium.\<close>

theorem strategy_outcomes:
  assumes "st_media_strategy cfg lad img bp s m = (bp', s', m')" and "b_error bp = None"
  shows "b_done bp' \<and> (m' = m \<or> cf_hdd_write cfg \<and> b_unit bp = ST_MEDIA_DRIVER \<and> \<not> b_is_read bp \<and> b_error bp' = None)
    \<and> (b_error bp' = Some ENXIO \<longleftrightarrow> ST_MEDIA_DISKS cfg \<le> b_unit bp \<or> strategy_len cfg lad img s (b_unit bp) = 0)
    \<and> (b_error bp' = Some EROFS \<longleftrightarrow> b_error bp' \<noteq> Some ENXIO \<and> \<not> b_is_read bp
         \<and> st_media_ioctl cfg img s (b_unit bp) DKIOCISWRITABLE = (None, Ioc_U32 0))
    \<and> (b_error bp' = Some EINVAL \<longleftrightarrow> b_error bp' \<noteq> Some ENXIO \<and> b_error bp' \<noteq> Some EROFS
         \<and> strategy_len cfg lad img s (b_unit bp) < ucast (req_first bp) * 512)
    \<and> (b_error bp' = Some EFAULT \<longleftrightarrow> b_error bp' \<noteq> Some ENXIO \<and> b_error bp' \<noteq> Some EROFS
         \<and> ucast (req_first bp) * 512 < strategy_len cfg lad img s (b_unit bp) \<and> b_data bp = None)
    \<and> (b_error bp' = Some ENOSPC \<longleftrightarrow> shadow_asked cfg (strategy_len cfg lad img s (b_unit bp)) bp \<and> \<not> b_is_read bp
         \<and> shadow_status lad (req_moved (strategy_len cfg lad img s (b_unit bp)) bp div 512) bp s m = Some ST_COW_NO_SPACE)
    \<and> (b_error bp' = Some EIO \<longleftrightarrow> shadow_asked cfg (strategy_len cfg lad img s (b_unit bp)) bp
         \<and> (if b_is_read bp
            then shadow_status lad (req_moved (strategy_len cfg lad img s (b_unit bp)) bp div 512) bp s m \<notin> {None, Some ST_COW_OK}
            else shadow_status lad (req_moved (strategy_len cfg lad img s (b_unit bp)) bp div 512) bp s m
              \<notin> {Some ST_COW_OK, Some ST_COW_NO_SPACE}))
    \<and> b_error bp' \<noteq> Some ENOTTY
    \<and> st_medium_write_refused s' = st_medium_write_refused s + (if b_error bp' = Some EROFS then 1 else 0)"
proof -
  let ?len = "strategy_len cfg lad img s (b_unit bp)" and ?off = "ucast (req_first bp) * 512 :: u64"
  let ?s = "s\<lparr>st_medium_refused := st_medium_refused s + 1\<rparr>"
  have writable: "st_media_ioctl cfg img s (b_unit bp) DKIOCISWRITABLE = (None, Ioc_U32 0)
      \<longleftrightarrow> b_unit bp < ST_MEDIA_DISKS cfg \<and> \<not> ((cf_hdd_write cfg \<or> cf_cow cfg) \<and> b_unit bp = ST_MEDIA_DRIVER)"
    by (auto simp: st_media_ioctl_def Let_def)
  have sa: "shadow_asked cfg ?len bp \<Longrightarrow> b_unit bp < ST_MEDIA_DISKS cfg \<and> ?len \<noteq> 0 \<and> \<not> ?len \<le> ?off \<and> cf_cow cfg \<and> b_unit bp = ST_MEDIA_DRIVER"
    by (auto simp: shadow_asked_def ST_MEDIA_DISKS_def ST_MEDIA_DRIVER_def not_le)
  consider (enxio) "ST_MEDIA_DISKS cfg \<le> b_unit bp \<or> ?len = 0"
    | (erofs) "b_unit bp < ST_MEDIA_DISKS cfg" "?len \<noteq> 0" "\<not> b_is_read bp"
        "\<not> ((cf_hdd_write cfg \<or> cf_cow cfg) \<and> b_unit bp = ST_MEDIA_DRIVER)"
    | (served) "b_unit bp < ST_MEDIA_DISKS cfg" "?len \<noteq> 0"
        "b_is_read bp \<or> (cf_hdd_write cfg \<or> cf_cow cfg) \<and> b_unit bp = ST_MEDIA_DRIVER"
    by (metis not_le)
  then show ?thesis
  proof cases
    case enxio
    then show ?thesis
      using strategy_enxio [OF enxio, of m] assms(1) sa by (auto simp: buf_biodone_def buf_seterror_def)
  next
    case erofs
    then show ?thesis
      using strategy_erofs [OF erofs, of m] assms(1) writable sa
      by (auto simp: buf_biodone_def buf_seterror_def not_le)
  next
    case served
    obtain count where c: "unat count = req_moved ?len bp \<or> ?len \<le> ?off" and run: "st_media_strategy cfg lad img bp s m =
      (if ?len < ?off then (buf_biodone (buf_seterror EINVAL bp), asked s, m)
       else if ?len = ?off then (buf_biodone bp, asked s, m)
       else strategy_body cfg lad img bp count (asked s) m)"
      using strategy_served [OF served] by metis
    have no: "\<not> (ST_MEDIA_DISKS cfg \<le> b_unit bp \<or> ?len = 0)"
      "\<not> (\<not> b_is_read bp \<and> st_media_ioctl cfg img s (b_unit bp) DKIOCISWRITABLE = (None, Ioc_U32 0))"
      using served writable by (auto simp: not_le)
    show ?thesis
    proof (cases "?len \<le> ?off")
      case True
      then show ?thesis
        using run assms no sa by (auto simp: buf_biodone_def buf_seterror_def not_less split: if_splits)
    next
      case False
      then have body: "strategy_body cfg lad img bp count (asked s) m = (bp', s', m')"
        using run assms(1) unfolding le_less by auto
      note O = strategy_body_outcome [OF body assms(2) served(3)]
      show ?thesis
      proof (cases "b_data bp = None")
        case True
        then have "\<not> shadow_asked cfg ?len bp" by (simp add: shadow_asked_def)
        then show ?thesis using O True False no by (auto simp: not_le less_imp_not_less)
      next
        case bs: False
        have "?off < ?len" "unat count = req_moved ?len bp" using False c by (auto simp: not_le)
        note E = strategy_body_error [OF body assms(2) served(3) bs this served(1)]
        show ?thesis unfolding E(1) [symmetric] E(2) [symmetric]
          using O bs False no by (auto simp: not_le less_imp_not_less)
      qed
    qed
  qed
qed

theorem strategy_outcomes_witness:
  "b_error (fst (st_media_strategy (demo_cfg False) demo_ladder demo_images (demo_buf 2 1 False) demo_media ())) = Some EROFS"
proof -
  obtain bp' s' m' where r: "st_media_strategy (demo_cfg False) demo_ladder demo_images (demo_buf 2 1 False) demo_media () = (bp', s', m')"
    by (metis prod_cases3)
  have "b_error (demo_buf 2 1 False) = None" by (simp add: demo_buf_def)
  from strategy_outcomes [OF r this] have "b_error bp' = Some EROFS"
    by (auto simp: st_media_ioctl_def demo_media_simps)
  then show ?thesis by (simp add: r)
qed

text \<open>A sector handed over by \<open>entry_root_media_stage\<close> is the sector unit 1 serves: a read
  of its first block returns the staged words as little-endian bytes, zeros where fewer than 128 were
  handed over, and no byte past the sector.\<close>

theorem staged_sector_served:
  assumes "entry_root_media_stage cfg lad img add1 add2 mkdev sector pages words nwords s0 = (0, s)"
    and "b_unit bp = 1" and "b_is_read bp" and "req_first bp = 0" and "b_data bp = Some bs"
    and "st_media_strategy cfg lad img bp s m = (bp', s', m')"
  shows "\<exists>ws. words = Some ws
    \<and> b_data bp' = Some (splice 0 (take (min (unat (b_count bp)) 512)
        (concat (map le32 (staged_words nwords ws)))) bs)
    \<and> unat (b_resid bp') = unat (b_count bp) - 512 \<and> b_error bp' = b_error bp \<and> b_done bp' \<and> m' = m"
proof -
  obtain ws where ws: "words = Some ws" "st_medium_staged s \<noteq> 0"
    and virt: "st_medium_virt s = staged_words nwords ws"
    using stage_medium [OF assms(1)] by metis
  have u: "b_unit bp < ST_MEDIA_DISKS cfg" "b_unit bp \<noteq> ST_MEDIA_DRIVER" "\<not> ST_MEDIA_RAW_UNIT cfg (b_unit bp)"
    using assms(2) by (simp_all add: ST_MEDIA_DISKS_def ST_MEDIA_DRIVER_def ST_MEDIA_RAW_UNIT_def ST_MEDIA_CARD_RAW_def)
  let ?disk = "concat (map le32 (staged_words nwords ws))"
  have base: "st_medium_disk_base cfg img s (b_unit bp) = Some ?disk"
    using u assms(2) ws virt by (simp add: st_medium_disk_base_def)
  have len: "strategy_len cfg lad img s (b_unit bp) = 512"
    using u assms(2) ws by (auto simp: strategy_len_def st_medium_disk_bytes_def not_le [symmetric])
  have off: "ucast (req_first bp) * 512 < strategy_len cfg lad img s (b_unit bp)"
    using len assms(4) by simp
  obtain count where "unat count = req_moved 512 bp"
    "st_media_strategy cfg lad img bp s m = (buf_finish count (bp\<lparr>b_data := Some (splice 0
      (slice (unat (req_first bp) * 512) (unat count) ?disk) bs)\<rparr>), media_read_served (asked s), m)"
    using memory_read [OF base u(1) assms(3,5) off, of m] len by metis
  moreover from this have "unat count = min (unat (b_count bp)) 512" by (simp add: req_moved_def assms(4))
  moreover from this have "unat (b_count bp - count) = unat (b_count bp) - 512"
    by (simp add: resid_moved)
  ultimately show ?thesis
    using assms(4,6) ws(1) by (auto simp: buf_finish_def buf_biodone_def slice_def)
qed

theorem staged_sector_served_witness:
  "slice 0 4 (the (b_data (fst (st_media_strategy (demo_cfg False) demo_ladder demo_images (demo_buf 1 0 True)
    (snd (entry_root_media_stage (demo_cfg False) demo_ladder demo_images 14 15 (\<lambda>ma mi. ma * 16777216 + mi) 9 1 (Some [5]) 1 demo_media))
    ())))) = [5, 0, 0, 0]"
proof -
  let ?s = "snd (entry_root_media_stage (demo_cfg False) demo_ladder demo_images 14 15 (\<lambda>ma mi. ma * 16777216 + mi) 9 1 (Some [5]) 1 demo_media)"
  obtain bp' s' m' where r: "st_media_strategy (demo_cfg False) demo_ladder demo_images (demo_buf 1 0 True) ?s () = (bp', s', m')"
    by (metis prod_cases3)
  have "b_unit (demo_buf 1 0 True) = 1" "b_is_read (demo_buf 1 0 True)" "req_first (demo_buf 1 0 True) = 0"
    "b_data (demo_buf 1 0 True) = Some (replicate 512 7)"
    by (simp_all add: demo_buf_def req_first_def)
  note S = staged_sector_served [OF demo_stage this r]
  have "staged_words 1 [5] = 5 # map (\<lambda>i. 0) [1..<ST_MEDIA_SECTOR_WORDS]"
    by (simp add: staged_words_def ST_MEDIA_SECTOR_WORDS_def upt_conv_Cons)
  then have "slice 0 4 (splice 0 (take 512 (concat (map le32 (staged_words 1 [5])))) (replicate 512 7)) = le32 5"
    by (simp add: slice_def splice_def le32_def)
  moreover have "le32 5 = [5, 0, 0, 0]" by (simp add: le32_def)
  ultimately show ?thesis using S r by (auto simp: demo_buf_def)
qed

text \<open>Once the card unit is registered its ioctls name the selected partition in blocks of
  512 bytes, and the length the strategy enforces is the product of the two exactly when the
  full-extent switch is on or the partition is shorter than 4 GiB.\<close>

theorem card_geometry_agrees:
  assumes "entry_root_media_register_card cfg lad img add mkdev s = (dev, s')"
    and "cf_emmc cfg" and "st_media_major s ! 2 = 0" and "0 \<le> dev" and "dev \<noteq> 22"
    and "2 < length (st_media_blocksize s)" and "2 < length (st_media_blockcount s)"
  shows "st_media_ioctl cfg img s' ST_MEDIA_DRIVER DKIOCGETBLOCKSIZE = (None, Ioc_U32 512)
    \<and> st_media_ioctl cfg img s' ST_MEDIA_DRIVER DKIOCGETBLOCKCOUNT = (None, Ioc_U64 (ucast (selected_count lad)))
    \<and> (strategy_len cfg lad img s' ST_MEDIA_DRIVER = ucast (selected_count lad) * 512
        \<longleftrightarrow> cf_full_extent cfg \<or> unat (selected_count lad) < 8388608)"
proof -
  have u: "\<not> ST_MEDIA_DISKS cfg \<le> ST_MEDIA_DRIVER" "\<not> ST_MEDIA_RAW_UNIT cfg ST_MEDIA_DRIVER"
    using assms(2) by (simp_all add: ST_MEDIA_DISKS_def ST_MEDIA_DRIVER_def ST_MEDIA_RAW_UNIT_def ST_MEDIA_CARD_RAW_def)
  have "st_media_blocksize s' ! 2 = 512 \<and> st_media_blockcount s' ! 2 = selected_count lad"
    using assms by (auto simp: entry_root_media_register_card_def entry_root_media_register_def Let_def
        split: prod.splits if_splits)
  moreover have "unat ST_MEDIA_DRIVER = 2" by (simp add: ST_MEDIA_DRIVER_def)
  moreover have "unat (ucast (selected_count lad) * 512 :: u64) = unat (selected_count lad) * 512"
  proof -
    have "unat (selected_count lad) < 4294967296" by simp
    then have "unat (selected_count lad) * 512 < 18446744073709551616" by linarith
    then show ?thesis by (simp add: unat_word_ariths)
  qed
  then have "(ucast (ucast (ucast (selected_count lad) * 512 :: u64) :: u32) = (ucast (selected_count lad) * 512 :: u64))
      \<longleftrightarrow> unat (selected_count lad) < 8388608"
    by (auto simp: word_unat_eq_iff unat_ucast_u64_u32)
  ultimately show ?thesis
    using u assms(2) by (auto simp: st_media_ioctl_def Let_def strategy_len_def st_medium_disk_bytes_def
        st_medium_card_full_bytes_def)
qed

theorem card_geometry_agrees_witness:
  "strategy_len (demo_cfg False) demo_ladder demo_images
    (snd (entry_root_media_register_card (demo_cfg False) demo_ladder demo_images 15 (\<lambda>ma mi. ma * 16777216 + mi) demo_media))
    ST_MEDIA_DRIVER = 2048"
proof -
  obtain dev s' where r: "entry_root_media_register_card (demo_cfg False) demo_ladder demo_images 15
      (\<lambda>ma mi. ma * 16777216 + mi) demo_media = (dev, s')" by fastforce
  have "dev = 15 * 16777216 + 2"
    using r by (auto simp: entry_root_media_register_card_def entry_root_media_register_def Let_def demo_media_simps)
  then show ?thesis
    using card_geometry_agrees [OF r] r by (simp add: demo_cfg_def demo_ladder_def demo_media_def)
qed

end
