(* ===== verification/Storage_Door.thy ===== *)
theory Storage_Door
  imports Root_Media "HOL-Library.State_Monad"
begin

text \<open>
  The card's read and write doors of src/src/entry/entry_storage.c, at the ladder's top rung: one
  command with its bounded waits, the reset of the data lines, a single-block read and write by
  programmed I/O.  The controller is the record \<open>sd_world\<close> of register accesses over a device of
  type \<open>'d\<close>; the counter is read through \<open>sd_ticks\<close>, \<open>sd_pet\<close> is the watchdog call of the resident
  build.  A register read that only feeds the live log is kept, since it reaches the device.  A
  wait that nothing but the counter bounds takes fuel and is \<open>None\<close> when that runs out.
\<close>

unbundle bit_operations_syntax

type_synonym u16 = "16 word"

subsection \<open>Registers\<close>

record 'd sd_world =
  sd_read32 :: "u32 \<Rightarrow> 'd \<Rightarrow> u32 \<times> 'd"
  sd_read16 :: "u32 \<Rightarrow> 'd \<Rightarrow> u16 \<times> 'd"
  sd_read8 :: "u32 \<Rightarrow> 'd \<Rightarrow> u8 \<times> 'd"
  sd_write32 :: "u32 \<Rightarrow> u32 \<Rightarrow> 'd \<Rightarrow> 'd"
  sd_write16 :: "u32 \<Rightarrow> u16 \<Rightarrow> 'd \<Rightarrow> 'd"
  sd_write8 :: "u32 \<Rightarrow> u8 \<Rightarrow> 'd \<Rightarrow> 'd"
  sd_ticks :: "'d \<Rightarrow> u32 \<times> 'd"
  sd_pet :: "u32 \<Rightarrow> 'd \<Rightarrow> 'd"

definition ST_HC_MEM_BASE :: u32 where "ST_HC_MEM_BASE = 0xf9824900"
definition ST_SDHCI_PRESENT_STATE :: u32 where "ST_SDHCI_PRESENT_STATE = 0x24"
definition ST_SDHCI_HOST_CONTROL :: u32 where "ST_SDHCI_HOST_CONTROL = 0x28"
definition ST_SDHCI_TIMEOUT_CONTROL :: u32 where "ST_SDHCI_TIMEOUT_CONTROL = 0x2e"
definition ST_SDHCI_SOFTWARE_RESET :: u32 where "ST_SDHCI_SOFTWARE_RESET = 0x2f"
definition ST_SDHCI_ARGUMENT :: u32 where "ST_SDHCI_ARGUMENT = 0x08"
definition ST_SDHCI_COMMAND :: u32 where "ST_SDHCI_COMMAND = 0x0e"
definition ST_SDHCI_RESPONSE :: u32 where "ST_SDHCI_RESPONSE = 0x10"
definition ST_SDHCI_INT_STATUS :: u32 where "ST_SDHCI_INT_STATUS = 0x30"
definition ST_SDHCI_INT_ENABLE :: u32 where "ST_SDHCI_INT_ENABLE = 0x34"
definition ST_SDHCI_SIGNAL_ENABLE :: u32 where "ST_SDHCI_SIGNAL_ENABLE = 0x38"
definition ST_SDHCI_BLOCK_SIZE :: u32 where "ST_SDHCI_BLOCK_SIZE = 0x04"
definition ST_SDHCI_BLOCK_COUNT :: u32 where "ST_SDHCI_BLOCK_COUNT = 0x06"
definition ST_SDHCI_TRANSFER_MODE :: u32 where "ST_SDHCI_TRANSFER_MODE = 0x0c"
definition ST_SDHCI_BUFFER :: u32 where "ST_SDHCI_BUFFER = 0x20"

definition ST_SDHCI_CMD_INHIBIT :: u32 where "ST_SDHCI_CMD_INHIBIT = 0x1"
definition ST_SDHCI_DATA_INHIBIT :: u32 where "ST_SDHCI_DATA_INHIBIT = 0x2"
definition ST_SDHCI_DAT_LINE_ACTIVE :: u32 where "ST_SDHCI_DAT_LINE_ACTIVE = 0x4"
definition ST_SDHCI_DOING_WRITE :: u32 where "ST_SDHCI_DOING_WRITE = 0x100"
definition ST_SDHCI_SPACE_AVAILABLE :: u32 where "ST_SDHCI_SPACE_AVAILABLE = 0x400"
definition ST_SDHCI_DATA_AVAILABLE :: u32 where "ST_SDHCI_DATA_AVAILABLE = 0x800"
definition ST_SDHCI_CMD_LINE_LEVEL :: u32 where "ST_SDHCI_CMD_LINE_LEVEL = 0x1000000"
definition ST_SDHCI_RESET_DATA :: u8 where "ST_SDHCI_RESET_DATA = 0x4"
definition ST_SDHCI_INT_RESPONSE :: u32 where "ST_SDHCI_INT_RESPONSE = 0x1"
definition ST_SDHCI_INT_CMD_MASK :: u32 where "ST_SDHCI_INT_CMD_MASK = 0x010f0001"
definition ST_SDHCI_INT_CMD_ERR :: u32 where "ST_SDHCI_INT_CMD_ERR = 0x010f0000"
definition ST_SDHCI_INT_ENABLE_CMD :: u32 where "ST_SDHCI_INT_ENABLE_CMD = 0x000f0001"
definition ST_SDHCI_INT_PIO_IRQS :: u32 where "ST_SDHCI_INT_PIO_IRQS = 0x30"
definition ST_SDHCI_INT_DMA_END :: u32 where "ST_SDHCI_INT_DMA_END = 0x8"
definition ST_SDHCI_INT_ADMA_ERROR :: u32 where "ST_SDHCI_INT_ADMA_ERROR = 0x02000000"
definition ST_SDHCI_BLOCK_SIZE_512 :: u16 where "ST_SDHCI_BLOCK_SIZE_512 = 0x7200"
definition ST_SDHCI_TRNS_READ_1BLK :: u16 where "ST_SDHCI_TRNS_READ_1BLK = 0x12"
definition ST_SDHCI_TRNS_WRITE_1BLK :: u16 where "ST_SDHCI_TRNS_WRITE_1BLK = 0x02"

definition ST_MMC_RSP_PRESENT :: u32 where "ST_MMC_RSP_PRESENT = 0x1"
definition ST_MMC_RSP_136 :: u32 where "ST_MMC_RSP_136 = 0x2"
definition ST_MMC_RSP_CRC :: u32 where "ST_MMC_RSP_CRC = 0x4"
definition ST_MMC_RSP_BUSY :: u32 where "ST_MMC_RSP_BUSY = 0x8"
definition ST_MMC_RSP_OPCODE :: u32 where "ST_MMC_RSP_OPCODE = 0x10"
definition ST_MMC_CMD_ADTC :: u32 where "ST_MMC_CMD_ADTC = 0x20"
definition ST_MMC_RSP_R1_ADTC :: u32 where
  "ST_MMC_RSP_R1_ADTC = 0x80 OR (ST_MMC_RSP_PRESENT OR ST_MMC_RSP_CRC OR ST_MMC_RSP_OPCODE) OR ST_MMC_CMD_ADTC"
definition ST_SDHCI_CMD_DATA :: u32 where "ST_SDHCI_CMD_DATA = 0x20"
definition ST_CMD_OP_READ_SINGLE_BLOCK :: u32 where "ST_CMD_OP_READ_SINGLE_BLOCK = 17"
definition ST_CMD_OP_WRITE_BLOCK :: u32 where "ST_CMD_OP_WRITE_BLOCK = 24"

definition ST_CMD_INHIBIT_TICK_BUDGET :: u32 where "ST_CMD_INHIBIT_TICK_BUDGET = 192000"
definition ST_CMD_INHIBIT_INNER :: nat where "ST_CMD_INHIBIT_INNER = 256"
definition ST_CMD_DONE_TICK_BUDGET :: u32 where "ST_CMD_DONE_TICK_BUDGET = 23040000"
definition ST_CMD_DONE_INNER :: nat where "ST_CMD_DONE_INNER = 1024"
definition ST_EXT_DATA_TICK_BUDGET :: u32 where "ST_EXT_DATA_TICK_BUDGET = 24000000"
definition ST_EXT_DATA_INNER :: nat where "ST_EXT_DATA_INNER = 256"
definition ST_RESET_DATA_TICK_BUDGET :: u32 where "ST_RESET_DATA_TICK_BUDGET = 1920000"
definition ST_CMD_INHIBIT_SAMPLES :: u32 where "ST_CMD_INHIBIT_SAMPLES = 1024"
definition ST_EXT_CSD_WORDS :: nat where "ST_EXT_CSD_WORDS = 128"

definition ST_SDHCI_CMD_FLAGS :: "u32 \<Rightarrow> u32" where
  "ST_SDHCI_CMD_FLAGS fl =
    (if fl AND ST_MMC_RSP_PRESENT = 0 then 0
     else (if fl AND ST_MMC_RSP_136 \<noteq> 0 then 0x01 else if fl AND ST_MMC_RSP_BUSY \<noteq> 0 then 0x03 else 0x02)
       OR (if fl AND ST_MMC_RSP_CRC \<noteq> 0 then 0x08 else 0)
       OR (if fl AND ST_MMC_RSP_OPCODE \<noteq> 0 then 0x10 else 0))"

definition ST_SDHCI_CMD_WORD :: "u32 \<Rightarrow> u32 \<Rightarrow> u32" where
  "ST_SDHCI_CMD_WORD op fl = push_bit 8 (op AND 0xff) OR (ST_SDHCI_CMD_FLAGS fl AND 0xff)"

definition hc_read32 :: "'d sd_world \<Rightarrow> u32 \<Rightarrow> ('d, u32) state" where
  "hc_read32 k r = State (sd_read32 k (ST_HC_MEM_BASE + r))"

definition hc_read16 :: "'d sd_world \<Rightarrow> u32 \<Rightarrow> ('d, u16) state" where
  "hc_read16 k r = State (sd_read16 k (ST_HC_MEM_BASE + r))"

definition hc_read8 :: "'d sd_world \<Rightarrow> u32 \<Rightarrow> ('d, u8) state" where
  "hc_read8 k r = State (sd_read8 k (ST_HC_MEM_BASE + r))"

definition hc_write32 :: "'d sd_world \<Rightarrow> u32 \<Rightarrow> u32 \<Rightarrow> ('d, unit) state" where
  "hc_write32 k r v = State (\<lambda>d. ((), sd_write32 k (ST_HC_MEM_BASE + r) v d))"

definition hc_write16 :: "'d sd_world \<Rightarrow> u32 \<Rightarrow> u16 \<Rightarrow> ('d, unit) state" where
  "hc_write16 k r v = State (\<lambda>d. ((), sd_write16 k (ST_HC_MEM_BASE + r) v d))"

definition hc_write8 :: "'d sd_world \<Rightarrow> u32 \<Rightarrow> u8 \<Rightarrow> ('d, unit) state" where
  "hc_write8 k r v = State (\<lambda>d. ((), sd_write8 k (ST_HC_MEM_BASE + r) v d))"

definition cntvct :: "'d sd_world \<Rightarrow> ('d, u32) state" where
  "cntvct k = State (sd_ticks k)"

subsection \<open>One command\<close>

record st_cmd_result =
  r_ps_before :: u32
  r_inhibit_before :: u32
  r_inhibit_mask :: u32
  r_inhibit_dat_before :: u32
  r_inhibit_polls :: u32
  r_inhibit_ticks :: u32
  r_inhibit_timeout :: u32
  r_stale :: u32
  r_clear_wrote :: u32
  r_clear_after :: u32
  r_arg_wrote :: u32
  r_word_wrote :: u32
  r_sent :: u32
  r_polls :: u32
  r_ticks :: u32
  r_status_after :: u32
  r_complete :: u32
  r_err :: u32
  r_timed_out :: u32
  r_ps_after :: u32
  r_rsp_present :: u32
  r_resp :: u32
  r_word_read :: u32
  r_inhibit_after :: u32
  r_inhibit_seen :: u32
  r_inhibit_last :: u32
  r_cmdlow_seen :: u32
  r_status_any :: u32
  r_status_any_polls :: u32
  r_resp_read :: u32

text \<open>What the routine clears first; the other fields are not set until they are known.\<close>

definition cmd_clear :: "st_cmd_result \<Rightarrow> st_cmd_result" where
  "cmd_clear r = r\<lparr>r_polls := 0, r_sent := 0, r_timed_out := 0, r_rsp_present := 0, r_resp := 0, r_inhibit_mask := 0,
     r_inhibit_dat_before := 0, r_arg_wrote := 0, r_word_wrote := 0, r_complete := 0, r_err := 0, r_clear_wrote := 0,
     r_clear_after := 0, r_word_read := 0, r_inhibit_after := 0, r_inhibit_seen := 0, r_inhibit_last := 0,
     r_cmdlow_seen := 0, r_status_any := 0, r_status_any_polls := 0, r_resp_read := 0\<rparr>"

text \<open>The wait for the inhibit bits: batches of polls, the counter sampled after each.\<close>

fun inhibit_batch :: "'d sd_world \<Rightarrow> u32 \<Rightarrow> nat \<Rightarrow> u32 \<Rightarrow> ('d, bool \<times> u32) state" where
  "inhibit_batch k msk 0 polls = State_Monad.return (False, polls)"
| "inhibit_batch k msk (Suc n) polls = do {
     ps \<leftarrow> hc_read32 k ST_SDHCI_PRESENT_STATE;
     if ps AND msk = 0 then State_Monad.return (True, polls + 1) else inhibit_batch k msk n (polls + 1) }"

fun inhibit_wait :: "'d sd_world \<Rightarrow> u32 \<Rightarrow> u32 \<Rightarrow> nat \<Rightarrow> u32 \<Rightarrow> ('d, bool \<times> u32) state" where
  "inhibit_wait k msk t0 0 polls = State_Monad.return (False, polls)"
| "inhibit_wait k msk t0 (Suc n) polls = do {
     (cleared, polls') \<leftarrow> inhibit_batch k msk ST_CMD_INHIBIT_INNER polls;
     if cleared then State_Monad.return (True, polls')
     else do { t \<leftarrow> cntvct k;
       if t - t0 \<ge> ST_CMD_INHIBIT_TICK_BUDGET then State_Monad.return (False, polls')
       else inhibit_wait k msk t0 n polls' } }"

text \<open>The wait for the command's interrupt bits, sampling the command line on the way.\<close>

fun done_batch :: "'d sd_world \<Rightarrow> nat \<Rightarrow> st_cmd_result \<Rightarrow> ('d, bool \<times> st_cmd_result) state" where
  "done_batch k 0 r = State_Monad.return (False, r)"
| "done_batch k (Suc n) r = do {
     status \<leftarrow> hc_read32 k ST_SDHCI_INT_STATUS;
     let r1 = r\<lparr>r_polls := r_polls r + 1, r_status_after := status\<rparr>;
     let r2 = (if status \<noteq> 0 \<and> r_status_any r1 = 0
               then r1\<lparr>r_status_any := status, r_status_any_polls := r_polls r1\<rparr> else r1);
     r3 \<leftarrow> (if r_polls r2 \<le> ST_CMD_INHIBIT_SAMPLES then do {
              last \<leftarrow> hc_read32 k ST_SDHCI_PRESENT_STATE;
              State_Monad.return (r2\<lparr>r_inhibit_last := last,
                r_inhibit_seen := (if last AND ST_SDHCI_CMD_INHIBIT \<noteq> 0 then r_inhibit_seen r2 + 1 else r_inhibit_seen r2),
                r_cmdlow_seen := (if last AND ST_SDHCI_CMD_LINE_LEVEL = 0 then r_cmdlow_seen r2 + 1 else r_cmdlow_seen r2)\<rparr>) }
            else State_Monad.return r2);
     if status AND ST_SDHCI_INT_CMD_MASK \<noteq> 0 then State_Monad.return (True, r3) else done_batch k n r3 }"

fun done_wait :: "'d sd_world \<Rightarrow> u32 \<Rightarrow> nat \<Rightarrow> st_cmd_result \<Rightarrow> ('d, st_cmd_result) state" where
  "done_wait k t0 0 r = State_Monad.return r"
| "done_wait k t0 (Suc n) r = do {
     (over, r') \<leftarrow> done_batch k ST_CMD_DONE_INNER r;
     if over then State_Monad.return r'
     else do { t \<leftarrow> cntvct k;
       if t - t0 \<ge> ST_CMD_DONE_TICK_BUDGET then State_Monad.return (r'\<lparr>r_timed_out := 1\<rparr>)
       else done_wait k t0 n r' } }"

text \<open>From the argument register on.\<close>

definition send_issue :: "'d sd_world \<Rightarrow> u32 \<Rightarrow> u32 \<Rightarrow> u32 \<Rightarrow> st_cmd_result \<Rightarrow> ('d, st_cmd_result) state" where
  "send_issue k opcode arg mmc_flags r = do {
     hc_write32 k ST_SDHCI_ARGUMENT arg;
     let word = ST_SDHCI_CMD_WORD opcode mmc_flags OR (if mmc_flags AND ST_MMC_CMD_ADTC \<noteq> 0 then ST_SDHCI_CMD_DATA else 0);
     hc_write16 k ST_SDHCI_COMMAND (ucast word);
     word_read \<leftarrow> hc_read16 k ST_SDHCI_COMMAND;
     ps \<leftarrow> hc_read32 k ST_SDHCI_PRESENT_STATE;
     t0 \<leftarrow> cntvct k;
     r1 \<leftarrow> done_wait k t0 (unat ST_CMD_DONE_TICK_BUDGET div ST_CMD_DONE_INNER)
       (r\<lparr>r_arg_wrote := arg, r_word_wrote := word, r_sent := 1, r_word_read := ucast word_read,
          r_inhibit_after := ps AND ST_SDHCI_CMD_INHIBIT, r_status_after := 0\<rparr>);
     t \<leftarrow> cntvct k;
     resp \<leftarrow> hc_read32 k ST_SDHCI_RESPONSE;
     ps_after \<leftarrow> hc_read32 k ST_SDHCI_PRESENT_STATE;
     State_Monad.return (r1\<lparr>r_ticks := t - t0,
       r_complete := (if r_status_after r1 AND ST_SDHCI_INT_RESPONSE \<noteq> 0 then 1 else 0),
       r_err := r_status_after r1 AND ST_SDHCI_INT_CMD_ERR,
       r_rsp_present := (if mmc_flags AND ST_MMC_RSP_PRESENT \<noteq> 0 then 1 else 0),
       r_resp := resp, r_resp_read := 1, r_ps_after := ps_after\<rparr>) }"

definition st_send_command :: "'d sd_world \<Rightarrow> u32 \<Rightarrow> u32 \<Rightarrow> u32 \<Rightarrow> st_cmd_result \<Rightarrow> ('d, st_cmd_result) state" where
  "st_send_command k opcode arg mmc_flags r = do {
     ps \<leftarrow> hc_read32 k ST_SDHCI_PRESENT_STATE;
     let msk = ST_SDHCI_CMD_INHIBIT OR (if mmc_flags AND ST_MMC_CMD_ADTC \<noteq> 0 then ST_SDHCI_DATA_INHIBIT else 0);
     t0 \<leftarrow> cntvct k;
     (cleared, polls) \<leftarrow> inhibit_wait k msk t0 (unat ST_CMD_INHIBIT_TICK_BUDGET div ST_CMD_INHIBIT_INNER) 0;
     t \<leftarrow> cntvct k;
     let r1 = (cmd_clear r)\<lparr>r_ps_before := ps, r_inhibit_before := ps AND ST_SDHCI_CMD_INHIBIT,
                r_inhibit_dat_before := ps AND ST_SDHCI_DATA_INHIBIT, r_inhibit_mask := msk,
                r_inhibit_polls := polls, r_inhibit_ticks := t - t0, r_inhibit_timeout := (if cleared then 0 else 1)\<rparr>;
     if \<not> cleared then do {
       ps_after \<leftarrow> hc_read32 k ST_SDHCI_PRESENT_STATE;
       State_Monad.return (r1\<lparr>r_ps_after := ps_after\<rparr>) }
     else do {
       stale \<leftarrow> hc_read32 k ST_SDHCI_INT_STATUS;
       hc_write32 k ST_SDHCI_INT_STATUS stale;
       clear_after \<leftarrow> hc_read32 k ST_SDHCI_INT_STATUS;
       let r2 = r1\<lparr>r_stale := stale, r_clear_wrote := stale, r_clear_after := clear_after\<rparr>;
       if clear_after AND ST_SDHCI_INT_CMD_MASK \<noteq> 0 then do {
         ps_after \<leftarrow> hc_read32 k ST_SDHCI_PRESENT_STATE;
         State_Monad.return (r2\<lparr>r_ps_after := ps_after\<rparr>) }
       else send_issue k opcode arg mmc_flags r2 } }"

subsection \<open>The state\<close>

text \<open>The file's statics at the top rung, beside the device.\<close>

record 'd sd_state =
  st_dev :: 'd
  st_read_block :: "u32 list"
  st_write_block :: "u32 list"
  st_csd_words :: "u32 list"
  st_csd_words_valid :: u32
  st_ext_sec_count :: u32
  st_read_lba :: u32
  st_read_count :: u32
  st_driver_lba :: u32
  st_driver_lba_set :: u32
  st_driver_get :: u32
  st_mbr_sector :: u32
  st_gpt_nentries :: u32
  st_gpt_entry_size :: u32
  st_gpt_entry_lba :: u32
  st_gpt_part_sector :: u32
  st_gpt_data_sector :: u32
  st_gpt_scan_sector :: u32
  st_gpt_best_extent :: u32
  st_gpt_data_type :: "u32 list"
  st_gpt_data_name :: "u32 list"
  st_gpt_array_nsec :: u32

definition ST_GPT_HEADER_SECTOR :: u32 where "ST_GPT_HEADER_SECTOR = 1"
definition ST_FS_SB_SECTOR_OFF :: u32 where "ST_FS_SB_SECTOR_OFF = 2"

definition st_sector_for_read :: "'d sd_state \<Rightarrow> u32 \<Rightarrow> u32" where
  "st_sector_for_read s ordinal =
    (if ordinal \<ge> 1 then
       (if ordinal \<le> st_gpt_array_nsec s then st_gpt_entry_lba s + (ordinal - 1)
        else st_gpt_data_sector s + ST_FS_SB_SECTOR_OFF)
     else ST_GPT_HEADER_SECTOR)"

subsection \<open>The reset of the data lines\<close>

fun reset_wait :: "'d sd_world \<Rightarrow> u32 \<Rightarrow> nat \<Rightarrow> 'd \<Rightarrow> 'd option" where
  "reset_wait k t0 0 d = None"
| "reset_wait k t0 (Suc fuel) d =
    (let (held, d1) = run_state (hc_read8 k ST_SDHCI_SOFTWARE_RESET) d in
     if held AND ST_SDHCI_RESET_DATA = 0 then Some d1
     else let (t, d2) = run_state (cntvct k) d1 in
          if t - t0 \<ge> ST_RESET_DATA_TICK_BUDGET then Some d2 else reset_wait k t0 fuel d2)"

definition reset_begin :: "'d sd_world \<Rightarrow> ('d, u32) state" where
  "reset_begin k = do {
     _ \<leftarrow> hc_read8 k ST_SDHCI_SOFTWARE_RESET;
     _ \<leftarrow> hc_read32 k ST_SDHCI_PRESENT_STATE;
     hc_write8 k ST_SDHCI_SOFTWARE_RESET ST_SDHCI_RESET_DATA;
     cntvct k }"

definition reset_end :: "'d sd_world \<Rightarrow> ('d, unit) state" where
  "reset_end k = do {
     _ \<leftarrow> cntvct k;
     _ \<leftarrow> hc_read32 k ST_SDHCI_PRESENT_STATE;
     _ \<leftarrow> hc_read32 k ST_SDHCI_INT_STATUS;
     _ \<leftarrow> hc_read32 k ST_SDHCI_INT_ENABLE;
     State_Monad.return () }"

definition st_data_reset :: "'d sd_world \<Rightarrow> nat \<Rightarrow> 'd sd_state \<Rightarrow> 'd sd_state option" where
  "st_data_reset k fuel s =
    (let (t0, d1) = run_state (reset_begin k) (st_dev s) in
     case reset_wait k t0 fuel d1 of
       None \<Rightarrow> None
     | Some d2 \<Rightarrow> Some (s\<lparr>st_dev := snd (run_state (reset_end k) d2)\<rparr>))"

subsection \<open>A block by programmed I/O\<close>

text \<open>A read for the live log of a block read: made for the first 64 reads only.\<close>

definition rd_live :: "bool \<Rightarrow> ('d, 'a) state \<Rightarrow> ('d, unit) state" where
  "rd_live full m = (if full then do { _ \<leftarrow> m; State_Monad.return () } else State_Monad.return ())"

definition st_tacc_exp :: "u32 list" where
  "st_tacc_exp = [1, 10, 100, 1000, 10000, 100000, 1000000, 10000000]"

definition st_tacc_mant :: "u32 list" where
  "st_tacc_mant = [0, 10, 12, 13, 15, 20, 25, 30, 35, 40, 45, 50, 55, 60, 70, 80]"

fun tout_loop :: "nat \<Rightarrow> u32 \<Rightarrow> u32 \<Rightarrow> u32 \<Rightarrow> u32" where
  "tout_loop 0 count step0 target = count"
| "tout_loop (Suc n) count step0 target =
    (if step0 < target then tout_loop n (count + 1) (push_bit 1 step0) target else count)"

definition tout_count :: "'d sd_state \<Rightarrow> u32" where
  "tout_count s =
    (let w = st_csd_words s ! 0;
         m = drop_bit 16 w AND 0xf; e = drop_bit 8 w AND 0x7;
         tacc = (if st_csd_words_valid s \<noteq> 0 then (st_tacc_exp ! unat e * st_tacc_mant ! unat m + 9) div 10 else 0);
         clks = (if st_csd_words_valid s \<noteq> 0 then (drop_bit 8 w AND 0xff) * 100 else 0);
         target = (tacc * 10 + clks + 999) div 1000
     in tout_loop 15 0 (8192000 div (400000 div 4000)) target)"

text \<open>The wait for \<open>bit\<close> of \<open>PRESENT_STATE\<close>; \<open>True\<close> when the budget ran out.\<close>

fun data_wait :: "'d sd_world \<Rightarrow> u32 \<Rightarrow> u32 \<Rightarrow> nat \<Rightarrow> nat \<Rightarrow> 'd \<Rightarrow> (bool \<times> 'd) option" where
  "data_wait k ready t0 0 steps d = None"
| "data_wait k ready t0 (Suc fuel) steps d =
    (let (ps, d1) = run_state (hc_read32 k ST_SDHCI_PRESENT_STATE) d in
     if ps AND ready \<noteq> 0 then Some (False, d1)
     else if Suc steps \<ge> ST_EXT_DATA_INNER then
       (let (t, d2) = run_state (cntvct k) d1 in
        if t - t0 \<ge> ST_EXT_DATA_TICK_BUDGET then Some (True, d2) else data_wait k ready t0 fuel 0 d2)
     else data_wait k ready t0 fuel (Suc steps) d1)"

fun read_words :: "'d sd_world \<Rightarrow> u32 \<Rightarrow> nat \<Rightarrow> nat \<Rightarrow> nat \<Rightarrow> u32 list \<Rightarrow> 'd \<Rightarrow> (u32 list \<times> 'd) option" where
  "read_words k t0 fuel i 0 blk d = Some (blk, d)"
| "read_words k t0 fuel i (Suc n) blk d =
    (case data_wait k ST_SDHCI_DATA_AVAILABLE t0 fuel 0 d of
       None \<Rightarrow> None
     | Some (True, d1) \<Rightarrow> Some (blk, d1)
     | Some (False, d1) \<Rightarrow>
         (let (v, d2) = run_state (hc_read32 k ST_SDHCI_BUFFER) d1 in read_words k t0 fuel (Suc i) n (blk[i := v]) d2))"

fun write_words :: "'d sd_world \<Rightarrow> u32 \<Rightarrow> nat \<Rightarrow> u32 list \<Rightarrow> 'd \<Rightarrow> 'd option" where
  "write_words k t0 fuel [] d = Some d"
| "write_words k t0 fuel (w # ws) d =
    (case data_wait k ST_SDHCI_SPACE_AVAILABLE t0 fuel 0 d of
       None \<Rightarrow> None
     | Some (True, d1) \<Rightarrow> Some d1
     | Some (False, d1) \<Rightarrow> write_words k t0 fuel ws (snd (run_state (hc_write32 k ST_SDHCI_BUFFER w) d1)))"

text \<open>The registers set up before the command; the answer is the old timeout.\<close>

definition read_setup :: "'d sd_world \<Rightarrow> bool \<Rightarrow> u32 \<Rightarrow> u32 \<Rightarrow> ('d, u8) state" where
  "read_setup k full int_enable count = do {
     rd_live full (hc_read8 k ST_SDHCI_HOST_CONTROL);
     hc_write32 k ST_SDHCI_INT_ENABLE ((int_enable OR ST_SDHCI_INT_PIO_IRQS OR ST_SDHCI_INT_ENABLE_CMD)
       AND NOT (ST_SDHCI_INT_DMA_END OR ST_SDHCI_INT_ADMA_ERROR));
     rd_live full (hc_read32 k ST_SDHCI_INT_ENABLE);
     rd_live full (hc_read32 k ST_SDHCI_SIGNAL_ENABLE);
     was \<leftarrow> hc_read8 k ST_SDHCI_TIMEOUT_CONTROL;
     hc_write8 k ST_SDHCI_TIMEOUT_CONTROL (ucast count);
     rd_live full (hc_read8 k ST_SDHCI_TIMEOUT_CONTROL);
     hc_write16 k ST_SDHCI_BLOCK_SIZE ST_SDHCI_BLOCK_SIZE_512;
     rd_live full (hc_read16 k ST_SDHCI_BLOCK_SIZE);
     hc_write16 k ST_SDHCI_BLOCK_COUNT 1;
     rd_live full (hc_read16 k ST_SDHCI_BLOCK_COUNT);
     hc_write16 k ST_SDHCI_TRANSFER_MODE ST_SDHCI_TRNS_READ_1BLK;
     rd_live full (hc_read16 k ST_SDHCI_TRANSFER_MODE);
     State_Monad.return was }"

definition read_restore :: "'d sd_world \<Rightarrow> bool \<Rightarrow> u32 \<Rightarrow> u8 \<Rightarrow> ('d, unit) state" where
  "read_restore k full int_enable was = do {
     rd_live full (cntvct k);
     _ \<leftarrow> hc_read32 k ST_SDHCI_INT_STATUS;
     hc_write32 k ST_SDHCI_INT_ENABLE int_enable;
     rd_live full (hc_read32 k ST_SDHCI_PRESENT_STATE);
     hc_write8 k ST_SDHCI_TIMEOUT_CONTROL was;
     rd_live full (hc_read8 k ST_SDHCI_TIMEOUT_CONTROL);
     rd_live full (hc_read32 k ST_SDHCI_INT_ENABLE) }"

text \<open>The card must be in the transfer state (4) by the last response, or nothing is done.\<close>

definition card_state :: "u32 \<Rightarrow> u32" where
  "card_state resp = drop_bit 9 (resp AND 0x1e00)"

definition cmd_zero :: st_cmd_result where
  "cmd_zero = \<lparr>r_ps_before = 0, r_inhibit_before = 0, r_inhibit_mask = 0, r_inhibit_dat_before = 0, r_inhibit_polls = 0,
     r_inhibit_ticks = 0, r_inhibit_timeout = 0, r_stale = 0, r_clear_wrote = 0, r_clear_after = 0, r_arg_wrote = 0,
     r_word_wrote = 0, r_sent = 0, r_polls = 0, r_ticks = 0, r_status_after = 0, r_complete = 0, r_err = 0,
     r_timed_out = 0, r_ps_after = 0, r_rsp_present = 0, r_resp = 0, r_word_read = 0, r_inhibit_after = 0,
     r_inhibit_seen = 0, r_inhibit_last = 0, r_cmdlow_seen = 0, r_status_any = 0, r_status_any_polls = 0, r_resp_read = 0\<rparr>"

text \<open>The command's result is only logged: what the buffer holds afterwards depends on the data wait alone.\<close>

definition st_read_single_block :: "'d sd_world \<Rightarrow> nat \<Rightarrow> u32 \<Rightarrow> 'd sd_state \<Rightarrow> 'd sd_state option" where
  "st_read_single_block k fuel int_enable s =
    (let full = st_read_count s < 64;
         (pre, d1) = run_state (hc_read32 k ST_SDHCI_RESPONSE) (st_dev s)
     in if card_state pre \<noteq> 4 then Some (s\<lparr>st_dev := d1\<rparr>)
        else
          (let (was, d2) = run_state (read_setup k full int_enable (tout_count s)) d1;
               lba = (if st_driver_lba_set s \<noteq> 0 then st_driver_lba s else st_sector_for_read s (st_read_count s));
               (c17, d3) = run_state (st_send_command k ST_CMD_OP_READ_SINGLE_BLOCK lba ST_MMC_RSP_R1_ADTC cmd_zero) d2;
               (t0, d4) = run_state (cntvct k) d3
           in case read_words k t0 fuel 0 ST_EXT_CSD_WORDS (st_read_block s) d4 of
                None \<Rightarrow> None
              | Some (blk, d5) \<Rightarrow>
                  Some (s\<lparr>st_dev := snd (run_state (read_restore k full int_enable was) d5), st_read_block := blk,
                          st_read_lba := lba, st_driver_get := st_driver_lba_set s, st_driver_lba_set := 0,
                          st_read_count := st_read_count s + 1\<rparr>)))"

definition entry_storage_driver_read :: "'d sd_world \<Rightarrow> nat \<Rightarrow> u32 \<Rightarrow> 'd sd_state \<Rightarrow> (u32 list \<times> 'd sd_state) option" where
  "entry_storage_driver_read k fuel lba s =
    (let s1 = s\<lparr>st_dev := sd_pet k (st_read_count s) (st_dev s), st_driver_lba := lba, st_driver_lba_set := 1\<rparr> in
     case st_data_reset k fuel s1 of None \<Rightarrow> None | Some s2 \<Rightarrow>
     (case st_read_single_block k fuel 1 s2 of None \<Rightarrow> None | Some s3 \<Rightarrow>
      Some (st_read_block s3, s3\<lparr>st_driver_lba_set := 0\<rparr>)))"

subsection \<open>The write door\<close>

fun prog_wait :: "'d sd_world \<Rightarrow> u32 \<Rightarrow> nat \<Rightarrow> 'd \<Rightarrow> 'd option" where
  "prog_wait k t0 0 d = None"
| "prog_wait k t0 (Suc fuel) d =
    (let (ps, d1) = run_state (hc_read32 k ST_SDHCI_PRESENT_STATE) d in
     if ps AND (ST_SDHCI_DOING_WRITE OR ST_SDHCI_DAT_LINE_ACTIVE) = 0 then Some d1
     else let (t, d2) = run_state (cntvct k) d1 in
          if t - t0 \<ge> ST_EXT_DATA_TICK_BUDGET then Some d2 else prog_wait k t0 fuel d2)"

definition write_setup :: "'d sd_world \<Rightarrow> u32 \<Rightarrow> ('d, u8) state" where
  "write_setup k count = do {
     hc_write32 k ST_SDHCI_INT_ENABLE ((ST_SDHCI_INT_PIO_IRQS OR ST_SDHCI_INT_ENABLE_CMD)
       AND NOT (ST_SDHCI_INT_DMA_END OR ST_SDHCI_INT_ADMA_ERROR));
     _ \<leftarrow> hc_read32 k ST_SDHCI_INT_ENABLE;
     was \<leftarrow> hc_read8 k ST_SDHCI_TIMEOUT_CONTROL;
     hc_write8 k ST_SDHCI_TIMEOUT_CONTROL (ucast count);
     _ \<leftarrow> hc_read8 k ST_SDHCI_TIMEOUT_CONTROL;
     hc_write16 k ST_SDHCI_BLOCK_SIZE ST_SDHCI_BLOCK_SIZE_512;
     hc_write16 k ST_SDHCI_BLOCK_COUNT 1;
     _ \<leftarrow> hc_read16 k ST_SDHCI_BLOCK_COUNT;
     hc_write16 k ST_SDHCI_TRANSFER_MODE ST_SDHCI_TRNS_WRITE_1BLK;
     _ \<leftarrow> hc_read16 k ST_SDHCI_TRANSFER_MODE;
     State_Monad.return was }"

definition write_restore :: "'d sd_world \<Rightarrow> u8 \<Rightarrow> ('d, unit) state" where
  "write_restore k was = do {
     _ \<leftarrow> cntvct k;
     _ \<leftarrow> hc_read32 k ST_SDHCI_INT_STATUS;
     hc_write32 k ST_SDHCI_INT_ENABLE 0;
     hc_write8 k ST_SDHCI_TIMEOUT_CONTROL was }"

definition st_write_single_block :: "'d sd_world \<Rightarrow> nat \<Rightarrow> u32 \<Rightarrow> 'd sd_state \<Rightarrow> 'd sd_state option" where
  "st_write_single_block k fuel lba s =
    (let (pre, d1) = run_state (hc_read32 k ST_SDHCI_RESPONSE) (st_dev s) in
     if card_state pre \<noteq> 4 then Some (s\<lparr>st_dev := d1\<rparr>)
     else
       (let (was, d2) = run_state (write_setup k (tout_count s)) d1;
            (c24, d3) = run_state (st_send_command k ST_CMD_OP_WRITE_BLOCK lba ST_MMC_RSP_R1_ADTC cmd_zero) d2;
            (t0, d4) = run_state (cntvct k) d3
        in case write_words k t0 fuel (st_write_block s) d4 of None \<Rightarrow> None | Some d5 \<Rightarrow>
           (let (tp, d6) = run_state (do { _ \<leftarrow> hc_read32 k ST_SDHCI_INT_STATUS; cntvct k }) d5
            in case prog_wait k tp fuel d6 of None \<Rightarrow> None | Some d7 \<Rightarrow>
               Some (s\<lparr>st_dev := snd (run_state (write_restore k was) d7)\<rparr>))))"

definition entry_storage_driver_write :: "'d sd_world \<Rightarrow> nat \<Rightarrow> u32 \<Rightarrow> u32 list \<Rightarrow> 'd sd_state \<Rightarrow> (u32 list \<times> 'd sd_state) option" where
  "entry_storage_driver_write k fuel lba w s =
    (case st_data_reset k fuel (s\<lparr>st_write_block := map (\<lambda>i. w ! i) [0..<ST_EXT_CSD_WORDS]\<rparr>) of None \<Rightarrow> None | Some s1 \<Rightarrow>
     (case st_write_single_block k fuel lba s1 of None \<Rightarrow> None | Some s2 \<Rightarrow> Some (st_write_block s2, s2)))"

end
