(* ===== verification/Storage_Select.thy ===== *)
theory Storage_Select
  imports Storage_Door
begin

text \<open>
  The partition selection of src/src/entry/entry_storage.c: the table header, the walk over the
  partition entries sector by sector, the selected partition and its hand-over to the root-media
  driver.  What only feeds the live log (\<open>st_part_parse\<close>, \<open>st_part_geom\<close>, \<open>st_data_part\<close>,
  \<open>st_sel_publish\<close>) is left out.  Reading past the 128 words of the buffer is \<open>None\<close>.
\<close>

unbundle bit_operations_syntax

definition ST_GPT_W_PART_ENTRY_LBA :: nat where "ST_GPT_W_PART_ENTRY_LBA = 18"
definition ST_GPT_W_NUM_ENTRIES :: nat where "ST_GPT_W_NUM_ENTRIES = 20"
definition ST_GPT_W_ENTRY_SIZE :: nat where "ST_GPT_W_ENTRY_SIZE = 21"
definition ST_GPT_E_FIRST_W :: nat where "ST_GPT_E_FIRST_W = 8"
definition ST_GPT_E_LAST_W :: nat where "ST_GPT_E_LAST_W = 10"
definition ST_GPT_E_NAME_W0 :: nat where "ST_GPT_E_NAME_W0 = 14"
definition ST_GPT_ARRAY_SCAN_MAX :: u32 where "ST_GPT_ARRAY_SCAN_MAX = 32"
definition ST_GPT_SCAN_NONE :: u32 where "ST_GPT_SCAN_NONE = 0"
definition ST_MMC_BLK_LEN :: u32 where "ST_MMC_BLK_LEN = 512"

definition rb :: "'d sd_state \<Rightarrow> nat \<Rightarrow> u32 option" where
  "rb s i = (if i < ST_EXT_CSD_WORDS then Some (st_read_block s ! i) else None)"

fun mbr_scan :: "u32 list \<Rightarrow> nat list \<Rightarrow> u32" where
  "mbr_scan blk [] = 0"
| "mbr_scan blk (k # ks) =
    (if drop_bit 16 (blk ! (112 + 4 * k)) AND 0xff \<noteq> 0
     then (drop_bit 16 (blk ! (113 + 4 * k)) AND 0xffff) OR push_bit 16 (blk ! (114 + 4 * k) AND 0xffff)
     else mbr_scan blk ks)"

definition st_mbr_parse :: "'d sd_state \<Rightarrow> 'd sd_state" where
  "st_mbr_parse s = s\<lparr>st_mbr_sector := mbr_scan (st_read_block s) [0..<4]\<rparr>"

definition st_gpt_parse :: "'d sd_state \<Rightarrow> 'd sd_state" where
  "st_gpt_parse s =
    (let next_entry = st_read_block s ! ST_GPT_W_PART_ENTRY_LBA;
         nentries = st_read_block s ! ST_GPT_W_NUM_ENTRIES;
         esize = st_read_block s ! ST_GPT_W_ENTRY_SIZE;
         bytes = nentries * esize;
         nsec = (bytes + (ST_MMC_BLK_LEN - 1)) div ST_MMC_BLK_LEN
     in s\<lparr>st_gpt_nentries := nentries, st_gpt_entry_size := esize, st_gpt_entry_lba := next_entry,
          st_gpt_array_nsec := (if nsec > ST_GPT_ARRAY_SCAN_MAX then ST_GPT_ARRAY_SCAN_MAX else nsec),
          st_gpt_best_extent := 0, st_gpt_data_sector := 0, st_gpt_scan_sector := next_entry\<rparr>)"

text \<open>One entry, at word \<open>off\<close> of array sector \<open>sec_idx\<close>.\<close>

definition gpt_entry :: "u32 \<Rightarrow> nat \<Rightarrow> 'd sd_state \<Rightarrow> 'd sd_state option" where
  "gpt_entry sec_idx off s = do {
     t0 \<leftarrow> rb s off; t1 \<leftarrow> rb s (off + 1); t2 \<leftarrow> rb s (off + 2); t3 \<leftarrow> rb s (off + 3);
     first \<leftarrow> rb s (off + ST_GPT_E_FIRST_W);
     last \<leftarrow> rb s (off + ST_GPT_E_LAST_W);
     if t0 = 0 \<and> t1 = 0 \<and> t2 = 0 \<and> t3 = 0 then Some s
     else do {
       let s1 = (if st_gpt_part_sector s = 0 then s\<lparr>st_gpt_part_sector := first\<rparr> else s);
       let extent = (if last \<ge> first then last - first else 0);
       if extent > st_gpt_best_extent s1 then do {
         n0 \<leftarrow> rb s (off + ST_GPT_E_NAME_W0); n1 \<leftarrow> rb s (off + ST_GPT_E_NAME_W0 + 1);
         n2 \<leftarrow> rb s (off + ST_GPT_E_NAME_W0 + 2); n3 \<leftarrow> rb s (off + ST_GPT_E_NAME_W0 + 3);
         Some (s1\<lparr>st_gpt_best_extent := extent, st_gpt_data_sector := first,
                  st_gpt_scan_sector := st_gpt_entry_lba s + sec_idx,
                  st_gpt_data_type := [t0, t1, t2, t3], st_gpt_data_name := [n0, n1, n2, n3]\<rparr>) }
       else Some s1 } }"

fun entry_loop :: "u32 \<Rightarrow> u32 \<Rightarrow> nat \<Rightarrow> nat \<Rightarrow> 'd sd_state \<Rightarrow> 'd sd_state option" where
  "entry_loop sec_idx stride_w k 0 s = Some s"
| "entry_loop sec_idx stride_w k (Suc n) s =
    (case gpt_entry sec_idx (unat (word_of_nat k * stride_w :: u32)) s of
       None \<Rightarrow> None | Some s' \<Rightarrow> entry_loop sec_idx stride_w (Suc k) n s')"

definition st_gpt_entry_parse :: "u32 \<Rightarrow> 'd sd_state \<Rightarrow> 'd sd_state option" where
  "st_gpt_entry_parse sec_idx s =
    (let nent = st_gpt_nentries s;
         stride_w = st_gpt_entry_size s div 4;
         cap = 128 div (if stride_w \<noteq> 0 then stride_w else 1);
         base = sec_idx * cap;
         left = (if nent > base then nent - base else 0);
         nent_used = (if left > cap then cap else left)
     in entry_loop sec_idx stride_w 0 (unat nent_used) (if sec_idx = 0 then s\<lparr>st_gpt_part_sector := 0\<rparr> else s))"

subsection \<open>The ladder's data reads\<close>

fun array_walk :: "'d sd_world \<Rightarrow> nat \<Rightarrow> u32 \<Rightarrow> nat \<Rightarrow> u32 \<Rightarrow> 'd sd_state \<Rightarrow> 'd sd_state option" where
  "array_walk k fuel int_enable 0 ge_sec s = Some s"
| "array_walk k fuel int_enable (Suc n) ge_sec s = do {
     s1 \<leftarrow> st_data_reset k fuel s;
     s2 \<leftarrow> st_read_single_block k fuel int_enable s1;
     s3 \<leftarrow> st_gpt_entry_parse ge_sec s2;
     array_walk k fuel int_enable n (ge_sec + 1) s3 }"

text \<open>The enable of the transfer-complete bit, probed and restored.\<close>

definition st_data_end_probe :: "'d sd_world \<Rightarrow> ('d, unit) state" where
  "st_data_end_probe k = do {
     before \<leftarrow> hc_read32 k ST_SDHCI_INT_ENABLE;
     _ \<leftarrow> hc_read32 k ST_SDHCI_PRESENT_STATE;
     hc_write32 k ST_SDHCI_INT_ENABLE (before OR 0x2);
     _ \<leftarrow> hc_read32 k ST_SDHCI_INT_ENABLE;
     _ \<leftarrow> hc_read32 k ST_SDHCI_INT_STATUS;
     hc_write32 k ST_SDHCI_INT_ENABLE before;
     _ \<leftarrow> hc_read32 k ST_SDHCI_INT_ENABLE;
     _ \<leftarrow> hc_read32 k ST_SDHCI_PRESENT_STATE;
     State_Monad.return () }"

text \<open>The end of \<open>st_cmd_path\<close>: header, array, and the selected partition's superblock.\<close>

definition cmd_path_reads :: "'d sd_world \<Rightarrow> nat \<Rightarrow> u32 \<Rightarrow> 'd sd_state \<Rightarrow> 'd sd_state option" where
  "cmd_path_reads k fuel int_enable s = do {
     s1 \<leftarrow> st_data_reset k fuel s;
     s2 \<leftarrow> st_read_single_block k fuel int_enable s1;
     let s3 = st_gpt_parse (st_mbr_parse s2);
     s4 \<leftarrow> array_walk k fuel int_enable (unat (st_gpt_array_nsec s3)) 0 s3;
     s5 \<leftarrow> st_data_reset k fuel s4;
     s6 \<leftarrow> st_read_single_block k fuel int_enable s5;
     Some (s6\<lparr>st_dev := snd (run_state (st_data_end_probe k) (st_dev s6))\<rparr>) }"

subsection \<open>The selection\<close>

definition entry_storage_selected_pages :: "'d sd_state \<Rightarrow> u32" where
  "entry_storage_selected_pages s =
    (if st_gpt_best_extent s = ST_GPT_SCAN_NONE then 0 else if st_ext_sec_count s = 0 then 0
     else drop_bit 3 (st_ext_sec_count s + 7))"

definition entry_storage_selected_lba :: "'d sd_state \<Rightarrow> u32" where
  "entry_storage_selected_lba s =
    (if st_gpt_best_extent s = ST_GPT_SCAN_NONE \<or> st_ext_sec_count s = 0 then 0 else st_gpt_data_sector s)"

definition entry_storage_selected_count :: "'d sd_state \<Rightarrow> u32" where
  "entry_storage_selected_count s =
    (if st_gpt_best_extent s = ST_GPT_SCAN_NONE \<or> st_ext_sec_count s = 0 then 0 else st_gpt_best_extent s)"

definition entry_storage_card_sectors :: "'d sd_state \<Rightarrow> u32" where
  "entry_storage_card_sectors s = st_ext_sec_count s"

definition st_read_selected :: "'d sd_world \<Rightarrow> nat \<Rightarrow> 'd sd_state \<Rightarrow> (u32 \<times> 'd sd_state) option" where
  "st_read_selected k fuel s = do {
     s1 \<leftarrow> st_data_reset k fuel s;
     s2 \<leftarrow> st_read_single_block k fuel 1 s1;
     Some (st_read_lba s2, s2) }"

text \<open>What the root-media driver is handed, as its \<open>ladder\<close>: the medium is the card's blocks, and a block
  goes through the doors as its 128 words.\<close>

definition block_words :: "bytes \<Rightarrow> u32 list" where
  "block_words bs = map (\<lambda>i. ld32 (\<lambda>a. bs ! unat a) (word_of_nat (4 * i))) [0..<128]"

definition storage_ladder :: "'d sd_state \<Rightarrow> (u32 \<Rightarrow> u32 list) ladder" where
  "storage_ladder s = \<lparr>drv_read = (\<lambda>m lba. concat (map le32 (m lba))), drv_write = (\<lambda>lba bs m. m(lba := block_words bs)),
     selected_lba = entry_storage_selected_lba s, selected_count = entry_storage_selected_count s,
     card_sectors = entry_storage_card_sectors s\<rparr>"

text \<open>\<open>probe\<close> is \<open>entry_storage_probe\<close>, \<open>stage\<close> the call of \<open>entry_root_media_stage\<close>.\<close>

definition entry_root_media_mount_disk ::
    "'d sd_world \<Rightarrow> nat \<Rightarrow> ('d sd_state \<Rightarrow> 'd sd_state option)
      \<Rightarrow> ('d sd_state \<Rightarrow> u32 \<Rightarrow> u32 \<Rightarrow> u32 list option \<Rightarrow> u32 \<Rightarrow> media_state \<Rightarrow> int \<times> media_state)
      \<Rightarrow> 'd sd_state \<Rightarrow> media_state \<Rightarrow> (int \<times> 'd sd_state \<times> media_state) option" where
  "entry_root_media_mount_disk k fuel probe stage s ms = do {
     s1 \<leftarrow> probe s;
     let pages = entry_storage_selected_pages s1;
     if pages = 0 then Some (-1, s1, ms)
     else do {
       (sector, s2) \<leftarrow> st_read_selected k fuel s1;
       Some (0, s2, snd (stage s2 sector pages (Some (st_read_block s2)) (word_of_nat ST_EXT_CSD_WORDS) ms)) } }"

end
