(* ===== verification/Storage_Card.thy ===== *)
theory Storage_Card
  imports Storage_Select
begin

text \<open>
  The controller and card the doors are proved over (\<open>sd_card\<close>), as the host controller's
  specification and the file's own records have them.  The controller is
  in one phase (\<open>sd_phase\<close>) at a time: idle, resetting its data lines, with the words of a read still to
  deliver, with the words of a write received so far, or with the card programming a block, which is on
  the card only when that ends.  A command is obeyed in the idle phase only, with its block size, count,
  transfer mode and data timeout in the registers; of a command or a reset while the card programs nothing
  is known.  A phase does what it has to by its deadline (\<open>g_due\<close>), in the time of the counter
  (\<open>g_now\<close>, \<open>sd_clock\<close>).
\<close>

unbundle bit_operations_syntax

datatype sd_phase = Idle | Resetting | Reading "u32 list" | Writing u32 "u32 list" | Programming u32 "u32 list"

record sd_regs =
  rg_arg :: u32
  rg_blksz :: u16
  rg_blkcnt :: u16
  rg_trns :: u16
  rg_tout :: u8

record 'd sd_ghost =
  g_ok :: "'d \<Rightarrow> bool"
  g_now :: "'d \<Rightarrow> nat"
  g_blk :: "'d \<Rightarrow> u32 \<Rightarrow> u32 list"
  g_phase :: "'d \<Rightarrow> sd_phase"
  g_due :: "'d \<Rightarrow> nat"
  g_avail :: "'d \<Rightarrow> bool"
  g_regs :: "'d \<Rightarrow> sd_regs"
  g_need :: nat

definition CMD17_WORD :: u16 where "CMD17_WORD = 0x113a"
definition CMD24_WORD :: u16 where "CMD24_WORD = 0x183a"

text \<open>In ticks of 19.2 MHz: an access takes at most 1 ms, a transfer or a programming at most 1.2 s, a
  reset at most 50 ms.  The fuel is a bound on the polls of any wait.\<close>

definition SD_STEP :: nat where "SD_STEP = 19200"
definition SD_DATA_DUE :: nat where "SD_DATA_DUE = 23040000"
definition SD_RESET_DUE :: nat where "SD_RESET_DUE = 960000"
definition sd_fuel :: nat where "sd_fuel = 25000000"

subsection \<open>What is asked of the counter and of the controller\<close>

text \<open>The counter runs: a register read takes at least a tick, no access more than \<open>SD_STEP\<close>.\<close>

definition ticks_on :: "('d \<Rightarrow> nat) \<Rightarrow> nat \<Rightarrow> ('d, 'a) state \<Rightarrow> bool" where
  "ticks_on now lo m \<longleftrightarrow> (\<forall>d. now d + lo \<le> now (snd (run_state m d)) \<and> now (snd (run_state m d)) \<le> now d + SD_STEP)"

definition sd_clock :: "'d sd_world \<Rightarrow> ('d \<Rightarrow> nat) \<Rightarrow> bool" where
  "sd_clock k now \<longleftrightarrow> (\<forall>r. ticks_on now 1 (hc_read32 k r) \<and> ticks_on now 1 (hc_read16 k r) \<and> ticks_on now 1 (hc_read8 k r)
       \<and> (\<forall>v. ticks_on now 0 (hc_write32 k r v)) \<and> (\<forall>v. ticks_on now 0 (hc_write16 k r v)) \<and> (\<forall>v. ticks_on now 0 (hc_write8 k r v)))
     \<and> ticks_on now 0 (cntvct k) \<and> (\<forall>d. fst (run_state (cntvct k) d) = word_of_nat (now (snd (run_state (cntvct k) d))))"

text \<open>An access that moves no data and starts nothing: only what is under way may go on.  \<open>b\<close> allows it to
  change the registers.\<close>

definition quiet_step :: "'d sd_ghost \<Rightarrow> bool \<Rightarrow> 'd \<Rightarrow> 'd \<Rightarrow> bool" where
  "quiet_step g b d d' \<longleftrightarrow> g_ok g d' \<and> g_now g d \<le> g_now g d' \<and>
     (case g_phase g d of
        Idle \<Rightarrow> g_phase g d' = Idle \<and> g_blk g d' = g_blk g d \<and> (b \<or> g_regs g d' = g_regs g d)
      | Resetting \<Rightarrow> g_blk g d' = g_blk g d \<and> (g_phase g d' = Idle \<or> g_phase g d' = Resetting \<and> g_due g d' = g_due g d)
      | Reading ws \<Rightarrow> g_blk g d' = g_blk g d \<and> (ws = [] \<and> g_phase g d' = Idle
          \<or> g_phase g d' = Reading ws \<and> g_due g d' = g_due g d \<and> (g_avail g d \<longrightarrow> g_avail g d'))
      | Writing lba ws \<Rightarrow> g_blk g d' = g_blk g d \<and> g_phase g d' = Writing lba ws \<and> g_due g d' = g_due g d \<and> (g_avail g d \<longrightarrow> g_avail g d')
      | Programming lba ws \<Rightarrow> g_phase g d' = Idle \<and> g_blk g d' = (g_blk g d)(lba := ws)
          \<or> g_phase g d' = Programming lba ws \<and> g_blk g d' = g_blk g d \<and> g_due g d' = g_due g d)"

definition keeps :: "bool \<Rightarrow> 'd sd_ghost \<Rightarrow> ('d, 'a) state \<Rightarrow> bool" where
  "keeps b g m \<longleftrightarrow> (\<forall>d. g_ok g d \<longrightarrow> quiet_step g b d (snd (run_state m d)))"

definition sd_quiet :: "'d sd_world \<Rightarrow> 'd sd_ghost \<Rightarrow> bool" where
  "sd_quiet k g \<longleftrightarrow>
     (\<forall>r \<in> {ST_SDHCI_PRESENT_STATE, ST_SDHCI_RESPONSE, ST_SDHCI_INT_STATUS, ST_SDHCI_INT_ENABLE, ST_SDHCI_SIGNAL_ENABLE}.
        keeps False g (hc_read32 k r))
   \<and> (\<forall>r \<in> {ST_SDHCI_COMMAND, ST_SDHCI_BLOCK_SIZE, ST_SDHCI_BLOCK_COUNT, ST_SDHCI_TRANSFER_MODE}. keeps False g (hc_read16 k r))
   \<and> (\<forall>r \<in> {ST_SDHCI_HOST_CONTROL, ST_SDHCI_TIMEOUT_CONTROL, ST_SDHCI_SOFTWARE_RESET}. keeps False g (hc_read8 k r))
   \<and> keeps False g (cntvct k)
   \<and> (\<forall>r \<in> {ST_SDHCI_INT_STATUS, ST_SDHCI_INT_ENABLE}. \<forall>v. keeps False g (hc_write32 k r v))
   \<and> (\<forall>v. keeps True g (hc_write8 k ST_SDHCI_TIMEOUT_CONTROL v))"

text \<open>A register of the transfer takes a write in the idle phase.\<close>

definition takes :: "'d sd_ghost \<Rightarrow> (sd_regs \<Rightarrow> sd_regs) \<Rightarrow> ('d, unit) state \<Rightarrow> bool" where
  "takes g f m \<longleftrightarrow> (\<forall>d. g_ok g d \<longrightarrow> g_phase g d = Idle \<longrightarrow>
     (let d' = snd (run_state m d) in g_ok g d' \<and> g_phase g d' = Idle \<and> g_blk g d' = g_blk g d \<and> g_regs g d' = f (g_regs g d)))"

definition sd_registers :: "'d sd_world \<Rightarrow> 'd sd_ghost \<Rightarrow> bool" where
  "sd_registers k g \<longleftrightarrow>
     (\<forall>v. takes g (\<lambda>r. r\<lparr>rg_arg := v\<rparr>) (hc_write32 k ST_SDHCI_ARGUMENT v))
   \<and> (\<forall>v. takes g (\<lambda>r. r\<lparr>rg_blksz := v\<rparr>) (hc_write16 k ST_SDHCI_BLOCK_SIZE v))
   \<and> (\<forall>v. takes g (\<lambda>r. r\<lparr>rg_blkcnt := v\<rparr>) (hc_write16 k ST_SDHCI_BLOCK_COUNT v))
   \<and> (\<forall>v. takes g (\<lambda>r. r\<lparr>rg_trns := v\<rparr>) (hc_write16 k ST_SDHCI_TRANSFER_MODE v))
   \<and> (\<forall>v. takes g (\<lambda>r. r\<lparr>rg_tout := v\<rparr>) (hc_write8 k ST_SDHCI_TIMEOUT_CONTROL v))"

text \<open>The reset of the data lines, which nothing is asked of while the card programs.\<close>

definition sd_resets :: "'d sd_world \<Rightarrow> 'd sd_ghost \<Rightarrow> bool" where
  "sd_resets k g \<longleftrightarrow> (\<forall>d x d'. g_ok g d \<longrightarrow>
       ((\<forall>lba ws. g_phase g d \<noteq> Programming lba ws) \<longrightarrow>
          run_state (hc_write8 k ST_SDHCI_SOFTWARE_RESET ST_SDHCI_RESET_DATA) d = ((), d') \<longrightarrow>
          g_ok g d' \<and> g_blk g d' = g_blk g d
          \<and> (g_phase g d' = Idle \<or> g_phase g d' = Resetting \<and> g_due g d' \<le> g_now g d' + SD_RESET_DUE))
     \<and> (run_state (hc_read8 k ST_SDHCI_SOFTWARE_RESET) d = (x, d') \<longrightarrow>
          (g_phase g d = Idle \<longrightarrow> x AND ST_SDHCI_RESET_DATA = 0)
        \<and> (g_phase g d = Resetting \<longrightarrow> (g_due g d \<le> g_now g d' \<longrightarrow> x AND ST_SDHCI_RESET_DATA = 0)
             \<and> (x AND ST_SDHCI_RESET_DATA = 0 \<longrightarrow> g_phase g d' = Idle))))"

text \<open>A block command asks for one block of 512 bytes, its direction in the transfer mode (with the block
  count in force and no DMA), and a data timeout the card can meet.\<close>

definition transfer_set :: "nat \<Rightarrow> u16 \<Rightarrow> sd_regs \<Rightarrow> bool" where
  "transfer_set need trns r \<longleftrightarrow> rg_blksz r AND 0xfff = 512 \<and> rg_blkcnt r = 1 \<and> rg_trns r AND 0x3f = trns \<and> need \<le> unat (rg_tout r)"

definition sd_commands :: "'d sd_world \<Rightarrow> 'd sd_ghost \<Rightarrow> bool" where
  "sd_commands k g \<longleftrightarrow> (\<forall>d d'. g_ok g d \<longrightarrow> g_phase g d = Idle \<longrightarrow>
       (transfer_set (g_need g) 0x12 (g_regs g d) \<longrightarrow> run_state (hc_write16 k ST_SDHCI_COMMAND CMD17_WORD) d = ((), d') \<longrightarrow>
          g_ok g d' \<and> g_blk g d' = g_blk g d \<and> g_phase g d' = Reading (g_blk g d (rg_arg (g_regs g d)))
          \<and> g_due g d' \<le> g_now g d' + SD_DATA_DUE)
     \<and> (transfer_set (g_need g) 0x02 (g_regs g d) \<longrightarrow> run_state (hc_write16 k ST_SDHCI_COMMAND CMD24_WORD) d = ((), d') \<longrightarrow>
          g_ok g d' \<and> g_blk g d' = g_blk g d \<and> g_phase g d' = Writing (rg_arg (g_regs g d)) []
          \<and> g_due g d' \<le> g_now g d' + SD_DATA_DUE))"

text \<open>The data port moves a word where one can be moved.  The last of the 128 words of a write starts the
  programming.\<close>

definition sd_data :: "'d sd_world \<Rightarrow> 'd sd_ghost \<Rightarrow> bool" where
  "sd_data k g \<longleftrightarrow> (\<forall>d. g_ok g d \<longrightarrow> g_avail g d \<longrightarrow>
       (\<forall>w ws x d'. g_phase g d = Reading (w # ws) \<longrightarrow> run_state (hc_read32 k ST_SDHCI_BUFFER) d = (x, d') \<longrightarrow>
          x = w \<and> g_ok g d' \<and> g_blk g d' = g_blk g d \<and> g_phase g d' = Reading ws \<and> g_due g d' = g_due g d)
     \<and> (\<forall>lba ws w d'. g_phase g d = Writing lba ws \<longrightarrow> run_state (hc_write32 k ST_SDHCI_BUFFER w) d = ((), d') \<longrightarrow>
          g_ok g d' \<and> g_blk g d' = g_blk g d
          \<and> (if length ws = 127 then g_phase g d' = Programming lba (ws @ [w]) \<and> g_due g d' \<le> g_now g d' + SD_DATA_DUE
             else g_phase g d' = Writing lba (ws @ [w]) \<and> g_due g d' = g_due g d)))"

text \<open>\<open>PRESENT_STATE\<close>: idle, no line is inhibited or busy; in a transfer, the bit of its direction says that a
  word can be moved, by the deadline at the latest; the busy bits clear when the programming has ended.\<close>

definition present_ok :: "'d sd_ghost \<Rightarrow> 'd \<Rightarrow> u32 \<Rightarrow> 'd \<Rightarrow> bool" where
  "present_ok g d ps d' \<longleftrightarrow>
     (case g_phase g d of
        Idle \<Rightarrow> ps AND (ST_SDHCI_CMD_INHIBIT OR ST_SDHCI_DATA_INHIBIT) = 0 \<and> ps AND (ST_SDHCI_DOING_WRITE OR ST_SDHCI_DAT_LINE_ACTIVE) = 0
      | Resetting \<Rightarrow> True
      | Reading ws \<Rightarrow> ws \<noteq> [] \<longrightarrow> (ps AND ST_SDHCI_DATA_AVAILABLE \<noteq> 0 \<longrightarrow> g_avail g d')
          \<and> (g_due g d \<le> g_now g d' \<longrightarrow> ps AND ST_SDHCI_DATA_AVAILABLE \<noteq> 0)
      | Writing lba ws \<Rightarrow> (ps AND ST_SDHCI_SPACE_AVAILABLE \<noteq> 0 \<longrightarrow> g_avail g d')
          \<and> (g_due g d \<le> g_now g d' \<longrightarrow> ps AND ST_SDHCI_SPACE_AVAILABLE \<noteq> 0)
      | Programming lba ws \<Rightarrow> (ps AND (ST_SDHCI_DOING_WRITE OR ST_SDHCI_DAT_LINE_ACTIVE) = 0 \<longrightarrow> g_phase g d' = Idle)
          \<and> (g_due g d \<le> g_now g d' \<longrightarrow> ps AND (ST_SDHCI_DOING_WRITE OR ST_SDHCI_DAT_LINE_ACTIVE) = 0))"

text \<open>Blocks are 128 words; in the idle phase the last response has the card in the transfer state and
  the interrupt status is cleared by writing it back.\<close>

definition sd_reports :: "'d sd_world \<Rightarrow> 'd sd_ghost \<Rightarrow> bool" where
  "sd_reports k g \<longleftrightarrow> (\<forall>d. g_ok g d \<longrightarrow> (\<forall>lba. length (g_blk g d lba) = 128)
     \<and> (\<forall>ps d'. run_state (hc_read32 k ST_SDHCI_PRESENT_STATE) d = (ps, d') \<longrightarrow> present_ok g d ps d')
     \<and> (g_phase g d = Idle \<longrightarrow> card_state (fst (run_state (hc_read32 k ST_SDHCI_RESPONSE) d)) = 4
        \<and> (\<forall>x d1 d2. run_state (hc_read32 k ST_SDHCI_INT_STATUS) d = (x, d1) \<longrightarrow>
              run_state (hc_write32 k ST_SDHCI_INT_STATUS x) d1 = ((), d2) \<longrightarrow>
              fst (run_state (hc_read32 k ST_SDHCI_INT_STATUS) d2) AND ST_SDHCI_INT_CMD_MASK = 0)))"

definition sd_bus :: "'d sd_world \<Rightarrow> 'd sd_ghost \<Rightarrow> bool" where
  "sd_bus k g \<longleftrightarrow> sd_clock k (g_now g) \<and> sd_quiet k g \<and> sd_registers k g \<and> sd_resets k g \<and> sd_commands k g \<and> sd_data k g \<and> sd_reports k g"

text \<open>And the watchdog call of the resident build leaves the card alone.\<close>

definition sd_card :: "'d sd_world \<Rightarrow> 'd sd_ghost \<Rightarrow> bool" where
  "sd_card k g \<longleftrightarrow> sd_bus k g \<and> (\<forall>n. keeps False g (State (\<lambda>d. ((), sd_pet k n d))))"

subsection \<open>Quiet steps\<close>

named_theorems keeps_intros

lemma quiet_refl: "g_ok g d \<Longrightarrow> quiet_step g b d d"
  by (simp add: quiet_step_def split: sd_phase.splits)

lemma quiet_trans: "quiet_step g b d d1 \<Longrightarrow> quiet_step g b d1 d2 \<Longrightarrow> quiet_step g b d d2"
  by (cases "g_phase g d") (auto simp: quiet_step_def)

lemma quiet_weaken: "quiet_step g False d d' \<Longrightarrow> quiet_step g b d d'"
  by (cases "g_phase g d") (auto simp: quiet_step_def)

lemma quiet_ok: "quiet_step g b d d' \<Longrightarrow> g_ok g d' \<and> g_now g d \<le> g_now g d'"
  by (simp add: quiet_step_def)

lemma keeps_return [keeps_intros]: "keeps b g (State_Monad.return x)"
  by (simp add: keeps_def quiet_refl)

lemma keepsD: "keeps b g m \<Longrightarrow> g_ok g d \<Longrightarrow> run_state m d = (x, d') \<Longrightarrow> quiet_step g b d d'"
  unfolding keeps_def by (metis snd_conv)

lemma keeps_bind [keeps_intros]:
  assumes "keeps b g m" and "\<And>x. keeps b g (f x)"
  shows "keeps b g (State_Monad.bind m f)"
  unfolding keeps_def
proof (intro allI impI)
  fix d assume ok: "g_ok g d"
  obtain x d1 where m: "run_state m d = (x, d1)" by fastforce
  obtain y d2 where f: "run_state (f x) d1 = (y, d2)" by fastforce
  note q = keepsD [OF assms(1) ok m]
  have "quiet_step g b d d2" using quiet_trans [OF q keepsD [OF assms(2) _ f]] quiet_ok [OF q] by blast
  then show "quiet_step g b d (snd (run_state (State_Monad.bind m f) d))" using m f by simp
qed

lemma keeps_if [keeps_intros]: "(c \<Longrightarrow> keeps b g m) \<Longrightarrow> (\<not> c \<Longrightarrow> keeps b g n) \<Longrightarrow> keeps b g (if c then m else n)"
  by simp

lemma keeps_case [keeps_intros]: "(\<And>x y. keeps b g (f x y)) \<Longrightarrow> keeps b g (case p of (x, y) \<Rightarrow> f x y)"
  by (simp split: prod.splits)

lemma keeps_weaken: "keeps False g m \<Longrightarrow> keeps b g m"
  by (simp add: keeps_def quiet_weaken)

lemmas reg_defs = ST_SDHCI_BUFFER_def ST_SDHCI_ARGUMENT_def ST_SDHCI_COMMAND_def ST_SDHCI_SOFTWARE_RESET_def
  ST_SDHCI_PRESENT_STATE_def ST_SDHCI_HOST_CONTROL_def ST_SDHCI_TIMEOUT_CONTROL_def ST_SDHCI_RESPONSE_def
  ST_SDHCI_INT_STATUS_def ST_SDHCI_INT_ENABLE_def ST_SDHCI_SIGNAL_ENABLE_def ST_SDHCI_BLOCK_SIZE_def
  ST_SDHCI_BLOCK_COUNT_def ST_SDHCI_TRANSFER_MODE_def

lemma card_keeps:
  assumes "sd_bus k g"
  shows "r \<in> {ST_SDHCI_PRESENT_STATE, ST_SDHCI_RESPONSE, ST_SDHCI_INT_STATUS, ST_SDHCI_INT_ENABLE, ST_SDHCI_SIGNAL_ENABLE}
      \<Longrightarrow> keeps b g (hc_read32 k r)"
    "r \<in> {ST_SDHCI_COMMAND, ST_SDHCI_BLOCK_SIZE, ST_SDHCI_BLOCK_COUNT, ST_SDHCI_TRANSFER_MODE} \<Longrightarrow> keeps b g (hc_read16 k r)"
    "r \<in> {ST_SDHCI_HOST_CONTROL, ST_SDHCI_TIMEOUT_CONTROL, ST_SDHCI_SOFTWARE_RESET} \<Longrightarrow> keeps b g (hc_read8 k r)"
    "keeps b g (cntvct k)"
    "r \<in> {ST_SDHCI_INT_STATUS, ST_SDHCI_INT_ENABLE} \<Longrightarrow> keeps b g (hc_write32 k r v)"
    "keeps True g (hc_write8 k ST_SDHCI_TIMEOUT_CONTROL w)"
proof -
  have q: "sd_quiet k g" using assms by (simp add: sd_bus_def)
  show "r \<in> {ST_SDHCI_PRESENT_STATE, ST_SDHCI_RESPONSE, ST_SDHCI_INT_STATUS, ST_SDHCI_INT_ENABLE, ST_SDHCI_SIGNAL_ENABLE}
      \<Longrightarrow> keeps b g (hc_read32 k r)" by (rule keeps_weaken) (use q in \<open>simp only: sd_quiet_def\<close>)
  show "r \<in> {ST_SDHCI_COMMAND, ST_SDHCI_BLOCK_SIZE, ST_SDHCI_BLOCK_COUNT, ST_SDHCI_TRANSFER_MODE} \<Longrightarrow> keeps b g (hc_read16 k r)"
    by (rule keeps_weaken) (use q in \<open>simp only: sd_quiet_def\<close>)
  show "r \<in> {ST_SDHCI_HOST_CONTROL, ST_SDHCI_TIMEOUT_CONTROL, ST_SDHCI_SOFTWARE_RESET} \<Longrightarrow> keeps b g (hc_read8 k r)"
    by (rule keeps_weaken) (use q in \<open>simp only: sd_quiet_def\<close>)
  show "keeps b g (cntvct k)" by (rule keeps_weaken) (use q in \<open>simp only: sd_quiet_def\<close>)
  show "r \<in> {ST_SDHCI_INT_STATUS, ST_SDHCI_INT_ENABLE} \<Longrightarrow> keeps b g (hc_write32 k r v)"
    by (rule keeps_weaken) (use q in \<open>simp only: sd_quiet_def\<close>)
  show "keeps True g (hc_write8 k ST_SDHCI_TIMEOUT_CONTROL w)" using q by (simp only: sd_quiet_def)
qed

lemma rd_live_keeps: "keeps b g m \<Longrightarrow> keeps b g (rd_live full m)"
  unfolding rd_live_def by (intro keeps_intros)

text \<open>What comes before and after a transfer.\<close>

lemma quiet_parts:
  assumes "sd_bus k g"
  shows "keeps True g (read_restore k full en was)" "keeps True g (write_restore k was)" "keeps b g (st_data_end_probe k)"
    "keeps b g (reset_end k)" "keeps b g (do { _ \<leftarrow> hc_read32 k ST_SDHCI_INT_STATUS; cntvct k })"
  unfolding write_restore_def read_restore_def st_data_end_probe_def reset_end_def
  by (intro keeps_intros rd_live_keeps card_keeps [OF assms]; simp add: reg_defs)+

lemma done_keeps:
  assumes "sd_bus k g"
  shows "keeps b g (done_wait k t0 n r)"
proof -
  have B: "keeps b g (done_batch k n r)" for n r
    by (induction n arbitrary: r)
      (auto simp: reg_defs Let_def intro!: keeps_intros card_keeps [OF assms])
  show ?thesis
    by (induction n arbitrary: r)
      (auto intro!: keeps_intros card_keeps [OF assms] B)
qed

subsection \<open>The phases\<close>

definition idle_at :: "'d sd_ghost \<Rightarrow> (u32 \<Rightarrow> u32 list) \<Rightarrow> (sd_regs \<Rightarrow> bool) \<Rightarrow> 'd \<Rightarrow> bool" where
  "idle_at g B R d \<longleftrightarrow> g_ok g d \<and> g_phase g d = Idle \<and> g_blk g d = B \<and> R (g_regs g d)"

definition reading_at :: "'d sd_ghost \<Rightarrow> (u32 \<Rightarrow> u32 list) \<Rightarrow> u32 list \<Rightarrow> 'd \<Rightarrow> bool" where
  "reading_at g B ws d \<longleftrightarrow> g_ok g d \<and> g_phase g d = Reading ws \<and> g_blk g d = B \<and> g_due g d \<le> g_now g d + SD_DATA_DUE"

definition writing_at :: "'d sd_ghost \<Rightarrow> (u32 \<Rightarrow> u32 list) \<Rightarrow> u32 \<Rightarrow> u32 list \<Rightarrow> 'd \<Rightarrow> bool" where
  "writing_at g B lba ws d \<longleftrightarrow> g_ok g d \<and> g_phase g d = Writing lba ws \<and> g_blk g d = B \<and> g_due g d \<le> g_now g d + SD_DATA_DUE"

text \<open>The card holds \<open>B\<close>, or will when it has programmed its block.\<close>

definition settles_to :: "'d sd_ghost \<Rightarrow> (u32 \<Rightarrow> u32 list) \<Rightarrow> nat \<Rightarrow> 'd \<Rightarrow> bool" where
  "settles_to g B D d \<longleftrightarrow> g_ok g d \<and> (g_phase g d = Idle \<and> g_blk g d = B
     \<or> (\<exists>lba ws. g_phase g d = Programming lba ws \<and> (g_blk g d)(lba := ws) = B \<and> g_due g d \<le> D))"

text \<open>Nothing is being programmed: where a door may be entered.\<close>

definition free_at :: "'d sd_ghost \<Rightarrow> (u32 \<Rightarrow> u32 list) \<Rightarrow> 'd \<Rightarrow> bool" where
  "free_at g B d \<longleftrightarrow> g_ok g d \<and> (\<forall>lba ws. g_phase g d \<noteq> Programming lba ws) \<and> g_blk g d = B"

lemma idle_free: "idle_at g B R d \<Longrightarrow> free_at g B d"
  by (simp add: idle_at_def free_at_def)

lemma idle_any: "idle_at g B R d \<Longrightarrow> idle_at g B (\<lambda>_. True) d"
  by (simp add: idle_at_def)

lemma quiet_phases:
  assumes "quiet_step g b d d'"
  shows "\<not> b \<Longrightarrow> idle_at g B R d \<Longrightarrow> idle_at g B R d'" "reading_at g B ws d \<Longrightarrow> ws \<noteq> [] \<Longrightarrow> reading_at g B ws d'"
    "writing_at g B lba vs d \<Longrightarrow> writing_at g B lba vs d'" "settles_to g B D d \<Longrightarrow> settles_to g B D d'" "free_at g B d \<Longrightarrow> free_at g B d'"
proof -
  show "\<not> b \<Longrightarrow> idle_at g B R d \<Longrightarrow> idle_at g B R d'" using assms by (simp add: quiet_step_def idle_at_def)
  show "reading_at g B ws d \<Longrightarrow> ws \<noteq> [] \<Longrightarrow> reading_at g B ws d'" using assms by (auto simp: quiet_step_def reading_at_def)
  show "writing_at g B lba vs d \<Longrightarrow> writing_at g B lba vs d'" using assms by (auto simp: quiet_step_def writing_at_def)
  show "settles_to g B D d \<Longrightarrow> settles_to g B D d'" using assms by (auto simp: quiet_step_def settles_to_def)
  show "free_at g B d \<Longrightarrow> free_at g B d'" using assms by (cases "g_phase g d") (auto simp: quiet_step_def free_at_def)
qed

lemma keeps_idle: "keeps False g m \<Longrightarrow> idle_at g B R d \<Longrightarrow> run_state m d = (x, d') \<Longrightarrow> idle_at g B R d'"
  using keepsD quiet_phases(1) by (metis idle_at_def)

lemma keeps_reading: "keeps False g m \<Longrightarrow> reading_at g B ws d \<Longrightarrow> ws \<noteq> [] \<Longrightarrow> run_state m d = (x, d') \<Longrightarrow> reading_at g B ws d'"
  using keepsD quiet_phases(2) by (metis reading_at_def)

lemma keeps_writing: "keeps False g m \<Longrightarrow> writing_at g B lba ws d \<Longrightarrow> run_state m d = (x, d') \<Longrightarrow> writing_at g B lba ws d'"
  using keepsD quiet_phases(3) by (metis writing_at_def)

lemma keeps_free: "keeps b g m \<Longrightarrow> free_at g B d \<Longrightarrow> run_state m d = (x, d') \<Longrightarrow> free_at g B d'"
  using keepsD quiet_phases(5) by (metis free_at_def)

subsection \<open>The registers of a transfer\<close>

text \<open>\<open>sat P m Q\<close>: from a state with \<open>P\<close>, \<open>m\<close> gives an answer and a state with \<open>Q\<close>.\<close>

definition sat :: "('d \<Rightarrow> bool) \<Rightarrow> ('d, 'a) state \<Rightarrow> ('a \<Rightarrow> 'd \<Rightarrow> bool) \<Rightarrow> bool" where
  "sat P m Q \<longleftrightarrow> (\<forall>d x d'. P d \<longrightarrow> run_state m d = (x, d') \<longrightarrow> Q x d')"

lemma sat_bind: "(\<And>x. sat (Q x) (f x) R) \<Longrightarrow> sat P m Q \<Longrightarrow> sat P (State_Monad.bind m f) R"
  by (fastforce simp: sat_def split: prod.splits)

lemma sat_return: "sat (Q x) (State_Monad.return x) Q"
  by (simp add: sat_def)

lemma sat_pre: "sat P' m Q \<Longrightarrow> (\<And>d. P d \<Longrightarrow> P' d) \<Longrightarrow> sat P m Q"
  unfolding sat_def by blast

lemma sat_keeps: "keeps False g m \<Longrightarrow> sat (idle_at g B R) m (\<lambda>_. idle_at g B R)"
  unfolding sat_def by (blast intro: keeps_idle)

lemma sat_takes: "takes g f m \<Longrightarrow> sat (idle_at g B (\<lambda>r. R (f r))) m (\<lambda>_. idle_at g B R)"
  unfolding sat_def takes_def idle_at_def Let_def by (metis snd_conv)

lemma card_takes:
  assumes "sd_bus k g"
  shows "takes g (\<lambda>r. r\<lparr>rg_arg := v\<rparr>) (hc_write32 k ST_SDHCI_ARGUMENT v)"
    "takes g (\<lambda>r. r\<lparr>rg_blksz := h\<rparr>) (hc_write16 k ST_SDHCI_BLOCK_SIZE h)"
    "takes g (\<lambda>r. r\<lparr>rg_blkcnt := h\<rparr>) (hc_write16 k ST_SDHCI_BLOCK_COUNT h)"
    "takes g (\<lambda>r. r\<lparr>rg_trns := h\<rparr>) (hc_write16 k ST_SDHCI_TRANSFER_MODE h)"
    "takes g (\<lambda>r. r\<lparr>rg_tout := b\<rparr>) (hc_write8 k ST_SDHCI_TIMEOUT_CONTROL b)"
  using assms unfolding sd_bus_def sd_registers_def by blast+

lemma read_setup_sat:
  assumes card: "sd_bus k g" and need: "g_need g \<le> unat (ucast c :: u8)"
  shows "sat (idle_at g B (\<lambda>_. True)) (read_setup k full en c) (\<lambda>_. idle_at g B (transfer_set (g_need g) 0x12))"
proof -
  have "sat (idle_at g B (\<lambda>r. transfer_set (g_need g) 0x12 (r\<lparr>rg_tout := ucast c, rg_blksz := ST_SDHCI_BLOCK_SIZE_512, rg_blkcnt := 1,
      rg_trns := ST_SDHCI_TRNS_READ_1BLK\<rparr>))) (read_setup k full en c) (\<lambda>_. idle_at g B (transfer_set (g_need g) 0x12))"
    unfolding read_setup_def
    by (rule sat_bind sat_return sat_keeps sat_takes [OF card_takes(2) [OF card]] sat_takes [OF card_takes(3) [OF card]]
        sat_takes [OF card_takes(4) [OF card]] sat_takes [OF card_takes(5) [OF card]] |
        (intro rd_live_keeps card_keeps [OF card]; simp add: reg_defs; fail))+
  then show ?thesis
    by (rule sat_pre) (use need in \<open>simp add: idle_at_def transfer_set_def ST_SDHCI_BLOCK_SIZE_512_def ST_SDHCI_TRNS_READ_1BLK_def\<close>)
qed

lemma write_setup_sat:
  assumes card: "sd_bus k g" and need: "g_need g \<le> unat (ucast c :: u8)"
  shows "sat (idle_at g B (\<lambda>_. True)) (write_setup k c) (\<lambda>_. idle_at g B (transfer_set (g_need g) 0x02))"
proof -
  have "sat (idle_at g B (\<lambda>r. transfer_set (g_need g) 0x02 (r\<lparr>rg_tout := ucast c, rg_blksz := ST_SDHCI_BLOCK_SIZE_512, rg_blkcnt := 1,
      rg_trns := ST_SDHCI_TRNS_WRITE_1BLK\<rparr>))) (write_setup k c) (\<lambda>_. idle_at g B (transfer_set (g_need g) 0x02))"
    unfolding write_setup_def
    by (rule sat_bind sat_return sat_keeps sat_takes [OF card_takes(2) [OF card]] sat_takes [OF card_takes(3) [OF card]]
        sat_takes [OF card_takes(4) [OF card]] sat_takes [OF card_takes(5) [OF card]] |
        (intro rd_live_keeps card_keeps [OF card]; simp add: reg_defs; fail))+
  then show ?thesis
    by (rule sat_pre) (use need in \<open>simp add: idle_at_def transfer_set_def ST_SDHCI_BLOCK_SIZE_512_def ST_SDHCI_TRNS_WRITE_1BLK_def\<close>)
qed

end
