(* ===== verification/Storage_Proofs.thy ===== *)
theory Storage_Proofs
  imports Storage_Card
begin

text \<open>
  The doors over a working controller and card: what a block read leaves in the buffer, what a block
  write leaves on the card, and that every wait ends before its budget; and, over any device whose
  counter runs, that the waits end.
\<close>

unbundle bit_operations_syntax

subsection \<open>The command\<close>

lemma adtc_words:
  "ucast (ST_SDHCI_CMD_WORD ST_CMD_OP_READ_SINGLE_BLOCK ST_MMC_RSP_R1_ADTC OR
    (if ST_MMC_RSP_R1_ADTC AND ST_MMC_CMD_ADTC \<noteq> 0 then ST_SDHCI_CMD_DATA else 0)) = CMD17_WORD"
  "ucast (ST_SDHCI_CMD_WORD ST_CMD_OP_WRITE_BLOCK ST_MMC_RSP_R1_ADTC OR
    (if ST_MMC_RSP_R1_ADTC AND ST_MMC_CMD_ADTC \<noteq> 0 then ST_SDHCI_CMD_DATA else 0)) = CMD24_WORD"
  by (simp_all add: ST_SDHCI_CMD_WORD_def ST_CMD_OP_READ_SINGLE_BLOCK_def ST_CMD_OP_WRITE_BLOCK_def ST_MMC_RSP_R1_ADTC_def
      ST_MMC_RSP_PRESENT_def ST_MMC_RSP_CRC_def ST_MMC_RSP_OPCODE_def ST_MMC_CMD_ADTC_def ST_SDHCI_CMD_DATA_def
      ST_SDHCI_CMD_FLAGS_def ST_MMC_RSP_136_def ST_MMC_RSP_BUSY_def CMD17_WORD_def CMD24_WORD_def push_bit_eq_mult)

lemma read_mask: "(if ST_MMC_RSP_R1_ADTC AND ST_MMC_CMD_ADTC \<noteq> 0 then ST_SDHCI_DATA_INHIBIT else 0) = ST_SDHCI_DATA_INHIBIT"
  by (simp add: ST_MMC_RSP_R1_ADTC_def ST_MMC_RSP_PRESENT_def ST_MMC_RSP_CRC_def ST_MMC_RSP_OPCODE_def ST_MMC_CMD_ADTC_def)

lemma card_now:
  assumes "sd_bus k g"
  shows "run_state (hc_read32 k r) d = (x, d') \<Longrightarrow> g_now g d + 1 \<le> g_now g d' \<and> g_now g d' \<le> g_now g d + SD_STEP"
    and "run_state (cntvct k) d = (t, d') \<Longrightarrow> g_now g d \<le> g_now g d' \<and> g_now g d' \<le> g_now g d + SD_STEP \<and> t = word_of_nat (g_now g d')"
    and "run_state (hc_read8 k r) d = (y, d') \<Longrightarrow> g_now g d + 1 \<le> g_now g d' \<and> g_now g d' \<le> g_now g d + SD_STEP"
  using assms unfolding sd_bus_def sd_clock_def ticks_on_def by (metis snd_conv, metis add_0_right fst_conv snd_conv, metis snd_conv)

lemma card_present:
  assumes "sd_bus k g" and "g_ok g d" and "run_state (hc_read32 k ST_SDHCI_PRESENT_STATE) d = (ps, d')"
  shows "present_ok g d ps d'"
  using assms unfolding sd_bus_def sd_reports_def by blast

lemma card_len:
  assumes "sd_bus k g" and "g_ok g d"
  shows "length (g_blk g d lba) = 128"
  using assms unfolding sd_bus_def sd_reports_def by blast

lemma card_response:
  assumes "sd_bus k g" and "idle_at g B R d" and "run_state (hc_read32 k ST_SDHCI_RESPONSE) d = (x, d')"
  shows "card_state x = 4"
  using assms unfolding sd_bus_def sd_reports_def idle_at_def by (metis fst_conv)

lemma card_status:
  assumes "sd_bus k g" and "idle_at g B R d"
    and "run_state (hc_read32 k ST_SDHCI_INT_STATUS) d = (x, d1)" and "run_state (hc_write32 k ST_SDHCI_INT_STATUS x) d1 = ((), d2)"
    and "run_state (hc_read32 k ST_SDHCI_INT_STATUS) d2 = (y, d3)"
  shows "y AND ST_SDHCI_INT_CMD_MASK = 0"
  using assms unfolding sd_bus_def sd_reports_def idle_at_def by (metis fst_conv)

text \<open>A command's last part: the argument, the command register, and what touches nothing else.\<close>

lemma send_issue_split:
  assumes card: "sd_bus k g"
    and cw: "ucast (ST_SDHCI_CMD_WORD op ST_MMC_RSP_R1_ADTC OR
      (if ST_MMC_RSP_R1_ADTC AND ST_MMC_CMD_ADTC \<noteq> 0 then ST_SDHCI_CMD_DATA else 0)) = cw"
    and "run_state (send_issue k op lba ST_MMC_RSP_R1_ADTC r') d7 = (c, d')"
    and "run_state (hc_write32 k ST_SDHCI_ARGUMENT lba) d7 = ((), d8)" and "run_state (hc_write16 k ST_SDHCI_COMMAND cw) d8 = ((), d9)"
  shows "\<exists>m. keeps False g m \<and> run_state m d9 = (c, d')"
proof -
  define rest where "rest = (\<lambda>word. do {
     word_read \<leftarrow> hc_read16 k ST_SDHCI_COMMAND;
     ps \<leftarrow> hc_read32 k ST_SDHCI_PRESENT_STATE;
     t0 \<leftarrow> cntvct k;
     r1 \<leftarrow> done_wait k t0 (unat ST_CMD_DONE_TICK_BUDGET div ST_CMD_DONE_INNER)
       (r'\<lparr>r_arg_wrote := lba, r_word_wrote := word, r_sent := 1, r_word_read := ucast word_read,
          r_inhibit_after := ps AND ST_SDHCI_CMD_INHIBIT, r_status_after := 0\<rparr>);
     t \<leftarrow> cntvct k;
     resp \<leftarrow> hc_read32 k ST_SDHCI_RESPONSE;
     ps_after \<leftarrow> hc_read32 k ST_SDHCI_PRESENT_STATE;
     State_Monad.return (r1\<lparr>r_ticks := t - t0,
       r_complete := (if r_status_after r1 AND ST_SDHCI_INT_RESPONSE \<noteq> 0 then 1 else 0),
       r_err := r_status_after r1 AND ST_SDHCI_INT_CMD_ERR,
       r_rsp_present := (if ST_MMC_RSP_R1_ADTC AND ST_MMC_RSP_PRESENT \<noteq> 0 then 1 else 0),
       r_resp := resp, r_resp_read := 1, r_ps_after := ps_after\<rparr>) })"
  have R: "keeps False g (rest word)" for word
    unfolding rest_def
    by (intro keeps_intros card_keeps [OF card] done_keeps [OF card]; simp add: reg_defs)
  define word where "word = ST_SDHCI_CMD_WORD op ST_MMC_RSP_R1_ADTC OR
    (if ST_MMC_RSP_R1_ADTC AND ST_MMC_CMD_ADTC \<noteq> 0 then ST_SDHCI_CMD_DATA else 0)"
  have w: "ucast word = cw" unfolding word_def by (rule cw)
  have "send_issue k op lba ST_MMC_RSP_R1_ADTC r' =
      do { hc_write32 k ST_SDHCI_ARGUMENT lba; hc_write16 k ST_SDHCI_COMMAND cw; rest word }"
    unfolding send_issue_def Let_def rest_def word_def [symmetric] w ..
  then have "run_state (rest word) d9 = (c, d')" using assms(3-5) by simp
  with R show ?thesis by blast
qed

text \<open>A command with data reaches its register, in the idle phase with the transfer set up.\<close>

lemma send_ok:
  assumes card: "sd_bus k g" and ok: "idle_at g B (transfer_set need trns) d"
    and cw: "ucast (ST_SDHCI_CMD_WORD op ST_MMC_RSP_R1_ADTC OR
      (if ST_MMC_RSP_R1_ADTC AND ST_MMC_CMD_ADTC \<noteq> 0 then ST_SDHCI_CMD_DATA else 0)) = cw"
    and run: "run_state (st_send_command k op lba ST_MMC_RSP_R1_ADTC r) d = (c, d')"
  obtains d1 d2 m where "idle_at g B (\<lambda>r. transfer_set need trns r \<and> rg_arg r = lba) d1"
    and "run_state (hc_write16 k ST_SDHCI_COMMAND cw) d1 = ((), d2)" and "keeps False g m" and "run_state m d2 = (c, d')"
proof -
  let ?R = "transfer_set need trns"
  note K = card_keeps(1-5) [OF card, THEN keeps_idle]
  let ?m = "ST_SDHCI_CMD_INHIBIT OR ST_SDHCI_DATA_INHIBIT"
  obtain ps d1 where s1: "run_state (hc_read32 k ST_SDHCI_PRESENT_STATE) d = (ps, d1)" by fastforce
  have k1: "idle_at g B ?R d1" using K(1) [OF _ ok s1] by (simp add: reg_defs)
  obtain t0 d2 where s2: "run_state (cntvct k) d1 = (t0, d2)" by fastforce
  have k2: "idle_at g B ?R d2" using K(4) [OF k1 s2] .
  obtain p3 d3 where s3: "run_state (hc_read32 k ST_SDHCI_PRESENT_STATE) d2 = (p3, d3)" by fastforce
  have k3: "idle_at g B ?R d3" using K(1) [OF _ k2 s3] by (simp add: reg_defs)
  have m3: "p3 AND ?m = 0" using card_present [OF card _ s3] k2 by (simp add: idle_at_def present_ok_def)
  have wait: "run_state (inhibit_wait k ?m t0 (unat ST_CMD_INHIBIT_TICK_BUDGET div ST_CMD_INHIBIT_INNER) 0) d2 = ((True, 1), d3)"
  proof -
    have "0 < unat ST_CMD_INHIBIT_TICK_BUDGET div ST_CMD_INHIBIT_INNER" "0 < ST_CMD_INHIBIT_INNER"
      by (simp_all add: ST_CMD_INHIBIT_TICK_BUDGET_def ST_CMD_INHIBIT_INNER_def)
    then obtain a b where ab: "unat ST_CMD_INHIBIT_TICK_BUDGET div ST_CMD_INHIBIT_INNER = Suc a" "ST_CMD_INHIBIT_INNER = Suc b"
      by (metis gr0_conv_Suc)
    have "run_state (inhibit_batch k ?m ST_CMD_INHIBIT_INNER 0) d2 = ((True, 1), d3)"
      unfolding ab(2) using s3 m3 by simp
    then show ?thesis unfolding ab(1) by simp
  qed
  obtain t d4 where s4: "run_state (cntvct k) d3 = (t, d4)" by fastforce
  have k4: "idle_at g B ?R d4" using K(4) [OF k3 s4] .
  obtain x d5 where s5: "run_state (hc_read32 k ST_SDHCI_INT_STATUS) d4 = (x, d5)" by fastforce
  have k5: "idle_at g B ?R d5" using K(1) [OF _ k4 s5] by (simp add: reg_defs)
  obtain d6 where s6: "run_state (hc_write32 k ST_SDHCI_INT_STATUS x) d5 = ((), d6)" by (metis prod.exhaust unit.exhaust)
  have k6: "idle_at g B ?R d6" using K(5) [OF _ k5 s6] by (simp add: reg_defs)
  obtain y d7 where s7: "run_state (hc_read32 k ST_SDHCI_INT_STATUS) d6 = (y, d7)" by fastforce
  have k7: "idle_at g B ?R d7" "y AND ST_SDHCI_INT_CMD_MASK = 0"
    using K(1) [OF _ k6 s7] card_status [OF card k4 s5 s6 s7] by (simp_all add: reg_defs)
  obtain r' where issue: "run_state (send_issue k op lba ST_MMC_RSP_R1_ADTC r') d7 = (c, d')"
    using run s1 s2 wait s4 s5 s6 s7 k7(2) by (auto simp: st_send_command_def read_mask Let_def)
  obtain d8 where s8: "run_state (hc_write32 k ST_SDHCI_ARGUMENT lba) d7 = ((), d8)" by (metis prod.exhaust unit.exhaust)
  have "idle_at g B (\<lambda>r. (\<lambda>r. transfer_set need trns r \<and> rg_arg r = lba) (r\<lparr>rg_arg := lba\<rparr>)) d7"
    using k7(1) by (simp add: idle_at_def transfer_set_def)
  then have k8: "idle_at g B (\<lambda>r. transfer_set need trns r \<and> rg_arg r = lba) d8"
    using sat_takes [OF card_takes(1) [OF card], where R = "\<lambda>r. transfer_set need trns r \<and> rg_arg r = lba" and B = B] s8
    unfolding sat_def by blast
  obtain d9 where s9: "run_state (hc_write16 k ST_SDHCI_COMMAND cw) d8 = ((), d9)" by (metis prod.exhaust unit.exhaust)
  obtain m where m: "keeps False g m" "run_state m d9 = (c, d')" using send_issue_split [OF card cw issue s8 s9] by blast
  show ?thesis by (rule that [OF k8 s9 m])
qed

lemma send_read:
  assumes card: "sd_bus k g" and "idle_at g B (transfer_set (g_need g) 0x12) d"
    and "run_state (st_send_command k ST_CMD_OP_READ_SINGLE_BLOCK lba ST_MMC_RSP_R1_ADTC r) d = (c, d')"
  shows "reading_at g B (B lba) d'"
proof -
  obtain d1 d2 m where d: "idle_at g B (\<lambda>r. transfer_set (g_need g) 0x12 r \<and> rg_arg r = lba) d1"
    "run_state (hc_write16 k ST_SDHCI_COMMAND CMD17_WORD) d1 = ((), d2)" "keeps False g m" "run_state m d2 = (c, d')"
    using send_ok [OF card assms(2) adtc_words(1) assms(3)] by blast
  have "reading_at g B (B lba) d2"
    using card d(1,2) unfolding sd_bus_def sd_commands_def idle_at_def reading_at_def by blast
  moreover have "B lba \<noteq> []" using card_len [OF card, of d1 lba] d(1) by (auto simp: idle_at_def)
  ultimately show ?thesis using keeps_reading [OF d(3) _ _ d(4)] by blast
qed

lemma send_write:
  assumes card: "sd_bus k g" and "idle_at g B (transfer_set (g_need g) 0x02) d"
    and "run_state (st_send_command k ST_CMD_OP_WRITE_BLOCK lba ST_MMC_RSP_R1_ADTC r) d = (c, d')"
  shows "writing_at g B lba [] d'"
proof -
  obtain d1 d2 m where d: "idle_at g B (\<lambda>r. transfer_set (g_need g) 0x02 r \<and> rg_arg r = lba) d1"
    "run_state (hc_write16 k ST_SDHCI_COMMAND CMD24_WORD) d1 = ((), d2)" "keeps False g m" "run_state m d2 = (c, d')"
    using send_ok [OF card assms(2) adtc_words(2) assms(3)] by blast
  have "writing_at g B lba [] d2"
    using card d(1,2) unfolding sd_bus_def sd_commands_def idle_at_def writing_at_def by blast
  then show ?thesis using keeps_writing [OF d(3) _ d(4)] by blast
qed

subsection \<open>The reset\<close>

lemma elapsed:
  assumes "T0 \<le> n" and "n - T0 < 2 ^ 32"
  shows "unat (word_of_nat n - word_of_nat T0 :: u32) = n - T0"
proof -
  have "word_of_nat n - word_of_nat T0 = (word_of_nat (n - T0) :: u32)" using assms(1) by (simp add: of_nat_diff)
  then show ?thesis using assms(2) by (simp add: unat_of_nat take_bit_nat_eq_self)
qed

lemma within_budget:
  assumes "T0 \<le> n" and "n < T0 + b" and "b \<le> 24000000" and "unat B = b"
  shows "\<not> B \<le> word_of_nat n - (word_of_nat T0 :: u32)"
  using elapsed [of T0 n] assms by (simp add: word_le_nat_alt)

lemma reset_wait_ok:
  assumes card: "sd_bus k g" and D: "D + SD_STEP \<le> T0 + unat ST_RESET_DATA_TICK_BUDGET"
  shows "g_ok g d \<Longrightarrow> g_blk g d = B \<Longrightarrow> g_phase g d = Idle \<or> g_phase g d = Resetting \<and> g_due g d \<le> D \<Longrightarrow> T0 \<le> g_now g d \<Longrightarrow>
    D - g_now g d < fuel \<Longrightarrow> \<exists>d'. reset_wait k (word_of_nat T0) fuel d = Some d' \<and> idle_at g B (\<lambda>_. True) d'"
proof (induction fuel arbitrary: d)
  case (Suc f)
  have law: "sd_resets k g" using card by (simp add: sd_bus_def)
  obtain x d1 where s1: "run_state (hc_read8 k ST_SDHCI_SOFTWARE_RESET) d = (x, d1)" by fastforce
  have L: "g_phase g d = Idle \<Longrightarrow> x AND ST_SDHCI_RESET_DATA = 0"
    "g_phase g d = Resetting \<Longrightarrow> g_due g d \<le> g_now g d1 \<Longrightarrow> x AND ST_SDHCI_RESET_DATA = 0"
    "g_phase g d = Resetting \<Longrightarrow> x AND ST_SDHCI_RESET_DATA = 0 \<Longrightarrow> g_phase g d1 = Idle"
    using law Suc.prems(1) s1 unfolding sd_resets_def by blast+
  have q1: "quiet_step g False d d1" by (rule keepsD [OF card_keeps(3) [OF card] Suc.prems(1) s1]) (simp add: reg_defs)
  note n1 = card_now(3) [OF card s1]
  show ?case
  proof (cases "x AND ST_SDHCI_RESET_DATA = 0")
    case True
    then have "idle_at g B (\<lambda>_. True) d1" using L(3) q1 Suc.prems(2,3) by (auto simp: idle_at_def quiet_step_def)
    then show ?thesis using s1 True by simp
  next
    case False
    with L Suc.prems(3) have "g_phase g d = Resetting" "g_due g d \<le> D" "\<not> g_due g d \<le> g_now g d1" by auto
    then have r: "g_phase g d = Resetting" "g_due g d \<le> D" "g_now g d1 < D" by simp_all
    obtain t d2 where s2: "run_state (cntvct k) d1 = (t, d2)" by fastforce
    note n2 = card_now(2) [OF card s2]
    have ok1: "g_ok g d1" using quiet_ok [OF q1] by simp
    have q: "quiet_step g False d d2" by (rule quiet_trans [OF q1 keepsD [OF card_keeps(4) [OF card] ok1 s2]])
    have st: "g_ok g d2" "g_blk g d2 = B" "g_phase g d2 = Idle \<or> g_phase g d2 = Resetting \<and> g_due g d2 \<le> D"
      using q r(1,2) Suc.prems(2) by (auto simp: quiet_step_def)
    have late: "\<not> ST_RESET_DATA_TICK_BUDGET \<le> t - word_of_nat T0"
      using n1 n2 r(3) D Suc.prems(4) within_budget [of T0 "g_now g d2" "unat ST_RESET_DATA_TICK_BUDGET"]
      by (simp add: ST_RESET_DATA_TICK_BUDGET_def)
    have "D - g_now g d2 < f" "T0 \<le> g_now g d2" using n1 n2 r(3) Suc.prems(4,5) by linarith+
    from Suc.IH [OF st this(2,1)] show ?thesis using s1 s2 False late by simp
  qed
qed simp

lemma reset_ok:
  assumes card: "sd_bus k g" and ok: "free_at g B (st_dev s)" and fuel: "sd_fuel \<le> fuel"
  obtains d where "st_data_reset k fuel s = Some (s\<lparr>st_dev := d\<rparr>)" and "idle_at g B (\<lambda>_. True) d"
proof -
  have law: "sd_resets k g" using card by (simp add: sd_bus_def)
  note K = card_keeps(1-5) [OF card, THEN keeps_free]
  obtain b0 d0 where s0: "run_state (hc_read8 k ST_SDHCI_SOFTWARE_RESET) (st_dev s) = (b0, d0)" by fastforce
  have k0: "free_at g B d0" using K(3) [OF _ ok s0] by (simp add: reg_defs)
  obtain x1 d1 where s1: "run_state (hc_read32 k ST_SDHCI_PRESENT_STATE) d0 = (x1, d1)" by fastforce
  have k1: "free_at g B d1" using K(1) [OF _ k0 s1] by (simp add: reg_defs)
  obtain d2 where s2: "run_state (hc_write8 k ST_SDHCI_SOFTWARE_RESET ST_SDHCI_RESET_DATA) d1 = ((), d2)" by (metis prod.exhaust unit.exhaust)
  have k2: "g_ok g d2" "g_blk g d2 = B" "g_phase g d2 = Idle \<or> g_phase g d2 = Resetting \<and> g_due g d2 \<le> g_now g d2 + SD_RESET_DUE"
    using law s2 k1 unfolding sd_resets_def free_at_def by blast+
  obtain t0 d3 where s3: "run_state (cntvct k) d2 = (t0, d3)" by fastforce
  note n3 = card_now(2) [OF card s3]
  have "quiet_step g False d2 d3" by (rule keepsD [OF card_keeps(4) [OF card] k2(1) s3])
  then have k3: "g_ok g d3" "g_blk g d3 = B" "g_phase g d3 = Idle \<or> g_phase g d3 = Resetting \<and> g_due g d3 \<le> g_now g d3 + SD_RESET_DUE"
    using k2 n3 by (auto simp: quiet_step_def)
  have "g_now g d3 + SD_RESET_DUE + SD_STEP \<le> g_now g d3 + unat ST_RESET_DATA_TICK_BUDGET"
    "g_now g d3 + SD_RESET_DUE - g_now g d3 < fuel"
    using fuel by (simp_all add: SD_RESET_DUE_def SD_STEP_def ST_RESET_DATA_TICK_BUDGET_def sd_fuel_def)
  then obtain d4 where d4: "reset_wait k t0 fuel d3 = Some d4" "idle_at g B (\<lambda>_. True) d4"
    using reset_wait_ok [OF card _ k3(1,2,3) order_refl] n3 by blast
  obtain v d5 where s5: "run_state (reset_end k) d4 = (v, d5)" by (rule prod.exhaust)
  have "idle_at g B (\<lambda>_. True) d5" by (rule keeps_idle [OF quiet_parts(4) [OF card] d4(2) s5])
  moreover have "st_data_reset k fuel s = Some (s\<lparr>st_dev := d5\<rparr>)"
    using s0 s1 s2 s3 d4(1) s5 by (simp add: st_data_reset_def reset_begin_def)
  ultimately show ?thesis using that by blast
qed

subsection \<open>The waits\<close>

definition word_ready :: "'d sd_ghost \<Rightarrow> u32 \<Rightarrow> 'd \<Rightarrow> bool" where
  "word_ready g ready d \<longleftrightarrow> ready = ST_SDHCI_DATA_AVAILABLE \<and> (\<exists>w ws. g_phase g d = Reading (w # ws))
     \<or> ready = ST_SDHCI_SPACE_AVAILABLE \<and> (\<exists>lba ws. g_phase g d = Writing lba ws)"

lemma ready_quiet:
  assumes "quiet_step g False d d'" and "word_ready g ready d"
  shows "g_ok g d' \<and> g_phase g d' = g_phase g d \<and> g_blk g d' = g_blk g d \<and> g_due g d' = g_due g d"
  using assms by (auto simp: quiet_step_def word_ready_def)

lemma data_wait_ok:
  assumes card: "sd_bus k g" and D: "D + SD_STEP \<le> T0 + unat ST_EXT_DATA_TICK_BUDGET"
  shows "g_ok g d \<Longrightarrow> word_ready g ready d \<Longrightarrow> g_due g d \<le> D \<Longrightarrow> T0 \<le> g_now g d \<Longrightarrow> D - g_now g d < fuel \<Longrightarrow>
    \<exists>d'. data_wait k ready (word_of_nat T0) fuel steps d = Some (False, d') \<and> g_ok g d' \<and> g_phase g d' = g_phase g d
      \<and> g_blk g d' = g_blk g d \<and> g_due g d' = g_due g d \<and> g_avail g d' \<and> T0 \<le> g_now g d'"
proof (induction fuel arbitrary: steps d)
  case (Suc f)
  obtain ps d1 where s1: "run_state (hc_read32 k ST_SDHCI_PRESENT_STATE) d = (ps, d1)" by fastforce
  have q1: "quiet_step g False d d1" by (rule keepsD [OF card_keeps(1) [OF card] Suc.prems(1) s1]) (simp add: reg_defs)
  note n1 = card_now(1) [OF card s1] and r1 = ready_quiet [OF q1 Suc.prems(2)]
  have p1: "ps AND ready \<noteq> 0 \<Longrightarrow> g_avail g d1" "ps AND ready = 0 \<Longrightarrow> g_now g d1 < D"
    using card_present [OF card Suc.prems(1) s1] Suc.prems(2,3) by (auto simp: present_ok_def word_ready_def)
  show ?case
  proof (cases "ps AND ready = 0")
    case False
    then show ?thesis using s1 r1 p1(1) n1 Suc.prems(4) by auto
  next
    case True
    obtain t d2 where s2: "run_state (cntvct k) d1 = (t, d2)" by fastforce
    note n2 = card_now(2) [OF card s2]
    have q2: "quiet_step g False d1 d2" using keepsD [OF card_keeps(4) [OF card] _ s2] r1 by blast
    have w1: "word_ready g ready d1" using r1 Suc.prems(2) by (simp add: word_ready_def)
    note r2 = ready_quiet [OF q2 w1]
    have w2: "word_ready g ready d2" using r2 w1 by (simp add: word_ready_def)
    have f: "D - g_now g d1 < f" "D - g_now g d2 < f" "T0 \<le> g_now g d1" "T0 \<le> g_now g d2"
      using n1 n2 p1(2) [OF True] Suc.prems(4,5) by linarith+
    have late: "\<not> ST_EXT_DATA_TICK_BUDGET \<le> t - word_of_nat T0"
      using n2 p1(2) [OF True] D f(4) within_budget [of T0 "g_now g d2" "unat ST_EXT_DATA_TICK_BUDGET"]
      by (simp add: ST_EXT_DATA_TICK_BUDGET_def)
    have due: "g_due g d1 \<le> D" "g_due g d2 \<le> D" using r1 r2 Suc.prems(3) by simp_all
    have "data_wait k ready (word_of_nat T0) (Suc f) steps d = (if Suc steps \<ge> ST_EXT_DATA_INNER
        then data_wait k ready (word_of_nat T0) f 0 d2 else data_wait k ready (word_of_nat T0) f (Suc steps) d1)"
      using s1 s2 True late by simp
    moreover have "\<exists>d'. data_wait k ready (word_of_nat T0) f 0 d2 = Some (False, d') \<and> g_ok g d' \<and> g_phase g d' = g_phase g d
        \<and> g_blk g d' = g_blk g d \<and> g_due g d' = g_due g d \<and> g_avail g d' \<and> T0 \<le> g_now g d'"
      using Suc.IH [OF _ w2 due(2) f(4,2), of 0] r1 r2 by auto
    moreover have "\<exists>d'. data_wait k ready (word_of_nat T0) f (Suc steps) d1 = Some (False, d') \<and> g_ok g d' \<and> g_phase g d' = g_phase g d
        \<and> g_blk g d' = g_blk g d \<and> g_due g d' = g_due g d \<and> g_avail g d' \<and> T0 \<le> g_now g d'"
      using Suc.IH [OF _ w1 due(1) f(3,1), of "Suc steps"] r1 by auto
    ultimately show ?thesis by presburger
  qed
qed simp

lemma prog_wait_ok:
  assumes card: "sd_bus k g" and D: "D + SD_STEP \<le> T0 + unat ST_EXT_DATA_TICK_BUDGET"
  shows "settles_to g B D d \<Longrightarrow> T0 \<le> g_now g d \<Longrightarrow> D - g_now g d < fuel \<Longrightarrow>
    \<exists>d'. prog_wait k (word_of_nat T0) fuel d = Some d' \<and> idle_at g B (\<lambda>_. True) d'"
proof (induction fuel arbitrary: d)
  case (Suc f)
  have ok: "g_ok g d" using Suc.prems(1) by (simp add: settles_to_def)
  obtain ps d1 where s1: "run_state (hc_read32 k ST_SDHCI_PRESENT_STATE) d = (ps, d1)" by fastforce
  have q1: "quiet_step g False d d1" by (rule keepsD [OF card_keeps(1) [OF card] ok s1]) (simp add: reg_defs)
  have k1: "settles_to g B D d1" "g_ok g d1" using quiet_phases(4) [OF q1 Suc.prems(1)] by (simp_all add: settles_to_def)
  note n1 = card_now(1) [OF card s1] and P = card_present [OF card ok s1]
  show ?case
  proof (cases "ps AND (ST_SDHCI_DOING_WRITE OR ST_SDHCI_DAT_LINE_ACTIVE) = 0")
    case True
    then have "g_phase g d1 = Idle" using P Suc.prems(1) q1 by (auto simp: present_ok_def settles_to_def quiet_step_def)
    then have "idle_at g B (\<lambda>_. True) d1" using k1(1) by (simp add: settles_to_def idle_at_def)
    then show ?thesis using s1 True by simp
  next
    case False
    then have r: "g_now g d1 < D" using P Suc.prems(1) by (auto simp: present_ok_def settles_to_def)
    obtain t d2 where s2: "run_state (cntvct k) d1 = (t, d2)" by fastforce
    note n2 = card_now(2) [OF card s2]
    have k2: "settles_to g B D d2" by (rule quiet_phases(4) [OF keepsD [OF card_keeps(4) [OF card] k1(2) s2] k1(1)])
    have late: "\<not> ST_EXT_DATA_TICK_BUDGET \<le> t - word_of_nat T0"
      using n1 n2 r D Suc.prems(2) within_budget [of T0 "g_now g d2" "unat ST_EXT_DATA_TICK_BUDGET"]
      by (simp add: ST_EXT_DATA_TICK_BUDGET_def)
    have "D - g_now g d2 < f" "T0 \<le> g_now g d2" using n1 n2 r Suc.prems(2,3) by linarith+
    from Suc.IH [OF k2 this(2,1)] show ?thesis using s1 s2 False late by simp
  qed
qed simp

subsection \<open>The block transfers\<close>

lemma read_words_ok:
  assumes card: "sd_bus k g" and D: "D = T0 + SD_DATA_DUE" and fuel: "sd_fuel \<le> fuel"
  shows "g_ok g d \<Longrightarrow> g_phase g d = Reading ws \<Longrightarrow> g_due g d \<le> D \<Longrightarrow> T0 \<le> g_now g d \<Longrightarrow> length ws = n \<Longrightarrow> i + n \<le> length buf \<Longrightarrow>
    \<exists>d'. read_words k (word_of_nat T0) fuel i n buf d = Some (take i buf @ ws @ drop (i + n) buf, d') \<and> free_at g (g_blk g d) d'"
proof (induction n arbitrary: i buf d ws)
  case 0
  then show ?case by (simp add: free_at_def)
next
  case (Suc n)
  obtain w ws' where ws: "ws = w # ws'" "length ws' = n" using Suc.prems(5) by (auto simp: length_Suc_conv)
  have D': "D + SD_STEP \<le> T0 + unat ST_EXT_DATA_TICK_BUDGET" "D - g_now g d < fuel"
    using D fuel Suc.prems(4) by (simp_all add: SD_DATA_DUE_def SD_STEP_def ST_EXT_DATA_TICK_BUDGET_def sd_fuel_def)
  have ready: "word_ready g ST_SDHCI_DATA_AVAILABLE d" using Suc.prems(2) ws(1) by (simp add: word_ready_def)
  obtain d1 where w1: "data_wait k ST_SDHCI_DATA_AVAILABLE (word_of_nat T0) fuel 0 d = Some (False, d1)" "g_ok g d1"
      "g_phase g d1 = Reading (w # ws')" "g_blk g d1 = g_blk g d" "g_due g d1 \<le> D" "g_avail g d1" "T0 \<le> g_now g d1"
    using data_wait_ok [OF card D'(1) Suc.prems(1) ready Suc.prems(3,4) D'(2), of 0] Suc.prems(2,3) ws(1) by auto
  obtain x d2 where s2: "run_state (hc_read32 k ST_SDHCI_BUFFER) d1 = (x, d2)" by fastforce
  have "sd_data k g" using card by (simp add: sd_bus_def)
  then have k2: "x = w" "g_ok g d2" "g_phase g d2 = Reading ws'" "g_blk g d2 = g_blk g d" "g_due g d2 \<le> D"
    using w1(2-6) s2 unfolding sd_data_def by (metis, metis, metis, metis, metis)
  have t2: "T0 \<le> g_now g d2" using card_now(1) [OF card s2] w1(7) by simp
  have step: "read_words k (word_of_nat T0) fuel i (Suc n) buf d = read_words k (word_of_nat T0) fuel (Suc i) n (buf[i := w]) d2"
    using w1(1) s2 k2(1) by simp
  have i: "i < length buf" using Suc.prems(6) by simp
  have eq: "take (Suc i) (buf[i := w]) @ ws' @ drop (Suc i + n) (buf[i := w]) = take i buf @ ws @ drop (i + Suc n) buf"
    using i ws(1) by (simp add: take_Suc_conv_app_nth take_update_cancel drop_update_cancel)
  have "Suc i + n \<le> length (buf[i := w])" using Suc.prems(6) by simp
  from Suc.IH [OF k2(2,3,5) t2 ws(2) this] show ?case unfolding eq step k2(4) .
qed

lemma write_words_ok:
  assumes card: "sd_bus k g" and D: "D = T0 + SD_DATA_DUE" and fuel: "sd_fuel \<le> fuel"
  shows "g_ok g d \<Longrightarrow> g_phase g d = Writing lba pre \<Longrightarrow> g_due g d \<le> D \<Longrightarrow> T0 \<le> g_now g d \<Longrightarrow> length pre + length ws = 128 \<Longrightarrow> ws \<noteq> [] \<Longrightarrow>
    \<exists>d'. write_words k (word_of_nat T0) fuel ws d = Some d' \<and> settles_to g ((g_blk g d)(lba := pre @ ws)) (g_now g d' + SD_DATA_DUE) d'"
proof (induction ws arbitrary: d pre)
  case (Cons w ws)
  have D': "D + SD_STEP \<le> T0 + unat ST_EXT_DATA_TICK_BUDGET" "D - g_now g d < fuel"
    using D fuel Cons.prems(4) by (simp_all add: SD_DATA_DUE_def SD_STEP_def ST_EXT_DATA_TICK_BUDGET_def sd_fuel_def)
  have ready: "word_ready g ST_SDHCI_SPACE_AVAILABLE d" using Cons.prems(2) by (simp add: word_ready_def)
  obtain d1 where w1: "data_wait k ST_SDHCI_SPACE_AVAILABLE (word_of_nat T0) fuel 0 d = Some (False, d1)" "g_ok g d1"
      "g_phase g d1 = Writing lba pre" "g_blk g d1 = g_blk g d" "g_due g d1 \<le> D" "g_avail g d1" "T0 \<le> g_now g d1"
    using data_wait_ok [OF card D'(1) Cons.prems(1) ready Cons.prems(3,4) D'(2), of 0] Cons.prems(2,3) by auto
  obtain d2 where s2: "run_state (hc_write32 k ST_SDHCI_BUFFER w) d1 = ((), d2)" by (metis prod.exhaust unit.exhaust)
  have "sd_data k g" using card by (simp add: sd_bus_def)
  then have A: "g_ok g d2 \<and> g_blk g d2 = g_blk g d
      \<and> (if length pre = 127 then g_phase g d2 = Programming lba (pre @ [w]) \<and> g_due g d2 \<le> g_now g d2 + SD_DATA_DUE
         else g_phase g d2 = Writing lba (pre @ [w]) \<and> g_due g d2 = g_due g d1)"
    using w1(2,3,4,6) s2 unfolding sd_data_def by metis
  have step: "write_words k (word_of_nat T0) fuel (w # ws) d = write_words k (word_of_nat T0) fuel ws d2" using w1(1) s2 by simp
  show ?case
  proof (cases "ws = []")
    case True
    then have "length pre = 127" using Cons.prems(5) by simp
    with A have "settles_to g ((g_blk g d)(lba := pre @ [w])) (g_now g d2 + SD_DATA_DUE) d2" by (simp add: settles_to_def)
    moreover have "write_words k (word_of_nat T0) fuel (w # ws) d = Some d2" unfolding step using True by simp
    ultimately show ?thesis unfolding True by blast
  next
    case False
    then have "length pre \<noteq> 127" using Cons.prems(5) by (cases ws) simp_all
    with A w1(5) have k2: "g_ok g d2" "g_phase g d2 = Writing lba (pre @ [w])" "g_due g d2 \<le> D" "g_blk g d2 = g_blk g d"
      by simp_all
    have t2: "T0 \<le> g_now g d2"
    proof -
      have "ticks_on (g_now g) 0 (hc_write32 k ST_SDHCI_BUFFER w)" using card by (simp add: sd_bus_def sd_clock_def)
      then show ?thesis using s2 w1(7) unfolding ticks_on_def by (metis add_0_right order_trans snd_conv)
    qed
    have "length (pre @ [w]) + length ws = 128" using Cons.prems(5) by simp
    from Cons.IH [OF k2(1,2,3) t2 this False] show ?thesis unfolding step k2(4) by simp
  qed
qed simp

definition read_lba_of :: "'d sd_state \<Rightarrow> u32" where
  "read_lba_of s = (if st_driver_lba_set s \<noteq> 0 then st_driver_lba s else st_sector_for_read s (st_read_count s))"

definition after_read :: "'d \<Rightarrow> u32 \<Rightarrow> u32 list \<Rightarrow> 'd sd_state \<Rightarrow> 'd sd_state" where
  "after_read d lba bs s = s\<lparr>st_dev := d, st_read_block := bs, st_read_lba := lba, st_driver_get := st_driver_lba_set s,
     st_driver_lba_set := 0, st_read_count := st_read_count s + 1\<rparr>"

text \<open>The data timeout the doors set is the card's own, of at most 15, and enough for it.\<close>

definition timeout_fits :: "'d sd_ghost \<Rightarrow> 'd sd_state \<Rightarrow> bool" where
  "timeout_fits g s \<longleftrightarrow> g_need g \<le> unat (tout_count s)"

lemma tout_loop_bound: "unat c + n < 2 ^ 32 \<Longrightarrow> unat (tout_loop n c st t) \<le> unat c + n"
proof (induction n arbitrary: c st)
  case (Suc n)
  have "unat (c + 1) = unat c + 1" using Suc.prems by (subst unat_add_lem [THEN iffD1]) simp_all
  then show ?case using Suc.IH [of "c + 1" "push_bit 1 st"] Suc.prems by simp
qed simp

lemma timeout_need:
  assumes "timeout_fits g s"
  shows "g_need g \<le> unat (ucast (tout_count s) :: u8)"
proof -
  have "unat (tout_count s) \<le> 15"
    unfolding tout_count_def Let_def using tout_loop_bound [of 0 15] by simp
  then have "unat (ucast (tout_count s) :: u8) = unat (tout_count s)"
    by (simp add: unsigned_ucast_eq take_bit_nat_eq_self)
  then show ?thesis using assms by (simp add: timeout_fits_def)
qed

lemma timeout_same:
  "timeout_fits g (s\<lparr>st_dev := d\<rparr>) = timeout_fits g s" "timeout_fits g (after_read d lba bs s) = timeout_fits g s"
  by (simp_all add: timeout_fits_def tout_count_def after_read_def)

lemma read_block_ok:
  assumes card: "sd_bus k g" and ok: "idle_at g B (\<lambda>_. True) (st_dev s)" and need: "timeout_fits g s"
    and len: "length (st_read_block s) = 128" and fuel: "sd_fuel \<le> fuel"
  obtains d where "st_read_single_block k fuel en s = Some (after_read d (read_lba_of s) (B (read_lba_of s)) s)" and "free_at g B d"
proof -
  let ?full = "st_read_count s < 64"
  obtain pre d1 where s1: "run_state (hc_read32 k ST_SDHCI_RESPONSE) (st_dev s) = (pre, d1)" by fastforce
  have k1: "idle_at g B (\<lambda>_. True) d1" by (rule keeps_idle [OF card_keeps(1) [OF card] ok s1]) (simp add: reg_defs)
  note c1 = card_response [OF card ok s1]
  obtain was d2 where s2: "run_state (read_setup k ?full en (tout_count s)) d1 = (was, d2)" by fastforce
  have k2: "idle_at g B (transfer_set (g_need g) 0x12) d2"
    using read_setup_sat [OF card timeout_need [OF need]] k1 s2 unfolding sat_def by blast
  obtain c d3 where s3: "run_state (st_send_command k ST_CMD_OP_READ_SINGLE_BLOCK (read_lba_of s) ST_MMC_RSP_R1_ADTC cmd_zero) d2 = (c, d3)"
    by fastforce
  note k3 = send_read [OF card k2 s3]
  obtain t0 d4 where s4: "run_state (cntvct k) d3 = (t0, d4)" by fastforce
  have len': "length (B (read_lba_of s)) = 128" using card_len [OF card, of d2] k2 by (auto simp: idle_at_def)
  then have "reading_at g B (B (read_lba_of s)) d4" by (intro keeps_reading [OF card_keeps(4) [OF card] k3 _ s4]) auto
  then have k4: "g_ok g d4" "g_phase g d4 = Reading (B (read_lba_of s))" "g_blk g d4 = B" "g_due g d4 \<le> g_now g d4 + SD_DATA_DUE"
    by (simp_all add: reading_at_def)
  note t0 = card_now(2) [OF card s4, THEN conjunct2, THEN conjunct2]
  obtain d5 where words: "read_words k t0 fuel 0 ST_EXT_CSD_WORDS (st_read_block s) d4 = Some (B (read_lba_of s), d5)" "free_at g B d5"
    using read_words_ok [OF card refl fuel k4(1,2,4) order_refl len', of 0 "st_read_block s"] len k4(3) t0
    by (auto simp: ST_EXT_CSD_WORDS_def)
  obtain v d6 where s6: "run_state (read_restore k ?full en was) d5 = (v, d6)" by (rule prod.exhaust)
  have "free_at g B d6" by (rule keeps_free [OF quiet_parts(1) [OF card] words(2) s6])
  moreover have "st_read_single_block k fuel en s = Some (after_read d6 (read_lba_of s) (B (read_lba_of s)) s)"
    using s1 c1 s2 s3 s4 words(1) s6 by (simp add: st_read_single_block_def after_read_def read_lba_of_def [symmetric] Let_def)
  ultimately show ?thesis using that by blast
qed

text \<open>A reset and a read, as the ladder pairs them.\<close>

lemma read_ok:
  assumes card: "sd_bus k g" and ok: "free_at g B (st_dev s)" and need: "timeout_fits g s"
    and len: "length (st_read_block s) = 128" and fuel: "sd_fuel \<le> fuel"
  obtains d where "Option.bind (st_data_reset k fuel s) (st_read_single_block k fuel en)
      = Some (after_read d (read_lba_of s) (B (read_lba_of s)) s)" and "free_at g B d"
proof -
  obtain d1 where d1: "st_data_reset k fuel s = Some (s\<lparr>st_dev := d1\<rparr>)" "idle_at g B (\<lambda>_. True) d1"
    using reset_ok [OF card ok fuel] by blast
  have same: "read_lba_of (s\<lparr>st_dev := d1\<rparr>) = read_lba_of s"
    "after_read d x y (s\<lparr>st_dev := d1\<rparr>) = after_read d x y s" for d x y
    by (simp_all add: read_lba_of_def st_sector_for_read_def after_read_def)
  have idle: "idle_at g B (\<lambda>_. True) (st_dev (s\<lparr>st_dev := d1\<rparr>))" "timeout_fits g (s\<lparr>st_dev := d1\<rparr>)"
    "length (st_read_block (s\<lparr>st_dev := d1\<rparr>)) = 128"
    using d1(2) len need by (simp_all add: timeout_same)
  obtain d2 where "st_read_single_block k fuel en (s\<lparr>st_dev := d1\<rparr>)
      = Some (after_read d2 (read_lba_of s) (B (read_lba_of s)) s)" "free_at g B d2"
    using read_block_ok [OF card idle fuel, of en] unfolding same by blast
  then show ?thesis using that d1(1) by simp
qed

lemma write_ok:
  assumes card: "sd_bus k g" and ok: "free_at g B (st_dev s)" and need: "timeout_fits g s"
    and len: "length (st_write_block s) = 128" and fuel: "sd_fuel \<le> fuel"
  obtains d where "Option.bind (st_data_reset k fuel s) (st_write_single_block k fuel lba) = Some (s\<lparr>st_dev := d\<rparr>)"
    and "free_at g (B(lba := st_write_block s)) d"
proof -
  let ?B = "B(lba := st_write_block s)"
  obtain d0 where d0: "st_data_reset k fuel s = Some (s\<lparr>st_dev := d0\<rparr>)" "idle_at g B (\<lambda>_. True) d0"
    using reset_ok [OF card ok fuel] by blast
  obtain pre d1 where s1: "run_state (hc_read32 k ST_SDHCI_RESPONSE) d0 = (pre, d1)" by fastforce
  have k1: "idle_at g B (\<lambda>_. True) d1" by (rule keeps_idle [OF card_keeps(1) [OF card] d0(2) s1]) (simp add: reg_defs)
  note c1 = card_response [OF card d0(2) s1]
  obtain was d2 where s2: "run_state (write_setup k (tout_count s)) d1 = (was, d2)" by fastforce
  have k2: "idle_at g B (transfer_set (g_need g) 0x02) d2"
    using write_setup_sat [OF card timeout_need [OF need]] k1 s2 unfolding sat_def by blast
  obtain c d3 where s3: "run_state (st_send_command k ST_CMD_OP_WRITE_BLOCK lba ST_MMC_RSP_R1_ADTC cmd_zero) d2 = (c, d3)"
    by fastforce
  note k3 = send_write [OF card k2 s3]
  obtain t0 d4 where s4: "run_state (cntvct k) d3 = (t0, d4)" by fastforce
  have "writing_at g B lba [] d4" by (rule keeps_writing [OF card_keeps(4) [OF card] k3 s4])
  then have k4: "g_ok g d4" "g_phase g d4 = Writing lba []" "g_blk g d4 = B" "g_due g d4 \<le> g_now g d4 + SD_DATA_DUE"
    by (simp_all add: writing_at_def)
  note t0 = card_now(2) [OF card s4, THEN conjunct2, THEN conjunct2]
  have ws: "length ([] :: u32 list) + length (st_write_block s) = 128" "st_write_block s \<noteq> []" using len by auto
  obtain d5 where words: "write_words k t0 fuel (st_write_block s) d4 = Some d5" "settles_to g ?B (g_now g d5 + SD_DATA_DUE) d5"
    using write_words_ok [OF card refl fuel k4(1,2,4) order_refl ws] k4(3) t0 by auto
  obtain tp d6 where s6: "run_state (do { _ \<leftarrow> hc_read32 k ST_SDHCI_INT_STATUS; cntvct k }) d5 = (tp, d6)" by fastforce
  have ok5: "g_ok g d5" using words(2) by (simp add: settles_to_def)
  have q6: "quiet_step g False d5 d6" by (rule keepsD [OF quiet_parts(5) [OF card] ok5 s6])
  obtain x e where se: "run_state (hc_read32 k ST_SDHCI_INT_STATUS) d5 = (x, e)" "run_state (cntvct k) e = (tp, d6)"
    using s6 by (auto split: prod.splits)
  have tp: "tp = word_of_nat (g_now g d6)" using card_now(2) [OF card se(2)] by simp
  have n6: "g_now g d5 \<le> g_now g d6" using quiet_ok [OF q6] by simp
  then have "settles_to g ?B (g_now g d6 + SD_DATA_DUE) d6"
    using quiet_phases(4) [OF q6 words(2)] by (auto simp: settles_to_def)
  moreover have "g_now g d6 + SD_DATA_DUE + SD_STEP \<le> g_now g d6 + unat ST_EXT_DATA_TICK_BUDGET"
    "g_now g d6 + SD_DATA_DUE - g_now g d6 < fuel"
    using fuel by (simp_all add: SD_DATA_DUE_def SD_STEP_def ST_EXT_DATA_TICK_BUDGET_def sd_fuel_def)
  ultimately obtain d7 where d7: "prog_wait k tp fuel d6 = Some d7" "idle_at g ?B (\<lambda>_. True) d7"
    using prog_wait_ok [OF card _ _ order_refl] tp by metis
  obtain u d8 where s8: "run_state (write_restore k was) d7 = (u, d8)" by (rule prod.exhaust)
  have "free_at g ?B d8" by (rule keeps_free [OF quiet_parts(2) [OF card] idle_free [OF d7(2)] s8])
  moreover have "st_write_single_block k fuel lba (s\<lparr>st_dev := d0\<rparr>) = Some (s\<lparr>st_dev := d8\<rparr>)"
    using s1 c1 s2 s3 s4 words(1) s6 d7(1) s8 by (simp add: st_write_single_block_def tout_count_def Let_def)
  ultimately show ?thesis using that d0(1) by simp
qed

subsection \<open>Any device\<close>

text \<open>The waits end over any device, at their budget if nothing else, where the counter runs.\<close>

lemma clock_now:
  assumes "sd_clock k now"
  shows "run_state (hc_read32 k r) d = (x, d') \<Longrightarrow> now d + 1 \<le> now d' \<and> now d' \<le> now d + SD_STEP"
    and "run_state (hc_read8 k r) d = (y, d') \<Longrightarrow> now d + 1 \<le> now d' \<and> now d' \<le> now d + SD_STEP"
    and "run_state (cntvct k) d = (t, d') \<Longrightarrow> now d \<le> now d' \<and> now d' \<le> now d + SD_STEP \<and> t = word_of_nat (now d')"
  using assms unfolding sd_clock_def ticks_on_def by (metis snd_conv, metis snd_conv, metis add_0_right fst_conv snd_conv)

lemma reset_wait_ends:
  assumes "sd_clock k now" and "E = T0 + unat ST_RESET_DATA_TICK_BUDGET"
  shows "T0 \<le> now d \<Longrightarrow> now d < E \<Longrightarrow> E - now d < fuel \<Longrightarrow> \<exists>d'. reset_wait k (word_of_nat T0) fuel d = Some d'"
proof (induction fuel arbitrary: d)
  case (Suc f)
  obtain x d1 where s1: "run_state (hc_read8 k ST_SDHCI_SOFTWARE_RESET) d = (x, d1)" by fastforce
  obtain t d2 where s2: "run_state (cntvct k) d1 = (t, d2)" by fastforce
  note n = clock_now(2) [OF assms(1) s1] clock_now(3) [OF assms(1) s2]
  have "T0 \<le> now d2" "now d2 < E + 2 * SD_STEP" using n Suc.prems(1,2) by linarith+
  then have le: "T0 \<le> now d2" "now d2 - T0 < 2 ^ 32"
    using assms(2) by (simp_all add: SD_STEP_def ST_RESET_DATA_TICK_BUDGET_def)
  have t: "unat (t - word_of_nat T0) = now d2 - T0" using elapsed [OF le] n by simp
  show ?case
  proof (cases "ST_RESET_DATA_TICK_BUDGET \<le> t - word_of_nat T0")
    case True
    then show ?thesis using s1 s2 by simp
  next
    case False
    then have "now d2 < E" using t le assms(2) by (simp add: word_le_nat_alt)
    moreover have "E - now d2 < f" using n Suc.prems(2,3) calculation by linarith
    ultimately show ?thesis using Suc.IH [OF le(1)] s1 s2 by simp
  qed
qed simp

lemma data_wait_ends:
  assumes "sd_clock k now" and "E = T0 + unat ST_EXT_DATA_TICK_BUDGET"
    and Y: "E + 257 * SD_STEP \<le> Y" "Y - T0 < 2 ^ 32"
  shows "T0 \<le> now d \<Longrightarrow> now d + (256 - steps) * SD_STEP + SD_STEP \<le> Y \<Longrightarrow> steps < 256 \<Longrightarrow> E + 256 - now d \<le> fuel \<Longrightarrow> 256 - steps \<le> fuel \<Longrightarrow>
    \<exists>b d'. data_wait k ready (word_of_nat T0) fuel steps d = Some (b, d') \<and> T0 \<le> now d' \<and> now d' \<le> Y"
proof (induction fuel arbitrary: steps d)
  case (Suc f)
  obtain ps d1 where s1: "run_state (hc_read32 k ST_SDHCI_PRESENT_STATE) d = (ps, d1)" by fastforce
  obtain t d2 where s2: "run_state (cntvct k) d1 = (t, d2)" by fastforce
  note n1 = clock_now(1) [OF assms(1) s1] and n2 = clock_now(3) [OF assms(1) s2]
  have room: "now d + SD_STEP + (256 - Suc steps) * SD_STEP + SD_STEP \<le> Y"
  proof -
    have "256 - steps = Suc (256 - Suc steps)" using Suc.prems(3) by simp
    then show ?thesis using Suc.prems(2) by simp
  qed
  have y1: "T0 \<le> now d1" "now d1 + (256 - Suc steps) * SD_STEP + SD_STEP \<le> Y" using n1 Suc.prems(1) room by linarith+
  have y2: "T0 \<le> now d2" "now d2 \<le> Y" using n2 y1 by linarith+
  show ?case
  proof (cases "ps AND ready = 0")
    case False
    moreover have "now d1 \<le> Y" using y1(2) by linarith
    ultimately show ?thesis using s1 y1(1) by auto
  next
    case True
    show ?thesis
    proof (cases "Suc steps \<ge> ST_EXT_DATA_INNER")
      case no: False
      have "steps < 255" using no by (simp add: ST_EXT_DATA_INNER_def)
      then have "E + 256 - now d1 \<le> f" "256 - Suc steps \<le> f" "Suc steps < 256" using n1 Suc.prems(4,5) by linarith+
      from Suc.IH [OF y1 this(3,1,2)] show ?thesis using s1 True no by simp
    next
      case yes: True
      show ?thesis
      proof (cases "ST_EXT_DATA_TICK_BUDGET \<le> t - word_of_nat T0")
        case over: True
        then show ?thesis using s1 s2 True yes y2 by auto
      next
        case more: False
        have "unat (t - word_of_nat T0) = now d2 - T0" using elapsed [OF y2(1)] y2(2) Y(2) n2 by simp
        then have lt: "now d2 < E" using more y2(1) assms(2) by (simp add: word_le_nat_alt)
        have "now d2 + (256 - 0) * SD_STEP + SD_STEP \<le> Y" using lt Y(1) by (simp add: SD_STEP_def)
        moreover have "E + 256 - now d2 \<le> f" "256 - 0 \<le> f" using lt n1 n2 Suc.prems(4) by linarith+
        ultimately show ?thesis using Suc.IH [OF y2(1), of 0] s1 s2 True yes more by simp
      qed
    qed
  qed
qed simp

lemma read_words_ends:
  assumes clock: "sd_clock k now" and E: "E = T0 + unat ST_EXT_DATA_TICK_BUDGET" and fuel: "sd_fuel \<le> fuel"
  shows "T0 \<le> now d \<Longrightarrow> now d \<le> E + j * (258 * SD_STEP) \<Longrightarrow> j + n \<le> 128 \<Longrightarrow>
    \<exists>blk' d'. read_words k (word_of_nat T0) fuel i n blk d = Some (blk', d')"
proof (induction n arbitrary: i j blk d)
  case (Suc n)
  have j: "j * (258 * SD_STEP) \<le> 127 * (258 * SD_STEP)" using Suc.prems(3) by (intro mult_le_mono1) simp
  have Y: "E + 257 * SD_STEP \<le> E + j * (258 * SD_STEP) + 257 * SD_STEP" "E + j * (258 * SD_STEP) + 257 * SD_STEP - T0 < 2 ^ 32"
    using j E by (simp_all add: SD_STEP_def ST_EXT_DATA_TICK_BUDGET_def)
  have w: "now d + (256 - 0) * SD_STEP + SD_STEP \<le> E + j * (258 * SD_STEP) + 257 * SD_STEP" using Suc.prems(2) by simp
  have f: "E + 256 - now d \<le> fuel" "256 - 0 \<le> fuel"
    using fuel E Suc.prems(1) by (simp_all add: sd_fuel_def ST_EXT_DATA_TICK_BUDGET_def)
  obtain b d1 where d1: "data_wait k ST_SDHCI_DATA_AVAILABLE (word_of_nat T0) fuel 0 d = Some (b, d1)" "T0 \<le> now d1"
      "now d1 \<le> E + j * (258 * SD_STEP) + 257 * SD_STEP"
    using data_wait_ends [OF clock E Y Suc.prems(1) w _ f, of ST_SDHCI_DATA_AVAILABLE] by auto
  obtain v d2 where s2: "run_state (hc_read32 k ST_SDHCI_BUFFER) d1 = (v, d2)" by fastforce
  note n2 = clock_now(1) [OF clock s2]
  have "T0 \<le> now d2" "now d2 \<le> E + Suc j * (258 * SD_STEP)" "Suc j + n \<le> 128" using d1(2,3) n2 Suc.prems(3) by simp_all
  note IH = Suc.IH [OF this]
  show ?case using d1(1) s2 IH by (cases b) simp_all
qed simp

lemma clock_reset:
  assumes clock: "sd_clock k now" and fuel: "sd_fuel \<le> fuel"
  obtains d where "st_data_reset k fuel s = Some (s\<lparr>st_dev := d\<rparr>)"
proof -
  obtain b0 d0 where s0: "run_state (hc_read8 k ST_SDHCI_SOFTWARE_RESET) (st_dev s) = (b0, d0)" by fastforce
  obtain x1 d1 where s1: "run_state (hc_read32 k ST_SDHCI_PRESENT_STATE) d0 = (x1, d1)" by fastforce
  obtain d2 where s2: "run_state (hc_write8 k ST_SDHCI_SOFTWARE_RESET ST_SDHCI_RESET_DATA) d1 = ((), d2)" by (metis prod.exhaust unit.exhaust)
  obtain t0 d3 where s3: "run_state (cntvct k) d2 = (t0, d3)" by fastforce
  have t0: "t0 = word_of_nat (now d3)" using clock_now(3) [OF clock s3] by simp
  have "now d3 < now d3 + unat ST_RESET_DATA_TICK_BUDGET" "now d3 + unat ST_RESET_DATA_TICK_BUDGET - now d3 < fuel"
    using fuel by (simp_all add: ST_RESET_DATA_TICK_BUDGET_def sd_fuel_def)
  then obtain d4 where "reset_wait k t0 fuel d3 = Some d4"
    using reset_wait_ends [OF clock refl order_refl] t0 by blast
  then show ?thesis using that s0 s1 s2 s3 by (simp add: st_data_reset_def reset_begin_def)
qed

lemma clock_read_block:
  assumes clock: "sd_clock k now" and fuel: "sd_fuel \<le> fuel"
  obtains s' where "st_read_single_block k fuel en s = Some s'"
proof (cases "card_state (fst (run_state (hc_read32 k ST_SDHCI_RESPONSE) (st_dev s))) = 4")
  case False
  then show ?thesis using that by (simp add: st_read_single_block_def Let_def case_prod_beta)
next
  case True
  let ?full = "st_read_count s < 64"
  obtain pre d1 where s1: "run_state (hc_read32 k ST_SDHCI_RESPONSE) (st_dev s) = (pre, d1)" by fastforce
  obtain was d2 where s2: "run_state (read_setup k ?full en (tout_count s)) d1 = (was, d2)" by fastforce
  obtain c d3 where s3: "run_state (st_send_command k ST_CMD_OP_READ_SINGLE_BLOCK (read_lba_of s) ST_MMC_RSP_R1_ADTC cmd_zero) d2 = (c, d3)"
    by fastforce
  obtain t0 d4 where s4: "run_state (cntvct k) d3 = (t0, d4)" by fastforce
  have t0: "t0 = word_of_nat (now d4)" using clock_now(3) [OF clock s4] by simp
  obtain blk d5 where "read_words k t0 fuel 0 ST_EXT_CSD_WORDS (st_read_block s) d4 = Some (blk, d5)"
    using read_words_ends [OF clock refl fuel order_refl, of d4 0 128 0 "st_read_block s"] t0 by (auto simp: ST_EXT_CSD_WORDS_def)
  then show ?thesis using that s1 s2 s3 s4 True by (simp add: st_read_single_block_def read_lba_of_def [symmetric] Let_def)
qed

end
