(* ===== verification/Storage_Table.thy ===== *)
theory Storage_Table
  imports Storage_Proofs
begin

text \<open>
  The ladder's data reads over a working card: the partition table as a function of the card's
  blocks (\<open>gpt_ent\<close>), the selection as a fold over its entries (\<open>gpt_best\<close>), and the path from the
  header to the selected partition's superblock.
\<close>

unbundle bit_operations_syntax

subsection \<open>The partition table\<close>

text \<open>Entry \<open>e\<close> of the table at sector \<open>arr\<close>, with entries of \<open>w\<close> words: its first and last
  sector, \<open>None\<close> for an unused one.\<close>

definition gpt_ent :: "(u32 \<Rightarrow> u32 list) \<Rightarrow> u32 \<Rightarrow> nat \<Rightarrow> nat \<Rightarrow> (u32 \<times> u32) option" where
  "gpt_ent blk arr w e =
    (let b = blk (arr + word_of_nat (e div (128 div w))); off = e mod (128 div w) * w
     in if b ! off = 0 \<and> b ! (off + 1) = 0 \<and> b ! (off + 2) = 0 \<and> b ! (off + 3) = 0 then None
        else Some (b ! (off + 8), b ! (off + 10)))"

definition gpt_extent :: "u32 \<times> u32 \<Rightarrow> u32" where
  "gpt_extent p = (if snd p \<ge> fst p then snd p - fst p else 0)"

definition gpt_pick :: "(u32 \<times> u32) option \<Rightarrow> u32 \<times> u32 \<Rightarrow> u32 \<times> u32" where
  "gpt_pick ent sel = (case ent of None \<Rightarrow> sel
     | Some p \<Rightarrow> if gpt_extent p > fst sel then (gpt_extent p, fst p) else sel)"

fun gpt_best :: "(nat \<Rightarrow> (u32 \<times> u32) option) \<Rightarrow> nat \<Rightarrow> u32 \<times> u32" where
  "gpt_best ents 0 = (0, 0)"
| "gpt_best ents (Suc n) = gpt_pick (ents n) (gpt_best ents n)"

lemma gpt_best_max: "e < n \<Longrightarrow> ents e = Some p \<Longrightarrow> gpt_extent p \<le> fst (gpt_best ents n)"
proof (induction n)
  case (Suc n)
  have mono: "fst (gpt_best ents n) \<le> fst (gpt_best ents (Suc n))"
    by (auto simp: gpt_pick_def split: option.splits)
  show ?case
  proof (cases "e = n")
    case True
    then show ?thesis using Suc.prems(2) by (auto simp: gpt_pick_def not_less)
  next
    case False
    then show ?thesis using Suc.IH Suc.prems mono by (metis less_antisym order_trans)
  qed
qed simp

lemma gpt_best_first:
  "fst (gpt_best ents n) \<noteq> 0 \<Longrightarrow> \<exists>e < n. \<exists>p. ents e = Some p \<and> gpt_best ents n = (gpt_extent p, fst p)
     \<and> (\<forall>e' < e. \<forall>q. ents e' = Some q \<longrightarrow> gpt_extent q < gpt_extent p)"
proof (induction n)
  case (Suc n)
  show ?case
  proof (cases "gpt_best ents (Suc n) = gpt_best ents n")
    case True
    then show ?thesis using Suc by (metis less_Suc_eq)
  next
    case False
    then obtain p where p: "ents n = Some p" "gpt_extent p > fst (gpt_best ents n)" "gpt_best ents (Suc n) = (gpt_extent p, fst p)"
      by (auto simp: gpt_pick_def split: option.splits if_splits)
    have "gpt_extent q < gpt_extent p" if "e' < n" "ents e' = Some q" for e' q
      using gpt_best_max [of e' n ents q] that p(2) by (meson le_less_trans)
    then show ?thesis using p by blast
  qed
qed simp

text \<open>What parsing an entry does not touch.\<close>

definition outside_selection ::
    "'d sd_state \<Rightarrow> 'd \<times> u32 list \<times> u32 \<times> u32 \<times> u32 list \<times> u32 \<times> u32 \<times> u32 \<times> u32 \<times> u32 \<times> u32" where
  "outside_selection s = (st_dev s, st_csd_words s, st_csd_words_valid s, st_ext_sec_count s, st_read_block s, st_read_count s, st_driver_lba_set s, st_gpt_nentries s, st_gpt_entry_size s,
     st_gpt_entry_lba s, st_gpt_array_nsec s)"

definition selection :: "'d sd_state \<Rightarrow> u32 \<times> u32" where
  "selection s = (st_gpt_best_extent s, st_gpt_data_sector s)"

lemma gpt_entry_step:
  assumes "off + 17 < 128"
  obtains s' where "gpt_entry sec off s = Some s'" and "outside_selection s' = outside_selection s"
    and "selection s' = gpt_pick (let b = st_read_block s in
        if b ! off = 0 \<and> b ! (off + 1) = 0 \<and> b ! (off + 2) = 0 \<and> b ! (off + 3) = 0 then None
        else Some (b ! (off + 8), b ! (off + 10))) (selection s)"
proof -
  let ?b = "st_read_block s"
  have rb: "rb s (off + i) = Some (?b ! (off + i))" if "i \<le> 17" for i
    using assms that by (simp add: rb_def ST_EXT_CSD_WORDS_def)
  have reads: "rb s off = Some (?b ! off)" "rb s (off + 1) = Some (?b ! (off + 1))" "rb s (off + 2) = Some (?b ! (off + 2))"
    "rb s (off + 3) = Some (?b ! (off + 3))" "rb s (off + ST_GPT_E_FIRST_W) = Some (?b ! (off + 8))"
    "rb s (off + ST_GPT_E_LAST_W) = Some (?b ! (off + 10))" "rb s (off + ST_GPT_E_NAME_W0) = Some (?b ! (off + 14))"
    "rb s (off + ST_GPT_E_NAME_W0 + 1) = Some (?b ! (off + 15))" "rb s (off + ST_GPT_E_NAME_W0 + 2) = Some (?b ! (off + 16))"
    "rb s (off + ST_GPT_E_NAME_W0 + 3) = Some (?b ! (off + 17))"
    using rb [of 0] rb [of 1] rb [of 2] rb [of 3] rb [of 8] rb [of 10] rb [of 14] rb [of 15] rb [of 16] rb [of 17]
    by (simp_all add: ST_GPT_E_FIRST_W_def ST_GPT_E_LAST_W_def ST_GPT_E_NAME_W0_def numeral_eq_Suc)
  show ?thesis
  proof (cases "?b ! off = 0 \<and> ?b ! (off + 1) = 0 \<and> ?b ! (off + 2) = 0 \<and> ?b ! (off + 3) = 0")
    case True
    then show ?thesis using that [of s] reads by (simp add: gpt_entry_def gpt_pick_def)
  next
    case False
    define x where "x = gpt_extent (?b ! (off + 8), ?b ! (off + 10))"
    have x: "(if ?b ! (off + 8) \<le> ?b ! (off + 10) then ?b ! (off + 10) - ?b ! (off + 8) else 0) = x"
      by (simp add: x_def gpt_extent_def)
    define s1 where "s1 = (if st_gpt_part_sector s = 0 then s\<lparr>st_gpt_part_sector := ?b ! (off + 8)\<rparr> else s)"
    have s1: "st_gpt_best_extent s1 = st_gpt_best_extent s" "outside_selection s1 = outside_selection s" "selection s1 = selection s"
      by (simp_all add: s1_def outside_selection_def selection_def)
    have pick: "gpt_pick (Some (?b ! (off + 8), ?b ! (off + 10))) (selection s)
        = (if x > st_gpt_best_extent s then (x, ?b ! (off + 8)) else selection s)"
      by (simp add: gpt_pick_def x_def selection_def)
    have step: "gpt_entry sec off s = (if x > st_gpt_best_extent s1 then
        Some (s1\<lparr>st_gpt_best_extent := x, st_gpt_data_sector := ?b ! (off + 8), st_gpt_scan_sector := st_gpt_entry_lba s + sec,
                 st_gpt_data_type := [?b ! off, ?b ! (off + 1), ?b ! (off + 2), ?b ! (off + 3)],
                 st_gpt_data_name := [?b ! (off + 14), ?b ! (off + 15), ?b ! (off + 16), ?b ! (off + 17)]\<rparr>) else Some s1)"
      unfolding gpt_entry_def by (simp only: reads Option.bind_lunit if_not_P [OF False] Let_def x s1_def [symmetric])
    show ?thesis
    proof (cases "x > st_gpt_best_extent s")
      case True
      with step s1 that show ?thesis unfolding Let_def if_not_P [OF False] pick
        by (simp add: outside_selection_def selection_def)
    next
      case no: False
      with step s1 that show ?thesis unfolding Let_def if_not_P [OF False] pick by simp
    qed
  qed
qed


subsection \<open>One sector of the table\<close>

text \<open>\<open>w\<close> words to an entry, of 128 bytes at least.\<close>

definition entry_words :: "nat \<Rightarrow> bool" where
  "entry_words w \<longleftrightarrow> 32 \<le> w \<and> w < 2 ^ 30"

lemma gpt_ent_at:
  assumes "k < 128 div w"
  shows "gpt_ent blk arr w (j * (128 div w) + k) = (let b = blk (arr + word_of_nat j) in
     if b ! (k * w) = 0 \<and> b ! (k * w + 1) = 0 \<and> b ! (k * w + 2) = 0 \<and> b ! (k * w + 3) = 0 then None
     else Some (b ! (k * w + 8), b ! (k * w + 10)))"
proof -
  have "(j * (128 div w) + k) div (128 div w) = j" "(j * (128 div w) + k) mod (128 div w) = k" using assms by simp_all
  then show ?thesis unfolding gpt_ent_def by (simp add: Let_def)
qed

lemma entry_offset:
  assumes "entry_words w" and "k < 128 div w"
  shows "unat (word_of_nat k * word_of_nat w :: u32) = k * w" and "k * w + 17 < 128"
proof -
  have *: "k * w + w \<le> 128"
  proof -
    have "Suc k * w \<le> 128 div w * w" using assms(2) by (intro mult_le_mono1) simp
    also have "\<dots> \<le> 128" by simp
    finally show ?thesis by simp
  qed
  then show "k * w + 17 < 128" using assms(1) by (simp add: entry_words_def)
  show "unat (word_of_nat k * word_of_nat w :: u32) = k * w"
    using * by (simp add: unat_of_nat take_bit_nat_eq_self flip: of_nat_mult)
qed

lemma entry_loop_ok:
  assumes "entry_words w" and "k + n \<le> 128 div w" and "st_read_block s = blk (arr + word_of_nat j)"
    and "selection s = gpt_best (gpt_ent blk arr w) (j * (128 div w) + k)"
  shows "\<exists>s'. entry_loop sec (word_of_nat w) k n s = Some s' \<and> outside_selection s' = outside_selection s
    \<and> selection s' = gpt_best (gpt_ent blk arr w) (j * (128 div w) + (k + n))"
  using assms(2-4)
proof (induction n arbitrary: k s)
  case (Suc n)
  have k: "k < 128 div w" "Suc k + n \<le> 128 div w" using Suc.prems(1) by simp_all
  note off = entry_offset [OF assms(1) k(1)]
  obtain s1 where s1: "gpt_entry sec (k * w) s = Some s1" "outside_selection s1 = outside_selection s"
    "selection s1 = gpt_pick (gpt_ent blk arr w (j * (128 div w) + k)) (selection s)"
    using gpt_entry_step [OF off(2)] unfolding gpt_ent_at [OF k(1)] Suc.prems(2) [symmetric] by blast
  have b1: "st_read_block s1 = blk (arr + word_of_nat j)" using s1(2) Suc.prems(2) by (simp add: outside_selection_def)
  have p1: "selection s1 = gpt_best (gpt_ent blk arr w) (j * (128 div w) + Suc k)" using s1(3) Suc.prems(3) by simp
  have "entry_loop sec (word_of_nat w) k (Suc n) s = entry_loop sec (word_of_nat w) (Suc k) n s1" using off(1) s1(1) by simp
  with Suc.IH [OF k(2) b1 p1] s1(2) show ?case by simp
qed simp

lemma entry_parse_ok:
  assumes w: "entry_words w" and size: "unat (st_gpt_entry_size s) div 4 = w" and j: "j < 32"
    and blk: "st_read_block s = blk (arr + word_of_nat j)" and N: "N = unat (st_gpt_nentries s)"
    and sel: "selection s = gpt_best (gpt_ent blk arr w) (min N (j * (128 div w)))"
  obtains s' where "st_gpt_entry_parse (word_of_nat j) s = Some s'" and "outside_selection s' = outside_selection s"
    and "selection s' = gpt_best (gpt_ent blk arr w) (min N (Suc j * (128 div w)))"
proof -
  let ?c = "128 div w" let ?s = "if (word_of_nat j :: u32) = 0 then s\<lparr>st_gpt_part_sector := 0\<rparr> else s"
  have c: "?c \<le> 4" using w div_le_mono2 [of 32 w 128] by (simp add: entry_words_def)
  have W: "unat (st_gpt_entry_size s div 4) = w" using size by (simp add: unat_div)
  have sw: "st_gpt_entry_size s div 4 = word_of_nat w" unfolding W [symmetric] by simp
  have uw: "unat (word_of_nat w :: u32) = w" using W sw by simp
  have nz: "(word_of_nat w :: u32) \<noteq> 0" using uw w by (auto simp: entry_words_def)
  have uc: "unat (128 div word_of_nat w :: u32) = ?c" using uw by (simp add: unat_div)
  have cw: "128 div (if (word_of_nat w :: u32) \<noteq> 0 then word_of_nat w else 1) = (word_of_nat ?c :: u32)"
    unfolding uc [symmetric] using nz by simp
  have jc: "j * ?c \<le> 128" using mult_le_mono [of j 32 ?c 4] j c by simp
  then have base: "unat (word_of_nat j * word_of_nat ?c :: u32) = j * ?c"
    by (simp add: unat_of_nat take_bit_nat_eq_self flip: of_nat_mult)
  define left where "left = (if st_gpt_nentries s > word_of_nat j * word_of_nat ?c then st_gpt_nentries s - word_of_nat j * word_of_nat ?c else 0)"
  have left: "unat left = N - j * ?c"
    using base N by (auto simp: left_def word_less_nat_alt unat_sub word_le_nat_alt)
  have uc: "unat (word_of_nat ?c :: u32) = ?c" using c by (simp add: unat_of_nat take_bit_nat_eq_self)
  define used where "used = (if left > word_of_nat ?c then word_of_nat ?c else left)"
  have used: "unat used = min ?c (N - j * ?c)" using left uc by (auto simp: used_def word_less_nat_alt)
  have run: "st_gpt_entry_parse (word_of_nat j) s = entry_loop (word_of_nat j) (word_of_nat w) 0 (min ?c (N - j * ?c)) ?s"
    unfolding st_gpt_entry_parse_def Let_def sw cw left_def [symmetric] used_def [symmetric] used ..
  have same: "outside_selection ?s = outside_selection s" "selection ?s = selection s" "st_read_block ?s = st_read_block s"
    by (simp_all add: outside_selection_def selection_def)
  show ?thesis
  proof (cases "j * ?c \<le> N")
    case True
    have p: "selection ?s = gpt_best (gpt_ent blk arr w) (j * ?c + 0)" using sel True unfolding same(2) by simp
    have b: "st_read_block ?s = blk (arr + word_of_nat j)" using blk unfolding same(3) .
    have k: "0 + min ?c (N - j * ?c) \<le> ?c" by simp
    have n: "j * ?c + (0 + min ?c (N - j * ?c)) = min N (Suc j * ?c)" using True by simp
    show ?thesis using entry_loop_ok [OF w k b p, of "word_of_nat j"] that unfolding run n same(1) by blast
  next
    case False
    then have "min N (Suc j * ?c) = min N (j * ?c)" "min ?c (N - j * ?c) = 0" by simp_all
    with that [of ?s] run sel same show ?thesis by simp
  qed
qed

subsection \<open>The walk and the path\<close>

text \<open>The ladder's state when the next read is of array sector \<open>i\<close>, on a card of \<open>c\<close> sectors.\<close>

definition walking :: "'d sd_ghost \<Rightarrow> u32 \<Rightarrow> (u32 \<Rightarrow> u32 list) \<Rightarrow> nat \<Rightarrow> u32 \<Rightarrow> nat \<Rightarrow> nat \<Rightarrow> nat \<Rightarrow> 'd sd_state \<Rightarrow> bool" where
  "walking g c blk w arr N nsec i s \<longleftrightarrow> free_at g blk (st_dev s) \<and> timeout_fits g s \<and> length (st_read_block s) = 128
     \<and> st_read_count s = word_of_nat (Suc i) \<and> st_driver_lba_set s = 0 \<and> unat (st_gpt_nentries s) = N \<and> st_ext_sec_count s = c
     \<and> unat (st_gpt_entry_size s) div 4 = w \<and> st_gpt_entry_lba s = arr \<and> st_gpt_array_nsec s = word_of_nat nsec
     \<and> selection s = gpt_best (gpt_ent blk arr w) (min N (i * (128 div w)))"

lemma timeout_cong:
  "st_csd_words s = st_csd_words s' \<Longrightarrow> st_csd_words_valid s = st_csd_words_valid s' \<Longrightarrow> timeout_fits g s = timeout_fits g s'"
  by (simp add: timeout_fits_def tout_count_def)

lemma walk_reads:
  assumes "walking g c blk w arr N nsec i s" and "i < nsec" and "nsec \<le> 32"
  shows "read_lba_of s = arr + word_of_nat i"
proof -
  have i: "unat (word_of_nat i :: u32) = i" "unat (word_of_nat (Suc i) :: u32) = Suc i" "unat (word_of_nat nsec :: u32) = nsec"
    using assms(2,3) by (simp_all add: unat_of_nat take_bit_nat_eq_self del: of_nat_Suc)
  have "(1 :: u32) \<le> word_of_nat (Suc i)" "(word_of_nat (Suc i) :: u32) \<le> word_of_nat nsec"
    using i assms(2) by (simp_all add: word_le_nat_alt del: of_nat_Suc)
  then show ?thesis using assms(1) by (simp add: walking_def read_lba_of_def st_sector_for_read_def)
qed

lemma free_len: "sd_bus k g \<Longrightarrow> free_at g B d \<Longrightarrow> length (B lba) = 128"
  using card_len [of k g d lba] by (auto simp: free_at_def)

lemma array_walk_ok:
  assumes card: "sd_bus k g" and w: "entry_words w" and fuel: "sd_fuel \<le> fuel" and nsec: "nsec \<le> 32"
  shows "walking g c blk w arr N nsec i s \<Longrightarrow> i + n = nsec \<Longrightarrow>
    \<exists>s'. array_walk k fuel en n (word_of_nat i) s = Some s' \<and> walking g c blk w arr N nsec nsec s'"
proof (induction n arbitrary: i s)
  case (Suc n)
  note W = Suc.prems(1)
  have i: "i < nsec" "i < 32" using Suc.prems(2) nsec by simp_all
  note lba = walk_reads [OF W i(1) nsec]
  have ok: "free_at g blk (st_dev s)" "timeout_fits g s" "length (st_read_block s) = 128" using W by (simp_all add: walking_def)
  obtain d where d: "Option.bind (st_data_reset k fuel s) (st_read_single_block k fuel en)
      = Some (after_read d (arr + word_of_nat i) (blk (arr + word_of_nat i)) s)" "free_at g blk d"
    using read_ok [OF card ok fuel] unfolding lba by blast
  define s2 where "s2 = after_read d (arr + word_of_nat i) (blk (arr + word_of_nat i)) s"
  have s2: "unat (st_gpt_entry_size s2) div 4 = w" "st_read_block s2 = blk (arr + word_of_nat i)" "N = unat (st_gpt_nentries s2)"
    "selection s2 = gpt_best (gpt_ent blk arr w) (min N (i * (128 div w)))"
    using W by (simp_all add: s2_def after_read_def walking_def selection_def)
  obtain s3 where s3: "st_gpt_entry_parse (word_of_nat i) s2 = Some s3" "outside_selection s3 = outside_selection s2"
    "selection s3 = gpt_best (gpt_ent blk arr w) (min N (Suc i * (128 div w)))"
    using entry_parse_ok [OF w s2(1) i(2) s2(2,3,4)] by blast
  have "timeout_fits g s3"
    using ok(2) s3(2) timeout_cong [of s3 s2 g] by (simp add: outside_selection_def s2_def timeout_same)
  then have W3: "walking g c blk w arr N nsec (Suc i) s3"
    using W s3(2,3) d(2) free_len [OF card d(2)] by (simp add: walking_def s2_def after_read_def outside_selection_def add.commute)
  have step: "array_walk k fuel en (Suc n) (word_of_nat i) s = array_walk k fuel en n (word_of_nat (Suc i)) s3"
    using d(1) s3(1) by (auto simp: s2_def add.commute split: Option.bind_splits)
  show ?case unfolding step using Suc.IH [OF W3] Suc.prems(2) by simp
qed auto

text \<open>The sectors the walk reads, at most 32, and the entries they hold: the table's first 16 KiB, where
  its size does not wrap round and no entry is larger than a sector.\<close>

definition table_sectors :: "u32 \<Rightarrow> u32 \<Rightarrow> nat" where
  "table_sectors n esize = min 32 (unat ((n * esize + 511) div 512))"

definition table_entries :: "u32 \<Rightarrow> u32 \<Rightarrow> nat" where
  "table_entries n esize = min (unat n) (table_sectors n esize * (128 div (unat esize div 4)))"

lemma table_entries_first:
  assumes "unat n * unat esize + 511 < 2 ^ 32" and "esize \<in> {128, 256, 512}"
  shows "table_entries n esize = min (unat n) (16384 div unat esize)"
proof -
  have "unat (n * esize) = unat n * unat esize" using assms(1) by (subst unat_mult_lem [THEN iffD1]) simp_all
  then have "unat (n * esize + 511) = unat n * unat esize + 511" using assms(1) by (subst unat_add_lem [THEN iffD1]) simp_all
  then have "table_sectors n esize = min 32 ((unat n * unat esize + 511) div 512)" by (simp add: table_sectors_def unat_div)
  with assms(2) show ?thesis unfolding table_entries_def by (elim insertE) (auto simp: min_def)
qed

lemma cmd_path_ok:
  assumes card: "sd_bus k g" and fuel: "sd_fuel \<le> fuel"
    and boot: "free_at g blk (st_dev s)" "timeout_fits g s" "length (st_read_block s) = 128" "st_read_count s = 0" "st_driver_lba_set s = 0"
    and size: "128 \<le> blk 1 ! 21" and w: "w = unat (blk 1 ! 21) div 4"
  obtains s' where "cmd_path_reads k fuel en s = Some s'"
    and "selection s' = gpt_best (gpt_ent blk (blk 1 ! 18) w) (table_entries (blk 1 ! 20) (blk 1 ! 21))"
    and "st_read_lba s' = st_gpt_data_sector s' + 2" and "st_read_block s' = blk (st_gpt_data_sector s' + 2)"
    and "st_ext_sec_count s' = st_ext_sec_count s" and "free_at g blk (st_dev s')"
proof -
  define N nsec where "N = unat (blk 1 ! 20)" and "nsec = table_sectors (blk 1 ! 20) (blk 1 ! 21)"
  have ew: "entry_words w"
  proof -
    have "unat (blk 1 ! 21) < 2 ^ 32" using unsigned_less [of "blk 1 ! 21"] by simp
    moreover have "128 \<le> unat (blk 1 ! 21)" using size by (simp add: word_le_nat_alt)
    ultimately have "32 \<le> unat (blk 1 ! 21) div 4 \<and> unat (blk 1 ! 21) div 4 < 1073741824" by (simp add: less_mult_imp_div_less)
    then show ?thesis unfolding w entry_words_def by simp
  qed
  have n32: "nsec \<le> 32" by (simp add: nsec_def table_sectors_def)
  have lba: "read_lba_of s = 1" using boot by (simp add: read_lba_of_def st_sector_for_read_def ST_GPT_HEADER_SECTOR_def)
  obtain d where d: "Option.bind (st_data_reset k fuel s) (st_read_single_block k fuel en)
      = Some (after_read d 1 (blk 1) s)" "free_at g blk d"
    using read_ok [OF card boot(1,2,3) fuel] unfolding lba by blast
  define s2 where "s2 = after_read d 1 (blk 1) s"
  define s3 where "s3 = st_gpt_parse (st_mbr_parse s2)"
  have nsecw: "(if (blk 1 ! 20 * blk 1 ! 21 + (ST_MMC_BLK_LEN - 1)) div ST_MMC_BLK_LEN > ST_GPT_ARRAY_SCAN_MAX then ST_GPT_ARRAY_SCAN_MAX
      else (blk 1 ! 20 * blk 1 ! 21 + (ST_MMC_BLK_LEN - 1)) div ST_MMC_BLK_LEN) = word_of_nat nsec"
    by (auto simp: nsec_def table_sectors_def min_def word_less_nat_alt ST_GPT_ARRAY_SCAN_MAX_def ST_MMC_BLK_LEN_def)
  have "timeout_fits g s3"
    using boot(2) timeout_cong [of s3 s g] by (simp add: s3_def s2_def after_read_def st_gpt_parse_def st_mbr_parse_def Let_def)
  then have W3: "walking g (st_ext_sec_count s) blk w (blk 1 ! 18) N nsec 0 s3"
    unfolding walking_def s3_def s2_def after_read_def st_gpt_parse_def st_mbr_parse_def Let_def
    using d(2) boot free_len [OF card d(2)] w nsecw
    by (auto split: if_splits simp: N_def selection_def ST_GPT_W_NUM_ENTRIES_def ST_GPT_W_ENTRY_SIZE_def ST_GPT_W_PART_ENTRY_LBA_def)
  obtain s4 where s4: "array_walk k fuel en nsec 0 s3 = Some s4" "walking g (st_ext_sec_count s) blk w (blk 1 ! 18) N nsec nsec s4"
    using array_walk_ok [OF card ew fuel n32 W3, of nsec en] by auto
  have n3: "unat (st_gpt_array_nsec s3) = nsec" using W3 n32 by (simp add: walking_def unat_of_nat take_bit_nat_eq_self)
  have c4: "st_ext_sec_count s4 = st_ext_sec_count s" using s4(2) by (simp add: walking_def)
  have sel4: "selection s4 = gpt_best (gpt_ent blk (blk 1 ! 18) w) (table_entries (blk 1 ! 20) (blk 1 ! 21))"
    using s4(2) by (simp add: walking_def table_entries_def nsec_def N_def w)
  have ok4: "free_at g blk (st_dev s4)" "timeout_fits g s4" "length (st_read_block s4) = 128" using s4(2) by (simp_all add: walking_def)
  have lba4: "read_lba_of s4 = st_gpt_data_sector s4 + 2"
  proof -
    have "unat (word_of_nat nsec :: u32) = nsec" "unat (word_of_nat (Suc nsec) :: u32) = Suc nsec"
      using n32 by (simp_all add: unat_of_nat take_bit_nat_eq_self del: of_nat_Suc)
    then have "(1 :: u32) \<le> word_of_nat (Suc nsec)" "\<not> (word_of_nat (Suc nsec) :: u32) \<le> word_of_nat nsec"
      by (simp_all add: word_le_nat_alt del: of_nat_Suc)
    then show ?thesis using s4(2) by (simp add: walking_def read_lba_of_def st_sector_for_read_def ST_FS_SB_SECTOR_OFF_def)
  qed
  obtain e where e: "Option.bind (st_data_reset k fuel s4) (st_read_single_block k fuel en)
      = Some (after_read e (st_gpt_data_sector s4 + 2) (blk (st_gpt_data_sector s4 + 2)) s4)" "free_at g blk e"
    using read_ok [OF card ok4 fuel] unfolding lba4 by blast
  obtain u f where f: "run_state (st_data_end_probe k) e = (u, f)" by (rule prod.exhaust)
  have okf: "free_at g blk f" by (rule keeps_free [OF quiet_parts(3) [OF card] e(2) f])
  have "cmd_path_reads k fuel en s = Some ((after_read e (st_gpt_data_sector s4 + 2) (blk (st_gpt_data_sector s4 + 2)) s4)\<lparr>st_dev := f\<rparr>)"
    using d(1) s4(1) n3 e(1) f by (auto simp: cmd_path_reads_def s3_def s2_def after_read_def Let_def split: Option.bind_splits)
  with that sel4 c4 okf show ?thesis by (simp add: selection_def after_read_def)
qed

end
