(* ===== verification/Storage_Props.thy ===== *)
theory Storage_Props
  imports Storage_Table
begin

text \<open>
  The doors and the selection over a working card: a session of block reads and writes does what the
  root-media driver's \<open>ladder\<close> says, the selection is the first of the largest partitions, and a card
  out of the transfer state makes the read door, which always returns, repeat its last block.
\<close>

unbundle bit_operations_syntax

subsection \<open>A session through the doors\<close>

datatype door_op = Door_Read u32 | Door_Write u32 bytes

text \<open>The bytes the reads returned, in order.\<close>

fun door_session :: "'d sd_world \<Rightarrow> nat \<Rightarrow> door_op list \<Rightarrow> 'd sd_state \<Rightarrow> (bytes list \<times> 'd sd_state) option" where
  "door_session k fuel [] s = Some ([], s)"
| "door_session k fuel (Door_Read lba # ops) s = do {
     (ws, s1) \<leftarrow> entry_storage_driver_read k fuel lba s;
     (outs, s2) \<leftarrow> door_session k fuel ops s1;
     Some (concat (map le32 ws) # outs, s2) }"
| "door_session k fuel (Door_Write lba bs # ops) s = do {
     (_, s1) \<leftarrow> entry_storage_driver_write k fuel lba (block_words bs) s;
     door_session k fuel ops s1 }"

fun ladder_session :: "'m ladder \<Rightarrow> door_op list \<Rightarrow> 'm \<Rightarrow> bytes list \<times> 'm" where
  "ladder_session lad [] m = ([], m)"
| "ladder_session lad (Door_Read lba # ops) m = map_prod ((#) (drv_read lad m lba)) id (ladder_session lad ops m)"
| "ladder_session lad (Door_Write lba bs # ops) m = ladder_session lad ops (drv_write lad lba bs m)"

text \<open>A door may be entered: nothing is being programmed, and the data timeout the door sets is enough.\<close>

definition door_ready :: "'d sd_ghost \<Rightarrow> 'd sd_state \<Rightarrow> bool" where
  "door_ready g s \<longleftrightarrow> free_at g (g_blk g (st_dev s)) (st_dev s) \<and> timeout_fits g s \<and> length (st_read_block s) = 128"

definition selection_view :: "'d sd_state \<Rightarrow> u32 \<times> u32 \<times> u32" where
  "selection_view s = (entry_storage_selected_lba s, entry_storage_selected_count s, entry_storage_card_sectors s)"

lemma driver_read_ok:
  assumes card: "sd_bus k g" and pet: "keeps False g (State (\<lambda>d. ((), sd_pet k (st_read_count s) d)))"
    and ready: "door_ready g s" and fuel: "sd_fuel \<le> fuel"
  obtains s' where "entry_storage_driver_read k fuel lba s = Some (g_blk g (st_dev s) lba, s')" and "door_ready g s'"
    and "g_blk g (st_dev s') = g_blk g (st_dev s)" and "selection_view s' = selection_view s" and "st_read_count s' = st_read_count s + 1"
proof -
  let ?B = "g_blk g (st_dev s)"
  define s1 where "s1 = s\<lparr>st_dev := sd_pet k (st_read_count s) (st_dev s), st_driver_lba := lba, st_driver_lba_set := 1\<rparr>"
  have free: "free_at g ?B (st_dev s1)"
    using keeps_free [OF pet, of ?B "st_dev s" "()" "st_dev s1"] ready by (simp add: s1_def door_ready_def)
  have lba: "read_lba_of s1 = lba" by (simp add: s1_def read_lba_of_def)
  have rest: "timeout_fits g s1" "length (st_read_block s1) = 128"
    using ready timeout_cong [of s1 s g] by (simp_all add: s1_def door_ready_def)
  obtain d where d: "Option.bind (st_data_reset k fuel s1) (st_read_single_block k fuel 1)
      = Some (after_read d lba (?B lba) s1)" "free_at g ?B d"
    using read_ok [OF card free rest fuel] unfolding lba by blast
  define s' where "s' = (after_read d lba (?B lba) s1)\<lparr>st_driver_lba_set := 0\<rparr>"
  have "entry_storage_driver_read k fuel lba s = Some (?B lba, s')"
    using d(1) unfolding entry_storage_driver_read_def Let_def s1_def [symmetric]
    by (auto simp: s'_def after_read_def split: option.splits Option.bind_splits)
  moreover have blk: "g_blk g (st_dev s') = ?B" using d(2) by (simp add: s'_def after_read_def free_at_def)
  moreover have "door_ready g s'"
    using d(2) free_len [OF card d(2), of lba] rest(1) timeout_cong [of s' s1 g] blk
    by (simp add: s'_def after_read_def door_ready_def)
  moreover have "selection_view s' = selection_view s" "st_read_count s' = st_read_count s + 1"
    by (simp_all add: s'_def s1_def after_read_def selection_view_def entry_storage_selected_lba_def
        entry_storage_selected_count_def entry_storage_card_sectors_def)
  ultimately show ?thesis using that by blast
qed

lemma driver_write_ok:
  assumes card: "sd_bus k g" and ready: "door_ready g s" and fuel: "sd_fuel \<le> fuel" and len: "length ws = 128"
  obtains s' where "entry_storage_driver_write k fuel lba ws s = Some (ws, s')" and "door_ready g s'"
    and "g_blk g (st_dev s') = (g_blk g (st_dev s))(lba := ws)" and "selection_view s' = selection_view s"
proof -
  let ?B = "g_blk g (st_dev s)"
  have copy: "map (\<lambda>i. ws ! i) [0..<ST_EXT_CSD_WORDS] = ws"
    using map_nth [of ws] len by (simp add: ST_EXT_CSD_WORDS_def)
  define s1 where "s1 = s\<lparr>st_write_block := ws\<rparr>"
  have s1: "free_at g ?B (st_dev s1)" "timeout_fits g s1" "length (st_write_block s1) = 128"
    using ready len timeout_cong [of s1 s g] by (simp_all add: s1_def door_ready_def)
  obtain d where d: "Option.bind (st_data_reset k fuel s1) (st_write_single_block k fuel lba) = Some (s1\<lparr>st_dev := d\<rparr>)"
    "free_at g (?B(lba := ws)) d"
    using write_ok [OF card s1 fuel, of lba] by (auto simp: s1_def)
  have "entry_storage_driver_write k fuel lba ws s = Some (ws, s1\<lparr>st_dev := d\<rparr>)"
    using d(1) unfolding entry_storage_driver_write_def copy s1_def [symmetric]
    by (auto simp: s1_def split: option.splits Option.bind_splits)
  moreover have blk: "g_blk g d = ?B(lba := ws)" using d(2) by (simp add: free_at_def)
  moreover have "door_ready g (s1\<lparr>st_dev := d\<rparr>)"
    using d(2) s1(2) ready blk by (simp add: door_ready_def timeout_same) (simp add: s1_def)
  moreover have "selection_view (s1\<lparr>st_dev := d\<rparr>) = selection_view s"
    by (simp add: s1_def selection_view_def entry_storage_selected_lba_def entry_storage_selected_count_def entry_storage_card_sectors_def)
  ultimately show ?thesis using that by simp
qed

subsection \<open>A controller and card\<close>

text \<open>A simulated one, over which every access takes a tick: a reset takes 20, the first word of a transfer
  100, a programming 500; registers other than the timeout take writes in the idle phase only, and a
  command is obeyed there only, with its transfer set up and a timeout of 4 at least.\<close>

record sim_card =
  sim_now :: nat
  sim_blk :: "u32 \<Rightarrow> u32 list"
  sim_phase :: sd_phase
  sim_due :: nat
  sim_regs :: sd_regs
  sim_resp :: u32

definition sim_step :: "sim_card \<Rightarrow> sim_card" where
  "sim_step d =
    (let d1 = d\<lparr>sim_now := sim_now d + 1\<rparr> in
     if sim_due d \<le> sim_now d1 then
       (case sim_phase d of Resetting \<Rightarrow> d1\<lparr>sim_phase := Idle\<rparr>
        | Programming lba ws \<Rightarrow> d1\<lparr>sim_phase := Idle, sim_blk := (sim_blk d)(lba := ws)\<rparr> | _ \<Rightarrow> d1)
     else d1)"

definition sim_present :: "sim_card \<Rightarrow> u32" where
  "sim_present d =
    (case sim_phase d of Idle \<Rightarrow> 0 | Resetting \<Rightarrow> 0x6
     | Reading ws \<Rightarrow> if sim_due d \<le> sim_now d then 0xa06 else 0x206
     | Writing lba ws \<Rightarrow> if sim_due d \<le> sim_now d then 0x506 else 0x106
     | Programming lba ws \<Rightarrow> 0x106)"

definition sim_read32 :: "u32 \<Rightarrow> sim_card \<Rightarrow> u32 \<times> sim_card" where
  "sim_read32 a d0 =
    (let d = sim_step d0 in
     if a = ST_HC_MEM_BASE + ST_SDHCI_BUFFER then (case sim_phase d of Reading (w # ws) \<Rightarrow> (w, d\<lparr>sim_phase := Reading ws\<rparr>) | _ \<Rightarrow> (0, d))
     else if a = ST_HC_MEM_BASE + ST_SDHCI_PRESENT_STATE then (sim_present d, d)
     else if a = ST_HC_MEM_BASE + ST_SDHCI_RESPONSE then (sim_resp d, d) else (0, d))"

definition sim_read8 :: "u32 \<Rightarrow> sim_card \<Rightarrow> u8 \<times> sim_card" where
  "sim_read8 a d0 =
    (let d = sim_step d0 in
     (if a = ST_HC_MEM_BASE + ST_SDHCI_SOFTWARE_RESET \<and> sim_phase d = Resetting then 0x4 else 0, d))"

definition sim_write32 :: "u32 \<Rightarrow> u32 \<Rightarrow> sim_card \<Rightarrow> sim_card" where
  "sim_write32 a v d0 =
    (let d = sim_step d0 in
     if a = ST_HC_MEM_BASE + ST_SDHCI_ARGUMENT \<and> sim_phase d = Idle then d\<lparr>sim_regs := (sim_regs d)\<lparr>rg_arg := v\<rparr>\<rparr>
     else if a = ST_HC_MEM_BASE + ST_SDHCI_BUFFER then (case sim_phase d of
         Writing lba ws \<Rightarrow> if length ws = 127 then d\<lparr>sim_phase := Programming lba (ws @ [v]), sim_due := sim_now d + 500\<rparr>
                           else d\<lparr>sim_phase := Writing lba (ws @ [v])\<rparr>
       | _ \<Rightarrow> d)
     else d)"

definition sim_write16 :: "u32 \<Rightarrow> u16 \<Rightarrow> sim_card \<Rightarrow> sim_card" where
  "sim_write16 a v d0 =
    (let d = sim_step d0 in
     if sim_phase d \<noteq> Idle then d
     else if a = ST_HC_MEM_BASE + ST_SDHCI_BLOCK_SIZE then d\<lparr>sim_regs := (sim_regs d)\<lparr>rg_blksz := v\<rparr>\<rparr>
     else if a = ST_HC_MEM_BASE + ST_SDHCI_BLOCK_COUNT then d\<lparr>sim_regs := (sim_regs d)\<lparr>rg_blkcnt := v\<rparr>\<rparr>
     else if a = ST_HC_MEM_BASE + ST_SDHCI_TRANSFER_MODE then d\<lparr>sim_regs := (sim_regs d)\<lparr>rg_trns := v\<rparr>\<rparr>
     else if a = ST_HC_MEM_BASE + ST_SDHCI_COMMAND \<and> v = CMD17_WORD \<and> transfer_set 4 0x12 (sim_regs d)
       then d\<lparr>sim_phase := Reading (sim_blk d (rg_arg (sim_regs d))), sim_due := sim_now d + 100\<rparr>
     else if a = ST_HC_MEM_BASE + ST_SDHCI_COMMAND \<and> v = CMD24_WORD \<and> transfer_set 4 0x02 (sim_regs d)
       then d\<lparr>sim_phase := Writing (rg_arg (sim_regs d)) [], sim_due := sim_now d + 100\<rparr>
     else d)"

definition sim_write8 :: "u32 \<Rightarrow> u8 \<Rightarrow> sim_card \<Rightarrow> sim_card" where
  "sim_write8 a v d0 =
    (let d = sim_step d0 in
     if a = ST_HC_MEM_BASE + ST_SDHCI_TIMEOUT_CONTROL then d\<lparr>sim_regs := (sim_regs d)\<lparr>rg_tout := v\<rparr>\<rparr>
     else if a = ST_HC_MEM_BASE + ST_SDHCI_SOFTWARE_RESET \<and> (\<forall>lba ws. sim_phase d \<noteq> Programming lba ws)
       then d\<lparr>sim_phase := Resetting, sim_due := sim_now d + 20\<rparr>
     else d)"

definition sim_world :: "(u32 \<Rightarrow> sim_card \<Rightarrow> sim_card) \<Rightarrow> sim_card sd_world" where
  "sim_world pet = \<lparr>sd_read32 = sim_read32, sd_read16 = (\<lambda>a d. (0, sim_step d)), sd_read8 = sim_read8, sd_write32 = sim_write32,
     sd_write16 = sim_write16, sd_write8 = sim_write8, sd_ticks = (\<lambda>d. (word_of_nat (sim_now (sim_step d)), sim_step d)), sd_pet = pet\<rparr>"

definition sim_ghost :: "sim_card sd_ghost" where
  "sim_ghost = \<lparr>g_ok = (\<lambda>d. (\<forall>lba. length (sim_blk d lba) = 128) \<and> sim_resp d = 0x800
       \<and> (case sim_phase d of Programming lba ws \<Rightarrow> length ws = 128 | _ \<Rightarrow> True)),
     g_now = sim_now, g_blk = sim_blk, g_phase = sim_phase, g_due = sim_due, g_avail = (\<lambda>d. sim_due d \<le> sim_now d), g_regs = sim_regs,
     g_need = 4\<rparr>"

lemma sim_ghost_simps [simp]:
  "g_ok sim_ghost d \<longleftrightarrow> (\<forall>lba. length (sim_blk d lba) = 128) \<and> sim_resp d = 0x800
     \<and> (case sim_phase d of Programming lba ws \<Rightarrow> length ws = 128 | _ \<Rightarrow> True)"
  "g_now sim_ghost = sim_now" "g_blk sim_ghost = sim_blk" "g_phase sim_ghost = sim_phase" "g_due sim_ghost = sim_due"
  "g_avail sim_ghost d \<longleftrightarrow> sim_due d \<le> sim_now d" "g_regs sim_ghost = sim_regs" "g_need sim_ghost = 4"
  by (simp_all add: sim_ghost_def)

lemmas hc_defs = hc_read32_def hc_read16_def hc_read8_def hc_write32_def hc_write16_def hc_write8_def cntvct_def
lemmas sim_defs = sim_world_def sim_read32_def sim_read8_def sim_write32_def sim_write16_def sim_write8_def reg_defs ST_HC_MEM_BASE_def

lemma sim_step_quiet: "g_ok sim_ghost d \<Longrightarrow> quiet_step sim_ghost b d (sim_step d)"
  by (cases "sim_phase d") (auto simp: quiet_step_def sim_step_def Let_def)

lemma sim_step_simps [simp]:
  "sim_now (sim_step d) = sim_now d + 1" "sim_due (sim_step d) = sim_due d" "sim_regs (sim_step d) = sim_regs d" "sim_resp (sim_step d) = sim_resp d"
  by (auto simp: sim_step_def Let_def split: sd_phase.splits)

lemma sim_step_moving:
  "sim_phase d = Idle \<Longrightarrow> sim_phase (sim_step d) = Idle" "sim_phase d = Reading ws \<Longrightarrow> sim_phase (sim_step d) = Reading ws"
  "sim_phase d = Writing lba ws \<Longrightarrow> sim_phase (sim_step d) = Writing lba ws"
  "(\<forall>lba ws. sim_phase d \<noteq> Programming lba ws) \<Longrightarrow> sim_blk (sim_step d) = sim_blk d"
  "(\<forall>lba ws. sim_phase d \<noteq> Programming lba ws) \<Longrightarrow> \<forall>lba ws. sim_phase (sim_step d) \<noteq> Programming lba ws"
  by (auto simp: sim_step_def Let_def split: sd_phase.splits)

lemma sim_clock: "sd_clock (sim_world pet) sim_now"
  unfolding sd_clock_def ticks_on_def
  by (auto simp: hc_defs sim_defs SD_STEP_def Let_def split: sd_phase.splits list.splits)

lemma sim_step_regs: "g_ok sim_ghost d \<Longrightarrow> quiet_step sim_ghost True d (sim_step d\<lparr>sim_regs := r\<rparr>)"
  by (cases "sim_phase d") (auto simp: quiet_step_def sim_step_def Let_def)

lemma sim_quiet: "sd_quiet (sim_world pet) sim_ghost"
  unfolding sd_quiet_def keeps_def
  by (auto simp: hc_defs sim_defs Let_def sim_step_quiet sim_step_regs simp del: sim_ghost_simps)

lemma sim_registers: "sd_registers (sim_world pet) sim_ghost"
  unfolding sd_registers_def takes_def
  by (auto simp: hc_defs sim_defs Let_def sim_step_moving)

lemma sim_resets: "sd_resets (sim_world pet) sim_ghost"
  unfolding sd_resets_def
proof (intro allI impI conjI)
  fix d x d' assume ok: "g_ok sim_ghost d"
  { assume "\<forall>lba ws. g_phase sim_ghost d \<noteq> Programming lba ws"
      and "run_state (hc_write8 (sim_world pet) ST_SDHCI_SOFTWARE_RESET ST_SDHCI_RESET_DATA) d = ((), d')"
    then show "g_ok sim_ghost d'" "g_blk sim_ghost d' = g_blk sim_ghost d"
      "g_phase sim_ghost d' = Idle \<or> g_phase sim_ghost d' = Resetting \<and> g_due sim_ghost d' \<le> g_now sim_ghost d' + SD_RESET_DUE"
      using ok by (auto simp: hc_defs sim_defs Let_def sim_step_moving SD_RESET_DUE_def) }
  assume run: "run_state (hc_read8 (sim_world pet) ST_SDHCI_SOFTWARE_RESET) d = (x, d')"
  then show "g_phase sim_ghost d = Idle \<Longrightarrow> x AND ST_SDHCI_RESET_DATA = 0"
    by (auto simp: hc_defs sim_defs Let_def sim_step_moving)
  assume "g_phase sim_ghost d = Resetting"
  with run show "g_due sim_ghost d \<le> g_now sim_ghost d' \<Longrightarrow> x AND ST_SDHCI_RESET_DATA = 0"
    "x AND ST_SDHCI_RESET_DATA = 0 \<Longrightarrow> g_phase sim_ghost d' = Idle"
    by (auto simp: hc_defs sim_defs Let_def sim_step_def ST_SDHCI_RESET_DATA_def split: if_splits)
qed

lemma sim_commands: "sd_commands (sim_world pet) sim_ghost"
  unfolding sd_commands_def
  by (auto simp: hc_defs sim_defs Let_def sim_step_moving SD_DATA_DUE_def CMD17_WORD_def CMD24_WORD_def)

lemma sim_data: "sd_data (sim_world pet) sim_ghost"
  unfolding sd_data_def
  by (auto simp: hc_defs sim_defs Let_def sim_step_moving SD_DATA_DUE_def)

lemma sim_reports: "sd_reports (sim_world pet) sim_ghost"
  unfolding sd_reports_def
proof (intro allI impI conjI)
  fix d lba assume ok: "g_ok sim_ghost d"
  then show "length (g_blk sim_ghost d lba) = 128" by simp
  { fix ps d' assume "run_state (hc_read32 (sim_world pet) ST_SDHCI_PRESENT_STATE) d = (ps, d')"
    then have "ps = sim_present (sim_step d)" "d' = sim_step d" by (auto simp: hc_defs sim_defs Let_def)
    then show "present_ok sim_ghost d ps d'"
      by (cases "sim_phase d") (auto simp: present_ok_def sim_present_def sim_step_def Let_def ST_SDHCI_CMD_INHIBIT_def ST_SDHCI_DATA_INHIBIT_def
        ST_SDHCI_DOING_WRITE_def ST_SDHCI_DAT_LINE_ACTIVE_def ST_SDHCI_DATA_AVAILABLE_def ST_SDHCI_SPACE_AVAILABLE_def) }
  show "card_state (fst (run_state (hc_read32 (sim_world pet) ST_SDHCI_RESPONSE) d)) = 4"
    using ok by (simp add: hc_defs sim_defs Let_def card_state_def)
  fix x d1 d2
  show "fst (run_state (hc_read32 (sim_world pet) ST_SDHCI_INT_STATUS) d2) AND ST_SDHCI_INT_CMD_MASK = 0"
    by (simp add: hc_defs sim_defs Let_def)
qed

lemma sim_bus: "sd_bus (sim_world pet) sim_ghost"
  using sim_clock [of pet]
  by (simp add: sd_bus_def sim_quiet sim_registers sim_resets sim_commands sim_data sim_reports del: sim_ghost_simps)
    (simp add: sim_ghost_def)

lemma sim_card: "sd_card (sim_world (\<lambda>n d. d)) sim_ghost"
proof -
  have "sd_pet (sim_world (\<lambda>n d. d)) = (\<lambda>n d. d)" by (simp add: sim_world_def)
  then show ?thesis by (simp add: sd_card_def sim_bus keeps_def quiet_refl del: sim_ghost_simps)
qed

text \<open>Four entries of 128 bytes at sector 2: an unused one, sectors 100 to 199, 300 to 599, 700 to 799.
  The card's access time (80 ms) asks for a data timeout of 4.\<close>

definition demo_entry :: "u32 \<Rightarrow> u32 \<Rightarrow> u32 list" where
  "demo_entry a b = [1, 2, 3, 4] @ replicate 4 0 @ [a, 0, b] @ replicate 21 0"

definition demo_blocks :: "u32 \<Rightarrow> u32 list" where
  "demo_blocks lba =
    (if lba = 1 then replicate 18 0 @ [2, 0, 4, 128] @ replicate 106 0
     else if lba = 2 then replicate 32 0 @ demo_entry 100 199 @ demo_entry 300 599 @ demo_entry 700 799
     else replicate 128 lba)"

definition demo_state :: "sim_card sd_state" where
  "demo_state = \<lparr>st_dev = \<lparr>sim_now = 0, sim_blk = demo_blocks, sim_phase = Idle, sim_due = 0,
       sim_regs = \<lparr>rg_arg = 0, rg_blksz = 0, rg_blkcnt = 0, rg_trns = 0, rg_tout = 0\<rparr>, sim_resp = 0x800\<rparr>, st_read_block = replicate 128 0,
     st_write_block = replicate 128 0, st_csd_words = [0x000f0700, 0, 0, 0], st_csd_words_valid = 1, st_ext_sec_count = 1000,
     st_read_lba = 0, st_read_count = 0, st_driver_lba = 0, st_driver_lba_set = 0, st_driver_get = 0, st_mbr_sector = 0,
     st_gpt_nentries = 0, st_gpt_entry_size = 0, st_gpt_entry_lba = 0, st_gpt_part_sector = 0, st_gpt_data_sector = 0,
     st_gpt_scan_sector = 0, st_gpt_best_extent = 0, st_gpt_data_type = [], st_gpt_data_name = [], st_gpt_array_nsec = 0\<rparr>"

lemma tout_loop_numeral:
  "tout_loop (numeral v) c st t = (if st < t then tout_loop (pred_numeral v) (c + 1) (push_bit 1 st) t else c)"
  by (simp add: numeral_eq_Suc)

lemma demo_timeout: "tout_count demo_state = 4"
  by (simp add: tout_count_def demo_state_def st_tacc_exp_def st_tacc_mant_def tout_loop_numeral push_bit_eq_mult)

lemma demo_ready: "door_ready sim_ghost demo_state"
  unfolding door_ready_def free_at_def timeout_fits_def demo_timeout
  by (simp add: demo_state_def demo_blocks_def demo_entry_def)

lemma demo_view: "g_blk sim_ghost (st_dev demo_state) = demo_blocks"
  by (simp add: demo_state_def)

lemma demo_ents:
  "gpt_ent demo_blocks 2 32 0 = None" "gpt_ent demo_blocks 2 32 1 = Some (100, 199)"
  "gpt_ent demo_blocks 2 32 2 = Some (300, 599)" "gpt_ent demo_blocks 2 32 3 = Some (700, 799)"
  by (simp_all add: gpt_ent_def demo_blocks_def demo_entry_def Let_def nth_append)

text \<open>C10. A session of block reads and writes through the doors returns what the ladder the root-media driver
  is written over returns, and leaves on the card what that ladder leaves: every read ends and gives the
  last block written to its address, or the card's own.\<close>

theorem door_refines_ladder:
  assumes "sd_card k g" and "door_ready g s" and "sd_fuel \<le> fuel"
  shows "\<exists>s'. door_session k fuel ops s = Some (fst (ladder_session (storage_ladder s) ops (g_blk g (st_dev s))), s')
    \<and> g_blk g (st_dev s') = snd (ladder_session (storage_ladder s) ops (g_blk g (st_dev s)))
    \<and> door_ready g s' \<and> storage_ladder s' = storage_ladder s"
  using assms(2)
proof (induction ops arbitrary: s)
  case Nil
  then show ?case by simp
next
  case (Cons op ops)
  have card: "sd_bus k g" "keeps False g (State (\<lambda>d. ((), sd_pet k (st_read_count s) d)))"
    using assms(1) by (simp_all add: sd_card_def)
  have ladder: "storage_ladder s1 = storage_ladder s" if "selection_view s1 = selection_view s" for s1 :: "'a sd_state"
    using that by (simp add: storage_ladder_def selection_view_def)
  show ?case
  proof (cases op)
    case (Door_Read lba)
    obtain s1 where s1: "entry_storage_driver_read k fuel lba s = Some (g_blk g (st_dev s) lba, s1)" "door_ready g s1"
      "g_blk g (st_dev s1) = g_blk g (st_dev s)" "selection_view s1 = selection_view s"
      using driver_read_ok [OF card Cons.prems assms(3)] by blast
    have r: "drv_read (storage_ladder s) m lba = concat (map le32 (m lba))" for m by (simp add: storage_ladder_def)
    show ?thesis using Cons.IH [OF s1(2)] s1(1) unfolding Door_Read s1(3) ladder [OF s1(4)]
      by (auto simp: r)
  next
    case (Door_Write lba bs)
    have len: "length (block_words bs) = 128" by (simp add: block_words_def)
    obtain s1 where s1: "entry_storage_driver_write k fuel lba (block_words bs) s = Some (block_words bs, s1)" "door_ready g s1"
      "g_blk g (st_dev s1) = (g_blk g (st_dev s))(lba := block_words bs)" "selection_view s1 = selection_view s"
      using driver_write_ok [OF card(1) Cons.prems assms(3) len] by blast
    have w: "drv_write (storage_ladder s) lba bs m = m(lba := block_words bs)" for m by (simp add: storage_ladder_def)
    show ?thesis using Cons.IH [OF s1(2)] s1(1) unfolding Door_Write s1(3) ladder [OF s1(4)]
      by (auto simp: w fun_upd_def)
  qed
qed

text \<open>C11. The ladder's data reads end, and the partition it hands to the driver is the first of those with the
  largest extent (last minus first sector) among the entries of the table's first 32 sectors, for every
  entry size of 128 bytes and more; with no extent above 0 nothing is selected.  The buffer then holds
  sector 2 of that partition.  Of a table with entries of 128, 256 or 512 bytes whose size does not wrap
  round those are the entries of its first 16 KiB.\<close>

theorem gpt_selection_exact:
  assumes "sd_bus k g" and "sd_fuel \<le> fuel"
    and "door_ready g s" and "st_read_count s = 0" and "st_driver_lba_set s = 0" and "st_ext_sec_count s \<noteq> 0"
    and "g_blk g (st_dev s) = blk" and "128 \<le> blk 1 ! 21"
    and "ents = gpt_ent blk (blk 1 ! 18) (unat (blk 1 ! 21) div 4)" and "M = table_entries (blk 1 ! 20) (blk 1 ! 21)"
  shows "\<exists>s'. cmd_path_reads k fuel en s = Some s'
    \<and> (if \<exists>e < M. \<exists>p. ents e = Some p \<and> gpt_extent p \<noteq> 0
       then \<exists>e < M. \<exists>p. ents e = Some p
         \<and> entry_storage_selected_lba s' = fst p \<and> entry_storage_selected_count s' = gpt_extent p
         \<and> (\<forall>e' < M. \<forall>q. ents e' = Some q \<longrightarrow>
              (if e' < e then gpt_extent q < gpt_extent p else gpt_extent q \<le> gpt_extent p))
       else entry_storage_selected_count s' = 0 \<and> entry_storage_selected_pages s' = 0)
    \<and> st_read_block s' = blk (st_gpt_data_sector s' + 2) \<and> g_blk g (st_dev s') = blk
    \<and> (unat (blk 1 ! 20) * unat (blk 1 ! 21) + 511 < 2 ^ 32 \<and> blk 1 ! 21 \<in> {128, 256, 512} \<longrightarrow>
         M = min (unat (blk 1 ! 20)) (16384 div unat (blk 1 ! 21)))"
proof -
  have ready: "free_at g blk (st_dev s)" "timeout_fits g s" "length (st_read_block s) = 128"
    using assms(3,7) by (simp_all add: door_ready_def)
  obtain s' where s': "cmd_path_reads k fuel en s = Some s'" "selection s' = gpt_best ents M"
    "st_read_block s' = blk (st_gpt_data_sector s' + 2)" "st_ext_sec_count s' = st_ext_sec_count s" "g_blk g (st_dev s') = blk"
    using cmd_path_ok [OF assms(1,2) ready assms(4,5,8) refl, of en] unfolding assms(9,10) free_at_def by metis
  have whole: "unat (blk 1 ! 20) * unat (blk 1 ! 21) + 511 < 2 ^ 32 \<and> blk 1 ! 21 \<in> {128, 256, 512} \<longrightarrow>
      M = min (unat (blk 1 ! 20)) (16384 div unat (blk 1 ! 21))"
    unfolding assms(10) using table_entries_first by blast
  have view: "entry_storage_selected_count s' = fst (gpt_best ents M)"
    "fst (gpt_best ents M) \<noteq> 0 \<Longrightarrow> entry_storage_selected_lba s' = snd (gpt_best ents M)"
    using s'(2,4) assms(6) by (auto simp: selection_def prod_eq_iff entry_storage_selected_count_def
        entry_storage_selected_lba_def ST_GPT_SCAN_NONE_def)
  show ?thesis
  proof (cases "fst (gpt_best ents M) = 0")
    case True
    then have none: "\<not> (\<exists>e < M. \<exists>p. ents e = Some p \<and> gpt_extent p \<noteq> 0)"
      using gpt_best_max [where ents = ents and n = M] by (metis word_le_0_iff)
    have "entry_storage_selected_pages s' = 0"
      using True s'(2) by (simp add: selection_def prod_eq_iff entry_storage_selected_pages_def ST_GPT_SCAN_NONE_def)
    then show ?thesis using s' view(1) True whole unfolding if_not_P [OF none] by simp
  next
    case False
    obtain e p where e: "e < M" "ents e = Some p" "gpt_best ents M = (gpt_extent p, fst p)"
      "\<forall>e' < e. \<forall>q. ents e' = Some q \<longrightarrow> gpt_extent q < gpt_extent p"
      using gpt_best_first [OF False] by blast
    have max: "gpt_extent q \<le> gpt_extent p" if "e' < M" "ents e' = Some q" for e' q
      using gpt_best_max [of e' M ents q] that e(3) by simp
    have "gpt_extent p \<noteq> 0" using e(3) False by simp
    then have some: "\<exists>e < M. \<exists>p. ents e = Some p \<and> gpt_extent p \<noteq> 0" using e(1,2) by blast
    have all: "\<forall>e' < M. \<forall>q. ents e' = Some q \<longrightarrow> (if e' < e then gpt_extent q < gpt_extent p else gpt_extent q \<le> gpt_extent p)"
      using e(4) max by simp
    have "entry_storage_selected_lba s' = fst p" "entry_storage_selected_count s' = gpt_extent p"
      using view(1) view(2) [OF False] e(3) by simp_all
    with e(1,2) all s'(1,3,5) whole show ?thesis unfolding if_P [OF some] by blast
  qed
qed

text \<open>What the read door sets before it resets the data lines.\<close>

definition door_entered :: "'d sd_world \<Rightarrow> u32 \<Rightarrow> 'd sd_state \<Rightarrow> 'd sd_state" where
  "door_entered k lba s = s\<lparr>st_dev := sd_pet k (st_read_count s) (st_dev s), st_driver_lba := lba, st_driver_lba_set := 1\<rparr>"

lemma read_from_reset:
  assumes "st_data_reset k fuel (door_entered k lba s) = Some r"
  shows "entry_storage_driver_read k fuel lba s =
    map_option (\<lambda>s3. (st_read_block s3, s3\<lparr>st_driver_lba_set := 0\<rparr>)) (st_read_single_block k fuel 1 r)"
  using assms by (simp add: entry_storage_driver_read_def door_entered_def split: option.split)

text \<open>C39. The read door always returns, over any device whose counter runs.  Where the card's last response
  at the second of two reads is not that of the transfer state, the second answer is the block the first
  read returned, whatever address it was asked for; the read count and the last address stay.\<close>

theorem driver_read_stale:
  assumes "sd_clock k now" and "sd_fuel \<le> fuel"
  shows "\<exists>ws s1 r vs s2. entry_storage_driver_read k fuel a s = Some (ws, s1)
    \<and> st_data_reset k fuel (door_entered k b s1) = Some r
    \<and> entry_storage_driver_read k fuel b s1 = Some (vs, s2)
    \<and> (card_state (fst (run_state (hc_read32 k ST_SDHCI_RESPONSE) (st_dev r))) \<noteq> 4 \<longrightarrow>
         vs = ws \<and> st_read_count s2 = st_read_count s1 \<and> st_read_lba s2 = st_read_lba s1)"
proof -
  obtain d0 where r0: "st_data_reset k fuel (door_entered k a s) = Some (door_entered k a s\<lparr>st_dev := d0\<rparr>)"
    using clock_reset [OF assms] by blast
  obtain q where q: "st_read_single_block k fuel 1 (door_entered k a s\<lparr>st_dev := d0\<rparr>) = Some q"
    using clock_read_block [OF assms] by blast
  define s1 where "s1 = q\<lparr>st_driver_lba_set := 0\<rparr>"
  have first: "entry_storage_driver_read k fuel a s = Some (st_read_block s1, s1)"
    using read_from_reset [OF r0] q by (simp add: s1_def)
  obtain d1 where r1: "st_data_reset k fuel (door_entered k b s1) = Some (door_entered k b s1\<lparr>st_dev := d1\<rparr>)"
    using clock_reset [OF assms] by blast
  define r where "r = door_entered k b s1\<lparr>st_dev := d1\<rparr>"
  obtain u where u: "st_read_single_block k fuel 1 r = Some u" using clock_read_block [OF assms] by blast
  have second: "entry_storage_driver_read k fuel b s1 = Some (st_read_block u, u\<lparr>st_driver_lba_set := 0\<rparr>)"
    using read_from_reset [OF r1] u by (simp add: r_def)
  have "st_read_block u = st_read_block s1 \<and> st_read_count u = st_read_count s1 \<and> st_read_lba u = st_read_lba s1"
    if "card_state (fst (run_state (hc_read32 k ST_SDHCI_RESPONSE) (st_dev r))) \<noteq> 4"
    using u that by (auto simp: st_read_single_block_def case_prod_beta r_def door_entered_def)
  with first r1 second show ?thesis unfolding r_def [symmetric] by auto
qed

text \<open>A card that leaves the transfer state after its first read.\<close>

definition deaf_pet :: "u32 \<Rightarrow> sim_card \<Rightarrow> sim_card" where
  "deaf_pet n d = (if n = 0 then d else d\<lparr>sim_resp := 0\<rparr>)"

lemma sim_resp_kept:
  "sim_resp (snd (run_state (hc_read32 (sim_world pet) r) d)) = sim_resp d"
  "sim_resp (snd (run_state (hc_read8 (sim_world pet) r) d)) = sim_resp d"
  "sim_resp (snd (run_state (hc_write8 (sim_world pet) r v) d)) = sim_resp d"
  "sim_resp (snd (run_state (cntvct (sim_world pet)) d)) = sim_resp d"
  by (auto simp: hc_defs sim_world_def sim_read32_def sim_read8_def sim_write8_def Let_def split: sd_phase.splits list.splits)

lemma sim_resp_wait: "reset_wait (sim_world pet) t0 fuel d = Some d' \<Longrightarrow> sim_resp d' = sim_resp d"
proof (induction fuel arbitrary: d)
  case (Suc f)
  obtain x d1 where s1: "run_state (hc_read8 (sim_world pet) ST_SDHCI_SOFTWARE_RESET) d = (x, d1)" by fastforce
  obtain t d2 where s2: "run_state (cntvct (sim_world pet)) d1 = (t, d2)" by fastforce
  have "sim_resp d1 = sim_resp d" "sim_resp d2 = sim_resp d1"
    using sim_resp_kept(2) [of pet ST_SDHCI_SOFTWARE_RESET d] sim_resp_kept(4) [of pet d1] s1 s2 by simp_all
  then show ?case using Suc.prems Suc.IH [of d2] s1 s2 by (auto split: if_splits)
qed simp

lemma sim_resp_reset:
  assumes "st_data_reset (sim_world pet) fuel s = Some r"
  shows "sim_resp (st_dev r) = sim_resp (st_dev s)"
proof -
  have "sim_resp (snd (run_state (reset_begin (sim_world pet)) d)) = sim_resp d"
    "sim_resp (snd (run_state (reset_end (sim_world pet)) d)) = sim_resp d" for d
    by (simp_all add: reset_begin_def reset_end_def case_prod_beta sim_resp_kept)
  then show ?thesis using assms sim_resp_wait by (fastforce simp: st_data_reset_def case_prod_beta split: option.splits)
qed

theorem driver_read_stale_witness:
  "\<exists>s1 s2. entry_storage_driver_read (sim_world deaf_pet) sd_fuel 7 demo_state = Some (replicate 128 7, s1)
    \<and> entry_storage_driver_read (sim_world deaf_pet) sd_fuel 9 s1 = Some (replicate 128 7, s2)"
proof -
  let ?k = "sim_world deaf_pet"
  have pet: "keeps False sim_ghost (State (\<lambda>d. ((), sd_pet ?k (st_read_count demo_state) d)))"
    by (simp add: keeps_def sim_world_def deaf_pet_def demo_state_def quiet_refl del: sim_ghost_simps)
  obtain s' where s': "entry_storage_driver_read ?k sd_fuel 7 demo_state = Some (replicate 128 7, s')" "st_read_count s' = 1"
    using driver_read_ok [OF sim_bus pet demo_ready order_refl, of 7] unfolding demo_view
    by (auto simp: demo_blocks_def demo_state_def)
  obtain ws s1 r vs s2 where run: "entry_storage_driver_read ?k sd_fuel 7 demo_state = Some (ws, s1)"
      "st_data_reset ?k sd_fuel (door_entered ?k 9 s1) = Some r" "entry_storage_driver_read ?k sd_fuel 9 s1 = Some (vs, s2)"
      "card_state (fst (run_state (hc_read32 ?k ST_SDHCI_RESPONSE) (st_dev r))) \<noteq> 4 \<longrightarrow> vs = ws"
    using driver_read_stale [OF sim_clock order_refl, of deaf_pet 7 demo_state 9] by blast
  have same: "ws = replicate 128 7" "s1 = s'" using run(1) s'(1) by simp_all
  have "sim_resp (st_dev r) = 0"
    using sim_resp_reset [OF run(2)] s'(2) same(2) by (simp add: door_entered_def sim_world_def deaf_pet_def)
  then have "card_state (fst (run_state (hc_read32 ?k ST_SDHCI_RESPONSE) (st_dev r))) \<noteq> 4"
    by (simp add: hc_defs sim_defs Let_def card_state_def)
  with run same show ?thesis by blast
qed

theorem door_refines_ladder_witness:
  "map_option fst (door_session (sim_world (\<lambda>n d. d)) sd_fuel [Door_Write 9 (replicate 512 0), Door_Read 9, Door_Read 7] demo_state)
    = Some [concat (replicate 128 [0, 0, 0, 0]), concat (replicate 128 [7, 0, 0, 0])]"
proof -
  let ?ops = "[Door_Write 9 (replicate 512 0), Door_Read 9, Door_Read 7]"
  from door_refines_ladder [OF sim_card demo_ready order_refl, of ?ops]
  obtain s' where "door_session (sim_world (\<lambda>n d. d)) sd_fuel ?ops demo_state
    = Some (fst (ladder_session (storage_ladder demo_state) ?ops demo_blocks), s')"
    unfolding demo_view by blast
  moreover have "block_words (replicate 512 0) = replicate 128 0"
    by code_simp
  ultimately show ?thesis
    by (simp add: storage_ladder_def demo_blocks_def le32_def)
qed

theorem gpt_selection_exact_witness:
  "\<exists>s'. cmd_path_reads (sim_world (\<lambda>n d. d)) sd_fuel 1 demo_state = Some s' \<and> entry_storage_selected_lba s' = 300
    \<and> entry_storage_selected_count s' = 299 \<and> st_read_block s' = replicate 128 302"
proof -
  have boot: "st_read_count demo_state = 0" "st_driver_lba_set demo_state = 0" "st_ext_sec_count demo_state \<noteq> 0"
    by (simp_all add: demo_state_def)
  have h: "128 \<le> demo_blocks 1 ! 21" "gpt_ent demo_blocks 2 32 = gpt_ent demo_blocks (demo_blocks 1 ! 18) (unat (demo_blocks 1 ! 21) div 4)"
    "4 = table_entries (demo_blocks 1 ! 20) (demo_blocks 1 ! 21)"
    by (simp_all add: demo_blocks_def nth_append table_entries_first)
  have two: "\<exists>e < 4. \<exists>p. gpt_ent demo_blocks 2 32 e = Some p \<and> gpt_extent p \<noteq> 0"
    by (rule exI [of _ 2]) (simp add: demo_ents gpt_extent_def)
  from gpt_selection_exact [OF sim_bus order_refl demo_ready boot demo_view h, of "\<lambda>n d. d" 1, unfolded if_P [OF two]]
  obtain s' e p where s': "cmd_path_reads (sim_world (\<lambda>n d. d)) sd_fuel 1 demo_state = Some s'"
      "st_read_block s' = demo_blocks (st_gpt_data_sector s' + 2)"
    and e: "e < 4" "gpt_ent demo_blocks 2 32 e = Some p"
      "entry_storage_selected_lba s' = fst p" "entry_storage_selected_count s' = gpt_extent p"
      "\<forall>e' < 4. \<forall>q. gpt_ent demo_blocks 2 32 e' = Some q \<longrightarrow>
         (if e' < e then gpt_extent q < gpt_extent p else gpt_extent q \<le> gpt_extent p)"
    by blast
  have "gpt_extent (300, 599) \<le> gpt_extent p" using e(5) demo_ents(3) by (metis less_imp_le numeral_less_iff semiring_norm(76) semiring_norm(78))
  moreover have "e = 0 \<or> e = 1 \<or> e = 2 \<or> e = 3" using e(1) by arith
  ultimately have "p = (300, 599)" using e(2) demo_ents by (elim disjE) (auto simp: gpt_extent_def)
  then have s'': "entry_storage_selected_lba s' = 300" "entry_storage_selected_count s' = 299"
    using e(3,4) by (simp_all add: gpt_extent_def)
  have "st_gpt_data_sector s' = 300" using s''(1) by (auto simp: entry_storage_selected_lba_def split: if_splits)
  with s' s'' show ?thesis by (simp add: demo_blocks_def)
qed

end
