(* ===== verification/Usb_Enum.thy ===== *)
theory Usb_Enum
  imports Prelude
begin

text \<open>
  The enumeration arm of src/src/entry/entry_usb_enum.c: endpoint 0 of a device controller, polled.
  The controller is the record \<open>usb_world\<close> over a device of type \<open>'d\<close>: its registers, and the two
  cache operations, which are where the processor's view of the shared objects (\<open>usb_ram\<close>) reaches
  the controller and back.  The shared objects are the file's static arrays, one field each, at the
  addresses \<open>usb_layout\<close> gives them; the descriptors are constants.  \<open>en_stream\<close> and \<open>en_force\<close> are
  the build switches.  Live log records are left out.
\<close>

unbundle bit_operations_syntax

subsection \<open>Registers and fields\<close>

definition STAGE90_USB_OTG_BASE :: u32 where "STAGE90_USB_OTG_BASE = 0xf9a55000"
definition STAGE90_USB_USBCMD :: u32 where "STAGE90_USB_USBCMD = 0x140"
definition STAGE90_USB_USBSTS :: u32 where "STAGE90_USB_USBSTS = 0x144"
definition STAGE90_USB_USBINTR :: u32 where "STAGE90_USB_USBINTR = 0x148"
definition STAGE90_USB_DEVICEADDR :: u32 where "STAGE90_USB_DEVICEADDR = 0x154"
definition STAGE90_USB_ENDPOINTLISTADDR :: u32 where "STAGE90_USB_ENDPOINTLISTADDR = 0x158"
definition STAGE90_USB_USBMODE :: u32 where "STAGE90_USB_USBMODE = 0x1a8"
definition STAGE90_USB_ENDPTSETUPSTAT :: u32 where "STAGE90_USB_ENDPTSETUPSTAT = 0x1ac"
definition STAGE90_USB_ENDPTPRIME :: u32 where "STAGE90_USB_ENDPTPRIME = 0x1b0"
definition STAGE90_USB_ENDPTFLUSH :: u32 where "STAGE90_USB_ENDPTFLUSH = 0x1b4"
definition STAGE90_USB_ENDPTCOMPLETE :: u32 where "STAGE90_USB_ENDPTCOMPLETE = 0x1bc"

definition STAGE90_USB_ENDPTCTRL :: "u32 \<Rightarrow> u32" where
  "STAGE90_USB_ENDPTCTRL n = 0x1c0 + 4 * n"

definition STAGE90_USB_USBMODE_CM :: u32 where "STAGE90_USB_USBMODE_CM = 0x3"
definition STAGE90_USB_USBMODE_CM_DEVICE :: u32 where "STAGE90_USB_USBMODE_CM_DEVICE = 0x2"
definition STAGE90_USB_ENDPTCTRL_TXR :: u32 where "STAGE90_USB_ENDPTCTRL_TXR = 0x00400000"
definition STAGE90_USB_ENDPTCTRL_TXE :: u32 where "STAGE90_USB_ENDPTCTRL_TXE = 0x00800000"

definition INTR_VALUE :: u32 where "INTR_VALUE = 0x147"
definition STS_UI :: u32 where "STS_UI = 0x1"
definition STS_URI :: u32 where "STS_URI = 0x40"
definition DEVICEADDR_ADDR_SHIFT :: nat where "DEVICEADDR_ADDR_SHIFT = 25"
definition DEVICEADDR_USBADRA :: u32 where "DEVICEADDR_USBADRA = 0x01000000"
definition EP_IN :: u32 where "EP_IN = 1"
definition QH_OUT0 :: nat where "QH_OUT0 = 0"
definition QH_IN0 :: nat where "QH_IN0 = 16"
definition QH_IN1 :: nat where "QH_IN1 = 17"

definition EPBIT :: "u32 \<Rightarrow> bool \<Rightarrow> u32" where
  "EPBIT num dir_in = push_bit (unat (num + (if dir_in then 16 else 0))) 1"

definition ENDPTCTRL_TXT_BULK :: u32 where "ENDPTCTRL_TXT_BULK = push_bit 18 2"
definition ENDPTCTRL0_VALUE :: u32 where "ENDPTCTRL0_VALUE = 0x00c000c0"
definition ENDPTCTRL1_VALUE :: u32 where
  "ENDPTCTRL1_VALUE = STAGE90_USB_ENDPTCTRL_TXE OR STAGE90_USB_ENDPTCTRL_TXR OR ENDPTCTRL_TXT_BULK"
definition USBCMD_SUTW :: u32 where "USBCMD_SUTW = 0x2000"

definition QH_OFF_CAP :: nat where "QH_OFF_CAP = 0"
definition QH_OFF_TDNEXT :: nat where "QH_OFF_TDNEXT = 8"
definition QH_OFF_TDTOK :: nat where "QH_OFF_TDTOK = 12"
definition QH_OFF_SETUP :: nat where "QH_OFF_SETUP = 40"
definition QH_IOS :: u32 where "QH_IOS = 0x8000"
definition QH_MAX_PKT :: "u32 \<Rightarrow> u32" where "QH_MAX_PKT n = push_bit 16 (n AND 0x7ff)"
definition QH_ZLT :: u32 where "QH_ZLT = 0x20000000"
definition TD_OFF_NEXT :: nat where "TD_OFF_NEXT = 0"
definition TD_OFF_TOKEN :: nat where "TD_OFF_TOKEN = 4"
definition TD_OFF_PAGE0 :: nat where "TD_OFF_PAGE0 = 8"
definition TD_TERMINATE :: u32 where "TD_TERMINATE = 1"
definition TD_ACTIVE :: u32 where "TD_ACTIVE = 0x80"
definition TD_IOC :: u32 where "TD_IOC = 0x8000"
definition TD_TOTAL_SHIFT :: nat where "TD_TOTAL_SHIFT = 16"
definition TD_TOTAL_MASK :: u32 where "TD_TOTAL_MASK = 0x7fff0000"

definition DESC_DEVICE :: u8 where "DESC_DEVICE = 1"
definition DESC_CONFIG :: u8 where "DESC_CONFIG = 2"
definition DESC_STRING :: u8 where "DESC_STRING = 3"
definition REQ_GET_STATUS :: u8 where "REQ_GET_STATUS = 0"
definition REQ_SET_ADDRESS :: u8 where "REQ_SET_ADDRESS = 5"
definition REQ_GET_DESCRIPTOR :: u8 where "REQ_GET_DESCRIPTOR = 6"
definition REQ_SET_CONFIGURATION :: u8 where "REQ_SET_CONFIGURATION = 9"
definition USB_DIR_IN :: u8 where "USB_DIR_IN = 0x80"
definition USB_TYPE_MASK :: u8 where "USB_TYPE_MASK = 0x60"
definition USB_TYPE_STANDARD :: u8 where "USB_TYPE_STANDARD = 0"
definition ID_VENDOR :: u16 where "ID_VENDOR = 0x18d1"
definition ID_PRODUCT :: u16 where "ID_PRODUCT = 0x0910"
definition BCD_DEVICE :: u16 where "BCD_DEVICE = 0x0910"
definition MAX_PACKET0 :: u32 where "MAX_PACKET0 = 64"
definition CONFIG_VALUE :: u8 where "CONFIG_VALUE = 1"
definition MAX_POWER_MA :: u8 where "MAX_POWER_MA = 50"
definition IFACE_CLASS :: u8 where "IFACE_CLASS = 0xff"
definition IFACE_SUBCLASS :: u8 where "IFACE_SUBCLASS = 0x42"
definition IFACE_PROTOCOL :: u8 where "IFACE_PROTOCOL = 1"
definition EP_IN_ATTR :: u8 where "EP_IN_ATTR = 2"
definition EP_IN_MAXPKT :: u32 where "EP_IN_MAXPKT = 64"
definition EP_IN_EPADDR :: u8 where "EP_IN_EPADDR = USB_DIR_IN OR 1"
definition STR_MANUFACTURER :: u8 where "STR_MANUFACTURER = 1"
definition STR_PRODUCT :: u8 where "STR_PRODUCT = 2"
definition STR_SERIAL :: u8 where "STR_SERIAL = 3"
definition IN_MAGIC :: u32 where "IN_MAGIC = 0x910b0910"

definition USB_ENUM_TD_OUT0 :: nat where "USB_ENUM_TD_OUT0 = 0"
definition USB_ENUM_TD_IN0 :: nat where "USB_ENUM_TD_IN0 = 1"
definition USB_ENUM_TD_IN1 :: nat where "USB_ENUM_TD_IN1 = 2"

definition USB_ENUM_ST_IDLE :: u32 where "USB_ENUM_ST_IDLE = 0"
definition USB_ENUM_ST_ARMED :: u32 where "USB_ENUM_ST_ARMED = 1"
definition USB_ENUM_ST_SETUP :: u32 where "USB_ENUM_ST_SETUP = 2"
definition USB_ENUM_ST_DATA :: u32 where "USB_ENUM_ST_DATA = 3"
definition USB_ENUM_ST_STATUS :: u32 where "USB_ENUM_ST_STATUS = 4"
definition USB_ENUM_ST_ADDRESS :: u32 where "USB_ENUM_ST_ADDRESS = 5"
definition USB_ENUM_ST_CONFIG :: u32 where "USB_ENUM_ST_CONFIG = 6"

subsection \<open>Shared objects, controller, state\<close>

text \<open>The objects the controller reaches: queue heads and transfer descriptors as words by index and
  word number, the buffers as bytes.\<close>

record usb_ram =
  g_usb_qh :: "nat \<Rightarrow> nat \<Rightarrow> u32"
  g_usb_td :: "nat \<Rightarrow> nat \<Rightarrow> u32"
  g_usb_in_buf :: bytes
  g_usb_stream_buf :: bytes
  g_usb_stream_td :: "nat \<Rightarrow> u32"

datatype usb_obj = Obj_Qh nat | Obj_Td nat | Obj_In_Buf | Obj_Dev_Desc | Obj_Cfg_Desc | Obj_Stream_Buf | Obj_Stream_Td

type_synonym usb_layout = "usb_obj \<Rightarrow> u32"

record 'd usb_world =
  us_read32 :: "u32 \<Rightarrow> 'd \<Rightarrow> u32 \<times> 'd"
  us_write32 :: "u32 \<Rightarrow> u32 \<Rightarrow> 'd \<Rightarrow> 'd"
  us_clean :: "usb_obj \<Rightarrow> usb_ram \<Rightarrow> 'd \<Rightarrow> 'd"
  us_flush :: "usb_obj \<Rightarrow> 'd \<Rightarrow> usb_ram \<Rightarrow> usb_ram"

record usb_cfg =
  en_stream :: bool
  en_force :: bool

record 'd usb_state =
  us_dev :: 'd
  us_ram :: usb_ram
  enum_state :: u32
  enum_done :: u32
  enum_addr :: u32
  enum_configured :: u32
  enum_requests :: u32
  enum_resets :: u32
  enum_in_reads :: u32

definition usb_enum_read32 :: "'d usb_world \<Rightarrow> u32 \<Rightarrow> 'd usb_state \<Rightarrow> u32 \<times> 'd usb_state" where
  "usb_enum_read32 k off s = (let (v, d) = us_read32 k (STAGE90_USB_OTG_BASE + off) (us_dev s) in (v, s\<lparr>us_dev := d\<rparr>))"

definition usb_enum_write32 :: "'d usb_world \<Rightarrow> u32 \<Rightarrow> u32 \<Rightarrow> 'd usb_state \<Rightarrow> 'd usb_state" where
  "usb_enum_write32 k off v s = s\<lparr>us_dev := us_write32 k (STAGE90_USB_OTG_BASE + off) v (us_dev s)\<rparr>"

definition usb_clean :: "'d usb_world \<Rightarrow> usb_obj \<Rightarrow> 'd usb_state \<Rightarrow> 'd usb_state" where
  "usb_clean k obj s = s\<lparr>us_dev := us_clean k obj (us_ram s) (us_dev s)\<rparr>"

definition usb_flush :: "'d usb_world \<Rightarrow> usb_obj \<Rightarrow> 'd usb_state \<Rightarrow> 'd usb_state" where
  "usb_flush k obj s = s\<lparr>us_ram := us_flush k obj (us_dev s) (us_ram s)\<rparr>"

text \<open>A store to word \<open>off / 4\<close> of a queue head or descriptor.\<close>

definition usb_enum_qh :: "nat \<Rightarrow> nat \<Rightarrow> u32 \<Rightarrow> 'd usb_state \<Rightarrow> 'd usb_state" where
  "usb_enum_qh idx off v s = s\<lparr>us_ram := (us_ram s)\<lparr>g_usb_qh :=
     (g_usb_qh (us_ram s))(idx := (g_usb_qh (us_ram s) idx)(off div 4 := v))\<rparr>\<rparr>"

definition usb_enum_td :: "nat \<Rightarrow> nat \<Rightarrow> u32 \<Rightarrow> 'd usb_state \<Rightarrow> 'd usb_state" where
  "usb_enum_td idx off v s = s\<lparr>us_ram := (us_ram s)\<lparr>g_usb_td :=
     (g_usb_td (us_ram s))(idx := (g_usb_td (us_ram s) idx)(off div 4 := v))\<rparr>\<rparr>"

definition usb_in_buf_put :: "nat \<Rightarrow> u8 \<Rightarrow> 'd usb_state \<Rightarrow> 'd usb_state" where
  "usb_in_buf_put i v s = s\<lparr>us_ram := (us_ram s)\<lparr>g_usb_in_buf := (g_usb_in_buf (us_ram s))[i := v]\<rparr>\<rparr>"

subsection \<open>Descriptors\<close>

definition g_usb_dev_desc :: bytes where
  "g_usb_dev_desc = [18, DESC_DEVICE, 0x00, 0x02, 0x00, 0x00, 0x00, ucast MAX_PACKET0,
     ucast (ID_VENDOR AND 0xff), ucast (drop_bit 8 ID_VENDOR), ucast (ID_PRODUCT AND 0xff), ucast (drop_bit 8 ID_PRODUCT),
     ucast (BCD_DEVICE AND 0xff), ucast (drop_bit 8 BCD_DEVICE), STR_MANUFACTURER, STR_PRODUCT, STR_SERIAL, 1]"

definition g_usb_cfg_desc :: bytes where
  "g_usb_cfg_desc = [9, DESC_CONFIG, 25, 0x00, 1, CONFIG_VALUE, 0, 0x80, MAX_POWER_MA,
     9, 4, 0, 0, 1, IFACE_CLASS, IFACE_SUBCLASS, IFACE_PROTOCOL, 0,
     7, 5, EP_IN_EPADDR, EP_IN_ATTR, ucast (EP_IN_MAXPKT AND 0xff), ucast (drop_bit 8 EP_IN_MAXPKT), 0]"

definition g_usb_str_manufacturer :: bytes where "g_usb_str_manufacturer = map of_char ''mi4-xnu''"
definition g_usb_str_product :: bytes where "g_usb_str_product = map of_char ''xnu-arm-entry''"
definition g_usb_str_serial :: bytes where "g_usb_str_serial = map of_char ''4a2fe00b''"

text \<open>The string \<open>s\<close> is without its final NUL.\<close>

fun build_string_loop :: "bytes \<Rightarrow> nat \<Rightarrow> nat \<Rightarrow> 'd usb_state \<Rightarrow> 'd usb_state" where
  "build_string_loop str i 0 s = s"
| "build_string_loop str i (Suc n) s =
    build_string_loop str (Suc i) n (usb_in_buf_put (3 + 2 * i) 0 (usb_in_buf_put (2 + 2 * i) (str ! i) s))"

definition usb_enum_build_string :: "bytes \<Rightarrow> 'd usb_state \<Rightarrow> u32 \<times> 'd usb_state" where
  "usb_enum_build_string str s =
    (let n = length (takeWhile (\<lambda>c. c \<noteq> 0) (take 31 str));
         s1 = usb_in_buf_put 1 DESC_STRING (usb_in_buf_put 0 (word_of_nat (2 + 2 * n)) s)
     in (word_of_nat (2 + 2 * n), build_string_loop str 0 n s1))"

definition usb_enum_build_langid :: "'d usb_state \<Rightarrow> u32 \<times> 'd usb_state" where
  "usb_enum_build_langid s = (4, usb_in_buf_put 3 0x04 (usb_in_buf_put 2 0x09 (usb_in_buf_put 1 DESC_STRING (usb_in_buf_put 0 4 s))))"

subsection \<open>Transfers\<close>

definition usb_enum_prime :: "'d usb_world \<Rightarrow> usb_layout \<Rightarrow> nat \<Rightarrow> nat \<Rightarrow> usb_obj option \<Rightarrow> u32 \<Rightarrow> bool \<Rightarrow> 'd usb_state \<Rightarrow> 'd usb_state" where
  "usb_enum_prime k lay qh_idx td_idx buf len in_dir s =
    (let token = push_bit TD_TOTAL_SHIFT (len AND 0x7fff) OR TD_ACTIVE OR TD_IOC;
         s1 = usb_enum_td td_idx TD_OFF_NEXT TD_TERMINATE s;
         s2 = usb_enum_td td_idx TD_OFF_TOKEN token s1;
         s3 = usb_enum_td td_idx TD_OFF_PAGE0 (case buf of Some b \<Rightarrow> lay b | None \<Rightarrow> 0) s2;
         s4 = usb_clean k (Obj_Td td_idx) s3;
         s5 = (case buf of Some b \<Rightarrow> if len \<noteq> 0 then usb_clean k b s4 else s4 | None \<Rightarrow> s4);
         cap = (if qh_idx = QH_IN1 then QH_ZLT OR QH_MAX_PKT EP_IN_MAXPKT else QH_IOS OR QH_MAX_PKT MAX_PACKET0);
         s6 = usb_enum_qh qh_idx QH_OFF_CAP cap s5;
         s7 = usb_enum_qh qh_idx QH_OFF_TDNEXT (lay (Obj_Td td_idx) AND NOT 0x1f) s6;
         s8 = usb_enum_qh qh_idx QH_OFF_TDTOK 0 s7;
         s9 = usb_clean k (Obj_Qh qh_idx) s8
     in usb_enum_write32 k STAGE90_USB_ENDPTPRIME (EPBIT (if qh_idx = QH_IN1 then EP_IN else 0) in_dir) s9)"

definition usb_enum_complete_clear :: "'d usb_world \<Rightarrow> u32 \<Rightarrow> 'd usb_state \<Rightarrow> 'd usb_state" where
  "usb_enum_complete_clear k b s = usb_enum_write32 k STAGE90_USB_ENDPTCOMPLETE b s"

text \<open>The eight bytes of a setup packet, from its two words.\<close>

definition setup_bytes :: "u32 \<Rightarrow> u32 \<Rightarrow> bytes" where
  "setup_bytes w0 w1 = concat (map (\<lambda>w. [ucast w, ucast (drop_bit 8 w), ucast (drop_bit 16 w), ucast (drop_bit 24 w)]) [w0, w1])"

fun usb_enum_read_setup :: "'d usb_world \<Rightarrow> nat \<Rightarrow> 'd usb_state \<Rightarrow> (bytes \<times> 'd usb_state) option" where
  "usb_enum_read_setup k 0 s = None"
| "usb_enum_read_setup k (Suc fuel) s =
    (let s1 = usb_flush k (Obj_Qh QH_OUT0) s;
         (cmd, s2) = usb_enum_read32 k STAGE90_USB_USBCMD s1;
         s3 = usb_enum_write32 k STAGE90_USB_USBCMD (cmd OR USBCMD_SUTW) s2;
         out = setup_bytes (g_usb_qh (us_ram s3) QH_OUT0 (QH_OFF_SETUP div 4))
                           (g_usb_qh (us_ram s3) QH_OUT0 (QH_OFF_SETUP div 4 + 1));
         (c, s4) = usb_enum_read32 k STAGE90_USB_USBCMD s3
     in if c AND USBCMD_SUTW \<noteq> 0 then Some (out, usb_enum_write32 k STAGE90_USB_USBCMD cmd s4)
        else usb_enum_read_setup k fuel s4)"

definition usb_enum_nuke :: "'d usb_world \<Rightarrow> nat \<Rightarrow> 'd usb_state \<Rightarrow> 'd usb_state" where
  "usb_enum_nuke k qh_idx s =
    usb_clean k (Obj_Qh qh_idx) (usb_enum_qh qh_idx QH_OFF_TDTOK 0 (usb_enum_qh qh_idx QH_OFF_TDNEXT TD_TERMINATE s))"

definition usb_enum_arm_ep0 :: "'d usb_world \<Rightarrow> usb_layout \<Rightarrow> 'd usb_state \<Rightarrow> 'd usb_state" where
  "usb_enum_arm_ep0 k lay s =
    (let s1 = usb_enum_write32 k (STAGE90_USB_ENDPTCTRL 0) ENDPTCTRL0_VALUE s;
         s2 = usb_enum_write32 k STAGE90_USB_ENDPOINTLISTADDR (lay (Obj_Qh 0)) s1;
         s3 = usb_enum_write32 k STAGE90_USB_ENDPTFLUSH 0xffffffff s2;
         s4 = usb_enum_write32 k STAGE90_USB_ENDPTCOMPLETE 0xffffffff s3;
         s5 = usb_enum_write32 k STAGE90_USB_ENDPTSETUPSTAT 0xffffffff s4;
         s6 = usb_enum_nuke k QH_IN0 (usb_enum_nuke k QH_OUT0 s5)
     in usb_enum_write32 k STAGE90_USB_USBINTR INTR_VALUE s6)"

definition usb_enum_arm_ep_in :: "usb_cfg \<Rightarrow> 'd usb_world \<Rightarrow> usb_layout \<Rightarrow> 'd usb_state \<Rightarrow> 'd usb_state" where
  "usb_enum_arm_ep_in cf k lay s =
    (let s1 = usb_enum_write32 k (STAGE90_USB_ENDPTCTRL EP_IN) ENDPTCTRL1_VALUE s;
         s2 = usb_enum_nuke k QH_IN1 s1
     in if en_stream cf then s2
        else let s3 = usb_in_buf_put 0 (ucast (IN_MAGIC AND 0xff)) s2;
                 s4 = usb_in_buf_put 1 (ucast (drop_bit 8 IN_MAGIC AND 0xff)) s3;
                 s5 = usb_in_buf_put 2 (ucast (drop_bit 16 IN_MAGIC AND 0xff)) s4;
                 s6 = usb_in_buf_put 3 (ucast (drop_bit 24 IN_MAGIC AND 0xff)) s5
             in usb_enum_prime k lay QH_IN1 USB_ENUM_TD_IN1 (Some Obj_In_Buf) 4 True s6)"

definition usb_enum_bus_reset :: "'d usb_world \<Rightarrow> 'd usb_state \<Rightarrow> 'd usb_state" where
  "usb_enum_bus_reset k s =
    (let s1 = usb_enum_write32 k STAGE90_USB_DEVICEADDR 0 s;
         s2 = usb_enum_write32 k STAGE90_USB_ENDPTFLUSH 0xffffffff s1;
         s3 = usb_enum_write32 k STAGE90_USB_ENDPTSETUPSTAT 0xffffffff s2;
         s4 = usb_enum_write32 k STAGE90_USB_ENDPTCOMPLETE 0xffffffff s3
     in s4\<lparr>enum_addr := 0, enum_configured := 0, enum_resets := enum_resets s4 + 1, enum_state := USB_ENUM_ST_ARMED\<rparr>)"

subsection \<open>Requests\<close>

definition setup_wValue :: "bytes \<Rightarrow> u32" where
  "setup_wValue p = ucast (p ! 2) OR push_bit 8 (ucast (p ! 3))"

definition setup_wLength :: "bytes \<Rightarrow> u32" where
  "setup_wLength p = ucast (p ! 6) OR push_bit 8 (ucast (p ! 7))"

definition usb_enum_get_descriptor :: "'d usb_world \<Rightarrow> usb_layout \<Rightarrow> bytes \<Rightarrow> 'd usb_state \<Rightarrow> u32 \<times> 'd usb_state" where
  "usb_enum_get_descriptor k lay setup s =
    (let wvalue = setup_wValue setup; wlength = setup_wLength setup;
         type = drop_bit 8 wvalue AND 0xff; index = wvalue AND 0xff;
         found = (\<lambda>desc alen s. let len = (if wlength < alen then wlength else alen)
                   in (len, usb_enum_prime k lay QH_IN0 USB_ENUM_TD_IN0 (Some desc) len True s))
     in if type = ucast DESC_DEVICE then found Obj_Dev_Desc (word_of_nat (length g_usb_dev_desc)) s
        else if type = ucast DESC_CONFIG then found Obj_Cfg_Desc (word_of_nat (length g_usb_cfg_desc)) s
        else if type = ucast DESC_STRING then
          (let (alen, s1) = (if index = 0 then usb_enum_build_langid s
                             else if index = ucast STR_MANUFACTURER then usb_enum_build_string g_usb_str_manufacturer s
                             else if index = ucast STR_PRODUCT then usb_enum_build_string g_usb_str_product s
                             else if index = ucast STR_SERIAL then usb_enum_build_string g_usb_str_serial s
                             else (0, s))
           in if alen \<noteq> 0 then found Obj_In_Buf alen s1 else (0, s1))
        else (0, s))"

text \<open>The status stage of a request without data goes in.\<close>

definition usb_enum_status_in :: "'d usb_world \<Rightarrow> usb_layout \<Rightarrow> 'd usb_state \<Rightarrow> 'd usb_state" where
  "usb_enum_status_in k lay s = (usb_enum_prime k lay QH_IN0 USB_ENUM_TD_IN0 None 0 True s)\<lparr>enum_state := USB_ENUM_ST_STATUS\<rparr>"

definition usb_enum_request :: "usb_cfg \<Rightarrow> 'd usb_world \<Rightarrow> usb_layout \<Rightarrow> bytes \<Rightarrow> 'd usb_state \<Rightarrow> 'd usb_state" where
  "usb_enum_request cf k lay setup s =
    (let bRequestType = setup ! 0; bRequest = setup ! 1; wValue = setup_wValue setup; wLength = setup_wLength setup
     in if bRequestType AND USB_TYPE_MASK = USB_TYPE_STANDARD then
          if bRequest = REQ_GET_DESCRIPTOR \<and> bRequestType AND USB_DIR_IN \<noteq> 0 then
            (let (n, s1) = usb_enum_get_descriptor k lay setup s
             in if n \<noteq> 0 then s1\<lparr>enum_state := USB_ENUM_ST_DATA\<rparr> else usb_enum_status_in k lay s1)
          else if bRequest = REQ_SET_ADDRESS then
            (let addr = wValue AND 0x7f;
                 s1 = usb_enum_write32 k STAGE90_USB_DEVICEADDR (push_bit DEVICEADDR_ADDR_SHIFT addr OR DEVICEADDR_USBADRA)
                        (s\<lparr>enum_addr := addr\<rparr>)
             in usb_enum_status_in k lay (s1\<lparr>enum_state := USB_ENUM_ST_ADDRESS\<rparr>))
          else if bRequest = REQ_GET_STATUS \<and> bRequestType AND USB_DIR_IN \<noteq> 0 then
            (let s1 = usb_in_buf_put 1 0 (usb_in_buf_put 0 0 s)
             in (usb_enum_prime k lay QH_IN0 USB_ENUM_TD_IN0 (Some Obj_In_Buf) (if wLength < 2 then wLength else 2) True s1)
                  \<lparr>enum_state := USB_ENUM_ST_DATA\<rparr>)
          else if bRequest = REQ_SET_CONFIGURATION then
            (let s1 = s\<lparr>enum_configured := (if wValue \<noteq> 0 then 1 else 0)\<rparr>;
                 s2 = (if enum_configured s1 \<noteq> 0 then usb_enum_arm_ep_in cf k lay s1 else s1)
             in usb_enum_status_in k lay (s2\<lparr>enum_state := USB_ENUM_ST_CONFIG\<rparr>))
          else usb_enum_status_in k lay s
        else usb_enum_status_in k lay s)"

definition usb_enum_setup :: "usb_cfg \<Rightarrow> 'd usb_world \<Rightarrow> usb_layout \<Rightarrow> nat \<Rightarrow> 'd usb_state \<Rightarrow> 'd usb_state option" where
  "usb_enum_setup cf k lay fuel s =
    (case usb_enum_read_setup k fuel s of None \<Rightarrow> None
     | Some (setup, s1) \<Rightarrow>
         (let s2 = usb_enum_write32 k STAGE90_USB_ENDPTSETUPSTAT 1 s1;
              s3 = usb_enum_nuke k QH_IN0 (usb_enum_nuke k QH_OUT0 s2);
              s4 = s3\<lparr>enum_requests := enum_requests s3 + 1, enum_state := USB_ENUM_ST_SETUP\<rparr>
          in Some (usb_enum_request cf k lay setup s4)))"

text \<open>The three completions, each with its own read of the register.\<close>

definition usb_enum_in0_done :: "'d usb_world \<Rightarrow> usb_layout \<Rightarrow> 'd usb_state \<Rightarrow> 'd usb_state" where
  "usb_enum_in0_done k lay s =
    (let (c, s1) = usb_enum_read32 k STAGE90_USB_ENDPTCOMPLETE s
     in if c AND EPBIT 0 True \<noteq> 0 then
          (let s2 = usb_enum_complete_clear k (EPBIT 0 True) s1
           in if enum_state s2 = USB_ENUM_ST_DATA
              then (usb_enum_prime k lay QH_OUT0 USB_ENUM_TD_OUT0 None 0 False s2)\<lparr>enum_state := USB_ENUM_ST_STATUS\<rparr>
              else s2\<lparr>enum_state := USB_ENUM_ST_ARMED\<rparr>)
        else s1)"

definition usb_enum_out0_done :: "'d usb_world \<Rightarrow> 'd usb_state \<Rightarrow> 'd usb_state" where
  "usb_enum_out0_done k s =
    (let (c, s1) = usb_enum_read32 k STAGE90_USB_ENDPTCOMPLETE s
     in if c AND EPBIT 0 False \<noteq> 0
        then (usb_enum_complete_clear k (EPBIT 0 False) s1)\<lparr>enum_state := USB_ENUM_ST_ARMED\<rparr> else s1)"

definition usb_enum_in1_done :: "usb_cfg \<Rightarrow> 'd usb_world \<Rightarrow> usb_layout \<Rightarrow> 'd usb_state \<Rightarrow> 'd usb_state" where
  "usb_enum_in1_done cf k lay s =
    (if en_stream cf then s
     else let (c, s1) = usb_enum_read32 k STAGE90_USB_ENDPTCOMPLETE s
          in if c AND EPBIT EP_IN True \<noteq> 0 then
               (let s2 = usb_enum_complete_clear k (EPBIT EP_IN True) s1
                in usb_enum_prime k lay QH_IN1 USB_ENUM_TD_IN1 (Some Obj_In_Buf) 4 True (s2\<lparr>enum_in_reads := enum_in_reads s2 + 1\<rparr>))
             else s1)"

definition usb_enum_ui :: "usb_cfg \<Rightarrow> 'd usb_world \<Rightarrow> usb_layout \<Rightarrow> nat \<Rightarrow> 'd usb_state \<Rightarrow> 'd usb_state option" where
  "usb_enum_ui cf k lay fuel s =
    (let (st, s1) = usb_enum_read32 k STAGE90_USB_ENDPTSETUPSTAT s
     in if st AND 1 \<noteq> 0 then usb_enum_setup cf k lay fuel s1
        else Some (usb_enum_in1_done cf k lay (usb_enum_out0_done k (usb_enum_in0_done k lay s1))))"

text \<open>The poll: the mode gate, the arming on the first pass, the interrupts in the fixed order.\<close>

definition usb_enum_arm :: "'d usb_world \<Rightarrow> usb_layout \<Rightarrow> 'd usb_state \<Rightarrow> 'd usb_state" where
  "usb_enum_arm k lay s =
    (if enum_done s = 0
     then snd (usb_enum_read32 k (STAGE90_USB_ENDPTCTRL 0) ((usb_enum_arm_ep0 k lay (s\<lparr>enum_done := 1\<rparr>))\<lparr>enum_state := USB_ENUM_ST_ARMED\<rparr>))
     else s)"

definition entry_usb_enum_poll :: "usb_cfg \<Rightarrow> 'd usb_world \<Rightarrow> usb_layout \<Rightarrow> nat \<Rightarrow> 'd usb_state \<Rightarrow> 'd usb_state option" where
  "entry_usb_enum_poll cf k lay fuel s =
    (let (usbmode, s1) = usb_enum_read32 k STAGE90_USB_USBMODE s
     in if usbmode AND STAGE90_USB_USBMODE_CM \<noteq> STAGE90_USB_USBMODE_CM_DEVICE \<and> \<not> en_force cf then Some s1
        else
          (let s2 = usb_enum_arm k lay s1;
               (sts, s3) = usb_enum_read32 k STAGE90_USB_USBSTS s2;
               (msk, s4) = usb_enum_read32 k STAGE90_USB_USBINTR s3;
               intr = sts AND msk;
               s5 = (if intr AND STS_URI \<noteq> 0 then usb_enum_bus_reset k s4 else s4)
           in case (if intr AND STS_UI \<noteq> 0 then usb_enum_ui cf k lay fuel s5 else Some s5) of
                None \<Rightarrow> None
              | Some s6 \<Rightarrow> Some (usb_enum_write32 k STAGE90_USB_USBSTS intr s6)))"

end
