(* ===== verification/Usb_Vars.thy ===== *)
theory Usb_Vars
  imports Usb_Enum
begin

text \<open>
  What the enumeration keeps of its own variables over any device at all: the typing of \<open>usb_vars_ok\<close>
  needs nothing of the controller.  And that the poll returns: its one open loop reads a setup packet
  again whenever a newer one cleared the tripwire, so it ends once the host has no more to send.
\<close>

unbundle bit_operations_syntax

definition same_vars :: "'d usb_state \<Rightarrow> 'd usb_state \<Rightarrow> bool" where
  "same_vars s s' \<longleftrightarrow> enum_state s' = enum_state s \<and> enum_done s' = enum_done s \<and> enum_addr s' = enum_addr s
     \<and> enum_configured s' = enum_configured s \<and> enum_requests s' = enum_requests s \<and> enum_resets s' = enum_resets s"

lemma same_refl [simp]: "same_vars s s"
  by (simp add: same_vars_def)

lemma same_trans: "same_vars s s' \<Longrightarrow> same_vars s' s'' \<Longrightarrow> same_vars s s''"
  by (simp add: same_vars_def)

lemma same_steps [simp]:
  "same_vars s (snd (usb_enum_read32 k off s')) = same_vars s s'" "same_vars s (usb_enum_write32 k off v s') = same_vars s s'"
  "same_vars s (usb_clean k obj s') = same_vars s s'" "same_vars s (usb_flush k obj s') = same_vars s s'"
  "same_vars s (usb_enum_qh i w v s') = same_vars s s'" "same_vars s (usb_enum_td i w v s') = same_vars s s'"
  "same_vars s (usb_in_buf_put j b s') = same_vars s s'" "same_vars s (usb_enum_nuke k q s') = same_vars s s'"
  "same_vars s (usb_enum_complete_clear k v s') = same_vars s s'"
  by (simp_all add: same_vars_def usb_enum_read32_def usb_enum_write32_def usb_clean_def usb_flush_def usb_enum_qh_def usb_enum_td_def
      usb_in_buf_put_def usb_enum_nuke_def usb_enum_complete_clear_def case_prod_unfold Let_def)

lemma same_prime [simp]: "same_vars s (usb_enum_prime k lay q t b len d s') = same_vars s s'"
  by (simp add: usb_enum_prime_def Let_def split: option.split)

lemma same_loop: "same_vars s s' \<Longrightarrow> same_vars s (build_string_loop str i n s')"
  by (induction n arbitrary: i s') simp_all

lemma same_read_setup: "same_vars s s' \<Longrightarrow> usb_enum_read_setup k n s' = Some (p, s'') \<Longrightarrow> same_vars s s''"
proof (induction n arbitrary: s')
  case (Suc n)
  then show ?case
    by (auto simp: Let_def case_prod_unfold split: if_splits elim!: Suc.IH [rotated])
qed simp

lemma same_descriptor: "same_vars s (snd (usb_enum_get_descriptor k lay p s))"
  by (simp add: usb_enum_get_descriptor_def Let_def usb_enum_build_string_def usb_enum_build_langid_def same_loop split: prod.split)

text \<open>Between polls: an address of seven bits, a configuration that is 0 or 1, and only four of the seven states.\<close>

definition usb_ok :: "'d usb_state \<Rightarrow> bool" where
  "usb_ok s \<longleftrightarrow> enum_addr s < 128 \<and> enum_configured s \<in> {0, 1}"

definition usb_vars_ok :: "'d usb_state \<Rightarrow> bool" where
  "usb_vars_ok s \<longleftrightarrow> usb_ok s \<and> enum_state s \<in> {USB_ENUM_ST_IDLE, USB_ENUM_ST_ARMED, USB_ENUM_ST_DATA, USB_ENUM_ST_STATUS}"


lemma ok_same: "same_vars s s' \<Longrightarrow> usb_ok s' = usb_ok s" "same_vars s s' \<Longrightarrow> usb_vars_ok s' = usb_vars_ok s"
  by (simp_all add: same_vars_def usb_ok_def usb_vars_ok_def)

lemma ok_state [simp]: "usb_ok (s\<lparr>enum_state := v\<rparr>) = usb_ok s" "usb_ok (s\<lparr>enum_requests := v\<rparr>) = usb_ok s"
  by (simp_all add: usb_ok_def)

lemma ok_status: "usb_ok s \<Longrightarrow> usb_vars_ok (usb_enum_status_in k lay s)"
  using ok_same(1) [of s "usb_enum_prime k lay QH_IN0 USB_ENUM_TD_IN0 None 0 True s"] by (simp add: usb_vars_ok_def usb_enum_status_in_def)

lemma same_arm_in: "same_vars s (usb_enum_arm_ep_in cf k lay s)"
  by (simp add: usb_enum_arm_ep_in_def Let_def)

lemma and_7f: "(x :: u32) AND 0x7f < 128"
proof -
  have "x AND 0x7f = take_bit 7 x" by (simp add: take_bit_eq_mask mask_eq_exp_minus_1)
  then show ?thesis using take_bit_int_less_exp [of 7 "uint x"] by (simp add: word_less_def unsigned_take_bit_eq)
qed

lemma ok_request:
  assumes ok: "usb_ok s"
  shows "usb_vars_ok (usb_enum_request cf k lay p s)"
proof -
  define d where "d = usb_enum_get_descriptor k lay p s"
  have d: "usb_ok (snd d)" using ok ok_same(1) [OF same_descriptor] unfolding d_def by blast
  have a: "usb_ok (usb_enum_write32 k off v (s\<lparr>enum_addr := setup_wValue p AND 0x7f\<rparr>))" for off v
    using ok and_7f by (simp add: usb_ok_def usb_enum_write32_def)
  have c: "usb_ok (s\<lparr>enum_configured := x\<rparr>)" "usb_ok (usb_enum_arm_ep_in cf k lay (s\<lparr>enum_configured := x\<rparr>))" if "x \<in> {0, 1}" for x
    using ok that ok_same(1) [OF same_arm_in, of cf k lay "s\<lparr>enum_configured := x\<rparr>"] by (auto simp: usb_ok_def)
  have g: "usb_ok (usb_enum_prime k lay QH_IN0 USB_ENUM_TD_IN0 b n True (usb_in_buf_put 1 0 (usb_in_buf_put 0 0 s)))" for b n
    using ok ok_same(1) [of s "usb_enum_prime k lay QH_IN0 USB_ENUM_TD_IN0 b n True (usb_in_buf_put 1 0 (usb_in_buf_put 0 0 s))"] by simp
  have data: "usb_ok t \<Longrightarrow> usb_vars_ok (t\<lparr>enum_state := USB_ENUM_ST_DATA\<rparr>)" for t :: "'a usb_state" by (simp add: usb_vars_ok_def)
  show ?thesis
    unfolding usb_enum_request_def Let_def case_prod_unfold d_def [symmetric]
    by (simp add: data ok_status ok d a c g [unfolded One_nat_def])
qed


lemma ok_setup:
  assumes "usb_ok s" and "usb_enum_setup cf k lay n s = Some s'"
  shows "usb_vars_ok s'"
proof -
  obtain p s1 where r: "usb_enum_read_setup k n s = Some (p, s1)" using assms(2) by (auto simp: usb_enum_setup_def split: option.splits)
  have "usb_ok s1" using ok_same(1) [OF same_read_setup [OF same_refl r]] assms(1) by simp
  moreover have "same_vars s1 (usb_enum_nuke k QH_IN0 (usb_enum_nuke k QH_OUT0 (usb_enum_write32 k STAGE90_USB_ENDPTSETUPSTAT 1 s1)))" by simp
  ultimately have "usb_ok (usb_enum_nuke k QH_IN0 (usb_enum_nuke k QH_OUT0 (usb_enum_write32 k STAGE90_USB_ENDPTSETUPSTAT 1 s1)))"
    using ok_same(1) by blast
  then show ?thesis using assms(2) by (auto simp: usb_enum_setup_def r Let_def intro!: ok_request)
qed

lemma ok_to: "usb_vars_ok s \<Longrightarrow> usb_ok s"
  by (simp add: usb_vars_ok_def)

lemma ok_dones:
  assumes "usb_vars_ok s"
  shows "usb_vars_ok (usb_enum_in0_done k lay s)" and "usb_vars_ok (usb_enum_out0_done k s)" and "usb_vars_ok (usb_enum_in1_done cf k lay s)"
proof -
  have S: "same_vars s t \<Longrightarrow> v \<in> {USB_ENUM_ST_IDLE, USB_ENUM_ST_ARMED, USB_ENUM_ST_DATA, USB_ENUM_ST_STATUS} \<Longrightarrow> usb_vars_ok (t\<lparr>enum_state := v\<rparr>)" for t v
    using ok_same(1) [of s t] ok_to [OF assms] by (simp add: usb_vars_ok_def)
  have K: "same_vars s t \<Longrightarrow> usb_vars_ok t" for t using ok_same(2) assms by blast
  have R: "same_vars s (t\<lparr>enum_in_reads := v\<rparr>) = same_vars s t" for t v by (simp add: same_vars_def)
  show "usb_vars_ok (usb_enum_in0_done k lay s)" "usb_vars_ok (usb_enum_out0_done k s)" "usb_vars_ok (usb_enum_in1_done cf k lay s)"
    by (simp_all add: usb_enum_in0_done_def usb_enum_out0_done_def usb_enum_in1_done_def Let_def case_prod_unfold S K R assms)
qed

lemma ok_ui:
  assumes "usb_vars_ok s" and "usb_enum_ui cf k lay n s = Some s'"
  shows "usb_vars_ok s'"
proof -
  obtain st s1 where r: "usb_enum_read32 k STAGE90_USB_ENDPTSETUPSTAT s = (st, s1)" by fastforce
  have "same_vars s (snd (usb_enum_read32 k STAGE90_USB_ENDPTSETUPSTAT s))" by simp
  then have "usb_vars_ok s1" using ok_same(2) assms(1) unfolding r snd_conv by blast
  then show ?thesis using assms(2) by (auto simp: usb_enum_ui_def r split: if_splits intro!: ok_dones intro: ok_setup [OF ok_to])
qed

lemma poll_vars_ok:
  assumes "usb_vars_ok s" and "entry_usb_enum_poll cf k lay n s = Some s'"
  shows "usb_vars_ok s'"
proof -
  have K: "usb_vars_ok (snd (usb_enum_read32 k off t))" "usb_vars_ok (usb_enum_write32 k off v t)" if "usb_vars_ok t" for off v t
    using ok_same(2) [of t "snd (usb_enum_read32 k off t)"] ok_same(2) [of t "usb_enum_write32 k off v t"] that by simp_all
  have arm0: "same_vars t (usb_enum_arm_ep0 k lay t)" for t by (simp add: usb_enum_arm_ep0_def Let_def)
  have arm: "usb_vars_ok (usb_enum_arm k lay t)" if t: "usb_vars_ok t" for t
  proof -
    have "usb_ok (t\<lparr>enum_done := 1\<rparr>)" using ok_to [OF t] by (simp add: usb_ok_def)
    then have "usb_vars_ok ((usb_enum_arm_ep0 k lay (t\<lparr>enum_done := 1\<rparr>))\<lparr>enum_state := USB_ENUM_ST_ARMED\<rparr>)"
      using ok_same(1) [OF arm0] by (simp add: usb_vars_ok_def)
    then show ?thesis using K t by (simp add: usb_enum_arm_def)
  qed
  have reset: "usb_vars_ok (usb_enum_bus_reset k t)" for t
    by (simp add: usb_enum_bus_reset_def Let_def usb_vars_ok_def usb_ok_def)
  define s2 where "s2 = usb_enum_arm k lay (snd (usb_enum_read32 k STAGE90_USB_USBMODE s))"
  define s4 where "s4 = snd (usb_enum_read32 k STAGE90_USB_USBINTR (snd (usb_enum_read32 k STAGE90_USB_USBSTS s2)))"
  have s4: "usb_vars_ok s4" unfolding s4_def s2_def by (intro K arm assms)
  show ?thesis
    using assms(2) s4 K(1) [OF assms(1)]
    unfolding entry_usb_enum_poll_def Let_def case_prod_unfold s2_def [symmetric] s4_def [symmetric]
    by (auto split: if_splits option.splits intro!: K(2) reset intro: ok_ui [OF reset] ok_ui [OF s4])
qed

subsection \<open>Every poll returns\<close>

text \<open>The documented tripwire: what is written to \<open>USBCMD\<close> with it set reads back with it set, unless a
  setup packet has arrived in between.  \<open>pend\<close> counts the setup packets the host may still send: no access
  makes it grow, and a lost tripwire has used one up.\<close>

definition setup_races :: "'d usb_world \<Rightarrow> ('d \<Rightarrow> nat) \<Rightarrow> bool" where
  "setup_races k pend \<longleftrightarrow>
     (\<forall>a d. pend (snd (us_read32 k a d)) \<le> pend d) \<and> (\<forall>a v d. pend (us_write32 k a v d) \<le> pend d)
   \<and> (\<forall>obj r d. pend (us_clean k obj r d) \<le> pend d)
   \<and> (\<forall>v d c d'. v AND USBCMD_SUTW \<noteq> 0 \<longrightarrow>
        us_read32 k (STAGE90_USB_OTG_BASE + STAGE90_USB_USBCMD) (us_write32 k (STAGE90_USB_OTG_BASE + STAGE90_USB_USBCMD) v d) = (c, d')
        \<longrightarrow> c AND USBCMD_SUTW = 0 \<longrightarrow> pend d' < pend d)"

lemma sutw_set: "(c OR USBCMD_SUTW) AND USBCMD_SUTW \<noteq> 0"
  by (simp add: USBCMD_SUTW_def bit.conj_disj_distrib2 word_eq_iff_unsigned)

lemma pend_steps:
  assumes "setup_races k pend"
  shows "pend (us_dev (snd (usb_enum_read32 k off s))) \<le> pend (us_dev s)"
    and "pend (us_dev (usb_enum_write32 k off v s)) \<le> pend (us_dev s)"
    and "pend (us_dev (usb_enum_arm k lay s)) \<le> pend (us_dev s)"
    and "pend (us_dev (usb_enum_bus_reset k s)) \<le> pend (us_dev s)"
proof -
  have R: "pend (us_dev (snd (usb_enum_read32 k off s))) \<le> pend (us_dev s)" for off s
    using assms by (simp add: setup_races_def usb_enum_read32_def case_prod_unfold Let_def)
  have W: "pend (us_dev (usb_enum_write32 k off v s)) \<le> pend (us_dev s)" for off v s
    using assms by (simp add: setup_races_def usb_enum_write32_def)
  have N: "pend (us_dev (usb_enum_nuke k q s)) \<le> pend (us_dev s)" for q s
    using assms by (simp add: setup_races_def usb_enum_nuke_def usb_clean_def usb_enum_qh_def)
  have A: "pend (us_dev (usb_enum_arm_ep0 k lay s)) \<le> pend (us_dev s)" for s
    unfolding usb_enum_arm_ep0_def Let_def by (intro order_trans [OF W] order_trans [OF N] order_refl)
  have "pend (us_dev (snd (usb_enum_read32 k off ((usb_enum_arm_ep0 k lay (s\<lparr>enum_done := 1\<rparr>))\<lparr>enum_state := v\<rparr>)))) \<le> pend (us_dev s)"
    for off v s
    using R [of off "(usb_enum_arm_ep0 k lay (s\<lparr>enum_done := 1\<rparr>))\<lparr>enum_state := v\<rparr>"] A [of "s\<lparr>enum_done := 1\<rparr>"] by simp
  then show "pend (us_dev (usb_enum_arm k lay s)) \<le> pend (us_dev s)" by (simp add: usb_enum_arm_def)
  show "pend (us_dev (usb_enum_bus_reset k s)) \<le> pend (us_dev s)"
    unfolding usb_enum_bus_reset_def Let_def by (simp, intro order_trans [OF W] order_refl)
qed (use assms in \<open>simp_all add: setup_races_def usb_enum_read32_def usb_enum_write32_def case_prod_unfold Let_def\<close>)

lemma read_setup_ends:
  assumes "setup_races k pend" and "pend (us_dev s) < n"
  shows "\<exists>r. \<forall>m \<ge> n. usb_enum_read_setup k m s = Some r"
  using assms(2)
proof (induction n arbitrary: s)
  case (Suc n)
  define s1 where "s1 = usb_flush k (Obj_Qh QH_OUT0) s"
  obtain cmd s2 where s2: "usb_enum_read32 k STAGE90_USB_USBCMD s1 = (cmd, s2)" by fastforce
  define s3 where "s3 = usb_enum_write32 k STAGE90_USB_USBCMD (cmd OR USBCMD_SUTW) s2"
  obtain c s4 where s4: "usb_enum_read32 k STAGE90_USB_USBCMD s3 = (c, s4)" by fastforce
  have p: "pend (us_dev s2) \<le> pend (us_dev s)"
    using pend_steps(1) [OF assms(1), of STAGE90_USB_USBCMD s1] s2 by (simp add: s1_def usb_flush_def)
  have unroll: "usb_enum_read_setup k (Suc m) s =
      (if c AND USBCMD_SUTW \<noteq> 0 then Some (setup_bytes (g_usb_qh (us_ram s3) QH_OUT0 (QH_OFF_SETUP div 4))
           (g_usb_qh (us_ram s3) QH_OUT0 (QH_OFF_SETUP div 4 + 1)), usb_enum_write32 k STAGE90_USB_USBCMD cmd s4)
       else usb_enum_read_setup k m s4)" for m
    by (simp add: Let_def s2 s4 flip: s1_def s3_def)
  have "\<exists>r. \<forall>m \<ge> n. usb_enum_read_setup k (Suc m) s = Some r"
  proof (cases "c AND USBCMD_SUTW = 0")
    case True
    obtain d where "us_read32 k (STAGE90_USB_OTG_BASE + STAGE90_USB_USBCMD) (us_write32 k (STAGE90_USB_OTG_BASE + STAGE90_USB_USBCMD)
        (cmd OR USBCMD_SUTW) (us_dev s2)) = (c, d)" and d: "us_dev s4 = d"
      using s4 by (auto simp: s3_def usb_enum_read32_def usb_enum_write32_def split: prod.splits)
    then have "pend d < pend (us_dev s2)"
      using assms(1) True sutw_set [of cmd] unfolding setup_races_def by blast
    then have "pend (us_dev s4) < pend (us_dev s2)" by (simp only: d)
    then have "\<exists>r. \<forall>m \<ge> n. usb_enum_read_setup k m s4 = Some r" using Suc.prems p by (intro Suc.IH) linarith
    then show ?thesis using True unfolding unroll by simp
  next
    case False
    then show ?thesis unfolding unroll by simp
  qed
  then show ?case by (metis Suc_le_D Suc_le_mono)
qed simp

lemma ui_ends:
  assumes "setup_races k pend" and "pend (us_dev s) < n"
  shows "\<exists>s'. \<forall>m \<ge> n. usb_enum_ui cf k lay m s = Some s'"
proof -
  obtain st s1 where s1: "usb_enum_read32 k STAGE90_USB_ENDPTSETUPSTAT s = (st, s1)" by fastforce
  have "pend (us_dev s1) < n" using pend_steps(1) [OF assms(1), of STAGE90_USB_ENDPTSETUPSTAT s] s1 assms(2) by simp
  then obtain r where "\<forall>m \<ge> n. usb_enum_read_setup k m s1 = Some r" using read_setup_ends [OF assms(1)] by blast
  then show ?thesis by (cases r; cases "st AND 1 = 0") (simp_all add: usb_enum_ui_def s1 usb_enum_setup_def Let_def)
qed

lemma poll_ends:
  assumes "setup_races k pend" and "pend (us_dev s) < n"
  shows "\<exists>s'. \<forall>m \<ge> n. entry_usb_enum_poll cf k lay m s = Some s'"
proof -
  obtain md s1 where s1: "usb_enum_read32 k STAGE90_USB_USBMODE s = (md, s1)" by fastforce
  obtain sts s3 where s3: "usb_enum_read32 k STAGE90_USB_USBSTS (usb_enum_arm k lay s1) = (sts, s3)" by fastforce
  obtain msk s4 where s4: "usb_enum_read32 k STAGE90_USB_USBINTR s3 = (msk, s4)" by fastforce
  define s5 where "s5 = (if (sts AND msk) AND STS_URI \<noteq> 0 then usb_enum_bus_reset k s4 else s4)"
  note P = pend_steps [OF assms(1)]
  have "pend (us_dev s4) \<le> pend (us_dev s)"
    using P(1) [of STAGE90_USB_USBMODE s] P(3) [of lay s1] P(1) [of STAGE90_USB_USBSTS "usb_enum_arm k lay s1"]
      P(1) [of STAGE90_USB_USBINTR s3] s1 s3 s4 by simp
  then have "pend (us_dev s5) < n" using P(4) [of s4] assms(2) by (simp add: s5_def)
  then obtain s6 where "\<forall>m \<ge> n. usb_enum_ui cf k lay m s5 = Some s6" using ui_ends [OF assms(1)] by blast
  then have "\<exists>r. \<forall>m \<ge> n. (if (sts AND msk) AND STS_UI \<noteq> 0 then usb_enum_ui cf k lay m s5 else Some s5) = Some r" by auto
  then obtain r where r: "\<And>m. n \<le> m \<Longrightarrow> (if (sts AND msk) AND STS_UI \<noteq> 0 then usb_enum_ui cf k lay m s5 else Some s5) = Some r" by blast
  have "entry_usb_enum_poll cf k lay m s =
      (if md AND STAGE90_USB_USBMODE_CM \<noteq> STAGE90_USB_USBMODE_CM_DEVICE \<and> \<not> en_force cf then Some s1
       else Some (usb_enum_write32 k STAGE90_USB_USBSTS (sts AND msk) r))" if "n \<le> m" for m
    unfolding entry_usb_enum_poll_def Let_def s1 s3 s4 prod.case s5_def [symmetric] r [OF that] option.case ..
  then show ?thesis by auto
qed

lemma read_setup_spins:
  assumes "\<And>d. fst (us_read32 k (STAGE90_USB_OTG_BASE + STAGE90_USB_USBCMD) d) AND USBCMD_SUTW = 0"
  shows "usb_enum_read_setup k n s = None"
proof (induction n arbitrary: s)
  case (Suc n)
  then show ?case using assms by (simp add: usb_enum_read32_def Let_def case_prod_unfold)
qed simp

subsection \<open>Properties\<close>

text \<open>C18. Every poll that returns keeps the typing, whatever the controller answers: in particular no poll
  leaves the setup, addressed or configured state behind.  And where the host sends fewer than \<open>n\<close> more setup
  packets, \<open>n\<close> passes of the loop are enough for the poll to return.\<close>

theorem usb_vars_typed:
  assumes "usb_vars_ok s"
  shows "(\<forall>s'. entry_usb_enum_poll cf k lay n s = Some s' \<longrightarrow> usb_vars_ok s')
    \<and> (setup_races k pend \<and> pend (us_dev s) < n \<longrightarrow> (\<exists>s'. entry_usb_enum_poll cf k lay n s = Some s' \<and> usb_vars_ok s'))"
  using poll_vars_ok [OF assms, of cf k lay n] poll_ends [of k pend s n cf lay] by blast

text \<open>C40. The loop that reads a setup packet ends, and the poll with it, when fewer than \<open>n\<close> setup packets
  clear the tripwire while it runs, and its result is then the same for every bound from \<open>n\<close> on; with
  a controller that keeps the tripwire (\<open>pend\<close> is 0) one pass is enough.  Over a controller whose \<open>USBCMD\<close> never
  reads with the tripwire set, the loop never ends.\<close>

theorem usb_poll_returns:
  "(setup_races k pend \<and> pend (us_dev s) < n \<longrightarrow> (\<exists>s'. \<forall>m \<ge> n. entry_usb_enum_poll cf k lay m s = Some s'))
   \<and> ((\<forall>d. fst (us_read32 k (STAGE90_USB_OTG_BASE + STAGE90_USB_USBCMD) d) AND USBCMD_SUTW = 0) \<longrightarrow>
      (\<forall>m. usb_enum_read_setup k m s = None))"
  using poll_ends [of k pend s n cf lay] read_setup_spins [of k] by blast

text \<open>A controller with a setup packet pending that loses the tripwire to the next packets of the host.\<close>

definition racing_world :: "(nat \<times> u32) usb_world" where
  "racing_world = \<lparr>us_read32 = (\<lambda>a d. (if a = STAGE90_USB_OTG_BASE + STAGE90_USB_USBCMD then snd d else 0xffffffff, d)),
     us_write32 = (\<lambda>a v d. if a \<noteq> STAGE90_USB_OTG_BASE + STAGE90_USB_USBCMD then d
        else if 0 < fst d \<and> v AND USBCMD_SUTW \<noteq> 0 then (fst d - 1, v AND NOT USBCMD_SUTW) else (fst d, v)),
     us_clean = (\<lambda>obj r d. d), us_flush = (\<lambda>obj d r. r)\<rparr>"

lemma racing_races: "setup_races racing_world fst"
  by (auto simp: setup_races_def racing_world_def split: if_splits)

definition racing_state :: "(nat \<times> u32) usb_state" where
  "racing_state = \<lparr>us_dev = (2, 0), us_ram = \<lparr>g_usb_qh = (\<lambda>_ _. 0), g_usb_td = (\<lambda>_ _. 0), g_usb_in_buf = [], g_usb_stream_buf = [], g_usb_stream_td = (\<lambda>_. 0)\<rparr>,
     enum_state = 0, enum_done = 0, enum_addr = 5, enum_configured = 1, enum_requests = 0, enum_resets = 0, enum_in_reads = 0\<rparr>"

theorem usb_vars_typed_witness:
  "\<exists>s'. entry_usb_enum_poll \<lparr>en_stream = False, en_force = False\<rparr> racing_world (\<lambda>_. 0) 3 racing_state = Some s' \<and> usb_vars_ok s'"
proof -
  have "usb_vars_ok racing_state" by (simp add: racing_state_def usb_vars_ok_def usb_ok_def USB_ENUM_ST_IDLE_def)
  from usb_vars_typed [OF this, of "\<lparr>en_stream = False, en_force = False\<rparr>" racing_world "\<lambda>_. 0" 3 fst] show ?thesis
    using racing_races by (simp add: racing_state_def)
qed

theorem usb_poll_returns_witness:
  "\<exists>s'. \<forall>m \<ge> 3. entry_usb_enum_poll \<lparr>en_stream = False, en_force = True\<rparr> racing_world (\<lambda>_. 0) m racing_state = Some s'"
  using usb_poll_returns [of racing_world fst racing_state 3 "\<lparr>en_stream = False, en_force = True\<rparr>" "\<lambda>_. 0"] racing_races
  by (simp add: racing_state_def)

end
