(* ===== verification/Usb_Stream.thy ===== *)
theory Usb_Stream
  imports Usb_Enum
begin

text \<open>
  The bulk stream of src/src/entry/entry_usb_stream.c: the one IN endpoint carries the bytes of the
  RAM console from a cursor on, a page at a time, over the same controller and shared objects as the
  enumeration.  The console is its header's size word and the bytes after the header.
\<close>

unbundle bit_operations_syntax

definition STREAM_OFF_DATA :: u32 where "STREAM_OFF_DATA = 12"
definition STREAM_SIZE_MAX :: u32 where "STREAM_SIZE_MAX = 0x00200000 - STREAM_OFF_DATA"
definition STREAM_CHUNK :: u32 where "STREAM_CHUNK = 4096"

definition USB_STREAM_ST_IDLE :: u32 where "USB_STREAM_ST_IDLE = 0"
definition USB_STREAM_ST_WAITING :: u32 where "USB_STREAM_ST_WAITING = 1"
definition USB_STREAM_ST_STREAM :: u32 where "USB_STREAM_ST_STREAM = 2"
definition USB_STREAM_ST_DRAINED :: u32 where "USB_STREAM_ST_DRAINED = 3"

record usb_console =
  con_size :: u32
  con_data :: "nat \<Rightarrow> u8"

record usb_stream =
  stream_cursor :: u32
  stream_last :: u32
  stream_active :: u32
  stream_chunks :: u32
  stream_actual :: u32
  stream_state :: u32

definition usb_stream_size :: "usb_console \<Rightarrow> u32" where
  "usb_stream_size con = (if con_size con > STREAM_SIZE_MAX then STREAM_SIZE_MAX else con_size con)"

definition usb_stream_available :: "usb_console \<Rightarrow> usb_stream \<Rightarrow> u32" where
  "usb_stream_available con t =
    (if usb_stream_size con > stream_cursor t then usb_stream_size con - stream_cursor t else 0)"

definition usb_stream_td :: "nat \<Rightarrow> u32 \<Rightarrow> 'd usb_state \<Rightarrow> 'd usb_state" where
  "usb_stream_td off v s = s\<lparr>us_ram := (us_ram s)\<lparr>g_usb_stream_td := (g_usb_stream_td (us_ram s))(off div 4 := v)\<rparr>\<rparr>"

fun stream_copy :: "usb_console \<Rightarrow> nat \<Rightarrow> nat \<Rightarrow> nat \<Rightarrow> bytes \<Rightarrow> bytes" where
  "stream_copy con cur i 0 bs = bs"
| "stream_copy con cur i (Suc n) bs = stream_copy con cur (Suc i) n (bs[i := con_data con (cur + i)])"

definition usb_stream_prime ::
    "'d usb_world \<Rightarrow> usb_layout \<Rightarrow> usb_console \<Rightarrow> u32 \<Rightarrow> usb_stream \<Rightarrow> 'd usb_state \<Rightarrow> usb_stream \<times> 'd usb_state" where
  "usb_stream_prime k lay con len0 t s =
    (let len = (if len0 > STREAM_CHUNK then STREAM_CHUNK else len0);
         s0 = s\<lparr>us_ram := (us_ram s)\<lparr>g_usb_stream_buf :=
                stream_copy con (unat (stream_cursor t)) 0 (unat len) (g_usb_stream_buf (us_ram s))\<rparr>\<rparr>;
         token = push_bit TD_TOTAL_SHIFT (len AND 0x7fff) OR TD_ACTIVE OR TD_IOC;
         s1 = usb_stream_td TD_OFF_NEXT TD_TERMINATE s0;
         s2 = usb_stream_td TD_OFF_TOKEN token s1;
         s3 = usb_stream_td TD_OFF_PAGE0 (lay Obj_Stream_Buf) s2;
         s4 = usb_clean k Obj_Stream_Buf (usb_clean k Obj_Stream_Td s3);
         s5 = usb_enum_qh QH_IN1 QH_OFF_CAP (QH_ZLT OR QH_MAX_PKT EP_IN_MAXPKT) s4;
         s6 = usb_enum_qh QH_IN1 QH_OFF_TDNEXT (lay Obj_Stream_Td AND NOT 0x1f) s5;
         s7 = usb_enum_qh QH_IN1 QH_OFF_TDTOK 0 s6;
         s8 = usb_clean k (Obj_Qh QH_IN1) s7
     in (t\<lparr>stream_last := len, stream_active := 1, stream_state := USB_STREAM_ST_STREAM\<rparr>,
         usb_enum_write32 k STAGE90_USB_ENDPTPRIME (EPBIT EP_IN True) s8))"

definition usb_stream_complete ::
    "'d usb_world \<Rightarrow> usb_layout \<Rightarrow> usb_console \<Rightarrow> usb_stream \<Rightarrow> 'd usb_state \<Rightarrow> usb_stream \<times> 'd usb_state" where
  "usb_stream_complete k lay con t s =
    (let s1 = usb_flush k Obj_Stream_Td s;
         token = g_usb_stream_td (us_ram s1) (TD_OFF_TOKEN div 4)
     in if token AND TD_ACTIVE \<noteq> 0 then (t, s1)
        else
          (let remaining = drop_bit TD_TOTAL_SHIFT (token AND TD_TOTAL_MASK);
               actual = (if stream_last t > remaining then stream_last t - remaining else 0);
               t1 = t\<lparr>stream_actual := actual, stream_cursor := stream_cursor t + actual,
                      stream_chunks := stream_chunks t + 1, stream_active := 0\<rparr>;
               s2 = usb_enum_write32 k STAGE90_USB_ENDPTCOMPLETE (EPBIT EP_IN True) s1
           in if usb_stream_available con t1 = 0 then (t1\<lparr>stream_state := USB_STREAM_ST_DRAINED\<rparr>, s2)
              else usb_stream_prime k lay con (usb_stream_available con t1) t1 s2))"

definition entry_usb_stream_poll ::
    "'d usb_world \<Rightarrow> usb_layout \<Rightarrow> usb_console \<Rightarrow> usb_stream \<times> 'd usb_state \<Rightarrow> usb_stream \<times> 'd usb_state" where
  "entry_usb_stream_poll k lay con = (\<lambda>(t, s).
    (let (usbmode, s1) = usb_enum_read32 k STAGE90_USB_USBMODE s
     in if usbmode AND STAGE90_USB_USBMODE_CM \<noteq> STAGE90_USB_USBMODE_CM_DEVICE
        then (t\<lparr>stream_state := USB_STREAM_ST_IDLE\<rparr>, s1)
        else
          (let (ctrl, s2) = usb_enum_read32 k (STAGE90_USB_ENDPTCTRL EP_IN) s1
           in if ctrl AND STAGE90_USB_ENDPTCTRL_TXE = 0
              then (t\<lparr>stream_state := USB_STREAM_ST_WAITING\<rparr>, s2)
              else if stream_active t \<noteq> 0 then
                (let (c, s3) = usb_enum_read32 k STAGE90_USB_ENDPTCOMPLETE s2
                 in if c AND EPBIT EP_IN True \<noteq> 0 then usb_stream_complete k lay con t s3 else (t, s3))
              else if stream_state t \<noteq> USB_STREAM_ST_DRAINED then
                (if usb_stream_available con t = 0 then (t\<lparr>stream_state := USB_STREAM_ST_DRAINED\<rparr>, s2)
                 else usb_stream_prime k lay con (usb_stream_available con t) t s2)
              else (t, s2))))"

end
