(* ===== verification/Usb_Core.thy ===== *)
theory Usb_Core
  imports Usb_Stream
begin

text \<open>
  What the gadget relies on of the controller and the host, as a machine (\<open>usb_core\<close>): registers that
  read back, write-one-to-clear status, a prime that fetches the transfer descriptor its queue head
  names from memory, a transfer that moves the bytes, updates the descriptor and raises the
  completion, setup packets latched with their bit.  \<open>usb_sim\<close> says that a world behaves so, through
  an abstraction of its device states; every statement about the gadget assumes only that.
\<close>

unbundle bit_operations_syntax

record usb_core =
  c_sts :: u32
  c_intr :: u32
  c_setupstat :: u32
  c_complete :: u32
  c_cmd :: u32
  c_mode :: u32
  c_devaddr :: u32
  c_eplist :: u32
  c_ctrl1 :: u32
  c_ram :: usb_ram
  c_primed :: "nat \<Rightarrow> (usb_obj \<times> u32 \<times> u32) option"

definition ram_copy :: "usb_obj \<Rightarrow> usb_ram \<Rightarrow> usb_ram \<Rightarrow> usb_ram" where
  "ram_copy obj from to = (case obj of
       Obj_Qh i \<Rightarrow> to\<lparr>g_usb_qh := (g_usb_qh to)(i := g_usb_qh from i)\<rparr>
     | Obj_Td i \<Rightarrow> to\<lparr>g_usb_td := (g_usb_td to)(i := g_usb_td from i)\<rparr>
     | Obj_In_Buf \<Rightarrow> to\<lparr>g_usb_in_buf := g_usb_in_buf from\<rparr>
     | Obj_Stream_Buf \<Rightarrow> to\<lparr>g_usb_stream_buf := g_usb_stream_buf from\<rparr>
     | Obj_Stream_Td \<Rightarrow> to\<lparr>g_usb_stream_td := g_usb_stream_td from\<rparr>
     | _ \<Rightarrow> to)"

definition obj_bytes :: "usb_ram \<Rightarrow> usb_obj \<Rightarrow> bytes" where
  "obj_bytes r obj = (case obj of Obj_In_Buf \<Rightarrow> g_usb_in_buf r | Obj_Stream_Buf \<Rightarrow> g_usb_stream_buf r
     | Obj_Dev_Desc \<Rightarrow> g_usb_dev_desc | Obj_Cfg_Desc \<Rightarrow> g_usb_cfg_desc | _ \<Rightarrow> [])"

definition td_words :: "usb_ram \<Rightarrow> usb_obj \<Rightarrow> nat \<Rightarrow> u32" where
  "td_words r obj = (case obj of Obj_Td i \<Rightarrow> g_usb_td r i | Obj_Stream_Td \<Rightarrow> g_usb_stream_td r | _ \<Rightarrow> (\<lambda>_. 0))"

definition td_put :: "usb_obj \<Rightarrow> nat \<Rightarrow> u32 \<Rightarrow> usb_ram \<Rightarrow> usb_ram" where
  "td_put obj w v r = (case obj of Obj_Td i \<Rightarrow> r\<lparr>g_usb_td := (g_usb_td r)(i := (g_usb_td r i)(w := v))\<rparr>
     | Obj_Stream_Td \<Rightarrow> r\<lparr>g_usb_stream_td := (g_usb_stream_td r)(w := v)\<rparr> | _ \<Rightarrow> r)"

definition obj_at :: "usb_layout \<Rightarrow> usb_obj list \<Rightarrow> u32 \<Rightarrow> usb_obj option" where
  "obj_at lay objs a = find (\<lambda>obj. lay obj = a) objs"

definition usb_tds :: "usb_obj list" where "usb_tds = [Obj_Td 0, Obj_Td 1, Obj_Td 2, Obj_Stream_Td]"
definition usb_bufs :: "usb_obj list" where "usb_bufs = [Obj_In_Buf, Obj_Dev_Desc, Obj_Cfg_Desc, Obj_Stream_Buf]"

text \<open>The descriptor the queue head of an endpoint names, if it is there and active: the object, the
  length and the page.\<close>

definition core_fetch :: "usb_layout \<Rightarrow> usb_core \<Rightarrow> nat \<Rightarrow> (usb_obj \<times> u32 \<times> u32) option" where
  "core_fetch lay c b =
    (if c_eplist c \<noteq> lay (Obj_Qh 0) then None
     else case obj_at lay usb_tds (g_usb_qh (c_ram c) b 2) of None \<Rightarrow> None
     | Some td \<Rightarrow> (let w = td_words (c_ram c) td in
         if w 1 AND TD_ACTIVE = 0 then None else Some (td, drop_bit 16 (w 1 AND TD_TOTAL_MASK), w 2)))"

definition core_read :: "u32 \<Rightarrow> usb_core \<Rightarrow> u32" where
  "core_read off c =
    (if off = STAGE90_USB_USBCMD then c_cmd c else if off = STAGE90_USB_USBSTS then c_sts c
     else if off = STAGE90_USB_USBINTR then c_intr c else if off = STAGE90_USB_USBMODE then c_mode c
     else if off = STAGE90_USB_ENDPTSETUPSTAT then c_setupstat c else if off = STAGE90_USB_ENDPTCOMPLETE then c_complete c
     else if off = STAGE90_USB_ENDPTCTRL EP_IN then c_ctrl1 c else 0)"

definition core_write :: "usb_layout \<Rightarrow> u32 \<Rightarrow> u32 \<Rightarrow> usb_core \<Rightarrow> usb_core" where
  "core_write lay off v c =
    (if off = STAGE90_USB_USBCMD then c\<lparr>c_cmd := v\<rparr>
     else if off = STAGE90_USB_USBSTS then c\<lparr>c_sts := c_sts c AND NOT v\<rparr>
     else if off = STAGE90_USB_USBINTR then c\<lparr>c_intr := v\<rparr>
     else if off = STAGE90_USB_DEVICEADDR then c\<lparr>c_devaddr := v\<rparr>
     else if off = STAGE90_USB_ENDPOINTLISTADDR then c\<lparr>c_eplist := v\<rparr>
     else if off = STAGE90_USB_ENDPTSETUPSTAT then c\<lparr>c_setupstat := c_setupstat c AND NOT v\<rparr>
     else if off = STAGE90_USB_ENDPTCOMPLETE then c\<lparr>c_complete := c_complete c AND NOT v\<rparr>
     else if off = STAGE90_USB_ENDPTFLUSH then c\<lparr>c_primed := (\<lambda>b. if bit v b then None else c_primed c b)\<rparr>
     else if off = STAGE90_USB_ENDPTPRIME then c\<lparr>c_primed := (\<lambda>b. if bit v b then core_fetch lay c b else c_primed c b)\<rparr>
     else if off = STAGE90_USB_ENDPTCTRL EP_IN then c\<lparr>c_ctrl1 := v\<rparr> else c)"

definition core_world :: "usb_layout \<Rightarrow> usb_core usb_world" where
  "core_world lay = \<lparr>us_read32 = (\<lambda>a c. (core_read (a - STAGE90_USB_OTG_BASE) c, c)),
     us_write32 = (\<lambda>a v c. core_write lay (a - STAGE90_USB_OTG_BASE) v c),
     us_clean = (\<lambda>obj r c. c\<lparr>c_ram := ram_copy obj r (c_ram c)\<rparr>),
     us_flush = (\<lambda>obj c r. ram_copy obj (c_ram c) r)\<rparr>"

subsection \<open>The host\<close>

text \<open>A reset, a setup packet of two words, and a transfer on endpoint bit \<open>b\<close> of which the host takes
  at most \<open>n\<close> bytes.\<close>

datatype usb_host = Host_Reset | Host_Setup u32 u32 | Host_Move nat nat

definition core_move :: "usb_layout \<Rightarrow> nat \<Rightarrow> nat \<Rightarrow> usb_core \<Rightarrow> bytes \<times> usb_core" where
  "core_move lay b n c = (case c_primed c b of None \<Rightarrow> ([], c)
     | Some (td, len, page) \<Rightarrow>
         (let m = min n (unat len);
              bs = (case obj_at lay usb_bufs page of None \<Rightarrow> [] | Some obj \<Rightarrow> obj_bytes (c_ram c) obj);
              tok = push_bit 16 (len - word_of_nat m) OR TD_IOC
          in (take m bs, c\<lparr>c_ram := td_put td 1 tok (c_ram c), c_primed := (c_primed c)(b := None),
                          c_complete := c_complete c OR push_bit b 1, c_sts := c_sts c OR STS_UI\<rparr>)))"

definition core_host :: "usb_layout \<Rightarrow> usb_host \<Rightarrow> usb_core \<Rightarrow> bytes \<times> usb_core" where
  "core_host lay h c = (case h of
       Host_Reset \<Rightarrow> ([], c\<lparr>c_sts := c_sts c OR STS_URI, c_devaddr := 0\<rparr>)
     | Host_Setup w0 w1 \<Rightarrow> ([], c\<lparr>c_ram := (c_ram c)\<lparr>g_usb_qh := (g_usb_qh (c_ram c))(0 :=
           (g_usb_qh (c_ram c) 0)(10 := w0, 11 := w1))\<rparr>,
         c_setupstat := c_setupstat c OR 1, c_sts := c_sts c OR STS_UI, c_cmd := c_cmd c AND NOT USBCMD_SUTW\<rparr>)
     | Host_Move b n \<Rightarrow> core_move lay b n c)"

subsection \<open>Simulation\<close>

text \<open>The registers whose value the gadget uses, and those it writes.\<close>

definition usb_readable :: "u32 list" where
  "usb_readable = [STAGE90_USB_USBCMD, STAGE90_USB_USBSTS, STAGE90_USB_USBINTR, STAGE90_USB_USBMODE,
     STAGE90_USB_ENDPTSETUPSTAT, STAGE90_USB_ENDPTCOMPLETE, STAGE90_USB_ENDPTCTRL EP_IN]"

definition usb_writable :: "u32 list" where
  "usb_writable = [STAGE90_USB_USBCMD, STAGE90_USB_USBSTS, STAGE90_USB_USBINTR, STAGE90_USB_DEVICEADDR,
     STAGE90_USB_ENDPOINTLISTADDR, STAGE90_USB_ENDPTSETUPSTAT, STAGE90_USB_ENDPTPRIME, STAGE90_USB_ENDPTFLUSH,
     STAGE90_USB_ENDPTCOMPLETE, STAGE90_USB_ENDPTCTRL 0, STAGE90_USB_ENDPTCTRL EP_IN]"

definition usb_sim :: "usb_layout \<Rightarrow> 'd usb_world \<Rightarrow> (usb_host \<Rightarrow> 'd \<Rightarrow> bytes \<times> 'd) \<Rightarrow> ('d \<Rightarrow> usb_core) \<Rightarrow> bool" where
  "usb_sim lay k env al \<longleftrightarrow>
     (\<forall>off \<in> set usb_readable. \<forall>d. fst (us_read32 k (STAGE90_USB_OTG_BASE + off) d) = core_read off (al d))
   \<and> (\<forall>off \<in> set (STAGE90_USB_ENDPTCTRL 0 # usb_readable). \<forall>d. al (snd (us_read32 k (STAGE90_USB_OTG_BASE + off) d)) = al d)
   \<and> (\<forall>off \<in> set usb_writable. \<forall>v d. al (us_write32 k (STAGE90_USB_OTG_BASE + off) v d) = core_write lay off v (al d))
   \<and> (\<forall>obj r d. al (us_clean k obj r d) = (al d)\<lparr>c_ram := ram_copy obj r (c_ram (al d))\<rparr>)
   \<and> (\<forall>obj r d. us_flush k obj d r = ram_copy obj (c_ram (al d)) r)
   \<and> (\<forall>h d. map_prod id al (env h d) = core_host lay h (al d))"

definition usb_view :: "('d \<Rightarrow> usb_core) \<Rightarrow> 'd usb_state \<Rightarrow> usb_core usb_state" where
  "usb_view al s = \<lparr>us_dev = al (us_dev s), us_ram = us_ram s, enum_state = enum_state s, enum_done = enum_done s,
     enum_addr = enum_addr s, enum_configured = enum_configured s, enum_requests = enum_requests s,
     enum_resets = enum_resets s, enum_in_reads = enum_in_reads s\<rparr>"

definition host_does :: "(usb_host \<Rightarrow> 'd \<Rightarrow> bytes \<times> 'd) \<Rightarrow> usb_host \<Rightarrow> 'd usb_state \<Rightarrow> bytes \<times> 'd usb_state" where
  "host_does env h s = (let (bs, d) = env h (us_dev s) in (bs, s\<lparr>us_dev := d\<rparr>))"

text \<open>Every operation of the gadget over a world is the operation over the machine, seen through \<open>al\<close>.\<close>

lemma view_fields [simp]:
  "us_dev (usb_view al s) = al (us_dev s)" "us_ram (usb_view al s) = us_ram s" "enum_state (usb_view al s) = enum_state s"
  "enum_done (usb_view al s) = enum_done s" "enum_addr (usb_view al s) = enum_addr s"
  "enum_configured (usb_view al s) = enum_configured s" "enum_requests (usb_view al s) = enum_requests s"
  "enum_resets (usb_view al s) = enum_resets s" "enum_in_reads (usb_view al s) = enum_in_reads s"
  by (simp_all add: usb_view_def)

lemma view_updates [simp]:
  "usb_view al (s\<lparr>us_dev := d\<rparr>) = (usb_view al s)\<lparr>us_dev := al d\<rparr>"
  "usb_view al (s\<lparr>us_ram := r\<rparr>) = (usb_view al s)\<lparr>us_ram := r\<rparr>"
  "usb_view al (s\<lparr>enum_state := v\<rparr>) = (usb_view al s)\<lparr>enum_state := v\<rparr>"
  "usb_view al (s\<lparr>enum_done := v\<rparr>) = (usb_view al s)\<lparr>enum_done := v\<rparr>"
  "usb_view al (s\<lparr>enum_addr := v\<rparr>) = (usb_view al s)\<lparr>enum_addr := v\<rparr>"
  "usb_view al (s\<lparr>enum_configured := v\<rparr>) = (usb_view al s)\<lparr>enum_configured := v\<rparr>"
  "usb_view al (s\<lparr>enum_requests := v\<rparr>) = (usb_view al s)\<lparr>enum_requests := v\<rparr>"
  "usb_view al (s\<lparr>enum_resets := v\<rparr>) = (usb_view al s)\<lparr>enum_resets := v\<rparr>"
  "usb_view al (s\<lparr>enum_in_reads := v\<rparr>) = (usb_view al s)\<lparr>enum_in_reads := v\<rparr>"
  by (simp_all add: usb_view_def)

lemma view_in_buf [simp]: "usb_view al (usb_in_buf_put i v s) = usb_in_buf_put i v (usb_view al s)"
  by (simp add: usb_in_buf_put_def)

lemma view_qh [simp]: "usb_view al (usb_enum_qh i off v s) = usb_enum_qh i off v (usb_view al s)"
  by (simp add: usb_enum_qh_def)

lemma view_td [simp]: "usb_view al (usb_enum_td i off v s) = usb_enum_td i off v (usb_view al s)"
  by (simp add: usb_enum_td_def)

lemma view_stream_td [simp]: "usb_view al (usb_stream_td off v s) = usb_stream_td off v (usb_view al s)"
  by (simp add: usb_stream_td_def)

lemma view_string_loop [simp]: "usb_view al (build_string_loop str i n s) = build_string_loop str i n (usb_view al s)"
  by (induction n arbitrary: i s) simp_all

lemma view_string: "map_prod id (usb_view al) (usb_enum_build_string str s) = usb_enum_build_string str (usb_view al s)"
  by (simp add: usb_enum_build_string_def Let_def)

lemma view_langid: "map_prod id (usb_view al) (usb_enum_build_langid s) = usb_enum_build_langid (usb_view al s)"
  by (simp add: usb_enum_build_langid_def)

text \<open>The operations over the machine, without the base address.\<close>

lemma core_ops:
  "usb_enum_read32 (core_world lay) off s = (core_read off (us_dev s), s)"
  "usb_enum_write32 (core_world lay) off v s = s\<lparr>us_dev := core_write lay off v (us_dev s)\<rparr>"
  "usb_clean (core_world lay) obj s = s\<lparr>us_dev := (us_dev s)\<lparr>c_ram := ram_copy obj (us_ram s) (c_ram (us_dev s))\<rparr>\<rparr>"
  "usb_flush (core_world lay) obj s = s\<lparr>us_ram := ram_copy obj (c_ram (us_dev s)) (us_ram s)\<rparr>"
  by (simp_all add: usb_enum_read32_def usb_enum_write32_def usb_clean_def usb_flush_def core_world_def)

lemma sim_read:
  assumes "usb_sim lay k env al" and "off \<in> set usb_readable"
  shows "usb_enum_read32 k off s = (core_read off (al (us_dev s)), snd (usb_enum_read32 k off s))"
    and "usb_view al (snd (usb_enum_read32 k off s)) = usb_view al s"
  using assms by (simp_all add: usb_sim_def usb_enum_read32_def usb_view_def split: prod.splits) (metis fst_conv snd_conv)+

lemma sim_ctrl0:
  assumes "usb_sim lay k env al"
  shows "usb_view al (snd (usb_enum_read32 k (STAGE90_USB_ENDPTCTRL 0) s)) = usb_view al s"
  using assms by (simp add: usb_sim_def usb_enum_read32_def usb_view_def split: prod.splits) (metis snd_conv)

lemma sim_write:
  assumes "usb_sim lay k env al" and "off \<in> set usb_writable"
  shows "usb_view al (usb_enum_write32 k off v s) = usb_enum_write32 (core_world lay) off v (usb_view al s)"
  using assms unfolding core_ops by (simp add: usb_sim_def usb_enum_write32_def)

lemma sim_cache:
  assumes "usb_sim lay k env al"
  shows "usb_view al (usb_clean k obj s) = usb_clean (core_world lay) obj (usb_view al s)"
    and "usb_view al (usb_flush k obj s) = usb_flush (core_world lay) obj (usb_view al s)"
  using assms unfolding core_ops by (simp_all add: usb_sim_def usb_clean_def usb_flush_def)

lemma sim_host:
  assumes "usb_sim lay k env al"
  shows "map_prod id (usb_view al) (host_does env h s) = host_does (core_host lay) h (usb_view al s)"
proof -
  obtain bs d where e: "env h (us_dev s) = (bs, d)" by fastforce
  then have "core_host lay h (al (us_dev s)) = (bs, al d)"
    using assms by (metis (no_types, lifting) usb_sim_def map_prod_simp id_apply)
  with e show ?thesis by (simp add: host_does_def)
qed

end
