(* ===== verification/Usb_View.thy ===== *)
theory Usb_View
  imports Usb_Core
begin

text \<open>
  The gadget over any world that simulates the controller is the gadget over the controller: every
  operation commutes with the abstraction (\<open>view_poll\<close> for the whole poll).
\<close>

unbundle bit_operations_syntax

lemma sim_writes:
  assumes "usb_sim lay k env al"
  shows "usb_view al (usb_enum_write32 k STAGE90_USB_USBCMD v s) = usb_enum_write32 (core_world lay) STAGE90_USB_USBCMD v (usb_view al s)"
    "usb_view al (usb_enum_write32 k STAGE90_USB_USBSTS v s) = usb_enum_write32 (core_world lay) STAGE90_USB_USBSTS v (usb_view al s)"
    "usb_view al (usb_enum_write32 k STAGE90_USB_USBINTR v s) = usb_enum_write32 (core_world lay) STAGE90_USB_USBINTR v (usb_view al s)"
    "usb_view al (usb_enum_write32 k STAGE90_USB_DEVICEADDR v s) = usb_enum_write32 (core_world lay) STAGE90_USB_DEVICEADDR v (usb_view al s)"
    "usb_view al (usb_enum_write32 k STAGE90_USB_ENDPOINTLISTADDR v s) = usb_enum_write32 (core_world lay) STAGE90_USB_ENDPOINTLISTADDR v (usb_view al s)"
    "usb_view al (usb_enum_write32 k STAGE90_USB_ENDPTSETUPSTAT v s) = usb_enum_write32 (core_world lay) STAGE90_USB_ENDPTSETUPSTAT v (usb_view al s)"
    "usb_view al (usb_enum_write32 k STAGE90_USB_ENDPTPRIME v s) = usb_enum_write32 (core_world lay) STAGE90_USB_ENDPTPRIME v (usb_view al s)"
    "usb_view al (usb_enum_write32 k STAGE90_USB_ENDPTFLUSH v s) = usb_enum_write32 (core_world lay) STAGE90_USB_ENDPTFLUSH v (usb_view al s)"
    "usb_view al (usb_enum_write32 k STAGE90_USB_ENDPTCOMPLETE v s) = usb_enum_write32 (core_world lay) STAGE90_USB_ENDPTCOMPLETE v (usb_view al s)"
    "usb_view al (usb_enum_write32 k (STAGE90_USB_ENDPTCTRL 0) v s) = usb_enum_write32 (core_world lay) (STAGE90_USB_ENDPTCTRL 0) v (usb_view al s)"
    "usb_view al (usb_enum_write32 k (STAGE90_USB_ENDPTCTRL EP_IN) v s) = usb_enum_write32 (core_world lay) (STAGE90_USB_ENDPTCTRL EP_IN) v (usb_view al s)"
  by (rule sim_write [OF assms], simp add: usb_writable_def)+

text \<open>A read of a register, followed by anything.\<close>

lemma sim_read_then:
  assumes sim: "usb_sim lay k env al" and off: "off \<in> set usb_readable"
    and "\<And>s. usb_view al (f (core_read off (us_dev (usb_view al s))) s) = g (core_read off (us_dev (usb_view al s))) (usb_view al s)"
  shows "usb_view al (let (v, s') = usb_enum_read32 k off s in f v s') = (let (v, s') = usb_enum_read32 (core_world lay) off (usb_view al s) in g v s')"
proof -
  let ?s = "snd (usb_enum_read32 k off s)"
  have v: "usb_view al ?s = usb_view al s" by (rule sim_read(2) [OF sim off])
  have "usb_enum_read32 k off s = (core_read off (us_dev (usb_view al ?s)), ?s)"
    using sim_read(1) [OF sim off, of s] v by simp
  then have "usb_view al (let (v, s') = usb_enum_read32 k off s in f v s') = g (core_read off (us_dev (usb_view al ?s))) (usb_view al ?s)"
    using assms(3) [of ?s] by (metis (no_types, lifting) Let_def case_prod_conv)
  then show ?thesis unfolding v by (simp add: core_ops)
qed

lemma view_prime:
  assumes "usb_sim lay k env al"
  shows "usb_view al (usb_enum_prime k lay q t b len d s) = usb_enum_prime (core_world lay) lay q t b len d (usb_view al s)"
  by (cases b; cases "len = 0") (simp_all add: usb_enum_prime_def Let_def sim_writes [OF assms] sim_cache [OF assms])

lemma view_nuke:
  assumes "usb_sim lay k env al"
  shows "usb_view al (usb_enum_nuke k q s) = usb_enum_nuke (core_world lay) q (usb_view al s)"
  by (simp add: usb_enum_nuke_def sim_cache [OF assms])

lemma view_arms:
  assumes "usb_sim lay k env al"
  shows "usb_view al (usb_enum_arm_ep0 k lay s) = usb_enum_arm_ep0 (core_world lay) lay (usb_view al s)"
    and "usb_view al (usb_enum_arm_ep_in cf k lay s) = usb_enum_arm_ep_in cf (core_world lay) lay (usb_view al s)"
    and "usb_view al (usb_enum_status_in k lay s) = usb_enum_status_in (core_world lay) lay (usb_view al s)"
  by (simp_all add: usb_enum_arm_ep0_def usb_enum_arm_ep_in_def usb_enum_status_in_def Let_def
      sim_writes [OF assms] view_nuke [OF assms] view_prime [OF assms])

lemma view_bus_reset:
  assumes "usb_sim lay k env al"
  shows "usb_view al (usb_enum_bus_reset k s) = usb_enum_bus_reset (core_world lay) (usb_view al s)"
proof -
  have "enum_resets (usb_enum_write32 k off v s) = enum_resets s" for off v s by (simp add: usb_enum_write32_def)
  moreover have "enum_resets (usb_enum_write32 (core_world lay) off v s) = enum_resets s" for off v s by (simp add: usb_enum_write32_def)
  ultimately show ?thesis by (simp add: usb_enum_bus_reset_def Let_def sim_writes [OF assms])
qed


lemma view_descriptor:
  assumes "usb_sim lay k env al"
  shows "map_prod id (usb_view al) (usb_enum_get_descriptor k lay p s) = usb_enum_get_descriptor (core_world lay) lay p (usb_view al s)"
  using view_string [of al, symmetric] view_langid [of al, symmetric]
  by (simp add: usb_enum_get_descriptor_def Let_def view_prime [OF assms] usb_enum_build_string_def usb_enum_build_langid_def
      split: prod.splits)

lemma view_configured:
  "enum_configured (s\<lparr>enum_configured := v\<rparr>) = v" "enum_configured ((usb_view al s)\<lparr>enum_configured := v\<rparr>) = v"
  by simp_all

lemma view_request:
  assumes "usb_sim lay k env al"
  shows "usb_view al (usb_enum_request cf k lay p s) = usb_enum_request cf (core_world lay) lay p (usb_view al s)"
proof -
  obtain n s1 where g: "usb_enum_get_descriptor k lay p s = (n, s1)" by fastforce
  then have g': "usb_enum_get_descriptor (core_world lay) lay p (usb_view al s) = (n, usb_view al s1)"
    using view_descriptor [OF assms, of p s] by simp
  show ?thesis
    unfolding usb_enum_request_def Let_def g g' case_prod_conv
    by (simp only: if_distrib [of "usb_view al"] view_updates sim_writes [OF assms] view_arms [OF assms] view_prime [OF assms]
        view_in_buf view_configured cong: if_cong)
qed

lemma view_read_setup:
  assumes "usb_sim lay k env al"
  shows "map_option (map_prod id (usb_view al)) (usb_enum_read_setup k n s) = usb_enum_read_setup (core_world lay) n (usb_view al s)"
proof (induction n arbitrary: s)
  case (Suc n)
  have cmd: "STAGE90_USB_USBCMD \<in> set usb_readable" by (simp add: usb_readable_def)
  have R: "\<exists>t'. usb_enum_read32 k STAGE90_USB_USBCMD t = (c_cmd (us_dev (usb_view al t)), t') \<and> usb_view al t' = usb_view al t" for t
    using sim_read [OF assms cmd, of t] by (auto simp: core_read_def)
  define s1 where "s1 = usb_flush k (Obj_Qh QH_OUT0) s"
  obtain s2 where s2: "usb_enum_read32 k STAGE90_USB_USBCMD s1 = (c_cmd (us_dev (usb_view al s1)), s2)" "usb_view al s2 = usb_view al s1"
    using R by blast
  define s3 where "s3 = usb_enum_write32 k STAGE90_USB_USBCMD (c_cmd (us_dev (usb_view al s1)) OR USBCMD_SUTW) s2"
  obtain s4 where s4: "usb_enum_read32 k STAGE90_USB_USBCMD s3 = (c_cmd (us_dev (usb_view al s3)), s4)" "usb_view al s4 = usb_view al s3"
    using R by blast
  have v1: "usb_view al s1 = usb_flush (core_world lay) (Obj_Qh QH_OUT0) (usb_view al s)"
    unfolding s1_def by (rule sim_cache(2) [OF assms])
  have v3: "usb_view al s3 = usb_enum_write32 (core_world lay) STAGE90_USB_USBCMD (c_cmd (us_dev (usb_view al s1)) OR USBCMD_SUTW) (usb_view al s1)"
    unfolding s3_def sim_writes [OF assms] s2(2) ..
  have r3: "us_ram s3 = us_ram (usb_view al s3)" by simp
  have C: "usb_enum_read32 (core_world lay) STAGE90_USB_USBCMD t = (c_cmd (us_dev t), t)" for t
    by (simp add: core_ops core_read_def)
  show ?case
    unfolding usb_enum_read_setup.simps Let_def s1_def [symmetric] s2(1) case_prod_conv s3_def [symmetric] s4(1)
      v1 [symmetric] C v3 [symmetric] r3
    using Suc.IH [of s4] by (simp add: s4(2) sim_writes [OF assms] del: view_fields)
qed simp


lemma view_setup:
  assumes "usb_sim lay k env al"
  shows "map_option (usb_view al) (usb_enum_setup cf k lay n s) = usb_enum_setup cf (core_world lay) lay n (usb_view al s)"
proof (cases "usb_enum_read_setup k n s")
  case None
  then have "usb_enum_read_setup (core_world lay) n (usb_view al s) = None" using view_read_setup [OF assms, of n s] by simp
  with None show ?thesis by (simp add: usb_enum_setup_def)
next
  case (Some r)
  obtain p s1 where r: "r = (p, s1)" by fastforce
  have r': "usb_enum_read_setup (core_world lay) n (usb_view al s) = Some (p, usb_view al s1)"
    using view_read_setup [OF assms, of n s] Some r by simp
  have req: "enum_requests (usb_view al t) = enum_requests t" for t by simp
  show ?thesis unfolding usb_enum_setup_def Some r r' option.case case_prod_conv Let_def option.map
    by (simp only: view_request [OF assms] view_updates view_nuke [OF assms] sim_writes [OF assms] view_fields req [symmetric])
qed

text \<open>A read of a readable register, as its value and a state seen alike.\<close>

lemma sim_reads:
  assumes "usb_sim lay k env al" and "off \<in> set usb_readable"
  obtains s' where "usb_enum_read32 k off s = (core_read off (us_dev (usb_view al s)), s')" and "usb_view al s' = usb_view al s"
  using sim_read [OF assms, of s] that by simp

lemma view_dones:
  assumes "usb_sim lay k env al"
  shows "usb_view al (usb_enum_in0_done k lay s) = usb_enum_in0_done (core_world lay) lay (usb_view al s)"
    and "usb_view al (usb_enum_out0_done k s) = usb_enum_out0_done (core_world lay) (usb_view al s)"
    and "usb_view al (usb_enum_in1_done cf k lay s) = usb_enum_in1_done cf (core_world lay) lay (usb_view al s)"
proof -
  have R: "STAGE90_USB_ENDPTCOMPLETE \<in> set usb_readable" by (simp add: usb_readable_def)
  obtain s' where s': "usb_enum_read32 k STAGE90_USB_ENDPTCOMPLETE s = (core_read STAGE90_USB_ENDPTCOMPLETE (us_dev (usb_view al s)), s')"
    "usb_view al s' = usb_view al s" by (rule sim_reads [OF assms R])
  have C: "usb_enum_read32 (core_world lay) STAGE90_USB_ENDPTCOMPLETE t = (core_read STAGE90_USB_ENDPTCOMPLETE (us_dev t), t)" for t
    by (simp add: core_ops)
  have W: "usb_view al (usb_enum_complete_clear k b t) = usb_enum_complete_clear (core_world lay) b (usb_view al t)" for b t
    unfolding usb_enum_complete_clear_def by (rule sim_writes(9) [OF assms])
  have E: "enum_state (usb_enum_complete_clear k b t) = enum_state t" "enum_in_reads (usb_enum_complete_clear k b t) = enum_in_reads t" for b t
    by (simp_all add: usb_enum_complete_clear_def usb_enum_write32_def)
  have E': "enum_state (usb_enum_complete_clear (core_world lay) b t) = enum_state t"
    "enum_in_reads (usb_enum_complete_clear (core_world lay) b t) = enum_in_reads t" for b t
    by (simp_all add: usb_enum_complete_clear_def usb_enum_write32_def)
  have f: "enum_state s' = enum_state s" "enum_in_reads s' = enum_in_reads s"
    using arg_cong [OF s'(2), of enum_state] arg_cong [OF s'(2), of enum_in_reads] by simp_all
  show "usb_view al (usb_enum_in0_done k lay s) = usb_enum_in0_done (core_world lay) lay (usb_view al s)"
    unfolding usb_enum_in0_done_def s'(1) C Let_def case_prod_conv E E' f
    by (simp only: if_distrib [of "usb_view al"] view_updates view_prime [OF assms] W s'(2) view_fields)
  show "usb_view al (usb_enum_out0_done k s) = usb_enum_out0_done (core_world lay) (usb_view al s)"
    unfolding usb_enum_out0_done_def s'(1) C Let_def case_prod_conv
    by (simp only: if_distrib [of "usb_view al"] view_updates W s'(2) view_fields)
  show "usb_view al (usb_enum_in1_done cf k lay s) = usb_enum_in1_done cf (core_world lay) lay (usb_view al s)"
    unfolding usb_enum_in1_done_def s'(1) C Let_def case_prod_conv E E' f
    by (simp only: if_distrib [of "usb_view al"] view_updates view_prime [OF assms] W s'(2) view_fields)
qed

lemma view_ui:
  assumes "usb_sim lay k env al"
  shows "map_option (usb_view al) (usb_enum_ui cf k lay n s) = usb_enum_ui cf (core_world lay) lay n (usb_view al s)"
proof -
  have R: "STAGE90_USB_ENDPTSETUPSTAT \<in> set usb_readable" by (simp add: usb_readable_def)
  obtain s' where s': "usb_enum_read32 k STAGE90_USB_ENDPTSETUPSTAT s = (core_read STAGE90_USB_ENDPTSETUPSTAT (us_dev (usb_view al s)), s')"
    "usb_view al s' = usb_view al s" by (rule sim_reads [OF assms R])
  have C: "usb_enum_read32 (core_world lay) STAGE90_USB_ENDPTSETUPSTAT t = (core_read STAGE90_USB_ENDPTSETUPSTAT (us_dev t), t)" for t
    by (simp add: core_ops)
  show ?thesis unfolding usb_enum_ui_def s'(1) C Let_def case_prod_conv
    by (simp add: view_setup [OF assms] view_dones [OF assms] s'(2))
qed

lemma view_arm:
  assumes "usb_sim lay k env al"
  shows "usb_view al (usb_enum_arm k lay s) = usb_enum_arm (core_world lay) lay (usb_view al s)"
  by (simp add: usb_enum_arm_def sim_ctrl0 [OF assms] view_arms [OF assms] core_ops)

lemma view_poll:
  assumes sim: "usb_sim lay k env al"
  shows "map_option (usb_view al) (entry_usb_enum_poll cf k lay n s) = entry_usb_enum_poll cf (core_world lay) lay n (usb_view al s)"
proof -
  have R: "STAGE90_USB_USBMODE \<in> set usb_readable" "STAGE90_USB_USBSTS \<in> set usb_readable" "STAGE90_USB_USBINTR \<in> set usb_readable"
    by (simp_all add: usb_readable_def)
  obtain s1 where s1: "usb_enum_read32 k STAGE90_USB_USBMODE s = (core_read STAGE90_USB_USBMODE (us_dev (usb_view al s)), s1)"
    "usb_view al s1 = usb_view al s" by (rule sim_reads [OF sim R(1)])
  define s2 where "s2 = usb_enum_arm k lay s1"
  have v2: "usb_view al s2 = usb_enum_arm (core_world lay) lay (usb_view al s)" unfolding s2_def view_arm [OF sim] s1(2) ..
  obtain s3 where s3: "usb_enum_read32 k STAGE90_USB_USBSTS s2 = (core_read STAGE90_USB_USBSTS (us_dev (usb_view al s2)), s3)"
    "usb_view al s3 = usb_view al s2" by (rule sim_reads [OF sim R(2)])
  obtain s4 where s4: "usb_enum_read32 k STAGE90_USB_USBINTR s3 = (core_read STAGE90_USB_USBINTR (us_dev (usb_view al s3)), s4)"
    "usb_view al s4 = usb_view al s3" by (rule sim_reads [OF sim R(3)])
  define intr where "intr = core_read STAGE90_USB_USBSTS (us_dev (usb_view al s2)) AND core_read STAGE90_USB_USBINTR (us_dev (usb_view al s2))"
  have C: "usb_enum_read32 (core_world lay) off t = (core_read off (us_dev t), t)" for off t by (simp add: core_ops)
  have v4: "usb_view al s4 = usb_view al s2" unfolding s4(2) s3(2) ..
  have r: "map_option (usb_view al) (if intr AND STS_UI \<noteq> 0 then usb_enum_ui cf k lay n s5 else Some s5)
      = (if intr AND STS_UI \<noteq> 0 then usb_enum_ui cf (core_world lay) lay n (usb_view al s5) else Some (usb_view al s5))" for s5
    by (simp add: view_ui [OF sim])
  have r5: "usb_view al (if intr AND STS_URI \<noteq> 0 then usb_enum_bus_reset k s4 else s4)
      = (if intr AND STS_URI \<noteq> 0 then usb_enum_bus_reset (core_world lay) (usb_view al s2) else usb_view al s2)"
    by (simp add: view_bus_reset [OF sim] v4)
  show ?thesis
    unfolding entry_usb_enum_poll_def s1(1) C Let_def case_prod_conv s2_def [symmetric] s3(1) s4(1) s3(2) intr_def [symmetric]
      v2 [symmetric] r5 [symmetric] r [symmetric]
    by (simp add: s1(2) sim_writes [OF sim] split: option.splits)
qed

end
