(* ===== verification/Usb_Prime.thy ===== *)
theory Usb_Prime
  imports Usb_View
begin

text \<open>
  What one prime does over the controller: the descriptor the gadget writes is the one the controller
  fetches, with its length and page, the buffer is clean, and nothing else moves (\<open>prime_effect\<close>).
  \<open>layout_ok\<close> is what the file's alignment attributes and distinct statics give.
\<close>

unbundle bit_operations_syntax

definition layout_ok :: "usb_layout \<Rightarrow> bool" where
  "layout_ok lay \<longleftrightarrow> distinct (map lay usb_tds) \<and> distinct (map lay usb_bufs) \<and> (\<forall>td \<in> set usb_tds. lay td AND 0x1f = 0)"

lemma aligned_and: "(a :: u32) AND 0x1f = 0 \<Longrightarrow> a AND NOT 0x1f = a"
proof -
  assume a: "a AND 0x1f = 0"
  have "a = (a AND 0x1f) OR (a AND NOT 0x1f)" by (simp add: bit_eq_iff bit_simps) blast
  then show ?thesis using a by simp
qed

lemma obj_at_ok:
  assumes "layout_ok lay"
  shows "obj \<in> set usb_tds \<Longrightarrow> obj_at lay usb_tds (lay obj) = Some obj"
    and "obj \<in> set usb_bufs \<Longrightarrow> obj_at lay usb_bufs (lay obj) = Some obj"
  using assms by (auto simp: layout_ok_def obj_at_def usb_tds_def usb_bufs_def)

lemma layout_aligned: "layout_ok lay \<Longrightarrow> obj \<in> set usb_tds \<Longrightarrow> lay obj AND NOT 0x1f = lay obj"
  by (rule aligned_and) (simp add: layout_ok_def)

lemma one_bit: "bit (push_bit n 1 :: u32) b \<longleftrightarrow> b = n \<and> n < 32"
  by (auto simp: bit_simps)

lemma prime_at: "n < 32 \<Longrightarrow> (\<lambda>b. if bit (push_bit n 1 :: u32) b then x b else y b) = y(n := x n)"
  by (rule ext) (simp add: one_bit del: push_bit_of_1)

subsection \<open>A prime\<close>

definition core_regs :: "usb_core \<Rightarrow> u32 list" where
  "core_regs c = [c_sts c, c_intr c, c_setupstat c, c_complete c, c_cmd c, c_mode c, c_devaddr c, c_eplist c, c_ctrl1 c]"

definition enum_vars :: "'d usb_state \<Rightarrow> u32 list" where
  "enum_vars s = [enum_state s, enum_done s, enum_addr s, enum_configured s, enum_requests s, enum_resets s, enum_in_reads s]"

definition in_bufs :: "'d usb_state \<Rightarrow> bytes \<times> bytes" where
  "in_bufs s = (g_usb_in_buf (us_ram s), g_usb_stream_buf (us_ram s))"

lemmas reg_offsets = STAGE90_USB_USBCMD_def STAGE90_USB_USBSTS_def STAGE90_USB_USBINTR_def STAGE90_USB_DEVICEADDR_def
  STAGE90_USB_ENDPOINTLISTADDR_def STAGE90_USB_USBMODE_def STAGE90_USB_ENDPTSETUPSTAT_def STAGE90_USB_ENDPTPRIME_def
  STAGE90_USB_ENDPTFLUSH_def STAGE90_USB_ENDPTCOMPLETE_def STAGE90_USB_ENDPTCTRL_def EP_IN_def

lemma td_bits: "TD_ACTIVE = push_bit 7 1" "TD_IOC = push_bit 15 1" "TD_TOTAL_MASK = push_bit 16 (mask 15)" "(0x7fff :: u32) = mask 15"
  by (simp_all add: TD_ACTIVE_def TD_IOC_def TD_TOTAL_MASK_def mask_eq_exp_minus_1 push_bit_eq_mult)

lemma token_fields:
  assumes "len \<le> 0x7fff"
  shows "(push_bit TD_TOTAL_SHIFT (len AND 0x7fff) OR TD_ACTIVE OR TD_IOC) AND TD_ACTIVE \<noteq> (0 :: u32)"
    and "drop_bit 16 ((push_bit TD_TOTAL_SHIFT (len AND 0x7fff) OR TD_ACTIVE OR TD_IOC) AND TD_TOTAL_MASK) = (len :: u32)"
proof -
  let ?t = "push_bit TD_TOTAL_SHIFT (len AND 0x7fff) OR TD_ACTIVE OR TD_IOC :: u32"
  have m: "len AND mask 15 = len" using assms by (intro less_mask_eq) (simp add: word_less_nat_alt word_le_nat_alt)
  have "bit (?t AND TD_ACTIVE) 7" unfolding td_bits by (simp add: bit_simps del: push_bit_of_1)
  then show "?t AND TD_ACTIVE \<noteq> 0" by (metis bit_0_eq bot_apply bot_bool_def)
  have "drop_bit 16 (?t AND TD_TOTAL_MASK) = len AND mask 15"
    unfolding td_bits TD_TOTAL_SHIFT_def by (rule bit_word_eqI) (auto simp: bit_simps simp del: push_bit_of_1)
  then show "drop_bit 16 (?t AND TD_TOTAL_MASK) = len" using m by simp
qed

lemmas usb_offs = QH_OFF_CAP_def QH_OFF_TDNEXT_def QH_OFF_TDTOK_def QH_OFF_SETUP_def TD_OFF_NEXT_def TD_OFF_TOKEN_def TD_OFF_PAGE0_def

definition ep_index :: "nat \<Rightarrow> bool \<Rightarrow> bool" where
  "ep_index q dir_in \<longleftrightarrow> q = QH_OUT0 \<and> \<not> dir_in \<or> q = QH_IN0 \<and> dir_in \<or> q = QH_IN1 \<and> dir_in"

lemma ep_bit: "ep_index q d \<Longrightarrow> EPBIT (if q = QH_IN1 then EP_IN else 0) d = push_bit q 1" "ep_index q d \<Longrightarrow> q < 32"
  by (auto simp: ep_index_def EPBIT_def EP_IN_def QH_OUT0_def QH_IN0_def QH_IN1_def)

definition page_of :: "usb_layout \<Rightarrow> usb_obj option \<Rightarrow> u32" where
  "page_of lay buf = (case buf of Some b \<Rightarrow> lay b | None \<Rightarrow> 0)"

text \<open>The processor's and the controller's memory when the prime is written.\<close>

definition prime_ram :: "usb_layout \<Rightarrow> nat \<Rightarrow> nat \<Rightarrow> usb_obj option \<Rightarrow> u32 \<Rightarrow> usb_ram \<Rightarrow> usb_ram" where
  "prime_ram lay q t buf len r = r\<lparr>
     g_usb_td := (g_usb_td r)(t := (g_usb_td r t)(0 := TD_TERMINATE,
       1 := push_bit TD_TOTAL_SHIFT (len AND 0x7fff) OR TD_ACTIVE OR TD_IOC, 2 := page_of lay buf)),
     g_usb_qh := (g_usb_qh r)(q := (g_usb_qh r q)(0 := (if q = QH_IN1 then QH_ZLT OR QH_MAX_PKT EP_IN_MAXPKT
       else QH_IOS OR QH_MAX_PKT MAX_PACKET0), 2 := lay (Obj_Td t) AND NOT 0x1f, 3 := 0))\<rparr>"

definition prime_seen :: "nat \<Rightarrow> nat \<Rightarrow> usb_obj option \<Rightarrow> u32 \<Rightarrow> usb_ram \<Rightarrow> usb_ram \<Rightarrow> usb_ram" where
  "prime_seen q t buf len r c = ram_copy (Obj_Qh q) r
     (case buf of None \<Rightarrow> ram_copy (Obj_Td t) r c
      | Some b \<Rightarrow> if len = 0 then ram_copy (Obj_Td t) r c else ram_copy b r (ram_copy (Obj_Td t) r c))"

lemma copy_frames [simp]:
  "ram_copy (Obj_Td t) (r\<lparr>g_usb_qh := x\<rparr>) c = ram_copy (Obj_Td t) r c"
  "b \<in> set usb_bufs \<Longrightarrow> ram_copy b (r\<lparr>g_usb_qh := x\<rparr>) c = ram_copy b r c"
  by (auto simp: ram_copy_def usb_bufs_def)

lemma td_three:
  "usb_enum_td t TD_OFF_PAGE0 v2 (usb_enum_td t TD_OFF_TOKEN v1 (usb_enum_td t TD_OFF_NEXT v0 s)) =
   s\<lparr>us_ram := (us_ram s)\<lparr>g_usb_td := (g_usb_td (us_ram s))(t := (g_usb_td (us_ram s) t)(0 := v0, 1 := v1, 2 := v2))\<rparr>\<rparr>"
  by (simp add: usb_enum_td_def usb_offs)

lemma qh_three:
  "usb_enum_qh t QH_OFF_TDTOK v2 (usb_enum_qh t QH_OFF_TDNEXT v1 (usb_enum_qh t QH_OFF_CAP v0 s)) =
   s\<lparr>us_ram := (us_ram s)\<lparr>g_usb_qh := (g_usb_qh (us_ram s))(t := (g_usb_qh (us_ram s) t)(0 := v0, 2 := v1, 3 := v2))\<rparr>\<rparr>"
  by (simp add: usb_enum_qh_def usb_offs)

lemma prime_parts:
  assumes "\<And>b. buf = Some b \<Longrightarrow> b \<in> set usb_bufs"
  shows "usb_enum_prime (core_world lay) lay q t buf len d s =
    (let r = prime_ram lay q t buf len (us_ram s) in
     usb_enum_write32 (core_world lay) STAGE90_USB_ENDPTPRIME (EPBIT (if q = QH_IN1 then EP_IN else 0) d)
       (s\<lparr>us_ram := r, us_dev := (us_dev s)\<lparr>c_ram := prime_seen q t buf len r (c_ram (us_dev s))\<rparr>\<rparr>))"
  using assms
  by (cases buf; cases "len = 0")
     (simp_all add: usb_enum_prime_def Let_def td_three qh_three core_ops(3) prime_ram_def prime_seen_def page_of_def)

lemma core_prime:
  "n < 32 \<Longrightarrow> core_write lay STAGE90_USB_ENDPTPRIME (push_bit n 1) c = c\<lparr>c_primed := (c_primed c)(n := core_fetch lay c n)\<rparr>"
  by (simp add: core_write_def reg_offsets prime_at del: push_bit_of_1)

lemma seen_td:
  "g_usb_td (prime_seen q t buf len r c) t = g_usb_td r t"
  by (cases buf) (auto simp: prime_seen_def ram_copy_def split: usb_obj.splits)

lemma seen_qh: "g_usb_qh (prime_seen q t buf len r c) q = g_usb_qh r q"
  by (simp add: prime_seen_def ram_copy_def)

lemma seen_buf:
  assumes "b \<in> set usb_bufs" and "len \<noteq> 0"
  shows "obj_bytes (prime_seen q t (Some b) len r c) b = obj_bytes r b"
  using assms by (auto simp: prime_seen_def ram_copy_def usb_bufs_def obj_bytes_def)

lemma fetch_some:
  assumes "c_eplist c = lay (Obj_Qh 0)" and "obj_at lay usb_tds (g_usb_qh (c_ram c) b 2) = Some td"
    and "td_words (c_ram c) td 1 AND TD_ACTIVE \<noteq> 0"
  shows "core_fetch lay c b = Some (td, drop_bit 16 (td_words (c_ram c) td 1 AND TD_TOTAL_MASK), td_words (c_ram c) td 2)"
  unfolding core_fetch_def assms(2) option.case Let_def using assms(1,3) by (simp only: if_False not_True_eq_False simp_thms)

lemma prime_fetch:
  assumes lay: "layout_ok lay" and t: "t < 3" and len: "len \<le> 0x7fff" and ep: "c_eplist c = lay (Obj_Qh 0)"
  shows "core_fetch lay (c\<lparr>c_ram := prime_seen q t buf len (prime_ram lay q t buf len r) (c_ram c)\<rparr>) q =
    Some (Obj_Td t, len, page_of lay buf)"
proof -
  have o: "Obj_Td t \<in> set usb_tds" using t by (auto simp: usb_tds_def)
  let ?r = "prime_ram lay q t buf len r"
  let ?c = "c\<lparr>c_ram := prime_seen q t buf len ?r (c_ram c)\<rparr>"
  have qh: "g_usb_qh ?r q 2 = lay (Obj_Td t)" using layout_aligned [OF lay o] by (simp add: prime_ram_def)
  have td: "g_usb_td ?r t 1 = push_bit TD_TOTAL_SHIFT (len AND 0x7fff) OR TD_ACTIVE OR TD_IOC" "g_usb_td ?r t 2 = page_of lay buf"
    by (simp_all add: prime_ram_def)
  have w: "td_words (c_ram ?c) (Obj_Td t) = g_usb_td ?r t" by (simp add: td_words_def seen_td)
  have "obj_at lay usb_tds (g_usb_qh (c_ram ?c) q 2) = Some (Obj_Td t)" by (simp add: seen_qh qh obj_at_ok(1) [OF lay o])
  from fetch_some [of ?c lay q "Obj_Td t", OF _ this, unfolded w td token_fields(2) [OF len]] token_fields(1) [OF len] ep
  show ?thesis by simp
qed

text \<open>A prime: the controller fetches the descriptor and sees the buffer; nothing else the gadget or the
  host looks at changes.\<close>

lemma prime_effect:
  assumes lay: "layout_ok lay" and ep: "ep_index q d" and t: "t < 3" and len: "len \<le> 0x7fff"
    and buf: "set_option buf \<subseteq> set usb_bufs" and el: "c_eplist (us_dev s) = lay (Obj_Qh 0)"
  defines "s' \<equiv> usb_enum_prime (core_world lay) lay q t buf len d s"
  shows "core_regs (us_dev s') = core_regs (us_dev s)" and "enum_vars s' = enum_vars s"
    and "g_usb_in_buf (us_ram s') = g_usb_in_buf (us_ram s)"
    and "c_primed (us_dev s') = (c_primed (us_dev s))(q := Some (Obj_Td t, len, page_of lay buf))"
    and "buf = Some b \<Longrightarrow> len \<noteq> 0 \<Longrightarrow> obj_bytes (c_ram (us_dev s')) b = obj_bytes (us_ram s) b"
proof -
  define r where "r = prime_ram lay q t buf len (us_ram s)"
  define c where "c = (us_dev s)\<lparr>c_ram := prime_seen q t buf len r (c_ram (us_dev s))\<rparr>"
  have "s' = usb_enum_write32 (core_world lay) STAGE90_USB_ENDPTPRIME (EPBIT (if q = QH_IN1 then EP_IN else 0) d) (s\<lparr>us_ram := r, us_dev := c\<rparr>)"
    unfolding s'_def r_def c_def by (subst prime_parts) (use buf in \<open>simp_all add: Let_def\<close>)
  then have s': "s' = s\<lparr>us_ram := r, us_dev := c\<lparr>c_primed := (c_primed c)(q := core_fetch lay c q)\<rparr>\<rparr>"
    unfolding ep_bit(1) [OF ep] core_ops(2) by (simp add: core_prime ep_bit(2) [OF ep] del: push_bit_of_1)
  have f: "core_fetch lay c q = Some (Obj_Td t, len, page_of lay buf)"
    unfolding c_def r_def by (rule prime_fetch [OF lay t len el])
  show "core_regs (us_dev s') = core_regs (us_dev s)" unfolding s' c_def by (simp add: core_regs_def)
  show "enum_vars s' = enum_vars s" unfolding s' by (simp add: enum_vars_def)
  show "g_usb_in_buf (us_ram s') = g_usb_in_buf (us_ram s)" unfolding s' r_def by (simp add: prime_ram_def)
  show "c_primed (us_dev s') = (c_primed (us_dev s))(q := Some (Obj_Td t, len, page_of lay buf))" unfolding s' f by (simp add: c_def)
  show "obj_bytes (c_ram (us_dev s')) b = obj_bytes (us_ram s) b" if "buf = Some b" "len \<noteq> 0"
    using buf that unfolding s' c_def
    by (simp add: seen_buf) (auto simp: r_def prime_ram_def obj_bytes_def split: usb_obj.splits)
qed

end
