(* ===== verification/Usb_Reply.thy ===== *)
theory Usb_Reply
  imports Usb_Prime
begin

text \<open>
  What the host is to receive for a setup packet, written from the packet and the descriptors alone
  (\<open>usb_reply\<close>, \<open>usb_track\<close>), and what the string builder leaves in the buffer.
\<close>

unbundle bit_operations_syntax

lemma vars_dest:
  "core_regs c = core_regs c' \<longleftrightarrow> c_sts c = c_sts c' \<and> c_intr c = c_intr c' \<and> c_setupstat c = c_setupstat c' \<and> c_complete c = c_complete c'
     \<and> c_cmd c = c_cmd c' \<and> c_mode c = c_mode c' \<and> c_devaddr c = c_devaddr c' \<and> c_eplist c = c_eplist c' \<and> c_ctrl1 c = c_ctrl1 c'"
  "enum_vars s = enum_vars s' \<longleftrightarrow> enum_state s = enum_state s' \<and> enum_done s = enum_done s' \<and> enum_addr s = enum_addr s'
     \<and> enum_configured s = enum_configured s' \<and> enum_requests s = enum_requests s' \<and> enum_resets s = enum_resets s' \<and> enum_in_reads s = enum_in_reads s'"
  by (simp_all add: core_regs_def enum_vars_def)

lemma nuke_effect:
  "core_regs (us_dev (usb_enum_nuke (core_world lay) q s)) = core_regs (us_dev s)"
  "enum_vars (usb_enum_nuke (core_world lay) q s) = enum_vars s"
  "g_usb_in_buf (us_ram (usb_enum_nuke (core_world lay) q s)) = g_usb_in_buf (us_ram s)"
  "c_primed (us_dev (usb_enum_nuke (core_world lay) q s)) = c_primed (us_dev s)"
  by (simp_all add: usb_enum_nuke_def core_ops usb_enum_qh_def core_regs_def enum_vars_def ram_copy_def)

text \<open>The requests, by what the host is to receive.\<close>

definition string_desc :: "bytes \<Rightarrow> bytes" where
  "string_desc str = [word_of_nat (2 + 2 * length str), 3] @ concat (map (\<lambda>c. [c, 0]) str)"

definition usb_descriptor :: "nat \<Rightarrow> nat \<Rightarrow> bytes" where
  "usb_descriptor type index =
    (if type = 1 then g_usb_dev_desc else if type = 2 then g_usb_cfg_desc
     else if type \<noteq> 3 then []
     else if index = 0 then [4, 3, 0x09, 0x04]
     else if index = 1 then string_desc g_usb_str_manufacturer
     else if index = 2 then string_desc g_usb_str_product
     else if index = 3 then string_desc g_usb_str_serial else [])"

datatype usb_req = Req_Descriptor nat nat | Req_Status | Req_Address nat | Req_Config nat | Req_Other

definition usb_req :: "bytes \<Rightarrow> usb_req" where
  "usb_req p =
    (let in_dir = p ! 0 AND 0x80 \<noteq> 0; v = unat (p ! 2) + 256 * unat (p ! 3)
     in if p ! 0 AND 0x60 \<noteq> 0 then Req_Other
        else if p ! 1 = 6 \<and> in_dir then Req_Descriptor (unat (p ! 3)) (unat (p ! 2))
        else if p ! 1 = 0 \<and> in_dir then Req_Status
        else if p ! 1 = 5 then Req_Address v
        else if p ! 1 = 9 then Req_Config v else Req_Other)"

definition usb_length :: "bytes \<Rightarrow> nat" where "usb_length p = unat (p ! 6) + 256 * unat (p ! 7)"

definition usb_reply :: "bytes \<Rightarrow> bytes" where
  "usb_reply p = take (usb_length p) (case usb_req p of Req_Descriptor t i \<Rightarrow> usb_descriptor t i | Req_Status \<Rightarrow> [0, 0] | _ \<Rightarrow> [])"

definition usb_track :: "bytes \<Rightarrow> nat \<times> bool \<Rightarrow> nat \<times> bool" where
  "usb_track p = (\<lambda>(a, c). case usb_req p of Req_Address v \<Rightarrow> (v mod 128, c) | Req_Config v \<Rightarrow> (a, v \<noteq> 0) | _ \<Rightarrow> (a, c))"

lemma byte_lt: "unat (a :: u8) < 256"
  using unsigned_less [of a] by simp

lemma le16:
  "unat (ucast (a :: u8) OR push_bit 8 (ucast (b :: u8)) :: u32) = unat a + 256 * unat b"
proof -
  have "\<not> bit (ucast a :: u32) n \<or> \<not> bit (push_bit 8 (ucast b) :: u32) n" for n
    by (auto simp: bit_simps dest: bit_imp_le_length)
  then have "ucast a OR push_bit 8 (ucast b) = (ucast a + push_bit 8 (ucast b) :: u32)" by (simp add: disjunctive_add)
  then have "unat (ucast a OR push_bit 8 (ucast b) :: u32) = unat (ucast a + 256 * ucast b :: u32)"
    by (simp add: push_bit_eq_mult mult.commute)
  also have "\<dots> = unat a + 256 * unat b"
    using byte_lt [of a] byte_lt [of b] by (simp add: unat_word_ariths unsigned_ucast_eq take_bit_eq_mod)
  finally show ?thesis .
qed

lemma setup_parts:
  "unat (setup_wValue p) = unat (p ! 2) + 256 * unat (p ! 3)" "unat (setup_wLength p) = usb_length p"
  by (simp_all add: setup_wValue_def setup_wLength_def usb_length_def le16)

lemma and_low:
  "(x :: u32) AND 0xff = take_bit 8 x" "(x :: u32) AND 0x7f = take_bit 7 x"
  by (simp_all add: take_bit_eq_mask mask_eq_exp_minus_1)

lemma wvalue_fields:
  "unat (drop_bit 8 (setup_wValue p) AND 0xff) = unat (p ! 3)" "unat (setup_wValue p AND 0xff) = unat (p ! 2)"
  "unat (setup_wValue p AND 0x7f) = (unat (p ! 2) + 256 * unat (p ! 3)) mod 128"
  unfolding and_low unsigned_take_bit_eq unsigned_drop_bit_eq setup_parts
  using byte_lt [of "p ! 2"] byte_lt [of "p ! 3"]
  by (simp_all add: setup_parts drop_bit_eq_div take_bit_eq_mod)


subsection \<open>Strings\<close>

definition in_buf_only :: "'d usb_state \<Rightarrow> 'd usb_state \<Rightarrow> bool" where
  "in_buf_only s s' \<longleftrightarrow> (\<exists>buf. length buf = length (g_usb_in_buf (us_ram s)) \<and> s' = s\<lparr>us_ram := (us_ram s)\<lparr>g_usb_in_buf := buf\<rparr>\<rparr>)"

lemma in_buf_refl [simp]: "in_buf_only s s"
  unfolding in_buf_only_def by (rule exI [of _ "g_usb_in_buf (us_ram s)"]) simp

lemma in_buf_put [simp]: "in_buf_only s s' \<Longrightarrow> in_buf_only s (usb_in_buf_put i v s')"
  unfolding in_buf_only_def usb_in_buf_put_def
  by (elim exE conjE, rule_tac x = "buf[i := v]" in exI) simp

lemma put_buf [simp]: "g_usb_in_buf (us_ram (usb_in_buf_put i v s)) = (g_usb_in_buf (us_ram s))[i := v]"
  by (simp add: usb_in_buf_put_def)

lemma in_buf_loop: "in_buf_only s s' \<Longrightarrow> in_buf_only s (build_string_loop str i n s')"
  by (induction n arbitrary: i s') simp_all

lemma take_two: "Suc j < length bs \<Longrightarrow> take (Suc (Suc j)) (bs[j := a, Suc j := b]) = take j bs @ [a, b]"
  by (rule nth_equalityI) (auto simp: nth_append nth_list_update less_Suc_eq)

lemma loop_bytes:
  assumes "2 + 2 * (i + n) \<le> length (g_usb_in_buf (us_ram s))" and "i + n \<le> length str"
  shows "take (2 + 2 * (i + n)) (g_usb_in_buf (us_ram (build_string_loop str i n s)))
    = take (2 + 2 * i) (g_usb_in_buf (us_ram s)) @ concat (map (\<lambda>c. [c, 0]) (take n (drop i str)))"
  using assms
proof (induction n arbitrary: i s)
  case (Suc n)
  let ?s = "usb_in_buf_put (3 + 2 * i) 0 (usb_in_buf_put (2 + 2 * i) (str ! i) s)"
  have "take (2 + 2 * Suc i) (g_usb_in_buf (us_ram ?s)) = take (2 + 2 * i) (g_usb_in_buf (us_ram s)) @ [str ! i, 0]"
    using Suc.prems take_two [of "2 + 2 * i" "g_usb_in_buf (us_ram s)" "str ! i" 0] by (simp add: numeral_3_eq_3)
  moreover have "take (Suc n) (drop i str) = str ! i # take n (drop (Suc i) str)"
    using Suc.prems by (simp add: Cons_nth_drop_Suc [symmetric])
  ultimately show ?case using Suc.IH [of "Suc i" ?s] Suc.prems by simp
qed simp

lemma build_string_effect:
  assumes "length (g_usb_in_buf (us_ram s)) = 64" and "length str \<le> 31" and "0 \<notin> set str"
  defines "r \<equiv> usb_enum_build_string str s"
  shows "fst r = word_of_nat (length (string_desc str))" and "in_buf_only s (snd r)"
    and "take (length (string_desc str)) (g_usb_in_buf (us_ram (snd r))) = string_desc str"
proof -
  have n: "takeWhile (\<lambda>c. c \<noteq> 0) (take 31 str) = str"
    using assms by (simp add: takeWhile_eq_all_conv) metis
  have l: "length (string_desc str) = 2 + 2 * length str"
    by (simp add: string_desc_def length_concat comp_def sum_list_triv)
  define s0 where "s0 = usb_in_buf_put 1 DESC_STRING (usb_in_buf_put 0 (word_of_nat (2 + 2 * length str)) s)"
  have r: "r = (word_of_nat (2 + 2 * length str), build_string_loop str 0 (length str) s0)"
    unfolding r_def usb_enum_build_string_def n s0_def Let_def ..
  show "fst r = word_of_nat (length (string_desc str))" unfolding r l by simp
  show "in_buf_only s (snd r)" unfolding r snd_conv s0_def by (rule in_buf_loop) simp
  have "take 2 (g_usb_in_buf (us_ram s0)) = [word_of_nat (2 + 2 * length str), 3]"
    using assms(1) take_two [of 0 "g_usb_in_buf (us_ram s)"] by (simp add: s0_def numeral_2_eq_2 DESC_STRING_def)
  moreover have "length (g_usb_in_buf (us_ram s0)) = 64" using assms(1) by (simp add: s0_def)
  ultimately show "take (length (string_desc str)) (g_usb_in_buf (us_ram (snd r))) = string_desc str"
    using assms(2) loop_bytes [of 0 "length str" s0 str] unfolding r l by (simp add: string_desc_def)
qed

end
