(* ===== verification/Usb_Request.thy ===== *)
theory Usb_Request
  imports Usb_Reply
begin

text \<open>
  Every standard request over the controller (\<open>request_effect\<close>): whichever branch the gadget takes, the
  reply of the packet is what the host will be given on endpoint 0, the address and the configuration
  are the packet's, and the registers and the buffer's length are kept.
\<close>

unbundle bit_operations_syntax

definition usb_kept :: "usb_core usb_state \<Rightarrow> u32 list \<times> nat \<times> (usb_obj \<times> u32 \<times> u32) option" where
  "usb_kept s = ([c_sts (us_dev s), c_intr (us_dev s), c_setupstat (us_dev s), c_complete (us_dev s), c_cmd (us_dev s),
     c_mode (us_dev s), c_eplist (us_dev s), enum_done s], length (g_usb_in_buf (us_ram s)), c_primed (us_dev s) 0)"

definition usb_ident :: "usb_core usb_state \<Rightarrow> u32 list" where
  "usb_ident s = [enum_addr s, enum_configured s, c_devaddr (us_dev s)]"

lemma kept_eq:
  assumes "core_regs (us_dev s') = core_regs (us_dev s)" and "enum_vars s' = enum_vars s"
    and "length (g_usb_in_buf (us_ram s')) = length (g_usb_in_buf (us_ram s))" and "c_primed (us_dev s') 0 = c_primed (us_dev s) 0"
  shows "usb_kept s' = usb_kept s" and "usb_ident s' = usb_ident s"
  using assms by (simp_all add: usb_kept_def usb_ident_def vars_dest)

lemma kept_state [simp]:
  "usb_kept (s\<lparr>enum_state := v\<rparr>) = usb_kept s" "usb_ident (s\<lparr>enum_state := v\<rparr>) = usb_ident s"
  "usb_kept (s\<lparr>enum_addr := v\<rparr>) = usb_kept s" "usb_kept (s\<lparr>enum_configured := v\<rparr>) = usb_kept s"
  "usb_kept (s\<lparr>enum_requests := v\<rparr>) = usb_kept s" "usb_ident (s\<lparr>enum_requests := v\<rparr>) = usb_ident s"
  by (simp_all add: usb_kept_def usb_ident_def)

lemma kept_in_buf:
  assumes "in_buf_only s s'"
  shows "usb_kept s' = usb_kept s" and "usb_ident s' = usb_ident s" and "us_dev s' = us_dev s" and "enum_state s' = enum_state s"
  using assms by (auto simp: in_buf_only_def usb_kept_def usb_ident_def)

lemma kept_nuke:
  "usb_kept (usb_enum_nuke (core_world lay) q s) = usb_kept s" "usb_ident (usb_enum_nuke (core_world lay) q s) = usb_ident s"
  by (rule kept_eq, simp_all add: nuke_effect)+

text \<open>What the host gets on endpoint 0, of the \<open>n\<close> bytes it takes.\<close>

definition in_reply :: "usb_layout \<Rightarrow> bytes \<Rightarrow> usb_core \<Rightarrow> bool" where
  "in_reply lay bs c \<longleftrightarrow> (\<exists>len page. c_primed c 16 = Some (Obj_Td 1, len, page)) \<and> (\<forall>n. fst (core_move lay 16 n c) = take n bs)"

lemma prime_in0:
  assumes lay: "layout_ok lay" and len: "len \<le> 0x7fff" and buf: "set_option buf \<subseteq> set usb_bufs"
    and el: "c_eplist (us_dev s) = lay (Obj_Qh 0)"
  defines "s' \<equiv> usb_enum_prime (core_world lay) lay QH_IN0 USB_ENUM_TD_IN0 buf len True s"
  shows "usb_kept s' = usb_kept s" and "usb_ident s' = usb_ident s" and "enum_state s' = enum_state s"
    and "in_reply lay (take (unat len) (case buf of None \<Rightarrow> [] | Some b \<Rightarrow> obj_bytes (us_ram s) b)) (us_dev s')
      \<or> len \<noteq> 0 \<and> buf = None"
proof -
  have ep: "ep_index QH_IN0 True" by (simp add: ep_index_def)
  have t: "USB_ENUM_TD_IN0 < 3" by (simp add: USB_ENUM_TD_IN0_def)
  note e = prime_effect [OF lay ep t len buf el, folded s'_def]
  show k: "usb_kept s' = usb_kept s" "usb_ident s' = usb_ident s"
    by (rule kept_eq; use e in \<open>simp add: QH_IN0_def\<close>)+
  show "enum_state s' = enum_state s" using e by (simp add: vars_dest)
  have p: "c_primed (us_dev s') 16 = Some (Obj_Td 1, len, page_of lay buf)"
    using e(4) by (simp add: QH_IN0_def USB_ENUM_TD_IN0_def)
  show "in_reply lay (take (unat len) (case buf of None \<Rightarrow> [] | Some b \<Rightarrow> obj_bytes (us_ram s) b)) (us_dev s')
      \<or> len \<noteq> 0 \<and> buf = None"
  proof (cases "len = 0")
    case True
    then show ?thesis using p by (simp add: in_reply_def core_move_def Let_def)
  next
    case False
    show ?thesis
    proof (cases buf)
      case (Some b)
      have "obj_at lay usb_bufs (lay b) = Some b" using obj_at_ok(2) [OF lay] buf Some by simp
      then show ?thesis using p e(5) [OF Some False] Some by (simp add: in_reply_def core_move_def Let_def page_of_def)
    qed (use False in simp)
  qed
qed


lemma reply_found:
  fixes p :: bytes
  assumes lay: "layout_ok lay" and b: "b \<in> set usb_bufs" and el: "c_eplist (us_dev s) = lay (Obj_Qh 0)"
    and alen: "alen = word_of_nat (length bs)" and bs: "length bs \<le> 64" "take (length bs) (obj_bytes (us_ram s) b) = bs"
  defines "len \<equiv> (if setup_wLength p < alen then setup_wLength p else alen)"
  defines "s' \<equiv> usb_enum_prime (core_world lay) lay QH_IN0 USB_ENUM_TD_IN0 (Some b) len True s"
  shows "usb_kept s' = usb_kept s" and "usb_ident s' = usb_ident s" and "enum_state s' = enum_state s"
    and "in_reply lay (take (usb_length p) bs) (us_dev s')" and "len = 0 \<Longrightarrow> take (usb_length p) bs = []"
proof -
  have a: "unat alen = length bs" using bs(1) by (simp add: alen unat_of_nat)
  have n: "unat len = min (usb_length p) (length bs)" by (simp add: len_def word_less_nat_alt a setup_parts(2))
  then have l: "len \<le> 0x7fff" using bs(1) by (simp add: word_le_nat_alt)
  note e = prime_in0 [OF lay l _ el, of "Some b", folded s'_def]
  show "usb_kept s' = usb_kept s" "usb_ident s' = usb_ident s" "enum_state s' = enum_state s" using e(1-3) b by simp_all
  have "take (unat len) (obj_bytes (us_ram s) b) = take (usb_length p) bs"
    using bs(2) unfolding n by (metis min.commute take_take)
  then show "in_reply lay (take (usb_length p) bs) (us_dev s')" using e(4) b by simp
  show "take (usb_length p) bs = []" if "len = 0" using n that by (auto simp: min_def split: if_splits)
qed

lemma langid_effect:
  assumes "length (g_usb_in_buf (us_ram s)) = 64"
  shows "fst (usb_enum_build_langid s) = 4" and "in_buf_only s (snd (usb_enum_build_langid s))"
    and "take 4 (g_usb_in_buf (us_ram (snd (usb_enum_build_langid s)))) = [4, 3, 0x09, 0x04]"
  using assms take_two [of 0 "g_usb_in_buf (us_ram s)"]
  by (simp_all add: usb_enum_build_langid_def DESC_STRING_def)
     (rule nth_equalityI; auto simp: nth_list_update less_Suc_eq numeral_eq_Suc)


text \<open>A descriptor request: the reply, or nothing primed and an empty reply.\<close>

definition descriptor_ok :: "usb_layout \<Rightarrow> bytes \<Rightarrow> usb_core usb_state \<Rightarrow> u32 \<times> usb_core usb_state \<Rightarrow> bool" where
  "descriptor_ok lay bs s r \<longleftrightarrow> usb_kept (snd r) = usb_kept s \<and> usb_ident (snd r) = usb_ident s
     \<and> (if fst r = 0 then bs = [] else in_reply lay bs (us_dev (snd r)))"

lemma descriptor_found:
  assumes "layout_ok lay" and "b \<in> set usb_bufs" and "c_eplist (us_dev s) = lay (Obj_Qh 0)"
    and "alen = word_of_nat (length bs)" and "length bs \<le> 64" "take (length bs) (obj_bytes (us_ram s) b) = bs"
    and "usb_kept s = usb_kept s0" "usb_ident s = usb_ident s0"
  shows "descriptor_ok lay (take (usb_length p) bs) s0 (let len = if setup_wLength p < alen then setup_wLength p else alen
    in (len, usb_enum_prime (core_world lay) lay QH_IN0 USB_ENUM_TD_IN0 (Some b) len True s))"
  using reply_found [OF assms(1-6), of p] assms(7,8) by (simp add: descriptor_ok_def Let_def)

lemma of_unat: "unat (w :: u32) = unat (b :: u8) \<Longrightarrow> w = ucast c \<longleftrightarrow> b = (c :: u8)"
proof -
  assume w: "unat w = unat b"
  have "unat (ucast c :: u32) = unat c" by (simp add: unsigned_ucast_eq take_bit_nat_eq_self less_trans [OF byte_lt])
  then show ?thesis unfolding word_unat_eq_iff w by simp
qed

lemma strings_ok:
  "length g_usb_str_manufacturer \<le> 31" "0 \<notin> set g_usb_str_manufacturer" "length g_usb_str_product \<le> 31" "0 \<notin> set g_usb_str_product"
  "length g_usb_str_serial \<le> 31" "0 \<notin> set g_usb_str_serial" "length (string_desc g_usb_str_manufacturer) \<le> 64"
  "length (string_desc g_usb_str_product) \<le> 64" "length (string_desc g_usb_str_serial) \<le> 64"
  by (simp_all add: g_usb_str_manufacturer_def g_usb_str_product_def g_usb_str_serial_def string_desc_def of_char_def)

lemma unat_u8: "unat (x :: u8) = 0 \<longleftrightarrow> x = 0" "unat (x :: u8) = Suc 0 \<longleftrightarrow> x = 1" "unat (x :: u8) = 2 \<longleftrightarrow> x = 2"
  "unat (x :: u8) = 3 \<longleftrightarrow> x = 3" "unat (x :: u8) = 5 \<longleftrightarrow> x = 5"
  using word_unat_eq_iff [of x] by simp_all

lemma descriptor_effect:
  assumes lay: "layout_ok lay" and el: "c_eplist (us_dev s) = lay (Obj_Qh 0)" and buf: "length (g_usb_in_buf (us_ram s)) = 64"
  shows "descriptor_ok lay (take (usb_length p) (usb_descriptor (unat (p ! 3)) (unat (p ! 2)))) s
    (usb_enum_get_descriptor (core_world lay) lay p s)"
proof -
  note T = of_unat [OF wvalue_fields(1)] and I = of_unat [OF wvalue_fields(2)]
  have I0: "setup_wValue p AND 0xff = 0 \<longleftrightarrow> p ! 2 = 0" using I [of p 0] by simp
  define found where "found = (\<lambda>desc alen s. let len = (if setup_wLength p < alen then setup_wLength p else alen)
    in (len, usb_enum_prime (core_world lay) lay QH_IN0 USB_ENUM_TD_IN0 (Some desc) len True s))"
  have G: "usb_enum_get_descriptor (core_world lay) lay p s =
      (if p ! 3 = DESC_DEVICE then found Obj_Dev_Desc (word_of_nat (length g_usb_dev_desc)) s
       else if p ! 3 = DESC_CONFIG then found Obj_Cfg_Desc (word_of_nat (length g_usb_cfg_desc)) s
       else if p ! 3 = DESC_STRING then
         (let (alen, s1) = (if p ! 2 = 0 then usb_enum_build_langid s
            else if p ! 2 = STR_MANUFACTURER then usb_enum_build_string g_usb_str_manufacturer s
            else if p ! 2 = STR_PRODUCT then usb_enum_build_string g_usb_str_product s
            else if p ! 2 = STR_SERIAL then usb_enum_build_string g_usb_str_serial s else (0, s))
          in if alen \<noteq> 0 then found Obj_In_Buf alen s1 else (0, s1))
       else (0, s))"
    unfolding usb_enum_get_descriptor_def Let_def found_def T I I0 ..
  have fixed: "descriptor_ok lay (take (usb_length p) bs) s (found b (word_of_nat (length bs)) s)"
    if "b \<in> set usb_bufs" "length bs \<le> 64" "obj_bytes (us_ram s) b = bs" for b bs
    using descriptor_found [OF lay that(1) el refl that(2), of s p] that(3) unfolding found_def by simp
  have built: "descriptor_ok lay (take (usb_length p) bs) s (found Obj_In_Buf (fst r) (snd r))"
    if "in_buf_only s (snd r)" "fst r = word_of_nat (length bs)" "length bs \<le> 64"
      "take (length bs) (g_usb_in_buf (us_ram (snd r))) = bs" for r bs
    using descriptor_found [OF lay _ _ that(2,3), of Obj_In_Buf "snd r" s p] kept_in_buf [OF that(1)] that(4) el
    unfolding found_def by (simp add: usb_bufs_def obj_bytes_def)
  have str: "let r = usb_enum_build_string str s in fst r \<noteq> 0 \<and> descriptor_ok lay (take (usb_length p) (string_desc str)) s (found Obj_In_Buf (fst r) (snd r))"
    if "length str \<le> 31" "0 \<notin> set str" "length (string_desc str) \<le> 64" for str
  proof -
    note e = build_string_effect [OF buf that(1,2)]
    have "0 < length (string_desc str)" by (simp add: string_desc_def)
    then have "fst (usb_enum_build_string str s) \<noteq> 0" unfolding e(1)
      using that(3) by (subst word_of_nat_eq_0_u32) simp_all
    with built [OF e(2,1) that(3) e(3)] show ?thesis by (simp add: Let_def)
  qed
  note strs = str [OF strings_ok(1,2,7)] str [OF strings_ok(3,4,8)] str [OF strings_ok(5,6,9)]
  have lang: "descriptor_ok lay (take (usb_length p) [4, 3, 0x09, 0x04]) s (found Obj_In_Buf 4 (snd (usb_enum_build_langid s)))"
    using built [OF langid_effect(2) [OF buf], of "[4, 3, 0x09, 0x04]"] langid_effect [OF buf] by (simp add: numeral_eq_Suc)
  have descs: "length g_usb_dev_desc \<le> 64" "length g_usb_cfg_desc \<le> 64" by (simp_all add: g_usb_dev_desc_def g_usb_cfg_desc_def)
  have nil: "descriptor_ok lay [] s (0, s)" by (simp add: descriptor_ok_def)
  show ?thesis
  proof (cases "p ! 3 = DESC_STRING")
    case True
    then have "usb_descriptor (unat (p ! 3)) (unat (p ! 2)) = (if p ! 2 = 0 then [4, 3, 0x09, 0x04]
        else if p ! 2 = 1 then string_desc g_usb_str_manufacturer else if p ! 2 = 2 then string_desc g_usb_str_product
        else if p ! 2 = 3 then string_desc g_usb_str_serial else [])"
      by (simp add: usb_descriptor_def DESC_STRING_def unat_u8)
    then show ?thesis unfolding G using True strs lang nil langid_effect(1) [OF buf]
      by (simp add: DESC_STRING_def DESC_DEVICE_def DESC_CONFIG_def STR_MANUFACTURER_def STR_PRODUCT_def STR_SERIAL_def
          case_prod_unfold Let_def)
  next
    case False
    then have "usb_descriptor (unat (p ! 3)) (unat (p ! 2)) = (if p ! 3 = 1 then g_usb_dev_desc else if p ! 3 = 2 then g_usb_cfg_desc else [])"
      by (simp add: usb_descriptor_def DESC_STRING_def unat_u8)
    then show ?thesis unfolding G using False fixed [of Obj_Dev_Desc g_usb_dev_desc] fixed [of Obj_Cfg_Desc g_usb_cfg_desc] descs nil
      by (simp add: DESC_STRING_def DESC_DEVICE_def DESC_CONFIG_def usb_bufs_def obj_bytes_def)
  qed
qed


lemma kept_write:
  assumes "off = STAGE90_USB_ENDPTCTRL EP_IN \<or> off = STAGE90_USB_DEVICEADDR"
  shows "usb_kept (usb_enum_write32 (core_world lay) off v s) = usb_kept s"
    and "usb_ident (usb_enum_write32 (core_world lay) off v s) = [enum_addr s, enum_configured s, if off = STAGE90_USB_DEVICEADDR then v else c_devaddr (us_dev s)]"
  using assms by (auto simp: core_ops core_write_def reg_offsets usb_kept_def usb_ident_def)

lemma kept_dest:
  assumes "usb_kept s' = usb_kept s"
  shows "c_eplist (us_dev s') = c_eplist (us_dev s)" and "length (g_usb_in_buf (us_ram s')) = length (g_usb_in_buf (us_ram s))"
  using assms by (simp_all add: usb_kept_def)

lemma arm_in_effect:
  assumes lay: "layout_ok lay" and el: "c_eplist (us_dev s) = lay (Obj_Qh 0)"
  shows "usb_kept (usb_enum_arm_ep_in cf (core_world lay) lay s) = usb_kept s"
    and "usb_ident (usb_enum_arm_ep_in cf (core_world lay) lay s) = usb_ident s"
proof -
  define s2 where "s2 = usb_enum_nuke (core_world lay) QH_IN1 (usb_enum_write32 (core_world lay) (STAGE90_USB_ENDPTCTRL EP_IN) ENDPTCTRL1_VALUE s)"
  have k2: "usb_kept s2 = usb_kept s" "usb_ident s2 = usb_ident s"
    by (simp_all add: s2_def kept_nuke kept_write) (simp add: usb_ident_def reg_offsets)
  define s6 where "s6 = usb_in_buf_put 3 (ucast (drop_bit 24 IN_MAGIC AND 0xff)) (usb_in_buf_put 2 (ucast (drop_bit 16 IN_MAGIC AND 0xff))
    (usb_in_buf_put 1 (ucast (drop_bit 8 IN_MAGIC AND 0xff)) (usb_in_buf_put 0 (ucast (IN_MAGIC AND 0xff)) s2)))"
  have k6: "usb_kept s6 = usb_kept s2" "usb_ident s6 = usb_ident s2" by (rule kept_in_buf; simp add: s6_def)+
  have "ep_index QH_IN1 True" "USB_ENUM_TD_IN1 < 3" "(4 :: u32) \<le> 0x7fff" "set_option (Some Obj_In_Buf) \<subseteq> set usb_bufs"
    by (simp_all add: ep_index_def USB_ENUM_TD_IN1_def usb_bufs_def)
  note e = prime_effect [OF lay this, of s6]
  have "c_eplist (us_dev s6) = lay (Obj_Qh 0)" using kept_dest(1) k6(1) k2(1) el by metis
  note e = e [OF this]
  have k7: "usb_kept (usb_enum_prime (core_world lay) lay QH_IN1 USB_ENUM_TD_IN1 (Some Obj_In_Buf) 4 True s6) = usb_kept s6"
    "usb_ident (usb_enum_prime (core_world lay) lay QH_IN1 USB_ENUM_TD_IN1 (Some Obj_In_Buf) 4 True s6) = usb_ident s6"
    by (rule kept_eq; simp add: e; simp add: QH_IN1_def)+
  have D: "usb_enum_arm_ep_in cf (core_world lay) lay s = (if en_stream cf then s2
      else usb_enum_prime (core_world lay) lay QH_IN1 USB_ENUM_TD_IN1 (Some Obj_In_Buf) 4 True s6)"
    unfolding usb_enum_arm_ep_in_def Let_def s2_def [symmetric] s6_def [symmetric] ..
  show "usb_kept (usb_enum_arm_ep_in cf (core_world lay) lay s) = usb_kept s"
    "usb_ident (usb_enum_arm_ep_in cf (core_world lay) lay s) = usb_ident s"
    unfolding D by (simp_all add: k2 k6 k7)
qed

lemma status_effect:
  assumes lay: "layout_ok lay" and el: "c_eplist (us_dev s) = lay (Obj_Qh 0)"
  defines "s' \<equiv> usb_enum_status_in (core_world lay) lay s"
  shows "usb_kept s' = usb_kept s" and "usb_ident s' = usb_ident s" and "enum_state s' = USB_ENUM_ST_STATUS" and "in_reply lay [] (us_dev s')"
  using prime_in0 [OF lay _ _ el, of 0 None] by (simp_all add: s'_def usb_enum_status_in_def)

text \<open>The address the controller answers to is the one the gadget keeps.\<close>

definition addr_ok :: "usb_core usb_state \<Rightarrow> bool" where
  "addr_ok s \<longleftrightarrow> drop_bit DEVICEADDR_ADDR_SHIFT (c_devaddr (us_dev s)) = enum_addr s"

definition usb_told :: "usb_core usb_state \<Rightarrow> nat \<times> bool" where
  "usb_told s = (unat (enum_addr s), enum_configured s \<noteq> 0)"

lemma told_state [simp]: "usb_told (s\<lparr>enum_state := v\<rparr>) = usb_told s" "addr_ok (s\<lparr>enum_state := v\<rparr>) = addr_ok s"
  by (simp_all add: usb_told_def addr_ok_def)

lemma told_ident:
  "usb_ident s' = usb_ident s \<Longrightarrow> usb_told s' = usb_told s \<and> addr_ok s' = addr_ok s"
  by (simp add: usb_ident_def usb_told_def addr_ok_def)

lemma addr_field:
  "drop_bit DEVICEADDR_ADDR_SHIFT (push_bit DEVICEADDR_ADDR_SHIFT (v AND 0x7f) OR DEVICEADDR_USBADRA) = (v AND 0x7f :: u32)"
proof -
  have a: "DEVICEADDR_USBADRA = push_bit 24 1" by (simp add: DEVICEADDR_USBADRA_def)
  show ?thesis unfolding and_low DEVICEADDR_ADDR_SHIFT_def a
    by (intro bit_word_eqI) (auto simp: bit_simps simp del: push_bit_of_1)
qed


text \<open>A request, from the packet: the reply is on its way, the address and the configuration are the
  packet's, and the rest is kept.\<close>

definition request_ok :: "usb_layout \<Rightarrow> bytes \<Rightarrow> usb_core usb_state \<Rightarrow> usb_core usb_state \<Rightarrow> bool" where
  "request_ok lay p s s' \<longleftrightarrow> usb_kept s' = usb_kept s \<and> in_reply lay (usb_reply p) (us_dev s')
     \<and> usb_told s' = usb_track p (usb_told s) \<and> (addr_ok s \<longrightarrow> addr_ok s')"

lemma request_status:
  assumes "layout_ok lay" and "c_eplist (us_dev s) = lay (Obj_Qh 0)" and "usb_kept s' = usb_kept s"
    and "usb_told s' = usb_track p (usb_told s)" and "addr_ok s \<longrightarrow> addr_ok s'" and "usb_reply p = []"
  shows "request_ok lay p s (usb_enum_status_in (core_world lay) lay s')"
  using status_effect [OF assms(1), of s'] kept_dest [OF assms(3)] assms told_ident [of "usb_enum_status_in (core_world lay) lay s'" s']
  by (simp add: request_ok_def)

lemma request_effect:
  assumes lay: "layout_ok lay" and el: "c_eplist (us_dev s) = lay (Obj_Qh 0)" and buf: "length (g_usb_in_buf (us_ram s)) = 64"
  shows "request_ok lay p s (usb_enum_request cf (core_world lay) lay p s)"
proof -
  let ?k = "core_world lay"
  note codes = USB_TYPE_MASK_def USB_TYPE_STANDARD_def REQ_GET_DESCRIPTOR_def REQ_SET_ADDRESS_def REQ_GET_STATUS_def
    REQ_SET_CONFIGURATION_def USB_DIR_IN_def
  obtain n s1 where g: "usb_enum_get_descriptor ?k lay p s = (n, s1)" by fastforce
  show ?thesis
  proof (cases "usb_req p")
    case (Req_Descriptor t i)
    then have c: "p ! 0 AND USB_TYPE_MASK = USB_TYPE_STANDARD" "p ! 1 = REQ_GET_DESCRIPTOR" "p ! 0 AND USB_DIR_IN \<noteq> 0"
      and ti: "t = unat (p ! 3)" "i = unat (p ! 2)" by (auto simp: usb_req_def Let_def codes split: if_splits)
    have d: "descriptor_ok lay (usb_reply p) s (n, s1)"
      using descriptor_effect [OF lay el buf, of p] g by (simp add: usb_reply_def Req_Descriptor ti)
    then have id: "usb_kept s1 = usb_kept s" "usb_told s1 = usb_told s" "addr_ok s1 = addr_ok s" "usb_told s = usb_track p (usb_told s)"
      using told_ident [of s1 s] by (simp_all add: descriptor_ok_def usb_track_def Req_Descriptor split: prod.splits)
    have r: "usb_enum_request cf ?k lay p s = (if n \<noteq> 0 then s1\<lparr>enum_state := USB_ENUM_ST_DATA\<rparr> else usb_enum_status_in ?k lay s1)"
      using c by (simp add: usb_enum_request_def Let_def g)
    show ?thesis
    proof (cases "n = 0")
      case True
      have "request_ok lay p s (usb_enum_status_in ?k lay s1)"
        by (rule request_status [OF lay el]) (use d id True in \<open>simp_all add: descriptor_ok_def\<close>)
      then show ?thesis using r True by simp
    next
      case False
      have "usb_told (s1\<lparr>enum_state := v\<rparr>) = usb_told s1" "addr_ok (s1\<lparr>enum_state := v\<rparr>) = addr_ok s1" for v
        by (simp_all add: usb_told_def addr_ok_def)
      then show ?thesis using r False d id by (simp add: request_ok_def descriptor_ok_def)
    qed
  next
    case Req_Status
    then have c: "p ! 0 AND USB_TYPE_MASK = USB_TYPE_STANDARD" "p ! 1 = REQ_GET_STATUS" "p ! 0 AND USB_DIR_IN \<noteq> 0"
      by (auto simp: usb_req_def Let_def codes split: if_splits)
    let ?s1 = "usb_in_buf_put 1 0 (usb_in_buf_put 0 0 s)"
    have k: "usb_kept ?s1 = usb_kept s" "usb_ident ?s1 = usb_ident s" by (rule kept_in_buf; simp)+
    have z: "take (length [0, 0 :: u8]) (obj_bytes (us_ram ?s1) Obj_In_Buf) = [0, 0]"
      using take_two [of 0 "g_usb_in_buf (us_ram s)"] buf by (simp add: obj_bytes_def)
    have el1: "c_eplist (us_dev ?s1) = lay (Obj_Qh 0)" using kept_dest(1) [OF k(1)] el by simp
    define s2 where "s2 = usb_enum_prime ?k lay QH_IN0 USB_ENUM_TD_IN0 (Some Obj_In_Buf)
        (if setup_wLength p < 2 then setup_wLength p else 2) True ?s1"
    have "Obj_In_Buf \<in> set usb_bufs" "(2 :: u32) = word_of_nat (length [0, 0 :: u8])" "length [0, 0 :: u8] \<le> 64"
      by (simp_all add: usb_bufs_def)
    note e = reply_found [OF lay this(1) el1 this(2,3) z, of p, folded s2_def]
    have r: "usb_enum_request cf ?k lay p s = s2\<lparr>enum_state := USB_ENUM_ST_DATA\<rparr>"
      using c by (simp add: usb_enum_request_def Let_def s2_def) (simp add: codes)
    have "usb_ident (s2\<lparr>enum_state := USB_ENUM_ST_DATA\<rparr>) = usb_ident s" unfolding kept_state e(2) k(2) ..
    note id = told_ident [OF this]
    show ?thesis unfolding r request_ok_def kept_state e(1) k(1)
      using e(4) id by (simp add: usb_reply_def usb_track_def Req_Status split: prod.splits)
  next
    case (Req_Address v)
    then have c: "p ! 0 AND USB_TYPE_MASK = USB_TYPE_STANDARD" "p ! 1 = REQ_SET_ADDRESS" and v: "v = unat (p ! 2) + 256 * unat (p ! 3)"
      by (auto simp: usb_req_def Let_def codes split: if_splits)
    let ?a = "setup_wValue p AND 0x7f"
    let ?s1 = "usb_enum_write32 ?k STAGE90_USB_DEVICEADDR (push_bit DEVICEADDR_ADDR_SHIFT ?a OR DEVICEADDR_USBADRA) (s\<lparr>enum_addr := ?a\<rparr>)"
    have r: "usb_enum_request cf ?k lay p s = usb_enum_status_in ?k lay (?s1\<lparr>enum_state := USB_ENUM_ST_ADDRESS\<rparr>)"
      using c by (simp add: usb_enum_request_def Let_def) (simp add: codes)
    have k: "usb_kept ?s1 = usb_kept s" by (simp add: kept_write)
    have f: "enum_addr ?s1 = ?a" "enum_configured ?s1 = enum_configured s"
      "c_devaddr (us_dev ?s1) = push_bit DEVICEADDR_ADDR_SHIFT ?a OR DEVICEADDR_USBADRA"
      by (simp_all add: core_ops core_write_def reg_offsets)
    have a: "addr_ok (?s1\<lparr>enum_state := USB_ENUM_ST_ADDRESS\<rparr>)"
      unfolding told_state unfolding addr_ok_def f by (rule addr_field)
    have t: "usb_told (?s1\<lparr>enum_state := USB_ENUM_ST_ADDRESS\<rparr>) = usb_track p (usb_told s)"
      using f wvalue_fields(3) [of p] by (simp add: usb_told_def usb_track_def Req_Address v)
    show ?thesis unfolding r
      by (rule request_status [OF lay el]) (use k a t in \<open>simp_all add: usb_reply_def Req_Address\<close>)
  next
    case (Req_Config v)
    then have c: "p ! 0 AND USB_TYPE_MASK = USB_TYPE_STANDARD" "p ! 1 = REQ_SET_CONFIGURATION" and v: "v = unat (p ! 2) + 256 * unat (p ! 3)"
      by (auto simp: usb_req_def Let_def codes split: if_splits)
    have nz: "setup_wValue p \<noteq> 0 \<longleftrightarrow> v \<noteq> 0" unfolding v using setup_parts(1) [of p] by (simp add: unat_eq_zero [symmetric])
    let ?s1 = "s\<lparr>enum_configured := (if setup_wValue p \<noteq> 0 then 1 else 0)\<rparr>"
    let ?s2 = "if setup_wValue p \<noteq> 0 then usb_enum_arm_ep_in cf ?k lay ?s1 else ?s1"
    have r: "usb_enum_request cf ?k lay p s = usb_enum_status_in ?k lay (?s2\<lparr>enum_state := USB_ENUM_ST_CONFIG\<rparr>)"
      using c by (simp add: usb_enum_request_def Let_def) (simp add: codes)
    have k: "usb_kept ?s2 = usb_kept s" "usb_ident ?s2 = usb_ident ?s1" using arm_in_effect [OF lay, of "s\<lparr>enum_configured := 1\<rparr>" cf] el by simp_all
    have t: "usb_told ?s2 = usb_told ?s1" "addr_ok ?s2 = addr_ok ?s1" using told_ident [OF k(2)] by simp_all
    show ?thesis unfolding r
      by (rule request_status [OF lay el])
        (use k(1) t nz in \<open>simp_all add: usb_reply_def usb_track_def usb_told_def addr_ok_def Req_Config split: if_splits\<close>)
  next
    case Req_Other
    then have "usb_enum_request cf ?k lay p s = usb_enum_status_in ?k lay s"
      by (auto simp: usb_enum_request_def usb_req_def Let_def codes split: if_splits)
    then show ?thesis
      using request_status [OF lay el refl, of p] by (simp add: usb_reply_def usb_track_def Req_Other split: prod.splits)
  qed
qed

end
