(* ===== verification/Usb_Poll.thy ===== *)
theory Usb_Poll
  imports Usb_Request
begin

text \<open>
  One poll over the controller in the three situations of a control transfer: a setup packet pending
  (\<open>poll_setup\<close>), a completion on endpoint 0 (\<open>poll_done\<close>), a bus reset (\<open>poll_reset\<close>, from any
  state in device mode).  \<open>usb_ready\<close> is the state between them.
\<close>

unbundle bit_operations_syntax

lemma flag_bits:
  "(x :: u32) AND STS_UI \<noteq> 0 \<longleftrightarrow> bit x 0" "x AND STS_URI \<noteq> 0 \<longleftrightarrow> bit x 6" "x AND EPBIT 0 True \<noteq> 0 \<longleftrightarrow> bit x 16"
  "x AND EPBIT 0 False \<noteq> 0 \<longleftrightarrow> bit x 0" "x AND EPBIT EP_IN True \<noteq> 0 \<longleftrightarrow> bit x 17" "x AND USBCMD_SUTW \<noteq> 0 \<longleftrightarrow> bit x 13"
proof -
  have b: "x AND push_bit n 1 \<noteq> 0 \<longleftrightarrow> bit x n" if "n < 32" for n
  proof -
    have "x AND push_bit n 1 = (if bit x n then push_bit n 1 else 0)"
      by (rule bit_word_eqI) (auto simp: bit_simps simp del: push_bit_of_1)
    moreover have "push_bit n 1 \<noteq> (0 :: u32)" using that by (metis one_bit bit_0_eq bot_apply bot_bool_def)
    ultimately show ?thesis by simp
  qed
  have f: "STS_UI = push_bit 0 1" "STS_URI = push_bit 6 1" "EPBIT 0 True = push_bit 16 1" "EPBIT 0 False = push_bit 0 1"
    "EPBIT EP_IN True = push_bit 17 1" "USBCMD_SUTW = push_bit 13 1"
    by (simp_all add: STS_UI_def STS_URI_def EPBIT_def EP_IN_def USBCMD_SUTW_def)
  show "x AND STS_UI \<noteq> 0 \<longleftrightarrow> bit x 0" "x AND STS_URI \<noteq> 0 \<longleftrightarrow> bit x 6" "x AND EPBIT 0 True \<noteq> 0 \<longleftrightarrow> bit x 16"
    "x AND EPBIT 0 False \<noteq> 0 \<longleftrightarrow> bit x 0" "x AND EPBIT EP_IN True \<noteq> 0 \<longleftrightarrow> bit x 17" "x AND USBCMD_SUTW \<noteq> 0 \<longleftrightarrow> bit x 13"
    unfolding f by (rule b, simp)+
qed

lemma intr_bits: "bit INTR_VALUE 0" "bit INTR_VALUE 6"
  by (simp_all add: INTR_VALUE_def)

text \<open>Between transfers: armed, nothing pending.\<close>

definition usb_ready :: "usb_layout \<Rightarrow> usb_core usb_state \<Rightarrow> bool" where
  "usb_ready lay s \<longleftrightarrow> \<not> bit (c_sts (us_dev s)) 0 \<and> \<not> bit (c_sts (us_dev s)) 6 \<and> c_intr (us_dev s) = INTR_VALUE
     \<and> c_setupstat (us_dev s) = 0 \<and> c_complete (us_dev s) = 0 \<and> c_mode (us_dev s) AND STAGE90_USB_USBMODE_CM = STAGE90_USB_USBMODE_CM_DEVICE
     \<and> c_eplist (us_dev s) = lay (Obj_Qh 0) \<and> enum_done s \<noteq> 0 \<and> length (g_usb_in_buf (us_ram s)) = 64"

lemma ready_kept: "usb_kept s' = usb_kept s \<Longrightarrow> usb_ready lay s' = usb_ready lay s"
  by (simp add: usb_kept_def usb_ready_def)

lemma read_setup_core:
  "usb_enum_read_setup (core_world lay) (Suc n) s =
    Some (setup_bytes (g_usb_qh (c_ram (us_dev s)) 0 10) (g_usb_qh (c_ram (us_dev s)) 0 11),
          s\<lparr>us_ram := ram_copy (Obj_Qh 0) (c_ram (us_dev s)) (us_ram s)\<rparr>)"
proof -
  have "(c OR USBCMD_SUTW) AND USBCMD_SUTW \<noteq> 0" for c :: u32
    unfolding flag_bits bit_or_iff by (simp add: USBCMD_SUTW_def)
  then show ?thesis
    by (simp add: core_ops core_read_def core_write_def ram_copy_def QH_OUT0_def QH_OFF_SETUP_def)
qed

lemma poll_core:
  assumes "c_mode (us_dev s) AND STAGE90_USB_USBMODE_CM = STAGE90_USB_USBMODE_CM_DEVICE" and "enum_done s \<noteq> 0"
  defines "intr \<equiv> c_sts (us_dev s) AND c_intr (us_dev s)"
  shows "entry_usb_enum_poll cf (core_world lay) lay n s =
    (let s5 = if bit intr 6 then usb_enum_bus_reset (core_world lay) s else s
     in map_option (usb_enum_write32 (core_world lay) STAGE90_USB_USBSTS intr)
          (if bit intr 0 then usb_enum_ui cf (core_world lay) lay n s5 else Some s5))"
proof -
  have C: "usb_enum_read32 (core_world lay) off t = (core_read off (us_dev t), t)" for off t by (simp add: core_ops)
  have R: "core_read STAGE90_USB_USBMODE c = c_mode c" "core_read STAGE90_USB_USBSTS c = c_sts c" "core_read STAGE90_USB_USBINTR c = c_intr c" for c
    by (simp_all add: core_read_def reg_offsets)
  have A: "usb_enum_arm (core_world lay) lay s = s" using assms(2) by (simp add: usb_enum_arm_def)
  show ?thesis
    unfolding entry_usb_enum_poll_def C R Let_def case_prod_conv A flag_bits intr_def [symmetric]
    using assms(1) by (simp split: option.split)
qed


text \<open>A setup packet, and the poll that services it.\<close>

lemma sts_cleared:
  assumes "x = y AND NOT (y AND INTR_VALUE)"
  shows "\<not> bit (x :: u32) 0" and "\<not> bit x 6"
  unfolding assms by (simp_all only: bit_simps) (use intr_bits in auto)

lemma reply_same:
  assumes "c_primed c' = c_primed c" and "c_ram c' = c_ram c"
  shows "in_reply lay bs c' = in_reply lay bs c"
proof -
  have "fst (core_move lay b n c') = fst (core_move lay b n c)" for b n
    unfolding core_move_def assms Let_def by (simp split: option.split prod.split)
  then show ?thesis using assms by (simp add: in_reply_def)
qed

lemma poll_setup:
  fixes w0 w1 :: u32
  assumes lay: "layout_ok lay" and r: "usb_ready lay s"
  defines "p \<equiv> setup_bytes w0 w1"
  obtains s' where "entry_usb_enum_poll cf (core_world lay) lay (Suc n) (snd (host_does (core_host lay) (Host_Setup w0 w1) s)) = Some s'"
    and "usb_ready lay s'" and "c_primed (us_dev s') 0 = c_primed (us_dev s) 0" and "in_reply lay (usb_reply p) (us_dev s')"
    and "usb_told s' = usb_track p (usb_told s)" and "addr_ok s \<longrightarrow> addr_ok s'"
proof -
  let ?k = "core_world lay"
  define s1 where "s1 = snd (host_does (core_host lay) (Host_Setup w0 w1) s)"
  have c1: "c_sts (us_dev s1) = c_sts (us_dev s) OR STS_UI" "c_intr (us_dev s1) = INTR_VALUE" "c_setupstat (us_dev s1) = 1"
    "c_complete (us_dev s1) = 0" "c_eplist (us_dev s1) = lay (Obj_Qh 0)" "enum_done s1 \<noteq> 0" "length (g_usb_in_buf (us_ram s1)) = 64"
    "c_mode (us_dev s1) AND STAGE90_USB_USBMODE_CM = STAGE90_USB_USBMODE_CM_DEVICE" "c_primed (us_dev s1) = c_primed (us_dev s)"
    "c_devaddr (us_dev s1) = c_devaddr (us_dev s)" "enum_addr s1 = enum_addr s" "enum_configured s1 = enum_configured s"
    "g_usb_qh (c_ram (us_dev s1)) 0 10 = w0" "g_usb_qh (c_ram (us_dev s1)) 0 11 = w1"
    using r by (simp_all add: s1_def host_does_def core_host_def usb_ready_def)
  define intr where "intr = c_sts (us_dev s1) AND c_intr (us_dev s1)"
  have i: "bit intr 0" "\<not> bit intr 6"
    using r intr_bits by (simp_all add: intr_def c1 bit_and_iff bit_or_iff usb_ready_def STS_UI_def)
  define s2 where "s2 = s1\<lparr>us_ram := ram_copy (Obj_Qh 0) (c_ram (us_dev s1)) (us_ram s1)\<rparr>"
  define s3 where "s3 = usb_enum_nuke ?k QH_IN0 (usb_enum_nuke ?k QH_OUT0 (usb_enum_write32 ?k STAGE90_USB_ENDPTSETUPSTAT 1 s2))"
  define s4 where "s4 = s3\<lparr>enum_requests := enum_requests s3 + 1, enum_state := USB_ENUM_ST_SETUP\<rparr>"
  define s5 where "s5 = usb_enum_request cf ?k lay p s4"
  have rs: "usb_enum_read_setup ?k (Suc n) s1 = Some (p, s2)"
    unfolding read_setup_core s2_def p_def c1 ..
  have st: "usb_enum_read32 ?k STAGE90_USB_ENDPTSETUPSTAT s1 = (1, s1)"
    using c1(3) by (simp add: core_ops core_read_def reg_offsets)
  have ui: "usb_enum_ui cf ?k lay (Suc n) s1 = Some s5"
    unfolding usb_enum_ui_def st Let_def case_prod_conv usb_enum_setup_def rs option.case s3_def [symmetric] s4_def [symmetric] s5_def by simp
  have poll: "entry_usb_enum_poll cf ?k lay (Suc n) s1 = Some (usb_enum_write32 ?k STAGE90_USB_USBSTS intr s5)"
    unfolding poll_core [OF c1(8,6)] Let_def intr_def [symmetric] using i ui by simp
  have k4: "usb_kept s4 = usb_kept (usb_enum_write32 ?k STAGE90_USB_ENDPTSETUPSTAT 1 s2)" "usb_ident s4 = usb_ident s1"
    unfolding s4_def kept_state s3_def kept_nuke by (simp_all add: s2_def core_ops core_write_def reg_offsets usb_ident_def ram_copy_def)
  have k4': "usb_kept s4 = ([c_sts (us_dev s1), INTR_VALUE, 0, 0, c_cmd (us_dev s1), c_mode (us_dev s1), lay (Obj_Qh 0), enum_done s1], 64, c_primed (us_dev s) 0)"
    unfolding k4(1) using c1 by (simp add: s2_def core_ops core_write_def reg_offsets usb_kept_def ram_copy_def)
  have e4: "c_eplist (us_dev s4) = lay (Obj_Qh 0)" "length (g_usb_in_buf (us_ram s4)) = 64" using k4' by (simp_all add: usb_kept_def)
  note q = request_effect [OF lay e4, of p cf, folded s5_def, unfolded request_ok_def k4']
  define s6 where "s6 = usb_enum_write32 ?k STAGE90_USB_USBSTS intr s5"
  have f6: "us_dev s6 = (us_dev s5)\<lparr>c_sts := c_sts (us_dev s5) AND NOT intr\<rparr>" "us_ram s6 = us_ram s5" "enum_done s6 = enum_done s5"
     "usb_told s6 = usb_told s5" "addr_ok s6 = addr_ok s5"
    by (simp_all add: s6_def core_ops core_write_def reg_offsets usb_told_def addr_ok_def)
  have "c_sts (us_dev s6) = c_sts (us_dev s1) AND NOT (c_sts (us_dev s1) AND INTR_VALUE)"
    using q by (simp add: f6 usb_kept_def intr_def c1(2))
  note b = sts_cleared [OF this]
  have t4: "usb_told s4 = usb_told s" "addr_ok s4 = addr_ok s" using told_ident [OF k4(2)] c1 by (simp_all add: usb_told_def addr_ok_def)
  show ?thesis
  proof (rule that [of s6])
    show "usb_ready lay s6" using q b c1 by (simp add: usb_ready_def f6 usb_kept_def)
    show "in_reply lay (usb_reply p) (us_dev s6)" using q reply_same [of "us_dev s6" "us_dev s5"] by (simp add: f6)
  qed (use q t4 poll in \<open>simp_all add: f6 s6_def [symmetric] s1_def [symmetric] usb_kept_def\<close>)
qed


text \<open>A transfer's completion, and the poll that services it.\<close>

definition usb_done :: "usb_layout \<Rightarrow> nat \<Rightarrow> usb_core usb_state \<Rightarrow> bool" where
  "usb_done lay b s \<longleftrightarrow> usb_ready lay (s\<lparr>us_dev := (us_dev s)\<lparr>c_sts := c_sts (us_dev s) AND NOT STS_UI, c_complete := 0\<rparr>\<rparr>)
     \<and> bit (c_sts (us_dev s)) 0 \<and> c_complete (us_dev s) = push_bit b 1"

lemma move_done:
  fixes n :: nat
  assumes r: "usb_ready lay s" and c: "c_primed (us_dev s) b = Some (td, len, page)"
  defines "h \<equiv> host_does (core_host lay) (Host_Move b n) s"
  shows "usb_done lay b (snd h)" and "c_primed (us_dev (snd h)) = (c_primed (us_dev s))(b := None)" and "usb_ident (snd h) = usb_ident s"
    and "enum_state (snd h) = enum_state s"
proof -
  have "\<not> bit (STS_UI) 6" "bit STS_UI 0" by (simp_all add: STS_UI_def)
  then show "usb_done lay b (snd h)" using r c
    by (simp add: h_def host_does_def core_host_def core_move_def Let_def usb_done_def usb_ready_def bit_simps del: push_bit_of_1)
  show "c_primed (us_dev (snd h)) = (c_primed (us_dev s))(b := None)" "usb_ident (snd h) = usb_ident s" "enum_state (snd h) = enum_state s"
    using c by (simp_all add: h_def host_does_def core_host_def core_move_def Let_def usb_ident_def)
qed

lemma prime_out0:
  assumes lay: "layout_ok lay" and el: "c_eplist (us_dev s) = lay (Obj_Qh 0)"
  defines "s' \<equiv> usb_enum_prime (core_world lay) lay QH_OUT0 USB_ENUM_TD_OUT0 None 0 False s"
  shows "core_regs (us_dev s') = core_regs (us_dev s)" and "enum_vars s' = enum_vars s"
    and "length (g_usb_in_buf (us_ram s')) = length (g_usb_in_buf (us_ram s))" and "c_primed (us_dev s') 0 = Some (Obj_Td 0, 0, 0)"
proof -
  have "ep_index QH_OUT0 False" "USB_ENUM_TD_OUT0 < 3" "(0 :: u32) \<le> 0x7fff" "set_option (None :: usb_obj option) \<subseteq> set usb_bufs"
    by (simp_all add: ep_index_def USB_ENUM_TD_OUT0_def)
  from prime_effect [OF lay this el, folded s'_def]
  show "core_regs (us_dev s') = core_regs (us_dev s)" "enum_vars s' = enum_vars s"
    "length (g_usb_in_buf (us_ram s')) = length (g_usb_in_buf (us_ram s))" "c_primed (us_dev s') 0 = Some (Obj_Td 0, 0, 0)"
    by (simp_all add: QH_OUT0_def USB_ENUM_TD_OUT0_def page_of_def)
qed

lemma poll_done:
  assumes lay: "layout_ok lay" and d: "usb_done lay b s" and b: "b = 16 \<or> b = 0"
  obtains s' where "entry_usb_enum_poll cf (core_world lay) lay n s = Some s'"
    and "usb_ready lay s'" and "usb_ident s' = usb_ident s"
    and "c_primed (us_dev s') 0 = c_primed (us_dev s) 0 \<or> b = 16 \<and> c_primed (us_dev s') 0 = Some (Obj_Td 0, 0, 0)"
proof -
  let ?k = "core_world lay"
  define intr where "intr = c_sts (us_dev s) AND c_intr (us_dev s)"
  have f: "c_setupstat (us_dev s) = 0" "c_intr (us_dev s) = INTR_VALUE" "enum_done s \<noteq> 0" "c_eplist (us_dev s) = lay (Obj_Qh 0)"
    "c_mode (us_dev s) AND STAGE90_USB_USBMODE_CM = STAGE90_USB_USBMODE_CM_DEVICE" "length (g_usb_in_buf (us_ram s)) = 64"
    "c_complete (us_dev s) = push_bit b 1" "bit (c_sts (us_dev s)) 0" "\<not> bit (c_sts (us_dev s)) 6"
    using d by (simp_all add: usb_done_def usb_ready_def bit_simps STS_UI_def del: push_bit_of_1)
  have i: "bit intr 0" "\<not> bit intr 6" using f intr_bits by (simp_all add: intr_def bit_and_iff)
  have C: "usb_enum_read32 ?k STAGE90_USB_ENDPTCOMPLETE t = (c_complete (us_dev t), t)" for t
    by (simp add: core_ops core_read_def reg_offsets)
  have S: "usb_enum_read32 ?k STAGE90_USB_ENDPTSETUPSTAT s = (0, s)" using f(1) by (simp add: core_ops core_read_def reg_offsets)
  define s1 where "s1 = s\<lparr>us_dev := (us_dev s)\<lparr>c_complete := 0\<rparr>\<rparr>"
  have E: "EPBIT 0 True = push_bit 16 1" "EPBIT 0 False = push_bit 0 1" by (simp_all add: EPBIT_def)
  have clear: "usb_enum_complete_clear ?k (push_bit b 1) s = s1"
    by (simp add: usb_enum_complete_clear_def core_ops core_write_def reg_offsets s1_def f(7) del: push_bit_of_1)
  define s2 where "s2 = usb_enum_prime ?k lay QH_OUT0 USB_ENUM_TD_OUT0 None 0 False s1"
  define s3 where "s3 = (if b = 16 \<and> enum_state s = USB_ENUM_ST_DATA then s2\<lparr>enum_state := USB_ENUM_ST_STATUS\<rparr> else s1\<lparr>enum_state := USB_ENUM_ST_ARMED\<rparr>)"
  have el: "c_eplist (us_dev s1) = lay (Obj_Qh 0)" using f by (simp add: s1_def)
  note o = prime_out0 [OF lay el, folded s2_def]
  have z: "c_complete (us_dev s1) = 0" "c_complete (us_dev s2) = 0" "c_complete (us_dev s3) = 0" using o by (simp_all add: s1_def s3_def vars_dest)
  have "usb_enum_out0_done ?k (usb_enum_in0_done ?k lay s) = s3"
  proof (cases "b = 16")
    case True
    have "usb_enum_in0_done ?k lay s = s3"
      unfolding usb_enum_in0_done_def C Let_def case_prod_conv flag_bits E(1) clear [unfolded True]
      using f(7) by (simp add: True bit_simps s3_def s2_def [symmetric] del: push_bit_of_1) (simp add: s1_def)
    then show ?thesis by (simp add: usb_enum_out0_done_def C z)
  next
    case False
    then have b0: "b = 0" using b by simp
    have "usb_enum_in0_done ?k lay s = s"
      unfolding usb_enum_in0_done_def C Let_def case_prod_conv flag_bits using f(7) by (simp add: b0 bit_simps)
    then show ?thesis unfolding usb_enum_out0_done_def
      using f(7) clear by (simp add: C Let_def flag_bits E b0 s3_def)
  qed
  moreover have "usb_enum_in1_done cf ?k lay s3 = s3"
    unfolding usb_enum_in1_done_def C z Let_def by simp
  ultimately have ui: "usb_enum_ui cf ?k lay n s = Some s3"
    by (simp add: usb_enum_ui_def S)
  define s4 where "s4 = usb_enum_write32 ?k STAGE90_USB_USBSTS intr s3"
  have poll: "entry_usb_enum_poll cf ?k lay n s = Some s4"
    unfolding poll_core [OF f(5,3)] Let_def intr_def [symmetric] s4_def using i ui by simp
  have f4: "us_dev s4 = (us_dev s3)\<lparr>c_sts := c_sts (us_dev s3) AND NOT intr\<rparr>" "us_ram s4 = us_ram s3" "enum_done s4 = enum_done s3" "usb_ident s4 = usb_ident s3"
    by (simp_all add: s4_def core_ops core_write_def reg_offsets usb_ident_def)
  have k1: "usb_ident s2 = usb_ident s1" using o by (simp add: usb_ident_def vars_dest)
  have "c_sts (us_dev s4) = c_sts (us_dev s) AND NOT (c_sts (us_dev s) AND INTR_VALUE)"
    using o(1) f by (simp add: f4 s3_def intr_def vars_dest) (simp add: s1_def)
  note bits = sts_cleared [OF this]
  show ?thesis
  proof (rule that [OF poll])
    show "usb_ready lay s4" using bits f o(1,2,3) z
      by (simp add: usb_ready_def f4) (auto simp: s3_def vars_dest s1_def)
    show "usb_ident s4 = usb_ident s" by (simp add: f4 s3_def k1) (simp add: s1_def usb_ident_def)
    show "c_primed (us_dev s4) 0 = c_primed (us_dev s) 0 \<or> b = 16 \<and> c_primed (us_dev s4) 0 = Some (Obj_Td 0, 0, 0)"
      using o(4) by (simp add: f4 s3_def) (simp add: s1_def)
  qed
qed

text \<open>A bus reset.\<close>

definition usb_device_mode :: "usb_layout \<Rightarrow> usb_core usb_state \<Rightarrow> bool" where
  "usb_device_mode lay s \<longleftrightarrow> c_mode (us_dev s) AND STAGE90_USB_USBMODE_CM = STAGE90_USB_USBMODE_CM_DEVICE
     \<and> length (g_usb_in_buf (us_ram s)) = 64
     \<and> (enum_done s = 0 \<or> c_intr (us_dev s) = INTR_VALUE \<and> c_eplist (us_dev s) = lay (Obj_Qh 0))"

lemma arm_effect:
  assumes "usb_device_mode lay s"
  defines "s' \<equiv> usb_enum_arm (core_world lay) lay s"
  shows "usb_device_mode lay s'" and "enum_done s' \<noteq> 0" and "c_sts (us_dev s') = c_sts (us_dev s)"
  using assms(1) unfolding s'_def
  by (simp_all add: usb_enum_arm_def usb_device_mode_def usb_enum_arm_ep0_def usb_enum_nuke_def Let_def core_ops core_read_def core_write_def
      reg_offsets usb_enum_qh_def ram_copy_def) auto

lemma poll_arm:
  assumes "usb_device_mode lay s"
  shows "entry_usb_enum_poll cf (core_world lay) lay n s = entry_usb_enum_poll cf (core_world lay) lay n (usb_enum_arm (core_world lay) lay s)"
proof -
  have C: "usb_enum_read32 (core_world lay) off t = (core_read off (us_dev t), t)" for off t by (simp add: core_ops)
  have A: "usb_enum_arm (core_world lay) lay (usb_enum_arm (core_world lay) lay s) = usb_enum_arm (core_world lay) lay s"
    using arm_effect(2) [OF assms] by (simp add: usb_enum_arm_def)
  have M: "core_read STAGE90_USB_USBMODE c = c_mode c" for c by (simp add: core_read_def reg_offsets)
  have m: "c_mode (us_dev s) AND STAGE90_USB_USBMODE_CM = STAGE90_USB_USBMODE_CM_DEVICE"
    "c_mode (us_dev (usb_enum_arm (core_world lay) lay s)) AND STAGE90_USB_USBMODE_CM = STAGE90_USB_USBMODE_CM_DEVICE"
    using assms arm_effect(1) [OF assms] by (simp_all add: usb_device_mode_def)
  show ?thesis unfolding entry_usb_enum_poll_def C Let_def case_prod_conv A M m by simp
qed

lemma poll_reset:
  assumes mode: "usb_device_mode lay s"
  obtains s' where "entry_usb_enum_poll cf (core_world lay) lay n (snd (host_does (core_host lay) Host_Reset s)) = Some s'"
    and "usb_ready lay s'" and "c_primed (us_dev s') 0 = None" and "usb_told s' = (0, False)" and "addr_ok s'"
proof -
  let ?k = "core_world lay"
  define s0 where "s0 = snd (host_does (core_host lay) Host_Reset s)"
  have m0: "usb_device_mode lay s0" "bit (c_sts (us_dev s0)) 6"
    using mode by (simp_all add: s0_def host_does_def core_host_def usb_device_mode_def bit_or_iff STS_URI_def)
  define s1 where "s1 = usb_enum_arm ?k lay s0"
  note a = arm_effect [OF m0(1), folded s1_def]
  have f: "c_mode (us_dev s1) AND STAGE90_USB_USBMODE_CM = STAGE90_USB_USBMODE_CM_DEVICE" "length (g_usb_in_buf (us_ram s1)) = 64"
    "c_intr (us_dev s1) = INTR_VALUE" "c_eplist (us_dev s1) = lay (Obj_Qh 0)" "bit (c_sts (us_dev s1)) 6"
    using a m0(2) by (simp_all add: usb_device_mode_def)
  define intr where "intr = c_sts (us_dev s1) AND c_intr (us_dev s1)"
  have i: "bit intr 6" using f intr_bits by (simp add: intr_def bit_and_iff)
  define s2 where "s2 = usb_enum_bus_reset ?k s1"
  have all1: "- 4294967296 = (0 :: u32)" by simp
  have g: "c_setupstat (us_dev s2) = 0" "c_complete (us_dev s2) = 0" "c_primed (us_dev s2) 0 = None" "c_devaddr (us_dev s2) = 0"
    "enum_addr s2 = 0" "enum_configured s2 = 0" "c_sts (us_dev s2) = c_sts (us_dev s1)" "c_mode (us_dev s2) = c_mode (us_dev s1)"
    "c_intr (us_dev s2) = c_intr (us_dev s1)" "c_eplist (us_dev s2) = c_eplist (us_dev s1)" "us_ram s2 = us_ram s1" "enum_done s2 = enum_done s1"
    by (simp_all add: s2_def usb_enum_bus_reset_def Let_def core_ops core_write_def reg_offsets all1)
  have C: "usb_enum_read32 ?k off t = (core_read off (us_dev t), t)" for off t by (simp add: core_ops)
  have R: "core_read STAGE90_USB_ENDPTSETUPSTAT c = c_setupstat c" "core_read STAGE90_USB_ENDPTCOMPLETE c = c_complete c" for c
    by (simp_all add: core_read_def reg_offsets)
  have "usb_enum_ui cf ?k lay n s2 = Some s2"
    by (simp add: usb_enum_ui_def usb_enum_in0_done_def usb_enum_out0_done_def usb_enum_in1_done_def C R g)
  then have poll: "entry_usb_enum_poll cf ?k lay n s0 = Some (usb_enum_write32 ?k STAGE90_USB_USBSTS intr s2)"
    unfolding poll_arm [OF m0(1)] s1_def [symmetric] poll_core [OF f(1) a(2)] Let_def intr_def [symmetric] using i by (simp add: s2_def [symmetric])
  define s3 where "s3 = usb_enum_write32 ?k STAGE90_USB_USBSTS intr s2"
  have h: "us_dev s3 = (us_dev s2)\<lparr>c_sts := c_sts (us_dev s2) AND NOT intr\<rparr>" "us_ram s3 = us_ram s2" "enum_done s3 = enum_done s2"
    "enum_addr s3 = enum_addr s2" "enum_configured s3 = enum_configured s2"
    by (simp_all add: s3_def core_ops core_write_def reg_offsets usb_told_def addr_ok_def)
  have "c_sts (us_dev s3) = c_sts (us_dev s1) AND NOT (c_sts (us_dev s1) AND INTR_VALUE)" using f g by (simp add: h intr_def)
  note b = sts_cleared [OF this]
  show ?thesis
  proof (rule that)
    show "entry_usb_enum_poll cf (core_world lay) lay n (snd (host_does (core_host lay) Host_Reset s)) = Some s3"
      using poll unfolding s0_def s3_def .
    show "usb_ready lay s3" using b f g a(2) by (simp add: usb_ready_def h)
  qed (simp_all add: h g usb_told_def addr_ok_def)
qed

end
