(* ===== verification/Usb_Session.thy ===== *)
theory Usb_Session
  imports Usb_Poll
begin

text \<open>
  Control transfers as the host drives them, and what the gadget answers over a whole session, from
  the first bus reset on.
\<close>

unbundle bit_operations_syntax

subsection \<open>The host's side\<close>

text \<open>One thing the host does, and the poll after it.\<close>

definition host_poll ::
    "usb_cfg \<Rightarrow> 'd usb_world \<Rightarrow> usb_layout \<Rightarrow> (usb_host \<Rightarrow> 'd \<Rightarrow> bytes \<times> 'd) \<Rightarrow> nat \<Rightarrow> usb_host \<Rightarrow> 'd usb_state \<Rightarrow> (bytes \<times> 'd usb_state) option" where
  "host_poll cf k lay env fuel h s = (let (bs, s1) = host_does env h s in map_option (Pair bs) (entry_usb_enum_poll cf k lay fuel s1))"

text \<open>A control transfer: the setup packet, the IN stage of at most the packet's length, and the OUT
  stage, which moves nothing where the gadget has not primed it.\<close>

definition usb_transfer ::
    "usb_cfg \<Rightarrow> 'd usb_world \<Rightarrow> usb_layout \<Rightarrow> (usb_host \<Rightarrow> 'd \<Rightarrow> bytes \<times> 'd) \<Rightarrow> nat \<Rightarrow> u32 \<Rightarrow> u32 \<Rightarrow> 'd usb_state \<Rightarrow> (bytes \<times> 'd usb_state) option" where
  "usb_transfer cf k lay env fuel w0 w1 s =
    (case host_poll cf k lay env fuel (Host_Setup w0 w1) s of None \<Rightarrow> None
     | Some (_, s1) \<Rightarrow>
         (case host_poll cf k lay env fuel (Host_Move 16 (usb_length (setup_bytes w0 w1))) s1 of None \<Rightarrow> None
          | Some (bs, s2) \<Rightarrow> map_option (\<lambda>(_, s3). (bs, s3)) (host_poll cf k lay env fuel (Host_Move 0 0) s2)))"

fun usb_session ::
    "usb_cfg \<Rightarrow> 'd usb_world \<Rightarrow> usb_layout \<Rightarrow> (usb_host \<Rightarrow> 'd \<Rightarrow> bytes \<times> 'd) \<Rightarrow> nat \<Rightarrow> (u32 \<times> u32) list \<Rightarrow> 'd usb_state \<Rightarrow> (bytes list \<times> 'd usb_state) option" where
  "usb_session cf k lay env fuel [] s = Some ([], s)"
| "usb_session cf k lay env fuel ((w0, w1) # ps) s =
    (case usb_transfer cf k lay env fuel w0 w1 s of None \<Rightarrow> None
     | Some (bs, s1) \<Rightarrow> map_option (\<lambda>(bss, s2). (bs # bss, s2)) (usb_session cf k lay env fuel ps s1))"

definition usb_enumerate ::
    "usb_cfg \<Rightarrow> 'd usb_world \<Rightarrow> usb_layout \<Rightarrow> (usb_host \<Rightarrow> 'd \<Rightarrow> bytes \<times> 'd) \<Rightarrow> nat \<Rightarrow> (u32 \<times> u32) list \<Rightarrow> 'd usb_state \<Rightarrow> (bytes list \<times> 'd usb_state) option" where
  "usb_enumerate cf k lay env fuel ps s =
    (case host_poll cf k lay env fuel Host_Reset s of None \<Rightarrow> None | Some (_, s1) \<Rightarrow> usb_session cf k lay env fuel ps s1)"

subsection \<open>Over the controller\<close>

lemma poll_idle:
  assumes r: "usb_ready lay s"
  obtains s' where "entry_usb_enum_poll cf (core_world lay) lay n s = Some s'" and "usb_ready lay s'"
    and "usb_ident s' = usb_ident s" and "c_primed (us_dev s') = c_primed (us_dev s)"
proof -
  let ?k = "core_world lay"
  define intr where "intr = c_sts (us_dev s) AND c_intr (us_dev s)"
  have f: "c_mode (us_dev s) AND STAGE90_USB_USBMODE_CM = STAGE90_USB_USBMODE_CM_DEVICE" "enum_done s \<noteq> 0" "\<not> bit intr 0" "\<not> bit intr 6"
    using r by (simp_all add: usb_ready_def intr_def bit_and_iff)
  show ?thesis
  proof (rule that)
    show "entry_usb_enum_poll cf ?k lay n s = Some (usb_enum_write32 ?k STAGE90_USB_USBSTS intr s)"
      unfolding poll_core [OF f(1,2)] Let_def intr_def [symmetric] using f(3,4) by simp
  qed (use r in \<open>simp_all add: core_ops core_write_def reg_offsets usb_ready_def usb_ident_def bit_simps\<close>)
qed

definition usb_quiet :: "usb_layout \<Rightarrow> usb_core usb_state \<Rightarrow> bool" where
  "usb_quiet lay s \<longleftrightarrow> usb_ready lay s \<and> c_primed (us_dev s) 0 = None \<and> addr_ok s"

lemma transfer_core:
  assumes lay: "layout_ok lay" and q: "usb_quiet lay s"
  obtains s' where "usb_transfer cf (core_world lay) lay (core_host lay) (Suc n) w0 w1 s = Some (usb_reply (setup_bytes w0 w1), s')"
    and "usb_quiet lay s'" and "usb_told s' = usb_track (setup_bytes w0 w1) (usb_told s)"
proof -
  let ?p = "setup_bytes w0 w1" and ?n = "usb_length (setup_bytes w0 w1)" and ?hp = "host_poll cf (core_world lay) lay (core_host lay) (Suc n)"
  have r: "usb_ready lay s" using q by (simp add: usb_quiet_def)
  have hp: "?hp h t = map_option (Pair (fst (host_does (core_host lay) h t))) (entry_usb_enum_poll cf (core_world lay) lay (Suc n) (snd (host_does (core_host lay) h t)))" for h t
    by (simp add: host_poll_def case_prod_unfold Let_def)
  obtain s1 where s1: "entry_usb_enum_poll cf (core_world lay) lay (Suc n) (snd (host_does (core_host lay) (Host_Setup w0 w1) s)) = Some s1"
    "usb_ready lay s1" "c_primed (us_dev s1) 0 = c_primed (us_dev s) 0" "in_reply lay (usb_reply ?p) (us_dev s1)"
    "usb_told s1 = usb_track ?p (usb_told s)" "addr_ok s \<longrightarrow> addr_ok s1"
    by (rule poll_setup [OF lay r])
  obtain len page where c: "c_primed (us_dev s1) 16 = Some (Obj_Td 1, len, page)" using s1(4) by (auto simp: in_reply_def)
  note d = move_done [OF s1(2) c, of ?n]
  have b: "fst (host_does (core_host lay) (Host_Move 16 ?n) s1) = usb_reply ?p"
    using s1(4) by (simp add: in_reply_def host_does_def core_host_def case_prod_unfold usb_reply_def)
  obtain s2 where s2: "entry_usb_enum_poll cf (core_world lay) lay (Suc n) (snd (host_does (core_host lay) (Host_Move 16 ?n) s1)) = Some s2"
    "usb_ready lay s2" "usb_ident s2 = usb_ident s1" "c_primed (us_dev s2) 0 = None \<or> c_primed (us_dev s2) 0 = Some (Obj_Td 0, 0, 0)"
    using poll_done [OF lay d(1), of cf "Suc n" thesis] d s1(3) q by (auto simp: usb_quiet_def)
  have "\<exists>s3. entry_usb_enum_poll cf (core_world lay) lay (Suc n) (snd (host_does (core_host lay) (Host_Move 0 0) s2)) = Some s3
      \<and> usb_ready lay s3 \<and> usb_ident s3 = usb_ident s2 \<and> c_primed (us_dev s3) 0 = None"
  proof (cases "c_primed (us_dev s2) 0")
    case None
    then have "snd (host_does (core_host lay) (Host_Move 0 0) s2) = s2" by (simp add: host_does_def core_host_def core_move_def)
    then show ?thesis using poll_idle [OF s2(2), of cf "Suc n"] None by metis
  next
    case (Some x)
    then have "c_primed (us_dev s2) 0 = Some (Obj_Td 0, 0, 0)" using s2(4) by simp
    note e = move_done [OF s2(2) this, of 0]
    show ?thesis using poll_done [OF lay e(1), of cf "Suc n"] e(2,3) by (metis fun_upd_same zero_neq_numeral)
  qed
  then obtain s3 where s3: "entry_usb_enum_poll cf (core_world lay) lay (Suc n) (snd (host_does (core_host lay) (Host_Move 0 0) s2)) = Some s3"
    "usb_ready lay s3" "usb_ident s3 = usb_ident s2" "c_primed (us_dev s3) 0 = None" by blast
  have t: "usb_told s3 = usb_told s1" "addr_ok s3 = addr_ok s1" using told_ident [of s3 s1] s3(3) s2(3) by simp_all
  show ?thesis
  proof (rule that)
    show "usb_transfer cf (core_world lay) lay (core_host lay) (Suc n) w0 w1 s = Some (usb_reply ?p, s3)"
      by (simp add: usb_transfer_def hp s1(1) s2(1) s3(1) b)
    show "usb_quiet lay s3" using s3 t s1(6) q by (simp add: usb_quiet_def)
  qed (simp add: t s1(5))
qed

lemma session_core:
  assumes lay: "layout_ok lay" and q: "usb_quiet lay s"
  shows "\<exists>s'. usb_session cf (core_world lay) lay (core_host lay) (Suc n) ps s = Some (map (\<lambda>(w0, w1). usb_reply (setup_bytes w0 w1)) ps, s')
     \<and> usb_quiet lay s' \<and> usb_told s' = fold (\<lambda>(w0, w1). usb_track (setup_bytes w0 w1)) ps (usb_told s)"
  using q
proof (induction ps arbitrary: s)
  case (Cons p ps)
  obtain w0 w1 where p: "p = (w0, w1)" by fastforce
  obtain s1 where "usb_transfer cf (core_world lay) lay (core_host lay) (Suc n) w0 w1 s = Some (usb_reply (setup_bytes w0 w1), s1)"
    "usb_quiet lay s1" "usb_told s1 = usb_track (setup_bytes w0 w1) (usb_told s)"
    by (rule transfer_core [OF lay Cons.prems])
  with Cons.IH [of s1] show ?case by (auto simp: p)
qed simp


subsection \<open>Over any world that simulates it\<close>

lemma view_host_poll:
  assumes sim: "usb_sim lay k env al"
  shows "map_option (map_prod id (usb_view al)) (host_poll cf k lay env n h s) = host_poll cf (core_world lay) lay (core_host lay) n h (usb_view al s)"
proof -
  obtain bs s1 where h: "host_does env h s = (bs, s1)" by fastforce
  then have "host_does (core_host lay) h (usb_view al s) = (bs, usb_view al s1)" using sim_host [OF sim, of h s] by simp
  then show ?thesis using h by (simp add: host_poll_def view_poll [OF sim, symmetric] option.map_comp comp_def)
qed

lemma view_transfer:
  assumes sim: "usb_sim lay k env al"
  shows "map_option (map_prod id (usb_view al)) (usb_transfer cf k lay env n w0 w1 s) = usb_transfer cf (core_world lay) lay (core_host lay) n w0 w1 (usb_view al s)"
  unfolding usb_transfer_def view_host_poll [OF sim, symmetric]
  by (auto simp: view_host_poll [OF sim, symmetric] option.map_comp comp_def case_prod_unfold split: option.splits)

lemma view_session:
  assumes sim: "usb_sim lay k env al"
  shows "map_option (map_prod id (usb_view al)) (usb_session cf k lay env n ps s) = usb_session cf (core_world lay) lay (core_host lay) n ps (usb_view al s)"
proof (induction ps arbitrary: s)
  case (Cons p ps)
  obtain w0 w1 where p: "p = (w0, w1)" by fastforce
  have t: "usb_transfer cf (core_world lay) lay (core_host lay) n w0 w1 (usb_view al s) = map_option (map_prod id (usb_view al)) (usb_transfer cf k lay env n w0 w1 s)"
    by (rule view_transfer [OF sim, symmetric])
  show ?case unfolding p usb_session.simps t
    by (cases "usb_transfer cf k lay env n w0 w1 s") (auto simp: Cons.IH [symmetric] option.map_comp comp_def map_prod_def split_beta)
qed simp

text \<open>C4. Whatever requests the host makes after a bus reset, in any number and order, every poll returns;
  the bytes of each reply are the ones the packet asks for, cut to its length; and at the end the
  gadget has the address and the configuration of the last such requests, and the controller answers
  to that address.\<close>

theorem usb_enumeration_session:
  assumes "usb_sim lay k env al" and "layout_ok lay" and "usb_device_mode lay (usb_view al s)"
  shows "\<exists>s'. usb_enumerate cf k lay env (Suc n) ps s = Some (map (\<lambda>(w0, w1). usb_reply (setup_bytes w0 w1)) ps, s')
    \<and> (unat (enum_addr s'), enum_configured s' \<noteq> 0) = fold (\<lambda>(w0, w1). usb_track (setup_bytes w0 w1)) ps (0, False)
    \<and> drop_bit DEVICEADDR_ADDR_SHIFT (c_devaddr (al (us_dev s'))) = enum_addr s'"
proof -
  let ?k = "core_world lay" and ?e = "core_host lay"
  obtain s1 where s1: "entry_usb_enum_poll cf ?k lay (Suc n) (snd (host_does ?e Host_Reset (usb_view al s))) = Some s1"
    "usb_quiet lay s1" "usb_told s1 = (0, False)"
    using poll_reset [OF assms(3), of cf "Suc n"] by (metis usb_quiet_def)
  have "host_poll cf ?k lay ?e (Suc n) Host_Reset (usb_view al s) = Some ([], s1)"
    using s1(1) by (simp add: host_poll_def host_does_def core_host_def)
  then obtain t1 where t1: "host_poll cf k lay env (Suc n) Host_Reset s = Some ([], t1)" "usb_view al t1 = s1"
    using view_host_poll [OF assms(1), of cf "Suc n" Host_Reset s] by (auto simp: map_prod_def split: prod.splits)
  obtain s2 where s2: "usb_session cf ?k lay ?e (Suc n) ps s1 = Some (map (\<lambda>(w0, w1). usb_reply (setup_bytes w0 w1)) ps, s2)"
    "usb_quiet lay s2" "usb_told s2 = fold (\<lambda>(w0, w1). usb_track (setup_bytes w0 w1)) ps (0, False)"
    using session_core [OF assms(2) s1(2), of cf n ps] s1(3) by auto
  obtain t2 where t2: "usb_session cf k lay env (Suc n) ps t1 = Some (map (\<lambda>(w0, w1). usb_reply (setup_bytes w0 w1)) ps, t2)" "usb_view al t2 = s2"
    using view_session [OF assms(1), of cf "Suc n" ps t1] s2(1) unfolding t1(2) by (auto simp: map_prod_def split: prod.splits)
  have "usb_told s2 = (unat (enum_addr t2), enum_configured t2 \<noteq> 0)" "addr_ok s2 = (drop_bit DEVICEADDR_ADDR_SHIFT (c_devaddr (al (us_dev t2))) = enum_addr t2)"
    using t2(2) by (auto simp: usb_told_def addr_ok_def)
  then show ?thesis using t1 t2 s2 by (simp add: usb_enumerate_def usb_quiet_def)
qed


text \<open>The controller simulates itself, and a layout with its objects apart.\<close>

lemma core_sim: "usb_sim lay (core_world lay) (core_host lay) id"
  by (simp add: usb_sim_def core_world_def prod.map_id0)

fun ref_layout :: usb_layout where
  "ref_layout (Obj_Qh i) = 0x1000 + 64 * of_nat i"
| "ref_layout (Obj_Td i) = 0x2000 + 64 * of_nat i"
| "ref_layout Obj_In_Buf = 0x3000" | "ref_layout Obj_Dev_Desc = 0x4000" | "ref_layout Obj_Cfg_Desc = 0x5000"
| "ref_layout Obj_Stream_Buf = 0x6000" | "ref_layout Obj_Stream_Td = 0x7000"

lemma ref_layout_ok: "layout_ok ref_layout"
  by (simp add: layout_ok_def usb_tds_def usb_bufs_def)

definition ref_ram :: usb_ram where
  "ref_ram = \<lparr>g_usb_qh = (\<lambda>_ _. 0), g_usb_td = (\<lambda>_ _. 0), g_usb_in_buf = replicate 64 0, g_usb_stream_buf = replicate 4096 0,
     g_usb_stream_td = (\<lambda>_. 0)\<rparr>"

definition ref_start :: "usb_core usb_state" where
  "ref_start = \<lparr>us_dev = \<lparr>c_sts = 0, c_intr = 0, c_setupstat = 0, c_complete = 0, c_cmd = 0x80001, c_mode = 2, c_devaddr = 0, c_eplist = 0,
       c_ctrl1 = 0, c_ram = ref_ram, c_primed = (\<lambda>_. None)\<rparr>, us_ram = ref_ram, enum_state = 0, enum_done = 0, enum_addr = 0,
     enum_configured = 0, enum_requests = 0, enum_resets = 0, enum_in_reads = 0\<rparr>"

text \<open>The first requests of a host: the device descriptor, the address 5, the product string, the configuration.\<close>

theorem usb_enumeration_session_witness:
  "\<exists>s'. usb_enumerate \<lparr>en_stream = False, en_force = False\<rparr> (core_world ref_layout) ref_layout (core_host ref_layout) 1
      [(0x01000680, 0x00400000), (0x00050500, 0), (0x03020680, 0x00040409), (0x00010900, 0)] ref_start
      = Some ([g_usb_dev_desc, [], [28, 3, 120, 0], []], s')
    \<and> (unat (enum_addr s'), enum_configured s' \<noteq> 0) = (5, True)"
proof -
  have m: "usb_device_mode ref_layout (usb_view id ref_start)"
    by (simp add: usb_device_mode_def ref_start_def ref_ram_def STAGE90_USB_USBMODE_CM_def STAGE90_USB_USBMODE_CM_DEVICE_def)
  let ?ps = "[(0x01000680, 0x00400000), (0x00050500, 0), (0x03020680, 0x00040409), (0x00010900, 0)] :: (u32 \<times> u32) list"
  have r: "map (\<lambda>(w0, w1). usb_reply (setup_bytes w0 w1)) ?ps = [g_usb_dev_desc, [], [28, 3, 120, 0], []]"
    by (simp add: usb_reply_def usb_req_def setup_bytes_def usb_length_def usb_descriptor_def string_desc_def g_usb_dev_desc_def g_usb_str_product_def
        Let_def of_char_def)
  have t: "fold (\<lambda>(w0, w1). usb_track (setup_bytes w0 w1)) ?ps (0, False) = (5, True)"
    by (simp add: usb_track_def usb_req_def setup_bytes_def Let_def)
  show ?thesis
    using usb_enumeration_session [OF core_sim ref_layout_ok m, of "\<lparr>en_stream = False, en_force = False\<rparr>" 0 ?ps]
    unfolding r t One_nat_def by blast
qed

end
