(* ===== verification/Usb_Apart.thy ===== *)
theory Usb_Apart
  imports Usb_Session
begin

text \<open>
  With the stream built in, the enumeration leaves the stream's endpoint alone: every poll that has no
  bus reset to service keeps \<open>stream_part\<close>.
\<close>

unbundle bit_operations_syntax

definition stream_part :: "usb_core usb_state \<Rightarrow> (usb_obj \<times> u32 \<times> u32) option \<times> bool \<times> u32 \<times> (nat \<Rightarrow> u32) \<times> bytes \<times> bytes \<times> u32" where
  "stream_part s = (c_primed (us_dev s) 17, bit (c_complete (us_dev s)) 17, c_eplist (us_dev s), g_usb_stream_td (c_ram (us_dev s)),
     g_usb_stream_buf (c_ram (us_dev s)), g_usb_stream_buf (us_ram s), enum_done s)"

text \<open>No other endpoint is given the stream's descriptor, and no bus reset is pending.\<close>

definition others_apart :: "usb_core usb_state \<Rightarrow> bool" where
  "others_apart s \<longleftrightarrow> (\<forall>b. b \<noteq> 17 \<longrightarrow> (\<forall>r \<in> set_option (c_primed (us_dev s) b). fst r \<noteq> Obj_Stream_Td))
     \<and> \<not> bit (c_sts (us_dev s)) 6"

definition stream_keeps :: "usb_core usb_state \<Rightarrow> usb_core usb_state \<Rightarrow> bool" where
  "stream_keeps s s' \<longleftrightarrow> stream_part s' = stream_part s \<and> (others_apart s \<longrightarrow> others_apart s')"

lemma keeps_refl [simp]: "stream_keeps s s"
  by (simp add: stream_keeps_def)

lemma keeps_trans: "stream_keeps s s' \<Longrightarrow> stream_keeps s' s'' \<Longrightarrow> stream_keeps s s''"
  by (simp add: stream_keeps_def)

lemma keeps_vars [simp]:
  "stream_keeps s (s'\<lparr>enum_state := v\<rparr>) = stream_keeps s s'" "stream_keeps s (s'\<lparr>enum_addr := v\<rparr>) = stream_keeps s s'"
  "stream_keeps s (s'\<lparr>enum_configured := v\<rparr>) = stream_keeps s s'" "stream_keeps s (s'\<lparr>enum_requests := v\<rparr>) = stream_keeps s s'"
  by (simp_all add: stream_keeps_def stream_part_def others_apart_def)

lemma keeps_write:
  assumes "off \<in> {STAGE90_USB_USBCMD, STAGE90_USB_USBSTS, STAGE90_USB_USBINTR, STAGE90_USB_DEVICEADDR, STAGE90_USB_ENDPTSETUPSTAT, STAGE90_USB_ENDPTCTRL EP_IN}"
  shows "stream_keeps s (usb_enum_write32 (core_world lay) off v s)"
  using assms by (auto simp: core_ops core_write_def reg_offsets stream_keeps_def stream_part_def others_apart_def bit_and_iff)

lemma keeps_clear: "stream_keeps s (usb_enum_complete_clear (core_world lay) (EPBIT 0 d) s)"
  by (simp add: usb_enum_complete_clear_def core_ops core_write_def reg_offsets stream_keeps_def stream_part_def others_apart_def EPBIT_def bit_simps)

lemma keeps_nuke: "stream_keeps s (usb_enum_nuke (core_world lay) q s)"
  by (simp add: usb_enum_nuke_def core_ops usb_enum_qh_def ram_copy_def stream_keeps_def stream_part_def others_apart_def)

lemma keeps_in_buf: "in_buf_only s s' \<Longrightarrow> stream_keeps s s'"
  by (auto simp: in_buf_only_def stream_keeps_def stream_part_def others_apart_def)

lemma keeps_prime:
  assumes lay: "layout_ok lay" and q: "ep_index q d" "q \<noteq> QH_IN1" and t: "t < 3" and len: "len \<le> 0x7fff"
    and b: "set_option buf \<subseteq> set usb_bufs - {Obj_Stream_Buf}" and el: "c_eplist (us_dev s) = lay (Obj_Qh 0)"
  shows "stream_keeps s (usb_enum_prime (core_world lay) lay q t buf len d s)"
proof -
  have b': "set_option buf \<subseteq> set usb_bufs" using b by auto
  note e = prime_effect [OF lay q(1) t len b' el]
  have q17: "q \<noteq> 17" using q by (auto simp: ep_index_def QH_OUT0_def QH_IN0_def QH_IN1_def)
  have p: "usb_enum_prime (core_world lay) lay q t buf len d s =
    (let r = prime_ram lay q t buf len (us_ram s) in
     usb_enum_write32 (core_world lay) STAGE90_USB_ENDPTPRIME (EPBIT (if q = QH_IN1 then EP_IN else 0) d)
       (s\<lparr>us_ram := r, us_dev := (us_dev s)\<lparr>c_ram := prime_seen q t buf len r (c_ram (us_dev s))\<rparr>\<rparr>))"
    by (rule prime_parts) (use b' in auto)
  have w: "us_ram (usb_enum_write32 (core_world lay) STAGE90_USB_ENDPTPRIME v x) = us_ram x"
    "c_ram (us_dev (usb_enum_write32 (core_world lay) STAGE90_USB_ENDPTPRIME v x)) = c_ram (us_dev x)" for v x
    by (simp_all add: core_ops core_write_def reg_offsets)
  let ?s' = "usb_enum_prime (core_world lay) lay q t buf len d s"
  have "g_usb_stream_buf (us_ram ?s') = g_usb_stream_buf (us_ram s)"
    unfolding p Let_def w by (simp add: prime_ram_def)
  moreover have "g_usb_stream_td (c_ram (us_dev ?s')) = g_usb_stream_td (c_ram (us_dev s))"
    "g_usb_stream_buf (c_ram (us_dev ?s')) = g_usb_stream_buf (c_ram (us_dev s))"
    unfolding p Let_def w using b by (cases buf; auto simp: prime_seen_def ram_copy_def usb_bufs_def)+
  ultimately show ?thesis using e(1,2,4) q17
    by (auto simp: stream_keeps_def stream_part_def others_apart_def vars_dest)
qed

lemma keeps_part:
  assumes "stream_keeps s s'"
  shows "c_eplist (us_dev s') = c_eplist (us_dev s)"
  using assms by (simp add: stream_keeps_def stream_part_def)

lemma keeps_prime_in0:
  assumes "layout_ok lay" and "stream_keeps s s1" and "c_eplist (us_dev s) = lay (Obj_Qh 0)"
    and "set_option buf \<subseteq> {Obj_In_Buf, Obj_Dev_Desc, Obj_Cfg_Desc}" and "len \<le> 64"
  shows "stream_keeps s (usb_enum_prime (core_world lay) lay QH_IN0 USB_ENUM_TD_IN0 buf len True s1)"
proof -
  have "(len :: u32) \<le> 0x7fff" using assms(5) by (simp add: word_le_nat_alt)
  moreover have "c_eplist (us_dev s1) = lay (Obj_Qh 0)" using keeps_part [OF assms(2)] assms(3) by simp
  ultimately show ?thesis
    using assms by (intro keeps_trans [OF assms(2)] keeps_prime)
      (auto simp: ep_index_def QH_IN0_def QH_IN1_def USB_ENUM_TD_IN0_def usb_bufs_def)
qed


lemma build_only:
  "in_buf_only s (snd (usb_enum_build_langid s))" "in_buf_only s (snd (usb_enum_build_string str s))"
  "fst (usb_enum_build_langid s) \<le> 64" "fst (usb_enum_build_string str s) \<le> 64"
proof -
  define n where "n = length (takeWhile (\<lambda>c. c \<noteq> 0) (take 31 str))"
  have "n \<le> 31" unfolding n_def using length_takeWhile_le [of _ "take 31 str"] by (rule le_trans) simp
  then have "unat (word_of_nat (2 + 2 * n) :: u32) = 2 + 2 * n" by (simp only: unat_of_nat) simp
  then have "word_of_nat (2 + 2 * n) \<le> (64 :: u32)" using \<open>n \<le> 31\<close> unfolding word_le_nat_alt by simp
  then show "fst (usb_enum_build_string str s) \<le> 64" unfolding usb_enum_build_string_def Let_def n_def by simp
qed (simp_all add: usb_enum_build_langid_def usb_enum_build_string_def Let_def in_buf_loop)

lemma keeps_descriptor:
  assumes lay: "layout_ok lay" and el: "c_eplist (us_dev s) = lay (Obj_Qh 0)"
  shows "stream_keeps s (snd (usb_enum_get_descriptor (core_world lay) lay p s))"
proof -
  have found: "stream_keeps s (snd (let len = if setup_wLength p < alen then setup_wLength p else alen
      in (len, usb_enum_prime (core_world lay) lay QH_IN0 USB_ENUM_TD_IN0 (Some b) len True s1)))"
    if "stream_keeps s s1" "alen \<le> 64" "b \<in> {Obj_In_Buf, Obj_Dev_Desc, Obj_Cfg_Desc}" for alen b s1
    unfolding Let_def snd_conv by (rule keeps_prime_in0 [OF lay that(1) el]) (use that in \<open>auto intro: order.trans less_imp_le\<close>)
  define r where "r = (if setup_wValue p AND 0xff = 0 then usb_enum_build_langid s
      else if setup_wValue p AND 0xff = ucast STR_MANUFACTURER then usb_enum_build_string g_usb_str_manufacturer s
      else if setup_wValue p AND 0xff = ucast STR_PRODUCT then usb_enum_build_string g_usb_str_product s
      else if setup_wValue p AND 0xff = ucast STR_SERIAL then usb_enum_build_string g_usb_str_serial s else (0, s))"
  have r: "stream_keeps s (snd r)" "fst r \<le> 64" unfolding r_def by (simp_all add: keeps_in_buf build_only)
  have d: "word_of_nat (length g_usb_dev_desc) \<le> (64 :: u32)" "word_of_nat (length g_usb_cfg_desc) \<le> (64 :: u32)"
    by (simp_all add: g_usb_dev_desc_def g_usb_cfg_desc_def)
  show ?thesis
    using found [OF keeps_refl d(1), of Obj_Dev_Desc] found [OF keeps_refl d(2), of Obj_Cfg_Desc] found [OF r, of Obj_In_Buf] r(1)
    unfolding usb_enum_get_descriptor_def Let_def r_def [symmetric] case_prod_unfold
    by (simp only: if_distrib [of snd] snd_conv insertI1 insertI2 if_True if_False split: if_split) simp
qed

lemma keeps_status:
  assumes "layout_ok lay" and "stream_keeps s s1" and "c_eplist (us_dev s) = lay (Obj_Qh 0)"
  shows "stream_keeps s (usb_enum_status_in (core_world lay) lay s1)"
  using keeps_prime_in0 [OF assms, of None 0] by (simp add: usb_enum_status_in_def)

lemma keeps_request:
  assumes lay: "layout_ok lay" and el: "c_eplist (us_dev s) = lay (Obj_Qh 0)" and st: "en_stream cf"
  shows "stream_keeps s (usb_enum_request cf (core_world lay) lay p s)"
proof -
  note S = keeps_status [OF lay _ el]
  have d: "stream_keeps s (snd (usb_enum_get_descriptor (core_world lay) lay p s))" by (rule keeps_descriptor [OF lay el])
  have a: "stream_keeps t (usb_enum_arm_ep_in cf (core_world lay) lay t)" for t
    using st keeps_trans [OF keeps_write keeps_nuke] by (simp add: usb_enum_arm_ep_in_def Let_def)
  have w: "stream_keeps s (usb_enum_write32 (core_world lay) STAGE90_USB_DEVICEADDR v (s\<lparr>enum_addr := x\<rparr>))" for v x
    by (rule keeps_trans [of s "s\<lparr>enum_addr := x\<rparr>"]) (simp_all add: keeps_write)
  have b: "stream_keeps s (usb_in_buf_put 1 0 (usb_in_buf_put 0 0 s))" by (rule keeps_in_buf) simp
  have g: "stream_keeps s (usb_enum_prime (core_world lay) lay QH_IN0 USB_ENUM_TD_IN0 (Some Obj_In_Buf) len True (usb_in_buf_put (Suc 0) 0 (usb_in_buf_put 0 0 s)))"
    if "len \<le> 2" for len
    by (rule keeps_prime_in0 [OF lay b [unfolded One_nat_def] el]) (use that in \<open>auto intro: order.trans\<close>)
  have c: "stream_keeps s (usb_enum_arm_ep_in cf (core_world lay) lay (s\<lparr>enum_configured := v\<rparr>))" for v
    by (rule keeps_trans [OF _ a]) simp
  show ?thesis
    unfolding usb_enum_request_def Let_def case_prod_unfold
    by (simp add: S d w g c less_imp_le)
qed


lemma keeps_setup:
  assumes lay: "layout_ok lay" and el: "c_eplist (us_dev s) = lay (Obj_Qh 0)" and st: "en_stream cf"
    and s': "usb_enum_setup cf (core_world lay) lay n s = Some s'"
  shows "stream_keeps s s'"
proof (cases n)
  case (Suc m)
  define s1 where "s1 = s\<lparr>us_ram := ram_copy (Obj_Qh 0) (c_ram (us_dev s)) (us_ram s)\<rparr>"
  define s2 where "s2 = usb_enum_nuke (core_world lay) QH_IN0 (usb_enum_nuke (core_world lay) QH_OUT0
    (usb_enum_write32 (core_world lay) STAGE90_USB_ENDPTSETUPSTAT 1 s1))"
  define s3 where "s3 = s2\<lparr>enum_requests := enum_requests s2 + 1, enum_state := USB_ENUM_ST_SETUP\<rparr>"
  have "stream_keeps s s1" by (simp add: s1_def stream_keeps_def stream_part_def others_apart_def ram_copy_def)
  then have k2: "stream_keeps s s2" unfolding s2_def
    by (intro keeps_trans [OF _ keeps_nuke]) (rule keeps_trans [OF _ keeps_write], simp_all)
  then have k: "stream_keeps s s3" by (simp add: s3_def)
  have r: "\<exists>p. s' = usb_enum_request cf (core_world lay) lay p s3"
    using s' unfolding usb_enum_setup_def Suc read_setup_core s1_def [symmetric] option.case case_prod_conv Let_def
      s2_def [symmetric] s3_def [symmetric] by auto
  show ?thesis using r keeps_trans [OF k keeps_request [OF lay _ st]] keeps_part [OF k] el by auto
qed (use s' in \<open>simp add: usb_enum_setup_def\<close>)

lemma keeps_dones:
  assumes lay: "layout_ok lay" and el: "c_eplist (us_dev s) = lay (Obj_Qh 0)" and st: "en_stream cf"
  shows "stream_keeps s (usb_enum_in0_done (core_world lay) lay s)" and "stream_keeps s (usb_enum_out0_done (core_world lay) s)"
    and "usb_enum_in1_done cf (core_world lay) lay s = s"
proof -
  let ?c = "usb_enum_complete_clear (core_world lay) (EPBIT 0 True) s"
  have C: "usb_enum_read32 (core_world lay) off t = (core_read off (us_dev t), t)" for off t by (simp add: core_ops)
  have "c_eplist (us_dev ?c) = lay (Obj_Qh 0)" using keeps_part [OF keeps_clear] el by simp
  then have "stream_keeps ?c (usb_enum_prime (core_world lay) lay QH_OUT0 USB_ENUM_TD_OUT0 None 0 False ?c)"
    by (intro keeps_prime [OF lay]) (simp_all add: ep_index_def QH_OUT0_def QH_IN1_def USB_ENUM_TD_OUT0_def)
  from keeps_trans [OF keeps_clear this] keeps_clear [of s lay True]
  show "stream_keeps s (usb_enum_in0_done (core_world lay) lay s)"
    by (simp add: usb_enum_in0_done_def C Let_def)
  show "stream_keeps s (usb_enum_out0_done (core_world lay) s)"
    using keeps_clear [of s lay False] by (simp add: usb_enum_out0_done_def C Let_def)
  show "usb_enum_in1_done cf (core_world lay) lay s = s" using st by (simp add: usb_enum_in1_done_def)
qed

lemma keeps_ui:
  assumes lay: "layout_ok lay" and el: "c_eplist (us_dev s) = lay (Obj_Qh 0)" and st: "en_stream cf"
    and s': "usb_enum_ui cf (core_world lay) lay n s = Some s'"
  shows "stream_keeps s s'"
proof -
  have C: "usb_enum_read32 (core_world lay) off t = (core_read off (us_dev t), t)" for off t by (simp add: core_ops)
  note a = keeps_dones(1) [OF lay el st]
  note b = keeps_dones(2,3) [OF lay _ st]
  have "c_eplist (us_dev (usb_enum_in0_done (core_world lay) lay s)) = lay (Obj_Qh 0)" using keeps_part [OF a] el by simp
  note b1 = keeps_trans [OF a b(1) [OF this]]
  have e1: "usb_enum_in1_done cf (core_world lay) lay t = t" for t using st by (simp add: usb_enum_in1_done_def)
  show ?thesis using s' keeps_setup [OF lay el st] b1 by (auto simp: usb_enum_ui_def C e1 split: if_splits)
qed

lemma keeps_enum_poll:
  assumes lay: "layout_ok lay" and el: "c_eplist (us_dev s) = lay (Obj_Qh 0)" and st: "en_stream cf" and d: "enum_done s \<noteq> 0"
    and nr: "others_apart s" and s': "entry_usb_enum_poll cf (core_world lay) lay n s = Some s'"
  shows "stream_keeps s s'"
proof -
  have C: "usb_enum_read32 (core_world lay) off t = (core_read off (us_dev t), t)" for off t by (simp add: core_ops)
  have A: "usb_enum_arm (core_world lay) lay s = s" using d by (simp add: usb_enum_arm_def)
  have R: "core_read STAGE90_USB_USBSTS c = c_sts c" "core_read STAGE90_USB_USBINTR c = c_intr c" for c
    by (simp_all add: core_read_def reg_offsets)
  define intr where "intr = c_sts (us_dev s) AND c_intr (us_dev s)"
  have i: "\<not> bit intr 6" using nr by (simp add: intr_def others_apart_def bit_and_iff)
  have w: "stream_keeps s t \<Longrightarrow> stream_keeps s (usb_enum_write32 (core_world lay) STAGE90_USB_USBSTS v t)" for t v
    by (rule keeps_trans [OF _ keeps_write]) simp_all
  show ?thesis
    using s' i keeps_ui [OF lay el st]
    unfolding entry_usb_enum_poll_def C A R Let_def case_prod_conv flag_bits intr_def [symmetric]
    by (auto simp: w split: if_splits option.splits)
qed

lemma keeps_host:
  assumes "h \<noteq> Host_Reset" and "\<And>n. h \<noteq> Host_Move 17 n" and o: "others_apart s"
  shows "stream_keeps s (snd (host_does (core_host lay) h s))"
proof (cases h)
  case (Host_Setup w0 w1)
  then show ?thesis by (simp add: host_does_def core_host_def stream_keeps_def stream_part_def others_apart_def bit_or_iff STS_UI_def)
next
  case (Host_Move b n)
  then have b: "b \<noteq> 17" using assms(2) by auto
  show ?thesis
  proof (cases "c_primed (us_dev s) b")
    case None
    then show ?thesis by (simp add: Host_Move host_does_def core_host_def core_move_def)
  next
    case (Some r)
    obtain td len page where r: "r = (td, len, page)" by (cases r)
    have "td \<noteq> Obj_Stream_Td" using o b Some r by (auto simp: others_apart_def)
    then have "g_usb_stream_td (td_put td 1 v x) = g_usb_stream_td x" "g_usb_stream_buf (td_put td 1 v x) = g_usb_stream_buf x" for v x
      by (simp_all add: td_put_def split: usb_obj.split)
    then show ?thesis using b
      by (simp add: Host_Move host_does_def core_host_def core_move_def Some r Let_def stream_keeps_def stream_part_def
          others_apart_def bit_or_iff STS_UI_def one_bit del: push_bit_of_1)
  qed
qed (use assms(1) in simp)

end
