(* ===== verification/Usb_Chunk.thy ===== *)
theory Usb_Chunk
  imports Usb_Apart
begin

text \<open>
  One chunk of the stream over the controller, from the copy out of the console to the count the
  completion reads back, and \<open>stream_inv\<close>, which ties the bytes the host has received to the cursor;
  every step of the stream, of the enumeration, of the host and of the console's writers keeps it.
\<close>

unbundle bit_operations_syntax

subsection \<open>A chunk on its way\<close>

definition console_bytes :: "usb_console \<Rightarrow> nat \<Rightarrow> nat \<Rightarrow> bytes" where
  "console_bytes con a n = map (con_data con) [a..<a + n]"

lemma console_bytes_add: "console_bytes con 0 (a + n) = console_bytes con 0 a @ console_bytes con a n"
  by (simp add: console_bytes_def upt_add_eq_append [of 0 a n])

lemma length_stream_copy [simp]: "length (stream_copy con cur i n bs) = length bs"
  by (induction n arbitrary: i bs) simp_all

lemma stream_copy_bytes:
  "i + n \<le> length bs \<Longrightarrow> take (i + n) (stream_copy con cur i n bs) = take i bs @ console_bytes con (cur + i) n"
proof (induction n arbitrary: i bs)
  case (Suc n)
  have "take (Suc i) (bs[i := con_data con (cur + i)]) = take i bs @ [con_data con (cur + i)]"
    using Suc.prems by (simp add: take_Suc_conv_app_nth)
  moreover have "console_bytes con (cur + i) (Suc n) = con_data con (cur + i) # console_bytes con (cur + Suc i) n"
    by (simp add: console_bytes_def upt_conv_Cons del: upt_Suc)
  ultimately show ?case using Suc.IH [of "Suc i" "bs[i := con_data con (cur + i)]"] Suc.prems by simp
qed (simp add: console_bytes_def)

definition stream_ram :: "usb_layout \<Rightarrow> usb_console \<Rightarrow> nat \<Rightarrow> u32 \<Rightarrow> usb_ram \<Rightarrow> usb_ram" where
  "stream_ram lay con cur len r = r\<lparr>
     g_usb_stream_buf := stream_copy con cur 0 (unat len) (g_usb_stream_buf r),
     g_usb_stream_td := (g_usb_stream_td r)(0 := TD_TERMINATE, 1 := push_bit TD_TOTAL_SHIFT (len AND 0x7fff) OR TD_ACTIVE OR TD_IOC,
       2 := lay Obj_Stream_Buf),
     g_usb_qh := (g_usb_qh r)(17 := (g_usb_qh r 17)(0 := QH_ZLT OR QH_MAX_PKT EP_IN_MAXPKT, 2 := lay Obj_Stream_Td AND NOT 0x1f, 3 := 0))\<rparr>"

definition stream_seen :: "usb_ram \<Rightarrow> usb_ram \<Rightarrow> usb_ram" where
  "stream_seen r c = ram_copy (Obj_Qh 17) r (ram_copy Obj_Stream_Buf r (ram_copy Obj_Stream_Td r c))"

lemma stream_td_three:
  "usb_stream_td TD_OFF_PAGE0 v2 (usb_stream_td TD_OFF_TOKEN v1 (usb_stream_td TD_OFF_NEXT v0 s)) =
   s\<lparr>us_ram := (us_ram s)\<lparr>g_usb_stream_td := (g_usb_stream_td (us_ram s))(0 := v0, 1 := v1, 2 := v2)\<rparr>\<rparr>"
  by (simp add: usb_stream_td_def usb_offs)

lemma stream_prime_parts:
  assumes "len \<le> STREAM_CHUNK"
  shows "usb_stream_prime (core_world lay) lay con len t s =
    (let r = stream_ram lay con (unat (stream_cursor t)) len (us_ram s) in
     (t\<lparr>stream_last := len, stream_active := 1, stream_state := USB_STREAM_ST_STREAM\<rparr>,
      usb_enum_write32 (core_world lay) STAGE90_USB_ENDPTPRIME (push_bit 17 1)
       (s\<lparr>us_ram := r, us_dev := (us_dev s)\<lparr>c_ram := stream_seen r (c_ram (us_dev s))\<rparr>\<rparr>)))"
proof -
  have e: "EPBIT EP_IN True = push_bit 17 1" by (simp add: EPBIT_def EP_IN_def)
  have f: "ram_copy Obj_Stream_Td (r\<lparr>g_usb_qh := x\<rparr>) c = ram_copy Obj_Stream_Td r c" for r x c by (simp add: ram_copy_def)
  have g: "\<not> len > STREAM_CHUNK" using assms by simp
  show ?thesis
    using g by (simp add: usb_stream_prime_def Let_def e stream_td_three qh_three core_ops(3) stream_ram_def stream_seen_def QH_IN1_def f usb_bufs_def
      del: push_bit_of_1)
qed

lemma stream_prime_effect:
  fixes con :: usb_console and t :: usb_stream
  assumes lay: "layout_ok lay" and len: "len \<le> STREAM_CHUNK" and el: "c_eplist (us_dev s) = lay (Obj_Qh 0)"
    and buf: "length (g_usb_stream_buf (us_ram s)) = 4096"
  defines "r \<equiv> usb_stream_prime (core_world lay) lay con len t s"
  shows "fst r = t\<lparr>stream_last := len, stream_active := 1, stream_state := USB_STREAM_ST_STREAM\<rparr>"
    and "core_regs (us_dev (snd r)) = core_regs (us_dev s)" and "enum_vars (snd r) = enum_vars s"
    and "c_primed (us_dev (snd r)) = (c_primed (us_dev s))(17 := Some (Obj_Stream_Td, len, lay Obj_Stream_Buf))"
    and "take (unat len) (g_usb_stream_buf (c_ram (us_dev (snd r)))) = console_bytes con (unat (stream_cursor t)) (unat len)"
    and "length (g_usb_stream_buf (us_ram (snd r))) = 4096"
proof -
  define q where "q = stream_ram lay con (unat (stream_cursor t)) len (us_ram s)"
  define c where "c = (us_dev s)\<lparr>c_ram := stream_seen q (c_ram (us_dev s))\<rparr>"
  have r: "r = (t\<lparr>stream_last := len, stream_active := 1, stream_state := USB_STREAM_ST_STREAM\<rparr>,
      s\<lparr>us_ram := q, us_dev := c\<lparr>c_primed := (c_primed c)(17 := core_fetch lay c 17)\<rparr>\<rparr>)"
    unfolding r_def stream_prime_parts [OF len] Let_def core_ops(2)
    by (simp add: core_prime q_def [symmetric] c_def del: push_bit_of_1)
  have l: "len \<le> 0x7fff" "unat len \<le> 4096" using len by (simp_all add: STREAM_CHUNK_def word_le_nat_alt)
  have o: "Obj_Stream_Td \<in> set usb_tds" by (simp add: usb_tds_def)
  have w: "td_words (c_ram c) Obj_Stream_Td = g_usb_stream_td q" by (simp add: c_def stream_seen_def ram_copy_def td_words_def)
  have td: "g_usb_stream_td q 1 = push_bit TD_TOTAL_SHIFT (len AND 0x7fff) OR TD_ACTIVE OR TD_IOC" "g_usb_stream_td q 2 = lay Obj_Stream_Buf"
    by (simp_all add: q_def stream_ram_def)
  have "g_usb_qh q 17 2 = lay Obj_Stream_Td" using layout_aligned [OF lay o] by (simp add: q_def stream_ram_def)
  then have qh: "obj_at lay usb_tds (g_usb_qh (c_ram c) 17 2) = Some Obj_Stream_Td"
    by (simp add: c_def stream_seen_def ram_copy_def obj_at_ok(1) [OF lay o])
  have f: "core_fetch lay c 17 = Some (Obj_Stream_Td, len, lay Obj_Stream_Buf)"
    using fetch_some [of c lay 17 Obj_Stream_Td, OF _ qh, unfolded w td token_fields(2) [OF l(1)]] token_fields(1) [OF l(1)] el
    by (simp add: c_def)
  show "fst r = t\<lparr>stream_last := len, stream_active := 1, stream_state := USB_STREAM_ST_STREAM\<rparr>" unfolding r by simp
  show "core_regs (us_dev (snd r)) = core_regs (us_dev s)" "enum_vars (snd r) = enum_vars s" unfolding r by (simp_all add: c_def core_regs_def enum_vars_def)
  show "c_primed (us_dev (snd r)) = (c_primed (us_dev s))(17 := Some (Obj_Stream_Td, len, lay Obj_Stream_Buf))" unfolding r f by (simp add: c_def)
  have b: "g_usb_stream_buf (c_ram c) = stream_copy con (unat (stream_cursor t)) 0 (unat len) (g_usb_stream_buf (us_ram s))"
    by (simp add: c_def stream_seen_def ram_copy_def q_def stream_ram_def)
  show "take (unat len) (g_usb_stream_buf (c_ram (us_dev (snd r)))) = console_bytes con (unat (stream_cursor t)) (unat len)"
    unfolding r using stream_copy_bytes [of 0 "unat len" "g_usb_stream_buf (us_ram s)" con "unat (stream_cursor t)"] l buf by (simp add: b)
  show "length (g_usb_stream_buf (us_ram (snd r))) = 4096" unfolding r by (simp add: q_def stream_ram_def buf)
qed


subsection \<open>The transcript\<close>

definition in1_idle :: "usb_core usb_state \<Rightarrow> bool" where
  "in1_idle s \<longleftrightarrow> c_primed (us_dev s) 17 = None \<and> \<not> bit (c_complete (us_dev s)) 17"

definition in1_offered :: "usb_layout \<Rightarrow> usb_console \<Rightarrow> usb_stream \<Rightarrow> usb_core usb_state \<Rightarrow> bool" where
  "in1_offered lay con t s \<longleftrightarrow> c_primed (us_dev s) 17 = Some (Obj_Stream_Td, stream_last t, lay Obj_Stream_Buf)
     \<and> \<not> bit (c_complete (us_dev s)) 17
     \<and> take (unat (stream_last t)) (g_usb_stream_buf (c_ram (us_dev s))) = console_bytes con (unat (stream_cursor t)) (unat (stream_last t))"

definition in1_taken :: "usb_stream \<Rightarrow> nat \<Rightarrow> usb_core usb_state \<Rightarrow> bool" where
  "in1_taken t m s \<longleftrightarrow> c_primed (us_dev s) 17 = None \<and> bit (c_complete (us_dev s)) 17 \<and> m \<le> unat (stream_last t)
     \<and> g_usb_stream_td (c_ram (us_dev s)) 1 = push_bit 16 (stream_last t - word_of_nat m) OR TD_IOC"

text \<open>What the host has received is the console up to the cursor, plus what it took of the chunk on its way.\<close>

definition stream_inv :: "usb_layout \<Rightarrow> usb_console \<Rightarrow> usb_stream \<Rightarrow> usb_core usb_state \<Rightarrow> bytes \<Rightarrow> bool" where
  "stream_inv lay con t s got \<longleftrightarrow> others_apart s \<and> enum_done s \<noteq> 0 \<and> c_eplist (us_dev s) = lay (Obj_Qh 0)
     \<and> length (g_usb_stream_buf (us_ram s)) = 4096 \<and> stream_cursor t \<le> usb_stream_size con
     \<and> (if stream_active t = 0 then in1_idle s \<and> got = console_bytes con 0 (unat (stream_cursor t))
        else stream_last t \<le> STREAM_CHUNK \<and> stream_last t \<le> usb_stream_size con - stream_cursor t
          \<and> (in1_offered lay con t s \<and> got = console_bytes con 0 (unat (stream_cursor t))
             \<or> (\<exists>m. in1_taken t m s \<and> got = console_bytes con 0 (unat (stream_cursor t) + m))))"

text \<open>The console only grows: what it held stays.\<close>

definition con_grows :: "usb_console \<Rightarrow> usb_console \<Rightarrow> bool" where
  "con_grows con con' \<longleftrightarrow> usb_stream_size con \<le> usb_stream_size con' \<and> (\<forall>i < unat (usb_stream_size con). con_data con' i = con_data con i)"

lemma grows_bytes: "con_grows con con' \<Longrightarrow> a + n \<le> unat (usb_stream_size con) \<Longrightarrow> console_bytes con' a n = console_bytes con a n"
  by (auto simp: con_grows_def console_bytes_def)

lemma sub_le: "(c :: u32) \<le> z \<Longrightarrow> l \<le> z - c \<Longrightarrow> unat c + unat l \<le> unat z"
  by (simp add: word_le_nat_alt unat_sub word_le_nat_alt)

lemma inv_append:
  assumes i: "stream_inv lay con t s got" and g: "con_grows con con'"
  shows "stream_inv lay con' t s got"
proof -
  have z: "usb_stream_size con \<le> usb_stream_size con'" using g by (simp add: con_grows_def)
  have c: "stream_cursor t \<le> usb_stream_size con" using i by (simp add: stream_inv_def)
  then have cz: "stream_cursor t \<le> usb_stream_size con'" using z by simp
  have c': "unat (stream_cursor t) \<le> unat (usb_stream_size con)" using c by (simp add: word_le_nat_alt)
  have b0: "console_bytes con' 0 (unat (stream_cursor t)) = console_bytes con 0 (unat (stream_cursor t))"
    by (rule grows_bytes [OF g]) (use c' in simp)
  show ?thesis
  proof (cases "stream_active t = 0")
    case True
    then show ?thesis using i b0 cz by (simp add: stream_inv_def)
  next
    case False
    then have l: "stream_last t \<le> usb_stream_size con - stream_cursor t" using i by (simp add: stream_inv_def)
    note s = sub_le [OF c l]
    have l': "stream_last t \<le> usb_stream_size con' - stream_cursor t"
      using s z cz by (simp add: word_le_nat_alt unat_sub)
    have b1: "console_bytes con' (unat (stream_cursor t)) (unat (stream_last t)) = console_bytes con (unat (stream_cursor t)) (unat (stream_last t))"
      by (rule grows_bytes [OF g s])
    have b2: "console_bytes con' 0 (unat (stream_cursor t) + m) = console_bytes con 0 (unat (stream_cursor t) + m)"
      if "m \<le> unat (stream_last t)" for m by (rule grows_bytes [OF g]) (use s that in simp)
    show ?thesis using i False b0 b1 l' cz by (auto simp: stream_inv_def in1_offered_def in1_taken_def b2)
  qed
qed

lemma inv_keeps:
  assumes "stream_inv lay con t s got" and "stream_keeps s s'"
  shows "stream_inv lay con t s' got"
proof -
  have p: "stream_part s' = stream_part s" and o: "others_apart s \<longrightarrow> others_apart s'" using assms(2) by (simp_all add: stream_keeps_def)
  have "in1_idle s' = in1_idle s" "in1_offered lay con t s' = in1_offered lay con t s" "in1_taken t m s' = in1_taken t m s" for m
    using p by (simp_all add: stream_part_def in1_idle_def in1_offered_def in1_taken_def)
  then show ?thesis using assms(1) p o by (simp add: stream_inv_def stream_part_def)
qed

lemma inv_state: "stream_inv lay con (t\<lparr>stream_state := v\<rparr>) s got = stream_inv lay con t s got"
  by (simp add: stream_inv_def in1_offered_def in1_taken_def)

lemma inv_prime:
  assumes lay: "layout_ok lay" and i: "stream_inv lay con t s got" and a: "stream_active t = 0"
  shows "(case usb_stream_prime (core_world lay) lay con (usb_stream_available con t) t s of (t', s') \<Rightarrow> stream_inv lay con t' s' got)"
proof -
  define len where "len = (if usb_stream_available con t > STREAM_CHUNK then STREAM_CHUNK else usb_stream_available con t)"
  have p: "usb_stream_prime (core_world lay) lay con (usb_stream_available con t) t s = usb_stream_prime (core_world lay) lay con len t s"
    unfolding usb_stream_prime_def Let_def len_def by simp
  have l: "len \<le> STREAM_CHUNK" "len \<le> usb_stream_available con t" unfolding len_def by auto
  have av: "usb_stream_available con t = usb_stream_size con - stream_cursor t"
    using i by (auto simp: usb_stream_available_def stream_inv_def)
  have f: "c_eplist (us_dev s) = lay (Obj_Qh 0)" "length (g_usb_stream_buf (us_ram s)) = 4096" using i by (simp_all add: stream_inv_def)
  obtain t' s' where r: "usb_stream_prime (core_world lay) lay con len t s = (t', s')" by fastforce
  note e = stream_prime_effect [OF lay l(1) f, of con t, unfolded r fst_conv snd_conv]
  have "others_apart s'" using e(2,4) i by (auto simp: others_apart_def stream_inv_def vars_dest)
  then show ?thesis
    using e i a l unfolding p r by (simp add: stream_inv_def in1_idle_def in1_offered_def vars_dest av)
qed


text \<open>The host takes some of the chunk on its way.\<close>

lemma inv_move:
  assumes lay: "layout_ok lay" and i: "stream_inv lay con t s got"
  shows "(case host_does (core_host lay) (Host_Move 17 n) s of (bs, s') \<Rightarrow> stream_inv lay con t s' (got @ bs))"
proof (cases "c_primed (us_dev s) 17")
  case None
  then show ?thesis using i by (simp add: host_does_def core_host_def core_move_def)
next
  case (Some x)
  then have a: "stream_active t \<noteq> 0" and o: "in1_offered lay con t s" and g: "got = console_bytes con 0 (unat (stream_cursor t))"
    using i by (auto simp: stream_inv_def in1_idle_def in1_taken_def split: if_splits)
  define m where "m = min n (unat (stream_last t))"
  have p: "c_primed (us_dev s) 17 = Some (Obj_Stream_Td, stream_last t, lay Obj_Stream_Buf)" using o by (simp add: in1_offered_def)
  have b: "obj_at lay usb_bufs (lay Obj_Stream_Buf) = Some Obj_Stream_Buf" by (rule obj_at_ok(2) [OF lay]) (simp add: usb_bufs_def)
  obtain bs s' where h: "host_does (core_host lay) (Host_Move 17 n) s = (bs, s')" by fastforce
  have bs: "bs = take m (g_usb_stream_buf (c_ram (us_dev s)))"
    and s': "s' = s\<lparr>us_dev := (us_dev s)\<lparr>c_ram := td_put Obj_Stream_Td 1 (push_bit 16 (stream_last t - word_of_nat m) OR TD_IOC) (c_ram (us_dev s)),
      c_primed := (c_primed (us_dev s))(17 := None), c_complete := c_complete (us_dev s) OR push_bit 17 1, c_sts := c_sts (us_dev s) OR STS_UI\<rparr>\<rparr>"
    using h by (simp_all add: host_does_def core_host_def core_move_def p b Let_def obj_bytes_def m_def [symmetric])
  have k: "in1_taken t m s'" unfolding s' by (simp add: in1_taken_def td_put_def m_def bit_or_iff one_bit del: push_bit_of_1)
  have "m \<le> unat (stream_last t)" by (simp add: m_def)
  moreover have "take (unat (stream_last t)) (g_usb_stream_buf (c_ram (us_dev s))) = console_bytes con (unat (stream_cursor t)) (unat (stream_last t))"
    using o by (simp add: in1_offered_def)
  ultimately have "bs = take m (console_bytes con (unat (stream_cursor t)) (unat (stream_last t)))" unfolding bs by (metis min.absorb1 take_take)
  then have "bs = console_bytes con (unat (stream_cursor t)) m" using \<open>m \<le> unat (stream_last t)\<close>
    by (simp add: console_bytes_def take_map)
  then have "got @ bs = console_bytes con 0 (unat (stream_cursor t) + m)" using g by (simp add: console_bytes_add)
  moreover have "others_apart s'" using i unfolding s' by (simp add: stream_inv_def others_apart_def bit_or_iff STS_UI_def)
  ultimately show ?thesis using i k a unfolding h prod.case by (auto simp: stream_inv_def s')
qed

lemma taken_token:
  assumes "l \<le> STREAM_CHUNK" and "m \<le> unat l" and "tok = push_bit 16 (l - word_of_nat m) OR TD_IOC"
  shows "tok AND TD_ACTIVE = (0 :: u32)"
    and "(let remaining = drop_bit TD_TOTAL_SHIFT (tok AND TD_TOTAL_MASK) in if l > remaining then l - remaining else 0) = word_of_nat m"
proof -
  let ?r = "l - word_of_nat m :: u32"
  have um: "unat (word_of_nat m :: u32) = m" using le_less_trans [OF assms(2) unat_lt_u32] by (simp add: unat_of_nat)
  then have le: "word_of_nat m \<le> l" using assms(2) by (simp add: word_le_nat_alt)
  have ur: "unat ?r = unat l - m" using le um by (simp add: unat_sub)
  have "?r AND mask 15 = ?r" using assms(1) ur by (intro less_mask_eq) (simp add: word_less_nat_alt word_le_nat_alt STREAM_CHUNK_def)
  moreover have "drop_bit 16 (tok AND TD_TOTAL_MASK) = ?r AND mask 15"
    unfolding assms(3) td_bits by (rule bit_word_eqI) (auto simp: bit_simps simp del: push_bit_of_1)
  ultimately have r: "drop_bit TD_TOTAL_SHIFT (tok AND TD_TOTAL_MASK) = ?r" by (simp only: TD_TOTAL_SHIFT_def)
  show "tok AND TD_ACTIVE = 0"
    unfolding assms(3) td_bits by (rule bit_word_eqI) (auto simp: bit_simps simp del: push_bit_of_1)
  have "?r < l \<longleftrightarrow> m \<noteq> 0" using ur assms(2) by (simp add: word_less_nat_alt) arith
  then show "(let remaining = drop_bit TD_TOTAL_SHIFT (tok AND TD_TOTAL_MASK) in if l > remaining then l - remaining else 0) = word_of_nat m"
    unfolding r Let_def by simp
qed


lemma inv_complete:
  assumes lay: "layout_ok lay" and i: "stream_inv lay con t s got" and a: "stream_active t \<noteq> 0" and b: "bit (c_complete (us_dev s)) 17"
  shows "(case usb_stream_complete (core_world lay) lay con t s of (t', s') \<Rightarrow> stream_inv lay con t' s' got)"
proof -
  obtain m where k: "in1_taken t m s" and g: "got = console_bytes con 0 (unat (stream_cursor t) + m)"
    using i a b by (auto simp: stream_inv_def in1_offered_def)
  have l: "stream_last t \<le> STREAM_CHUNK" "m \<le> unat (stream_last t)" "stream_cursor t \<le> usb_stream_size con"
    "stream_last t \<le> usb_stream_size con - stream_cursor t"
    using i a k by (simp_all add: stream_inv_def in1_taken_def)
  define s1 where "s1 = s\<lparr>us_ram := (us_ram s)\<lparr>g_usb_stream_td := g_usb_stream_td (c_ram (us_dev s))\<rparr>\<rparr>"
  have f: "usb_flush (core_world lay) Obj_Stream_Td s = s1" by (simp add: core_ops ram_copy_def s1_def)
  let ?tok = "g_usb_stream_td (us_ram s1) (TD_OFF_TOKEN div 4)"
  have "?tok = push_bit 16 (stream_last t - word_of_nat m) OR TD_IOC"
    using k by (simp add: s1_def in1_taken_def TD_OFF_TOKEN_def)
  note tok = taken_token [OF l(1,2) this]
  define t1 where "t1 = t\<lparr>stream_actual := word_of_nat m, stream_cursor := stream_cursor t + word_of_nat m,
    stream_chunks := stream_chunks t + 1, stream_active := 0\<rparr>"
  define s2 where "s2 = s1\<lparr>us_dev := (us_dev s1)\<lparr>c_complete := c_complete (us_dev s1) AND NOT (push_bit 17 1)\<rparr>\<rparr>"
  have w: "usb_enum_write32 (core_world lay) STAGE90_USB_ENDPTCOMPLETE (EPBIT EP_IN True) s1 = s2"
    by (simp add: core_ops core_write_def reg_offsets s2_def EPBIT_def)
  have c: "usb_stream_complete (core_world lay) lay con t s = (if usb_stream_available con t1 = 0
      then (t1\<lparr>stream_state := USB_STREAM_ST_DRAINED\<rparr>, s2) else usb_stream_prime (core_world lay) lay con (usb_stream_available con t1) t1 s2)"
    using tok(2) unfolding usb_stream_complete_def f Let_def tok(1) w t1_def by simp
  have le: "unat (stream_cursor t) + unat (stream_last t) \<le> unat (usb_stream_size con)" by (rule sub_le [OF l(3,4)])
  have um: "unat (word_of_nat m :: u32) = m" using le_less_trans [OF l(2) unat_lt_u32] by (simp add: unat_of_nat)
  have "unat (stream_cursor t) + m \<le> unat (usb_stream_size con)" using le l(2) by simp
  then have "unat (stream_cursor t) + m < 2 ^ 32" using le_less_trans [OF _ unat_lt_u32] by simp
  then have cur: "unat (stream_cursor t1) = unat (stream_cursor t) + m" using um by (simp add: t1_def unat_plus_u32_small)
  have "stream_inv lay con t1 s2 got"
    using i k g cur le l(2)
    by (simp add: stream_inv_def in1_idle_def in1_taken_def others_apart_def s2_def s1_def bit_and_iff bit_not_iff one_bit t1_def [symmetric] word_le_nat_alt
        del: push_bit_of_1) (simp add: t1_def)
  moreover have "stream_active t1 = 0" by (simp add: t1_def)
  ultimately show ?thesis using inv_prime [OF lay, of con t1 s2 got] by (simp add: c inv_state)
qed

lemma inv_poll:
  assumes lay: "layout_ok lay" and i: "stream_inv lay con t s got"
  shows "(case entry_usb_stream_poll (core_world lay) lay con (t, s) of (t', s') \<Rightarrow> stream_inv lay con t' s' got)"
proof -
  have C: "usb_enum_read32 (core_world lay) off t = (core_read off (us_dev t), t)" for off t by (simp add: core_ops)
  have R: "core_read STAGE90_USB_ENDPTCOMPLETE c = c_complete c" for c by (simp add: core_read_def reg_offsets)
  show ?thesis
    using i inv_complete [OF lay i] inv_prime [OF lay i]
    by (simp add: entry_usb_stream_poll_def C R Let_def flag_bits inv_state)
qed

end
