(* ===== verification/Usb_Transcript.thy ===== *)
theory Usb_Transcript
  imports Usb_Chunk
begin

text \<open>
  Whole boots with the stream built in (\<open>stream_run\<close>), over any world that simulates the controller:
  what arrives is a prefix of the console (\<open>usb_stream_transcript\<close>), and a bus reset with a chunk on
  its way is the end of the stream (\<open>usb_stream_ends_at_reset\<close>).
\<close>

unbundle bit_operations_syntax

subsection \<open>Over any world\<close>

lemma view_stream_prime:
  assumes "usb_sim lay k env al"
  shows "map_prod id (usb_view al) (usb_stream_prime k lay con len t s) = usb_stream_prime (core_world lay) lay con len t (usb_view al s)"
  by (simp add: usb_stream_prime_def Let_def sim_writes [OF assms] sim_cache [OF assms])

lemma view_stream_complete:
  assumes "usb_sim lay k env al"
  shows "map_prod id (usb_view al) (usb_stream_complete k lay con t s) = usb_stream_complete (core_world lay) lay con t (usb_view al s)"
proof -
  define s1 where "s1 = usb_flush k Obj_Stream_Td s"
  have v: "usb_flush (core_world lay) Obj_Stream_Td (usb_view al s) = usb_view al s1" unfolding s1_def by (rule sim_cache(2) [OF assms, symmetric])
  have r: "us_ram s1 = us_ram (usb_view al s1)" by simp
  show ?thesis
    unfolding usb_stream_complete_def s1_def [symmetric] v Let_def r
    by (simp add: view_stream_prime [OF assms] sim_writes [OF assms])
qed

lemma view_stream_poll:
  assumes sim: "usb_sim lay k env al"
  shows "map_prod id (usb_view al) (entry_usb_stream_poll k lay con (t, s)) = entry_usb_stream_poll (core_world lay) lay con (t, usb_view al s)"
proof -
  have R: "STAGE90_USB_USBMODE \<in> set usb_readable" "STAGE90_USB_ENDPTCTRL EP_IN \<in> set usb_readable" "STAGE90_USB_ENDPTCOMPLETE \<in> set usb_readable"
    by (simp_all add: usb_readable_def)
  have C: "usb_enum_read32 (core_world lay) off t = (core_read off (us_dev t), t)" for off t by (simp add: core_ops)
  obtain s1 where s1: "usb_enum_read32 k STAGE90_USB_USBMODE s = (core_read STAGE90_USB_USBMODE (us_dev (usb_view al s)), s1)"
    "usb_view al s1 = usb_view al s" by (rule sim_reads [OF sim R(1)])
  obtain s2 where s2: "usb_enum_read32 k (STAGE90_USB_ENDPTCTRL EP_IN) s1 = (core_read (STAGE90_USB_ENDPTCTRL EP_IN) (us_dev (usb_view al s1)), s2)"
    "usb_view al s2 = usb_view al s1" by (rule sim_reads [OF sim R(2)])
  obtain s3 where s3: "usb_enum_read32 k STAGE90_USB_ENDPTCOMPLETE s2 = (core_read STAGE90_USB_ENDPTCOMPLETE (us_dev (usb_view al s2)), s3)"
    "usb_view al s3 = usb_view al s2" by (rule sim_reads [OF sim R(3)])
  show ?thesis
    unfolding entry_usb_stream_poll_def C s1(1) case_prod_conv Let_def s2(1) s3(1) s2(2) s1(2)
    by (simp add: view_stream_prime [OF sim] view_stream_complete [OF sim] s1(2) s2(2) s3(2) del: view_fields)
qed

text \<open>A boot with the stream in: the console grows, the two polls run, the host does what \<open>ok\<close> lets it;
  what the host has received on the IN endpoint is kept.\<close>

type_synonym 'd usb_boot = "usb_console \<times> usb_stream \<times> 'd usb_state \<times> bytes"

definition in1_bytes :: "usb_host \<Rightarrow> bytes \<Rightarrow> bytes" where
  "in1_bytes h bs = (case h of Host_Move b n \<Rightarrow> if b = 17 then bs else [] | _ \<Rightarrow> [])"

inductive stream_run ::
    "usb_cfg \<Rightarrow> 'd usb_world \<Rightarrow> usb_layout \<Rightarrow> (usb_host \<Rightarrow> 'd \<Rightarrow> bytes \<times> 'd) \<Rightarrow> (usb_host \<Rightarrow> bool) \<Rightarrow> nat \<Rightarrow> 'd usb_boot \<Rightarrow> 'd usb_boot \<Rightarrow> bool"
  for cf k lay env ok n g0 where
  run_start: "stream_run cf k lay env ok n g0 g0"
| run_append: "stream_run cf k lay env ok n g0 (con, t, s, got) \<Longrightarrow> con_grows con con' \<Longrightarrow> stream_run cf k lay env ok n g0 (con', t, s, got)"
| run_stream: "stream_run cf k lay env ok n g0 (con, t, s, got) \<Longrightarrow> entry_usb_stream_poll k lay con (t, s) = (t', s')
    \<Longrightarrow> stream_run cf k lay env ok n g0 (con, t', s', got)"
| run_enum: "stream_run cf k lay env ok n g0 (con, t, s, got) \<Longrightarrow> entry_usb_enum_poll cf k lay n s = Some s'
    \<Longrightarrow> stream_run cf k lay env ok n g0 (con, t, s', got)"
| run_host: "stream_run cf k lay env ok n g0 (con, t, s, got) \<Longrightarrow> ok h \<Longrightarrow> host_does env h s = (bs, s')
    \<Longrightarrow> stream_run cf k lay env ok n g0 (con, t, s', got @ in1_bytes h bs)"

definition stream_start :: "usb_layout \<Rightarrow> usb_stream \<Rightarrow> usb_core usb_state \<Rightarrow> bool" where
  "stream_start lay t s \<longleftrightarrow> stream_active t = 0 \<and> stream_cursor t = 0 \<and> in1_idle s \<and> others_apart s \<and> enum_done s \<noteq> 0
     \<and> c_eplist (us_dev s) = lay (Obj_Qh 0) \<and> length (g_usb_stream_buf (us_ram s)) = 4096"

lemma start_inv: "stream_start lay t s \<Longrightarrow> stream_inv lay con t s []"
  by (simp add: stream_start_def stream_inv_def console_bytes_def)

lemma run_inv:
  assumes sim: "usb_sim lay k env al" and lay: "layout_ok lay" and st: "en_stream cf"
    and run: "stream_run cf k lay env (\<lambda>h. h \<noteq> Host_Reset) n (con0, t0, s0, []) (con, t, s, got)" and start: "stream_start lay t0 (usb_view al s0)"
  shows "stream_inv lay con t (usb_view al s) got"
  using run
proof (induction "(con, t, s, got)" arbitrary: con t s got)
  case run_start
  show ?case by (rule start_inv [OF start])
next
  case (run_append con t s got con')
  then show ?case by (blast intro: inv_append)
next
  case (run_stream con t s got t' s')
  have "entry_usb_stream_poll (core_world lay) lay con (t, usb_view al s) = (t', usb_view al s')"
    using view_stream_poll [OF sim, of con t s] run_stream by simp
  then show ?case using inv_poll [OF lay, of con t "usb_view al s" got] run_stream by simp
next
  case (run_enum con t s got s')
  have p: "entry_usb_enum_poll cf (core_world lay) lay n (usb_view al s) = Some (usb_view al s')"
    using view_poll [OF sim, of cf n s] run_enum by simp
  have "stream_keeps (usb_view al s) (usb_view al s')"
    by (rule keeps_enum_poll [OF lay _ st _ _ p]) (use run_enum in \<open>simp_all add: stream_inv_def\<close>)
  then show ?case using inv_keeps run_enum by blast
next
  case (run_host con t s got h bs s')
  have h: "host_does (core_host lay) h (usb_view al s) = (bs, usb_view al s')"
    using sim_host [OF sim, of h s] run_host by simp
  show ?case
  proof (cases "\<exists>m. h = Host_Move 17 m")
    case True
    then obtain m where m: "h = Host_Move 17 m" ..
    show ?thesis using inv_move [OF lay run_host(2), of m] h by (simp add: m in1_bytes_def)
  next
    case False
    then have "in1_bytes h bs = []" by (auto simp: in1_bytes_def split: usb_host.split)
    moreover have "stream_keeps (usb_view al s) (usb_view al s')"
      using keeps_host [of h "usb_view al s" lay] False run_host h by (auto simp: stream_inv_def)
    ultimately show ?thesis using inv_keeps run_host by simp
  qed
qed

text \<open>C6. The host reads the console: whatever the polls, the host and the writers do in whatever order,
  what has arrived is a prefix of the console, no byte lost, repeated or out of place.\<close>

theorem usb_stream_transcript:
  assumes "usb_sim lay k env al" and "layout_ok lay" and "en_stream cf" and "stream_start lay t0 (usb_view al s0)"
    and "stream_run cf k lay env (\<lambda>h. h \<noteq> Host_Reset) n (con0, t0, s0, []) (con, t, s, got)"
  shows "got = map (con_data con) [0..<length got] \<and> unat (stream_cursor t) \<le> length got \<and> length got \<le> unat (usb_stream_size con)"
proof -
  have i: "stream_inv lay con t (usb_view al s) got" by (rule run_inv [OF assms(1-3,5,4)])
  have le: "unat (stream_cursor t) \<le> unat (usb_stream_size con)" using i by (simp add: stream_inv_def word_le_nat_alt)
  have "stream_active t \<noteq> 0 \<Longrightarrow> unat (stream_cursor t) + unat (stream_last t) \<le> unat (usb_stream_size con)"
    using i by (intro sub_le) (simp_all add: stream_inv_def)
  then have "\<exists>m. got = console_bytes con 0 (unat (stream_cursor t) + m) \<and> unat (stream_cursor t) + m \<le> unat (usb_stream_size con)"
    using i le unfolding stream_inv_def in1_taken_def
    by (cases "stream_active t = 0") (force intro: exI [of _ 0] order.trans)+
  then show ?thesis by (auto simp: console_bytes_def)
qed


text \<open>The console holds \<open>abc\<close>; the stream offers it, the host takes two bytes.\<close>

definition ref_console :: usb_console where
  "ref_console = \<lparr>con_size = 3, con_data = (\<lambda>i. if i = 0 then 97 else if i = 1 then 98 else 99)\<rparr>"

definition ref_stream :: usb_stream where
  "ref_stream = \<lparr>stream_cursor = 0, stream_last = 0, stream_active = 0, stream_chunks = 0, stream_actual = 0, stream_state = USB_STREAM_ST_IDLE\<rparr>"

definition ref_configured :: "usb_core usb_state" where
  "ref_configured = ref_start\<lparr>enum_done := 1, us_dev := (us_dev ref_start)\<lparr>c_eplist := ref_layout (Obj_Qh 0), c_intr := INTR_VALUE, c_ctrl1 := ENDPTCTRL1_VALUE\<rparr>\<rparr>"

theorem usb_stream_transcript_witness:
  "\<exists>t s. stream_run \<lparr>en_stream = True, en_force = False\<rparr> (core_world ref_layout) ref_layout (core_host ref_layout) (\<lambda>h. h \<noteq> Host_Reset) 1
      (ref_console, ref_stream, ref_configured, []) (ref_console, t, s, [97, 98])
    \<and> [97, 98] = map (con_data ref_console) [0..<length [97, 98 :: u8]] \<and> unat (stream_cursor t) \<le> 2"
proof -
  let ?k = "core_world ref_layout" and ?e = "core_host ref_layout" and ?cf = "\<lparr>en_stream = True, en_force = False\<rparr>"
  have C: "usb_enum_read32 ?k off t = (core_read off (us_dev t), t)" for off t by (simp add: core_ops)
  have f: "c_eplist (us_dev ref_configured) = ref_layout (Obj_Qh 0)" "length (g_usb_stream_buf (us_ram ref_configured)) = 4096"
    "c_mode (us_dev ref_configured) = 2" "c_ctrl1 (us_dev ref_configured) = ENDPTCTRL1_VALUE"
    by (simp_all add: ref_configured_def ref_start_def ref_ram_def)
  have start: "stream_start ref_layout ref_stream (usb_view id ref_configured)"
    by (simp add: stream_start_def ref_stream_def ref_configured_def ref_start_def ref_ram_def in1_idle_def others_apart_def)
  have av: "usb_stream_available ref_console ref_stream = 3"
    by (simp add: usb_stream_available_def usb_stream_size_def ref_console_def ref_stream_def STREAM_SIZE_MAX_def STREAM_OFF_DATA_def)
  obtain t1 s1 where p: "usb_stream_prime ?k ref_layout ref_console 3 ref_stream ref_configured = (t1, s1)" by fastforce
  have "entry_usb_stream_poll ?k ref_layout ref_console (ref_stream, ref_configured) = (t1, s1)"
    unfolding entry_usb_stream_poll_def C Let_def case_prod_conv av p [symmetric]
    by (simp add: core_read_def reg_offsets f[unfolded EP_IN_def] STAGE90_USB_USBMODE_CM_def STAGE90_USB_USBMODE_CM_DEVICE_def ENDPTCTRL1_VALUE_def
        STAGE90_USB_ENDPTCTRL_TXE_def STAGE90_USB_ENDPTCTRL_TXR_def ENDPTCTRL_TXT_BULK_def ref_stream_def USB_STREAM_ST_IDLE_def USB_STREAM_ST_DRAINED_def)
  then have r1: "stream_run ?cf ?k ref_layout ?e (\<lambda>h. h \<noteq> Host_Reset) 1 (ref_console, ref_stream, ref_configured, []) (ref_console, t1, s1, [])"
    by (intro run_stream [OF run_start])
  have l: "(3 :: u32) \<le> STREAM_CHUNK" by (simp add: STREAM_CHUNK_def)
  note e = stream_prime_effect [OF ref_layout_ok l f(1,2), of ref_console ref_stream, unfolded p fst_conv snd_conv]
  have b: "obj_at ref_layout usb_bufs (ref_layout Obj_Stream_Buf) = Some Obj_Stream_Buf"
    by (rule obj_at_ok(2) [OF ref_layout_ok]) (simp add: usb_bufs_def)
  obtain bs s2 where h: "host_does ?e (Host_Move 17 2) s1 = (bs, s2)" by fastforce
  have "take 3 (g_usb_stream_buf (c_ram (us_dev s1))) = [97, 98, 99]"
    using e(5) by (simp add: console_bytes_def ref_stream_def ref_console_def upt_rec)
  moreover have "take 2 (take 3 (g_usb_stream_buf (c_ram (us_dev s1)))) = take 2 (g_usb_stream_buf (c_ram (us_dev s1)))" by simp
  ultimately have "take 2 (g_usb_stream_buf (c_ram (us_dev s1))) = [97, 98]" by simp
  then have "bs = [97, 98]" using h by (simp add: host_does_def core_host_def core_move_def e(4) b obj_bytes_def Let_def
      del: ref_layout.simps)
  then have run: "stream_run ?cf ?k ref_layout ?e (\<lambda>h. h \<noteq> Host_Reset) 1 (ref_console, ref_stream, ref_configured, []) (ref_console, t1, s2, [97, 98])"
    using run_host [OF r1 _ h] by (simp add: in1_bytes_def)
  show ?thesis using run usb_stream_transcript [OF core_sim ref_layout_ok _ start run] by auto
qed


subsection \<open>A bus reset\<close>

definition stream_stuck :: "usb_layout \<Rightarrow> usb_stream \<Rightarrow> usb_core usb_state \<Rightarrow> bool" where
  "stream_stuck lay t s \<longleftrightarrow> stream_active t \<noteq> 0 \<and> in1_idle s \<and> enum_done s \<noteq> 0 \<and> c_eplist (us_dev s) = lay (Obj_Qh 0)"

lemma idle_keeps: "stream_keeps s s' \<Longrightarrow> in1_idle s' = in1_idle s \<and> enum_done s' = enum_done s \<and> c_eplist (us_dev s') = c_eplist (us_dev s)"
  by (simp add: stream_keeps_def stream_part_def in1_idle_def)

text \<open>The reset flushes the endpoint and clears its completion.\<close>

lemma reset_idle:
  "in1_idle (usb_enum_bus_reset (core_world lay) s)" "enum_done (usb_enum_bus_reset (core_world lay) s) = enum_done s"
  "c_eplist (us_dev (usb_enum_bus_reset (core_world lay) s)) = c_eplist (us_dev s)"
  by (simp_all add: usb_enum_bus_reset_def Let_def core_ops core_write_def reg_offsets in1_idle_def bit_and_iff)

lemma enum_poll_idle:
  assumes lay: "layout_ok lay" and st: "en_stream cf" and el: "c_eplist (us_dev s) = lay (Obj_Qh 0)" and d: "enum_done s \<noteq> 0"
    and i: "in1_idle s \<or> bit (c_sts (us_dev s) AND c_intr (us_dev s)) 6
      \<and> c_mode (us_dev s) AND STAGE90_USB_USBMODE_CM = STAGE90_USB_USBMODE_CM_DEVICE"
    and s': "entry_usb_enum_poll cf (core_world lay) lay n s = Some s'"
  shows "in1_idle s' \<and> enum_done s' \<noteq> 0 \<and> c_eplist (us_dev s') = lay (Obj_Qh 0)"
proof -
  have C: "usb_enum_read32 (core_world lay) off t = (core_read off (us_dev t), t)" for off t by (simp add: core_ops)
  have A: "usb_enum_arm (core_world lay) lay s = s" using d by (simp add: usb_enum_arm_def)
  have R: "core_read STAGE90_USB_USBSTS c = c_sts c" "core_read STAGE90_USB_USBINTR c = c_intr c" "core_read STAGE90_USB_USBMODE c = c_mode c" for c
    by (simp_all add: core_read_def reg_offsets)
  define intr where "intr = c_sts (us_dev s) AND c_intr (us_dev s)"
  define s5 where "s5 = (if bit intr 6 then usb_enum_bus_reset (core_world lay) s else s)"
  have e5: "enum_done s5 \<noteq> 0" "c_eplist (us_dev s5) = lay (Obj_Qh 0)" using d el by (simp_all add: s5_def reset_idle)
  show ?thesis
  proof (cases "c_mode (us_dev s) AND STAGE90_USB_USBMODE_CM \<noteq> STAGE90_USB_USBMODE_CM_DEVICE \<and> \<not> en_force cf")
    case True
    then have "s' = s" using s' by (simp add: entry_usb_enum_poll_def C R)
    then show ?thesis using True i d el by auto
  next
    case False
    have i5: "in1_idle s5" using i by (auto simp: s5_def reset_idle intr_def)
    obtain s6 where s6: "s6 = s5 \<or> usb_enum_ui cf (core_world lay) lay n s5 = Some s6"
      and w: "s' = usb_enum_write32 (core_world lay) STAGE90_USB_USBSTS intr s6"
      using s' False unfolding entry_usb_enum_poll_def C A R Let_def case_prod_conv flag_bits intr_def [symmetric] s5_def [symmetric]
      by (auto split: if_splits option.splits)
    have "stream_keeps s5 s6" using s6 keeps_ui [OF lay e5(2) st] by auto
    then have "stream_keeps s5 s'" unfolding w by (rule keeps_trans [OF _ keeps_write]) simp
    from idle_keeps [OF this] show ?thesis using i5 e5 by simp
  qed
qed

lemma host_idle:
  fixes lay :: usb_layout and h :: usb_host
  assumes "in1_idle s"
  defines "r \<equiv> host_does (core_host lay) h s"
  shows "in1_idle (snd r)" and "in1_bytes h (fst r) = []" and "enum_done (snd r) = enum_done s" and "c_eplist (us_dev (snd r)) = c_eplist (us_dev s)"
proof -
  have "in1_idle (snd r) \<and> in1_bytes h (fst r) = [] \<and> enum_done (snd r) = enum_done s \<and> c_eplist (us_dev (snd r)) = c_eplist (us_dev s)"
  proof (cases h)
    case (Host_Move b n)
    show ?thesis
    proof (cases "c_primed (us_dev s) b")
      case None
      then show ?thesis using assms(1) by (simp add: r_def host_does_def core_host_def core_move_def Host_Move in1_bytes_def)
    next
      case (Some x)
      then have "b \<noteq> 17" using assms(1) by (auto simp: in1_idle_def)
      then show ?thesis using assms(1) Some
        by (cases x) (simp add: r_def host_does_def core_host_def core_move_def Host_Move in1_bytes_def Let_def in1_idle_def bit_or_iff one_bit
            del: push_bit_of_1)
    qed
  qed (use assms(1) in \<open>simp_all add: r_def host_does_def core_host_def in1_bytes_def in1_idle_def\<close>)
  then show "in1_idle (snd r)" "in1_bytes h (fst r) = []" "enum_done (snd r) = enum_done s" "c_eplist (us_dev (snd r)) = c_eplist (us_dev s)"
    by simp_all
qed

lemma stuck_stream_poll:
  assumes "stream_stuck lay t s"
  shows "(case entry_usb_stream_poll (core_world lay) lay con (t, s) of (t', s') \<Rightarrow> s' = s \<and> stream_active t' = stream_active t \<and> stream_cursor t' = stream_cursor t)"
proof -
  have C: "usb_enum_read32 (core_world lay) off t = (core_read off (us_dev t), t)" for off t by (simp add: core_ops)
  have R: "core_read STAGE90_USB_ENDPTCOMPLETE c = c_complete c" for c by (simp add: core_read_def reg_offsets)
  show ?thesis using assms
    by (simp add: entry_usb_stream_poll_def C R Let_def flag_bits stream_stuck_def in1_idle_def)
qed

lemma run_stuck:
  assumes sim: "usb_sim lay k env al" and lay: "layout_ok lay" and st: "en_stream cf" and stuck: "stream_stuck lay t0 (usb_view al s0)"
    and run: "stream_run cf k lay env (\<lambda>_. True) n (con0, t0, s0, got0) (con, t, s, got)"
  shows "stream_stuck lay t (usb_view al s) \<and> got = got0 \<and> stream_cursor t = stream_cursor t0"
  using run
proof (induction "(con, t, s, got)" arbitrary: con t s got)
  case run_start
  then show ?case using stuck by simp
next
  case (run_append con t s got con')
  then show ?case by blast
next
  case (run_stream con t s got t' s')
  have "entry_usb_stream_poll (core_world lay) lay con (t, usb_view al s) = (t', usb_view al s')"
    using view_stream_poll [OF sim, of con t s] run_stream by simp
  then show ?case using stuck_stream_poll [of lay t "usb_view al s" con] run_stream(2) by (auto simp: stream_stuck_def)
next
  case (run_enum con t s got s')
  have p: "entry_usb_enum_poll cf (core_world lay) lay n (usb_view al s) = Some (usb_view al s')"
    using view_poll [OF sim, of cf n s] run_enum by simp
  show ?case using enum_poll_idle [OF lay st _ _ _ p] run_enum(2) by (auto simp: stream_stuck_def)
next
  case (run_host con t s got h bs s')
  have h: "host_does (core_host lay) h (usb_view al s) = (bs, usb_view al s')"
    using sim_host [OF sim, of h s] run_host by simp
  show ?case using host_idle [where lay = lay and h = h and s = "usb_view al s"] run_host(2) unfolding h by (simp add: stream_stuck_def)
qed

text \<open>C16. A bus reset with a chunk on its way takes the chunk off the endpoint and leaves the stream waiting
  for its completion: from then on, whatever the host does (a second reset, a new enumeration, reads),
  however much the console grows and however often both polls run, no byte arrives any more.\<close>

theorem usb_stream_ends_at_reset:
  assumes "usb_sim lay k env al" and "layout_ok lay" and "en_stream cf"
    and "usb_device_mode lay (usb_view al s)" and "enum_done s \<noteq> 0" and "stream_active t \<noteq> 0"
    and "entry_usb_enum_poll cf k lay n (snd (host_does env Host_Reset s)) = Some s0"
    and "stream_run cf k lay env (\<lambda>_. True) n (con, t, s0, got) (con', t', s', got')"
  shows "got' = got \<and> stream_cursor t' = stream_cursor t \<and> stream_active t' \<noteq> 0"
proof -
  obtain bs s1 where h: "host_does env Host_Reset s = (bs, s1)" by fastforce
  then have h1: "host_does (core_host lay) Host_Reset (usb_view al s) = (bs, usb_view al s1)"
    using sim_host [OF assms(1), of Host_Reset s] by simp
  then have v1: "usb_view al s1 = (usb_view al s)\<lparr>us_dev := (us_dev (usb_view al s))\<lparr>c_sts := c_sts (us_dev (usb_view al s)) OR STS_URI, c_devaddr := 0\<rparr>\<rparr>"
    by (simp add: host_does_def core_host_def)
  have p: "entry_usb_enum_poll cf (core_world lay) lay n (usb_view al s1) = Some (usb_view al s0)"
    using view_poll [OF assms(1), of cf n s1] assms(7) h by simp
  have m: "c_mode (us_dev (usb_view al s)) AND STAGE90_USB_USBMODE_CM = STAGE90_USB_USBMODE_CM_DEVICE"
    "c_intr (us_dev (usb_view al s)) = INTR_VALUE" "c_eplist (us_dev (usb_view al s)) = lay (Obj_Qh 0)"
    using assms(4,5) by (simp_all add: usb_device_mode_def)
  have "in1_idle (usb_view al s0) \<and> enum_done (usb_view al s0) \<noteq> 0 \<and> c_eplist (us_dev (usb_view al s0)) = lay (Obj_Qh 0)"
    by (rule enum_poll_idle [OF assms(2,3) _ _ _ p])
       (use m assms(5) in \<open>simp_all add: v1 bit_and_iff bit_or_iff STS_URI_def intr_bits del: view_fields\<close>, simp)
  then have "stream_stuck lay t (usb_view al s0)" using assms(6) by (simp add: stream_stuck_def)
  from run_stuck [OF assms(1-3) this assms(8)] show ?thesis by (simp add: stream_stuck_def)
qed


text \<open>A chunk is on its way in \<open>ref_configured\<close>, the bus is reset, the host reads: nothing.\<close>

theorem usb_stream_ends_at_reset_witness:
  "\<exists>s0 s'. entry_usb_enum_poll \<lparr>en_stream = True, en_force = False\<rparr> (core_world ref_layout) ref_layout 1
      (snd (host_does (core_host ref_layout) Host_Reset ref_configured)) = Some s0
    \<and> host_does (core_host ref_layout) (Host_Move 17 64) s0 = ([], s')"
proof -
  let ?k = "core_world ref_layout" and ?e = "core_host ref_layout" and ?cf = "\<lparr>en_stream = True, en_force = False\<rparr>"
    and ?t = "ref_stream\<lparr>stream_active := 1, stream_last := 3\<rparr>"
  have m: "usb_device_mode ref_layout (usb_view id ref_configured)"
    by (simp add: usb_device_mode_def ref_configured_def ref_start_def ref_ram_def STAGE90_USB_USBMODE_CM_def STAGE90_USB_USBMODE_CM_DEVICE_def)
  have v: "usb_view id ref_configured = ref_configured" by (simp add: usb_view_def)
  obtain s0 where s0: "entry_usb_enum_poll ?cf ?k ref_layout 1 (snd (host_does ?e Host_Reset ref_configured)) = Some s0"
    by (rule poll_reset [OF m [unfolded v]])
  obtain bs s' where h: "host_does ?e (Host_Move 17 64) s0 = (bs, s')" by fastforce
  have run: "stream_run ?cf ?k ref_layout ?e (\<lambda>_. True) 1 (ref_console, ?t, s0, []) (ref_console, ?t, s', [] @ in1_bytes (Host_Move 17 64) bs)"
    by (rule run_host [OF run_start _ h]) simp
  have "[] @ in1_bytes (Host_Move 17 64) bs = []"
    using usb_stream_ends_at_reset [OF core_sim ref_layout_ok _ m _ _ s0 run] by (simp add: ref_configured_def)
  then show ?thesis using s0 h by (auto simp: in1_bytes_def)
qed

end
