(* ===== verification/Arm_Mmu.thy ===== *)
theory Arm_Mmu
  imports Prelude
begin

text \<open>
  The short-descriptor translation the table code of src/src/mmu.c and
  src/src/xnu_arm_vm_init_full_pmap.c writes for: sections and small pages with their memory types
  (\<open>l1_walk\<close>), and a machine of control registers, tables by base address and physical words, whose
  loads and stores go through the walk.  A load no table entry covers is skipped by the abort handler
  (xnu_arm_vm_init_high_va_data_abort_handler.c): the register keeps what it held (\<open>am_stale\<close>) and
  the address is recorded.
\<close>

unbundle bit_operations_syntax

subsection \<open>Descriptors\<close>

datatype mem_type = Strongly_Ordered | Normal_Uncached | Normal_Write_Back | Other_Type nat bool bool

definition mem_type :: "nat \<Rightarrow> bool \<Rightarrow> bool \<Rightarrow> mem_type" where
  "mem_type tex c b =
    (if tex = 0 \<and> \<not> c \<and> \<not> b then Strongly_Ordered else if tex = 1 \<and> \<not> c \<and> \<not> b then Normal_Uncached
     else if tex = 1 \<and> c \<and> b then Normal_Write_Back else Other_Type tex c b)"

definition section_type :: "u32 \<Rightarrow> mem_type" where
  "section_type e = mem_type (unat (drop_bit 12 e AND 7)) (bit e 3) (bit e 2)"

definition page_type :: "u32 \<Rightarrow> mem_type" where
  "page_type e = mem_type (unat (drop_bit 6 e AND 7)) (bit e 3) (bit e 2)"

type_synonym l1_table = "nat \<Rightarrow> u32"

text \<open>The translation of an address: the physical address and the type of its memory.  \<open>l2\<close> reads a word
  of a second-level table.\<close>

definition l1_walk :: "(u32 \<Rightarrow> u32) \<Rightarrow> l1_table \<Rightarrow> u32 \<Rightarrow> (u32 \<times> mem_type) option" where
  "l1_walk l2 t va =
    (let e = t (unat (drop_bit 20 va))
     in if e AND 3 = 2 \<and> \<not> bit e 18 then Some ((e AND 0xfff00000) OR (va AND 0x000fffff), section_type e)
        else if e AND 3 = 1 then
          (let w = l2 ((e AND 0xfffffc00) OR push_bit 2 (drop_bit 12 va AND 0xff))
           in if bit w 1 then Some ((w AND 0xfffff000) OR (va AND 0xfff), page_type w) else None)
        else None)"

subsection \<open>The machine\<close>

record arm_machine =
  am_sctlr :: u32
  am_ttbr0 :: u32
  am_ttbcr :: u32
  am_dacr :: u32
  am_vbar :: u32
  am_sp :: u32
  am_cntfrq :: u32
  am_tables :: "u32 \<Rightarrow> l1_table"
  am_l2 :: "u32 \<Rightarrow> u32"
  am_phys :: "u32 \<Rightarrow> u32"
  am_stale :: "u32 \<Rightarrow> u32"
  am_aborts :: "u32 list"

definition STAGE90_TTBR0_BASE_MASK :: u32 where "STAGE90_TTBR0_BASE_MASK = 0xffffc000"

definition am_walk :: "arm_machine \<Rightarrow> u32 \<Rightarrow> u32 option" where
  "am_walk m va =
    (if bit (am_sctlr m) 0
     then map_option fst (l1_walk (am_l2 m) (am_tables m (am_ttbr0 m AND STAGE90_TTBR0_BASE_MASK)) va) else Some va)"

definition am_load :: "u32 \<Rightarrow> arm_machine \<Rightarrow> u32 \<times> arm_machine" where
  "am_load va m = (case am_walk m va of Some pa \<Rightarrow> (am_phys m pa, m)
     | None \<Rightarrow> (am_stale m va, m\<lparr>am_aborts := am_aborts m @ [va]\<rparr>))"

definition am_store :: "u32 \<Rightarrow> u32 \<Rightarrow> arm_machine \<Rightarrow> arm_machine" where
  "am_store va v m = (case am_walk m va of Some pa \<Rightarrow> m\<lparr>am_phys := (am_phys m)(pa := v)\<rparr>
     | None \<Rightarrow> m\<lparr>am_aborts := am_aborts m @ [va]\<rparr>)"

end
