(* ===== verification/Mmu.thy ===== *)
theory Mmu
  imports Arm_Mmu Handoff
begin

text \<open>
  The payload's own translation tables (src/src/mmu.c): the identity table it runs under, the
  recovery table of the TTBR0 round trip, the round trip, and the two self tests that read through
  the identity table.  The build switches, the linker's end of the image and the platform state read
  from the device tree are the fields of \<open>mmu_cfg\<close>; log records are left out.
\<close>

unbundle bit_operations_syntax

subsection \<open>Constants and configuration\<close>

datatype pmap_attr_mode = PMAP_ATTR_MODE_SO_ONLY | PMAP_ATTR_MODE_NORMAL_NC | PMAP_ATTR_MODE_NORMAL_WB
datatype cache_mode = CACHE_MODE_NONE | CACHE_MODE_ICACHE | CACHE_MODE_ICACHE_DCACHE

definition STAGE90_PMAP_DESC_SECTION_SO :: u32 where "STAGE90_PMAP_DESC_SECTION_SO = 0x00010c02"
definition STAGE90_PMAP_DESC_SECTION_NORMAL_NC :: u32 where "STAGE90_PMAP_DESC_SECTION_NORMAL_NC = 0x00011c02"
definition STAGE90_PMAP_DESC_SECTION_NORMAL_WB :: u32 where "STAGE90_PMAP_DESC_SECTION_NORMAL_WB = 0x0001140e"
definition STAGE90_PMAP_DESC_PAGE_SO :: u32 where "STAGE90_PMAP_DESC_PAGE_SO = 0x00000012"
definition STAGE90_PMAP_DESC_PAGE_NORMAL_NC :: u32 where "STAGE90_PMAP_DESC_PAGE_NORMAL_NC = 0x00000452"
definition STAGE90_PMAP_DESC_PAGE_NORMAL_WB :: u32 where "STAGE90_PMAP_DESC_PAGE_NORMAL_WB = 0x0000045e"

definition STAGE90_PMAP_DESC_SECTION_DRAM :: "pmap_attr_mode \<Rightarrow> u32" where
  "STAGE90_PMAP_DESC_SECTION_DRAM mode = (case mode of PMAP_ATTR_MODE_NORMAL_WB \<Rightarrow> STAGE90_PMAP_DESC_SECTION_NORMAL_WB
     | PMAP_ATTR_MODE_NORMAL_NC \<Rightarrow> STAGE90_PMAP_DESC_SECTION_NORMAL_NC | PMAP_ATTR_MODE_SO_ONLY \<Rightarrow> STAGE90_PMAP_DESC_SECTION_SO)"

definition STAGE90_PMAP_DESC_PAGE_DRAM :: "pmap_attr_mode \<Rightarrow> u32" where
  "STAGE90_PMAP_DESC_PAGE_DRAM mode = (case mode of PMAP_ATTR_MODE_NORMAL_WB \<Rightarrow> STAGE90_PMAP_DESC_PAGE_NORMAL_WB
     | PMAP_ATTR_MODE_NORMAL_NC \<Rightarrow> STAGE90_PMAP_DESC_PAGE_NORMAL_NC | PMAP_ATTR_MODE_SO_ONLY \<Rightarrow> STAGE90_PMAP_DESC_PAGE_SO)"

definition STAGE90_PMAP_DESC_SECTION_RAM_CONSOLE :: "pmap_attr_mode \<Rightarrow> u32" where
  "STAGE90_PMAP_DESC_SECTION_RAM_CONSOLE mode =
    (if mode = PMAP_ATTR_MODE_SO_ONLY then STAGE90_PMAP_DESC_SECTION_SO else STAGE90_PMAP_DESC_SECTION_NORMAL_NC)"

definition L1_SECTION_SIZE :: u32 where "L1_SECTION_SIZE = 0x00100000"
definition L1_SECTION_MASK :: u32 where "L1_SECTION_MASK = 0xfff00000"

definition SECTION_INDEX :: "u32 \<Rightarrow> nat" where
  "SECTION_INDEX addr = unat (drop_bit 20 addr)"

definition RAM_CONSOLE_SIG :: u32 where "RAM_CONSOLE_SIG = 0x43474244"
definition MSM8974_PSHOLD :: u32 where "MSM8974_PSHOLD = 0xfc4ab000"
definition MSM_IMEM_BASE_PHYS :: u32 where "MSM_IMEM_BASE_PHYS = 0x0fa00000"
definition RESTART_REASON :: u32 where "RESTART_REASON = MSM_IMEM_BASE_PHYS + 0x65c"
definition STAGE90_HIGH_ALIAS_BASE :: u32 where "STAGE90_HIGH_ALIAS_BASE = 0xc0000000"
definition STAGE90_IMAGE_ALIAS_WINDOW :: u32 where "STAGE90_IMAGE_ALIAS_WINDOW = 64 * 0x00100000"
definition STAGE90_IMAGE_ALIAS_LIMIT :: u32 where "STAGE90_IMAGE_ALIAS_LIMIT = STAGE90_HIGH_ALIAS_BASE + STAGE90_IMAGE_ALIAS_WINDOW"
definition STAGE90_GIC_ALIAS_BASE :: u32 where "STAGE90_GIC_ALIAS_BASE = STAGE90_IMAGE_ALIAS_LIMIT"
definition STAGE90_RAM_CONSOLE_ALIAS_BASE :: u32 where "STAGE90_RAM_CONSOLE_ALIAS_BASE = STAGE90_IMAGE_ALIAS_LIMIT + 0x00100000"

record mmu_cfg =
  mm_attr :: pmap_attr_mode
  mm_cache :: cache_mode
  mm_entry :: bool
  mm_entry_base :: u32
  mm_entry_limit :: u32
  mm_image_end :: u32
  mm_gic_dist :: u32
  mm_gic_cpu :: u32
  mm_l1_table :: u32
  mm_roundtrip_l1 :: u32
  mm_probe_word :: u32
  mm_alias_probe :: u32
  mm_vectors :: u32
  mm_ttbr0_probe :: u32

subsection \<open>The identity table\<close>

definition map_section_desc :: "u32 \<Rightarrow> u32 \<Rightarrow> u32 \<Rightarrow> l1_table \<Rightarrow> l1_table" where
  "map_section_desc va pa desc t = t(SECTION_INDEX va := (pa AND L1_SECTION_MASK) OR desc)"

definition map_section_dram :: "mmu_cfg \<Rightarrow> u32 \<Rightarrow> u32 \<Rightarrow> l1_table \<Rightarrow> l1_table" where
  "map_section_dram cf va pa = map_section_desc va pa (STAGE90_PMAP_DESC_SECTION_DRAM (mm_attr cf))"

definition map_section_mmio :: "u32 \<Rightarrow> u32 \<Rightarrow> l1_table \<Rightarrow> l1_table" where
  "map_section_mmio va pa = map_section_desc va pa STAGE90_PMAP_DESC_SECTION_SO"

text \<open>The loops over sections; the offset is a 32-bit counter, so a bound in the last megabyte is never
  passed, and the fuel runs out.\<close>

fun section_loop :: "nat \<Rightarrow> u32 \<Rightarrow> u32 \<Rightarrow> (u32 \<Rightarrow> l1_table \<Rightarrow> l1_table) \<Rightarrow> l1_table \<Rightarrow> l1_table option" where
  "section_loop 0 off limit body t = None"
| "section_loop (Suc n) off limit body t =
    (if off < limit then section_loop n (off + L1_SECTION_SIZE) limit body (body off t) else Some t)"

fun alias_loop :: "nat \<Rightarrow> u32 \<Rightarrow> u32 \<Rightarrow> (u32 \<Rightarrow> l1_table \<Rightarrow> l1_table) \<Rightarrow> l1_table \<Rightarrow> l1_table option" where
  "alias_loop 0 off limit body t = None"
| "alias_loop (Suc n) off limit body t =
    (if off < limit then
       (if STAGE90_HIGH_ALIAS_BASE + off \<ge> STAGE90_IMAGE_ALIAS_LIMIT then Some t
        else alias_loop n (off + L1_SECTION_SIZE) limit body (body off t))
     else Some t)"

definition build_identity_table :: "mmu_cfg \<Rightarrow> nat \<Rightarrow> l1_table option" where
  "build_identity_table cf fuel =
    (case section_loop fuel 0 (mm_image_end cf) (\<lambda>off. map_section_dram cf off off) (\<lambda>_. 0) of
       None \<Rightarrow> None
     | Some t1 \<Rightarrow>
       (case alias_loop fuel 0 (mm_image_end cf) (\<lambda>off. map_section_dram cf (STAGE90_HIGH_ALIAS_BASE + off) off) t1 of
          None \<Rightarrow> None
        | Some t2 \<Rightarrow>
          (let t3 = map_section_mmio STAGE90_GIC_ALIAS_BASE 0xf9000000 t2;
               t4 = map_section_mmio 0x0fa00000 0x0fa00000 t3;
               t5 = map_section_desc RAM_CONSOLE_BASE RAM_CONSOLE_BASE (STAGE90_PMAP_DESC_SECTION_RAM_CONSOLE (mm_attr cf)) t4;
               t6 = map_section_desc (RAM_CONSOLE_BASE + L1_SECTION_SIZE) (RAM_CONSOLE_BASE + L1_SECTION_SIZE)
                      (STAGE90_PMAP_DESC_SECTION_RAM_CONSOLE (mm_attr cf)) t5
           in case (if mm_entry cf
                    then section_loop fuel 0 (mm_entry_limit cf)
                           (\<lambda>off. map_section_dram cf (mm_entry_base cf + off) (mm_entry_base cf + off)) t6
                    else Some t6) of
                None \<Rightarrow> None
              | Some t7 \<Rightarrow> Some (map_section_mmio 0xfc400000 0xfc400000 (map_section_mmio 0xf9000000 0xf9000000 t7)))))"

text \<open>Installing the table at \<open>base\<close>.  Cache maintenance and barriers change nothing of the machine.\<close>

definition enable_identity_mmu :: "mmu_cfg \<Rightarrow> u32 \<Rightarrow> arm_machine \<Rightarrow> arm_machine" where
  "enable_identity_mmu cf base m =
    (let m1 = m\<lparr>am_ttbcr := 0, am_ttbr0 := base, am_dacr := 3\<rparr>;
         sctlr = am_sctlr m1 AND NOT (push_bit 2 1 OR push_bit 12 1);
         sctlr1 = sctlr OR 1;
         sctlr2 = (if mm_cache cf \<noteq> CACHE_MODE_NONE then sctlr1 OR push_bit 12 1 else sctlr1);
         m2 = m1\<lparr>am_sctlr := sctlr2\<rparr>
     in if mm_cache cf = CACHE_MODE_ICACHE_DCACHE then m2\<lparr>am_sctlr := am_sctlr m2 OR push_bit 2 1\<rparr> else m2)"

subsection \<open>The recovery table\<close>

definition ttbr_section_desc_for_pa :: "mmu_cfg \<Rightarrow> u32 \<Rightarrow> u32" where
  "ttbr_section_desc_for_pa cf pa =
    (let section = pa AND L1_SECTION_MASK
     in if section = MSM_IMEM_BASE_PHYS AND L1_SECTION_MASK then STAGE90_PMAP_DESC_SECTION_SO
        else if mm_gic_dist cf \<noteq> 0 \<and> section = mm_gic_dist cf AND L1_SECTION_MASK then STAGE90_PMAP_DESC_SECTION_SO
        else if section = MSM8974_PSHOLD AND L1_SECTION_MASK then STAGE90_PMAP_DESC_SECTION_SO
        else if section = RAM_CONSOLE_BASE AND L1_SECTION_MASK then STAGE90_PMAP_DESC_SECTION_RAM_CONSOLE (mm_attr cf)
        else STAGE90_PMAP_DESC_SECTION_DRAM (mm_attr cf))"

definition ttbr_section_word_pa :: "mmu_cfg \<Rightarrow> u32 \<Rightarrow> u32" where
  "ttbr_section_word_pa cf pa = (pa AND L1_SECTION_MASK) OR ttbr_section_desc_for_pa cf pa"

definition ttbr_map_section_pa :: "mmu_cfg \<Rightarrow> u32 \<Rightarrow> u32 \<Rightarrow> l1_table \<Rightarrow> l1_table" where
  "ttbr_map_section_pa cf va pa t =
    (if SECTION_INDEX va < 4096 then t(SECTION_INDEX va := ttbr_section_word_pa cf pa) else t)"

fun identity_range_loop :: "mmu_cfg \<Rightarrow> nat \<Rightarrow> u32 \<Rightarrow> u32 \<Rightarrow> l1_table \<Rightarrow> l1_table option" where
  "identity_range_loop cf 0 va last_va t = None"
| "identity_range_loop cf (Suc n) va last_va t =
    (if va \<le> last_va then
       (let t1 = ttbr_map_section_pa cf va va t
        in if va > 0xffffffff - L1_SECTION_SIZE then Some t1 else identity_range_loop cf n (va + L1_SECTION_SIZE) last_va t1)
     else Some t)"

definition ttbr_map_identity_range :: "mmu_cfg \<Rightarrow> nat \<Rightarrow> u32 \<Rightarrow> u32 \<Rightarrow> l1_table \<Rightarrow> l1_table option" where
  "ttbr_map_identity_range cf fuel base limit t =
    (if limit \<le> base then Some t
     else identity_range_loop cf fuel (base AND L1_SECTION_MASK) ((limit - 1) AND L1_SECTION_MASK) t)"

definition ttbr_verify_section_pa :: "mmu_cfg \<Rightarrow> l1_table \<Rightarrow> u32 \<Rightarrow> u32 \<Rightarrow> bool" where
  "ttbr_verify_section_pa cf t va pa =
    (let observed = t (SECTION_INDEX va)
     in SECTION_INDEX va < 4096 \<and> observed = ttbr_section_word_pa cf pa \<and> observed AND 3 = 2
        \<and> observed AND 0x000fffff = ttbr_section_desc_for_pa cf pa AND 0x000fffff
        \<and> observed AND 0xfff00000 = pa AND 0xfff00000)"

definition stage90_ttbr0_build_recovery_table :: "mmu_cfg \<Rightarrow> nat \<Rightarrow> u32 \<Rightarrow> u32 \<Rightarrow> u32 \<Rightarrow> l1_table option" where
  "stage90_ttbr0_build_recovery_table cf fuel sp vector_base l1_base =
    (let limit = (if mm_image_end cf \<le> STAGE90_BASE then STAGE90_BASE + 4 else mm_image_end cf);
         sect = (\<lambda>a. ttbr_map_section_pa cf a a)
     in map_option (\<lambda>t. sect MSM8974_PSHOLD (sect (mm_gic_dist cf) (sect MSM_IMEM_BASE_PHYS
          (sect (RAM_CONSOLE_BASE + L1_SECTION_SIZE) (sect RAM_CONSOLE_BASE (sect l1_base (sect vector_base (sect sp t))))))))
        (ttbr_map_identity_range cf fuel STAGE90_BASE limit (\<lambda>_. 0)))"

end
