(* ===== verification/Mmu_Identity.thy ===== *)
theory Mmu_Identity
  imports Mmu
begin

unbundle bit_operations_syntax

subsection \<open>The section loops as folds\<close>

definition sections_of :: "u32 \<Rightarrow> nat" where
  "sections_of limit = (unat limit + 0xfffff) div 0x100000"

definition nth_section :: "nat \<Rightarrow> u32" where
  "nth_section k = word_of_nat (k * 0x100000)"

lemma sections_of_le: "limit \<le> 0xfff00000 \<Longrightarrow> sections_of limit \<le> 4095"
  by (simp add: sections_of_def word_le_nat_alt)

lemma unat_nth_section: "k < 4096 \<Longrightarrow> unat (nth_section k) = k * 0x100000"
  unfolding nth_section_def by (subst unat_of_nat) (simp add: mod_less)

lemma nth_section_Suc: "nth_section k + L1_SECTION_SIZE = nth_section (Suc k)"
  by (simp add: nth_section_def L1_SECTION_SIZE_def)

lemma nth_section_less: "k < 4096 \<Longrightarrow> (nth_section k < limit) = (k < sections_of limit)"
  by (simp add: word_less_nat_alt unat_nth_section sections_of_def) arith

lemma section_loop_fold:
  assumes "limit \<le> 0xfff00000" and "k \<le> sections_of limit" and "sections_of limit - k < n"
  shows "section_loop n (nth_section k) limit body t
    = Some (fold (\<lambda>j. body (nth_section j)) [k..<sections_of limit] t)"
  using assms
proof (induction n arbitrary: k t)
  case (Suc n)
  have k: "k < 4096" using Suc.prems(2) sections_of_le [OF Suc.prems(1)] by linarith
  show ?case
  proof (cases "k < sections_of limit")
    case True
    have "section_loop n (nth_section (Suc k)) limit body (body (nth_section k) t)
        = Some (fold (\<lambda>j. body (nth_section j)) [Suc k..<sections_of limit] (body (nth_section k) t))"
      using Suc.prems True by (intro Suc.IH) auto
    then show ?thesis using True k by (simp add: nth_section_less nth_section_Suc upt_conv_Cons)
  next
    case False
    then show ?thesis using k by (simp add: nth_section_less)
  qed
qed simp

lemma section_loop_diverges:
  assumes "0xfff00000 < limit" and "k < 4096"
  shows "section_loop n (nth_section k) limit body t = None"
  using assms(2)
proof (induction n arbitrary: k t)
  case (Suc n)
  have less: "nth_section k < limit"
  proof -
    have "unat (nth_section k) \<le> 0xfff00000" using Suc.prems by (simp add: unat_nth_section)
    then show ?thesis using assms(1) by (simp add: word_less_nat_alt)
  qed
  have "section_loop n (nth_section (Suc k)) limit body (body (nth_section k) t) = None"
  proof (cases "Suc k < 4096")
    case False
    then have "k = 4095" using Suc.prems by simp
    then have "nth_section (Suc k) = nth_section 0" by (simp add: nth_section_def)
    then show ?thesis using Suc.IH [of 0] by simp
  qed (rule Suc.IH)
  then show ?case using less by (simp add: nth_section_Suc)
qed simp

lemma alias_loop_fold:
  assumes "k \<le> 64" and "k \<le> sections_of limit" and "64 - k < n"
  shows "alias_loop n (nth_section k) limit body t
    = Some (fold (\<lambda>j. body (nth_section j)) [k..<min 64 (sections_of limit)] t)"
  using assms
proof (induction n arbitrary: k t)
  case (Suc n)
  have k: "k < 4096" using Suc.prems(1) by linarith
  have past: "(STAGE90_HIGH_ALIAS_BASE + nth_section k \<ge> STAGE90_IMAGE_ALIAS_LIMIT) = (64 \<le> k)"
  proof -
    have "unat (STAGE90_HIGH_ALIAS_BASE + nth_section k) = (3072 + k) * 0x100000"
      using Suc.prems(1) k by (simp add: STAGE90_HIGH_ALIAS_BASE_def unat_plus_u32 unat_nth_section)
    then show ?thesis by (simp add: STAGE90_HIGH_ALIAS_BASE_def STAGE90_IMAGE_ALIAS_LIMIT_def
        STAGE90_IMAGE_ALIAS_WINDOW_def word_le_nat_alt)
  qed
  show ?case
  proof (cases "k < sections_of limit \<and> k < 64")
    case True
    then have "alias_loop n (nth_section (Suc k)) limit body (body (nth_section k) t)
        = Some (fold (\<lambda>j. body (nth_section j)) [Suc k..<min 64 (sections_of limit)] (body (nth_section k) t))"
      using Suc.prems by (intro Suc.IH) auto
    then show ?thesis using True k past by (simp add: nth_section_less nth_section_Suc upt_conv_Cons)
  next
    case False
    then show ?thesis using k past Suc.prems by (auto simp: nth_section_less)
  qed
qed simp

lemma fold_update:
  "fold (\<lambda>k t. t(ix k := w (ix k))) [a..<b] t i = (if \<exists>k. a \<le> k \<and> k < b \<and> ix k = i then w i else t i)"
proof (induction b)
  case (Suc b)
  show ?case
  proof (cases "a \<le> b")
    case True
    then show ?thesis using Suc.IH by (auto simp: less_Suc_eq)
  qed (auto)
qed simp

subsection \<open>Section descriptors\<close>

definition dram_type :: "pmap_attr_mode \<Rightarrow> mem_type" where
  "dram_type mode = (case mode of PMAP_ATTR_MODE_NORMAL_WB \<Rightarrow> Normal_Write_Back
     | PMAP_ATTR_MODE_NORMAL_NC \<Rightarrow> Normal_Uncached | PMAP_ATTR_MODE_SO_ONLY \<Rightarrow> Strongly_Ordered)"

definition console_type :: "pmap_attr_mode \<Rightarrow> mem_type" where
  "console_type mode = (if mode = PMAP_ATTR_MODE_SO_ONLY then Strongly_Ordered else Normal_Uncached)"

definition section_entry :: "u32 \<Rightarrow> u32 \<Rightarrow> mem_type \<Rightarrow> bool" where
  "section_entry e x ty = (e AND 3 = 2 \<and> \<not> bit e 18 \<and> e AND 0xfff00000 = x AND 0xfff00000 \<and> section_type e = ty)"

lemma section_word:
  assumes "(d, ty) \<in> {(STAGE90_PMAP_DESC_SECTION_SO, Strongly_Ordered),
      (STAGE90_PMAP_DESC_SECTION_NORMAL_NC, Normal_Uncached), (STAGE90_PMAP_DESC_SECTION_NORMAL_WB, Normal_Write_Back)}"
  shows "section_entry ((x AND L1_SECTION_MASK) OR d) x ty"
proof -
  have "drop_bit 12 ((x AND 0xfff00000) OR c) AND 7 = drop_bit 12 c AND 7" for c
  proof (rule bit_eqI)
    fix n show "bit (drop_bit 12 ((x AND 0xfff00000) OR c) AND 7) n = bit (drop_bit 12 c AND 7) n"
    proof (cases "n < 3")
      case True
      then have "n = 0 \<or> n = 1 \<or> n = 2" by linarith
      then show ?thesis by (auto simp: bit_simps)
    next
      case False
      have "\<not> bit (mask 3 :: u32) n" using False by (simp add: bit_mask_iff)
      then have "\<not> bit (7 :: u32) n" by (simp add: mask_eq_exp_minus_1)
      then show ?thesis unfolding bit_and_iff by blast
    qed
  qed
  then show ?thesis using assms
    by (auto simp: section_entry_def section_type_def mem_type_def STAGE90_PMAP_DESC_SECTION_SO_def
       STAGE90_PMAP_DESC_SECTION_NORMAL_NC_def STAGE90_PMAP_DESC_SECTION_NORMAL_WB_def L1_SECTION_MASK_def
       bit.conj_disj_distrib2 and.assoc bit_simps drop_bit_eq_div)
qed

lemma l1_walk_section:
  assumes "section_entry (t (SECTION_INDEX va)) x ty"
  shows "l1_walk l2 t va = Some ((x AND 0xfff00000) OR (va AND 0x000fffff), ty)"
  using assms by (simp add: l1_walk_def section_entry_def SECTION_INDEX_def Let_def)

lemma section_desc_entry:
  "section_entry ((x AND L1_SECTION_MASK) OR STAGE90_PMAP_DESC_SECTION_DRAM mode) x (dram_type mode)"
  "section_entry ((x AND L1_SECTION_MASK) OR STAGE90_PMAP_DESC_SECTION_RAM_CONSOLE mode) x (console_type mode)"
  "section_entry ((x AND L1_SECTION_MASK) OR STAGE90_PMAP_DESC_SECTION_SO) x Strongly_Ordered"
  by (rule section_word; auto simp: STAGE90_PMAP_DESC_SECTION_DRAM_def STAGE90_PMAP_DESC_SECTION_RAM_CONSOLE_def
      dram_type_def console_type_def split: pmap_attr_mode.splits)+

subsection \<open>The memory map the table stands for\<close>

type_synonym window = "nat \<times> nat \<times> nat \<times> mem_type"

definition mapped_section :: "window list \<Rightarrow> nat \<Rightarrow> (nat \<times> mem_type) option" where
  "mapped_section ws s = map_option (\<lambda>(v, k, p, ty). (p + (s - v), ty)) (List.find (\<lambda>(v, k, p, ty). v \<le> s \<and> s < v + k) ws)"

definition identity_map :: "mmu_cfg \<Rightarrow> window list" where
  "identity_map cf =
    [(0xfc4, 1, 0xfc4, Strongly_Ordered), (0xf90, 1, 0xf90, Strongly_Ordered),
     (SECTION_INDEX (mm_entry_base cf), (if mm_entry cf then sections_of (mm_entry_limit cf) else 0),
      SECTION_INDEX (mm_entry_base cf), dram_type (mm_attr cf)),
     (0xde5, 2, 0xde5, console_type (mm_attr cf)), (0x0fa, 1, 0x0fa, Strongly_Ordered),
     (0xc40, 1, 0xf90, Strongly_Ordered),
     (0xc00, min 64 (sections_of (mm_image_end cf)), 0, dram_type (mm_attr cf)),
     (0, sections_of (mm_image_end cf), 0, dram_type (mm_attr cf))]"

definition window_translation :: "window list \<Rightarrow> u32 \<Rightarrow> (u32 \<times> mem_type) option" where
  "window_translation ws va =
    map_option (\<lambda>(p, ty). (nth_section p OR (va AND 0x000fffff), ty)) (mapped_section ws (SECTION_INDEX va))"

lemma section_mask: "L1_SECTION_MASK = NOT (Bit_Operations.mask 20)"
  by (simp add: L1_SECTION_MASK_def mask_eq_exp_minus_1 not_eq_complement)

lemma mapped_section_simps [simp]:
  "mapped_section [] s = None"
  "mapped_section ((v, k, p, ty) # ws) s = (if v \<le> s \<and> s < v + k then Some (p + (s - v), ty) else mapped_section ws s)"
  by (simp_all add: mapped_section_def)

lemma SECTION_INDEX_div: "SECTION_INDEX x = unat x div 0x100000"
  by (simp add: SECTION_INDEX_def drop_bit_eq_div unat_div)

lemma SECTION_INDEX_less: "SECTION_INDEX x < 4096"
  using unat_lt_u32 [of x] by (simp add: SECTION_INDEX_div less_mult_imp_div_less)

lemma section_base: "x AND L1_SECTION_MASK = nth_section (SECTION_INDEX x)"
proof -
  have "nth_section (SECTION_INDEX x) = push_bit 20 (drop_bit 20 x)"
    by (simp add: nth_section_def SECTION_INDEX_def push_bit_eq_mult)
  also have "\<dots> = x AND NOT (Bit_Operations.mask 20)" by (simp add: bit_eq_iff bit_simps not_less) auto
  also have "\<dots> = x AND L1_SECTION_MASK" unfolding section_mask ..
  finally show ?thesis ..
qed

lemma nth_section_masked: "nth_section k AND L1_SECTION_MASK = nth_section k"
proof -
  have "nth_section k = push_bit 20 (word_of_nat k)" by (simp add: nth_section_def push_bit_eq_mult)
  then have "nth_section k = nth_section k AND NOT (Bit_Operations.mask 20)" by (simp add: bit_eq_iff bit_simps) auto
  then show ?thesis unfolding section_mask ..
qed

lemma SECTION_INDEX_nth_section: "k < 4096 \<Longrightarrow> SECTION_INDEX (nth_section k) = k"
  by (simp add: SECTION_INDEX_div unat_nth_section)

lemma SECTION_INDEX_plus:
  "unat b + j * 0x100000 < 2 ^ 32 \<Longrightarrow> SECTION_INDEX (b + nth_section j) = SECTION_INDEX b + j"
  by (simp add: SECTION_INDEX_div unat_plus_u32 unat_nth_section)

lemma sections_of_bound: "j < sections_of l \<Longrightarrow> j * 0x100000 < unat l"
  by (simp add: sections_of_def)

subsection \<open>The table built\<close>

definition mmu_bounds :: "mmu_cfg \<Rightarrow> bool" where
  "mmu_bounds cf = (mm_image_end cf \<le> 0xfff00000 \<and>
    (mm_entry cf \<longrightarrow> unat (mm_entry_base cf) + unat (mm_entry_limit cf) \<le> 0xc0000000))"

lemma alias_body:
  "map_section_dram cf (STAGE90_HIGH_ALIAS_BASE + nth_section j) (nth_section j) =
   (\<lambda>t. t(SECTION_INDEX (STAGE90_HIGH_ALIAS_BASE + nth_section j) := nth_section j OR STAGE90_PMAP_DESC_SECTION_DRAM (mm_attr cf)))"
  by (rule ext) (simp add: map_section_dram_def map_section_desc_def nth_section_masked)

lemma identity_body:
  "map_section_dram cf va va =
   (\<lambda>t. t(SECTION_INDEX va := nth_section (SECTION_INDEX va) OR STAGE90_PMAP_DESC_SECTION_DRAM (mm_attr cf)))"
  by (rule ext) (simp add: map_section_dram_def map_section_desc_def section_base)

lemma image_fold:
  assumes "n \<le> 4095"
  shows "fold (\<lambda>j. map_section_dram cf (nth_section j) (nth_section j)) [0..<n] t i =
    (if i < n then nth_section i OR STAGE90_PMAP_DESC_SECTION_DRAM (mm_attr cf) else t i)"
proof -
  have "fold (\<lambda>j. map_section_dram cf (nth_section j) (nth_section j)) [0..<n] t =
      fold (\<lambda>j t. t(j := nth_section j OR STAGE90_PMAP_DESC_SECTION_DRAM (mm_attr cf))) [0..<n] t"
    using assms by (intro fold_cong) (auto simp: identity_body SECTION_INDEX_nth_section)
  then show ?thesis
    using fold_update [of "\<lambda>j. j" "\<lambda>j. nth_section j OR STAGE90_PMAP_DESC_SECTION_DRAM (mm_attr cf)" 0 n t i] by simp
qed

lemma window_fold:
  assumes "unat b + unat limit \<le> 0xc0000000"
  shows "fold (\<lambda>j. map_section_dram cf (b + nth_section j) (b + nth_section j)) [0..<sections_of limit] t i =
    (if SECTION_INDEX b \<le> i \<and> i < SECTION_INDEX b + sections_of limit
     then nth_section i OR STAGE90_PMAP_DESC_SECTION_DRAM (mm_attr cf) else t i)"
proof -
  have "fold (\<lambda>j. map_section_dram cf (b + nth_section j) (b + nth_section j)) [0..<sections_of limit] t =
      fold (\<lambda>j t. t(SECTION_INDEX b + j := nth_section (SECTION_INDEX b + j) OR STAGE90_PMAP_DESC_SECTION_DRAM (mm_attr cf))) [0..<sections_of limit] t"
  proof (intro fold_cong refl)
    fix j assume "j \<in> set [0..<sections_of limit]"
    then have "SECTION_INDEX (b + nth_section j) = SECTION_INDEX b + j"
      using assms sections_of_bound [of j limit] by (intro SECTION_INDEX_plus) simp
    then show "map_section_dram cf (b + nth_section j) (b + nth_section j) =
      (\<lambda>t. t(SECTION_INDEX b + j := nth_section (SECTION_INDEX b + j) OR STAGE90_PMAP_DESC_SECTION_DRAM (mm_attr cf)))"
      by (simp add: identity_body)
  qed
  moreover have "(\<exists>k. 0 \<le> k \<and> k < sections_of limit \<and> SECTION_INDEX b + k = i) =
      (SECTION_INDEX b \<le> i \<and> i < SECTION_INDEX b + sections_of limit)"
    by (auto intro: exI [of _ "i - SECTION_INDEX b"])
  ultimately show ?thesis
    using fold_update [of "\<lambda>j. SECTION_INDEX b + j" "\<lambda>i. nth_section i OR STAGE90_PMAP_DESC_SECTION_DRAM (mm_attr cf)"
        0 "sections_of limit" t i] by simp
qed

lemma alias_base_index: "SECTION_INDEX STAGE90_HIGH_ALIAS_BASE = 0xc00"
  by (simp add: SECTION_INDEX_div STAGE90_HIGH_ALIAS_BASE_def)

lemma alias_fold:
  assumes "n \<le> 64"
  shows "fold (\<lambda>j. map_section_dram cf (STAGE90_HIGH_ALIAS_BASE + nth_section j) (nth_section j)) [0..<n] t i =
    (if 0xc00 \<le> i \<and> i < 0xc00 + n then nth_section (i - 0xc00) OR STAGE90_PMAP_DESC_SECTION_DRAM (mm_attr cf) else t i)"
proof -
  have "fold (\<lambda>j. map_section_dram cf (STAGE90_HIGH_ALIAS_BASE + nth_section j) (nth_section j)) [0..<n] t =
      fold (\<lambda>j t. t(0xc00 + j := nth_section (0xc00 + j - 0xc00) OR STAGE90_PMAP_DESC_SECTION_DRAM (mm_attr cf))) [0..<n] t"
  proof (intro fold_cong refl)
    fix j assume "j \<in> set [0..<n]"
    then have "SECTION_INDEX (STAGE90_HIGH_ALIAS_BASE + nth_section j) = SECTION_INDEX STAGE90_HIGH_ALIAS_BASE + j"
      using assms by (intro SECTION_INDEX_plus) (simp add: STAGE90_HIGH_ALIAS_BASE_def)
    then show "map_section_dram cf (STAGE90_HIGH_ALIAS_BASE + nth_section j) (nth_section j) =
      (\<lambda>t. t(0xc00 + j := nth_section (0xc00 + j - 0xc00) OR STAGE90_PMAP_DESC_SECTION_DRAM (mm_attr cf)))"
      by (simp add: alias_body alias_base_index)
  qed
  moreover have "(\<exists>k. 0 \<le> k \<and> k < n \<and> 0xc00 + k = i) = (0xc00 \<le> i \<and> i < 0xc00 + n)"
    by (auto intro: exI [of _ "i - 0xc00"])
  ultimately show ?thesis
    using fold_update [of "\<lambda>j. 0xc00 + j" "\<lambda>i. nth_section (i - 0xc00) OR STAGE90_PMAP_DESC_SECTION_DRAM (mm_attr cf)"
        0 n t i] by simp
qed


definition identity_entries :: "mmu_cfg \<Rightarrow> l1_table" where
  "identity_entries cf s =
    (let dram = STAGE90_PMAP_DESC_SECTION_DRAM (mm_attr cf); n = sections_of (mm_image_end cf);
         console = STAGE90_PMAP_DESC_SECTION_RAM_CONSOLE (mm_attr cf); e = SECTION_INDEX (mm_entry_base cf)
     in if s = 0xfc4 then nth_section 0xfc4 OR STAGE90_PMAP_DESC_SECTION_SO
        else if s = 0xf90 then nth_section 0xf90 OR STAGE90_PMAP_DESC_SECTION_SO
        else if mm_entry cf \<and> e \<le> s \<and> s < e + sections_of (mm_entry_limit cf) then nth_section s OR dram
        else if s = 0xde5 \<or> s = 0xde6 then nth_section s OR console
        else if s = 0x0fa then nth_section s OR STAGE90_PMAP_DESC_SECTION_SO
        else if s = 0xc40 then nth_section 0xf90 OR STAGE90_PMAP_DESC_SECTION_SO
        else if 0xc00 \<le> s \<and> s < 0xc00 + min 64 n then nth_section (s - 0xc00) OR dram
        else if s < n then nth_section s OR dram else 0)"

lemma fixed_sections:
  "0xfc400000 = nth_section 0xfc4" "0xf9000000 = nth_section 0xf90" "0x0fa00000 = nth_section 0x0fa"
  "RAM_CONSOLE_BASE = nth_section 0xde5" "nth_section 0xde5 + L1_SECTION_SIZE = nth_section 0xde6"
  "STAGE90_GIC_ALIAS_BASE = nth_section 0xc40"
  by (simp_all add: nth_section_def RAM_CONSOLE_BASE_def L1_SECTION_SIZE_def STAGE90_GIC_ALIAS_BASE_def
      STAGE90_IMAGE_ALIAS_LIMIT_def STAGE90_IMAGE_ALIAS_WINDOW_def STAGE90_HIGH_ALIAS_BASE_def)

lemma map_section_at:
  "k < 4096 \<Longrightarrow> map_section_desc (nth_section k) (nth_section j) d t = t(k := nth_section j OR d)"
  by (simp add: map_section_desc_def SECTION_INDEX_nth_section nth_section_masked)

lemma nth_section_0: "nth_section 0 = 0"
  by (simp add: nth_section_def)

lemma identity_table_built:
  assumes "mmu_bounds cf" and "4096 < fuel"
  shows "build_identity_table cf fuel = Some (identity_entries cf)"
proof -
  define n where "n = sections_of (mm_image_end cf)"
  have n: "n \<le> 4095" using assms(1) by (simp add: n_def mmu_bounds_def sections_of_le)
  have l1: "section_loop fuel 0 (mm_image_end cf) (\<lambda>off. map_section_dram cf off off) t
      = Some (fold (\<lambda>j. map_section_dram cf (nth_section j) (nth_section j)) [0..<n] t)" for t
    using section_loop_fold [of "mm_image_end cf" 0 fuel "\<lambda>off. map_section_dram cf off off" t] assms n
    by (simp add: nth_section_0 n_def mmu_bounds_def)
  have l2: "alias_loop fuel 0 (mm_image_end cf) (\<lambda>off. map_section_dram cf (STAGE90_HIGH_ALIAS_BASE + off) off) t
      = Some (fold (\<lambda>j. map_section_dram cf (STAGE90_HIGH_ALIAS_BASE + nth_section j) (nth_section j)) [0..<min 64 n] t)" for t
    using alias_loop_fold [of 0 "mm_image_end cf" fuel _ t] assms
    by (simp add: nth_section_0 n_def)
  have l3: "section_loop fuel 0 (mm_entry_limit cf) (\<lambda>off. map_section_dram cf (mm_entry_base cf + off) (mm_entry_base cf + off)) t
      = Some (fold (\<lambda>j. map_section_dram cf (mm_entry_base cf + nth_section j) (mm_entry_base cf + nth_section j))
          [0..<sections_of (mm_entry_limit cf)] t)" if "mm_entry cf" for t
  proof -
    have "mm_entry_limit cf \<le> 0xfff00000" using assms(1) that by (auto simp: mmu_bounds_def word_le_nat_alt)
    then show ?thesis
      using section_loop_fold [of "mm_entry_limit cf" 0 fuel _ t] assms(2) sections_of_le [of "mm_entry_limit cf"]
      by (simp add: nth_section_0)
  qed
  have bound: "unat (mm_entry_base cf) + unat (mm_entry_limit cf) \<le> 0xc0000000" if "mm_entry cf"
    using assms(1) that by (simp add: mmu_bounds_def)
  define t6 where "t6 = map_section_desc (RAM_CONSOLE_BASE + L1_SECTION_SIZE) (RAM_CONSOLE_BASE + L1_SECTION_SIZE)
      (STAGE90_PMAP_DESC_SECTION_RAM_CONSOLE (mm_attr cf))
    (map_section_desc RAM_CONSOLE_BASE RAM_CONSOLE_BASE (STAGE90_PMAP_DESC_SECTION_RAM_CONSOLE (mm_attr cf))
    (map_section_mmio 0x0fa00000 0x0fa00000 (map_section_mmio STAGE90_GIC_ALIAS_BASE 0xf9000000
    (fold (\<lambda>j. map_section_dram cf (STAGE90_HIGH_ALIAS_BASE + nth_section j) (nth_section j)) [0..<min 64 n]
    (fold (\<lambda>j. map_section_dram cf (nth_section j) (nth_section j)) [0..<n] (\<lambda>_. 0))))))"
  define t7 where "t7 = (if mm_entry cf
    then fold (\<lambda>j. map_section_dram cf (mm_entry_base cf + nth_section j) (mm_entry_base cf + nth_section j))
          [0..<sections_of (mm_entry_limit cf)] t6 else t6)"
  have built: "build_identity_table cf fuel = Some (map_section_mmio 0xfc400000 0xfc400000 (map_section_mmio 0xf9000000 0xf9000000 t7))"
    by (cases "mm_entry cf") (simp_all only: build_identity_table_def l1 l2 l3 t6_def t7_def Let_def option.case if_True if_False)
  have t6: "t6 s = (if s = 0xde6 \<or> s = 0xde5 then nth_section s OR STAGE90_PMAP_DESC_SECTION_RAM_CONSOLE (mm_attr cf)
      else if s = 0x0fa then nth_section s OR STAGE90_PMAP_DESC_SECTION_SO
      else if s = 0xc40 then nth_section 0xf90 OR STAGE90_PMAP_DESC_SECTION_SO
      else if 0xc00 \<le> s \<and> s < 0xc00 + min 64 n then nth_section (s - 0xc00) OR STAGE90_PMAP_DESC_SECTION_DRAM (mm_attr cf)
      else if s < n then nth_section s OR STAGE90_PMAP_DESC_SECTION_DRAM (mm_attr cf) else 0)" for s
    by (simp only: t6_def map_section_mmio_def fixed_sections map_section_at fun_upd_apply
        image_fold [OF n] alias_fold [OF min.cobounded1]) simp
  have t7: "t7 s = (if mm_entry cf \<and> SECTION_INDEX (mm_entry_base cf) \<le> s \<and> s < SECTION_INDEX (mm_entry_base cf) + sections_of (mm_entry_limit cf)
      then nth_section s OR STAGE90_PMAP_DESC_SECTION_DRAM (mm_attr cf) else t6 s)" for s
    by (simp add: t7_def window_fold bound)
  show ?thesis
    by (simp only: built option.inject fun_eq_iff map_section_mmio_def fixed_sections map_section_at fun_upd_apply t7 t6
        identity_entries_def Let_def n_def) simp
qed

subsection \<open>Translation\<close>

lemma section_entry_section:
  assumes "p < 4096"
  shows "section_entry (nth_section p OR STAGE90_PMAP_DESC_SECTION_DRAM mode) (nth_section p) (dram_type mode)"
    and "section_entry (nth_section p OR STAGE90_PMAP_DESC_SECTION_RAM_CONSOLE mode) (nth_section p) (console_type mode)"
    and "section_entry (nth_section p OR STAGE90_PMAP_DESC_SECTION_SO) (nth_section p) Strongly_Ordered"
  using section_desc_entry [of "nth_section p"] by (simp_all add: nth_section_masked)

definition entry_shows :: "u32 \<Rightarrow> (nat \<times> mem_type) option \<Rightarrow> bool" where
  "entry_shows e r = (case r of None \<Rightarrow> e = 0 | Some (p, ty) \<Rightarrow> section_entry e (nth_section p) ty)"

lemma identity_table_never_built:
  "0xfff00000 < mm_image_end cf \<Longrightarrow> build_identity_table cf fuel = None"
  using section_loop_diverges [of "mm_image_end cf" 0] by (simp add: build_identity_table_def nth_section_0)

lemma entry_shows_walk:
  assumes "entry_shows (t (SECTION_INDEX va)) (mapped_section ws (SECTION_INDEX va))"
  shows "l1_walk l2 t va = window_translation ws va"
proof (cases "mapped_section ws (SECTION_INDEX va)")
  case None
  then show ?thesis using assms
    by (simp add: entry_shows_def window_translation_def l1_walk_def SECTION_INDEX_def)
next
  case (Some r)
  obtain p ty where r: "r = (p, ty)" by (cases r)
  have "nth_section p AND 0xfff00000 = nth_section p"
    using nth_section_masked [of p] by (simp add: L1_SECTION_MASK_def)
  then show ?thesis using assms Some r
    by (simp add: entry_shows_def window_translation_def l1_walk_section)
qed

lemma entry_shows_if:
  assumes "c = (v \<le> s \<and> s < v + k)" and "c \<Longrightarrow> section_entry a (nth_section (p + (s - v))) ty"
    and "\<not> c \<Longrightarrow> entry_shows b (mapped_section ws s)"
  shows "entry_shows (if c then a else b) (mapped_section ((v, k, p, ty) # ws) s)"
  using assms by (auto simp: entry_shows_def)

lemma identity_entries_show:
  assumes "s < 4096"
  shows "entry_shows (identity_entries cf s) (mapped_section (identity_map cf) s)"
  unfolding identity_entries_def identity_map_def Let_def
  using assms by (intro entry_shows_if) (auto simp: section_entry_section entry_shows_def)

lemma identity_table_translates:
  assumes "mmu_bounds cf" and "4096 < fuel"
  shows "\<exists>t. build_identity_table cf fuel = Some t \<and>
    (\<forall>l2 va. l1_walk l2 t va = window_translation (identity_map cf) va)"
  using identity_table_built [OF assms] identity_entries_show [OF SECTION_INDEX_less]
  by (auto intro: entry_shows_walk)

lemma identity_map_one_type:
  assumes "mmu_bounds cf" "s < 4096" "s' < 4096"
    and "mapped_section (identity_map cf) s = Some (p, ty)" and "mapped_section (identity_map cf) s' = Some (p, ty')"
  shows "ty = ty'"
proof -
  define e m k where "e = SECTION_INDEX (mm_entry_base cf)" "m = min 64 (sections_of (mm_image_end cf))"
    "k = (if mm_entry cf then sections_of (mm_entry_limit cf) else 0)"
  have "k = 0 \<or> e + k \<le> 0xc00"
  proof (cases "0 < k")
    case True
    then have entry: "mm_entry cf" and last: "k - 1 < sections_of (mm_entry_limit cf)" by (auto simp: e_m_k_def split: if_splits)
    have "unat (mm_entry_base cf) + (k - 1) * 0x100000 < 0xc0000000"
      using sections_of_bound [OF last] assms(1) entry by (simp add: mmu_bounds_def)
    then show ?thesis using True by (simp add: e_m_k_def(1) SECTION_INDEX_div)
  qed simp
  moreover have "m \<le> 64" by (simp add: e_m_k_def)
  ultimately show ?thesis using assms(2-5) unfolding identity_map_def
    by (simp flip: e_m_k_def split: if_splits) (linarith+)
qed

end
