(* ===== verification/Mmu_Recovery.thy ===== *)
theory Mmu_Recovery
  imports Mmu_Identity
begin

text \<open>
  The recovery table of the TTBR0 round trip: what it maps, with which types, and where it agrees
  with the live identity table.
\<close>

unbundle bit_operations_syntax

definition recovery_word :: "mmu_cfg \<Rightarrow> nat \<Rightarrow> u32" where
  "recovery_word cf s = ttbr_section_word_pa cf (nth_section s)"

definition recovery_type :: "mmu_cfg \<Rightarrow> nat \<Rightarrow> mem_type" where
  "recovery_type cf s =
    (if s = 0x0fa \<or> mm_gic_dist cf \<noteq> 0 \<and> s = SECTION_INDEX (mm_gic_dist cf) \<or> s = 0xfc4 then Strongly_Ordered
     else if s = 0xde5 then console_type (mm_attr cf) else dram_type (mm_attr cf))"

lemma ttbr_section_word_section: "recovery_word cf (SECTION_INDEX va) = ttbr_section_word_pa cf va"
proof -
  have "nth_section (SECTION_INDEX va) AND L1_SECTION_MASK = va AND L1_SECTION_MASK"
    by (simp only: section_base [of va] nth_section_masked)
  then show ?thesis by (simp only: recovery_word_def ttbr_section_word_pa_def ttbr_section_desc_for_pa_def)
qed

lemma ttbr_map_section:
  "ttbr_map_section_pa cf va va = (\<lambda>t. t(SECTION_INDEX va := recovery_word cf (SECTION_INDEX va)))"
  by (rule ext) (simp only: ttbr_map_section_pa_def SECTION_INDEX_less ttbr_section_word_section if_True)

lemma nth_section_eq: "a < 4096 \<Longrightarrow> b < 4096 \<Longrightarrow> (nth_section a = nth_section b) = (a = b)"
  using SECTION_INDEX_nth_section by metis

lemma recovery_word_entry:
  assumes "s < 4096"
  shows "section_entry (recovery_word cf s) (nth_section s) (recovery_type cf s)"
proof -
  have "MSM_IMEM_BASE_PHYS AND L1_SECTION_MASK = nth_section 0x0fa" "MSM8974_PSHOLD AND L1_SECTION_MASK = nth_section 0xfc4"
    "RAM_CONSOLE_BASE AND L1_SECTION_MASK = nth_section 0xde5"
    by (simp_all add: section_base SECTION_INDEX_div MSM_IMEM_BASE_PHYS_def MSM8974_PSHOLD_def RAM_CONSOLE_BASE_def)
  then show ?thesis using assms SECTION_INDEX_less [of "mm_gic_dist cf"]
    by (auto simp: recovery_word_def recovery_type_def ttbr_section_word_pa_def ttbr_section_desc_for_pa_def Let_def
        nth_section_masked nth_section_eq section_base [of "mm_gic_dist cf"] section_entry_section)
qed

lemma identity_range_loop_fold:
  assumes "k \<le> Suc l" and "l < 4095" and "Suc l - k < n"
  shows "identity_range_loop cf n (nth_section k) (nth_section l) t
    = Some (\<lambda>s. if k \<le> s \<and> s \<le> l then recovery_word cf s else t s)"
  using assms
proof (induction n arbitrary: k t)
  case (Suc n)
  have k: "k < 4096" using Suc.prems(1,2) by linarith
  have le: "(nth_section k \<le> nth_section l) = (k \<le> l)"
    using k Suc.prems(2) by (simp add: word_le_nat_alt unat_nth_section)
  show ?case
  proof (cases "k \<le> l")
    case True
    have past: "\<not> nth_section k > 0xffffffff - L1_SECTION_SIZE"
      using True Suc.prems(2) by (simp add: word_less_nat_alt unat_nth_section L1_SECTION_SIZE_def)
    have "identity_range_loop cf n (nth_section (Suc k)) (nth_section l) (t(k := recovery_word cf k))
        = Some (\<lambda>s. if Suc k \<le> s \<and> s \<le> l then recovery_word cf s else (t(k := recovery_word cf k)) s)"
      using Suc.prems True by (intro Suc.IH) auto
    then show ?thesis using True k past le
      by (auto simp: ttbr_map_section SECTION_INDEX_nth_section nth_section_Suc fun_eq_iff)
  next
    case False
    then show ?thesis using le by (auto simp: fun_eq_iff)
  qed
qed simp

lemma recovery_update: "(t(i := recovery_word cf i)) s = (if s = i then recovery_word cf s else t s)"
  by simp

lemma if_or: "(if a then x else if b then x else y) = (if a \<or> b then x else y)"
  by simp

definition recovery_sections :: "mmu_cfg \<Rightarrow> u32 \<Rightarrow> u32 \<Rightarrow> u32 \<Rightarrow> nat set" where
  "recovery_sections cf sp vector_base l1_base =
    {..SECTION_INDEX (mm_image_end cf - 1)} \<union>
    {SECTION_INDEX sp, SECTION_INDEX vector_base, SECTION_INDEX l1_base, 0xde5, 0xde6, 0x0fa,
     SECTION_INDEX (mm_gic_dist cf), 0xfc4}"

lemma recovery_table_built:
  assumes "STAGE90_BASE < mm_image_end cf" and "mm_image_end cf \<le> 0xfff00000" and "4096 < fuel"
  shows "stage90_ttbr0_build_recovery_table cf fuel sp vector_base l1_base =
    Some (\<lambda>s. if s \<in> recovery_sections cf sp vector_base l1_base then recovery_word cf s else 0)"
proof -
  define l where "l = SECTION_INDEX (mm_image_end cf - 1)"
  have "unat (mm_image_end cf - 1) < 0xfff00000"
    using assms(1,2) by (simp add: unat_sub_if' word_less_nat_alt word_le_nat_alt STAGE90_BASE_def)
  then have l: "l < 4095" by (simp add: l_def SECTION_INDEX_div less_mult_imp_div_less)
  have "STAGE90_BASE AND L1_SECTION_MASK = nth_section 0"
    by (simp add: section_base SECTION_INDEX_div STAGE90_BASE_def)
  moreover have "\<not> mm_image_end cf \<le> STAGE90_BASE" using assms(1) by simp
  ultimately have range: "ttbr_map_identity_range cf fuel STAGE90_BASE (mm_image_end cf) (\<lambda>_. 0)
      = Some (\<lambda>s. if s \<le> l then recovery_word cf s else 0)"
    using identity_range_loop_fold [of 0 l fuel cf "\<lambda>_. 0"] l assms(3)
    by (simp add: ttbr_map_identity_range_def section_base [of "mm_image_end cf - 1"] flip: l_def)
  have "SECTION_INDEX MSM8974_PSHOLD = 0xfc4" "SECTION_INDEX MSM_IMEM_BASE_PHYS = 0x0fa"
    "SECTION_INDEX RAM_CONSOLE_BASE = 0xde5" "SECTION_INDEX (RAM_CONSOLE_BASE + L1_SECTION_SIZE) = 0xde6"
    by (simp_all add: SECTION_INDEX_div MSM8974_PSHOLD_def MSM_IMEM_BASE_PHYS_def RAM_CONSOLE_BASE_def L1_SECTION_SIZE_def)
  moreover have "(if mm_image_end cf \<le> STAGE90_BASE then STAGE90_BASE + 4 else mm_image_end cf) = mm_image_end cf"
    by (simp add: \<open>\<not> mm_image_end cf \<le> STAGE90_BASE\<close>)
  ultimately show ?thesis
    by (simp only: stage90_ttbr0_build_recovery_table_def Let_def ttbr_map_section range option.map
        recovery_sections_def fun_eq_iff recovery_update if_or option.inject flip: l_def)
      (simp add: disj_ac)
qed


subsection \<open>Agreement with the live table\<close>

text \<open>The bounds the link and the build switches keep: the image fits the alias window and ends below
  the fixed windows, the entry window is in the memory bank below the aliases, the stack, the vectors and
  the tables are in the image, the interrupt controller is where the device tree puts it.\<close>

definition mmu_layout :: "mmu_cfg \<Rightarrow> bool" where
  "mmu_layout cf = (STAGE90_BASE < mm_image_end cf \<and> mm_image_end cf \<le> STAGE90_IMAGE_ALIAS_WINDOW \<and>
    (mm_entry cf \<longrightarrow> RAM_PHYS_BASE \<le> mm_entry_base cf \<and> unat (mm_entry_base cf) + unat (mm_entry_limit cf) \<le> 0xc0000000) \<and>
    SECTION_INDEX (mm_gic_dist cf) = 0xf90 \<and> SECTION_INDEX (mm_gic_cpu cf) = 0xf90)"

lemma mmu_layout_bounds: "mmu_layout cf \<Longrightarrow> mmu_bounds cf"
  by (auto simp: mmu_layout_def mmu_bounds_def STAGE90_IMAGE_ALIAS_WINDOW_def elim: order_trans)

lemma in_image_section:
  assumes "a < mm_image_end cf"
  shows "SECTION_INDEX a < sections_of (mm_image_end cf)"
  using assms by (simp add: SECTION_INDEX_div sections_of_def word_less_nat_alt)

lemma image_sections_le: "mmu_layout cf \<Longrightarrow> sections_of (mm_image_end cf) \<le> 64"
  using div_le_mono [where m = "unat (mm_image_end cf) + 0xfffff" and n = "0x40fffff" and k = "0x100000"]
  by (clarsimp simp: mmu_layout_def sections_of_def STAGE90_IMAGE_ALIAS_WINDOW_def word_le_nat_alt)

lemma entry_section_ge: "mmu_layout cf \<Longrightarrow> mm_entry cf \<Longrightarrow> 0x800 \<le> SECTION_INDEX (mm_entry_base cf)"
  using div_le_mono [where m = "0x80000000" and n = "unat (mm_entry_base cf)" and k = "0x100000"]
  by (clarsimp simp: mmu_layout_def SECTION_INDEX_div RAM_PHYS_BASE_def word_le_nat_alt)

lemma entry_section_end:
  assumes "mmu_bounds cf" and "s < SECTION_INDEX (mm_entry_base cf) + (if mm_entry cf then sections_of (mm_entry_limit cf) else 0)"
    and "SECTION_INDEX (mm_entry_base cf) \<le> s"
  shows "s < 0xc00"
proof -
  define k where "k = sections_of (mm_entry_limit cf)"
  have entry: "mm_entry cf" and k: "k - 1 < sections_of (mm_entry_limit cf)" "s < SECTION_INDEX (mm_entry_base cf) + k"
    using assms(2,3) by (auto simp: k_def split: if_splits)
  have "unat (mm_entry_base cf) + (k - 1) * 0x100000 < 0xc0000000"
    using sections_of_bound [OF k(1)] assms(1) entry by (simp add: mmu_bounds_def)
  then show ?thesis using k assms(3) by (simp add: SECTION_INDEX_div)
qed

lemma recovery_sections_live:
  assumes "mmu_layout cf" and "sp < mm_image_end cf" "vb < mm_image_end cf" "l1 < mm_image_end cf"
    and "s \<in> recovery_sections cf sp vb l1" and "s < 4096"
  shows "mapped_section (identity_map cf) s =
    Some (s, if s = 0xde6 then console_type (mm_attr cf) else recovery_type cf s)"
proof -
  define n k where "n = sections_of (mm_image_end cf)" "k = (if mm_entry cf then sections_of (mm_entry_limit cf) else 0)"
  have n: "n \<le> 64" "0 < n" using image_sections_le [OF assms(1)] in_image_section [OF assms(2)] by (auto simp: n_k_def)
  have "mm_image_end cf - 1 < mm_image_end cf"
    using assms(2) by (cases "mm_image_end cf = 0") (simp_all add: word_less_nat_alt unat_minus_one unat_gt_0)
  then have last: "SECTION_INDEX (mm_image_end cf - 1) < n" using in_image_section by (simp add: n_k_def)
  have gic: "SECTION_INDEX (mm_gic_dist cf) = 0xf90" using assms(1) by (simp add: mmu_layout_def)
  then have "mm_gic_dist cf \<noteq> 0" by (auto simp: SECTION_INDEX_div)
  have cases: "s < n \<or> s = 0xde5 \<or> s = 0xde6 \<or> s = 0x0fa \<or> s = 0xf90 \<or> s = 0xfc4"
    using assms(5) last in_image_section [OF assms(2)] in_image_section [OF assms(3)] in_image_section [OF assms(4)]
    by (auto simp: recovery_sections_def gic n_k_def)
  have entry: "\<not> (SECTION_INDEX (mm_entry_base cf) \<le> s \<and>
      s < SECTION_INDEX (mm_entry_base cf) + k)"
    using cases n entry_section_ge [OF assms(1)] entry_section_end [OF mmu_layout_bounds [OF assms(1)], of s]
    by (cases "mm_entry cf") (auto simp: n_k_def)
  show ?thesis using cases n gic \<open>mm_gic_dist cf \<noteq> 0\<close> entry
    unfolding identity_map_def recovery_type_def
    by (elim disjE) (auto simp flip: n_k_def)
qed


lemma section_and_offset: "(va AND 0xfff00000) OR (va AND 0x000fffff) = (va :: u32)"
proof -
  have "(va AND 0xfff00000) OR (va AND 0x000fffff) = va AND 0xffffffff" by (simp flip: bit.conj_disj_distrib)
  also have "(0xffffffff :: u32) = - 1" by simp
  finally show ?thesis by simp
qed

lemma l1_walk_entry:
  assumes "section_entry (t (SECTION_INDEX va)) (nth_section (SECTION_INDEX va)) ty"
  shows "l1_walk l2 t va = Some (va, ty)"
proof -
  have "nth_section (SECTION_INDEX va) AND 0xfff00000 = va AND 0xfff00000"
    using section_base [of va] nth_section_masked [of "SECTION_INDEX va"] by (simp add: L1_SECTION_MASK_def)
  then show ?thesis using l1_walk_section [where t = t and va = va, OF assms] section_and_offset by simp
qed

lemma recovery_table_agrees:
  assumes "mmu_layout cf" and "sp < mm_image_end cf" "vb < mm_image_end cf" "l1 < mm_image_end cf" and "4096 < fuel"
  shows "\<exists>t r. build_identity_table cf fuel = Some t \<and> stage90_ttbr0_build_recovery_table cf fuel sp vb l1 = Some r \<and>
    (\<forall>l2 va. SECTION_INDEX va \<in> recovery_sections cf sp vb l1 \<longrightarrow>
       l1_walk l2 r va = Some (va, recovery_type cf (SECTION_INDEX va)) \<and>
       l1_walk l2 t va = Some (va, if SECTION_INDEX va = 0xde6 then console_type (mm_attr cf) else recovery_type cf (SECTION_INDEX va))) \<and>
    (\<forall>l2 va. SECTION_INDEX va \<notin> recovery_sections cf sp vb l1 \<longrightarrow> l1_walk l2 r va = None)"
proof -
  have bounds: "mmu_bounds cf" by (rule mmu_layout_bounds) fact
  define r where "r = (\<lambda>s. if s \<in> recovery_sections cf sp vb l1 then recovery_word cf s else 0)"
  have "stage90_ttbr0_build_recovery_table cf fuel sp vb l1 = Some r"
    using assms bounds unfolding r_def by (intro recovery_table_built) (auto simp: mmu_layout_def mmu_bounds_def)
  moreover have "l1_walk l2 r va = Some (va, recovery_type cf (SECTION_INDEX va))"
    if "SECTION_INDEX va \<in> recovery_sections cf sp vb l1" for l2 va
    using that recovery_word_entry [OF SECTION_INDEX_less] by (intro l1_walk_entry) (simp add: r_def)
  moreover have "l1_walk l2 r va = None" if "SECTION_INDEX va \<notin> recovery_sections cf sp vb l1" for l2 va
    using that by (simp add: r_def l1_walk_def SECTION_INDEX_def)
  moreover have "window_translation (identity_map cf) va =
      Some (va, if SECTION_INDEX va = 0xde6 then console_type (mm_attr cf) else recovery_type cf (SECTION_INDEX va))"
    if "SECTION_INDEX va \<in> recovery_sections cf sp vb l1" for va
  proof -
    have "nth_section (SECTION_INDEX va) OR (va AND 0x000fffff) = va"
      using section_base [of va] section_and_offset [of va] by (simp add: L1_SECTION_MASK_def)
    then show ?thesis
      using recovery_sections_live [OF assms(1-4) that SECTION_INDEX_less] by (simp add: window_translation_def)
  qed
  ultimately show ?thesis
    using identity_table_translates [OF bounds assms(5)] by auto
qed

end
