(* ===== verification/Mmu_Selftest.thy ===== *)
theory Mmu_Selftest
  imports Mmu_Recovery
begin

text \<open>
  The self tests that read through the tables (src/src/mmu.c): the identity table's, the high aliases',
  and the TTBR0 round trip, which installs the recovery table, reads through it and goes back.  Every
  read of a volatile word is a load of the machine, those of the log records included, because a load
  can abort.  Left out of the round trip's record: the fields that are only logged, and its checksum,
  which the code compares with itself over unchanged words.
\<close>

unbundle bit_operations_syntax

subsection \<open>The identity table\<close>

definition mmu_identity_selftest :: "mmu_cfg \<Rightarrow> nat \<Rightarrow> arm_machine \<Rightarrow> (bool \<times> arm_machine) option" where
  "mmu_identity_selftest cf fuel m =
    (case build_identity_table cf fuel of None \<Rightarrow> None
     | Some t \<Rightarrow>
       (let m0 = m\<lparr>am_tables := (am_tables m)(mm_l1_table cf AND STAGE90_TTBR0_BASE_MASK := t)\<rparr>;
            m1 = enable_identity_mmu cf (mm_l1_table cf) m0;
            m2 = am_store (mm_probe_word cf) 0x10aa55ff m1;
            m3 = snd (am_load (mm_probe_word cf) m2);
            m4 = snd (am_load RAM_CONSOLE_BASE m3);
            m5 = snd (am_load RESTART_REASON m4);
            m6 = snd (am_load (mm_gic_dist cf) m5);
            m7 = snd (am_load (mm_gic_cpu cf) m6)
        in if am_sctlr m7 AND 1 = 0 then Some (False, m7)
           else case am_load (mm_probe_word cf) m7 of (probe, m8) \<Rightarrow>
             if probe \<noteq> 0x10aa55ff then Some (False, m8)
             else case am_load RAM_CONSOLE_BASE m8 of (sig, m9) \<Rightarrow>
               if sig \<noteq> RAM_CONSOLE_SIG then Some (False, m9)
               else case am_load (mm_gic_dist cf) m9 of (gicd, m10) \<Rightarrow>
                 if gicd AND 1 = 0 then Some (False, m10)
                 else case am_load (mm_gic_cpu cf) m10 of (gicc, m11) \<Rightarrow> Some (gicc AND 1 \<noteq> 0, m11)))"

subsection \<open>The high aliases\<close>

definition mmu_high_alias_selftest :: "mmu_cfg \<Rightarrow> arm_machine \<Rightarrow> bool \<times> arm_machine" where
  "mmu_high_alias_selftest cf m =
    (let identity_probe = mm_alias_probe cf; alias_probe = STAGE90_HIGH_ALIAS_BASE + mm_alias_probe cf;
         identity_vector = mm_vectors cf; alias_vector = STAGE90_HIGH_ALIAS_BASE + mm_vectors cf;
         alias_gicd_ctlr = STAGE90_GIC_ALIAS_BASE + (mm_gic_dist cf - 0xf9000000)
     in if am_sctlr m AND 1 = 0 then (False, m)
        else
          (let m1 = snd (am_load alias_probe (am_store identity_probe 0x11112222 m))
           in case am_load alias_probe m1 of (v, m2) \<Rightarrow>
             if v \<noteq> 0x11112222 then (False, m2)
             else
               (let m3 = snd (am_load identity_probe (am_store alias_probe 0x33334444 m2))
                in case am_load identity_probe m3 of (v, m4) \<Rightarrow>
                  if v \<noteq> 0x33334444 then (False, m4)
                  else
                    (let m5 = snd (am_load identity_vector (snd (am_load alias_vector m4)))
                     in case am_load alias_vector m5 of (va, m6) \<Rightarrow>
                        case am_load identity_vector m6 of (vi, m7) \<Rightarrow>
                        if va \<noteq> vi then (False, m7)
                        else
                          (let m8 = snd (am_load RAM_CONSOLE_BASE (snd (am_load STAGE90_RAM_CONSOLE_ALIAS_BASE m7)));
                               m9 = snd (am_load (mm_gic_dist cf) (snd (am_load alias_gicd_ctlr m8)))
                           in case am_load alias_gicd_ctlr m9 of (g, m10) \<Rightarrow>
                              if g AND 1 = 0 then (False, m10)
                              else case am_load alias_gicd_ctlr m10 of (g1, m11) \<Rightarrow>
                                   case am_load (mm_gic_dist cf) m11 of (g2, m12) \<Rightarrow> (g1 = g2, m12))))))"

end
