(* ===== verification/Mmu_Roundtrip.thy ===== *)
theory Mmu_Roundtrip
  imports Mmu_Selftest
begin

text \<open>
  The TTBR0 round trip of src/src/mmu.c: the registers are saved, the recovery table is built at its own
  address and read back, TTBR0 is pointed at it for the time of a few reads, and set back.  A jump to the
  label \<open>finish\<close> with the live table still in place is a step whose condition failed.
\<close>

unbundle bit_operations_syntax

subsection \<open>The record\<close>

record stage90_ttbr0_roundtrip =
  rt_status :: u32
  rt_original_sctlr :: u32
  rt_original_ttbr0 :: u32
  rt_original_ttbcr :: u32
  rt_original_dacr :: u32
  rt_original_vbar :: u32
  rt_stage_l1_base :: u32
  rt_stage_l1_limit :: u32
  rt_stage_l1_checksum_before :: u32
  rt_stage_l1_checksum_after :: u32
  rt_current_sp :: u32
  rt_vector_base :: u32
  rt_image_end :: u32
  rt_mapping_present_mask :: u32
  rt_mapping_failure_mask :: u32
  rt_switched_ttbr0 :: u32
  rt_switched_ttbcr :: u32
  rt_switched_dacr :: u32
  rt_switched_sctlr :: u32
  rt_restored_ttbr0 :: u32
  rt_restored_ttbcr :: u32
  rt_restored_dacr :: u32
  rt_restored_sctlr :: u32
  rt_cache_bits_before :: u32
  rt_cache_bits_during :: u32
  rt_cache_bits_after :: u32
  rt_selftest_probe_before :: u32
  rt_selftest_probe_during :: u32
  rt_selftest_probe_after :: u32
  rt_ram_console_sig_during :: u32
  rt_gicd_ctlr_during :: u32
  rt_gicc_ctlr_during :: u32
  rt_timer_freq_during :: u32
  rt_restart_reason_during :: u32
  rt_ttbr0_write_count :: u32
  rt_tlb_invalidate_count :: u32
  rt_caches_changed :: u32
  rt_satisfied_mask :: u32
  rt_failure_mask :: u32

definition rt_zero :: stage90_ttbr0_roundtrip where
  "rt_zero = \<lparr>rt_status = 0, rt_original_sctlr = 0, rt_original_ttbr0 = 0, rt_original_ttbcr = 0, rt_original_dacr = 0,
     rt_original_vbar = 0, rt_stage_l1_base = 0, rt_stage_l1_limit = 0, rt_stage_l1_checksum_before = 0,
     rt_stage_l1_checksum_after = 0, rt_current_sp = 0, rt_vector_base = 0, rt_image_end = 0, rt_mapping_present_mask = 0,
     rt_mapping_failure_mask = 0, rt_switched_ttbr0 = 0, rt_switched_ttbcr = 0, rt_switched_dacr = 0, rt_switched_sctlr = 0,
     rt_restored_ttbr0 = 0, rt_restored_ttbcr = 0, rt_restored_dacr = 0, rt_restored_sctlr = 0, rt_cache_bits_before = 0,
     rt_cache_bits_during = 0, rt_cache_bits_after = 0, rt_selftest_probe_before = 0, rt_selftest_probe_during = 0,
     rt_selftest_probe_after = 0, rt_ram_console_sig_during = 0, rt_gicd_ctlr_during = 0, rt_gicc_ctlr_during = 0,
     rt_timer_freq_during = 0, rt_restart_reason_during = 0, rt_ttbr0_write_count = 0, rt_tlb_invalidate_count = 0,
     rt_caches_changed = 0, rt_satisfied_mask = 0, rt_failure_mask = 0\<rparr>"

definition STAGE90_STATUS_OK :: u32 where "STAGE90_STATUS_OK = 0x90000001"
definition STAGE90_STATUS_BASE :: u32 where "STAGE90_STATUS_BASE = 0x90000000"
definition STAGE90_STATUS_FAIL :: "u32 \<Rightarrow> u32" where
  "STAGE90_STATUS_FAIL msk = STAGE90_STATUS_BASE OR 0x40000000 OR (msk AND 0x3fffffff)"
definition STAGE90_TTBR_RT_CACHE_MASK :: u32 where "STAGE90_TTBR_RT_CACHE_MASK = push_bit 2 1 OR push_bit 12 1"

definition SAT_PREFLIGHT :: u32 where "SAT_PREFLIGHT = 0x00000001"
definition SAT_TABLE_ALIGNED :: u32 where "SAT_TABLE_ALIGNED = 0x00000002"
definition SAT_STAGE_OWNED_TABLE :: u32 where "SAT_STAGE_OWNED_TABLE = 0x00000004"
definition SAT_REQUIRED_MAPPINGS :: u32 where "SAT_REQUIRED_MAPPINGS = 0x00000008"
definition SAT_DESCRIPTOR_READBACK :: u32 where "SAT_DESCRIPTOR_READBACK = 0x00000010"
definition SAT_STATE_SAVED :: u32 where "SAT_STATE_SAVED = 0x00000020"
definition SAT_CACHE_BITS_PRESERVED :: u32 where "SAT_CACHE_BITS_PRESERVED = 0x00000040"
definition SAT_SWITCHED_TO_STAGE_L1 :: u32 where "SAT_SWITCHED_TO_STAGE_L1 = 0x00000080"
definition SAT_DURING_SELFTEST :: u32 where "SAT_DURING_SELFTEST = 0x00000100"
definition SAT_ORIGINAL_RESTORED :: u32 where "SAT_ORIGINAL_RESTORED = 0x00000200"
definition SAT_POST_RESTORE_SELFTEST :: u32 where "SAT_POST_RESTORE_SELFTEST = 0x00000400"
definition SAT_NO_XNU_EXEC :: u32 where "SAT_NO_XNU_EXEC = 0x00000800"
definition SAT_NO_MACHO_EXEC :: u32 where "SAT_NO_MACHO_EXEC = 0x00001000"
definition SAT_NO_PROPOSED_PHYS_WRITE :: u32 where "SAT_NO_PROPOSED_PHYS_WRITE = 0x00002000"
definition SAT_NO_PROPOSED_TTE_WRITE :: u32 where "SAT_NO_PROPOSED_TTE_WRITE = 0x00004000"
definition SAT_NO_PERSIST_WRITE :: u32 where "SAT_NO_PERSIST_WRITE = 0x00008000"
definition SAT_REQUIRED :: u32 where "SAT_REQUIRED = 0x0000ffff"

definition FAIL_PREFLIGHT :: u32 where "FAIL_PREFLIGHT = 0x00000001"
definition FAIL_ALIGNMENT :: u32 where "FAIL_ALIGNMENT = 0x00000002"
definition FAIL_OWNERSHIP :: u32 where "FAIL_OWNERSHIP = 0x00000004"
definition FAIL_MAPPING :: u32 where "FAIL_MAPPING = 0x00000008"
definition FAIL_DESCRIPTOR :: u32 where "FAIL_DESCRIPTOR = 0x00000010"
definition FAIL_STATE_SAVE :: u32 where "FAIL_STATE_SAVE = 0x00000020"
definition FAIL_CACHE_CHANGE :: u32 where "FAIL_CACHE_CHANGE = 0x00000040"
definition FAIL_SWITCH :: u32 where "FAIL_SWITCH = 0x00000080"
definition FAIL_DURING_SELFTEST :: u32 where "FAIL_DURING_SELFTEST = 0x00000100"
definition FAIL_RESTORE :: u32 where "FAIL_RESTORE = 0x00000200"
definition FAIL_POST_RESTORE :: u32 where "FAIL_POST_RESTORE = 0x00000400"
definition FAIL_SAFETY :: u32 where "FAIL_SAFETY = 0x80000000"

definition MAP_LOW_STAGE :: u32 where "MAP_LOW_STAGE = 0x00000001"
definition MAP_STACK :: u32 where "MAP_STACK = 0x00000002"
definition MAP_VECTOR :: u32 where "MAP_VECTOR = 0x00000004"
definition MAP_TABLE :: u32 where "MAP_TABLE = 0x00000008"
definition MAP_RAM_CONSOLE0 :: u32 where "MAP_RAM_CONSOLE0 = 0x00000010"
definition MAP_RAM_CONSOLE1 :: u32 where "MAP_RAM_CONSOLE1 = 0x00000020"
definition MAP_IMEM :: u32 where "MAP_IMEM = 0x00000040"
definition MAP_GIC_TIMER :: u32 where "MAP_GIC_TIMER = 0x00000080"
definition MAP_PSHOLD :: u32 where "MAP_PSHOLD = 0x00000100"
definition MAP_REQUIRED :: u32 where "MAP_REQUIRED = 0x000001ff"

definition rt_satisfy :: "u32 \<Rightarrow> stage90_ttbr0_roundtrip \<Rightarrow> stage90_ttbr0_roundtrip" where
  "rt_satisfy msk rt = rt\<lparr>rt_satisfied_mask := rt_satisfied_mask rt OR msk\<rparr>"

definition rt_fail :: "u32 \<Rightarrow> stage90_ttbr0_roundtrip \<Rightarrow> stage90_ttbr0_roundtrip" where
  "rt_fail msk rt = rt\<lparr>rt_failure_mask := rt_failure_mask rt OR msk\<rparr>"

subsection \<open>Before the switch\<close>

definition ttbr_checksum :: "l1_table \<Rightarrow> u32" where
  "ttbr_checksum t = fold (\<lambda>i c. c XOR t i) [0..<4096] 0"

definition ranges_overlap_u32_local :: "u32 \<Rightarrow> u32 \<Rightarrow> u32 \<Rightarrow> u32 \<Rightarrow> bool" where
  "ranges_overlap_u32_local a a_limit b b_limit =
    (if a_limit \<le> a \<or> b_limit \<le> b then False else a < b_limit \<and> b < a_limit)"

definition roundtrip_begin :: "mmu_cfg \<Rightarrow> arm_machine \<Rightarrow> stage90_ttbr0_roundtrip" where
  "roundtrip_begin cf m = rt_zero\<lparr>rt_status := STAGE90_STATUS_BASE,
     rt_stage_l1_base := mm_roundtrip_l1 cf, rt_stage_l1_limit := mm_roundtrip_l1 cf + 0x4000,
     rt_image_end := mm_image_end cf,
     rt_original_sctlr := am_sctlr m, rt_original_ttbr0 := am_ttbr0 m, rt_original_ttbcr := am_ttbcr m,
     rt_original_dacr := am_dacr m, rt_original_vbar := am_vbar m, rt_current_sp := am_sp m,
     rt_vector_base := am_vbar m, rt_cache_bits_before := am_sctlr m AND STAGE90_TTBR_RT_CACHE_MASK\<rparr>"

definition roundtrip_checks :: "stage90_ttbr0_roundtrip \<Rightarrow> bool \<times> stage90_ttbr0_roundtrip" where
  "roundtrip_checks rt =
    (if rt_original_sctlr rt AND 1 = 0 \<or> rt_original_ttbr0 rt AND STAGE90_TTBR0_BASE_MASK = 0
        \<or> rt_original_ttbcr rt \<noteq> 0 \<or> rt_original_dacr rt AND 3 = 0 \<or> rt_original_vbar rt = 0 \<or> rt_current_sp rt = 0
     then (False, rt_fail (FAIL_PREFLIGHT OR FAIL_STATE_SAVE OR FAIL_SAFETY) rt)
     else
       (let rt1 = rt_satisfy (SAT_PREFLIGHT OR SAT_STATE_SAVED) rt
        in if rt_stage_l1_base rt AND (0x4000 - 1) \<noteq> 0 \<or> rt_stage_l1_limit rt \<le> rt_stage_l1_base rt
           then (False, rt_fail (FAIL_ALIGNMENT OR FAIL_SAFETY) rt1)
           else
             (let rt2 = rt_satisfy SAT_TABLE_ALIGNED rt1
              in if rt_stage_l1_limit rt \<ge> RAM_CONSOLE_BASE
                  \<or> ranges_overlap_u32_local (rt_stage_l1_base rt) (rt_stage_l1_limit rt) RAM_CONSOLE_BASE (RAM_CONSOLE_BASE + RAM_CONSOLE_SIZE)
                  \<or> ranges_overlap_u32_local (rt_stage_l1_base rt) (rt_stage_l1_limit rt) RAM_PHYS_BASE (RAM_PHYS_BASE + L1_SECTION_SIZE)
                 then (False, rt_fail (FAIL_OWNERSHIP OR FAIL_SAFETY) rt2)
                 else (True, rt_satisfy SAT_STAGE_OWNED_TABLE rt2))))"

definition ttbr_record_mapping :: "mmu_cfg \<Rightarrow> l1_table \<Rightarrow> u32 \<Rightarrow> u32 \<Rightarrow> stage90_ttbr0_roundtrip \<Rightarrow> stage90_ttbr0_roundtrip" where
  "ttbr_record_mapping cf t b va rt =
    (if ttbr_verify_section_pa cf t va va then rt\<lparr>rt_mapping_present_mask := rt_mapping_present_mask rt OR b\<rparr>
     else rt_fail (FAIL_MAPPING OR FAIL_DESCRIPTOR) (rt\<lparr>rt_mapping_failure_mask := rt_mapping_failure_mask rt OR b\<rparr>))"

definition roundtrip_mappings :: "stage90_ttbr0_roundtrip \<Rightarrow> mmu_cfg \<Rightarrow> (u32 \<times> u32) list" where
  "roundtrip_mappings rt cf =
    [(MAP_LOW_STAGE, STAGE90_BASE), (MAP_STACK, rt_current_sp rt), (MAP_VECTOR, rt_vector_base rt),
     (MAP_TABLE, rt_stage_l1_base rt), (MAP_RAM_CONSOLE0, RAM_CONSOLE_BASE),
     (MAP_RAM_CONSOLE1, RAM_CONSOLE_BASE + L1_SECTION_SIZE), (MAP_IMEM, MSM_IMEM_BASE_PHYS),
     (MAP_GIC_TIMER, mm_gic_dist cf), (MAP_PSHOLD, MSM8974_PSHOLD)]"

definition roundtrip_readback :: "mmu_cfg \<Rightarrow> l1_table \<Rightarrow> stage90_ttbr0_roundtrip \<Rightarrow> bool \<times> stage90_ttbr0_roundtrip" where
  "roundtrip_readback cf t rt =
    (let rt1 = fold (\<lambda>(b, va). ttbr_record_mapping cf t b va) (roundtrip_mappings rt cf) rt
     in if rt_mapping_present_mask rt1 = MAP_REQUIRED \<and> rt_mapping_failure_mask rt1 = 0
        then (True, rt_satisfy (SAT_REQUIRED_MAPPINGS OR SAT_DESCRIPTOR_READBACK) rt1)
        else (False, rt_fail (FAIL_MAPPING OR FAIL_DESCRIPTOR OR FAIL_SAFETY) rt1))"

subsection \<open>Under the recovery table\<close>

definition roundtrip_switch :: "mmu_cfg \<Rightarrow> l1_table \<Rightarrow> stage90_ttbr0_roundtrip \<Rightarrow> arm_machine \<Rightarrow> stage90_ttbr0_roundtrip \<times> arm_machine" where
  "roundtrip_switch cf t rt m =
    (let rt1 = rt_satisfy (SAT_NO_XNU_EXEC OR SAT_NO_MACHO_EXEC OR SAT_NO_PROPOSED_PHYS_WRITE OR SAT_NO_PROPOSED_TTE_WRITE
           OR SAT_NO_PERSIST_WRITE) (rt\<lparr>rt_stage_l1_checksum_before := ttbr_checksum t\<rparr>);
         (before, m1) = am_load (mm_ttbr0_probe cf) (am_store (mm_ttbr0_probe cf) 0x49aa0001 m);
         m2 = m1\<lparr>am_ttbr0 := rt_stage_l1_base rt\<rparr>;
         rt2 = rt1\<lparr>rt_selftest_probe_before := before, rt_ttbr0_write_count := rt_ttbr0_write_count rt1 + 1,
           rt_tlb_invalidate_count := rt_tlb_invalidate_count rt1 + 1,
           rt_switched_ttbr0 := am_ttbr0 m2, rt_switched_ttbcr := am_ttbcr m2, rt_switched_dacr := am_dacr m2,
           rt_switched_sctlr := am_sctlr m2, rt_cache_bits_during := am_sctlr m2 AND STAGE90_TTBR_RT_CACHE_MASK\<rparr>
     in (if rt_switched_ttbr0 rt2 AND STAGE90_TTBR0_BASE_MASK \<noteq> rt_stage_l1_base rt2
            \<or> rt_switched_ttbcr rt2 \<noteq> rt_original_ttbcr rt2 \<or> rt_switched_dacr rt2 \<noteq> rt_original_dacr rt2
            \<or> rt_cache_bits_during rt2 \<noteq> rt_cache_bits_before rt2
         then rt_fail (FAIL_SWITCH OR FAIL_CACHE_CHANGE OR FAIL_SAFETY) rt2
         else rt_satisfy (SAT_SWITCHED_TO_STAGE_L1 OR SAT_CACHE_BITS_PRESERVED) rt2, m2))"

definition roundtrip_during :: "mmu_cfg \<Rightarrow> stage90_ttbr0_roundtrip \<Rightarrow> arm_machine \<Rightarrow> stage90_ttbr0_roundtrip \<times> arm_machine" where
  "roundtrip_during cf rt m =
    (let (probe, m1) = am_load (mm_ttbr0_probe cf) (am_store (mm_ttbr0_probe cf) 0x49aa0002 m);
         (sig, m2) = am_load RAM_CONSOLE_BASE m1;
         (reason, m3) = am_load RESTART_REASON m2;
         (gicd, m4) = am_load (mm_gic_dist cf) m3;
         (gicc, m5) = am_load (mm_gic_cpu cf) m4;
         rt1 = rt\<lparr>rt_selftest_probe_during := probe, rt_ram_console_sig_during := sig, rt_restart_reason_during := reason,
           rt_gicd_ctlr_during := gicd, rt_gicc_ctlr_during := gicc, rt_timer_freq_during := am_cntfrq m5\<rparr>
     in (if rt_selftest_probe_during rt1 = 0x49aa0002 \<and> rt_ram_console_sig_during rt1 = RAM_CONSOLE_SIG
            \<and> rt_gicd_ctlr_during rt1 AND 1 \<noteq> 0 \<and> rt_gicc_ctlr_during rt1 AND 1 \<noteq> 0 \<and> rt_timer_freq_during rt1 = 19200000
         then rt_satisfy SAT_DURING_SELFTEST rt1 else rt_fail (FAIL_DURING_SELFTEST OR FAIL_SAFETY) rt1, m5))"

subsection \<open>Back on the live table\<close>

definition roundtrip_restore :: "mmu_cfg \<Rightarrow> stage90_ttbr0_roundtrip \<Rightarrow> arm_machine \<Rightarrow> stage90_ttbr0_roundtrip \<times> arm_machine" where
  "roundtrip_restore cf rt m =
    (let m1 = m\<lparr>am_ttbr0 := rt_original_ttbr0 rt\<rparr>;
         checksum_after = ttbr_checksum (am_tables m1 (rt_stage_l1_base rt));
         (probe, m2) = am_load (mm_ttbr0_probe cf) (am_store (mm_ttbr0_probe cf) 0x49aa0003 m1);
         rt1 = rt\<lparr>rt_ttbr0_write_count := rt_ttbr0_write_count rt + 1, rt_tlb_invalidate_count := rt_tlb_invalidate_count rt + 1,
           rt_restored_ttbr0 := am_ttbr0 m1, rt_restored_ttbcr := am_ttbcr m1, rt_restored_dacr := am_dacr m1,
           rt_restored_sctlr := am_sctlr m1, rt_cache_bits_after := am_sctlr m1 AND STAGE90_TTBR_RT_CACHE_MASK,
           rt_stage_l1_checksum_after := checksum_after, rt_selftest_probe_after := probe\<rparr>;
         rt2 = (if rt_restored_ttbr0 rt1 AND STAGE90_TTBR0_BASE_MASK = rt_original_ttbr0 rt1 AND STAGE90_TTBR0_BASE_MASK
             \<and> rt_restored_ttbcr rt1 = rt_original_ttbcr rt1 \<and> rt_restored_dacr rt1 = rt_original_dacr rt1
             \<and> rt_cache_bits_after rt1 = rt_cache_bits_before rt1
             \<and> rt_stage_l1_checksum_after rt1 = rt_stage_l1_checksum_before rt1
           then rt_satisfy SAT_ORIGINAL_RESTORED rt1 else rt_fail (FAIL_RESTORE OR FAIL_SAFETY) rt1);
         bad = (\<lambda>m'. (rt_fail (FAIL_POST_RESTORE OR FAIL_SAFETY) rt2, m'))
     in if rt_selftest_probe_after rt2 \<noteq> 0x49aa0003 then bad m2
        else case am_load RAM_CONSOLE_BASE m2 of (sig, m3) \<Rightarrow>
          if sig \<noteq> RAM_CONSOLE_SIG then bad m3
          else case am_load (mm_gic_dist cf) m3 of (gicd, m4) \<Rightarrow>
            if gicd AND 1 = 0 then bad m4
            else case am_load (mm_gic_cpu cf) m4 of (gicc, m5) \<Rightarrow>
              if gicc AND 1 = 0 \<or> am_cntfrq m5 \<noteq> 19200000 then bad m5
              else (rt_satisfy SAT_POST_RESTORE_SELFTEST rt2, m5))"

definition roundtrip_finish :: "stage90_ttbr0_roundtrip \<Rightarrow> bool \<times> stage90_ttbr0_roundtrip" where
  "roundtrip_finish rt =
    (let rt1 = rt\<lparr>rt_caches_changed := (if rt_cache_bits_before rt = rt_cache_bits_during rt
             \<and> rt_cache_bits_before rt = rt_cache_bits_after rt then 0 else 1)\<rparr>;
         rt2 = (if rt_caches_changed rt1 \<noteq> 0 then rt_fail (FAIL_CACHE_CHANGE OR FAIL_SAFETY) rt1 else rt1);
         rt3 = rt2\<lparr>rt_status := (if rt_satisfied_mask rt2 = SAT_REQUIRED \<and> rt_failure_mask rt2 = 0
             then STAGE90_STATUS_OK else STAGE90_STATUS_FAIL (rt_failure_mask rt2))\<rparr>
     in (rt_status rt3 = STAGE90_STATUS_OK, rt3))"

definition mmu_stage90_ttbr0_roundtrip_selftest ::
    "mmu_cfg \<Rightarrow> nat \<Rightarrow> arm_machine \<Rightarrow> (bool \<times> stage90_ttbr0_roundtrip \<times> arm_machine) option" where
  "mmu_stage90_ttbr0_roundtrip_selftest cf fuel m =
    (let finish = (\<lambda>(rt, m'). case roundtrip_finish rt of (ok, rt') \<Rightarrow> Some (ok, rt', m'));
         (checked, rt1) = roundtrip_checks (roundtrip_begin cf m)
     in if \<not> checked then finish (rt1, m)
        else case stage90_ttbr0_build_recovery_table cf fuel (rt_current_sp rt1) (rt_vector_base rt1) (rt_stage_l1_base rt1) of
          None \<Rightarrow> None
        | Some t \<Rightarrow>
          (let m1 = m\<lparr>am_tables := (am_tables m)(rt_stage_l1_base rt1 := t)\<rparr>;
               (mapped, rt2) = roundtrip_readback cf t rt1
           in if \<not> mapped then finish (rt2, m1)
              else (let (rt3, m2) = roundtrip_switch cf t rt2 m1; (rt4, m3) = roundtrip_during cf rt3 m2
                    in finish (roundtrip_restore cf rt4 m3))))"

lemma am_load_regs [simp]:
  "am_sctlr (snd (am_load a m)) = am_sctlr m" "am_ttbr0 (snd (am_load a m)) = am_ttbr0 m"
  "am_ttbcr (snd (am_load a m)) = am_ttbcr m" "am_dacr (snd (am_load a m)) = am_dacr m"
  "am_vbar (snd (am_load a m)) = am_vbar m" "am_sp (snd (am_load a m)) = am_sp m"
  "am_cntfrq (snd (am_load a m)) = am_cntfrq m" "am_tables (snd (am_load a m)) = am_tables m"
  by (simp_all add: am_load_def split: option.splits)

lemma am_store_regs [simp]:
  "am_sctlr (am_store a v m) = am_sctlr m" "am_ttbr0 (am_store a v m) = am_ttbr0 m"
  "am_ttbcr (am_store a v m) = am_ttbcr m" "am_dacr (am_store a v m) = am_dacr m"
  "am_vbar (am_store a v m) = am_vbar m" "am_sp (am_store a v m) = am_sp m"
  "am_cntfrq (am_store a v m) = am_cntfrq m" "am_tables (am_store a v m) = am_tables m"
  by (simp_all add: am_store_def split: option.splits)

lemma rt_marks [simp]:
  "rt_ttbr0_write_count (rt_fail msk rt) = rt_ttbr0_write_count rt" "rt_ttbr0_write_count (rt_satisfy msk rt) = rt_ttbr0_write_count rt"
  "rt_original_ttbr0 (rt_fail msk rt) = rt_original_ttbr0 rt" "rt_original_ttbr0 (rt_satisfy msk rt) = rt_original_ttbr0 rt"
  "rt_stage_l1_base (rt_fail msk rt) = rt_stage_l1_base rt" "rt_stage_l1_base (rt_satisfy msk rt) = rt_stage_l1_base rt"
  by (simp_all add: rt_fail_def rt_satisfy_def)

definition same_control :: "arm_machine \<Rightarrow> arm_machine \<Rightarrow> bool" where
  "same_control m m' = (am_sctlr m' = am_sctlr m \<and> am_ttbcr m' = am_ttbcr m \<and> am_dacr m' = am_dacr m
     \<and> am_vbar m' = am_vbar m \<and> am_sp m' = am_sp m \<and> am_cntfrq m' = am_cntfrq m \<and> am_tables m' = am_tables m)"

lemma roundtrip_switch_regs:
  assumes "roundtrip_switch cf t rt m = (rt', m')"
  shows "same_control m m'" "rt_original_ttbr0 rt' = rt_original_ttbr0 rt"
    "rt_ttbr0_write_count rt' = rt_ttbr0_write_count rt + 1"
  using assms by (auto simp: roundtrip_switch_def Let_def split_def same_control_def rt_fail_def rt_satisfy_def)

lemma roundtrip_during_regs:
  assumes "roundtrip_during cf rt m = (rt', m')"
  shows "same_control m m'" "rt_original_ttbr0 rt' = rt_original_ttbr0 rt" "rt_ttbr0_write_count rt' = rt_ttbr0_write_count rt"
  using assms by (auto simp: roundtrip_during_def Let_def split_def same_control_def rt_fail_def rt_satisfy_def)

lemma roundtrip_restore_regs:
  assumes "roundtrip_restore cf rt m = (rt', m')"
  shows "same_control m m' \<and> am_ttbr0 m' = rt_original_ttbr0 rt \<and> rt_ttbr0_write_count rt' = rt_ttbr0_write_count rt + 1"
  using assms by (auto simp: roundtrip_restore_def Let_def split_def same_control_def rt_fail_def rt_satisfy_def split: if_splits)

lemma safety_flag: "FAIL_SAFETY \<noteq> 0"
  by (simp add: FAIL_SAFETY_def)

lemma roundtrip_checks_kept:
  assumes "roundtrip_checks rt = (b, rt')"
  shows "rt_original_ttbr0 rt' = rt_original_ttbr0 rt \<and> rt_ttbr0_write_count rt' = rt_ttbr0_write_count rt \<and>
    rt_stage_l1_base rt' = rt_stage_l1_base rt \<and> (\<not> b \<longrightarrow> rt_failure_mask rt' \<noteq> 0)"
  using assms by (auto simp: roundtrip_checks_def Let_def rt_fail_def rt_satisfy_def or_eq_0_iff safety_flag split: if_splits)


lemma ttbr_record_mapping_kept:
  "rt_original_ttbr0 (ttbr_record_mapping cf t b va rt) = rt_original_ttbr0 rt"
  "rt_ttbr0_write_count (ttbr_record_mapping cf t b va rt) = rt_ttbr0_write_count rt"
  by (simp_all add: ttbr_record_mapping_def rt_fail_def)

lemma record_mappings_kept:
  "rt_original_ttbr0 (fold (\<lambda>(b, va). ttbr_record_mapping cf t b va) ms rt) = rt_original_ttbr0 rt \<and>
   rt_ttbr0_write_count (fold (\<lambda>(b, va). ttbr_record_mapping cf t b va) ms rt) = rt_ttbr0_write_count rt"
  by (induction ms arbitrary: rt) (auto simp: ttbr_record_mapping_kept)

lemma roundtrip_readback_kept:
  assumes "roundtrip_readback cf t rt = (b, rt')"
  shows "rt_original_ttbr0 rt' = rt_original_ttbr0 rt \<and> rt_ttbr0_write_count rt' = rt_ttbr0_write_count rt
    \<and> (\<not> b \<longrightarrow> rt_failure_mask rt' \<noteq> 0)"
  using assms record_mappings_kept [of cf t "roundtrip_mappings rt cf" rt]
  by (auto simp: roundtrip_readback_def Let_def rt_fail_def rt_satisfy_def or_eq_0_iff safety_flag split: if_splits)

lemma status_fail_not_ok: "STAGE90_STATUS_FAIL w \<noteq> STAGE90_STATUS_OK"
proof -
  have "bit (STAGE90_STATUS_FAIL w) 30" "\<not> bit STAGE90_STATUS_OK 30"
    by (simp_all add: STAGE90_STATUS_FAIL_def STAGE90_STATUS_OK_def bit_simps)
  then show ?thesis by metis
qed

lemma roundtrip_finish_kept:
  assumes "roundtrip_finish rt = (b, rt')"
  shows "rt_ttbr0_write_count rt' = rt_ttbr0_write_count rt \<and> (rt_failure_mask rt \<noteq> 0 \<longrightarrow> \<not> b)"
  using assms status_fail_not_ok
  by (auto simp: roundtrip_finish_def Let_def rt_fail_def or_eq_0_iff safety_flag split: if_splits)

lemma roundtrip_begin_kept:
  "rt_original_ttbr0 (roundtrip_begin cf m) = am_ttbr0 m" "rt_ttbr0_write_count (roundtrip_begin cf m) = 0"
  "rt_stage_l1_base (roundtrip_begin cf m) = mm_roundtrip_l1 cf"
  by (simp_all add: roundtrip_begin_def rt_zero_def)

lemma same_control_tables:
  "same_control m m' \<Longrightarrow> am_tables m' = am_tables m" "same_control m m" 
  "same_control m m' \<Longrightarrow> same_control m' m'' \<Longrightarrow> same_control m m''"
  by (simp_all add: same_control_def)

lemma roundtrip_restores:
  assumes "mmu_stage90_ttbr0_roundtrip_selftest cf fuel m = Some (ok, rt, m')"
  shows "am_ttbr0 m' = am_ttbr0 m \<and> am_sctlr m' = am_sctlr m \<and> am_ttbcr m' = am_ttbcr m \<and> am_dacr m' = am_dacr m
    \<and> am_vbar m' = am_vbar m \<and> (\<forall>a. a \<noteq> mm_roundtrip_l1 cf \<longrightarrow> am_tables m' a = am_tables m a)
    \<and> (rt_ttbr0_write_count rt = 2 \<or>
       rt_ttbr0_write_count rt = 0 \<and> \<not> ok \<and> am_phys m' = am_phys m \<and> am_aborts m' = am_aborts m)"
proof -
  obtain c rt1 where rt1: "roundtrip_checks (roundtrip_begin cf m) = (c, rt1)" by fastforce
  note k1 = roundtrip_checks_kept [OF rt1, simplified roundtrip_begin_kept]
  show ?thesis
  proof (cases c)
    case False
    then show ?thesis using assms rt1 k1 roundtrip_finish_kept [of rt1]
      by (auto simp: mmu_stage90_ttbr0_roundtrip_selftest_def split: prod.splits)
  next
    case True
    obtain t where t: "stage90_ttbr0_build_recovery_table cf fuel (rt_current_sp rt1) (rt_vector_base rt1) (rt_stage_l1_base rt1) = Some t"
      using assms rt1 True by (auto simp: mmu_stage90_ttbr0_roundtrip_selftest_def Let_def split: option.splits)
    define m1 where "m1 = m\<lparr>am_tables := (am_tables m)(mm_roundtrip_l1 cf := t)\<rparr>"
    obtain d rt2 where rt2: "roundtrip_readback cf t rt1 = (d, rt2)" by fastforce
    note k2 = roundtrip_readback_kept [OF rt2]
    show ?thesis
    proof (cases d)
      case False
      then show ?thesis using assms rt1 t rt2 k1 k2 True roundtrip_finish_kept [of rt2]
        by (auto simp: mmu_stage90_ttbr0_roundtrip_selftest_def split: prod.splits)
    next
      case d: True
      obtain rt3 m2 where sw: "roundtrip_switch cf t rt2 m1 = (rt3, m2)" by fastforce
      obtain rt4 m3 where du: "roundtrip_during cf rt3 m2 = (rt4, m3)" by fastforce
      obtain rt5 m4 where re: "roundtrip_restore cf rt4 m3 = (rt5, m4)" by fastforce
      have "m' = m4" "rt_ttbr0_write_count rt = rt_ttbr0_write_count rt5"
        using assms rt1 True t rt2 d sw du re k1 roundtrip_finish_kept [of rt5]
        by (auto simp: mmu_stage90_ttbr0_roundtrip_selftest_def Let_def m1_def split: prod.splits)
      then show ?thesis
        using k1 k2 roundtrip_switch_regs [OF sw] roundtrip_during_regs [OF du] roundtrip_restore_regs [OF re]
        by (simp add: same_control_def m1_def)
    qed
  qed
qed

end
