(* ===== verification/Mmu_Boot.thy ===== *)
theory Mmu_Boot
  imports Mmu_Roundtrip
begin

text \<open>
  The three self tests in the order the payload runs them (src/src/xnu_kernel.c): what each address they
  use translates to under the two tables, and that they succeed on a machine whose console, interrupt
  controller and counter answer.
\<close>

unbundle bit_operations_syntax

subsection \<open>Addresses under the live table\<close>

lemma translation_self:
  assumes "mapped_section ws (SECTION_INDEX va) = Some (SECTION_INDEX va, ty)"
  shows "window_translation ws va = Some (va, ty)"
  using assms section_base [of va] section_and_offset [of va]
  by (simp add: window_translation_def L1_SECTION_MASK_def)

lemma entry_window_outside:
  assumes "mmu_layout cf" and "s < 0x800 \<or> 0xc00 \<le> s"
  shows "\<not> (SECTION_INDEX (mm_entry_base cf) \<le> s \<and>
    s < SECTION_INDEX (mm_entry_base cf) + (if mm_entry cf then sections_of (mm_entry_limit cf) else 0))"
  using assms entry_section_ge [OF assms(1)] entry_section_end [OF mmu_layout_bounds [OF assms(1)], of s]
  by (cases "mm_entry cf") auto

lemma live_image:
  assumes "mmu_layout cf" and "a < mm_image_end cf"
  shows "window_translation (identity_map cf) a = Some (a, dram_type (mm_attr cf))"
proof (rule translation_self)
  have "SECTION_INDEX a < sections_of (mm_image_end cf)" "SECTION_INDEX a < 64"
    using in_image_section [OF assms(2)] image_sections_le [OF assms(1)] by auto
  then show "mapped_section (identity_map cf) (SECTION_INDEX a) = Some (SECTION_INDEX a, dram_type (mm_attr cf))"
    using entry_window_outside [OF assms(1), of "SECTION_INDEX a"] unfolding identity_map_def by simp
qed

lemma unat_offset: "unat (a AND 0x000fffff :: u32) = unat a mod 0x100000"
proof -
  have "a AND 0x000fffff = take_bit 20 a" by (simp add: take_bit_eq_mask mask_eq_exp_minus_1)
  then show ?thesis by (simp add: take_bit_eq_mod unat_mod)
qed

lemma shifted_translation:
  assumes "mapped_section ws (SECTION_INDEX (b + a)) = Some (SECTION_INDEX a, ty)" and "b AND 0x000fffff = 0"
  shows "window_translation ws (b + a) = Some (a, ty)"
proof -
  have "(b + a) AND 0x000fffff = a AND 0x000fffff"
  proof -
    have "unat b mod 0x100000 = 0" using assms(2) unat_offset [of b] by simp
    moreover have "(unat b + unat a) mod 4294967296 mod 0x100000 = (unat b + unat a) mod 0x100000"
      by (simp add: mod_mod_cancel)
    ultimately have "unat (b + a) mod 0x100000 = unat a mod 0x100000"
      using mod_add_left_eq [of "unat b" "0x100000" "unat a"] by (simp add: unat_plus_u32)
    then show ?thesis by (simp only: word_unat_eq_iff unat_offset)
  qed
  then show ?thesis using assms(1) section_base [of a] section_and_offset [of a]
    by (simp add: window_translation_def L1_SECTION_MASK_def)
qed

lemma live_alias:
  assumes "mmu_layout cf" and "a < mm_image_end cf"
  shows "window_translation (identity_map cf) (STAGE90_HIGH_ALIAS_BASE + a) = Some (a, dram_type (mm_attr cf))"
proof (rule shifted_translation)
  have s: "SECTION_INDEX a < sections_of (mm_image_end cf)" "SECTION_INDEX a < 64"
    using in_image_section [OF assms(2)] image_sections_le [OF assms(1)] by auto
  have "unat a < 0x4000000" using s(2) by (simp add: SECTION_INDEX_div)
  then have i: "SECTION_INDEX (STAGE90_HIGH_ALIAS_BASE + a) = 0xc00 + SECTION_INDEX a"
    by (simp add: SECTION_INDEX_div STAGE90_HIGH_ALIAS_BASE_def unat_plus_u32)
  show "mapped_section (identity_map cf) (SECTION_INDEX (STAGE90_HIGH_ALIAS_BASE + a)) = Some (SECTION_INDEX a, dram_type (mm_attr cf))"
    using s entry_window_outside [OF assms(1), of "0xc00 + SECTION_INDEX a"] unfolding identity_map_def i by simp
qed (simp add: STAGE90_HIGH_ALIAS_BASE_def)

lemma gic_alias_sum: "STAGE90_GIC_ALIAS_BASE + (a - 0xf9000000) = 0xcb000000 + a"
proof -
  have "STAGE90_GIC_ALIAS_BASE = 0xcb000000 + 0xf9000000"
    by (simp add: STAGE90_GIC_ALIAS_BASE_def STAGE90_IMAGE_ALIAS_LIMIT_def STAGE90_HIGH_ALIAS_BASE_def STAGE90_IMAGE_ALIAS_WINDOW_def)
  then show ?thesis by simp
qed

lemma gic_alias_section: "SECTION_INDEX a = 0xf90 \<Longrightarrow> SECTION_INDEX (0xcb000000 + a) = 0xc40"
proof -
  assume "SECTION_INDEX a = 0xf90"
  then have "0xf9000000 \<le> unat a" "unat a < 0xf9100000" by (auto simp: SECTION_INDEX_div)
  then show ?thesis by (simp add: SECTION_INDEX_div unat_plus_u32 le_mod_geq)
qed

lemma live_windows:
  assumes "mmu_layout cf"
  shows "window_translation (identity_map cf) RAM_CONSOLE_BASE = Some (RAM_CONSOLE_BASE, console_type (mm_attr cf))"
    and "window_translation (identity_map cf) RESTART_REASON = Some (RESTART_REASON, Strongly_Ordered)"
    and "SECTION_INDEX a = 0xf90 \<Longrightarrow> window_translation (identity_map cf) a = Some (a, Strongly_Ordered)"
    and "SECTION_INDEX a = 0xf90 \<Longrightarrow>
      window_translation (identity_map cf) (STAGE90_GIC_ALIAS_BASE + (a - 0xf9000000)) = Some (a, Strongly_Ordered)"
    and "window_translation (identity_map cf) STAGE90_RAM_CONSOLE_ALIAS_BASE = None"
proof -
  define n where "n = sections_of (mm_image_end cf)"
  have n: "n \<le> 64" using image_sections_le [OF assms] by (simp add: n_def)
  note out = entry_window_outside [OF assms]
  have "SECTION_INDEX RAM_CONSOLE_BASE = 0xde5" "SECTION_INDEX RESTART_REASON = 0x0fa" "SECTION_INDEX STAGE90_RAM_CONSOLE_ALIAS_BASE = 0xc41"
    by (simp_all add: SECTION_INDEX_div RAM_CONSOLE_BASE_def RESTART_REASON_def MSM_IMEM_BASE_PHYS_def
      STAGE90_RAM_CONSOLE_ALIAS_BASE_def STAGE90_IMAGE_ALIAS_LIMIT_def STAGE90_HIGH_ALIAS_BASE_def STAGE90_IMAGE_ALIAS_WINDOW_def)
  note idx = this
  show "window_translation (identity_map cf) RAM_CONSOLE_BASE = Some (RAM_CONSOLE_BASE, console_type (mm_attr cf))"
    using out [of "0xde5"] idx n by (intro translation_self) (auto simp: identity_map_def n_def)
  show "window_translation (identity_map cf) RESTART_REASON = Some (RESTART_REASON, Strongly_Ordered)"
    using out [of "0x0fa"] idx n by (intro translation_self) (auto simp: identity_map_def n_def)
  show "window_translation (identity_map cf) STAGE90_RAM_CONSOLE_ALIAS_BASE = None"
    using out [of "0xc41"] idx n by (auto simp: identity_map_def n_def window_translation_def)
  show "window_translation (identity_map cf) a = Some (a, Strongly_Ordered)" if "SECTION_INDEX a = 0xf90"
    using that by (intro translation_self) (simp add: identity_map_def)
  show "window_translation (identity_map cf) (STAGE90_GIC_ALIAS_BASE + (a - 0xf9000000)) = Some (a, Strongly_Ordered)"
    if "SECTION_INDEX a = 0xf90"
    using out [of "0xc40"] that n gic_alias_section [OF that] unfolding gic_alias_sum
    by (intro shifted_translation) (auto simp: identity_map_def n_def)
qed


subsection \<open>Loads and stores under the live table\<close>

definition mmu_addresses :: "mmu_cfg \<Rightarrow> bool" where
  "mmu_addresses cf = (mm_probe_word cf < mm_image_end cf \<and> mm_alias_probe cf < mm_image_end cf
     \<and> mm_vectors cf < mm_image_end cf \<and> mm_ttbr0_probe cf < mm_image_end cf
     \<and> mm_l1_table cf < mm_image_end cf \<and> mm_roundtrip_l1 cf < mm_image_end cf
     \<and> mm_l1_table cf AND 0x3fff = 0 \<and> mm_roundtrip_l1 cf AND 0x3fff = 0
     \<and> mm_l1_table cf \<noteq> 0 \<and> mm_l1_table cf \<noteq> mm_roundtrip_l1 cf)"

text \<open>The hardware the tests ask: the console is initialised, both halves of the interrupt controller are
  on, the counter runs at the rate of the board.\<close>

definition board_ready :: "mmu_cfg \<Rightarrow> arm_machine \<Rightarrow> bool" where
  "board_ready cf m = (am_phys m RAM_CONSOLE_BASE = RAM_CONSOLE_SIG \<and> am_phys m (mm_gic_dist cf) AND 1 \<noteq> 0
     \<and> am_phys m (mm_gic_cpu cf) AND 1 \<noteq> 0 \<and> am_cntfrq m = 19200000)"

definition live :: "mmu_cfg \<Rightarrow> arm_machine \<Rightarrow> bool" where
  "live cf m = (am_sctlr m AND 1 \<noteq> 0 \<and> am_ttbr0 m = mm_l1_table cf \<and> am_tables m (mm_l1_table cf) = identity_entries cf)"

lemma aligned_base: "b AND 0x3fff = 0 \<Longrightarrow> b AND STAGE90_TTBR0_BASE_MASK = (b :: u32)"
proof -
  assume "b AND 0x3fff = 0"
  then have "b AND STAGE90_TTBR0_BASE_MASK = (b AND STAGE90_TTBR0_BASE_MASK) OR (b AND 0x3fff)" by simp
  also have "\<dots> = b AND 0xffffffff" by (simp add: STAGE90_TTBR0_BASE_MASK_def flip: bit.conj_disj_distrib)
  also have "(0xffffffff :: u32) = - 1" by simp
  finally show ?thesis by simp
qed

lemma and_1_bit: "(w AND 1 \<noteq> (0 :: u32)) = bit w 0"
  by (auto simp: bit_eq_iff [of "w AND 1"] bit_simps bit_1_iff)

lemma live_walk:
  assumes "live cf m" and "mm_l1_table cf AND 0x3fff = 0"
  shows "am_walk m va = map_option fst (window_translation (identity_map cf) va)"
  using assms entry_shows_walk [where t = "identity_entries cf" and ws = "identity_map cf" and va = va,
      OF identity_entries_show [OF SECTION_INDEX_less]]
  by (simp add: am_walk_def live_def aligned_base flip: and_1_bit)

lemma live_access:
  assumes "live cf m" and "mm_l1_table cf AND 0x3fff = 0" and "window_translation (identity_map cf) va = Some (pa, ty)"
  shows "am_load va m = (am_phys m pa, m)" and "am_store va v m = m\<lparr>am_phys := (am_phys m)(pa := v)\<rparr>"
  using live_walk [OF assms(1,2), of va] assms(3) by (simp_all add: am_load_def am_store_def)

lemma live_abort:
  assumes "live cf m" and "mm_l1_table cf AND 0x3fff = 0" and "window_translation (identity_map cf) va = None"
  shows "am_load va m = (am_stale m va, m\<lparr>am_aborts := am_aborts m @ [va]\<rparr>)"
  using live_walk [OF assms(1,2), of va] assms(3) by (simp add: am_load_def)

lemma live_kept [simp]:
  "live cf (m\<lparr>am_phys := f\<rparr>) = live cf m" "live cf (m\<lparr>am_aborts := l\<rparr>) = live cf m"
  by (simp_all add: live_def)

lemma image_apart:
  assumes "mmu_layout cf" and "a < mm_image_end cf"
  shows "a \<noteq> RAM_CONSOLE_BASE" "a \<noteq> mm_gic_dist cf" "a \<noteq> mm_gic_cpu cf"
proof -
  have "SECTION_INDEX a < 64" using in_image_section [OF assms(2)] image_sections_le [OF assms(1)] by simp
  moreover have "SECTION_INDEX RAM_CONSOLE_BASE = 0xde5" by (simp add: SECTION_INDEX_div RAM_CONSOLE_BASE_def)
  moreover have "SECTION_INDEX (mm_gic_dist cf) = 0xf90" "SECTION_INDEX (mm_gic_cpu cf) = 0xf90"
    using assms(1) by (simp_all add: mmu_layout_def)
  ultimately show "a \<noteq> RAM_CONSOLE_BASE" "a \<noteq> mm_gic_dist cf" "a \<noteq> mm_gic_cpu cf" by auto
qed

lemma board_ready_store:
  assumes "mmu_layout cf" and "a < mm_image_end cf"
  shows "board_ready cf (m\<lparr>am_phys := (am_phys m)(a := v)\<rparr>) = board_ready cf m"
  using image_apart [OF assms] by (auto simp: board_ready_def)

subsection \<open>The tests\<close>

lemma identity_selftest_passes:
  assumes l: "mmu_layout cf" and a: "mmu_addresses cf" and b: "board_ready cf m" and f: "4096 < fuel"
  shows "\<exists>m1. mmu_identity_selftest cf fuel m = Some (True, m1) \<and> live cf m1 \<and> board_ready cf m1
    \<and> am_aborts m1 = am_aborts m \<and> am_ttbcr m1 = 0 \<and> am_dacr m1 = 3 \<and> am_vbar m1 = am_vbar m \<and> am_sp m1 = am_sp m"
proof -
  have al: "mm_l1_table cf AND 0x3fff = 0" and pw: "mm_probe_word cf < mm_image_end cf" using a by (simp_all add: mmu_addresses_def)
  have gic: "SECTION_INDEX (mm_gic_dist cf) = 0xf90" "SECTION_INDEX (mm_gic_cpu cf) = 0xf90" using l by (simp_all add: mmu_layout_def)
  define m0 where "m0 = enable_identity_mmu cf (mm_l1_table cf)
    (m\<lparr>am_tables := (am_tables m)(mm_l1_table cf AND STAGE90_TTBR0_BASE_MASK := identity_entries cf)\<rparr>)"
  have m0: "live cf m0" "am_phys m0 = am_phys m" "am_aborts m0 = am_aborts m" "am_ttbcr m0 = 0" "am_dacr m0 = 3"
    "am_vbar m0 = am_vbar m" "am_sp m0 = am_sp m" "am_cntfrq m0 = am_cntfrq m"
    unfolding live_def and_1_bit
    by (auto simp: m0_def enable_identity_mmu_def Let_def aligned_base [OF al] bit_simps)
  define m2 where "m2 = m0\<lparr>am_phys := (am_phys m)(mm_probe_word cf := 0x10aa55ff)\<rparr>"
  have live: "live cf m2" using m0(1) by (simp add: m2_def)
  have ready: "board_ready cf m2" using b image_apart [OF l pw] by (simp add: board_ready_def m2_def m0)
  note loads = live_access(1) [OF live al live_image [OF l pw]] live_access(1) [OF live al live_windows(1) [OF l]]
    live_access(1) [OF live al live_windows(2) [OF l]] live_access(1) [OF live al live_windows(3) [OF l gic(1)]]
    live_access(1) [OF live al live_windows(3) [OF l gic(2)]]
  have st: "am_store (mm_probe_word cf) 0x10aa55ff m0 = m2"
    using live_access(2) [OF m0(1) al live_image [OF l pw]] by (simp add: m2_def m0)
  have "mmu_identity_selftest cf fuel m = Some (True, m2)"
    using ready live image_apart [OF l pw]
    by (simp add: mmu_identity_selftest_def identity_table_built [OF mmu_layout_bounds [OF l] f] Let_def
        st loads board_ready_def live_def flip: m0_def) (simp add: m2_def)
  then show ?thesis using live ready m0 by (auto simp: m2_def)
qed

lemma high_alias_selftest_passes:
  assumes l: "mmu_layout cf" and a: "mmu_addresses cf" and b: "board_ready cf m" and live: "live cf m"
  shows "\<exists>m1. mmu_high_alias_selftest cf m = (True, m1) \<and> live cf m1 \<and> board_ready cf m1
    \<and> am_aborts m1 = am_aborts m @ [STAGE90_RAM_CONSOLE_ALIAS_BASE]
    \<and> am_ttbcr m1 = am_ttbcr m \<and> am_dacr m1 = am_dacr m \<and> am_vbar m1 = am_vbar m \<and> am_sp m1 = am_sp m"
proof -
  have al: "mm_l1_table cf AND 0x3fff = 0" and p: "mm_alias_probe cf < mm_image_end cf" and v: "mm_vectors cf < mm_image_end cf"
    using a by (simp_all add: mmu_addresses_def)
  have gic: "SECTION_INDEX (mm_gic_dist cf) = 0xf90" using l by (simp add: mmu_layout_def)
  note tr = live_image [OF l p] live_alias [OF l p] live_image [OF l v] live_alias [OF l v] live_windows(1) [OF l]
    live_windows(3) [OF l gic] live_windows(4) [OF l gic]
  have acc: "live cf m' \<Longrightarrow> window_translation (identity_map cf) va = Some (pa, ty) \<Longrightarrow> am_load va m' = (am_phys m' pa, m')"
    "live cf m' \<Longrightarrow> window_translation (identity_map cf) va = Some (pa, ty) \<Longrightarrow> am_store va w m' = m'\<lparr>am_phys := (am_phys m')(pa := w)\<rparr>"
    "live cf m' \<Longrightarrow> am_load STAGE90_RAM_CONSOLE_ALIAS_BASE m' = (am_stale m' STAGE90_RAM_CONSOLE_ALIAS_BASE,
        m'\<lparr>am_aborts := am_aborts m' @ [STAGE90_RAM_CONSOLE_ALIAS_BASE]\<rparr>)" for m' va pa ty w
    using live_access [OF _ al] live_abort [OF _ al live_windows(5) [OF l]] by blast+
  define m1 where "m1 = m\<lparr>am_phys := (am_phys m)(mm_alias_probe cf := 0x33334444),
    am_aborts := am_aborts m @ [STAGE90_RAM_CONSOLE_ALIAS_BASE]\<rparr>"
  have "am_sctlr m AND 1 \<noteq> 0" using live by (simp add: live_def)
  then have "mmu_high_alias_selftest cf m = (True, m1)"
    using b live image_apart [OF l p]
    by (simp add: mmu_high_alias_selftest_def Let_def acc tr board_ready_def m1_def)
  then show ?thesis using live b image_apart [OF l p] by (auto simp: m1_def board_ready_def)
qed

subsection \<open>The round trip\<close>

lemma recovery_verified:
  assumes "SECTION_INDEX va \<in> secs"
  shows "ttbr_verify_section_pa cf (\<lambda>s. if s \<in> secs then recovery_word cf s else 0) va va"
proof -
  have e: "recovery_word cf (SECTION_INDEX va) = (va AND L1_SECTION_MASK) OR ttbr_section_desc_for_pa cf va"
    by (simp add: ttbr_section_word_section ttbr_section_word_pa_def)
  have "((va AND L1_SECTION_MASK) OR d) AND 0x000fffff = d AND 0x000fffff" for d
    by (simp add: bit.conj_disj_distrib2 and.assoc L1_SECTION_MASK_def)
  moreover have "nth_section (SECTION_INDEX va) AND 0xfff00000 = va AND 0xfff00000"
    using section_base [of va] nth_section_masked [of "SECTION_INDEX va"] by (simp add: L1_SECTION_MASK_def)
  ultimately show ?thesis
    using assms recovery_word_entry [OF SECTION_INDEX_less, of cf va]
    by (simp add: ttbr_verify_section_pa_def SECTION_INDEX_less section_entry_def e ttbr_section_word_pa_def)
qed

lemma record_verified:
  assumes "\<forall>(b, va) \<in> set ms. ttbr_verify_section_pa cf t va va"
  shows "fold (\<lambda>(b, va). ttbr_record_mapping cf t b va) ms rt =
    rt\<lparr>rt_mapping_present_mask := fold (\<lambda>(b, va) w. w OR b) ms (rt_mapping_present_mask rt)\<rparr>"
  using assms by (induction ms arbitrary: rt) (auto simp: ttbr_record_mapping_def)

definition rt_ready :: "mmu_cfg \<Rightarrow> arm_machine \<Rightarrow> u32 \<Rightarrow> stage90_ttbr0_roundtrip \<Rightarrow> bool" where
  "rt_ready cf m sat rt = (rt_original_ttbr0 rt = am_ttbr0 m \<and> rt_original_ttbcr rt = am_ttbcr m
    \<and> rt_original_dacr rt = am_dacr m \<and> rt_cache_bits_before rt = am_sctlr m AND STAGE90_TTBR_RT_CACHE_MASK
    \<and> rt_stage_l1_base rt = mm_roundtrip_l1 cf \<and> rt_current_sp rt = am_sp m \<and> rt_vector_base rt = am_vbar m
    \<and> rt_failure_mask rt = 0 \<and> rt_satisfied_mask rt = sat)"

lemma roundtrip_checks_pass:
  assumes "mmu_layout cf" and "mmu_addresses cf" and "live cf m" and "am_ttbcr m = 0" and "am_dacr m AND 3 \<noteq> 0"
    and "am_vbar m \<noteq> 0" and "am_sp m \<noteq> 0"
  shows "\<exists>rt. roundtrip_checks (roundtrip_begin cf m) = (True, rt) \<and> rt_ready cf m 0x27 rt \<and> rt_mapping_present_mask rt = 0
    \<and> rt_mapping_failure_mask rt = 0"
proof -
  have "SECTION_INDEX (mm_roundtrip_l1 cf) < 64"
    using in_image_section [of "mm_roundtrip_l1 cf" cf] image_sections_le [OF assms(1)] assms(2)
    by (simp add: mmu_addresses_def)
  then have b: "unat (mm_roundtrip_l1 cf) < 0x4000000" by (simp add: SECTION_INDEX_div)
  then have lim: "unat (mm_roundtrip_l1 cf + 0x4000) = unat (mm_roundtrip_l1 cf) + 0x4000" by (simp add: unat_plus_u32)
  have "\<not> mm_roundtrip_l1 cf + 0x4000 \<le> mm_roundtrip_l1 cf" "\<not> RAM_CONSOLE_BASE \<le> mm_roundtrip_l1 cf + 0x4000"
    "\<not> RAM_CONSOLE_BASE < mm_roundtrip_l1 cf + 0x4000" "\<not> RAM_PHYS_BASE < mm_roundtrip_l1 cf + 0x4000"
    using b by (simp_all add: word_le_nat_alt word_less_nat_alt lim RAM_CONSOLE_BASE_def RAM_PHYS_BASE_def)
  moreover have "am_ttbr0 m AND STAGE90_TTBR0_BASE_MASK \<noteq> 0"
    using assms(2,3) by (simp add: live_def mmu_addresses_def aligned_base)
  moreover have "am_sctlr m AND 1 \<noteq> 0" using assms(3) by (simp add: live_def)
  moreover have "mm_roundtrip_l1 cf AND 0x3fff = 0" using assms(2) by (simp add: mmu_addresses_def)
  ultimately show ?thesis using assms(4-7)
    by (simp add: roundtrip_checks_def roundtrip_begin_def rt_zero_def Let_def rt_satisfy_def rt_ready_def
        ranges_overlap_u32_local_def SAT_PREFLIGHT_def SAT_STATE_SAVED_def SAT_TABLE_ALIGNED_def SAT_STAGE_OWNED_TABLE_def)
qed

lemma roundtrip_readback_passes:
  assumes "rt_ready cf m 0x27 rt" and "rt_mapping_present_mask rt = 0" "rt_mapping_failure_mask rt = 0"
  shows "\<exists>rt'. roundtrip_readback cf (\<lambda>s. if s \<in> recovery_sections cf (am_sp m) (am_vbar m) (mm_roundtrip_l1 cf)
      then recovery_word cf s else 0) rt = (True, rt') \<and> rt_ready cf m 0x3f rt'"
proof -
  let ?S = "recovery_sections cf (am_sp m) (am_vbar m) (mm_roundtrip_l1 cf)"
  have "\<forall>(b, va) \<in> set (roundtrip_mappings rt cf). SECTION_INDEX va \<in> ?S"
    using assms(1)
    by (simp add: roundtrip_mappings_def rt_ready_def recovery_sections_def SECTION_INDEX_div STAGE90_BASE_def
        RAM_CONSOLE_BASE_def L1_SECTION_SIZE_def MSM_IMEM_BASE_PHYS_def MSM8974_PSHOLD_def)
  then have "\<forall>(b, va) \<in> set (roundtrip_mappings rt cf).
      ttbr_verify_section_pa cf (\<lambda>s. if s \<in> ?S then recovery_word cf s else 0) va va"
    using recovery_verified by fastforce
  note rec = record_verified [OF this, of rt]
  have mask: "fold (\<lambda>(b, va) w. w OR b) (roundtrip_mappings rt cf) 0 = MAP_REQUIRED"
    by (simp add: roundtrip_mappings_def MAP_LOW_STAGE_def MAP_STACK_def MAP_VECTOR_def MAP_TABLE_def MAP_RAM_CONSOLE0_def
        MAP_RAM_CONSOLE1_def MAP_IMEM_def MAP_GIC_TIMER_def MAP_PSHOLD_def MAP_REQUIRED_def)
  show ?thesis using assms
    by (simp add: roundtrip_readback_def rec assms(2) mask Let_def rt_satisfy_def rt_ready_def
        SAT_REQUIRED_MAPPINGS_def SAT_DESCRIPTOR_READBACK_def)
qed


lemma roundtrip_switch_passes:
  assumes l: "mmu_layout cf" and a: "mmu_addresses cf" and live: "live cf m" and r: "rt_ready cf m 0x3f rt"
  shows "\<exists>rt'. roundtrip_switch cf t rt m =
      (rt', m\<lparr>am_phys := (am_phys m)(mm_ttbr0_probe cf := 0x49aa0001), am_ttbr0 := mm_roundtrip_l1 cf\<rparr>) \<and>
    rt_ready cf m 0xf8ff rt' \<and> rt_cache_bits_during rt' = rt_cache_bits_before rt' \<and> rt_stage_l1_checksum_before rt' = ttbr_checksum t"
proof -
  have p: "mm_ttbr0_probe cf < mm_image_end cf" and al: "mm_l1_table cf AND 0x3fff = 0" "mm_roundtrip_l1 cf AND 0x3fff = 0"
    using a by (simp_all add: mmu_addresses_def)
  note acc = live_access [OF _ al(1) live_image [OF l p]]
  have "mm_roundtrip_l1 cf AND STAGE90_TTBR0_BASE_MASK = mm_roundtrip_l1 cf" using al(2) by (rule aligned_base)
  then show ?thesis using r live
    by (simp add: roundtrip_switch_def Let_def acc rt_ready_def rt_satisfy_def SAT_NO_XNU_EXEC_def SAT_NO_MACHO_EXEC_def
        SAT_NO_PROPOSED_PHYS_WRITE_def SAT_NO_PROPOSED_TTE_WRITE_def SAT_NO_PERSIST_WRITE_def SAT_SWITCHED_TO_STAGE_L1_def
        SAT_CACHE_BITS_PRESERVED_def)
qed

definition recovering :: "mmu_cfg \<Rightarrow> nat set \<Rightarrow> arm_machine \<Rightarrow> bool" where
  "recovering cf secs m = (am_sctlr m AND 1 \<noteq> 0 \<and> am_ttbr0 m = mm_roundtrip_l1 cf
     \<and> am_tables m (mm_roundtrip_l1 cf) = (\<lambda>s. if s \<in> secs then recovery_word cf s else 0))"

lemma recovering_access:
  assumes "recovering cf secs m" and "mm_roundtrip_l1 cf AND 0x3fff = 0" and "SECTION_INDEX va \<in> secs"
  shows "am_load va m = (am_phys m va, m)" and "am_store va v m = m\<lparr>am_phys := (am_phys m)(va := v)\<rparr>"
proof -
  have "l1_walk l2 (\<lambda>s. if s \<in> secs then recovery_word cf s else 0) va = Some (va, recovery_type cf (SECTION_INDEX va))" for l2
    using assms(3) recovery_word_entry [OF SECTION_INDEX_less] by (intro l1_walk_entry) simp
  then have "am_walk m va = Some va"
    using assms(1,2) by (simp add: am_walk_def recovering_def aligned_base flip: and_1_bit)
  then show "am_load va m = (am_phys m va, m)" and "am_store va v m = m\<lparr>am_phys := (am_phys m)(va := v)\<rparr>"
    by (simp_all add: am_load_def am_store_def)
qed

lemma recovery_sections_used:
  assumes "mmu_layout cf" and "a < mm_image_end cf"
  shows "SECTION_INDEX a \<in> recovery_sections cf sp vb l1" "SECTION_INDEX RAM_CONSOLE_BASE \<in> recovery_sections cf sp vb l1"
    "SECTION_INDEX RESTART_REASON \<in> recovery_sections cf sp vb l1" "SECTION_INDEX (mm_gic_dist cf) \<in> recovery_sections cf sp vb l1"
    "SECTION_INDEX (mm_gic_cpu cf) \<in> recovery_sections cf sp vb l1"
proof -
  have "unat a \<le> unat (mm_image_end cf - 1)"
    using assms(2) by (cases "mm_image_end cf = 0") (simp_all add: word_less_nat_alt unat_minus_one)
  then have "SECTION_INDEX a \<le> SECTION_INDEX (mm_image_end cf - 1)" by (simp add: SECTION_INDEX_div div_le_mono)
  then show "SECTION_INDEX a \<in> recovery_sections cf sp vb l1" by (simp add: recovery_sections_def)
qed (use assms(1) in \<open>simp_all add: recovery_sections_def mmu_layout_def SECTION_INDEX_div RAM_CONSOLE_BASE_def
    RESTART_REASON_def MSM_IMEM_BASE_PHYS_def\<close>)

lemma roundtrip_during_passes:
  assumes l: "mmu_layout cf" and a: "mmu_addresses cf" and r: "rt_ready cf m 0xf8ff rt"
    and m1: "recovering cf (recovery_sections cf sp vb l1) m1" and b: "board_ready cf m1"
  shows "\<exists>rt'. roundtrip_during cf rt m1 = (rt', m1\<lparr>am_phys := (am_phys m1)(mm_ttbr0_probe cf := 0x49aa0002)\<rparr>) \<and>
    rt_ready cf m 0xf9ff rt' \<and> rt_cache_bits_during rt' = rt_cache_bits_during rt \<and> rt_cache_bits_before rt' = rt_cache_bits_before rt
    \<and> rt_stage_l1_checksum_before rt' = rt_stage_l1_checksum_before rt"
proof -
  have p: "mm_ttbr0_probe cf < mm_image_end cf" and al: "mm_roundtrip_l1 cf AND 0x3fff = 0"
    using a by (simp_all add: mmu_addresses_def)
  have kept: "recovering cf secs (x\<lparr>am_phys := f\<rparr>) = recovering cf secs x" for secs x f by (simp add: recovering_def)
  note used = recovery_sections_used [OF l p, of sp vb l1]
  have acc: "recovering cf (recovery_sections cf sp vb l1) x \<Longrightarrow> SECTION_INDEX va \<in> recovery_sections cf sp vb l1 \<Longrightarrow>
      am_load va x = (am_phys x va, x)"
    "recovering cf (recovery_sections cf sp vb l1) x \<Longrightarrow> SECTION_INDEX va \<in> recovery_sections cf sp vb l1 \<Longrightarrow>
      am_store va v x = x\<lparr>am_phys := (am_phys x)(va := v)\<rparr>" for va x v
    using recovering_access [OF _ al] by blast+
  show ?thesis using r m1 b image_apart [OF l p]
    by (simp add: roundtrip_during_def Let_def acc used kept rt_ready_def rt_satisfy_def board_ready_def SAT_DURING_SELFTEST_def)
qed

lemma roundtrip_restore_passes:
  assumes l: "mmu_layout cf" and a: "mmu_addresses cf" and r: "rt_ready cf m 0xf9ff rt"
    and m1: "live cf (m1\<lparr>am_ttbr0 := am_ttbr0 m\<rparr>)" and b: "board_ready cf m1"
    and t: "am_sctlr m1 = am_sctlr m" "am_ttbcr m1 = am_ttbcr m" "am_dacr m1 = am_dacr m"
    and sum: "rt_stage_l1_checksum_before rt = ttbr_checksum (am_tables m1 (mm_roundtrip_l1 cf))"
  shows "\<exists>rt'. roundtrip_restore cf rt m1 =
      (rt', m1\<lparr>am_ttbr0 := am_ttbr0 m, am_phys := (am_phys m1)(mm_ttbr0_probe cf := 0x49aa0003)\<rparr>) \<and>
    rt_ready cf m 0xffff rt' \<and> rt_cache_bits_during rt' = rt_cache_bits_during rt \<and> rt_cache_bits_before rt' = rt_cache_bits_before rt
    \<and> rt_cache_bits_after rt' = rt_cache_bits_before rt'"
proof -
  have p: "mm_ttbr0_probe cf < mm_image_end cf" and al: "mm_l1_table cf AND 0x3fff = 0"
    using a by (simp_all add: mmu_addresses_def)
  have gic: "SECTION_INDEX (mm_gic_dist cf) = 0xf90" "SECTION_INDEX (mm_gic_cpu cf) = 0xf90" using l by (simp_all add: mmu_layout_def)
  note tr = live_image [OF l p] live_windows(1) [OF l] live_windows(3) [OF l gic(1)] live_windows(3) [OF l gic(2)]
  have acc: "live cf x \<Longrightarrow> window_translation (identity_map cf) va = Some (pa, ty) \<Longrightarrow> am_load va x = (am_phys x pa, x)"
    "live cf x \<Longrightarrow> window_translation (identity_map cf) va = Some (pa, ty) \<Longrightarrow> am_store va v x = x\<lparr>am_phys := (am_phys x)(pa := v)\<rparr>"
    for x va pa ty v
    using live_access [OF _ al] by blast+
  show ?thesis using r m1 b t sum image_apart [OF l p]
    by (simp add: roundtrip_restore_def Let_def acc tr rt_ready_def rt_satisfy_def board_ready_def
        SAT_ORIGINAL_RESTORED_def SAT_POST_RESTORE_SELFTEST_def)
qed

lemma roundtrip_finish_passes:
  assumes "rt_ready cf m 0xffff rt" and "rt_cache_bits_during rt = rt_cache_bits_before rt" "rt_cache_bits_after rt = rt_cache_bits_before rt"
  shows "fst (roundtrip_finish rt)"
  using assms by (simp add: roundtrip_finish_def Let_def rt_ready_def SAT_REQUIRED_def)


lemma roundtrip_passes:
  assumes l: "mmu_layout cf" and a: "mmu_addresses cf" and b: "board_ready cf m" and live: "live cf m"
    and regs: "am_ttbcr m = 0" "am_dacr m AND 3 \<noteq> 0" "am_vbar m \<noteq> 0" "am_sp m \<noteq> 0" and f: "4096 < fuel"
  shows "\<exists>rt t. mmu_stage90_ttbr0_roundtrip_selftest cf fuel m = Some (True, rt,
      m\<lparr>am_tables := (am_tables m)(mm_roundtrip_l1 cf := t), am_phys := (am_phys m)(mm_ttbr0_probe cf := 0x49aa0003)\<rparr>)"
proof -
  define secs where "secs = recovery_sections cf (am_sp m) (am_vbar m) (mm_roundtrip_l1 cf)"
  define t where "t = (\<lambda>s. if s \<in> secs then recovery_word cf s else 0)"
  define m1 where "m1 = m\<lparr>am_tables := (am_tables m)(mm_roundtrip_l1 cf := t)\<rparr>"
  have pr: "mm_ttbr0_probe cf < mm_image_end cf" using a by (simp add: mmu_addresses_def)
  note apart = image_apart [OF l pr]
  have ne: "mm_l1_table cf \<noteq> mm_roundtrip_l1 cf" using a by (simp add: mmu_addresses_def)
  obtain rt1 where rt1: "roundtrip_checks (roundtrip_begin cf m) = (True, rt1)" "rt_ready cf m 0x27 rt1"
    "rt_mapping_present_mask rt1 = 0" "rt_mapping_failure_mask rt1 = 0"
    using roundtrip_checks_pass [OF l a live regs] by auto
  have used: "rt_current_sp rt1 = am_sp m" "rt_vector_base rt1 = am_vbar m" "rt_stage_l1_base rt1 = mm_roundtrip_l1 cf"
    using rt1(2) by (simp_all add: rt_ready_def)
  have "STAGE90_BASE < mm_image_end cf" "mm_image_end cf \<le> 0xfff00000"
    using l mmu_layout_bounds [OF l] by (simp_all add: mmu_layout_def mmu_bounds_def)
  then have tab: "stage90_ttbr0_build_recovery_table cf fuel (am_sp m) (am_vbar m) (mm_roundtrip_l1 cf) = Some t"
    unfolding t_def secs_def using f by (rule recovery_table_built)
  obtain rt2 where rt2: "roundtrip_readback cf t rt1 = (True, rt2)" "rt_ready cf m 0x3f rt2"
    using roundtrip_readback_passes [OF rt1(2-4)] by (auto simp: t_def secs_def)
  have live1: "live cf m1" using live ne by (simp add: m1_def live_def)
  have ready: "rt_ready cf m s rt = rt_ready cf m1 s rt" for s rt by (simp add: rt_ready_def m1_def)
  define m2 where "m2 = m1\<lparr>am_phys := (am_phys m1)(mm_ttbr0_probe cf := 0x49aa0001), am_ttbr0 := mm_roundtrip_l1 cf\<rparr>"
  obtain rt3 where rt3: "roundtrip_switch cf t rt2 m1 = (rt3, m2)" "rt_ready cf m 0xf8ff rt3"
    "rt_cache_bits_during rt3 = rt_cache_bits_before rt3" "rt_stage_l1_checksum_before rt3 = ttbr_checksum t"
    using roundtrip_switch_passes [OF l a live1, of rt2 t] rt2(2) by (auto simp: ready m2_def)
  have rec: "recovering cf secs m2" using live by (simp add: recovering_def m2_def m1_def t_def live_def)
  have b2: "board_ready cf m2" using b apart by (simp add: board_ready_def m2_def m1_def)
  define m3 where "m3 = m2\<lparr>am_phys := (am_phys m2)(mm_ttbr0_probe cf := 0x49aa0002)\<rparr>"
  obtain rt4 where rt4: "roundtrip_during cf rt3 m2 = (rt4, m3)" "rt_ready cf m 0xf9ff rt4"
    "rt_cache_bits_during rt4 = rt_cache_bits_before rt4" "rt_stage_l1_checksum_before rt4 = ttbr_checksum t"
    using roundtrip_during_passes [OF l a rt3(2) rec [unfolded secs_def] b2] rt3 by (auto simp: m3_def)
  have live3: "live cf (m3\<lparr>am_ttbr0 := am_ttbr0 m\<rparr>)" using live1 by (simp add: m3_def m2_def live_def m1_def)
  have b3: "board_ready cf m3" using b2 apart by (simp add: board_ready_def m3_def)
  have k3: "am_sctlr m3 = am_sctlr m" "am_ttbcr m3 = am_ttbcr m" "am_dacr m3 = am_dacr m"
    "am_tables m3 (mm_roundtrip_l1 cf) = t" by (simp_all add: m3_def m2_def m1_def)
  define m4 where "m4 = m3\<lparr>am_ttbr0 := am_ttbr0 m, am_phys := (am_phys m3)(mm_ttbr0_probe cf := 0x49aa0003)\<rparr>"
  obtain rt5 where rt5: "roundtrip_restore cf rt4 m3 = (rt5, m4)" "rt_ready cf m 0xffff rt5"
    "rt_cache_bits_during rt5 = rt_cache_bits_before rt5" "rt_cache_bits_after rt5 = rt_cache_bits_before rt5"
    using roundtrip_restore_passes [OF l a rt4(2) live3 b3 k3(1-3)] rt4 k3(4) by (auto simp: m4_def)
  obtain rt6 where rt6: "roundtrip_finish rt5 = (True, rt6)"
    using roundtrip_finish_passes [OF rt5(2-4)] by (cases "roundtrip_finish rt5") auto
  have "mmu_stage90_ttbr0_roundtrip_selftest cf fuel m = Some (True, rt6, m4)"
    by (simp add: mmu_stage90_ttbr0_roundtrip_selftest_def rt1(1) used tab rt2(1) rt3(1) rt4(1) rt5(1) rt6 flip: m1_def)
  moreover have "m4 = m\<lparr>am_tables := (am_tables m)(mm_roundtrip_l1 cf := t), am_phys := (am_phys m)(mm_ttbr0_probe cf := 0x49aa0003)\<rparr>"
    by (simp add: m4_def m3_def m2_def m1_def)
  ultimately show ?thesis by blast
qed

lemma boot_mmu_selftests_pass:
  assumes "mmu_layout cf" and "mmu_addresses cf" and "board_ready cf m"
    and "am_vbar m \<noteq> 0" and "am_sp m \<noteq> 0" and "4096 < fuel"
  shows "\<exists>m1 m2 rt m3. mmu_identity_selftest cf fuel m = Some (True, m1) \<and> mmu_high_alias_selftest cf m1 = (True, m2) \<and>
    mmu_stage90_ttbr0_roundtrip_selftest cf fuel m2 = Some (True, rt, m3) \<and> rt_ttbr0_write_count rt = 2 \<and>
    live cf m3 \<and> am_aborts m3 = am_aborts m @ [STAGE90_RAM_CONSOLE_ALIAS_BASE]"
proof -
  note la = assms(1,2)
  obtain m1 where m1: "mmu_identity_selftest cf fuel m = Some (True, m1)" "live cf m1" "board_ready cf m1"
    "am_aborts m1 = am_aborts m" "am_ttbcr m1 = 0" "am_dacr m1 = 3" "am_vbar m1 = am_vbar m" "am_sp m1 = am_sp m"
    using identity_selftest_passes [OF la assms(3,6)] by auto
  obtain m2 where m2: "mmu_high_alias_selftest cf m1 = (True, m2)" "live cf m2" "board_ready cf m2"
    "am_aborts m2 = am_aborts m1 @ [STAGE90_RAM_CONSOLE_ALIAS_BASE]"
    "am_ttbcr m2 = am_ttbcr m1" "am_dacr m2 = am_dacr m1" "am_vbar m2 = am_vbar m1" "am_sp m2 = am_sp m1"
    using high_alias_selftest_passes [OF la m1(3,2)] by auto
  have regs: "am_ttbcr m2 = 0" "am_dacr m2 AND 3 \<noteq> 0" "am_vbar m2 \<noteq> 0" "am_sp m2 \<noteq> 0"
    using m1 m2 assms(4,5) by simp_all
  obtain rt t m3 where rt: "mmu_stage90_ttbr0_roundtrip_selftest cf fuel m2 = Some (True, rt, m3)"
    "m3 = m2\<lparr>am_tables := (am_tables m2)(mm_roundtrip_l1 cf := t), am_phys := (am_phys m2)(mm_ttbr0_probe cf := 0x49aa0003)\<rparr>"
    using roundtrip_passes [OF la m2(3,2) regs assms(6)] by auto
  have "rt_ttbr0_write_count rt = 2" using roundtrip_restores [OF rt(1)] by simp
  moreover have "live cf m3" using m2(2) assms(2) by (simp add: rt(2) live_def mmu_addresses_def)
  moreover have "am_aborts m3 = am_aborts m @ [STAGE90_RAM_CONSOLE_ALIAS_BASE]" using m1 m2 by (simp add: rt(2))
  ultimately show ?thesis using m1(1) m2(1) rt(1) by blast
qed

end
