(* ===== verification/Mmu_Props.thy ===== *)
theory Mmu_Props
  imports Mmu_Boot
begin

text \<open>
  What the payload's translation tables amount to: the identity table as a list of windows, one memory
  type per frame, where the recovery table departs from it, and what the self tests leave behind.
\<close>

unbundle bit_operations_syntax

subsection \<open>The live table\<close>

text \<open>C17. For any image and entry window within the bounds the build checks, \<open>build_identity_table\<close> ends, and
  under the table it leaves every address of the 32-bit space translates as the memory map says: the reset
  and interrupt sections, then the entry window, the console, the restart-reason section, the alias of the
  interrupt controller, the high alias of the image cut at its window, and the image itself, the first
  that covers the address; anything else faults.\<close>

theorem identity_table_refines_map:
  assumes "mmu_bounds cf" and "4096 < fuel"
  shows "\<exists>t. build_identity_table cf fuel = Some t \<and>
    (\<forall>l2 va. l1_walk l2 t va = window_translation (identity_map cf) va)"
  using assms by (rule identity_table_translates)

definition sample_mmu :: mmu_cfg where
  "sample_mmu = \<lparr>mm_attr = PMAP_ATTR_MODE_NORMAL_WB, mm_cache = CACHE_MODE_ICACHE_DCACHE, mm_entry = True,
     mm_entry_base = 0x80000000, mm_entry_limit = 0x01000000, mm_image_end = 0x00250000, mm_gic_dist = 0xf9000000,
     mm_gic_cpu = 0xf9002000, mm_l1_table = 0x00100000, mm_roundtrip_l1 = 0x00104000, mm_probe_word = 0x00200000,
     mm_alias_probe = 0x00200004, mm_vectors = 0x00008040, mm_ttbr0_probe = 0x00200008\<rparr>"

lemma sample_mmu_layout: "mmu_layout sample_mmu"
  by (simp add: mmu_layout_def sample_mmu_def STAGE90_BASE_def STAGE90_IMAGE_ALIAS_WINDOW_def RAM_PHYS_BASE_def SECTION_INDEX_div)

lemma sample_mmu_addresses: "mmu_addresses sample_mmu"
  by (simp add: mmu_addresses_def sample_mmu_def)

theorem identity_table_refines_map_witness:
  "\<exists>t. build_identity_table sample_mmu 5000 = Some t \<and> l1_walk (\<lambda>_. 0) t 0xc0200004 = Some (0x00200004, Normal_Write_Back)"
proof -
  obtain t where "build_identity_table sample_mmu 5000 = Some t"
    "\<forall>l2 va. l1_walk l2 t va = window_translation (identity_map sample_mmu) va"
    using identity_table_refines_map [OF mmu_layout_bounds [OF sample_mmu_layout], of 5000] by auto
  moreover have "window_translation (identity_map sample_mmu) 0xc0200004 = Some (0x00200004, Normal_Write_Back)"
    by (simp add: window_translation_def identity_map_def sample_mmu_def SECTION_INDEX_div sections_of_def nth_section_def dram_type_def)
  ultimately show ?thesis by auto
qed

lemma identity_map_target:
  "s < 4096 \<Longrightarrow> mapped_section (identity_map cf) s = Some (p, ty) \<Longrightarrow> p < 4096"
  by (auto simp: identity_map_def split: if_splits)

lemma section_part: "(nth_section p OR (va AND 0x000fffff)) AND L1_SECTION_MASK = nth_section p"
proof -
  have "(nth_section p OR (va AND 0x000fffff)) AND L1_SECTION_MASK
      = (nth_section p AND L1_SECTION_MASK) OR (va AND (0x000fffff AND L1_SECTION_MASK))"
    by (simp add: bit.conj_disj_distrib2 and.assoc)
  also have "\<dots> = nth_section p" by (simp add: nth_section_masked) (simp add: L1_SECTION_MASK_def)
  finally show ?thesis .
qed

lemma window_frame:
  assumes "window_translation (identity_map cf) va = Some (pa, ty)"
  shows "\<exists>p. mapped_section (identity_map cf) (SECTION_INDEX va) = Some (p, ty) \<and> p < 4096 \<and> pa AND L1_SECTION_MASK = nth_section p"
proof -
  obtain p where p: "mapped_section (identity_map cf) (SECTION_INDEX va) = Some (p, ty)" "pa = nth_section p OR (va AND 0x000fffff)"
    using assms by (auto simp: window_translation_def)
  have "pa AND L1_SECTION_MASK = nth_section p" unfolding p(2) by (rule section_part)
  then show ?thesis using p(1) identity_map_target [OF SECTION_INDEX_less p(1)] by blast
qed

text \<open>C26. Under the live table no megabyte of physical memory is seen with two memory types: two addresses
  that translate into the same frame, through the identity map, the high aliases or the entry window, have
  the same type, however the windows overlap.\<close>

theorem one_memory_type_per_frame:
  assumes "mmu_bounds cf" and "4096 < fuel" and "build_identity_table cf fuel = Some t"
    and "l1_walk l2 t va = Some (pa, ty)" and "l1_walk l2 t va' = Some (pa', ty')"
    and "pa AND L1_SECTION_MASK = pa' AND L1_SECTION_MASK"
  shows "ty = ty'"
proof -
  have "window_translation (identity_map cf) va = Some (pa, ty)" "window_translation (identity_map cf) va' = Some (pa', ty')"
    using identity_table_translates [OF assms(1,2)] assms(3-5) by auto
  then show ?thesis
    using window_frame [of cf va pa ty] window_frame [of cf va' pa' ty'] assms(6)
      identity_map_one_type [OF assms(1) SECTION_INDEX_less SECTION_INDEX_less] by (metis nth_section_eq)
qed

theorem one_memory_type_per_frame_witness:
  "\<exists>t. build_identity_table sample_mmu 5000 = Some t \<and> (\<exists>ty. l1_walk (\<lambda>_. 0) t 0xc4000104 = Some (0xf9000104, ty) \<and>
     l1_walk (\<lambda>_. 0) t 0xf9000104 = Some (0xf9000104, ty))"
proof -
  obtain t where t: "build_identity_table sample_mmu 5000 = Some t"
    "\<forall>l2 va. l1_walk l2 t va = window_translation (identity_map sample_mmu) va"
    using identity_table_translates [OF mmu_layout_bounds [OF sample_mmu_layout], of 5000] by auto
  then have w: "l1_walk (\<lambda>_. 0) t 0xc4000104 = Some (0xf9000104, Strongly_Ordered)"
    "\<exists>ty. l1_walk (\<lambda>_. 0) t 0xf9000104 = Some (0xf9000104, ty)"
    by (simp_all add: window_translation_def identity_map_def sample_mmu_def SECTION_INDEX_div sections_of_def nth_section_def dram_type_def)
  then obtain ty where ty: "l1_walk (\<lambda>_. 0) t 0xf9000104 = Some (0xf9000104, ty)" by blast
  have "Strongly_Ordered = ty"
    using one_memory_type_per_frame [OF mmu_layout_bounds [OF sample_mmu_layout] _ t(1) w(1) ty] by simp
  then show ?thesis using t(1) w(1) ty by blast
qed


subsection \<open>The recovery table\<close>

text \<open>C20. The recovery table maps the image, the console, the restart reason, the interrupt controller and the
  reset register, each address to itself, faults everywhere else, and passes its own read-back.  Where it
  maps, it agrees with the live table in address and type but for one megabyte: the second section of the
  console is DRAM by it, whatever the DRAM type, and console memory by the live table.\<close>

theorem recovery_table_matches_live:
  assumes "mmu_layout cf" and "sp < mm_image_end cf" "vb < mm_image_end cf" "l1 < mm_image_end cf" and "4096 < fuel"
  shows "\<exists>t r. build_identity_table cf fuel = Some t \<and> stage90_ttbr0_build_recovery_table cf fuel sp vb l1 = Some r \<and>
    (\<forall>l2 va. SECTION_INDEX va \<in> recovery_sections cf sp vb l1 \<longrightarrow>
       ttbr_verify_section_pa cf r va va \<and> l1_walk l2 r va = Some (va, recovery_type cf (SECTION_INDEX va)) \<and>
       l1_walk l2 t va = Some (va, if SECTION_INDEX va = 0xde6 then console_type (mm_attr cf) else recovery_type cf (SECTION_INDEX va))) \<and>
    (\<forall>l2 va. SECTION_INDEX va \<notin> recovery_sections cf sp vb l1 \<longrightarrow> l1_walk l2 r va = None)"
proof -
  obtain t r where tr: "build_identity_table cf fuel = Some t" "stage90_ttbr0_build_recovery_table cf fuel sp vb l1 = Some r"
    "\<forall>l2 va. SECTION_INDEX va \<in> recovery_sections cf sp vb l1 \<longrightarrow> l1_walk l2 r va = Some (va, recovery_type cf (SECTION_INDEX va)) \<and>
       l1_walk l2 t va = Some (va, if SECTION_INDEX va = 0xde6 then console_type (mm_attr cf) else recovery_type cf (SECTION_INDEX va))"
    "\<forall>l2 va. SECTION_INDEX va \<notin> recovery_sections cf sp vb l1 \<longrightarrow> l1_walk l2 r va = None"
    using recovery_table_agrees [OF assms] by auto
  have "STAGE90_BASE < mm_image_end cf" "mm_image_end cf \<le> 0xfff00000"
    using assms(1) mmu_layout_bounds [OF assms(1)] by (simp_all add: mmu_layout_def mmu_bounds_def)
  then have "r = (\<lambda>s. if s \<in> recovery_sections cf sp vb l1 then recovery_word cf s else 0)"
    using recovery_table_built [of cf fuel sp vb l1] assms(5) tr(2) by simp
  then have "ttbr_verify_section_pa cf r va va" if "SECTION_INDEX va \<in> recovery_sections cf sp vb l1" for va
    using recovery_verified [OF that] by simp
  then show ?thesis using tr by blast
qed

theorem recovery_table_matches_live_witness:
  "\<exists>t r. build_identity_table sample_mmu 5000 = Some t \<and>
     stage90_ttbr0_build_recovery_table sample_mmu 5000 0x00240000 0x00008020 0x00104000 = Some r \<and>
     l1_walk (\<lambda>_. 0) t 0xde600000 = Some (0xde600000, Normal_Uncached) \<and>
     l1_walk (\<lambda>_. 0) r 0xde600000 = Some (0xde600000, Normal_Write_Back) \<and> ttbr_verify_section_pa sample_mmu r 0xde600000 0xde600000"
proof -
  have "0x00240000 < mm_image_end sample_mmu" "0x00008020 < mm_image_end sample_mmu" "0x00104000 < mm_image_end sample_mmu"
    by (simp_all add: sample_mmu_def)
  then obtain t r where agree: "build_identity_table sample_mmu 5000 = Some t"
    "stage90_ttbr0_build_recovery_table sample_mmu 5000 0x00240000 0x00008020 0x00104000 = Some r"
    "SECTION_INDEX va \<in> recovery_sections sample_mmu 0x00240000 0x00008020 0x00104000 \<Longrightarrow>
       ttbr_verify_section_pa sample_mmu r va va \<and> l1_walk l2 r va = Some (va, recovery_type sample_mmu (SECTION_INDEX va)) \<and>
       l1_walk l2 t va = Some (va, if SECTION_INDEX va = 0xde6 then console_type (mm_attr sample_mmu)
         else recovery_type sample_mmu (SECTION_INDEX va))" for l2 va
    using recovery_table_matches_live [OF sample_mmu_layout, of "0x00240000" "0x00008020" "0x00104000" 5000] by auto
  have "SECTION_INDEX 0xde600000 = 0xde6" by (simp add: SECTION_INDEX_div)
  moreover have "console_type (mm_attr sample_mmu) = Normal_Uncached" "recovery_type sample_mmu 0xde6 = Normal_Write_Back"
    by (simp_all add: sample_mmu_def console_type_def recovery_type_def dram_type_def SECTION_INDEX_div)
  moreover have "0xde6 \<in> recovery_sections sample_mmu 0x00240000 0x00008020 0x00104000" by (simp add: recovery_sections_def)
  ultimately show ?thesis using agree(1,2) agree(3) [of "0xde600000" "\<lambda>_. 0"] by auto
qed

subsection \<open>The self tests\<close>

text \<open>Whatever the tables, the hardware answers and the outcome, the round trip leaves with TTBR0 and every
  other control register as it found them and with no table but its own changed.  TTBR0 is written twice, or
  never: then the test fails and memory is as it was.\<close>

theorem roundtrip_leaves_live_table:
  assumes "mmu_stage90_ttbr0_roundtrip_selftest cf fuel m = Some (ok, rt, m')"
  shows "am_ttbr0 m' = am_ttbr0 m \<and> am_sctlr m' = am_sctlr m \<and> am_ttbcr m' = am_ttbcr m \<and> am_dacr m' = am_dacr m
    \<and> am_vbar m' = am_vbar m \<and> (\<forall>a. a \<noteq> mm_roundtrip_l1 cf \<longrightarrow> am_tables m' a = am_tables m a)
    \<and> (rt_ttbr0_write_count rt = 2 \<or>
       rt_ttbr0_write_count rt = 0 \<and> \<not> ok \<and> am_phys m' = am_phys m \<and> am_aborts m' = am_aborts m)"
  using assms by (rule roundtrip_restores)

text \<open>A board after start-up, and the same with the live table on.\<close>

definition sample_board :: arm_machine where
  "sample_board = \<lparr>am_sctlr = 0, am_ttbr0 = 0, am_ttbcr = 0, am_dacr = 0, am_vbar = 0x00008020, am_sp = 0x00240000,
     am_cntfrq = 19200000, am_tables = (\<lambda>_ _. 0), am_l2 = (\<lambda>_. 0),
     am_phys = (\<lambda>a. if a = RAM_CONSOLE_BASE then RAM_CONSOLE_SIG else 1), am_stale = (\<lambda>_. 0), am_aborts = []\<rparr>"

definition sample_live :: arm_machine where
  "sample_live = sample_board\<lparr>am_sctlr := 0x1005, am_ttbr0 := 0x00100000, am_dacr := 3,
     am_tables := (\<lambda>_. identity_entries sample_mmu)\<rparr>"

lemma sample_board_ready: "board_ready sample_mmu sample_board" "board_ready sample_mmu sample_live"
  by (simp_all add: board_ready_def sample_board_def sample_live_def sample_mmu_def RAM_CONSOLE_BASE_def)

lemma sample_live_on: "live sample_mmu sample_live"
  by (simp add: live_def sample_live_def sample_mmu_def)

theorem roundtrip_leaves_live_table_witness:
  "\<exists>rt m'. mmu_stage90_ttbr0_roundtrip_selftest sample_mmu 5000 sample_live = Some (True, rt, m') \<and>
     am_ttbr0 m' = 0x00100000 \<and> rt_ttbr0_write_count rt = 2"
proof -
  have "am_ttbcr sample_live = 0" "am_dacr sample_live AND 3 \<noteq> 0" "am_vbar sample_live \<noteq> 0" "am_sp sample_live \<noteq> 0"
    by (simp_all add: sample_live_def sample_board_def)
  then obtain rt m' where run: "mmu_stage90_ttbr0_roundtrip_selftest sample_mmu 5000 sample_live = Some (True, rt, m')"
    using roundtrip_passes [OF sample_mmu_layout sample_mmu_addresses sample_board_ready(2) sample_live_on, of 5000] by auto
  have "am_ttbr0 sample_live = 0x00100000" by (simp add: sample_live_def)
  then show ?thesis using run roundtrip_leaves_live_table [OF run] by auto
qed

text \<open>C13. On a board whose console, interrupt controller and counter answer, the three self tests of the
  tables pass one after the other and leave the live table installed; and the loads of the whole run fault
  exactly once, at the console's alias, which the high-alias test reads although no entry maps it.\<close>

theorem mmu_selftests_pass_with_one_abort:
  assumes "mmu_layout cf" and "mmu_addresses cf" and "board_ready cf m"
    and "am_vbar m \<noteq> 0" and "am_sp m \<noteq> 0" and "4096 < fuel"
  shows "\<exists>m1 m2 rt m3. mmu_identity_selftest cf fuel m = Some (True, m1) \<and> mmu_high_alias_selftest cf m1 = (True, m2) \<and>
    mmu_stage90_ttbr0_roundtrip_selftest cf fuel m2 = Some (True, rt, m3) \<and> rt_ttbr0_write_count rt = 2 \<and>
    live cf m3 \<and> am_aborts m3 = am_aborts m @ [STAGE90_RAM_CONSOLE_ALIAS_BASE]"
  using assms by (rule boot_mmu_selftests_pass)

theorem mmu_selftests_pass_with_one_abort_witness:
  "\<exists>m1 m2. mmu_identity_selftest sample_mmu 5000 sample_board = Some (True, m1) \<and> mmu_high_alias_selftest sample_mmu m1 = (True, m2)"
proof -
  have "am_vbar sample_board \<noteq> 0" "am_sp sample_board \<noteq> 0" by (simp_all add: sample_board_def)
  then show ?thesis
    using mmu_selftests_pass_with_one_abort [OF sample_mmu_layout sample_mmu_addresses sample_board_ready(1), of 5000] by auto
qed

end
