(* ===== verification/Full_Pmap.thy ===== *)
theory Full_Pmap
  imports Mmu_Boot
begin

text \<open>
  The two-level candidate table of src/src/xnu_arm_vm_init_full_pmap.c: sections, and a window of small
  pages for the kernel image, its second-level tables taken from a pool; then its installation for a
  few reads and the way back.  \<open>pmap_tables\<close> holds the file's statics, the pool indexed by words.
  Left out of the result record: the fields that are only logged, and its checksum, which nothing reads
  back.
\<close>

unbundle bit_operations_syntax

subsection \<open>The tables\<close>

definition STAGE90_VIRT_BASE :: u32 where "STAGE90_VIRT_BASE = 0x80000000"
definition STAGE90_XNU_TTE_L2_ENTRY_COUNT :: nat where "STAGE90_XNU_TTE_L2_ENTRY_COUNT = 256"
definition STAGE90_XNU_TTE_L2_TABLE_COUNT :: nat where "STAGE90_XNU_TTE_L2_TABLE_COUNT = 128"
definition L1_TABLE_MASK :: u32 where "L1_TABLE_MASK = 0xfffffc00"
definition L2_PAGE_SIZE :: u32 where "L2_PAGE_SIZE = 0x1000"
definition L2_PAGE_MASK :: u32 where "L2_PAGE_MASK = 0xfffff000"

definition L1_INDEX :: "u32 \<Rightarrow> nat" where "L1_INDEX va = unat (drop_bit 20 va AND 0xfff)"
definition L2_INDEX :: "u32 \<Rightarrow> nat" where "L2_INDEX va = unat (drop_bit 12 va AND 0xff)"

record full_pmap_cfg =
  fc_mmu :: mmu_cfg
  fc_candidate_l1 :: u32
  fc_l2_pool :: u32
  fc_probe :: u32

record pmap_tables =
  pt_l1 :: l1_table
  pt_l2_pool :: "nat \<Rightarrow> u32"
  pt_allocated :: nat

definition map_l1_section_desc :: "u32 \<Rightarrow> u32 \<Rightarrow> u32 \<Rightarrow> l1_table \<Rightarrow> l1_table" where
  "map_l1_section_desc va pa desc t = t(L1_INDEX va := (pa AND L1_SECTION_MASK) OR desc)"

definition map_l1_section_dram :: "full_pmap_cfg \<Rightarrow> u32 \<Rightarrow> u32 \<Rightarrow> l1_table \<Rightarrow> l1_table" where
  "map_l1_section_dram cf va pa = map_l1_section_desc va pa (STAGE90_PMAP_DESC_SECTION_DRAM (mm_attr (fc_mmu cf)))"

definition map_l1_section_mmio :: "u32 \<Rightarrow> u32 \<Rightarrow> l1_table \<Rightarrow> l1_table" where
  "map_l1_section_mmio va pa = map_l1_section_desc va pa STAGE90_PMAP_DESC_SECTION_SO"

text \<open>The word index of a fresh table in the pool, or none.\<close>

definition alloc_l2_table :: "pmap_tables \<Rightarrow> (nat \<times> pmap_tables) option" where
  "alloc_l2_table p =
    (if pt_allocated p \<ge> STAGE90_XNU_TTE_L2_TABLE_COUNT then None
     else (let l2 = pt_allocated p * STAGE90_XNU_TTE_L2_ENTRY_COUNT
           in Some (l2, p\<lparr>pt_allocated := pt_allocated p + 1,
                pt_l2_pool := fold (\<lambda>i q. q(l2 + i := 0)) [0..<STAGE90_XNU_TTE_L2_ENTRY_COUNT] (pt_l2_pool p)\<rparr>)))"

definition map_l1_page_table :: "full_pmap_cfg \<Rightarrow> u32 \<Rightarrow> nat \<Rightarrow> l1_table \<Rightarrow> l1_table" where
  "map_l1_page_table cf va l2 t =
    (let l2_base = fc_l2_pool cf + 4 * word_of_nat l2 in t(L1_INDEX va := (l2_base AND L1_TABLE_MASK) OR 1))"

definition map_l2_page :: "full_pmap_cfg \<Rightarrow> nat \<Rightarrow> u32 \<Rightarrow> u32 \<Rightarrow> (nat \<Rightarrow> u32) \<Rightarrow> (nat \<Rightarrow> u32)" where
  "map_l2_page cf l2 va pa q =
    q(l2 + L2_INDEX va := (pa AND L2_PAGE_MASK) OR STAGE90_PMAP_DESC_PAGE_DRAM (mm_attr (fc_mmu cf)))"

subsection \<open>Building them\<close>

definition image_windows :: "full_pmap_cfg \<Rightarrow> u32" where
  "image_windows cf = (let n = (mm_image_end (fc_mmu cf) + L1_SECTION_SIZE - 1) div L1_SECTION_SIZE in if n = 0 then 1 else n)"

text \<open>Phase 2, \<open>k\<close> windows from window \<open>w\<close> on; false when the pool is used up.\<close>

fun kernel_windows :: "full_pmap_cfg \<Rightarrow> nat \<Rightarrow> u32 \<Rightarrow> pmap_tables \<Rightarrow> bool \<times> pmap_tables" where
  "kernel_windows cf 0 w p = (True, p)"
| "kernel_windows cf (Suc k) w p =
    (let base = w * L1_SECTION_SIZE
     in case alloc_l2_table p of
          None \<Rightarrow> (False, p)
        | Some (l2, p1) \<Rightarrow>
            kernel_windows cf k (w + 1)
              (p1\<lparr>pt_l1 := map_l1_page_table cf (STAGE90_VIRT_BASE + base) l2 (pt_l1 p1),
                  pt_l2_pool := fold (\<lambda>page. map_l2_page cf l2 (STAGE90_VIRT_BASE + (base + word_of_nat page * L2_PAGE_SIZE))
                                                (base + word_of_nat page * L2_PAGE_SIZE))
                                  [0..<STAGE90_XNU_TTE_L2_ENTRY_COUNT] (pt_l2_pool p1)\<rparr>))"

definition direct_map :: "full_pmap_cfg \<Rightarrow> l1_table \<Rightarrow> l1_table" where
  "direct_map cf = fold (\<lambda>j t. let va = 0x80200000 + word_of_nat j * L1_SECTION_SIZE
     in if va < STAGE90_VIRT_BASE + image_windows cf * L1_SECTION_SIZE then t else map_l1_section_dram cf va va t) [0..<256]"

definition device_sections :: "full_pmap_cfg \<Rightarrow> l1_table \<Rightarrow> l1_table" where
  "device_sections cf t =
    map_l1_section_mmio 0xfc400000 0xfc400000 (map_l1_section_mmio 0xfa000000 0xfa000000
      (map_l1_section_mmio 0xf9000000 0xf9000000
        (map_l1_section_dram cf 0xde600000 (RAM_CONSOLE_BASE + L1_SECTION_SIZE)
          (map_l1_section_dram cf 0xde500000 RAM_CONSOLE_BASE t))))"

definition alias_sections :: "full_pmap_cfg \<Rightarrow> nat \<Rightarrow> l1_table \<Rightarrow> l1_table option" where
  "alias_sections cf fuel t =
    map_option (\<lambda>t1. map_l1_section_mmio 0x0fa00000 0x0fa00000 (map_l1_section_mmio STAGE90_GIC_ALIAS_BASE 0xf9000000
        (map_l1_section_dram cf STAGE90_RAM_CONSOLE_ALIAS_BASE RAM_CONSOLE_BASE t1)))
      (alias_loop fuel 0 (mm_image_end (fc_mmu cf)) (\<lambda>off. map_l1_section_dram cf (STAGE90_HIGH_ALIAS_BASE + off) off) t)"

definition self_map :: "full_pmap_cfg \<Rightarrow> l1_table \<Rightarrow> l1_table" where
  "self_map cf t = map_l1_section_dram cf (fc_l2_pool cf) (fc_l2_pool cf) (map_l1_section_dram cf (fc_candidate_l1 cf) (fc_candidate_l1 cf) t)"

text \<open>The six phases: none when a loop does not end, false when the pool is used up.\<close>

definition build_candidate :: "full_pmap_cfg \<Rightarrow> nat \<Rightarrow> (bool \<times> pmap_tables) option" where
  "build_candidate cf fuel =
    (case section_loop fuel 0 (mm_image_end (fc_mmu cf)) (\<lambda>off. map_l1_section_dram cf off off) (\<lambda>_. 0) of
       None \<Rightarrow> None
     | Some t1 \<Rightarrow>
       (case kernel_windows cf (unat (image_windows cf)) 0 \<lparr>pt_l1 = t1, pt_l2_pool = (\<lambda>_. 0), pt_allocated = 0\<rparr> of
          (False, p) \<Rightarrow> Some (False, p)
        | (True, p) \<Rightarrow> map_option (\<lambda>t. (True, p\<lparr>pt_l1 := self_map cf t\<rparr>))
            (alias_sections cf fuel (device_sections cf (direct_map cf (pt_l1 p))))))"

subsection \<open>The result\<close>

definition FP_SAT_SOURCE_POST_PE_OK :: u32 where "FP_SAT_SOURCE_POST_PE_OK = 0x00000001"
definition FP_SAT_BOOT_ARGS_VALID :: u32 where "FP_SAT_BOOT_ARGS_VALID = 0x00000002"
definition FP_SAT_CANDIDATE_L1_VALID :: u32 where "FP_SAT_CANDIDATE_L1_VALID = 0x00000004"
definition FP_SAT_CANDIDATE_L1_POPULATED :: u32 where "FP_SAT_CANDIDATE_L1_POPULATED = 0x00000008"
definition FP_SAT_CONTROL_REGS_SAVED :: u32 where "FP_SAT_CONTROL_REGS_SAVED = 0x00000010"
definition FP_SAT_LIVE_PMAP_INSTALLED :: u32 where "FP_SAT_LIVE_PMAP_INSTALLED = 0x00000020"
definition FP_SAT_LIVE_PMAP_VERIFIED :: u32 where "FP_SAT_LIVE_PMAP_VERIFIED = 0x00000040"
definition FP_SAT_HIGH_ALIAS_VERIFIED :: u32 where "FP_SAT_HIGH_ALIAS_VERIFIED = 0x00000080"
definition FP_SAT_RAM_CONSOLE_VERIFIED :: u32 where "FP_SAT_RAM_CONSOLE_VERIFIED = 0x00000100"
definition FP_SAT_GIC_VERIFIED :: u32 where "FP_SAT_GIC_VERIFIED = 0x00000200"
definition FP_SAT_LIVE_PMAP_RESTORED :: u32 where "FP_SAT_LIVE_PMAP_RESTORED = 0x00000400"
definition FP_SAT_ORIGINAL_RESTORED :: u32 where "FP_SAT_ORIGINAL_RESTORED = 0x00000800"
definition FP_SAT_NO_PUBLIC_ARM_VM_INIT :: u32 where "FP_SAT_NO_PUBLIC_ARM_VM_INIT = 0x00001000"
definition FP_SAT_NO_PUBLIC_PMAP_RUNTIME :: u32 where "FP_SAT_NO_PUBLIC_PMAP_RUNTIME = 0x00002000"
definition FP_SAT_NO_PERSISTENT_WRITE :: u32 where "FP_SAT_NO_PERSISTENT_WRITE = 0x00004000"
definition FP_SAT_L2_TABLES_POPULATED :: u32 where "FP_SAT_L2_TABLES_POPULATED = 0x00008000"
definition FP_SAT_HIGH_VA_DATA_VERIFIED :: u32 where "FP_SAT_HIGH_VA_DATA_VERIFIED = 0x00010000"
definition FP_SAT_SAFETY_BOUNDARY :: u32 where "FP_SAT_SAFETY_BOUNDARY = 0x01000000"
definition FP_REQUIRED_MASK :: u32 where "FP_REQUIRED_MASK = 0x0101ffff"

definition FP_FAIL_SOURCE_POST_PE :: u32 where "FP_FAIL_SOURCE_POST_PE = 0x00000001"
definition FP_FAIL_BOOT_ARGS :: u32 where "FP_FAIL_BOOT_ARGS = 0x00000002"
definition FP_FAIL_CANDIDATE_L1_ALIGN :: u32 where "FP_FAIL_CANDIDATE_L1_ALIGN = 0x00000004"
definition FP_FAIL_MMU_DISABLED :: u32 where "FP_FAIL_MMU_DISABLED = 0x00000008"
definition FP_FAIL_TTBR0_MISMATCH :: u32 where "FP_FAIL_TTBR0_MISMATCH = 0x00000010"
definition FP_FAIL_CONTROL_REG_CHANGED :: u32 where "FP_FAIL_CONTROL_REG_CHANGED = 0x00000020"
definition FP_FAIL_HIGH_ALIAS :: u32 where "FP_FAIL_HIGH_ALIAS = 0x00000040"
definition FP_FAIL_RAM_CONSOLE :: u32 where "FP_FAIL_RAM_CONSOLE = 0x00000080"
definition FP_FAIL_GIC :: u32 where "FP_FAIL_GIC = 0x00000100"
definition FP_FAIL_RESTORE :: u32 where "FP_FAIL_RESTORE = 0x00000200"
definition FP_FAIL_L2_ALLOC :: u32 where "FP_FAIL_L2_ALLOC = 0x00000400"
definition FP_FAIL_HIGH_VA_DATA :: u32 where "FP_FAIL_HIGH_VA_DATA = 0x00010000"
definition FP_FAIL_SAFETY_BOUNDARY :: u32 where "FP_FAIL_SAFETY_BOUNDARY = 0x80000000"

record full_pmap_result =
  fr_status :: u32
  fr_satisfied_mask :: u32
  fr_failure_mask :: u32
  fr_l2_tables_allocated :: nat
  fr_original_ttbr0 :: u32
  fr_original_ttbcr :: u32
  fr_original_dacr :: u32
  fr_original_sctlr :: u32
  fr_ttbr0_write_count :: u32

definition fr_zero :: full_pmap_result where
  "fr_zero = \<lparr>fr_status = 0, fr_satisfied_mask = 0, fr_failure_mask = 0, fr_l2_tables_allocated = 0, fr_original_ttbr0 = 0,
     fr_original_ttbcr = 0, fr_original_dacr = 0, fr_original_sctlr = 0, fr_ttbr0_write_count = 0\<rparr>"

definition fr_satisfy :: "u32 \<Rightarrow> full_pmap_result \<Rightarrow> full_pmap_result" where
  "fr_satisfy msk r = r\<lparr>fr_satisfied_mask := fr_satisfied_mask r OR msk\<rparr>"

definition fr_fail :: "u32 \<Rightarrow> full_pmap_result \<Rightarrow> full_pmap_result" where
  "fr_fail msk r = r\<lparr>fr_failure_mask := fr_failure_mask r OR msk\<rparr>"

definition fr_check :: "bool \<Rightarrow> u32 \<Rightarrow> u32 \<Rightarrow> full_pmap_result \<Rightarrow> full_pmap_result" where
  "fr_check ok sat bad r = (if ok then fr_satisfy sat r else fr_fail bad r)"

subsection \<open>The run\<close>

text \<open>\<open>post_pe\<close> is the status of the stage before, or no result; \<open>args\<close> the boot arguments, or a null pointer.\<close>

definition full_pmap_sources :: "full_pmap_cfg \<Rightarrow> u32 option \<Rightarrow> boot_args option \<Rightarrow> bool \<times> full_pmap_result" where
  "full_pmap_sources cf post_pe args =
    (let r = fr_zero\<lparr>fr_status := STAGE90_STATUS_BASE\<rparr>
     in if post_pe \<noteq> Some STAGE90_STATUS_OK then (False, fr_fail FP_FAIL_SOURCE_POST_PE r)
        else
          (let r1 = fr_satisfy FP_SAT_SOURCE_POST_PE_OK r
           in if (case args of None \<Rightarrow> True
                   | Some a \<Rightarrow> ba_Revision a \<noteq> BOOT_ARGS_REVISION \<or> ba_Version a \<noteq> BOOT_ARGS_VERSION \<or> ba_physBase a \<noteq> STAGE90_BASE
                       \<or> ba_machineType a \<noteq> MACHINE_TYPE_MSM8974 \<or> ba_memSize a \<noteq> RAM_CONSOLE_BASE - RAM_PHYS_BASE)
              then (False, fr_fail FP_FAIL_BOOT_ARGS r1)
              else
                (let r2 = fr_satisfy FP_SAT_BOOT_ARGS_VALID r1
                 in if fc_candidate_l1 cf AND 0x3fff \<noteq> 0 then (False, fr_fail FP_FAIL_CANDIDATE_L1_ALIGN r2)
                    else (True, fr_satisfy FP_SAT_CANDIDATE_L1_VALID r2))))"

definition install_tables :: "full_pmap_cfg \<Rightarrow> pmap_tables \<Rightarrow> arm_machine \<Rightarrow> arm_machine" where
  "install_tables cf p m = m\<lparr>am_tables := (am_tables m)(fc_candidate_l1 cf := pt_l1 p),
     am_l2 := (\<lambda>a. if fc_l2_pool cf \<le> a \<and> unat (a - fc_l2_pool cf) < 4 * STAGE90_XNU_TTE_L2_TABLE_COUNT * STAGE90_XNU_TTE_L2_ENTRY_COUNT
                   then pt_l2_pool p (unat (a - fc_l2_pool cf) div 4) else am_l2 m a)\<rparr>"

definition full_pmap_switch :: "full_pmap_cfg \<Rightarrow> full_pmap_result \<Rightarrow> arm_machine \<Rightarrow> full_pmap_result \<times> arm_machine" where
  "full_pmap_switch cf r m =
    (let m1 = m\<lparr>am_ttbr0 := fc_candidate_l1 cf\<rparr>;
         r1 = fr_satisfy FP_SAT_LIVE_PMAP_INSTALLED (r\<lparr>fr_ttbr0_write_count := fr_ttbr0_write_count r + 1\<rparr>);
         r2 = (if am_ttbr0 m1 AND 0xffffc000 \<noteq> fc_candidate_l1 cf then fr_fail FP_FAIL_TTBR0_MISMATCH r1 else r1);
         r3 = (if am_ttbcr m1 \<noteq> fr_original_ttbcr r2 \<or> am_dacr m1 \<noteq> fr_original_dacr r2
               then fr_fail FP_FAIL_CONTROL_REG_CHANGED r2 else r2)
     in (if fr_failure_mask r3 = 0 then fr_satisfy FP_SAT_LIVE_PMAP_VERIFIED r3 else r3, m1))"

definition full_pmap_reads :: "full_pmap_cfg \<Rightarrow> full_pmap_result \<Rightarrow> arm_machine \<Rightarrow> full_pmap_result \<times> arm_machine" where
  "full_pmap_reads cf r m =
    (let identity_probe = fc_probe cf; alias_probe = STAGE90_HIGH_ALIAS_BASE + fc_probe cf;
         identity_gicd_ctlr = mm_gic_dist (fc_mmu cf);
         alias_gicd_ctlr = STAGE90_GIC_ALIAS_BASE + (mm_gic_dist (fc_mmu cf) - 0xf9000000);
         highva_probe = STAGE90_VIRT_BASE + fc_probe cf;
         (a, m1) = am_load alias_probe (am_store identity_probe 0x11223344 m);
         r1 = fr_check (a = 0x11223344) FP_SAT_HIGH_ALIAS_VERIFIED FP_FAIL_HIGH_ALIAS r;
         (b, m2) = am_load STAGE90_RAM_CONSOLE_ALIAS_BASE m1;
         (okb, m3) = (if b = RAM_CONSOLE_SIG
           then (case am_load STAGE90_RAM_CONSOLE_ALIAS_BASE m2 of (x, n1) \<Rightarrow> case am_load RAM_CONSOLE_BASE n1 of (y, n2) \<Rightarrow> (x = y, n2))
           else (False, m2));
         r2 = fr_check okb FP_SAT_RAM_CONSOLE_VERIFIED FP_FAIL_RAM_CONSOLE r1;
         (g, m4) = am_load alias_gicd_ctlr m3;
         (okg, m5) = (if g AND 1 \<noteq> 0
           then (case am_load alias_gicd_ctlr m4 of (x, n1) \<Rightarrow> case am_load identity_gicd_ctlr n1 of (y, n2) \<Rightarrow> (x = y, n2))
           else (False, m4));
         r3 = fr_check okg FP_SAT_GIC_VERIFIED FP_FAIL_GIC r2;
         (h, m6) = am_load highva_probe (am_store identity_probe 0xaabbccdd m5);
         (okh, m7) = (if h = 0xaabbccdd
           then (case am_load highva_probe m6 of (x, n1) \<Rightarrow> case am_load identity_probe n1 of (y, n2) \<Rightarrow> (x = y, n2))
           else (False, m6))
     in (fr_check okh FP_SAT_HIGH_VA_DATA_VERIFIED FP_FAIL_HIGH_VA_DATA r3, m7))"

definition full_pmap_restore :: "full_pmap_result \<Rightarrow> arm_machine \<Rightarrow> full_pmap_result \<times> arm_machine" where
  "full_pmap_restore r m =
    (let m1 = m\<lparr>am_ttbr0 := fr_original_ttbr0 r\<rparr>;
         r1 = fr_satisfy FP_SAT_LIVE_PMAP_RESTORED (r\<lparr>fr_ttbr0_write_count := fr_ttbr0_write_count r + 1\<rparr>)
     in (fr_check (am_ttbr0 m1 AND 0xffffc000 = fr_original_ttbr0 r1 AND 0xffffc000 \<and> am_ttbcr m1 = fr_original_ttbcr r1
           \<and> am_dacr m1 = fr_original_dacr r1 \<and> am_sctlr m1 = fr_original_sctlr r1) FP_SAT_ORIGINAL_RESTORED FP_FAIL_RESTORE r1, m1))"

definition full_pmap_finish :: "full_pmap_result \<Rightarrow> bool \<times> full_pmap_result" where
  "full_pmap_finish r =
    (let r1 = fr_satisfy (FP_SAT_NO_PUBLIC_ARM_VM_INIT OR FP_SAT_NO_PUBLIC_PMAP_RUNTIME OR FP_SAT_NO_PERSISTENT_WRITE) r;
         r2 = fr_check (fr_satisfied_mask r1 OR FP_SAT_SAFETY_BOUNDARY = FP_REQUIRED_MASK \<and> fr_failure_mask r1 = 0)
                FP_SAT_SAFETY_BOUNDARY FP_FAIL_SAFETY_BOUNDARY r1;
         r3 = r2\<lparr>fr_status := (if fr_satisfied_mask r2 = FP_REQUIRED_MASK \<and> fr_failure_mask r2 = 0
                then STAGE90_STATUS_OK else STAGE90_STATUS_FAIL (fr_failure_mask r2))\<rparr>
     in (fr_status r3 = STAGE90_STATUS_OK, r3))"

definition stage90_xnu_arm_vm_init_full_pmap_run ::
    "full_pmap_cfg \<Rightarrow> nat \<Rightarrow> u32 option \<Rightarrow> boot_args option \<Rightarrow> arm_machine \<Rightarrow> (bool \<times> full_pmap_result \<times> arm_machine) option" where
  "stage90_xnu_arm_vm_init_full_pmap_run cf fuel post_pe args m =
    (let finish = (\<lambda>(r, m'). case full_pmap_finish r of (ok, r') \<Rightarrow> Some (ok, r', m'));
         (checked, r1) = full_pmap_sources cf post_pe args
     in if \<not> checked then finish (r1, m)
        else case build_candidate cf fuel of
          None \<Rightarrow> None
        | Some (False, p) \<Rightarrow> finish (fr_fail FP_FAIL_L2_ALLOC r1, install_tables cf p m)
        | Some (True, p) \<Rightarrow>
          (let m1 = install_tables cf p m;
               r2 = (fr_satisfy FP_SAT_L2_TABLES_POPULATED (fr_satisfy FP_SAT_CANDIDATE_L1_POPULATED r1))
                 \<lparr>fr_l2_tables_allocated := pt_allocated p, fr_original_ttbr0 := am_ttbr0 m1, fr_original_ttbcr := am_ttbcr m1,
                   fr_original_dacr := am_dacr m1, fr_original_sctlr := am_sctlr m1\<rparr>
           in if fr_original_sctlr r2 AND 1 = 0 then finish (fr_fail FP_FAIL_MMU_DISABLED r2, m1)
              else
                (let (r4, m2) = full_pmap_switch cf (fr_satisfy FP_SAT_CONTROL_REGS_SAVED r2) m1;
                     (r5, m3) = full_pmap_reads cf r4 m2
                 in finish (full_pmap_restore r5 m3))))"

end
