(* ===== verification/Full_Pmap_Table.thy ===== *)
theory Full_Pmap_Table
  imports Full_Pmap Mmu_Props
begin

text \<open>
  The candidate table of \<open>Full_Pmap\<close> as a list of windows (\<open>full_map\<close>): what the build leaves in both
  levels, and the walk through them.
\<close>

unbundle bit_operations_syntax

subsection \<open>Pages\<close>

definition nth_page :: "nat \<Rightarrow> u32" where
  "nth_page i = word_of_nat (i * 0x1000)"

lemma unat_nth_page: "i < 0x100000 \<Longrightarrow> unat (nth_page i) = i * 0x1000"
  unfolding nth_page_def by (subst unat_of_nat) (simp add: mod_less)

lemma L1_INDEX_section: "L1_INDEX va = SECTION_INDEX va"
proof -
  have "drop_bit 20 va AND 0xfff = take_bit 12 (drop_bit 20 va)" by (simp add: take_bit_eq_mask mask_eq_exp_minus_1)
  also have "unat \<dots> = SECTION_INDEX va mod 0x1000" by (simp add: take_bit_eq_mod SECTION_INDEX_def unat_mod)
  finally show ?thesis using SECTION_INDEX_less [of va] by (simp add: L1_INDEX_def)
qed

lemma L2_INDEX_mod: "L2_INDEX va = unat va div 0x1000 mod 0x100"
proof -
  have "drop_bit 12 va AND 0xff = take_bit 8 (drop_bit 12 va)" by (simp add: take_bit_eq_mask mask_eq_exp_minus_1)
  also have "unat \<dots> = unat va div 0x1000 mod 0x100" by (simp add: take_bit_eq_mod drop_bit_eq_div unat_div unat_mod)
  finally show ?thesis by (simp add: L2_INDEX_def)
qed

lemma map_l1_section:
  "map_l1_section_dram cf = map_section_dram (fc_mmu cf)" "map_l1_section_mmio = map_section_mmio"
  by (simp_all add: fun_eq_iff map_l1_section_dram_def map_l1_section_mmio_def map_section_dram_def map_section_mmio_def
      map_l1_section_desc_def map_section_desc_def L1_INDEX_section)

lemma nth_page_masked: "nth_page i AND 0xfffff000 = nth_page i"
proof -
  have "nth_page i = push_bit 12 (word_of_nat i)" by (simp add: nth_page_def push_bit_eq_mult)
  then have "nth_page i = nth_page i AND NOT (Bit_Operations.mask 12)" by (simp add: bit_eq_iff bit_simps) auto
  moreover have "NOT (Bit_Operations.mask 12) = (0xfffff000 :: u32)" by (simp add: mask_eq_exp_minus_1 not_eq_complement)
  ultimately show ?thesis by metis
qed


lemma page_word:
  assumes "(d, ty) \<in> {(STAGE90_PMAP_DESC_PAGE_SO, Strongly_Ordered),
      (STAGE90_PMAP_DESC_PAGE_NORMAL_NC, Normal_Uncached), (STAGE90_PMAP_DESC_PAGE_NORMAL_WB, Normal_Write_Back)}"
  shows "bit ((x AND L2_PAGE_MASK) OR d) 1 \<and> ((x AND L2_PAGE_MASK) OR d) AND 0xfffff000 = x AND 0xfffff000
    \<and> page_type ((x AND L2_PAGE_MASK) OR d) = ty"
proof -
  have "drop_bit 6 ((x AND 0xfffff000) OR c) AND 7 = drop_bit 6 c AND 7" for c
  proof (rule bit_eqI)
    fix n show "bit (drop_bit 6 ((x AND 0xfffff000) OR c) AND 7) n = bit (drop_bit 6 c AND 7) n"
    proof (cases "n < 3")
      case True
      then have "n = 0 \<or> n = 1 \<or> n = 2" by linarith
      then show ?thesis by (auto simp: bit_simps)
    next
      case False
      have "\<not> bit (mask 3 :: u32) n" using False by (simp add: bit_mask_iff)
      then have "\<not> bit (7 :: u32) n" by (simp add: mask_eq_exp_minus_1)
      then show ?thesis unfolding bit_and_iff by blast
    qed
  qed
  then show ?thesis using assms
    by (auto simp: page_type_def mem_type_def STAGE90_PMAP_DESC_PAGE_SO_def
       STAGE90_PMAP_DESC_PAGE_NORMAL_NC_def STAGE90_PMAP_DESC_PAGE_NORMAL_WB_def L2_PAGE_MASK_def
       bit.conj_disj_distrib2 and.assoc bit_simps drop_bit_eq_div)
qed

lemma dram_page:
  "bit ((x AND L2_PAGE_MASK) OR STAGE90_PMAP_DESC_PAGE_DRAM mode) 1 \<and>
   ((x AND L2_PAGE_MASK) OR STAGE90_PMAP_DESC_PAGE_DRAM mode) AND 0xfffff000 = x AND 0xfffff000 \<and>
   page_type ((x AND L2_PAGE_MASK) OR STAGE90_PMAP_DESC_PAGE_DRAM mode) = dram_type mode"
  by (rule page_word) (auto simp: STAGE90_PMAP_DESC_PAGE_DRAM_def dram_type_def split: pmap_attr_mode.splits)

subsection \<open>The kernel windows\<close>

lemma image_windows_sections:
  assumes "mmu_layout (fc_mmu cf)"
  shows "unat (image_windows cf) = sections_of (mm_image_end (fc_mmu cf))" "0 < sections_of (mm_image_end (fc_mmu cf))"
proof -
  define e where "e = mm_image_end (fc_mmu cf)"
  have e: "0x8000 < unat e" "unat e \<le> 0x4000000"
    using assms by (simp_all add: mmu_layout_def e_def word_less_nat_alt word_le_nat_alt STAGE90_BASE_def STAGE90_IMAGE_ALIAS_WINDOW_def)
  have eq: "e + L1_SECTION_SIZE - 1 = e + 0xfffff" by (simp add: L1_SECTION_SIZE_def)
  have u: "unat ((e + L1_SECTION_SIZE - 1) div L1_SECTION_SIZE) = sections_of e"
    using e unfolding eq by (simp add: unat_div unat_plus_u32 sections_of_def L1_SECTION_SIZE_def)
  have pos: "0 < sections_of e" using e by (simp add: sections_of_def)
  then have "(e + L1_SECTION_SIZE - 1) div L1_SECTION_SIZE \<noteq> 0" using u by auto
  then show "unat (image_windows cf) = sections_of (mm_image_end (fc_mmu cf))" "0 < sections_of (mm_image_end (fc_mmu cf))"
    using u pos by (simp_all add: image_windows_def Let_def flip: e_def)
qed

lemma fold_zero: "fold (\<lambda>i q. q(l + i := 0)) [0..<n] q i = (if l \<le> i \<and> i < l + n then (0 :: u32) else q i)"
  by (induction n) (auto simp: le_less)

lemma fold_pages:
  "fold (\<lambda>i q. q(l + i := f (l + i))) [0..<n] q i = (if l \<le> i \<and> i < l + n then f i else q i)"
  by (induction n) (auto simp: le_less)

lemma page_address:
  assumes "w < 128" and "page < 256"
  shows "word_of_nat w * L1_SECTION_SIZE + word_of_nat page * L2_PAGE_SIZE = nth_page (w * 256 + page)"
    and "L2_INDEX (STAGE90_VIRT_BASE + nth_page (w * 256 + page)) = page"
proof -
  have "(w * 256 + page) * 0x1000 = w * 0x100000 + page * 0x1000" by simp
  then show "word_of_nat w * L1_SECTION_SIZE + word_of_nat page * L2_PAGE_SIZE = nth_page (w * 256 + page)"
    by (simp only: nth_page_def L1_SECTION_SIZE_def L2_PAGE_SIZE_def of_nat_add of_nat_mult of_nat_numeral)
  define i where "i = w * 256 + page"
  have i: "i < 0x8000" "i mod 0x100 = page" using assms by (simp_all add: i_def)
  have "unat (STAGE90_VIRT_BASE + nth_page i) = 0x80000000 + i * 0x1000"
    using i(1) by (simp add: STAGE90_VIRT_BASE_def unat_plus_u32 unat_nth_page)
  also have "\<dots> = (0x80000 + i) * 0x1000" by simp
  finally have "L2_INDEX (STAGE90_VIRT_BASE + nth_page i) = (0x800 * 0x100 + i) mod 0x100"
    by (simp only: L2_INDEX_mod div_mult_self_is_m) simp
  then show "L2_INDEX (STAGE90_VIRT_BASE + nth_page (w * 256 + page)) = page"
    using i(2) unfolding mod_mult_self3 by (simp only: i_def)
qed

definition page_entry :: "full_pmap_cfg \<Rightarrow> nat \<Rightarrow> u32" where
  "page_entry cf i = (nth_page i AND L2_PAGE_MASK) OR STAGE90_PMAP_DESC_PAGE_DRAM (mm_attr (fc_mmu cf))"

definition table_entry :: "full_pmap_cfg \<Rightarrow> nat \<Rightarrow> u32" where
  "table_entry cf w = ((fc_l2_pool cf + 4 * word_of_nat (w * 256)) AND L1_TABLE_MASK) OR 1"

lemma kernel_window:
  assumes "w < 128" and "pt_allocated p = w"
  shows "kernel_windows cf (Suc k) (word_of_nat w) p = kernel_windows cf k (word_of_nat (Suc w))
    (p\<lparr>pt_l1 := (pt_l1 p)(0x800 + w := table_entry cf w),
       pt_l2_pool := (\<lambda>i. if w * 256 \<le> i \<and> i < w * 256 + 256 then page_entry cf i else pt_l2_pool p i),
       pt_allocated := Suc w\<rparr>)"
proof -
  have l1: "map_l1_page_table cf (STAGE90_VIRT_BASE + word_of_nat w * L1_SECTION_SIZE) (w * 256) t = t(0x800 + w := table_entry cf w)" for t
  proof -
    have sec: "word_of_nat w * L1_SECTION_SIZE = nth_section w" by (simp add: nth_section_def L1_SECTION_SIZE_def)
    have "SECTION_INDEX (STAGE90_VIRT_BASE + nth_section w) = SECTION_INDEX STAGE90_VIRT_BASE + w"
      using assms(1) by (intro SECTION_INDEX_plus) (simp add: STAGE90_VIRT_BASE_def)
    then have "L1_INDEX (STAGE90_VIRT_BASE + word_of_nat w * L1_SECTION_SIZE) = 0x800 + w"
      unfolding sec by (simp add: L1_INDEX_section) (simp add: SECTION_INDEX_div STAGE90_VIRT_BASE_def)
    then show ?thesis by (simp add: map_l1_page_table_def table_entry_def)
  qed
  have "fold (\<lambda>page. map_l2_page cf (w * 256) (STAGE90_VIRT_BASE + (word_of_nat w * L1_SECTION_SIZE + word_of_nat page * L2_PAGE_SIZE))
      (word_of_nat w * L1_SECTION_SIZE + word_of_nat page * L2_PAGE_SIZE)) [0..<256] q =
      fold (\<lambda>i q. q(w * 256 + i := page_entry cf (w * 256 + i))) [0..<256] q" for q
    by (intro fold_cong refl ext) (simp add: map_l2_page_def page_address [OF assms(1)] page_entry_def)
  then have l2: "fold (\<lambda>page. map_l2_page cf (w * 256) (STAGE90_VIRT_BASE + (word_of_nat w * L1_SECTION_SIZE + word_of_nat page * L2_PAGE_SIZE))
      (word_of_nat w * L1_SECTION_SIZE + word_of_nat page * L2_PAGE_SIZE)) [0..<256] q =
      (\<lambda>i. if w * 256 \<le> i \<and> i < w * 256 + 256 then page_entry cf i else q i)" for q
    by (simp add: fun_eq_iff fold_pages)
  have alloc: "alloc_l2_table p = Some (w * 256, p\<lparr>pt_allocated := Suc w,
      pt_l2_pool := (\<lambda>i. if w * 256 \<le> i \<and> i < w * 256 + 256 then 0 else pt_l2_pool p i)\<rparr>)"
  proof -
    have "fold (\<lambda>i q. q(w * 256 + i := 0)) [0..<256] q = (\<lambda>i. if w * 256 \<le> i \<and> i < w * 256 + 256 then 0 else q i)" for q :: "nat \<Rightarrow> u32"
      by (rule ext) (rule fold_zero)
    then show ?thesis using assms
      by (simp add: alloc_l2_table_def STAGE90_XNU_TTE_L2_TABLE_COUNT_def STAGE90_XNU_TTE_L2_ENTRY_COUNT_def Let_def)
  qed
  have sc: "word_of_nat w + 1 = (word_of_nat (Suc w) :: u32)" by simp
  have merge: "(\<lambda>i. if P i then a i else (\<lambda>i. if P i then 0 else b i) i) = (\<lambda>i. if P i then a i else b i)" for P and a b :: "nat \<Rightarrow> u32"
    by auto
  show ?thesis
    by (simp only: kernel_windows.simps alloc option.case prod.case Let_def l1 l2 STAGE90_XNU_TTE_L2_ENTRY_COUNT_def sc merge
        pmap_tables.select_convs pmap_tables.update_convs pmap_tables.surjective) (cases p; simp cong: if_cong)
qed

lemma kernel_windows_all:
  assumes "w + k \<le> 128" and "pt_allocated p = w"
  shows "kernel_windows cf k (word_of_nat w) p = (True, p\<lparr>
    pt_l1 := (\<lambda>s. if 0x800 + w \<le> s \<and> s < 0x800 + (w + k) then table_entry cf (s - 0x800) else pt_l1 p s),
    pt_l2_pool := (\<lambda>i. if w * 256 \<le> i \<and> i < (w + k) * 256 then page_entry cf i else pt_l2_pool p i),
    pt_allocated := w + k\<rparr>)"
  using assms
proof (induction k arbitrary: w p)
  case 0
  then show ?case by (cases p) (auto simp: fun_eq_iff)
next
  case (Suc k)
  let ?p = "p\<lparr>pt_l1 := (pt_l1 p)(0x800 + w := table_entry cf w),
       pt_l2_pool := (\<lambda>i. if w * 256 \<le> i \<and> i < w * 256 + 256 then page_entry cf i else pt_l2_pool p i),
       pt_allocated := Suc w\<rparr>"
  have "kernel_windows cf (Suc k) (word_of_nat w) p = kernel_windows cf k (word_of_nat (Suc w)) ?p"
    using Suc.prems by (intro kernel_window) auto
  also have "\<dots> = (True, ?p\<lparr>
    pt_l1 := (\<lambda>s. if 0x800 + Suc w \<le> s \<and> s < 0x800 + (Suc w + k) then table_entry cf (s - 0x800) else pt_l1 ?p s),
    pt_l2_pool := (\<lambda>i. if Suc w * 256 \<le> i \<and> i < (Suc w + k) * 256 then page_entry cf i else pt_l2_pool ?p i),
    pt_allocated := Suc w + k\<rparr>)"
    using Suc.prems by (intro Suc.IH) auto
  also have "(\<lambda>s. if 0x800 + Suc w \<le> s \<and> s < 0x800 + (Suc w + k) then table_entry cf (s - 0x800) else pt_l1 ?p s) =
      (\<lambda>s. if 0x800 + w \<le> s \<and> s < 0x800 + (w + Suc k) then table_entry cf (s - 0x800) else pt_l1 p s)"
    by (rule ext) auto
  also have "(\<lambda>i. if Suc w * 256 \<le> i \<and> i < (Suc w + k) * 256 then page_entry cf i else pt_l2_pool ?p i) =
      (\<lambda>i. if w * 256 \<le> i \<and> i < (w + Suc k) * 256 then page_entry cf i else pt_l2_pool p i)"
    by (rule ext) auto
  finally show ?case by simp
qed

subsection \<open>The whole table\<close>

definition fp_layout :: "full_pmap_cfg \<Rightarrow> bool" where
  "fp_layout cf = (mmu_layout (fc_mmu cf) \<and> fc_candidate_l1 cf < mm_image_end (fc_mmu cf) \<and> fc_candidate_l1 cf AND 0x3fff = 0
     \<and> fc_candidate_l1 cf \<noteq> mm_l1_table (fc_mmu cf)
     \<and> fc_l2_pool cf < mm_image_end (fc_mmu cf) \<and> fc_l2_pool cf AND 0x3ff = 0 \<and> fc_probe cf < mm_image_end (fc_mmu cf))"

definition full_map :: "full_pmap_cfg \<Rightarrow> window list" where
  "full_map cf =
    (let n = sections_of (mm_image_end (fc_mmu cf)); dram = dram_type (mm_attr (fc_mmu cf))
     in [(0x0fa, 1, 0x0fa, Strongly_Ordered), (0xc40, 1, 0xf90, Strongly_Ordered), (0xc41, 1, 0xde5, dram),
         (0xc00, n, 0, dram), (0xfc4, 1, 0xfc4, Strongly_Ordered), (0xfa0, 1, 0xfa0, Strongly_Ordered),
         (0xf90, 1, 0xf90, Strongly_Ordered), (0xde5, 2, 0xde5, dram),
         (0x800, n, 0, dram), (0x802, 256, 0x802, dram), (0, n, 0, dram)])"

definition full_entries :: "full_pmap_cfg \<Rightarrow> l1_table" where
  "full_entries cf s =
    (let dram = STAGE90_PMAP_DESC_SECTION_DRAM (mm_attr (fc_mmu cf)); n = sections_of (mm_image_end (fc_mmu cf))
     in if s = 0x0fa then nth_section 0x0fa OR STAGE90_PMAP_DESC_SECTION_SO
        else if s = 0xc40 then nth_section 0xf90 OR STAGE90_PMAP_DESC_SECTION_SO
        else if s = 0xc41 then nth_section 0xde5 OR dram
        else if 0xc00 \<le> s \<and> s < 0xc00 + n then nth_section (s - 0xc00) OR dram
        else if s = 0xfc4 then nth_section 0xfc4 OR STAGE90_PMAP_DESC_SECTION_SO
        else if s = 0xfa0 then nth_section 0xfa0 OR STAGE90_PMAP_DESC_SECTION_SO
        else if s = 0xf90 then nth_section 0xf90 OR STAGE90_PMAP_DESC_SECTION_SO
        else if s = 0xde5 \<or> s = 0xde6 then nth_section s OR dram
        else if 0x800 \<le> s \<and> s < 0x800 + n then table_entry cf (s - 0x800)
        else if 0x802 \<le> s \<and> s < 0x902 then nth_section s OR dram
        else if s < n then nth_section s OR dram else 0)"

lemma fold_where:
  "fold (\<lambda>j t. t(a + j := (if c \<le> a + j then f (a + j) else t (a + j)))) [0..<m] t s =
   (if a \<le> s \<and> s < a + m \<and> c \<le> s then f s else (t :: l1_table) s)" for a c :: nat
  by (induction m) (auto simp: less_Suc_eq)

lemma direct_map_fold:
  assumes "unat (image_windows cf) = n" and "n \<le> 64"
  shows "direct_map cf t s = (if 0x802 \<le> s \<and> s < 0x902 \<and> 0x800 + n \<le> s
    then nth_section s OR STAGE90_PMAP_DESC_SECTION_DRAM (mm_attr (fc_mmu cf)) else t s)"
proof -
  have lim: "unat (STAGE90_VIRT_BASE + image_windows cf * L1_SECTION_SIZE) = (0x800 + n) * 0x100000"
    using assms by (simp add: STAGE90_VIRT_BASE_def L1_SECTION_SIZE_def unat_plus_u32 unat_mult_u32)
  have va: "0x80200000 + word_of_nat j * L1_SECTION_SIZE = nth_section (0x802 + j)" for j
    by (simp add: nth_section_def L1_SECTION_SIZE_def)
  have less: "(nth_section (0x802 + j) < STAGE90_VIRT_BASE + image_windows cf * L1_SECTION_SIZE) = (0x802 + j < 0x800 + n)" if "j < 256" for j
  proof -
    have "unat (nth_section (0x802 + j)) = (0x802 + j) * 0x100000" using that by (intro unat_nth_section) simp
    then show ?thesis by (simp only: word_less_nat_alt lim mult_less_cancel2) simp
  qed
  have "direct_map cf t = fold (\<lambda>j t. t(0x802 + j := (if 0x800 + n \<le> 0x802 + j
      then nth_section (0x802 + j) OR STAGE90_PMAP_DESC_SECTION_DRAM (mm_attr (fc_mmu cf)) else t (0x802 + j)))) [0..<256] t"
    unfolding direct_map_def
  proof (intro fold_cong refl ext)
    fix j x assume "j \<in> set [0..<256]"
    then have j: "j < 256" by simp
    then show "(let va = 0x80200000 + word_of_nat j * L1_SECTION_SIZE
         in if va < STAGE90_VIRT_BASE + image_windows cf * L1_SECTION_SIZE then x else map_l1_section_dram cf va va x) i =
        (x(0x802 + j := (if 0x800 + n \<le> 0x802 + j
          then nth_section (0x802 + j) OR STAGE90_PMAP_DESC_SECTION_DRAM (mm_attr (fc_mmu cf)) else x (0x802 + j)))) i" for i
      by (simp only: Let_def va less [OF j]) (auto simp: map_l1_section map_section_dram_def map_section_at)
  qed
  then show ?thesis
    by (simp only: fold_where [of "0x802" "0x800 + n" "\<lambda>i. nth_section i OR STAGE90_PMAP_DESC_SECTION_DRAM (mm_attr (fc_mmu cf))"]) auto
qed

lemma candidate_fixed:
  "0xfa000000 = nth_section 0xfa0" "0xde600000 = nth_section 0xde6" "0xde500000 = nth_section 0xde5"
  "STAGE90_RAM_CONSOLE_ALIAS_BASE = nth_section 0xc41"
  by (simp_all add: nth_section_def STAGE90_RAM_CONSOLE_ALIAS_BASE_def
      STAGE90_IMAGE_ALIAS_LIMIT_def STAGE90_IMAGE_ALIAS_WINDOW_def STAGE90_HIGH_ALIAS_BASE_def)

lemma candidate_built:
  assumes l: "fp_layout cf" and f: "4096 < fuel"
  shows "\<exists>p. build_candidate cf fuel = Some (True, p) \<and> pt_l1 p = full_entries cf \<and>
    (\<forall>i. i < sections_of (mm_image_end (fc_mmu cf)) * 256 \<longrightarrow> pt_l2_pool p i = page_entry cf i) \<and>
    pt_allocated p = sections_of (mm_image_end (fc_mmu cf))"
proof -
  let ?d = "STAGE90_PMAP_DESC_SECTION_DRAM (mm_attr (fc_mmu cf))"
  have ml: "mmu_layout (fc_mmu cf)" using l by (simp add: fp_layout_def)
  define n where "n = sections_of (mm_image_end (fc_mmu cf))"
  have n: "n \<le> 64" "unat (image_windows cf) = n" "n \<le> 4095"
    using image_sections_le [OF ml] image_windows_sections(1) [OF ml] by (simp_all add: n_def)
  have bound: "mm_image_end (fc_mmu cf) \<le> 0xfff00000" using mmu_layout_bounds [OF ml] by (simp add: mmu_bounds_def)
  define t1 where "t1 = (\<lambda>s. if s < n then nth_section s OR ?d else 0)"
  have p1: "section_loop fuel 0 (mm_image_end (fc_mmu cf)) (\<lambda>off. map_l1_section_dram cf off off) (\<lambda>_. 0) = Some t1"
    using section_loop_fold [OF bound, of 0 fuel "\<lambda>off. map_l1_section_dram cf off off" "\<lambda>_. 0"] f n
    by (simp add: nth_section_0 map_l1_section t1_def fun_eq_iff image_fold flip: n_def)
  define p where "p = \<lparr>pt_l1 = (\<lambda>s. if 0x800 \<le> s \<and> s < 0x800 + n then table_entry cf (s - 0x800) else t1 s),
    pt_l2_pool = (\<lambda>i. if i < n * 256 then page_entry cf i else 0), pt_allocated = n\<rparr>"
  have p2: "kernel_windows cf (unat (image_windows cf)) 0 \<lparr>pt_l1 = t1, pt_l2_pool = (\<lambda>_. 0), pt_allocated = 0\<rparr> = (True, p)"
    using kernel_windows_all [of 0 n "\<lparr>pt_l1 = t1, pt_l2_pool = (\<lambda>_. 0), pt_allocated = 0\<rparr>" cf] n
    by (simp add: p_def cong: if_cong)
  define t3 where "t3 = device_sections cf (direct_map cf (pt_l1 p))"
  have t3: "t3 s = (if s = 0xfc4 then nth_section 0xfc4 OR STAGE90_PMAP_DESC_SECTION_SO
        else if s = 0xfa0 then nth_section 0xfa0 OR STAGE90_PMAP_DESC_SECTION_SO
        else if s = 0xf90 then nth_section 0xf90 OR STAGE90_PMAP_DESC_SECTION_SO
        else if s = 0xde6 \<or> s = 0xde5 then nth_section s OR ?d
        else if 0x802 \<le> s \<and> s < 0x902 \<and> 0x800 + n \<le> s then nth_section s OR ?d
        else if 0x800 \<le> s \<and> s < 0x800 + n then table_entry cf (s - 0x800) else t1 s)" for s
    by (simp only: t3_def device_sections_def map_l1_section map_section_mmio_def map_section_dram_def candidate_fixed fixed_sections map_section_at
        fun_upd_apply direct_map_fold [OF n(2,1)] p_def pmap_tables.select_convs) simp
  have p5: "alias_loop fuel 0 (mm_image_end (fc_mmu cf)) (\<lambda>off. map_l1_section_dram cf (STAGE90_HIGH_ALIAS_BASE + off) off) t3
      = Some (\<lambda>s. if 0xc00 \<le> s \<and> s < 0xc00 + n then nth_section (s - 0xc00) OR ?d else t3 s)"
    using alias_loop_fold [of 0 "mm_image_end (fc_mmu cf)" fuel "\<lambda>off. map_l1_section_dram cf (STAGE90_HIGH_ALIAS_BASE + off) off" t3] f n
    by (simp add: nth_section_0 map_l1_section fun_eq_iff alias_fold flip: n_def)
  have self: "SECTION_INDEX (fc_candidate_l1 cf) < n" "SECTION_INDEX (fc_l2_pool cf) < n"
    using l in_image_section [of _ "fc_mmu cf"] by (simp_all add: fp_layout_def n_def)
  have "self_map cf t = t(SECTION_INDEX (fc_candidate_l1 cf) := nth_section (SECTION_INDEX (fc_candidate_l1 cf)) OR ?d,
      SECTION_INDEX (fc_l2_pool cf) := nth_section (SECTION_INDEX (fc_l2_pool cf)) OR ?d)" for t
    by (simp add: self_map_def map_l1_section identity_body)
  note self_map = this
  define t4 where "t4 = (\<lambda>s. if 0xc00 \<le> s \<and> s < 0xc00 + n then nth_section (s - 0xc00) OR ?d else t3 s)"
  define t5 where "t5 = map_l1_section_mmio 0x0fa00000 0x0fa00000 (map_l1_section_mmio STAGE90_GIC_ALIAS_BASE 0xf9000000
        (map_l1_section_dram cf STAGE90_RAM_CONSOLE_ALIAS_BASE RAM_CONSOLE_BASE t4))"
  have p6: "alias_sections cf fuel t3 = Some t5" by (simp only: alias_sections_def p5 option.map t4_def t5_def)
  have t5: "t5 s = (if s = 0x0fa then nth_section 0x0fa OR STAGE90_PMAP_DESC_SECTION_SO
        else if s = 0xc40 then nth_section 0xf90 OR STAGE90_PMAP_DESC_SECTION_SO
        else if s = 0xc41 then nth_section 0xde5 OR ?d
        else if 0xc00 \<le> s \<and> s < 0xc00 + n then nth_section (s - 0xc00) OR ?d else t3 s)" for s
    by (simp only: t5_def t4_def map_l1_section map_section_mmio_def map_section_dram_def candidate_fixed fixed_sections
        map_section_at fun_upd_apply)
  have "self_map cf t5 s = full_entries cf s" for s
  proof (cases "s = SECTION_INDEX (fc_candidate_l1 cf) \<or> s = SECTION_INDEX (fc_l2_pool cf)")
    case True
    then have "s < n" using self by auto
    then have "full_entries cf s = nth_section s OR ?d" using n by (simp add: full_entries_def Let_def flip: n_def)
    then show ?thesis using True by (auto simp: self_map)
  next
    case False
    then have "self_map cf t5 s = t5 s" by (simp add: self_map)
    also have "\<dots> = full_entries cf s"
      by (simp only: t5 t3 t1_def full_entries_def Let_def n_def) (simp add: disj_commute)
    finally show ?thesis .
  qed
  then have "self_map cf t5 = full_entries cf" by blast
  then show ?thesis
    by (simp add: build_candidate_def p1 p2 flip: t3_def n_def) (simp add: p6 p_def)
qed

subsection \<open>The walk\<close>

lemma unat_low: "unat (a AND 0x3ff :: u32) = unat a mod 0x400"
proof -
  have "a AND 0x3ff = take_bit 10 a" by (simp add: take_bit_eq_mask mask_eq_exp_minus_1)
  then show ?thesis by (simp add: take_bit_eq_mod unat_mod)
qed

lemma low_clear: "x AND 0x3ff = 0 \<Longrightarrow> x AND 0xfffffc00 = (x :: u32)"
proof -
  assume "x AND 0x3ff = 0"
  then have "x AND 0xfffffc00 = (x AND 0xfffffc00) OR (x AND 0x3ff)" by simp
  also have "\<dots> = x AND 0xffffffff" by (simp flip: bit.conj_disj_distrib)
  also have "(0xffffffff :: u32) = - 1" by simp
  finally show ?thesis by simp
qed

lemma page_base: "nth_page (unat a div 0x1000) = a AND 0xfffff000"
proof -
  have "unat a div 0x1000 = unat (drop_bit 12 a)" by (simp add: drop_bit_eq_div unat_div)
  then have "nth_page (unat a div 0x1000) = push_bit 12 (drop_bit 12 a)"
    by (simp add: nth_page_def push_bit_eq_mult)
  also have "\<dots> = a AND NOT (Bit_Operations.mask 12)" by (simp add: bit_eq_iff bit_simps not_less) auto
  also have "NOT (Bit_Operations.mask 12) = (0xfffff000 :: u32)" by (simp add: mask_eq_exp_minus_1 not_eq_complement)
  finally show ?thesis .
qed

lemma page_and_offset: "(a AND 0xfffff000) OR (a AND 0xfff) = (a :: u32)"
proof -
  have "(a AND 0xfffff000) OR (a AND 0xfff) = a AND 0xffffffff" by (simp flip: bit.conj_disj_distrib)
  also have "(0xffffffff :: u32) = - 1" by simp
  finally show ?thesis by simp
qed

definition pool_at :: "full_pmap_cfg \<Rightarrow> nat \<Rightarrow> (u32 \<Rightarrow> u32) \<Rightarrow> bool" where
  "pool_at cf n l2 = (\<forall>i. i < n * 256 \<longrightarrow> l2 (fc_l2_pool cf + 4 * word_of_nat i) = page_entry cf i)"

lemma table_entry_word:
  assumes "fc_l2_pool cf AND 0x3ff = 0"
  shows "table_entry cf w AND 3 = 1" "table_entry cf w AND 0xfffffc00 = fc_l2_pool cf + 4 * word_of_nat (w * 256)"
    "(fc_l2_pool cf + 4 * word_of_nat (w * 256)) AND 0x3ff = 0"
proof -
  let ?b = "fc_l2_pool cf + 4 * word_of_nat (w * 256)"
  have "unat (fc_l2_pool cf) mod 0x400 = 0" using assms unat_low [of "fc_l2_pool cf"] by simp
  moreover have "?b = fc_l2_pool cf + word_of_nat (w * 0x400)" by simp
  moreover have "unat (fc_l2_pool cf + word_of_nat (w * 0x400)) mod 0x400 = unat (fc_l2_pool cf) mod 0x400"
  proof -
    have "unat (word_of_nat (w * 0x400) :: u32) mod 0x400 = 0"
      by (subst unat_of_nat) (simp add: mod_mod_cancel)
    then show ?thesis
      using mod_add_right_eq [of "unat (fc_l2_pool cf)" "unat (word_of_nat (w * 0x400) :: u32)" "0x400"]
      by (simp only: unat_plus_u32) (simp add: mod_mod_cancel)
  qed
  ultimately have "unat (?b AND 0x3ff) = 0" by (simp only: unat_low)
  then show low: "?b AND 0x3ff = 0" by (simp only: unat_eq_zero)
  have "?b AND 3 = 0"
  proof -
    have "?b AND 3 = (?b AND 0x3ff) AND 3" by (simp add: and.assoc)
    then show ?thesis by (simp only: low and_zero_eq)  simp
  qed
  then show "table_entry cf w AND 3 = 1" "table_entry cf w AND 0xfffffc00 = ?b"
    using low_clear [OF low] by (simp_all add: table_entry_def L1_TABLE_MASK_def bit.conj_disj_distrib2 and.assoc)
qed

lemma kernel_walk:
  assumes pool: "pool_at cf n l2" and al: "fc_l2_pool cf AND 0x3ff = 0" and n: "n \<le> 64"
    and a: "SECTION_INDEX a < n" and t: "t (0x800 + SECTION_INDEX a) = table_entry cf (SECTION_INDEX a)"
  shows "l1_walk l2 t (STAGE90_VIRT_BASE + a) = Some (a, dram_type (mm_attr (fc_mmu cf)))"
proof -
  define w page where "w = SECTION_INDEX a" "page = L2_INDEX a"
  have small: "unat a < 0x4000000" using a n by (simp add: SECTION_INDEX_div)
  have u: "unat (STAGE90_VIRT_BASE + a) = 0x80000000 + unat a"
    using small by (simp add: STAGE90_VIRT_BASE_def unat_plus_u32)
  have idx: "SECTION_INDEX (STAGE90_VIRT_BASE + a) = 0x800 + w"
    by (simp add: SECTION_INDEX_div u w_page_def)
  have "L2_INDEX (STAGE90_VIRT_BASE + a) = page"
  proof -
    have "(0x80000000 + unat a) div 0x1000 = 0x80000 + unat a div 0x1000" using div_plus_div_distrib_dvd_left [of "0x1000" "0x80000000" "unat a"] by simp
    also have "\<dots> mod 0x100 = unat a div 0x1000 mod 0x100" using mod_add_left_eq [of "0x80000" "0x100" "unat a div 0x1000"] by simp
    finally show ?thesis by (simp only: L2_INDEX_mod u w_page_def)
  qed
  then have pw: "drop_bit 12 (STAGE90_VIRT_BASE + a) AND 0xff = word_of_nat page"
    by (simp add: L2_INDEX_def flip: \<open>L2_INDEX (STAGE90_VIRT_BASE + a) = page\<close>)
  have page: "page < 256" by (simp add: w_page_def L2_INDEX_mod)
  define b where "b = fc_l2_pool cf + 4 * word_of_nat (w * 256)"
  note e = table_entry_word [OF al, of w, folded b_def]
  have addr: "b OR push_bit 2 (word_of_nat page) = fc_l2_pool cf + 4 * word_of_nat (w * 256 + page)"
  proof -
    have "unat (push_bit 2 (word_of_nat page) :: u32) < 0x400"
      using page by (simp add: push_bit_eq_mult unat_mult_u32 unat_of_nat)
    then have "push_bit 2 (word_of_nat page) = (push_bit 2 (word_of_nat page) :: u32) AND 0x3ff"
      by (simp only: word_unat_eq_iff unat_low) simp
    then have "b AND push_bit 2 (word_of_nat page) = (b AND 0x3ff) AND push_bit 2 (word_of_nat page)"
      by (metis and.assoc and.commute)
    then have "b AND push_bit 2 (word_of_nat page) = 0" by (simp only: e(3) zero_and_eq)
    then have "b OR push_bit 2 (word_of_nat page) = b + push_bit 2 (word_of_nat page)"
      by (simp add: disjunctive_add_eq_or)
    then show ?thesis by (simp add: b_def push_bit_eq_mult)
  qed
  have i: "w * 256 + page = unat a div 0x1000"
  proof -
    have "unat a div 0x1000 div 0x100 = w" by (simp add: w_page_def SECTION_INDEX_div div_mult2_eq [symmetric])
    then show ?thesis using div_mult_mod_eq [of "unat a div 0x1000" "0x100"] by (simp add: w_page_def L2_INDEX_mod)
  qed
  have "l2 (fc_l2_pool cf + 4 * word_of_nat (w * 256 + page)) = page_entry cf (w * 256 + page)"
  proof -
    have "w * 256 + page < n * 256" using a page by (simp add: w_page_def(1))
    then show ?thesis using pool by (simp only: pool_at_def)
  qed
  moreover have "page_entry cf (w * 256 + page) AND 0xfffff000 = a AND 0xfffff000"
    using dram_page [of "nth_page (w * 256 + page)"] nth_page_masked [of "w * 256 + page"] page_base [of a]
    by (simp add: page_entry_def i)
  moreover have "(STAGE90_VIRT_BASE + a) AND 0xfff = a AND 0xfff"
  proof -
    have "x AND 0xfff = take_bit 12 x" for x :: u32 by (simp add: take_bit_eq_mask mask_eq_exp_minus_1)
    moreover have "unat (take_bit 12 (STAGE90_VIRT_BASE + a)) = unat (take_bit 12 a)"
      using mod_add_left_eq [of "0x80000000" "0x1000" "unat a"] by (simp only: take_bit_eq_mod unat_mod u) (simp add: unat_mod)
    ultimately show ?thesis by (simp only: word_unat_eq_iff)
  qed
  ultimately show ?thesis
    using e(1,2) t idx dram_page [of "nth_page (w * 256 + page)" "mm_attr (fc_mmu cf)"] page_and_offset [of a]
    by (simp add: l1_walk_def Let_def pw addr page_entry_def w_page_def(1) flip: SECTION_INDEX_def)
qed

subsection \<open>Translation\<close>

lemma fp_layout_sections:
  assumes "fp_layout cf"
  shows "mmu_layout (fc_mmu cf)" "sections_of (mm_image_end (fc_mmu cf)) \<le> 64"
  using assms image_sections_le by (auto simp: fp_layout_def)

lemma full_entries_show:
  assumes "s < 4096" and "\<not> (0x800 \<le> s \<and> s < 0x800 + sections_of (mm_image_end (fc_mmu cf)))"
  shows "entry_shows (full_entries cf s) (mapped_section (full_map cf) s)"
  unfolding full_entries_def full_map_def Let_def
  using assms by (intro entry_shows_if) (auto simp: section_entry_section entry_shows_def)

lemma full_map_kernel:
  assumes "fp_layout cf" and "SECTION_INDEX a < sections_of (mm_image_end (fc_mmu cf))"
  shows "window_translation (full_map cf) (STAGE90_VIRT_BASE + a) = Some (a, dram_type (mm_attr (fc_mmu cf)))"
proof (rule shifted_translation)
  note n = fp_layout_sections(2) [OF assms(1)]
  have "unat a < 0x4000000" using assms(2) n by (simp add: SECTION_INDEX_div)
  then have i: "SECTION_INDEX (STAGE90_VIRT_BASE + a) = 0x800 + SECTION_INDEX a"
    by (simp add: SECTION_INDEX_div STAGE90_VIRT_BASE_def unat_plus_u32)
  show "mapped_section (full_map cf) (SECTION_INDEX (STAGE90_VIRT_BASE + a)) = Some (SECTION_INDEX a, dram_type (mm_attr (fc_mmu cf)))"
    using assms(2) n by (simp add: full_map_def Let_def i)
qed (simp add: STAGE90_VIRT_BASE_def)

lemma full_table_walk:
  assumes l: "fp_layout cf" and pool: "pool_at cf (sections_of (mm_image_end (fc_mmu cf))) l2"
  shows "l1_walk l2 (full_entries cf) va = window_translation (full_map cf) va"
proof (cases "0x800 \<le> SECTION_INDEX va \<and> SECTION_INDEX va < 0x800 + sections_of (mm_image_end (fc_mmu cf))")
  case True
  note n = fp_layout_sections(2) [OF l]
  define a where "a = va - STAGE90_VIRT_BASE"
  have va: "va = STAGE90_VIRT_BASE + a" by (simp add: a_def)
  have "0x80000000 \<le> unat va"
    using True by (simp only: SECTION_INDEX_div) linarith
  then have "unat a = unat va - 0x80000000"
    by (simp add: a_def STAGE90_VIRT_BASE_def unat_sub_if' word_le_nat_alt)
  then have s: "SECTION_INDEX a = SECTION_INDEX va - 0x800" by (simp add: SECTION_INDEX_div)
  then have a: "SECTION_INDEX a < sections_of (mm_image_end (fc_mmu cf))" using True by linarith
  have "full_entries cf (0x800 + SECTION_INDEX a) = table_entry cf (SECTION_INDEX a)"
    using a n by (simp add: full_entries_def Let_def)
  moreover have "fc_l2_pool cf AND 0x3ff = 0" using l by (simp add: fp_layout_def)
  ultimately show ?thesis unfolding va
    using kernel_walk [where t = "full_entries cf", OF pool _ n a] full_map_kernel [OF l a] by simp
next
  case False
  then show ?thesis by (intro entry_shows_walk full_entries_show SECTION_INDEX_less)
qed

lemma install_tables_pool:
  assumes "fp_layout cf" and "\<And>i. i < sections_of (mm_image_end (fc_mmu cf)) * 256 \<Longrightarrow> pt_l2_pool p i = page_entry cf i"
  shows "pool_at cf (sections_of (mm_image_end (fc_mmu cf))) (am_l2 (install_tables cf p m))"
  unfolding pool_at_def
proof (intro allI impI)
  fix i assume i: "i < sections_of (mm_image_end (fc_mmu cf)) * 256"
  note n = fp_layout_sections(2) [OF assms(1)]
  have "SECTION_INDEX (fc_l2_pool cf) < 64" using assms(1) n in_image_section [of "fc_l2_pool cf" "fc_mmu cf"] by (simp add: fp_layout_def)
  then have b: "unat (fc_l2_pool cf) < 0x4000000" by (simp add: SECTION_INDEX_div)
  have k: "i < 16384" using i n by linarith
  then have u: "unat (4 * word_of_nat i :: u32) = 4 * i" by (simp add: unat_mult_u32 unat_of_nat)
  have "fc_l2_pool cf \<le> fc_l2_pool cf + 4 * word_of_nat i"
    using b k u by (simp add: word_le_nat_alt unat_plus_u32)
  then show "am_l2 (install_tables cf p m) (fc_l2_pool cf + 4 * word_of_nat i) = page_entry cf i"
    using k u assms(2) [OF i] by (simp add: install_tables_def STAGE90_XNU_TTE_L2_TABLE_COUNT_def STAGE90_XNU_TTE_L2_ENTRY_COUNT_def)
qed

lemma candidate_translates:
  assumes "fp_layout cf" and "4096 < fuel"
  shows "\<exists>p. build_candidate cf fuel = Some (True, p) \<and> pt_allocated p = sections_of (mm_image_end (fc_mmu cf)) \<and>
    (\<forall>m va. l1_walk (am_l2 (install_tables cf p m)) (pt_l1 p) va = window_translation (full_map cf) va)"
  using candidate_built [OF assms] full_table_walk [OF assms(1) install_tables_pool [OF assms(1)]] by fastforce

end
