(* ===== verification/Full_Pmap_Props.thy ===== *)
theory Full_Pmap_Props
  imports Full_Pmap_Table
begin

text \<open>
  What the candidate table and its run amount to: the table as a memory map through both levels, the run
  on a board that answers, and what every run restores.
\<close>

unbundle bit_operations_syntax

subsection \<open>Addresses under the candidate\<close>

lemma full_map_addresses:
  assumes l: "fp_layout cf" and a: "a < mm_image_end (fc_mmu cf)"
  shows "window_translation (full_map cf) a = Some (a, dram_type (mm_attr (fc_mmu cf)))"
    and "window_translation (full_map cf) (STAGE90_HIGH_ALIAS_BASE + a) = Some (a, dram_type (mm_attr (fc_mmu cf)))"
    and "window_translation (full_map cf) (STAGE90_VIRT_BASE + a) = Some (a, dram_type (mm_attr (fc_mmu cf)))"
proof -
  note n = fp_layout_sections(2) [OF l]
  have s: "SECTION_INDEX a < sections_of (mm_image_end (fc_mmu cf))" "SECTION_INDEX a < 64"
    using in_image_section [OF a] n by auto
  show "window_translation (full_map cf) a = Some (a, dram_type (mm_attr (fc_mmu cf)))"
    using s by (intro translation_self) (simp add: full_map_def Let_def)
  show "window_translation (full_map cf) (STAGE90_VIRT_BASE + a) = Some (a, dram_type (mm_attr (fc_mmu cf)))"
    by (rule full_map_kernel [OF l s(1)])
  have "unat a < 0x4000000" using s(2) by (simp add: SECTION_INDEX_div)
  then have i: "SECTION_INDEX (STAGE90_HIGH_ALIAS_BASE + a) = 0xc00 + SECTION_INDEX a"
    by (simp add: SECTION_INDEX_div STAGE90_HIGH_ALIAS_BASE_def unat_plus_u32)
  have "mapped_section (full_map cf) (SECTION_INDEX (STAGE90_HIGH_ALIAS_BASE + a)) = Some (SECTION_INDEX a, dram_type (mm_attr (fc_mmu cf)))"
    unfolding i using s by (simp add: full_map_def Let_def)
  then show "window_translation (full_map cf) (STAGE90_HIGH_ALIAS_BASE + a) = Some (a, dram_type (mm_attr (fc_mmu cf)))"
    by (rule shifted_translation) (simp add: STAGE90_HIGH_ALIAS_BASE_def)
qed

lemma full_map_windows:
  assumes l: "fp_layout cf"
  shows "window_translation (full_map cf) RAM_CONSOLE_BASE = Some (RAM_CONSOLE_BASE, dram_type (mm_attr (fc_mmu cf)))"
    and "window_translation (full_map cf) STAGE90_RAM_CONSOLE_ALIAS_BASE = Some (RAM_CONSOLE_BASE, dram_type (mm_attr (fc_mmu cf)))"
    and "SECTION_INDEX a = 0xf90 \<Longrightarrow> window_translation (full_map cf) a = Some (a, Strongly_Ordered)"
    and "SECTION_INDEX a = 0xf90 \<Longrightarrow>
      window_translation (full_map cf) (STAGE90_GIC_ALIAS_BASE + (a - 0xf9000000)) = Some (a, Strongly_Ordered)"
proof -
  note n = fp_layout_sections(2) [OF l]
  have idx: "SECTION_INDEX RAM_CONSOLE_BASE = 0xde5" "SECTION_INDEX STAGE90_RAM_CONSOLE_ALIAS_BASE = 0xc41"
    by (simp_all add: SECTION_INDEX_div RAM_CONSOLE_BASE_def
      STAGE90_RAM_CONSOLE_ALIAS_BASE_def STAGE90_IMAGE_ALIAS_LIMIT_def STAGE90_HIGH_ALIAS_BASE_def STAGE90_IMAGE_ALIAS_WINDOW_def)
  show "window_translation (full_map cf) RAM_CONSOLE_BASE = Some (RAM_CONSOLE_BASE, dram_type (mm_attr (fc_mmu cf)))"
    using idx n by (intro translation_self) (simp add: full_map_def Let_def)
  show "window_translation (full_map cf) STAGE90_RAM_CONSOLE_ALIAS_BASE = Some (RAM_CONSOLE_BASE, dram_type (mm_attr (fc_mmu cf)))"
    using idx n by (simp add: full_map_def Let_def window_translation_def nth_section_def RAM_CONSOLE_BASE_def
        STAGE90_RAM_CONSOLE_ALIAS_BASE_def STAGE90_IMAGE_ALIAS_LIMIT_def STAGE90_HIGH_ALIAS_BASE_def STAGE90_IMAGE_ALIAS_WINDOW_def)
  show "window_translation (full_map cf) a = Some (a, Strongly_Ordered)" if "SECTION_INDEX a = 0xf90"
    using that n by (intro translation_self) (simp add: full_map_def Let_def)
  show "window_translation (full_map cf) (STAGE90_GIC_ALIAS_BASE + (a - 0xf9000000)) = Some (a, Strongly_Ordered)"
    if "SECTION_INDEX a = 0xf90"
    using that n gic_alias_section [OF that] unfolding gic_alias_sum
    by (intro shifted_translation) (simp_all add: full_map_def Let_def)
qed

subsection \<open>Loads and stores under the candidate\<close>

definition under_candidate :: "full_pmap_cfg \<Rightarrow> arm_machine \<Rightarrow> bool" where
  "under_candidate cf m = (am_sctlr m AND 1 \<noteq> 0 \<and> am_ttbr0 m = fc_candidate_l1 cf
     \<and> am_tables m (fc_candidate_l1 cf) = full_entries cf \<and> pool_at cf (sections_of (mm_image_end (fc_mmu cf))) (am_l2 m))"

lemma under_candidate_kept [simp]:
  "under_candidate cf (m\<lparr>am_phys := f\<rparr>) = under_candidate cf m"
  by (simp add: under_candidate_def)

lemma candidate_access:
  assumes "under_candidate cf m" and "fp_layout cf" and "window_translation (full_map cf) va = Some (pa, ty)"
  shows "am_load va m = (am_phys m pa, m)" and "am_store va v m = m\<lparr>am_phys := (am_phys m)(pa := v)\<rparr>"
proof -
  have "am_walk m va = Some pa"
    using assms full_table_walk [OF assms(2), of "am_l2 m" va]
    by (simp add: am_walk_def under_candidate_def aligned_base fp_layout_def flip: and_1_bit)
  then show "am_load va m = (am_phys m pa, m)" and "am_store va v m = m\<lparr>am_phys := (am_phys m)(pa := v)\<rparr>"
    by (simp_all add: am_load_def am_store_def)
qed

definition fr_ready :: "arm_machine \<Rightarrow> u32 \<Rightarrow> full_pmap_result \<Rightarrow> bool" where
  "fr_ready m sat r = (fr_original_ttbr0 r = am_ttbr0 m \<and> fr_original_ttbcr r = am_ttbcr m \<and> fr_original_dacr r = am_dacr m
     \<and> fr_original_sctlr r = am_sctlr m \<and> fr_failure_mask r = 0 \<and> fr_satisfied_mask r = sat)"

lemma full_pmap_switch_passes:
  assumes "fp_layout cf" and "fr_ready m 0x801f r"
  shows "\<exists>r'. full_pmap_switch cf r m = (r', m\<lparr>am_ttbr0 := fc_candidate_l1 cf\<rparr>) \<and> fr_ready m 0x807f r'
    \<and> fr_ttbr0_write_count r' = fr_ttbr0_write_count r + 1 \<and> fr_l2_tables_allocated r' = fr_l2_tables_allocated r"
proof -
  have "fc_candidate_l1 cf AND 0xffffc000 = fc_candidate_l1 cf"
    using assms(1) aligned_base [of "fc_candidate_l1 cf"] by (simp add: fp_layout_def STAGE90_TTBR0_BASE_MASK_def)
  then show ?thesis using assms(2)
    by (simp add: full_pmap_switch_def Let_def fr_ready_def fr_satisfy_def FP_SAT_LIVE_PMAP_INSTALLED_def FP_SAT_LIVE_PMAP_VERIFIED_def)
qed

lemma full_pmap_reads_passes:
  assumes l: "fp_layout cf" and r: "fr_ready m 0x807f r" and u: "under_candidate cf m1" and b: "board_ready (fc_mmu cf) m1"
  shows "\<exists>r'. full_pmap_reads cf r m1 = (r', m1\<lparr>am_phys := (am_phys m1)(fc_probe cf := 0xaabbccdd)\<rparr>) \<and> fr_ready m 0x183ff r'
    \<and> fr_ttbr0_write_count r' = fr_ttbr0_write_count r \<and> fr_l2_tables_allocated r' = fr_l2_tables_allocated r"
proof -
  have p: "fc_probe cf < mm_image_end (fc_mmu cf)" and ml: "mmu_layout (fc_mmu cf)" using l by (simp_all add: fp_layout_def)
  have gic: "SECTION_INDEX (mm_gic_dist (fc_mmu cf)) = 0xf90" using ml by (simp add: mmu_layout_def)
  note tr = full_map_addresses [OF l p] full_map_windows(1,2) [OF l] full_map_windows(3,4) [OF l gic]
  note acc = candidate_access [OF _ l]
  show ?thesis using r u b image_apart [OF ml p]
    by (simp add: full_pmap_reads_def Let_def acc tr fr_ready_def fr_check_def fr_satisfy_def board_ready_def
        FP_SAT_HIGH_ALIAS_VERIFIED_def FP_SAT_RAM_CONSOLE_VERIFIED_def FP_SAT_GIC_VERIFIED_def FP_SAT_HIGH_VA_DATA_VERIFIED_def)
qed

lemma full_pmap_restore_passes:
  assumes "fr_ready m 0x183ff r" and "am_ttbcr m1 = am_ttbcr m" "am_dacr m1 = am_dacr m" "am_sctlr m1 = am_sctlr m"
  shows "\<exists>r'. full_pmap_restore r m1 = (r', m1\<lparr>am_ttbr0 := am_ttbr0 m\<rparr>) \<and> fr_ready m 0x18fff r'
    \<and> fr_ttbr0_write_count r' = fr_ttbr0_write_count r + 1 \<and> fr_l2_tables_allocated r' = fr_l2_tables_allocated r"
  using assms by (simp add: full_pmap_restore_def Let_def fr_ready_def fr_check_def fr_satisfy_def
      FP_SAT_LIVE_PMAP_RESTORED_def FP_SAT_ORIGINAL_RESTORED_def)

lemma full_pmap_finish_passes:
  assumes "fr_ready m 0x18fff r"
  shows "\<exists>r'. full_pmap_finish r = (True, r') \<and> fr_ttbr0_write_count r' = fr_ttbr0_write_count r
    \<and> fr_l2_tables_allocated r' = fr_l2_tables_allocated r"
  using assms by (simp add: full_pmap_finish_def Let_def fr_ready_def fr_check_def fr_satisfy_def
      FP_SAT_NO_PUBLIC_ARM_VM_INIT_def FP_SAT_NO_PUBLIC_PMAP_RUNTIME_def FP_SAT_NO_PERSISTENT_WRITE_def
      FP_SAT_SAFETY_BOUNDARY_def FP_REQUIRED_MASK_def)


lemma own_boot_args_accepted:
  assumes "fc_candidate_l1 cf AND 0x3fff = 0"
  shows "\<exists>r. full_pmap_sources cf (Some STAGE90_STATUS_OK) (Some (build_boot_args image_end d13 dt dt_len)) = (True, r)
    \<and> fr_satisfied_mask r = 7 \<and> fr_failure_mask r = 0 \<and> fr_ttbr0_write_count r = 0"
  using assms by (simp add: full_pmap_sources_def build_boot_args_def Let_def fr_zero_def fr_satisfy_def
      FP_SAT_SOURCE_POST_PE_OK_def FP_SAT_BOOT_ARGS_VALID_def FP_SAT_CANDIDATE_L1_VALID_def)

text \<open>C15. With the stage before it done, the boot arguments the payload itself builds and the live table on, the
  run of the candidate table succeeds: it takes one second-level table per megabyte of the image, reads its
  probe through the identity, the high alias and the kernel's virtual address, the console and the
  interrupt controller through their aliases without a fault, and leaves the live table installed and memory
  as it was but for its probe word.\<close>

theorem full_pmap_run_passes:
  assumes l: "fp_layout cf" and live: "live (fc_mmu cf) m" and b: "board_ready (fc_mmu cf) m" and f: "4096 < fuel"
  shows "\<exists>r m'. stage90_xnu_arm_vm_init_full_pmap_run cf fuel (Some STAGE90_STATUS_OK) (Some (build_boot_args image_end d13 dt dt_len)) m
      = Some (True, r, m') \<and> fr_ttbr0_write_count r = 2 \<and> fr_l2_tables_allocated r = sections_of (mm_image_end (fc_mmu cf)) \<and>
    live (fc_mmu cf) m' \<and> am_aborts m' = am_aborts m \<and> am_phys m' = (am_phys m)(fc_probe cf := 0xaabbccdd)"
proof -
  have al: "fc_candidate_l1 cf AND 0x3fff = 0" and ne: "fc_candidate_l1 cf \<noteq> mm_l1_table (fc_mmu cf)"
    and p: "fc_probe cf < mm_image_end (fc_mmu cf)" using l by (simp_all add: fp_layout_def)
  obtain r1 where r1: "full_pmap_sources cf (Some STAGE90_STATUS_OK) (Some (build_boot_args image_end d13 dt dt_len)) = (True, r1)"
    "fr_satisfied_mask r1 = 7" "fr_failure_mask r1 = 0" "fr_ttbr0_write_count r1 = 0"
    using own_boot_args_accepted [OF al] by blast
  obtain q where q: "build_candidate cf fuel = Some (True, q)" "pt_l1 q = full_entries cf"
    "\<And>i. i < sections_of (mm_image_end (fc_mmu cf)) * 256 \<Longrightarrow> pt_l2_pool q i = page_entry cf i"
    "pt_allocated q = sections_of (mm_image_end (fc_mmu cf))"
    using candidate_built [OF l f] by blast
  define m1 where "m1 = install_tables cf q m"
  have keep: "am_sctlr m1 = am_sctlr m" "am_ttbr0 m1 = am_ttbr0 m" "am_ttbcr m1 = am_ttbcr m" "am_dacr m1 = am_dacr m"
    "am_phys m1 = am_phys m" "am_aborts m1 = am_aborts m" "am_cntfrq m1 = am_cntfrq m"
    "am_tables m1 = (am_tables m)(fc_candidate_l1 cf := full_entries cf)"
    by (simp_all add: m1_def install_tables_def q(2))
  have pool: "pool_at cf (sections_of (mm_image_end (fc_mmu cf))) (am_l2 m1)"
    unfolding m1_def by (rule install_tables_pool [OF l q(3)])
  have on: "am_sctlr m AND 1 \<noteq> 0" using live by (simp add: live_def)
  have on1: "am_sctlr m1 AND 1 \<noteq> 0" using on by (simp only: keep(1)) simp
  define r2 where "r2 = (fr_satisfy FP_SAT_L2_TABLES_POPULATED (fr_satisfy FP_SAT_CANDIDATE_L1_POPULATED r1))
                 \<lparr>fr_l2_tables_allocated := pt_allocated q, fr_original_ttbr0 := am_ttbr0 m1, fr_original_ttbcr := am_ttbcr m1,
                   fr_original_dacr := am_dacr m1, fr_original_sctlr := am_sctlr m1\<rparr>"
  have r2: "fr_ready m1 0x801f (fr_satisfy FP_SAT_CONTROL_REGS_SAVED r2)" "fr_ttbr0_write_count r2 = 0" "fr_original_sctlr r2 AND 1 \<noteq> 0"
    "fr_l2_tables_allocated r2 = sections_of (mm_image_end (fc_mmu cf))"
    using on r1 by (simp_all add: r2_def fr_ready_def fr_satisfy_def keep q(4) FP_SAT_L2_TABLES_POPULATED_def
        FP_SAT_CANDIDATE_L1_POPULATED_def FP_SAT_CONTROL_REGS_SAVED_def)
  have sat: "fr_ttbr0_write_count (fr_satisfy s r) = fr_ttbr0_write_count r" "fr_l2_tables_allocated (fr_satisfy s r) = fr_l2_tables_allocated r" for s r
    by (simp_all add: fr_satisfy_def)
  define m2 where "m2 = m1\<lparr>am_ttbr0 := fc_candidate_l1 cf\<rparr>"
  obtain r3 where r3: "full_pmap_switch cf (fr_satisfy FP_SAT_CONTROL_REGS_SAVED r2) m1 = (r3, m2)" "fr_ready m1 0x807f r3"
    "fr_ttbr0_write_count r3 = 1" "fr_l2_tables_allocated r3 = sections_of (mm_image_end (fc_mmu cf))"
    using full_pmap_switch_passes [OF l r2(1)] r2(2,4) by (auto simp: m2_def sat)
  have u: "under_candidate cf m2" using on pool by (simp add: under_candidate_def m2_def keep)
  have b2: "board_ready (fc_mmu cf) m2" using b by (simp add: board_ready_def m2_def keep)
  define m3 where "m3 = m2\<lparr>am_phys := (am_phys m2)(fc_probe cf := 0xaabbccdd)\<rparr>"
  obtain r4 where r4: "full_pmap_reads cf r3 m2 = (r4, m3)" "fr_ready m1 0x183ff r4" "fr_ttbr0_write_count r4 = 1"
    "fr_l2_tables_allocated r4 = sections_of (mm_image_end (fc_mmu cf))"
    using full_pmap_reads_passes [OF l r3(2) u b2] r3(3,4) by (auto simp: m3_def)
  have k3: "am_ttbcr m3 = am_ttbcr m1" "am_dacr m3 = am_dacr m1" "am_sctlr m3 = am_sctlr m1" by (simp_all add: m3_def m2_def)
  obtain r5 where r5: "full_pmap_restore r4 m3 = (r5, m3\<lparr>am_ttbr0 := am_ttbr0 m1\<rparr>)" "fr_ready m1 0x18fff r5"
    "fr_ttbr0_write_count r5 = 2" "fr_l2_tables_allocated r5 = sections_of (mm_image_end (fc_mmu cf))"
    using full_pmap_restore_passes [OF r4(2) k3] r4(3,4) by auto
  obtain r6 where r6: "full_pmap_finish r5 = (True, r6)" "fr_ttbr0_write_count r6 = 2"
    "fr_l2_tables_allocated r6 = sections_of (mm_image_end (fc_mmu cf))"
    using full_pmap_finish_passes [OF r5(2)] r5(3,4) by auto
  have "stage90_xnu_arm_vm_init_full_pmap_run cf fuel (Some STAGE90_STATUS_OK) (Some (build_boot_args image_end d13 dt dt_len)) m
      = Some (True, r6, m3\<lparr>am_ttbr0 := am_ttbr0 m1\<rparr>)"
    using on1 by (simp add: stage90_xnu_arm_vm_init_full_pmap_run_def r1(1) q(1) Let_def r3(1) [unfolded r2_def] r4(1) r5(1) r6(1) flip: m1_def)
  moreover have "live (fc_mmu cf) (m3\<lparr>am_ttbr0 := am_ttbr0 m1\<rparr>)"
    using live ne by (simp add: live_def m3_def m2_def keep)
  ultimately show ?thesis using r6 by (simp add: m3_def m2_def keep)
qed


subsection \<open>Every outcome\<close>

lemma fr_marks [simp]:
  "fr_ttbr0_write_count (fr_satisfy s r) = fr_ttbr0_write_count r" "fr_ttbr0_write_count (fr_fail s r) = fr_ttbr0_write_count r"
  "fr_ttbr0_write_count (fr_check c s f r) = fr_ttbr0_write_count r"
  "fr_original_ttbr0 (fr_satisfy s r) = fr_original_ttbr0 r" "fr_original_ttbr0 (fr_fail s r) = fr_original_ttbr0 r"
  "fr_original_ttbr0 (fr_check c s f r) = fr_original_ttbr0 r"
  "fr_failure_mask (fr_satisfy s r) = fr_failure_mask r" "fr_failure_mask (fr_fail s r) = fr_failure_mask r OR s"
  by (simp_all add: fr_satisfy_def fr_fail_def fr_check_def)

lemma full_pmap_switch_kept:
  assumes "full_pmap_switch cf r m = (r', m')"
  shows "m' = m\<lparr>am_ttbr0 := fc_candidate_l1 cf\<rparr> \<and> fr_original_ttbr0 r' = fr_original_ttbr0 r \<and> fr_ttbr0_write_count r' = fr_ttbr0_write_count r + 1"
  using assms by (auto simp: full_pmap_switch_def Let_def)

lemma full_pmap_reads_kept:
  assumes "full_pmap_reads cf r m = (r', m')"
  shows "same_control m m' \<and> fr_original_ttbr0 r' = fr_original_ttbr0 r \<and> fr_ttbr0_write_count r' = fr_ttbr0_write_count r"
  using assms by (auto simp: full_pmap_reads_def Let_def split_def same_control_def)

lemma full_pmap_restore_kept:
  assumes "full_pmap_restore r m = (r', m')"
  shows "m' = m\<lparr>am_ttbr0 := fr_original_ttbr0 r\<rparr> \<and> fr_ttbr0_write_count r' = fr_ttbr0_write_count r + 1"
  using assms by (auto simp: full_pmap_restore_def Let_def)

lemma full_pmap_finish_kept:
  assumes "full_pmap_finish r = (b, r')"
  shows "fr_ttbr0_write_count r' = fr_ttbr0_write_count r \<and> (fr_failure_mask r \<noteq> 0 \<longrightarrow> \<not> b)"
  using assms status_fail_not_ok by (auto simp: full_pmap_finish_def Let_def fr_check_def or_eq_0_iff)

lemma fail_flags: "FP_FAIL_SOURCE_POST_PE \<noteq> 0" "FP_FAIL_BOOT_ARGS \<noteq> 0" "FP_FAIL_CANDIDATE_L1_ALIGN \<noteq> 0"
  "FP_FAIL_L2_ALLOC \<noteq> 0" "FP_FAIL_MMU_DISABLED \<noteq> 0"
  by (simp_all add: FP_FAIL_SOURCE_POST_PE_def FP_FAIL_BOOT_ARGS_def FP_FAIL_CANDIDATE_L1_ALIGN_def FP_FAIL_L2_ALLOC_def FP_FAIL_MMU_DISABLED_def)

lemma full_pmap_sources_kept:
  assumes "full_pmap_sources cf post_pe args = (c, r)"
  shows "fr_ttbr0_write_count r = 0 \<and> (\<not> c \<longrightarrow> fr_failure_mask r \<noteq> 0)"
  using assms by (auto simp: full_pmap_sources_def Let_def fr_zero_def or_eq_0_iff fail_flags split: if_splits option.splits)

lemma candidate_returns:
  assumes "mm_image_end (fc_mmu cf) \<le> 0xfff00000" and "4096 < fuel"
  shows "build_candidate cf fuel \<noteq> None"
proof -
  have n: "sections_of (mm_image_end (fc_mmu cf)) \<le> 4095" using sections_of_le [OF assms(1)] .
  have "\<exists>t. section_loop fuel 0 (mm_image_end (fc_mmu cf)) body (\<lambda>_. 0) = Some t" for body
    using section_loop_fold [OF assms(1), of 0 fuel body "\<lambda>_. 0"] n assms(2) by (simp add: nth_section_0)
  moreover have "\<exists>t'. alias_loop fuel 0 (mm_image_end (fc_mmu cf)) body t = Some t'" for body t
    using alias_loop_fold [of 0 "mm_image_end (fc_mmu cf)" fuel body t] assms(2) by (simp add: nth_section_0)
  ultimately show ?thesis
    by (auto simp: build_candidate_def alias_sections_def split: option.splits prod.splits bool.splits)
qed

lemma full_pmap_returns:
  assumes "mm_image_end (fc_mmu cf) \<le> 0xfff00000" and "4096 < fuel"
  obtains ok r m' where "stage90_xnu_arm_vm_init_full_pmap_run cf fuel post_pe args m = Some (ok, r, m')"
proof -
  obtain d q where "build_candidate cf fuel = Some (d, q)" using candidate_returns [OF assms] by auto
  then have "stage90_xnu_arm_vm_init_full_pmap_run cf fuel post_pe args m \<noteq> None"
    by (auto simp: stage90_xnu_arm_vm_init_full_pmap_run_def Let_def split: prod.splits bool.splits)
  then show ?thesis using that by auto
qed

text \<open>What no call of the run changes: the registers that are not its own, and the second-level words
  outside the pool.\<close>

definition pool_word :: "full_pmap_cfg \<Rightarrow> u32 \<Rightarrow> bool" where
  "pool_word cf a = (fc_l2_pool cf \<le> a \<and> unat (a - fc_l2_pool cf) < 4 * 128 * 256)"

definition outside_kept :: "full_pmap_cfg \<Rightarrow> arm_machine \<Rightarrow> arm_machine \<Rightarrow> bool" where
  "outside_kept cf m m' = (am_sctlr m' = am_sctlr m \<and> am_ttbcr m' = am_ttbcr m \<and> am_dacr m' = am_dacr m
     \<and> am_vbar m' = am_vbar m \<and> am_sp m' = am_sp m \<and> am_cntfrq m' = am_cntfrq m \<and> am_stale m' = am_stale m
     \<and> (\<forall>a. a \<noteq> fc_candidate_l1 cf \<longrightarrow> am_tables m' a = am_tables m a)
     \<and> (\<forall>a. \<not> pool_word cf a \<longrightarrow> am_l2 m' a = am_l2 m a))"

lemma outside_kept_refl [simp]: "outside_kept cf m m"
  by (simp add: outside_kept_def)

lemma outside_kept_trans: "outside_kept cf m m1 \<Longrightarrow> outside_kept cf m1 m2 \<Longrightarrow> outside_kept cf m m2"
  by (simp add: outside_kept_def)

lemma install_outside: "outside_kept cf m (install_tables cf q m)"
  by (auto simp: outside_kept_def install_tables_def pool_word_def STAGE90_XNU_TTE_L2_TABLE_COUNT_def STAGE90_XNU_TTE_L2_ENTRY_COUNT_def)

lemma access_outside: "outside_kept cf m (snd (am_load va m))" "outside_kept cf m (am_store va v m)"
  by (simp_all add: outside_kept_def am_load_def am_store_def split: option.splits)

lemma reads_outside:
  assumes "full_pmap_reads cf r m = (r', m')"
  shows "outside_kept cf m m'"
  using assms by (auto simp: full_pmap_reads_def Let_def split_def access_outside
      intro!: outside_kept_trans [OF _ access_outside(1)] outside_kept_trans [OF _ access_outside(2)])

lemma full_pmap_run_kept:
  assumes "stage90_xnu_arm_vm_init_full_pmap_run cf fuel post_pe args m = Some (ok, r, m')"
  shows "am_ttbr0 m' = am_ttbr0 m \<and> outside_kept cf m m'
    \<and> (fr_ttbr0_write_count r = 2 \<or>
       fr_ttbr0_write_count r = 0 \<and> \<not> ok \<and> am_phys m' = am_phys m \<and> am_aborts m' = am_aborts m)"
proof -
  obtain c r1 where r1: "full_pmap_sources cf post_pe args = (c, r1)" by fastforce
  note k1 = full_pmap_sources_kept [OF r1]
  show ?thesis
  proof (cases c)
    case False
    then show ?thesis using assms r1 k1 full_pmap_finish_kept [of r1]
      by (auto simp: stage90_xnu_arm_vm_init_full_pmap_run_def split: prod.splits)
  next
    case c: True
    obtain d q where q: "build_candidate cf fuel = Some (d, q)"
      using assms r1 c by (auto simp: stage90_xnu_arm_vm_init_full_pmap_run_def Let_def split: option.splits)
    define m1 where "m1 = install_tables cf q m"
    have m1: "am_sctlr m1 = am_sctlr m" "am_ttbr0 m1 = am_ttbr0 m" "am_ttbcr m1 = am_ttbcr m" "am_dacr m1 = am_dacr m"
      "am_phys m1 = am_phys m" "am_aborts m1 = am_aborts m"
      by (simp_all add: m1_def install_tables_def)
    have out1: "outside_kept cf m m1" by (simp add: m1_def install_outside)
    show ?thesis
    proof (cases "d \<and> am_sctlr m AND 1 \<noteq> 0")
      case False
      then obtain r2 where "full_pmap_finish r2 = (ok, r)" "fr_failure_mask r2 \<noteq> 0" "fr_ttbr0_write_count r2 = 0" "m' = m1"
        using assms r1 c q k1 m1(1)
        by (cases d) (auto simp: stage90_xnu_arm_vm_init_full_pmap_run_def Let_def or_eq_0_iff fail_flags fr_fail_def fr_satisfy_def
            split: prod.splits simp flip: m1_def)
      then show ?thesis using full_pmap_finish_kept [of r2] m1 out1 by auto
    next
      case True
      define r2 where "r2 = fr_satisfy FP_SAT_CONTROL_REGS_SAVED ((fr_satisfy FP_SAT_L2_TABLES_POPULATED (fr_satisfy FP_SAT_CANDIDATE_L1_POPULATED r1))
                 \<lparr>fr_l2_tables_allocated := pt_allocated q, fr_original_ttbr0 := am_ttbr0 m1, fr_original_ttbcr := am_ttbcr m1,
                   fr_original_dacr := am_dacr m1, fr_original_sctlr := am_sctlr m1\<rparr>)"
      have r2: "fr_original_ttbr0 r2 = am_ttbr0 m" "fr_ttbr0_write_count r2 = 0"
        using k1 m1 by (simp_all add: r2_def fr_satisfy_def)
      obtain r3 m2 where sw: "full_pmap_switch cf r2 m1 = (r3, m2)" by fastforce
      obtain r4 m3 where re: "full_pmap_reads cf r3 m2 = (r4, m3)" by fastforce
      obtain r5 m4 where ba: "full_pmap_restore r4 m3 = (r5, m4)" by fastforce
      have "m' = m4 \<and> full_pmap_finish r5 = (ok, r)"
        using assms r1 c q True m1(1) sw re ba
        by (auto simp: stage90_xnu_arm_vm_init_full_pmap_run_def Let_def r2_def simp flip: m1_def split: prod.splits)
      moreover have "outside_kept cf m m4"
        using out1 full_pmap_switch_kept [OF sw] reads_outside [OF re] full_pmap_restore_kept [OF ba]
        by (simp add: outside_kept_def)
      ultimately show ?thesis
        using m1 r2 full_pmap_switch_kept [OF sw] full_pmap_reads_kept [OF re] full_pmap_restore_kept [OF ba] full_pmap_finish_kept [of r5]
        by auto
    qed
  qed
qed

text \<open>C24. Whatever the stage before, the boot arguments, the size of the image (up to the last megabyte of the
  address space, where a loop of the builder would not end) and the reads say, the run returns, and leaves TTBR0,
  every other control register, every first-level table but its own, and every second-level word outside its own
  pool as they were; TTBR0 is written twice, or never: then the run fails with memory untouched.\<close>

theorem full_pmap_leaves_live_table:
  assumes "mm_image_end (fc_mmu cf) \<le> 0xfff00000" and "4096 < fuel"
  shows "\<exists>ok r m'. stage90_xnu_arm_vm_init_full_pmap_run cf fuel post_pe args m = Some (ok, r, m')
    \<and> am_ttbr0 m' = am_ttbr0 m \<and> outside_kept cf m m'
    \<and> (fr_ttbr0_write_count r = 2 \<or>
       fr_ttbr0_write_count r = 0 \<and> \<not> ok \<and> am_phys m' = am_phys m \<and> am_aborts m' = am_aborts m)"
proof -
  obtain ok r m' where run: "stage90_xnu_arm_vm_init_full_pmap_run cf fuel post_pe args m = Some (ok, r, m')"
    by (rule full_pmap_returns [OF assms])
  then show ?thesis using full_pmap_run_kept [OF run] by blast
qed


subsection \<open>The table\<close>

text \<open>C14. The candidate is built for every image that fits its windows, with one second-level table per megabyte, and
  once it is installed every address of the 32-bit space translates, through sections or through the small
  pages, as the memory map says: in particular the kernel's window at its virtual base shows the image, and
  the direct map yields to it.\<close>

theorem candidate_refines_map:
  assumes "fp_layout cf" and "4096 < fuel"
  shows "\<exists>p. build_candidate cf fuel = Some (True, p) \<and> pt_allocated p = sections_of (mm_image_end (fc_mmu cf)) \<and>
    (\<forall>m va. l1_walk (am_l2 (install_tables cf p m)) (pt_l1 p) va = window_translation (full_map cf) va)"
  using assms by (rule candidate_translates)

lemma tables_frame_types:
  assumes l: "fp_layout cf" and s: "s < 4096" "s' < 4096"
    and m: "mapped_section (identity_map (fc_mmu cf)) s = Some (p, ty)" "mapped_section (full_map cf) s' = Some (p, ty')"
  shows "if p = 0xde5 \<or> p = 0xde6 then ty = console_type (mm_attr (fc_mmu cf)) \<and> ty' = dram_type (mm_attr (fc_mmu cf)) else ty = ty'"
proof -
  define e k n where "e = SECTION_INDEX (mm_entry_base (fc_mmu cf))"
    "k = (if mm_entry (fc_mmu cf) then sections_of (mm_entry_limit (fc_mmu cf)) else 0)" "n = sections_of (mm_image_end (fc_mmu cf))"
  note ml = fp_layout_sections(1) [OF l]
  have n: "n \<le> 64" "min 64 n = n" using fp_layout_sections(2) [OF l] by (simp_all add: e_k_n_def)
  have e: "e \<le> q \<and> q < e + k \<longrightarrow> 0x800 \<le> q \<and> q < 0xc00" for q
    using entry_window_outside [OF ml, of q, folded e_k_n_def]
    by (cases "q < 0x800 \<or> 0xc00 \<le> q") auto
  have first: "s < n \<or> 0x800 \<le> s \<and> s < 0xc00 \<and> ty = dram_type (mm_attr (fc_mmu cf)) \<and> p = s
      \<or> 0xc00 \<le> s \<and> s < 0xc00 + n \<and> p = s - 0xc00 \<and> ty = dram_type (mm_attr (fc_mmu cf)) \<or> s \<in> {0xfc4, 0xf90, 0x0fa, 0xc40, 0xde5, 0xde6}"
    using m(1) e [of s] n unfolding identity_map_def by (auto split: if_splits simp flip: e_k_n_def)
  show ?thesis
    using m first e [of s] n s unfolding identity_map_def full_map_def Let_def
    by (auto split: if_splits simp flip: e_k_n_def)
qed


lemma full_map_target:
  "s < 4096 \<Longrightarrow> mapped_section (full_map cf) s = Some (p, ty) \<Longrightarrow> p < 4096"
  by (auto simp: full_map_def Let_def split: if_splits)

lemma tables_addresses:
  assumes l: "fp_layout cf" and s: "s < 4096"
    and m: "mapped_section (identity_map (fc_mmu cf)) s = Some (p, ty)" "mapped_section (full_map cf) s = Some (p', ty')"
  shows "if 0x800 \<le> s \<and> s < 0x800 + sections_of (mm_image_end (fc_mmu cf)) then p = s \<and> p' = s - 0x800 else p' = p"
proof -
  define e k n where "e = SECTION_INDEX (mm_entry_base (fc_mmu cf))"
    "k = (if mm_entry (fc_mmu cf) then sections_of (mm_entry_limit (fc_mmu cf)) else 0)" "n = sections_of (mm_image_end (fc_mmu cf))"
  note ml = fp_layout_sections(1) [OF l]
  have n: "n \<le> 64" "min 64 n = n" using fp_layout_sections(2) [OF l] by (simp_all add: e_k_n_def)
  have e: "e \<le> q \<and> q < e + k \<longrightarrow> 0x800 \<le> q \<and> q < 0xc00" for q
    using entry_window_outside [OF ml, of q, folded e_k_n_def]
    by (cases "q < 0x800 \<or> 0xc00 \<le> q") auto
  show ?thesis
    using m e [of s] n s unfolding identity_map_def full_map_def Let_def
    by (auto split: if_splits simp flip: e_k_n_def)
qed

text \<open>C19. The candidate gives every frame the memory type the live table gives it, through any pair of addresses, but
  for the two megabytes of the console: they are DRAM under the candidate, whatever the DRAM type, and
  never cacheable under the live table. An address that both translate, they translate alike, but for the kernel's
  window at its virtual base: the live table's entry window shows that memory itself there, the candidate the image.\<close>

theorem tables_agree_but_console:
  assumes l: "fp_layout cf" and f: "4096 < fuel" and t: "build_identity_table (fc_mmu cf) fuel = Some t"
    and p: "build_candidate cf fuel = Some (True, p)"
    and w: "l1_walk l2 t va = Some (pa, ty)" "l1_walk (am_l2 (install_tables cf p m)) (pt_l1 p) va' = Some (pa', ty')"
  shows "(pa AND L1_SECTION_MASK = pa' AND L1_SECTION_MASK \<longrightarrow>
      (if pa AND L1_SECTION_MASK \<in> {0xde500000, 0xde600000}
       then ty = console_type (mm_attr (fc_mmu cf)) \<and> ty' = dram_type (mm_attr (fc_mmu cf)) else ty = ty'))
    \<and> (va = va' \<longrightarrow>
      (if STAGE90_VIRT_BASE \<le> va \<and> unat (va - STAGE90_VIRT_BASE) < sections_of (mm_image_end (fc_mmu cf)) * 0x100000
       then pa = va \<and> pa' = va - STAGE90_VIRT_BASE else pa' = pa))"
proof -
  let ?n = "sections_of (mm_image_end (fc_mmu cf))"
  have b: "mmu_bounds (fc_mmu cf)" using mmu_layout_bounds [OF fp_layout_sections(1) [OF l]] .
  have "window_translation (identity_map (fc_mmu cf)) va = Some (pa, ty)"
    using identity_table_translates [OF b f] t w(1) by auto
  then obtain k where k: "mapped_section (identity_map (fc_mmu cf)) (SECTION_INDEX va) = Some (k, ty)"
    "pa = nth_section k OR (va AND 0x000fffff)" "k < 4096"
    using identity_map_target [OF SECTION_INDEX_less] by (auto simp: window_translation_def)
  have "window_translation (full_map cf) va' = Some (pa', ty')"
    using candidate_translates [OF l f] p w(2) by auto
  then obtain q where q: "mapped_section (full_map cf) (SECTION_INDEX va') = Some (q, ty')"
    "pa' = nth_section q OR (va' AND 0x000fffff)" "q < 4096"
    using full_map_target [OF SECTION_INDEX_less] by (auto simp: window_translation_def)
  have frames: "pa AND L1_SECTION_MASK = nth_section k" "pa' AND L1_SECTION_MASK = nth_section q"
    unfolding k(2) q(2) by (rule section_part)+
  have console: "0xde500000 = nth_section 0xde5" "0xde600000 = nth_section 0xde6" by (simp_all add: nth_section_def)
  have "if k = 0xde5 \<or> k = 0xde6 then ty = console_type (mm_attr (fc_mmu cf)) \<and> ty' = dram_type (mm_attr (fc_mmu cf)) else ty = ty'"
    if "k = q"
    using tables_frame_types [OF l SECTION_INDEX_less SECTION_INDEX_less k(1)] q(1) that by blast
  then have "pa AND L1_SECTION_MASK = pa' AND L1_SECTION_MASK \<longrightarrow>
      (if pa AND L1_SECTION_MASK \<in> {0xde500000, 0xde600000}
       then ty = console_type (mm_attr (fc_mmu cf)) \<and> ty' = dram_type (mm_attr (fc_mmu cf)) else ty = ty')"
    unfolding frames console using k(3) q(3) by (simp add: nth_section_eq)
  moreover have "if STAGE90_VIRT_BASE \<le> va \<and> unat (va - STAGE90_VIRT_BASE) < ?n * 0x100000
       then pa = va \<and> pa' = va - STAGE90_VIRT_BASE else pa' = pa" if va: "va = va'"
  proof -
    have win: "STAGE90_VIRT_BASE \<le> va \<and> unat (va - STAGE90_VIRT_BASE) < ?n * 0x100000
        \<longleftrightarrow> 0x800 \<le> SECTION_INDEX va \<and> SECTION_INDEX va < 0x800 + ?n"
      by (auto simp: STAGE90_VIRT_BASE_def word_le_nat_alt unat_sub_if' SECTION_INDEX_div)
    note A = tables_addresses [OF l SECTION_INDEX_less k(1) q(1) [folded va]]
    show ?thesis
    proof (cases "0x800 \<le> SECTION_INDEX va \<and> SECTION_INDEX va < 0x800 + ?n")
      case True
      then have "window_translation (identity_map (fc_mmu cf)) va = Some (va, ty)"
        using A k(1) by (intro translation_self) simp
      moreover have "SECTION_INDEX (va - STAGE90_VIRT_BASE) < ?n"
        using True win by (simp add: SECTION_INDEX_div) linarith
      from full_map_kernel [OF l this] have "pa' = va - STAGE90_VIRT_BASE"
        using \<open>window_translation (full_map cf) va' = Some (pa', ty')\<close> va by simp
      ultimately show ?thesis using True win \<open>window_translation (identity_map (fc_mmu cf)) va = Some (pa, ty)\<close> by simp
    next
      case False
      then have "pa' = pa" using A [unfolded if_not_P [OF False]] k(2) q(2) va by simp
      then show ?thesis unfolding win if_not_P [OF False] .
    qed
  qed
  ultimately show ?thesis by blast
qed

subsection \<open>A board\<close>

definition sample_pmap :: full_pmap_cfg where
  "sample_pmap = \<lparr>fc_mmu = sample_mmu, fc_candidate_l1 = 0x00108000, fc_l2_pool = 0x00110000, fc_probe = 0x00200010\<rparr>"

lemma sample_pmap_layout: "fp_layout sample_pmap"
  using sample_mmu_layout by (simp add: fp_layout_def sample_pmap_def) (simp add: sample_mmu_def)

lemma sample_pmap_mmu: "fc_mmu sample_pmap = sample_mmu"
  by (simp add: sample_pmap_def)

theorem candidate_refines_map_witness:
  "\<exists>p. build_candidate sample_pmap 5000 = Some (True, p) \<and>
     l1_walk (am_l2 (install_tables sample_pmap p sample_board)) (pt_l1 p) 0x80201234 = Some (0x00201234, Normal_Write_Back)"
proof -
  obtain p where p: "build_candidate sample_pmap 5000 = Some (True, p)"
    "\<And>m va. l1_walk (am_l2 (install_tables sample_pmap p m)) (pt_l1 p) va = window_translation (full_map sample_pmap) va"
    using candidate_refines_map [OF sample_pmap_layout, of 5000] by auto
  have "window_translation (full_map sample_pmap) 0x80201234 = Some (0x00201234, Normal_Write_Back)"
    by (simp add: window_translation_def full_map_def Let_def sample_pmap_def sample_mmu_def SECTION_INDEX_div sections_of_def
        nth_section_def dram_type_def)
  then show ?thesis using p by auto
qed

theorem tables_agree_but_console_witness:
  "\<exists>t p. build_identity_table sample_mmu 5000 = Some t \<and> build_candidate sample_pmap 5000 = Some (True, p) \<and>
     l1_walk (\<lambda>_. 0) t 0xde500004 = Some (0xde500004, Normal_Uncached) \<and>
     l1_walk (am_l2 (install_tables sample_pmap p sample_board)) (pt_l1 p) 0xde500004 = Some (0xde500004, Normal_Write_Back)"
proof -
  obtain t where t: "build_identity_table sample_mmu 5000 = Some t"
    "\<And>l2 va. l1_walk l2 t va = window_translation (identity_map sample_mmu) va"
    using identity_table_translates [OF mmu_layout_bounds [OF sample_mmu_layout], of 5000] by auto
  obtain p where p: "build_candidate sample_pmap 5000 = Some (True, p)"
    "\<And>m va. l1_walk (am_l2 (install_tables sample_pmap p m)) (pt_l1 p) va = window_translation (full_map sample_pmap) va"
    using candidate_translates [OF sample_pmap_layout, of 5000] by auto
  have "\<exists>ty. window_translation (identity_map sample_mmu) 0xde500004 = Some (0xde500004, ty)"
    "\<exists>ty. window_translation (full_map sample_pmap) 0xde500004 = Some (0xde500004, ty)"
    by (simp_all add: window_translation_def identity_map_def full_map_def Let_def sample_pmap_def sample_mmu_def SECTION_INDEX_div
        sections_of_def nth_section_def)
  then obtain ty ty' where w: "l1_walk (\<lambda>_. 0) t 0xde500004 = Some (0xde500004, ty)"
    "l1_walk (am_l2 (install_tables sample_pmap p sample_board)) (pt_l1 p) 0xde500004 = Some (0xde500004, ty')"
    using t(2) p(2) by metis
  have "ty = console_type PMAP_ATTR_MODE_NORMAL_WB \<and> ty' = dram_type PMAP_ATTR_MODE_NORMAL_WB"
    using tables_agree_but_console [OF sample_pmap_layout _ t(1) [folded sample_pmap_mmu] p(1) w]
    by (simp add: sample_pmap_def sample_mmu_def L1_SECTION_MASK_def)
  then show ?thesis using t(1) p(1) w by (simp add: console_type_def dram_type_def)
qed

theorem full_pmap_run_passes_witness:
  "\<exists>r m'. stage90_xnu_arm_vm_init_full_pmap_run sample_pmap 5000 (Some STAGE90_STATUS_OK)
     (Some (build_boot_args 0x00250000 True 0x0010c000 0x4000)) sample_live = Some (True, r, m') \<and>
     fr_l2_tables_allocated r = 3 \<and> am_aborts m' = []"
proof -
  have "sections_of 0x00250000 = 3" by (simp add: sections_of_def)
  then show ?thesis
    using full_pmap_run_passes [OF sample_pmap_layout, of sample_live 5000 "0x00250000" True "0x0010c000" "0x4000"] sample_live_on sample_board_ready(2)
    by (auto simp: sample_pmap_mmu sample_live_def sample_board_def sample_mmu_def)
qed

theorem full_pmap_leaves_live_table_witness:
  "\<exists>ok r m'. stage90_xnu_arm_vm_init_full_pmap_run sample_pmap 5000 (Some STAGE90_STATUS_OK) None sample_live = Some (ok, r, m') \<and>
     am_ttbr0 m' = 0x00100000 \<and> am_l2 m' 0x00300000 = am_l2 sample_live 0x00300000"
proof -
  have "mm_image_end (fc_mmu sample_pmap) \<le> 0xfff00000" by (simp add: sample_pmap_def sample_mmu_def)
  note full_pmap_leaves_live_table [OF this, of 5000 "Some STAGE90_STATUS_OK" None sample_live]
  moreover have "am_ttbr0 sample_live = 0x00100000" by (simp add: sample_live_def)
  moreover have "\<not> pool_word sample_pmap 0x00300000" by (simp add: pool_word_def sample_pmap_def)
  ultimately show ?thesis by (fastforce simp: outside_kept_def)
qed

end
