(* ===== verification/Watchdog.thy ===== *)
theory Watchdog
  imports Prelude
begin

text \<open>
  The hardware watchdog (src/src/hw_watchdog.c): arming it with its checks, forcing the bite, and reading
  its enable bit, over a record of register accesses (\<open>wdt_ops\<close>); the two spin loops are one operation that
  lets the device run.  \<open>wdt\<close> is the device the file describes: two 20-bit limits, an enable bit and a
  counter that a write to the reset register clears; \<open>wd_locked\<close> says that its limit registers do not take
  writes.  Log records are left out, but not the register reads they make.
\<close>

unbundle bit_operations_syntax

subsection \<open>The driver\<close>

definition MSM8974_WDT_BASE :: u32 where "MSM8974_WDT_BASE = 0xf9017000"
definition MSM8974_WDT_REG_RST :: u32 where "MSM8974_WDT_REG_RST = 0x04"
definition MSM8974_WDT_REG_EN :: u32 where "MSM8974_WDT_REG_EN = 0x08"
definition MSM8974_WDT_REG_STS :: u32 where "MSM8974_WDT_REG_STS = 0x0c"
definition MSM8974_WDT_REG_BARK :: u32 where "MSM8974_WDT_REG_BARK = 0x10"
definition MSM8974_WDT_REG_BITE :: u32 where "MSM8974_WDT_REG_BITE = 0x14"
definition MSM8974_WDT_HZ :: u32 where "MSM8974_WDT_HZ = 32765"
definition STAGE90_HW_WATCHDOG_BITE_GAP_S :: u32 where "STAGE90_HW_WATCHDOG_BITE_GAP_S = 3"
definition MSM8974_WDT_BITE_EXTRA_TICKS :: u32 where "MSM8974_WDT_BITE_EXTRA_TICKS = STAGE90_HW_WATCHDOG_BITE_GAP_S * MSM8974_WDT_HZ"
definition MSM8974_WDT_MAX_TICKS :: u32 where "MSM8974_WDT_MAX_TICKS = 0x000fffff"

record 'w wdt_ops =
  wd_read :: "u32 \<Rightarrow> 'w \<Rightarrow> u32 \<times> 'w"
  wd_write :: "u32 \<Rightarrow> u32 \<Rightarrow> 'w \<Rightarrow> 'w"
  wd_spin :: "nat \<Rightarrow> 'w \<Rightarrow> 'w"

definition hw_wdt_read :: "'w wdt_ops \<Rightarrow> u32 \<Rightarrow> 'w \<Rightarrow> u32 \<times> 'w" where
  "hw_wdt_read k off = wd_read k (MSM8974_WDT_BASE + off)"

definition hw_wdt_write :: "'w wdt_ops \<Rightarrow> u32 \<Rightarrow> u32 \<Rightarrow> 'w \<Rightarrow> 'w" where
  "hw_wdt_write k off v = wd_write k (MSM8974_WDT_BASE + off) v"

definition hw_wdt_countdown :: "'w wdt_ops \<Rightarrow> 'w \<Rightarrow> u32 \<times> 'w" where
  "hw_wdt_countdown k w = (case hw_wdt_read k MSM8974_WDT_REG_STS w of (v, w1) \<Rightarrow> (drop_bit 1 v AND 0xfffff, w1))"

record stage90_hw_watchdog_result =
  wr_enabled :: u32
  wr_timeout_s :: u32
  wr_base :: u32
  wr_sts_before :: u32
  wr_en_before :: u32
  wr_bark_ticks :: u32
  wr_bite_ticks :: u32
  wr_en_after :: u32
  wr_bark_after :: u32
  wr_bite_after :: u32
  wr_countdown_first :: u32
  wr_countdown_second :: u32
  wr_counter_running :: u32
  wr_countdown_plausible :: u32
  wr_bite_truncated :: u32
  wr_max_ticks :: u32
  wr_readback_ok :: u32
  wr_checksum :: u32

definition wr_words :: "stage90_hw_watchdog_result \<Rightarrow> u32 list" where
  "wr_words r = [wr_enabled r, wr_timeout_s r, wr_base r, wr_sts_before r, wr_en_before r, wr_bark_ticks r, wr_bite_ticks r,
     wr_en_after r, wr_bark_after r, wr_bite_after r, wr_countdown_first r, wr_countdown_second r, wr_counter_running r,
     wr_countdown_plausible r, wr_bite_truncated r, wr_max_ticks r, wr_readback_ok r]"

definition hw_wdt_checksum :: "stage90_hw_watchdog_result \<Rightarrow> u32" where
  "hw_wdt_checksum r = fold (\<lambda>x c. c XOR x) (wr_words r) 0"

definition wr_zero :: stage90_hw_watchdog_result where
  "wr_zero = \<lparr>wr_enabled = 0, wr_timeout_s = 0, wr_base = 0, wr_sts_before = 0, wr_en_before = 0, wr_bark_ticks = 0,
     wr_bite_ticks = 0, wr_en_after = 0, wr_bark_after = 0, wr_bite_after = 0, wr_countdown_first = 0, wr_countdown_second = 0,
     wr_counter_running = 0, wr_countdown_plausible = 0, wr_bite_truncated = 0, wr_max_ticks = 0, wr_readback_ok = 0, wr_checksum = 0\<rparr>"

definition stage90_hw_watchdog_arm :: "'w wdt_ops \<Rightarrow> u32 \<Rightarrow> 'w \<Rightarrow> bool \<times> stage90_hw_watchdog_result \<times> 'w" where
  "stage90_hw_watchdog_arm k timeout_s w =
    (let (sts, w1) = hw_wdt_read k MSM8974_WDT_REG_STS w;
         (en, w2) = hw_wdt_read k MSM8974_WDT_REG_EN w1;
         (_, w3) = hw_wdt_countdown k w2;
         r = wr_zero\<lparr>wr_base := MSM8974_WDT_BASE, wr_timeout_s := timeout_s, wr_sts_before := sts, wr_en_before := en,
               wr_max_ticks := MSM8974_WDT_MAX_TICKS\<rparr>
     in if timeout_s > (MSM8974_WDT_MAX_TICKS - MSM8974_WDT_BITE_EXTRA_TICKS) div MSM8974_WDT_HZ
        then (False, r\<lparr>wr_readback_ok := 0\<rparr>, w3)
        else
          (let bark_ticks = timeout_s * MSM8974_WDT_HZ;
               bite_ticks = bark_ticks + MSM8974_WDT_BITE_EXTRA_TICKS;
               w4 = hw_wdt_write k MSM8974_WDT_REG_BARK bark_ticks w3;
               w5 = hw_wdt_write k MSM8974_WDT_REG_BITE bite_ticks w4;
               w6 = hw_wdt_write k MSM8974_WDT_REG_EN 1 w5;
               w7 = hw_wdt_write k MSM8974_WDT_REG_RST 1 w6;
               (en_after, w8) = hw_wdt_read k MSM8974_WDT_REG_EN w7;
               (bark_after, w9) = hw_wdt_read k MSM8974_WDT_REG_BARK w8;
               (bite_after, w10) = hw_wdt_read k MSM8974_WDT_REG_BITE w9;
               (count_first, w11) = hw_wdt_countdown k w10;
               w12 = wd_spin k 200000 w11;
               (count_second, w13) = hw_wdt_countdown k w12;
               r1 = r\<lparr>wr_bark_ticks := bark_ticks, wr_bite_ticks := bite_ticks, wr_en_after := en_after, wr_bark_after := bark_after,
                 wr_bite_after := bite_after, wr_countdown_first := count_first, wr_countdown_second := count_second,
                 wr_counter_running := (if count_second \<noteq> count_first then 1 else 0),
                 wr_countdown_plausible := (if count_first < 2 * MSM8974_WDT_HZ \<and> count_second > count_first then 1 else 0),
                 wr_bite_truncated := (if bite_after \<noteq> bite_ticks then 1 else 0),
                 wr_readback_ok := (if en_after AND 1 = 1 \<and> bark_after AND MSM8974_WDT_MAX_TICKS = bark_ticks AND MSM8974_WDT_MAX_TICKS
                   \<and> bite_after AND MSM8974_WDT_MAX_TICKS = bite_ticks AND MSM8974_WDT_MAX_TICKS then 1 else 0)\<rparr>;
               r2 = r1\<lparr>wr_enabled := (if wr_en_after r1 AND 1 = 1 \<and> wr_counter_running r1 \<noteq> 0 \<and> wr_countdown_plausible r1 \<noteq> 0 then 1 else 0)\<rparr>;
               r3 = r2\<lparr>wr_checksum := hw_wdt_checksum r2\<rparr>
           in (wr_enabled r3 \<noteq> 0, r3, w13)))"

definition stage90_hw_watchdog_bite_now :: "'w wdt_ops \<Rightarrow> 'w \<Rightarrow> 'w" where
  "stage90_hw_watchdog_bite_now k w =
    (let (_, w1) = hw_wdt_read k MSM8974_WDT_REG_STS w;
         w2 = hw_wdt_write k MSM8974_WDT_REG_BITE 1 w1;
         w3 = hw_wdt_write k MSM8974_WDT_REG_RST 1 w2;
         w4 = wd_spin k 10000000 w3;
         (_, w5) = hw_wdt_read k MSM8974_WDT_REG_STS w4
     in snd (hw_wdt_read k MSM8974_WDT_REG_EN w5))"

definition stage90_hw_watchdog_enabled_readback :: "'w wdt_ops \<Rightarrow> 'w \<Rightarrow> u32 \<times> 'w" where
  "stage90_hw_watchdog_enabled_readback k = hw_wdt_read k MSM8974_WDT_REG_EN"

subsection \<open>The device\<close>

record wdt =
  wd_bark :: u32
  wd_bite :: u32
  wd_en :: bool
  wd_count :: nat
  wd_locked :: bool
  wd_reset :: bool

text \<open>\<open>n\<close> ticks: an enabled counter that reaches the bite limit resets the system, and then nothing runs.\<close>

definition wdt_run :: "nat \<Rightarrow> wdt \<Rightarrow> wdt" where
  "wdt_run n d =
    (if wd_reset d \<or> \<not> wd_en d then d
     else if wd_count d + n \<ge> unat (wd_bite d) then d\<lparr>wd_reset := True\<rparr> else d\<lparr>wd_count := wd_count d + n\<rparr>)"

definition wdt_set :: "u32 \<Rightarrow> u32 \<Rightarrow> wdt \<Rightarrow> wdt" where
  "wdt_set a v d =
    (let off = a - MSM8974_WDT_BASE
     in if wd_reset d then d
        else if off = MSM8974_WDT_REG_RST then (if v AND 1 = 1 then d\<lparr>wd_count := 0\<rparr> else d)
        else if off = MSM8974_WDT_REG_EN then d\<lparr>wd_en := (v AND 1 = 1)\<rparr>
        else if off = MSM8974_WDT_REG_BARK \<and> \<not> wd_locked d then d\<lparr>wd_bark := v AND 0xfffff\<rparr>
        else if off = MSM8974_WDT_REG_BITE \<and> \<not> wd_locked d then d\<lparr>wd_bite := v AND 0xfffff\<rparr> else d)"

definition wdt_get :: "u32 \<Rightarrow> wdt \<Rightarrow> u32" where
  "wdt_get a d =
    (let off = a - MSM8974_WDT_BASE
     in if off = MSM8974_WDT_REG_EN then (if wd_en d then 1 else 0)
        else if off = MSM8974_WDT_REG_STS then push_bit 1 (word_of_nat (wd_count d))
        else if off = MSM8974_WDT_REG_BARK then wd_bark d else if off = MSM8974_WDT_REG_BITE then wd_bite d else 0)"

text \<open>The machine: every write lets the counter see its limits, and \<open>speed\<close> gives the ticks that pass during a
  spin of so many turns.\<close>

definition wdt_machine :: "(nat \<Rightarrow> nat) \<Rightarrow> wdt wdt_ops" where
  "wdt_machine speed = \<lparr>wd_read = (\<lambda>a d. (wdt_get a d, d)), wd_write = (\<lambda>a v d. wdt_run 0 (wdt_set a v d)),
     wd_spin = (\<lambda>n d. wdt_run (speed n) d)\<rparr>"

end
