(* ===== verification/Watchdog_Props.thy ===== *)
theory Watchdog_Props
  imports Watchdog
begin

text \<open>
  What the watchdog driver guarantees on the device of theory Watchdog: the exact outcome of arming it, when the
  system it guards is reset, and what forcing the bite does.
\<close>

unbundle bit_operations_syntax

subsection \<open>Registers of the device\<close>

lemma wdt_offsets: "MSM8974_WDT_BASE + off - MSM8974_WDT_BASE = off"
  by simp

lemma machine_read [simp]: "hw_wdt_read (wdt_machine speed) off d = (wdt_get (MSM8974_WDT_BASE + off) d, d)"
  by (simp add: hw_wdt_read_def wdt_machine_def)

lemma machine_write [simp]: "hw_wdt_write (wdt_machine speed) off v d = wdt_run 0 (wdt_set (MSM8974_WDT_BASE + off) v d)"
  by (simp add: hw_wdt_write_def wdt_machine_def)

lemma machine_spin [simp]: "wd_spin (wdt_machine speed) n d = wdt_run (speed n) d"
  by (simp add: wdt_machine_def)

lemmas wdt_regs = MSM8974_WDT_REG_RST_def MSM8974_WDT_REG_EN_def MSM8974_WDT_REG_STS_def MSM8974_WDT_REG_BARK_def MSM8974_WDT_REG_BITE_def

lemma low_20: "a AND 0xfffff = (a :: u32)" if "unat a < 0x100000"
proof -
  have "a AND 0xfffff = take_bit 20 a" by (simp add: take_bit_eq_mask mask_eq_exp_minus_1)
  also have "unat \<dots> = unat a" using that by (simp add: take_bit_eq_mod unat_mod)
  finally show ?thesis by (simp only: word_unat_eq_iff)
qed

lemma machine_countdown:
  assumes "wd_count d < 0x100000"
  shows "hw_wdt_countdown (wdt_machine speed) d = (word_of_nat (wd_count d), d)"
proof -
  have c: "unat (word_of_nat (wd_count d) :: u32) = wd_count d" using assms by (subst unat_of_nat) (simp add: mod_less)
  have "drop_bit 1 (push_bit 1 (word_of_nat (wd_count d))) = (word_of_nat (wd_count d) :: u32)"
    using assms by (simp add: word_unat_eq_iff drop_bit_eq_div push_bit_eq_mult unat_div unat_mult_u32 c)
  moreover have "word_of_nat (wd_count d) AND 0xfffff = (word_of_nat (wd_count d) :: u32)"
    using assms c by (intro low_20) simp
  ultimately show ?thesis by (simp add: hw_wdt_countdown_def wdt_get_def wdt_regs)
qed

lemma watchdog_ticks:
  assumes "unat t \<le> 29"
  shows "unat (t * MSM8974_WDT_HZ) = unat t * 32765"
    and "unat (t * MSM8974_WDT_HZ + MSM8974_WDT_BITE_EXTRA_TICKS) = (unat t + 3) * 32765"
    and "t * MSM8974_WDT_HZ AND 0xfffff = t * MSM8974_WDT_HZ"
    and "(t * MSM8974_WDT_HZ + MSM8974_WDT_BITE_EXTRA_TICKS) AND 0xfffff = t * MSM8974_WDT_HZ + MSM8974_WDT_BITE_EXTRA_TICKS"
proof -
  show a: "unat (t * MSM8974_WDT_HZ) = unat t * 32765"
    using assms by (simp add: MSM8974_WDT_HZ_def unat_mult_u32)
  show b: "unat (t * MSM8974_WDT_HZ + MSM8974_WDT_BITE_EXTRA_TICKS) = (unat t + 3) * 32765"
    using assms by (simp only: unat_plus_u32 a) (simp add: MSM8974_WDT_BITE_EXTRA_TICKS_def STAGE90_HW_WATCHDOG_BITE_GAP_S_def MSM8974_WDT_HZ_def)
  show "t * MSM8974_WDT_HZ AND 0xfffff = t * MSM8974_WDT_HZ" using assms a by (intro low_20) simp
  show "(t * MSM8974_WDT_HZ + MSM8974_WDT_BITE_EXTRA_TICKS) AND 0xfffff = t * MSM8974_WDT_HZ + MSM8974_WDT_BITE_EXTRA_TICKS"
    using assms b by (intro low_20) simp
qed

lemma watchdog_limit: "((MSM8974_WDT_MAX_TICKS - MSM8974_WDT_BITE_EXTRA_TICKS) div MSM8974_WDT_HZ < t) = (29 < unat t)"
  by (simp add: word_less_nat_alt unat_div MSM8974_WDT_MAX_TICKS_def MSM8974_WDT_BITE_EXTRA_TICKS_def STAGE90_HW_WATCHDOG_BITE_GAP_S_def
      MSM8974_WDT_HZ_def)

text \<open>A device the driver can be run on: not yet reset, its counter below its bite limit and below the one
  asked for.\<close>

definition wdt_armable :: "u32 \<Rightarrow> wdt \<Rightarrow> bool" where
  "wdt_armable t d = (\<not> wd_reset d \<and> (wd_en d \<longrightarrow> wd_count d < unat (wd_bite d)) \<and> wd_count d < 0x100000 \<and>
     (if wd_locked d then wd_count d < unat (wd_bite d) else wd_count d < (unat t + 3) * 32765))"

definition wdt_armed :: "u32 \<Rightarrow> nat \<Rightarrow> wdt \<Rightarrow> wdt" where
  "wdt_armed t s d = d\<lparr>wd_bark := (if wd_locked d then wd_bark d else t * MSM8974_WDT_HZ),
     wd_bite := (if wd_locked d then wd_bite d else t * MSM8974_WDT_HZ + MSM8974_WDT_BITE_EXTRA_TICKS), wd_en := True, wd_count := s\<rparr>"

lemma wdt_four_writes:
  assumes "\<not> wd_reset d" and "wd_en d \<longrightarrow> wd_count d < unat (wd_bite d)"
    and "if wd_locked d then wd_count d < unat (wd_bite d) else wd_count d < unat bite"
    and "bark AND 0xfffff = bark" and "bite AND 0xfffff = bite"
  shows "wdt_run 0 (wdt_set (MSM8974_WDT_BASE + MSM8974_WDT_REG_RST) 1
    (wdt_run 0 (wdt_set (MSM8974_WDT_BASE + MSM8974_WDT_REG_EN) 1
      (wdt_run 0 (wdt_set (MSM8974_WDT_BASE + MSM8974_WDT_REG_BITE) bite
        (wdt_run 0 (wdt_set (MSM8974_WDT_BASE + MSM8974_WDT_REG_BARK) bark d))))))) =
    d\<lparr>wd_bark := (if wd_locked d then wd_bark d else bark), wd_bite := (if wd_locked d then wd_bite d else bite), wd_en := True,
      wd_count := 0\<rparr>"
proof (cases "wd_locked d")
  case True
  then show ?thesis using assms by (cases "wd_en d") (simp_all add: wdt_set_def wdt_run_def wdt_regs)
next
  case False
  then show ?thesis using assms by (cases "wd_en d") (simp_all add: wdt_set_def wdt_run_def wdt_regs)
qed

lemma watchdog_writes:
  assumes "unat t \<le> 29" and "wdt_armable t d"
  shows "wdt_run 0 (wdt_set (MSM8974_WDT_BASE + MSM8974_WDT_REG_RST) 1
    (wdt_run 0 (wdt_set (MSM8974_WDT_BASE + MSM8974_WDT_REG_EN) 1
      (wdt_run 0 (wdt_set (MSM8974_WDT_BASE + MSM8974_WDT_REG_BITE) (t * MSM8974_WDT_HZ + MSM8974_WDT_BITE_EXTRA_TICKS)
        (wdt_run 0 (wdt_set (MSM8974_WDT_BASE + MSM8974_WDT_REG_BARK) (t * MSM8974_WDT_HZ) d))))))) = wdt_armed t 0 d"
  unfolding wdt_armed_def
  by (rule wdt_four_writes) (use assms(2) watchdog_ticks [OF assms(1)] in \<open>auto simp add: wdt_armable_def split: if_splits\<close>)


subsection \<open>Arming\<close>

definition wdt_ok :: "wdt \<Rightarrow> bool" where
  "wdt_ok d = (unat (wd_bark d) < 0x100000 \<and> unat (wd_bite d) < 0x100000 \<and> wd_count d < 0x100000)"

lemma count_less: "((word_of_nat a :: u32) < word_of_nat b) = (a < b)" if "a < 0x100000" "b < 0x100000"
  using that by (simp add: word_less_nat_alt unat_of_nat)

lemma count_eq: "((word_of_nat a :: u32) = word_of_nat b) = (a = b)" if "a < 0x100000" "b < 0x100000"
  using that by (simp add: word_unat_eq_iff unat_of_nat)

lemma wdt_armed_run:
  assumes "wdt_armable t d" and "s < unat (wd_bite (wdt_armed t 0 d))"
  shows "wdt_run s (wdt_armed t 0 d) = wdt_armed t s d"
  using assms by (simp add: wdt_run_def wdt_armed_def wdt_armable_def)

lemma wdt_armed_reads [simp]:
  "wdt_get (MSM8974_WDT_BASE + MSM8974_WDT_REG_EN) (wdt_armed t s d) = 1"
  "wdt_get (MSM8974_WDT_BASE + MSM8974_WDT_REG_BARK) (wdt_armed t s d) = wd_bark (wdt_armed t 0 d)"
  "wdt_get (MSM8974_WDT_BASE + MSM8974_WDT_REG_BITE) (wdt_armed t s d) = wd_bite (wdt_armed t 0 d)"
  "wd_count (wdt_armed t s d) = s"
  by (simp_all add: wdt_get_def wdt_regs wdt_armed_def)

lemma watchdog_limits_eq:
  assumes "unat t \<le> 29" and "wdt_ok d"
  shows "(wd_bark (wdt_armed t 0 d) AND MSM8974_WDT_MAX_TICKS = t * MSM8974_WDT_HZ AND MSM8974_WDT_MAX_TICKS) =
      (wd_bark (wdt_armed t 0 d) = t * MSM8974_WDT_HZ)"
    and "(wd_bite (wdt_armed t 0 d) AND MSM8974_WDT_MAX_TICKS =
        (t * MSM8974_WDT_HZ + MSM8974_WDT_BITE_EXTRA_TICKS) AND MSM8974_WDT_MAX_TICKS) =
      (wd_bite (wdt_armed t 0 d) = t * MSM8974_WDT_HZ + MSM8974_WDT_BITE_EXTRA_TICKS)"
  using assms(2) watchdog_ticks [OF assms(1)] low_20 [of "wd_bark d"] low_20 [of "wd_bite d"]
  by (simp_all add: wdt_armed_def wdt_ok_def MSM8974_WDT_MAX_TICKS_def)

lemma watchdog_refusal:
  assumes "29 < unat t"
  shows "\<exists>r. stage90_hw_watchdog_arm (wdt_machine speed) t d = (False, r, d) \<and> wr_enabled r = 0 \<and> wr_readback_ok r = 0"
proof -
  have "(MSM8974_WDT_MAX_TICKS - MSM8974_WDT_BITE_EXTRA_TICKS) div MSM8974_WDT_HZ < t" using assms by (simp only: watchdog_limit)
  then show ?thesis by (simp add: stage90_hw_watchdog_arm_def Let_def wr_zero_def hw_wdt_countdown_def split: prod.split)
qed

lemma watchdog_arming:
  assumes "unat t \<le> 29" and "wdt_armable t d" and "wdt_ok d" and "s = speed 200000"
    and "s < unat (wd_bite (wdt_armed t 0 d))"
  shows "\<exists>r. stage90_hw_watchdog_arm (wdt_machine speed) t d = (0 < s, r, wdt_armed t s d) \<and>
    wr_readback_ok r = (if wd_bark (wdt_armed t 0 d) = t * MSM8974_WDT_HZ \<and>
      wd_bite (wdt_armed t 0 d) = t * MSM8974_WDT_HZ + MSM8974_WDT_BITE_EXTRA_TICKS then 1 else 0)"
proof -
  have lim: "\<not> (MSM8974_WDT_MAX_TICKS - MSM8974_WDT_BITE_EXTRA_TICKS) div MSM8974_WDT_HZ < t"
    using assms(1) by (simp add: watchdog_limit)
  have s: "s < 0x100000"
    using assms(1,3,5) watchdog_ticks(2) [OF assms(1)] by (simp add: wdt_armed_def wdt_ok_def split: if_splits)
  have w: "wd_count d < 0x100000" using assms(3) by (simp add: wdt_ok_def)
  have hz: "(0 :: u32) < 2 * MSM8974_WDT_HZ" by (simp add: MSM8974_WDT_HZ_def)
  have c: "(word_of_nat s = (0 :: u32)) = (s = 0)" "((0 :: u32) < word_of_nat s) = (0 < s)"
    using count_eq [of s 0] count_less [of 0 s] s by simp_all
  have counts: "hw_wdt_countdown (wdt_machine speed) d = (word_of_nat (wd_count d), d)"
    "hw_wdt_countdown (wdt_machine speed) (wdt_armed t 0 d) = (0, wdt_armed t 0 d)"
    "hw_wdt_countdown (wdt_machine speed) (wdt_armed t s d) = (word_of_nat s, wdt_armed t s d)"
    using s w machine_countdown [of "wdt_armed t 0 d"] by (simp_all add: machine_countdown)
  show ?thesis
    unfolding stage90_hw_watchdog_arm_def Let_def machine_read machine_write prod.case counts watchdog_writes [OF assms(1,2)]
      machine_spin assms(4) [symmetric] wdt_armed_run [OF assms(2,5)] wdt_armed_reads
    using lim hz c by (simp add: watchdog_limits_eq [OF assms(1,3)])
qed


lemma wdt_armed_fires:
  assumes "\<not> wd_reset d" and "s < unat (wd_bite (wdt_armed t 0 d))"
  shows "wd_reset (wdt_run n (wdt_armed t s d)) = (unat (wd_bite (wdt_armed t 0 d)) \<le> s + n)"
  using assms by (simp add: wdt_run_def wdt_armed_def)

subsection \<open>Forcing the bite\<close>

lemma wdt_run_reset: "wd_reset (wdt_run n d) = (wd_reset d \<or> wd_en d \<and> unat (wd_bite d) \<le> wd_count d + n)"
  by (simp add: wdt_run_def)

lemma wdt_run_dead: "wd_reset d \<Longrightarrow> wdt_run n d = d" "wd_reset d \<Longrightarrow> wdt_set a v d = d"
  by (simp_all add: wdt_run_def wdt_set_def)

lemma bite_state:
  "stage90_hw_watchdog_bite_now (wdt_machine speed) d =
    wdt_run (speed 10000000) (wdt_run 0 (wdt_set (MSM8974_WDT_BASE + MSM8974_WDT_REG_RST) 1
      (wdt_run 0 (wdt_set (MSM8974_WDT_BASE + MSM8974_WDT_REG_BITE) 1 d))))"
  by (simp add: stage90_hw_watchdog_bite_now_def)

lemma bite_write:
  assumes "\<not> wd_reset d" and "wd_en d \<longrightarrow> wd_count d < unat (wd_bite d)"
  shows "wdt_run 0 (wdt_set (MSM8974_WDT_BASE + MSM8974_WDT_REG_BITE) 1 d) =
    (if wd_locked d then d else d\<lparr>wd_bite := 1, wd_reset := (wd_en d \<and> 1 \<le> wd_count d)\<rparr>)"
  using assms by (cases d; cases "wd_en d") (auto simp: wdt_set_def wdt_run_def wdt_regs)

lemma reset_write:
  assumes "\<not> wd_reset d" and "wd_en d \<longrightarrow> 0 < unat (wd_bite d)"
  shows "wdt_run 0 (wdt_set (MSM8974_WDT_BASE + MSM8974_WDT_REG_RST) 1 d) = d\<lparr>wd_count := 0\<rparr>"
  using assms by (simp add: wdt_set_def wdt_run_def wdt_regs)

text \<open>Forcing the bite never enables the watchdog: it resets the system exactly when the enable bit was already set
  (and, where the limit registers are locked, when the old limit is within the spin).\<close>

lemma bite_forced:
  assumes "\<not> wd_reset d" and "wd_en d \<longrightarrow> wd_count d < unat (wd_bite d)" and "1 \<le> speed 10000000"
  shows "wd_reset (stage90_hw_watchdog_bite_now (wdt_machine speed) d) =
    (wd_en d \<and> (wd_locked d \<longrightarrow> unat (wd_bite d) \<le> speed 10000000))"
proof -
  note bite = bite_state bite_write [OF assms(1,2)]
  have alive: "wd_en d \<longrightarrow> 0 < unat (wd_bite d)" using assms(2) by auto
  show ?thesis
  proof (cases "wd_locked d")
    case True
    then show ?thesis using assms(1) by (simp add: bite reset_write [OF assms(1) alive]) (simp add: wdt_run_reset)
  next
    case False
    show ?thesis
    proof (cases "wd_en d \<and> 1 \<le> wd_count d")
      case True
      then show ?thesis using False by (simp add: bite wdt_run_dead)
    next
      case idle: False
      then have i: "(wd_en d \<and> 1 \<le> wd_count d) = False" by simp
      have r: "wdt_run 0 (wdt_set (MSM8974_WDT_BASE + MSM8974_WDT_REG_RST) 1 (d\<lparr>wd_bite := 1, wd_reset := False\<rparr>)) =
          d\<lparr>wd_bite := 1, wd_reset := False, wd_count := 0\<rparr>"
        by (subst reset_write) simp_all
      show ?thesis
        unfolding bite i using False assms(3) by (simp only: if_False r) (simp add: wdt_run_reset)
    qed
  qed
qed

subsection \<open>Properties\<close>

text \<open>C25. Arming the watchdog on any device that can still be armed (not yet reset, its counter below the limits it
  will have): a timeout over 29 seconds, the most that fits with the bite in 20 bits, is refused with no register
  written; any other leaves the device enabled, its counter restarted and moved on by the ticks of the sampling spin, its
  limits exactly \<open>t\<close> and \<open>t + 3\<close> seconds of ticks (or the old ones where the limit registers are locked).  The verdict is
  true exactly when the spin lasted a tick: it does not depend on the limits, whose comparison is only in
  \<open>readback_ok\<close>.\<close>

theorem watchdog_arm_exact:
  assumes "wdt_armable t d" and "wdt_ok d" and "s = speed 200000" and "s < unat (wd_bite (wdt_armed t 0 d))"
  shows "if 29 < unat t
    then \<exists>r. stage90_hw_watchdog_arm (wdt_machine speed) t d = (False, r, d) \<and> wr_enabled r = 0 \<and> wr_readback_ok r = 0
    else \<exists>r. stage90_hw_watchdog_arm (wdt_machine speed) t d = (0 < s, r, wdt_armed t s d) \<and>
      wr_readback_ok r = (if wd_bark (wdt_armed t 0 d) = t * MSM8974_WDT_HZ \<and>
        wd_bite (wdt_armed t 0 d) = t * MSM8974_WDT_HZ + MSM8974_WDT_BITE_EXTRA_TICKS then 1 else 0)"
  using watchdog_arming [where t = t and speed = speed, OF _ assms] watchdog_refusal by (simp add: not_less)

text \<open>The boot loader's watchdog, running towards a bite at 23 seconds, with its limit registers locked: the driver
  asked for 29 seconds reports it armed, although the readback shows other limits.\<close>

definition loader_wdt :: "bool \<Rightarrow> wdt" where
  "loader_wdt locked = \<lparr>wd_bark = 655300, wd_bite = 753595, wd_en = True, wd_count = 300000, wd_locked = locked, wd_reset = False\<rparr>"

lemma loader_wdt_fits:
  "wdt_armable 29 (loader_wdt locked)" "wdt_ok (loader_wdt locked)"
  "unat (wd_bite (wdt_armed 29 0 (loader_wdt locked))) = (if locked then 753595 else 1048480)"
  "wd_bark (wdt_armed 29 0 (loader_wdt True)) \<noteq> 29 * MSM8974_WDT_HZ"
  by (simp_all add: wdt_armable_def wdt_ok_def wdt_armed_def loader_wdt_def MSM8974_WDT_HZ_def MSM8974_WDT_BITE_EXTRA_TICKS_def
      STAGE90_HW_WATCHDOG_BITE_GAP_S_def)

theorem watchdog_arm_exact_witness:
  "\<exists>r. stage90_hw_watchdog_arm (wdt_machine (\<lambda>n. n div 50000)) 29 (loader_wdt True) = (True, r, wdt_armed 29 4 (loader_wdt True)) \<and>
    wr_readback_ok r = 0"
  using watchdog_arm_exact [of 29 "loader_wdt True" 4 "\<lambda>n. n div 50000", OF loader_wdt_fits(1,2)]
  by (simp add: loader_wdt_fits(3,4))

text \<open>C35. The net behind the payload: once armed with \<open>t\<close> seconds on a device that takes its limits, the system resets
  when, and only when, \<open>t + 3\<close> seconds of ticks have passed since the arming with nothing done by the processor; and
  forcing the bite resets it at once, provided its spin lasts a tick.\<close>

theorem watchdog_net_resets:
  assumes "wdt_armable t d" and "wdt_ok d" and "\<not> wd_locked d" and "unat t \<le> 29" and "s = speed 200000"
    and "s < (unat t + 3) * 32765"
  shows "\<exists>r d'. stage90_hw_watchdog_arm (wdt_machine speed) t d = (0 < s, r, d') \<and> \<not> wd_reset d' \<and>
    (\<forall>n. wd_reset (wdt_run n d') = ((unat t + 3) * 32765 \<le> s + n)) \<and>
    (speed 10000000 = 0 \<or> wd_reset (stage90_hw_watchdog_bite_now (wdt_machine speed) d'))"
proof -
  have b: "unat (wd_bite (wdt_armed t 0 d)) = (unat t + 3) * 32765"
    using assms(3) watchdog_ticks(2) [OF assms(4)] by (simp add: wdt_armed_def)
  then have s: "s < unat (wd_bite (wdt_armed t 0 d))" using assms(6) by simp
  have alive: "\<not> wd_reset d" using assms(1) by (simp add: wdt_armable_def)
  have "wd_reset (stage90_hw_watchdog_bite_now (wdt_machine speed) (wdt_armed t s d))" if "1 \<le> speed 10000000"
    using bite_forced [of "wdt_armed t s d" speed] that alive s assms(3) by (simp add: wdt_armed_def)
  moreover have "\<forall>n. wd_reset (wdt_run n (wdt_armed t s d)) = ((unat t + 3) * 32765 \<le> s + n)"
    using wdt_armed_fires [OF alive s] b by simp
  moreover have "\<not> wd_reset (wdt_armed t s d)" using alive by (simp add: wdt_armed_def)
  moreover have "speed 10000000 = 0 \<or> 1 \<le> speed 10000000" by linarith
  ultimately show ?thesis using watchdog_arming [where speed = speed, OF assms(4,1,2,5) s] by fast
qed

theorem watchdog_net_resets_witness:
  "\<exists>r d'. stage90_hw_watchdog_arm (wdt_machine (\<lambda>n. n div 50000)) 29 (loader_wdt False) = (True, r, d') \<and>
    \<not> wd_reset (wdt_run 1000000 d') \<and> wd_reset (wdt_run 1048476 d') \<and>
    wd_reset (stage90_hw_watchdog_bite_now (wdt_machine (\<lambda>n. n div 50000)) d')"
proof -
  have limits: "unat (29 :: u32) \<le> 29" "(4 :: nat) = 200000 div 50000" "4 < (unat (29 :: u32) + 3) * 32765" by simp_all
  have "\<not> wd_locked (loader_wdt False)" by (simp add: loader_wdt_def)
  then obtain r d' where a: "stage90_hw_watchdog_arm (wdt_machine (\<lambda>n. n div 50000)) 29 (loader_wdt False) = (0 < (4 :: nat), r, d')"
    and n: "\<forall>n. wd_reset (wdt_run n d') = ((unat (29 :: u32) + 3) * 32765 \<le> 4 + n)"
    and b: "10000000 div 50000 = (0 :: nat) \<or> wd_reset (stage90_hw_watchdog_bite_now (wdt_machine (\<lambda>n. n div 50000)) d')"
    using watchdog_net_resets [of 29 "loader_wdt False" 4 "\<lambda>n. n div 50000", OF loader_wdt_fits(1,2) _ limits] by blast
  have "\<not> wd_reset (wdt_run 1000000 d')" "wd_reset (wdt_run 1048476 d')" using n by simp_all
  moreover have "wd_reset (stage90_hw_watchdog_bite_now (wdt_machine (\<lambda>n. n div 50000)) d')" using b by simp
  ultimately show ?thesis using a by auto
qed

end
