(* ===== verification/Payload_Gic.thy ===== *)
theory Payload_Gic
  imports Timebase "HOL-Library.State_Monad"
begin

text \<open>
  The payload's interrupts (src/src/gic.c, and platform_reboot and stage90_arm_deadman_reset of
  src/src/stage90_main.c): the snapshot of the controller, the handler with its ring of sampled addresses,
  the two self tests, the sampling watchdog that is the software dead-man, and its disarming.

  \<open>gic_hw\<close> is the processor's side: the enables, one software interrupt, the physical timer with its private
  interrupt (\<open>gh_edge\<close> says how that is triggered), other interrupts at given times (\<open>gh_spi\<close>), the mask bit,
  and a clock that every access to a device moves on by \<open>gh_cost\<close>.  \<open>gic_sys\<close> adds the file's statics.  An
  access is followed by \<open>ir\<close>: for the handler nothing (\<open>quiet\<close>), for the code that runs with interrupts one
  delivery if one is due (\<open>take_irq\<close>).  After the hold line is let go nothing changes any more (so the
  watchdog bite that platform_reboot forces next is not needed here).  Log records
  are left out, but not the reads of the controller and the timer they make (the one of the hardware watchdog's
  enable bit at the end of the disarming is); the cleaning of the cache before a reboot is left out.
  \<open>gh_pmr\<close> is a plain register here: the controller forwards every enabled interrupt, as if its priority
  passed the mask, which the code leaves as it found it.
\<close>

unbundle bit_operations_syntax

subsection \<open>State\<close>

definition GICD_CTLR :: u32 where "GICD_CTLR = 0x000"
definition GICD_TYPER :: u32 where "GICD_TYPER = 0x004"
definition GICD_IIDR :: u32 where "GICD_IIDR = 0x008"
definition GICD_ISENABLER0 :: u32 where "GICD_ISENABLER0 = 0x100"
definition GICD_ICENABLER0 :: u32 where "GICD_ICENABLER0 = 0x180"
definition GICD_ISPENDR0 :: u32 where "GICD_ISPENDR0 = 0x200"
definition GICD_ICPENDR0 :: u32 where "GICD_ICPENDR0 = 0x280"
definition GICD_IPRIORITY0 :: u32 where "GICD_IPRIORITY0 = 0x400"
definition GICD_ITARGETS0 :: u32 where "GICD_ITARGETS0 = 0x800"
definition GICD_SGIR :: u32 where "GICD_SGIR = 0xf00"
definition GICC_CTLR :: u32 where "GICC_CTLR = 0x000"
definition GICC_PMR :: u32 where "GICC_PMR = 0x004"
definition GICC_BPR :: u32 where "GICC_BPR = 0x008"
definition GICC_IAR :: u32 where "GICC_IAR = 0x00c"
definition GICC_EOIR :: u32 where "GICC_EOIR = 0x010"
definition GICC_IIDR :: u32 where "GICC_IIDR = 0x0fc"
definition GICC_IAR_INTID_MASK :: u32 where "GICC_IAR_INTID_MASK = 0x3ff"
definition GICC_SPURIOUS_ID :: u32 where "GICC_SPURIOUS_ID = 0x3ff"
definition GIC_SGI0_ID :: u32 where "GIC_SGI0_ID = 0"
definition GICD_SGIR_TARGET_SELF :: u32 where "GICD_SGIR_TARGET_SELF = push_bit 24 2"
definition GIC_TIMER_PPI0_ID :: u32 where "GIC_TIMER_PPI0_ID = 18"
definition GIC_TIMER_PPI1_ID :: u32 where "GIC_TIMER_PPI1_ID = 19"
definition GIC_TIMER_PPI_MASK :: u32 where "GIC_TIMER_PPI_MASK = push_bit 18 1 OR push_bit 19 1"
definition CNTP_CTL_ENABLE :: u32 where "CNTP_CTL_ENABLE = 1"
definition CNTP_CTL_IMASK :: u32 where "CNTP_CTL_IMASK = 2"
definition STAGE90_IRQ_SAMPLE_RING_SIZE :: nat where "STAGE90_IRQ_SAMPLE_RING_SIZE = 16"
definition GICD_BASE :: u32 where "GICD_BASE = 0xf9000000"
definition GICC_BASE :: u32 where "GICC_BASE = 0xf9002000"
definition STAGE90_DEADMAN_INTERVAL_US :: u32 where "STAGE90_DEADMAN_INTERVAL_US = 100000"
definition STAGE90_DEADMAN_SAMPLES :: u32 where "STAGE90_DEADMAN_SAMPLES = 600"
definition PSHOLD_REG :: u32 where "PSHOLD_REG = 0xfc4ab000"
definition RESTART_REASON_REG :: u32 where "RESTART_REASON_REG = 0x0fa00000 + 0x65c"
definition RESTART_NORMAL :: u32 where "RESTART_NORMAL = 0x78665501"

record gic_hw =
  gh_dist_ctlr :: u32
  gh_typer :: u32
  gh_dist_iidr :: u32
  gh_enable :: u32
  gh_priority0 :: u32
  gh_targets0 :: u32
  gh_cpu_ctlr :: u32
  gh_pmr :: u32
  gh_bpr :: u32
  gh_cpu_iidr :: u32
  gh_sgi0 :: bool
  gh_ppi :: u32
  gh_edge :: bool
  gh_latch :: bool
  gh_seen :: bool
  gh_spi :: "(nat \<times> u32) list"
  gh_active :: "u32 option"
  gh_ctl :: u32
  gh_cmp :: nat
  gh_now :: nat
  gh_cost :: nat
  gh_masked :: bool
  gh_reason :: u32
  gh_rebooted :: bool
  gh_pc :: "nat \<Rightarrow> u32"

record gic_state_snapshot =
  gs_distBase :: u32
  gs_cpuBase :: u32
  gs_distCtlr :: u32
  gs_distTyper :: u32
  gs_distIidr :: u32
  gs_cpuIidr :: u32
  gs_cpuCtlr :: u32
  gs_cpuPmr :: u32
  gs_cpuBpr :: u32
  gs_irqCount :: u32
  gs_cpuInterfaceCount :: u32
  gs_isenabler0 :: u32
  gs_ispendr0 :: u32
  gs_priority0 :: u32
  gs_targets0 :: u32

record gic_sys = gic_hw +
  GIC_state_stage90 :: gic_state_snapshot
  stage90_irq_count :: u32
  stage90_last_iar :: u32
  stage90_last_irq_id :: u32
  stage90_sgi0_count :: u32
  stage90_spurious_irq_count :: u32
  stage90_timer_irq_count :: u32
  stage90_last_timer_irq_id :: u32
  stage90_last_timer_ctl :: u32
  stage90_other_irq_count :: u32
  stage90_sgi_selftest_passed :: u32
  stage90_irq_sample_count :: u32
  stage90_irq_sample_ring :: "u32 list"
  stage90_irq_sample_budget_used :: u32
  stage90_irq_last_sampled_pc :: u32
  stage90_irq_sample_mode :: u32
  stage90_irq_sample_interval_ticks :: u32
  stage90_irq_sample_max :: u32
  stage90_irq_sample_watchdog_fired :: u32
  stage90_timer_selftest_passed :: u32
  g_stage90_deadman_armed :: u32

subsection \<open>The controller and the timer\<close>

definition ppi_bit :: "('a) gic_hw_scheme \<Rightarrow> u32" where
  "ppi_bit h = push_bit (unat (gh_ppi h)) 1"

definition timer_level :: "('a) gic_hw_scheme \<Rightarrow> bool" where
  "timer_level h = (gh_ctl h AND 3 = 1 \<and> gh_cmp h \<le> gh_now h)"

definition timer_pending :: "('a) gic_hw_scheme \<Rightarrow> bool" where
  "timer_pending h = (if gh_edge h then gh_latch h else timer_level h)"

definition settle :: "('a) gic_hw_scheme \<Rightarrow> ('a) gic_hw_scheme" where
  "settle h = h\<lparr>gh_latch := gh_latch h \<or> (timer_level h \<and> \<not> gh_seen h), gh_seen := timer_level h\<rparr>"

definition tick :: "('a) gic_hw_scheme \<Rightarrow> ('a) gic_hw_scheme" where
  "tick h = settle (h\<lparr>gh_now := gh_now h + gh_cost h\<rparr>)"

text \<open>The interrupt the distributor would forward: the lowest number first.\<close>

definition pending_id :: "('a) gic_hw_scheme \<Rightarrow> u32 option" where
  "pending_id h =
    (if gh_dist_ctlr h AND 1 = 0 \<or> gh_cpu_ctlr h AND 1 = 0 \<or> gh_active h \<noteq> None then None
     else if gh_sgi0 h \<and> gh_enable h AND 1 \<noteq> 0 then Some 0
     else if timer_pending h \<and> gh_enable h AND ppi_bit h \<noteq> 0 then Some (gh_ppi h)
     else case gh_spi h of (t, i) # _ \<Rightarrow> if t \<le> gh_now h then Some i else None | [] \<Rightarrow> None)"

definition acknowledge :: "('a) gic_hw_scheme \<Rightarrow> u32 \<times> ('a) gic_hw_scheme" where
  "acknowledge h =
    (case pending_id h of
       None \<Rightarrow> (GICC_SPURIOUS_ID, h)
     | Some i \<Rightarrow> (i, if i = 0 then h\<lparr>gh_active := Some i, gh_sgi0 := False\<rparr>
                     else if i = gh_ppi h then h\<lparr>gh_active := Some i, gh_latch := False\<rparr>
                     else h\<lparr>gh_active := Some i, gh_spi := tl (gh_spi h)\<rparr>))"

definition gic_get :: "u32 \<Rightarrow> ('a) gic_hw_scheme \<Rightarrow> u32 \<times> ('a) gic_hw_scheme" where
  "gic_get a h =
    (if a = GICD_BASE + GICD_CTLR then (gh_dist_ctlr h, h)
     else if a = GICD_BASE + GICD_TYPER then (gh_typer h, h)
     else if a = GICD_BASE + GICD_IIDR then (gh_dist_iidr h, h)
     else if a = GICD_BASE + GICD_ISENABLER0 then (gh_enable h, h)
     else if a = GICD_BASE + GICD_ISPENDR0
       then ((if gh_sgi0 h then 1 else 0) OR (if timer_pending h then ppi_bit h else 0), h)
     else if a = GICD_BASE + GICD_IPRIORITY0 then (gh_priority0 h, h)
     else if a = GICD_BASE + GICD_ITARGETS0 then (gh_targets0 h, h)
     else if a = GICC_BASE + GICC_CTLR then (gh_cpu_ctlr h, h)
     else if a = GICC_BASE + GICC_PMR then (gh_pmr h, h)
     else if a = GICC_BASE + GICC_BPR then (gh_bpr h, h)
     else if a = GICC_BASE + GICC_IAR then acknowledge h
     else if a = GICC_BASE + GICC_IIDR then (gh_cpu_iidr h, h)
     else (0, h))"

definition gic_set :: "u32 \<Rightarrow> u32 \<Rightarrow> ('a) gic_hw_scheme \<Rightarrow> ('a) gic_hw_scheme" where
  "gic_set a v h =
    (if a = GICD_BASE + GICD_CTLR then h\<lparr>gh_dist_ctlr := v\<rparr>
     else if a = GICD_BASE + GICD_ISENABLER0 then h\<lparr>gh_enable := gh_enable h OR v\<rparr>
     else if a = GICD_BASE + GICD_ICENABLER0 then h\<lparr>gh_enable := gh_enable h AND NOT v\<rparr>
     else if a = GICD_BASE + GICD_ICPENDR0
       then h\<lparr>gh_latch := (gh_latch h \<and> v AND ppi_bit h = 0)\<rparr>
     else if a = GICD_BASE + GICD_SGIR
       then h\<lparr>gh_sgi0 := (gh_sgi0 h \<or> v = GICD_SGIR_TARGET_SELF OR GIC_SGI0_ID)\<rparr>
     else if a = GICC_BASE + GICC_CTLR then h\<lparr>gh_cpu_ctlr := v\<rparr>
     else if a = GICC_BASE + GICC_EOIR then (if gh_active h = Some v then h\<lparr>gh_active := None\<rparr> else h)
     else if a = RESTART_REASON_REG then h\<lparr>gh_reason := v\<rparr>
     else if a = PSHOLD_REG then (if v AND 1 = 0 then h\<lparr>gh_rebooted := True\<rparr> else h)
     else h)"

subsection \<open>Accesses\<close>

definition quiet :: "(gic_sys, unit) state" where
  "quiet = State_Monad.return ()"

definition device :: "(gic_sys, unit) state \<Rightarrow> (gic_sys \<Rightarrow> 'a \<times> gic_sys) \<Rightarrow> (gic_sys, 'a) state" where
  "device ir f = State (\<lambda>s. if gh_rebooted s then (fst (f s), s)
     else case f (tick s) of (v, s1) \<Rightarrow> (v, snd (run_state ir (settle s1))))"

text \<open>An assignment to the statics.\<close>

definition upd :: "(gic_sys \<Rightarrow> gic_sys) \<Rightarrow> (gic_sys, unit) state" where
  "upd f = State (\<lambda>s. ((), if gh_rebooted s then s else f s))"

definition vars :: "(gic_sys \<Rightarrow> 'a) \<Rightarrow> (gic_sys, 'a) state" where
  "vars f = State (\<lambda>s. (f s, s))"

definition mmio_read32 :: "(gic_sys, unit) state \<Rightarrow> u32 \<Rightarrow> (gic_sys, u32) state" where
  "mmio_read32 ir addr = device ir (gic_get addr)"

definition mmio_write32 :: "(gic_sys, unit) state \<Rightarrow> u32 \<Rightarrow> u32 \<Rightarrow> (gic_sys, unit) state" where
  "mmio_write32 ir addr v = device ir (\<lambda>s. ((), gic_set addr v s))"

definition enable_irq_delivery :: "(gic_sys, unit) state \<Rightarrow> (gic_sys, unit) state" where
  "enable_irq_delivery ir = device ir (\<lambda>s. ((), s\<lparr>gh_masked := False\<rparr>))"

definition disable_irq_delivery :: "(gic_sys, unit) state \<Rightarrow> (gic_sys, unit) state" where
  "disable_irq_delivery ir = device ir (\<lambda>s. ((), s\<lparr>gh_masked := True\<rparr>))"

definition read_cntp_ctl :: "(gic_sys, unit) state \<Rightarrow> (gic_sys, u32) state" where
  "read_cntp_ctl ir = device ir (\<lambda>s. (gh_ctl s OR (if gh_ctl s AND 1 = 1 \<and> gh_cmp s \<le> gh_now s then 4 else 0), s))"

definition write_cntp_ctl :: "(gic_sys, unit) state \<Rightarrow> u32 \<Rightarrow> (gic_sys, unit) state" where
  "write_cntp_ctl ir v = device ir (\<lambda>s. ((), s\<lparr>gh_ctl := v AND 3\<rparr>))"

definition read_cntp_tval :: "(gic_sys, unit) state \<Rightarrow> (gic_sys, u32) state" where
  "read_cntp_tval ir = device ir (\<lambda>s. (word_of_int (int (gh_cmp s) - int (gh_now s)), s))"

definition write_cntp_tval :: "(gic_sys, unit) state \<Rightarrow> u32 \<Rightarrow> (gic_sys, unit) state" where
  "write_cntp_tval ir v = device ir (\<lambda>s. ((), s\<lparr>gh_cmp := (if unat v < 2 ^ 31 then gh_now s + unat v else gh_now s)\<rparr>))"

definition read_ticks :: "(gic_sys, unit) state \<Rightarrow> (gic_sys, u64) state" where
  "read_ticks ir = device ir (\<lambda>s. (word_of_nat (gh_now s), s))"

definition generic_timer_shutdown :: "(gic_sys, unit) state \<Rightarrow> (gic_sys, unit) state" where
  "generic_timer_shutdown ir = do {
     ctl \<leftarrow> read_cntp_ctl ir;
     let ctl = ctl OR CNTP_CTL_IMASK;
     let ctl = ctl AND NOT CNTP_CTL_ENABLE;
     write_cntp_ctl ir ctl
   }"

definition platform_reboot :: "(gic_sys, unit) state \<Rightarrow> (gic_sys, unit) state" where
  "platform_reboot ir = do {
     mmio_write32 ir RESTART_REASON_REG RESTART_NORMAL;
     mmio_write32 ir PSHOLD_REG 0
   }"

subsection \<open>The snapshot\<close>

definition gs_zero :: gic_state_snapshot where
  "gs_zero = \<lparr>gs_distBase = 0, gs_cpuBase = 0, gs_distCtlr = 0, gs_distTyper = 0, gs_distIidr = 0, gs_cpuIidr = 0, gs_cpuCtlr = 0,
     gs_cpuPmr = 0, gs_cpuBpr = 0, gs_irqCount = 0, gs_cpuInterfaceCount = 0, gs_isenabler0 = 0, gs_ispendr0 = 0, gs_priority0 = 0,
     gs_targets0 = 0\<rparr>"

definition distBase :: "gic_sys \<Rightarrow> u32" where "distBase s = gs_distBase (GIC_state_stage90 s)"
definition cpuBase :: "gic_sys \<Rightarrow> u32" where "cpuBase s = gs_cpuBase (GIC_state_stage90 s)"

definition gic_readonly_snapshot :: "(gic_sys, unit) state \<Rightarrow> u32 \<Rightarrow> u32 \<Rightarrow> (gic_sys, unit) state" where
  "gic_readonly_snapshot ir dist_base cpu_base = do {
     upd (\<lambda>s. s\<lparr>GIC_state_stage90 := gs_zero\<lparr>gs_distBase := dist_base, gs_cpuBase := cpu_base\<rparr>\<rparr>);
     ctlr \<leftarrow> mmio_read32 ir (dist_base + GICD_CTLR);
     typer \<leftarrow> mmio_read32 ir (dist_base + GICD_TYPER);
     iidr \<leftarrow> mmio_read32 ir (dist_base + GICD_IIDR);
     en \<leftarrow> mmio_read32 ir (dist_base + GICD_ISENABLER0);
     pend \<leftarrow> mmio_read32 ir (dist_base + GICD_ISPENDR0);
     prio \<leftarrow> mmio_read32 ir (dist_base + GICD_IPRIORITY0);
     targets \<leftarrow> mmio_read32 ir (dist_base + GICD_ITARGETS0);
     cctlr \<leftarrow> mmio_read32 ir (cpu_base + GICC_CTLR);
     pmr \<leftarrow> mmio_read32 ir (cpu_base + GICC_PMR);
     bpr \<leftarrow> mmio_read32 ir (cpu_base + GICC_BPR);
     ciidr \<leftarrow> mmio_read32 ir (cpu_base + GICC_IIDR);
     upd (\<lambda>s. s\<lparr>GIC_state_stage90 := \<lparr>gs_distBase = dist_base, gs_cpuBase = cpu_base, gs_distCtlr = ctlr, gs_distTyper = typer,
       gs_distIidr = iidr, gs_cpuIidr = ciidr, gs_cpuCtlr = cctlr, gs_cpuPmr = pmr, gs_cpuBpr = bpr,
       gs_irqCount = ((typer AND 0x1f) + 1) * 32, gs_cpuInterfaceCount = (drop_bit 5 typer AND 7) + 1,
       gs_isenabler0 = en, gs_ispendr0 = pend, gs_priority0 = prio, gs_targets0 = targets\<rparr>\<rparr>)
   }"

definition gic_validate_snapshot :: "gic_state_snapshot \<Rightarrow> bool" where
  "gic_validate_snapshot g =
    (gs_distBase g = 0xf9000000 \<and> gs_cpuBase g = 0xf9002000 \<and> gs_irqCount g \<ge> 288 \<and> gs_cpuInterfaceCount g = 4 \<and>
     gs_distIidr g \<noteq> 0 \<and> gs_cpuIidr g \<noteq> 0)"

subsection \<open>The handler\<close>

definition record_sample :: "u32 \<Rightarrow> gic_sys \<Rightarrow> gic_sys" where
  "record_sample interrupted_pc s =
    (let sample_idx = unat (stage90_irq_sample_count s) mod STAGE90_IRQ_SAMPLE_RING_SIZE
     in s\<lparr>stage90_irq_last_sampled_pc := interrupted_pc,
          stage90_irq_sample_ring := (stage90_irq_sample_ring s)[sample_idx := interrupted_pc],
          stage90_irq_sample_count := stage90_irq_sample_count s + 1\<rparr>)"

definition stage90_irq_c_handler :: "(gic_sys, unit) state \<Rightarrow> u32 \<Rightarrow> (gic_sys, unit) state" where
  "stage90_irq_c_handler ir interrupted_pc = do {
     cpu_base \<leftarrow> vars cpuBase;
     iar \<leftarrow> mmio_read32 ir (cpu_base + GICC_IAR);
     let intid = iar AND GICC_IAR_INTID_MASK;
     upd (\<lambda>s. record_sample interrupted_pc
       (s\<lparr>stage90_irq_count := stage90_irq_count s + 1, stage90_last_iar := iar, stage90_last_irq_id := intid\<rparr>));
     (if intid = GIC_SGI0_ID then upd (\<lambda>s. s\<lparr>stage90_sgi0_count := stage90_sgi0_count s + 1\<rparr>)
      else if intid = GIC_TIMER_PPI0_ID \<or> intid = GIC_TIMER_PPI1_ID then do {
        ctl \<leftarrow> read_cntp_ctl ir;
        upd (\<lambda>s. s\<lparr>stage90_timer_irq_count := stage90_timer_irq_count s + 1, stage90_last_timer_irq_id := intid,
          stage90_last_timer_ctl := ctl\<rparr>);
        mode \<leftarrow> vars stage90_irq_sample_mode;
        if mode = 1 then do {
          upd (\<lambda>s. s\<lparr>stage90_irq_sample_budget_used := stage90_irq_sample_budget_used s + 1\<rparr>);
          used \<leftarrow> vars stage90_irq_sample_budget_used;
          max_samples \<leftarrow> vars stage90_irq_sample_max;
          if used < max_samples then do {
            interval \<leftarrow> vars stage90_irq_sample_interval_ticks;
            write_cntp_tval ir interval;
            write_cntp_ctl ir CNTP_CTL_ENABLE
          } else do {
            upd (\<lambda>s. s\<lparr>stage90_irq_sample_watchdog_fired := 1\<rparr>);
            generic_timer_shutdown ir;
            disable_irq_delivery ir;
            mmio_write32 ir (cpu_base + GICC_EOIR) iar;
            platform_reboot ir
          }
        } else generic_timer_shutdown ir
      }
      else if intid = GICC_SPURIOUS_ID then upd (\<lambda>s. s\<lparr>stage90_spurious_irq_count := stage90_spurious_irq_count s + 1\<rparr>)
      else upd (\<lambda>s. s\<lparr>stage90_other_irq_count := stage90_other_irq_count s + 1\<rparr>));
     if intid \<noteq> GICC_SPURIOUS_ID then mmio_write32 ir (cpu_base + GICC_EOIR) iar else State_Monad.return ()
   }"

text \<open>Taking an interrupt masks them for the handler; returning from it restores the interrupted state.\<close>

definition irq_entry :: "gic_sys \<Rightarrow> gic_sys" where
  "irq_entry s = (let s1 = snd (run_state (stage90_irq_c_handler quiet (gh_pc s (gh_now s))) (s\<lparr>gh_masked := True\<rparr>))
     in if gh_rebooted s1 then s1 else s1\<lparr>gh_masked := gh_masked s\<rparr>)"

definition take_irq :: "(gic_sys, unit) state" where
  "take_irq = State (\<lambda>s. ((), if \<not> gh_rebooted s \<and> \<not> gh_masked s \<and> pending_id s \<noteq> None then irq_entry s else s))"

definition stage90_dump_pc_samples :: "gic_sys \<Rightarrow> u32 list" where
  "stage90_dump_pc_samples s =
    (let total = stage90_irq_sample_count s;
         to_print = (if unat total < STAGE90_IRQ_SAMPLE_RING_SIZE then unat total else STAGE90_IRQ_SAMPLE_RING_SIZE)
     in map ((!) (stage90_irq_sample_ring s)) [0..<to_print])"

definition reset_irq_counters :: "gic_sys \<Rightarrow> gic_sys" where
  "reset_irq_counters s = s\<lparr>stage90_irq_count := 0, stage90_last_iar := 0xffffffff, stage90_last_irq_id := 0xffffffff,
     stage90_sgi0_count := 0, stage90_spurious_irq_count := 0, stage90_timer_irq_count := 0, stage90_last_timer_irq_id := 0xffffffff,
     stage90_last_timer_ctl := 0xffffffff, stage90_other_irq_count := 0, stage90_irq_sample_count := 0,
     stage90_irq_sample_budget_used := 0, stage90_irq_last_sampled_pc := 0xffffffff,
     stage90_irq_sample_ring := fold (\<lambda>i r. r[i := 0]) [0..<STAGE90_IRQ_SAMPLE_RING_SIZE] (stage90_irq_sample_ring s)\<rparr>"

subsection \<open>The self tests\<close>

text \<open>Waiting while \<open>going\<close> holds, at most \<open>limit\<close> microseconds; false when the fuel runs out.\<close>

fun wait_loop :: "(gic_sys \<Rightarrow> bool) \<Rightarrow> u32 \<Rightarrow> (gic_sys, unit) state \<Rightarrow> nat \<Rightarrow> u64 \<Rightarrow> (gic_sys, bool) state" where
  "wait_loop going limit ir 0 start = State_Monad.return False"
| "wait_loop going limit ir (Suc fuel) start = do {
     c \<leftarrow> vars (\<lambda>s. going s \<and> \<not> gh_rebooted s);
     if \<not> c then State_Monad.return True
     else do {
       t \<leftarrow> read_ticks ir;
       if timebase_elapsed_us start t < limit then wait_loop going limit ir fuel start else State_Monad.return True
     }
   }"

definition gic_sgi_selftest :: "nat \<Rightarrow> (gic_sys, unit) state \<Rightarrow> (gic_sys, bool option) state" where
  "gic_sgi_selftest fuel ir = do {
     dist_base \<leftarrow> vars distBase;
     cpu_base \<leftarrow> vars cpuBase;
     if dist_base = 0 \<or> cpu_base = 0 then State_Monad.return (Some False)
     else do {
       upd reset_irq_counters;
       mmio_read32 ir (dist_base + GICD_CTLR);
       mmio_read32 ir (cpu_base + GICC_CTLR);
       mmio_read32 ir (cpu_base + GICC_PMR);
       mmio_read32 ir (dist_base + GICD_ISENABLER0);
       d \<leftarrow> mmio_read32 ir (dist_base + GICD_CTLR);
       if d AND 1 = 0 then State_Monad.return (Some False)
       else do {
         c \<leftarrow> mmio_read32 ir (cpu_base + GICC_CTLR);
         if c AND 1 = 0 then State_Monad.return (Some False)
         else do {
           mmio_write32 ir (dist_base + GICD_ISENABLER0) (push_bit (unat GIC_SGI0_ID) 1);
           mmio_read32 ir (dist_base + GICD_ISENABLER0);
           mmio_write32 ir (dist_base + GICD_SGIR) (GICD_SGIR_TARGET_SELF OR GIC_SGI0_ID);
           enable_irq_delivery ir;
           start \<leftarrow> read_ticks ir;
           ended \<leftarrow> wait_loop (\<lambda>s. stage90_sgi0_count s = 0) 20000 ir fuel start;
           if \<not> ended then State_Monad.return None
           else do {
             disable_irq_delivery ir;
             n \<leftarrow> vars stage90_sgi0_count;
             if n > 0 then do { upd (\<lambda>s. s\<lparr>stage90_sgi_selftest_passed := 1\<rparr>); State_Monad.return (Some True) }
             else do { upd (\<lambda>s. s\<lparr>stage90_sgi_selftest_passed := 0\<rparr>); State_Monad.return (Some False) }
           }
         }
       }
     }
   }"

definition gic_timer_selftest :: "nat \<Rightarrow> (gic_sys, unit) state \<Rightarrow> (gic_sys, bool option) state" where
  "gic_timer_selftest fuel ir = do {
     dist_base \<leftarrow> vars distBase;
     cpu_base \<leftarrow> vars cpuBase;
     let timer_ticks = timebase_usec_to_ticks 5000;
     enable_before \<leftarrow> mmio_read32 ir (dist_base + GICD_ISENABLER0);
     if dist_base = 0 \<or> cpu_base = 0 then State_Monad.return (Some False)
     else do {
       d \<leftarrow> mmio_read32 ir (dist_base + GICD_CTLR);
       if d AND 1 = 0 then State_Monad.return (Some False)
       else do {
         c \<leftarrow> mmio_read32 ir (cpu_base + GICC_CTLR);
         if c AND 1 = 0 then State_Monad.return (Some False)
         else do {
           disable_irq_delivery ir;
           generic_timer_shutdown ir;
           upd reset_irq_counters;
           mmio_read32 ir (dist_base + GICD_ISPENDR0);
           mmio_read32 ir (dist_base + GICD_IPRIORITY0 + (GIC_TIMER_PPI0_ID AND NOT 3));
           read_cntp_ctl ir;
           read_cntp_tval ir;
           mmio_write32 ir (dist_base + GICD_ISENABLER0) GIC_TIMER_PPI_MASK;
           mmio_read32 ir (dist_base + GICD_ISENABLER0);
           write_cntp_tval ir timer_ticks;
           write_cntp_ctl ir CNTP_CTL_ENABLE;
           read_cntp_ctl ir;
           read_cntp_tval ir;
           enable_irq_delivery ir;
           start \<leftarrow> read_ticks ir;
           ended \<leftarrow> wait_loop (\<lambda>s. stage90_timer_irq_count s = 0) 50000 ir fuel start;
           if \<not> ended then State_Monad.return None
           else do {
             disable_irq_delivery ir;
             generic_timer_shutdown ir;
             (if enable_before AND push_bit (unat GIC_TIMER_PPI0_ID) 1 = 0 \<or> enable_before AND push_bit (unat GIC_TIMER_PPI1_ID) 1 = 0
              then mmio_write32 ir (dist_base + GICD_ICENABLER0) (GIC_TIMER_PPI_MASK AND NOT enable_before)
              else State_Monad.return ());
             read_cntp_ctl ir;
             mmio_read32 ir (dist_base + GICD_ISENABLER0);
             n \<leftarrow> vars stage90_timer_irq_count;
             i \<leftarrow> vars stage90_last_timer_irq_id;
             if n > 0 \<and> (i = GIC_TIMER_PPI0_ID \<or> i = GIC_TIMER_PPI1_ID)
             then do { upd (\<lambda>s. s\<lparr>stage90_timer_selftest_passed := 1\<rparr>); State_Monad.return (Some True) }
             else do { upd (\<lambda>s. s\<lparr>stage90_timer_selftest_passed := 0\<rparr>); State_Monad.return (Some False) }
           }
         }
       }
     }
   }"

subsection \<open>The dead-man\<close>

definition stage90_arm_pc_sampling_watchdog :: "(gic_sys, unit) state \<Rightarrow> u32 \<Rightarrow> u32 \<Rightarrow> (gic_sys, bool) state" where
  "stage90_arm_pc_sampling_watchdog ir interval_us max_samples = do {
     dist_base \<leftarrow> vars distBase;
     cpu_base \<leftarrow> vars cpuBase;
     let interval_ticks = timebase_usec_to_ticks interval_us;
     disable_irq_delivery ir;
     generic_timer_shutdown ir;
     upd (\<lambda>s. (reset_irq_counters s)\<lparr>stage90_irq_sample_watchdog_fired := 0, stage90_irq_sample_interval_ticks := interval_ticks,
       stage90_irq_sample_max := max_samples, stage90_irq_sample_mode := 0\<rparr>);
     if dist_base = 0 \<or> cpu_base = 0 then State_Monad.return False
     else do {
       upd (\<lambda>s. s\<lparr>stage90_irq_sample_mode := 1\<rparr>);
       mmio_write32 ir (dist_base + GICD_ISENABLER0) GIC_TIMER_PPI_MASK;
       write_cntp_tval ir interval_ticks;
       write_cntp_ctl ir CNTP_CTL_ENABLE;
       enable_irq_delivery ir;
       read_cntp_ctl ir;
       State_Monad.return True
     }
   }"

definition stage90_stop_pc_sampling_watchdog :: "(gic_sys, unit) state \<Rightarrow> (gic_sys, unit) state" where
  "stage90_stop_pc_sampling_watchdog ir = do {
     disable_irq_delivery ir;
     generic_timer_shutdown ir;
     upd (\<lambda>s. s\<lparr>stage90_irq_sample_mode := 0\<rparr>)
   }"

definition stage90_disarm_deadman_timer :: "(gic_sys, unit) state \<Rightarrow> (gic_sys, bool) state" where
  "stage90_disarm_deadman_timer ir = do {
     dist_base \<leftarrow> vars distBase;
     if dist_base = 0 then State_Monad.return False
     else do {
       mmio_read32 ir (dist_base + GICD_ISENABLER0);
       mmio_read32 ir (dist_base + GICD_ISPENDR0);
       read_cntp_ctl ir;
       stage90_stop_pc_sampling_watchdog ir;
       mmio_write32 ir (dist_base + GICD_ICENABLER0) GIC_TIMER_PPI_MASK;
       mmio_write32 ir (dist_base + GICD_ICPENDR0) GIC_TIMER_PPI_MASK;
       mmio_read32 ir (dist_base + GICD_ISENABLER0);
       mmio_read32 ir (dist_base + GICD_ISPENDR0);
       read_cntp_ctl ir;
       State_Monad.return True
     }
   }"

definition stage90_arm_deadman_reset :: "bool \<Rightarrow> (gic_sys, unit) state \<Rightarrow> (gic_sys, bool) state" where
  "stage90_arm_deadman_reset STAGE90_DEADMAN_ENABLE ir =
    (if \<not> STAGE90_DEADMAN_ENABLE then State_Monad.return False
     else do {
       missing \<leftarrow> vars (\<lambda>s. distBase s = 0 \<or> cpuBase s = 0);
       (if missing then gic_readonly_snapshot ir GICD_BASE GICC_BASE else State_Monad.return ());
       dist_base \<leftarrow> vars distBase;
       cpu_base \<leftarrow> vars cpuBase;
       dist_ctlr \<leftarrow> mmio_read32 ir (dist_base + 0);
       cpu_ctlr \<leftarrow> mmio_read32 ir (cpu_base + 0);
       (if dist_ctlr AND 1 = 0 then mmio_write32 ir (dist_base + 0) (dist_ctlr OR 1) else State_Monad.return ());
       (if cpu_ctlr AND 1 = 0 then mmio_write32 ir (cpu_base + 0) (cpu_ctlr OR 1) else State_Monad.return ());
       mmio_read32 ir (dist_base + 0);
       mmio_read32 ir (cpu_base + 0);
       armed \<leftarrow> stage90_arm_pc_sampling_watchdog ir STAGE90_DEADMAN_INTERVAL_US STAGE90_DEADMAN_SAMPLES;
       if \<not> armed then State_Monad.return False
       else do { upd (\<lambda>s. s\<lparr>g_stage90_deadman_armed := 1\<rparr>); State_Monad.return True }
     })"

text \<open>The payload going on with work that leaves the controller and the timer alone.\<close>

definition payload_step :: "gic_sys \<Rightarrow> gic_sys" where
  "payload_step s = snd (run_state (device take_irq (\<lambda>s. ((), s))) s)"

end
