(* ===== verification/Payload_Gic_Proofs.thy ===== *)
theory Payload_Gic_Proofs
  imports Payload_Gic
begin

text \<open>
  Reasoning about the payload's interrupt code: what running an access does, assertions over the state monad
  (\<open>ensures\<close>), and the part of the state that an interrupt leaves alone (\<open>settings\<close>, \<open>leaves\<close>).
\<close>

unbundle bit_operations_syntax

subsection \<open>Running\<close>

lemma run_bind: "run_state (State_Monad.bind m f) s = (case run_state m s of (x, s1) \<Rightarrow> run_state (f x) s1)"
  by (simp add: State_Monad.bind_def)

lemma run_return: "run_state (State_Monad.return x) s = (x, s)"
  by (simp add: State_Monad.return_def)

lemma run_vars: "run_state (vars f) s = (f s, s)"
  by (simp add: vars_def)

lemma run_upd: "run_state (upd f) s = ((), if gh_rebooted s then s else f s)"
  by (simp add: upd_def)

lemma run_device: "run_state (device ir f) s = (if gh_rebooted s then (fst (f s), s)
    else (fst (f (tick s)), snd (run_state ir (settle (snd (f (tick s)))))))"
  by (simp add: device_def split: prod.split)

lemma run_quiet: "run_state quiet s = ((), s)"
  by (simp add: quiet_def run_return)

lemmas running = run_bind run_return run_vars run_upd run_device run_quiet

lemma tick_settle_fields [simp]:
  "gh_rebooted (tick s) = gh_rebooted s" "gh_rebooted (settle s) = gh_rebooted s"
  "gh_masked (tick s) = gh_masked s" "gh_masked (settle s) = gh_masked s"
  "gh_ctl (tick s) = gh_ctl s" "gh_ctl (settle s) = gh_ctl s"
  "gh_cmp (tick s) = gh_cmp s" "gh_cmp (settle s) = gh_cmp s"
  "gh_now (tick s) = gh_now s + gh_cost s" "gh_now (settle s) = gh_now s"
  "gh_cost (tick s) = gh_cost s" "gh_cost (settle s) = gh_cost s"
  "gh_enable (tick s) = gh_enable s" "gh_enable (settle s) = gh_enable s"
  "gh_dist_ctlr (tick s) = gh_dist_ctlr s" "gh_dist_ctlr (settle s) = gh_dist_ctlr s"
  "gh_cpu_ctlr (tick s) = gh_cpu_ctlr s" "gh_cpu_ctlr (settle s) = gh_cpu_ctlr s"
  "gh_ppi (tick s) = gh_ppi s" "gh_ppi (settle s) = gh_ppi s"
  "gh_edge (tick s) = gh_edge s" "gh_edge (settle s) = gh_edge s"
  "gh_active (tick s) = gh_active s" "gh_active (settle s) = gh_active s"
  "gh_sgi0 (tick s) = gh_sgi0 s" "gh_sgi0 (settle s) = gh_sgi0 s"
  "gh_spi (tick s) = gh_spi s" "gh_spi (settle s) = gh_spi s"
  by (simp_all add: tick_def settle_def)

text \<open>The statics, which no access changes.\<close>

definition statics :: "gic_sys \<Rightarrow> gic_state_snapshot \<times> u32 list \<times> u32 list" where
  "statics s = (GIC_state_stage90 s, [stage90_irq_count s, stage90_last_iar s, stage90_last_irq_id s, stage90_sgi0_count s,
     stage90_spurious_irq_count s, stage90_timer_irq_count s, stage90_last_timer_irq_id s, stage90_last_timer_ctl s,
     stage90_other_irq_count s, stage90_sgi_selftest_passed s, stage90_irq_sample_count s, stage90_irq_sample_budget_used s,
     stage90_irq_last_sampled_pc s, stage90_irq_sample_mode s, stage90_irq_sample_interval_ticks s, stage90_irq_sample_max s,
     stage90_irq_sample_watchdog_fired s, stage90_timer_selftest_passed s, g_stage90_deadman_armed s], stage90_irq_sample_ring s)"

lemma statics_kept [simp]:
  "statics (tick s) = statics s" "statics (settle s) = statics s" "statics (gic_set a v s) = statics s"
  "statics (snd (gic_get a s)) = statics s"
  by (simp_all add: statics_def tick_def settle_def gic_set_def gic_get_def acknowledge_def split: option.split)

subsection \<open>Ensuring\<close>

definition ensures :: "(gic_sys \<Rightarrow> bool) \<Rightarrow> (gic_sys, 'a) state \<Rightarrow> ('a \<Rightarrow> gic_sys \<Rightarrow> bool) \<Rightarrow> bool" where
  "ensures P m Q = (\<forall>s. P s \<longrightarrow> (case run_state m s of (x, s') \<Rightarrow> Q x s'))"

lemma ensuresD: "ensures P m Q \<Longrightarrow> P s \<Longrightarrow> run_state m s = (x, s') \<Longrightarrow> Q x s'"
  by (fastforce simp: ensures_def)

lemma ensures_bind: "ensures P m R \<Longrightarrow> (\<And>x. ensures (R x) (f x) Q) \<Longrightarrow> ensures P (State_Monad.bind m f) Q"
  by (fastforce simp: ensures_def run_bind split: prod.splits)

lemma ensures_return: "(\<And>s. P s \<Longrightarrow> Q x s) \<Longrightarrow> ensures P (State_Monad.return x) Q"
  by (simp add: ensures_def run_return)

lemma ensures_vars: "(\<And>s. P s \<Longrightarrow> Q (f s) s) \<Longrightarrow> ensures P (vars f) Q"
  by (simp add: ensures_def run_vars)

lemma ensures_upd: "(\<And>s. P s \<Longrightarrow> gh_rebooted s \<Longrightarrow> Q () s) \<Longrightarrow> (\<And>s. P s \<Longrightarrow> \<not> gh_rebooted s \<Longrightarrow> Q () (f s)) \<Longrightarrow> ensures P (upd f) Q"
  by (simp add: ensures_def run_upd)

lemma ensures_if: "(b \<Longrightarrow> ensures P m Q) \<Longrightarrow> (\<not> b \<Longrightarrow> ensures P n Q) \<Longrightarrow> ensures P (if b then m else n) Q"
  by simp

lemma ensures_weaken: "ensures P m Q \<Longrightarrow> (\<And>s. P' s \<Longrightarrow> P s) \<Longrightarrow> (\<And>x s. Q x s \<Longrightarrow> Q' x s) \<Longrightarrow> ensures P' m Q'"
  by (fastforce simp: ensures_def)

lemma ensures_anything: "ensures P m (\<lambda>_ _. True)"
  by (simp add: ensures_def)


subsection \<open>What interrupts leave alone\<close>

text \<open>What the handler keeps: the configuration of the controller and the statics that the arming sets.\<close>

definition settings :: "gic_sys \<Rightarrow> u32 list \<times> bool \<times> nat \<times> (nat \<Rightarrow> u32) \<times> gic_state_snapshot \<times> u32 list" where
  "settings s = ([gh_dist_ctlr s, gh_cpu_ctlr s, gh_enable s, gh_ppi s], gh_edge s, gh_cost s, gh_pc s, GIC_state_stage90 s,
     [stage90_irq_sample_mode s, stage90_irq_sample_interval_ticks s, stage90_irq_sample_max s, g_stage90_deadman_armed s])"

definition based :: "gic_sys \<Rightarrow> bool" where
  "based s = (distBase s = GICD_BASE \<and> cpuBase s = GICC_BASE)"

definition leaves :: "(gic_sys \<Rightarrow> 'b) \<Rightarrow> (gic_sys, 'a) state \<Rightarrow> bool" where
  "leaves F m = (\<forall>s. based s \<longrightarrow> F (snd (run_state m s)) = F s)"

lemmas gic_addresses = GICD_BASE_def GICC_BASE_def GICD_CTLR_def GICD_TYPER_def GICD_IIDR_def GICD_ISENABLER0_def
  GICD_ICENABLER0_def GICD_ISPENDR0_def GICD_ICPENDR0_def GICD_IPRIORITY0_def GICD_ITARGETS0_def GICD_SGIR_def GICC_CTLR_def GICC_PMR_def
  GICC_BPR_def GICC_IAR_def GICC_EOIR_def GICC_IIDR_def RESTART_REASON_REG_def PSHOLD_REG_def

lemma settings_kept [simp]:
  "settings (tick s) = settings s" "settings (settle s) = settings s"
  "settings (s\<lparr>gh_ctl := c\<rparr>) = settings s" "settings (s\<lparr>gh_cmp := n\<rparr>) = settings s" "settings (s\<lparr>gh_masked := b\<rparr>) = settings s"
  "settings (record_sample pc s) = settings s"
  by (simp_all add: settings_def tick_def settle_def record_sample_def Let_def)

lemma settings_get [simp]: "settings (snd (gic_get a s)) = settings s"
proof -
  have "settings (snd (acknowledge s)) = settings s" by (simp add: acknowledge_def settings_def split: option.split)
  then show ?thesis by (simp add: gic_get_def)
qed

lemma settings_set [simp]:
  "settings (gic_set (GICC_BASE + GICC_EOIR) v s) = settings s"
  "settings (gic_set RESTART_REASON_REG v s) = settings s"
  "settings (gic_set PSHOLD_REG v s) = settings s"
  by (simp_all add: gic_set_def gic_addresses) (simp_all add: settings_def)

lemma settings_based: "settings s = settings t \<Longrightarrow> based s = based t"
  by (simp add: settings_def based_def distBase_def cpuBase_def)

lemma leaves_bind: "leaves settings m \<Longrightarrow> (\<And>x. leaves settings (f x)) \<Longrightarrow> leaves settings (State_Monad.bind m f)"
  unfolding leaves_def run_bind by (auto split: prod.split dest: settings_based) (metis settings_based snd_conv)

lemma leaves_return: "leaves F (State_Monad.return x)"
  by (simp add: leaves_def run_return)

lemma leaves_vars: "leaves F (vars f)"
  by (simp add: leaves_def run_vars)

lemma leaves_cpu: "leaves F (g GICC_BASE) \<Longrightarrow> leaves F (State_Monad.bind (vars cpuBase) g)"
  by (simp add: leaves_def run_bind run_vars based_def)

lemma leaves_dist: "leaves F (g GICD_BASE) \<Longrightarrow> leaves F (State_Monad.bind (vars distBase) g)"
  by (simp add: leaves_def run_bind run_vars based_def)

lemma leaves_upd: "(\<And>s. F (f s) = F s) \<Longrightarrow> leaves F (upd f)"
  by (simp add: leaves_def run_upd)

lemma leaves_device:
  assumes f: "\<And>s. settings (snd (f s)) = settings s" and ir: "leaves settings ir"
  shows "leaves settings (device ir f)"
proof -
  have "settings (snd (run_state ir (settle (snd (f (tick s)))))) = settings s" if "based s" for s
  proof -
    have e: "settings (settle (snd (f (tick s)))) = settings s" using f [of "tick s"] by simp
    then have "based (settle (snd (f (tick s))))" using settings_based [OF e] that by simp
    then show ?thesis using ir e by (simp add: leaves_def)
  qed
  then show ?thesis by (simp add: leaves_def run_device)
qed

lemma leaves_if: "(b \<Longrightarrow> leaves F m) \<Longrightarrow> (\<not> b \<Longrightarrow> leaves F n) \<Longrightarrow> leaves F (if b then m else n)"
  by simp

lemma leaves_Let: "leaves F (f x) \<Longrightarrow> leaves F (let y = x in f y)"
  by simp

lemmas leaves_rules = leaves_cpu leaves_dist leaves_bind leaves_return leaves_vars leaves_upd leaves_device leaves_if leaves_Let

lemma leaves_quiet: "leaves settings quiet"
  by (simp add: quiet_def leaves_return)

lemma leaves_accesses:
  assumes "leaves settings ir"
  shows "leaves settings (mmio_read32 ir a)" "leaves settings (read_cntp_ctl ir)" "leaves settings (write_cntp_ctl ir v)"
    "leaves settings (read_cntp_tval ir)" "leaves settings (write_cntp_tval ir v)" "leaves settings (read_ticks ir)"
    "leaves settings (enable_irq_delivery ir)" "leaves settings (disable_irq_delivery ir)"
    "a \<in> {GICC_BASE + GICC_EOIR, RESTART_REASON_REG, PSHOLD_REG} \<Longrightarrow> leaves settings (mmio_write32 ir a v)"
    "leaves settings (generic_timer_shutdown ir)"
  unfolding mmio_read32_def read_cntp_ctl_def write_cntp_ctl_def read_cntp_tval_def write_cntp_tval_def read_ticks_def
    enable_irq_delivery_def disable_irq_delivery_def mmio_write32_def generic_timer_shutdown_def Let_def
  by (intro leaves_rules assms; auto)+

lemma handler_leaves_settings: "leaves settings (stage90_irq_c_handler quiet pc)"
  unfolding stage90_irq_c_handler_def platform_reboot_def Let_def
  by (intro leaves_rules leaves_accesses leaves_quiet; simp add: settings_def record_sample_def Let_def)

lemma irq_leaves_settings: "leaves settings take_irq"
proof -
  have "settings (irq_entry s) = settings s" if b: "based s" for s
  proof -
    have "settings (snd (run_state (stage90_irq_c_handler quiet (gh_pc s (gh_now s))) (s\<lparr>gh_masked := True\<rparr>))) = settings s"
      using handler_leaves_settings b settings_kept(5) [of True s] settings_based [OF settings_kept(5) [of True s]]
      by (simp add: leaves_def)
    then show ?thesis by (simp add: irq_entry_def Let_def)
  qed
  then show ?thesis by (simp add: leaves_def take_irq_def)
qed

end
