(* ===== verification/Payload_Deadman.thy ===== *)
theory Payload_Deadman
  imports Payload_Gic_Proofs
begin

text \<open>
  The armed dead-man of theory Payload_Gic over time: what one interrupt does under it (\<open>handler_timer\<close>,
  \<open>handler_last\<close>, \<open>handler_other\<close>, \<open>irq_outcome\<close>), the earliest time at which it resets the system
  (\<open>net_since\<close>) and the number of steps within which it does (\<open>net_fires\<close>).
\<close>

unbundle bit_operations_syntax

lemma tick_settle_statics [simp]:
  "GIC_state_stage90 (tick s) = GIC_state_stage90 s" "GIC_state_stage90 (settle s) = GIC_state_stage90 s"
  "stage90_irq_count (tick s) = stage90_irq_count s" "stage90_irq_count (settle s) = stage90_irq_count s"
  "stage90_last_iar (tick s) = stage90_last_iar s" "stage90_last_iar (settle s) = stage90_last_iar s"
  "stage90_last_irq_id (tick s) = stage90_last_irq_id s" "stage90_last_irq_id (settle s) = stage90_last_irq_id s"
  "stage90_sgi0_count (tick s) = stage90_sgi0_count s" "stage90_sgi0_count (settle s) = stage90_sgi0_count s"
  "stage90_spurious_irq_count (tick s) = stage90_spurious_irq_count s" "stage90_spurious_irq_count (settle s) = stage90_spurious_irq_count s"
  "stage90_timer_irq_count (tick s) = stage90_timer_irq_count s" "stage90_timer_irq_count (settle s) = stage90_timer_irq_count s"
  "stage90_last_timer_irq_id (tick s) = stage90_last_timer_irq_id s" "stage90_last_timer_irq_id (settle s) = stage90_last_timer_irq_id s"
  "stage90_last_timer_ctl (tick s) = stage90_last_timer_ctl s" "stage90_last_timer_ctl (settle s) = stage90_last_timer_ctl s"
  "stage90_other_irq_count (tick s) = stage90_other_irq_count s" "stage90_other_irq_count (settle s) = stage90_other_irq_count s"
  "stage90_sgi_selftest_passed (tick s) = stage90_sgi_selftest_passed s" "stage90_sgi_selftest_passed (settle s) = stage90_sgi_selftest_passed s"
  "stage90_irq_sample_count (tick s) = stage90_irq_sample_count s" "stage90_irq_sample_count (settle s) = stage90_irq_sample_count s"
  "stage90_irq_sample_ring (tick s) = stage90_irq_sample_ring s" "stage90_irq_sample_ring (settle s) = stage90_irq_sample_ring s"
  "stage90_irq_sample_budget_used (tick s) = stage90_irq_sample_budget_used s" "stage90_irq_sample_budget_used (settle s) = stage90_irq_sample_budget_used s"
  "stage90_irq_last_sampled_pc (tick s) = stage90_irq_last_sampled_pc s" "stage90_irq_last_sampled_pc (settle s) = stage90_irq_last_sampled_pc s"
  "stage90_irq_sample_mode (tick s) = stage90_irq_sample_mode s" "stage90_irq_sample_mode (settle s) = stage90_irq_sample_mode s"
  "stage90_irq_sample_interval_ticks (tick s) = stage90_irq_sample_interval_ticks s" "stage90_irq_sample_interval_ticks (settle s) = stage90_irq_sample_interval_ticks s"
  "stage90_irq_sample_max (tick s) = stage90_irq_sample_max s" "stage90_irq_sample_max (settle s) = stage90_irq_sample_max s"
  "stage90_irq_sample_watchdog_fired (tick s) = stage90_irq_sample_watchdog_fired s" "stage90_irq_sample_watchdog_fired (settle s) = stage90_irq_sample_watchdog_fired s"
  "stage90_timer_selftest_passed (tick s) = stage90_timer_selftest_passed s" "stage90_timer_selftest_passed (settle s) = stage90_timer_selftest_passed s"
  "g_stage90_deadman_armed (tick s) = g_stage90_deadman_armed s" "g_stage90_deadman_armed (settle s) = g_stage90_deadman_armed s"
  "gh_pc (tick s) = gh_pc s" "gh_pc (settle s) = gh_pc s"
  by (simp_all add: tick_def settle_def)

lemmas gic_ids = GIC_SGI0_ID_def GIC_TIMER_PPI0_ID_def GIC_TIMER_PPI1_ID_def GICC_SPURIOUS_ID_def GICC_IAR_INTID_MASK_def

lemma gic_get_iar: "gic_get (GICC_BASE + GICC_IAR) s = acknowledge s"
  by (simp add: gic_get_def gic_addresses)

lemma gic_set_eoir: "gic_set (GICC_BASE + GICC_EOIR) v s = (if gh_active s = Some v then s\<lparr>gh_active := None\<rparr> else s)"
  by (simp add: gic_set_def gic_addresses)

lemma acknowledge_timer:
  assumes "pending_id s = Some (gh_ppi s)" "gh_ppi s \<in> {18, 19}"
  shows "acknowledge s = (gh_ppi s, s\<lparr>gh_active := Some (gh_ppi s), gh_latch := False\<rparr>)"
  using assms by (auto simp: acknowledge_def)


subsection \<open>Time and the timer's interrupt\<close>

definition timed :: "gic_sys \<Rightarrow> bool" where
  "timed s = (gh_seen s = timer_level s \<and> timer_pending s = timer_level s)"

lemma level_fields [simp]:
  "timer_level (settle s) = timer_level s"
  "timer_level (s\<lparr>gh_active := a\<rparr>) = timer_level s" "timer_level (s\<lparr>gh_latch := b\<rparr>) = timer_level s"
  "timer_level (s\<lparr>gh_spi := q\<rparr>) = timer_level s" "timer_level (s\<lparr>gh_masked := b\<rparr>) = timer_level s"
  by (simp_all add: timer_level_def settle_def)

lemma level_tick: "timer_level (tick s) = (gh_ctl s AND 3 = 1 \<and> gh_cmp s \<le> gh_now s + gh_cost s)"
  by (simp add: timer_level_def)

lemma level_mono: "timer_level s \<Longrightarrow> timer_level (tick s)"
  by (simp add: level_tick) (simp add: timer_level_def)

lemma seen_settled [simp]: "gh_seen (settle s) = timer_level s" "gh_seen (tick s) = timer_level (tick s)"
  by (simp_all add: settle_def tick_def) (simp add: timer_level_def)

lemma settle_settled: "gh_seen s = timer_level s \<Longrightarrow> settle s = s"
  by (cases s) (auto simp: settle_def)

lemma settle_tick [simp]: "settle (tick s) = tick s"
  by (rule settle_settled) simp

lemma latch_settle: "gh_latch (settle s) = (gh_latch s \<or> timer_level s \<and> \<not> gh_seen s)"
  by (simp add: settle_def)

lemma latch_tick: "gh_latch (tick s) = (gh_latch s \<or> timer_level (tick s) \<and> \<not> gh_seen s)"
  by (simp add: tick_def settle_def timer_level_def)

lemma timed_settle:
  assumes "gh_edge s \<Longrightarrow> gh_latch s \<Longrightarrow> timer_level s" and "gh_edge s \<Longrightarrow> timer_level s \<Longrightarrow> gh_seen s \<Longrightarrow> gh_latch s"
  shows "timed (settle s)"
  using assms by (auto simp: timed_def timer_pending_def latch_settle)

lemma timed_edge: "timed s \<Longrightarrow> gh_edge s \<Longrightarrow> gh_latch s = timer_level s"
  by (simp add: timed_def timer_pending_def)

lemma timed_tick: "timed s \<Longrightarrow> timed (tick s)"
  using level_mono [of s] by (auto simp: timed_def timer_pending_def latch_tick)

text \<open>An update that changes nothing of the timer.\<close>

lemma timed_update:
  assumes "timed s" and "timer_level s' = timer_level s" and "gh_latch s' = gh_latch s" and "gh_seen s' = gh_seen s"
    and "gh_edge s' = gh_edge s"
  shows "timed (settle s')"
  using assms by (intro timed_settle) (auto simp: timed_def timer_pending_def)

lemma tick_update_now: "gh_now (tick s) = gh_now s + gh_cost s"
  by simp

subsection \<open>One interrupt under the armed net\<close>

definition net_set :: "u32 \<Rightarrow> u32 \<Rightarrow> gic_sys \<Rightarrow> bool" where
  "net_set n ticks s = (based s \<and> gh_dist_ctlr s AND 1 \<noteq> 0 \<and> gh_cpu_ctlr s AND 1 \<noteq> 0 \<and> gh_enable s AND ppi_bit s \<noteq> 0 \<and>
     gh_ppi s \<in> {18, 19} \<and> 0 < gh_cost s \<and> stage90_irq_sample_mode s = 1 \<and> stage90_irq_sample_interval_ticks s = ticks \<and>
     0 < unat ticks \<and> unat ticks < 2 ^ 31 \<and> stage90_irq_sample_max s = n)"

lemma settings_net: "settings s = settings t \<Longrightarrow> net_set n k s = net_set n k t"
  using settings_based [of s t] by (simp add: net_set_def settings_def ppi_bit_def)

definition spis_ok :: "gic_sys \<Rightarrow> bool" where
  "spis_ok s = (\<forall>(t, i) \<in> set (gh_spi s). i \<notin> {0, 18, 19, 0x3ff} \<and> i AND 0x3ff = i)"

definition waiting :: "gic_sys \<Rightarrow> bool" where
  "waiting s = (\<not> gh_rebooted s \<and> gh_active s = None \<and> \<not> gh_sgi0 s \<and> gh_ctl s AND 3 = 1 \<and> timed s \<and> spis_ok s)"

definition sampled :: "u32 \<Rightarrow> u32 \<Rightarrow> gic_sys \<Rightarrow> gic_sys" where
  "sampled pc iar s = record_sample pc (s\<lparr>stage90_irq_count := stage90_irq_count s + 1, stage90_last_iar := iar, stage90_last_irq_id := iar\<rparr>)"

definition counted :: "u32 \<Rightarrow> u32 \<Rightarrow> gic_sys \<Rightarrow> gic_sys" where
  "counted iar ctl s = s\<lparr>stage90_timer_irq_count := stage90_timer_irq_count s + 1, stage90_last_timer_irq_id := iar,
     stage90_last_timer_ctl := ctl, stage90_irq_sample_budget_used := stage90_irq_sample_budget_used s + 1\<rparr>"

lemma sampled_fields [simp]:
  "gh_dist_ctlr (sampled pc iar s) = gh_dist_ctlr s" "gh_dist_ctlr (counted iar c s) = gh_dist_ctlr s"
  "gh_cpu_ctlr (sampled pc iar s) = gh_cpu_ctlr s" "gh_cpu_ctlr (counted iar c s) = gh_cpu_ctlr s"
  "gh_enable (sampled pc iar s) = gh_enable s" "gh_enable (counted iar c s) = gh_enable s"
  "gh_sgi0 (sampled pc iar s) = gh_sgi0 s" "gh_sgi0 (counted iar c s) = gh_sgi0 s"
  "gh_ppi (sampled pc iar s) = gh_ppi s" "gh_ppi (counted iar c s) = gh_ppi s"
  "gh_edge (sampled pc iar s) = gh_edge s" "gh_edge (counted iar c s) = gh_edge s"
  "gh_latch (sampled pc iar s) = gh_latch s" "gh_latch (counted iar c s) = gh_latch s"
  "gh_seen (sampled pc iar s) = gh_seen s" "gh_seen (counted iar c s) = gh_seen s"
  "gh_spi (sampled pc iar s) = gh_spi s" "gh_spi (counted iar c s) = gh_spi s"
  "gh_active (sampled pc iar s) = gh_active s" "gh_active (counted iar c s) = gh_active s"
  "gh_ctl (sampled pc iar s) = gh_ctl s" "gh_ctl (counted iar c s) = gh_ctl s"
  "gh_cmp (sampled pc iar s) = gh_cmp s" "gh_cmp (counted iar c s) = gh_cmp s"
  "gh_now (sampled pc iar s) = gh_now s" "gh_now (counted iar c s) = gh_now s"
  "gh_cost (sampled pc iar s) = gh_cost s" "gh_cost (counted iar c s) = gh_cost s"
  "gh_masked (sampled pc iar s) = gh_masked s" "gh_masked (counted iar c s) = gh_masked s"
  "gh_rebooted (sampled pc iar s) = gh_rebooted s" "gh_rebooted (counted iar c s) = gh_rebooted s"
  "GIC_state_stage90 (sampled pc iar s) = GIC_state_stage90 s" "GIC_state_stage90 (counted iar c s) = GIC_state_stage90 s"
  "stage90_irq_sample_mode (sampled pc iar s) = stage90_irq_sample_mode s" "stage90_irq_sample_mode (counted iar c s) = stage90_irq_sample_mode s"
  "stage90_irq_sample_interval_ticks (sampled pc iar s) = stage90_irq_sample_interval_ticks s" "stage90_irq_sample_interval_ticks (counted iar c s) = stage90_irq_sample_interval_ticks s"
  "stage90_irq_sample_max (sampled pc iar s) = stage90_irq_sample_max s" "stage90_irq_sample_max (counted iar c s) = stage90_irq_sample_max s"
  "stage90_irq_sample_budget_used (sampled pc iar s) = stage90_irq_sample_budget_used s"
  "stage90_irq_sample_budget_used (counted iar c s) = stage90_irq_sample_budget_used s + 1"
  "timer_level (sampled pc iar s) = timer_level s" "timer_level (counted iar c s) = timer_level s"
  by (simp_all add: sampled_def counted_def record_sample_def Let_def timer_level_def)

lemma ppi_id: "gh_ppi s AND 0x3ff = gh_ppi s" "gh_ppi s \<noteq> 0" "gh_ppi s \<noteq> 0x3ff" "gh_ppi s = 18 \<or> gh_ppi s = 19"
  if "gh_ppi s \<in> {18, 19}"
  using that by auto

lemma handler_timer_run:
  assumes net: "net_set n k s" and alive: "\<not> gh_rebooted s" and p: "pending_id (tick s) = Some (gh_ppi s)"
    and used: "stage90_irq_sample_budget_used s + 1 < n"
  shows "\<exists>c. run_state (stage90_irq_c_handler quiet pc) s =
    ((), let a = settle ((tick s)\<lparr>gh_active := Some (gh_ppi s), gh_latch := False\<rparr>);
             b = counted (gh_ppi s) c (tick (sampled pc (gh_ppi s) a));
             u = settle ((tick b)\<lparr>gh_cmp := gh_now (tick b) + unat k\<rparr>);
             w = settle ((tick u)\<lparr>gh_ctl := 1\<rparr>)
         in settle ((tick w)\<lparr>gh_active := None\<rparr>))"
proof -
  have ppi: "gh_ppi s \<in> {18, 19}" and k: "unat k < 2 ^ 31" using net by (simp_all add: net_set_def)
  have st: "GIC_state_stage90 (tick s) = GIC_state_stage90 s" by simp
  show ?thesis
    unfolding stage90_irq_c_handler_def run_bind run_vars
    using net alive p used ppi_id [OF ppi] k
    apply (simp add: running mmio_read32_def gic_get_iar acknowledge_timer [of "tick s"] ppi gic_ids Let_def write_cntp_tval_def write_cntp_ctl_def
      read_cntp_ctl_def mmio_write32_def gic_set_eoir net_set_def based_def cpuBase_def CNTP_CTL_ENABLE_def
      sampled_def counted_def record_sample_def)
    by (intro impI conjI; rule exI; rule refl)
qed


lemma waiting_timed: "waiting s \<Longrightarrow> timed s"
  by (simp add: waiting_def)

lemma handler_timer:
  assumes net: "net_set n k s" and w: "waiting s" and p: "pending_id (tick s) = Some (gh_ppi s)" and l: "timer_level (tick s)"
    and used: "stage90_irq_sample_budget_used s + 1 < n"
  shows "\<exists>s'. run_state (stage90_irq_c_handler quiet pc) s = ((), s') \<and> waiting s' \<and> gh_masked s' = gh_masked s \<and>
    stage90_irq_sample_budget_used s' = stage90_irq_sample_budget_used s + 1 \<and>
    gh_now s + gh_cost s + unat k \<le> gh_cmp s' \<and> gh_cmp s' \<le> gh_now s' + unat k \<and> gh_now s \<le> gh_now s'"
proof -
  have alive: "\<not> gh_rebooted s" and ctl: "gh_ctl s AND 3 = 1" and k: "0 < unat k" using w net by (simp_all add: waiting_def net_set_def)
  define a where "a = settle ((tick s)\<lparr>gh_active := Some (gh_ppi s), gh_latch := False\<rparr>)"
  obtain c where "run_state (stage90_irq_c_handler quiet pc) s =
    ((), let b = counted (gh_ppi s) c (tick (sampled pc (gh_ppi s) a)); u = settle ((tick b)\<lparr>gh_cmp := gh_now (tick b) + unat k\<rparr>);
             w = settle ((tick u)\<lparr>gh_ctl := 1\<rparr>)
         in settle ((tick w)\<lparr>gh_active := None\<rparr>))"
    using handler_timer_run [OF net alive p used, of pc] unfolding a_def by (auto simp: Let_def)
  then obtain b u v where run: "run_state (stage90_irq_c_handler quiet pc) s = ((), settle ((tick v)\<lparr>gh_active := None\<rparr>))"
    and v: "v = settle ((tick u)\<lparr>gh_ctl := 1\<rparr>)" and u: "u = settle ((tick b)\<lparr>gh_cmp := gh_now (tick b) + unat k\<rparr>)"
    and b: "b = counted (gh_ppi s) c (tick (sampled pc (gh_ppi s) a))"
    by (simp add: Let_def)
  have la: "timer_level a" "gh_seen a" "\<not> gh_latch a" using l by (simp_all add: a_def latch_settle)
  have lb: "timer_level b" "gh_seen b" "\<not> gh_latch b"
    using la level_mono [of "sampled pc (gh_ppi s) a"] by (simp_all add: b latch_tick)
  have "\<not> gh_latch (tick b)" using lb by (simp add: latch_tick)
  then have tu: "timed u" using k by (auto simp: u timer_level_def intro!: timed_settle)
  have cu: "gh_ctl u AND 3 = 1" using ctl by (simp add: u b a_def)
  have tv: "timed v" unfolding v using cu by (intro timed_update [OF timed_tick [OF tu]]) (simp_all add: timer_level_def)
  have "timed (settle ((tick v)\<lparr>gh_active := None\<rparr>))" by (intro timed_update [OF timed_tick [OF tv]]) simp_all
  then show ?thesis using run w alive by (simp add: waiting_def v u b a_def spis_ok_def)
qed


lemma gic_set_reset: "gic_set PSHOLD_REG 0 t = t\<lparr>gh_rebooted := True\<rparr>" "gic_set RESTART_REASON_REG v t = t\<lparr>gh_reason := v\<rparr>"
  by (simp_all add: gic_set_def gic_addresses)

lemma handler_last:
  assumes net: "net_set n k s" and w: "waiting s" and p: "pending_id (tick s) = Some (gh_ppi s)"
    and used: "\<not> stage90_irq_sample_budget_used s + 1 < n"
  shows "gh_rebooted (snd (run_state (stage90_irq_c_handler quiet pc) s)) \<and>
    gh_now s + gh_cost s \<le> gh_now (snd (run_state (stage90_irq_c_handler quiet pc) s))"
proof -
  have ppi: "gh_ppi s \<in> {18, 19}" using net by (simp add: net_set_def)
  show ?thesis
    using net w p used ppi_id [OF ppi]
    by (simp add: stage90_irq_c_handler_def running mmio_read32_def gic_get_iar acknowledge_timer [of "tick s"] ppi gic_ids Let_def
        read_cntp_ctl_def write_cntp_ctl_def mmio_write32_def gic_set_eoir net_set_def based_def cpuBase_def record_sample_def
        generic_timer_shutdown_def disable_irq_delivery_def platform_reboot_def waiting_def gic_set_reset)
qed

lemma pending_waiting:
  assumes "net_set n k s" and "waiting s"
  shows "pending_id s = (if timer_level s then Some (gh_ppi s)
    else case gh_spi s of (t, i) # _ \<Rightarrow> if t \<le> gh_now s then Some i else None | [] \<Rightarrow> None)"
  using assms by (simp add: pending_id_def net_set_def waiting_def timed_def)

lemma waiting_tick: "waiting s \<Longrightarrow> waiting (tick s)"
  using timed_tick [of s] by (simp add: waiting_def spis_ok_def)

lemma net_tick: "net_set n k s \<Longrightarrow> net_set n k (tick s)"
  using settings_net [of s "tick s" n k] by simp

lemma handler_other:
  assumes net: "net_set n k s" and w: "waiting s" and q: "gh_spi s = (t, i) # q" "t \<le> gh_now s + gh_cost s" and l: "\<not> timer_level (tick s)"
  shows "\<exists>s'. run_state (stage90_irq_c_handler quiet pc) s = ((), s') \<and> waiting s' \<and> gh_masked s' = gh_masked s \<and>
    stage90_irq_sample_budget_used s' = stage90_irq_sample_budget_used s \<and> gh_cmp s' = gh_cmp s \<and> gh_now s \<le> gh_now s'"
proof -
  have p: "pending_id (tick s) = Some i" using pending_waiting [OF net_tick [OF net] waiting_tick [OF w]] q l by simp
  have i: "i \<noteq> 0" "i \<noteq> 18" "i \<noteq> 19" "i \<noteq> 0x3ff" "i AND 0x3ff = i" using w q by (simp_all add: waiting_def spis_ok_def)
  have "acknowledge (tick s) = (i, (tick s)\<lparr>gh_active := Some i, gh_spi := q\<rparr>)"
    using p i net q by (auto simp: acknowledge_def net_set_def)
  then have run: "run_state (stage90_irq_c_handler quiet pc) s = ((), settle ((tick
      ((sampled pc i (settle ((tick s)\<lparr>gh_active := Some i, gh_spi := q\<rparr>)))
        \<lparr>stage90_other_irq_count := stage90_other_irq_count s + 1\<rparr>))\<lparr>gh_active := None\<rparr>))"
    using net w i by (simp add: stage90_irq_c_handler_def running mmio_read32_def gic_get_iar gic_ids Let_def
        mmio_write32_def gic_set_eoir net_set_def based_def cpuBase_def record_sample_def sampled_def waiting_def)
  have "timed (settle ((tick s)\<lparr>gh_active := Some i, gh_spi := q\<rparr>))"
    by (intro timed_update [OF timed_tick [OF waiting_timed [OF w]]]) simp_all
  then have t2: "timed ((sampled pc i (settle ((tick s)\<lparr>gh_active := Some i, gh_spi := q\<rparr>)))\<lparr>stage90_other_irq_count := stage90_other_irq_count s + 1\<rparr>)"
    by (auto simp add: timed_def timer_pending_def timer_level_def split: if_splits)
  have "timed (settle ((tick ((sampled pc i (settle ((tick s)\<lparr>gh_active := Some i, gh_spi := q\<rparr>)))
        \<lparr>stage90_other_irq_count := stage90_other_irq_count s + 1\<rparr>))\<lparr>gh_active := None\<rparr>))"
    by (rule timed_update [OF timed_tick [OF t2]]) simp_all
  then show ?thesis using run w q by (simp add: waiting_def spis_ok_def)
qed


subsection \<open>The net over time\<close>

definition net_armed :: "u32 \<Rightarrow> u32 \<Rightarrow> gic_sys \<Rightarrow> bool" where
  "net_armed n k s = (net_set n k s \<and> waiting s \<and> \<not> gh_masked s)"

abbreviation used :: "gic_sys \<Rightarrow> u32" where "used \<equiv> stage90_irq_sample_budget_used"

text \<open>What one interrupt does, taken at \<open>s\<close>.\<close>

definition irq_outcome :: "u32 \<Rightarrow> u32 \<Rightarrow> gic_sys \<Rightarrow> gic_sys \<Rightarrow> bool" where
  "irq_outcome n k s s' =
    (net_armed n k s' \<and> used s' = used s \<and> gh_cmp s' = gh_cmp s \<and> gh_now s \<le> gh_now s'
   \<or> used s + 1 < n \<and> net_armed n k s' \<and> used s' = used s + 1 \<and> gh_cmp s + unat k \<le> gh_cmp s' \<and> gh_cmp s' \<le> gh_now s' + unat k
   \<or> \<not> used s + 1 < n \<and> gh_rebooted s' \<and> gh_cmp s \<le> gh_now s')"

lemma net_mask: "net_set n k (s\<lparr>gh_masked := b\<rparr>) = net_set n k s" "waiting (s\<lparr>gh_masked := b\<rparr>) = waiting s"
  by (auto simp: settings_net [OF settings_kept(5)] waiting_def timed_def timer_pending_def spis_ok_def)

lemma handler_net: "net_set n k s \<Longrightarrow> net_set n k (snd (run_state (stage90_irq_c_handler quiet pc) s))"
  using handler_leaves_settings [of pc] settings_net [of "snd (run_state (stage90_irq_c_handler quiet pc) s)" s n k]
  by (simp add: leaves_def net_set_def)

lemma irq_outcome_entry:
  assumes armed: "net_armed n k s" and p: "pending_id s \<noteq> None"
  shows "irq_outcome n k s (irq_entry s) \<and> (timer_level s \<longrightarrow> \<not> (used (irq_entry s) = used s \<and> net_armed n k (irq_entry s)))"
proof -
  define x where "x = s\<lparr>gh_masked := True\<rparr>"
  define e where "e = snd (run_state (stage90_irq_c_handler quiet (gh_pc s (gh_now s))) x)"
  have net: "net_set n k x" and w: "waiting x" using armed by (simp_all add: x_def net_mask net_armed_def)
  have entry: "irq_entry s = (if gh_rebooted e then e else e\<lparr>gh_masked := False\<rparr>)"
    using armed by (simp add: irq_entry_def Let_def e_def x_def net_armed_def)
  have en: "net_set n k e" using handler_net [OF net] by (simp add: e_def)
  have live: "gh_rebooted e = False \<Longrightarrow> waiting e \<Longrightarrow> net_armed n k (irq_entry s)"
    using en by (simp add: entry net_armed_def net_mask)
  show ?thesis
  proof (cases "timer_level (tick x)")
    case level: True
    then have pt: "pending_id (tick x) = Some (gh_ppi x)" using pending_waiting [OF net_tick [OF net] waiting_tick [OF w]] by simp
    have cmp: "gh_cmp s \<le> gh_now x + gh_cost x" using level by (simp add: level_tick x_def)
    show ?thesis
    proof (cases "used x + 1 < n")
      case True
      then obtain s' where "run_state (stage90_irq_c_handler quiet (gh_pc s (gh_now s))) x = ((), s')" "waiting s'" "used s' = used x + 1"
        "gh_now x + gh_cost x + unat k \<le> gh_cmp s'" "gh_cmp s' \<le> gh_now s' + unat k"
        using handler_timer [OF net w pt level True] by blast
      then have f: "waiting e" "used e = used s + 1" "gh_now x + gh_cost x + unat k \<le> gh_cmp e" "gh_cmp e \<le> gh_now e + unat k"
        by (simp_all add: e_def x_def)
      have "\<not> gh_rebooted e" using f(1) by (simp add: waiting_def)
      then show ?thesis using live f cmp True by (simp add: irq_outcome_def entry) (simp add: x_def)
    next
      case False
      have "gh_rebooted e" "gh_now x + gh_cost x \<le> gh_now e"
        using handler_last [OF net w pt False, of "gh_pc s (gh_now s)"] by (simp_all add: e_def)
      then show ?thesis using False cmp by (simp add: irq_outcome_def entry net_armed_def waiting_def) (simp add: x_def)
    qed
  next
    case False
    then have low: "\<not> timer_level s" using level_mono [of x] by (auto simp: x_def)
    obtain t i q where q: "gh_spi x = (t, i) # q" "t \<le> gh_now x"
      using p pending_waiting [of n k s] armed low by (auto simp: net_armed_def x_def split: list.splits if_splits)
    obtain s' where "run_state (stage90_irq_c_handler quiet (gh_pc s (gh_now s))) x = ((), s')" "waiting s'" "used s' = used x"
      "gh_cmp s' = gh_cmp x" "gh_now x \<le> gh_now s'"
      using handler_other [OF net w q(1) _ False] q(2) by (meson trans_le_add1)
    then have f: "waiting e" "used e = used s" "gh_cmp e = gh_cmp s" "gh_now s \<le> gh_now e" by (simp_all add: e_def x_def)
    have "\<not> gh_rebooted e" using f(1) by (simp add: waiting_def)
    then show ?thesis using live f low by (simp add: irq_outcome_def entry)
  qed
qed


lemma payload_step_alive:
  assumes "\<not> gh_rebooted s" and "\<not> gh_masked s"
  shows "payload_step s = (if pending_id (tick s) = None then tick s else irq_entry (tick s))"
  using assms by (simp add: payload_step_def run_device take_irq_def)

lemma payload_step_dead: "gh_rebooted s \<Longrightarrow> (payload_step ^^ m) s = s"
  by (induction m) (simp_all add: payload_step_def run_device)

text \<open>One step: before the compare value time passes and the budget stays; from it on a sample is counted.\<close>

lemma payload_step_armed:
  assumes armed: "net_armed n k s"
  shows "irq_outcome n k s (payload_step s)"
    and "gh_cmp s \<le> gh_now s + gh_cost s \<Longrightarrow> \<not> (used (payload_step s) = used s \<and> net_armed n k (payload_step s))"
    and "used (payload_step s) = used s \<Longrightarrow> net_armed n k (payload_step s) \<Longrightarrow> gh_now s < gh_now (payload_step s)"
proof -
  define h where "h = tick s"
  have net: "net_set n k h" and w: "waiting h" and m: "\<not> gh_masked h"
    using armed net_tick waiting_tick by (simp_all add: net_armed_def h_def)
  have h: "net_armed n k h" using net w m by (simp add: net_armed_def)
  have alive: "\<not> gh_rebooted s" "\<not> gh_masked s" "0 < gh_cost s" "gh_ctl s AND 3 = 1"
    using armed by (simp_all add: net_armed_def waiting_def net_set_def)
  have hs: "used h = used s" "gh_cmp h = gh_cmp s" "gh_now h = gh_now s + gh_cost s" by (simp_all add: h_def)
  have l: "timer_level h = (gh_cmp s \<le> gh_now s + gh_cost s)" using alive by (simp add: h_def level_tick)
  have step: "payload_step s = (if pending_id h = None then h else irq_entry h)"
    using payload_step_alive alive by (simp add: h_def)
  have p: "timer_level h \<Longrightarrow> pending_id h \<noteq> None" using pending_waiting [OF net w] by simp
  show "irq_outcome n k s (payload_step s)"
    using irq_outcome_entry [OF h] h hs step unfolding irq_outcome_def by (auto split: if_splits)
  show "gh_cmp s \<le> gh_now s + gh_cost s \<Longrightarrow> \<not> (used (payload_step s) = used s \<and> net_armed n k (payload_step s))"
    using irq_outcome_entry [OF h] p l hs step by auto
  show "used (payload_step s) = used s \<Longrightarrow> net_armed n k (payload_step s) \<Longrightarrow> gh_now s < gh_now (payload_step s)"
    using irq_outcome_entry [OF h] hs step alive unfolding irq_outcome_def
    by (auto split: if_splits simp: net_armed_def waiting_def)
qed

text \<open>The earliest reset: every sample takes a whole interval.\<close>

definition net_since :: "u32 \<Rightarrow> u32 \<Rightarrow> nat \<Rightarrow> gic_sys \<Rightarrow> bool" where
  "net_since n k t s = (if gh_rebooted s then t + unat n * unat k \<le> gh_now s
     else net_armed n k s \<and> used s < n \<and> t + (unat (used s) + 1) * unat k \<le> gh_cmp s)"

lemma next_used: "used s < n \<Longrightarrow> unat (used s + 1) = unat (used s) + 1" for n :: u32
proof -
  assume "used s < n"
  then have "unat (used s) + 1 \<le> unat n" by (simp add: word_less_nat_alt)
  then have "unat (used s) + 1 < 4294967296" by (rule le_less_trans) simp
  then show ?thesis by (subst unat_plus_u32_small) simp_all
qed

lemma net_since_step:
  assumes "net_since n k t s"
  shows "net_since n k t (payload_step s)"
proof (cases "gh_rebooted s")
  case True
  then show ?thesis using assms payload_step_dead [of s 1] by simp
next
  case False
  then have armed: "net_armed n k s" and u: "used s < n" and t: "t + (unat (used s) + 1) * unat k \<le> gh_cmp s"
    using assms by (simp_all add: net_since_def)
  have live: "net_armed n k x \<Longrightarrow> \<not> gh_rebooted x" for x by (simp add: net_armed_def waiting_def)
  from payload_step_armed(1) [OF armed] show ?thesis unfolding irq_outcome_def
  proof (elim disjE conjE)
    assume "net_armed n k (payload_step s)" "used (payload_step s) = used s" "gh_cmp (payload_step s) = gh_cmp s"
    then show ?thesis using live u t by (simp add: net_since_def)
  next
    assume "used s + 1 < n" "net_armed n k (payload_step s)" "used (payload_step s) = used s + 1"
      "gh_cmp s + unat k \<le> gh_cmp (payload_step s)"
    then show ?thesis using live t next_used [OF u] by (simp add: net_since_def algebra_simps)
  next
    assume r: "\<not> used s + 1 < n" "gh_rebooted (payload_step s)" "gh_cmp s \<le> gh_now (payload_step s)"
    have "unat n = unat (used s) + 1" using r(1) u next_used [OF u] by (simp add: word_less_nat_alt)
    then show ?thesis using r t by (simp add: net_since_def)
  qed
qed

lemma net_since_steps: "net_since n k t s \<Longrightarrow> net_since n k t ((payload_step ^^ m) s)"
  by (induction m) (simp_all add: net_since_step)

text \<open>The latest: within an interval of steps a sample is counted.\<close>

lemma net_counts:
  assumes "net_armed n k s" and "gh_cmp s \<le> gh_now s + d"
  shows "\<exists>m \<le> d + 1. \<not> used s + 1 < n \<and> gh_rebooted ((payload_step ^^ m) s)
    \<or> used s + 1 < n \<and> net_armed n k ((payload_step ^^ m) s) \<and> used ((payload_step ^^ m) s) = used s + 1 \<and>
      gh_cmp ((payload_step ^^ m) s) \<le> gh_now ((payload_step ^^ m) s) + unat k"
  using assms
proof (induction d arbitrary: s rule: less_induct)
  case (less d)
  let ?s = "payload_step s"
  note out = payload_step_armed(1) [OF less.prems(1), unfolded irq_outcome_def]
  show ?case
  proof (cases "net_armed n k ?s \<and> used ?s = used s")
    case False
    then show ?thesis using out by (intro exI [of _ 1]) auto
  next
    case True
    then have now: "gh_now s < gh_now ?s" and late: "\<not> gh_cmp s \<le> gh_now s + gh_cost s" and cmp: "gh_cmp ?s = gh_cmp s"
      using payload_step_armed(2,3) [OF less.prems(1)] out by (auto simp: net_armed_def waiting_def)
    have d: "0 < d" "gh_cmp ?s \<le> gh_now ?s + (d - 1)" using now late cmp less.prems(2) by linarith+
    obtain m where "m \<le> d - 1 + 1" "\<not> used ?s + 1 < n \<and> gh_rebooted ((payload_step ^^ m) ?s)
      \<or> used ?s + 1 < n \<and> net_armed n k ((payload_step ^^ m) ?s) \<and> used ((payload_step ^^ m) ?s) = used ?s + 1 \<and>
        gh_cmp ((payload_step ^^ m) ?s) \<le> gh_now ((payload_step ^^ m) ?s) + unat k"
      using less.IH [OF _ _ d(2)] True d(1) by auto
    then show ?thesis using True d by (intro exI [of _ "Suc m"]) (simp only: funpow_Suc_right o_apply, simp)
  qed
qed

lemma net_fires:
  assumes "net_armed n k s" and "gh_cmp s \<le> gh_now s + unat k" and "unat n = unat (used s) + r" and "0 < r"
  shows "\<exists>m \<le> r * (unat k + 1). gh_rebooted ((payload_step ^^ m) s)"
  using assms
proof (induction r arbitrary: s)
  case 0
  then show ?case by simp
next
  case (Suc r)
  have u: "used s < n" using Suc.prems by (simp add: word_less_nat_alt)
  obtain m where m: "m \<le> unat k + 1" "\<not> used s + 1 < n \<and> gh_rebooted ((payload_step ^^ m) s)
    \<or> used s + 1 < n \<and> net_armed n k ((payload_step ^^ m) s) \<and> used ((payload_step ^^ m) s) = used s + 1 \<and>
      gh_cmp ((payload_step ^^ m) s) \<le> gh_now ((payload_step ^^ m) s) + unat k"
    using net_counts [OF Suc.prems(1,2)] by auto
  show ?case
  proof (cases "used s + 1 < n")
    case False
    then show ?thesis using m by (intro exI [of _ m]) auto
  next
    case True
    then have "unat n = unat (used ((payload_step ^^ m) s)) + r" "0 < r"
      using m Suc.prems(3) next_used [OF u] by (auto simp: word_less_nat_alt)
    then obtain m' where "m' \<le> r * (unat k + 1)" "gh_rebooted ((payload_step ^^ m') ((payload_step ^^ m) s))"
      using Suc.IH [of "(payload_step ^^ m) s"] m True by auto
    then show ?thesis using m(1) by (intro exI [of _ "m' + m"]) (simp add: funpow_add)
  qed
qed

end
