(* ===== verification/Payload_Arming.thy ===== *)
theory Payload_Arming
  imports Payload_Deadman
begin

text \<open>
  Arming the dead-man of theory Payload_Gic: from a calm processor (\<open>calm\<close>) the arming sequence ends with the net on
  (\<open>net_on\<close>, \<open>net_since\<close>), whatever interrupts arrive once they are enabled.
\<close>

unbundle bit_operations_syntax

subsection \<open>Arming\<close>

lemma take_irq_masked: "gh_masked s \<Longrightarrow> run_state take_irq s = ((), s)"
  by (simp add: take_irq_def)

lemma ensures_masked:
  assumes "\<And>s. P s \<Longrightarrow> \<not> gh_rebooted s \<and> gh_masked (snd (f (tick s))) \<and> Q (fst (f (tick s))) (settle (snd (f (tick s))))"
  shows "ensures P (device take_irq f) Q"
  unfolding ensures_def
proof (intro allI impI)
  fix s assume "P s"
  then show "case run_state (device take_irq f) s of (x, s') \<Rightarrow> Q x s'"
    using assms [of s] by (simp add: run_device take_irq_masked)
qed

text \<open>The processor with interrupts masked and nothing under way at the timer.\<close>

definition calm :: "gic_sys \<Rightarrow> bool" where
  "calm s = (gh_masked s \<and> based s \<and> \<not> gh_rebooted s \<and> gh_active s = None \<and> \<not> gh_sgi0 s \<and> spis_ok s \<and> gh_ppi s \<in> {18, 19} \<and>
     0 < gh_cost s \<and> \<not> gh_latch s \<and> gh_ctl s AND 3 \<noteq> 1)"

definition calm_on :: "nat \<Rightarrow> gic_sys \<Rightarrow> bool" where
  "calm_on t s = (calm s \<and> t \<le> gh_now s \<and> gh_dist_ctlr s AND 1 \<noteq> 0 \<and> gh_cpu_ctlr s AND 1 \<noteq> 0)"

lemma calm_tick: "calm s \<Longrightarrow> calm (tick s)"
  using settings_based [of s "tick s"] by (simp add: calm_def spis_ok_def latch_tick level_tick)

lemma calm_settle: "calm s \<Longrightarrow> calm (settle s)"
  using settings_based [of s "settle s"] by (simp add: calm_def spis_ok_def latch_settle) (simp add: timer_level_def)

lemma calm_on_tick: "calm_on t s \<Longrightarrow> calm_on t (tick s)"
  using calm_tick [of s] by (simp add: calm_on_def)

lemma calm_on_settle: "calm_on t s \<Longrightarrow> calm_on t (settle s)"
  using calm_settle [of s] by (simp add: calm_on_def)

lemma or_one: "(x OR 1) AND 1 \<noteq> (0 :: u32)"
proof -
  have "bit ((x OR 1) AND 1) 0" by (simp add: bit_simps)
  then show ?thesis by auto
qed

lemma gic_get_ctlr:
  "gic_get (GICD_BASE + 0) s = (gh_dist_ctlr s, s)" "gic_get (GICC_BASE + 0) s = (gh_cpu_ctlr s, s)"
  by (simp_all add: gic_get_def gic_addresses)

lemma gic_set_ctlr:
  "gic_set (GICD_BASE + 0) v s = s\<lparr>gh_dist_ctlr := v\<rparr>" "gic_set (GICC_BASE + 0) v s = s\<lparr>gh_cpu_ctlr := v\<rparr>"
  "gic_set (GICD_BASE + GICD_ISENABLER0) v s = s\<lparr>gh_enable := gh_enable s OR v\<rparr>"
  by (simp_all add: gic_set_def gic_addresses)

lemma calm_ctlr: "calm s \<Longrightarrow> calm (s\<lparr>gh_dist_ctlr := v\<rparr>)" "calm s \<Longrightarrow> calm (s\<lparr>gh_cpu_ctlr := v\<rparr>)" "calm s \<Longrightarrow> calm (s\<lparr>gh_enable := v\<rparr>)"
  by (simp_all add: calm_def based_def distBase_def cpuBase_def spis_ok_def)

definition deadman_on :: "(gic_sys, u32) state" where
  "deadman_on = do {
       missing \<leftarrow> vars (\<lambda>s. distBase s = 0 \<or> cpuBase s = 0);
       (if missing then gic_readonly_snapshot take_irq GICD_BASE GICC_BASE else State_Monad.return ());
       dist_base \<leftarrow> vars distBase;
       cpu_base \<leftarrow> vars cpuBase;
       dist_ctlr \<leftarrow> mmio_read32 take_irq (dist_base + 0);
       cpu_ctlr \<leftarrow> mmio_read32 take_irq (cpu_base + 0);
       (if dist_ctlr AND 1 = 0 then mmio_write32 take_irq (dist_base + 0) (dist_ctlr OR 1) else State_Monad.return ());
       (if cpu_ctlr AND 1 = 0 then mmio_write32 take_irq (cpu_base + 0) (cpu_ctlr OR 1) else State_Monad.return ());
       mmio_read32 take_irq (dist_base + 0);
       mmio_read32 take_irq (cpu_base + 0)
     }"

lemma deadman_on_run:
  "stage90_arm_deadman_reset True take_irq = State_Monad.bind deadman_on (\<lambda>_. do {
       armed \<leftarrow> stage90_arm_pc_sampling_watchdog take_irq STAGE90_DEADMAN_INTERVAL_US STAGE90_DEADMAN_SAMPLES;
       if \<not> armed then State_Monad.return False
       else do { upd (\<lambda>s. s\<lparr>g_stage90_deadman_armed := 1\<rparr>); State_Monad.return True }
     })"
  by (simp only: stage90_arm_deadman_reset_def deadman_on_def bind_assoc not_True_eq_False if_False)

lemma deadman_switches_on:
  "ensures (\<lambda>s. calm s \<and> t \<le> gh_now s) deadman_on (\<lambda>_. calm_on t)"
proof -
  have b: "distBase s = GICD_BASE \<and> cpuBase s = GICC_BASE \<and> gh_masked s \<and> \<not> gh_rebooted s" if "calm s" for s
    using that by (simp add: calm_def based_def)
  have alive: "run_state (mmio_read32 take_irq (GICD_BASE + 0)) s = (gh_dist_ctlr s, tick s)"
    "run_state (mmio_read32 take_irq (GICC_BASE + 0)) s = (gh_cpu_ctlr s, tick s)"
    "run_state (mmio_write32 take_irq (GICD_BASE + 0) v) s = ((), settle ((tick s)\<lparr>gh_dist_ctlr := v\<rparr>))"
    "run_state (mmio_write32 take_irq (GICC_BASE + 0) v) s = ((), settle ((tick s)\<lparr>gh_cpu_ctlr := v\<rparr>))"
    if "calm s" for s v
    using b [OF that] by (simp_all add: mmio_read32_def mmio_write32_def run_device gic_get_ctlr gic_set_ctlr take_irq_masked
        del: add_0_right)
  have c: "calm s \<Longrightarrow> calm (settle ((tick s)\<lparr>gh_dist_ctlr := v\<rparr>))" "calm s \<Longrightarrow> calm (settle ((tick s)\<lparr>gh_cpu_ctlr := v\<rparr>))" for s v
    by (rule calm_settle, rule calm_ctlr, erule calm_tick)+
  have nz: "GICD_BASE \<noteq> 0" "GICC_BASE \<noteq> 0" by (simp_all add: gic_addresses)
  show ?thesis
    unfolding ensures_def deadman_on_def
    by (simp add: run_bind run_vars run_return b nz alive calm_tick c or_one calm_on_def del: add_0_right)
qed


lemma calm_ctl: "calm s \<Longrightarrow> c AND 3 \<noteq> 1 \<Longrightarrow> calm (s\<lparr>gh_ctl := c\<rparr>)" "calm s \<Longrightarrow> calm (s\<lparr>gh_cmp := n\<rparr>)" "calm s \<Longrightarrow> calm (s\<lparr>gh_masked := True\<rparr>)"
  by (simp_all add: calm_def based_def distBase_def cpuBase_def spis_ok_def)

lemma stopped_ctl: "((c OR CNTP_CTL_IMASK) AND NOT CNTP_CTL_ENABLE) AND 3 \<noteq> (1 :: u32)"
proof
  assume "((c OR CNTP_CTL_IMASK) AND NOT CNTP_CTL_ENABLE) AND 3 = (1 :: u32)"
  then have "bit (((c OR CNTP_CTL_IMASK) AND NOT CNTP_CTL_ENABLE) AND 3) 0" by simp
  then show False by (simp add: CNTP_CTL_ENABLE_def bit_simps)
qed

lemma ppi_mask_on: "(e OR GIC_TIMER_PPI_MASK) AND push_bit (unat i) 1 \<noteq> (0 :: u32)" if "i \<in> {18, 19 :: u32}"
proof -
  have "bit ((e OR GIC_TIMER_PPI_MASK) AND push_bit (unat i) 1) (unat i)"
    using that by (auto simp: GIC_TIMER_PPI_MASK_def bit_simps)
  then show ?thesis by auto
qed

text \<open>Just before interrupts are enabled.\<close>

definition ready :: "u32 \<Rightarrow> u32 \<Rightarrow> nat \<Rightarrow> gic_sys \<Rightarrow> bool" where
  "ready n k t s = (net_set n k s \<and> waiting s \<and> gh_masked s \<and> used s = 0 \<and> t + unat k \<le> gh_cmp s \<and> gh_cmp s \<le> gh_now s + unat k)"

lemma reset_fields [simp]:
  "gh_rebooted (reset_irq_counters s) = gh_rebooted s" "gh_masked (reset_irq_counters s) = gh_masked s" "used (reset_irq_counters s) = 0"
  by (simp_all add: reset_irq_counters_def)

lemma calm_statics: "gic_hw.truncate s' = gic_hw.truncate s \<Longrightarrow> GIC_state_stage90 s' = GIC_state_stage90 s \<Longrightarrow> calm_on t s \<Longrightarrow> calm_on t s'"
  by (simp add: calm_on_def calm_def based_def distBase_def cpuBase_def spis_ok_def gic_hw.truncate_def)

definition to_arm :: "u32 \<Rightarrow> u32 \<Rightarrow> nat \<Rightarrow> gic_sys \<Rightarrow> bool" where
  "to_arm n k t s = (calm_on t s \<and> gh_enable s AND ppi_bit s \<noteq> 0 \<and> stage90_irq_sample_mode s = 1 \<and>
     stage90_irq_sample_interval_ticks s = k \<and> stage90_irq_sample_max s = n \<and> used s = 0)"

lemma watchdog_prepares:
  "ensures (calm_on t) (do {
     disable_irq_delivery take_irq;
     generic_timer_shutdown take_irq;
     upd (\<lambda>s. (reset_irq_counters s)\<lparr>stage90_irq_sample_watchdog_fired := 0, stage90_irq_sample_interval_ticks := k,
       stage90_irq_sample_max := n, stage90_irq_sample_mode := 0\<rparr>)
   }) (\<lambda>_ s. calm_on t s \<and> stage90_irq_sample_interval_ticks s = k \<and> stage90_irq_sample_max s = n \<and> used s = 0)"
proof -
  have b: "calm_on t s \<Longrightarrow> gh_masked s \<and> \<not> gh_rebooted s" for s by (simp add: calm_on_def calm_def)
  have shut: "calm_on t (settle ((tick s)\<lparr>gh_ctl := ((ctl OR CNTP_CTL_IMASK) AND NOT CNTP_CTL_ENABLE) AND 3\<rparr>))" if "calm_on t s" for s ctl
    using calm_settle [OF calm_ctl(1) [OF calm_tick]] stopped_ctl [of ctl] that by (simp add: calm_on_def and.assoc)
  have mask: "calm_on t (settle ((tick s)\<lparr>gh_masked := True\<rparr>))" if "calm_on t s" for s
    using calm_settle [OF calm_ctl(3) [OF calm_tick]] that by (simp add: calm_on_def)
  have reset: "calm_on t ((reset_irq_counters s)\<lparr>stage90_irq_sample_watchdog_fired := 0, stage90_irq_sample_interval_ticks := k,
       stage90_irq_sample_max := n, stage90_irq_sample_mode := 0\<rparr>)" if "calm_on t s" for s
    by (rule calm_statics [OF _ _ that]) (simp_all add: reset_irq_counters_def gic_hw.truncate_def)
  show ?thesis
    unfolding ensures_def disable_irq_delivery_def generic_timer_shutdown_def read_cntp_ctl_def write_cntp_ctl_def Let_def
    by (simp add: running b take_irq_masked mask calm_on_tick shut reset)
qed


lemma calm_ready:
  assumes c: "calm_on t s" and e: "gh_enable s AND ppi_bit s \<noteq> 0" and k: "0 < unat k" "unat k < 2 ^ 31"
    and st: "stage90_irq_sample_mode s = 1" "stage90_irq_sample_interval_ticks s = k" "stage90_irq_sample_max s = n" "used s = 0"
  shows "ready n k t (settle ((tick (settle ((tick s)\<lparr>gh_cmp := gh_now s + gh_cost s + unat k\<rparr>)))\<lparr>gh_ctl := 1\<rparr>))"
proof -
  define u where "u = settle ((tick s)\<lparr>gh_cmp := gh_now s + gh_cost s + unat k\<rparr>)"
  have u: "calm_on t u"
    using calm_settle [OF calm_ctl(2) [OF calm_tick]] c by (simp add: calm_on_def u_def)
  have lu: "calm_on t (tick u)" "\<not> gh_latch (tick u)" "\<not> timer_level (tick u)"
    using calm_on_tick [OF u] by (simp_all add: calm_on_def calm_def timer_level_def)
  have t: "timed (settle ((tick u)\<lparr>gh_ctl := 1\<rparr>))" using lu by (intro timed_settle) simp_all
  have "net_set n k (settle ((tick u)\<lparr>gh_ctl := 1\<rparr>))"
    using c e k st by (simp add: net_set_def calm_on_def calm_def based_def distBase_def cpuBase_def u_def ppi_bit_def)
  moreover have "waiting (settle ((tick u)\<lparr>gh_ctl := 1\<rparr>))"
    using t c by (simp add: waiting_def calm_on_def calm_def spis_ok_def u_def)
  ultimately show ?thesis using c st by (simp add: ready_def u_def calm_on_def calm_def)
qed

lemma watchdog_starts:
  assumes k: "0 < unat k" "unat k < 2 ^ 31"
  shows "ensures (\<lambda>s. calm_on t s \<and> stage90_irq_sample_interval_ticks s = k \<and> stage90_irq_sample_max s = n \<and> used s = 0) (do {
     upd (\<lambda>s. s\<lparr>stage90_irq_sample_mode := 1\<rparr>);
     mmio_write32 take_irq (GICD_BASE + GICD_ISENABLER0) GIC_TIMER_PPI_MASK;
     write_cntp_tval take_irq k;
     write_cntp_ctl take_irq CNTP_CTL_ENABLE
   }) (\<lambda>_. ready n k t)"
  unfolding ensures_def
proof (intro allI impI)
  fix s assume P: "calm_on t s \<and> stage90_irq_sample_interval_ticks s = k \<and> stage90_irq_sample_max s = n \<and> used s = 0"
  then have b: "gh_masked s" "\<not> gh_rebooted s" "gh_ppi s \<in> {18, 19}" by (simp_all add: calm_on_def calm_def)
  define a where "a = settle ((tick (s\<lparr>stage90_irq_sample_mode := 1\<rparr>))\<lparr>gh_enable := gh_enable s OR GIC_TIMER_PPI_MASK\<rparr>)"
  have "calm_on t (s\<lparr>stage90_irq_sample_mode := 1\<rparr>)"
    by (rule calm_statics [OF _ _ P [THEN conjunct1]]) (simp_all add: gic_hw.truncate_def)
  then have ca: "calm_on t a" using calm_settle [OF calm_ctlr(3) [OF calm_tick]] by (simp add: calm_on_def a_def)
  have run: "run_state (do {
     upd (\<lambda>s. s\<lparr>stage90_irq_sample_mode := 1\<rparr>);
     mmio_write32 take_irq (GICD_BASE + GICD_ISENABLER0) GIC_TIMER_PPI_MASK;
     write_cntp_tval take_irq k;
     write_cntp_ctl take_irq CNTP_CTL_ENABLE
   }) s = ((), settle ((tick (settle ((tick a)\<lparr>gh_cmp := gh_now a + gh_cost a + unat k\<rparr>)))\<lparr>gh_ctl := 1\<rparr>))"
    using b k by (simp add: running mmio_write32_def write_cntp_tval_def write_cntp_ctl_def gic_set_ctlr take_irq_masked a_def CNTP_CTL_ENABLE_def)
  have "gh_enable a AND ppi_bit a \<noteq> 0" using ppi_mask_on [OF b(3), of "gh_enable s"] by (simp add: a_def ppi_bit_def)
  then have "ready n k t (settle ((tick (settle ((tick a)\<lparr>gh_cmp := gh_now a + gh_cost a + unat k\<rparr>)))\<lparr>gh_ctl := 1\<rparr>))"
    using P by (intro calm_ready ca k) (simp_all add: a_def)
  then show "case run_state (do {
     upd (\<lambda>s. s\<lparr>stage90_irq_sample_mode := 1\<rparr>);
     mmio_write32 take_irq (GICD_BASE + GICD_ISENABLER0) GIC_TIMER_PPI_MASK;
     write_cntp_tval take_irq k;
     write_cntp_ctl take_irq CNTP_CTL_ENABLE
   }) s of (x, s') \<Rightarrow> ready n k t s'"
    by (simp only: run prod.case)
qed

text \<open>From there the net is armed, and the two accesses that follow are steps like any other.\<close>

lemma ready_armed:
  assumes "ready n k t s" and "0 < n"
  shows "net_armed n k (s\<lparr>gh_masked := False\<rparr>)" and "net_since n k t (s\<lparr>gh_masked := False\<rparr>)"
proof -
  have "waiting s" "\<not> gh_rebooted s" using assms by (simp_all add: ready_def waiting_def)
  then show "net_armed n k (s\<lparr>gh_masked := False\<rparr>)" "net_since n k t (s\<lparr>gh_masked := False\<rparr>)"
    using assms by (simp_all add: ready_def net_armed_def net_mask net_since_def)
qed

lemma tick_mask: "tick (s\<lparr>gh_masked := b\<rparr>) = (tick s)\<lparr>gh_masked := b\<rparr>"
  by (simp add: tick_def settle_def timer_level_def)

lemma settle_mask: "settle (s\<lparr>gh_masked := b\<rparr>) = (settle s)\<lparr>gh_masked := b\<rparr>"
  by (simp add: settle_def timer_level_def)

lemma enable_step: "gh_masked s \<Longrightarrow> \<not> gh_rebooted s \<Longrightarrow>
    run_state (enable_irq_delivery take_irq) s = ((), payload_step (s\<lparr>gh_masked := False\<rparr>))"
  by (simp add: enable_irq_delivery_def run_device payload_step_def tick_mask settle_mask)

lemma read_step: "snd (run_state (read_cntp_ctl take_irq) s) = payload_step s"
  by (simp add: read_cntp_ctl_def run_device payload_step_def)


text \<open>The whole arming, from a calm processor: the two parts and the two steps.\<close>

lemma deadman_run:
  assumes c: "calm s" and k: "k = timebase_usec_to_ticks STAGE90_DEADMAN_INTERVAL_US" "0 < unat k" "unat k < 2 ^ 31"
  shows "\<exists>e. ready STAGE90_DEADMAN_SAMPLES k (gh_now s) e \<and>
    run_state (stage90_arm_deadman_reset True take_irq) s =
      (let s1 = payload_step (payload_step (e\<lparr>gh_masked := False\<rparr>))
       in (True, if gh_rebooted s1 then s1 else s1\<lparr>g_stage90_deadman_armed := 1\<rparr>))"
proof -
  obtain x s1 where s1: "run_state deadman_on s = (x, s1)" by (rule prod.exhaust)
  then have c1: "calm_on (gh_now s) s1" using ensuresD [OF deadman_switches_on [of "gh_now s"] _ s1] c by simp
  obtain y s2 where s2: "run_state (do {
     disable_irq_delivery take_irq;
     generic_timer_shutdown take_irq;
     upd (\<lambda>s. (reset_irq_counters s)\<lparr>stage90_irq_sample_watchdog_fired := 0, stage90_irq_sample_interval_ticks := k,
       stage90_irq_sample_max := STAGE90_DEADMAN_SAMPLES, stage90_irq_sample_mode := 0\<rparr>)
   }) s1 = (y, s2)" by (rule prod.exhaust)
  note c2 = ensuresD [OF watchdog_prepares c1 s2]
  obtain z e where e: "run_state (do {
     upd (\<lambda>s. s\<lparr>stage90_irq_sample_mode := 1\<rparr>);
     mmio_write32 take_irq (GICD_BASE + GICD_ISENABLER0) GIC_TIMER_PPI_MASK;
     write_cntp_tval take_irq k;
     write_cntp_ctl take_irq CNTP_CTL_ENABLE
   }) s2 = (z, e)" by (rule prod.exhaust)
  note r = ensuresD [OF watchdog_starts [OF k(2,3)] c2 e]
  have b1: "distBase s1 = GICD_BASE" "cpuBase s1 = GICC_BASE" "GICD_BASE \<noteq> 0" "GICC_BASE \<noteq> 0"
    using c1 by (simp_all add: calm_on_def calm_def based_def gic_addresses)
  have e1: "gh_masked e" "\<not> gh_rebooted e" using r by (simp_all add: ready_def waiting_def)
  define s5 where "s5 = payload_step (payload_step (e\<lparr>gh_masked := False\<rparr>))"
  obtain v where v: "run_state (read_cntp_ctl take_irq) (payload_step (e\<lparr>gh_masked := False\<rparr>)) = (v, s5)"
    using read_step [of "payload_step (e\<lparr>gh_masked := False\<rparr>)"] by (metis prod.collapse s5_def)
  have arm: "run_state (stage90_arm_pc_sampling_watchdog take_irq STAGE90_DEADMAN_INTERVAL_US STAGE90_DEADMAN_SAMPLES) s1 = (True, s5)"
    using s2 e b1 v enable_step [OF e1]
    by (simp add: stage90_arm_pc_sampling_watchdog_def run_bind run_vars run_return k(1) Let_def split: prod.splits)
  have "run_state (stage90_arm_deadman_reset True take_irq) s = (True, if gh_rebooted s5 then s5 else s5\<lparr>g_stage90_deadman_armed := 1\<rparr>)"
    using s1 arm by (simp add: deadman_on_run run_bind run_return run_upd)
  then show ?thesis using r by (intro exI [of _ e]) (simp add: s5_def Let_def)
qed


definition net_on :: "u32 \<Rightarrow> u32 \<Rightarrow> gic_sys \<Rightarrow> bool" where
  "net_on n k s = (gh_rebooted s \<or> net_armed n k s \<and> used s < n \<and> gh_cmp s \<le> gh_now s + unat k)"

lemma net_on_step: "net_on n k s \<Longrightarrow> net_on n k (payload_step s)"
  using payload_step_armed(1) [of n k s] payload_step_dead [of s 1] unfolding net_on_def irq_outcome_def
  by (cases "gh_rebooted s") auto

lemma net_flag: "net_armed n k (s\<lparr>g_stage90_deadman_armed := v\<rparr>) = net_armed n k s"
  by (simp add: net_armed_def net_set_def based_def distBase_def cpuBase_def ppi_bit_def waiting_def timed_def timer_pending_def
      timer_level_def spis_ok_def)

lemma net_on_fires:
  assumes "net_on n k s"
  shows "\<exists>m \<le> unat n * (unat k + 1). gh_rebooted ((payload_step ^^ m) s)"
proof (cases "gh_rebooted s")
  case True
  then show ?thesis by (intro exI [of _ 0]) simp
next
  case False
  then have a: "net_armed n k s" "gh_cmp s \<le> gh_now s + unat k" and u: "unat (used s) < unat n"
    using assms by (simp_all add: net_on_def word_less_nat_alt)
  obtain m where m: "m \<le> (unat n - unat (used s)) * (unat k + 1)" "gh_rebooted ((payload_step ^^ m) s)"
    using net_fires [OF a, of "unat n - unat (used s)"] u by auto
  have "m \<le> unat n * (unat k + 1)" using m(1) by (rule le_trans) (rule mult_le_mono1, simp)
  then show ?thesis using m(2) by blast
qed

lemma deadman_net:
  assumes c: "calm s" and k: "k = timebase_usec_to_ticks STAGE90_DEADMAN_INTERVAL_US" "0 < unat k" "unat k < 2 ^ 31"
  shows "\<exists>s1. run_state (stage90_arm_deadman_reset True take_irq) s = (True, s1) \<and>
    (gh_rebooted s1 \<or> g_stage90_deadman_armed s1 = 1) \<and> net_on STAGE90_DEADMAN_SAMPLES k s1 \<and>
    net_since STAGE90_DEADMAN_SAMPLES k (gh_now s) s1"
proof -
  obtain e where r: "ready STAGE90_DEADMAN_SAMPLES k (gh_now s) e"
    and run: "run_state (stage90_arm_deadman_reset True take_irq) s =
      (let s1 = payload_step (payload_step (e\<lparr>gh_masked := False\<rparr>))
       in (True, if gh_rebooted s1 then s1 else s1\<lparr>g_stage90_deadman_armed := 1\<rparr>))"
    using deadman_run [OF c k] by blast
  have n: "0 < STAGE90_DEADMAN_SAMPLES" by (simp add: STAGE90_DEADMAN_SAMPLES_def)
  define s1 where "s1 = payload_step (payload_step (e\<lparr>gh_masked := False\<rparr>))"
  have "net_on STAGE90_DEADMAN_SAMPLES k (e\<lparr>gh_masked := False\<rparr>)"
    using ready_armed(1) [OF r n] r n by (simp add: net_on_def ready_def)
  then have on: "net_on STAGE90_DEADMAN_SAMPLES k s1" unfolding s1_def by (intro net_on_step)
  have since: "net_since STAGE90_DEADMAN_SAMPLES k (gh_now s) s1"
    unfolding s1_def by (intro net_since_step ready_armed(2) [OF r n])
  show ?thesis
  proof (cases "gh_rebooted s1")
    case True
    then show ?thesis using run on since by (simp add: Let_def s1_def [symmetric])
  next
    case False
    then show ?thesis using run on since by (simp add: Let_def s1_def [symmetric] net_on_def net_since_def net_flag)
  qed
qed

end
