(* ===== verification/Payload_Gic_Props.thy ===== *)
theory Payload_Gic_Props
  imports Payload_Arming
begin

text \<open>
  What the payload's dead-man and its self tests guarantee, and what the self tests leave of the dead-man.
\<close>

unbundle bit_operations_syntax

subsection \<open>What the self tests leave behind\<close>

text \<open>Interrupts masked and the timer's output stopped.\<close>

definition net_off :: "gic_sys \<Rightarrow> bool" where
  "net_off s = (gh_rebooted s \<or> gh_masked s \<and> gh_ctl s AND 1 = 0)"

definition masked :: "gic_sys \<Rightarrow> bool" where
  "masked s = (gh_rebooted s \<or> gh_masked s)"

lemma take_irq_dead: "gh_rebooted s \<Longrightarrow> run_state take_irq s = ((), s)"
  by (simp add: take_irq_def)

lemma ensures_device:
  assumes "\<And>s. P s \<Longrightarrow> gh_rebooted s \<Longrightarrow> Q s" and "\<And>s. P s \<Longrightarrow> \<not> gh_rebooted s \<Longrightarrow> gh_masked (snd (f (tick s))) \<and> Q (settle (snd (f (tick s))))"
  shows "ensures P (device take_irq f) (\<lambda>_. Q)"
  unfolding ensures_def
proof (intro allI impI)
  fix s assume P: "P s"
  show "case run_state (device take_irq f) s of (x, s') \<Rightarrow> Q s'"
  proof (cases "gh_rebooted s")
    case True
    then show ?thesis using assms(1) P by (simp add: run_device)
  next
    case False
    then show ?thesis using assms(2) [OF P] by (simp add: run_device take_irq_masked)
  qed
qed

lemma acknowledge_keeps: "gh_masked (snd (acknowledge s)) = gh_masked s" "gh_ctl (snd (acknowledge s)) = gh_ctl s"
  "gh_rebooted (snd (acknowledge s)) = gh_rebooted s"
  by (simp_all add: acknowledge_def split: option.split)

lemma get_set_keeps [simp]:
  "gh_masked (snd (gic_get a s)) = gh_masked s" "gh_ctl (snd (gic_get a s)) = gh_ctl s" "gh_rebooted (snd (gic_get a s)) = gh_rebooted s"
  "gh_masked (gic_set a v s) = gh_masked s" "gh_ctl (gic_set a v s) = gh_ctl s"
  by (simp_all add: gic_get_def acknowledge_keeps gic_set_def)

lemma masked_after_disable: "ensures P (disable_irq_delivery take_irq) (\<lambda>_. masked)"
proof -
  have "ensures (\<lambda>_. True) (disable_irq_delivery take_irq) (\<lambda>_. masked)"
    unfolding disable_irq_delivery_def by (rule ensures_device) (simp_all add: masked_def)
  then show ?thesis by (rule ensures_weaken) simp_all
qed

lemma stopped_enable: "(((c OR CNTP_CTL_IMASK) AND NOT CNTP_CTL_ENABLE) AND 3) AND 1 = (0 :: u32)"
  by (rule bit_word_eqI) (auto simp: CNTP_CTL_ENABLE_def CNTP_CTL_IMASK_def bit_simps)

lemma off_after_shutdown: "ensures masked (generic_timer_shutdown take_irq) (\<lambda>_. net_off)"
  unfolding generic_timer_shutdown_def Let_def read_cntp_ctl_def write_cntp_ctl_def
  by (rule ensures_bind [where R = "\<lambda>_. masked"]; rule ensures_device) (auto simp: masked_def net_off_def stopped_enable)

lemma off_kept:
  "ensures net_off (mmio_read32 take_irq a) (\<lambda>_. net_off)" "ensures net_off (mmio_write32 take_irq a v) (\<lambda>_. net_off)"
  "ensures net_off (read_cntp_ctl take_irq) (\<lambda>_. net_off)"
  unfolding mmio_read32_def mmio_write32_def read_cntp_ctl_def
  by (rule ensures_device; simp add: net_off_def)+

text \<open>Whatever comes before it.\<close>

lemma ensures_skip: "(\<And>x. ensures (\<lambda>_. True) (f x) Q) \<Longrightarrow> ensures (\<lambda>_. True) (State_Monad.bind m f) Q"
  by (rule ensures_bind [OF ensures_anything]) (simp add: ensures_def)

lemma timer_tail:
  "ensures (\<lambda>_. True) (do {
     disable_irq_delivery take_irq;
     generic_timer_shutdown take_irq;
     (if b then mmio_write32 take_irq a v else State_Monad.return ());
     read_cntp_ctl take_irq;
     mmio_read32 take_irq a';
     n \<leftarrow> vars stage90_timer_irq_count;
     i \<leftarrow> vars stage90_last_timer_irq_id;
     if n > 0 \<and> (i = GIC_TIMER_PPI0_ID \<or> i = GIC_TIMER_PPI1_ID)
     then do { upd (\<lambda>s. s\<lparr>stage90_timer_selftest_passed := 1\<rparr>); State_Monad.return (Some True) }
     else do { upd (\<lambda>s. s\<lparr>stage90_timer_selftest_passed := 0\<rparr>); State_Monad.return (Some False) }
   }) (\<lambda>r s. r = Some True \<longrightarrow> net_off s)"
proof -
  have ups: "net_off s \<Longrightarrow> net_off (s\<lparr>stage90_timer_selftest_passed := v\<rparr>)" for s v by (simp add: net_off_def)
  have last: "ensures net_off (do { upd (\<lambda>s. s\<lparr>stage90_timer_selftest_passed := w\<rparr>); State_Monad.return r }) (\<lambda>r s. r = Some True \<longrightarrow> net_off s)"
    for w :: u32 and r by (simp add: ensures_def run_bind run_upd run_return ups)
  show ?thesis
    by (rule ensures_bind [OF masked_after_disable], rule ensures_bind [OF off_after_shutdown],
        rule ensures_bind [where R = "\<lambda>_. net_off"], simp add: off_kept ensures_return,
        rule ensures_bind [OF off_kept(3)], rule ensures_bind [OF off_kept(1)],
        rule ensures_bind [where R = "\<lambda>_. net_off"], simp add: ensures_vars,
        rule ensures_bind [where R = "\<lambda>_. net_off"], simp add: ensures_vars,
        rule ensures_if; rule last)
qed

lemma timer_selftest_off:
  "ensures (\<lambda>_. True) (gic_timer_selftest fuel take_irq) (\<lambda>r s. r = Some True \<longrightarrow> net_off s)"
  unfolding gic_timer_selftest_def Let_def
  by ((rule timer_tail | rule ensures_if | rule ensures_skip | (rule ensures_return, simp))+)

lemma sgi_tail:
  "ensures (\<lambda>_. True) (do {
     disable_irq_delivery take_irq;
     n \<leftarrow> vars stage90_sgi0_count;
     if n > 0 then do { upd (\<lambda>s. s\<lparr>stage90_sgi_selftest_passed := 1\<rparr>); State_Monad.return (Some True) }
     else do { upd (\<lambda>s. s\<lparr>stage90_sgi_selftest_passed := 0\<rparr>); State_Monad.return (Some False) }
   }) (\<lambda>r s. r = Some True \<longrightarrow> masked s)"
proof -
  have last: "ensures masked (do { upd (\<lambda>s. s\<lparr>stage90_sgi_selftest_passed := w\<rparr>); State_Monad.return r }) (\<lambda>r s. r = Some True \<longrightarrow> masked s)"
    for w :: u32 and r by (simp add: ensures_def run_bind run_upd run_return masked_def)
  show ?thesis
    by (rule ensures_bind [OF masked_after_disable], rule ensures_bind [where R = "\<lambda>_. masked"], simp add: ensures_vars,
        rule ensures_if; rule last)
qed

lemma sgi_selftest_masks:
  "ensures (\<lambda>_. True) (gic_sgi_selftest fuel take_irq) (\<lambda>r s. r = Some True \<longrightarrow> masked s)"
  unfolding gic_sgi_selftest_def Let_def
  by ((rule sgi_tail | rule ensures_if | rule ensures_skip | (rule ensures_return, simp))+)

lemma masked_forever:
  assumes "gh_masked s"
  shows "gh_masked ((payload_step ^^ m) s) \<and> gh_rebooted ((payload_step ^^ m) s) = gh_rebooted s \<and>
    statics ((payload_step ^^ m) s) = statics s"
  using assms
  by (induction m) (simp_all add: payload_step_def run_device take_irq_masked split: if_splits)

subsection \<open>The self tests return\<close>

text \<open>At most \<open>d\<close> accesses, each of the same cost.\<close>

definition paced :: "nat \<Rightarrow> (gic_sys, 'a) state \<Rightarrow> bool" where
  "paced d m = (\<forall>s. gh_cost (snd (run_state m s)) = gh_cost s \<and> gh_now s \<le> gh_now (snd (run_state m s)) \<and>
     gh_now (snd (run_state m s)) \<le> gh_now s + d * gh_cost s)"

lemma paced_bind:
  assumes m: "paced a m" and f: "\<And>x. paced b (f x)"
  shows "paced (a + b) (State_Monad.bind m f)"
  unfolding paced_def
proof
  fix s
  obtain x t where t: "run_state m s = (x, t)" by (rule prod.exhaust)
  then show "gh_cost (snd (run_state (State_Monad.bind m f) s)) = gh_cost s \<and> gh_now s \<le> gh_now (snd (run_state (State_Monad.bind m f) s)) \<and>
    gh_now (snd (run_state (State_Monad.bind m f) s)) \<le> gh_now s + (a + b) * gh_cost s"
    using m [unfolded paced_def, THEN spec, of s] f [of x, unfolded paced_def, THEN spec, of t]
    by (simp add: run_bind algebra_simps)
qed

lemma paced_zero: "paced 0 (State_Monad.return x)" "paced 0 (vars g)"
  by (simp_all add: paced_def run_return run_vars)

lemma paced_upd: "(\<And>s. gh_cost (f s) = gh_cost s) \<Longrightarrow> (\<And>s. gh_now (f s) = gh_now s) \<Longrightarrow> paced 0 (upd f)"
  by (simp add: paced_def run_upd)

lemma paced_if: "paced a m \<Longrightarrow> paced b n \<Longrightarrow> paced (max a b) (if c then m else n)"
  unfolding paced_def by (auto intro: le_trans [OF _ add_left_mono [OF mult_le_mono1]])

lemma paced_device:
  assumes "\<And>s. gh_cost (snd (f s)) = gh_cost s" and "\<And>s. gh_now (snd (f s)) = gh_now s" and ir: "paced d ir"
  shows "paced (Suc d) (device ir f)"
  unfolding paced_def
proof
  fix s
  have "gh_cost (settle (snd (f (tick s)))) = gh_cost s" "gh_now (settle (snd (f (tick s)))) = gh_now s + gh_cost s"
    using assms(1,2) [of "tick s"] by simp_all
  then show "gh_cost (snd (run_state (device ir f) s)) = gh_cost s \<and> gh_now s \<le> gh_now (snd (run_state (device ir f) s)) \<and>
    gh_now (snd (run_state (device ir f) s)) \<le> gh_now s + Suc d * gh_cost s"
    using ir [unfolded paced_def, THEN spec, of "settle (snd (f (tick s)))"] by (simp add: run_device)
qed

lemma pace_get_set [simp]:
  "gh_cost (snd (gic_get a s)) = gh_cost s" "gh_now (snd (gic_get a s)) = gh_now s"
  "gh_cost (gic_set a v s) = gh_cost s" "gh_now (gic_set a v s) = gh_now s"
proof -
  have "gh_cost (snd (acknowledge s)) = gh_cost s" "gh_now (snd (acknowledge s)) = gh_now s"
    by (simp_all add: acknowledge_def split: option.split)
  then show "gh_cost (snd (gic_get a s)) = gh_cost s" "gh_now (snd (gic_get a s)) = gh_now s" by (simp_all add: gic_get_def)
qed (simp_all add: gic_set_def)

lemma paced_accesses:
  assumes "paced d ir"
  shows "paced (Suc d) (mmio_read32 ir a)" "paced (Suc d) (mmio_write32 ir a v)" "paced (Suc d) (read_cntp_ctl ir)"
    "paced (Suc d) (write_cntp_ctl ir v)" "paced (Suc d) (read_cntp_tval ir)" "paced (Suc d) (write_cntp_tval ir v)"
    "paced (Suc d) (read_ticks ir)" "paced (Suc d) (enable_irq_delivery ir)" "paced (Suc d) (disable_irq_delivery ir)"
  unfolding mmio_read32_def mmio_write32_def read_cntp_ctl_def write_cntp_ctl_def read_cntp_tval_def write_cntp_tval_def read_ticks_def
    enable_irq_delivery_def disable_irq_delivery_def
  by (rule paced_device [OF _ _ assms]; simp)+

lemma paced_mono: "paced a m \<Longrightarrow> a \<le> b \<Longrightarrow> paced b m"
  unfolding paced_def by (meson add_left_mono le_trans mult_le_mono1)

lemma paced_shutdown: "paced d ir \<Longrightarrow> paced (2 * Suc d) (generic_timer_shutdown ir)"
  unfolding generic_timer_shutdown_def Let_def
  by (rule paced_mono, rule paced_bind, rule paced_accesses(3), assumption, rule paced_accesses(4), assumption) simp

lemma paced_reboot: "paced d ir \<Longrightarrow> paced (2 * Suc d) (platform_reboot ir)"
  unfolding platform_reboot_def
  by (rule paced_mono, rule paced_bind, rule paced_accesses(2), assumption, rule paced_accesses(2), assumption) simp

lemma paced_handler: "paced 9 (stage90_irq_c_handler quiet pc)"
proof -
  have q: "paced 0 quiet" by (simp add: quiet_def paced_zero)
  note a = paced_accesses [OF q] paced_shutdown [OF q] paced_reboot [OF q]
  show ?thesis
    unfolding stage90_irq_c_handler_def Let_def
    by (rule paced_mono, (rule paced_bind paced_if paced_zero a paced_upd; (simp add: record_sample_def Let_def; fail)?)+) simp
qed


lemma paced_irq: "paced 9 take_irq"
  unfolding paced_def
proof
  fix s
  show "gh_cost (snd (run_state take_irq s)) = gh_cost s \<and> gh_now s \<le> gh_now (snd (run_state take_irq s)) \<and>
    gh_now (snd (run_state take_irq s)) \<le> gh_now s + 9 * gh_cost s"
    using paced_handler [of "gh_pc s (gh_now s)", unfolded paced_def, THEN spec, of "s\<lparr>gh_masked := True\<rparr>"]
    by (simp add: take_irq_def irq_entry_def Let_def)
qed

lemma elapsed_long:
  assumes "n0 \<le> n" "n - n0 < 2 ^ 32" "unat limit * 20 + 20 \<le> n - n0"
  shows "\<not> timebase_elapsed_us (word_of_nat n0) (word_of_nat n) < limit"
proof -
  have d: "word_of_nat n - word_of_nat n0 = (word_of_nat (n - n0) :: u64)" using assms(1) by (simp add: of_nat_diff)
  have u: "unat (word_of_nat (n - n0) :: u64) = n - n0" using assms(2) by (simp add: unat_of_nat)
  have "unat (timebase_elapsed_us (word_of_nat n0) (word_of_nat n)) = (n - n0) * 5 div 96"
    using assms(2) by (simp add: unat_elapsed d u)
  moreover have "unat limit \<le> (n - n0) * 5 div 96" using assms(3) by linarith
  ultimately show ?thesis by (simp add: word_less_nat_alt)
qed

lemma wait_loop_ends:
  assumes "0 < gh_cost s" "20 * gh_cost s \<le> 2 ^ 30" "unat limit \<le> 100000" "n0 \<le> gh_now s"
    "gh_now s \<le> n0 + unat limit * 20 + 20 + 10 * gh_cost s"
    "n0 + unat limit * 20 + 20 + 10 * gh_cost s < gh_now s + fuel"
  shows "fst (run_state (wait_loop going limit take_irq fuel (word_of_nat n0)) s)"
  using assms
proof (induction fuel arbitrary: s)
  case 0
  then show ?case by simp
next
  case (Suc fuel)
  obtain t where t: "run_state (read_ticks take_irq) s = (word_of_nat (gh_now s + gh_cost s), t)" if "\<not> gh_rebooted s"
    by (simp add: read_ticks_def run_device)
  show ?case
  proof (cases "going s \<and> \<not> gh_rebooted s")
    case False
    then show ?thesis by (auto simp: run_bind run_vars run_return)
  next
    case True
    note t = t [OF True [THEN conjunct2]]
    have p: "gh_cost t = gh_cost s" "gh_now s + gh_cost s \<le> gh_now t" "gh_now t \<le> gh_now s + 10 * gh_cost s"
      using t True paced_irq [unfolded paced_def, THEN spec, of "tick s"] by (auto simp: read_ticks_def run_device)
    show ?thesis
    proof (cases "timebase_elapsed_us (word_of_nat n0) (word_of_nat (gh_now s + gh_cost s)) < limit")
      case False
      then show ?thesis using t True by (simp add: run_bind run_vars run_return)
    next
      case less: True
      have near: "gh_now s + gh_cost s < n0 + unat limit * 20 + 20"
      proof (rule ccontr)
        assume "\<not> ?thesis"
        then have "unat limit * 20 + 20 \<le> gh_now s + gh_cost s - n0" by linarith
        moreover have "gh_now s + gh_cost s - n0 < 2 ^ 32" using Suc.prems(2,3,5) by simp
        ultimately show False using elapsed_long [of n0 "gh_now s + gh_cost s" limit] Suc.prems(4) less by simp
      qed
      have "fst (run_state (wait_loop going limit take_irq fuel (word_of_nat n0)) t)"
        using Suc.prems p near by (intro Suc.IH) linarith+
      then show ?thesis using t True less by (simp add: run_bind run_vars)
    qed
  qed
qed


definition costs :: "nat \<Rightarrow> gic_sys \<Rightarrow> bool" where
  "costs c s = (gh_cost s = c)"

lemma paced_then: "paced d m \<Longrightarrow> (\<And>x. ensures (costs c) (f x) Q) \<Longrightarrow> ensures (costs c) (State_Monad.bind m f) Q"
  unfolding ensures_def paced_def costs_def run_bind by (metis (no_types, lifting) case_prod_beta prod.collapse)

lemma wait_then:
  assumes "\<And>x. ensures (\<lambda>_. True) (m x) Q" and "0 < c" "20 * c \<le> 2 ^ 30" "unat limit \<le> 100000" "unat limit * 20 + 20 + 10 * c < fuel"
  shows "ensures (costs c) (State_Monad.bind (read_ticks take_irq) (\<lambda>start. State_Monad.bind (wait_loop going limit take_irq fuel start)
    (\<lambda>ended. if \<not> ended then State_Monad.return None else m ended))) Q"
  unfolding ensures_def
proof (intro allI impI)
  fix s assume "costs c s"
  obtain v t where r: "run_state (read_ticks take_irq) s = (v, t)" by (rule prod.exhaust)
  obtain n0 where v: "v = word_of_nat n0" and n: "gh_cost t = c" "n0 \<le> gh_now t" "gh_now t \<le> n0 + 10 * c"
  proof (cases "gh_rebooted s")
    case True
    then have "v = word_of_nat (gh_now s)" "t = s" using r by (auto simp add: read_ticks_def run_device)
    then show ?thesis using that [of "gh_now s"] \<open>costs c s\<close> by (simp add: costs_def)
  next
    case False
    then have v: "v = word_of_nat (gh_now s + gh_cost s)" and t: "t = snd (run_state take_irq (tick s))"
      using r by (simp_all add: read_ticks_def run_device)
    have "gh_cost t = c" "gh_now s + gh_cost s \<le> gh_now t" "gh_now t \<le> gh_now s + gh_cost s + 9 * c"
      using paced_irq [unfolded paced_def, THEN spec, of "tick s"] \<open>costs c s\<close> unfolding t by (simp_all add: costs_def)
    then show ?thesis using that [OF v] by simp
  qed
  obtain ended u where w: "run_state (wait_loop going limit take_irq fuel v) t = (ended, u)" by (rule prod.exhaust)
  have "ended" using wait_loop_ends [of t limit n0 fuel going] n assms(2-5) w v by simp
  then show "case run_state (State_Monad.bind (read_ticks take_irq) (\<lambda>start. State_Monad.bind (wait_loop going limit take_irq fuel start)
    (\<lambda>ended. if \<not> ended then State_Monad.return None else m ended))) s of (x, s') \<Rightarrow> Q x s'"
    using r w assms(1) [of ended] by (simp add: run_bind ensures_def)
qed

lemma selftests_return:
  assumes "0 < gh_cost s" and "20 * gh_cost s \<le> 2 ^ 30" and "1000020 + 10 * gh_cost s < fuel"
  shows "fst (run_state (gic_sgi_selftest fuel take_irq) s) \<noteq> None \<and> fst (run_state (gic_timer_selftest fuel take_irq) s) \<noteq> None"
proof -
  define c where "c = gh_cost s"
  note c = assms [folded c_def]
  have "unat (20000 :: u32) * 20 + 20 + 10 * c < fuel" "unat (50000 :: u32) * 20 + 20 + 10 * c < fuel"
    "unat (20000 :: u32) \<le> 100000" "unat (50000 :: u32) \<le> 100000" using c(3) by simp_all
  note wait = wait_then [OF _ c(1,2) this(3) this(1)] wait_then [OF _ c(1,2) this(4) this(2)]
  note rules = paced_accesses [OF paced_irq] paced_shutdown [OF paced_irq] paced_zero paced_upd
  have "ensures (costs c) (gic_sgi_selftest fuel take_irq) (\<lambda>r _. r \<noteq> None)"
    unfolding gic_sgi_selftest_def Let_def
    by ((rule wait | rule ensures_if | (rule paced_then, (rule rules; (simp add: reset_irq_counters_def; fail)?)) | rule ensures_skip | (rule ensures_return, simp))+)
  moreover have "ensures (costs c) (gic_timer_selftest fuel take_irq) (\<lambda>r _. r \<noteq> None)"
    unfolding gic_timer_selftest_def Let_def
    by ((rule wait | rule ensures_if | (rule paced_then, (rule rules; (simp add: reset_irq_counters_def; fail)?)) | rule ensures_skip | (rule ensures_return, simp))+)
  ultimately show ?thesis unfolding ensures_def costs_def c_def case_prod_beta by blast
qed

subsection \<open>Relations every access keeps\<close>

text \<open>A preorder on states that the hardware keeps, and every assignment to the statics but the flag of the
  dead-man, holds between the states before and after any code of the file but the arming.\<close>

locale kept_relation =
  fixes R :: "gic_sys \<Rightarrow> gic_sys \<Rightarrow> bool"
  assumes R_refl: "R s s" and R_trans: "R s t \<Longrightarrow> R t u \<Longrightarrow> R s u"
    and R_tick: "R s (tick s)" and R_settle: "R s (settle s)"
    and R_get: "R s (snd (gic_get a s))" and R_set: "R s (gic_set a v s)"
    and R_timer: "R s (s\<lparr>gh_ctl := c\<rparr>)" "R s (s\<lparr>gh_cmp := n\<rparr>)" "R s (s\<lparr>gh_masked := b\<rparr>)"
    and R_statics: "gic_hw.truncate t = gic_hw.truncate s \<Longrightarrow> g_stage90_deadman_armed t = g_stage90_deadman_armed s \<Longrightarrow> R s t"
begin

definition related :: "(gic_sys, 'a) state \<Rightarrow> bool" where
  "related m = (\<forall>s. R s (snd (run_state m s)))"

lemma related_bind:
  assumes "related m" and "\<And>x. related (f x)"
  shows "related (State_Monad.bind m f)"
  unfolding related_def
proof
  fix s
  obtain x t where t: "run_state m s = (x, t)" by (rule prod.exhaust)
  show "R s (snd (run_state (State_Monad.bind m f) s))"
    using assms(1) [unfolded related_def, THEN spec, of s] assms(2) [of x, unfolded related_def, THEN spec, of t] R_trans t
    by (auto simp: run_bind)
qed

lemma related_return: "related (State_Monad.return x)"
  by (simp add: related_def run_return R_refl)

lemma related_vars: "related (vars f)"
  by (simp add: related_def run_vars R_refl)

lemma related_upd:
  "(\<And>s. gic_hw.truncate (f s) = gic_hw.truncate s) \<Longrightarrow> (\<And>s. g_stage90_deadman_armed (f s) = g_stage90_deadman_armed s) \<Longrightarrow> related (upd f)"
  by (simp add: related_def run_upd R_refl R_statics)

lemma related_if: "(b \<Longrightarrow> related m) \<Longrightarrow> (\<not> b \<Longrightarrow> related n) \<Longrightarrow> related (if b then m else n)"
  by simp

lemma related_device:
  assumes "\<And>s. R s (snd (f s))" and "related ir"
  shows "related (device ir f)"
proof -
  have "R s (snd (run_state ir (settle (snd (f (tick s))))))" for s
    using assms(2) [unfolded related_def, THEN spec, of "settle (snd (f (tick s)))"]
    by (rule R_trans [OF R_trans [OF R_trans [OF R_tick assms(1)] R_settle]])
  then show ?thesis by (simp add: related_def run_device R_refl)
qed

lemma related_accesses:
  assumes "related ir"
  shows "related (mmio_read32 ir a)" "related (mmio_write32 ir a v)" "related (read_cntp_ctl ir)" "related (write_cntp_ctl ir v)"
    "related (read_cntp_tval ir)" "related (write_cntp_tval ir v)" "related (read_ticks ir)" "related (enable_irq_delivery ir)"
    "related (disable_irq_delivery ir)"
  unfolding mmio_read32_def mmio_write32_def read_cntp_ctl_def write_cntp_ctl_def read_cntp_tval_def write_cntp_tval_def read_ticks_def
    enable_irq_delivery_def disable_irq_delivery_def
  by (rule related_device [OF _ assms]; simp add: R_refl R_get R_set R_timer)+

lemmas related_rules = related_bind related_return related_vars related_upd related_if related_accesses

lemma related_shutdown: "related ir \<Longrightarrow> related (generic_timer_shutdown ir)"
  unfolding generic_timer_shutdown_def Let_def by (intro related_rules)

lemma related_reboot: "related ir \<Longrightarrow> related (platform_reboot ir)"
  unfolding platform_reboot_def by (intro related_rules)

lemma related_handler: "related (stage90_irq_c_handler quiet pc)"
proof -
  have q: "related quiet" by (simp add: quiet_def related_return)
  show ?thesis
    unfolding stage90_irq_c_handler_def Let_def
    by (intro related_rules related_shutdown related_reboot q; simp add: record_sample_def Let_def gic_hw.truncate_def)
qed

lemma related_irq: "related take_irq"
proof -
  have "R s (irq_entry s)" for s
  proof -
    note h = R_trans [OF R_timer(3) related_handler [of "gh_pc s (gh_now s)", unfolded related_def, THEN spec, of "s\<lparr>gh_masked := True\<rparr>"]]
    show ?thesis using h R_trans [OF h R_timer(3) [of _ "gh_masked s"]] by (simp add: irq_entry_def Let_def)
  qed
  then show ?thesis by (simp add: related_def take_irq_def R_refl)
qed

lemma related_wait: "related (wait_loop going limit take_irq fuel start)"
  by (induction fuel) (auto intro!: related_rules related_irq)

lemma related_selftests: "related (gic_sgi_selftest fuel take_irq)" "related (gic_timer_selftest fuel take_irq)"
  unfolding gic_sgi_selftest_def gic_timer_selftest_def Let_def
  by (intro related_rules related_shutdown related_irq related_wait; simp add: reset_irq_counters_def gic_hw.truncate_def)+

lemma related_step: "R s (payload_step s)"
proof -
  have "related (device take_irq (\<lambda>s. ((), s)))" by (rule related_device) (simp_all add: R_refl related_irq)
  then show ?thesis by (simp add: related_def payload_step_def)
qed

end

text \<open>The flag stays set, or the system was reset; other interrupts only go away.\<close>

definition flagged :: "gic_sys \<Rightarrow> bool" where
  "flagged s = (gh_rebooted s \<or> g_stage90_deadman_armed s = 1)"

lemma acknowledge_flag: "g_stage90_deadman_armed (snd (acknowledge s)) = g_stage90_deadman_armed s"
  by (simp add: acknowledge_def split: option.split)

lemma acknowledge_spi: "set (gh_spi (snd (acknowledge s))) \<subseteq> set (gh_spi s)"
  by (cases "pending_id s"; cases "gh_spi s") (auto simp: acknowledge_def)

interpretation flag: kept_relation "\<lambda>s t. flagged s \<longrightarrow> flagged t"
proof unfold_locales
  show "flagged s \<longrightarrow> flagged u" if "flagged s \<longrightarrow> flagged t" "flagged t \<longrightarrow> flagged u" for s t u using that by blast
  show "flagged s \<longrightarrow> flagged (snd (gic_get a s))" for s a
    by (simp add: flagged_def gic_get_def acknowledge_keeps acknowledge_flag)
  show "flagged s \<longrightarrow> flagged (gic_set a v s)" for s a v
    by (simp add: flagged_def gic_set_def)
  show "gic_hw.truncate t = gic_hw.truncate s \<Longrightarrow> g_stage90_deadman_armed t = g_stage90_deadman_armed s \<Longrightarrow> flagged s \<longrightarrow> flagged t" for s t
    by (simp add: flagged_def gic_hw.truncate_def)
qed (simp_all add: flagged_def)

interpretation spi: kept_relation "\<lambda>s t. set (gh_spi t) \<subseteq> set (gh_spi s)"
proof unfold_locales
  show "set (gh_spi (snd (gic_get a s))) \<subseteq> set (gh_spi s)" for s a
    using acknowledge_spi [of s] by (simp add: gic_get_def)
  show "set (gh_spi (gic_set a v s)) \<subseteq> set (gh_spi s)" for s a v
    by (simp add: gic_set_def)
  show "gic_hw.truncate t = gic_hw.truncate s \<Longrightarrow> set (gh_spi t) \<subseteq> set (gh_spi s)" for s t
    by (simp add: gic_hw.truncate_def)
qed auto

lemma flag_run: "flag.related m \<Longrightarrow> run_state m s = (x, s') \<Longrightarrow> flagged s \<Longrightarrow> flagged s'"
  unfolding flag.related_def by (drule spec [of _ s]) simp

lemma spi_run: "spi.related m \<Longrightarrow> run_state m s = (x, s') \<Longrightarrow> spis_ok s \<Longrightarrow> spis_ok s'"
  unfolding spi.related_def spis_ok_def by (drule spec [of _ s]) auto

lemma armed_flag: "ensures (\<lambda>_. True) (stage90_arm_deadman_reset True take_irq) (\<lambda>r s. r \<longrightarrow> flagged s)"
proof -
  have last: "ensures (\<lambda>_. True) (do { upd (\<lambda>s. s\<lparr>g_stage90_deadman_armed := 1\<rparr>); State_Monad.return True }) (\<lambda>r s. r \<longrightarrow> flagged s)"
    by (simp add: ensures_def run_bind run_upd run_return flagged_def)
  show ?thesis
    unfolding deadman_on_run by ((rule last | rule ensures_if | rule ensures_skip | (rule ensures_return, simp))+)
qed

end
