(* ===== verification/Payload_Disarm.thy ===== *)
theory Payload_Disarm
  imports Payload_Gic_Props
begin

text \<open>
  Disarming the dead-man leaves a timer that no longer interrupts, and the properties of the dead-man: it resets in
  time, the self tests take it down, and disarming silences it.
\<close>

unbundle bit_operations_syntax

subsection \<open>Disarming\<close>

text \<open>Nothing of the timer can be delivered, and the count of its interrupts is \<open>v\<close>.\<close>

definition silent :: "u32 \<Rightarrow> gic_sys \<Rightarrow> bool" where
  "silent v s = (based s \<and> gh_ctl s AND 1 = 0 \<and> \<not> gh_latch s \<and> gh_enable s AND GIC_TIMER_PPI_MASK = 0 \<and> gh_ppi s \<in> {18, 19} \<and>
     spis_ok s \<and> stage90_timer_irq_count s = v)"

lemma stopped_level: "gh_ctl s AND 1 = 0 \<Longrightarrow> \<not> timer_level s"
proof
  assume a: "gh_ctl s AND 1 = 0" and l: "timer_level s"
  have "bit (gh_ctl s AND 3) 0" using l by (simp add: timer_level_def)
  then have "bit (gh_ctl s AND 1) 0" unfolding bit_and_iff by (simp add: bit_simps)
  then show False using a by simp
qed

lemma silent_tick: "silent v s \<Longrightarrow> silent v (tick s)"
  using stopped_level [of "tick s"] settings_based [of s "tick s"] by (simp add: silent_def spis_ok_def latch_tick)

lemma silent_settle: "silent v s \<Longrightarrow> silent v (settle s)"
  using stopped_level [of s] settings_based [of s "settle s"] by (simp add: silent_def spis_ok_def latch_settle)

lemma ensures_quiet:
  assumes "\<And>s. P s \<Longrightarrow> gh_rebooted s \<Longrightarrow> Q (fst (f s)) s" and "\<And>s. P s \<Longrightarrow> \<not> gh_rebooted s \<Longrightarrow> Q (fst (f (tick s))) (settle (snd (f (tick s))))"
  shows "ensures P (device quiet f) Q"
  using assms by (simp add: ensures_def run_device run_quiet)

lemma silent_acknowledge:
  assumes "silent v s"
  shows "silent v (snd (acknowledge s)) \<and> fst (acknowledge s) AND 0x3ff \<notin> {18, 19}"
proof -
  have p: "\<not> timer_pending s" using assms stopped_level [of s] by (auto simp: silent_def timer_pending_def)
  show ?thesis
  proof (cases "pending_id s")
    case None
    then show ?thesis using assms by (simp add: acknowledge_def GICC_SPURIOUS_ID_def)
  next
    case (Some i)
    then have "i = 0 \<or> (\<exists>t q. gh_spi s = (t, i) # q)" using p by (auto simp: pending_id_def split: if_splits list.splits prod.splits)
    then have "i \<notin> {18, 19}" "i AND 0x3ff = i" and tl: "i \<noteq> 0 \<Longrightarrow> \<forall>(t, j) \<in> set (tl (gh_spi s)). j \<notin> {0, 18, 19, 0x3ff} \<and> j AND 0x3ff = j"
      using assms by (auto simp: silent_def spis_ok_def)
    then show ?thesis using assms Some
      by (auto simp: acknowledge_def silent_def spis_ok_def based_def distBase_def cpuBase_def)
  qed
qed

lemma silent_handler: "ensures (silent v) (stage90_irq_c_handler quiet pc) (\<lambda>_. silent v)"
proof -
  have u: "silent v s \<Longrightarrow> silent v (record_sample pc (s\<lparr>stage90_irq_count := a, stage90_last_iar := b, stage90_last_irq_id := c\<rparr>))"
    "silent v s \<Longrightarrow> silent v (s\<lparr>stage90_sgi0_count := a\<rparr>)" "silent v s \<Longrightarrow> silent v (s\<lparr>stage90_spurious_irq_count := a\<rparr>)"
    "silent v s \<Longrightarrow> silent v (s\<lparr>stage90_other_irq_count := a\<rparr>)" "silent v s \<Longrightarrow> silent v (s\<lparr>gh_active := d\<rparr>)" for s a b c d
    by (simp_all add: silent_def record_sample_def Let_def based_def distBase_def cpuBase_def spis_ok_def)
  have iar: "ensures (silent v) (mmio_read32 quiet (GICC_BASE + GICC_IAR)) (\<lambda>x s. silent v s \<and> x AND 0x3ff \<notin> {18, 19})"
    unfolding mmio_read32_def
    by (rule ensures_quiet) (auto simp: gic_get_iar intro: silent_settle dest: silent_acknowledge silent_tick)
  have eoi: "ensures (silent v) (mmio_write32 quiet (GICC_BASE + GICC_EOIR) x) (\<lambda>_. silent v)" for x
    unfolding mmio_write32_def
    by (rule ensures_quiet) (auto simp: gic_set_eoir intro: silent_settle silent_tick u)
  have run: "case run_state (stage90_irq_c_handler quiet pc) s of (x, s') \<Rightarrow> silent v s'" if s: "silent v s" for s
  proof -
    obtain x t where t: "run_state (mmio_read32 quiet (GICC_BASE + GICC_IAR)) s = (x, t)" by (rule prod.exhaust)
    have x: "silent v t" "x AND 0x3ff \<noteq> 18" "x AND 0x3ff \<noteq> 19" using ensuresD [OF iar s t] by simp_all
    have e: "silent v (snd (run_state (mmio_write32 quiet (GICC_BASE + GICC_EOIR) x) y))" if "silent v y" for y
      using ensuresD [OF eoi that] by (metis prod.collapse)
    have c: "cpuBase s = GICC_BASE" using s by (simp add: silent_def based_def)
    show ?thesis
      using x by (simp add: stage90_irq_c_handler_def run_bind run_vars run_upd run_return c t gic_ids Let_def case_prod_beta e u)
  qed
  then show ?thesis by (simp add: ensures_def)
qed

lemma silent_step: "silent v s \<Longrightarrow> silent v (payload_step s)"
proof -
  assume s: "silent v s"
  have m: "silent v (x\<lparr>gh_masked := b\<rparr>) = silent v x" for x b
    by (simp add: silent_def based_def distBase_def cpuBase_def spis_ok_def)
  have "silent v (irq_entry x)" if "silent v x" for x
    using silent_handler [of v "gh_pc x (gh_now x)", unfolded ensures_def case_prod_beta, THEN spec, of "x\<lparr>gh_masked := True\<rparr>"] that
    by (simp add: irq_entry_def Let_def m)
  then show ?thesis
    using s silent_tick [OF s] by (simp add: payload_step_def run_device take_irq_def)
qed

lemma silent_steps: "silent v s \<Longrightarrow> silent v ((payload_step ^^ m) s)"
  by (induction m) (simp_all add: silent_step)

definition orderly :: "gic_sys \<Rightarrow> bool" where
  "orderly s = (based s \<and> gh_ppi s \<in> {18, 19} \<and> spis_ok s)"

lemma orderly_run:
  assumes "leaves settings m" and "spi.related m"
  shows "ensures orderly m (\<lambda>_. orderly)"
  unfolding ensures_def
proof (intro allI impI)
  fix s assume s: "orderly s"
  obtain x t where t: "run_state m s = (x, t)" by (rule prod.exhaust)
  have e: "settings t = settings s" using assms(1) s t by (simp add: leaves_def orderly_def) (metis snd_conv)
  then have "gh_ppi t = gh_ppi s" by (simp add: settings_def)
  then show "case run_state m s of (x, s') \<Rightarrow> orderly s'"
    using settings_based [OF e] spi_run [OF assms(2) t] s t by (simp add: orderly_def)
qed

lemma orderly_kept:
  "orderly s \<Longrightarrow> orderly (tick s)" "orderly s \<Longrightarrow> orderly (settle s)" "orderly s \<Longrightarrow> orderly (snd (gic_get a s))"
  "orderly s \<Longrightarrow> orderly (gic_set a v s)"
proof -
  have o: "orderly t" if "orderly s" "GIC_state_stage90 t = GIC_state_stage90 s" "gh_ppi t = gh_ppi s" "set (gh_spi t) \<subseteq> set (gh_spi s)" for s t
    using that by (auto simp: orderly_def based_def distBase_def cpuBase_def spis_ok_def)
  show "orderly s \<Longrightarrow> orderly (tick s)" "orderly s \<Longrightarrow> orderly (settle s)" by (erule o; simp)+
  have a: "GIC_state_stage90 (snd (acknowledge s)) = GIC_state_stage90 s" "gh_ppi (snd (acknowledge s)) = gh_ppi s" for s :: gic_sys
    by (simp_all add: acknowledge_def split: option.split)
  show "orderly s \<Longrightarrow> orderly (snd (gic_get a s))" by (erule o) (use a acknowledge_spi [of s] in \<open>simp_all add: gic_get_def\<close>)
  show "orderly s \<Longrightarrow> orderly (gic_set a v s)" by (erule o; simp add: gic_set_def)
qed


lemma orderly_hw: "orderly s \<Longrightarrow> orderly (s\<lparr>gh_masked := b\<rparr>)" "orderly s \<Longrightarrow> orderly (s\<lparr>gh_ctl := c\<rparr>)"
  "orderly s \<Longrightarrow> orderly (s\<lparr>stage90_irq_sample_mode := w\<rparr>)" "orderly s \<Longrightarrow> orderly (s\<lparr>gh_enable := v\<rparr>)"
  by (simp_all add: orderly_def based_def distBase_def cpuBase_def spis_ok_def)

definition off_orderly :: "gic_sys \<Rightarrow> bool" where
  "off_orderly s = (orderly s \<and> net_off s)"

definition disarmed :: "gic_sys \<Rightarrow> bool" where
  "disarmed s = (gh_rebooted s \<or> gh_masked s \<and> silent (stage90_timer_irq_count s) s)"

lemma stop_off: "ensures orderly (stage90_stop_pc_sampling_watchdog take_irq) (\<lambda>_. off_orderly)"
proof -
  have a: "ensures orderly (disable_irq_delivery take_irq) (\<lambda>_ s. orderly s \<and> masked s)"
    unfolding disable_irq_delivery_def by (rule ensures_device) (simp_all add: masked_def orderly_kept orderly_hw)
  have b: "ensures (\<lambda>s. orderly s \<and> masked s) (generic_timer_shutdown take_irq) (\<lambda>_. off_orderly)"
    unfolding generic_timer_shutdown_def Let_def read_cntp_ctl_def write_cntp_ctl_def
    by (rule ensures_bind [where R = "\<lambda>_ s. orderly s \<and> masked s"]; rule ensures_device)
      (auto simp: masked_def off_orderly_def net_off_def stopped_enable orderly_kept orderly_hw)
  have c: "ensures off_orderly (upd (\<lambda>s. s\<lparr>stage90_irq_sample_mode := 0\<rparr>)) (\<lambda>_. off_orderly)"
    by (rule ensures_upd) (simp_all add: off_orderly_def orderly_hw, simp add: net_off_def)
  show ?thesis unfolding stage90_stop_pc_sampling_watchdog_def by (rule ensures_bind [OF a ensures_bind [OF b c]])
qed

lemma clear_enable: "e AND NOT m AND m = (0 :: u32)"
  by (rule bit_word_eqI) (simp add: bit_simps)

lemma disarm_enable: "ensures off_orderly (mmio_write32 take_irq (GICD_BASE + GICD_ICENABLER0) GIC_TIMER_PPI_MASK)
    (\<lambda>_ s. off_orderly s \<and> (gh_rebooted s \<or> gh_enable s AND GIC_TIMER_PPI_MASK = 0))"
proof -
  have "gic_set (GICD_BASE + GICD_ICENABLER0) v s = s\<lparr>gh_enable := gh_enable s AND NOT v\<rparr>" for v and s :: gic_sys
    by (simp add: gic_set_def gic_addresses)
  then show ?thesis
    unfolding mmio_write32_def
    by (intro ensures_device) (auto simp: off_orderly_def net_off_def orderly_kept orderly_hw clear_enable and.assoc)
qed

lemma mask_hits: "GIC_TIMER_PPI_MASK AND ppi_bit s \<noteq> 0" if "gh_ppi s \<in> {18, 19}"
  using ppi_mask_on [OF that, of 0] by (simp add: ppi_bit_def)

lemma disarm_pending:
  "ensures (\<lambda>s. off_orderly s \<and> (gh_rebooted s \<or> gh_enable s AND GIC_TIMER_PPI_MASK = 0))
    (mmio_write32 take_irq (GICD_BASE + GICD_ICPENDR0) GIC_TIMER_PPI_MASK) (\<lambda>_. disarmed)"
proof -
  have w: "gic_set (GICD_BASE + GICD_ICPENDR0) v s = s\<lparr>gh_latch := (gh_latch s \<and> v AND ppi_bit s = 0)\<rparr>" for v and s :: gic_sys
    by (simp add: gic_set_def gic_addresses)
  have "silent c (settle ((tick s)\<lparr>gh_latch := False\<rparr>))"
    if "orderly s" "gh_ctl s AND 1 = 0" "gh_enable s AND GIC_TIMER_PPI_MASK = 0" "stage90_timer_irq_count s = c" for s c
    using that by (intro silent_settle) (simp add: silent_def orderly_def based_def distBase_def cpuBase_def spis_ok_def)
  moreover have "GIC_TIMER_PPI_MASK AND ppi_bit (tick s) \<noteq> 0" if "orderly s" for s
    using that by (intro mask_hits) (simp add: orderly_def)
  ultimately show ?thesis
    unfolding mmio_write32_def
    by (intro ensures_device) (auto simp: w disarmed_def off_orderly_def net_off_def)
qed

lemma disarmed_reads:
  "ensures disarmed (mmio_read32 take_irq (GICD_BASE + GICD_ISENABLER0)) (\<lambda>_. disarmed)"
  "ensures disarmed (mmio_read32 take_irq (GICD_BASE + GICD_ISPENDR0)) (\<lambda>_. disarmed)"
  "ensures disarmed (read_cntp_ctl take_irq) (\<lambda>_. disarmed)"
proof -
  have g: "snd (gic_get (GICD_BASE + GICD_ISENABLER0) s) = s" "snd (gic_get (GICD_BASE + GICD_ISPENDR0) s) = s" for s :: gic_sys
    by (simp_all add: gic_get_def gic_addresses)
  show "ensures disarmed (mmio_read32 take_irq (GICD_BASE + GICD_ISENABLER0)) (\<lambda>_. disarmed)"
    "ensures disarmed (mmio_read32 take_irq (GICD_BASE + GICD_ISPENDR0)) (\<lambda>_. disarmed)"
    "ensures disarmed (read_cntp_ctl take_irq) (\<lambda>_. disarmed)"
    unfolding mmio_read32_def read_cntp_ctl_def
    by (rule ensures_device; auto simp: disarmed_def g silent_tick)+
qed

lemma disarm_disarms: "ensures orderly (stage90_disarm_deadman_timer take_irq) (\<lambda>r s. r \<and> disarmed s)"
proof -
  have o: "ensures orderly (mmio_read32 take_irq a) (\<lambda>_. orderly)" "ensures orderly (read_cntp_ctl take_irq) (\<lambda>_. orderly)" for a
    by (intro orderly_run leaves_accesses irq_leaves_settings spi.related_accesses spi.related_irq)+
  have d: "(GICD_BASE = 0) = False" by (simp add: GICD_BASE_def)
  have at: "distBase s = GICD_BASE" if "orderly s" for s using that by (simp add: orderly_def based_def)
  let ?body = "do {
       mmio_read32 take_irq (GICD_BASE + GICD_ISENABLER0);
       mmio_read32 take_irq (GICD_BASE + GICD_ISPENDR0);
       read_cntp_ctl take_irq;
       stage90_stop_pc_sampling_watchdog take_irq;
       mmio_write32 take_irq (GICD_BASE + GICD_ICENABLER0) GIC_TIMER_PPI_MASK;
       mmio_write32 take_irq (GICD_BASE + GICD_ICPENDR0) GIC_TIMER_PPI_MASK;
       mmio_read32 take_irq (GICD_BASE + GICD_ISENABLER0);
       mmio_read32 take_irq (GICD_BASE + GICD_ISPENDR0);
       read_cntp_ctl take_irq;
       State_Monad.return True
     }"
  have cut: "run_state (stage90_disarm_deadman_timer take_irq) s = run_state ?body s" if "orderly s" for s
    unfolding stage90_disarm_deadman_timer_def by (simp only: run_bind [of "vars distBase"] run_vars at [OF that] d prod.case if_False)
  have "ensures orderly ?body (\<lambda>r s. r \<and> disarmed s)"
    by (rule ensures_bind [OF o(1)], rule ensures_bind [OF o(1)], rule ensures_bind [OF o(2)], rule ensures_bind [OF stop_off],
        rule ensures_bind [OF disarm_enable], rule ensures_bind [OF disarm_pending], rule ensures_bind [OF disarmed_reads(1)],
        rule ensures_bind [OF disarmed_reads(2)], rule ensures_bind [OF disarmed_reads(3)], rule ensures_return) simp
  then show ?thesis using cut by (simp add: ensures_def)
qed

subsection \<open>Properties\<close>

text \<open>A board on which the timer's interrupt and one other are to come.\<close>

definition demo_gic :: gic_sys where
  "demo_gic = \<lparr>gh_dist_ctlr = 1, gh_typer = 0x68, gh_dist_iidr = 1, gh_enable = 0xffff, gh_priority0 = 0, gh_targets0 = 0,
     gh_cpu_ctlr = 1, gh_pmr = 0xff, gh_bpr = 0, gh_cpu_iidr = 1, gh_sgi0 = False, gh_ppi = 19, gh_edge = False, gh_latch = False,
     gh_seen = False, gh_spi = [(5, 35)], gh_active = None, gh_ctl = 0, gh_cmp = 0, gh_now = 0, gh_cost = 50000, gh_masked = True,
     gh_reason = 0, gh_rebooted = False, gh_pc = word_of_nat,
     GIC_state_stage90 = gs_zero\<lparr>gs_distBase := GICD_BASE, gs_cpuBase := GICC_BASE\<rparr>,
     stage90_irq_count = 0, stage90_last_iar = 0, stage90_last_irq_id = 0, stage90_sgi0_count = 0, stage90_spurious_irq_count = 0,
     stage90_timer_irq_count = 0, stage90_last_timer_irq_id = 0, stage90_last_timer_ctl = 0, stage90_other_irq_count = 0,
     stage90_sgi_selftest_passed = 0, stage90_irq_sample_count = 0, stage90_irq_sample_ring = replicate 16 0,
     stage90_irq_sample_budget_used = 0, stage90_irq_last_sampled_pc = 0, stage90_irq_sample_mode = 0,
     stage90_irq_sample_interval_ticks = 0, stage90_irq_sample_max = 0, stage90_irq_sample_watchdog_fired = 0,
     stage90_timer_selftest_passed = 0, g_stage90_deadman_armed = 0\<rparr>"

lemma demo_calm: "calm demo_gic"
  by (simp add: demo_gic_def calm_def based_def distBase_def cpuBase_def spis_ok_def)

text \<open>Evaluating the operations on a concrete state.\<close>

lemmas gic_eval = mmio_read32_def mmio_write32_def enable_irq_delivery_def disable_irq_delivery_def
  read_cntp_ctl_def write_cntp_ctl_def read_cntp_tval_def write_cntp_tval_def read_ticks_def generic_timer_shutdown_def
  platform_reboot_def take_irq_def irq_entry_def stage90_irq_c_handler_def record_sample_def Let_def
  gic_get_def gic_set_def acknowledge_def pending_id_def timer_pending_def tick_def settle_def timer_level_def ppi_bit_def
  distBase_def cpuBase_def
  GICD_CTLR_def GICD_TYPER_def GICD_IIDR_def GICD_ISENABLER0_def GICD_ICENABLER0_def GICD_ISPENDR0_def GICD_ICPENDR0_def
  GICD_IPRIORITY0_def GICD_ITARGETS0_def GICD_SGIR_def GICC_CTLR_def GICC_PMR_def GICC_BPR_def GICC_IAR_def GICC_EOIR_def
  GICC_IIDR_def GICC_IAR_INTID_MASK_def GICC_SPURIOUS_ID_def GIC_SGI0_ID_def GICD_SGIR_TARGET_SELF_def GIC_TIMER_PPI0_ID_def
  GIC_TIMER_PPI1_ID_def GIC_TIMER_PPI_MASK_def CNTP_CTL_ENABLE_def CNTP_CTL_IMASK_def STAGE90_IRQ_SAMPLE_RING_SIZE_def
  GICD_BASE_def GICC_BASE_def PSHOLD_REG_def RESTART_REASON_REG_def

lemmas gic_eval_runs = stage90_arm_deadman_reset_def stage90_arm_pc_sampling_watchdog_def gic_sgi_selftest_def gic_timer_selftest_def
  stage90_disarm_deadman_timer_def stage90_stop_pc_sampling_watchdog_def timebase_usec_to_ticks_def
  STAGE90_DEADMAN_INTERVAL_US_def STAGE90_DEADMAN_SAMPLES_def

lemma zeroed: "length r = n + m \<Longrightarrow> fold (\<lambda>i r. r[i := 0]) [0..<n] r = replicate n 0 @ drop n r"
proof (induction n arbitrary: m)
  case (Suc n)
  have "fold (\<lambda>i r. r[i := 0]) [0..<n] r = replicate n 0 @ drop n r" using Suc.IH [of "Suc m"] Suc.prems by simp
  moreover have "drop n r = r ! n # drop (Suc n) r" using Suc.prems by (simp add: Cons_nth_drop_Suc)
  ultimately show ?case by (simp add: replicate_append_same list_update_append)
qed simp

lemma reset_eval: "length (stage90_irq_sample_ring s) = 16 \<Longrightarrow>
  reset_irq_counters s = s\<lparr>stage90_irq_count := 0, stage90_last_iar := 0xffffffff, stage90_last_irq_id := 0xffffffff,
     stage90_sgi0_count := 0, stage90_spurious_irq_count := 0, stage90_timer_irq_count := 0, stage90_last_timer_irq_id := 0xffffffff,
     stage90_last_timer_ctl := 0xffffffff, stage90_other_irq_count := 0, stage90_irq_sample_count := 0,
     stage90_irq_sample_budget_used := 0, stage90_irq_last_sampled_pc := 0xffffffff, stage90_irq_sample_ring := replicate 16 0\<rparr>"
  by (simp add: reset_irq_counters_def STAGE90_IRQ_SAMPLE_RING_SIZE_def zeroed [where n = 16 and m = 0])

text \<open>Armed, and after each self test.\<close>

definition demo_armed :: gic_sys where
  "demo_armed = demo_gic\<lparr>gh_enable := 851967, gh_spi := [], gh_ctl := 1, gh_cmp := 2370000, gh_now := 700000, gh_masked := False,
     stage90_irq_count := 1, stage90_last_iar := 35, stage90_last_irq_id := 35, stage90_last_timer_irq_id := 4294967295,
     stage90_last_timer_ctl := 4294967295, stage90_other_irq_count := 1, stage90_irq_sample_count := 1,
     stage90_irq_sample_ring := (replicate 16 0)[0 := 550000], stage90_irq_last_sampled_pc := 550000, stage90_irq_sample_mode := 1,
     stage90_irq_sample_interval_ticks := 1920000, stage90_irq_sample_max := 600, g_stage90_deadman_armed := 1\<rparr>"

definition demo_sgi :: gic_sys where
  "demo_sgi = demo_armed\<lparr>gh_now := 1400000, gh_masked := True, stage90_last_iar := 0, stage90_last_irq_id := 0, stage90_sgi0_count := 1,
     stage90_other_irq_count := 0, stage90_sgi_selftest_passed := 1, stage90_irq_sample_ring := (replicate 16 0)[0 := 1150000],
     stage90_irq_last_sampled_pc := 1150000\<rparr>"

definition demo_timer :: gic_sys where
  "demo_timer = demo_sgi\<lparr>gh_now := 2800000, gh_ctl := 2, gh_cmp := 4320000, stage90_last_iar := 19, stage90_last_irq_id := 19,
     stage90_sgi0_count := 0, stage90_timer_irq_count := 1, stage90_last_timer_irq_id := 19, stage90_last_timer_ctl := 5,
     stage90_irq_sample_budget_used := 1, stage90_timer_selftest_passed := 1, stage90_irq_sample_ring := (replicate 16 0)[0 := 2250000],
     stage90_irq_last_sampled_pc := 2250000\<rparr>"

lemma demo_arms: "run_state (stage90_arm_deadman_reset True take_irq) demo_gic = (True, demo_armed)"
  by (simp add: gic_eval_runs running gic_eval demo_gic_def demo_armed_def gs_zero_def reset_eval)

lemma wait_over: "\<not> going s \<Longrightarrow> run_state (wait_loop going limit ir (Suc fuel) start) s = (True, s)"
  by (simp add: run_bind run_vars run_return)

lemma wait_on: "going s \<Longrightarrow> \<not> gh_rebooted s \<Longrightarrow> timebase_elapsed_us start (fst (run_state (read_ticks ir) s)) < limit \<Longrightarrow>
    run_state (wait_loop going limit ir (Suc fuel) start) s = run_state (wait_loop going limit ir fuel start) (snd (run_state (read_ticks ir) s))"
  by (simp add: run_bind run_vars run_return case_prod_beta)

lemma demo_sgi_run: "run_state (gic_sgi_selftest (Suc (Suc (Suc 0))) take_irq) demo_armed = (Some True, demo_sgi)"
  by (simp add: gic_eval_runs running gic_eval demo_gic_def demo_armed_def demo_sgi_def gs_zero_def reset_eval wait_over
    del: wait_loop.simps)

lemma demo_timer_run: "run_state (gic_timer_selftest (Suc (Suc (Suc 0))) take_irq) demo_sgi = (Some True, demo_timer)"
  by (simp add: gic_eval_runs running gic_eval demo_gic_def demo_armed_def demo_sgi_def demo_timer_def gs_zero_def reset_eval
    wait_over wait_on timebase_elapsed_us_def del: wait_loop.simps)

lemma demo_orderly: "orderly demo_armed"
  by (simp add: demo_gic_def demo_armed_def orderly_def based_def distBase_def cpuBase_def spis_ok_def)

text \<open>C21. The dead-man over time.  Armed on a processor with interrupts masked and no tick under way, with any other
  interrupts to come at any time and the timer's interrupt triggered by level or by edge, it resets the system however the
  payload goes on, as long as it leaves the controller and the timer alone: never before sixty seconds of ticks have passed
  since the call, and within the given number of steps.  Other interrupts use up none of its 600 samples.\<close>

theorem deadman_resets_in_time:
  assumes "calm s"
  shows "\<exists>s1. run_state (stage90_arm_deadman_reset True take_irq) s = (True, s1) \<and>
    (\<forall>m. \<not> gh_rebooted ((payload_step ^^ m) s1) \<or> gh_now s + 60 * 19200000 \<le> gh_now ((payload_step ^^ m) s1)) \<and>
    (\<exists>m \<le> 600 * 1920001. gh_rebooted ((payload_step ^^ m) s1))"
proof -
  have k: "1920000 = timebase_usec_to_ticks STAGE90_DEADMAN_INTERVAL_US" "0 < unat (1920000 :: u32)" "unat (1920000 :: u32) < 2 ^ 31"
    by (simp_all add: timebase_usec_to_ticks_def STAGE90_DEADMAN_INTERVAL_US_def Let_def)
  obtain s1 where run: "run_state (stage90_arm_deadman_reset True take_irq) s = (True, s1)"
    and on: "net_on STAGE90_DEADMAN_SAMPLES 1920000 s1" and since: "net_since STAGE90_DEADMAN_SAMPLES 1920000 (gh_now s) s1"
    using deadman_net [OF assms k] by blast
  have "\<not> gh_rebooted ((payload_step ^^ m) s1) \<or> gh_now s + 60 * 19200000 \<le> gh_now ((payload_step ^^ m) s1)" for m
    using net_since_steps [OF since, of m] by (auto simp: net_since_def STAGE90_DEADMAN_SAMPLES_def split: if_splits)
  moreover have "\<exists>m \<le> 600 * 1920001. gh_rebooted ((payload_step ^^ m) s1)"
    using net_on_fires [OF on] by (simp add: STAGE90_DEADMAN_SAMPLES_def)
  ultimately show ?thesis using run by blast
qed

lemma deadman_resets_in_time_witness:
  "\<exists>s1. run_state (stage90_arm_deadman_reset True take_irq) demo_gic = (True, s1) \<and>
    (\<exists>m \<le> 600 * 1920001. gh_rebooted ((payload_step ^^ m) s1) \<and> 60 * 19200000 \<le> gh_now ((payload_step ^^ m) s1))"
  using deadman_resets_in_time [OF demo_calm] by (auto simp: demo_gic_def)

text \<open>C22. The self tests take the dead-man down.  Whenever the payload arms the dead-man and then runs the two
  interrupt self tests, as kernel_entry does, and all three report success on a system that is still running, the flag says
  that the dead-man is armed, but interrupts are masked and the timer is stopped: however long the payload goes on, no
  interrupt is handled any more and nothing resets the system.\<close>

theorem selftests_disarm_deadman:
  assumes "run_state (do {
       a \<leftarrow> stage90_arm_deadman_reset True take_irq;
       b \<leftarrow> gic_sgi_selftest fuel take_irq;
       c \<leftarrow> gic_timer_selftest fuel take_irq;
       State_Monad.return (a, b, c)
     }) s = ((True, Some True, Some True), s')" and "\<not> gh_rebooted s'"
  shows "g_stage90_deadman_armed s' = 1 \<and> gh_masked s' \<and> gh_ctl s' AND 1 = 0 \<and>
    (\<forall>m. \<not> gh_rebooted ((payload_step ^^ m) s') \<and> stage90_irq_count ((payload_step ^^ m) s') = stage90_irq_count s')"
proof -
  obtain s1 s2 where s1: "run_state (stage90_arm_deadman_reset True take_irq) s = (True, s1)"
    and s2: "run_state (gic_sgi_selftest fuel take_irq) s1 = (Some True, s2)"
    and s3: "run_state (gic_timer_selftest fuel take_irq) s2 = (Some True, s')"
    using assms(1) by (auto simp: run_bind run_return split: prod.splits)
  have "flagged s1" using ensuresD [OF armed_flag _ s1] by simp
  then have "flagged s'" using flag_run [OF flag.related_selftests(1) s2] flag_run [OF flag.related_selftests(2) s3] by simp
  moreover have "net_off s'" using ensuresD [OF timer_selftest_off _ s3] by simp
  ultimately have off: "g_stage90_deadman_armed s' = 1" "gh_masked s'" "gh_ctl s' AND 1 = 0"
    using assms(2) by (simp_all add: flagged_def net_off_def)
  then show ?thesis using masked_forever [OF off(2)] assms(2) by (simp add: statics_def)
qed

lemma selftests_disarm_deadman_witness:
  "\<exists>s'. run_state (do {
       a \<leftarrow> stage90_arm_deadman_reset True take_irq;
       b \<leftarrow> gic_sgi_selftest (Suc (Suc (Suc 0))) take_irq;
       c \<leftarrow> gic_timer_selftest (Suc (Suc (Suc 0))) take_irq;
       State_Monad.return (a, b, c)
     }) demo_gic = ((True, Some True, Some True), s') \<and> g_stage90_deadman_armed s' = 1 \<and>
     \<not> gh_rebooted ((payload_step ^^ 1000000000) s')"
proof -
  have run: "run_state (do {
       a \<leftarrow> stage90_arm_deadman_reset True take_irq;
       b \<leftarrow> gic_sgi_selftest (Suc (Suc (Suc 0))) take_irq;
       c \<leftarrow> gic_timer_selftest (Suc (Suc (Suc 0))) take_irq;
       State_Monad.return (a, b, c)
     }) demo_gic = ((True, Some True, Some True), demo_timer)"
    by (simp only: run_bind run_return demo_arms demo_sgi_run demo_timer_run prod.case)
  have "\<not> gh_rebooted demo_timer" by (simp add: demo_timer_def demo_sgi_def demo_armed_def demo_gic_def)
  then show ?thesis using selftests_disarm_deadman [OF run] run by blast
qed

text \<open>C23. Disarming.  However the dead-man stands when it is disarmed, with an interrupt possibly pending or on its
  way, the call succeeds and leaves, unless the system was reset meanwhile, interrupts masked, the timer's output stopped,
  its interrupts off at the distributor and none latched; even if interrupts are then let in again and the payload goes on
  for ever, no further timer interrupt is counted and so the budget of the dead-man is never used up.\<close>

theorem disarm_silences_timer:
  assumes "orderly s" and "run_state (stage90_disarm_deadman_timer take_irq) s = (r, s')"
  shows "r \<and> (gh_rebooted s' \<or> gh_masked s' \<and> gh_ctl s' AND 1 = 0 \<and> gh_enable s' AND GIC_TIMER_PPI_MASK = 0 \<and> \<not> gh_latch s' \<and>
    (\<forall>m. stage90_timer_irq_count ((payload_step ^^ m) (s'\<lparr>gh_masked := False\<rparr>)) = stage90_timer_irq_count s'))"
proof -
  have d: "r" "disarmed s'" using ensuresD [OF disarm_disarms assms] by simp_all
  then show ?thesis
  proof (cases "gh_rebooted s'")
    case False
    then have s: "gh_masked s'" "silent (stage90_timer_irq_count s') s'" using d(2) by (simp_all add: disarmed_def)
    then have "silent (stage90_timer_irq_count s') (s'\<lparr>gh_masked := False\<rparr>)"
      by (simp add: silent_def based_def distBase_def cpuBase_def spis_ok_def)
    then have "silent (stage90_timer_irq_count s') ((payload_step ^^ m) (s'\<lparr>gh_masked := False\<rparr>))" for m by (rule silent_steps)
    then show ?thesis using d(1) s by (simp add: silent_def)
  qed simp
qed

lemma disarm_silences_timer_witness:
  "\<exists>s'. run_state (stage90_disarm_deadman_timer take_irq) demo_armed = (True, s') \<and> gh_masked s' \<and>
    stage90_timer_irq_count ((payload_step ^^ 1000000000) (s'\<lparr>gh_masked := False\<rparr>)) = 0"
proof -
  obtain r s' where run: "run_state (stage90_disarm_deadman_timer take_irq) demo_armed = (r, s')" by (rule prod.exhaust)
  moreover have "\<not> gh_rebooted (snd (run_state (stage90_disarm_deadman_timer take_irq) demo_armed)) \<and>
      stage90_timer_irq_count (snd (run_state (stage90_disarm_deadman_timer take_irq) demo_armed)) = 0"
    by (simp add: gic_eval_runs running gic_eval demo_gic_def demo_armed_def gs_zero_def)
  ultimately show ?thesis using disarm_silences_timer [OF demo_orderly run] by auto
qed

end
