(* ===== verification/Spec2Isabelle.thy ===== *)
theory Spec2Isabelle
  imports Prelude Aes_Vectors Crypto_Functions Cow_Disk Memory_Regions Dt_Roundtrip Handoff_Props Irq_Props Timebase Macho_Loader_Props Root_Media_Props Storage_Props Usb_Vars Usb_Transcript Mmu_Props Full_Pmap_Props Watchdog_Props Payload_Disarm
begin

text \<open>
  A model of the Mi 4 bring-up of XNU, and what makes its parts correct.  Paths below are under
  src/src/ of the repository.

  The program boots a Qualcomm MSM8974 phone into an XNU kernel.  A payload (stage90_main.c) builds
  a flattened device tree and boot arguments, loads the kernel image and hands over to it; an entry
  image beside the kernel answers its platform calls: interrupts, the time base, the crypto table,
  the root device.

  Parts, theories and code.

  Memory and bytes.  \<open>Prelude\<close>: bytes, 32- and 64-bit words, slices of buffers (\<open>slice\<close> reads,
  \<open>splice\<close> writes), little-endian words.  Machine integers are words throughout, so every wrap of
  the code is a wrap of the model; \<open>mem32\<close> is a byte memory over 32-bit addresses.

  Crypto (supply/stage90_aes.c, supply/stage90_crypto_functions.c).  \<open>Aes\<close> is the block cipher by
  its steps, \<open>Aes_Vectors\<close> its self-test vectors, \<open>Cbc\<close> the chained modes over a shared memory
  (so that in-place calls are the aliasing they are), \<open>Crypto_Functions\<close> the descriptor and its
  registration.  Shown: the two ciphers invert each other, the session round trip over memory, the
  refusals, the exact condition under which registration is silent, and that decryption in place
  is wrong.

  Root media (platform/stage90_root_media_cow.c, platform/stage90_root_media.c).  \<open>Cow\<close> is the
  copy-on-write shadow's data and operations, \<open>Cow_Table\<close> its open-addressing table as a finite
  map, \<open>Cow_Proofs\<close> its invariant (\<open>cow_wf\<close>) and the content it shows (\<open>cow_view\<close>), \<open>Cow_Disk\<close>
  the contract of an overlay disk as a locale, interpreted on the shadow.  \<open>Root_Media\<close> is the
  block driver over it: \<open>media_cfg\<close> holds the build switches, \<open>media_state\<close> the file's statics,
  \<open>dbuf\<close> the kernel's \<open>struct buf\<close>, \<open>ladder\<close> the door to the card.  \<open>Root_Media_Proofs\<close> ties the
  card unit to the disk it shows (\<open>root_view\<close>, \<open>root_good\<close>), \<open>Root_Media_Props\<close> states what reads,
  writes, refusals, staging and the registered geometry amount to.

  Storage (entry/entry_storage.c, probe value 60 and above).  \<open>Storage_Door\<close> is one command with its
  waits, the data reset and the block read and write doors, over a record of register accesses
  (\<open>sd_world\<close>) as state-monad steps, \<open>sd_state\<close> the file's statics; \<open>Storage_Select\<close> the partition
  table walk, the selection and its hand-over.  \<open>Storage_Card\<close> states what is asked of a working controller
  and card (\<open>sd_bus\<close>, \<open>sd_card\<close>) over abstract observations (\<open>sd_ghost\<close>): its phases (idle, resetting,
  reading, writing, programming) with their deadlines, that the registers of a transfer take writes when idle,
  that a command is obeyed when idle with one block of 512 bytes, the direction and a long enough data timeout
  set up, and that a written block is on the card when the programming ends; nothing is known of a command or
  a reset before that.  \<open>Storage_Proofs\<close> shows what the doors do over it, and that their waits end over any
  device whose counter runs (\<open>sd_clock\<close>), \<open>Storage_Table\<close> has the table as a function of the card's blocks.
  \<open>Storage_Props\<close>: the doors refine the \<open>ladder\<close> that \<open>Root_Media\<close> is written over, the selection is the
  first largest partition of the table's first 32 sectors, and what the read door answers when the card is out
  of the transfer state; with a simulated controller that meets the laws.

  Device tree (apple_dt.c, regions/xnu_memory_regions.c, stage90_main.c).  \<open>Apple_Dt\<close> is the builder
  with its overflow flag and the parser, \<open>Apple_Dt_Proofs\<close> the encoding of an abstract tree and the
  parser on it, \<open>Dt_Roundtrip\<close> the round trip.  \<open>Stage90_Tree\<close> is the tree the payload writes, node
  by node, over a record of the build switches; \<open>Stage90_Tree_Proofs\<close> and \<open>Stage90_Tree_Props\<close>
  show it well formed in every configuration and accepted by the parser and by the region walk of
  \<open>Memory_Regions\<close>.

  Handoff (boot_args.c, pe_state.c, pexpert.c, stage90_main.c).  \<open>Handoff\<close> and \<open>Handoff_Props\<close>: the
  boot arguments, the platform state read from the tree and its validation, and that the payload's
  own tree and arguments are accepted.

  Interrupts (entry/entry_irq.c, entry/entry_gic.h).  \<open>Entry_Irq\<close> is the registry, the per-line
  set-up, the dispatcher and the arming sequence over a record of device and kernel operations;
  \<open>Irq_Registry\<close> the registry as a map (a locale with its interpretation), \<open>Irq_Interleaving\<close> the
  registry calls one store at a time, interleaved with deliveries, as a step relation with its
  invariant by rule induction, \<open>Irq_Line\<close> the isolation of a line's set-up over a distributor as
  documented (\<open>gicd_laws\<close>, where \<open>held\<close> are the pending bits a write cannot clear), \<open>Irq_Props\<close> the properties.

  Time base (timebase.c).  \<open>Timebase\<close>: the tick conversions against exact rationals, the busy wait.

  Kernel loading (xnu_macho_loader.c, runtime.c).  \<open>Macho_Loader\<close>, \<open>Macho_Loader_Props\<close>: the load
  commands over one memory that holds image and destination, and what memory holds afterwards.

  USB (entry/entry_usb_enum.c, entry/entry_usb_stream.c).  \<open>Usb_Enum\<close> is the polled control endpoint,
  \<open>Usb_Stream\<close> the bulk stream of the console, over a record of register and cache operations
  (\<open>usb_world\<close>) and the memory shared with the controller (\<open>usb_ram\<close>).  \<open>Usb_Core\<close> is a reference
  controller and host (\<open>usb_core\<close>, \<open>usb_host\<close>) and what it means for a world to simulate it
  (\<open>usb_sim\<close>); \<open>Usb_View\<close> moves every operation along that simulation.  \<open>Usb_Prime\<close>, \<open>Usb_Reply\<close>,
  \<open>Usb_Request\<close>, \<open>Usb_Poll\<close> build up what one transfer, one request and one poll do, and
  \<open>Usb_Session\<close> states the enumeration against the replies written from the packets alone;
  \<open>Usb_Apart\<close>, \<open>Usb_Chunk\<close>, \<open>Usb_Transcript\<close> the stream next to the enumeration, as an inductive run
  of polls, host actions and console writes; \<open>Usb_Vars\<close> the typing that needs nothing of the device.

  Translation tables (mmu.c).  \<open>Arm_Mmu\<close> is the processor's side: the walk of a table of sections and
  small pages (\<open>l1_walk\<close>) and a machine (\<open>arm_machine\<close>) whose loads and stores go through it, an access
  that faults being skipped and recorded as the data-abort handler does.  \<open>Mmu\<close> is the identity table the
  payload runs under and the recovery table of the TTBR0 round trip, over \<open>mmu_cfg\<close> (build switches,
  linker addresses, the addresses read from the device tree); \<open>Mmu_Selftest\<close> and \<open>Mmu_Roundtrip\<close> the self
  tests that read through them.  \<open>Mmu_Identity\<close> states the identity table as a list of windows
  (\<open>identity_map\<close>), \<open>Mmu_Recovery\<close> the recovery table against it, \<open>Mmu_Boot\<close> what each test does on a
  board that answers, \<open>Mmu_Props\<close> the properties.

  Full kernel pmap (xnu_arm_vm_init_full_pmap.c).  \<open>Full_Pmap\<close> is the candidate table in its six phases, with
  the pool of second-level tables (\<open>pmap_tables\<close>), and the run that installs it, reads through it and goes
  back, over the machine of \<open>Arm_Mmu\<close>.  \<open>Full_Pmap_Table\<close> gives the tables in closed form (\<open>full_entries\<close>) and
  what they translate as a list of windows (\<open>full_map\<close>), under the layout the linker keeps (\<open>fp_layout\<close>);
  \<open>Full_Pmap_Props\<close> states the run on a board that answers, what it leaves alone on any machine, and where the
  candidate and the live table agree.

  Watchdog (hw_watchdog.c).  \<open>Watchdog\<close> is the driver over a record of register accesses (\<open>wdt_ops\<close>) and the
  device it describes (\<open>wdt\<close>); \<open>Watchdog_Props\<close> the exact outcome of arming and when the system is reset.

  Payload interrupts and the dead-man (gic.c, stage90_main.c).  \<open>Payload_Gic\<close> is the handler, the self tests,
  the sampling watchdog, the dead-man's arming and its disarming, as state-monad steps over the file's statics
  and a model of the controller, the timer and the delivery of interrupts at every access (\<open>gic_sys\<close>).
  \<open>Payload_Gic_Proofs\<close> holds the assertions (\<open>ensures\<close>) and what an interrupt leaves alone, \<open>Payload_Deadman\<close> what
  a handled interrupt does to the armed net, \<open>Payload_Arming\<close> that arming sets it up, \<open>Payload_Gic_Props\<close> what the
  self tests leave behind, that they return, and the relations every access keeps (a locale with two
  interpretations), \<open>Payload_Disarm\<close> the disarming and the properties.

  Fuel and bounds.  \<open>skip_node\<close> recurses over the nesting of a tree that may be malformed, and takes
  fuel: \<open>None\<close> is running out.  The round-trip theorems give the fuel that suffices (more than the
  depth of the tree), and the divergence theorem shows that on one blob no fuel does.  The busy wait
  is fuelled by the number of counter readings and the liveness theorem says at which reading it
  ends.  The storage waits that only the counter bounds take fuel: a register read takes at least a tick of
  the counter, so \<open>sd_fuel\<close> polls are more than any budget, and over a working controller every wait ends
  before its budget.  The read of a setup packet repeats when a newer packet cleared the tripwire; with fewer
  than \<open>n\<close> of them (\<open>setup_races\<close>) \<open>n\<close> passes are enough and the poll returns, and one is where the tripwire
  is kept.  The
  loops over sections count a 32-bit offset and take fuel; 4097 is enough within \<open>mmu_bounds\<close>, and with
  a bound in the last megabyte no fuel is.  The waits of the interrupt self tests end by the clock: fuel above
  1000020 + 10 * \<open>gh_cost\<close> is enough (\<open>selftests_return\<close>).  All other loops are structural.

  What is left out: live log records and console output; the storage ladder before its data reads
  (clocks, card identification, one recorded press per rung) and the decodes it only logs; the
  register probes, the dry-run contracts and the entry stubs, which keep no state the modelled parts
  use; cache maintenance, which the machine of \<open>Arm_Mmu\<close> does not see; the priority mask of the interrupt
  controller in \<open>Payload_Gic\<close>; the entry time base (entry/entry_timebase.c) and the USB controller's bring-up
  (entry/entry_usb_dev.c); C++ drivers, assembly and vendored code.
\<close>

end
